(* ===== verification/Prelude.thy ===== *)
theory Prelude
  imports Main "HOL-Library.AList"
begin

text \<open>
  What every component of the session controller shares: the collections of rewrite rules
  that carry the component proofs, the error result of fallible code, and the key/value
  hash that Redis stores (an association list with at most one entry per key), as an
  interface \<open>hash_store\<close> with its laws and its interpretation on the association lists
  the model uses.
\<close>

named_theorems script_defs \<open>definitions of the operations of the Redis script\<close>
named_theorems view_simps \<open>what an operation does to one field of the key space\<close>
named_theorems domain_defs \<open>schema predicates of the domain module\<close>

section \<open>Fallible code\<close>

text \<open>\<open>error + 'a\<close>: \<open>Inl\<close> is the thrown error class, \<open>Inr\<close> the returned value.\<close>

definition guard :: "bool \<Rightarrow> 'e \<Rightarrow> 'e + unit" where
  "guard b e = (if b then Inr () else Inl e)"

fun andThen :: "'e + 'a \<Rightarrow> ('a \<Rightarrow> 'e + 'b) \<Rightarrow> 'e + 'b" where
  "andThen (Inl e) f = Inl e"
| "andThen (Inr x) f = f x"

lemma guard_Inr [simp]: "guard b e = Inr u \<longleftrightarrow> b"
  by (simp add: guard_def)

lemma guard_Inl [simp]: "guard b e = Inl e' \<longleftrightarrow> \<not> b \<and> e' = e"
  by (auto simp: guard_def)

lemma andThen_Inr_iff [simp]: "andThen m f = Inr y \<longleftrightarrow> (\<exists>x. m = Inr x \<and> f x = Inr y)"
  by (cases m) auto

lemma andThen_Inl_iff:
  "andThen m f = Inl e \<longleftrightarrow> m = Inl e \<or> (\<exists>x. m = Inr x \<and> f x = Inl e)"
  by (cases m) auto

section \<open>Redis hashes\<close>

type_synonym 'v hash = "(string \<times> 'v) list"

definition hget :: "'v hash \<Rightarrow> string \<Rightarrow> 'v option" where
  "hget h k = map_of h k"

definition hset :: "string \<Rightarrow> 'v \<Rightarrow> 'v hash \<Rightarrow> 'v hash" where
  "hset k v h = AList.update k v h"

definition hdel :: "string \<Rightarrow> 'v hash \<Rightarrow> 'v hash" where
  "hdel k h = AList.delete k h"

definition hvals :: "'v hash \<Rightarrow> 'v list" where
  "hvals h = map snd h"

definition hash_wf :: "'v hash \<Rightarrow> bool" where
  "hash_wf h \<longleftrightarrow> distinct (map fst h)"

text \<open>The interface: what the script relies on of a hash.\<close>

locale hash_store =
  fixes lookup :: "'h \<Rightarrow> string \<Rightarrow> 'v option"
    and store :: "string \<Rightarrow> 'v \<Rightarrow> 'h \<Rightarrow> 'h"
    and remove :: "string \<Rightarrow> 'h \<Rightarrow> 'h"
    and vals :: "'h \<Rightarrow> 'v list"
    and wf :: "'h \<Rightarrow> bool"
  assumes lookup_store: "lookup (store k v h) k' = (if k' = k then Some v else lookup h k')"
    and lookup_remove: "lookup (remove k h) k' = (if k' = k then None else lookup h k')"
    and vals_lookup: "wf h \<Longrightarrow> set (vals h) = {v. \<exists>k. lookup h k = Some v}"
    and wf_store: "wf h \<Longrightarrow> wf (store k v h)"
    and wf_remove: "wf h \<Longrightarrow> wf (remove k h)"
begin

lemma lookup_store_same: "lookup (store k v h) k = Some v"
  by (simp add: lookup_store)

lemma lookup_remove_store: "k' \<noteq> k \<Longrightarrow> lookup (remove k (store k' v h)) k' = Some v"
  by (simp add: lookup_remove lookup_store)

lemma no_vals_iff: "wf h \<Longrightarrow> vals h = [] \<longleftrightarrow> (\<forall>k. lookup h k = None)"
  using vals_lookup [of h] by (auto simp flip: set_empty)

lemma all_vals_iff: "wf h \<Longrightarrow> (\<forall>v \<in> set (vals h). P v) \<longleftrightarrow> (\<forall>k v. lookup h k = Some v \<longrightarrow> P v)"
  by (auto simp: vals_lookup)

end

lemma hget_hset: "hget (hset k v h) k' = (if k' = k then Some v else hget h k')"
  by (simp add: hget_def hset_def update_conv)

lemma hget_hdel: "hget (hdel k h) k' = (if k' = k then None else hget h k')"
  by (simp add: hget_def hdel_def delete_conv)

lemma hvals_hget: "hash_wf h \<Longrightarrow> set (hvals h) = {v. \<exists>k. hget h k = Some v}"
  by (force simp: hget_def hvals_def hash_wf_def)

lemma hash_wf_hset: "hash_wf h \<Longrightarrow> hash_wf (hset k v h)"
  by (simp add: hash_wf_def hset_def distinct_update)

lemma hash_wf_hdel: "hash_wf h \<Longrightarrow> hash_wf (hdel k h)"
  by (simp add: hash_wf_def hdel_def distinct_delete)

interpretation rh: hash_store hget hset hdel hvals hash_wf
  by unfold_locales (simp_all add: hget_hset hget_hdel hvals_hget hash_wf_hset hash_wf_hdel)

declare hget_hset [simp] hget_hdel [simp] hash_wf_hset [simp] hash_wf_hdel [simp]

lemma hget_Nil [simp]: "hget [] k = None"
  by (simp add: hget_def)

lemma hash_wf_Nil [simp]: "hash_wf []"
  by (simp add: hash_wf_def)

lemma hvals_Nil [simp]: "hvals [] = []"
  by (simp add: hvals_def)

lemma hget_Cons: "hget ((k, v) # h) k' = (if k' = k then Some v else hget h k')"
  by (simp add: hget_def)

end
