(* ===== verification/Decimal.thy ===== *)
theory Decimal
  imports Prelude "HOL-Library.Char_ord"
begin

text \<open>
  The decimal-string counters of \<open>src/session-controller/src/redis/scripts.ts\<close>
  (\<open>inc\<close> and \<open>less\<close>): cursors, sequence numbers, lease epochs and revisions are kept
  as decimal strings, because Lua numbers are doubles. Here: the two Lua functions on
  character lists, JavaScript's \<open>String(n)\<close> for a natural number, and their correctness
  against the natural numbers.
\<close>

section \<open>The Lua functions\<close>

fun inc_loop :: "string \<Rightarrow> int \<Rightarrow> string \<Rightarrow> int \<times> string" where
  "inc_loop [] carry out = (carry, out)"
| "inc_loop (c # cs) carry out =
     (let d = of_char c - 48 + carry
      in if d = 10 then inc_loop cs 1 (char_of (48 :: int) # out)
         else inc_loop cs 0 (char_of (48 + d) # out))"

text \<open>The loop runs from the last character to the first, hence over the reversed string.\<close>

definition inc :: "string \<Rightarrow> string" where
  "inc s = (case inc_loop (rev s) 1 [] of
     (carry, out) \<Rightarrow> if carry = 1 then ''1'' @ out else out)"

fun lua_less :: "string \<Rightarrow> string \<Rightarrow> bool" where
  "lua_less _ [] = False"
| "lua_less [] (_ # _) = True"
| "lua_less (a # as) (b # bs) =
     ((of_char a :: nat) < of_char b \<or> (a = b \<and> lua_less as bs))"

definition less_dec :: "string \<Rightarrow> string \<Rightarrow> bool" where
  "less_dec a b \<longleftrightarrow> length a < length b \<or> (length a = length b \<and> lua_less a b)"

text \<open>\<open>String(n)\<close> of a non-negative integer.\<close>

fun show_nat :: "nat \<Rightarrow> string" where
  "show_nat n = (if n < 10 then [char_of (48 + n)] else show_nat (n div 10) @ [char_of (48 + n mod 10)])"

declare show_nat.simps [simp del]

section \<open>Digits and values\<close>

definition dig :: "char \<Rightarrow> nat" where
  "dig c = of_char c - 48"

definition is_digit :: "char \<Rightarrow> bool" where
  "is_digit c \<longleftrightarrow> 48 \<le> (of_char c :: nat) \<and> (of_char c :: nat) \<le> 57"

primrec dval :: "string \<Rightarrow> nat" where
  "dval [] = 0"
| "dval (c # s) = dig c * 10 ^ length s + dval s"

text \<open>Decimal numerals without leading zeros: what \<open>String(n)\<close> prints.\<close>

definition canonical :: "string \<Rightarrow> bool" where
  "canonical s \<longleftrightarrow> s \<noteq> [] \<and> list_all is_digit s \<and> (dig (hd s) = 0 \<longrightarrow> tl s = [])"

lemma of_char_int: "(of_char c :: int) = int (of_char c)"
  by (simp add: of_nat_of_char)

lemma char_of_int: "char_of (48 + int n) = (char_of (48 + n :: nat) :: char)"
  by (metis char_of_nat of_nat_add of_nat_numeral)

lemma of_char_dch [simp]: "n \<le> 9 \<Longrightarrow> (of_char (char_of (48 + n :: nat)) :: nat) = 48 + n"
  by simp

lemma dig_dch [simp]: "n \<le> 9 \<Longrightarrow> dig (char_of (48 + n :: nat)) = n"
  by (simp add: dig_def)

lemma dig_dch' [simp]: "n \<le> 9 \<Longrightarrow> dig (char_of (n + 48 :: nat)) = n"
  by (simp add: dig_def)

lemma is_digit_dch [simp]: "(n :: nat) \<le> 9 \<Longrightarrow> is_digit (char_of (48 + n))"
  by (simp add: is_digit_def)

lemma dig_le: "is_digit c \<Longrightarrow> dig c \<le> 9"
  unfolding is_digit_def dig_def by linarith

lemma dch_dig: "is_digit c \<Longrightarrow> char_of (48 + dig c) = c"
  by (simp add: is_digit_def dig_def)

lemma of_char_dig: "is_digit c \<Longrightarrow> (of_char c :: int) = 48 + int (dig c)"
  by (simp add: is_digit_def dig_def of_char_int)

lemma dig_inj: "is_digit c \<Longrightarrow> is_digit d \<Longrightarrow> dig c = dig d \<Longrightarrow> c = d"
  by (metis dch_dig)

lemma dval_append [simp]: "dval (s @ t) = dval s * 10 ^ length t + dval t"
  by (induction s) (simp_all add: algebra_simps power_add)

lemma dval_bound: "list_all is_digit s \<Longrightarrow> dval s < 10 ^ length s"
proof (induction s)
  case (Cons c s)
  then have "dig c * 10 ^ length s \<le> 9 * 10 ^ length s" and "dval s < 10 ^ length s"
    using dig_le mult_le_mono1 by auto
  then have "dig c * 10 ^ length s + dval s < 9 * 10 ^ length s + 10 ^ length s"
    by (rule add_le_less_mono)
  then show ?case by simp
qed simp

section \<open>Correctness of the counter increment\<close>

lemma inc_loop_spec:
  "list_all is_digit rs \<Longrightarrow> carry \<le> 1 \<Longrightarrow>
   \<exists>k ds. inc_loop rs (int carry) out = (int k, ds @ out) \<and> k \<le> 1 \<and> length ds = length rs \<and>
     list_all is_digit ds \<and> k * 10 ^ length rs + dval ds = dval (rev rs) + carry"
proof (induction rs arbitrary: carry out)
  case (Cons c cs)
  have c: "is_digit c" "dig c \<le> 9" and cs: "list_all is_digit cs"
    using Cons.prems dig_le by auto
  define v where "v = dig c + carry"
  define k1 where "k1 = (if v = 10 then 1 else 0 :: nat)"
  define d where "d = v - 10 * k1"
  have d: "d \<le> 9" "v = 10 * k1 + d" "k1 \<le> 1"
    using c Cons.prems by (auto simp: d_def k1_def v_def)
  have step: "inc_loop (c # cs) (int carry) out = inc_loop cs (int k1) (char_of (48 + d) # out)"
  proof (cases "v = 10")
    case True
    then have "int (dig c) + int carry = 10" unfolding v_def by linarith
    then show ?thesis
      using c char_of_int [of 0] True by (simp add: Let_def of_char_dig k1_def d_def)
  next
    case False
    then have "int (dig c) + int carry \<noteq> 10" unfolding v_def by linarith
    then show ?thesis
      using c char_of_int [of v] False
      by (simp add: Let_def of_char_dig k1_def d_def v_def add.assoc)
  qed
  obtain k ds where IH: "inc_loop cs (int k1) (char_of (48 + d) # out)
        = (int k, ds @ char_of (48 + d) # out)" "k \<le> 1" "length ds = length cs"
      "list_all is_digit ds" "k * 10 ^ length cs + dval ds = dval (rev cs) + k1"
    using Cons.IH [OF cs d(3)] by blast
  have "k * 10 ^ length (c # cs) + dval (ds @ [char_of (48 + d)]) =
      10 * (k * 10 ^ length cs + dval ds) + d"
    using d(1) by (simp add: algebra_simps)
  also have "\<dots> = dval (rev (c # cs)) + carry"
    using IH(5) d(2) by (simp add: v_def algebra_simps)
  finally show ?case
    using IH d(1) step by (intro exI [of _ k] exI [of _ "ds @ [char_of (48 + d)]"]) simp
qed simp

lemma dig_one: "CHR ''1'' = char_of (48 + 1 :: nat)" "CHR ''0'' = char_of (48 + 0 :: nat)"
  by (rule of_char_eqI [where 'a = nat], simp)+

lemma dig_one_val [simp]: "dig CHR ''1'' = 1" "is_digit CHR ''1''"
  by (simp_all add: dig_def is_digit_def)

lemma inc_spec:
  assumes "list_all is_digit s"
  shows "dval (inc s) = Suc (dval s)" and "list_all is_digit (inc s)"
    and "length (inc s) = length s \<and> dval (inc s) < 10 ^ length s \<or>
         length (inc s) = Suc (length s) \<and> hd (inc s) = CHR ''1''"
proof -
  have "list_all is_digit (rev s)" using assms by (simp add: list_all_iff)
  then obtain k ds where L: "inc_loop (rev s) 1 [] = (int k, ds)" "k \<le> 1"
      "length ds = length s" "list_all is_digit ds" "k * 10 ^ length s + dval ds = dval s + 1"
    using inc_loop_spec [of "rev s" 1 "[]"] by auto
  then have "k = 0 \<or> k = 1" by auto
  then show "dval (inc s) = Suc (dval s)" and "list_all is_digit (inc s)"
    and "length (inc s) = length s \<and> dval (inc s) < 10 ^ length s \<or>
         length (inc s) = Suc (length s) \<and> hd (inc s) = CHR ''1''"
    using L dval_bound [of ds] by (auto simp: inc_def)
qed

lemma dval_inc: "list_all is_digit s \<Longrightarrow> dval (inc s) = Suc (dval s)"
  by (rule inc_spec)

section \<open>Canonical numerals\<close>

lemma canonical_digits: "canonical s \<Longrightarrow> list_all is_digit s"
  by (simp add: canonical_def)

lemma canonical_lower: "canonical s \<Longrightarrow> 1 < length s \<Longrightarrow> 10 ^ (length s - 1) \<le> dval s"
proof (cases s)
  case (Cons c t)
  moreover assume "canonical s" "1 < length s"
  ultimately have "0 < dig c" by (auto simp: canonical_def)
  then obtain k where "dig c = Suc k" by (cases "dig c") auto
  then show ?thesis using Cons by simp
qed (simp add: canonical_def)

lemma canonical_inc: "canonical s \<Longrightarrow> canonical (inc s)"
proof -
  assume c: "canonical s"
  then have d: "list_all is_digit s" by (rule canonical_digits)
  have "dig (hd (inc s)) = 0 \<Longrightarrow> tl (inc s) = []"
  proof -
    assume z: "dig (hd (inc s)) = 0"
    with inc_spec(3) [OF d] have len: "length (inc s) = length s" by auto
    obtain x xs where x: "inc s = x # xs" "dig x = 0"
      using z len c by (cases "inc s") (auto simp: canonical_def)
    then have "dval (inc s) < 10 ^ length xs"
      using inc_spec(2) [OF d] dval_bound [of xs] by simp
    moreover have "xs \<noteq> [] \<Longrightarrow> 10 ^ length xs \<le> dval s"
      using canonical_lower [OF c] x len by (metis diff_Suc_1 length_Cons length_greater_0_conv Suc_less_eq One_nat_def)
    ultimately show ?thesis using dval_inc [OF d] x by (cases "xs = []") auto
  qed
  then show ?thesis
    using inc_spec [OF d] c by (auto simp: canonical_def)
qed

section \<open>Correctness of the comparison\<close>

lemma lua_less_dval:
  "length a = length b \<Longrightarrow> list_all is_digit a \<Longrightarrow> list_all is_digit b \<Longrightarrow>
   lua_less a b \<longleftrightarrow> dval a < dval b"
proof (induction a b rule: lua_less.induct)
  case (3 x xs y ys)
  have d: "is_digit x" "is_digit y" and b: "dval xs < 10 ^ length ys" "dval ys < 10 ^ length ys"
    using 3 dval_bound [of xs] dval_bound [of ys] by auto
  have lt: "(of_char x :: nat) < of_char y \<longleftrightarrow> dig x < dig y"
    using d unfolding is_digit_def dig_def by linarith
  have mono: "p < q \<Longrightarrow> u < 10 ^ n \<Longrightarrow> p * 10 ^ n + u < q * 10 ^ n + w" for p q u w n :: nat
  proof -
    assume "p < q" "u < 10 ^ n"
    then have "Suc p * 10 ^ n \<le> q * 10 ^ n" by (intro mult_le_mono1) simp
    with \<open>u < 10 ^ n\<close> show ?thesis by simp
  qed
  consider "dig x < dig y" | "x = y" | "dig y < dig x"
    using d dig_inj by (metis linorder_neqE_nat)
  then show ?case
  proof cases
    case 1 then show ?thesis using mono [OF 1 b(1)] 3 lt by simp
  next
    case 2 then show ?thesis using 3 by simp
  next
    case gt: 3
    then show ?thesis using mono [OF gt b(2), of "dval xs"] 3 lt by auto
  qed
qed auto

lemma canonical_length_less:
  assumes "canonical a" "canonical b" "length a < length b"
  shows "dval a < dval b"
proof -
  have "dval a < 10 ^ length a" using assms dval_bound canonical_digits by blast
  also have "\<dots> \<le> 10 ^ (length b - 1)" using assms by (intro power_increasing) auto
  also have "\<dots> \<le> dval b"
    using assms by (intro canonical_lower) (cases a; auto simp: canonical_def)+
  finally show ?thesis .
qed

theorem less_dec_iff: "canonical a \<Longrightarrow> canonical b \<Longrightarrow> less_dec a b \<longleftrightarrow> dval a < dval b"
  using canonical_length_less [of a b] canonical_length_less [of b a]
    lua_less_dval [of a b] canonical_digits [of a] canonical_digits [of b]
  by (cases "length a" "length b" rule: linorder_cases) (auto simp: less_dec_def)

lemma canonical_eqI:
  assumes "canonical a" "canonical b" "dval a = dval b"
  shows "a = b"
proof -
  have len: "length a = length b"
    using assms canonical_length_less [of a b] canonical_length_less [of b a]
    by (metis linorder_neqE_nat nat_neq_iff)
  have "length a = length b \<Longrightarrow> list_all is_digit a \<Longrightarrow> list_all is_digit b \<Longrightarrow>
    dval a = dval b \<Longrightarrow> a = b" for a b
  proof (induction a b rule: list_induct2')
    case (4 x xs y ys)
    have d: "is_digit x" "is_digit y" and b: "dval xs < 10 ^ length ys" "dval ys < 10 ^ length ys"
      using 4 dval_bound [of xs] dval_bound [of ys] by auto
    have "dig x = dig x * 10 ^ length ys div 10 ^ length ys" by simp
    also have "\<dots> = (dig x * 10 ^ length ys + dval xs) div 10 ^ length ys"
      using b by (simp add: div_mult_self4)
    also have "\<dots> = (dig y * 10 ^ length ys + dval ys) div 10 ^ length ys"
      using 4 by simp
    also have "\<dots> = dig y" using b by simp
    finally have "x = y" using d dig_inj by blast
    then show ?case using 4 by simp
  qed auto
  then show ?thesis using len assms canonical_digits by blast
qed

section \<open>\<open>String(n)\<close>\<close>

lemma show_nat_digits: "show_nat n \<noteq> [] \<and> list_all is_digit (show_nat n)"
proof (induction n rule: show_nat.induct)
  case (1 n)
  then show ?case
    by (subst (1 2) show_nat.simps) auto
qed

lemma dval_show_nat [simp]: "dval (show_nat n) = n"
proof (induction n rule: show_nat.induct)
  case (1 n)
  have "n mod 10 \<le> 9" by simp
  then show ?case using 1 by (subst show_nat.simps) auto
qed

lemma canonical_show_nat [simp]: "canonical (show_nat n)"
proof (induction n rule: show_nat.induct)
  case (1 n)
  show ?case
  proof (cases "n < 10")
    case True
    then show ?thesis by (subst show_nat.simps) (simp add: canonical_def)
  next
    case False
    with 1 have IH: "canonical (show_nat (n div 10))" by simp
    moreover have "dig (hd (show_nat (n div 10))) \<noteq> 0"
    proof
      assume z: "dig (hd (show_nat (n div 10))) = 0"
      then have "dval (show_nat (n div 10)) = 0"
        using IH by (cases "show_nat (n div 10)") (auto simp: canonical_def)
      then show False using False by simp
    qed
    ultimately show ?thesis
      using False by (subst show_nat.simps) (auto simp: canonical_def)
  qed
qed

lemma show_nat_inj: "show_nat m = show_nat n \<Longrightarrow> m = n"
  by (metis dval_show_nat)

lemma canonical_show_dval: "canonical s \<Longrightarrow> show_nat (dval s) = s"
  by (rule canonical_eqI) simp_all

lemma inc_show_nat: "inc (show_nat n) = show_nat (Suc n)"
  by (rule canonical_eqI) (simp_all add: canonical_inc dval_inc show_nat_digits)

lemma less_dec_show_nat: "less_dec (show_nat m) (show_nat n) \<longleftrightarrow> m < n"
  by (simp add: less_dec_iff)

lemma less_dec_inc: "canonical s \<Longrightarrow> less_dec s (inc s)"
  by (simp add: less_dec_iff canonical_inc dval_inc canonical_digits)

end
