(* ===== verification/Json.thy ===== *)
theory Json
  imports Decimal
begin

text \<open>
  JSON values and the text that JavaScript's \<open>JSON.stringify\<close> gives them. Strings are
  byte strings (UTF-8), so the escapes of \<open>JSON.stringify\<close> concern the quote, the
  backslash and the control characters. The text of a flat array of scalars is shown to
  determine the array: the fingerprint of an event (theory \<open>Domain\<close>) hashes such a text.
\<close>

section \<open>Values\<close>

text \<open>\<open>JNum\<close> holds the text of a number that is not an integer.\<close>

datatype json =
    JNull
  | JBool bool
  | JInt int
  | JNum string
  | JStr string
  | JArr "json list"
  | JObj "(string \<times> json) list"

definition jget :: "(string \<times> json) list \<Rightarrow> string \<Rightarrow> json option" where
  "jget kv k = map_of kv k"

fun as_str :: "json option \<Rightarrow> string option" where
  "as_str (Some (JStr s)) = Some s"
| "as_str _ = None"

fun as_int :: "json option \<Rightarrow> int option" where
  "as_int (Some (JInt i)) = Some i"
| "as_int _ = None"

fun as_bool :: "json option \<Rightarrow> bool option" where
  "as_bool (Some (JBool b)) = Some b"
| "as_bool _ = None"

text \<open>A closed object schema admits no key beyond the declared ones.\<close>

definition only_keys :: "string list \<Rightarrow> (string \<times> json) list \<Rightarrow> bool" where
  "only_keys ks kv \<longleftrightarrow> list_all (\<lambda>(k, _). k \<in> set ks) kv"

section \<open>\<open>JSON.stringify\<close>\<close>

definition hex_digit :: "nat \<Rightarrow> char" where
  "hex_digit n = (if n < 10 then char_of (48 + n) else char_of (87 + n))"

definition short_escape :: "char \<Rightarrow> char option" where
  "short_escape c =
     (if c = CHR 0x22 then Some CHR 0x22 else if c = CHR 0x5C then Some CHR 0x5C
      else if c = CHR 0x08 then Some CHR ''b'' else if c = CHR 0x09 then Some CHR ''t''
      else if c = CHR 0x0A then Some CHR ''n'' else if c = CHR 0x0C then Some CHR ''f''
      else if c = CHR 0x0D then Some CHR ''r'' else None)"

definition quote_char :: "char \<Rightarrow> string" where
  "quote_char c =
     (case short_escape c of
        Some e \<Rightarrow> [CHR 0x5C, e]
      | None \<Rightarrow> if (of_char c :: nat) < 32
          then [CHR 0x5C, CHR ''u'', CHR ''0'', CHR ''0'',
                hex_digit (of_char c div 16), hex_digit (of_char c mod 16)]
          else [c])"

definition quote :: "string \<Rightarrow> string" where
  "quote s = CHR 0x22 # concat (map quote_char s) @ [CHR 0x22]"

definition show_int :: "int \<Rightarrow> string" where
  "show_int i = (if i < 0 then CHR ''-'' # show_nat (nat (- i)) else show_nat (nat i))"

fun intercalate :: "string \<Rightarrow> string list \<Rightarrow> string" where
  "intercalate sep [] = []"
| "intercalate sep [x] = x"
| "intercalate sep (x # y # ys) = x @ sep @ intercalate sep (y # ys)"

fun stringify :: "json \<Rightarrow> string" where
  "stringify JNull = ''null''"
| "stringify (JBool b) = (if b then ''true'' else ''false'')"
| "stringify (JInt i) = show_int i"
| "stringify (JNum t) = t"
| "stringify (JStr s) = quote s"
| "stringify (JArr xs) = ''['' @ intercalate '','' (map stringify xs) @ '']''"
| "stringify (JObj kvs) =
     [CHR 0x7B] @ intercalate '','' (map (\<lambda>(k, v). quote k @ '':'' @ stringify v) kvs) @ [CHR 0x7D]"

section \<open>Quoted strings determine their content\<close>

lemma hex_digit_inj: "m < 16 \<Longrightarrow> n < 16 \<Longrightarrow> hex_digit m = hex_digit n \<Longrightarrow> m = n"
  by (auto simp: hex_digit_def split: if_splits)

lemma short_escape_inj: "short_escape c = Some e \<Longrightarrow> short_escape d = Some e \<Longrightarrow> c = d"
  by (auto simp: short_escape_def split: if_splits)

lemma short_escape_not_u: "short_escape c \<noteq> Some CHR ''u''"
  by (auto simp: short_escape_def)

lemma quote_char_prefix:
  assumes "quote_char c @ r = quote_char d @ r'"
  shows "c = d \<and> r = r'"
proof -
  have neq: "short_escape x = None \<Longrightarrow> x \<noteq> CHR 0x5C" for x
    by (auto simp: short_escape_def)
  have hex: "c = d" if "(of_char c :: nat) < 32" "(of_char d :: nat) < 32"
    "hex_digit (of_char c div 16) = hex_digit (of_char d div 16)"
    "hex_digit (of_char c mod 16) = hex_digit (of_char d mod 16)"
  proof -
    have "(of_char c :: nat) div 16 = of_char d div 16" "(of_char c :: nat) mod 16 = of_char d mod 16"
      using that by (auto intro!: hex_digit_inj)
    then have "(of_char c :: nat) = of_char d" by (metis div_mult_mod_eq)
    then show ?thesis by simp
  qed
  show ?thesis
    using assms neq [of c] neq [of d] short_escape_inj [of c _ d] hex
      short_escape_not_u [of c] short_escape_not_u [of d]
    by (auto simp: quote_char_def split: option.splits if_splits)
qed

lemma quote_char_neq_quote: "quote_char c @ r \<noteq> CHR 0x22 # r'"
  by (auto simp: quote_char_def short_escape_def)

lemma quoted_body_prefix:
  "concat (map quote_char s) @ CHR 0x22 # r = concat (map quote_char t) @ CHR 0x22 # r' \<Longrightarrow>
   s = t \<and> r = r'"
proof (induction s arbitrary: t)
  case Nil
  then show ?case using quote_char_neq_quote by (cases t) (auto, metis)
next
  case (Cons c s)
  show ?case
  proof (cases t)
    case Nil
    then show ?thesis using Cons.prems quote_char_neq_quote by auto
  next
    case (Cons d t')
    then have "quote_char c @ concat (map quote_char s) @ CHR 0x22 # r
        = quote_char d @ concat (map quote_char t') @ CHR 0x22 # r'"
      using Cons.prems by simp
    from quote_char_prefix [OF this] Cons.IH [of t'] Cons show ?thesis by auto
  qed
qed

lemma quote_prefix: "quote s @ r = quote t @ r' \<Longrightarrow> s = t \<and> r = r'"
  using quoted_body_prefix [of s r t r'] by (simp add: quote_def)

lemma quote_inj: "quote s = quote t \<Longrightarrow> s = t"
  using quote_prefix [of s "[]" t "[]"] by simp

section \<open>Flat arrays determine their elements\<close>

fun scalar :: "json \<Rightarrow> bool" where
  "scalar JNull = True"
| "scalar (JBool _) = True"
| "scalar (JInt _) = True"
| "scalar (JStr _) = True"
| "scalar _ = False"

definition delimited :: "string \<Rightarrow> bool" where
  "delimited r \<longleftrightarrow> (\<exists>r'. r = CHR '','' # r' \<or> r = CHR '']'' # r')"

lemma digits_prefix:
  assumes "list_all is_digit a" "list_all is_digit b"
    and "r = [] \<or> \<not> is_digit (hd r)" "r' = [] \<or> \<not> is_digit (hd r')" "a @ r = b @ r'"
  shows "a = b \<and> r = r'"
proof -
  have "takeWhile is_digit (x @ z) = x" if "list_all is_digit x" "z = [] \<or> \<not> is_digit (hd z)" for x z
    using that by (cases z) (simp_all add: takeWhile_append2 list_all_iff takeWhile_append)
  then have "a = b" using assms by metis
  with assms(5) show ?thesis by simp
qed

lemma delimited_no_digit: "delimited r \<Longrightarrow> r = [] \<or> \<not> is_digit (hd r)"
  by (auto simp: delimited_def is_digit_def)

lemma show_nat_prefix:
  "delimited r \<Longrightarrow> delimited r' \<Longrightarrow> show_nat m @ r = show_nat n @ r' \<Longrightarrow> m = n \<and> r = r'"
  using digits_prefix [of "show_nat m" "show_nat n" r r'] delimited_no_digit show_nat_digits
    show_nat_inj by blast

lemma show_nat_hd: "is_digit (hd (show_nat n @ r))"
  using show_nat_digits [of n] by (cases "show_nat n") auto

lemma show_int_hd: "is_digit (hd (show_int i @ r)) \<or> hd (show_int i @ r) = CHR ''-''"
  by (simp add: show_int_def show_nat_hd)

lemma show_int_prefix:
  assumes "delimited r" "delimited r'" "show_int i @ r = show_int j @ r'"
  shows "i = j \<and> r = r'"
proof -
  have "hd (show_nat n @ z) \<noteq> CHR ''-''" for n z
    using show_nat_hd [of n z] by (auto simp: is_digit_def)
  then have sign: "i < 0 \<longleftrightarrow> j < 0"
    using assms(3) by (auto simp: show_int_def split: if_splits) (metis list.sel(1))+
  show ?thesis
  proof (cases "i < 0")
    case True
    then have "nat (- i) = nat (- j) \<and> r = r'"
      using sign assms show_nat_prefix [of r r' "nat (- i)" "nat (- j)"] by (simp add: show_int_def)
    then show ?thesis using True sign by auto
  next
    case False
    then have "nat i = nat j \<and> r = r'"
      using sign assms show_nat_prefix [of r r' "nat i" "nat j"] by (simp add: show_int_def)
    then show ?thesis using False sign by auto
  qed
qed

text \<open>The first character tells the kind of a scalar.\<close>

fun scalar_kind :: "json \<Rightarrow> nat" where
  "scalar_kind JNull = 0"
| "scalar_kind (JBool b) = (if b then 1 else 2)"
| "scalar_kind (JInt _) = 3"
| "scalar_kind _ = 4"

definition kind_of_char :: "char \<Rightarrow> nat" where
  "kind_of_char c = (if c = CHR ''n'' then 0 else if c = CHR ''t'' then 1 else if c = CHR ''f'' then 2
     else if is_digit c \<or> c = CHR ''-'' then 3 else 4)"

lemma kind_of_hd: "scalar a \<Longrightarrow> kind_of_char (hd (stringify a @ r)) = scalar_kind a"
proof (cases a)
  case (JInt i)
  then show ?thesis
    using show_int_hd [of i r] by (auto simp: kind_of_char_def is_digit_def)
qed (auto simp: kind_of_char_def is_digit_def quote_def)

lemma scalar_prefix:
  assumes "scalar a" "scalar b" "delimited r" "delimited r'" "stringify a @ r = stringify b @ r'"
  shows "a = b \<and> r = r'"
proof -
  have kind: "scalar_kind a = scalar_kind b"
    using kind_of_hd [OF assms(1), of r] kind_of_hd [OF assms(2), of r'] assms(5) by simp
  show ?thesis
  proof (cases a)
    case (JInt i)
    then obtain j where "b = JInt j" using kind assms(2) by (cases b) (auto split: if_splits)
    then show ?thesis using JInt assms(3-5) show_int_prefix [of r r' i j] by simp
  next
    case (JStr s)
    then obtain t where "b = JStr t" using kind assms(2) by (cases b) (auto split: if_splits)
    then show ?thesis using JStr assms(5) quote_prefix [of s r t r'] by simp
  next
    case (JBool p)
    then obtain q where "b = JBool q" using kind assms(2) by (cases b) (auto split: if_splits)
    then show ?thesis using JBool kind assms(5) by (auto split: if_splits)
  next
    case JNull
    then have "b = JNull" using kind assms(2) by (cases b) (auto split: if_splits)
    then show ?thesis using JNull assms(5) by simp
  qed (use assms(1) in simp_all)
qed

lemma array_text_prefix:
  assumes "length xs = length ys" "list_all scalar xs" "list_all scalar ys"
    and "intercalate '','' (map stringify xs) @ CHR '']'' # r
       = intercalate '','' (map stringify ys) @ CHR '']'' # r'"
  shows "xs = ys"
  using assms
proof (induction xs ys rule: list_induct2)
  case (Cons x xs y ys)
  define tail where "tail zs q = (case zs of [] \<Rightarrow> CHR '']'' # q
    | z # zs' \<Rightarrow> CHR '','' # intercalate '','' (map stringify zs) @ CHR '']'' # q)" for zs q
  have split: "intercalate '','' (map stringify (z # zs)) @ CHR '']'' # q = stringify z @ tail zs q"
    for z zs q by (cases zs) (simp_all add: tail_def)
  have d: "delimited (tail zs q)" for zs q
    by (cases zs) (auto simp: tail_def delimited_def)
  have "x = y \<and> tail xs r = tail ys r'"
    using Cons.prems unfolding split by (intro scalar_prefix d) simp_all
  moreover from this have "xs = ys"
    using Cons by (cases xs; cases ys) (auto simp: tail_def)
  ultimately show ?case by simp
qed simp

theorem stringify_array_inj:
  "length xs = length ys \<Longrightarrow> list_all scalar xs \<Longrightarrow> list_all scalar ys \<Longrightarrow>
   stringify (JArr xs) = stringify (JArr ys) \<Longrightarrow> xs = ys"
  using array_text_prefix [of xs ys "[]" "[]"] by simp

end
