(* ===== verification/Domain.thy ===== *)
theory Domain
  imports Json "HOL-Library.Monad_Syntax"
begin

text \<open>
  The domain module (\<open>src/session-controller/src/domain.ts\<close>): error classes, the schemas of
  identifiers, JIDs, timestamps and sequences, the notification event and its fingerprint,
  fences and ownership, session bindings, completion markers and proofs, the mutation
  journal's states and the checkpoint records. A schema is a bool-valued predicate, or,
  where it turns untyped JSON into a typed value, a partial function.
\<close>

section \<open>Error classes\<close>

datatype error_class =
    Config_invalid | Signature_invalid | Payload_invalid | Policy_denied | Body_too_large
  | Body_invalid | Request_timeout | Store_unavailable | Identity_conflict | Not_ready
  | Intake_closed | Internal_failed | Listen_failed | Lease_lost | Sequence_gap
  | Session_failed | Mutation_uncertain | Usage_unknown | Preparation_failed
  | Checkpoint_invalid | Compaction_capacity | Compaction_failed | Restore_failed

datatype pause_reason =
    P_lease_lost | P_sequence_gap | P_session_failed | P_mutation_uncertain | P_usage_unknown
  | P_preparation_failed | P_checkpoint_invalid | P_compaction_capacity | P_compaction_failed
  | P_restore_failed

text \<open>The classes that are also pause reasons (the list in the chat worker's catch block).\<close>

fun pause_of_error :: "error_class \<Rightarrow> pause_reason option" where
  "pause_of_error Lease_lost = Some P_lease_lost"
| "pause_of_error Sequence_gap = Some P_sequence_gap"
| "pause_of_error Session_failed = Some P_session_failed"
| "pause_of_error Mutation_uncertain = Some P_mutation_uncertain"
| "pause_of_error Usage_unknown = Some P_usage_unknown"
| "pause_of_error Preparation_failed = Some P_preparation_failed"
| "pause_of_error Checkpoint_invalid = Some P_checkpoint_invalid"
| "pause_of_error Compaction_capacity = Some P_compaction_capacity"
| "pause_of_error Compaction_failed = Some P_compaction_failed"
| "pause_of_error Restore_failed = Some P_restore_failed"
| "pause_of_error _ = None"

definition checked :: "('a \<Rightarrow> bool) \<Rightarrow> 'a \<Rightarrow> error_class \<Rightarrow> error_class + 'a" where
  "checked schema v code = (if schema v then Inr v else Inl code)"

lemma checked_Inr [simp]: "checked p v c = Inr w \<longleftrightarrow> p v \<and> w = v"
  by (auto simp: checked_def)

lemma checked_Inl [simp]: "checked p v c = Inl d \<longleftrightarrow> \<not> p v \<and> d = c"
  by (auto simp: checked_def)

section \<open>Identifiers, JIDs, numbers, timestamps\<close>

definition max_safe :: nat where
  "max_safe = 9007199254740991"

definition is_hex :: "char \<Rightarrow> bool" where
  "is_hex c \<longleftrightarrow> is_digit c \<or> 97 \<le> (of_char c :: nat) \<and> (of_char c :: nat) \<le> 102"

definition opaque_id :: "string \<Rightarrow> bool" where
  "opaque_id s \<longleftrightarrow> length s = 32 \<and> list_all is_hex s"

definition jid_user :: "string \<Rightarrow> string" where
  "jid_user s = takeWhile is_digit s"

definition jid_server :: "string \<Rightarrow> string" where
  "jid_server s = dropWhile is_digit s"

definition jid_with :: "string list \<Rightarrow> string \<Rightarrow> bool" where
  "jid_with servers s \<longleftrightarrow> jid_user s \<noteq> [] \<and> jid_server s \<in> set servers \<and> length s \<le> 128"

definition group_jid :: "string \<Rightarrow> bool" where
  "group_jid = jid_with [''@g.us'']"

definition private_jid :: "string \<Rightarrow> bool" where
  "private_jid = jid_with [''@s.whatsapp.net'', ''@lid'']"

definition participant_jid :: "string \<Rightarrow> bool" where
  "participant_jid =
     jid_with [''@s.whatsapp.net'', ''@lid'', ''@bot'', ''@hosted'', ''@hosted.lid'']"

definition chat_jid_schema :: "string \<Rightarrow> bool" where
  "chat_jid_schema s \<longleftrightarrow> group_jid s \<or> private_jid s"

definition sequence_schema :: "nat \<Rightarrow> bool" where
  "sequence_schema n \<longleftrightarrow> 1 \<le> n \<and> n \<le> max_safe"

definition counter_schema :: "nat \<Rightarrow> bool" where
  "counter_schema n \<longleftrightarrow> n \<le> max_safe"

definition message_id_schema :: "string \<Rightarrow> bool" where
  "message_id_schema s \<longleftrightarrow> 1 \<le> length s \<and> length s \<le> 512"

text \<open>
  The timestamp pattern, matched from left to right: the groups are the year, month, day,
  hour, minute, second and the zone (\<open>None\<close> for \<open>Z\<close>, else the offset's hours and minutes).
\<close>

definition take_digits :: "nat \<Rightarrow> string \<Rightarrow> (nat \<times> string) option" where
  "take_digits n s =
     (if n \<le> length s \<and> list_all is_digit (take n s) then Some (dval (take n s), drop n s) else None)"

fun expect :: "char \<Rightarrow> string \<Rightarrow> string option" where
  "expect c (d # s) = (if c = d then Some s else None)"
| "expect c [] = None"

definition skip_fraction :: "string \<Rightarrow> string option" where
  "skip_fraction s =
     (case s of
        CHR ''.'' # t \<Rightarrow>
          (let k = length (takeWhile is_digit t)
           in if 1 \<le> k \<and> k \<le> 9 then Some (drop k t) else None)
      | _ \<Rightarrow> Some s)"

definition match_zone :: "string \<Rightarrow> (nat \<times> nat) option option" where
  "match_zone s =
     (if s = ''Z'' then Some None
      else do {
        t \<leftarrow> (case s of c # t \<Rightarrow> if c = CHR ''+'' \<or> c = CHR ''-'' then Some t else None | [] \<Rightarrow> None);
        (h, t) \<leftarrow> take_digits 2 t;
        t \<leftarrow> expect CHR '':'' t;
        (m, t) \<leftarrow> take_digits 2 t;
        if t = [] then Some (Some (h, m)) else None
      })"

record time_groups =
  tg_year :: nat
  tg_month :: nat
  tg_day :: nat
  tg_hour :: nat
  tg_minute :: nat
  tg_second :: nat
  tg_zone :: "(nat \<times> nat) option"

definition match_timestamp :: "string \<Rightarrow> time_groups option" where
  "match_timestamp s = do {
     (y, s) \<leftarrow> take_digits 4 s; s \<leftarrow> expect CHR ''-'' s;
     (mo, s) \<leftarrow> take_digits 2 s; s \<leftarrow> expect CHR ''-'' s;
     (d, s) \<leftarrow> take_digits 2 s; s \<leftarrow> expect CHR ''T'' s;
     (h, s) \<leftarrow> take_digits 2 s; s \<leftarrow> expect CHR '':'' s;
     (mi, s) \<leftarrow> take_digits 2 s; s \<leftarrow> expect CHR '':'' s;
     (sec, s) \<leftarrow> take_digits 2 s;
     s \<leftarrow> skip_fraction s;
     z \<leftarrow> match_zone s;
     Some \<lparr>tg_year = y, tg_month = mo, tg_day = d, tg_hour = h, tg_minute = mi, tg_second = sec,
           tg_zone = z\<rparr>
   }"

definition timestamp_schema :: "string \<Rightarrow> bool" where
  "timestamp_schema s \<longleftrightarrow> match_timestamp s \<noteq> None \<and> length s \<le> 40"

definition version_schema :: "string \<Rightarrow> bool" where
  "version_schema s \<longleftrightarrow> 1 \<le> length s \<and> length s \<le> 64 \<and>
     list_all (\<lambda>c. is_digit c \<or> 65 \<le> (of_char c :: nat) \<and> (of_char c :: nat) \<le> 90 \<or>
       97 \<le> (of_char c :: nat) \<and> (of_char c :: nat) \<le> 122 \<or> c \<in> set ''._-'') s"

text \<open>A stream ID is printed as two canonical numerals; it is kept as the pair of numbers.\<close>

type_synonym stream_id = "nat \<times> nat"

definition show_stream_id :: "stream_id \<Rightarrow> string" where
  "show_stream_id i = show_nat (fst i) @ ''-'' @ show_nat (snd i)"

definition stream_id_schema :: "stream_id \<Rightarrow> bool" where
  "stream_id_schema i \<longleftrightarrow> length (show_stream_id i) \<le> 64"

definition epoch_schema :: "string \<Rightarrow> bool" where
  "epoch_schema s \<longleftrightarrow> canonical s \<and> dig (hd s) \<noteq> 0 \<and> length s \<le> 32"

section \<open>The notification event\<close>

record notification =
  schema_version :: int
  event_type :: string
  event_id :: string
  message_id :: string
  event_timestamp :: string
  received_at :: string
  chat_sequence :: nat
  sender_jid :: string
  sender_alt_jid :: "string option"
  is_from_me :: bool
  chat_kind :: string
  chat_jid :: string
  canonical_chat_jid :: string

definition notification_schema :: "notification \<Rightarrow> bool" where
  "notification_schema n \<longleftrightarrow>
     schema_version n = 2 \<and> event_type n = ''whatsapp.message.received'' \<and>
     opaque_id (event_id n) \<and> message_id_schema (message_id n) \<and>
     timestamp_schema (event_timestamp n) \<and> timestamp_schema (received_at n) \<and>
     sequence_schema (chat_sequence n) \<and> participant_jid (sender_jid n) \<and>
     (case sender_alt_jid n of None \<Rightarrow> True | Some j \<Rightarrow> participant_jid j) \<and>
     (chat_kind n = ''group'' \<and> group_jid (chat_jid n) \<and> group_jid (canonical_chat_jid n) \<or>
      chat_kind n = ''operator_private'' \<and> private_jid (chat_jid n) \<and>
        private_jid (canonical_chat_jid n))"

text \<open>The untyped value that \<open>JSON.parse\<close> returns, checked against the closed object schema.\<close>

definition notification_keys :: "string list" where
  "notification_keys = [''schema_version'', ''event_type'', ''event_id'', ''message_id'',
     ''event_timestamp'', ''received_at'', ''chat_sequence'', ''sender_jid'', ''sender_alt_jid'',
     ''is_from_me'', ''chat_kind'', ''chat_jid'', ''canonical_chat_jid'']"

definition optional_str :: "json option \<Rightarrow> string option option" where
  "optional_str v = (case v of None \<Rightarrow> Some None | Some (JStr s) \<Rightarrow> Some (Some s) | Some _ \<Rightarrow> None)"

definition notification_fields :: "(string \<times> json) list \<Rightarrow> notification option" where
  "notification_fields kv = do {
     ver \<leftarrow> as_int (jget kv ''schema_version'');
     ty \<leftarrow> as_str (jget kv ''event_type'');
     eid \<leftarrow> as_str (jget kv ''event_id'');
     mid \<leftarrow> as_str (jget kv ''message_id'');
     ets \<leftarrow> as_str (jget kv ''event_timestamp'');
     rts \<leftarrow> as_str (jget kv ''received_at'');
     sq \<leftarrow> as_int (jget kv ''chat_sequence'');
     snd_j \<leftarrow> as_str (jget kv ''sender_jid'');
     alt \<leftarrow> optional_str (jget kv ''sender_alt_jid'');
     own \<leftarrow> as_bool (jget kv ''is_from_me'');
     kind \<leftarrow> as_str (jget kv ''chat_kind'');
     cj \<leftarrow> as_str (jget kv ''chat_jid'');
     can \<leftarrow> as_str (jget kv ''canonical_chat_jid'');
     if sq < 0 then None else
     Some \<lparr>schema_version = ver, event_type = ty, event_id = eid, message_id = mid,
       event_timestamp = ets, received_at = rts, chat_sequence = nat sq, sender_jid = snd_j,
       sender_alt_jid = alt, is_from_me = own, chat_kind = kind, chat_jid = cj,
       canonical_chat_jid = can\<rparr>
   }"

definition notification_of_json :: "json \<Rightarrow> notification option" where
  "notification_of_json v =
     (case v of
        JObj kv \<Rightarrow> if only_keys notification_keys kv
          then (case notification_fields kv of
                  Some n \<Rightarrow> if notification_schema n then Some n else None
                | None \<Rightarrow> None)
          else None
      | _ \<Rightarrow> None)"

lemma notification_of_json_schema: "notification_of_json v = Some n \<Longrightarrow> notification_schema n"
  by (auto simp: notification_of_json_def split: json.splits if_splits option.splits)

section \<open>The immutable fingerprint\<close>

text \<open>\<open>sha\<close> is the hexadecimal SHA-256 digest of \<open>node:crypto\<close>, a parameter.\<close>

definition immutable_fields :: "notification \<Rightarrow> json list" where
  "immutable_fields p =
     [JInt (schema_version p), JStr (event_type p), JStr (event_id p), JStr (message_id p),
      JStr (event_timestamp p), JStr (received_at p), JInt (int (chat_sequence p)),
      JStr (sender_jid p), (case sender_alt_jid p of Some j \<Rightarrow> JStr j | None \<Rightarrow> JNull),
      JBool (is_from_me p), JStr (chat_kind p), JStr (chat_jid p), JStr (canonical_chat_jid p)]"

definition fingerprint_digest :: "(string \<Rightarrow> string) \<Rightarrow> notification \<Rightarrow> string" where
  "fingerprint_digest sha p = ''sha256:v1:'' @
     sha (''sc:immutable-event:v1'' @ [CHR 0x00] @ stringify (JArr (immutable_fields p)))"

definition fingerprintEvent :: "(string \<Rightarrow> string) \<Rightarrow> notification \<Rightarrow> error_class + string" where
  "fingerprintEvent sha event =
     andThen (checked notification_schema event Payload_invalid) (\<lambda>p. Inr (fingerprint_digest sha p))"

definition event_fingerprint_schema :: "string \<Rightarrow> bool" where
  "event_fingerprint_schema s \<longleftrightarrow>
     take 10 s = ''sha256:v1:'' \<and> length s = 74 \<and> list_all is_hex (drop 10 s)"

lemma immutable_fields_inj: "immutable_fields a = immutable_fields b \<Longrightarrow> a = b"
  by (rule notification.equality)
    (auto simp: immutable_fields_def split: option.splits)

lemma immutable_fields_scalar: "list_all scalar (immutable_fields p)"
  by (simp add: immutable_fields_def split: option.split)

lemma fingerprint_digest_inj:
  assumes "inj sha" "fingerprint_digest sha a = fingerprint_digest sha b"
  shows "a = b"
proof -
  have "stringify (JArr (immutable_fields a)) = stringify (JArr (immutable_fields b))"
    using assms by (auto simp: fingerprint_digest_def dest: injD simp del: stringify.simps)
  then have "immutable_fields a = immutable_fields b"
    by (intro stringify_array_inj immutable_fields_scalar) (simp_all add: immutable_fields_def)
  then show ?thesis by (rule immutable_fields_inj)
qed

section \<open>Fences, ownership, bindings\<close>

record fence =
  f_owner :: string
  f_epoch :: string
  expiresAtMs :: nat

definition fence_schema :: "fence \<Rightarrow> bool" where
  "fence_schema f \<longleftrightarrow> opaque_id (f_owner f) \<and> epoch_schema (f_epoch f) \<and> counter_schema (expiresAtMs f)"

record ownership =
  own_app :: fence
  own_chat :: fence

definition ownership_schema :: "ownership \<Rightarrow> bool" where
  "ownership_schema x \<longleftrightarrow> fence_schema (own_app x) \<and> fence_schema (own_chat x)"

record session_binding =
  sb_chat :: string
  sb_sessionId :: string
  sb_sessionFile :: string

definition session_binding_schema :: "session_binding \<Rightarrow> bool" where
  "session_binding_schema b \<longleftrightarrow> chat_jid_schema (sb_chat b) \<and>
     1 \<le> length (sb_sessionId b) \<and> length (sb_sessionId b) \<le> 128 \<and>
     1 \<le> length (sb_sessionFile b) \<and> length (sb_sessionFile b) \<le> 4096"

record chat_state =
  cst_chat :: string
  lastCompletedSequence :: nat
  cst_session :: "session_binding option"
  cst_pause :: "pause_reason option"
  gapSinceMs :: "nat option"

record claimed_work =
  cw_streamId :: stream_id
  cw_event :: notification
  cw_ownership :: ownership

section \<open>Completion markers and proofs\<close>

record confirmed_send =
  cs_destination :: string
  cs_messageId :: string

datatype completion_kind = Turn | Context_only

record completion_marker =
  cm_eventId :: string
  cm_fingerprint :: string
  cm_chat :: string
  cm_sequence :: nat
  cm_completion :: completion_kind
  cm_completedAt :: string
  cm_sends :: "confirmed_send list"

definition confirmed_send_schema :: "confirmed_send \<Rightarrow> bool" where
  "confirmed_send_schema c \<longleftrightarrow> chat_jid_schema (cs_destination c) \<and> message_id_schema (cs_messageId c)"

definition completion_marker_schema :: "completion_marker \<Rightarrow> bool" where
  "completion_marker_schema m \<longleftrightarrow>
     opaque_id (cm_eventId m) \<and> event_fingerprint_schema (cm_fingerprint m) \<and>
     chat_jid_schema (cm_chat m) \<and> sequence_schema (cm_sequence m) \<and>
     timestamp_schema (cm_completedAt m) \<and>
     list_all confirmed_send_schema (cm_sends m) \<and> distinct (cm_sends m)"

record completion_proof =
  cp_marker :: completion_marker
  cp_entryId :: string
  cp_session :: session_binding

definition completion_proof_schema :: "completion_proof \<Rightarrow> bool" where
  "completion_proof_schema p \<longleftrightarrow> completion_marker_schema (cp_marker p) \<and>
     1 \<le> length (cp_entryId p) \<and> length (cp_entryId p) \<le> 128 \<and>
     session_binding_schema (cp_session p)"

section \<open>The mutation journal\<close>

datatype mutation_tool =
    Send_message | Send_group_message | Send_auto_message | Send_media | Send_reaction
  | Edit_message | Revoke_message

text \<open>\<open>Confirmed messageId finishedAt\<close>; the reason of an uncertain state is a literal.\<close>

datatype mutation_status = Attempting | Confirmed string string | Uncertain

record mutation_state =
  mu_attemptId :: string
  mu_eventId :: string
  mu_chat :: string
  mu_toolCallId :: string
  mu_tool :: mutation_tool
  mu_destination :: string
  mu_startedAt :: string
  mu_ownership :: ownership
  mu_status :: mutation_status

fun is_confirmed :: "mutation_status \<Rightarrow> bool" where
  "is_confirmed (Confirmed _ _) = True"
| "is_confirmed _ = False"

definition mutation_state_schema :: "mutation_state \<Rightarrow> bool" where
  "mutation_state_schema m \<longleftrightarrow>
     opaque_id (mu_attemptId m) \<and> opaque_id (mu_eventId m) \<and> chat_jid_schema (mu_chat m) \<and>
     1 \<le> length (mu_toolCallId m) \<and> length (mu_toolCallId m) \<le> 512 \<and>
     chat_jid_schema (mu_destination m) \<and> timestamp_schema (mu_startedAt m) \<and>
     ownership_schema (mu_ownership m) \<and>
     (case mu_status m of
        Confirmed mid fin \<Rightarrow> message_id_schema mid \<and> timestamp_schema fin
      | _ \<Rightarrow> True)"

definition mutation_attempt_schema :: "mutation_state \<Rightarrow> bool" where
  "mutation_attempt_schema m \<longleftrightarrow> mutation_state_schema m \<and> mu_status m = Attempting"

text \<open>
  A value of the journal hash: a bare state (the legacy journal) or the native envelope with
  the immutable fingerprint and the session binding (\<open>JournalEnvelopeSchema\<close> in
  \<open>redis/repository.ts\<close>).
\<close>

datatype journal_row = Legacy mutation_state | Envelope string session_binding mutation_state

fun row_state :: "journal_row \<Rightarrow> mutation_state" where
  "row_state (Legacy m) = m"
| "row_state (Envelope _ _ m) = m"

fun row_with :: "journal_row \<Rightarrow> mutation_status \<Rightarrow> journal_row" where
  "row_with (Legacy m) st = Legacy (m\<lparr>mu_status := st\<rparr>)"
| "row_with (Envelope fp b m) st = Envelope fp b (m\<lparr>mu_status := st\<rparr>)"

text \<open>\<open>record.state and record.eventFingerprint ~= fp\<close> in the script.\<close>

fun row_fp_mismatch :: "journal_row \<Rightarrow> string \<Rightarrow> bool" where
  "row_fp_mismatch (Legacy _) fp = False"
| "row_fp_mismatch (Envelope f _ _) fp = (f \<noteq> fp)"

lemma row_state_with [simp]: "row_state (row_with r st) = (row_state r)\<lparr>mu_status := st\<rparr>"
  by (cases r) simp_all

lemma row_fp_with [simp]: "row_fp_mismatch (row_with r st) fp = row_fp_mismatch r fp"
  by (cases r) simp_all

section \<open>Checkpoints\<close>

record tool_outcome =
  to_attemptId :: string
  to_tool :: mutation_tool
  to_destination :: string
  to_messageId :: string

record checkpoint_v1 =
  ck_chat :: string
  ck_lastSequence :: nat
  ck_policyVersion :: string
  ck_templateVersion :: string
  ck_createdAt :: string
  ck_goals :: "string list"
  ck_decisions :: "string list"
  ck_constraints :: "string list"
  ck_verifiedFacts :: "string list"
  ck_pendingWork :: "string list"
  ck_approvalBoundaries :: "string list"
  ck_nextSteps :: "string list"
  ck_outcomes :: "tool_outcome list"

definition tool_outcome_schema :: "tool_outcome \<Rightarrow> bool" where
  "tool_outcome_schema x \<longleftrightarrow> opaque_id (to_attemptId x) \<and> chat_jid_schema (to_destination x) \<and>
     message_id_schema (to_messageId x)"

definition notes_schema :: "string list \<Rightarrow> bool" where
  "notes_schema ns \<longleftrightarrow> length ns \<le> 64 \<and> list_all (\<lambda>n. 1 \<le> length n \<and> length n \<le> 2048) ns"

definition checkpoint_schema :: "checkpoint_v1 \<Rightarrow> bool" where
  "checkpoint_schema c \<longleftrightarrow>
     chat_jid_schema (ck_chat c) \<and> counter_schema (ck_lastSequence c) \<and>
     version_schema (ck_policyVersion c) \<and> version_schema (ck_templateVersion c) \<and>
     timestamp_schema (ck_createdAt c) \<and>
     list_all notes_schema [ck_goals c, ck_decisions c, ck_constraints c, ck_verifiedFacts c,
       ck_pendingWork c, ck_approvalBoundaries c, ck_nextSteps c] \<and>
     length (ck_outcomes c) \<le> 256 \<and> list_all tool_outcome_schema (ck_outcomes c)"

text \<open>The five counters of a session file's generation, as canonical decimal strings.\<close>

record file_generation =
  fg_device :: string
  fg_inode :: string
  fg_size :: string
  fg_mtimeNs :: string
  fg_ctimeNs :: string

definition file_generation_schema :: "file_generation \<Rightarrow> bool" where
  "file_generation_schema g \<longleftrightarrow>
     list_all (\<lambda>s. canonical s \<and> length s \<le> 32)
       [fg_device g, fg_inode g, fg_size g, fg_mtimeNs g, fg_ctimeNs g]"

record recovery_binding =
  rb_eventId :: string
  rb_fingerprint :: string
  rb_streamId :: stream_id
  rb_session :: session_binding
  rb_generation :: file_generation

definition recovery_binding_schema :: "recovery_binding \<Rightarrow> bool" where
  "recovery_binding_schema r \<longleftrightarrow> opaque_id (rb_eventId r) \<and>
     event_fingerprint_schema (rb_fingerprint r) \<and> stream_id_schema (rb_streamId r) \<and>
     session_binding_schema (rb_session r) \<and> file_generation_schema (rb_generation r)"

text \<open>The string of a compacted or restored phase is the compaction entry's ID.\<close>

datatype checkpoint_phase = Prepared | Aborted | Compacted string | Restored string

record checkpoint_record =
  cr_id :: string
  cr_checkpoint :: checkpoint_v1
  cr_recovery :: "recovery_binding option"
  cr_phase :: checkpoint_phase

fun phase_schema :: "checkpoint_phase \<Rightarrow> bool" where
  "phase_schema Prepared = True"
| "phase_schema Aborted = True"
| "phase_schema (Compacted e) = (1 \<le> length e \<and> length e \<le> 128)"
| "phase_schema (Restored e) = (1 \<le> length e \<and> length e \<le> 128)"

definition checkpoint_record_schema :: "checkpoint_record \<Rightarrow> bool" where
  "checkpoint_record_schema r \<longleftrightarrow> opaque_id (cr_id r) \<and> checkpoint_schema (cr_checkpoint r) \<and>
     (case cr_recovery r of None \<Rightarrow> True | Some b \<Rightarrow> recovery_binding_schema b) \<and>
     phase_schema (cr_phase r)"

end
