(* ===== verification/Keyspace.thy ===== *)
theory Keyspace
  imports Domain
begin

text \<open>
  The nine Redis keys that every run of the script
  (\<open>src/session-controller/src/redis/scripts.ts\<close>) receives, in the script's order, and the
  script's local functions. The hashes with fixed fields are records of optional fields; the
  others are \<open>hash\<close>es of the prelude. A JSON text that the script only decodes, or compares
  with a text printed by the same serialiser, is kept as the value it encodes.
  The stream commands are Redis's own: they are the fields of a parameter
  \<open>'st stream_ops\<close>, and what the development relies on of them is \<open>stream_laws\<close>.
\<close>

section \<open>The stream commands\<close>

record 'st stream_ops =
  xgroup_create :: "'st \<Rightarrow> 'st"
  xadd :: "nat \<Rightarrow> string \<Rightarrow> 'st \<Rightarrow> stream_id \<times> 'st"
  xclaim :: "string \<Rightarrow> stream_id \<Rightarrow> 'st \<Rightarrow> stream_id list \<times> 'st"
  xautoclaim :: "string \<Rightarrow> stream_id \<Rightarrow> nat \<Rightarrow> 'st \<Rightarrow>
    stream_id \<times> stream_id list \<times> stream_id list \<times> 'st"
  xrange1 :: "stream_id \<Rightarrow> 'st \<Rightarrow> (stream_id \<times> string) list"
  xpending1 :: "stream_id \<Rightarrow> 'st \<Rightarrow> stream_id list"
  xack :: "stream_id \<Rightarrow> 'st \<Rightarrow> 'st"
  xdel :: "stream_id \<Rightarrow> 'st \<Rightarrow> 'st"

text \<open>The event that the stream holds under an ID, as a range query of that ID alone shows it.\<close>

definition stream_entry :: "'st stream_ops \<Rightarrow> 'st \<Rightarrow> stream_id \<Rightarrow> string option" where
  "stream_entry R st i = (case xrange1 R i st of [(_, ev)] \<Rightarrow> Some ev | _ \<Rightarrow> None)"

text \<open>
  Documented behaviour: XADD stores the entry under an unused ID and touches no other; XDEL
  removes one; XCLAIM (FORCE) of an existing entry returns it; XCLAIM, XAUTOCLAIM, XACK and
  XGROUP CREATE work on the pending list only; XAUTOCLAIM reports as deleted only IDs without
  an entry.
\<close>

definition stream_laws :: "'st stream_ops \<Rightarrow> bool" where
  "stream_laws R \<longleftrightarrow>
     (\<forall>t ev st. stream_entry R st (fst (xadd R t ev st)) = None \<and>
        stream_entry R (snd (xadd R t ev st)) = (stream_entry R st)(fst (xadd R t ev st) \<mapsto> ev)) \<and>
     (\<forall>i st. stream_entry R (xdel R i st) = (stream_entry R st)(i := None)) \<and>
     (\<forall>c i st. stream_entry R st i \<noteq> None \<longrightarrow> fst (xclaim R c i st) = [i]) \<and>
     (\<forall>c i st. stream_entry R (snd (xclaim R c i st)) = stream_entry R st) \<and>
     (\<forall>c i n st. case xautoclaim R c i n st of (_, _, deleted, st') \<Rightarrow>
        stream_entry R st' = stream_entry R st \<and> list_all (\<lambda>j. stream_entry R st j = None) deleted) \<and>
     (\<forall>i st. stream_entry R (xack R i st) = stream_entry R st) \<and>
     (\<forall>st. stream_entry R (xgroup_create R st) = stream_entry R st)"

section \<open>The keys\<close>

record app_hash =
  app_owner :: "string option"
  app_epoch :: "string option"
  app_until :: "nat option"
  identityRevision :: "string option"

record state_hash =
  st_chat :: "string option"
  st_cursor :: "string option"
  st_revision :: "string option"
  st_durability :: "string option"
  st_session :: "session_binding option"
  st_pause :: "pause_reason option"
  st_gap :: "nat option"
  st_turnEvent :: "string option"

record lease_hash =
  le_owner :: "string option"
  le_epoch :: "string option"
  le_until :: "nat option"
  le_appOwner :: "string option"
  le_appEpoch :: "string option"
  le_event :: "string option"
  le_repairIntent :: "string option"

record event_row =
  er_id :: stream_id
  er_fp :: string
  er_seq :: string
  er_raw :: notification

record 'st keyspace =
  k_app :: app_hash
  k_state :: state_hash
  k_lease :: lease_hash
  k_stream :: 'st
  k_events :: "event_row hash"
  k_seqs :: "string hash"
  k_tools :: "journal_row hash"
  k_checkpoint :: "checkpoint_record option"
  k_identities :: "string hash"

text \<open>The reply arrays, by their first element and payload.\<close>

datatype reply =
    R_ok | R_lost | R_busy | R_paused | R_retry | R_conflict | R_duplicate | R_accepted
  | R_empty | R_waiting | R_started | R_ineligible | R_unsafe | R_intent_required | R_invalid
  | R_error
  | R_fence "string option" nat
  | R_claimed stream_id notification "string option" nat
  | R_repair stream_id notification session_binding checkpoint_record "string option" nat
  | R_until "nat option" "nat option"
  | R_turn "string option"
  | R_read string "session_binding option" "pause_reason option" "nat option"
  | R_snapshot string string string
  | R_pel stream_id nat nat
  | R_rows "journal_row list"
  | R_checkpoint "checkpoint_record option"

section \<open>The script's local functions\<close>

definition or0 :: "string option \<Rightarrow> string" where
  "or0 x = (case x of Some s \<Rightarrow> s | None \<Rightarrow> ''0'')"

definition tonum :: "nat option \<Rightarrow> nat" where
  "tonum x = (case x of Some n \<Rightarrow> n | None \<Rightarrow> 0)"

definition alive_app :: "nat \<Rightarrow> string \<Rightarrow> string \<Rightarrow> app_hash \<Rightarrow> bool" where
  "alive_app now owner epoch a \<longleftrightarrow>
     app_owner a = Some owner \<and> app_epoch a = Some epoch \<and> now < tonum (app_until a)"

definition alive_lease :: "nat \<Rightarrow> string \<Rightarrow> string \<Rightarrow> lease_hash \<Rightarrow> bool" where
  "alive_lease now owner epoch l \<longleftrightarrow>
     le_owner l = Some owner \<and> le_epoch l = Some epoch \<and> now < tonum (le_until l)"

text \<open>\<open>ARGV[2]\<close> to \<open>ARGV[8]\<close> of the operations on claimed work.\<close>

record work_args =
  wa_appOwner :: string
  wa_appEpoch :: string
  wa_chatOwner :: string
  wa_chatEpoch :: string
  wa_event :: string
  wa_streamId :: stream_id
  wa_fp :: string

definition lua_fence :: "nat \<Rightarrow> work_args \<Rightarrow> 'st keyspace \<Rightarrow> bool" where
  "lua_fence now w k \<longleftrightarrow>
     alive_app now (wa_appOwner w) (wa_appEpoch w) (k_app k) \<and>
     alive_lease now (wa_chatOwner w) (wa_chatEpoch w) (k_lease k) \<and>
     le_appEpoch (k_lease k) = Some (wa_appEpoch w) \<and> le_appOwner (k_lease k) = Some (wa_appOwner w)"

definition lua_work :: "nat \<Rightarrow> work_args \<Rightarrow> 'st keyspace \<Rightarrow> event_row option" where
  "lua_work now w k =
     (if \<not> lua_fence now w k then None
      else case hget (k_events k) (wa_event w) of
        None \<Rightarrow> None
      | Some e \<Rightarrow>
          if er_id e \<noteq> wa_streamId w \<or> er_fp e \<noteq> wa_fp w \<or> le_event (k_lease k) \<noteq> Some (wa_event w)
          then None else Some e)"

definition barrier :: "'st keyspace \<Rightarrow> 'st keyspace" where
  "barrier k = k\<lparr>k_state := (k_state k)\<lparr>st_durability := Some (inc (or0 (st_durability (k_state k))))\<rparr>\<rparr>"

definition renew_lease :: "nat \<Rightarrow> nat \<Rightarrow> 'st keyspace \<Rightarrow> 'st keyspace" where
  "renew_lease now ms k = k\<lparr>k_lease := (k_lease k)\<lparr>le_until := Some (now + ms)\<rparr>\<rparr>"

text \<open>The field updates of the operations, named so that proofs can go update by update.\<close>

definition set_pause :: "pause_reason option \<Rightarrow> 'st keyspace \<Rightarrow> 'st keyspace" where
  "set_pause r k = k\<lparr>k_state := (k_state k)\<lparr>st_pause := r\<rparr>\<rparr>"

definition set_gap :: "nat option \<Rightarrow> 'st keyspace \<Rightarrow> 'st keyspace" where
  "set_gap g k = k\<lparr>k_state := (k_state k)\<lparr>st_gap := g\<rparr>\<rparr>"

definition set_turn :: "string \<Rightarrow> 'st keyspace \<Rightarrow> 'st keyspace" where
  "set_turn ev k = k\<lparr>k_state := (k_state k)\<lparr>st_turnEvent := Some ev\<rparr>\<rparr>"

definition set_session :: "session_binding \<Rightarrow> 'st keyspace \<Rightarrow> 'st keyspace" where
  "set_session b k = k\<lparr>k_state := (k_state k)\<lparr>st_session := Some b\<rparr>\<rparr>"

definition set_stream :: "'st \<Rightarrow> 'st keyspace \<Rightarrow> 'st keyspace" where
  "set_stream st k = k\<lparr>k_stream := st\<rparr>"

definition set_tools :: "journal_row hash \<Rightarrow> 'st keyspace \<Rightarrow> 'st keyspace" where
  "set_tools t k = k\<lparr>k_tools := t\<rparr>"

definition set_checkpoint :: "checkpoint_record \<Rightarrow> 'st keyspace \<Rightarrow> 'st keyspace" where
  "set_checkpoint c k = k\<lparr>k_checkpoint := Some c\<rparr>"

definition set_repairIntent :: "string option \<Rightarrow> 'st keyspace \<Rightarrow> 'st keyspace" where
  "set_repairIntent i k = k\<lparr>k_lease := (k_lease k)\<lparr>le_repairIntent := i\<rparr>\<rparr>"

definition set_app :: "app_hash \<Rightarrow> 'st keyspace \<Rightarrow> 'st keyspace" where
  "set_app a k = k\<lparr>k_app := a\<rparr>"

definition renew_app :: "nat \<Rightarrow> nat \<Rightarrow> 'st keyspace \<Rightarrow> reply \<times> 'st keyspace" where
  "renew_app now ms k =
     (R_fence (app_epoch (k_app k)) (now + ms), set_app ((k_app k)\<lparr>app_until := Some (now + ms)\<rparr>) k)"

text \<open>\<open>HDEL lease owner until event\<close> and, for repairs, \<open>repairIntent\<close>.\<close>

definition drop_lease :: "'st keyspace \<Rightarrow> 'st keyspace" where
  "drop_lease k = k\<lparr>k_lease := (k_lease k)\<lparr>le_owner := None, le_until := None, le_event := None\<rparr>\<rparr>"

definition drop_repair_lease :: "'st keyspace \<Rightarrow> 'st keyspace" where
  "drop_repair_lease k =
     k\<lparr>k_lease := (k_lease k)\<lparr>le_owner := None, le_until := None, le_event := None, le_repairIntent := None\<rparr>\<rparr>"

definition lease_busy :: "nat \<Rightarrow> string \<Rightarrow> string \<Rightarrow> 'st keyspace \<Rightarrow> bool" where
  "lease_busy now appOwner appEpoch k \<longleftrightarrow>
     le_appEpoch (k_lease k) = Some appEpoch \<and> le_appOwner (k_lease k) = Some appOwner \<and>
     now < tonum (le_until (k_lease k))"

definition grant_lease :: "string \<Rightarrow> string \<Rightarrow> string \<Rightarrow> string \<Rightarrow> string \<Rightarrow> 'st keyspace \<Rightarrow> 'st keyspace" where
  "grant_lease owner epoch appOwner appEpoch event k =
     k\<lparr>k_lease := (k_lease k)\<lparr>le_owner := Some owner, le_epoch := Some epoch,
        le_appOwner := Some appOwner, le_appEpoch := Some appEpoch, le_event := Some event\<rparr>\<rparr>"

definition next_seq :: "'st keyspace \<Rightarrow> string" where
  "next_seq k = inc (or0 (st_cursor (k_state k)))"

end
