(* ===== verification/Script_Intake.thy ===== *)
theory Script_Intake
  imports Keyspace
begin

text \<open>
  The script's operations on admission: \<open>init\<close>, \<open>snapshot\<close>, \<open>accept\<close> and \<open>read\<close>
  (\<open>src/session-controller/src/redis/scripts.ts\<close>). \<open>now\<close> is the server's clock in
  milliseconds, constant during one run of the script.
\<close>

text \<open>\<open>EXISTS state\<close>: a Redis hash exists when it has a field.\<close>

definition state_exists :: "state_hash \<Rightarrow> bool" where
  "state_exists s \<longleftrightarrow> st_chat s \<noteq> None \<or> st_cursor s \<noteq> None \<or> st_revision s \<noteq> None \<or>
     st_durability s \<noteq> None \<or> st_session s \<noteq> None \<or> st_pause s \<noteq> None \<or> st_gap s \<noteq> None \<or>
     st_turnEvent s \<noteq> None"

definition op_init :: "'st stream_ops \<Rightarrow> string \<Rightarrow> 'st keyspace \<Rightarrow> reply \<times> 'st keyspace" where
  [script_defs]: "op_init R chat k =
     (let k = (if state_exists (k_state k) then k
               else k\<lparr>k_state := (k_state k)\<lparr>st_cursor := Some ''0'', st_revision := Some ''0'',
                      st_chat := Some chat\<rparr>\<rparr>)
      in if st_chat (k_state k) \<noteq> Some chat then (R_invalid, k)
         else (R_ok, barrier (set_stream (xgroup_create R (k_stream k)) k)))"

definition op_snapshot :: "'st keyspace \<Rightarrow> reply \<times> 'st keyspace" where
  [script_defs]: "op_snapshot k =
     (R_snapshot (or0 (st_revision (k_state k))) (or0 (st_cursor (k_state k)))
        (or0 (identityRevision (k_app k))), k)"

definition op_read :: "'st keyspace \<Rightarrow> reply \<times> 'st keyspace" where
  [script_defs]: "op_read k =
     (R_read (or0 (st_cursor (k_state k))) (st_session (k_state k)) (st_pause (k_state k))
        (st_gap (k_state k)), k)"

text \<open>
  \<open>accept\<close>: the revisions of the caller's snapshot, the event's ID, fingerprint, sequence (a
  decimal string) and value, whether durable evidence says it is completed, and the chat.
\<close>

definition identity_text :: "string \<Rightarrow> string \<Rightarrow> string" where
  "identity_text chat fp = chat @ ''|'' @ fp"

definition admitted_keys :: "'st stream_ops \<Rightarrow> nat \<Rightarrow> string \<Rightarrow> string \<Rightarrow> string \<Rightarrow> notification \<Rightarrow>
    string \<Rightarrow> 'st keyspace \<Rightarrow> 'st keyspace" where
  "admitted_keys R now eid fp sq raw identity k =
     (let i = fst (xadd R now eid (k_stream k)); st = snd (xadd R now eid (k_stream k)) in
      k\<lparr>k_stream := st,
        k_events := hset eid \<lparr>er_id = i, er_fp = fp, er_seq = sq, er_raw = raw\<rparr> (k_events k),
        k_seqs := hset sq eid (k_seqs k),
        k_identities := hset eid identity (k_identities k)\<rparr>)"

definition op_accept :: "'st stream_ops \<Rightarrow> nat \<Rightarrow> string \<Rightarrow> string \<Rightarrow> string \<Rightarrow> string \<Rightarrow> notification \<Rightarrow>
    bool \<Rightarrow> string \<Rightarrow> string \<Rightarrow> 'st keyspace \<Rightarrow> reply \<times> 'st keyspace" where
  [script_defs]: "op_accept R now rv eid fp sq raw completed chat idrev k =
     (if or0 (st_revision (k_state k)) \<noteq> rv \<or> or0 (identityRevision (k_app k)) \<noteq> idrev
      then (R_retry, k)
      else
        let identity = identity_text chat fp in
        if hget (k_identities k) eid \<noteq> None \<and> hget (k_identities k) eid \<noteq> Some identity
        then (R_conflict, k)
        else case hget (k_events k) eid of
          Some e \<Rightarrow>
            if er_fp e \<noteq> fp \<or> er_seq e \<noteq> sq then (R_conflict, k) else (R_duplicate, barrier k)
        | None \<Rightarrow>
            if hget (k_seqs k) sq \<noteq> None \<and> hget (k_seqs k) sq \<noteq> Some eid then (R_conflict, k)
            else if completed then (R_duplicate, barrier k)
            else if \<not> less_dec (or0 (st_cursor (k_state k))) sq then (R_conflict, k)
            else
              (R_accepted, barrier (admitted_keys R now eid fp sq raw identity k)))"

end
