(* ===== verification/Script_Lease.thy ===== *)
theory Script_Lease
  imports Keyspace
begin

text \<open>
  The script's operations on the application fence and on chat leases: \<open>app-acquire\<close>,
  \<open>app-renew\<close>, \<open>app-release\<close>, \<open>claim\<close>, \<open>recover-pel\<close>, \<open>renew\<close> and \<open>check-work\<close>
  (\<open>src/session-controller/src/redis/scripts.ts\<close>).
\<close>

section \<open>The application fence\<close>

definition op_app_acquire :: "nat \<Rightarrow> string \<Rightarrow> nat \<Rightarrow> 'st keyspace \<Rightarrow> reply \<times> 'st keyspace" where
  [script_defs]: "op_app_acquire now owner ms k =
     (if now < tonum (app_until (k_app k)) then (R_busy, k)
      else
        let epoch = inc (or0 (app_epoch (k_app k))) in
        if 32 < length epoch then (R_lost, k)
        else renew_app now ms (set_app ((k_app k)\<lparr>app_owner := Some owner, app_epoch := Some epoch\<rparr>) k))"

definition op_app_renew :: "nat \<Rightarrow> string \<Rightarrow> string \<Rightarrow> nat \<Rightarrow> 'st keyspace \<Rightarrow> reply \<times> 'st keyspace" where
  [script_defs]: "op_app_renew now owner epoch ms k =
     (if \<not> alive_app now owner epoch (k_app k) then (R_lost, k) else renew_app now ms k)"

definition op_app_release :: "nat \<Rightarrow> string \<Rightarrow> string \<Rightarrow> 'st keyspace \<Rightarrow> reply \<times> 'st keyspace" where
  [script_defs]: "op_app_release now owner epoch k =
     (if \<not> alive_app now owner epoch (k_app k) then (R_lost, k)
      else (R_ok, set_app ((k_app k)\<lparr>app_owner := None, app_until := None\<rparr>) k))"

section \<open>Claiming the next event of a chat\<close>

text \<open>The loop over \<open>HVALS tools\<close>: unresolved native rows become uncertain.\<close>

fun sweep_row :: "journal_row \<Rightarrow> journal_row hash \<Rightarrow> journal_row hash" where
  "sweep_row (Envelope fp b m) tools = hset (mu_attemptId m) (Envelope fp b (m\<lparr>mu_status := Uncertain\<rparr>)) tools"
| "sweep_row (Legacy m) tools = tools"

fun sweep :: "journal_row list \<Rightarrow> journal_row hash \<Rightarrow> bool \<Rightarrow> journal_row hash \<times> bool" where
  "sweep [] tools unresolved = (tools, unresolved)"
| "sweep (r # rs) tools unresolved =
     (if \<not> is_confirmed (mu_status (row_state r)) then sweep rs (sweep_row r tools) True
      else sweep rs tools unresolved)"

text \<open>No event has the next sequence: the chat is empty, or it waits and then pauses.\<close>

definition claim_gap :: "nat \<Rightarrow> nat \<Rightarrow> 'st keyspace \<Rightarrow> reply \<times> 'st keyspace" where
  [script_defs]: "claim_gap now gapTimeout k =
     (if k_events k = [] then (R_empty, set_gap None k)
      else
        let gap = (case st_gap (k_state k) of Some g \<Rightarrow> g | None \<Rightarrow> now);
            k = set_gap (Some gap) k
        in if gap + gapTimeout \<le> now then (R_paused, barrier (set_pause (Some P_sequence_gap) k))
           else (R_waiting, barrier k))"

text \<open>The event next in sequence gets its stream entry claimed and a lease of a new epoch.\<close>

definition claim_event :: "'st stream_ops \<Rightarrow> nat \<Rightarrow> string \<Rightarrow> string \<Rightarrow> string \<Rightarrow> nat \<Rightarrow> string \<Rightarrow>
    'st keyspace \<Rightarrow> reply \<times> 'st keyspace" where
  [script_defs]: "claim_event R now appOwner appEpoch owner leaseMs event k =
     (case hget (k_events k) event of
        None \<Rightarrow> (R_lost, k)
      | Some e \<Rightarrow>
          let epoch = inc (or0 (le_epoch (k_lease k))) in
          if 32 < length epoch then (R_lost, k)
          else
            let claimed = fst (xclaim R owner (er_id e) (k_stream k));
                k = set_stream (snd (xclaim R owner (er_id e) (k_stream k))) k
            in
            if length claimed \<noteq> 1 then (R_lost, k)
            else
              (R_claimed (er_id e) (er_raw e) (Some epoch) (now + leaseMs),
               barrier (renew_lease now leaseMs
                 (set_gap None (grant_lease owner epoch appOwner appEpoch event k)))))"

definition op_claim :: "'st stream_ops \<Rightarrow> nat \<Rightarrow> string \<Rightarrow> string \<Rightarrow> string \<Rightarrow> nat \<Rightarrow> nat \<Rightarrow>
    'st keyspace \<Rightarrow> reply \<times> 'st keyspace" where
  [script_defs]: "op_claim R now appOwner appEpoch owner leaseMs gapTimeout k =
     (if \<not> alive_app now appOwner appEpoch (k_app k) then (R_lost, k)
      else if st_pause (k_state k) \<noteq> None then (R_paused, k)
      else if lease_busy now appOwner appEpoch k then (R_waiting, k)
      else
        let (tools, unresolved) = sweep (hvals (k_tools k)) (k_tools k) False;
            k = set_tools tools k
        in
        if unresolved then (R_paused, barrier (set_pause (Some P_mutation_uncertain) k))
        else case hget (k_seqs k) (next_seq k) of
          None \<Rightarrow> claim_gap now gapTimeout k
        | Some event \<Rightarrow> claim_event R now appOwner appEpoch owner leaseMs event k)"

definition op_recover_pel :: "'st stream_ops \<Rightarrow> nat \<Rightarrow> string \<Rightarrow> string \<Rightarrow> string \<Rightarrow> stream_id \<Rightarrow> nat \<Rightarrow>
    'st keyspace \<Rightarrow> reply \<times> 'st keyspace" where
  [script_defs]: "op_recover_pel R now appOwner appEpoch consumer start count k =
     (if \<not> alive_app now appOwner appEpoch (k_app k) then (R_lost, k)
      else if lease_busy now appOwner appEpoch k then (R_busy, k)
      else if st_pause (k_state k) \<noteq> None then (R_paused, k)
      else
        let (nxt, claimed, deleted, st) = xautoclaim R consumer start count (k_stream k);
            k = set_stream st k;
            k = (if deleted \<noteq> [] then set_pause (Some P_sequence_gap) k else k)
        in (R_pel nxt (length claimed) (length deleted), barrier k))"

section \<open>Renewing and checking claimed work\<close>

definition op_renew :: "nat \<Rightarrow> work_args \<Rightarrow> nat \<Rightarrow> 'st keyspace \<Rightarrow> reply \<times> 'st keyspace" where
  [script_defs]: "op_renew now w ms k =
     (case lua_work now w k of
        None \<Rightarrow> (R_lost, k)
      | Some _ \<Rightarrow> (R_fence (le_epoch (k_lease k)) (now + ms), barrier (renew_lease now ms k)))"

definition op_check_work :: "nat \<Rightarrow> work_args \<Rightarrow> 'st keyspace \<Rightarrow> reply \<times> 'st keyspace" where
  [script_defs]: "op_check_work now w k =
     (case lua_work now w k of
        None \<Rightarrow> (R_lost, k)
      | Some _ \<Rightarrow> (R_until (app_until (k_app k)) (le_until (k_lease k)), barrier k))"

end
