(* ===== verification/Script_Work.thy ===== *)
theory Script_Work
  imports Keyspace
begin

text \<open>
  The script's operations on claimed work: the turn marker (\<open>turn-state\<close>, \<open>begin-turn\<close>),
  \<open>pause\<close>, \<open>bind\<close>, \<open>complete\<close> and the mutation journal (\<open>journal-begin\<close>,
  \<open>native-journal-begin\<close>, \<open>journal-transition\<close>, \<open>journal-list\<close>), from
  \<open>src/session-controller/src/redis/scripts.ts\<close>.
\<close>

section \<open>Turn, pause, binding\<close>

definition op_turn_state :: "nat \<Rightarrow> work_args \<Rightarrow> 'st keyspace \<Rightarrow> reply \<times> 'st keyspace" where
  [script_defs]: "op_turn_state now w k =
     (case lua_work now w k of
        None \<Rightarrow> (R_lost, k)
      | Some _ \<Rightarrow> (R_turn (st_turnEvent (k_state k)), k))"

definition op_begin_turn :: "nat \<Rightarrow> work_args \<Rightarrow> 'st keyspace \<Rightarrow> reply \<times> 'st keyspace" where
  [script_defs]: "op_begin_turn now w k =
     (case lua_work now w k of
        None \<Rightarrow> (R_lost, k)
      | Some _ \<Rightarrow>
          if st_turnEvent (k_state k) \<noteq> None then (R_started, k)
          else (R_ok, barrier (set_turn (wa_event w) k)))"

definition op_pause :: "nat \<Rightarrow> work_args \<Rightarrow> pause_reason \<Rightarrow> 'st keyspace \<Rightarrow> reply \<times> 'st keyspace" where
  [script_defs]: "op_pause now w reason k =
     (case lua_work now w k of
        None \<Rightarrow> (R_lost, k)
      | Some _ \<Rightarrow> (R_ok, barrier (set_pause (Some reason) k)))"

definition op_bind :: "nat \<Rightarrow> work_args \<Rightarrow> session_binding \<Rightarrow> 'st keyspace \<Rightarrow> reply \<times> 'st keyspace" where
  [script_defs]: "op_bind now w b k =
     (case lua_work now w k of
        None \<Rightarrow> (R_lost, k)
      | Some _ \<Rightarrow>
          if st_session (k_state k) \<noteq> None \<and> st_session (k_state k) \<noteq> Some b then (R_lost, k)
          else (R_ok, barrier (set_session b k)))"

section \<open>Completion\<close>

definition row_completed :: "work_args \<Rightarrow> confirmed_send list \<Rightarrow> journal_row \<Rightarrow> bool" where
  "row_completed w sends r \<longleftrightarrow>
     (case mu_status (row_state r) of
        Confirmed mid _ \<Rightarrow>
          mu_eventId (row_state r) = wa_event w \<and> \<not> row_fp_mismatch r (wa_fp w) \<and>
          list_ex (\<lambda>s. cs_destination s = mu_destination (row_state r) \<and> cs_messageId s = mid) sends
      | _ \<Rightarrow> False)"

text \<open>
  The writes of a completion: the cursor moves to the event's sequence, both revisions are
  incremented, the stream entry, the event row, its sequence and identity, the journal, the
  lease and the turn marker go.
\<close>

definition completed_keys :: "'st stream_ops \<Rightarrow> string \<Rightarrow> event_row \<Rightarrow> 'st keyspace \<Rightarrow> 'st keyspace" where
  "completed_keys R ev e k = k\<lparr>
     k_state := (k_state k)\<lparr>st_cursor := Some (er_seq e),
       st_revision := Some (inc (or0 (st_revision (k_state k)))), st_turnEvent := None\<rparr>,
     k_app := (k_app k)\<lparr>identityRevision := Some (inc (or0 (identityRevision (k_app k))))\<rparr>,
     k_stream := xdel R (er_id e) (xack R (er_id e) (k_stream k)),
     k_events := hdel ev (k_events k),
     k_seqs := hdel (er_seq e) (k_seqs k),
     k_identities := hdel ev (k_identities k),
     k_tools := [],
     k_lease := (k_lease k)\<lparr>le_owner := None, le_until := None, le_event := None\<rparr>\<rparr>"

definition op_complete :: "'st stream_ops \<Rightarrow> nat \<Rightarrow> work_args \<Rightarrow> session_binding \<Rightarrow>
    confirmed_send list \<Rightarrow> 'st keyspace \<Rightarrow> reply \<times> 'st keyspace" where
  [script_defs]: "op_complete R now w b sends k =
     (case lua_work now w k of
        None \<Rightarrow> (R_lost, k)
      | Some e \<Rightarrow>
          if er_seq e \<noteq> next_seq k \<or> st_session (k_state k) \<noteq> Some b then (R_lost, k)
          else if \<not> list_all (row_completed w sends) (hvals (k_tools k)) then (R_lost, k)
          else (R_ok, barrier (completed_keys R (wa_event w) e k)))"

section \<open>The mutation journal\<close>

definition op_journal_begin :: "nat \<Rightarrow> work_args \<Rightarrow> string \<Rightarrow> journal_row \<Rightarrow>
    'st keyspace \<Rightarrow> reply \<times> 'st keyspace" where
  [script_defs]: "op_journal_begin now w attempt row k =
     (case lua_work now w k of
        None \<Rightarrow> (R_lost, k)
      | Some _ \<Rightarrow>
          if hget (k_tools k) attempt \<noteq> None then (R_lost, k)
          else (R_ok, barrier (set_tools (hset attempt row (k_tools k)) k)))"

text \<open>The native record is an envelope \<open>(rfp, rb, t)\<close>; \<open>b\<close> is the session text \<open>ARGV[11]\<close>.\<close>

definition op_native_journal_begin :: "nat \<Rightarrow> work_args \<Rightarrow> string \<Rightarrow> string \<Rightarrow> session_binding \<Rightarrow>
    mutation_state \<Rightarrow> session_binding \<Rightarrow> 'st keyspace \<Rightarrow> reply \<times> 'st keyspace" where
  [script_defs]: "op_native_journal_begin now w attempt rfp rb t b k =
     (case lua_work now w k of
        None \<Rightarrow> (R_lost, k)
      | Some _ \<Rightarrow>
          if st_turnEvent (k_state k) \<noteq> Some (wa_event w) \<or> st_session (k_state k) \<noteq> Some b
          then (R_lost, k)
          else if rfp \<noteq> wa_fp w \<or> mu_eventId t \<noteq> wa_event w \<or> mu_attemptId t \<noteq> attempt \<or>
            mu_status t \<noteq> Attempting then (R_lost, k)
          else if hget (k_tools k) attempt \<noteq> None then (R_lost, k)
          else if list_ex (\<lambda>r. mu_eventId (row_state r) = wa_event w \<and>
              mu_toolCallId (row_state r) = mu_toolCallId t) (hvals (k_tools k)) then (R_lost, k)
          else (R_ok, barrier (set_tools (hset attempt (Envelope rfp rb t) (k_tools k)) k)))"

text \<open>
  \<open>ARGV[10]\<close> is \<open>confirmed\<close> with a message ID and a time, or \<open>uncertain\<close>:
  \<open>Some (mid, time)\<close> or \<open>None\<close>.
\<close>

definition op_journal_transition :: "nat \<Rightarrow> work_args \<Rightarrow> string \<Rightarrow> (string \<times> string) option \<Rightarrow>
    'st keyspace \<Rightarrow> reply \<times> 'st keyspace" where
  [script_defs]: "op_journal_transition now w attempt outcome k =
     (case lua_work now w k of
        None \<Rightarrow> (R_lost, k)
      | Some _ \<Rightarrow>
          (case hget (k_tools k) attempt of
             None \<Rightarrow> (R_lost, k)
           | Some r \<Rightarrow>
               if row_fp_mismatch r (wa_fp w) \<or> mu_eventId (row_state r) \<noteq> wa_event w \<or>
                 mu_status (row_state r) \<noteq> Attempting then (R_lost, k)
               else
                 (case outcome of
                    Some (mid, time) \<Rightarrow>
                      (R_ok, barrier (set_tools (hset attempt (row_with r (Confirmed mid time)) (k_tools k)) k))
                  | None \<Rightarrow>
                      let k = set_pause (Some P_mutation_uncertain) k
                      in (R_ok, barrier (set_tools (hset attempt (row_with r Uncertain) (k_tools k)) k)))))"

definition op_journal_list :: "'st keyspace \<Rightarrow> reply \<times> 'st keyspace" where
  [script_defs]: "op_journal_list k = (R_rows (hvals (k_tools k)), k)"

end
