(* ===== verification/Script_Repair.thy ===== *)
theory Script_Repair
  imports Keyspace
begin

text \<open>
  The script's checkpoint operations (\<open>checkpoint-prepare\<close>, \<open>checkpoint-transition\<close>,
  \<open>checkpoint-abort\<close>, \<open>checkpoint-latest\<close>) and the operator's repair of a failed
  compaction (\<open>repair-intent\<close>, \<open>repair-claim\<close>, \<open>repair-release-fence\<close>,
  \<open>repair-release\<close>), with the evidence both rest on (\<open>repairEvidence\<close>), from
  \<open>src/session-controller/src/redis/scripts.ts\<close>.
\<close>

section \<open>The evidence of an orphaned preparation\<close>

record repair_proof =
  rp_event :: string
  rp_row :: event_row
  rp_session :: session_binding
  rp_prepared :: checkpoint_record

definition recovery_matches :: "recovery_binding \<Rightarrow> string \<Rightarrow> event_row \<Rightarrow> session_binding \<Rightarrow> bool" where
  "recovery_matches rb event e session \<longleftrightarrow> rb_eventId rb = event \<and> rb_fingerprint rb = er_fp e \<and>
     rb_streamId rb = er_id e \<and> rb_session rb = session"

text \<open>The head event of the chat with its stream row and its pending entry, or nothing.\<close>

definition head_evidence :: "'st stream_ops \<Rightarrow> 'st keyspace \<Rightarrow> (string \<times> event_row) option" where
  "head_evidence R k =
     (case hget (k_seqs k) (next_seq k) of
        None \<Rightarrow> None
      | Some event \<Rightarrow>
          (case hget (k_events k) event of
             None \<Rightarrow> None
           | Some e \<Rightarrow>
               if er_seq e \<noteq> next_seq k then None
               else if stream_entry R (k_stream k) (er_id e) \<noteq> Some event then None
               else if xpending1 R (er_id e) (k_stream k) \<noteq> [er_id e] then None
               else Some (event, e)))"

definition repairEvidence :: "'st stream_ops \<Rightarrow> string \<Rightarrow> string \<Rightarrow> 'st keyspace \<Rightarrow> reply + repair_proof" where
  "repairEvidence R chat intent k =
     (if st_chat (k_state k) \<noteq> Some chat then Inl R_ineligible
      else if st_pause (k_state k) \<noteq> Some P_compaction_failed then Inl R_ineligible
      else case k_checkpoint k of
        None \<Rightarrow> Inl R_ineligible
      | Some prepared \<Rightarrow>
          if cr_phase prepared \<noteq> Prepared \<or> ck_chat (cr_checkpoint prepared) \<noteq> chat
          then Inl R_ineligible
          else if st_turnEvent (k_state k) \<noteq> None \<or> k_tools k \<noteq> [] then Inl R_unsafe
          else case st_session (k_state k) of
            None \<Rightarrow> Inl R_unsafe
          | Some session \<Rightarrow>
              if sb_chat session \<noteq> chat then Inl R_unsafe
              else case head_evidence R k of
                None \<Rightarrow> Inl R_unsafe
              | Some (event, e) \<Rightarrow>
                  let proof = \<lparr>rp_event = event, rp_row = e, rp_session = session, rp_prepared = prepared\<rparr> in
                  (case cr_recovery prepared of
                     Some rb \<Rightarrow> if recovery_matches rb event e session then Inr proof else Inl R_unsafe
                   | None \<Rightarrow>
                       if intent = ''@generate'' then Inr proof
                       else if intent = '''' then Inl R_intent_required
                       else Inr proof))"

section \<open>The repair fence\<close>

definition op_repair_intent :: "'st stream_ops \<Rightarrow> nat \<Rightarrow> string \<Rightarrow> string \<Rightarrow> string \<Rightarrow> nat \<Rightarrow> string \<Rightarrow>
    'st keyspace \<Rightarrow> reply \<times> 'st keyspace" where
  [script_defs]: "op_repair_intent R now appOwner appEpoch owner leaseMs chat k =
     (if \<not> alive_app now appOwner appEpoch (k_app k) then (R_lost, k)
      else if lease_busy now appOwner appEpoch k then (R_busy, k)
      else case repairEvidence R chat ''@generate'' k of
        Inl r \<Rightarrow> (r, k)
      | Inr p \<Rightarrow>
          if cr_recovery (rp_prepared p) \<noteq> None then (R_ineligible, k)
          else
            let epoch = inc (or0 (le_epoch (k_lease k))) in
            if 32 < length epoch then (R_lost, k)
            else
              (R_repair (er_id (rp_row p)) (er_raw (rp_row p)) (rp_session p) (rp_prepared p)
                 (Some epoch) (now + leaseMs),
               barrier (renew_lease now leaseMs (set_repairIntent None
                 (grant_lease owner epoch appOwner appEpoch (rp_event p) k)))))"

definition op_repair_claim :: "'st stream_ops \<Rightarrow> nat \<Rightarrow> string \<Rightarrow> string \<Rightarrow> string \<Rightarrow> nat \<Rightarrow> string \<Rightarrow> string \<Rightarrow>
    'st keyspace \<Rightarrow> reply \<times> 'st keyspace" where
  [script_defs]: "op_repair_claim R now appOwner appEpoch owner leaseMs chat intent k =
     (if \<not> alive_app now appOwner appEpoch (k_app k) then (R_lost, k)
      else if lease_busy now appOwner appEpoch k then (R_busy, k)
      else case repairEvidence R chat intent k of
        Inl r \<Rightarrow> (r, k)
      | Inr p \<Rightarrow>
          let epoch = inc (or0 (le_epoch (k_lease k))) in
          if 32 < length epoch then (R_lost, k)
          else
            (R_repair (er_id (rp_row p)) (er_raw (rp_row p)) (rp_session p) (rp_prepared p)
               (Some epoch) (now + leaseMs),
             barrier (renew_lease now leaseMs
               (set_repairIntent (if cr_recovery (rp_prepared p) \<noteq> None then None else Some intent)
                 (grant_lease owner epoch appOwner appEpoch (rp_event p) k)))))"

definition op_repair_release_fence :: "nat \<Rightarrow> string \<Rightarrow> string \<Rightarrow> string \<Rightarrow> string \<Rightarrow>
    'st keyspace \<Rightarrow> reply \<times> 'st keyspace" where
  [script_defs]: "op_repair_release_fence now appOwner appEpoch owner epoch k =
     (if \<not> alive_app now appOwner appEpoch (k_app k) \<or> le_owner (k_lease k) \<noteq> Some owner \<or>
        le_epoch (k_lease k) \<noteq> Some epoch \<or> le_appOwner (k_lease k) \<noteq> Some appOwner \<or>
        le_appEpoch (k_lease k) \<noteq> Some appEpoch
      then (R_lost, k) else (R_ok, barrier (drop_repair_lease k)))"

definition op_repair_release :: "nat \<Rightarrow> work_args \<Rightarrow> session_binding \<Rightarrow> 'st keyspace \<Rightarrow> reply \<times> 'st keyspace" where
  [script_defs]: "op_repair_release now w expected k =
     (case lua_work now w k of
        None \<Rightarrow> (R_lost, k)
      | Some _ \<Rightarrow>
          if st_session (k_state k) \<noteq> Some expected then (R_lost, k)
          else (R_ok, barrier (drop_repair_lease k)))"

section \<open>Checkpoint records\<close>

definition op_checkpoint_prepare :: "nat \<Rightarrow> work_args \<Rightarrow> checkpoint_record \<Rightarrow> session_binding \<Rightarrow>
    'st keyspace \<Rightarrow> reply \<times> 'st keyspace" where
  [script_defs]: "op_checkpoint_prepare now w t supplied k =
     (case lua_work now w k of
        None \<Rightarrow> (R_lost, k)
      | Some e \<Rightarrow>
          (case (st_session (k_state k), cr_recovery t) of
             (Some session, Some rb) \<Rightarrow>
               if st_chat (k_state k) \<noteq> Some (ck_chat (cr_checkpoint t)) \<or> supplied \<noteq> session \<or>
                 rb_eventId rb \<noteq> wa_event w \<or> rb_fingerprint rb \<noteq> wa_fp w \<or>
                 rb_streamId rb \<noteq> wa_streamId w \<or> rb_session rb \<noteq> session \<or>
                 er_fp e \<noteq> rb_fingerprint rb \<or> er_id e \<noteq> rb_streamId rb
               then (R_lost, k)
               else if (case k_checkpoint k of
                   None \<Rightarrow> False
                 | Some p \<Rightarrow>
                     if cr_id p = cr_id t then p \<noteq> t
                     else (case cr_phase p of Restored _ \<Rightarrow> False | Aborted \<Rightarrow> False | _ \<Rightarrow> True))
               then (R_lost, k)
               else (R_ok, barrier (set_checkpoint t k))
           | _ \<Rightarrow> (R_lost, k)))"

datatype transition_target = To_compacted | To_restored

definition op_checkpoint_transition :: "nat \<Rightarrow> work_args \<Rightarrow> string \<Rightarrow> transition_target \<Rightarrow> string \<Rightarrow>
    checkpoint_record \<Rightarrow> checkpoint_record \<Rightarrow> 'st keyspace \<Rightarrow> reply \<times> 'st keyspace" where
  [script_defs]: "op_checkpoint_transition now w cid target entry expected next k =
     (case lua_work now w k of
        None \<Rightarrow> (R_lost, k)
      | Some _ \<Rightarrow>
          (case k_checkpoint k of
             None \<Rightarrow> (R_lost, k)
           | Some t \<Rightarrow>
               if cr_id t \<noteq> cid then (R_lost, k)
               else if target = To_compacted \<and> cr_phase t \<noteq> Prepared \<or>
                 target = To_restored \<and> cr_phase t \<noteq> Compacted entry then (R_lost, k)
               else if t \<noteq> expected then (R_lost, k)
               else (R_ok, barrier (set_checkpoint next k))))"

definition op_checkpoint_abort :: "'st stream_ops \<Rightarrow> nat \<Rightarrow> work_args \<Rightarrow> session_binding \<Rightarrow> string \<Rightarrow>
    checkpoint_record \<Rightarrow> checkpoint_record \<Rightarrow> string \<Rightarrow> 'st keyspace \<Rightarrow> reply \<times> 'st keyspace" where
  [script_defs]: "op_checkpoint_abort R now w expectedSession cid raw n intent k =
     (case lua_work now w k of
        None \<Rightarrow> (R_lost, k)
      | Some _ \<Rightarrow>
          (case repairEvidence R (sb_chat expectedSession) intent k of
             Inl _ \<Rightarrow> (R_lost, k)
           | Inr p \<Rightarrow>
               if rp_event p \<noteq> wa_event w \<or> er_id (rp_row p) \<noteq> wa_streamId w \<or>
                 er_fp (rp_row p) \<noteq> wa_fp w \<or> expectedSession \<noteq> rp_session p \<or> rp_prepared p \<noteq> raw
               then (R_lost, k)
               else if cr_phase raw \<noteq> Prepared \<or> cr_id raw \<noteq> cid \<or> cr_phase n \<noteq> Aborted \<or> cr_id n \<noteq> cid
               then (R_lost, k)
               else if cr_recovery raw = None \<and>
                 (intent = '''' \<or> le_repairIntent (k_lease k) \<noteq> Some intent) then (R_lost, k)
               else
                 (R_ok, barrier (drop_repair_lease (set_pause None (set_checkpoint n k))))))"

definition op_checkpoint_latest :: "'st keyspace \<Rightarrow> reply \<times> 'st keyspace" where
  [script_defs]: "op_checkpoint_latest k = (R_checkpoint (k_checkpoint k), k)"

end
