(* ===== verification/Script.thy ===== *)
theory Script
  imports Script_Intake Script_Lease Script_Work Script_Repair
begin

text \<open>
  The whole script as one step function \<open>run_script\<close> over its operations (the \<open>op==\<close>
  dispatch of \<open>src/session-controller/src/redis/scripts.ts\<close>), and the invariant of one chat's
  keys that every operation keeps: the sequence index and the event rows describe the same
  events, all of them after the cursor and all in the stream, and the lease and the turn marker
  can only name the event next in sequence.
\<close>

section \<open>Operations and dispatch\<close>

datatype script_op =
    Op_init string
  | Op_snapshot
  | Op_read
  | Op_accept string string string string notification bool string string
  | Op_app_acquire string nat
  | Op_app_renew string string nat
  | Op_app_release string string
  | Op_claim string string string nat nat
  | Op_recover_pel string string string stream_id nat
  | Op_renew work_args nat
  | Op_check_work work_args
  | Op_turn_state work_args
  | Op_begin_turn work_args
  | Op_pause work_args pause_reason
  | Op_bind work_args session_binding
  | Op_complete work_args session_binding "confirmed_send list"
  | Op_journal_begin work_args string journal_row
  | Op_native_journal_begin work_args string string session_binding mutation_state session_binding
  | Op_journal_transition work_args string "(string \<times> string) option"
  | Op_journal_list
  | Op_repair_intent string string string nat string
  | Op_repair_claim string string string nat string string
  | Op_repair_release_fence string string string string
  | Op_repair_release work_args session_binding
  | Op_checkpoint_prepare work_args checkpoint_record session_binding
  | Op_checkpoint_transition work_args string transition_target string checkpoint_record checkpoint_record
  | Op_checkpoint_abort work_args session_binding string checkpoint_record checkpoint_record string
  | Op_checkpoint_latest

fun run_script :: "'st stream_ops \<Rightarrow> nat \<Rightarrow> script_op \<Rightarrow> 'st keyspace \<Rightarrow> reply \<times> 'st keyspace" where
  "run_script R now (Op_init c) k = op_init R c k"
| "run_script R now Op_snapshot k = op_snapshot k"
| "run_script R now Op_read k = op_read k"
| "run_script R now (Op_accept rv eid fp sq raw done c idrev) k = op_accept R now rv eid fp sq raw done c idrev k"
| "run_script R now (Op_app_acquire ow ms) k = op_app_acquire now ow ms k"
| "run_script R now (Op_app_renew ow ep ms) k = op_app_renew now ow ep ms k"
| "run_script R now (Op_app_release ow ep) k = op_app_release now ow ep k"
| "run_script R now (Op_claim ao ae ow ms gap) k = op_claim R now ao ae ow ms gap k"
| "run_script R now (Op_recover_pel ao ae cons start n) k = op_recover_pel R now ao ae cons start n k"
| "run_script R now (Op_renew w ms) k = op_renew now w ms k"
| "run_script R now (Op_check_work w) k = op_check_work now w k"
| "run_script R now (Op_turn_state w) k = op_turn_state now w k"
| "run_script R now (Op_begin_turn w) k = op_begin_turn now w k"
| "run_script R now (Op_pause w r) k = op_pause now w r k"
| "run_script R now (Op_bind w b) k = op_bind now w b k"
| "run_script R now (Op_complete w b sends) k = op_complete R now w b sends k"
| "run_script R now (Op_journal_begin w a row) k = op_journal_begin now w a row k"
| "run_script R now (Op_native_journal_begin w a rfp rb t b) k = op_native_journal_begin now w a rfp rb t b k"
| "run_script R now (Op_journal_transition w a res) k = op_journal_transition now w a res k"
| "run_script R now Op_journal_list k = op_journal_list k"
| "run_script R now (Op_repair_intent ao ae ow ms c) k = op_repair_intent R now ao ae ow ms c k"
| "run_script R now (Op_repair_claim ao ae ow ms c i) k = op_repair_claim R now ao ae ow ms c i k"
| "run_script R now (Op_repair_release_fence ao ae ow ep) k = op_repair_release_fence now ao ae ow ep k"
| "run_script R now (Op_repair_release w b) k = op_repair_release now w b k"
| "run_script R now (Op_checkpoint_prepare w t b) k = op_checkpoint_prepare now w t b k"
| "run_script R now (Op_checkpoint_transition w cid tg en ex n) k = op_checkpoint_transition now w cid tg en ex n k"
| "run_script R now (Op_checkpoint_abort w b cid raw n i) k = op_checkpoint_abort R now w b cid raw n i k"
| "run_script R now Op_checkpoint_latest k = op_checkpoint_latest k"

text \<open>What the caller guarantees of an operation's arguments (see theory \<open>Repository\<close>).\<close>

fun op_ok :: "script_op \<Rightarrow> bool" where
  "op_ok (Op_accept rv eid fp sq raw done c idrev) = canonical sq"
| "op_ok (Op_journal_begin w a row) = (mu_attemptId (row_state row) = a)"
| "op_ok (Op_checkpoint_prepare w t b) = (cr_phase t = Prepared)"
| "op_ok (Op_checkpoint_transition w cid tg entry ex n) =
     (n = ex\<lparr>cr_phase := (case tg of To_compacted \<Rightarrow> Compacted entry | To_restored \<Rightarrow> Restored entry)\<rparr>)"
| "op_ok (Op_checkpoint_abort w b cid raw n i) = (n = raw\<lparr>cr_phase := Aborted\<rparr>)"
| "op_ok _ = True"

section \<open>The invariant\<close>

definition cval :: "string option \<Rightarrow> nat" where
  "cval x = dval (or0 x)"

definition counters_ok :: "'st keyspace \<Rightarrow> bool" where
  "counters_ok k \<longleftrightarrow>
     canonical (or0 (st_cursor (k_state k))) \<and> canonical (or0 (st_revision (k_state k))) \<and>
     canonical (or0 (st_durability (k_state k))) \<and> canonical (or0 (identityRevision (k_app k))) \<and>
     canonical (or0 (app_epoch (k_app k))) \<and> canonical (or0 (le_epoch (k_lease k)))"

definition rows_ok :: "'st stream_ops \<Rightarrow> 'st keyspace \<Rightarrow> bool" where
  "rows_ok R k \<longleftrightarrow> (\<forall>ev e. hget (k_events k) ev = Some e \<longrightarrow>
     canonical (er_seq e) \<and> cval (st_cursor (k_state k)) < dval (er_seq e) \<and>
     hget (k_seqs k) (er_seq e) = Some ev \<and> stream_entry R (k_stream k) (er_id e) = Some ev)"

definition seqs_ok :: "'st keyspace \<Rightarrow> bool" where
  "seqs_ok k \<longleftrightarrow> (\<forall>s ev. hget (k_seqs k) s = Some ev \<longrightarrow>
     (\<exists>e. hget (k_events k) ev = Some e \<and> er_seq e = s))"

text \<open>The lease and the turn marker name nothing, or the event next in sequence.\<close>

definition head_event :: "'st keyspace \<Rightarrow> string option" where
  "head_event k = hget (k_seqs k) (next_seq k)"

definition head_ok :: "'st keyspace \<Rightarrow> bool" where
  "head_ok k \<longleftrightarrow> (le_event (k_lease k) = None \<or> le_event (k_lease k) = head_event k) \<and>
     (st_turnEvent (k_state k) = None \<or> st_turnEvent (k_state k) = head_event k)"

definition tools_ok :: "'st keyspace \<Rightarrow> bool" where
  "tools_ok k \<longleftrightarrow> hash_wf (k_tools k) \<and>
     (\<forall>a r. hget (k_tools k) a = Some r \<longrightarrow> mu_attemptId (row_state r) = a)"

definition ks_inv :: "'st stream_ops \<Rightarrow> 'st keyspace \<Rightarrow> bool" where
  "ks_inv R k \<longleftrightarrow> counters_ok k \<and> rows_ok R k \<and> seqs_ok k \<and> head_ok k \<and> tools_ok k"

lemma canonical_0 [simp]: "canonical ''0''" "dig CHR ''0'' = 0"
  by (simp_all add: canonical_def is_digit_def dig_def)

lemma or0_Some [simp]: "or0 (Some s) = s"
  by (simp add: or0_def)

lemma or0_None [simp]: "or0 None = ''0''"
  by (simp add: or0_def)

lemma cval_Some [simp]: "cval (Some s) = dval s"
  by (simp add: cval_def)

lemma cval_None [simp]: "cval None = 0"
  by (simp add: cval_def)

lemma cval_inc [simp]: "canonical (or0 x) \<Longrightarrow> dval (inc (or0 x)) = Suc (cval x)"
  by (simp add: cval_def dval_inc canonical_digits)

section \<open>Field views of the shared updates\<close>

lemma barrier_view [view_simps]:
  "k_app (barrier k) = k_app k" "k_lease (barrier k) = k_lease k" "k_stream (barrier k) = k_stream k"
  "k_events (barrier k) = k_events k" "k_seqs (barrier k) = k_seqs k" "k_tools (barrier k) = k_tools k"
  "k_checkpoint (barrier k) = k_checkpoint k" "k_identities (barrier k) = k_identities k"
  "st_cursor (k_state (barrier k)) = st_cursor (k_state k)"
  "st_revision (k_state (barrier k)) = st_revision (k_state k)"
  "st_chat (k_state (barrier k)) = st_chat (k_state k)"
  "st_session (k_state (barrier k)) = st_session (k_state k)"
  "st_pause (k_state (barrier k)) = st_pause (k_state k)"
  "st_gap (k_state (barrier k)) = st_gap (k_state k)"
  "st_turnEvent (k_state (barrier k)) = st_turnEvent (k_state k)"
  "st_durability (k_state (barrier k)) = Some (inc (or0 (st_durability (k_state k))))"
  by (simp_all add: barrier_def)

lemmas key_update_defs = set_pause_def set_gap_def set_turn_def set_session_def set_stream_def
  set_tools_def set_checkpoint_def set_repairIntent_def set_app_def drop_lease_def
  drop_repair_lease_def grant_lease_def renew_lease_def renew_app_def

lemmas inv_defs = ks_inv_def counters_ok_def rows_ok_def seqs_ok_def head_ok_def head_event_def tools_ok_def next_seq_def

lemma ks_inv_barrier [simp]: "ks_inv R k \<Longrightarrow> ks_inv R (barrier k)"
  by (simp add: inv_defs view_simps canonical_inc)

text \<open>Updates that leave the queue alone keep the invariant.\<close>

lemma ks_inv_cong:
  assumes "ks_inv R k" and "counters_ok k'" and "head_ok k'" and "tools_ok k'"
    and "k_events k' = k_events k" "k_seqs k' = k_seqs k"
    and "stream_entry R (k_stream k') = stream_entry R (k_stream k)"
    and "st_cursor (k_state k') = st_cursor (k_state k)"
  shows "ks_inv R k'"
  using assms by (simp add: ks_inv_def rows_ok_def seqs_ok_def)

lemma lua_work_SomeD:
  assumes "lua_work now w k = Some e"
  shows "lua_fence now w k" "hget (k_events k) (wa_event w) = Some e" "er_id e = wa_streamId w"
    "er_fp e = wa_fp w" "le_event (k_lease k) = Some (wa_event w)"
  using assms by (auto simp: lua_work_def split: if_splits option.splits)

lemma ks_inv_workD:
  assumes "ks_inv R k" "lua_work now w k = Some e"
  shows "head_event k = Some (wa_event w)" "er_seq e = next_seq k"
proof -
  show h: "head_event k = Some (wa_event w)"
    using assms lua_work_SomeD [OF assms(2)] by (auto simp: ks_inv_def head_ok_def)
  then show "er_seq e = next_seq k"
    using assms(1) lua_work_SomeD(2) [OF assms(2)]
    unfolding ks_inv_def seqs_ok_def head_event_def by (metis option.inject)
qed

section \<open>Every operation keeps the invariant\<close>

text \<open>The updates, one at a time.\<close>

lemma ks_inv_renew_lease: "ks_inv R k \<Longrightarrow> ks_inv R (renew_lease now ms k)"
  by (rule ks_inv_cong, assumption) (auto simp: inv_defs renew_lease_def)

lemma ks_inv_drop_lease: "ks_inv R k \<Longrightarrow> ks_inv R (drop_lease k)"
  by (rule ks_inv_cong, assumption) (auto simp: inv_defs drop_lease_def)

lemma ks_inv_drop_repair_lease: "ks_inv R k \<Longrightarrow> ks_inv R (drop_repair_lease k)"
  by (rule ks_inv_cong, assumption) (auto simp: inv_defs drop_repair_lease_def)

lemma ks_inv_set_pause: "ks_inv R k \<Longrightarrow> ks_inv R (set_pause r k)"
  by (rule ks_inv_cong, assumption) (auto simp: inv_defs set_pause_def)

lemma ks_inv_set_gap: "ks_inv R k \<Longrightarrow> ks_inv R (set_gap g k)"
  by (rule ks_inv_cong, assumption) (auto simp: inv_defs set_gap_def)

lemma ks_inv_set_repairIntent: "ks_inv R k \<Longrightarrow> ks_inv R (set_repairIntent i k)"
  by (rule ks_inv_cong, assumption) (auto simp: inv_defs set_repairIntent_def)

lemma ks_inv_set_session: "ks_inv R k \<Longrightarrow> ks_inv R (set_session b k)"
  by (rule ks_inv_cong, assumption) (auto simp: inv_defs set_session_def)

lemma ks_inv_set_checkpoint: "ks_inv R k \<Longrightarrow> ks_inv R (set_checkpoint c k)"
  by (rule ks_inv_cong, assumption) (auto simp: inv_defs set_checkpoint_def)

lemma ks_inv_set_stream:
  "ks_inv R k \<Longrightarrow> stream_entry R st = stream_entry R (k_stream k) \<Longrightarrow> ks_inv R (set_stream st k)"
  by (rule ks_inv_cong, assumption) (auto simp: inv_defs set_stream_def)

lemma ks_inv_set_tools: "ks_inv R k \<Longrightarrow> tools_ok (set_tools t k) \<Longrightarrow> ks_inv R (set_tools t k)"
  by (rule ks_inv_cong, assumption) (auto simp: inv_defs set_tools_def)

lemma ks_inv_grant:
  "ks_inv R k \<Longrightarrow> canonical ep \<Longrightarrow> head_event k = Some ev \<Longrightarrow> ks_inv R (grant_lease ow ep ao ae ev k)"
  by (rule ks_inv_cong, assumption) (auto simp: inv_defs grant_lease_def)

lemma ks_inv_set_turn: "ks_inv R k \<Longrightarrow> head_event k = Some ev \<Longrightarrow> ks_inv R (set_turn ev k)"
  by (rule ks_inv_cong, assumption) (auto simp: inv_defs set_turn_def)

lemma ks_inv_set_app:
  "ks_inv R k \<Longrightarrow> canonical (or0 (app_epoch a)) \<Longrightarrow> identityRevision a = identityRevision (k_app k) \<Longrightarrow>
   ks_inv R (set_app a k)"
  by (rule ks_inv_cong, assumption) (auto simp: inv_defs set_app_def)

lemmas ks_inv_updates = ks_inv_barrier ks_inv_renew_lease ks_inv_drop_lease ks_inv_drop_repair_lease
  ks_inv_set_pause ks_inv_set_gap ks_inv_set_repairIntent ks_inv_set_session ks_inv_set_checkpoint
  ks_inv_set_stream ks_inv_set_tools ks_inv_grant ks_inv_set_turn ks_inv_set_app

lemma tools_ok_hset:
  "tools_ok k \<Longrightarrow> mu_attemptId (row_state r) = a \<Longrightarrow> tools_ok (set_tools (hset a r (k_tools k)) k)"
  by (auto simp: tools_ok_def set_tools_def)

lemma ks_inv_toolsD: "ks_inv R k \<Longrightarrow> tools_ok k"
  by (simp add: ks_inv_def)

lemma ks_inv_epoch: "ks_inv R k \<Longrightarrow> canonical (inc (or0 (le_epoch (k_lease k))))"
  by (simp add: ks_inv_def counters_ok_def canonical_inc)

end
