(* ===== verification/Streams.thy ===== *)
theory Streams
  imports Keyspace
begin

text \<open>
  The interface between the script and Redis streams, as a locale over \<open>stream_laws\<close>, and its
  interpretation on an executable stream with a pending-entries list: entries in ID order, the
  last ID given out, and for every delivered entry the consumer that holds it. The instance
  shows that the laws hold together and evaluates the examples of the development.
\<close>

locale redis_streams =
  fixes R :: "'st stream_ops"
  assumes laws: "stream_laws R"
begin

lemma xadd_entry:
  "stream_entry R st (fst (xadd R t ev st)) = None"
  "stream_entry R (snd (xadd R t ev st)) = (stream_entry R st)(fst (xadd R t ev st) \<mapsto> ev)"
  using laws unfolding stream_laws_def by blast+

lemma xdel_entry: "stream_entry R (xdel R i st) = (stream_entry R st)(i := None)"
  using laws unfolding stream_laws_def by blast

lemma xclaim_entry: "stream_entry R (snd (xclaim R c i st)) = stream_entry R st"
  using laws unfolding stream_laws_def by blast

lemma xclaim_existing: "stream_entry R st i \<noteq> None \<Longrightarrow> fst (xclaim R c i st) = [i]"
  using laws unfolding stream_laws_def by blast

lemma xautoclaim_entry:
  "xautoclaim R c i n st = (nxt, claimed, deleted, st') \<Longrightarrow> stream_entry R st' = stream_entry R st"
  using laws unfolding stream_laws_def by (metis (mono_tags, lifting) case_prod_conv)

lemma xautoclaim_deleted:
  "xautoclaim R c i n st = (nxt, claimed, deleted, st') \<Longrightarrow> j \<in> set deleted \<Longrightarrow> stream_entry R st j = None"
  using laws unfolding stream_laws_def list_all_iff by (metis (mono_tags, lifting) case_prod_conv)

lemma xack_entry: "stream_entry R (xack R i st) = stream_entry R st"
  using laws unfolding stream_laws_def by blast

lemma xgroup_entry: "stream_entry R (xgroup_create R st) = stream_entry R st"
  using laws unfolding stream_laws_def by blast

lemmas stream_simps = xadd_entry xdel_entry xclaim_entry xack_entry xgroup_entry

end

section \<open>An executable stream\<close>

record list_stream =
  ls_entries :: "(stream_id \<times> string) list"
  ls_pending :: "(stream_id \<times> string) list"
  ls_last :: stream_id

definition id_le :: "stream_id \<Rightarrow> stream_id \<Rightarrow> bool" where
  "id_le i j \<longleftrightarrow> fst i < fst j \<or> fst i = fst j \<and> snd i \<le> snd j"

text \<open>The ID of a new entry: the clock, or just after every ID in use.\<close>

definition top_ms :: "list_stream \<Rightarrow> nat" where
  "top_ms st = foldr (\<lambda>e. max (fst (fst e))) (ls_entries st) (fst (ls_last st))"

definition top_sq :: "list_stream \<Rightarrow> nat" where
  "top_sq st = foldr (\<lambda>e. max (snd (fst e))) (ls_entries st) (snd (ls_last st))"

definition ls_add :: "nat \<Rightarrow> string \<Rightarrow> list_stream \<Rightarrow> stream_id \<times> list_stream" where
  "ls_add now ev st =
     (let i = (if top_ms st < now then (now, 0) else (top_ms st, Suc (top_sq st)))
      in (i, st\<lparr>ls_entries := ls_entries st @ [(i, ev)], ls_last := i\<rparr>))"

definition ls_own :: "string \<Rightarrow> stream_id list \<Rightarrow> (stream_id \<times> string) list \<Rightarrow> (stream_id \<times> string) list" where
  "ls_own c ids pending = fold (\<lambda>i p. AList.update i c p) ids pending"

definition ls_exists :: "list_stream \<Rightarrow> stream_id \<Rightarrow> bool" where
  "ls_exists st i \<longleftrightarrow> i \<in> set (List.map fst (ls_entries st))"

text \<open>XCLAIM with FORCE and JUSTID; a missing entry is dropped from the pending list.\<close>

definition ls_claim :: "string \<Rightarrow> stream_id \<Rightarrow> list_stream \<Rightarrow> stream_id list \<times> list_stream" where
  "ls_claim c i st =
     (if ls_exists st i then ([i], st\<lparr>ls_pending := AList.update i c (ls_pending st)\<rparr>)
      else ([], st\<lparr>ls_pending := AList.delete i (ls_pending st)\<rparr>))"

text \<open>XAUTOCLAIM with idle time 0 scans the pending list from an ID, at most \<open>n\<close> entries.\<close>

definition ls_autoclaim :: "string \<Rightarrow> stream_id \<Rightarrow> nat \<Rightarrow> list_stream \<Rightarrow>
    stream_id \<times> stream_id list \<times> stream_id list \<times> list_stream" where
  "ls_autoclaim c start n st =
     (let scan = filter (id_le start) (List.map fst (ls_pending st));
          now = take n scan;
          claimed = filter (ls_exists st) now;
          deleted = filter (\<lambda>i. \<not> ls_exists st i) now
      in ((case drop n scan of i # _ \<Rightarrow> i | [] \<Rightarrow> (0, 0)), claimed, deleted,
          st\<lparr>ls_pending := ls_own c claimed (fold AList.delete deleted (ls_pending st))\<rparr>))"

definition list_streams :: "list_stream stream_ops" where
  "list_streams = \<lparr>
     xgroup_create = (\<lambda>st. st),
     xadd = ls_add,
     xclaim = ls_claim,
     xautoclaim = ls_autoclaim,
     xrange1 = (\<lambda>i st. case map_of (ls_entries st) i of Some ev \<Rightarrow> [(i, ev)] | None \<Rightarrow> []),
     xpending1 = (\<lambda>i st. if i \<in> set (List.map fst (ls_pending st)) then [i] else []),
     xack = (\<lambda>i st. st\<lparr>ls_pending := AList.delete i (ls_pending st)\<rparr>),
     xdel = (\<lambda>i st. st\<lparr>ls_entries := AList.delete i (ls_entries st)\<rparr>)\<rparr>"

definition empty_stream :: list_stream where
  "empty_stream = \<lparr>ls_entries = [], ls_pending = [], ls_last = (0, 0)\<rparr>"

lemma list_entry: "stream_entry list_streams st i = map_of (ls_entries st) i"
  by (simp add: stream_entry_def list_streams_def split: option.split)

lemma foldr_max_ge: "x \<in> set xs \<Longrightarrow> f x \<le> foldr (\<lambda>y. max (f y)) xs (m :: nat)"
  by (induction xs) auto

lemma entry_below_top: "(i, ev) \<in> set (ls_entries st) \<Longrightarrow> fst i \<le> top_ms st \<and> snd i \<le> top_sq st"
  using foldr_max_ge [of "(i, ev)" "ls_entries st" "\<lambda>e. fst (fst e)"]
    foldr_max_ge [of "(i, ev)" "ls_entries st" "\<lambda>e. snd (fst e)"]
  by (simp add: top_ms_def top_sq_def)

lemma ls_add_fresh: "map_of (ls_entries st) (fst (ls_add now ev st)) = None"
  using entry_below_top [of _ _ st]
  by (fastforce simp: ls_add_def Let_def map_of_eq_None_iff)

lemma list_stream_laws: "stream_laws list_streams"
proof -
  have add: "map_of (ls_entries (snd (ls_add t ev st))) =
      (map_of (ls_entries st))(fst (ls_add t ev st) \<mapsto> ev)" for t ev st
    using ls_add_fresh [of st t ev]
    by (auto simp: ls_add_def Let_def map_add_def fun_eq_iff split: option.split)
  show ?thesis
    unfolding stream_laws_def fun_eq_iff list_entry
    using ls_add_fresh add
    by (auto simp: list_streams_def ls_claim_def ls_autoclaim_def ls_exists_def delete_conv Let_def
        list_all_iff fun_eq_iff map_of_eq_None_iff)
qed

interpretation ls: redis_streams list_streams
  by unfold_locales (rule list_stream_laws)

end
