(* ===== verification/Script_Inv.thy ===== *)
theory Script_Inv
  imports Script Streams
begin

text \<open>
  Every operation of the script keeps the invariant \<open>ks_inv\<close> of one chat's keys, one lemma per
  operation, and the summary over the dispatch. The stream commands are a parameter that
  satisfies \<open>stream_laws\<close>, through the locale \<open>redis_streams\<close>.
\<close>

context redis_streams
begin

lemma inv_init: "ks_inv R k \<Longrightarrow> ks_inv R (snd (op_init R c k))"
proof -
  assume inv: "ks_inv R k"
  have "ks_inv R (k\<lparr>k_state := (k_state k)\<lparr>st_cursor := Some ''0'', st_revision := Some ''0'',
          st_chat := Some c\<rparr>\<rparr>)" if "\<not> state_exists (k_state k)"
    using inv that by (auto simp: inv_defs state_exists_def)
  with inv show ?thesis
    by (auto simp: op_init_def Let_def stream_simps intro!: ks_inv_barrier ks_inv_set_stream)
qed

lemma seqs_okD: "seqs_ok k \<Longrightarrow> hget (k_seqs k) s = Some ev \<Longrightarrow> \<exists>e. hget (k_events k) ev = Some e \<and> er_seq e = s"
  by (simp add: seqs_ok_def)

lemma inv_admitted:
  assumes inv: "ks_inv R k" and canon: "canonical sq" and less: "less_dec (or0 (st_cursor (k_state k))) sq"
    and none: "hget (k_events k) eid = None" "hget (k_seqs k) sq = None \<or> hget (k_seqs k) sq = Some eid"
  shows "ks_inv R (admitted_keys R now eid fp sq raw ident k)" (is "ks_inv R ?k'")
proof -
  have free: "hget (k_seqs k) sq = None"
    using none inv unfolding ks_inv_def seqs_ok_def by (metis option.distinct(1))
  have lt: "cval (st_cursor (k_state k)) < dval sq"
    using less inv canon by (simp add: ks_inv_def counters_ok_def less_dec_iff cval_def)
  have entry: "stream_entry R (k_stream k) (er_id e) = Some ev"
    "er_id e \<noteq> fst (xadd R now eid (k_stream k))"
    if "hget (k_events k) ev = Some e" for ev e
    using inv that xadd_entry(1) [of "k_stream k" now eid] unfolding ks_inv_def rows_ok_def
    by (metis, metis option.distinct(1))
  have "rows_ok R ?k'"
    using inv none free lt entry canon
    by (auto simp: ks_inv_def rows_ok_def admitted_keys_def Let_def xadd_entry)
  moreover have "seqs_ok ?k'"
    using inv none seqs_okD [of k] by (fastforce simp: ks_inv_def seqs_ok_def admitted_keys_def Let_def)
  moreover have "head_ok ?k'"
    using inv free by (auto simp: ks_inv_def head_ok_def head_event_def next_seq_def admitted_keys_def Let_def)
  ultimately show ?thesis
    using inv by (simp add: ks_inv_def counters_ok_def tools_ok_def admitted_keys_def Let_def)
qed

lemma inv_accept:
  "ks_inv R k \<Longrightarrow> canonical sq \<Longrightarrow> ks_inv R (snd (op_accept R now rv eid fp sq raw done c idrev k))"
  by (simp add: op_accept_def Let_def inv_admitted split: option.split)

lemma sweep_rows:
  "tools_ok (set_tools t k) \<Longrightarrow> tools_ok (set_tools (fst (sweep rs t u)) k)"
proof (induction rs arbitrary: t u)
  case (Cons r rs)
  have "tools_ok (set_tools (sweep_row r t) k)"
    using Cons.prems by (cases r) (auto simp: tools_ok_def set_tools_def)
  then show ?case using Cons by simp
qed simp

lemma ks_inv_sweep:
  assumes "ks_inv R k"
  shows "ks_inv R (set_tools (fst (sweep (hvals (k_tools k)) (k_tools k) u)) k)"
proof -
  have "tools_ok (set_tools (k_tools k) k)"
    using ks_inv_toolsD [OF assms] by (simp add: set_tools_def)
  then show ?thesis
    using assms by (intro ks_inv_set_tools sweep_rows)
qed

lemma inv_claim_gap: "ks_inv R k \<Longrightarrow> ks_inv R (snd (claim_gap now gap k))"
  by (simp add: claim_gap_def Let_def ks_inv_updates)

lemma head_event_views:
  "head_event (set_stream st k) = head_event k" "head_event (set_tools t k) = head_event k"
  by (simp_all add: head_event_def next_seq_def set_stream_def set_tools_def)

lemma inv_claim_event:
  assumes "ks_inv R k" "head_event k = Some ev"
  shows "ks_inv R (snd (claim_event R now ao ae ow ms ev k))"
  using assms
  by (simp add: claim_event_def Let_def ks_inv_updates ks_inv_epoch xclaim_entry head_event_views
      split: option.split)

lemma inv_claim: "ks_inv R k \<Longrightarrow> ks_inv R (snd (op_claim R now ao ae ow ms gap k))"
proof -
  assume inv: "ks_inv R k"
  define t u where "t = fst (sweep (hvals (k_tools k)) (k_tools k) False)"
    and "u = snd (sweep (hvals (k_tools k)) (k_tools k) False)"
  have eq: "sweep (hvals (k_tools k)) (k_tools k) False = (t, u)"
    by (simp add: t_def u_def)
  have inv': "ks_inv R (set_tools t k)"
    using ks_inv_sweep [OF inv] by (simp add: t_def)
  show ?thesis
    using inv inv' inv_claim_event [OF inv'] inv_claim_gap [OF inv']
    by (simp add: op_claim_def eq Let_def ks_inv_updates head_event_def split: option.split)
qed

lemma inv_recover_pel: "ks_inv R k \<Longrightarrow> ks_inv R (snd (op_recover_pel R now ao ae cons start n k))"
  by (auto simp: op_recover_pel_def Let_def xautoclaim_entry intro!: ks_inv_updates split: prod.splits)

lemma other_event_distinct:
  assumes inv: "ks_inv R k" and e: "hget (k_events k) ev = Some e"
    and e': "hget (k_events k) ev' = Some e'" "ev' \<noteq> ev" and seq: "er_seq e = next_seq k"
  shows "er_id e' \<noteq> er_id e" "er_seq e' \<noteq> er_seq e" "dval (er_seq e) < dval (er_seq e')"
proof -
  have r: "stream_entry R (k_stream k) (er_id e) = Some ev" "stream_entry R (k_stream k) (er_id e') = Some ev'"
    "hget (k_seqs k) (er_seq e) = Some ev" "hget (k_seqs k) (er_seq e') = Some ev'"
    "cval (st_cursor (k_state k)) < dval (er_seq e')" "canonical (er_seq e)" "canonical (er_seq e')"
    using inv e e' by (auto simp: ks_inv_def rows_ok_def)
  then show "er_id e' \<noteq> er_id e" and neq: "er_seq e' \<noteq> er_seq e"
    using e'(2) by auto
  have "dval (er_seq e) = Suc (cval (st_cursor (k_state k)))"
    using seq inv by (simp add: next_seq_def ks_inv_def counters_ok_def)
  moreover have "dval (er_seq e') \<noteq> dval (er_seq e)"
    using neq r canonical_eqI by blast
  ultimately show "dval (er_seq e) < dval (er_seq e')" using r(5) by linarith
qed

lemma inv_completed:
  assumes inv: "ks_inv R k" and e: "hget (k_events k) ev = Some e" and seq: "er_seq e = next_seq k"
    and head: "head_event k = Some ev"
  shows "ks_inv R (completed_keys R ev e k)" (is "ks_inv R ?k'")
proof -
  note other = other_event_distinct [OF inv e _ _ seq]
  have row: "canonical (er_seq e') \<and> hget (k_seqs k) (er_seq e') = Some ev' \<and>
      stream_entry R (k_stream k) (er_id e') = Some ev'"
    if "hget (k_events k) ev' = Some e'" for ev' e'
    using inv that by (auto simp: ks_inv_def rows_ok_def)
  have "rows_ok R ?k'"
    using other row by (auto simp: rows_ok_def completed_keys_def stream_simps split: if_splits)
  moreover have "seqs_ok ?k'"
    using inv e seqs_okD [of k]
    by (fastforce simp: ks_inv_def seqs_ok_def completed_keys_def split: if_splits)
  moreover have "counters_ok ?k'"
    using inv row [OF e] by (simp add: ks_inv_def counters_ok_def completed_keys_def canonical_inc)
  ultimately show ?thesis
    by (simp add: ks_inv_def head_ok_def tools_ok_def completed_keys_def)
qed

lemma inv_complete: "ks_inv R k \<Longrightarrow> ks_inv R (snd (op_complete R now w b sends k))"
proof (cases "lua_work now w k")
  case (Some e)
  assume inv: "ks_inv R k"
  show ?thesis
    using inv inv_completed [OF inv lua_work_SomeD(2) [OF Some]] ks_inv_workD [OF inv Some]
    by (simp add: op_complete_def Some ks_inv_updates)
qed (simp add: op_complete_def)

text \<open>The operations that go through the shared updates only.\<close>

lemma inv_app:
  assumes inv: "ks_inv R k"
  shows "ks_inv R (snd (op_app_acquire now ow ms k))" "ks_inv R (snd (op_app_renew now ow ep ms k))"
    "ks_inv R (snd (op_app_release now ow ep k))"
  using inv
  by (auto simp: op_app_acquire_def op_app_renew_def op_app_release_def renew_app_def Let_def
      ks_inv_def counters_ok_def set_app_def canonical_inc rows_ok_def seqs_ok_def head_ok_def
      head_event_def next_seq_def tools_ok_def)

lemma inv_work_ops:
  assumes inv: "ks_inv R k"
  shows "ks_inv R (snd (op_renew now w ms k))" "ks_inv R (snd (op_check_work now w k))"
    "ks_inv R (snd (op_turn_state now w k))" "ks_inv R (snd (op_begin_turn now w k))"
    "ks_inv R (snd (op_pause now w r k))" "ks_inv R (snd (op_bind now w b k))"
  using inv ks_inv_workD(1) [OF inv]
  by (auto simp: op_renew_def op_check_work_def op_turn_state_def op_begin_turn_def op_pause_def
      op_bind_def ks_inv_updates split: option.split)

lemma inv_tools_hset:
  "ks_inv R k \<Longrightarrow> mu_attemptId (row_state r) = a \<Longrightarrow> ks_inv R (set_tools (hset a r (k_tools k)) k)"
  by (simp add: ks_inv_set_tools tools_ok_hset ks_inv_toolsD)

lemma row_with_attempt: "mu_attemptId (row_state (row_with r s)) = mu_attemptId (row_state r)"
  by (cases r) auto

lemma tools_attempt: "ks_inv R k \<Longrightarrow> hget (k_tools k) a = Some r \<Longrightarrow> mu_attemptId (row_state r) = a"
  by (simp add: ks_inv_def tools_ok_def)

lemma inv_journal:
  assumes inv: "ks_inv R k"
  shows "mu_attemptId (row_state row) = a \<Longrightarrow> ks_inv R (snd (op_journal_begin now w a row k))"
    "ks_inv R (snd (op_native_journal_begin now w a rfp rb t b k))"
    "ks_inv R (snd (op_journal_transition now w a res k))"
proof -
  have tools: "k_tools (set_pause r k) = k_tools k" for r
    by (simp add: set_pause_def)
  show "ks_inv R (snd (op_journal_begin now w a row k))" if "mu_attemptId (row_state row) = a"
    using inv that by (auto simp: op_journal_begin_def ks_inv_updates inv_tools_hset split: option.split)
  show "ks_inv R (snd (op_native_journal_begin now w a rfp rb t b k))"
    using inv by (auto simp: op_native_journal_begin_def ks_inv_updates inv_tools_hset split: option.split)
  show "ks_inv R (snd (op_journal_transition now w a res k))"
    using inv tools_attempt [OF inv] inv_tools_hset [OF ks_inv_set_pause [OF inv], unfolded tools]
    by (auto simp: op_journal_transition_def Let_def ks_inv_updates inv_tools_hset row_with_attempt
        split: option.split)
qed

lemma repairEvidence_head:
  "repairEvidence R c i k = Inr p \<Longrightarrow> head_event k = Some (rp_event p)"
  by (auto simp: repairEvidence_def head_evidence_def head_event_def Let_def split: option.splits if_splits)

lemma inv_repair:
  assumes inv: "ks_inv R k"
  shows "ks_inv R (snd (op_repair_intent R now ao ae ow ms c k))"
    "ks_inv R (snd (op_repair_claim R now ao ae ow ms c i k))"
    "ks_inv R (snd (op_repair_release_fence now ao ae ow ep k))"
    "ks_inv R (snd (op_repair_release now w b k))"
  using inv repairEvidence_head ks_inv_epoch [OF inv]
  by (auto simp: op_repair_intent_def op_repair_claim_def op_repair_release_fence_def
      op_repair_release_def Let_def ks_inv_updates split: sum.split option.split)

lemma inv_checkpoint:
  assumes inv: "ks_inv R k"
  shows "ks_inv R (snd (op_checkpoint_prepare now w t b k))"
    "ks_inv R (snd (op_checkpoint_transition now w cid tg en ex n k))"
    "ks_inv R (snd (op_checkpoint_abort R now w b cid raw n i k))"
  using inv
  by (simp_all add: op_checkpoint_prepare_def op_checkpoint_transition_def op_checkpoint_abort_def
      ks_inv_updates split: option.split sum.split)

lemma run_script_inv: "ks_inv R k \<Longrightarrow> op_ok oper \<Longrightarrow> ks_inv R (snd (run_script R now oper k))"
  by (cases oper)
    (simp_all add: inv_init inv_accept inv_claim inv_recover_pel inv_complete inv_app inv_work_ops
      inv_journal inv_repair inv_checkpoint op_snapshot_def op_read_def op_journal_list_def op_checkpoint_latest_def)

end

end
