(* ===== verification/Script_Runs.thy ===== *)
theory Script_Runs
  imports Script_Inv
begin

text \<open>
  Sequences of script runs on one chat's keys, at any times and by any callers, and what holds
  along them: fencing epochs never go back, a superseded lease stays superseded, the cursor
  moves only by completing the head event, a turn begins at most once per event, and a pause
  stays until a checkpoint abort.
\<close>

inductive script_run :: "'st stream_ops \<Rightarrow> 'st keyspace \<Rightarrow> 'st keyspace \<Rightarrow> bool" for R where
  none: "script_run R k k"
| step: "script_run R k k' \<Longrightarrow> op_ok oper \<Longrightarrow> script_run R k (snd (run_script R now oper k'))"

section \<open>What one run of the script does to each field\<close>

lemma claim_gap_lease: "k_lease (snd (claim_gap now g k)) = k_lease k" "k_app (snd (claim_gap now g k)) = k_app k"
  "st_cursor (k_state (snd (claim_gap now g k))) = st_cursor (k_state k)"
  "st_turnEvent (k_state (snd (claim_gap now g k))) = st_turnEvent (k_state k)"
  "st_pause (k_state k) \<noteq> None \<Longrightarrow> st_pause (k_state (snd (claim_gap now g k))) \<noteq> None"
  by (simp_all add: claim_gap_def key_update_defs barrier_def Let_def)

lemma claim_event_app: "k_app (snd (claim_event R now ao ae ow ms ev k)) = k_app k"
  "k_state (snd (claim_event R now ao ae ow ms ev k)) = k_state k \<or>
   k_state (snd (claim_event R now ao ae ow ms ev k)) = k_state (barrier (set_gap None k))"
  by (auto simp: claim_event_def key_update_defs barrier_def Let_def split: option.split)

lemma claim_event_lease:
  "k_lease (snd (claim_event R now ao ae ow ms ev k)) = k_lease k \<or>
   k_lease (snd (claim_event R now ao ae ow ms ev k)) =
     \<lparr>le_owner = Some ow, le_epoch = Some (inc (or0 (le_epoch (k_lease k)))), le_until = Some (now + ms),
      le_appOwner = Some ao, le_appEpoch = Some ae, le_event = Some ev,
      le_repairIntent = le_repairIntent (k_lease k)\<rparr>"
  by (auto simp: claim_event_def key_update_defs barrier_def Let_def split: option.split)

definition swept :: "'st keyspace \<Rightarrow> 'st keyspace" where
  "swept k = set_tools (fst (sweep (hvals (k_tools k)) (k_tools k) False)) k"

definition unresolved :: "'st keyspace \<Rightarrow> bool" where
  "unresolved k \<longleftrightarrow> snd (sweep (hvals (k_tools k)) (k_tools k) False)"

lemma swept_view [view_simps]:
  "k_app (swept k) = k_app k" "k_lease (swept k) = k_lease k" "k_state (swept k) = k_state k"
  "k_stream (swept k) = k_stream k" "k_events (swept k) = k_events k" "k_seqs (swept k) = k_seqs k"
  "k_checkpoint (swept k) = k_checkpoint k" "k_identities (swept k) = k_identities k"
  by (simp_all add: swept_def set_tools_def)

lemma op_claim_eq:
  "op_claim R now ao ae ow ms g k =
     (if \<not> alive_app now ao ae (k_app k) then (R_lost, k)
      else if st_pause (k_state k) \<noteq> None then (R_paused, k)
      else if lease_busy now ao ae k then (R_waiting, k)
      else if unresolved k then (R_paused, barrier (set_pause (Some P_mutation_uncertain) (swept k)))
      else case head_event k of
        None \<Rightarrow> claim_gap now g (swept k)
      | Some ev \<Rightarrow> claim_event R now ao ae ow ms ev (swept k))"
  by (simp add: op_claim_def Let_def case_prod_beta swept_def unresolved_def head_event_def next_seq_def
      set_tools_def cong: option.case_cong)

text \<open>The lease and the application epoch.\<close>

lemma epoch_claim:
  assumes "ks_inv R k"
  shows "cval (le_epoch (k_lease k)) \<le> cval (le_epoch (k_lease (snd (op_claim R now ao ae ow ms g k))))"
    "k_app (snd (op_claim R now ao ae ow ms g k)) = k_app k"
proof -
  have c: "canonical (or0 (le_epoch (k_lease k)))"
    using assms by (simp add: ks_inv_def counters_ok_def)
  have "cval (le_epoch (k_lease k)) \<le> cval (le_epoch (k_lease (snd (claim_event R now ao ae ow ms ev (swept k)))))" for ev
    using c claim_event_lease [of R now ao ae ow ms ev "swept k"] by (auto simp: view_simps)
  then show "cval (le_epoch (k_lease k)) \<le> cval (le_epoch (k_lease (snd (op_claim R now ao ae ow ms g k))))"
    by (simp add: op_claim_eq claim_gap_lease set_pause_def view_simps split: option.split)
  show "k_app (snd (op_claim R now ao ae ow ms g k)) = k_app k"
    by (simp add: op_claim_eq claim_gap_lease claim_event_app set_pause_def view_simps split: option.split)
qed

definition epochs_le :: "'st keyspace \<Rightarrow> 'st keyspace \<Rightarrow> bool" where
  "epochs_le k k' \<longleftrightarrow> cval (le_epoch (k_lease k)) \<le> cval (le_epoch (k_lease k')) \<and>
     cval (app_epoch (k_app k)) \<le> cval (app_epoch (k_app k'))"

lemma epochs_simple_ops:
  assumes "ks_inv R k"
  shows "epochs_le k (snd (op_init R c k))" "epochs_le k (snd (op_accept R now rv eid fp sq raw done c idrev k))"
    "epochs_le k (snd (op_app_acquire now ow ms k))" "epochs_le k (snd (op_app_renew now ow ep ms k))"
    "epochs_le k (snd (op_app_release now ow ep k))" "epochs_le k (snd (op_recover_pel R now ao ae cons start n k))"
    "epochs_le k (snd (op_renew now w ms k))" "epochs_le k (snd (op_check_work now w k))"
    "epochs_le k (snd (op_turn_state now w k))" "epochs_le k (snd (op_begin_turn now w k))"
    "epochs_le k (snd (op_pause now w r k))" "epochs_le k (snd (op_bind now w b k))"
    "epochs_le k (snd (op_complete R now w b sends k))"
  using assms
  by (auto simp: epochs_le_def op_init_def op_accept_def op_app_acquire_def op_app_renew_def op_app_release_def
      op_recover_pel_def op_renew_def op_check_work_def op_turn_state_def op_begin_turn_def op_pause_def
      op_bind_def op_complete_def completed_keys_def admitted_keys_def Let_def key_update_defs view_simps
      ks_inv_def counters_ok_def split: option.split prod.split)

lemma epochs_journal_ops:
  "epochs_le k (snd (op_journal_begin now w a row k))"
  "epochs_le k (snd (op_native_journal_begin now w a rfp rb t b k))"
  "epochs_le k (snd (op_journal_transition now w a res k))"
  by (auto simp: epochs_le_def op_journal_begin_def op_native_journal_begin_def op_journal_transition_def
      Let_def key_update_defs view_simps split: option.split)

lemma epochs_repair_ops:
  assumes "ks_inv R k"
  shows "epochs_le k (snd (op_repair_intent R now ao ae ow ms c k))"
    "epochs_le k (snd (op_repair_claim R now ao ae ow ms c i k))"
    "epochs_le k (snd (op_repair_release_fence now ao ae ow ep k))"
    "epochs_le k (snd (op_repair_release now w b k))"
    "epochs_le k (snd (op_checkpoint_prepare now w t b k))"
    "epochs_le k (snd (op_checkpoint_transition now w cid tg en ex nx k))"
    "epochs_le k (snd (op_checkpoint_abort R now w b cid rw nx i k))"
  using assms
  by (auto simp: epochs_le_def op_repair_intent_def op_repair_claim_def op_repair_release_fence_def
      op_repair_release_def op_checkpoint_prepare_def op_checkpoint_transition_def op_checkpoint_abort_def
      Let_def key_update_defs view_simps ks_inv_def counters_ok_def split: option.split sum.split)

lemma run_script_epochs: "ks_inv R k \<Longrightarrow> epochs_le k (snd (run_script R now oper k))"
  by (cases oper)
    (simp_all add: epochs_simple_ops epochs_journal_ops epochs_repair_ops,
     simp_all add: epochs_le_def epoch_claim op_snapshot_def op_read_def op_journal_list_def op_checkpoint_latest_def)

text \<open>The cursor with the turn marker, and the pause.\<close>

definition turn_kept :: "'st keyspace \<Rightarrow> 'st keyspace \<Rightarrow> bool" where
  "turn_kept k k' \<longleftrightarrow> cval (st_cursor (k_state k')) = cval (st_cursor (k_state k)) \<and>
     (st_turnEvent (k_state k) \<noteq> None \<longrightarrow> st_turnEvent (k_state k') = st_turnEvent (k_state k))"

definition pause_kept :: "'st keyspace \<Rightarrow> 'st keyspace \<Rightarrow> bool" where
  "pause_kept k k' \<longleftrightarrow> (st_pause (k_state k) \<noteq> None \<longrightarrow> st_pause (k_state k') \<noteq> None)"

lemmas kept_defs = turn_kept_def pause_kept_def

lemma kept_claim:
  "turn_kept k (snd (op_claim R now ao ae ow ms g k))" "pause_kept k (snd (op_claim R now ao ae ow ms g k))"
proof -
  have "turn_kept k (snd (claim_event R now ao ae ow ms ev (swept k)))" for ev
    using claim_event_app(2) [of R now ao ae ow ms ev "swept k"]
    by (auto simp: turn_kept_def set_gap_def view_simps)
  then show "turn_kept k (snd (op_claim R now ao ae ow ms g k))"
    by (simp add: op_claim_eq split: option.split)
      (simp add: turn_kept_def claim_gap_lease set_pause_def view_simps)
  show "pause_kept k (snd (op_claim R now ao ae ow ms g k))"
    by (simp add: op_claim_eq pause_kept_def)
qed

lemma kept_simple_ops:
  "turn_kept k (snd (op_init R c k))" "turn_kept k (snd (op_accept R now rv eid fp sq raw done c idrev k))"
  "turn_kept k (snd (op_app_acquire now ow ms k))" "turn_kept k (snd (op_app_renew now ow ep ms k))"
  "turn_kept k (snd (op_app_release now ow ep k))" "turn_kept k (snd (op_recover_pel R now ao ae cons start n k))"
  "turn_kept k (snd (op_renew now w ms k))" "turn_kept k (snd (op_check_work now w k))"
  "turn_kept k (snd (op_turn_state now w k))" "turn_kept k (snd (op_begin_turn now w k))"
  "turn_kept k (snd (op_pause now w r k))" "turn_kept k (snd (op_bind now w b k))"
  by (auto simp: kept_defs op_init_def op_accept_def op_app_acquire_def op_app_renew_def op_app_release_def
      op_recover_pel_def op_renew_def op_check_work_def op_turn_state_def op_begin_turn_def op_pause_def
      op_bind_def admitted_keys_def Let_def key_update_defs view_simps state_exists_def
      split: option.split prod.split)

lemma pause_kept_simple_ops:
  "pause_kept k (snd (op_init R c k))" "pause_kept k (snd (op_accept R now rv eid fp sq raw done c idrev k))"
  "pause_kept k (snd (op_app_acquire now ow ms k))" "pause_kept k (snd (op_app_renew now ow ep ms k))"
  "pause_kept k (snd (op_app_release now ow ep k))" "pause_kept k (snd (op_recover_pel R now ao ae cons start n k))"
  "pause_kept k (snd (op_renew now w ms k))" "pause_kept k (snd (op_check_work now w k))"
  "pause_kept k (snd (op_turn_state now w k))" "pause_kept k (snd (op_begin_turn now w k))"
  "pause_kept k (snd (op_pause now w r k))" "pause_kept k (snd (op_bind now w b k))"
  "pause_kept k (snd (op_complete R now w b sends k))"
  by (auto simp: kept_defs op_init_def op_accept_def op_app_acquire_def op_app_renew_def op_app_release_def
      op_recover_pel_def op_renew_def op_check_work_def op_turn_state_def op_begin_turn_def op_pause_def
      op_bind_def op_complete_def completed_keys_def admitted_keys_def Let_def key_update_defs view_simps
      state_exists_def split: option.split prod.split)

lemma kept_journal_ops:
  "turn_kept k (snd (op_journal_begin now w a row k))"
  "turn_kept k (snd (op_native_journal_begin now w a rfp rb t b k))"
  "turn_kept k (snd (op_journal_transition now w a res k))"
  "pause_kept k (snd (op_journal_begin now w a row k))"
  "pause_kept k (snd (op_native_journal_begin now w a rfp rb t b k))"
  "pause_kept k (snd (op_journal_transition now w a res k))"
  by (auto simp: kept_defs op_journal_begin_def op_native_journal_begin_def op_journal_transition_def
      Let_def key_update_defs view_simps split: option.split)

lemma kept_repair_ops:
  "turn_kept k (snd (op_repair_intent R now ao ae ow ms c k))"
  "turn_kept k (snd (op_repair_claim R now ao ae ow ms c i k))"
  "turn_kept k (snd (op_repair_release_fence now ao ae ow ep k))"
  "turn_kept k (snd (op_repair_release now w b k))"
  "turn_kept k (snd (op_checkpoint_prepare now w t b k))"
  "turn_kept k (snd (op_checkpoint_transition now w cid tg en ex nx k))"
  "turn_kept k (snd (op_checkpoint_abort R now w b cid rw nx i k))"
  by (auto simp: kept_defs op_repair_intent_def op_repair_claim_def op_repair_release_fence_def
      op_repair_release_def op_checkpoint_prepare_def op_checkpoint_transition_def op_checkpoint_abort_def
      Let_def key_update_defs view_simps split: option.split sum.split)

lemma pause_kept_repair_ops:
  "pause_kept k (snd (op_repair_intent R now ao ae ow ms c k))"
  "pause_kept k (snd (op_repair_claim R now ao ae ow ms c i k))"
  "pause_kept k (snd (op_repair_release_fence now ao ae ow ep k))"
  "pause_kept k (snd (op_repair_release now w b k))"
  "pause_kept k (snd (op_checkpoint_prepare now w t b k))"
  "pause_kept k (snd (op_checkpoint_transition now w cid tg en ex nx k))"
  by (auto simp: kept_defs op_repair_intent_def op_repair_claim_def op_repair_release_fence_def
      op_repair_release_def op_checkpoint_prepare_def op_checkpoint_transition_def
      Let_def key_update_defs view_simps split: option.split sum.split)

fun is_complete :: "script_op \<Rightarrow> bool" where
  "is_complete (Op_complete w b sends) = True"
| "is_complete _ = False"

fun is_abort :: "script_op \<Rightarrow> bool" where
  "is_abort (Op_checkpoint_abort w b cid raw n i) = True"
| "is_abort _ = False"

lemma kept_refl: "turn_kept k k" "pause_kept k k"
  by (simp_all add: kept_defs)

lemma run_script_turn: "\<not> is_complete oper \<Longrightarrow> turn_kept k (snd (run_script R now oper k))"
  by (cases oper)
    (simp_all add: kept_claim kept_simple_ops kept_journal_ops kept_repair_ops kept_refl
      op_snapshot_def op_read_def op_journal_list_def op_checkpoint_latest_def)

lemma run_script_pause: "\<not> is_abort oper \<Longrightarrow> pause_kept k (snd (run_script R now oper k))"
  by (cases oper)
    (simp_all add: kept_claim pause_kept_simple_ops kept_journal_ops pause_kept_repair_ops kept_refl
      op_snapshot_def op_read_def op_journal_list_def op_checkpoint_latest_def)

text \<open>A completion either replies \<open>ok\<close>, for the head event, or leaves the keys alone.\<close>

lemma complete_cases:
  "(\<exists>e. lua_work now w k = Some e \<and> er_seq e = next_seq k \<and> st_session (k_state k) = Some b \<and>
      list_all (row_completed w sends) (hvals (k_tools k)) \<and>
      op_complete R now w b sends k = (R_ok, barrier (completed_keys R (wa_event w) e k))) \<or>
   op_complete R now w b sends k = (R_lost, k)"
  by (auto simp: op_complete_def split: option.split)

section \<open>Along a sequence of runs\<close>

lemma script_run_trans: "script_run R k2 k3 \<Longrightarrow> script_run R k1 k2 \<Longrightarrow> script_run R k1 k3"
  by (induction rule: script_run.induct) (auto intro: script_run.intros)

lemma script_run_one: "op_ok oper \<Longrightarrow> script_run R k (snd (run_script R now oper k))"
  by (rule script_run.step [OF script_run.none])

text \<open>The work a fenced operation is called with.\<close>

fun work_of :: "script_op \<Rightarrow> work_args option" where
  "work_of (Op_renew w ms) = Some w"
| "work_of (Op_check_work w) = Some w"
| "work_of (Op_turn_state w) = Some w"
| "work_of (Op_begin_turn w) = Some w"
| "work_of (Op_pause w r) = Some w"
| "work_of (Op_bind w b) = Some w"
| "work_of (Op_complete w b sends) = Some w"
| "work_of (Op_journal_begin w a row) = Some w"
| "work_of (Op_native_journal_begin w a rfp rb t b) = Some w"
| "work_of (Op_journal_transition w a res) = Some w"
| "work_of (Op_repair_release w b) = Some w"
| "work_of (Op_checkpoint_prepare w t b) = Some w"
| "work_of (Op_checkpoint_transition w cid tg en ex n) = Some w"
| "work_of (Op_checkpoint_abort w b cid raw n i) = Some w"
| "work_of _ = None"

lemma fenced_op_lost:
  "work_of oper = Some w \<Longrightarrow> lua_work now w k = None \<Longrightarrow> run_script R now oper k = (R_lost, k)"
  by (cases oper) (simp_all add: script_defs)

lemma lua_work_fence: "\<not> lua_fence now w k \<Longrightarrow> lua_work now w k = None"
  by (simp add: lua_work_def)

text \<open>A fence of an older chat epoch, or of an older application epoch, does not pass.\<close>

lemma fence_epochs:
  assumes "lua_fence now w k"
  shows "cval (le_epoch (k_lease k)) = dval (wa_chatEpoch w)" "cval (app_epoch (k_app k)) = dval (wa_appEpoch w)"
  using assms by (simp_all add: lua_fence_def alive_app_def alive_lease_def)

lemma old_epoch_no_fence:
  "dval (wa_chatEpoch w) < cval (le_epoch (k_lease k)) \<Longrightarrow> \<not> lua_fence now w k"
  "dval (wa_appEpoch w) < cval (app_epoch (k_app k)) \<Longrightarrow> \<not> lua_fence now w k"
  using fence_epochs [of now w k] by auto

lemma claim_event_claimedD:
  assumes "claim_event R now ao ae ow ms ev k = (R_claimed i raw ep u, k')"
  obtains e where "hget (k_events k) ev = Some e" "i = er_id e" "raw = er_raw e"
    "ep = Some (inc (or0 (le_epoch (k_lease k))))" "u = now + ms"
    "k' = barrier (renew_lease now ms (set_gap None (grant_lease ow (inc (or0 (le_epoch (k_lease k)))) ao ae ev
      (set_stream (snd (xclaim R ow (er_id e) (k_stream k))) k))))"
  using assms
  by (auto simp: claim_event_def Let_def split: option.splits if_splits)

lemma claim_gap_reply: "fst (claim_gap now g k) \<in> {R_empty, R_paused, R_waiting}"
  by (simp add: claim_gap_def Let_def)

lemma op_claim_claimedD:
  assumes "op_claim R now ao ae ow ms g k = (R_claimed i raw ep u, k')"
  obtains ev where "alive_app now ao ae (k_app k)" "st_pause (k_state k) = None"
    "\<not> lease_busy now ao ae k" "\<not> unresolved k" "head_event k = Some ev"
    "claim_event R now ao ae ow ms ev (swept k) = (R_claimed i raw ep u, k')"
  using assms claim_gap_reply [of now g "swept k"]
  by (fastforce simp: op_claim_eq split: if_splits option.splits)

context redis_streams
begin

lemma run_inv: "script_run R k k' \<Longrightarrow> ks_inv R k \<Longrightarrow> ks_inv R k'"
  by (induction rule: script_run.induct) (simp_all add: run_script_inv)

lemma run_epochs: "script_run R k k' \<Longrightarrow> ks_inv R k \<Longrightarrow> epochs_le k k'"
proof (induction rule: script_run.induct)
  case (step k k' oper now)
  have "epochs_le k' (snd (run_script R now oper k'))"
    using step run_inv run_script_epochs by blast
  then show ?case using step by (simp add: epochs_le_def)
qed (simp add: epochs_le_def)

lemma claimed_epoch:
  assumes "ks_inv R k" "op_claim R now ao ae ow ms g k = (R_claimed i raw ep u, k')"
  shows "cval (le_epoch (k_lease k')) = Suc (cval (le_epoch (k_lease k)))"
proof -
  obtain ev where "claim_event R now ao ae ow ms ev (swept k) = (R_claimed i raw ep u, k')"
    using op_claim_claimedD [OF assms(2)] by blast
  then show ?thesis
    using assms(1) by (auto simp: view_simps key_update_defs ks_inv_def counters_ok_def elim!: claim_event_claimedD)
qed

lemma claimed_reply_epoch:
  assumes inv: "ks_inv R k" and claimed: "run_script R now oper k = (R_claimed i raw ep u, k')"
  shows "cval (le_epoch (k_lease k')) = Suc (cval (le_epoch (k_lease k)))"
proof -
  have evid: "repairEvidence R ch it k \<noteq> Inl (R_claimed i raw ep u)" for ch it and k :: "'st keyspace"
    by (auto simp: repairEvidence_def Let_def split: option.split)
  have "cval (le_epoch (k_lease k')) = Suc (cval (le_epoch (k_lease k)))"
    if "op_claim R now ao ae ow ms g k = (R_claimed i raw ep u, k')" for ao ae ow ms g
    using claimed_epoch [OF inv that] .
  then show ?thesis
    using claimed
    by (cases oper)
      (auto simp: script_defs [unfolded op_claim_def] evid renew_app_def Let_def
        split: if_splits option.splits prod.splits sum.splits)
qed

lemma repair_claimed_epoch:
  assumes inv: "ks_inv R k"
    and claimed: "run_script R now oper k = (R_repair i raw b c ep u, k')"
  shows "cval (le_epoch (k_lease k')) = Suc (cval (le_epoch (k_lease k)))"
proof -
  have c: "canonical (or0 (le_epoch (k_lease k)))"
    using inv by (simp add: ks_inv_def counters_ok_def)
  have gap: "claim_gap now g k \<noteq> (R_repair i raw b c ep u, k')" for now g and k :: "'st keyspace"
    using claim_gap_reply [of now g k] by auto
  have ev: "claim_event R now ao ae ow ms ev k \<noteq> (R_repair i raw b c ep u, k')" for now ao ae ow ms ev and k :: "'st keyspace"
    by (auto simp: claim_event_def Let_def split: option.split)
  have evid: "repairEvidence R ch it k \<noteq> Inl (R_repair i raw b c ep u)" for ch it and k :: "'st keyspace"
    by (auto simp: repairEvidence_def Let_def split: option.split)
  show ?thesis
    using claimed c
    by (cases oper)
      (auto simp: script_defs [unfolded op_claim_def] op_claim_eq gap ev evid renew_app_def Let_def key_update_defs view_simps
        split: if_splits option.splits prod.splits sum.splits)
qed

end

end
