(* ===== verification/Script_Facts.thy ===== *)
theory Script_Facts
  imports Script_Runs
begin

text \<open>
  Facts of the single operations that the properties of theory \<open>Script_Spec\<close> rest on: what the
  crash sweep of a claim does to the journal, when a claim succeeds, what an accepted event
  leaves behind, the turn marker along runs, and what a single run does to the checkpoint record.
\<close>

section \<open>The crash sweep of a claim\<close>

lemma sweep_flag: "snd (sweep rs t u) \<longleftrightarrow> u \<or> list_ex (\<lambda>r. \<not> is_confirmed (mu_status (row_state r))) rs"
  by (induction rs arbitrary: t u) auto

lemma unresolved_iff:
  "unresolved k \<longleftrightarrow> list_ex (\<lambda>r. \<not> is_confirmed (mu_status (row_state r))) (hvals (k_tools k))"
  by (simp add: unresolved_def sweep_flag)

text \<open>What the sweep makes of one row.\<close>

fun swept_row :: "journal_row \<Rightarrow> journal_row" where
  "swept_row (Envelope fp b m) =
     (if is_confirmed (mu_status m) then Envelope fp b m else Envelope fp b (m\<lparr>mu_status := Uncertain\<rparr>))"
| "swept_row (Legacy m) = Legacy m"

lemma sweep_row_other: "mu_attemptId (row_state r) \<noteq> a \<Longrightarrow> hget (sweep_row r t) a = hget t a"
  by (cases r) auto

lemma hget_sweep_other:
  "\<forall>r \<in> set rs. mu_attemptId (row_state r) \<noteq> a \<Longrightarrow> hget (fst (sweep rs t u)) a = hget t a"
  by (induction rs arbitrary: t u) (auto simp: sweep_row_other)

lemma sweep_row_same:
  "hget t a = Some r \<or> hget t a = Some (swept_row r) \<Longrightarrow> mu_attemptId (row_state r) = a \<Longrightarrow>
   \<not> is_confirmed (mu_status (row_state r)) \<Longrightarrow> hget (sweep_row r t) a = Some (swept_row r)"
  by (cases r) auto

lemma swept_confirmed: "is_confirmed (mu_status (row_state r)) \<Longrightarrow> swept_row r = r"
  by (cases r) auto

lemma hget_sweep_same:
  assumes "\<forall>r' \<in> set rs. mu_attemptId (row_state r') = a \<longrightarrow> r' = r" "mu_attemptId (row_state r) = a"
    "hget t a = Some r \<and> r \<in> set rs \<or> hget t a = Some (swept_row r)"
  shows "hget (fst (sweep rs t u)) a = Some (swept_row r)"
  using assms
proof (induction rs arbitrary: t u)
  case (Cons x xs)
  show ?case
  proof (cases "is_confirmed (mu_status (row_state x))")
    case True
    then have "hget t a = Some r \<and> r \<in> set xs \<or> hget t a = Some (swept_row r)"
      using Cons.prems swept_confirmed [of r] by auto
    then show ?thesis using Cons True by simp
  next
    case False
    have "hget (sweep_row x t) a = Some r \<and> r \<in> set xs \<or> hget (sweep_row x t) a = Some (swept_row r)"
    proof (cases "mu_attemptId (row_state x) = a")
      case True
      then have "x = r" using Cons.prems(1) by simp
      then show ?thesis using sweep_row_same [of t a r] Cons.prems False by blast
    next
      case other: False
      then have "x \<noteq> r" using Cons.prems(2) by blast
      then show ?thesis using Cons.prems sweep_row_other [OF other] by auto
    qed
    then show ?thesis using Cons.IH Cons.prems False by simp
  qed
qed simp

lemma swept_tools:
  assumes "tools_ok k"
  shows "hget (k_tools (swept k)) a = map_option swept_row (hget (k_tools k) a)"
proof -
  have wf: "hash_wf (k_tools k)" and att: "\<And>a r. hget (k_tools k) a = Some r \<Longrightarrow> mu_attemptId (row_state r) = a"
    using assms by (auto simp: tools_ok_def)
  have vals: "r \<in> set (hvals (k_tools k)) \<longleftrightarrow> hget (k_tools k) (mu_attemptId (row_state r)) = Some r" for r
    using hvals_hget [OF wf] att by auto
  show ?thesis
  proof (cases "hget (k_tools k) a")
    case None
    then have "\<forall>r \<in> set (hvals (k_tools k)). mu_attemptId (row_state r) \<noteq> a"
      by (auto simp: vals)
    then show ?thesis using None by (simp add: swept_def set_tools_def hget_sweep_other)
  next
    case (Some r)
    have "hget (fst (sweep (hvals (k_tools k)) (k_tools k) False)) a = Some (swept_row r)"
    proof (rule hget_sweep_same)
      show "\<forall>r' \<in> set (hvals (k_tools k)). mu_attemptId (row_state r') = a \<longrightarrow> r' = r"
        using Some by (metis vals option.inject)
      show "hget (k_tools k) a = Some r \<and> r \<in> set (hvals (k_tools k)) \<or> hget (k_tools k) a = Some (swept_row r)"
        using Some att [OF Some] unfolding vals by blast
    qed (rule att [OF Some])
    then show ?thesis using Some by (simp add: swept_def set_tools_def)
  qed
qed

section \<open>When a claim succeeds\<close>

context redis_streams
begin

lemma head_row:
  assumes "ks_inv R k" "head_event k = Some ev"
  obtains e where "hget (k_events k) ev = Some e" "er_seq e = next_seq k"
    "dval (er_seq e) = Suc (cval (st_cursor (k_state k)))" "stream_entry R (k_stream k) (er_id e) = Some ev"
proof -
  obtain e where e: "hget (k_events k) ev = Some e" "er_seq e = next_seq k"
    using assms unfolding ks_inv_def head_event_def seqs_ok_def by metis
  moreover have "stream_entry R (k_stream k) (er_id e) = Some ev"
    using assms e by (auto simp: ks_inv_def rows_ok_def)
  moreover have "dval (er_seq e) = Suc (cval (st_cursor (k_state k)))"
    using assms e by (simp add: next_seq_def ks_inv_def counters_ok_def)
  ultimately show thesis using that by blast
qed

lemma claim_succeeds:
  assumes inv: "ks_inv R k" and "alive_app now ao ae (k_app k)" "st_pause (k_state k) = None"
    "\<not> lease_busy now ao ae k" "\<not> unresolved k" "head_event k = Some ev"
    "length (inc (or0 (le_epoch (k_lease k)))) \<le> 32" and e: "hget (k_events k) ev = Some e"
  shows "fst (op_claim R now ao ae ow ms g k) =
    R_claimed (er_id e) (er_raw e) (Some (inc (or0 (le_epoch (k_lease k))))) (now + ms)"
proof -
  have "stream_entry R (k_stream k) (er_id e) \<noteq> None"
    using inv e by (auto simp: ks_inv_def rows_ok_def)
  then have "fst (xclaim R ow (er_id e) (k_stream k)) = [er_id e]"
    by (rule xclaim_existing)
  then show ?thesis
    using assms by (simp add: op_claim_eq claim_event_def view_simps Let_def)
qed

end

text \<open>What a granted claim says and leaves behind.\<close>

lemma claimed_row:
  assumes "stream_laws R" "ks_inv R k"
    and "run_script R now (Op_claim ao ae ow ms gap) k = (R_claimed i raw ep u, k')"
  shows "\<exists>ev e. hget (k_events k) ev = Some e \<and> dval (er_seq e) = Suc (cval (st_cursor (k_state k))) \<and>
      i = er_id e \<and> raw = er_raw e \<and> u = now + ms \<and> st_pause (k_state k) = None \<and>
      list_all (\<lambda>r. is_confirmed (mu_status (row_state r))) (hvals (k_tools k)) \<and>
      (now < u \<longrightarrow> lua_work now \<lparr>wa_appOwner = ao, wa_appEpoch = ae, wa_chatOwner = ow, wa_chatEpoch = the ep,
        wa_event = ev, wa_streamId = i, wa_fp = er_fp e\<rparr> k' = Some e)"
proof -
  have R: "redis_streams R" by (rule redis_streams.intro [OF assms(1)])
  have claim: "op_claim R now ao ae ow ms gap k = (R_claimed i raw ep u, k')" using assms(3) by simp
  obtain ev where ev: "alive_app now ao ae (k_app k)" "st_pause (k_state k) = None" "\<not> unresolved k"
      "head_event k = Some ev" "claim_event R now ao ae ow ms ev (swept k) = (R_claimed i raw ep u, k')"
    by (rule op_claim_claimedD [OF claim])
  obtain e where e: "hget (k_events k) ev = Some e" "dval (er_seq e) = Suc (cval (st_cursor (k_state k)))"
    by (rule redis_streams.head_row [OF R assms(2) ev(4)])
  obtain e' where e': "hget (k_events (swept k)) ev = Some e'" "i = er_id e'" "raw = er_raw e'"
      "ep = Some (inc (or0 (le_epoch (k_lease (swept k)))))" "u = now + ms"
      "k' = barrier (renew_lease now ms (set_gap None (grant_lease ow (inc (or0 (le_epoch (k_lease (swept k))))) ao ae ev
        (set_stream (snd (xclaim R ow (er_id e') (k_stream (swept k)))) (swept k)))))"
    by (rule claim_event_claimedD [OF ev(5)])
  have same: "e' = e" using e'(1) e(1) by (simp add: view_simps)
  have rows: "list_all (\<lambda>r. is_confirmed (mu_status (row_state r))) (hvals (k_tools k))"
    using ev(3) by (simp add: unresolved_iff list_all_iff list_ex_iff)
  have "lua_work now \<lparr>wa_appOwner = ao, wa_appEpoch = ae, wa_chatOwner = ow, wa_chatEpoch = the ep,
      wa_event = ev, wa_streamId = i, wa_fp = er_fp e\<rparr> k' = Some e" if "now < u"
    using that ev(1) e(1) e' by (simp add: lua_work_def lua_fence_def alive_lease_def key_update_defs view_simps same tonum_def)
  then show ?thesis using e e' ev(2) rows same by blast
qed

section \<open>The turn marker and the cursor along runs\<close>

lemma run_script_cursor_le:
  assumes "redis_streams R" "ks_inv R k"
  shows "cval (st_cursor (k_state k)) \<le> cval (st_cursor (k_state (snd (run_script R now oper k))))"
proof (cases "is_complete oper")
  case True
  then obtain w b sends where o: "oper = Op_complete w b sends" by (cases oper) auto
  from complete_cases [of now w k b sends R] show ?thesis
  proof
    assume "\<exists>e. lua_work now w k = Some e \<and> er_seq e = next_seq k \<and> st_session (k_state k) = Some b \<and>
      list_all (row_completed w sends) (hvals (k_tools k)) \<and>
      op_complete R now w b sends k = (R_ok, barrier (completed_keys R (wa_event w) e k))"
    then show ?thesis
      using assms o by (auto simp: completed_keys_def view_simps next_seq_def ks_inv_def counters_ok_def)
  qed (simp add: o)
next
  case False
  from run_script_turn [OF this, of k R now] show ?thesis by (simp add: turn_kept_def)
qed

lemma turn_step:
  assumes "redis_streams R" "ks_inv R k"
    and same: "cval (st_cursor (k_state (snd (run_script R now oper k)))) = cval (st_cursor (k_state k))"
  shows "turn_kept k (snd (run_script R now oper k))"
proof (cases "is_complete oper")
  case True
  then obtain w b sends where o: "oper = Op_complete w b sends" by (cases oper) auto
  from complete_cases [of now w k b sends R] show ?thesis
  proof
    assume "\<exists>e. lua_work now w k = Some e \<and> er_seq e = next_seq k \<and> st_session (k_state k) = Some b \<and>
      list_all (row_completed w sends) (hvals (k_tools k)) \<and>
      op_complete R now w b sends k = (R_ok, barrier (completed_keys R (wa_event w) e k))"
    then show ?thesis
      using assms same o by (auto simp: completed_keys_def view_simps next_seq_def ks_inv_def counters_ok_def)
  qed (simp add: o kept_refl)
qed (rule run_script_turn)

context redis_streams
begin

lemma run_cursor: "script_run R k k' \<Longrightarrow> ks_inv R k \<Longrightarrow> cval (st_cursor (k_state k)) \<le> cval (st_cursor (k_state k'))"
proof (induction rule: script_run.induct)
  case (step k k' oper now)
  then show ?case
    using run_script_cursor_le [OF redis_streams_axioms run_inv, of k k' now oper] by simp
qed simp

lemma run_turn:
  "script_run R k k' \<Longrightarrow> ks_inv R k \<Longrightarrow> cval (st_cursor (k_state k')) = cval (st_cursor (k_state k)) \<Longrightarrow> turn_kept k k'"
proof (induction rule: script_run.induct)
  case (step k k' oper now)
  have inv: "ks_inv R k'" using step run_inv by blast
  have le: "cval (st_cursor (k_state k)) \<le> cval (st_cursor (k_state k'))"
    using step run_cursor by blast
  have "cval (st_cursor (k_state k')) \<le> cval (st_cursor (k_state (snd (run_script R now oper k'))))"
    using run_script_cursor_le [OF redis_streams_axioms inv] .
  with le step.prems have eq: "cval (st_cursor (k_state k')) = cval (st_cursor (k_state k))"
    "cval (st_cursor (k_state (snd (run_script R now oper k')))) = cval (st_cursor (k_state k'))"
    by simp_all
  from turn_step [OF redis_streams_axioms inv eq(2)] step.IH [OF step.prems(1) eq(1)]
  show ?case by (auto simp: turn_kept_def)
qed (simp add: kept_refl)

end

section \<open>Checkpoint records\<close>

lemma checkpoint_claim: "k_checkpoint (snd (op_claim R now ao ae ow ms g k)) = k_checkpoint k"
  by (simp add: op_claim_eq claim_gap_def claim_event_def Let_def key_update_defs view_simps split: option.split)

lemma checkpoint_frame_ops:
  "k_checkpoint (snd (op_init R c k)) = k_checkpoint k"
  "k_checkpoint (snd (op_accept R now rv eid fp sq raw done c idrev k)) = k_checkpoint k"
  "k_checkpoint (snd (op_app_acquire now ow ms k)) = k_checkpoint k"
  "k_checkpoint (snd (op_app_renew now ow ep ms k)) = k_checkpoint k"
  "k_checkpoint (snd (op_app_release now ow ep k)) = k_checkpoint k"
  "k_checkpoint (snd (op_recover_pel R now ao ae cons start n k)) = k_checkpoint k"
  "k_checkpoint (snd (op_renew now w ms k)) = k_checkpoint k"
  "k_checkpoint (snd (op_check_work now w k)) = k_checkpoint k"
  "k_checkpoint (snd (op_turn_state now w k)) = k_checkpoint k"
  "k_checkpoint (snd (op_begin_turn now w k)) = k_checkpoint k"
  "k_checkpoint (snd (op_pause now w r k)) = k_checkpoint k"
  "k_checkpoint (snd (op_bind now w b k)) = k_checkpoint k"
  "k_checkpoint (snd (op_complete R now w b sends k)) = k_checkpoint k"
  by (auto simp: op_init_def op_accept_def op_app_acquire_def op_app_renew_def op_app_release_def
      op_recover_pel_def op_renew_def op_check_work_def op_turn_state_def op_begin_turn_def op_pause_def
      op_bind_def op_complete_def completed_keys_def admitted_keys_def Let_def key_update_defs view_simps
      split: option.split prod.split)

lemma checkpoint_frame_work_ops:
  "k_checkpoint (snd (op_journal_begin now w a row k)) = k_checkpoint k"
  "k_checkpoint (snd (op_native_journal_begin now w a rfp rb t b k)) = k_checkpoint k"
  "k_checkpoint (snd (op_journal_transition now w a res k)) = k_checkpoint k"
  "k_checkpoint (snd (op_repair_intent R now ao ae ow ms c k)) = k_checkpoint k"
  "k_checkpoint (snd (op_repair_claim R now ao ae ow ms c i k)) = k_checkpoint k"
  "k_checkpoint (snd (op_repair_release_fence now ao ae ow ep k)) = k_checkpoint k"
  "k_checkpoint (snd (op_repair_release now w b k)) = k_checkpoint k"
  by (auto simp: op_journal_begin_def op_native_journal_begin_def op_journal_transition_def
      op_repair_intent_def op_repair_claim_def op_repair_release_fence_def op_repair_release_def
      Let_def key_update_defs view_simps split: option.split sum.split)

lemma repairEvidence_prepared:
  "repairEvidence R c i k = Inr p \<Longrightarrow> k_checkpoint k = Some (rp_prepared p) \<and> cr_phase (rp_prepared p) = Prepared \<and>
     st_pause (k_state k) = Some P_compaction_failed \<and> st_turnEvent (k_state k) = None \<and> k_tools k = [] \<and>
     st_session (k_state k) = Some (rp_session p) \<and> head_evidence R k = Some (rp_event p, rp_row p)"
  by (auto simp: repairEvidence_def Let_def split: option.splits if_splits)

end
