(* ===== verification/Database.thy ===== *)
theory Database
  imports Script_Facts
begin

text \<open>
  The whole Redis database of the controller: one key space per configured chat, with the
  application key and the active-identities key shared by all of them
  (\<open>src/session-controller/src/redis/keys.ts\<close>). A run of the script sees the shared keys and
  those of its chat; the key names of two chats are disjoint otherwise.
\<close>

section \<open>Key names\<close>

definition APP :: string where
  "APP = ''sc:v1:app''"

definition GLOBAL_EVENTS :: string where
  "GLOBAL_EVENTS = ''sc:v1:active-identities''"

text \<open>\<open>new Set\<close> keeps the first occurrence of every element.\<close>

fun set_of_list :: "string list \<Rightarrow> string list \<Rightarrow> string list" where
  "set_of_list seen [] = []"
| "set_of_list seen (x # xs) =
     (if x \<in> set seen then set_of_list seen xs else x # set_of_list (x # seen) xs)"

fun configuredChats :: "string list \<Rightarrow> string list \<Rightarrow> error_class + string list" where
  "configuredChats groups [] = Inl Config_invalid"
| "configuredChats groups (first # rest) =
     (let chats = set_of_list [] (groups @ [first])
      in if list_all chat_jid_schema chats then Inr chats else Inl Payload_invalid)"

definition key_prefix :: "(string \<Rightarrow> string) \<Rightarrow> string \<Rightarrow> string" where
  "key_prefix sha chat = ''sc:v1:chat:'' @ sha (''sc:keys:v1'' @ CHR 0x00 # chat)"

definition chat_key_names :: "(string \<Rightarrow> string) \<Rightarrow> string \<Rightarrow> string list" where
  "chat_key_names sha chat = List.map (\<lambda>s. key_prefix sha chat @ s)
     ['':state'', '':lease'', '':stream'', '':events'', '':sequences'', '':tools'', '':checkpoint'']"

definition scriptKeys :: "(string \<Rightarrow> string) \<Rightarrow> string \<Rightarrow> string list" where
  "scriptKeys sha chat = APP # chat_key_names sha chat @ [GLOBAL_EVENTS]"

lemma set_of_list_set: "set (set_of_list seen xs) = set xs - set seen"
  by (induction xs arbitrary: seen) auto

lemma set_of_list_distinct: "distinct (set_of_list seen xs)"
  by (induction xs arbitrary: seen) (auto simp: set_of_list_set)

lemma key_prefix_length: "(\<And>s. length (sha s) = 64) \<Longrightarrow> length (key_prefix sha chat) = 75"
  by (simp add: key_prefix_def)

lemma key_prefix_inj: "inj sha \<Longrightarrow> key_prefix sha c = key_prefix sha c' \<Longrightarrow> c = c'"
  by (simp add: key_prefix_def inj_eq)

lemma chat_key_names_disjoint:
  assumes "inj sha" "\<And>s. length (sha s) = 64" "c \<noteq> c'"
  shows "set (chat_key_names sha c) \<inter> set (chat_key_names sha c') = {}"
proof -
  have "key_prefix sha c \<noteq> key_prefix sha c'"
    using assms(1,3) key_prefix_inj by blast
  moreover have "length (key_prefix sha c) = length (key_prefix sha c')"
    using assms(2) by (simp add: key_prefix_length)
  ultimately show ?thesis by (auto simp: chat_key_names_def)
qed

lemma shared_key_names:
  "APP \<notin> set (chat_key_names sha c)" "GLOBAL_EVENTS \<notin> set (chat_key_names sha c)"
  by (auto simp: chat_key_names_def key_prefix_def APP_def GLOBAL_EVENTS_def)

section \<open>The database\<close>

record 'st database =
  db_app :: app_hash
  db_identities :: "string hash"
  db_chat :: "string \<Rightarrow> 'st keyspace"

definition view :: "string \<Rightarrow> 'st database \<Rightarrow> 'st keyspace" where
  "view c d = (db_chat d c)\<lparr>k_app := db_app d, k_identities := db_identities d\<rparr>"

definition db_put :: "string \<Rightarrow> 'st keyspace \<Rightarrow> 'st database \<Rightarrow> 'st database" where
  "db_put c k d = d\<lparr>db_app := k_app k, db_identities := k_identities k, db_chat := (db_chat d)(c := k)\<rparr>"

definition db_run :: "'st stream_ops \<Rightarrow> nat \<Rightarrow> string \<Rightarrow> script_op \<Rightarrow> 'st database \<Rightarrow> reply \<times> 'st database" where
  "db_run R now c oper d =
     (let (r, k) = run_script R now oper (view c d) in (r, db_put c k d))"

fun db_op_ok :: "string \<Rightarrow> script_op \<Rightarrow> bool" where
  "db_op_ok c (Op_accept rv eid fp sq raw done chat idrev) = (canonical sq \<and> chat = c \<and> CHR ''|'' \<notin> set fp)"
| "db_op_ok c oper = op_ok oper"

inductive db_runs :: "'st stream_ops \<Rightarrow> 'st database \<Rightarrow> 'st database \<Rightarrow> bool" for R where
  start: "db_runs R d d"
| run: "db_runs R d d' \<Longrightarrow> db_op_ok c oper \<Longrightarrow> db_runs R d (snd (db_run R now c oper d'))"

definition events_registered :: "string \<Rightarrow> 'st keyspace \<Rightarrow> bool" where
  "events_registered c k \<longleftrightarrow> (\<forall>ev e. hget (k_events k) ev = Some e \<longrightarrow>
     hget (k_identities k) ev = Some (identity_text c (er_fp e)) \<and> CHR ''|'' \<notin> set (er_fp e))"

definition db_inv :: "'st stream_ops \<Rightarrow> 'st database \<Rightarrow> bool" where
  "db_inv R d \<longleftrightarrow> (\<forall>c. ks_inv R (view c d) \<and> events_registered c (view c d))"

lemma view_put: "view c' (db_put c k d) = (if c' = c then k
    else (db_chat d c')\<lparr>k_app := k_app k, k_identities := k_identities k\<rparr>)"
  by (simp add: view_def db_put_def)

lemma identity_text_inj:
  assumes "identity_text c fp = identity_text c' fp'" "CHR ''|'' \<notin> set fp" "CHR ''|'' \<notin> set fp'"
  shows "c = c'" "fp = fp'"
proof -
  have r: "rev fp @ CHR ''|'' # rev c = rev fp' @ CHR ''|'' # rev c'"
    using arg_cong [OF assms(1), of rev] by (simp add: identity_text_def)
  have t: "takeWhile (\<lambda>x. x \<noteq> CHR ''|'') (rev f @ CHR ''|'' # xs) = rev f" if "CHR ''|'' \<notin> set f" for f xs
    using that by (subst takeWhile_append2) auto
  show fp: "fp = fp'"
    using arg_cong [OF r, of "takeWhile (\<lambda>x. x \<noteq> CHR ''|'')"] t assms(2,3) by simp
  show "c = c'" using r fp by simp
qed

section \<open>Only accept and complete touch the event rows and the identities\<close>

definition queue_kept :: "'st keyspace \<Rightarrow> 'st keyspace \<Rightarrow> bool" where
  "queue_kept k k' \<longleftrightarrow> k_events k' = k_events k \<and> k_identities k' = k_identities k"

fun is_queue_op :: "script_op \<Rightarrow> bool" where
  "is_queue_op (Op_complete w b sends) = True"
| "is_queue_op (Op_accept rv eid fp sq raw done c idrev) = True"
| "is_queue_op _ = False"

lemma queue_kept_refl: "queue_kept k k"
  by (simp add: queue_kept_def)

lemma queue_kept_claim: "queue_kept k (snd (op_claim R now ao ae ow ms g k))"
  by (simp add: queue_kept_def op_claim_eq claim_gap_def claim_event_def Let_def key_update_defs view_simps
      split: option.split)

lemma queue_kept_simple_ops:
  "queue_kept k (snd (op_init R c k))" "queue_kept k (snd (op_app_acquire now ow ms k))"
  "queue_kept k (snd (op_app_renew now ow ep ms k))" "queue_kept k (snd (op_app_release now ow ep k))"
  "queue_kept k (snd (op_recover_pel R now ao ae cons start n k))"
  "queue_kept k (snd (op_renew now w ms k))" "queue_kept k (snd (op_check_work now w k))"
  "queue_kept k (snd (op_turn_state now w k))" "queue_kept k (snd (op_begin_turn now w k))"
  "queue_kept k (snd (op_pause now w r k))" "queue_kept k (snd (op_bind now w b k))"
  "queue_kept k (snd (op_journal_begin now w a row k))"
  "queue_kept k (snd (op_native_journal_begin now w a rfp rb t b k))"
  "queue_kept k (snd (op_journal_transition now w a res k))"
  by (auto simp: queue_kept_def op_init_def op_app_acquire_def op_app_renew_def op_app_release_def
      op_recover_pel_def op_renew_def op_check_work_def op_turn_state_def op_begin_turn_def op_pause_def
      op_bind_def op_journal_begin_def op_native_journal_begin_def op_journal_transition_def
      Let_def key_update_defs view_simps split: option.split prod.split)

lemma queue_kept_repair_ops:
  "queue_kept k (snd (op_repair_intent R now ao ae ow ms c k))"
  "queue_kept k (snd (op_repair_claim R now ao ae ow ms c i k))"
  "queue_kept k (snd (op_repair_release_fence now ao ae ow ep k))"
  "queue_kept k (snd (op_repair_release now w b k))"
  "queue_kept k (snd (op_checkpoint_prepare now w t b k))"
  "queue_kept k (snd (op_checkpoint_transition now w cid tg en ex nx k))"
  "queue_kept k (snd (op_checkpoint_abort R now w b cid rw nx i k))"
  by (auto simp: queue_kept_def op_repair_intent_def op_repair_claim_def op_repair_release_fence_def
      op_repair_release_def op_checkpoint_prepare_def op_checkpoint_transition_def op_checkpoint_abort_def
      Let_def key_update_defs view_simps split: option.split sum.split)

lemma run_script_queue: "\<not> is_queue_op oper \<Longrightarrow> queue_kept k (snd (run_script R now oper k))"
  by (cases oper)
    (simp_all add: queue_kept_claim queue_kept_simple_ops queue_kept_repair_ops queue_kept_refl
      op_snapshot_def op_read_def op_journal_list_def op_checkpoint_latest_def)

text \<open>What accept and complete do to the rows, the identities and the registration.\<close>

lemma accept_queue:
  "queue_kept k (snd (op_accept R now rv eid fp sq raw done c idrev k)) \<or>
   (hget (k_events k) eid = None \<and> hget (k_identities k) eid \<in> {None, Some (identity_text c fp)} \<and>
    k_events (snd (op_accept R now rv eid fp sq raw done c idrev k)) =
      hset eid \<lparr>er_id = fst (xadd R now eid (k_stream k)), er_fp = fp, er_seq = sq, er_raw = raw\<rparr> (k_events k) \<and>
    k_identities (snd (op_accept R now rv eid fp sq raw done c idrev k)) = hset eid (identity_text c fp) (k_identities k))"
  by (auto simp: op_accept_def queue_kept_def admitted_keys_def Let_def view_simps split: option.split)

lemma complete_queue:
  "queue_kept k (snd (op_complete R now w b sends k)) \<or>
   (\<exists>e. hget (k_events k) (wa_event w) = Some e \<and>
      k_events (snd (op_complete R now w b sends k)) = hdel (wa_event w) (k_events k) \<and>
      k_identities (snd (op_complete R now w b sends k)) = hdel (wa_event w) (k_identities k))"
  using complete_cases [of now w k b sends R]
  by (auto simp: queue_kept_def completed_keys_def view_simps dest!: lua_work_SomeD(2))

text \<open>
  How one run changes rows and identities, as seen from any chat \<open>c'\<close> of a registered database.
\<close>

lemma registered_step:
  assumes ok: "db_op_ok c oper" and reg: "events_registered c k"
    and other: "c' \<noteq> c \<Longrightarrow> events_registered c' (k0\<lparr>k_identities := k_identities k\<rparr>)"
  shows "events_registered c (snd (run_script R now oper k))"
    "c' \<noteq> c \<Longrightarrow> events_registered c' (k0\<lparr>k_identities := k_identities (snd (run_script R now oper k))\<rparr>)"
proof -
  let ?k = "snd (run_script R now oper k)"
  have kept: "events_registered c ?k \<and> (c' \<noteq> c \<longrightarrow> events_registered c' (k0\<lparr>k_identities := k_identities ?k\<rparr>))"
    if "queue_kept k ?k"
    using that reg other by (auto simp: queue_kept_def events_registered_def)
  have "events_registered c ?k \<and> (c' \<noteq> c \<longrightarrow> events_registered c' (k0\<lparr>k_identities := k_identities ?k\<rparr>))"
  proof (cases oper)
    case (Op_accept rv eid fp sq raw dn ch idrev)
    have ch: "ch = c" "CHR ''|'' \<notin> set fp" using ok Op_accept by auto
    have dist: "identity_text c' fp' \<noteq> identity_text c fp" if "c' \<noteq> c" "CHR ''|'' \<notin> set fp'" for fp'
      using identity_text_inj(1) [of c' fp' c fp] that ch by blast
    from accept_queue [of k R now rv eid fp sq raw dn ch idrev] show ?thesis
    proof
      assume "queue_kept k (snd (op_accept R now rv eid fp sq raw dn ch idrev k))"
      then show ?thesis using kept Op_accept by simp
    next
      assume new: "hget (k_events k) eid = None \<and> hget (k_identities k) eid \<in> {None, Some (identity_text ch fp)} \<and>
        k_events (snd (op_accept R now rv eid fp sq raw dn ch idrev k)) =
          hset eid \<lparr>er_id = fst (xadd R now eid (k_stream k)), er_fp = fp, er_seq = sq, er_raw = raw\<rparr> (k_events k) \<and>
        k_identities (snd (op_accept R now rv eid fp sq raw dn ch idrev k)) = hset eid (identity_text ch fp) (k_identities k)"
      have "events_registered c ?k"
        using new reg ch by (auto simp: Op_accept events_registered_def split: if_splits)
      moreover have "events_registered c' (k0\<lparr>k_identities := k_identities ?k\<rparr>)" if "c' \<noteq> c"
        using new other [OF that] ch dist [OF that]
        by (fastforce simp: Op_accept events_registered_def)
      ultimately show ?thesis by blast
    qed
  next
    case (Op_complete w b sends)
    show ?thesis
      using complete_queue [of k R now w b sends]
    proof
      assume "\<exists>e. hget (k_events k) (wa_event w) = Some e \<and>
        k_events (snd (op_complete R now w b sends k)) = hdel (wa_event w) (k_events k) \<and>
        k_identities (snd (op_complete R now w b sends k)) = hdel (wa_event w) (k_identities k)"
      then obtain e where e: "hget (k_events k) (wa_event w) = Some e"
        "k_events ?k = hdel (wa_event w) (k_events k)" "k_identities ?k = hdel (wa_event w) (k_identities k)"
        unfolding Op_complete by auto
      have id: "hget (k_identities k) (wa_event w) = Some (identity_text c (er_fp e))" "CHR ''|'' \<notin> set (er_fp e)"
        using reg e(1) by (auto simp: events_registered_def)
      have "hget (k_events k0) (wa_event w) = None" if "c' \<noteq> c"
        using other [OF that] id identity_text_inj(1) that
        by (cases "hget (k_events k0) (wa_event w)") (auto simp: events_registered_def)
      then show ?thesis
        using reg other e(2,3) by (auto simp: events_registered_def)
    qed (use kept Op_complete in auto)
  qed (use kept run_script_queue [of oper k R now] in auto)
  then show "events_registered c ?k"
    "c' \<noteq> c \<Longrightarrow> events_registered c' (k0\<lparr>k_identities := k_identities ?k\<rparr>)" by auto
qed

lemma ks_inv_other_app:
  assumes "ks_inv R k0" "ks_inv R k"
  shows "ks_inv R (k0\<lparr>k_app := k_app k, k_identities := ids\<rparr>)"
  using assms by (simp add: inv_defs)

lemma op_ok_db: "db_op_ok c oper \<Longrightarrow> op_ok oper"
  by (cases oper) auto

context redis_streams
begin

lemma db_run_inv:
  assumes inv: "db_inv R d" and ok: "db_op_ok c oper"
  shows "db_inv R (snd (db_run R now c oper d))"
proof -
  define k where "k = snd (run_script R now oper (view c d))"
  have put: "snd (db_run R now c oper d) = db_put c k d"
    by (simp add: db_run_def k_def case_prod_beta Let_def)
  have kinv: "ks_inv R k"
    using inv ok run_script_inv op_ok_db by (auto simp: db_inv_def k_def)
  show ?thesis
    unfolding db_inv_def put
  proof
    fix c'
    have reg: "events_registered c (view c d)" "events_registered c' (view c' d)" "ks_inv R (view c' d)"
      using inv by (auto simp: db_inv_def)
    have same: "(view c' d)\<lparr>k_identities := k_identities (view c d)\<rparr> = view c' d"
      by (simp add: view_def)
    note step = registered_step [OF ok reg(1), where c' = c' and ?k0.0 = "view c' d" and R = R and now = now, unfolded same, OF reg(2), folded k_def]
    show "ks_inv R (view c' (db_put c k d)) \<and> events_registered c' (view c' (db_put c k d))"
    proof (cases "c' = c")
      case True
      then show ?thesis using kinv step by (simp add: view_put)
    next
      case False
      have "ks_inv R ((view c' d)\<lparr>k_app := k_app k, k_identities := k_identities k\<rparr>)"
        by (rule ks_inv_other_app [OF reg(3) kinv])
      moreover have "events_registered c' ((view c' d)\<lparr>k_identities := k_identities k\<rparr>)"
        using step False by simp
      ultimately show ?thesis
        using False by (simp add: view_put) (simp add: view_def events_registered_def)
    qed
  qed
qed

lemma db_runs_inv: "db_runs R d d' \<Longrightarrow> db_inv R d \<Longrightarrow> db_inv R d'"
  by (induction rule: db_runs.induct) (simp_all add: db_run_inv)

lemma one_chat_per_event:
  assumes "db_inv R d" "hget (k_events (db_chat d c)) ev = Some e" "hget (k_events (db_chat d c')) ev = Some e'"
  shows "c = c'"
proof -
  have reg: "hget (db_identities d) ev = Some (identity_text x (er_fp r)) \<and> CHR ''|'' \<notin> set (er_fp r)"
    if "hget (k_events (db_chat d x)) ev = Some r" for x r
    using assms(1) that by (simp add: db_inv_def events_registered_def view_def)
  from reg [OF assms(2)] reg [OF assms(3)]
  have "identity_text c (er_fp e) = identity_text c' (er_fp e')" "CHR ''|'' \<notin> set (er_fp e)"
    "CHR ''|'' \<notin> set (er_fp e')"
    by simp_all
  then show ?thesis by (rule identity_text_inj(1))
qed

end

end
