(* ===== verification/Demo.thy ===== *)
theory Demo
  imports Database
begin

text \<open>
  Concrete runs of the script on the executable stream: a chat is initialised, the application
  fence acquired, an event admitted and claimed, its turn begun, its work completed. The
  witnesses of the properties evaluate them.
\<close>

fun run_ops :: "'st stream_ops \<Rightarrow> (nat \<times> script_op) list \<Rightarrow> 'st keyspace \<Rightarrow> 'st keyspace" where
  "run_ops R [] k = k"
| "run_ops R ((now, oper) # ops) k = run_ops R ops (snd (run_script R now oper k))"

lemma run_ops_script_run:
  "list_all (\<lambda>(now, oper). op_ok oper) ops \<Longrightarrow> script_run R k (run_ops R ops k)"
proof (induction ops arbitrary: k)
  case (Cons x xs)
  then show ?case
    by (cases x) (auto intro: script_run_trans [OF Cons.IH] script_run_one)
qed (simp add: script_run.none)

definition no_app :: app_hash where
  "no_app = \<lparr>app_owner = None, app_epoch = None, app_until = None, identityRevision = None\<rparr>"

definition no_state :: state_hash where
  "no_state = \<lparr>st_chat = None, st_cursor = None, st_revision = None, st_durability = None,
     st_session = None, st_pause = None, st_gap = None, st_turnEvent = None\<rparr>"

definition no_lease :: lease_hash where
  "no_lease = \<lparr>le_owner = None, le_epoch = None, le_until = None, le_appOwner = None,
     le_appEpoch = None, le_event = None, le_repairIntent = None\<rparr>"

text \<open>An empty Redis: no key exists, whatever the stream holds.\<close>

definition new_keys :: "'st \<Rightarrow> 'st keyspace" where
  "new_keys st = \<lparr>k_app = no_app, k_state = no_state, k_lease = no_lease, k_stream = st,
     k_events = [], k_seqs = [], k_tools = [], k_checkpoint = None, k_identities = []\<rparr>"

lemma new_keys_inv: "ks_inv R (new_keys st)"
  by (simp add: inv_defs new_keys_def no_app_def no_state_def no_lease_def)

definition new_database :: "(string \<Rightarrow> 'st) \<Rightarrow> 'st database" where
  "new_database st = \<lparr>db_app = no_app, db_identities = [], db_chat = (\<lambda>c. new_keys (st c))\<rparr>"

lemma new_database_inv: "db_inv R (new_database st)"
proof -
  have "view c (new_database st) = new_keys (st c)" for c
    by (simp add: view_def new_database_def new_keys_def)
  then show ?thesis
    by (simp add: db_inv_def new_keys_inv events_registered_def) (simp add: new_keys_def)
qed

section \<open>A run\<close>

definition demo_event :: notification where
  "demo_event = \<lparr>schema_version = 2, event_type = ''whatsapp.message.received'',
     event_id = ''00000000000000000000000000000001'', message_id = ''m'',
     event_timestamp = ''2026-01-01T00:00:00Z'', received_at = ''2026-01-01T00:00:00Z'',
     chat_sequence = 1, sender_jid = ''5@lid'', sender_alt_jid = None, is_from_me = False,
     chat_kind = ''group'', chat_jid = ''1@g.us'', canonical_chat_jid = ''1@g.us''\<rparr>"

definition demo_binding :: session_binding where
  "demo_binding = \<lparr>sb_chat = ''1@g.us'', sb_sessionId = ''s'', sb_sessionFile = ''f''\<rparr>"

definition demo_work :: work_args where
  "demo_work = \<lparr>wa_appOwner = ''A'', wa_appEpoch = ''1'', wa_chatOwner = ''W'', wa_chatEpoch = ''1'',
     wa_event = ''e1'', wa_streamId = (3, 0), wa_fp = ''f1''\<rparr>"

definition demo_accept :: script_op where
  "demo_accept = Op_accept ''0'' ''e1'' ''f1'' ''1'' demo_event False ''1@g.us'' ''0''"

definition demo_claim :: script_op where
  "demo_claim = Op_claim ''A'' ''1'' ''W'' 20 5"

definition demo_mutation :: "mutation_status \<Rightarrow> mutation_state" where
  "demo_mutation st = \<lparr>mu_attemptId = ''a1'', mu_eventId = ''e1'', mu_chat = ''1@g.us'',
     mu_toolCallId = ''t1'', mu_tool = Send_message, mu_destination = ''1@g.us'', mu_startedAt = ''x'',
     mu_ownership = \<lparr>own_app = \<lparr>f_owner = ''A'', f_epoch = ''1'', expiresAtMs = 62\<rparr>,
       own_chat = \<lparr>f_owner = ''W'', f_epoch = ''1'', expiresAtMs = 24\<rparr>\<rparr>, mu_status = st\<rparr>"

definition demo_admitted :: "list_stream keyspace" where
  "demo_admitted = run_ops list_streams
     [(1, Op_init ''1@g.us''), (2, Op_app_acquire ''A'' 60), (3, demo_accept)] (new_keys empty_stream)"

definition demo_claimed :: "list_stream keyspace" where
  "demo_claimed = run_ops list_streams [(4, demo_claim)] demo_admitted"

definition demo_bound :: "list_stream keyspace" where
  "demo_bound = run_ops list_streams [(5, Op_bind demo_work demo_binding)] demo_claimed"

definition demo_started :: "list_stream keyspace" where
  "demo_started = run_ops list_streams [(6, Op_begin_turn demo_work)] demo_bound"

definition demo_attempting :: "list_stream keyspace" where
  "demo_attempting = run_ops list_streams
     [(7, Op_native_journal_begin demo_work ''a1'' ''f1'' demo_binding (demo_mutation Attempting) demo_binding)]
     demo_started"

definition demo_confirmed :: "list_stream keyspace" where
  "demo_confirmed = run_ops list_streams [(8, Op_journal_transition demo_work ''a1'' (Some (''m1'', ''y'')))] demo_attempting"

definition demo_complete :: script_op where
  "demo_complete = Op_complete demo_work demo_binding [\<lparr>cs_destination = ''1@g.us'', cs_messageId = ''m1''\<rparr>]"

definition demo_done :: "list_stream keyspace" where
  "demo_done = run_ops list_streams [(9, demo_complete)] demo_confirmed"

lemma demo_done_values:
  "st_cursor (k_state demo_done) = Some ''1''" "k_events demo_done = []" "k_tools demo_done = []"
  "le_epoch (k_lease demo_done) = Some ''1''"
  by code_simp+

lemma demo_admitted_inv: "ks_inv list_streams demo_admitted"
  unfolding demo_admitted_def by (rule ls.run_inv [OF run_ops_script_run new_keys_inv]) code_simp

lemma demo_claim_reply: "run_script list_streams 4 (Op_claim ''A'' ''1'' ''W'' 20 5) demo_admitted =
    (R_claimed (3, 0) demo_event (Some ''1'') 24, demo_claimed)"
  by code_simp

lemma demo_claimed_inv: "ks_inv list_streams demo_claimed"
  unfolding demo_claimed_def by (rule ls.run_inv [OF run_ops_script_run demo_admitted_inv]) code_simp

lemma demo_bound_inv: "ks_inv list_streams demo_bound"
  unfolding demo_bound_def by (rule ls.run_inv [OF run_ops_script_run demo_claimed_inv]) code_simp

lemma demo_started_inv: "ks_inv list_streams demo_started"
  unfolding demo_started_def by (rule ls.run_inv [OF run_ops_script_run demo_bound_inv]) code_simp

lemma demo_attempting_inv: "ks_inv list_streams demo_attempting"
  unfolding demo_attempting_def by (rule ls.run_inv [OF run_ops_script_run demo_started_inv]) code_simp

lemma demo_confirmed_inv: "ks_inv list_streams demo_confirmed"
  unfolding demo_confirmed_def by (rule ls.run_inv [OF run_ops_script_run demo_attempting_inv]) code_simp

end
