(* ===== verification/Script_Spec.thy ===== *)
theory Script_Spec
  imports Demo
begin

text \<open>
  The properties of the Redis script and of the database it runs on: the invariant, fencing,
  ordering, exactly-once turns, crash safety of the mutation journal, the pause, admission,
  and the steps of the checkpoint record. Each is stated for any stream that satisfies the
  documented laws and for any sequence of runs, and is followed by an instance.
\<close>

section \<open>Invariant\<close>

text \<open>C13: from an empty Redis, after any sequence of script runs on any chats by any callers, every
chat's event rows and sequence index describe the same events, all after the cursor and all in the
stream, lease and turn marker name only the event next in sequence, and every queued event is
registered under its chat and fingerprint.\<close>

theorem database_invariant:
  assumes "stream_laws R" "db_runs R (new_database st) d"
  shows "db_inv R d"
  using redis_streams.db_runs_inv [OF redis_streams.intro [OF assms(1)] assms(2) new_database_inv] .

definition demo_database :: "list_stream database" where
  "demo_database = snd (db_run list_streams 3 ''1@g.us'' demo_accept (new_database (\<lambda>_. empty_stream)))"

theorem database_invariant_witness: "db_inv list_streams demo_database"
proof -
  have "db_op_ok ''1@g.us'' demo_accept" by code_simp
  then have "db_runs list_streams (new_database (\<lambda>_. empty_stream)) demo_database"
    unfolding demo_database_def by (intro db_runs.intros)
  from database_invariant [OF list_stream_laws this] show ?thesis .
qed

section \<open>Fencing\<close>

text \<open>C2: once a claim has granted a lease, a worker of any earlier lease of the chat is fenced out for
good: whatever runs happen afterwards, each of its operations replies \<open>lost\<close> and changes nothing.\<close>

theorem superseded_worker_lost:
  assumes "stream_laws R" "ks_inv R k"
    and "run_script R t (Op_claim ao ae ow ms gap) k = (R_claimed i raw ep u, k1)"
    and "script_run R k1 k2"
    and "dval (wa_chatEpoch w) \<le> cval (le_epoch (k_lease k))" "work_of oper = Some w"
  shows "run_script R now oper k2 = (R_lost, k2)"
proof -
  have R: "redis_streams R" by (rule redis_streams.intro [OF assms(1)])
  have claim: "op_claim R t ao ae ow ms gap k = (R_claimed i raw ep u, k1)" using assms(3) by simp
  have "ks_inv R k1"
    using redis_streams.inv_claim [OF R assms(2), of t ao ae ow ms gap] claim by simp
  then have "dval (wa_chatEpoch w) < cval (le_epoch (k_lease k2))"
    using redis_streams.claimed_epoch [OF R assms(2) claim] redis_streams.run_epochs [OF R assms(4)] assms(5)
    by (simp add: epochs_le_def)
  then show ?thesis
    using assms(6) by (intro fenced_op_lost lua_work_fence old_epoch_no_fence(1))
qed

definition demo_late :: work_args where
  "demo_late = demo_work\<lparr>wa_chatEpoch := ''0''\<rparr>"

theorem superseded_worker_lost_witness:
  "run_script list_streams 4 (Op_begin_turn demo_late) demo_claimed = (R_lost, demo_claimed)"
proof (rule superseded_worker_lost [where k = demo_admitted and t = 4 and ?k1.0 = demo_claimed and w = demo_late])
  show "stream_laws list_streams" by (rule list_stream_laws)
  show "ks_inv list_streams demo_admitted" by (rule demo_admitted_inv)
  show "run_script list_streams 4 (Op_claim ''A'' ''1'' ''W'' 20 5) demo_admitted =
      (R_claimed (3, 0) demo_event (Some ''1'') 24, demo_claimed)" by (rule demo_claim_reply)
  show "script_run list_streams demo_claimed demo_claimed" by (rule script_run.none)
  show "dval (wa_chatEpoch demo_late) \<le> cval (le_epoch (k_lease demo_admitted))" by code_simp
  show "work_of (Op_begin_turn demo_late) = Some demo_late" by simp
qed

text \<open>once a new application fence has been granted, every holder of an earlier one is fenced out for
good, on whatever chat: its claims, its renewals and every operation of its workers reply \<open>lost\<close>
and change nothing.\<close>

theorem superseded_app_lost:
  assumes "stream_laws R" "ks_inv R k"
    and "run_script R t (Op_app_acquire aow ms) k = (R_fence ep u, k1)" "script_run R k1 k2"
    and "dval ae \<le> cval (app_epoch (k_app k))"
  shows "run_script R now (Op_claim ao ae ow ms' gap) k2 = (R_lost, k2) \<and>
    run_script R now (Op_app_renew ao ae ms') k2 = (R_lost, k2) \<and>
    run_script R now (Op_recover_pel ao ae ow start n) k2 = (R_lost, k2) \<and>
    (wa_appEpoch w = ae \<and> work_of oper = Some w \<longrightarrow> run_script R now oper k2 = (R_lost, k2))"
proof -
  have R: "redis_streams R" by (rule redis_streams.intro [OF assms(1)])
  have grow: "cval (app_epoch (k_app k1)) = Suc (cval (app_epoch (k_app k)))"
    using assms(2,3) by (auto simp: op_app_acquire_def renew_app_def set_app_def Let_def ks_inv_def counters_ok_def split: if_splits)
  have "ks_inv R k1"
    using redis_streams.run_script_inv [OF R assms(2), of "Op_app_acquire aow ms" t] assms(3) by simp
  then have lt: "dval ae < cval (app_epoch (k_app k2))"
    using redis_streams.run_epochs [OF R assms(4)] grow assms(5) by (simp add: epochs_le_def)
  then have dead: "\<not> alive_app now ao ae (k_app k2)" by (auto simp: alive_app_def)
  moreover have "run_script R now oper k2 = (R_lost, k2)" if "wa_appEpoch w = ae" "work_of oper = Some w"
    using lt that(2) unfolding that(1) [symmetric]
    by (intro fenced_op_lost lua_work_fence old_epoch_no_fence(2)) simp_all
  ultimately show ?thesis by (simp add: op_claim_def op_app_renew_def op_recover_pel_def)
qed

theorem superseded_app_lost_witness:
  "run_script list_streams 71 (Op_claim ''A'' ''1'' ''W'' 20 5) (snd (run_script list_streams 70 (Op_app_acquire ''B'' 60) demo_claimed)) =
    (R_lost, snd (run_script list_streams 70 (Op_app_acquire ''B'' 60) demo_claimed))"
proof -
  have "run_script list_streams 70 (Op_app_acquire ''B'' 60) demo_claimed =
      (R_fence (Some ''2'') 130, snd (run_script list_streams 70 (Op_app_acquire ''B'' 60) demo_claimed))" by code_simp
  moreover have "dval ''1'' \<le> cval (app_epoch (k_app demo_claimed))" by code_simp
  ultimately show ?thesis
    using superseded_app_lost [OF list_stream_laws demo_claimed_inv _ script_run.none, of 70 "''B''" 60 "Some ''2''" 130 _ "''1''"] by blast
qed

text \<open>fencing tokens never go back: along any runs the chat epoch and the application epoch only
grow, and every claim, every repair claim and every acquisition of the application fence grows
its epoch by exactly one.\<close>

theorem epochs_grow:
  assumes "stream_laws R" "ks_inv R k" "script_run R k k1" "run_script R now oper k1 = (r, k2)"
  shows "epochs_le k k1 \<and> epochs_le k1 k2 \<and>
    (case r of
       R_claimed i raw ep u \<Rightarrow> cval (le_epoch (k_lease k2)) = Suc (cval (le_epoch (k_lease k1)))
     | R_repair i raw b c ep u \<Rightarrow> cval (le_epoch (k_lease k2)) = Suc (cval (le_epoch (k_lease k1)))
     | R_fence ep u \<Rightarrow> (\<forall>ow ms. oper = Op_app_acquire ow ms \<longrightarrow>
         ep = app_epoch (k_app k2) \<and> cval (app_epoch (k_app k2)) = Suc (cval (app_epoch (k_app k1))))
     | _ \<Rightarrow> True)"
proof -
  have R: "redis_streams R" by (rule redis_streams.intro [OF assms(1)])
  have inv: "ks_inv R k1" by (rule redis_streams.run_inv [OF R assms(3,2)])
  have "epochs_le k k1" by (rule redis_streams.run_epochs [OF R assms(3,2)])
  moreover have "epochs_le k1 k2"
    using run_script_epochs [OF inv, of now oper] assms(4) by simp
  moreover have "cval (le_epoch (k_lease k2)) = Suc (cval (le_epoch (k_lease k1)))" if "r = R_claimed i raw ep u" for i raw ep u
    using redis_streams.claimed_reply_epoch [OF R inv] assms(4) that by blast
  moreover have "cval (le_epoch (k_lease k2)) = Suc (cval (le_epoch (k_lease k1)))" if "r = R_repair i raw b c ep u" for i raw b c ep u
    using redis_streams.repair_claimed_epoch [OF R inv] assms(4) that by blast
  moreover have "ep = app_epoch (k_app k2) \<and> cval (app_epoch (k_app k2)) = Suc (cval (app_epoch (k_app k1)))"
    if "r = R_fence ep u" "oper = Op_app_acquire ow ms" for ep u ow ms
    using inv assms(4) that
    by (auto simp: op_app_acquire_def renew_app_def set_app_def Let_def ks_inv_def counters_ok_def split: if_splits)
  ultimately show ?thesis by (cases r) auto
qed

theorem epochs_grow_witness: "cval (le_epoch (k_lease demo_claimed)) = Suc (cval (le_epoch (k_lease demo_admitted)))"
  using epochs_grow [OF list_stream_laws demo_admitted_inv script_run.none demo_claim_reply] by simp

text \<open>while a worker still passes its work check, nobody can take the chat: a claim or a repair
claim by any caller is refused and changes nothing, and any other worker that passes the check
works on the same event under the same lease.\<close>

theorem lease_exclusive:
  assumes "lua_work now w k = Some e"
  shows "run_script R now (Op_claim ao ae ow ms gap) k \<in> {(R_lost, k), (R_paused, k), (R_waiting, k)} \<and>
    run_script R now (Op_repair_claim ao ae ow ms c i) k \<in> {(R_lost, k), (R_busy, k)} \<and>
    run_script R now (Op_repair_intent ao ae ow ms c) k \<in> {(R_lost, k), (R_busy, k)} \<and>
    (lua_work now w' k \<noteq> None \<longrightarrow> w' = w)"
proof -
  have f: "lua_fence now w k" using lua_work_SomeD(1) [OF assms] .
  have busy: "lease_busy now ao ae k" if "alive_app now ao ae (k_app k)"
    using f that by (simp add: lua_fence_def alive_app_def alive_lease_def lease_busy_def)
  have "run_script R now (Op_claim ao ae ow ms gap) k \<in> {(R_lost, k), (R_paused, k), (R_waiting, k)}"
    using busy by (simp add: op_claim_eq)
  moreover have "run_script R now (Op_repair_claim ao ae ow ms c i) k \<in> {(R_lost, k), (R_busy, k)}"
    using busy by (simp add: op_repair_claim_def)
  moreover have "run_script R now (Op_repair_intent ao ae ow ms c) k \<in> {(R_lost, k), (R_busy, k)}"
    using busy by (simp add: op_repair_intent_def)
  moreover have "w' = w" if "lua_work now w' k = Some e'" for e'
    using f lua_work_SomeD [OF assms] lua_work_SomeD [OF that]
    by (intro work_args.equality) (auto simp: lua_fence_def alive_app_def alive_lease_def)
  ultimately show ?thesis by blast
qed

theorem lease_exclusive_witness:
  "run_script list_streams 5 (Op_claim ''A'' ''1'' ''X'' 20 5) demo_claimed \<in>
    {(R_lost, demo_claimed), (R_paused, demo_claimed), (R_waiting, demo_claimed)}"
proof -
  have "lua_work 5 demo_work demo_claimed =
      Some \<lparr>er_id = (3, 0), er_fp = ''f1'', er_seq = ''1'', er_raw = demo_event\<rparr>"
    by code_simp
  from lease_exclusive [OF this] show ?thesis by blast
qed

section \<open>Order\<close>

text \<open>C12: a claim grants exactly the event one after the cursor, with the row admitted for it, only while
no pause is set and no journal row is unresolved, and afterwards the lease carries the returned
epoch and names that event, so the granted worker passes its own work check.\<close>

theorem claim_grants_next:
  assumes "stream_laws R" "ks_inv R k"
    and "run_script R now (Op_claim ao ae ow ms gap) k = (R_claimed i raw ep u, k')"
  shows "\<exists>ev e. hget (k_events k) ev = Some e \<and> dval (er_seq e) = Suc (cval (st_cursor (k_state k))) \<and>
      i = er_id e \<and> raw = er_raw e \<and> u = now + ms \<and> st_pause (k_state k) = None \<and>
      list_all (\<lambda>r. is_confirmed (mu_status (row_state r))) (hvals (k_tools k)) \<and>
      (now < u \<longrightarrow> lua_work now \<lparr>wa_appOwner = ao, wa_appEpoch = ae, wa_chatOwner = ow, wa_chatEpoch = the ep,
        wa_event = ev, wa_streamId = i, wa_fp = er_fp e\<rparr> k' = Some e)"
  using claimed_row [OF assms] .

theorem claim_grants_next_witness:
  "\<exists>ev e. hget (k_events demo_admitted) ev = Some e \<and> dval (er_seq e) = Suc (cval (st_cursor (k_state demo_admitted))) \<and>
    (3, 0) = er_id e"
proof -
  from claim_grants_next [OF list_stream_laws demo_admitted_inv demo_claim_reply] show ?thesis by blast
qed

text \<open>a claim is not refused without a cause: with a live application fence, no pause, no live lease,
every journal row confirmed, an event one after the cursor and an epoch of at most 32 digits, it
grants that event.\<close>

theorem claim_makes_progress:
  assumes "stream_laws R" "ks_inv R k" "alive_app now ao ae (k_app k)" "st_pause (k_state k) = None"
    and "\<not> lease_busy now ao ae k"
    and "list_all (\<lambda>r. is_confirmed (mu_status (row_state r))) (hvals (k_tools k))"
    and "hget (k_events k) ev = Some e" "dval (er_seq e) = Suc (cval (st_cursor (k_state k)))"
    and "length (inc (or0 (le_epoch (k_lease k)))) \<le> 32"
  shows "fst (run_script R now (Op_claim ao ae ow ms gap) k) =
    R_claimed (er_id e) (er_raw e) (Some (inc (or0 (le_epoch (k_lease k))))) (now + ms)"
proof -
  have R: "redis_streams R" by (rule redis_streams.intro [OF assms(1)])
  have canon: "canonical (er_seq e)" "canonical (next_seq k)" "hget (k_seqs k) (er_seq e) = Some ev"
    using assms(2,7) by (auto simp: ks_inv_def rows_ok_def counters_ok_def next_seq_def canonical_inc)
  have "dval (next_seq k) = dval (er_seq e)"
    using assms(2,8) by (simp add: next_seq_def ks_inv_def counters_ok_def)
  then have "head_event k = Some ev"
    using canonical_eqI [OF canon(1,2)] canon(3) by (simp add: head_event_def)
  moreover have "\<not> unresolved k"
    using assms(6) by (auto simp: unresolved_iff list_all_iff list_ex_iff)
  ultimately show ?thesis
    using redis_streams.claim_succeeds [OF R assms(2-5) _ _ assms(9) assms(7)] by simp
qed

theorem claim_makes_progress_witness:
  "fst (run_script list_streams 4 (Op_claim ''A'' ''1'' ''W'' 20 5) demo_admitted) =
    R_claimed (3, 0) demo_event (Some ''1'') 24"
proof -
  have "ks_inv list_streams demo_admitted" by (rule demo_admitted_inv)
  moreover have "alive_app 4 ''A'' ''1'' (k_app demo_admitted)" by code_simp
  moreover have "st_pause (k_state demo_admitted) = None" by code_simp
  moreover have "\<not> lease_busy 4 ''A'' ''1'' demo_admitted" by code_simp
  moreover have "list_all (\<lambda>r. is_confirmed (mu_status (row_state r))) (hvals (k_tools demo_admitted))" by code_simp
  moreover have "hget (k_events demo_admitted) ''e1'' =
      Some \<lparr>er_id = (3, 0), er_fp = ''f1'', er_seq = ''1'', er_raw = demo_event\<rparr>" by code_simp
  moreover have "dval ''1'' = Suc (cval (st_cursor (k_state demo_admitted)))" by code_simp
  moreover have "inc (or0 (le_epoch (k_lease demo_admitted))) = ''1''" by code_simp
  ultimately show ?thesis
    using claim_makes_progress [OF list_stream_laws, of demo_admitted 4 "''A''" "''1''" "''e1''"
        "\<lparr>er_id = (3, 0), er_fp = ''f1'', er_seq = ''1'', er_raw = demo_event\<rparr>" "''W''" 20 5]
    by simp
qed

text \<open>a missing sequence is never skipped: when no event one after the cursor is queued, a claim grants
nothing; with later events queued it waits, recording since when, and pauses the chat as
\<open>sequence_gap\<close> exactly when the gap has lasted the timeout.\<close>

theorem gap_waits_then_pauses:
  assumes "alive_app now ao ae (k_app k)" "st_pause (k_state k) = None" "\<not> lease_busy now ao ae k"
    and "list_all (\<lambda>r. is_confirmed (mu_status (row_state r))) (hvals (k_tools k))" "head_event k = None"
    and "run_script R now (Op_claim ao ae ow ms gap) k = (reply, k')"
  shows "k_lease k' = k_lease k \<and> k_events k' = k_events k \<and>
    (if k_events k = [] then reply = R_empty \<and> st_gap (k_state k') = None \<and> st_pause (k_state k') = None
     else let since = (case st_gap (k_state k) of Some g \<Rightarrow> g | None \<Rightarrow> now) in
       st_gap (k_state k') = Some since \<and>
       (if since + gap \<le> now then reply = R_paused \<and> st_pause (k_state k') = Some P_sequence_gap
        else reply = R_waiting \<and> st_pause (k_state k') = None))"
proof -
  have "\<not> unresolved k"
    using assms(4) by (auto simp: unresolved_iff list_all_iff list_ex_iff)
  then have "(reply, k') = claim_gap now gap (swept k)"
    using assms by (simp add: op_claim_eq)
  then show ?thesis
    using assms(2) by (auto simp: claim_gap_def Let_def key_update_defs view_simps)
qed

definition demo_gap :: "list_stream keyspace" where
  "demo_gap = run_ops list_streams [(1, Op_init ''1@g.us''), (2, Op_app_acquire ''A'' 60),
     (3, Op_accept ''0'' ''e2'' ''f2'' ''2'' demo_event False ''1@g.us'' ''0''), (4, demo_claim)] (new_keys empty_stream)"

theorem gap_waits_then_pauses_witness:
  "st_pause (k_state (snd (run_script list_streams 9 (Op_claim ''A'' ''1'' ''W'' 20 5) demo_gap))) = Some P_sequence_gap"
proof -
  have "alive_app 9 ''A'' ''1'' (k_app demo_gap)" by code_simp
  moreover have "st_pause (k_state demo_gap) = None" by code_simp
  moreover have "\<not> lease_busy 9 ''A'' ''1'' demo_gap" by code_simp
  moreover have "list_all (\<lambda>r. is_confirmed (mu_status (row_state r))) (hvals (k_tools demo_gap))" by code_simp
  moreover have "head_event demo_gap = None" by code_simp
  moreover have "k_events demo_gap \<noteq> []" "st_gap (k_state demo_gap) = Some 4" by code_simp+
  moreover obtain reply k' where "run_script list_streams 9 (Op_claim ''A'' ''1'' ''W'' 20 5) demo_gap = (reply, k')"
    by (cases "run_script list_streams 9 (Op_claim ''A'' ''1'' ''W'' 20 5) demo_gap")
  ultimately show ?thesis
    using gap_waits_then_pauses [of 9 "''A''" "''1''" demo_gap list_streams "''W''" 20 5 reply k'] by simp
qed

text \<open>a completion that replies \<open>ok\<close> was made by the lease holder for the event one after the cursor
under the bound session, with every journal row confirmed for that event and listed among the
sends; it moves the cursor by exactly one, removes that event and no other, empties the journal
and frees the lease and the turn. Any other completion changes nothing.\<close>

theorem complete_advances:
  assumes "stream_laws R" "ks_inv R k"
  shows "run_script R now (Op_complete w b sends) k = (R_lost, k) \<or>
    (\<exists>k' e. run_script R now (Op_complete w b sends) k = (R_ok, k') \<and> lua_work now w k = Some e \<and>
      st_session (k_state k) = Some b \<and> list_all (row_completed w sends) (hvals (k_tools k)) \<and>
      cval (st_cursor (k_state k')) = Suc (cval (st_cursor (k_state k))) \<and> dval (er_seq e) = cval (st_cursor (k_state k')) \<and>
      (\<forall>ev. hget (k_events k') ev = (if ev = wa_event w then None else hget (k_events k) ev)) \<and>
      stream_entry R (k_stream k') (er_id e) = None \<and> k_tools k' = [] \<and>
      le_event (k_lease k') = None \<and> le_owner (k_lease k') = None \<and> st_turnEvent (k_state k') = None)"
proof -
  have R: "redis_streams R" by (rule redis_streams.intro [OF assms(1)])
  have "dval (next_seq k) = Suc (cval (st_cursor (k_state k)))"
    using assms(2) by (simp add: next_seq_def ks_inv_def counters_ok_def)
  then show ?thesis
    using complete_cases [of now w k b sends R]
    by (auto simp: completed_keys_def view_simps redis_streams.xdel_entry [OF R])
qed

theorem complete_advances_witness:
  "\<exists>k'. run_script list_streams 9 demo_complete demo_confirmed = (R_ok, k') \<and>
      cval (st_cursor (k_state k')) = Suc (cval (st_cursor (k_state demo_confirmed))) \<and> k_tools k' = []"
proof -
  have "fst (run_script list_streams 9 demo_complete demo_confirmed) = R_ok" by code_simp
  then have "run_script list_streams 9 demo_complete demo_confirmed \<noteq> (R_lost, demo_confirmed)" by auto
  with complete_advances [OF list_stream_laws demo_confirmed_inv, of 9 demo_work demo_binding
      "[\<lparr>cs_destination = ''1@g.us'', cs_messageId = ''m1''\<rparr>]"]
  show ?thesis unfolding demo_complete_def by blast
qed

text \<open>the cursor never goes back and moves by single steps: every run either keeps it or is the
completion of the event one after it.\<close>

theorem cursor_steps:
  assumes "stream_laws R" "ks_inv R k" "script_run R k k1" "run_script R now oper k1 = (r, k2)"
  shows "cval (st_cursor (k_state k)) \<le> cval (st_cursor (k_state k1)) \<and>
    (cval (st_cursor (k_state k2)) = cval (st_cursor (k_state k1)) \<or>
     cval (st_cursor (k_state k2)) = Suc (cval (st_cursor (k_state k1))) \<and> r = R_ok \<and>
       (\<exists>w b sends. oper = Op_complete w b sends \<and> head_event k1 = Some (wa_event w)))"
proof -
  have R: "redis_streams R" by (rule redis_streams.intro [OF assms(1)])
  have inv: "ks_inv R k1" by (rule redis_streams.run_inv [OF R assms(3,2)])
  have le: "cval (st_cursor (k_state k)) \<le> cval (st_cursor (k_state k1))"
    by (rule redis_streams.run_cursor [OF R assms(3,2)])
  show ?thesis
  proof (cases "is_complete oper")
    case True
    then obtain w b sends where o: "oper = Op_complete w b sends" by (cases oper) auto
    from complete_cases [of now w k1 b sends R] ks_inv_workD(1) [OF inv, of now w] inv assms(4) le show ?thesis
      by (auto simp: o completed_keys_def view_simps next_seq_def ks_inv_def counters_ok_def)
  next
    case False
    from run_script_turn [OF this, of k1 R now] assms(4) le show ?thesis by (simp add: turn_kept_def)
  qed
qed

theorem cursor_steps_witness:
  "cval (st_cursor (k_state demo_admitted)) \<le> cval (st_cursor (k_state demo_admitted)) \<and>
   (cval (st_cursor (k_state demo_claimed)) = cval (st_cursor (k_state demo_admitted)) \<or>
    cval (st_cursor (k_state demo_claimed)) = Suc (cval (st_cursor (k_state demo_admitted))))"
  using cursor_steps [OF list_stream_laws demo_admitted_inv script_run.none demo_claim_reply] by blast

section \<open>Exactly one turn per event\<close>

text \<open>C3: a turn begins at most once per event: after a \<open>begin-turn\<close> that replied \<open>ok\<close>, no later
\<open>begin-turn\<close> of the chat, by any worker after any crashes and re-claims, replies \<open>ok\<close> before the
cursor has moved past that event.\<close>

theorem turn_begins_once:
  assumes "stream_laws R" "ks_inv R k"
    and "run_script R t (Op_begin_turn w) k = (R_ok, k1)" "script_run R k1 k2"
    and "fst (run_script R now (Op_begin_turn w') k2) = R_ok"
  shows "cval (st_cursor (k_state k)) < cval (st_cursor (k_state k2))"
proof -
  have R: "redis_streams R" by (rule redis_streams.intro [OF assms(1)])
  have k1: "st_turnEvent (k_state k1) \<noteq> None" "cval (st_cursor (k_state k1)) = cval (st_cursor (k_state k))"
    using assms(3) by (auto simp: op_begin_turn_def set_turn_def view_simps split: option.splits if_splits)
  have inv: "ks_inv R k1"
    using redis_streams.run_script_inv [OF R assms(2), of "Op_begin_turn w" t] assms(3) by simp
  have k2: "st_turnEvent (k_state k2) = None"
    using assms(5) by (auto simp: op_begin_turn_def split: option.splits if_splits)
  have "cval (st_cursor (k_state k1)) \<le> cval (st_cursor (k_state k2))"
    by (rule redis_streams.run_cursor [OF R assms(4) inv])
  moreover have "cval (st_cursor (k_state k2)) \<noteq> cval (st_cursor (k_state k1))"
    using redis_streams.run_turn [OF R assms(4) inv] k1 k2 by (auto simp: turn_kept_def)
  ultimately show ?thesis using k1 by linarith
qed

definition demo_later_ops :: "(nat \<times> script_op) list" where
  "demo_later_ops = [(7, Op_native_journal_begin demo_work ''a1'' ''f1'' demo_binding (demo_mutation Attempting) demo_binding),
     (8, Op_journal_transition demo_work ''a1'' (Some (''m1'', ''y''))), (9, demo_complete),
     (10, Op_accept ''1'' ''e2'' ''f2'' ''2'' demo_event False ''1@g.us'' ''1''),
     (11, Op_claim ''A'' ''1'' ''W'' 20 5)]"

definition demo_work2 :: work_args where
  "demo_work2 = demo_work\<lparr>wa_chatEpoch := ''2'', wa_event := ''e2'', wa_streamId := (10, 0), wa_fp := ''f2''\<rparr>"

theorem turn_begins_once_witness:
  "cval (st_cursor (k_state demo_bound)) < cval (st_cursor (k_state (run_ops list_streams demo_later_ops demo_started)))"
proof (rule turn_begins_once [OF list_stream_laws demo_bound_inv])
  show "run_script list_streams 6 (Op_begin_turn demo_work) demo_bound = (R_ok, demo_started)" by code_simp
  show "script_run list_streams demo_started (run_ops list_streams demo_later_ops demo_started)"
    by (rule run_ops_script_run) code_simp
  show "fst (run_script list_streams 12 (Op_begin_turn demo_work2) (run_ops list_streams demo_later_ops demo_started)) = R_ok"
    by code_simp
qed

section \<open>The pause\<close>

text \<open>a pause stays: after any runs other than a checkpoint abort a paused chat is still paused, and
no claim by anyone is granted on it.\<close>

theorem pause_is_sticky:
  assumes "st_pause (k_state k) \<noteq> None" "list_all (\<lambda>(now, oper). \<not> is_abort oper) ops"
  shows "st_pause (k_state (run_ops R ops k)) \<noteq> None \<and>
    run_script R now (Op_claim ao ae ow ms gap) (run_ops R ops k) \<in>
      {(R_lost, run_ops R ops k), (R_paused, run_ops R ops k)}"
proof -
  have kept: "st_pause (k_state (run_ops R ops k)) \<noteq> None"
    using assms
  proof (induction ops arbitrary: k)
    case (Cons x xs)
    obtain t oper where x: "x = (t, oper)" by (cases x)
    have "st_pause (k_state (snd (run_script R t oper k))) \<noteq> None"
      using run_script_pause [of oper k R t] Cons.prems x by (simp add: pause_kept_def)
    then show ?case using Cons.IH Cons.prems(2) x by simp
  qed simp
  then show ?thesis by (auto simp: op_claim_eq)
qed

definition demo_paused :: "list_stream keyspace" where
  "demo_paused = run_ops list_streams [(7, Op_journal_transition demo_work ''a1'' None)] demo_attempting"

theorem pause_is_sticky_witness:
  "st_pause (k_state (run_ops list_streams [(8, demo_complete), (30, demo_claim)] demo_paused)) \<noteq> None"
proof -
  have "st_pause (k_state demo_paused) \<noteq> None" by code_simp
  moreover have "list_all (\<lambda>(now, oper). \<not> is_abort oper) [(8, demo_complete), (30, demo_claim)]" by code_simp
  ultimately show ?thesis using pause_is_sticky by blast
qed

section \<open>Crash safety of the mutation journal\<close>

text \<open>C19: a claim on a chat whose journal holds an attempt without a confirmed outcome (left by a crashed
worker) never grants work: with the application fence alive, no pause and no live lease it replies
\<open>paused\<close>, pauses the chat as \<open>mutation_uncertain\<close>, marks every unconfirmed native row uncertain and
leaves every confirmed row and the lease as they were.\<close>

theorem crashed_mutation_pauses:
  assumes "ks_inv R k" "alive_app now ao ae (k_app k)" "st_pause (k_state k) = None" "\<not> lease_busy now ao ae k"
    and "hget (k_tools k) a = Some r" "\<not> is_confirmed (mu_status (row_state r))"
    and "run_script R now (Op_claim ao ae ow ms gap) k = (reply, k')"
  shows "reply = R_paused \<and> st_pause (k_state k') = Some P_mutation_uncertain \<and> k_lease k' = k_lease k \<and>
    (\<forall>x. hget (k_tools k') x = map_option swept_row (hget (k_tools k) x))"
proof -
  have "r \<in> set (hvals (k_tools k))"
    using assms(1,5) by (auto simp: ks_inv_def tools_ok_def hvals_hget)
  then have "unresolved k"
    using assms(6) by (auto simp: unresolved_iff list_ex_iff)
  then have "(reply, k') = (R_paused, barrier (set_pause (Some P_mutation_uncertain) (swept k)))"
    using assms(2-4,7) by (simp add: op_claim_eq)
  moreover have "tools_ok k" using assms(1) by (simp add: ks_inv_def)
  ultimately show ?thesis by (simp add: view_simps set_pause_def swept_tools)
qed

theorem crashed_mutation_pauses_witness:
  "fst (run_script list_streams 40 (Op_claim ''A'' ''1'' ''W'' 20 5) demo_attempting) = R_paused"
proof -
  have "alive_app 40 ''A'' ''1'' (k_app demo_attempting)" by code_simp
  moreover have "st_pause (k_state demo_attempting) = None" by code_simp
  moreover have "\<not> lease_busy 40 ''A'' ''1'' demo_attempting" by code_simp
  moreover have "hget (k_tools demo_attempting) ''a1'' = Some (Envelope ''f1'' demo_binding (demo_mutation Attempting))"
    by code_simp
  moreover have "\<not> is_confirmed (mu_status (row_state (Envelope ''f1'' demo_binding (demo_mutation Attempting))))"
    by code_simp
  ultimately show ?thesis
    using crashed_mutation_pauses [OF demo_attempting_inv] by (metis surjective_pairing)
qed

text \<open>a journal row moves only from attempting to confirmed or uncertain: a transition that replies
\<open>ok\<close> found the worker's own attempting row and changed only that row's status, an uncertain outcome
also pauses the chat, and any other transition changes nothing.\<close>

theorem journal_transition_spec:
  "run_script R now (Op_journal_transition w a outcome) k = (R_lost, k) \<or>
   (\<exists>r k'. run_script R now (Op_journal_transition w a outcome) k = (R_ok, k') \<and> lua_work now w k \<noteq> None \<and>
      hget (k_tools k) a = Some r \<and> mu_status (row_state r) = Attempting \<and> mu_eventId (row_state r) = wa_event w \<and>
      (\<forall>x. hget (k_tools k') x = (if x = a
         then Some (row_with r (case outcome of Some (mid, t) \<Rightarrow> Confirmed mid t | None \<Rightarrow> Uncertain))
         else hget (k_tools k) x)) \<and>
      st_pause (k_state k') = (if outcome = None then Some P_mutation_uncertain else st_pause (k_state k)) \<and>
      k_lease k' = k_lease k \<and> k_events k' = k_events k \<and> st_turnEvent (k_state k') = st_turnEvent (k_state k))"
  by (auto simp: op_journal_transition_def Let_def set_tools_def set_pause_def view_simps split: option.split)

text \<open>a native attempt is journalled only inside the begun turn of the claimed event, under the bound
session, at most once per attempt ID and per tool call; what is stored is that attempt, and
nothing else of the chat changes.\<close>

theorem native_begin_spec:
  "run_script R now (Op_native_journal_begin w a rfp rb t b) k = (R_lost, k) \<or>
   (\<exists>k'. run_script R now (Op_native_journal_begin w a rfp rb t b) k = (R_ok, k') \<and> lua_work now w k \<noteq> None \<and>
      st_turnEvent (k_state k) = Some (wa_event w) \<and> st_session (k_state k) = Some b \<and>
      mu_status t = Attempting \<and> mu_eventId t = wa_event w \<and> mu_attemptId t = a \<and> hget (k_tools k) a = None \<and>
      (\<forall>r \<in> set (hvals (k_tools k)). mu_eventId (row_state r) = wa_event w \<longrightarrow>
         mu_toolCallId (row_state r) \<noteq> mu_toolCallId t) \<and>
      (\<forall>x. hget (k_tools k') x = (if x = a then Some (Envelope rfp rb t) else hget (k_tools k) x)) \<and>
      k_lease k' = k_lease k \<and> k_events k' = k_events k \<and> k_app k' = k_app k)"
  by (auto simp: op_native_journal_begin_def set_tools_def view_simps list_ex_iff split: option.split)

theorem native_begin_spec_witness:
  "\<exists>k'. run_script list_streams 7 (Op_native_journal_begin demo_work ''a1'' ''f1'' demo_binding (demo_mutation Attempting) demo_binding)
     demo_started = (R_ok, k') \<and> hget (k_tools k') ''a1'' = Some (Envelope ''f1'' demo_binding (demo_mutation Attempting))"
proof -
  have "fst (run_script list_streams 7 (Op_native_journal_begin demo_work ''a1'' ''f1'' demo_binding (demo_mutation Attempting) demo_binding)
     demo_started) = R_ok" by code_simp
  then have "run_script list_streams 7 (Op_native_journal_begin demo_work ''a1'' ''f1'' demo_binding (demo_mutation Attempting) demo_binding)
     demo_started \<noteq> (R_lost, demo_started)" by auto
  with native_begin_spec [of list_streams 7 demo_work "''a1''" "''f1''" demo_binding "demo_mutation Attempting" demo_binding demo_started]
  show ?thesis by auto
qed

section \<open>Admission\<close>

text \<open>admission is exact: an event is accepted only under the caller's snapshot, with a sequence after
the cursor that no other queued event has and an ID that is not queued and not active elsewhere,
and then it is queued under its ID and sequence; admitting it again is a duplicate, the same ID
with another fingerprint or sequence, or the same sequence with another ID, is a conflict.\<close>

theorem accept_exact:
  assumes "stream_laws R" "ks_inv R k" "canonical sq"
    and "run_script R now (Op_accept rv eid fp sq raw done c idrev) k = (R_accepted, k')"
  shows "cval (st_cursor (k_state k)) < dval sq \<and> hget (k_events k) eid = None \<and> hget (k_seqs k) sq = None \<and>
    hget (k_identities k) eid \<in> {None, Some (identity_text c fp)} \<and> \<not> done \<and>
    (\<exists>e. hget (k_events k') eid = Some e \<and> er_fp e = fp \<and> er_seq e = sq \<and> er_raw e = raw \<and>
       stream_entry R (k_stream k') (er_id e) = Some eid) \<and>
    (\<forall>ev. ev \<noteq> eid \<longrightarrow> hget (k_events k') ev = hget (k_events k) ev) \<and>
    (\<forall>t raw' d. fst (run_script R t (Op_accept rv eid fp sq raw' d c idrev) k') = R_duplicate) \<and>
    (\<forall>t fp' sq' raw' d c'. fp' \<noteq> fp \<or> sq' \<noteq> sq \<longrightarrow>
       run_script R t (Op_accept rv eid fp' sq' raw' d c' idrev) k' = (R_conflict, k')) \<and>
    (\<forall>t ev fp' raw' d c'. ev \<noteq> eid \<longrightarrow>
       run_script R t (Op_accept rv ev fp' sq raw' d c' idrev) k' = (R_conflict, k'))"
proof -
  have R: "redis_streams R" by (rule redis_streams.intro [OF assms(1)])
  have acc: "or0 (st_revision (k_state k)) = rv" "or0 (identityRevision (k_app k)) = idrev"
    "hget (k_events k) eid = None" "hget (k_seqs k) sq = None \<or> hget (k_seqs k) sq = Some eid"
    "hget (k_identities k) eid = None \<or> hget (k_identities k) eid = Some (identity_text c fp)"
    "less_dec (or0 (st_cursor (k_state k))) sq" "\<not> done"
    "k' = barrier (admitted_keys R now eid fp sq raw (identity_text c fp) k)"
    using assms(4) by (auto simp: op_accept_def Let_def split: if_splits option.splits)
  have free: "hget (k_seqs k) sq = None"
    using acc(3,4) assms(2) unfolding ks_inv_def seqs_ok_def by (metis option.distinct(1))
  have inv': "ks_inv R k'"
    using redis_streams.run_script_inv [OF R assms(2), of "Op_accept rv eid fp sq raw done c idrev" now] assms(3,4) by simp
  have lt: "cval (st_cursor (k_state k)) < dval sq"
    using acc(6) assms(2,3) by (simp add: less_dec_iff ks_inv_def counters_ok_def cval_def)
  have k': "hget (k_events k') eid = Some \<lparr>er_id = fst (xadd R now eid (k_stream k)), er_fp = fp, er_seq = sq, er_raw = raw\<rparr>"
    "hget (k_seqs k') sq = Some eid" "hget (k_identities k') eid = Some (identity_text c fp)"
    "or0 (st_revision (k_state k')) = rv" "or0 (identityRevision (k_app k')) = idrev"
    "\<And>ev. ev \<noteq> eid \<Longrightarrow> hget (k_events k') ev = hget (k_events k) ev"
    using acc by (simp_all add: admitted_keys_def view_simps Let_def)
  have row: "stream_entry R (k_stream k') (fst (xadd R now eid (k_stream k))) = Some eid"
    using redis_streams.xadd_entry(2) [OF R] by (simp add: acc(8) admitted_keys_def view_simps Let_def)
  have dup: "fst (run_script R t (Op_accept rv eid fp sq raw' d c idrev) k') = R_duplicate" for t raw' d
    using k' by (simp add: op_accept_def Let_def)
  have conf: "run_script R t (Op_accept rv eid fp' sq' raw' d c' idrev) k' = (R_conflict, k')"
    if "fp' \<noteq> fp \<or> sq' \<noteq> sq" for t fp' sq' raw' d c'
    using k' that by (auto simp: op_accept_def Let_def)
  have "run_script R t (Op_accept rv ev fp' sq raw' d c' idrev) k' = (R_conflict, k')" if "ev \<noteq> eid" for t ev fp' raw' d c'
  proof (cases "hget (k_events k') ev")
    case (Some e)
    have "er_seq e \<noteq> sq"
      using inv' Some k'(2) that by (auto simp: ks_inv_def rows_ok_def)
    then show ?thesis using Some k' by (simp add: op_accept_def Let_def)
  next
    case None
    then show ?thesis using k' that by (simp add: op_accept_def Let_def)
  qed
  with lt acc free k' row dup conf show ?thesis by auto
qed

theorem accept_exact_witness:
  "\<exists>k'. fst (run_script list_streams 5 (Op_accept ''0'' ''e1'' ''f1'' ''1'' demo_event False ''1@g.us'' ''0'') k') = R_duplicate \<and>
    run_script list_streams 5 (Op_accept ''0'' ''e1'' ''f2'' ''1'' demo_event False ''1@g.us'' ''0'') k' = (R_conflict, k')"
proof -
  define k where "k = run_ops list_streams [(1, Op_init ''1@g.us''), (2, Op_app_acquire ''A'' 60)] (new_keys empty_stream)"
  have inv: "ks_inv list_streams k"
    unfolding k_def by (rule ls.run_inv [OF run_ops_script_run new_keys_inv]) code_simp
  have "fst (run_script list_streams 3 demo_accept k) = R_accepted" unfolding k_def by code_simp
  then obtain k' where acc: "run_script list_streams 3 demo_accept k = (R_accepted, k')"
    by (metis prod.collapse)
  have "canonical ''1''" by code_simp
  note exact = accept_exact [OF list_stream_laws inv this acc [unfolded demo_accept_def]]
  note rest = exact [THEN conjunct2, THEN conjunct2, THEN conjunct2, THEN conjunct2, THEN conjunct2, THEN conjunct2, THEN conjunct2]
  have "run_script list_streams 5 (Op_accept ''0'' ''e1'' ''f2'' ''1'' demo_event False ''1@g.us'' ''0'') k' = (R_conflict, k')"
    using rest [THEN conjunct2, THEN conjunct1, rule_format, of "''f2''" "''1''"] by simp
  with rest [THEN conjunct1] show ?thesis by (intro exI [of _ k']) simp
qed

text \<open>C14: across all chats, an event is queued at most once: in every database reachable from an empty
Redis, an event ID that is queued in two chats is queued in one, and admitting a queued event's ID
into another chat is a conflict or, when the caller's snapshot is old, a retry.\<close>

theorem event_in_one_chat:
  assumes "stream_laws R" "db_runs R (new_database st) d"
    and "hget (k_events (db_chat d c)) ev = Some e" "c' \<noteq> c" "CHR ''|'' \<notin> set fp"
  shows "hget (k_events (db_chat d c')) ev = None \<and>
    fst (db_run R now c' (Op_accept rv ev fp sq raw done c' idrev) d) \<in> {R_conflict, R_retry}"
proof -
  have R: "redis_streams R" by (rule redis_streams.intro [OF assms(1)])
  have inv: "db_inv R d" by (rule redis_streams.db_runs_inv [OF R assms(2) new_database_inv])
  have none: "hget (k_events (db_chat d c')) ev = None"
    using redis_streams.one_chat_per_event [OF R inv assms(3)] assms(4)
    by (cases "hget (k_events (db_chat d c')) ev") auto
  have id: "hget (db_identities d) ev = Some (identity_text c (er_fp e))" "CHR ''|'' \<notin> set (er_fp e)"
    using inv assms(3) by (simp_all add: db_inv_def events_registered_def view_def)
  have "identity_text c (er_fp e) \<noteq> identity_text c' fp"
    using identity_text_inj(1) [OF _ id(2) assms(5)] assms(4) by blast
  then have "fst (op_accept R now rv ev fp sq raw done c' idrev (view c' d)) \<in> {R_conflict, R_retry}"
    using id by (simp add: op_accept_def view_def Let_def)
  then show ?thesis using none by (simp add: db_run_def Let_def case_prod_beta)
qed

theorem event_in_one_chat_witness:
  "hget (k_events (db_chat demo_database ''2@g.us'')) ''e1'' = None"
proof -
  have "db_op_ok ''1@g.us'' demo_accept" by code_simp
  then have run: "db_runs list_streams (new_database (\<lambda>_. empty_stream)) demo_database"
    unfolding demo_database_def by (intro db_runs.intros)
  have "hget (k_events (db_chat demo_database ''1@g.us'')) ''e1'' =
      Some \<lparr>er_id = (3, 0), er_fp = ''f1'', er_seq = ''1'', er_raw = demo_event\<rparr>"
    by code_simp
  from event_in_one_chat [OF list_stream_laws run this, of "''2@g.us''" "''f1''"] show ?thesis by simp
qed

section \<open>Checkpoints and repair\<close>

text \<open>What one run does to the record, by operation.\<close>

definition checkpoint_moves :: "nat \<Rightarrow> script_op \<Rightarrow> 'st keyspace \<Rightarrow> reply \<Rightarrow> 'st keyspace \<Rightarrow> bool" where
  "checkpoint_moves now oper k reply k' \<longleftrightarrow> k_checkpoint k' = k_checkpoint k \<or> reply = R_ok \<and>
   ((\<exists>w t b. oper = Op_checkpoint_prepare w t b \<and> lua_work now w k \<noteq> None \<and> k_checkpoint k' = Some t \<and> cr_phase t = Prepared \<and>
       (k_checkpoint k = None \<or> (\<exists>c. k_checkpoint k = Some c \<and> cr_id t \<noteq> cr_id c \<and>
          (cr_phase c = Aborted \<or> (\<exists>s. cr_phase c = Restored s))))) \<or>
    (\<exists>w entry ex n c. oper = Op_checkpoint_transition w (cr_id c) To_compacted entry ex n \<and> lua_work now w k \<noteq> None \<and>
       k_checkpoint k = Some c \<and> cr_phase c = Prepared \<and> k_checkpoint k' = Some (c\<lparr>cr_phase := Compacted entry\<rparr>)) \<or>
    (\<exists>w entry ex n c. oper = Op_checkpoint_transition w (cr_id c) To_restored entry ex n \<and> lua_work now w k \<noteq> None \<and>
       k_checkpoint k = Some c \<and> cr_phase c = Compacted entry \<and> k_checkpoint k' = Some (c\<lparr>cr_phase := Restored entry\<rparr>)) \<or>
    (\<exists>w b c n i. oper = Op_checkpoint_abort w b (cr_id c) c n i \<and> lua_work now w k \<noteq> None \<and>
       k_checkpoint k = Some c \<and> cr_phase c = Prepared \<and> st_pause (k_state k) = Some P_compaction_failed \<and>
       st_turnEvent (k_state k) = None \<and> k_tools k = [] \<and> k_checkpoint k' = Some (c\<lparr>cr_phase := Aborted\<rparr>)))"

lemma moves_prepare:
  assumes "cr_phase t = Prepared"
  shows "checkpoint_moves now (Op_checkpoint_prepare w t b) k (fst (op_checkpoint_prepare now w t b k))
    (snd (op_checkpoint_prepare now w t b k))"
proof (cases "k_checkpoint (snd (op_checkpoint_prepare now w t b k)) = k_checkpoint k")
  case False
  then show ?thesis using assms
    by (auto simp: checkpoint_moves_def op_checkpoint_prepare_def set_checkpoint_def view_simps
        split: option.splits checkpoint_phase.splits if_splits)
qed (simp add: checkpoint_moves_def)

lemma moves_transition:
  assumes "op_ok (Op_checkpoint_transition w cid tg entry ex n)"
  shows "checkpoint_moves now (Op_checkpoint_transition w cid tg entry ex n) k
    (fst (op_checkpoint_transition now w cid tg entry ex n k)) (snd (op_checkpoint_transition now w cid tg entry ex n k))"
proof (cases "k_checkpoint (snd (op_checkpoint_transition now w cid tg entry ex n k)) = k_checkpoint k")
  case False
  then show ?thesis using assms
    by (cases tg) (auto simp: checkpoint_moves_def op_checkpoint_transition_def set_checkpoint_def view_simps
        split: option.splits if_splits)
qed (simp add: checkpoint_moves_def)

lemma moves_abort:
  assumes "n = raw\<lparr>cr_phase := Aborted\<rparr>"
  shows "checkpoint_moves now (Op_checkpoint_abort w b cid raw n i) k
    (fst (op_checkpoint_abort R now w b cid raw n i k)) (snd (op_checkpoint_abort R now w b cid raw n i k))"
proof (cases "k_checkpoint (snd (op_checkpoint_abort R now w b cid raw n i k)) = k_checkpoint k")
  case False
  then obtain p where p: "repairEvidence R (sb_chat b) i k = Inr p"
    by (auto simp: op_checkpoint_abort_def split: option.splits sum.splits)
  show ?thesis using assms False repairEvidence_prepared [OF p]
    by (auto simp: checkpoint_moves_def op_checkpoint_abort_def p set_checkpoint_def set_pause_def drop_repair_lease_def view_simps
        split: option.splits if_splits)
qed (simp add: checkpoint_moves_def)

lemma one_checkpoint_step:
  assumes "op_ok oper"
  shows "checkpoint_moves now oper k (fst (run_script R now oper k)) (snd (run_script R now oper k))"
proof -
  have same: "k_checkpoint (snd (run_script R now oper k)) = k_checkpoint k \<Longrightarrow> ?thesis" by (simp add: checkpoint_moves_def)
  show ?thesis
  proof (cases oper)
    case (Op_checkpoint_prepare w t b)
    then show ?thesis using assms moves_prepare by simp
  next
    case (Op_checkpoint_transition w cid tg entry ex n)
    then show ?thesis using assms moves_transition [of w cid tg entry ex n] by (simp del: op_ok.simps)
  next
    case (Op_checkpoint_abort w b cid raw n i)
    then show ?thesis using assms moves_abort by simp
  qed (rule same; simp add: checkpoint_claim checkpoint_frame_ops checkpoint_frame_work_ops
      op_snapshot_def op_read_def op_journal_list_def op_checkpoint_latest_def)+
qed

text \<open>C36: the chat's checkpoint record lives by its state machine, run by run: a single run of the script, on any
keys and called with the records that the repository builds, either leaves the record as it is, or replies \<open>ok\<close> to the holder of the chat's lease and takes exactly one of
four steps. A preparation writes a prepared record where there was none, or under another ID than a record that
was restored or aborted; a transition takes the very record it names from prepared to compacted, or
from compacted to restored with the same entry; an abort takes exactly the prepared record it was given to
aborted, and only in a chat that is paused for a failed compaction, has begun no turn and has an empty
journal. So an unfinished record is never replaced, and no phase is skipped or repeated.\<close>

theorem checkpoint_lifecycle:
  assumes "op_ok oper" "run_script R now oper k = (reply, k')"
  shows "k_checkpoint k' = k_checkpoint k \<or> reply = R_ok \<and>
   ((\<exists>w t b. oper = Op_checkpoint_prepare w t b \<and> lua_work now w k \<noteq> None \<and> k_checkpoint k' = Some t \<and> cr_phase t = Prepared \<and>
       (k_checkpoint k = None \<or> (\<exists>c. k_checkpoint k = Some c \<and> cr_id t \<noteq> cr_id c \<and>
          (cr_phase c = Aborted \<or> (\<exists>s. cr_phase c = Restored s))))) \<or>
    (\<exists>w entry ex n c. oper = Op_checkpoint_transition w (cr_id c) To_compacted entry ex n \<and> lua_work now w k \<noteq> None \<and>
       k_checkpoint k = Some c \<and> cr_phase c = Prepared \<and> k_checkpoint k' = Some (c\<lparr>cr_phase := Compacted entry\<rparr>)) \<or>
    (\<exists>w entry ex n c. oper = Op_checkpoint_transition w (cr_id c) To_restored entry ex n \<and> lua_work now w k \<noteq> None \<and>
       k_checkpoint k = Some c \<and> cr_phase c = Compacted entry \<and> k_checkpoint k' = Some (c\<lparr>cr_phase := Restored entry\<rparr>)) \<or>
    (\<exists>w b c n i. oper = Op_checkpoint_abort w b (cr_id c) c n i \<and> lua_work now w k \<noteq> None \<and>
       k_checkpoint k = Some c \<and> cr_phase c = Prepared \<and> st_pause (k_state k) = Some P_compaction_failed \<and>
       st_turnEvent (k_state k) = None \<and> k_tools k = [] \<and> k_checkpoint k' = Some (c\<lparr>cr_phase := Aborted\<rparr>)))"
  using one_checkpoint_step [OF assms(1), where R = R and now = now and k = k] assms(2) by (simp add: checkpoint_moves_def)

definition demo_record :: checkpoint_record where
  "demo_record = \<lparr>cr_id = ''c1'', cr_checkpoint = \<lparr>ck_chat = ''1@g.us'', ck_lastSequence = 0, ck_policyVersion = ''1'',
       ck_templateVersion = ''1'', ck_createdAt = ''x'', ck_goals = [], ck_decisions = [], ck_constraints = [],
       ck_verifiedFacts = [], ck_pendingWork = [], ck_approvalBoundaries = [], ck_nextSteps = [], ck_outcomes = []\<rparr>,
     cr_recovery = Some \<lparr>rb_eventId = ''e1'', rb_fingerprint = ''f1'', rb_streamId = (3, 0), rb_session = demo_binding,
       rb_generation = \<lparr>fg_device = ''1'', fg_inode = ''1'', fg_size = ''1'', fg_mtimeNs = ''1'', fg_ctimeNs = ''1''\<rparr>\<rparr>,
     cr_phase = Prepared\<rparr>"

definition demo_checkpoint_ops :: "(nat \<times> script_op) list" where
  "demo_checkpoint_ops = [(6, Op_checkpoint_prepare demo_work demo_record demo_binding),
     (7, Op_checkpoint_transition demo_work ''c1'' To_compacted ''x'' demo_record (demo_record\<lparr>cr_phase := Compacted ''x''\<rparr>))]"

theorem checkpoint_lifecycle_witness:
  "\<exists>c. k_checkpoint (run_ops list_streams [hd demo_checkpoint_ops] demo_bound) = Some c \<and> cr_phase c = Prepared \<and>
    k_checkpoint (run_ops list_streams demo_checkpoint_ops demo_bound) = Some (c\<lparr>cr_phase := Compacted ''x''\<rparr>)"
proof -
  let ?k = "run_ops list_streams [hd demo_checkpoint_ops] demo_bound"
    and ?op = "Op_checkpoint_transition demo_work ''c1'' To_compacted ''x'' demo_record (demo_record\<lparr>cr_phase := Compacted ''x''\<rparr>)"
  have ok: "op_ok ?op" by (simp add: demo_record_def)
  obtain rep k' where run: "run_script list_streams 7 ?op ?k = (rep, k')" by force
  have two: "k' = run_ops list_streams demo_checkpoint_ops demo_bound" using run by (simp add: demo_checkpoint_ops_def)
  have "k_checkpoint ?k = Some demo_record" "k_checkpoint (run_ops list_streams demo_checkpoint_ops demo_bound) \<noteq> Some demo_record"
    by code_simp+
  with checkpoint_lifecycle [OF ok run] show ?thesis unfolding two by auto
qed

text \<open>a checkpoint abort that replies \<open>ok\<close> was possible only for an orphan: the chat was paused for a
failed compaction with its record still prepared, no turn begun, an empty journal and the head
event pending; it marks exactly that record aborted, clears the pause, frees the lease, and keeps
the queue and the cursor.\<close>

theorem abort_only_orphans:
  "run_script R now (Op_checkpoint_abort w b cid raw n i) k = (R_lost, k) \<or>
   (\<exists>k' e. run_script R now (Op_checkpoint_abort w b cid raw n i) k = (R_ok, k') \<and> lua_work now w k \<noteq> None \<and>
      st_pause (k_state k) = Some P_compaction_failed \<and> k_checkpoint k = Some raw \<and> cr_phase raw = Prepared \<and>
      st_turnEvent (k_state k) = None \<and> k_tools k = [] \<and> st_session (k_state k) = Some b \<and>
      head_evidence R k = Some (wa_event w, e) \<and>
      k_checkpoint k' = Some n \<and> cr_phase n = Aborted \<and> cr_id n = cr_id raw \<and> st_pause (k_state k') = None \<and>
      le_owner (k_lease k') = None \<and> k_events k' = k_events k \<and> k_seqs k' = k_seqs k \<and>
      st_cursor (k_state k') = st_cursor (k_state k) \<and> k_stream k' = k_stream k)"
proof (cases "lua_work now w k")
  case (Some e)
  show ?thesis
  proof (cases "repairEvidence R (sb_chat b) i k")
    case (Inr p)
    from repairEvidence_prepared [OF Inr] Some Inr show ?thesis
      by (auto simp: op_checkpoint_abort_def set_checkpoint_def set_pause_def drop_repair_lease_def view_simps)
  qed (simp add: op_checkpoint_abort_def Some)
qed (simp add: op_checkpoint_abort_def)

end
