(* ===== verification/Intake.thy ===== *)
theory Intake
  imports Demo
begin

text \<open>
  Admission of a webhook: the payload (\<open>src/session-controller/src/intake/payload.ts\<close>) and its
  signature (\<open>intake/signature.ts\<close>). \<open>parse\<close> stands for \<open>JSON.parse\<close> after the fatal UTF-8 decoder
  and \<open>hmac key text\<close> for the lower-case hexadecimal HMAC-SHA-256 of \<open>node:crypto\<close>.
\<close>

section \<open>Timestamps\<close>

definition leap_year :: "nat \<Rightarrow> bool" where
  "leap_year y \<longleftrightarrow> y mod 4 = 0 \<and> (y mod 100 \<noteq> 0 \<or> y mod 400 = 0)"

definition month_days :: "nat \<Rightarrow> nat list" where
  "month_days y = [31, if leap_year y then 29 else 28, 31, 30, 31, 30, 31, 31, 30, 31, 30, 31]"

definition validTimestamp :: "string \<Rightarrow> bool" where
  "validTimestamp s =
     (case match_timestamp s of
        None \<Rightarrow> False
      | Some t \<Rightarrow> 0 < tg_year t \<and> 1 \<le> tg_month t \<and> tg_month t \<le> 12 \<and> 1 \<le> tg_day t \<and>
          tg_day t \<le> month_days (tg_year t) ! (tg_month t - 1) \<and>
          tg_hour t < 24 \<and> tg_minute t < 60 \<and> tg_second t < 60 \<and>
          (case tg_zone t of None \<Rightarrow> True | Some (h, m) \<Rightarrow> h < 24 \<and> m < 60))"

section \<open>Payloads\<close>

record admission_policy =
  ap_groups :: "string list"
  ap_operatorJids :: "string list"

text \<open>The checks on a value that already has the notification schema.\<close>

definition admit :: "admission_policy \<Rightarrow> notification \<Rightarrow> error_class + notification" where
  "admit policy p =
     (if \<not> validTimestamp (event_timestamp p) \<or> \<not> validTimestamp (received_at p) \<or> 512 < length (message_id p)
      then Inl Payload_invalid
      else if chat_kind p = ''group'' then
        (if chat_jid p \<noteq> canonical_chat_jid p then Inl Payload_invalid
         else if chat_jid p \<notin> set (ap_groups policy) then Inl Policy_denied
         else Inr p)
      else if chat_jid p \<notin> set (ap_operatorJids policy) \<or>
        (case ap_operatorJids policy of [] \<Rightarrow> True | first # _ \<Rightarrow> canonical_chat_jid p \<noteq> first) then Inl Policy_denied
      else if \<not> is_from_me p \<and> (sender_jid p \<notin> set (ap_operatorJids policy) \<or>
        (case sender_alt_jid p of None \<Rightarrow> False | Some j \<Rightarrow> j \<notin> set (ap_operatorJids policy))) then Inl Policy_denied
      else Inr p)"

definition parsePayload :: "(string \<Rightarrow> json option) \<Rightarrow> string \<Rightarrow> admission_policy \<Rightarrow> error_class + notification" where
  "parsePayload parse raw policy =
     (case parse raw of
        None \<Rightarrow> Inl Payload_invalid
      | Some v \<Rightarrow>
          (case notification_of_json v of
             None \<Rightarrow> Inl Payload_invalid
           | Some p \<Rightarrow> admit policy p))"

text \<open>The object that \<open>JSON.stringify\<close> prints of a notification (an absent alias is no key).\<close>

definition notification_json :: "notification \<Rightarrow> json" where
  "notification_json n = JObj ([
     (''schema_version'', JInt (schema_version n)), (''event_type'', JStr (event_type n)),
     (''event_id'', JStr (event_id n)), (''message_id'', JStr (message_id n)),
     (''event_timestamp'', JStr (event_timestamp n)), (''received_at'', JStr (received_at n)),
     (''chat_sequence'', JInt (int (chat_sequence n))), (''sender_jid'', JStr (sender_jid n))] @
     (case sender_alt_jid n of None \<Rightarrow> [] | Some j \<Rightarrow> [(''sender_alt_jid'', JStr j)]) @ [
     (''is_from_me'', JBool (is_from_me n)), (''chat_kind'', JStr (chat_kind n)),
     (''chat_jid'', JStr (chat_jid n)), (''canonical_chat_jid'', JStr (canonical_chat_jid n))])"

text \<open>\<open>parsePayload(Buffer.from(JSON.stringify(event)), admission)\<close>, as the repository calls it.\<close>

definition reparse :: "(string \<Rightarrow> json option) \<Rightarrow> admission_policy \<Rightarrow> notification \<Rightarrow> error_class + notification" where
  "reparse parse policy n = parsePayload parse (stringify (notification_json n)) policy"

lemma notification_json_roundtrip:
  "notification_of_json (notification_json n) = (if notification_schema n then Some n else None)"
proof -
  obtain ver ty eid mid ets rts sq sj alt own kind cj can where n: "n = \<lparr>schema_version = ver, event_type = ty,
      event_id = eid, message_id = mid, event_timestamp = ets, received_at = rts, chat_sequence = sq,
      sender_jid = sj, sender_alt_jid = alt, is_from_me = own, chat_kind = kind, chat_jid = cj,
      canonical_chat_jid = can\<rparr>"
    by (cases n)
  show ?thesis
    by (cases alt)
      (simp_all add: n notification_of_json_def notification_json_def only_keys_def notification_keys_def
        notification_fields_def jget_def optional_str_def)
qed

lemma reparse_admit:
  assumes "parse (stringify (notification_json n)) = Some (notification_json n)" "notification_schema n"
  shows "reparse parse policy n = admit policy n"
  using assms by (simp add: reparse_def parsePayload_def notification_json_roundtrip del: stringify.simps)

lemma admit_same: "admit policy p = Inr q \<Longrightarrow> q = p"
  by (auto simp: admit_def split: if_splits)

lemma parsePayload_Inr:
  assumes "parsePayload parse raw policy = Inr p"
  shows "notification_schema p" "admit policy p = Inr p"
proof -
  obtain v q where q: "parse raw = Some v" "notification_of_json v = Some q" "admit policy q = Inr p"
    using assms by (auto simp: parsePayload_def split: option.splits)
  then have "q = p" using admit_same [OF q(3)] by simp
  then show "notification_schema p" "admit policy p = Inr p"
    using q notification_of_json_schema by auto
qed

section \<open>Signatures\<close>

text \<open>\<open>String.prototype.trim\<close> leaves nothing: white space and line terminators only, in UTF-8.\<close>

definition blank1 :: "char \<Rightarrow> bool" where
  "blank1 c \<longleftrightarrow> 9 \<le> (of_char c :: nat) \<and> (of_char c :: nat) \<le> 13 \<or> (of_char c :: nat) = 32"

definition blank2 :: "char \<Rightarrow> char \<Rightarrow> bool" where
  "blank2 c d \<longleftrightarrow> c = CHR 0xC2 \<and> d = CHR 0xA0"

definition blank3 :: "char \<Rightarrow> char \<Rightarrow> char \<Rightarrow> bool" where
  "blank3 c d e \<longleftrightarrow>
     [c, d, e] \<in> {[CHR 0xE1, CHR 0x9A, CHR 0x80], [CHR 0xE2, CHR 0x80, CHR 0xA8], [CHR 0xE2, CHR 0x80, CHR 0xA9],
       [CHR 0xE2, CHR 0x80, CHR 0xAF], [CHR 0xE2, CHR 0x81, CHR 0x9F], [CHR 0xE3, CHR 0x80, CHR 0x80],
       [CHR 0xEF, CHR 0xBB, CHR 0xBF]} \<or>
     c = CHR 0xE2 \<and> d = CHR 0x80 \<and> 128 \<le> (of_char e :: nat) \<and> (of_char e :: nat) \<le> 138"

fun js_blank :: "string \<Rightarrow> bool" where
  "js_blank [] = True"
| "js_blank [c] = blank1 c"
| "js_blank [c, d] = (blank1 c \<and> blank1 d \<or> blank2 c d)"
| "js_blank (c # d # e # s) =
     (if blank1 c then js_blank (d # e # s)
      else if blank2 c d then js_blank (e # s)
      else blank3 c d e \<and> js_blank s)"

definition signature_config_ok :: "string \<Rightarrow> nat \<Rightarrow> bool" where
  "signature_config_ok secret freshnessSeconds \<longleftrightarrow>
     \<not> js_blank secret \<and> secret \<noteq> ''INSECURE_NO_AUTH'' \<and> 32 \<le> length secret \<and>
     1 \<le> freshnessSeconds \<and> freshnessSeconds \<le> 3600"

definition signed_timestamp :: "string \<Rightarrow> bool" where
  "signed_timestamp t \<longleftrightarrow> canonical t \<and> length t \<le> 12"

definition signature_text :: "string \<Rightarrow> bool" where
  "signature_text s \<longleftrightarrow> length s = 64 \<and> list_all is_hex s"

text \<open>The verifier that a valid configuration returns; \<open>now\<close> is the clock in milliseconds.\<close>

definition verifySignature :: "(string \<Rightarrow> string \<Rightarrow> string) \<Rightarrow> string \<Rightarrow> nat \<Rightarrow> nat \<Rightarrow> string \<Rightarrow>
    string option \<Rightarrow> string option \<Rightarrow> error_class + unit" where
  "verifySignature hmac secret freshnessSeconds now body t s =
     (case (t, s) of
        (Some t, Some s) \<Rightarrow>
          if \<not> signed_timestamp t \<or> \<not> signature_text s then Inl Signature_invalid
          else
            let signedAt = dval t; seconds = now div 1000 in
            if max_safe < seconds \<or> int freshnessSeconds < \<bar>int seconds - int signedAt\<bar> then Inl Signature_invalid
            else if s \<noteq> hmac secret (t @ ''.'' @ body) then Inl Signature_invalid
            else Inr ()
      | _ \<Rightarrow> Inl Signature_invalid)"

definition createSignatureVerifier :: "(string \<Rightarrow> string \<Rightarrow> string) \<Rightarrow> string \<Rightarrow> nat \<Rightarrow>
    error_class + (nat \<Rightarrow> string \<Rightarrow> string option \<Rightarrow> string option \<Rightarrow> error_class + unit)" where
  "createSignatureVerifier hmac secret freshnessSeconds =
     (if signature_config_ok secret freshnessSeconds
      then Inr (verifySignature hmac secret freshnessSeconds) else Inl Config_invalid)"

lemma verifySignature_Inr:
  assumes "verifySignature hmac secret f now body t s = Inr ()"
  obtains t' s' where "t = Some t'" "s = Some s'" "signed_timestamp t'" "signature_text s'"
    "\<bar>int (now div 1000) - int (dval t')\<bar> \<le> int f" "s' = hmac secret (t' @ ''.'' @ body)"
  using assms by (auto simp: verifySignature_def Let_def split: option.splits if_splits)

lemma signed_text_inj:
  assumes "signed_timestamp t" "signed_timestamp t'" "t @ ''.'' @ body = t' @ ''.'' @ body'"
  shows "t = t' \<and> body = body'"
proof -
  have pre: "takeWhile is_digit (x @ ''.'' @ y) = x" if "signed_timestamp x" for x y
    using that canonical_digits [of x] by (subst takeWhile_append2) (auto simp: signed_timestamp_def list_all_iff is_digit_def)
  have "t = t'" using arg_cong [OF assms(3), of "takeWhile is_digit"] pre assms(1,2) by simp
  then show ?thesis using assms(3) by simp
qed

section \<open>Properties\<close>

text \<open>every admitted webhook belongs to a configured chat of this controller: its canonical chat is one
the scheduler serves, a group event comes from an allowed group under its own JID, a private one
from an operator's JID, and, unless it is the account's own message, from an operator as sender.\<close>

theorem admitted_payload_routed:
  assumes "parsePayload parse raw policy = Inr p"
    and "configuredChats (ap_groups policy) (ap_operatorJids policy) = Inr chats"
  shows "canonical_chat_jid p \<in> set chats \<and> notification_schema p \<and>
    validTimestamp (event_timestamp p) \<and> validTimestamp (received_at p) \<and>
    (if chat_kind p = ''group'' then chat_jid p = canonical_chat_jid p \<and> chat_jid p \<in> set (ap_groups policy)
     else chat_jid p \<in> set (ap_operatorJids policy) \<and>
       (is_from_me p \<or> sender_jid p \<in> set (ap_operatorJids policy) \<and>
         (case sender_alt_jid p of None \<Rightarrow> True | Some j \<Rightarrow> j \<in> set (ap_operatorJids policy))))"
proof -
  obtain first rest where ops: "ap_operatorJids policy = first # rest"
    using assms(2) by (cases "ap_operatorJids policy") auto
  have chats: "set chats = set (ap_groups policy) \<union> {first}"
    using assms(2) by (auto simp: ops set_of_list_set Let_def split: if_splits)
  show ?thesis
    using parsePayload_Inr [OF assms(1)] chats
    by (auto simp: admit_def ops split: if_splits option.splits)
qed

definition demo_policy :: admission_policy where
  "demo_policy = \<lparr>ap_groups = [''1@g.us''], ap_operatorJids = [''9@lid'']\<rparr>"

lemma demo_event_schema: "notification_schema demo_event"
  by (simp add: notification_schema_def demo_event_def opaque_id_def is_hex_def is_digit_def message_id_schema_def
      timestamp_schema_def sequence_schema_def max_safe_def participant_jid_def jid_with_def jid_user_def
      jid_server_def group_jid_def match_timestamp_def take_digits_def skip_fraction_def match_zone_def dig_def)

lemma demo_event_admit: "admit demo_policy demo_event = Inr demo_event"
  by (simp add: admit_def demo_policy_def demo_event_def validTimestamp_def match_timestamp_def take_digits_def
      skip_fraction_def match_zone_def is_digit_def dig_def month_days_def leap_year_def)

theorem admitted_payload_routed_witness: "canonical_chat_jid demo_event \<in> set [''1@g.us'', ''9@lid'']"
proof -
  have "parsePayload (\<lambda>_. Some (notification_json demo_event)) ''x'' demo_policy = Inr demo_event"
    by (simp add: parsePayload_def notification_json_roundtrip demo_event_schema demo_event_admit)
  moreover have "configuredChats (ap_groups demo_policy) (ap_operatorJids demo_policy) = Inr [''1@g.us'', ''9@lid'']"
    by (simp add: demo_policy_def chat_jid_schema_def group_jid_def private_jid_def jid_with_def jid_user_def
        jid_server_def is_digit_def)
  ultimately show ?thesis using admitted_payload_routed by blast
qed

text \<open>the repository's re-validation of an event object through its own JSON text is the admission
check itself: whenever parsing gives back the object that was printed, re-validation accepts
exactly the events with the notification schema that admission accepts, unchanged.\<close>

theorem reparse_is_admission:
  assumes "parse (stringify (notification_json n)) = Some (notification_json n)"
  shows "reparse parse policy n = (if notification_schema n then admit policy n else Inl Payload_invalid)"
  using assms by (simp add: reparse_def parsePayload_def notification_json_roundtrip del: stringify.simps)

theorem reparse_is_admission_witness:
  "reparse (\<lambda>_. Some (notification_json demo_event)) demo_policy demo_event = Inr demo_event"
proof -
  from reparse_is_admission [of "\<lambda>_. Some (notification_json demo_event)" demo_event demo_policy]
  show ?thesis by (simp add: demo_event_schema demo_event_admit)
qed

text \<open>a signature is accepted only inside the freshness window on both sides of the clock, and it
binds the timestamp and the whole body: one signature accepted twice was made for the same
timestamp and body, or two different texts with the same HMAC under this secret exist.\<close>

theorem signature_binds_body:
  assumes "createSignatureVerifier hmac secret fresh = Inr verify"
    and "verify now body t s = Inr ()" "verify now' body' t' s = Inr ()"
  shows "1 \<le> fresh \<and> fresh \<le> 3600 \<and>
    (\<exists>x. t = Some x \<and> \<bar>int (now div 1000) - int (dval x)\<bar> \<le> int fresh) \<and>
    (t = t' \<and> body = body' \<or> (\<exists>a b. a \<noteq> b \<and> hmac secret a = hmac secret b))"
proof -
  have v: "verify = verifySignature hmac secret fresh" "1 \<le> fresh \<and> fresh \<le> 3600"
    using assms(1) by (auto simp: createSignatureVerifier_def signature_config_ok_def split: if_splits)
  obtain x y where x: "t = Some x" "s = Some y" "signed_timestamp x"
    "\<bar>int (now div 1000) - int (dval x)\<bar> \<le> int fresh" "y = hmac secret (x @ ''.'' @ body)"
    using verifySignature_Inr [OF assms(2) [unfolded v(1)]] by metis
  obtain x' y' where x': "t' = Some x'" "s = Some y'" "signed_timestamp x'" "y' = hmac secret (x' @ ''.'' @ body')"
    using verifySignature_Inr [OF assms(3) [unfolded v(1)]] by metis
  have "hmac secret (x @ ''.'' @ body) = hmac secret (x' @ ''.'' @ body')"
    using x x' by simp
  then have "t = t' \<and> body = body' \<or> (\<exists>a b. a \<noteq> b \<and> hmac secret a = hmac secret b)"
    using signed_text_inj [OF x(3) x'(3)] x(1) x'(1) by blast
  then show ?thesis using x v(2) by blast
qed

definition demo_secret :: string where
  "demo_secret = ''kkkkkkkkkkkkkkkkkkkkkkkkkkkkkkkk''"

definition demo_hmac :: "string \<Rightarrow> string \<Rightarrow> string" where
  "demo_hmac key text = (if text = ''100.body'' then replicate 64 CHR ''a'' else text)"

theorem signature_binds_body_witness: "\<exists>x. Some ''100'' = Some x \<and> \<bar>int (250000 div 1000) - int (dval x)\<bar> \<le> int 300"
proof -
  have "\<not> js_blank demo_secret" by code_simp
  moreover have "demo_secret \<noteq> ''INSECURE_NO_AUTH'' \<and> 32 \<le> length demo_secret" by (simp add: demo_secret_def)
  ultimately have v: "createSignatureVerifier demo_hmac demo_secret 300 = Inr (verifySignature demo_hmac demo_secret 300)"
    by (simp add: createSignatureVerifier_def signature_config_ok_def)
  have "signed_timestamp ''100''" "dval ''100'' = 100"
    by (simp_all add: signed_timestamp_def canonical_def is_digit_def dig_def)
  moreover have "signature_text (replicate 64 CHR ''a'')"
    by (simp add: signature_text_def is_hex_def list_all_iff)
  ultimately have ok: "verifySignature demo_hmac demo_secret 300 250000 ''body'' (Some ''100'') (Some (replicate 64 CHR ''a'')) = Inr ()"
    by (simp add: verifySignature_def demo_hmac_def max_safe_def)
  show ?thesis using signature_binds_body [OF v ok ok] by simp
qed

end
