(* ===== verification/Exec.thy ===== *)
theory Exec
  imports Domain
begin

text \<open>
  Code that awaits and throws: an execution takes the state and returns the thrown class or the
  value, with the state after it. The rules of partial correctness at the end let a property
  of a long sequence of calls be proved call by call.
\<close>

section \<open>Executions\<close>

text \<open>\<open>Internal_failed\<close> also stands for an exception that is no \<open>ControllerError\<close>.\<close>

type_synonym ('s, 'a) exec = "'s \<Rightarrow> (error_class + 'a) \<times> 's"

definition ret :: "'a \<Rightarrow> ('s, 'a) exec" where
  "ret x c = (Inr x, c)"

definition throw :: "error_class \<Rightarrow> ('s, 'a) exec" where
  "throw e c = (Inl e, c)"

definition lift :: "error_class + 'a \<Rightarrow> ('s, 'a) exec" where
  "lift r c = (r, c)"

definition seq :: "('s, 'a) exec \<Rightarrow> ('a \<Rightarrow> ('s, 'b) exec) \<Rightarrow> ('s, 'b) exec" where
  "seq m f c = (case m c of (Inl e, c') \<Rightarrow> (Inl e, c') | (Inr x, c') \<Rightarrow> f x c')"

definition catch :: "('s, 'a) exec \<Rightarrow> (error_class \<Rightarrow> ('s, 'a) exec) \<Rightarrow> ('s, 'a) exec" where
  "catch m h c = (case m c of (Inl e, c') \<Rightarrow> h e c' | (Inr x, c') \<Rightarrow> (Inr x, c'))"

definition with_state :: "('s \<Rightarrow> ('s, 'a) exec) \<Rightarrow> ('s, 'a) exec" where
  "with_state f s = f s s"

definition modify :: "('s \<Rightarrow> 's) \<Rightarrow> ('s, unit) exec" where
  "modify f s = (Inr (), f s)"

text \<open>\<open>finally\<close>: the clean-up runs on both ends; its own error replaces the end.\<close>

definition finalize :: "('s, 'a) exec \<Rightarrow> ('s, unit) exec \<Rightarrow> ('s, 'a) exec" where
  "finalize m c s = (case m s of (r, s') \<Rightarrow> (case c s' of (Inl e, s'') \<Rightarrow> (Inl e, s'') | (Inr _, s'') \<Rightarrow> (r, s'')))"

lemma seq_Inr: "seq m f c = (Inr y, c'') \<longleftrightarrow> (\<exists>x c'. m c = (Inr x, c') \<and> f x c' = (Inr y, c''))"
  by (auto simp: seq_def split: prod.splits sum.splits)

lemma seq_simps [simp]:
  "seq (ret x) f = f x" "seq (throw e) f = throw e" "seq (lift (Inr x)) f = f x" "seq (lift (Inl e)) f = throw e"
  by (auto simp: seq_def ret_def throw_def lift_def)

section \<open>Partial correctness\<close>

text \<open>From \<open>P\<close>, a normal end satisfies \<open>Q\<close> and a thrown class \<open>R\<close>.\<close>

definition triple :: "('s \<Rightarrow> bool) \<Rightarrow> ('s, 'a) exec \<Rightarrow> ('a \<Rightarrow> 's \<Rightarrow> bool) \<Rightarrow> (error_class \<Rightarrow> 's \<Rightarrow> bool) \<Rightarrow> bool" where
  "triple P m Q R \<longleftrightarrow> (\<forall>s. P s \<longrightarrow> (case m s of (Inl e, s') \<Rightarrow> R e s' | (Inr x, s') \<Rightarrow> Q x s'))"

named_theorems triple_rules \<open>rules of partial correctness, one per construct\<close>

lemma tripleI:
  "(\<And>s e s'. P s \<Longrightarrow> m s = (Inl e, s') \<Longrightarrow> R e s') \<Longrightarrow> (\<And>s x s'. P s \<Longrightarrow> m s = (Inr x, s') \<Longrightarrow> Q x s') \<Longrightarrow> triple P m Q R"
  by (auto simp: triple_def split: prod.split sum.split)

lemma triple_Inr: "triple P m Q R \<Longrightarrow> P s \<Longrightarrow> m s = (Inr x, s') \<Longrightarrow> Q x s'"
  by (auto simp: triple_def)

lemma triple_Inl: "triple P m Q R \<Longrightarrow> P s \<Longrightarrow> m s = (Inl e, s') \<Longrightarrow> R e s'"
  by (auto simp: triple_def)

lemma triple_seq [triple_rules]:
  "triple P m Q R \<Longrightarrow> (\<And>x. triple (Q x) (f x) S R) \<Longrightarrow> triple P (seq m f) S R"
  by (fastforce simp: triple_def seq_def split: prod.splits sum.splits)

lemma triple_ret [triple_rules]: "(\<And>s. P s \<Longrightarrow> Q x s) \<Longrightarrow> triple P (ret x) Q R"
  by (simp add: triple_def ret_def)

lemma triple_throw [triple_rules]: "(\<And>s. P s \<Longrightarrow> R e s) \<Longrightarrow> triple P (throw e) Q R"
  by (simp add: triple_def throw_def)

lemma triple_lift [triple_rules]:
  "(\<And>e s. r = Inl e \<Longrightarrow> P s \<Longrightarrow> R e s) \<Longrightarrow> (\<And>x s. r = Inr x \<Longrightarrow> P s \<Longrightarrow> Q x s) \<Longrightarrow> triple P (lift r) Q R"
  by (auto simp: triple_def lift_def split: sum.split)

lemma triple_if [triple_rules]:
  "(b \<Longrightarrow> triple P m Q R) \<Longrightarrow> (\<not> b \<Longrightarrow> triple P n Q R) \<Longrightarrow> triple P (if b then m else n) Q R"
  by simp

lemma triple_option [triple_rules]:
  "(x = None \<Longrightarrow> triple P m Q R) \<Longrightarrow> (\<And>y. x = Some y \<Longrightarrow> triple P (f y) Q R) \<Longrightarrow>
   triple P (case x of None \<Rightarrow> m | Some y \<Rightarrow> f y) Q R"
  by (cases x) auto

lemma triple_catch [triple_rules]:
  "triple P m Q R' \<Longrightarrow> (\<And>e. triple (R' e) (h e) Q R) \<Longrightarrow> triple P (catch m h) Q R"
  by (fastforce simp: triple_def catch_def split: prod.splits sum.splits)

lemma triple_with_state [triple_rules]:
  "(\<And>s0. triple (\<lambda>s. P s \<and> s = s0) (f s0) Q R) \<Longrightarrow> triple P (with_state f) Q R"
  by (auto simp: triple_def with_state_def)

lemma triple_modify [triple_rules]: "(\<And>s. P s \<Longrightarrow> Q () (f s)) \<Longrightarrow> triple P (modify f) Q R"
  by (simp add: triple_def modify_def)

lemma triple_finalize [triple_rules]:
  "triple P m Q' R' \<Longrightarrow> (\<And>x. triple (Q' x) c (\<lambda>_. Q x) R) \<Longrightarrow> (\<And>e. triple (R' e) c (\<lambda>_. R e) R) \<Longrightarrow>
   triple P (finalize m c) Q R"
  by (fastforce simp: triple_def finalize_def split: prod.splits sum.splits)

lemma triple_weaken:
  "triple P m Q R \<Longrightarrow> (\<And>s. P' s \<Longrightarrow> P s) \<Longrightarrow> (\<And>x s. Q x s \<Longrightarrow> Q' x s) \<Longrightarrow> (\<And>e s. R e s \<Longrightarrow> R' e s) \<Longrightarrow> triple P' m Q' R'"
  by (fastforce simp: triple_def split: prod.splits sum.splits)

end
