(* ===== verification/Connection.thy ===== *)
theory Connection
  imports Intake Exec
begin

text \<open>
  The Redis connection of one controller process (\<open>src/session-controller/src/redis/client.ts\<close>):
  one serialised writer, the durability barrier around every write, and the failure flag.
  What is outside the process is the record \<open>world\<close>: the clock of the server at each script, what
  other processes did to the database before it, whether the network delivered it, whether the
  baseline check and \<open>WAITAOF\<close> succeed, the completion index, the local clock and the hash.
\<close>

section \<open>Actions\<close>

record 'st conn =
  c_db :: "'st database"
  c_step :: nat
  c_healthy :: bool

type_synonym ('st, 'a) action = "('st conn, 'a) exec"

section \<open>The world\<close>

datatype delivery = Delivered | Not_sent | Reply_lost

record 'st world =
  w_streams :: "'st stream_ops"
  w_time :: "nat \<Rightarrow> nat"
  w_others :: "nat \<Rightarrow> 'st database \<Rightarrow> 'st database"
  w_delivery :: "nat \<Rightarrow> delivery"
  w_baseline :: "nat \<Rightarrow> bool"
  w_waitaof :: "nat \<Rightarrow> bool"
  w_find :: "nat \<Rightarrow> string \<Rightarrow> string \<Rightarrow> error_class + completion_proof option"
  w_clock :: "nat \<Rightarrow> nat"
  w_sha :: "string \<Rightarrow> string"
  w_parse :: "string \<Rightarrow> json option"
  w_policy :: admission_policy
  w_chats :: "string list"

text \<open>\<open>evalScript\<close>: one script of the writer, after whatever other processes did since the last.\<close>

definition eval_script :: "'st world \<Rightarrow> string \<Rightarrow> script_op \<Rightarrow> ('st, reply) action" where
  "eval_script W chat oper c =
     (if chat \<notin> set (w_chats W) then (Inl Policy_denied, c)
      else
        let n = c_step c;
            d = w_others W n (c_db c);
            sent = db_run (w_streams W) (w_time W n) chat oper d
        in (case w_delivery W n of
              Delivered \<Rightarrow> (Inr (fst sent), c\<lparr>c_db := snd sent, c_step := Suc n\<rparr>)
            | Not_sent \<Rightarrow> (Inl Internal_failed, c\<lparr>c_db := d, c_step := Suc n\<rparr>)
            | Reply_lost \<Rightarrow> (Inl Internal_failed, c\<lparr>c_db := snd sent, c_step := Suc n\<rparr>)))"

definition serial :: "('st, 'a) action \<Rightarrow> ('st, 'a) action" where
  "serial m c = (if c_healthy c then m c else (Inl Store_unavailable, c))"

definition durable :: "'st world \<Rightarrow> ('st, 'a) action \<Rightarrow> ('st, 'a) action" where
  "durable W m = serial (\<lambda>c.
     if \<not> w_baseline W (c_step c) then (Inl Store_unavailable, c\<lparr>c_healthy := False\<rparr>)
     else case m c of
       (Inl e, c') \<Rightarrow> (Inl Store_unavailable, c'\<lparr>c_healthy := False\<rparr>)
     | (Inr x, c') \<Rightarrow>
         if w_waitaof W (c_step c') then (Inr x, c')
         else (Inl Store_unavailable, c'\<lparr>c_healthy := False\<rparr>))"

definition write_op :: "'st world \<Rightarrow> string \<Rightarrow> script_op \<Rightarrow> ('st, reply) action" where
  "write_op W chat oper = durable W (eval_script W chat oper)"

definition read_op :: "'st world \<Rightarrow> string \<Rightarrow> script_op \<Rightarrow> ('st, reply) action" where
  "read_op W chat oper = serial (eval_script W chat oper)"

section \<open>Laws\<close>

lemma durable_Inr:
  "durable W m c = (Inr x, c') \<longleftrightarrow>
   c_healthy c \<and> w_baseline W (c_step c) \<and> m c = (Inr x, c') \<and> w_waitaof W (c_step c')"
  by (auto simp: durable_def serial_def split: prod.splits sum.splits if_splits)

lemma durable_Inl: "durable W m c = (Inl e, c') \<Longrightarrow> e = Store_unavailable \<and> (c_healthy c' \<longrightarrow> False)"
  by (auto simp: durable_def serial_def split: prod.splits sum.splits if_splits)

lemma serial_Inr: "serial m c = (Inr x, c') \<longleftrightarrow> c_healthy c \<and> m c = (Inr x, c')"
  by (auto simp: serial_def)

lemma eval_script_Inr:
  "eval_script W chat oper c = (Inr r, c') \<longleftrightarrow>
   chat \<in> set (w_chats W) \<and> w_delivery W (c_step c) = Delivered \<and>
   c' = c\<lparr>c_db := snd (db_run (w_streams W) (w_time W (c_step c)) chat oper (w_others W (c_step c) (c_db c))),
          c_step := Suc (c_step c)\<rparr> \<and>
   r = fst (db_run (w_streams W) (w_time W (c_step c)) chat oper (w_others W (c_step c) (c_db c)))"
  by (auto simp: eval_script_def Let_def split: delivery.splits)

lemma write_op_Inr:
  assumes "write_op W chat oper c = (Inr r, c')"
  shows "eval_script W chat oper c = (Inr r, c')" "c_healthy c" "w_waitaof W (c_step c')"
  using assms by (auto simp: write_op_def durable_Inr)

end
