(* ===== verification/Encoders.thy ===== *)
theory Encoders
  imports Connection "HOL-Library.Multiset"
begin

text \<open>
  The JSON objects of the domain's records and the canonical text of a JSON value
  (\<open>canonicalJson\<close> and \<open>legacyRepairDigest\<close> of
  \<open>src/session-controller/src/redis/repository.ts\<close>): object keys in the order of
  \<open>localeCompare\<close>, which on keys of ASCII letters, digits and underscores compares letters first
  without case and then lower case before upper case.
\<close>

section \<open>Objects\<close>

definition session_json :: "session_binding \<Rightarrow> json" where
  "session_json b = JObj [(''canonicalChatId'', JStr (sb_chat b)), (''sessionId'', JStr (sb_sessionId b)),
     (''sessionFile'', JStr (sb_sessionFile b))]"

definition generation_json :: "file_generation \<Rightarrow> json" where
  "generation_json g = JObj [(''device'', JStr (fg_device g)), (''inode'', JStr (fg_inode g)),
     (''size'', JStr (fg_size g)), (''mtimeNs'', JStr (fg_mtimeNs g)), (''ctimeNs'', JStr (fg_ctimeNs g))]"

fun tool_text :: "mutation_tool \<Rightarrow> string" where
  "tool_text Send_message = ''send_message''"
| "tool_text Send_group_message = ''send_group_message''"
| "tool_text Send_auto_message = ''send_auto_message''"
| "tool_text Send_media = ''send_media''"
| "tool_text Send_reaction = ''send_reaction''"
| "tool_text Edit_message = ''edit_message''"
| "tool_text Revoke_message = ''revoke_message''"

definition outcome_json :: "tool_outcome \<Rightarrow> json" where
  "outcome_json x = JObj [(''attemptId'', JStr (to_attemptId x)), (''tool'', JStr (tool_text (to_tool x))),
     (''destination'', JStr (to_destination x)), (''messageId'', JStr (to_messageId x))]"

definition notes_json :: "string list \<Rightarrow> json" where
  "notes_json ns = JArr (map JStr ns)"

definition checkpoint_json :: "checkpoint_v1 \<Rightarrow> json" where
  "checkpoint_json c = JObj [(''version'', JInt 1), (''canonicalChatId'', JStr (ck_chat c)),
     (''lastCompletedSequence'', JInt (int (ck_lastSequence c))), (''policyVersion'', JStr (ck_policyVersion c)),
     (''templateVersion'', JStr (ck_templateVersion c)), (''createdAt'', JStr (ck_createdAt c)),
     (''goals'', notes_json (ck_goals c)), (''decisions'', notes_json (ck_decisions c)),
     (''constraints'', notes_json (ck_constraints c)), (''verifiedFacts'', notes_json (ck_verifiedFacts c)),
     (''pendingWork'', notes_json (ck_pendingWork c)), (''approvalBoundaries'', notes_json (ck_approvalBoundaries c)),
     (''nextSteps'', notes_json (ck_nextSteps c)),
     (''confirmedToolOutcomes'', JArr (map outcome_json (ck_outcomes c)))]"

text \<open>A prepared record without a recovery binding, the only one that the digest is made of.\<close>

definition prepared_json :: "checkpoint_record \<Rightarrow> json" where
  "prepared_json r = JObj [(''checkpointId'', JStr (cr_id r)), (''checkpoint'', checkpoint_json (cr_checkpoint r)),
     (''phase'', JStr ''prepared'')]"

section \<open>Canonical text\<close>

definition fold_case :: "char \<Rightarrow> nat" where
  "fold_case c = (if 65 \<le> (of_char c :: nat) \<and> (of_char c :: nat) \<le> 90 then of_char c + 32 else of_char c)"

text \<open>The underscore is before the digits, the digits before the letters.\<close>

definition collation_rank :: "char \<Rightarrow> nat" where
  "collation_rank c = (if c = CHR ''_'' then 0 else fold_case c)"

fun lexi_less :: "nat list \<Rightarrow> nat list \<Rightarrow> bool" where
  "lexi_less [] ys = (ys \<noteq> [])"
| "lexi_less (x # xs) [] = False"
| "lexi_less (x # xs) (y # ys) = (x < y \<or> x = y \<and> lexi_less xs ys)"

definition locale_before :: "string \<Rightarrow> string \<Rightarrow> bool" where
  "locale_before a b \<longleftrightarrow>
     (let ra = map collation_rank a; rb = map collation_rank b
      in if ra \<noteq> rb then lexi_less ra rb else lexi_less (map of_char b) (map of_char a))"

fun insert_key :: "string \<times> 'a \<Rightarrow> (string \<times> 'a) list \<Rightarrow> (string \<times> 'a) list" where
  "insert_key e [] = [e]"
| "insert_key e (x # xs) = (if locale_before (fst x) (fst e) then x # insert_key e xs else e # x # xs)"

definition sort_keys :: "(string \<times> 'a) list \<Rightarrow> (string \<times> 'a) list" where
  "sort_keys es = foldr insert_key es []"

fun canonicalJson :: "json \<Rightarrow> string" where
  "canonicalJson (JArr xs) = ''['' @ intercalate '','' (map canonicalJson xs) @ '']''"
| "canonicalJson (JObj kvs) =
     [CHR 0x7B] @ intercalate '','' (map (\<lambda>(k, t). quote k @ '':'' @ t)
       (sort_keys (map (\<lambda>(k, v). (k, canonicalJson v)) kvs))) @ [CHR 0x7D]"
| "canonicalJson v = stringify v"

definition repair_material :: "string \<Rightarrow> notification \<Rightarrow> stream_id \<Rightarrow> session_binding \<Rightarrow> checkpoint_record \<Rightarrow>
    file_generation \<Rightarrow> json" where
  "repair_material fp event streamId session prepared generation = JObj [
     (''version'', JInt 1), (''domain'', JStr ''sc:legacy-compaction-repair:v3''),
     (''event'', JObj [(''value'', notification_json event), (''eventFingerprint'', JStr fp),
       (''streamId'', JStr (show_stream_id streamId))]),
     (''session'', session_json session), (''checkpoint'', prepared_json prepared),
     (''generation'', generation_json generation)]"

definition legacyRepairDigest :: "(string \<Rightarrow> string) \<Rightarrow> notification \<Rightarrow> stream_id \<Rightarrow> session_binding \<Rightarrow>
    checkpoint_record \<Rightarrow> file_generation \<Rightarrow> error_class + string" where
  "legacyRepairDigest sha event streamId session prepared generation =
     andThen (checked file_generation_schema generation Restore_failed) (\<lambda>g.
     andThen (checked notification_schema event Restore_failed) (\<lambda>e.
     andThen (fingerprintEvent sha e) (\<lambda>fp.
     andThen (checked session_binding_schema session Session_failed) (\<lambda>b.
       Inr (''sha256:v1:'' @ sha (canonicalJson (repair_material fp e streamId b prepared g)))))))"

text \<open>The order of the keys of an object does not change its canonical text.\<close>

lemma lexi_less_irrefl: "\<not> lexi_less xs xs"
  by (induction xs) auto

lemma lexi_less_trans: "lexi_less xs ys \<Longrightarrow> lexi_less ys zs \<Longrightarrow> lexi_less xs zs"
proof (induction xs ys arbitrary: zs rule: lexi_less.induct)
  case (1 ys)
  then show ?case by (cases zs; cases ys) auto
next
  case (3 x xs y ys)
  then show ?case by (cases zs) auto
qed simp

lemma lexi_less_total: "xs \<noteq> ys \<Longrightarrow> lexi_less xs ys \<or> lexi_less ys xs"
  by (induction xs ys rule: lexi_less.induct) auto

lemma of_char_list_inj: "map (of_char :: char \<Rightarrow> nat) a = map of_char b \<longleftrightarrow> a = b"
proof
  assume "map (of_char :: char \<Rightarrow> nat) a = map of_char b"
  then show "a = b" by (metis inj_map_eq_map inj_of_char)
qed simp

lemma locale_before_total: "a \<noteq> b \<Longrightarrow> locale_before a b \<or> locale_before b a"
  using lexi_less_total [of "map of_char b" "map (of_char :: char \<Rightarrow> nat) a"]
    lexi_less_total [of "map collation_rank a" "map collation_rank b"]
  by (auto simp: locale_before_def Let_def of_char_list_inj)

lemma locale_before_trans: "locale_before a b \<Longrightarrow> locale_before b c \<Longrightarrow> locale_before a c"
  using lexi_less_trans [of "map collation_rank a" "map collation_rank b" "map collation_rank c"]
    lexi_less_trans [of "map of_char c" "map of_char b" "map (of_char :: char \<Rightarrow> nat) a"]
    lexi_less_irrefl [of "map collation_rank a"] lexi_less_irrefl [of "map collation_rank b"]
  by (auto simp: locale_before_def Let_def split: if_splits)

lemma locale_before_irrefl: "\<not> locale_before a a"
  by (simp add: locale_before_def Let_def lexi_less_irrefl)

lemma insert_key_commute:
  assumes "fst a \<noteq> fst b"
  shows "insert_key a (insert_key b xs) = insert_key b (insert_key a xs)"
proof -
  have asym: "\<not> (locale_before x y \<and> locale_before y x)" for x y
    using locale_before_trans locale_before_irrefl by blast
  show ?thesis
    using assms locale_before_total [of "fst a" "fst b"]
  proof (induction xs)
    case Nil
    then show ?case using asym by auto
  next
    case (Cons x xs)
    have t: "locale_before (fst x) u" if "locale_before v u" "locale_before (fst x) v" for u v
      using that locale_before_trans by blast
    show ?case
      using Cons asym t by auto
  qed
qed

lemma sort_keys_perm:
  assumes "distinct (map fst es)" "mset es = mset fs"
  shows "sort_keys es = sort_keys fs"
  using assms
proof (induction es arbitrary: fs)
  case (Cons e es)
  have "e \<in> set fs" using Cons.prems(2) by (metis list.set_intros(1) set_mset_mset)
  then obtain us vs where fs: "fs = us @ e # vs" by (meson split_list)
  have m: "mset es = mset (us @ vs)" using Cons.prems(2) fs by simp
  have others: "\<forall>u \<in> set us. fst u \<noteq> fst e"
  proof
    fix u assume "u \<in> set us"
    then have "u \<in> set es" using m by (metis Un_iff set_append set_mset_mset)
    then show "fst u \<noteq> fst e" using Cons.prems(1) by (auto simp: image_iff)
  qed
  have move: "foldr insert_key us (insert_key e zs) = insert_key e (foldr insert_key us zs)" for zs
    using others by (induction us) (auto simp: insert_key_commute)
  have "sort_keys es = sort_keys (us @ vs)"
    using Cons.IH [OF _ m] Cons.prems(1) by simp
  then show ?case by (simp add: sort_keys_def fs move)
qed simp

lemma canonicalJson_key_order:
  assumes "distinct (map fst kvs)" "mset kvs = mset kvs'"
  shows "canonicalJson (JObj kvs) = canonicalJson (JObj kvs')"
proof -
  let ?f = "\<lambda>(k, v). (k, canonicalJson v)"
  have "distinct (map fst (map ?f kvs))"
    using assms(1) by (simp add: comp_def case_prod_beta)
  moreover have "mset (map ?f kvs) = mset (map ?f kvs')"
    using assms(2) by simp
  ultimately have "sort_keys (map ?f kvs) = sort_keys (map ?f kvs')" by (rule sort_keys_perm)
  then show ?thesis by (simp only: canonicalJson.simps)
qed

end
