(* ===== verification/Repository.thy ===== *)
theory Repository
  imports Encoders
begin

text \<open>
  The repository of one controller process (\<open>createRepository\<close> of
  \<open>src/session-controller/src/redis/repository.ts\<close>): validation of every argument and reply around
  the script, the admission loop, and the operations on claimed work. An operation is an action
  on the connection (theory \<open>Connection\<close>); \<open>Inl\<close> is the thrown class.
\<close>

section \<open>Arguments and replies\<close>

definition duration :: "nat \<Rightarrow> bool" where
  "duration n \<longleftrightarrow> 1 \<le> n \<and> n \<le> 3600000"

definition entry_id_schema :: "string \<Rightarrow> bool" where
  "entry_id_schema s \<longleftrightarrow> 1 \<le> length s \<and> length s \<le> 128"

definition journal_envelope_schema :: "journal_row \<Rightarrow> bool" where
  "journal_envelope_schema r = (case r of
     Legacy m \<Rightarrow> False
   | Envelope fp b m \<Rightarrow> event_fingerprint_schema fp \<and> session_binding_schema b \<and> mutation_state_schema m)"

definition journalRecord :: "journal_row \<Rightarrow> string \<Rightarrow> error_class + (string \<times> session_binding \<times> mutation_state)" where
  "journalRecord r chat =
     (if \<not> journal_envelope_schema r then Inl Mutation_uncertain
      else case r of
        Legacy m \<Rightarrow> Inl Mutation_uncertain
      | Envelope fp b m \<Rightarrow>
          if sb_chat b \<noteq> chat \<or> mu_chat m \<noteq> chat then Inl Mutation_uncertain else Inr (fp, b, m))"

definition journalState :: "journal_row \<Rightarrow> string \<Rightarrow> error_class + mutation_state" where
  "journalState r chat = (case r of
     Envelope fp b m \<Rightarrow> andThen (journalRecord r chat) (\<lambda>(_, _, m). Inr m)
   | Legacy m \<Rightarrow> checked mutation_state_schema m Mutation_uncertain)"

definition verifiedProof :: "completion_proof \<Rightarrow> string \<Rightarrow> string \<Rightarrow> error_class + completion_proof" where
  "verifiedProof value chat eid =
     andThen (checked completion_proof_schema value Session_failed) (\<lambda>p.
       if cm_chat (cp_marker p) \<noteq> chat \<or> sb_chat (cp_session p) \<noteq> chat \<or> cm_eventId (cp_marker p) \<noteq> eid
       then Inl Session_failed else Inr p)"

definition owner_arg :: "string \<Rightarrow> error_class + string" where
  "owner_arg v = checked opaque_id v Lease_lost"

definition ms_arg :: "nat \<Rightarrow> error_class + nat" where
  "ms_arg v = checked duration v Config_invalid"

definition allowed :: "'st world \<Rightarrow> string \<Rightarrow> error_class + unit" where
  "allowed W chat = guard (chat \<in> set (w_chats W)) Policy_denied"

definition fingerprint :: "'st world \<Rightarrow> notification \<Rightarrow> error_class + string" where
  "fingerprint W e = fingerprintEvent (w_sha W) e"

definition argsFor :: "'st world \<Rightarrow> claimed_work \<Rightarrow> error_class + work_args" where
  "argsFor W work =
     andThen (checked ownership_schema (cw_ownership work) Lease_lost) (\<lambda>ow.
     andThen (allowed W (canonical_chat_jid (cw_event work))) (\<lambda>_.
     andThen (reparse (w_parse W) (w_policy W) (cw_event work)) (\<lambda>e.
     andThen (checked stream_id_schema (cw_streamId work) Lease_lost) (\<lambda>i.
     andThen (fingerprint W e) (\<lambda>fp.
       Inr \<lparr>wa_appOwner = f_owner (own_app ow), wa_appEpoch = f_epoch (own_app ow),
            wa_chatOwner = f_owner (own_chat ow), wa_chatEpoch = f_epoch (own_chat ow),
            wa_event = event_id e, wa_streamId = i, wa_fp = fp\<rparr>)))))"

definition work_chat :: "claimed_work \<Rightarrow> string" where
  "work_chat work = canonical_chat_jid (cw_event work)"

definition ownedWrite :: "'st world \<Rightarrow> claimed_work \<Rightarrow> (work_args \<Rightarrow> script_op) \<Rightarrow> ('st, bool) action" where
  "ownedWrite W work oper =
     seq (lift (argsFor W work)) (\<lambda>w.
     seq (write_op W (work_chat work) (oper w)) (\<lambda>r. ret (r = R_ok)))"

definition fence_of :: "string \<Rightarrow> string option \<Rightarrow> nat \<Rightarrow> error_class + fence" where
  "fence_of ow ep u =
     (case ep of
        None \<Rightarrow> Inl Store_unavailable
      | Some ep \<Rightarrow> checked fence_schema \<lparr>f_owner = ow, f_epoch = ep, expiresAtMs = u\<rparr> Store_unavailable)"

definition acquireResult :: "reply \<Rightarrow> string \<Rightarrow> error_class + fence option" where
  "acquireResult r ow = (case r of
     R_busy \<Rightarrow> Inr None
   | R_lost \<Rightarrow> Inr None
   | R_fence ep u \<Rightarrow> andThen (fence_of ow ep u) (\<lambda>f. Inr (Some f))
   | _ \<Rightarrow> Inl Store_unavailable)"

section \<open>Admission\<close>

datatype acceptance = A_accepted | A_duplicate | A_conflict | A_unavailable

text \<open>The outcome of looking up the completion of an event under every configured chat.\<close>

datatype lookup = L_conflict | L_completed bool

definition read_session :: "reply \<Rightarrow> session_binding option" where
  "read_session r = (case r of R_read _ sess _ _ \<Rightarrow> sess | _ \<Rightarrow> None)"

fun find_completed :: "'st world \<Rightarrow> notification \<Rightarrow> string \<Rightarrow> string list \<Rightarrow> bool \<Rightarrow> ('st, lookup) action" where
  "find_completed W event fp [] completed = ret (L_completed completed)"
| "find_completed W event fp (candidate # rest) completed = (\<lambda>c.
     (case w_find W (c_step c) candidate (event_id event) of
        Inl e \<Rightarrow> (Inl e, c)
      | Inr None \<Rightarrow> find_completed W event fp rest completed c
      | Inr (Some found) \<Rightarrow>
          seq (lift (verifiedProof found candidate (event_id event))) (\<lambda>p.
            if candidate \<noteq> canonical_chat_jid event \<or> cm_sequence (cp_marker p) \<noteq> chat_sequence event \<or>
              cm_fingerprint (cp_marker p) \<noteq> fp then ret L_conflict
            else seq (eval_script W (canonical_chat_jid event) Op_read) (\<lambda>r.
              if (case read_session r of Some b \<Rightarrow> session_binding_schema b \<and> cp_session p = b | None \<Rightarrow> False)
              then find_completed W event fp rest True else throw Session_failed)) c))"

definition snapshot_revisions :: "reply \<Rightarrow> (string \<times> string) option" where
  "snapshot_revisions r = (case r of R_snapshot rv _ idrev \<Rightarrow> Some (rv, idrev) | _ \<Rightarrow> None)"

fun accept_attempts :: "'st world \<Rightarrow> notification \<Rightarrow> string \<Rightarrow> nat \<Rightarrow> ('st, acceptance) action" where
  "accept_attempts W event fp 0 = throw Store_unavailable"
| "accept_attempts W event fp (Suc n) =
     seq (eval_script W (canonical_chat_jid event) Op_snapshot) (\<lambda>snap.
       case snapshot_revisions snap of
         Some (rv, idrev) \<Rightarrow>
           seq (find_completed W event fp (w_chats W) False) (\<lambda>found.
             case found of
               L_conflict \<Rightarrow> ret A_conflict
             | L_completed completed \<Rightarrow>
                 seq (eval_script W (canonical_chat_jid event)
                   (Op_accept rv (event_id event) fp (show_nat (chat_sequence event)) event completed
                     (canonical_chat_jid event) idrev)) (\<lambda>r.
                   if r = R_retry then accept_attempts W event fp n
                   else if r = R_accepted then ret A_accepted
                   else if r = R_duplicate then ret A_duplicate
                   else if r = R_conflict then ret A_conflict
                   else throw Store_unavailable))
       | None \<Rightarrow> throw Store_unavailable)"

definition repo_accept :: "'st world \<Rightarrow> notification \<Rightarrow> ('st, acceptance) action" where
  "repo_accept W input = catch
     (seq (lift (reparse (w_parse W) (w_policy W) input)) (\<lambda>event.
      seq (lift (fingerprint W event)) (\<lambda>fp.
      seq (lift (allowed W (canonical_chat_jid event))) (\<lambda>_.
        durable W (accept_attempts W event fp 8)))))
     (\<lambda>_. ret A_unavailable)"

section \<open>The application fence\<close>

definition first_chat :: "'st world \<Rightarrow> string" where
  "first_chat W = hd (w_chats W)"

definition acquireApp :: "'st world \<Rightarrow> string \<Rightarrow> nat \<Rightarrow> ('st, fence option) action" where
  "acquireApp W ow leaseMs =
     seq (lift (andThen (owner_arg ow) (\<lambda>o1. andThen (ms_arg leaseMs) (\<lambda>m. Inr (o1, m))))) (\<lambda>(o1, m).
     seq (write_op W (first_chat W) (Op_app_acquire o1 m)) (\<lambda>r. lift (acquireResult r ow)))"

definition renewApp :: "'st world \<Rightarrow> fence \<Rightarrow> nat \<Rightarrow> ('st, fence option) action" where
  "renewApp W f leaseMs =
     seq (lift (checked fence_schema f Lease_lost)) (\<lambda>f.
     seq (lift (ms_arg leaseMs)) (\<lambda>m.
     seq (write_op W (first_chat W) (Op_app_renew (f_owner f) (f_epoch f) m)) (\<lambda>r.
       lift (acquireResult r (f_owner f)))))"

definition releaseApp :: "'st world \<Rightarrow> fence \<Rightarrow> ('st, bool) action" where
  "releaseApp W f =
     seq (lift (checked fence_schema f Lease_lost)) (\<lambda>f.
     seq (write_op W (first_chat W) (Op_app_release (f_owner f) (f_epoch f))) (\<lambda>r. ret (r = R_ok)))"

section \<open>Chat state, claims and leases\<close>

definition chat_state_schema :: "chat_state \<Rightarrow> bool" where
  "chat_state_schema s \<longleftrightarrow> chat_jid_schema (cst_chat s) \<and> counter_schema (lastCompletedSequence s) \<and>
     (case cst_session s of Some b \<Rightarrow> session_binding_schema b | None \<Rightarrow> True) \<and>
     (case gapSinceMs s of Some g \<Rightarrow> counter_schema g | None \<Rightarrow> True)"

definition stored_session :: "session_binding option \<Rightarrow> error_class + session_binding option" where
  "stored_session sess = (case sess of
     None \<Rightarrow> Inr None
   | Some b \<Rightarrow> andThen (checked session_binding_schema b Session_failed) (\<lambda>b. Inr (Some b)))"

definition readChat :: "'st world \<Rightarrow> string \<Rightarrow> ('st, chat_state) action" where
  "readChat W chat =
     seq (read_op W chat Op_read) (\<lambda>r.
       case r of
         R_read cur sess pause gap \<Rightarrow>
           lift (andThen (stored_session sess) (\<lambda>sess.
             checked chat_state_schema \<lparr>cst_chat = chat, lastCompletedSequence = dval cur, cst_session = sess,
               cst_pause = pause, gapSinceMs = gap\<rparr> Store_unavailable))
       | _ \<Rightarrow> throw Store_unavailable)"

definition bindSession :: "'st world \<Rightarrow> claimed_work \<Rightarrow> session_binding \<Rightarrow> ('st, bool) action" where
  "bindSession W work session =
     seq (lift (checked session_binding_schema session Session_failed)) (\<lambda>b.
       if sb_chat b \<noteq> work_chat work then throw Session_failed
       else ownedWrite W work (\<lambda>w. Op_bind w b))"

datatype claim_result = CR_claimed claimed_work | CR_empty | CR_waiting | CR_paused | CR_lost

definition granted_ownership :: "fence \<Rightarrow> string \<Rightarrow> string option \<Rightarrow> nat \<Rightarrow> error_class + ownership" where
  "granted_ownership app ow ep u =
     andThen (fence_of ow ep u) (\<lambda>f.
       checked ownership_schema \<lparr>own_app = app, own_chat = f\<rparr> Store_unavailable)"

definition claim_reply :: "'st world \<Rightarrow> string \<Rightarrow> fence \<Rightarrow> string \<Rightarrow> reply \<Rightarrow> ('st, claim_result) action" where
  "claim_reply W chat app ow r = (case r of
       R_empty \<Rightarrow> ret CR_empty
     | R_waiting \<Rightarrow> ret CR_waiting
     | R_paused \<Rightarrow> ret CR_paused
     | R_lost \<Rightarrow> ret CR_lost
     | R_claimed i raw ep u \<Rightarrow>
         lift (andThen (reparse (w_parse W) (w_policy W) raw) (\<lambda>event.
           if canonical_chat_jid event \<noteq> chat then Inl Store_unavailable
           else andThen (granted_ownership app ow ep u) (\<lambda>own.
             Inr (CR_claimed \<lparr>cw_streamId = i, cw_event = event, cw_ownership = own\<rparr>))))
     | _ \<Rightarrow> throw Store_unavailable)"

definition claimNext :: "'st world \<Rightarrow> string \<Rightarrow> fence \<Rightarrow> string \<Rightarrow> nat \<Rightarrow> nat \<Rightarrow> ('st, claim_result) action" where
  "claimNext W chat app ow leaseMs gapTimeoutMs =
     seq (lift (checked fence_schema app Lease_lost)) (\<lambda>app.
     seq (lift (owner_arg ow)) (\<lambda>o1.
     seq (lift (ms_arg leaseMs)) (\<lambda>m.
     seq (lift (ms_arg gapTimeoutMs)) (\<lambda>g.
     seq (write_op W chat (Op_claim (f_owner app) (f_epoch app) o1 m g)) (\<lambda>r.
       claim_reply W chat app ow r)))))"

definition repo_renew :: "'st world \<Rightarrow> claimed_work \<Rightarrow> nat \<Rightarrow> ('st, ownership option) action" where
  "repo_renew W work leaseMs =
     seq (lift (argsFor W work)) (\<lambda>w.
     seq (lift (ms_arg leaseMs)) (\<lambda>m.
     seq (write_op W (work_chat work) (Op_renew w m)) (\<lambda>r.
       case r of
         R_lost \<Rightarrow> ret None
       | R_fence ep u \<Rightarrow>
           lift (andThen (granted_ownership (own_app (cw_ownership work)) (f_owner (own_chat (cw_ownership work))) ep u)
             (\<lambda>own. Inr (Some own)))
       | _ \<Rightarrow> throw Store_unavailable)))"

definition repo_pause :: "'st world \<Rightarrow> claimed_work \<Rightarrow> pause_reason \<Rightarrow> ('st, bool) action" where
  "repo_pause W work reason = ownedWrite W work (\<lambda>w. Op_pause w reason)"

definition repo_complete :: "'st world \<Rightarrow> claimed_work \<Rightarrow> completion_proof \<Rightarrow> ('st, bool) action" where
  "repo_complete W work value =
     seq (lift (verifiedProof value (work_chat work) (event_id (cw_event work)))) (\<lambda>proof.
     seq (lift (fingerprint W (cw_event work))) (\<lambda>fp.
       if cm_sequence (cp_marker proof) \<noteq> chat_sequence (cw_event work) \<or> cm_fingerprint (cp_marker proof) \<noteq> fp
       then ret False
       else durable W (\<lambda>c.
         (case w_find W (c_step c) (work_chat work) (event_id (cw_event work)) of
            Inl e \<Rightarrow> (Inl e, c)
          | Inr None \<Rightarrow> (Inr False, c)
          | Inr (Some d) \<Rightarrow>
              seq (lift (verifiedProof d (work_chat work) (event_id (cw_event work)))) (\<lambda>d.
                if d \<noteq> proof then ret False
                else seq (lift (argsFor W work)) (\<lambda>w.
                  seq (eval_script W (work_chat work) (Op_complete w (cp_session proof) (cm_sends (cp_marker proof))))
                    (\<lambda>r. ret (r = R_ok)))) c))))"

definition checkWork :: "'st world \<Rightarrow> claimed_work \<Rightarrow> ('st, bool) action" where
  "checkWork W work =
     seq (lift (argsFor W work)) (\<lambda>w.
     seq (write_op W (work_chat work) (Op_check_work w)) (\<lambda>r c.
       case r of
         R_until (Some a) (Some b) \<Rightarrow>
           if 1 \<le> a \<and> a \<le> max_safe \<and> 1 \<le> b \<and> b \<le> max_safe \<and> w_clock W (c_step c) \<le> max_safe
           then (Inr (w_clock W (c_step c) < a \<and> w_clock W (c_step c) < b), c)
           else (Inl Store_unavailable, c)
       | R_until _ _ \<Rightarrow> (Inl Store_unavailable, c)
       | _ \<Rightarrow> (Inr False, c)))"

datatype turn_state = T_fresh | T_started | T_lost

definition turnState :: "'st world \<Rightarrow> claimed_work \<Rightarrow> ('st, turn_state) action" where
  "turnState W work =
     seq (lift (argsFor W work)) (\<lambda>w.
     seq (read_op W (work_chat work) (Op_turn_state w)) (\<lambda>r.
       case r of
         R_lost \<Rightarrow> ret T_lost
       | R_turn None \<Rightarrow> ret T_fresh
       | R_turn (Some ev) \<Rightarrow> if ev \<noteq> event_id (cw_event work) then throw Session_failed else ret T_started
       | _ \<Rightarrow> throw Store_unavailable))"

definition beginTurn :: "'st world \<Rightarrow> claimed_work \<Rightarrow> ('st, bool) action" where
  "beginTurn W work = ownedWrite W work Op_begin_turn"

section \<open>The mutation journal\<close>

definition attempt_matches :: "claimed_work \<Rightarrow> mutation_state \<Rightarrow> bool" where
  "attempt_matches work a \<longleftrightarrow> mu_eventId a = event_id (cw_event work) \<and> mu_chat a = work_chat work \<and>
     mu_ownership a = cw_ownership work"

definition journal_begin :: "'st world \<Rightarrow> claimed_work \<Rightarrow> mutation_state \<Rightarrow> ('st, bool) action" where
  "journal_begin W work value =
     seq (lift (checked mutation_attempt_schema value Mutation_uncertain)) (\<lambda>a.
       if \<not> attempt_matches work a then ret False
       else ownedWrite W work (\<lambda>w. Op_journal_begin w (mu_attemptId a) (Legacy a)))"

definition native_begin :: "'st world \<Rightarrow> claimed_work \<Rightarrow> mutation_state \<Rightarrow> ('st, bool) action" where
  "native_begin W work value =
     seq (lift (checked mutation_attempt_schema value Mutation_uncertain)) (\<lambda>a.
       if \<not> attempt_matches work a then ret False
       else seq (readChat W (work_chat work)) (\<lambda>chat.
         case cst_session chat of
           None \<Rightarrow> ret False
         | Some b \<Rightarrow>
             seq (lift (fingerprint W (cw_event work))) (\<lambda>fp.
             seq (lift (checked journal_envelope_schema (Envelope fp b a) Mutation_uncertain)) (\<lambda>_.
               ownedWrite W work (\<lambda>w. Op_native_journal_begin w (mu_attemptId a) fp b a b)))))"

text \<open>\<open>iso_text\<close> is the ISO text of the local clock; \<open>new Date\<close> fails beyond its range.\<close>

definition journal_confirm :: "'st world \<Rightarrow> (nat \<Rightarrow> string) \<Rightarrow> claimed_work \<Rightarrow> string \<Rightarrow> string \<Rightarrow> ('st, bool) action" where
  "journal_confirm W iso_text work attemptId messageId =
     seq (lift (checked opaque_id attemptId Mutation_uncertain)) (\<lambda>i.
     seq (lift (checked message_id_schema messageId Mutation_uncertain)) (\<lambda>m c.
       if 8640000000000000 < w_clock W (c_step c) then (Inl Mutation_uncertain, c)
       else ownedWrite W work (\<lambda>w. Op_journal_transition w i (Some (m, iso_text (w_clock W (c_step c))))) c))"

definition journal_uncertain :: "'st world \<Rightarrow> claimed_work \<Rightarrow> string \<Rightarrow> ('st, bool) action" where
  "journal_uncertain W work attemptId =
     seq (lift (checked opaque_id attemptId Mutation_uncertain)) (\<lambda>i.
       ownedWrite W work (\<lambda>w. Op_journal_transition w i None))"

fun map_rows :: "(journal_row \<Rightarrow> error_class + 'b) \<Rightarrow> journal_row list \<Rightarrow> error_class + 'b list" where
  "map_rows f [] = Inr []"
| "map_rows f (r # rs) = andThen (f r) (\<lambda>x. andThen (map_rows f rs) (\<lambda>xs. Inr (x # xs)))"

definition journal_list :: "'st world \<Rightarrow> string \<Rightarrow> ('st, mutation_state list) action" where
  "journal_list W chat =
     seq (read_op W chat Op_journal_list) (\<lambda>r.
       case r of
         R_rows rows \<Rightarrow> lift (map_rows (\<lambda>row. journalState row chat) rows)
       | _ \<Rightarrow> throw Store_unavailable)"

definition native_list :: "'st world \<Rightarrow> string \<Rightarrow> ('st, mutation_state list) action" where
  "native_list W chat =
     seq (read_op W chat Op_journal_list) (\<lambda>r.
       case r of
         R_rows rows \<Rightarrow> lift (map_rows (\<lambda>row. andThen (journalRecord row chat) (\<lambda>(_, _, m). Inr m)) rows)
       | _ \<Rightarrow> throw Store_unavailable)"

datatype own_mutation = O_confirmed | O_uncertain | O_none

text \<open>One chat's rows: \<open>Inr None\<close> when an unresolved attempt on the destination decides, else the flag.\<close>

fun own_rows :: "string \<Rightarrow> session_binding option \<Rightarrow> string \<Rightarrow> string \<Rightarrow> journal_row list \<Rightarrow> bool \<Rightarrow>
    error_class + bool option" where
  "own_rows chat sess actual messageId [] confirmed = Inr (Some confirmed)"
| "own_rows chat sess actual messageId (Legacy m # rows) confirmed =
     andThen (journalState (Legacy m) chat) (\<lambda>m.
       if mu_destination m = actual then Inr None
       else own_rows chat sess actual messageId rows confirmed)"
| "own_rows chat sess actual messageId (Envelope fp b m # rows) confirmed =
     andThen (journalRecord (Envelope fp b m) chat) (\<lambda>(_, b, a).
       case sess of
         None \<Rightarrow> Inl Mutation_uncertain
       | Some s \<Rightarrow>
           if \<not> session_binding_schema s then Inl Session_failed
           else if b \<noteq> s then Inl Mutation_uncertain
           else if mu_destination a \<noteq> actual then own_rows chat sess actual messageId rows confirmed
           else case mu_status a of
             Confirmed mid _ \<Rightarrow> own_rows chat sess actual messageId rows (confirmed \<or> mid = messageId)
           | _ \<Rightarrow> Inr None)"

fun own_chats :: "'st world \<Rightarrow> string \<Rightarrow> string \<Rightarrow> string list \<Rightarrow> bool \<Rightarrow> ('st, own_mutation) action" where
  "own_chats W actual messageId [] confirmed = ret (if confirmed then O_confirmed else O_none)"
| "own_chats W actual messageId (chat # chats) confirmed =
     seq (eval_script W chat Op_read) (\<lambda>st.
     seq (eval_script W chat Op_journal_list) (\<lambda>rows.
       case (st, rows) of
         (R_read _ sess _ _, R_rows rows) \<Rightarrow>
           seq (lift (own_rows chat sess actual messageId rows confirmed)) (\<lambda>x.
             case x of
               None \<Rightarrow> ret O_uncertain
             | Some confirmed \<Rightarrow> own_chats W actual messageId chats confirmed)
       | _ \<Rightarrow> throw Store_unavailable))"

definition ownMutation :: "'st world \<Rightarrow> string \<Rightarrow> string \<Rightarrow> ('st, own_mutation) action" where
  "ownMutation W actual messageId =
     seq (lift (checked chat_jid_schema actual Mutation_uncertain)) (\<lambda>a.
     seq (lift (checked message_id_schema messageId Mutation_uncertain)) (\<lambda>m.
       serial (own_chats W a m (w_chats W) False)))"

end
