(* ===== verification/Repository_Repair.thy ===== *)
theory Repository_Repair
  imports Repository
begin

text \<open>
  The rest of the repository (\<open>src/session-controller/src/redis/repository.ts\<close>): checkpoint
  records, pending-entry recovery, and the operator's repair of an orphaned compaction.
\<close>

section \<open>Checkpoint records\<close>

definition checkpoint_prepare :: "'st world \<Rightarrow> claimed_work \<Rightarrow> checkpoint_record \<Rightarrow> ('st, bool) action" where
  "checkpoint_prepare W work value =
     seq (lift (checked checkpoint_record_schema value Checkpoint_invalid)) (\<lambda>r.
       case cr_recovery r of
         None \<Rightarrow> ret False
       | Some rb \<Rightarrow>
           if cr_phase r \<noteq> Prepared \<or> ck_chat (cr_checkpoint r) \<noteq> work_chat work \<or>
             int (ck_lastSequence (cr_checkpoint r)) \<noteq> int (chat_sequence (cw_event work)) - 1
           then ret False
           else seq (lift (checked recovery_binding_schema rb Checkpoint_invalid)) (\<lambda>rb.
             if rb_eventId rb \<noteq> event_id (cw_event work) then ret False
             else seq (lift (fingerprint W (cw_event work))) (\<lambda>fp.
               if rb_fingerprint rb \<noteq> fp \<or> rb_streamId rb \<noteq> cw_streamId work \<or>
                 sb_chat (rb_session rb) \<noteq> work_chat work
               then ret False
               else ownedWrite W work (\<lambda>w. Op_checkpoint_prepare w r (rb_session rb)))))"

fun target_phase :: "transition_target \<Rightarrow> string \<Rightarrow> checkpoint_phase" where
  "target_phase To_compacted entry = Compacted entry"
| "target_phase To_restored entry = Restored entry"

definition checkpoint_transition :: "'st world \<Rightarrow> claimed_work \<Rightarrow> string \<Rightarrow> transition_target \<Rightarrow> string \<Rightarrow>
    ('st, bool) action" where
  "checkpoint_transition W work checkpointId phase compactionEntryId =
     seq (lift (checked opaque_id checkpointId Checkpoint_invalid)) (\<lambda>i.
     seq (lift (checked entry_id_schema compactionEntryId Checkpoint_invalid)) (\<lambda>entry.
       durable W
         (seq (eval_script W (work_chat work) Op_checkpoint_latest) (\<lambda>r.
            case r of
              R_checkpoint (Some raw) \<Rightarrow>
                seq (lift (checked checkpoint_record_schema raw Checkpoint_invalid)) (\<lambda>current.
                seq (lift (checked checkpoint_record_schema (current\<lparr>cr_phase := target_phase phase entry\<rparr>) Checkpoint_invalid)) (\<lambda>next.
                seq (lift (argsFor W work)) (\<lambda>w.
                seq (eval_script W (work_chat work) (Op_checkpoint_transition w i phase entry raw next)) (\<lambda>r.
                  ret (r = R_ok)))))
            | _ \<Rightarrow> ret False))))"

definition checkpoint_latest :: "'st world \<Rightarrow> string \<Rightarrow> ('st, checkpoint_record option) action" where
  "checkpoint_latest W chat =
     seq (read_op W chat Op_checkpoint_latest) (\<lambda>r.
       case r of
         R_checkpoint (Some raw) \<Rightarrow>
           seq (lift (checked checkpoint_record_schema raw Checkpoint_invalid)) (\<lambda>c. ret (Some c))
       | _ \<Rightarrow> ret None)"

section \<open>Pending entries\<close>

datatype pel_recovery = PEL_ok stream_id nat nat | PEL_lost | PEL_busy | PEL_paused

definition recovery_count :: "nat \<Rightarrow> bool" where
  "recovery_count n \<longleftrightarrow> 1 \<le> n \<and> n \<le> 128"

definition recoverPending :: "'st world \<Rightarrow> string \<Rightarrow> fence \<Rightarrow> string \<Rightarrow> stream_id \<Rightarrow> nat \<Rightarrow> ('st, pel_recovery) action" where
  "recoverPending W chat app consumer start batch =
     seq (lift (checked fence_schema app Lease_lost)) (\<lambda>app.
     seq (lift (checked stream_id_schema start Store_unavailable)) (\<lambda>start.
     seq (lift (checked recovery_count batch Config_invalid)) (\<lambda>batch.
     seq (lift (owner_arg consumer)) (\<lambda>consumer.
     seq (write_op W chat (Op_recover_pel (f_owner app) (f_epoch app) consumer start batch)) (\<lambda>r.
       case r of
         R_lost \<Rightarrow> ret PEL_lost
       | R_busy \<Rightarrow> ret PEL_busy
       | R_paused \<Rightarrow> ret PEL_paused
       | R_pel next claimed deleted \<Rightarrow>
           if stream_id_schema next \<and> claimed \<le> 128 \<and> deleted \<le> 1280 then ret (PEL_ok next claimed deleted)
           else throw Store_unavailable
       | _ \<Rightarrow> throw Store_unavailable)))))"

section \<open>Repair of an orphaned compaction\<close>

record repair_claim =
  rc_work :: claimed_work
  rc_binding :: session_binding
  rc_checkpoint :: checkpoint_record
  rc_intent :: "string option"

datatype repair_result = RR_claimed repair_claim | RR_ineligible | RR_intent_required | RR_unsafe | RR_busy | RR_lost

definition legacy_intent_schema :: "string \<Rightarrow> bool" where
  "legacy_intent_schema s = event_fingerprint_schema s"

text \<open>Whatever fails after the script granted the repair fence, the fence is released again.\<close>

definition release_on_error :: "'st world \<Rightarrow> string \<Rightarrow> fence \<Rightarrow> string \<Rightarrow> string option \<Rightarrow> error_class + 'a \<Rightarrow> ('st, 'a) action" where
  "release_on_error W chat app ow ep result =
     (case result of
        Inr x \<Rightarrow> ret x
      | Inl e \<Rightarrow>
          seq (catch (seq (write_op W chat (Op_repair_release_fence (f_owner app) (f_epoch app) ow (or0 ep))) (\<lambda>_. ret ()))
                 (\<lambda>_. ret ()))
            (\<lambda>_. throw Checkpoint_invalid))"

definition head_sequence :: "checkpoint_record \<Rightarrow> notification \<Rightarrow> bool" where
  "head_sequence r event \<longleftrightarrow> int (ck_lastSequence (cr_checkpoint r)) = int (chat_sequence event) - 1"

definition parse_intent_reply :: "'st world \<Rightarrow> string \<Rightarrow> fence \<Rightarrow> string \<Rightarrow> stream_id \<Rightarrow> notification \<Rightarrow>
    session_binding \<Rightarrow> checkpoint_record \<Rightarrow> string option \<Rightarrow> nat \<Rightarrow> error_class + repair_result" where
  "parse_intent_reply W chat app ow i raw b c ep u =
     andThen (reparse (w_parse W) (w_policy W) raw) (\<lambda>event.
     andThen (checked session_binding_schema b Session_failed) (\<lambda>b.
     andThen (checked checkpoint_record_schema c Checkpoint_invalid) (\<lambda>prepared.
       if canonical_chat_jid event \<noteq> chat \<or> sb_chat b \<noteq> chat \<or> cr_phase prepared \<noteq> Prepared \<or>
         cr_recovery prepared \<noteq> None \<or> ck_chat (cr_checkpoint prepared) \<noteq> chat \<or> \<not> head_sequence prepared event
       then Inl Checkpoint_invalid
       else andThen (checked stream_id_schema i Store_unavailable) (\<lambda>i.
         andThen (granted_ownership app ow ep u) (\<lambda>own.
           Inr (RR_claimed \<lparr>rc_work = \<lparr>cw_streamId = i, cw_event = event, cw_ownership = own\<rparr>,
             rc_binding = b, rc_checkpoint = prepared, rc_intent = None\<rparr>))))))"

definition createCompactionRepairIntent :: "'st world \<Rightarrow> string \<Rightarrow> fence \<Rightarrow> string \<Rightarrow> nat \<Rightarrow> ('st, repair_result) action" where
  "createCompactionRepairIntent W chat app ow leaseMs =
     seq (lift (checked fence_schema app Lease_lost)) (\<lambda>app.
     seq (lift (owner_arg ow)) (\<lambda>o1.
     seq (lift (ms_arg leaseMs)) (\<lambda>m.
     seq (write_op W chat (Op_repair_intent (f_owner app) (f_epoch app) o1 m chat)) (\<lambda>r.
       case r of
         R_ineligible \<Rightarrow> ret RR_ineligible
       | R_unsafe \<Rightarrow> ret RR_unsafe
       | R_busy \<Rightarrow> ret RR_busy
       | R_lost \<Rightarrow> ret RR_lost
       | R_repair i raw b c ep u \<Rightarrow>
           if ep = None then throw Store_unavailable
           else release_on_error W chat app ow ep (parse_intent_reply W chat app ow i raw b c ep u)
       | _ \<Rightarrow> throw Store_unavailable))))"

definition parse_claim_reply :: "'st world \<Rightarrow> string \<Rightarrow> fence \<Rightarrow> string \<Rightarrow> string \<Rightarrow> stream_id \<Rightarrow> notification \<Rightarrow>
    session_binding \<Rightarrow> checkpoint_record \<Rightarrow> string option \<Rightarrow> nat \<Rightarrow> error_class + repair_result" where
  "parse_claim_reply W chat app ow intent i raw b c ep u =
     andThen (reparse (w_parse W) (w_policy W) raw) (\<lambda>event.
       if canonical_chat_jid event \<noteq> chat then Inl Store_unavailable
       else andThen (checked session_binding_schema b Session_failed) (\<lambda>b.
         if sb_chat b \<noteq> chat then Inl Session_failed
         else andThen (checked checkpoint_record_schema c Checkpoint_invalid) (\<lambda>c.
           if cr_phase c \<noteq> Prepared \<or> ck_chat (cr_checkpoint c) \<noteq> chat \<or> \<not> head_sequence c event
           then Inl Checkpoint_invalid
           else andThen (granted_ownership app ow ep u) (\<lambda>own.
             case cr_recovery c of
               Some rb \<Rightarrow>
                 andThen (checked recovery_binding_schema rb Checkpoint_invalid) (\<lambda>rb.
                 andThen (fingerprint W event) (\<lambda>fp.
                   if rb_eventId rb \<noteq> event_id event \<or> rb_fingerprint rb \<noteq> fp \<or> rb_streamId rb \<noteq> i \<or> rb_session rb \<noteq> b
                   then Inl Checkpoint_invalid
                   else Inr (RR_claimed \<lparr>rc_work = \<lparr>cw_streamId = i, cw_event = event, cw_ownership = own\<rparr>,
                     rc_binding = b, rc_checkpoint = c, rc_intent = None\<rparr>)))
             | None \<Rightarrow>
                 if intent = '''' then Inl Checkpoint_invalid
                 else Inr (RR_claimed \<lparr>rc_work = \<lparr>cw_streamId = i, cw_event = event, cw_ownership = own\<rparr>,
                   rc_binding = b, rc_checkpoint = c, rc_intent = Some intent\<rparr>)))))"

definition intent_arg :: "string option \<Rightarrow> error_class + string" where
  "intent_arg digest = (case digest of None \<Rightarrow> Inr '''' | Some d \<Rightarrow> checked legacy_intent_schema d Config_invalid)"

definition claimCompactionRepair :: "'st world \<Rightarrow> string \<Rightarrow> fence \<Rightarrow> string \<Rightarrow> nat \<Rightarrow> string option \<Rightarrow>
    ('st, repair_result) action" where
  "claimCompactionRepair W chat app ow leaseMs digest =
     seq (lift (checked fence_schema app Lease_lost)) (\<lambda>app.
     seq (lift (intent_arg digest)) (\<lambda>intent.
     seq (lift (owner_arg ow)) (\<lambda>o1.
     seq (lift (ms_arg leaseMs)) (\<lambda>m.
     seq (write_op W chat (Op_repair_claim (f_owner app) (f_epoch app) o1 m chat intent)) (\<lambda>r.
       case r of
         R_ineligible \<Rightarrow> ret RR_ineligible
       | R_intent_required \<Rightarrow> ret RR_intent_required
       | R_unsafe \<Rightarrow> ret RR_unsafe
       | R_busy \<Rightarrow> ret RR_busy
       | R_lost \<Rightarrow> ret RR_lost
       | R_repair i raw b c ep u \<Rightarrow>
           if ep = None then throw Store_unavailable
           else release_on_error W chat app ow ep (parse_claim_reply W chat app ow intent i raw b c ep u)
       | _ \<Rightarrow> throw Store_unavailable)))))"

definition releaseCompactionRepair :: "'st world \<Rightarrow> repair_claim \<Rightarrow> ('st, bool) action" where
  "releaseCompactionRepair W claim =
     seq (lift (checked session_binding_schema (rc_binding claim) Session_failed)) (\<lambda>b.
     seq (lift (checked checkpoint_record_schema (rc_checkpoint claim) Checkpoint_invalid)) (\<lambda>prepared.
       if cr_phase prepared \<noteq> Prepared then ret False
       else ownedWrite W (rc_work claim) (\<lambda>w. Op_repair_release w b)))"

text \<open>The digest of a record without recovery binding; \<open>claim.checkpoint.recovery\<close> is refused.\<close>

definition legacyCompactionRepairDigest :: "'st world \<Rightarrow> repair_claim \<Rightarrow> file_generation \<Rightarrow> error_class + string" where
  "legacyCompactionRepairDigest W claim generation =
     (if cr_recovery (rc_checkpoint claim) \<noteq> None then Inl Checkpoint_invalid
      else legacyRepairDigest (w_sha W) (cw_event (rc_work claim)) (cw_streamId (rc_work claim)) (rc_binding claim)
        (rc_checkpoint claim) generation)"

text \<open>
  What the abort proves of the claim before it talks to Redis: every binding of a bound record
  agrees with the claimed work, the session and the proved file generation; an unbound record
  needs the operator's digest of exactly this tuple.
\<close>

definition recovery_evidence :: "'st world \<Rightarrow> repair_claim \<Rightarrow> file_generation \<Rightarrow> error_class + bool" where
  "recovery_evidence W claim generation =
     (case cr_recovery (rc_checkpoint claim) of
        None \<Rightarrow> Inr True
      | Some rb \<Rightarrow>
          if rb_eventId rb \<noteq> event_id (cw_event (rc_work claim)) then Inr False
          else andThen (fingerprint W (cw_event (rc_work claim))) (\<lambda>fp.
            Inr (rb_fingerprint rb = fp \<and> rb_streamId rb = cw_streamId (rc_work claim) \<and>
              rb_session rb = rc_binding claim \<and> rb_generation rb = generation)))"

definition legacy_evidence :: "'st world \<Rightarrow> repair_claim \<Rightarrow> file_generation \<Rightarrow> string \<Rightarrow> error_class + bool" where
  "legacy_evidence W claim generation intent =
     (if cr_recovery (rc_checkpoint claim) \<noteq> None then Inr True
      else if intent = '''' then Inr False
      else andThen (legacyRepairDigest (w_sha W) (cw_event (rc_work claim)) (cw_streamId (rc_work claim))
             (rc_binding claim) (rc_checkpoint claim) generation)
           (\<lambda>d. Inr (d = intent)))"

definition abort_script :: "'st world \<Rightarrow> repair_claim \<Rightarrow> string \<Rightarrow> ('st, bool) action" where
  "abort_script W claim intent =
     seq (eval_script W (work_chat (rc_work claim)) Op_checkpoint_latest) (\<lambda>r.
       case r of
         R_checkpoint (Some raw) \<Rightarrow>
           seq (lift (checked checkpoint_record_schema raw Checkpoint_invalid)) (\<lambda>current.
             if cr_phase current \<noteq> Prepared \<or> current \<noteq> rc_checkpoint claim then ret False
             else seq (lift (argsFor W (rc_work claim))) (\<lambda>w.
               seq (eval_script W (work_chat (rc_work claim))
                  (Op_checkpoint_abort w (rc_binding claim) (cr_id current) raw (current\<lparr>cr_phase := Aborted\<rparr>) intent)) (\<lambda>r.
                 ret (r = R_ok))))
       | _ \<Rightarrow> ret False)"

definition abortCompactionRepair :: "'st world \<Rightarrow> repair_claim \<Rightarrow> file_generation \<Rightarrow> ('st, bool) action" where
  "abortCompactionRepair W claim fileGeneration =
     seq (lift (checked session_binding_schema (rc_binding claim) Session_failed)) (\<lambda>b.
     seq (lift (checked checkpoint_record_schema (rc_checkpoint claim) Checkpoint_invalid)) (\<lambda>prepared.
     seq (lift (checked file_generation_schema fileGeneration Restore_failed)) (\<lambda>generation.
       if cr_phase prepared \<noteq> Prepared \<or> sb_chat b \<noteq> work_chat (rc_work claim) then ret False
       else seq (lift (recovery_evidence W claim generation)) (\<lambda>bound.
         if \<not> bound then ret False
         else seq (lift (intent_arg (rc_intent claim))) (\<lambda>intent.
         seq (lift (legacy_evidence W claim generation intent)) (\<lambda>authorized.
           if \<not> authorized then ret False
           else durable W (abort_script W claim intent)))))))"

end
