(* ===== verification/Repository_Facts.thy ===== *)
theory Repository_Facts
  imports Repository_Repair
begin

text \<open>
  What the repository's guarantees rest on: the identity revision counts the completions of all
  chats, every queued row was made from its own event by the repository, and the scripts that
  this and other processes run keep both.
\<close>

section \<open>The identity revision counts completions\<close>

definition idrev_kept :: "'st keyspace \<Rightarrow> 'st keyspace \<Rightarrow> bool" where
  "idrev_kept k k' \<longleftrightarrow> identityRevision (k_app k') = identityRevision (k_app k)"

lemma idrev_simple_ops:
  "idrev_kept k (snd (op_init R c k))" "idrev_kept k (snd (op_accept R now rv eid fp sq raw done c idrev k))"
  "idrev_kept k (snd (op_app_acquire now ow ms k))" "idrev_kept k (snd (op_app_renew now ow ep ms k))"
  "idrev_kept k (snd (op_app_release now ow ep k))" "idrev_kept k (snd (op_recover_pel R now ao ae cons start n k))"
  "idrev_kept k (snd (op_renew now w ms k))" "idrev_kept k (snd (op_check_work now w k))"
  "idrev_kept k (snd (op_turn_state now w k))" "idrev_kept k (snd (op_begin_turn now w k))"
  "idrev_kept k (snd (op_pause now w r k))" "idrev_kept k (snd (op_bind now w b k))"
  "idrev_kept k (snd (op_journal_begin now w a row k))"
  "idrev_kept k (snd (op_native_journal_begin now w a rfp rb t b k))"
  "idrev_kept k (snd (op_journal_transition now w a res k))"
  by (auto simp: idrev_kept_def op_init_def op_accept_def op_app_acquire_def op_app_renew_def op_app_release_def
      op_recover_pel_def op_renew_def op_check_work_def op_turn_state_def op_begin_turn_def op_pause_def
      op_bind_def op_journal_begin_def op_native_journal_begin_def op_journal_transition_def
      admitted_keys_def Let_def key_update_defs view_simps split: option.split prod.split)

lemma idrev_repair_ops:
  "idrev_kept k (snd (op_repair_intent R now ao ae ow ms c k))"
  "idrev_kept k (snd (op_repair_claim R now ao ae ow ms c i k))"
  "idrev_kept k (snd (op_repair_release_fence now ao ae ow ep k))"
  "idrev_kept k (snd (op_repair_release now w b k))"
  "idrev_kept k (snd (op_checkpoint_prepare now w t b k))"
  "idrev_kept k (snd (op_checkpoint_transition now w cid tg en ex nx k))"
  "idrev_kept k (snd (op_checkpoint_abort R now w b cid rw nx i k))"
  by (auto simp: idrev_kept_def op_repair_intent_def op_repair_claim_def op_repair_release_fence_def
      op_repair_release_def op_checkpoint_prepare_def op_checkpoint_transition_def op_checkpoint_abort_def
      Let_def key_update_defs view_simps split: option.split sum.split)

lemma idrev_claim: "ks_inv R k \<Longrightarrow> idrev_kept k (snd (op_claim R now ao ae ow ms g k))"
  by (simp add: idrev_kept_def epoch_claim)

lemma run_script_idrev:
  "ks_inv R k \<Longrightarrow> \<not> is_complete oper \<Longrightarrow> idrev_kept k (snd (run_script R now oper k))"
  by (cases oper)
    (simp_all add: idrev_simple_ops idrev_repair_ops idrev_claim,
     simp_all add: idrev_kept_def op_snapshot_def op_read_def op_journal_list_def op_checkpoint_latest_def)

text \<open>
  One run either keeps every cursor and the identity revision, or moves one cursor by one and
  increments the identity revision.
\<close>

definition completions :: "'st database \<Rightarrow> nat" where
  "completions d = cval (identityRevision (db_app d))"

definition chat_cursor :: "string \<Rightarrow> 'st database \<Rightarrow> nat" where
  "chat_cursor c d = cval (st_cursor (k_state (db_chat d c)))"

lemma run_script_completions:
  assumes "ks_inv R k"
  shows "cval (identityRevision (k_app (snd (run_script R now oper k)))) = cval (identityRevision (k_app k)) \<and>
      cval (st_cursor (k_state (snd (run_script R now oper k)))) = cval (st_cursor (k_state k)) \<or>
    cval (identityRevision (k_app (snd (run_script R now oper k)))) = Suc (cval (identityRevision (k_app k)))"
proof (cases "is_complete oper")
  case True
  then obtain w b sends where o: "oper = Op_complete w b sends" by (cases oper) auto
  show ?thesis
    using complete_cases [of now w k b sends R] assms
    by (auto simp: o completed_keys_def view_simps ks_inv_def counters_ok_def)
next
  case False
  show ?thesis
    using run_script_idrev [OF assms False, of now] run_script_turn [OF False, of k R now]
    by (simp add: idrev_kept_def turn_kept_def)
qed

lemma db_run_completions:
  assumes "db_inv R d"
  shows "completions (snd (db_run R now c oper d)) = completions d \<and>
      (\<forall>c'. chat_cursor c' (snd (db_run R now c oper d)) = chat_cursor c' d) \<or>
    completions (snd (db_run R now c oper d)) = Suc (completions d)"
proof -
  have "ks_inv R (view c d)" using assms by (simp add: db_inv_def)
  from run_script_completions [OF this, of now oper] show ?thesis
    by (auto simp: db_run_def case_prod_beta Let_def completions_def chat_cursor_def db_put_def view_def)
qed

context redis_streams
begin

lemma db_runs_completions:
  "db_runs R d d' \<Longrightarrow> db_inv R d \<Longrightarrow> completions d \<le> completions d' \<and>
    (completions d' = completions d \<longrightarrow> (\<forall>c. chat_cursor c d' = chat_cursor c d))"
proof (induction rule: db_runs.induct)
  case (run d d' c oper now)
  have "db_inv R d'" using run.hyps(1) run.prems db_runs_inv by blast
  from db_run_completions [OF this, of now c oper] run.IH [OF run.prems] show ?case by auto
qed simp

end

lemma db_runs_trans: "db_runs R d2 d3 \<Longrightarrow> db_runs R d1 d2 \<Longrightarrow> db_runs R d1 d3"
  by (induction rule: db_runs.induct) (auto intro: db_runs.intros)

section \<open>Rows are made from their events\<close>

definition row_of :: "(string \<Rightarrow> string) \<Rightarrow> string \<Rightarrow> string \<Rightarrow> event_row \<Rightarrow> bool" where
  "row_of sha c ev e \<longleftrightarrow> event_id (er_raw e) = ev \<and> canonical_chat_jid (er_raw e) = c \<and>
     notification_schema (er_raw e) \<and> er_fp e = fingerprint_digest sha (er_raw e) \<and>
     er_seq e = show_nat (chat_sequence (er_raw e))"

definition rows_of :: "(string \<Rightarrow> string) \<Rightarrow> 'st database \<Rightarrow> bool" where
  "rows_of sha d \<longleftrightarrow> (\<forall>c ev e. hget (k_events (db_chat d c)) ev = Some e \<longrightarrow> row_of sha c ev e)"

text \<open>The scripts that a repository runs: admission only with arguments computed from the event.\<close>

fun repo_op :: "(string \<Rightarrow> string) \<Rightarrow> string \<Rightarrow> script_op \<Rightarrow> bool" where
  "repo_op sha c (Op_accept rv eid fp sq raw done chat idrev) =
     (chat = c \<and> notification_schema raw \<and> canonical_chat_jid raw = c \<and> eid = event_id raw \<and>
      fp = fingerprint_digest sha raw \<and> sq = show_nat (chat_sequence raw))"
| "repo_op sha c oper = op_ok oper"

text \<open>A digest is written in hexadecimal.\<close>

definition hex_digest :: "(string \<Rightarrow> string) \<Rightarrow> bool" where
  "hex_digest sha \<longleftrightarrow> (\<forall>s. list_all is_hex (sha s))"

lemma bar_not_hex: "\<not> is_hex CHR ''|''"
  by (simp add: is_hex_def is_digit_def)

lemma repo_op_db: "hex_digest sha \<Longrightarrow> repo_op sha c oper \<Longrightarrow> db_op_ok c oper"
proof (cases oper)
  case (Op_accept rv eid fp sq raw dn chat idrev)
  assume h: "hex_digest sha" "repo_op sha c oper"
  have "CHR ''|'' \<notin> set (sha s)" for s
    using h(1) bar_not_hex by (auto simp: hex_digest_def list_all_iff)
  then show ?thesis
    using h(2) by (auto simp: Op_accept fingerprint_digest_def)
qed auto

lemma rows_of_run:
  assumes "rows_of sha d" "repo_op sha c oper"
  shows "rows_of sha (snd (db_run R now c oper d))"
proof -
  let ?k = "snd (run_script R now oper (view c d))"
  have put: "snd (db_run R now c oper d) = db_put c ?k d"
    by (simp add: db_run_def case_prod_beta Let_def)
  have old: "row_of sha c ev e" if "hget (k_events (view c d)) ev = Some e" for ev e
    using assms(1) that by (simp add: rows_of_def view_def)
  have "row_of sha c ev e" if e: "hget (k_events ?k) ev = Some e" for ev e
  proof (cases oper)
    case (Op_accept rv eid fp sq raw dn chat idrev)
    have "queue_kept (view c d) ?k \<or> k_events ?k =
        hset eid \<lparr>er_id = fst (xadd R now eid (k_stream (view c d))), er_fp = fp, er_seq = sq, er_raw = raw\<rparr> (k_events (view c d))"
      using accept_queue [of "view c d" R now rv eid fp sq raw dn chat idrev] by (auto simp: Op_accept)
    then show ?thesis
      using e old assms(2) by (auto simp: Op_accept queue_kept_def row_of_def split: if_splits)
  next
    case (Op_complete w b sends)
    have "queue_kept (view c d) ?k \<or> k_events ?k = hdel (wa_event w) (k_events (view c d))"
      using complete_queue [of "view c d" R now w b sends] by (auto simp: Op_complete)
    then show ?thesis
      using e old by (auto simp: queue_kept_def split: if_splits)
  qed (use e old run_script_queue [of oper "view c d" R now] in \<open>auto simp: queue_kept_def\<close>)
  then show ?thesis
    using assms(1) by (auto simp: put rows_of_def db_put_def)
qed

section \<open>Runs by repositories\<close>

inductive repo_runs :: "(string \<Rightarrow> string) \<Rightarrow> 'st stream_ops \<Rightarrow> 'st database \<Rightarrow> 'st database \<Rightarrow> bool" for sha R where
  idle: "repo_runs sha R d d"
| script: "repo_runs sha R d d' \<Longrightarrow> repo_op sha c oper \<Longrightarrow> repo_runs sha R d (snd (db_run R now c oper d'))"

lemma repo_runs_db: "repo_runs sha R d d' \<Longrightarrow> hex_digest sha \<Longrightarrow> db_runs R d d'"
  by (induction rule: repo_runs.induct) (auto intro: db_runs.intros repo_op_db)

lemma repo_runs_rows: "repo_runs sha R d d' \<Longrightarrow> rows_of sha d \<Longrightarrow> rows_of sha d'"
  by (induction rule: repo_runs.induct) (simp_all add: rows_of_run)

lemma repo_runs_trans: "repo_runs sha R d2 d3 \<Longrightarrow> repo_runs sha R d1 d2 \<Longrightarrow> repo_runs sha R d1 d3"
  by (induction rule: repo_runs.induct) (auto intro: repo_runs.intros)

text \<open>
  A world in which Redis streams behave as documented, the digest is hexadecimal, and the other
  processes run repositories too; and an event whose JSON text parses back to it.
\<close>

definition parses :: "'st world \<Rightarrow> notification \<Rightarrow> bool" where
  "parses W n \<longleftrightarrow> w_parse W (stringify (notification_json n)) = Some (notification_json n)"

definition sound_world :: "'st world \<Rightarrow> bool" where
  "sound_world W \<longleftrightarrow> stream_laws (w_streams W) \<and> hex_digest (w_sha W) \<and>
     (\<forall>n d. repo_runs (w_sha W) (w_streams W) d (w_others W n d))"

definition db_sound :: "'st world \<Rightarrow> 'st database \<Rightarrow> bool" where
  "db_sound W d \<longleftrightarrow> db_inv (w_streams W) d \<and> rows_of (w_sha W) d"

lemma sound_runs:
  assumes "sound_world W" "db_sound W d" "repo_runs (w_sha W) (w_streams W) d d'"
  shows "db_sound W d'" "db_runs (w_streams W) d d'"
proof -
  have R: "redis_streams (w_streams W)" using assms(1) by (simp add: sound_world_def redis_streams.intro)
  show runs: "db_runs (w_streams W) d d'"
    using assms by (intro repo_runs_db) (auto simp: sound_world_def)
  show "db_sound W d'"
    using assms redis_streams.db_runs_inv [OF R runs] repo_runs_rows [OF assms(3)] by (simp add: db_sound_def)
qed

lemma sound_others:
  assumes "sound_world W" "db_sound W d"
  shows "db_sound W (w_others W n d)"
  using sound_runs [OF assms, of "w_others W n d"] assms(1) by (simp add: sound_world_def)

lemma sound_run:
  assumes "sound_world W" "db_sound W d" "repo_op (w_sha W) c oper"
  shows "db_sound W (snd (db_run (w_streams W) now c oper d))"
  using sound_runs(1) [OF assms(1,2), of "snd (db_run (w_streams W) now c oper d)"]
    repo_runs.script [OF repo_runs.idle assms(3)] by blast

end
