(* ===== verification/Repository_Spec.thy ===== *)
theory Repository_Spec
  imports Repository_Facts
begin

text \<open>
  The properties of the repository: what an admission, a claim, a completion and a repair mean for
  the database, for every interleaving with other processes and every loss of messages.
\<close>

section \<open>Durability\<close>

text \<open>the result of a write reaches the caller only after a \<open>WAITAOF\<close> acknowledged it on a connection
that passed its baseline check; in every other case the caller gets \<open>store_unavailable\<close> and the
connection stays closed for all later operations.\<close>

theorem durable_or_closed:
  assumes "durable W m c = (r, c')" "durable W m2 c' = (r2, c2)"
  shows "(case r of
      Inr x \<Rightarrow> m c = (Inr x, c') \<and> w_baseline W (c_step c) \<and> w_waitaof W (c_step c')
    | Inl e \<Rightarrow> e = Store_unavailable \<and> r2 = Inl Store_unavailable \<and> c2 = c')"
proof (cases r)
  case (Inl e)
  have "e = Store_unavailable \<and> \<not> c_healthy c'" using durable_Inl assms(1) Inl by blast
  then show ?thesis using assms(2) Inl by (simp add: durable_def serial_def)
next
  case (Inr x)
  then show ?thesis using assms(1) by (simp add: durable_Inr)
qed

definition demo_world :: "list_stream world" where
  "demo_world = \<lparr>w_streams = list_streams, w_time = (\<lambda>n. n + 1), w_others = (\<lambda>_ d. d), w_delivery = (\<lambda>_. Delivered),
     w_baseline = (\<lambda>_. True), w_waitaof = (\<lambda>_. True), w_find = (\<lambda>_ _ _. Inr None), w_clock = (\<lambda>n. n + 1),
     w_sha = (\<lambda>_. replicate 64 CHR ''a''), w_parse = (\<lambda>_. Some (notification_json demo_event)),
     w_policy = demo_policy, w_chats = [''1@g.us'', ''9@lid'']\<rparr>"

definition demo_conn :: "list_stream conn" where
  "demo_conn = \<lparr>c_db = new_database (\<lambda>_. empty_stream), c_step = 0, c_healthy = True\<rparr>"

theorem durable_or_closed_witness:
  "fst (durable demo_world (ret True) (snd (durable (demo_world\<lparr>w_waitaof := (\<lambda>_. False)\<rparr>) (ret True) demo_conn))) =
    Inl Store_unavailable"
proof -
  have "durable (demo_world\<lparr>w_waitaof := (\<lambda>_. False)\<rparr>) (ret True) demo_conn =
      (Inl Store_unavailable, demo_conn\<lparr>c_healthy := False\<rparr>)"
    by (simp add: durable_def serial_def demo_conn_def demo_world_def ret_def)
  from durable_or_closed [OF this surjective_pairing]
  show ?thesis by (simp add: durable_def serial_def demo_conn_def demo_world_def ret_def)
qed

section \<open>Admission\<close>

lemma eval_sound:
  assumes "sound_world W" "db_sound W (c_db c)" "eval_script W chat oper c = (Inr r, c')" "repo_op (w_sha W) chat oper"
  shows "db_sound W (c_db c')" "db_runs (w_streams W) (c_db c) (c_db c')"
proof -
  let ?d = "w_others W (c_step c) (c_db c)"
  have runs: "repo_runs (w_sha W) (w_streams W) (c_db c) ?d"
    using assms(1) by (simp add: sound_world_def)
  have c': "c_db c' = snd (db_run (w_streams W) (w_time W (c_step c)) chat oper ?d)"
    using assms(3) by (simp add: eval_script_Inr)
  have "repo_runs (w_sha W) (w_streams W) (c_db c) (c_db c')"
    unfolding c' by (rule repo_runs.script [OF runs assms(4)])
  from sound_runs [OF assms(1,2) this]
  show "db_sound W (c_db c')" "db_runs (w_streams W) (c_db c) (c_db c')" .
qed

text \<open>When no candidate has a completion, the lookups run no script.\<close>

lemma find_completed_False:
  "find_completed W event fp chats b c = (Inr (L_completed False), c') \<Longrightarrow>
   \<not> b \<and> c' = c \<and> (\<forall>x \<in> set chats. w_find W (c_step c) x (event_id event) = Inr None)"
proof (induction chats arbitrary: b c)
  case Nil
  then show ?case by (simp add: ret_def)
next
  case (Cons x xs)
  have no: "find_completed W event fp xs True c1 \<noteq> (Inr (L_completed False), c')" for c1
    using Cons.IH by blast
  show ?case
    using Cons.prems Cons.IH no
    by (auto simp: seq_Inr lift_def ret_def throw_def split: option.splits sum.splits if_splits)
qed

lemma find_completed_sound:
  assumes "sound_world W"
  shows "db_sound W (c_db c) \<Longrightarrow> find_completed W event fp chats b c = (Inr x, c') \<Longrightarrow> db_sound W (c_db c')"
proof (induction chats arbitrary: b c)
  case (Cons y ys)
  have step: "db_sound W (c_db c1)" if "eval_script W (canonical_chat_jid event) Op_read c = (Inr r, c1)" for r c1
    using eval_sound(1) [OF assms Cons.prems(1) that] by simp
  show ?case
    using Cons.prems Cons.IH step
    by (auto simp: seq_Inr lift_def ret_def throw_def split: option.splits sum.splits if_splits)
qed (simp add: ret_def)

lemma reparse_accepts:
  assumes "parses W n" "reparse (w_parse W) (w_policy W) n = Inr e"
  shows "e = n" "notification_schema n" "admit (w_policy W) n = Inr n"
  using assms admit_same
  by (auto simp: parses_def reparse_def parsePayload_def notification_json_roundtrip simp del: stringify.simps split: if_splits)

lemma find_completed_True:
  assumes "find_completed W event fp chats b c = (Inr (L_completed True), c')"
  shows "b \<or> (\<exists>n p. canonical_chat_jid event \<in> set chats \<and> w_find W n (canonical_chat_jid event) (event_id event) = Inr (Some p) \<and>
    completion_proof_schema p \<and> cm_eventId (cp_marker p) = event_id event \<and> cm_chat (cp_marker p) = canonical_chat_jid event \<and>
    cm_sequence (cp_marker p) = chat_sequence event \<and> cm_fingerprint (cp_marker p) = fp)"
  using assms
proof (induction chats arbitrary: b c)
  case (Cons x xs)
  show ?case
  proof (cases "w_find W (c_step c) x (event_id event)")
    case (Inr v)
    show ?thesis
    proof (cases v)
      case None
      then show ?thesis using Cons Inr by auto
    next
      case (Some found)
      obtain p where p: "verifiedProof found x (event_id event) = Inr p" "x = canonical_chat_jid event"
        "cm_sequence (cp_marker p) = chat_sequence event" "cm_fingerprint (cp_marker p) = fp"
        using Cons.prems Inr Some
        by (auto simp: seq_Inr lift_def ret_def split: if_splits)
      then have "found = p" "completion_proof_schema p" "cm_eventId (cp_marker p) = event_id event" "cm_chat (cp_marker p) = x"
        by (auto simp: verifiedProof_def split: if_splits)
      then show ?thesis using p Inr Some by auto
    qed
  qed (use Cons.prems in auto)
qed (simp add: ret_def)

lemma db_run_snapshot:
  "fst (db_run R t c Op_snapshot d) = R_snapshot (or0 (st_revision (k_state (db_chat d c)))) (or0 (st_cursor (k_state (db_chat d c))))
     (or0 (identityRevision (db_app d)))"
  "db_app (snd (db_run R t c Op_snapshot d)) = db_app d"
  by (simp_all add: db_run_def op_snapshot_def view_def db_put_def)

lemma db_run_accept_reply:
  assumes "fst (db_run R t c (Op_accept rv eid fp sq raw done c idrev) d) = R_accepted"
  shows "idrev = or0 (identityRevision (db_app d))"
    "db_run R t c (Op_accept rv eid fp sq raw done c idrev) d =
      (R_accepted, db_put c (barrier (admitted_keys R t eid fp sq raw (identity_text c fp) (view c d))) d)"
    "\<not> done" "less_dec (or0 (st_cursor (k_state (db_chat d c)))) sq"
  using assms
  by (auto simp: db_run_def op_accept_def Let_def case_prod_beta view_def split: if_splits option.splits)

text \<open>Attempts of an admission that ended in a retry: snapshot, lookup, and an admission that was answered with \<open>retry\<close>.\<close>

inductive retried :: "'st world \<Rightarrow> notification \<Rightarrow> string \<Rightarrow> nat \<Rightarrow> 'st conn \<Rightarrow> 'st conn \<Rightarrow> bool" for W event fp where
  none: "retried W event fp 0 c c"
| again: "eval_script W (canonical_chat_jid event) Op_snapshot c = (Inr (R_snapshot rv cur idrev), c1) \<Longrightarrow>
    find_completed W event fp (w_chats W) False c1 = (Inr (L_completed dn), c2) \<Longrightarrow>
    eval_script W (canonical_chat_jid event) (Op_accept rv (event_id event) fp (show_nat (chat_sequence event)) event dn
      (canonical_chat_jid event) idrev) c2 = (Inr R_retry, c3) \<Longrightarrow>
    retried W event fp k c3 c0 \<Longrightarrow> retried W event fp (Suc k) c c0"

text \<open>The attempt that was accepted, from its snapshot on.\<close>

definition accepting :: "'st world \<Rightarrow> notification \<Rightarrow> string \<Rightarrow> 'st conn \<Rightarrow> 'st conn \<Rightarrow> 'st conn \<Rightarrow> bool" where
  "accepting W event fp c0 c1 c' \<longleftrightarrow> (\<exists>rv cur idrev.
     eval_script W (canonical_chat_jid event) Op_snapshot c0 = (Inr (R_snapshot rv cur idrev), c1) \<and>
     eval_script W (canonical_chat_jid event) (Op_accept rv (event_id event) fp (show_nat (chat_sequence event)) event False
       (canonical_chat_jid event) idrev) c1 = (Inr R_accepted, c'))"

lemma accept_attempts_accepted:
  assumes W: "sound_world W" and fp: "fp = fingerprint_digest (w_sha W) event" and ev: "notification_schema event"
  shows "db_sound W (c_db c) \<Longrightarrow> accept_attempts W event fp n c = (Inr A_accepted, c') \<Longrightarrow>
    \<exists>k c0 c1. k < n \<and> retried W event fp k c c0 \<and> accepting W event fp c0 c1 c' \<and> db_sound W (c_db c1) \<and>
      (\<forall>x \<in> set (w_chats W). w_find W (c_step c1) x (event_id event) = Inr None) \<and>
      db_runs (w_streams W) (c_db c1) (w_others W (c_step c1) (c_db c1)) \<and> db_sound W (w_others W (c_step c1) (c_db c1)) \<and>
      completions (w_others W (c_step c1) (c_db c1)) = completions (c_db c1) \<and> db_sound W (c_db c')"
proof (induction n arbitrary: c)
  case 0
  then show ?case by (simp add: throw_def)
next
  case (Suc n)
  let ?chat = "canonical_chat_jid event"
  let ?sq = "show_nat (chat_sequence event)"
  obtain snap c1 where s1: "eval_script W ?chat Op_snapshot c = (Inr snap, c1)"
    and rest: "(case snapshot_revisions snap of Some (rv, idrev) \<Rightarrow>
      seq (find_completed W event fp (w_chats W) False) (\<lambda>found. case found of
          L_conflict \<Rightarrow> ret A_conflict
        | L_completed completed \<Rightarrow>
            seq (eval_script W ?chat (Op_accept rv (event_id event) fp ?sq event completed ?chat idrev)) (\<lambda>r.
              if r = R_retry then accept_attempts W event fp n else if r = R_accepted then ret A_accepted
              else if r = R_duplicate then ret A_duplicate else if r = R_conflict then ret A_conflict
              else throw Store_unavailable))
      | None \<Rightarrow> throw Store_unavailable) c1 = (Inr A_accepted, c')"
    using Suc.prems(2) by (auto simp: seq_Inr)
  note e1 = s1 [unfolded eval_script_Inr]
  have snap: "snap = R_snapshot (or0 (st_revision (k_state (db_chat (w_others W (c_step c) (c_db c)) ?chat))))
      (or0 (st_cursor (k_state (db_chat (w_others W (c_step c) (c_db c)) ?chat)))) (or0 (identityRevision (db_app (c_db c1))))"
    using e1 by (simp add: db_run_snapshot)
  have sound1: "db_sound W (c_db c1)"
    using eval_sound(1) [OF W Suc.prems(1) s1] by simp
  obtain rv cur idrev where revs: "snap = R_snapshot rv cur idrev" "snapshot_revisions snap = Some (rv, idrev)"
    "idrev = or0 (identityRevision (db_app (c_db c1)))"
    by (simp add: snap snapshot_revisions_def)
  obtain found c2 where f: "find_completed W event fp (w_chats W) False c1 = (Inr found, c2)"
    and rest2: "(case found of L_conflict \<Rightarrow> ret A_conflict
        | L_completed completed \<Rightarrow>
            seq (eval_script W ?chat (Op_accept rv (event_id event) fp ?sq event completed ?chat idrev)) (\<lambda>r.
              if r = R_retry then accept_attempts W event fp n else if r = R_accepted then ret A_accepted
              else if r = R_duplicate then ret A_duplicate else if r = R_conflict then ret A_conflict
              else throw Store_unavailable)) c2 = (Inr A_accepted, c')"
    using rest revs(2) by (auto simp: seq_Inr)
  obtain completed where found: "found = L_completed completed"
    using rest2 by (cases found) (auto simp: ret_def)
  have sound2: "db_sound W (c_db c2)"
    using find_completed_sound [OF W sound1 f] .
  obtain r c3 where s3: "eval_script W ?chat (Op_accept rv (event_id event) fp ?sq event completed ?chat idrev) c2 = (Inr r, c3)"
    and rest3: "(if r = R_retry then accept_attempts W event fp n else if r = R_accepted then ret A_accepted
        else if r = R_duplicate then ret A_duplicate else if r = R_conflict then ret A_conflict
        else throw Store_unavailable) c3 = (Inr A_accepted, c')"
    using rest2 found by (auto simp: seq_Inr)
  have op: "repo_op (w_sha W) ?chat (Op_accept rv (event_id event) fp ?sq event completed ?chat idrev)"
    using fp ev by simp
  have sound3: "db_sound W (c_db c3)"
    using eval_sound(1) [OF W sound2 s3 op] .
  show ?case
  proof (cases "r = R_retry")
    case True
    then obtain k c0 c1' where k: "k < n" "retried W event fp k c3 c0" "accepting W event fp c0 c1' c'" "db_sound W (c_db c1')"
      "\<forall>x \<in> set (w_chats W). w_find W (c_step c1') x (event_id event) = Inr None"
      "db_runs (w_streams W) (c_db c1') (w_others W (c_step c1') (c_db c1'))" "db_sound W (w_others W (c_step c1') (c_db c1'))"
      "completions (w_others W (c_step c1') (c_db c1')) = completions (c_db c1')" "db_sound W (c_db c')"
      using Suc.IH [OF sound3] rest3 by auto
    have "retried W event fp (Suc k) c c0"
      by (rule retried.again [OF s1 [unfolded revs(1)] f [unfolded found] s3 [unfolded True] k(2)])
    then show ?thesis using k(1,3-9) Suc_less_eq by blast
  next
    case False
    then have r: "r = R_accepted" "c' = c3" using rest3 by (auto simp: ret_def throw_def split: if_splits)
    note e3 = s3 [unfolded eval_script_Inr]
    let ?d2 = "w_others W (c_step c2) (c_db c2)"
    have acc: "fst (db_run (w_streams W) (w_time W (c_step c2)) ?chat (Op_accept rv (event_id event) fp ?sq event completed ?chat idrev) ?d2) = R_accepted"
      using e3 r by simp
    note A = db_run_accept_reply [OF acc]
    have comp: "completed = False" using A(3) by simp
    have c2: "c2 = c1" "\<forall>x \<in> set (w_chats W). w_find W (c_step c1) x (event_id event) = Inr None"
      using find_completed_False [of W event fp "w_chats W" False c1 c2] f found comp by auto
    have "completions ?d2 = completions (c_db c1)"
      using A(1) revs(3) c2(1) by (simp add: completions_def cval_def)
    moreover have "db_runs (w_streams W) (c_db c1) ?d2" "db_sound W ?d2"
      using sound_runs [OF W sound1, of ?d2] W c2(1) by (simp_all add: sound_world_def)
    moreover have "accepting W event fp c c1 c'"
      using s1 s3 revs(1) comp c2(1) r unfolding accepting_def by blast
    ultimately show ?thesis using sound1 c2 sound3 r(2) retried.none [of W event fp c] zero_less_Suc by metis
  qed
qed

text \<open>C37: admission does not lose a race against completion. When the repository reports an event as
accepted, it was the last of at most eight attempts, all before it answered with a retry, and the write was
acknowledged by \<open>WAITAOF\<close>. In that attempt the snapshot left the database \<open>c_db c1\<close>; after it the completion
index had no completion of the event under any configured chat; the admission carried the two
revisions of exactly that snapshot, and no chat completed anything between the snapshot and the admission,
whatever other processes did meanwhile; the event was then queued after the cursor under its own
fingerprint and sequence.\<close>

theorem accepted_not_completed:
  assumes "sound_world W" "db_sound W (c_db c)" "parses W input"
    and "repo_accept W input c = (Inr A_accepted, c')"
  shows "\<exists>k c0 c1 rv cur idrev e. k < 8 \<and> retried W input (fingerprint_digest (w_sha W) input) k c c0 \<and> w_waitaof W (c_step c') \<and>
    eval_script W (canonical_chat_jid input) Op_snapshot c0 = (Inr (R_snapshot rv cur idrev), c1) \<and>
    (\<forall>x \<in> set (w_chats W). w_find W (c_step c1) x (event_id input) = Inr None) \<and>
    eval_script W (canonical_chat_jid input) (Op_accept rv (event_id input) (fingerprint_digest (w_sha W) input)
      (show_nat (chat_sequence input)) input False (canonical_chat_jid input) idrev) c1 = (Inr R_accepted, c') \<and>
    db_runs (w_streams W) (c_db c1) (w_others W (c_step c1) (c_db c1)) \<and>
    (\<forall>x. chat_cursor x (w_others W (c_step c1) (c_db c1)) = chat_cursor x (c_db c1)) \<and>
    chat_cursor (canonical_chat_jid input) (c_db c1) < chat_sequence input \<and>
    hget (k_events (db_chat (c_db c') (canonical_chat_jid input))) (event_id input) = Some e \<and>
    row_of (w_sha W) (canonical_chat_jid input) (event_id input) e"
proof -
  let ?fp = "fingerprint_digest (w_sha W) input" and ?chat = "canonical_chat_jid input"
  have R: "redis_streams (w_streams W)" using assms(1) by (simp add: sound_world_def redis_streams.intro)
  have schema: "notification_schema input" and admit: "admit (w_policy W) input = Inr input"
    and run: "durable W (accept_attempts W input ?fp 8) c = (Inr A_accepted, c')"
    using assms(4) reparse_accepts [OF assms(3)]
    by (auto simp: repo_accept_def catch_def seq_def lift_def ret_def fingerprint_def fingerprintEvent_def
        split: prod.splits sum.splits)
  have att: "accept_attempts W input ?fp 8 c = (Inr A_accepted, c')" and ack: "w_waitaof W (c_step c')"
    using run by (simp_all add: durable_Inr)
  obtain k c0 c1 where d: "k < 8" "retried W input ?fp k c c0" "accepting W input ?fp c0 c1 c'" "db_sound W (c_db c1)"
    "\<forall>x \<in> set (w_chats W). w_find W (c_step c1) x (event_id input) = Inr None"
    "db_runs (w_streams W) (c_db c1) (w_others W (c_step c1) (c_db c1))" "db_sound W (w_others W (c_step c1) (c_db c1))"
    "completions (w_others W (c_step c1) (c_db c1)) = completions (c_db c1)" "db_sound W (c_db c')"
    using accept_attempts_accepted [OF assms(1) refl schema assms(2) att] by blast
  obtain rv cur idrev where ev: "eval_script W ?chat Op_snapshot c0 = (Inr (R_snapshot rv cur idrev), c1)"
    "eval_script W ?chat (Op_accept rv (event_id input) ?fp (show_nat (chat_sequence input)) input False ?chat idrev) c1 = (Inr R_accepted, c')"
    using d(3) unfolding accepting_def by blast
  let ?d2 = "w_others W (c_step c1) (c_db c1)"
  let ?run = "db_run (w_streams W) (w_time W (c_step c1)) ?chat
    (Op_accept rv (event_id input) ?fp (show_nat (chat_sequence input)) input False ?chat idrev) ?d2"
  have acc: "fst ?run = R_accepted" and out: "c_db c' = snd ?run" using ev(2) unfolding eval_script_Inr by simp_all
  have cursors: "\<forall>x. chat_cursor x ?d2 = chat_cursor x (c_db c1)"
    using redis_streams.db_runs_completions [OF R d(6)] d(4,8) by (auto simp: db_sound_def)
  note A = db_run_accept_reply [OF acc]
  have "counters_ok (view ?chat ?d2)" using d(7) by (simp add: db_sound_def db_inv_def ks_inv_def)
  then have "chat_cursor ?chat ?d2 < chat_sequence input"
    using A(4) by (simp add: counters_ok_def view_def less_dec_iff chat_cursor_def cval_def)
  then have lt: "chat_cursor ?chat (c_db c1) < chat_sequence input" using cursors by simp
  obtain e where e: "hget (k_events (db_chat (c_db c') ?chat)) (event_id input) = Some e"
    unfolding out A(2) by (simp add: db_put_def view_simps admitted_keys_def Let_def)
  then have "row_of (w_sha W) ?chat (event_id input) e" using d(9) by (simp add: db_sound_def rows_of_def)
  then show ?thesis using ack d(1,2,5,6) ev cursors lt e by blast
qed

lemma demo_world_sound: "sound_world demo_world"
proof -
  have "list_all is_hex (replicate 64 CHR ''a'')"
    by (simp add: is_hex_def list_all_iff)
  then show ?thesis
    by (simp add: sound_world_def demo_world_def list_stream_laws hex_digest_def repo_runs.idle)
qed

lemma new_database_rows: "rows_of sha (new_database st)"
  by (simp add: rows_of_def new_database_def new_keys_def)

lemma demo_conn_sound: "db_sound demo_world (c_db demo_conn)"
  by (simp add: db_sound_def demo_conn_def new_database_inv new_database_rows)

lemma demo_parses: "parses demo_world demo_event"
  by (simp add: parses_def demo_world_def)

lemma demo_reparse: "reparse (w_parse demo_world) (w_policy demo_world) demo_event = Inr demo_event"
  using reparse_admit [of "w_parse demo_world" demo_event "w_policy demo_world"] demo_parses demo_event_schema demo_event_admit
  by (simp add: parses_def demo_world_def)

definition demo_fp :: string where
  "demo_fp = fingerprint_digest (w_sha demo_world) demo_event"

lemma demo_fingerprint: "fingerprint demo_world demo_event = Inr demo_fp"
  by (simp add: fingerprint_def fingerprintEvent_def demo_event_schema demo_fp_def)

definition demo_conn_accepted :: "list_stream conn" where
  "demo_conn_accepted = snd (accept_attempts demo_world demo_event demo_fp 8 demo_conn)"

lemma demo_accepts: "repo_accept demo_world demo_event demo_conn = (Inr A_accepted, demo_conn_accepted)"
proof -
  have "fst (accept_attempts demo_world demo_event demo_fp 8 demo_conn) = Inr A_accepted"
    unfolding demo_fp_def by code_simp
  then have att: "accept_attempts demo_world demo_event demo_fp 8 demo_conn = (Inr A_accepted, demo_conn_accepted)"
    by (simp add: demo_conn_accepted_def prod_eq_iff)
  have "durable demo_world (accept_attempts demo_world demo_event demo_fp 8) demo_conn = (Inr A_accepted, demo_conn_accepted)"
    unfolding durable_Inr using att by (simp add: demo_conn_def demo_world_def)
  moreover have "allowed demo_world (canonical_chat_jid demo_event) = Inr ()"
    by (simp add: allowed_def guard_def demo_world_def demo_event_def)
  ultimately show ?thesis
    by (simp add: repo_accept_def demo_reparse demo_fingerprint catch_def)
qed

theorem accepted_not_completed_witness:
  "\<exists>e. hget (k_events (db_chat (c_db demo_conn_accepted) ''1@g.us'')) ''00000000000000000000000000000001'' = Some e"
proof -
  have "canonical_chat_jid demo_event = ''1@g.us''" "event_id demo_event = ''00000000000000000000000000000001''"
    by (simp_all add: demo_event_def)
  with accepted_not_completed [OF demo_world_sound demo_conn_sound demo_parses demo_accepts] show ?thesis by auto
qed

lemma db_run_accept_duplicate:
  assumes "fst (db_run R t c (Op_accept rv eid fp sq raw done c idrev) d) = R_duplicate"
  shows "done \<or> (\<exists>e. hget (k_events (db_chat (snd (db_run R t c (Op_accept rv eid fp sq raw done c idrev) d)) c)) eid = Some e \<and>
    er_fp e = fp \<and> er_seq e = sq)"
  using assms
  by (auto simp: db_run_def op_accept_def Let_def case_prod_beta view_def db_put_def view_simps split: if_splits option.splits)

text \<open>Strict evidence of the index: a valid proof of this very event, for its sequence and fingerprint.\<close>

definition completion_evidence :: "'st world \<Rightarrow> notification \<Rightarrow> string \<Rightarrow> bool" where
  "completion_evidence W event fp \<longleftrightarrow> (\<exists>n p.
     w_find W n (canonical_chat_jid event) (event_id event) = Inr (Some p) \<and> completion_proof_schema p \<and>
     cm_eventId (cp_marker p) = event_id event \<and> cm_chat (cp_marker p) = canonical_chat_jid event \<and>
     cm_sequence (cp_marker p) = chat_sequence event \<and> cm_fingerprint (cp_marker p) = fp)"

lemma accept_attempts_duplicate:
  "accept_attempts W event fp n c = (Inr A_duplicate, c') \<Longrightarrow> completion_evidence W event fp \<or>
    (\<exists>e. hget (k_events (db_chat (c_db c') (canonical_chat_jid event))) (event_id event) = Some e \<and>
      er_fp e = fp \<and> er_seq e = show_nat (chat_sequence event))"
proof (induction n arbitrary: c)
  case (Suc n)
  let ?chat = "canonical_chat_jid event"
  let ?sq = "show_nat (chat_sequence event)"
  let ?fin = "\<lambda>r. if r = R_retry then accept_attempts W event fp n else if r = R_accepted then ret A_accepted
        else if r = R_duplicate then ret A_duplicate else if r = R_conflict then ret A_conflict
        else throw Store_unavailable"
  obtain snap c1 where rest1: "(case snapshot_revisions snap of Some (rv, idrev) \<Rightarrow>
      seq (find_completed W event fp (w_chats W) False) (\<lambda>found. case found of
          L_conflict \<Rightarrow> ret A_conflict
        | L_completed completed \<Rightarrow>
            seq (eval_script W ?chat (Op_accept rv (event_id event) fp ?sq event completed ?chat idrev)) ?fin)
      | None \<Rightarrow> throw Store_unavailable) c1 = (Inr A_duplicate, c')"
    using Suc.prems by (auto simp: seq_Inr)
  obtain rv idrev where rv: "snapshot_revisions snap = Some (rv, idrev)"
    using rest1 by (cases "snapshot_revisions snap") (auto simp: throw_def)
  obtain found c2 where f0: "find_completed W event fp (w_chats W) False c1 = (Inr found, c2)"
    and rest2: "(case found of L_conflict \<Rightarrow> ret A_conflict
        | L_completed completed \<Rightarrow>
            seq (eval_script W ?chat (Op_accept rv (event_id event) fp ?sq event completed ?chat idrev)) ?fin) c2 = (Inr A_duplicate, c')"
    using rest1 by (auto simp: rv seq_Inr)
  obtain completed where found: "found = L_completed completed"
    using rest2 by (cases found) (auto simp: ret_def)
  have f: "\<exists>c1. find_completed W event fp (w_chats W) False c1 = (Inr (L_completed completed), c2)"
    using f0 found by blast
  obtain r c3 where s3: "eval_script W ?chat (Op_accept rv (event_id event) fp ?sq event completed ?chat idrev) c2 = (Inr r, c3)"
    and rest: "?fin r c3 = (Inr A_duplicate, c')"
    using rest2 found by (auto simp: seq_Inr)
  show ?case
  proof (cases "r = R_retry")
    case True
    then show ?thesis using Suc.IH rest by simp
  next
    case False
    then have r: "r = R_duplicate" "c' = c3" using rest by (auto simp: ret_def throw_def split: if_splits)
    let ?run = "db_run (w_streams W) (w_time W (c_step c2)) ?chat (Op_accept rv (event_id event) fp ?sq event completed ?chat idrev)
      (w_others W (c_step c2) (c_db c2))"
    have "fst ?run = R_duplicate" "c_db c' = snd ?run"
      using s3 r by (simp_all add: eval_script_Inr)
    then have "completed \<or> (\<exists>e. hget (k_events (db_chat (c_db c') ?chat)) (event_id event) = Some e \<and> er_fp e = fp \<and> er_seq e = ?sq)"
      using db_run_accept_duplicate by metis
    moreover have "completion_evidence W event fp" if "completed"
    proof -
      obtain c1 where "find_completed W event fp (w_chats W) False c1 = (Inr (L_completed True), c2)"
        using f \<open>completed\<close> by auto
      from find_completed_True [OF this] show ?thesis unfolding completion_evidence_def by blast
    qed
    ultimately show ?thesis by blast
  qed
qed (simp add: throw_def)

text \<open>a changed event is never reported as a duplicate: \<open>duplicate\<close> means that the very same immutable
event (same fingerprint and sequence) is queued now, or that the completion index holds a valid
proof of its completion under its own chat, sequence and fingerprint; with a collision-free digest a
queued duplicate is the same notification in every field.\<close>

theorem duplicate_is_same_event:
  assumes "sound_world W" "db_sound W (c_db c)" "parses W input" "repo_accept W input c = (Inr A_duplicate, c')"
  shows "completion_evidence W input (fingerprint_digest (w_sha W) input) \<or>
    (\<exists>e. hget (k_events (db_chat (c_db c') (canonical_chat_jid input))) (event_id input) = Some e \<and>
      er_fp e = fingerprint_digest (w_sha W) input \<and> er_seq e = show_nat (chat_sequence input))"
proof -
  have "durable W (accept_attempts W input (fingerprint_digest (w_sha W) input) 8) c = (Inr A_duplicate, c')"
    using assms(4) reparse_accepts [OF assms(3)]
    by (auto simp: repo_accept_def catch_def seq_def lift_def ret_def fingerprint_def fingerprintEvent_def
        split: prod.splits sum.splits)
  then show ?thesis
    by (intro accept_attempts_duplicate [where n = 8 and c = c]) (simp add: durable_Inr)
qed

definition demo_conn_again :: "list_stream conn" where
  "demo_conn_again = snd (accept_attempts demo_world demo_event demo_fp 8 demo_conn_accepted)"

lemma demo_accepted_sound: "db_sound demo_world (c_db demo_conn_accepted)"
proof -
  have "accept_attempts demo_world demo_event demo_fp 8 demo_conn = (Inr A_accepted, demo_conn_accepted)"
  proof -
    have "fst (accept_attempts demo_world demo_event demo_fp 8 demo_conn) = Inr A_accepted"
      unfolding demo_fp_def by code_simp
    then show ?thesis by (simp add: demo_conn_accepted_def prod_eq_iff)
  qed
  from accept_attempts_accepted [OF demo_world_sound demo_fp_def demo_event_schema demo_conn_sound this]
  show ?thesis by blast
qed

theorem duplicate_is_same_event_witness:
  "completion_evidence demo_world demo_event demo_fp \<or>
    (\<exists>e. hget (k_events (db_chat (c_db demo_conn_again) (canonical_chat_jid demo_event))) (event_id demo_event) = Some e \<and>
      er_fp e = demo_fp)"
proof -
  have "fst (accept_attempts demo_world demo_event demo_fp 8 demo_conn_accepted) = Inr A_duplicate"
    unfolding demo_fp_def by code_simp
  then have att: "accept_attempts demo_world demo_event demo_fp 8 demo_conn_accepted = (Inr A_duplicate, demo_conn_again)"
    by (simp add: demo_conn_again_def prod_eq_iff)
  have "c_healthy demo_conn_accepted" by code_simp
  then have "durable demo_world (accept_attempts demo_world demo_event demo_fp 8) demo_conn_accepted = (Inr A_duplicate, demo_conn_again)"
    unfolding durable_Inr using att by (simp add: demo_world_def)
  moreover have "allowed demo_world (canonical_chat_jid demo_event) = Inr ()"
    by (simp add: allowed_def guard_def demo_world_def demo_event_def)
  ultimately have "repo_accept demo_world demo_event demo_conn_accepted = (Inr A_duplicate, demo_conn_again)"
    by (simp add: repo_accept_def demo_reparse demo_fingerprint catch_def)
  from duplicate_is_same_event [OF demo_world_sound demo_accepted_sound demo_parses this]
  show ?thesis unfolding demo_fp_def by blast
qed

section \<open>Claims\<close>

text \<open>a claim that the repository reports is usable work: it is the event one after the cursor of the
requested chat, unchanged from its admission, and the arguments that the repository computes again
from it, fingerprint included, pass the script's work check at the moment of the claim and name
that very event.\<close>

theorem claimed_work_is_usable:
  assumes "sound_world W" "db_sound W (c_db c)"
    and "claimNext W chat app ow leaseMs gapMs c = (Inr (CR_claimed work), c')"
    and "\<forall>ev e. hget (k_events (db_chat (w_others W (c_step c) (c_db c)) chat)) ev = Some e \<longrightarrow> parses W (er_raw e)"
    and "stream_id_schema (cw_streamId work)"
  shows "\<exists>w e. argsFor W work = Inr w \<and> lua_work (w_time W (c_step c)) w (view chat (c_db c')) = Some e \<and>
    work_chat work = chat \<and> er_raw e = cw_event work \<and>
    chat_sequence (cw_event work) = Suc (chat_cursor chat (w_others W (c_step c) (c_db c))) \<and>
    row_of (w_sha W) chat (event_id (cw_event work)) e \<and> w_waitaof W (c_step c')"
proof -
  let ?d = "w_others W (c_step c) (c_db c)"
  let ?t = "w_time W (c_step c)"
  have R: "redis_streams (w_streams W)" and laws: "stream_laws (w_streams W)"
    using assms(1) by (simp_all add: sound_world_def redis_streams.intro)
  obtain r where w: "fence_schema app" "opaque_id ow" "duration leaseMs" "duration gapMs"
    and wr: "\<exists>c1. write_op W chat (Op_claim (f_owner app) (f_epoch app) ow leaseMs gapMs) c = (Inr r, c1) \<and>
       claim_reply W chat app ow r c1 = (Inr (CR_claimed work), c')"
    using assms(3)
    by (auto simp: claimNext_def seq_Inr lift_def owner_arg_def ms_arg_def checked_def throw_def split: if_splits)
  obtain i raw ep u where r: "r = R_claimed i raw ep u"
    using wr by (cases r) (auto simp: claim_reply_def ret_def throw_def)
  have wo: "write_op W chat (Op_claim (f_owner app) (f_epoch app) ow leaseMs gapMs) c = (Inr (R_claimed i raw ep u), c')"
    and reply: "andThen (reparse (w_parse W) (w_policy W) raw) (\<lambda>event.
         if canonical_chat_jid event \<noteq> chat then Inl Store_unavailable
         else andThen (granted_ownership app ow ep u) (\<lambda>own.
           Inr (CR_claimed \<lparr>cw_streamId = i, cw_event = event, cw_ownership = own\<rparr>))) = Inr (CR_claimed work)"
    using wr by (auto simp: r claim_reply_def lift_def)
  note ev = write_op_Inr(1) [OF wo, unfolded eval_script_Inr] and ack = write_op_Inr(3) [OF wo]
  have sound: "db_sound W ?d" by (rule sound_others [OF assms(1,2)])
  have kinv: "ks_inv (w_streams W) (view chat ?d)" using sound by (simp add: db_sound_def db_inv_def)
  define k' where "k' = snd (run_script (w_streams W) ?t (Op_claim (f_owner app) (f_epoch app) ow leaseMs gapMs) (view chat ?d))"
  have run: "run_script (w_streams W) ?t (Op_claim (f_owner app) (f_epoch app) ow leaseMs gapMs) (view chat ?d) = (R_claimed i raw ep u, k')"
    using ev by (simp add: db_run_def Let_def case_prod_beta k'_def prod_eq_iff)
  have view': "view chat (c_db c') = k'"
    using ev by (simp add: db_run_def Let_def case_prod_beta k'_def view_put)
  obtain evn e where e: "hget (k_events (view chat ?d)) evn = Some e" "dval (er_seq e) = Suc (cval (st_cursor (k_state (view chat ?d))))"
    "i = er_id e" "raw = er_raw e" "u = ?t + leaseMs"
    "lua_work ?t \<lparr>wa_appOwner = f_owner app, wa_appEpoch = f_epoch app, wa_chatOwner = ow, wa_chatEpoch = the ep,
        wa_event = evn, wa_streamId = i, wa_fp = er_fp e\<rparr> k' = Some e"
    using claimed_row [OF laws kinv run] w(3) by (auto simp: duration_def)
  have row: "row_of (w_sha W) chat evn e"
    using sound e(1) by (simp add: db_sound_def rows_of_def view_def)
  have parses: "parses W raw" using assms(4) e(1,4) by (simp add: view_def)
  obtain event own where ok: "reparse (w_parse W) (w_policy W) raw = Inr event" "canonical_chat_jid event = chat"
    "granted_ownership app ow ep u = Inr own" "work = \<lparr>cw_streamId = i, cw_event = event, cw_ownership = own\<rparr>"
    using reply by (auto split: if_splits)
  note same = reparse_accepts [OF parses ok(1)]
  have own: "own = \<lparr>own_app = app, own_chat = \<lparr>f_owner = ow, f_epoch = the ep, expiresAtMs = u\<rparr>\<rparr>" "ownership_schema own"
    using ok(3) by (auto simp: granted_ownership_def fence_of_def split: option.splits)
  have allowed: "allowed W chat = Inr ()" using ev by (simp add: allowed_def)
  have args: "argsFor W work = Inr \<lparr>wa_appOwner = f_owner app, wa_appEpoch = f_epoch app, wa_chatOwner = ow, wa_chatEpoch = the ep,
        wa_event = evn, wa_streamId = i, wa_fp = er_fp e\<rparr>"
    using own ok same row allowed assms(5) e(4)
    by (simp add: argsFor_def row_of_def fingerprint_def fingerprintEvent_def checked_def)
  have "chat_sequence raw = Suc (chat_cursor chat ?d)"
    using row e(2,4) by (simp add: row_of_def chat_cursor_def view_def)
  then show ?thesis
    using args e same ok row ack view' by (auto simp: work_chat_def row_of_def)
qed

definition demo_owner :: string where
  "demo_owner = replicate 32 CHR ''a''"

definition demo_worker :: string where
  "demo_worker = replicate 32 CHR ''b''"

definition demo_app :: fence where
  "demo_app = \<lparr>f_owner = demo_owner, f_epoch = ''1'', expiresAtMs = 63\<rparr>"

definition demo_conn_ready :: "list_stream conn" where
  "demo_conn_ready = snd (eval_script demo_world ''1@g.us'' (Op_app_acquire demo_owner 60) demo_conn_accepted)"

definition demo_conn_claimed :: "list_stream conn" where
  "demo_conn_claimed = snd (eval_script demo_world ''1@g.us'' (Op_claim demo_owner ''1'' demo_worker 20 5) demo_conn_ready)"

definition demo_claimed_work :: claimed_work where
  "demo_claimed_work = \<lparr>cw_streamId = (2, 0), cw_event = demo_event, cw_ownership =
     \<lparr>own_app = demo_app, own_chat = \<lparr>f_owner = demo_worker, f_epoch = ''1'', expiresAtMs = 24\<rparr>\<rparr>\<rparr>"

lemma demo_ids: "opaque_id demo_worker" "opaque_id demo_owner" "epoch_schema ''1''"
  by code_simp+

lemma demo_fences: "fence_schema demo_app" "fence_schema \<lparr>f_owner = demo_worker, f_epoch = ''1'', expiresAtMs = 24\<rparr>"
  by (simp_all add: fence_schema_def demo_app_def demo_ids counter_schema_def max_safe_def)

lemma demo_acknowledges: "w_baseline demo_world n" "w_waitaof demo_world n"
  by (simp_all add: demo_world_def)

lemma demo_claims: "claimNext demo_world ''1@g.us'' demo_app demo_worker 20 5 demo_conn_ready =
    (Inr (CR_claimed demo_claimed_work), demo_conn_claimed)"
proof -
  have "fst (eval_script demo_world ''1@g.us'' (Op_claim demo_owner ''1'' demo_worker 20 5) demo_conn_ready) =
      Inr (R_claimed (2, 0) demo_event (Some ''1'') 24)"
    by code_simp
  moreover have "c_healthy demo_conn_ready" by code_simp
  ultimately have "write_op demo_world ''1@g.us'' (Op_claim demo_owner ''1'' demo_worker 20 5) demo_conn_ready =
      (Inr (R_claimed (2, 0) demo_event (Some ''1'') 24), demo_conn_claimed)"
    unfolding write_op_def durable_Inr demo_conn_claimed_def by (simp add: demo_acknowledges prod_eq_iff)
  moreover have "canonical_chat_jid demo_event = ''1@g.us''" by (simp add: demo_event_def)
  moreover have "f_owner demo_app = demo_owner" "f_epoch demo_app = ''1''" by (simp_all add: demo_app_def)
  ultimately show ?thesis
    by (simp add: claimNext_def seq_def lift_def checked_def demo_fences demo_ids owner_arg_def ms_arg_def duration_def
        claim_reply_def demo_reparse granted_ownership_def fence_of_def ownership_schema_def ret_def
        demo_claimed_work_def)
qed

lemma demo_ready_sound: "db_sound demo_world (c_db demo_conn_ready)"
proof -
  have "fst (eval_script demo_world ''1@g.us'' (Op_app_acquire demo_owner 60) demo_conn_accepted) = Inr (R_fence (Some ''1'') 63)"
    by code_simp
  then have "eval_script demo_world ''1@g.us'' (Op_app_acquire demo_owner 60) demo_conn_accepted = (Inr (R_fence (Some ''1'') 63), demo_conn_ready)"
    by (simp add: demo_conn_ready_def prod_eq_iff)
  from eval_sound(1) [OF demo_world_sound demo_accepted_sound this] show ?thesis by simp
qed

theorem claimed_work_is_usable_witness:
  "\<exists>w e. argsFor demo_world demo_claimed_work = Inr w \<and> er_raw e = demo_event \<and>
    lua_work 4 w (view ''1@g.us'' (c_db demo_conn_claimed)) = Some e"
proof -
  have one: "hget (k_events (db_chat (c_db demo_conn_ready) ''1@g.us'')) ev = Some e \<Longrightarrow> er_raw e = demo_event" for ev e
  proof -
    have "list_all (\<lambda>x. er_raw (snd x) = demo_event) (k_events (db_chat (c_db demo_conn_ready) ''1@g.us''))"
      by code_simp
    then show "hget (k_events (db_chat (c_db demo_conn_ready) ''1@g.us'')) ev = Some e \<Longrightarrow> er_raw e = demo_event"
      by (auto simp: list_all_iff hget_def dest!: map_of_SomeD)
  qed
  have step: "c_step demo_conn_ready = 3" by code_simp
  have "stream_id_schema (cw_streamId demo_claimed_work)" by code_simp
  from claimed_work_is_usable [OF demo_world_sound demo_ready_sound demo_claims _ this] one demo_parses
  show ?thesis by (auto simp: step demo_world_def demo_claimed_work_def)
qed

end
