(* ===== verification/Repository_Work.thy ===== *)
theory Repository_Work
  imports Repository_Spec
begin

text \<open>
  The properties of the repository's completion, of its answer about the controller's own sends,
  and of the operator's abort of an orphaned compaction.
\<close>

section \<open>Completion\<close>

lemma verifiedProof_Inr:
  assumes "verifiedProof v chat eid = Inr p"
  shows "p = v" "completion_proof_schema v" "cm_chat (cp_marker v) = chat" "sb_chat (cp_session v) = chat"
    "cm_eventId (cp_marker v) = eid"
  using assms by (auto simp: verifiedProof_def split: if_splits)

lemma argsFor_fields:
  assumes "parses W (cw_event work)" "argsFor W work = Inr w"
  shows "wa_event w = event_id (cw_event work)" "fingerprint W (cw_event work) = Inr (wa_fp w)"
    "ownership_schema (cw_ownership work)" "notification_schema (cw_event work)" "wa_streamId w = cw_streamId work"
proof -
  obtain e where "reparse (w_parse W) (w_policy W) (cw_event work) = Inr e" "wa_event w = event_id e"
    "fingerprint W e = Inr (wa_fp w)" "ownership_schema (cw_ownership work)" "wa_streamId w = cw_streamId work"
    using assms(2) by (auto simp: argsFor_def)
  then show "wa_event w = event_id (cw_event work)" "fingerprint W (cw_event work) = Inr (wa_fp w)"
    "ownership_schema (cw_ownership work)" "notification_schema (cw_event work)" "wa_streamId w = cw_streamId work"
    using reparse_accepts [OF assms(1)] by auto
qed

lemma repo_complete_True:
  assumes "repo_complete W work p c = (Inr True, c')"
  obtains fp d w where "verifiedProof p (work_chat work) (event_id (cw_event work)) = Inr p"
    "cm_sequence (cp_marker p) = chat_sequence (cw_event work)"
    "fingerprint W (cw_event work) = Inr fp" "cm_fingerprint (cp_marker p) = fp"
    "w_find W (c_step c) (work_chat work) (event_id (cw_event work)) = Inr (Some d)"
    "verifiedProof d (work_chat work) (event_id (cw_event work)) = Inr p"
    "argsFor W work = Inr w"
    "eval_script W (work_chat work) (Op_complete w (cp_session p) (cm_sends (cp_marker p))) c = (Inr R_ok, c')"
    "w_waitaof W (c_step c')"
proof -
  let ?chat = "work_chat work" and ?ev = "event_id (cw_event work)"
  let ?body = "\<lambda>c. case w_find W (c_step c) ?chat ?ev of Inl e \<Rightarrow> (Inl e, c) | Inr None \<Rightarrow> (Inr False, c)
      | Inr (Some d) \<Rightarrow> seq (lift (verifiedProof d ?chat ?ev)) (\<lambda>d. if d \<noteq> p then ret False
          else seq (lift (argsFor W work)) (\<lambda>w. seq (eval_script W ?chat (Op_complete w (cp_session p) (cm_sends (cp_marker p))))
            (\<lambda>r. ret (r = R_ok)))) c"
  obtain p' fp where 1: "verifiedProof p ?chat ?ev = Inr p'" "fingerprint W (cw_event work) = Inr fp"
    "(if cm_sequence (cp_marker p') \<noteq> chat_sequence (cw_event work) \<or> cm_fingerprint (cp_marker p') \<noteq> fp then ret False
      else durable W (\<lambda>c. case w_find W (c_step c) ?chat ?ev of Inl e \<Rightarrow> (Inl e, c) | Inr None \<Rightarrow> (Inr False, c)
      | Inr (Some d) \<Rightarrow> seq (lift (verifiedProof d ?chat ?ev)) (\<lambda>d. if d \<noteq> p' then ret False
          else seq (lift (argsFor W work)) (\<lambda>w. seq (eval_script W ?chat (Op_complete w (cp_session p') (cm_sends (cp_marker p'))))
            (\<lambda>r. ret (r = R_ok)))) c)) c = (Inr True, c')"
    using assms by (auto simp: repo_complete_def seq_Inr lift_def)
  have p': "p' = p" using verifiedProof_Inr(1) [OF 1(1)] .
  have 2: "cm_sequence (cp_marker p) = chat_sequence (cw_event work)" "cm_fingerprint (cp_marker p) = fp"
    "?body c = (Inr True, c')" "w_waitaof W (c_step c')"
    using 1(3) [unfolded p'] by (simp_all add: ret_def durable_Inr split: if_splits)
  then obtain d where d: "w_find W (c_step c) ?chat ?ev = Inr (Some d)"
    by (auto split: sum.splits option.splits)
  have "seq (lift (verifiedProof d ?chat ?ev)) (\<lambda>d. if d \<noteq> p then ret False
          else seq (lift (argsFor W work)) (\<lambda>w. seq (eval_script W ?chat (Op_complete w (cp_session p) (cm_sends (cp_marker p))))
            (\<lambda>r. ret (r = R_ok)))) c = (Inr True, c')"
    using 2(3) d by simp
  then obtain d' w r where "verifiedProof d ?chat ?ev = Inr d'" "d' = p" "argsFor W work = Inr w"
    "eval_script W ?chat (Op_complete w (cp_session p) (cm_sends (cp_marker p))) c = (Inr r, c')" "r = R_ok"
    by (auto simp: seq_Inr lift_def ret_def split: if_splits)
  then show thesis using that 1(1,2) 2(1,2,4) d p' by simp
qed

text \<open>C7: the repository reports a completion only of work whose proof is already in the completion index,
valid and identical to the one presented, for the sequence and the fingerprint of the event; the
script then moved the cursor of that chat by one, removed the row of that event, recorded the
completion in the identity revision, and the write was acknowledged as durable.\<close>

theorem completed_is_proved:
  assumes "sound_world W" "db_sound W (c_db c)" "parses W (cw_event work)" "repo_complete W work p c = (Inr True, c')"
  shows "completion_proof_schema p \<and>
    w_find W (c_step c) (work_chat work) (event_id (cw_event work)) = Inr (Some p) \<and>
    cm_eventId (cp_marker p) = event_id (cw_event work) \<and> cm_chat (cp_marker p) = work_chat work \<and>
    cm_sequence (cp_marker p) = chat_sequence (cw_event work) \<and>
    (\<exists>e. hget (k_events (db_chat (w_others W (c_step c) (c_db c)) (work_chat work))) (event_id (cw_event work)) = Some e \<and>
       er_fp e = cm_fingerprint (cp_marker p) \<and>
       st_cursor (k_state (db_chat (c_db c') (work_chat work))) = Some (er_seq e)) \<and>
    chat_cursor (work_chat work) (c_db c') = Suc (chat_cursor (work_chat work) (w_others W (c_step c) (c_db c))) \<and>
    hget (k_events (db_chat (c_db c') (work_chat work))) (event_id (cw_event work)) = None \<and>
    completions (c_db c') = Suc (completions (w_others W (c_step c) (c_db c))) \<and> w_waitaof W (c_step c')"
proof -
  let ?d = "w_others W (c_step c) (c_db c)"
  let ?chat = "work_chat work" and ?ev = "event_id (cw_event work)"
  obtain fp d w where
    evidence: "verifiedProof p ?chat ?ev = Inr p" "cm_sequence (cp_marker p) = chat_sequence (cw_event work)"
      "fingerprint W (cw_event work) = Inr fp" "cm_fingerprint (cp_marker p) = fp"
    and find: "w_find W (c_step c) ?chat ?ev = Inr (Some d)" "verifiedProof d ?chat ?ev = Inr p"
    and script: "argsFor W work = Inr w" "eval_script W ?chat (Op_complete w (cp_session p) (cm_sends (cp_marker p))) c = (Inr R_ok, c')"
      "w_waitaof W (c_step c')"
    using assms(4) by (rule repo_complete_True)
  note valid = verifiedProof_Inr [OF evidence(1)] and same = verifiedProof_Inr [OF find(2)]
  note w = argsFor_fields [OF assms(3) script(1)]
  have sound: "db_sound W ?d" by (rule sound_others [OF assms(1,2)])
  have inv: "ks_inv (w_streams W) (view ?chat ?d)" using sound by (simp add: db_sound_def db_inv_def)
  let ?t = "w_time W (c_step c)"
  obtain e where e: "lua_work ?t w (view ?chat ?d) = Some e" "er_seq e = next_seq (view ?chat ?d)"
    "op_complete (w_streams W) ?t w (cp_session p) (cm_sends (cp_marker p)) (view ?chat ?d) =
      (R_ok, barrier (completed_keys (w_streams W) (wa_event w) e (view ?chat ?d)))"
    using complete_cases [of ?t w "view ?chat ?d" "cp_session p" "cm_sends (cp_marker p)" "w_streams W"] script(2)
    by (auto simp: eval_script_Inr db_run_def Let_def case_prod_beta)
  have db: "c_db c' = db_put ?chat (barrier (completed_keys (w_streams W) (wa_event w) e (view ?chat ?d))) ?d"
    using script(2) e(3) by (simp add: eval_script_Inr db_run_def Let_def)
  have row: "hget (k_events (view ?chat ?d)) ?ev = Some e" "er_fp e = fp"
    using e(1) w evidence(3) by (auto simp: lua_work_def split: if_splits option.splits)
  have seq: "dval (er_seq e) = Suc (cval (st_cursor (k_state (view ?chat ?d))))"
    using e(2) inv by (simp add: next_seq_def ks_inv_def counters_ok_def)
  show ?thesis
    using valid(2-) same(1) find(1) evidence(2,4) row script(3) w(1) seq inv
    by (simp add: db db_put_def completed_keys_def view_simps view_def chat_cursor_def completions_def ks_inv_def counters_ok_def)
qed

definition demo_proof :: completion_proof where
  "demo_proof = \<lparr>cp_marker = \<lparr>cm_eventId = event_id demo_event, cm_fingerprint = demo_fp, cm_chat = ''1@g.us'',
     cm_sequence = 1, cm_completion = Turn, cm_completedAt = ''2026-01-01T00:00:00Z'', cm_sends = []\<rparr>,
     cp_entryId = ''n'', cp_session = demo_binding\<rparr>"

definition demo_args :: work_args where
  "demo_args = \<lparr>wa_appOwner = demo_owner, wa_appEpoch = ''1'', wa_chatOwner = demo_worker, wa_chatEpoch = ''1'',
     wa_event = event_id demo_event, wa_streamId = (2, 0), wa_fp = demo_fp\<rparr>"

definition demo_proved_world :: "list_stream world" where
  "demo_proved_world = demo_world\<lparr>w_find := (\<lambda>_ _ _. Inr (Some demo_proof))\<rparr>"

definition demo_conn_bound :: "list_stream conn" where
  "demo_conn_bound = snd (eval_script demo_world ''1@g.us'' (Op_bind demo_args demo_binding) demo_conn_claimed)"

definition demo_conn_done :: "list_stream conn" where
  "demo_conn_done = snd (eval_script demo_proved_world ''1@g.us'' (Op_complete demo_args demo_binding []) demo_conn_bound)"

lemma demo_bound_sound: "db_sound demo_world (c_db demo_conn_bound)"
proof -
  have "fst (eval_script demo_world ''1@g.us'' (Op_claim demo_owner ''1'' demo_worker 20 5) demo_conn_ready) =
      Inr (R_claimed (2, 0) demo_event (Some ''1'') 24)"
    by code_simp
  then have "eval_script demo_world ''1@g.us'' (Op_claim demo_owner ''1'' demo_worker 20 5) demo_conn_ready =
      (Inr (R_claimed (2, 0) demo_event (Some ''1'') 24), demo_conn_claimed)"
    by (simp add: demo_conn_claimed_def prod_eq_iff)
  from eval_sound(1) [OF demo_world_sound demo_ready_sound this]
  have claimed: "db_sound demo_world (c_db demo_conn_claimed)" by simp
  have "fst (eval_script demo_world ''1@g.us'' (Op_bind demo_args demo_binding) demo_conn_claimed) = Inr R_ok"
    by code_simp
  then have "eval_script demo_world ''1@g.us'' (Op_bind demo_args demo_binding) demo_conn_claimed = (Inr R_ok, demo_conn_bound)"
    by (simp add: demo_conn_bound_def prod_eq_iff)
  from eval_sound(1) [OF demo_world_sound claimed this] show ?thesis by simp
qed

lemma demo_proof_schema: "completion_proof_schema demo_proof"
  by (simp add: completion_proof_schema_def demo_proof_def completion_marker_schema_def demo_fp_def fingerprint_digest_def
      demo_world_def event_fingerprint_schema_def is_hex_def is_digit_def demo_event_def opaque_id_def
      sequence_schema_def max_safe_def timestamp_schema_def match_timestamp_def take_digits_def skip_fraction_def
      match_zone_def dig_def session_binding_schema_def demo_binding_def chat_jid_schema_def group_jid_def jid_with_def
      jid_user_def jid_server_def private_jid_def list_all_iff)

lemma demo_argsFor: "argsFor demo_proved_world demo_claimed_work = Inr demo_args"
proof -
  have "allowed demo_world (canonical_chat_jid demo_event) = Inr ()"
    by (simp add: allowed_def guard_def demo_world_def demo_event_def)
  moreover have "stream_id_schema (2, 0)" by code_simp
  moreover have sel: "f_owner demo_app = demo_owner" "f_epoch demo_app = ''1''" by (simp_all add: demo_app_def)
  ultimately show ?thesis
    using demo_reparse demo_fingerprint
    by (simp add: argsFor_def demo_claimed_work_def checked_def ownership_schema_def demo_fences demo_args_def sel
        allowed_def fingerprint_def demo_proved_world_def)
qed

lemma demo_completes:
  "repo_complete demo_proved_world demo_claimed_work demo_proof demo_conn_bound = (Inr True, demo_conn_done)"
proof -
  have "fst (eval_script demo_proved_world ''1@g.us'' (Op_complete demo_args demo_binding []) demo_conn_bound) = Inr R_ok"
    by code_simp
  then have run: "eval_script demo_proved_world ''1@g.us'' (Op_complete demo_args demo_binding []) demo_conn_bound = (Inr R_ok, demo_conn_done)"
    by (simp add: demo_conn_done_def prod_eq_iff)
  have ok: "c_healthy demo_conn_bound" "w_baseline demo_proved_world n" "w_waitaof demo_proved_world n"
    "w_find demo_proved_world n c ev = Inr (Some demo_proof)" for n c ev
    by (code_simp, simp_all add: demo_proved_world_def demo_acknowledges)
  have same: "work_chat demo_claimed_work = ''1@g.us''" "cw_event demo_claimed_work = demo_event" "chat_sequence demo_event = 1"
    "fingerprint demo_proved_world demo_event = Inr demo_fp"
    using demo_fingerprint
    by (simp_all add: work_chat_def demo_claimed_work_def demo_event_def fingerprint_def demo_proved_world_def)
  have sel: "cp_session demo_proof = demo_binding" "cm_sends (cp_marker demo_proof) = []" "cm_sequence (cp_marker demo_proof) = 1"
    "cm_fingerprint (cp_marker demo_proof) = demo_fp" "cm_chat (cp_marker demo_proof) = ''1@g.us''"
    "cm_eventId (cp_marker demo_proof) = event_id demo_event" "sb_chat demo_binding = ''1@g.us''"
    by (simp_all add: demo_proof_def demo_binding_def)
  have "verifiedProof demo_proof ''1@g.us'' (event_id demo_event) = Inr demo_proof"
    by (simp add: verifiedProof_def checked_def demo_proof_schema sel)
  then show ?thesis
    by (simp add: repo_complete_def same sel durable_def serial_def ok demo_argsFor run seq_def lift_def ret_def)
qed

theorem completed_is_proved_witness:
  "chat_cursor ''1@g.us'' (c_db demo_conn_done) = Suc (chat_cursor ''1@g.us'' (c_db demo_conn_bound)) \<and>
    completions (c_db demo_conn_done) = Suc (completions (c_db demo_conn_bound))"
proof -
  have "sound_world demo_proved_world" "db_sound demo_proved_world (c_db demo_conn_bound)"
    "parses demo_proved_world (cw_event demo_claimed_work)"
    using demo_world_sound demo_bound_sound demo_parses
    by (simp_all add: sound_world_def db_sound_def parses_def demo_proved_world_def demo_claimed_work_def)
  from completed_is_proved [OF this demo_completes]
  show ?thesis by (simp add: demo_proved_world_def demo_world_def work_chat_def demo_claimed_work_def demo_event_def)
qed

end
