(* ===== verification/Repository_Own.thy ===== *)
theory Repository_Own
  imports Repository_Work
begin

text \<open>
  The repository's answer about the controller's own sends, and the operator's abort of an
  orphaned compaction.
\<close>

section \<open>Own mutations\<close>

definition on_destination :: "string \<Rightarrow> journal_row \<Rightarrow> bool" where
  "on_destination actual r \<longleftrightarrow> mu_destination (row_state r) = actual"

text \<open>A row that settles the question: an enveloped attempt whose message is known.\<close>

definition settled :: "string \<Rightarrow> journal_row \<Rightarrow> bool" where
  "settled messageId r \<longleftrightarrow> (case r of Legacy m \<Rightarrow> False
     | Envelope fp b m \<Rightarrow> (case mu_status m of Confirmed mid fin \<Rightarrow> mid = messageId | _ \<Rightarrow> False))"

definition open_row :: "journal_row \<Rightarrow> bool" where
  "open_row r \<longleftrightarrow> (case r of Legacy m \<Rightarrow> True | Envelope fp b m \<Rightarrow> \<not> is_confirmed (mu_status m))"

lemma own_rows_None:
  "own_rows chat sess actual mid rows f = Inr None \<Longrightarrow> list_ex (\<lambda>r. on_destination actual r \<and> open_row r) rows"
proof (induction rows arbitrary: f)
  case (Cons r rows)
  then show ?case
    by (cases r)
      (auto simp: on_destination_def open_row_def journalState_def journalRecord_def
        split: option.splits if_splits mutation_status.splits)
qed simp

lemma own_rows_Some:
  "own_rows chat sess actual mid rows f = Inr (Some g) \<Longrightarrow>
   list_all (\<lambda>r. on_destination actual r \<longrightarrow> \<not> open_row r) rows \<and>
   (g \<longleftrightarrow> f \<or> list_ex (\<lambda>r. on_destination actual r \<and> settled mid r) rows)"
proof (induction rows arbitrary: f)
  case (Cons r rows)
  show ?case
  proof (cases r)
    case (Legacy m)
    have "mu_destination m \<noteq> actual" "own_rows chat sess actual mid rows f = Inr (Some g)"
      using Cons.prems by (auto simp: Legacy journalState_def split: if_splits)
    with Cons.IH show ?thesis
      by (simp add: Legacy on_destination_def)
  next
    case (Envelope fp b m)
    have step: "(if mu_destination m \<noteq> actual then own_rows chat sess actual mid rows f
        else case mu_status m of
             Confirmed mid' _ \<Rightarrow> own_rows chat sess actual mid rows (f \<or> mid' = mid)
           | _ \<Rightarrow> Inr None) = Inr (Some g)"
      using Cons.prems by (auto simp: Envelope journalRecord_def split: if_splits option.splits)
    show ?thesis
    proof (cases "mu_destination m = actual")
      case True
      then obtain mid' fin where m: "mu_status m = Confirmed mid' fin" "own_rows chat sess actual mid rows (f \<or> mid' = mid) = Inr (Some g)"
        using step by (cases "mu_status m") auto
      with Cons.IH [OF m(2)] True show ?thesis
        by (simp add: Envelope on_destination_def open_row_def settled_def)
    next
      case False
      with step Cons.IH show ?thesis by (simp add: Envelope on_destination_def)
    qed
  qed
qed simp

text \<open>Reading leaves every journal as it is; nobody else writes meanwhile.\<close>

definition quiet :: "'st world \<Rightarrow> bool" where
  "quiet W \<longleftrightarrow> (\<forall>n d. w_others W n d = d)"

definition tools_of :: "'st conn \<Rightarrow> string \<Rightarrow> journal_row list" where
  "tools_of c chat = hvals (k_tools (db_chat (c_db c) chat))"

lemma quiet_read:
  assumes "quiet W" "eval_script W chat Op_read c = (Inr r, c')"
  shows "tools_of c' = tools_of c"
  using assms by (auto simp: eval_script_Inr quiet_def db_run_def op_read_def db_put_def tools_of_def view_def fun_eq_iff)

lemma quiet_journal:
  assumes "quiet W" "eval_script W chat Op_journal_list c = (Inr r, c')"
  shows "r = R_rows (tools_of c chat)" "tools_of c' = tools_of c"
  using assms by (auto simp: eval_script_Inr quiet_def db_run_def op_journal_list_def db_put_def tools_of_def view_def fun_eq_iff)

lemma own_chats_result:
  "quiet W \<Longrightarrow> own_chats W actual mid chats f c = (Inr res, c') \<Longrightarrow>
   tools_of c' = tools_of c \<and>
   (case res of
      O_uncertain \<Rightarrow> \<exists>chat \<in> set chats. list_ex (\<lambda>r. on_destination actual r \<and> open_row r) (tools_of c chat)
    | _ \<Rightarrow> (\<forall>chat \<in> set chats. list_all (\<lambda>r. on_destination actual r \<longrightarrow> \<not> open_row r) (tools_of c chat)) \<and>
        (res = O_confirmed \<longleftrightarrow> f \<or> (\<exists>chat \<in> set chats. list_ex (\<lambda>r. on_destination actual r \<and> settled mid r) (tools_of c chat))))"
proof (induction chats arbitrary: f c)
  case (Cons chat chats)
  obtain st c1 rows c2 where 1: "eval_script W chat Op_read c = (Inr st, c1)"
    "eval_script W chat Op_journal_list c1 = (Inr rows, c2)"
    and rest: "(case (st, rows) of
         (R_read _ sess _ _, R_rows rows) \<Rightarrow>
           seq (lift (own_rows chat sess actual mid rows f)) (\<lambda>x.
             case x of
               None \<Rightarrow> ret O_uncertain
             | Some confirmed \<Rightarrow> own_chats W actual mid chats confirmed)
       | _ \<Rightarrow> throw Store_unavailable) c2 = (Inr res, c')"
    using Cons.prems(2) by (simp add: seq_Inr) blast
  note q = quiet_read [OF Cons.prems(1) 1(1)] quiet_journal [OF Cons.prems(1) 1(2)]
  obtain x sess where x: "own_rows chat sess actual mid (tools_of c chat) f = Inr x"
    "(case x of None \<Rightarrow> ret O_uncertain | Some confirmed \<Rightarrow> own_chats W actual mid chats confirmed) c2 = (Inr res, c')"
    using rest q by (cases st) (auto simp: seq_Inr lift_def throw_def)
  show ?case
  proof (cases x)
    case None
    then show ?thesis using x own_rows_None q by (auto simp: ret_def)
  next
    case (Some g)
    note s = own_rows_Some [OF x(1) [unfolded Some]]
    have "own_chats W actual mid chats g c2 = (Inr res, c')" using x(2) Some by simp
    from Cons.IH [OF Cons.prems(1) this] s q show ?thesis
      by (cases res) auto
  qed
qed (auto simp: ret_def)

text \<open>an unresolved attempt on a destination always wins: \<open>uncertain\<close> is answered exactly when some
configured chat's journal holds an open attempt on it, and otherwise \<open>confirmed\<close> exactly when some
journal holds a confirmed send of that very message to that destination.\<close>

theorem own_mutation_precedence:
  assumes "quiet W" "ownMutation W actual mid c = (Inr res, c')"
  shows "(res = O_uncertain \<longleftrightarrow> (\<exists>chat \<in> set (w_chats W).
      list_ex (\<lambda>r. on_destination actual r \<and> open_row r) (tools_of c chat))) \<and>
    (res = O_confirmed \<longrightarrow> (\<exists>chat \<in> set (w_chats W).
      list_ex (\<lambda>r. on_destination actual r \<and> settled mid r) (tools_of c chat))) \<and>
    (res = O_none \<longrightarrow> (\<forall>chat \<in> set (w_chats W).
      list_all (\<lambda>r. \<not> (on_destination actual r \<and> settled mid r)) (tools_of c chat)))"
proof -
  have "own_chats W actual mid (w_chats W) False c = (Inr res, c')"
    using assms(2) by (auto simp: ownMutation_def seq_Inr lift_def serial_Inr)
  from own_chats_result [OF assms(1) this] show ?thesis
    by (cases res) (fastforce simp: list_all_iff list_ex_iff)+
qed

definition demo_attempt :: mutation_state where
  "demo_attempt = \<lparr>mu_attemptId = replicate 32 CHR ''c'', mu_eventId = event_id demo_event, mu_chat = ''1@g.us'',
     mu_toolCallId = ''t'', mu_tool = Send_message, mu_destination = ''1@g.us'', mu_startedAt = ''2026-01-01T00:00:00Z'',
     mu_ownership = cw_ownership demo_claimed_work, mu_status = Attempting\<rparr>"

definition demo_sending_keys :: "list_stream keyspace" where
  "demo_sending_keys = (let k = view ''1@g.us'' (c_db demo_conn_bound)
     in k\<lparr>k_tools := [(mu_attemptId demo_attempt, Envelope demo_fp demo_binding demo_attempt)]\<rparr>)"

definition demo_conn_sending :: "list_stream conn" where
  "demo_conn_sending = demo_conn_bound\<lparr>c_db := db_put ''1@g.us'' demo_sending_keys (c_db demo_conn_bound)\<rparr>"

lemma demo_attempt_schema: "mutation_state_schema demo_attempt"
  by (simp add: mutation_state_schema_def demo_attempt_def opaque_id_def is_hex_def is_digit_def demo_event_def
      chat_jid_schema_def group_jid_def jid_with_def jid_user_def jid_server_def timestamp_schema_def match_timestamp_def
      take_digits_def skip_fraction_def match_zone_def dig_def demo_claimed_work_def ownership_schema_def demo_fences list_all_iff)

lemma demo_own_rows:
  "own_rows ''1@g.us'' (Some demo_binding) ''1@g.us'' ''m'' [Envelope demo_fp demo_binding demo_attempt] False = Inr None"
proof -
  have "mu_chat demo_attempt = ''1@g.us''" "mu_destination demo_attempt = ''1@g.us''" "mu_status demo_attempt = Attempting"
    "sb_chat demo_binding = ''1@g.us''"
    by (simp_all add: demo_attempt_def demo_binding_def)
  moreover have "event_fingerprint_schema demo_fp" "session_binding_schema demo_binding"
    using demo_proof_schema by (simp_all add: completion_proof_schema_def completion_marker_schema_def demo_proof_def)
  ultimately show ?thesis
    by (simp add: journalRecord_def journal_envelope_schema_def demo_attempt_schema)
qed

lemma demo_chats: "w_chats demo_world = [''1@g.us'', ''9@lid'']"
  by (simp add: demo_world_def)

theorem own_mutation_precedence_witness:
  "\<exists>chat \<in> set (w_chats demo_world). list_ex (\<lambda>r. on_destination ''1@g.us'' r \<and> open_row r) (tools_of demo_conn_sending chat)"
proof -
  define c1 where "c1 = snd (eval_script demo_world ''1@g.us'' Op_read demo_conn_sending)"
  define c2 where "c2 = snd (eval_script demo_world ''1@g.us'' Op_journal_list c1)"
  have "read_session (case fst (eval_script demo_world ''1@g.us'' Op_read demo_conn_sending) of Inr r \<Rightarrow> r) = Some demo_binding"
    by code_simp
  moreover have quiet: "quiet demo_world" by (simp add: quiet_def demo_world_def)
  have read: "\<exists>cur p g. eval_script demo_world ''1@g.us'' Op_read demo_conn_sending = (Inr (R_read cur (Some demo_binding) p g), c1)"
    using calculation by (simp add: eval_script_def demo_world_def Let_def c1_def db_run_def op_read_def read_session_def)
  moreover have "tools_of demo_conn_sending ''1@g.us'' = [Envelope demo_fp demo_binding demo_attempt]"
    by (simp add: tools_of_def demo_conn_sending_def demo_sending_keys_def db_put_def hvals_def Let_def)
  then have "tools_of c1 ''1@g.us'' = [Envelope demo_fp demo_binding demo_attempt]"
    using read quiet_read [OF quiet] by fastforce
  then have "eval_script demo_world ''1@g.us'' Op_journal_list c1 = (Inr (R_rows [Envelope demo_fp demo_binding demo_attempt]), c2)"
    by (simp add: eval_script_def demo_world_def Let_def c2_def db_run_def op_journal_list_def tools_of_def view_def)
  ultimately have "own_chats demo_world ''1@g.us'' ''m'' (w_chats demo_world) False demo_conn_sending = (Inr O_uncertain, c2)"
    by (auto simp: demo_chats seq_def demo_own_rows lift_def ret_def simp del: own_rows.simps)
  moreover have "c_healthy demo_conn_sending" by code_simp
  moreover have "chat_jid_schema ''1@g.us''" "message_id_schema ''m''" by code_simp+
  ultimately have "ownMutation demo_world ''1@g.us'' ''m'' demo_conn_sending = (Inr O_uncertain, c2)"
    by (simp add: ownMutation_def checked_def serial_def)
  from own_mutation_precedence [OF quiet this] show ?thesis by simp
qed

end
