(* ===== verification/Evidence.thy ===== *)
theory Evidence
  imports Intake
begin

text \<open>
  The strict reader of a session file (\<open>readEvidence\<close> and its helpers in
  \<open>src/session-controller/src/pi/completion-index.ts\<close>): the path of the file, one step per JSONL
  line, the reading in chunks, and the retries while the file changes. The parameter \<open>parse\<close> is
  \<open>JSON.parse\<close>; what the file system answers is data (\<open>snapshot\<close>).
\<close>

section \<open>Paths\<close>

text \<open>The segments of an absolute path after \<open>path.resolve\<close>, as a stack.\<close>

fun split_slash :: "string \<Rightarrow> string \<Rightarrow> string list" where
  "split_slash acc [] = [rev acc]"
| "split_slash acc (c # s) = (if c = CHR ''/'' then rev acc # split_slash [] s else split_slash (c # acc) s)"

definition resolve_step :: "string list \<Rightarrow> string \<Rightarrow> string list" where
  "resolve_step segs x = (if x = '''' \<or> x = ''.'' then segs else if x = ''..'' then butlast segs else segs @ [x])"

definition resolve_path :: "string \<Rightarrow> string list" where
  "resolve_path p = foldl resolve_step [] (split_slash [] p)"

fun relative_segments :: "string list \<Rightarrow> string list \<Rightarrow> string list" where
  "relative_segments (a # r) (b # f) = (if a = b then relative_segments r f else replicate (Suc (length r)) ''..'' @ b # f)"
| "relative_segments r f = replicate (length r) ''..'' @ f"

definition is_absolute :: "string \<Rightarrow> bool" where
  "is_absolute p = (take 1 p = ''/'')"

definition ends_with :: "string \<Rightarrow> string \<Rightarrow> bool" where
  "ends_with suf s \<longleftrightarrow> length suf \<le> length s \<and> drop (length s - length suf) s = suf"

definition session_path_ok :: "string \<Rightarrow> session_binding \<Rightarrow> bool" where
  "session_path_ok root b \<longleftrightarrow>
     (let rel = intercalate ''/'' (relative_segments (resolve_path root) (resolve_path (sb_sessionFile b)))
      in is_absolute (sb_sessionFile b) \<and> rel \<noteq> '''' \<and> take 2 rel \<noteq> ''..'' \<and> \<not> is_absolute rel \<and>
        ends_with ''.jsonl'' (sb_sessionFile b))"

definition assertSessionPath :: "string \<Rightarrow> session_binding \<Rightarrow> error_class + unit" where
  "assertSessionPath root b =
     andThen (checked session_binding_schema b Session_failed) (\<lambda>_. guard (session_path_ok root b) Session_failed)"

section \<open>Values of a line\<close>

text \<open>\<open>Date.parse\<close> is finite exactly on the date-times whose fields and zone are in range.\<close>

definition date_in_range :: "time_groups \<Rightarrow> bool" where
  "date_in_range t \<longleftrightarrow> 1 \<le> tg_month t \<and> tg_month t \<le> 12 \<and> 1 \<le> tg_day t \<and>
     tg_day t \<le> month_days (tg_year t) ! (tg_month t - 1) \<and>
     tg_hour t < 24 \<and> tg_minute t < 60 \<and> tg_second t < 60 \<and>
     (case tg_zone t of None \<Rightarrow> True | Some (h, m) \<Rightarrow> h < 24 \<and> m < 60)"

definition validTime :: "json option \<Rightarrow> bool" where
  "validTime v =
     (case as_str v of
        None \<Rightarrow> False
      | Some s \<Rightarrow> (case match_timestamp s of None \<Rightarrow> False | Some t \<Rightarrow> date_in_range t))"

definition binding_of_json :: "json option \<Rightarrow> session_binding option" where
  "binding_of_json v =
     (case v of
        Some (JObj kv) \<Rightarrow> if \<not> only_keys [''canonicalChatId'', ''sessionId'', ''sessionFile''] kv then None
          else do {
            c \<leftarrow> as_str (jget kv ''canonicalChatId'');
            i \<leftarrow> as_str (jget kv ''sessionId'');
            f \<leftarrow> as_str (jget kv ''sessionFile'');
            let b = \<lparr>sb_chat = c, sb_sessionId = i, sb_sessionFile = f\<rparr>;
            if session_binding_schema b then Some b else None }
      | _ \<Rightarrow> None)"

definition send_of_json :: "json \<Rightarrow> confirmed_send option" where
  "send_of_json v =
     (case v of
        JObj kv \<Rightarrow> if \<not> only_keys [''destination'', ''messageId''] kv then None
          else do {
            d \<leftarrow> as_str (jget kv ''destination'');
            m \<leftarrow> as_str (jget kv ''messageId'');
            Some \<lparr>cs_destination = d, cs_messageId = m\<rparr> }
      | _ \<Rightarrow> None)"

fun sends_of_json :: "json list \<Rightarrow> confirmed_send list option" where
  "sends_of_json [] = Some []"
| "sends_of_json (v # vs) = do { s \<leftarrow> send_of_json v; ss \<leftarrow> sends_of_json vs; Some (s # ss) }"

fun completion_of_text :: "string \<Rightarrow> completion_kind option" where
  "completion_of_text s = (if s = ''turn'' then Some Turn else if s = ''context_only'' then Some Context_only else None)"

definition marker_keys :: "string list" where
  "marker_keys = [''version'', ''eventId'', ''eventFingerprint'', ''canonicalChatId'', ''chatSequence'',
     ''completion'', ''completedAt'', ''confirmedSends'']"

definition marker_fields :: "(string \<times> json) list \<Rightarrow> completion_marker option" where
  "marker_fields kv = do {
     v \<leftarrow> as_int (jget kv ''version'');
     eid \<leftarrow> as_str (jget kv ''eventId'');
     fp \<leftarrow> as_str (jget kv ''eventFingerprint'');
     chat \<leftarrow> as_str (jget kv ''canonicalChatId'');
     sq \<leftarrow> as_int (jget kv ''chatSequence'');
     kind \<leftarrow> as_str (jget kv ''completion'');
     kind \<leftarrow> completion_of_text kind;
     at \<leftarrow> as_str (jget kv ''completedAt'');
     sends \<leftarrow> (case jget kv ''confirmedSends'' of Some (JArr xs) \<Rightarrow> sends_of_json xs | _ \<Rightarrow> None);
     if v \<noteq> 1 \<or> sq < 0 then None
     else Some \<lparr>cm_eventId = eid, cm_fingerprint = fp, cm_chat = chat, cm_sequence = nat sq,
       cm_completion = kind, cm_completedAt = at, cm_sends = sends\<rparr> }"

definition marker_of_json :: "json option \<Rightarrow> completion_marker option" where
  "marker_of_json v =
     (case v of
        Some (JObj kv) \<Rightarrow> if \<not> only_keys marker_keys kv then None
          else do { m \<leftarrow> marker_fields kv; if completion_marker_schema m then Some m else None }
      | _ \<Rightarrow> None)"

section \<open>One line\<close>

record scan =
  sc_header :: bool
  sc_bound :: bool
  sc_ids :: "string list"
  sc_events :: "string list"
  sc_sequences :: "nat list"
  sc_proofs :: "completion_proof list"

definition scan_start :: scan where
  "scan_start = \<lparr>sc_header = False, sc_bound = False, sc_ids = [], sc_events = [], sc_sequences = [], sc_proofs = []\<rparr>"

definition entry_types :: "string list" where
  "entry_types = [''message'', ''model_change'', ''thinking_level_change'', ''compaction'', ''context_edit'',
     ''branch_summary'', ''custom'', ''custom_message'', ''label'', ''session_info'', ''usage'']"

definition header_ok :: "session_binding \<Rightarrow> (string \<times> json) list \<Rightarrow> bool" where
  "header_ok b e \<longleftrightarrow> jget e ''type'' = Some (JStr ''session'') \<and> jget e ''version'' = Some (JInt 3) \<and>
     jget e ''id'' = Some (JStr (sb_sessionId b)) \<and> as_str (jget e ''cwd'') \<noteq> None \<and> validTime (jget e ''timestamp'')"

definition known_id :: "string list \<Rightarrow> json option \<Rightarrow> bool" where
  "known_id ids v = (case as_str v of Some s \<Rightarrow> s \<in> set ids | None \<Rightarrow> False)"

definition is_string :: "json option \<Rightarrow> bool" where
  "is_string v \<longleftrightarrow> as_str v \<noteq> None"

fun is_array :: "json option \<Rightarrow> bool" where
  "is_array (Some (JArr _)) = True"
| "is_array _ = False"

fun is_number :: "json option \<Rightarrow> bool" where
  "is_number (Some (JInt _)) = True"
| "is_number (Some (JNum _)) = True"
| "is_number _ = False"

text \<open>A number text that overflows is parsed as an infinity.\<close>

definition is_finite :: "json option \<Rightarrow> bool" where
  "is_finite v \<longleftrightarrow> is_number v \<and> v \<noteq> Some (JNum ''Infinity'') \<and> v \<noteq> Some (JNum ''-Infinity'')"

definition common_ok :: "string list \<Rightarrow> (string \<times> json) list \<Rightarrow> bool" where
  "common_ok ids e \<longleftrightarrow>
     (case as_str (jget e ''type'') of Some t \<Rightarrow> t \<in> set entry_types | None \<Rightarrow> False) \<and>
     (case as_str (jget e ''id'') of Some i \<Rightarrow> i \<noteq> '''' \<and> i \<notin> set ids | None \<Rightarrow> False) \<and>
     (jget e ''parentId'' = Some JNull \<or> known_id ids (jget e ''parentId'')) \<and> validTime (jget e ''timestamp'')"

definition message_ok :: "json option \<Rightarrow> bool" where
  "message_ok v =
     (case v of
        Some (JObj m) \<Rightarrow> (case as_str (jget m ''role'') of Some r \<Rightarrow> r \<noteq> '''' | None \<Rightarrow> False) \<and>
          is_finite (jget m ''timestamp'')
      | _ \<Rightarrow> False)"

definition replacement_ok :: "json option \<Rightarrow> bool" where
  "replacement_ok v =
     (case v of
        Some JNull \<Rightarrow> True
      | Some (JObj r) \<Rightarrow> is_string (jget r ''content'') \<or> is_array (jget r ''content'')
      | _ \<Rightarrow> False)"

text \<open>\<open>ids\<close> already holds the entry's own ID here, as in the code.\<close>

definition shape_ok :: "string list \<Rightarrow> string \<Rightarrow> (string \<times> json) list \<Rightarrow> bool" where
  "shape_ok ids t e =
     (if t = ''message'' then message_ok (jget e ''message'')
      else if t = ''compaction'' then is_string (jget e ''summary'') \<and> known_id ids (jget e ''firstKeptEntryId'') \<and>
        is_number (jget e ''tokensBefore'')
      else if t = ''branch_summary'' then is_string (jget e ''summary'') \<and> known_id ids (jget e ''fromId'')
      else if t = ''context_edit'' then known_id ids (jget e ''targetId'') \<and> replacement_ok (jget e ''replacement'')
      else if t = ''model_change'' then is_string (jget e ''provider'') \<and> is_string (jget e ''modelId'')
      else if t = ''thinking_level_change'' then is_string (jget e ''thinkingLevel'')
      else if t = ''custom_message'' then is_string (jget e ''customType'') \<and>
        (is_string (jget e ''content'') \<or> is_array (jget e ''content'')) \<and> as_bool (jget e ''display'') \<noteq> None
      else if t = ''usage'' then is_string (jget e ''kind'') \<and> is_string (jget e ''provider'') \<and>
        is_string (jget e ''model'') \<and> (case jget e ''usage'' of Some (JObj _) \<Rightarrow> True | Some (JArr _) \<Rightarrow> True | _ \<Rightarrow> False)
      else if t = ''session_info'' then jget e ''name'' = None \<or> is_string (jget e ''name'')
      else if t = ''label'' then known_id ids (jget e ''targetId'') \<and> (jget e ''label'' = None \<or> is_string (jget e ''label''))
      else True)"

definition binding_type :: string where
  "binding_type = ''whatsapp.controller.binding.v1''"

definition completion_type :: string where
  "completion_type = ''whatsapp.controller.completed.v1''"

definition completed_prefix :: string where
  "completed_prefix = ''whatsapp.controller.completed''"

definition take_binding :: "session_binding \<Rightarrow> (string \<times> json) list \<Rightarrow> scan \<Rightarrow> scan option" where
  "take_binding b e s =
     (if sc_bound s \<or> binding_of_json (jget e ''data'') \<noteq> Some b then None else Some (s\<lparr>sc_bound := True\<rparr>))"

definition take_marker :: "session_binding \<Rightarrow> string \<Rightarrow> (string \<times> json) list \<Rightarrow> scan \<Rightarrow> scan option" where
  "take_marker b i e s =
     (case marker_of_json (jget e ''data'') of
        None \<Rightarrow> None
      | Some m \<Rightarrow>
          if \<not> sc_bound s \<or> cm_chat m \<noteq> sb_chat b \<or> cm_eventId m \<in> set (sc_events s) \<or>
            cm_sequence m \<in> set (sc_sequences s) \<or> \<not> validTime (Some (JStr (cm_completedAt m))) then None
          else
            let p = \<lparr>cp_marker = m, cp_entryId = i, cp_session = b\<rparr> in
            if \<not> completion_proof_schema p then None
            else Some (s\<lparr>sc_events := cm_eventId m # sc_events s, sc_sequences := cm_sequence m # sc_sequences s,
              sc_proofs := sc_proofs s @ [p]\<rparr>))"

definition consume_entry :: "session_binding \<Rightarrow> (string \<times> json) list \<Rightarrow> scan \<Rightarrow> scan option" where
  "consume_entry b e s =
     (if \<not> common_ok (sc_ids s) e then None
      else
        let t = the (as_str (jget e ''type'')); i = the (as_str (jget e ''id''));
            s = s\<lparr>sc_ids := i # sc_ids s\<rparr>
        in if \<not> shape_ok (sc_ids s) t e then None
           else if t \<noteq> ''custom'' then Some s
           else case as_str (jget e ''customType'') of
             None \<Rightarrow> None
           | Some ct \<Rightarrow>
               if ct = binding_type then take_binding b e s
               else if ct = completion_type then take_marker b i e s
               else if take (length completed_prefix) ct = completed_prefix then None
               else Some s)"

definition strip_bom :: "string \<Rightarrow> string" where
  "strip_bom s = (if take 3 s = [CHR 0xEF, CHR 0xBB, CHR 0xBF] then drop 3 s else s)"

text \<open>The streaming decoder drops a byte order mark at the start of the file.\<close>

definition consume :: "(string \<Rightarrow> json option) \<Rightarrow> session_binding \<Rightarrow> string \<Rightarrow> scan \<Rightarrow> scan option" where
  "consume parse b line s =
     (case parse (if sc_header s then line else strip_bom line) of
        Some (JObj e) \<Rightarrow>
          if sc_header s then consume_entry b e s
          else if header_ok b e then Some (s\<lparr>sc_header := True\<rparr>) else None
      | _ \<Rightarrow> None)"

section \<open>UTF-8\<close>

definition in_range :: "nat \<Rightarrow> nat \<Rightarrow> char \<Rightarrow> bool" where
  "in_range a b c \<longleftrightarrow> a \<le> of_char c \<and> of_char c \<le> b"

definition trail :: "char \<Rightarrow> bool" where
  "trail c \<longleftrightarrow> in_range 128 191 c"

text \<open>The second byte after a lead byte of a three or four byte sequence.\<close>

definition second_ok :: "char \<Rightarrow> char \<Rightarrow> bool" where
  "second_ok c d \<longleftrightarrow>
     (if c = CHR 0xE0 then in_range 160 191 d else if c = CHR 0xED then in_range 128 159 d
      else if c = CHR 0xF0 then in_range 144 191 d else if c = CHR 0xF4 then in_range 128 143 d else trail d)"

fun utf8_tail :: "nat \<Rightarrow> string \<Rightarrow> string option" where
  "utf8_tail 0 s = Some s"
| "utf8_tail (Suc n) (c # s) = (if trail c then utf8_tail n s else None)"
| "utf8_tail (Suc n) [] = None"

lemma utf8_tail_length: "utf8_tail n s = Some r \<Longrightarrow> length r \<le> length s"
  by (induction n s rule: utf8_tail.induct) (auto split: if_splits)

function utf8_ok :: "string \<Rightarrow> bool" where
  "utf8_ok s =
     (case s of
        [] \<Rightarrow> True
      | c # s \<Rightarrow>
          if in_range 0 127 c then utf8_ok s
          else if in_range 194 223 c then (case utf8_tail 1 s of None \<Rightarrow> False | Some r \<Rightarrow> utf8_ok r)
          else if in_range 224 239 c then
            (s \<noteq> [] \<and> second_ok c (hd s) \<and> (case utf8_tail 2 s of None \<Rightarrow> False | Some r \<Rightarrow> utf8_ok r))
          else if in_range 240 244 c then
            (s \<noteq> [] \<and> second_ok c (hd s) \<and> (case utf8_tail 3 s of None \<Rightarrow> False | Some r \<Rightarrow> utf8_ok r))
          else False)"
  by pat_completeness auto
termination
  by (relation "measure length") (auto dest!: utf8_tail_length)

declare utf8_ok.simps [simp del]

section \<open>The file\<close>

text \<open>Every complete line of the pending text is consumed; the rest stays pending.\<close>

function feed :: "(string \<Rightarrow> 's \<Rightarrow> 's option) \<Rightarrow> string \<Rightarrow> 's \<Rightarrow> (string \<times> 's) option" where
  "feed take_line pending s =
     (if CHR 0x0A \<notin> set pending then Some (pending, s)
      else case take_line (takeWhile (\<lambda>c. c \<noteq> CHR 0x0A) pending) s of
        None \<Rightarrow> None
      | Some s \<Rightarrow> feed take_line (tl (dropWhile (\<lambda>c. c \<noteq> CHR 0x0A) pending)) s)"
  by pat_completeness auto

lemma after_newline_shorter:
  "CHR 0x0A \<in> set p \<Longrightarrow> length (tl (dropWhile (\<lambda>c. c \<noteq> CHR 0x0A) p)) < length p"
proof -
  assume "CHR 0x0A \<in> set p"
  then have "p \<noteq> []" by auto
  moreover have "length (dropWhile (\<lambda>c. c \<noteq> CHR 0x0A) p) \<le> length p" by (rule length_dropWhile_le)
  ultimately show ?thesis by (cases p) auto
qed

termination feed
  by (relation "measure (\<lambda>(_, p, _). length p)") (use after_newline_shorter in auto)

declare feed.simps [simp del]

text \<open>One element per \<open>read\<close>: its bytes, or \<open>None\<close> when it throws; no bytes means a premature end.\<close>

fun read_loop :: "(string \<Rightarrow> 's \<Rightarrow> 's option) \<Rightarrow> nat \<Rightarrow> string option list \<Rightarrow> string \<Rightarrow> 's \<Rightarrow> (string \<times> 's) option" where
  "read_loop take_line 0 reads pending s = Some (pending, s)"
| "read_loop take_line (Suc n) [] pending s = None"
| "read_loop take_line (Suc n) (None # reads) pending s = None"
| "read_loop take_line (Suc n) (Some chunk # reads) pending s =
     (if chunk = [] then None
      else case feed take_line (pending @ chunk) s of
        None \<Rightarrow> None
      | Some (pending, s) \<Rightarrow> read_loop take_line (Suc n - length chunk) reads pending s)"

record file_stat =
  fs_size :: nat
  fs_mtime :: nat
  fs_ino :: nat
  fs_dev :: nat
  fs_isFile :: bool
  fs_symlink :: bool

text \<open>What the file system answers during one attempt; \<open>None\<close> is a call that throws.\<close>

record snapshot =
  sn_before :: "file_stat option"
  sn_reads :: "string option list"
  sn_after :: "file_stat option"
  sn_named :: "file_stat option"
  sn_synced :: bool
  sn_durable :: "file_stat option"
  sn_durableName :: "file_stat option"

definition same_file :: "file_stat \<Rightarrow> file_stat \<Rightarrow> bool" where
  "same_file a b \<longleftrightarrow> fs_ino a = fs_ino b \<and> fs_dev a = fs_dev b \<and> fs_size a = fs_size b \<and> fs_mtime a = fs_mtime b"

definition same_generation :: "file_stat \<Rightarrow> file_stat \<Rightarrow> bool" where
  "same_generation a b \<longleftrightarrow> fs_size a = fs_size b \<and> fs_mtime a = fs_mtime b"

text \<open>The bytes that the loop read: \<open>fatal\<close> decoding fails on them as a whole or not at all.\<close>

fun bytes_read :: "nat \<Rightarrow> string option list \<Rightarrow> string" where
  "bytes_read (Suc n) (Some chunk # reads) = chunk @ bytes_read (Suc n - length chunk) reads"
| "bytes_read _ _ = []"

definition scan_file :: "(string \<Rightarrow> json option) \<Rightarrow> session_binding \<Rightarrow> nat \<Rightarrow> string option list \<Rightarrow> completion_proof list option" where
  "scan_file parse b len reads =
     (case read_loop (consume parse b) len reads [] scan_start of
        None \<Rightarrow> None
      | Some (pending, s) \<Rightarrow>
          if utf8_ok (bytes_read len reads) \<and> pending = [] \<and> sc_header s \<and> sc_bound s then Some (sc_proofs s) else None)"

datatype attempt_result = Retry | Failed | Undurable | Proofs "completion_proof list"

definition read_attempt :: "(string \<Rightarrow> json option) \<Rightarrow> session_binding \<Rightarrow> snapshot \<Rightarrow> attempt_result" where
  "read_attempt parse b sn =
     (case sn_before sn of
        None \<Rightarrow> Failed
      | Some before \<Rightarrow>
          if \<not> fs_isFile before \<or> fs_size before = 0 then Failed
          else case (sn_after sn, sn_named sn) of
            (Some after, Some named) \<Rightarrow>
              if \<not> same_generation before after \<or> \<not> same_file after named then Retry
              else (case scan_file parse b (fs_size before) (sn_reads sn) of
                 None \<Rightarrow> Failed
               | Some proofs \<Rightarrow>
                   if \<not> sn_synced sn then Undurable
                   else case (sn_durable sn, sn_durableName sn) of
                     (Some durable, Some durableName) \<Rightarrow>
                       if \<not> same_generation after durable \<or> \<not> same_file durable durableName \<or> fs_symlink durableName
                       then Retry else Proofs proofs
                   | _ \<Rightarrow> Failed)
          | _ \<Rightarrow> Failed)"

fun read_attempts :: "(string \<Rightarrow> json option) \<Rightarrow> session_binding \<Rightarrow> nat \<Rightarrow> (nat \<Rightarrow> snapshot) \<Rightarrow> attempt_result" where
  "read_attempts parse b 0 sns = Failed"
| "read_attempts parse b (Suc n) sns =
     (case read_attempt parse b (sns 0) of
        Retry \<Rightarrow> read_attempts parse b n (\<lambda>i. sns (Suc i))
      | r \<Rightarrow> r)"

text \<open>\<open>dirs\<close>: the file opens and every ancestor up to the root is a directory. \<open>Undurable\<close> also calls \<open>durabilityFailed\<close>.\<close>

definition readEvidence :: "(string \<Rightarrow> json option) \<Rightarrow> string \<Rightarrow> session_binding \<Rightarrow> bool \<Rightarrow> (nat \<Rightarrow> snapshot) \<Rightarrow> attempt_result" where
  "readEvidence parse root b dirs sns =
     (if assertSessionPath root b \<noteq> Inr () \<or> \<not> dirs then Failed else read_attempts parse b 8 sns)"

end
