(* ===== verification/Evidence_Spec.thy ===== *)
theory Evidence_Spec
  imports Evidence "HOL-Library.Sublist"
begin

text \<open>
  The properties of the session-file reader: what an accepted path is, that the chunks of the
  reading do not matter, what a returned proof is worth, and that evidence only grows.
\<close>

section \<open>Paths\<close>

lemma relative_segments_inside:
  "relative_segments r f = rel \<Longrightarrow> (\<exists>rest. f = r @ rest \<and> rel = rest) \<or> (\<exists>x. rel = ''..'' # x)"
proof (induction r f arbitrary: rel rule: relative_segments.induct, goal_cases)
  case (1 a r b f)
  then show ?case by (cases "a = b") auto
next
  case (2 f)
  then show ?case by simp
next
  case (3 r)
  then show ?case by (cases r) auto
qed

lemma intercalate_dots: "take 2 (intercalate ''/'' (''..'' # xs)) = ''..''"
  by (cases xs) simp_all

text \<open>an accepted session file lies strictly inside the session root: after resolving dots, empty segments
and parent references, its path is the root's path followed by at least one more segment, the
name ends with \<open>.jsonl\<close>, and the path was absolute.\<close>

theorem session_path_inside:
  assumes "assertSessionPath root b = Inr ()"
  shows "\<exists>rest. rest \<noteq> [] \<and> resolve_path (sb_sessionFile b) = resolve_path root @ rest \<and>
    is_absolute (sb_sessionFile b) \<and> ends_with ''.jsonl'' (sb_sessionFile b) \<and> session_binding_schema b"
proof -
  let ?rel = "relative_segments (resolve_path root) (resolve_path (sb_sessionFile b))"
  have ok: "session_binding_schema b" "is_absolute (sb_sessionFile b)" "intercalate ''/'' ?rel \<noteq> ''''"
    "take 2 (intercalate ''/'' ?rel) \<noteq> ''..''" "ends_with ''.jsonl'' (sb_sessionFile b)"
    using assms by (auto simp: assertSessionPath_def session_path_ok_def Let_def)
  consider rest where "resolve_path (sb_sessionFile b) = resolve_path root @ rest" "?rel = rest" | x where "?rel = ''..'' # x"
    using relative_segments_inside [of "resolve_path root" "resolve_path (sb_sessionFile b)" ?rel] by auto
  then show ?thesis
  proof cases
    case 1
    then have "rest \<noteq> []" using ok(3) by auto
    then show ?thesis using 1 ok by blast
  next
    case 2
    then show ?thesis using ok(4) intercalate_dots by metis
  qed
qed

definition demo_file :: session_binding where
  "demo_file = \<lparr>sb_chat = ''1@g.us'', sb_sessionId = ''s'', sb_sessionFile = ''/r/a/../b/s.jsonl''\<rparr>"

theorem session_path_inside_witness:
  "resolve_path ''/r/a/../b/s.jsonl'' = [''r'', ''b'', ''s.jsonl''] \<and>
    (\<exists>rest. rest \<noteq> [] \<and> resolve_path ''/r/a/../b/s.jsonl'' = resolve_path ''/r'' @ rest)"
proof -
  have "assertSessionPath ''/r'' demo_file = Inr ()" by code_simp
  from session_path_inside [OF this]
  show ?thesis by (auto simp: demo_file_def resolve_path_def resolve_step_def)
qed

section \<open>Reading in chunks\<close>

lemma feed_no_newline: "CHR 0x0A \<notin> set p \<Longrightarrow> feed f p s = Some (p, s)"
  by (simp add: feed.simps)

lemma split_newline_append:
  assumes "CHR 0x0A \<in> set p"
  shows "takeWhile (\<lambda>c. c \<noteq> CHR 0x0A) (p @ q) = takeWhile (\<lambda>c. c \<noteq> CHR 0x0A) p"
    "tl (dropWhile (\<lambda>c. c \<noteq> CHR 0x0A) (p @ q)) = tl (dropWhile (\<lambda>c. c \<noteq> CHR 0x0A) p) @ q"
proof -
  have ne: "dropWhile (\<lambda>c. c \<noteq> CHR 0x0A) p \<noteq> []" using assms by (auto simp: dropWhile_eq_Nil_conv)
  show "takeWhile (\<lambda>c. c \<noteq> CHR 0x0A) (p @ q) = takeWhile (\<lambda>c. c \<noteq> CHR 0x0A) p"
    using assms by (auto simp: takeWhile_append1)
  have "dropWhile (\<lambda>c. c \<noteq> CHR 0x0A) (p @ q) = dropWhile (\<lambda>c. c \<noteq> CHR 0x0A) p @ q"
    using assms by (auto simp: dropWhile_append1)
  then show "tl (dropWhile (\<lambda>c. c \<noteq> CHR 0x0A) (p @ q)) = tl (dropWhile (\<lambda>c. c \<noteq> CHR 0x0A) p) @ q"
    using ne by (cases "dropWhile (\<lambda>c. c \<noteq> CHR 0x0A) p") auto
qed

lemma feed_append:
  "feed f (p @ q) s = (case feed f p s of None \<Rightarrow> None | Some (p', s') \<Rightarrow> feed f (p' @ q) s')"
proof (induction f p s rule: feed.induct)
  case (1 f p s)
  show ?case
  proof (cases "CHR 0x0A \<in> set p")
    case False
    then show ?thesis by (simp add: feed_no_newline)
  next
    case True
    note split = split_newline_append [OF True, of q]
    show ?thesis
    proof (cases "f (takeWhile (\<lambda>c. c \<noteq> CHR 0x0A) p) s")
      case None
      then show ?thesis using True split by (simp add: feed.simps [of f "p @ q"] feed.simps [of f p])
    next
      case (Some s')
      have "feed f (p @ q) s = feed f (tl (dropWhile (\<lambda>c. c \<noteq> CHR 0x0A) p) @ q) s'"
        using True Some split by (subst feed.simps) simp
      moreover have "feed f p s = feed f (tl (dropWhile (\<lambda>c. c \<noteq> CHR 0x0A) p)) s'"
        using True Some by (subst feed.simps) simp
      ultimately show ?thesis using "1.IH" [OF _ Some] True by simp
    qed
  qed
qed

text \<open>The chunks of a reading that is not cut short: none empty, no exception, as many bytes as the file has.\<close>

definition whole_reading :: "nat \<Rightarrow> string option list \<Rightarrow> bool" where
  "whole_reading n reads \<longleftrightarrow> list_all (\<lambda>r. r \<noteq> None \<and> r \<noteq> Some []) reads \<and> length (concat (map the reads)) = n"

lemma read_loop_feed:
  "whole_reading n reads \<Longrightarrow> feed f p s = Some (p, s) \<Longrightarrow>
    read_loop f n reads p s = feed f (p @ concat (map the reads)) s"
proof (induction f n reads p s rule: read_loop.induct)
  case (4 f n chunk reads p s)
  then have ne: "chunk \<noteq> []" and len: "length chunk + length (concat (map the reads)) = Suc n"
    and rest: "list_all (\<lambda>r. r \<noteq> None \<and> r \<noteq> Some []) reads"
    by (auto simp: whole_reading_def)
  show ?case
  proof (cases "feed f (p @ chunk) s")
    case None
    then show ?thesis using ne feed_append [of f "p @ chunk" "concat (map the reads)" s] by simp
  next
    case (Some r)
    obtain p' s' where r: "r = (p', s')" by force
    have idle: "feed f p' s' = Some (p', s')"
      using feed_append [of f "p @ chunk" "[]" s] Some r by simp
    have "whole_reading (Suc n - length chunk) reads" using len rest by (auto simp: whole_reading_def)
    from "4.IH" [OF ne _ _ this idle] Some r ne
    show ?thesis using feed_append [of f "p @ chunk" "concat (map the reads)" s] by simp
  qed
next
  case (1 f reads p s)
  then have "reads = []" by (cases reads) (auto simp: whole_reading_def)
  then show ?case using 1 by simp
qed (auto simp: whole_reading_def)

lemma bytes_read_whole: "whole_reading n reads \<Longrightarrow> bytes_read n reads = concat (map the reads)"
proof (induction n reads rule: bytes_read.induct)
  case (1 n chunk reads)
  then have "whole_reading (Suc n - length chunk) reads" by (auto simp: whole_reading_def)
  then show ?case using 1 by simp
qed (auto simp: whole_reading_def list_all_iff neq_Nil_conv)

text \<open>The reference: the whole text at once, decoded, split into lines, every line consumed, nothing left over.\<close>

definition scan_text :: "(string \<Rightarrow> json option) \<Rightarrow> session_binding \<Rightarrow> string \<Rightarrow> completion_proof list option" where
  "scan_text parse b text =
     (case feed (consume parse b) text scan_start of
        None \<Rightarrow> None
      | Some (pending, s) \<Rightarrow>
          if utf8_ok text \<and> pending = [] \<and> sc_header s \<and> sc_bound s then Some (sc_proofs s) else None)"

text \<open>C40: the bounded-memory reading is the reading of the whole file: however \<open>read\<close> cuts the file into
chunks, the scan of the chunks gives exactly the result of decoding and consuming the whole text
at once, its failures included.\<close>

theorem chunked_scan_equals_whole:
  assumes "whole_reading n reads"
  shows "scan_file parse b n reads = scan_text parse b (concat (map the reads))"
proof -
  have "read_loop (consume parse b) n reads [] scan_start = feed (consume parse b) (concat (map the reads)) scan_start"
    using read_loop_feed [OF assms feed_no_newline, of "[]" "consume parse b" scan_start] by simp
  then show ?thesis
    unfolding scan_file_def scan_text_def bytes_read_whole [OF assms] by simp
qed

definition demo_parse :: "string \<Rightarrow> json option" where
  "demo_parse line =
     (if line = ''h'' then Some (JObj [(''type'', JStr ''session''), (''version'', JInt 3), (''id'', JStr ''s''),
         (''timestamp'', JStr ''2026-01-01T00:00:00Z''), (''cwd'', JStr ''/'')])
      else if line = ''b'' then Some (JObj [(''type'', JStr ''custom''), (''customType'', JStr binding_type), (''id'', JStr ''1''),
         (''parentId'', JNull), (''timestamp'', JStr ''2026-01-01T00:00:00Z''),
         (''data'', JObj [(''canonicalChatId'', JStr ''1@g.us''), (''sessionId'', JStr ''s''),
            (''sessionFile'', JStr ''/r/a/../b/s.jsonl'')])])
      else if line = ''c'' then Some (JObj [(''type'', JStr ''custom''), (''customType'', JStr completion_type), (''id'', JStr ''2''),
         (''parentId'', JStr ''1''), (''timestamp'', JStr ''2026-01-01T00:00:00Z''),
         (''data'', JObj [(''version'', JInt 1), (''eventId'', JStr (replicate 32 CHR ''a'')),
            (''eventFingerprint'', JStr (''sha256:v1:'' @ replicate 64 CHR ''b'')), (''canonicalChatId'', JStr ''1@g.us''),
            (''chatSequence'', JInt 1), (''completion'', JStr ''turn''), (''completedAt'', JStr ''2026-01-01T00:00:00Z''),
            (''confirmedSends'', JArr [])])])
      else None)"

definition demo_marker :: completion_marker where
  "demo_marker = \<lparr>cm_eventId = replicate 32 CHR ''a'', cm_fingerprint = ''sha256:v1:'' @ replicate 64 CHR ''b'',
     cm_chat = ''1@g.us'', cm_sequence = 1, cm_completion = Turn, cm_completedAt = ''2026-01-01T00:00:00Z'', cm_sends = []\<rparr>"

definition demo_text :: string where
  "demo_text = [CHR ''h'', CHR 0x0A, CHR ''b'', CHR 0x0A, CHR ''c'', CHR 0x0A]"

lemmas time_text_defs = match_timestamp_def take_digits_def skip_fraction_def match_zone_def dig_def is_digit_def

lemma demo_time: "validTime (Some (JStr ''2026-01-01T00:00:00Z''))" "timestamp_schema ''2026-01-01T00:00:00Z''"
  by (simp_all add: validTime_def date_in_range_def month_days_def time_text_defs timestamp_schema_def)

lemma demo_file_schema: "session_binding_schema demo_file"
  by code_simp

lemma demo_marker_schema: "completion_marker_schema demo_marker"
  by (simp add: completion_marker_schema_def demo_marker_def demo_time event_fingerprint_schema_def is_hex_def is_digit_def
      opaque_id_def sequence_schema_def max_safe_def chat_jid_schema_def group_jid_def jid_with_def jid_user_def jid_server_def
      list_all_iff)

lemma demo_header: "consume demo_parse demo_file ''h'' scan_start = Some (scan_start\<lparr>sc_header := True\<rparr>)"
  by (simp add: consume_def scan_start_def strip_bom_def demo_parse_def header_ok_def jget_def demo_file_def demo_time)

lemma demo_bind: "consume demo_parse demo_file ''b'' (scan_start\<lparr>sc_header := True\<rparr>) =
    Some (scan_start\<lparr>sc_header := True, sc_bound := True, sc_ids := [''1'']\<rparr>)"
proof -
  have "binding_of_json (Some (JObj [(''canonicalChatId'', JStr ''1@g.us''), (''sessionId'', JStr ''s''),
      (''sessionFile'', JStr ''/r/a/../b/s.jsonl'')])) = Some demo_file"
    by code_simp
  then show ?thesis
    by (simp add: consume_def scan_start_def demo_parse_def consume_entry_def common_ok_def entry_types_def jget_def
        demo_time shape_ok_def Let_def take_binding_def)
qed

lemma demo_complete_line: "consume demo_parse demo_file ''c'' (scan_start\<lparr>sc_header := True, sc_bound := True, sc_ids := [''1'']\<rparr>) =
    Some \<lparr>sc_header = True, sc_bound = True, sc_ids = [''2'', ''1''], sc_events = [cm_eventId demo_marker], sc_sequences = [1],
      sc_proofs = [\<lparr>cp_marker = demo_marker, cp_entryId = ''2'', cp_session = demo_file\<rparr>]\<rparr>"
proof -
  have "marker_of_json (Some (JObj [(''version'', JInt 1), (''eventId'', JStr (replicate 32 CHR ''a'')),
      (''eventFingerprint'', JStr (''sha256:v1:'' @ replicate 64 CHR ''b'')), (''canonicalChatId'', JStr ''1@g.us''),
      (''chatSequence'', JInt 1), (''completion'', JStr ''turn''), (''completedAt'', JStr ''2026-01-01T00:00:00Z''),
      (''confirmedSends'', JArr [])])) = Some demo_marker"
    using demo_marker_schema
    by (simp add: marker_of_json_def only_keys_def marker_keys_def marker_fields_def jget_def demo_marker_def)
  moreover have "cm_chat demo_marker = sb_chat demo_file" "cm_completedAt demo_marker = ''2026-01-01T00:00:00Z''" "cm_sequence demo_marker = 1"
    by (simp_all add: demo_marker_def demo_file_def)
  ultimately show ?thesis
    by (simp add: consume_def scan_start_def demo_parse_def consume_entry_def common_ok_def entry_types_def jget_def known_id_def
        demo_time shape_ok_def Let_def binding_type_def completion_type_def take_marker_def completion_proof_schema_def
        demo_marker_schema demo_file_schema)
qed

lemma demo_scan: "scan_text demo_parse demo_file demo_text =
    Some [\<lparr>cp_marker = demo_marker, cp_entryId = ''2'', cp_session = demo_file\<rparr>]"
proof -
  have "feed (consume demo_parse demo_file) demo_text scan_start =
      Some ('''', \<lparr>sc_header = True, sc_bound = True, sc_ids = [''2'', ''1''], sc_events = [cm_eventId demo_marker], sc_sequences = [1],
      sc_proofs = [\<lparr>cp_marker = demo_marker, cp_entryId = ''2'', cp_session = demo_file\<rparr>]\<rparr>)"
    by (simp add: demo_text_def feed.simps demo_header demo_bind demo_complete_line)
  moreover have "utf8_ok demo_text" by (simp add: demo_text_def utf8_ok.simps in_range_def)
  ultimately show ?thesis by (simp add: scan_text_def)
qed

theorem chunked_scan_equals_whole_witness:
  "scan_file demo_parse demo_file 6 [Some ([CHR ''h'', CHR 0x0A, CHR ''b'']), Some [CHR 0x0A, CHR ''c'', CHR 0x0A]] =
    Some [\<lparr>cp_marker = demo_marker, cp_entryId = ''2'', cp_session = demo_file\<rparr>]"
proof -
  have "whole_reading 6 [Some ([CHR ''h'', CHR 0x0A, CHR ''b'']), Some [CHR 0x0A, CHR ''c'', CHR 0x0A]]"
    by (simp add: whole_reading_def)
  from chunked_scan_equals_whole [OF this, of demo_parse demo_file] demo_scan
  show ?thesis by (simp add: demo_text_def)
qed

section \<open>What every line keeps\<close>

text \<open>The contract of a line consumer with a property that each accepted line keeps.\<close>

locale line_reader =
  fixes take_line :: "string \<Rightarrow> 's \<Rightarrow> 's option" and good :: "'s \<Rightarrow> bool"
  assumes line_good: "good s \<Longrightarrow> take_line l s = Some s' \<Longrightarrow> good s'"
begin

lemma feed_good: "good s \<Longrightarrow> feed take_line p s = Some (p', s') \<Longrightarrow> good s'"
proof (induction p arbitrary: s rule: length_induct)
  case (1 p)
  show ?case
  proof (cases "CHR 0x0A \<in> set p")
    case False
    then show ?thesis using 1 by (simp add: feed.simps)
  next
    case True
    then obtain s1 where s1: "take_line (takeWhile (\<lambda>c. c \<noteq> CHR 0x0A) p) s = Some s1"
      "feed take_line (tl (dropWhile (\<lambda>c. c \<noteq> CHR 0x0A) p)) s1 = Some (p', s')"
      using 1(3) by (subst (asm) feed.simps) (auto split: option.splits)
    show ?thesis
      using 1(1) after_newline_shorter [OF True] line_good [OF 1(2) s1(1)] s1(2) by blast
  qed
qed

lemma read_loop_good: "good s \<Longrightarrow> read_loop take_line n reads p s = Some (p', s') \<Longrightarrow> good s'"
proof (induction reads arbitrary: n p s)
  case Nil
  then show ?case by (cases n) auto
next
  case (Cons r reads)
  show ?case
  proof (cases n)
    case (Suc m)
    obtain chunk p1 s1 where "feed take_line (p @ chunk) s = Some (p1, s1)"
      "read_loop take_line (Suc m - length chunk) reads p1 s1 = Some (p', s')"
      using Cons.prems Suc by (cases r) (auto split: option.splits if_splits)
    then show ?thesis using feed_good [OF Cons.prems(1)] Cons.IH by blast
  qed (use Cons.prems in auto)
qed

end

section \<open>What a proof is worth\<close>

definition scan_inv :: "session_binding \<Rightarrow> scan \<Rightarrow> bool" where
  "scan_inv b s \<longleftrightarrow>
     list_all (\<lambda>p. completion_proof_schema p \<and> cp_session p = b \<and> cm_chat (cp_marker p) = sb_chat b) (sc_proofs s) \<and>
     set (sc_events s) = (\<lambda>p. cm_eventId (cp_marker p)) ` set (sc_proofs s) \<and>
     set (sc_sequences s) = (\<lambda>p. cm_sequence (cp_marker p)) ` set (sc_proofs s) \<and>
     distinct (map (\<lambda>p. cm_eventId (cp_marker p)) (sc_proofs s)) \<and>
     distinct (map (\<lambda>p. cm_sequence (cp_marker p)) (sc_proofs s)) \<and>
     (sc_proofs s \<noteq> [] \<longrightarrow> sc_bound s)"

lemma scan_inv_start: "scan_inv b scan_start"
  by (simp add: scan_inv_def scan_start_def)

text \<open>The three ways an accepted line changes the evidence.\<close>

lemma consume_cases:
  assumes "consume parse b line s = Some s'"
  shows "sc_proofs s' = sc_proofs s \<and> sc_events s' = sc_events s \<and> sc_sequences s' = sc_sequences s \<and>
      (sc_bound s \<longrightarrow> sc_bound s') \<or>
    (\<exists>p. sc_proofs s' = sc_proofs s @ [p] \<and> sc_events s' = cm_eventId (cp_marker p) # sc_events s \<and>
      sc_sequences s' = cm_sequence (cp_marker p) # sc_sequences s \<and> sc_bound s \<and> sc_bound s' \<and>
      completion_proof_schema p \<and> cp_session p = b \<and> cm_chat (cp_marker p) = sb_chat b \<and>
      cm_eventId (cp_marker p) \<notin> set (sc_events s) \<and> cm_sequence (cp_marker p) \<notin> set (sc_sequences s))"
  using assms
  by (auto simp: consume_def consume_entry_def take_binding_def take_marker_def Let_def
      split: option.splits json.splits if_splits)

lemma consume_inv: "scan_inv b s \<Longrightarrow> consume parse b line s = Some s' \<Longrightarrow> scan_inv b s'"
  by (drule consume_cases) (auto simp: scan_inv_def)

lemma consume_grows:
  "prefix ps (sc_proofs s) \<Longrightarrow> consume parse b line s = Some s' \<Longrightarrow> prefix ps (sc_proofs s')"
  by (drule consume_cases) auto

interpretation valid_scan: line_reader "consume parse b" "scan_inv b" for parse b
  by unfold_locales (rule consume_inv)

interpretation growing_scan: line_reader "consume parse b" "\<lambda>s. prefix ps (sc_proofs s)" for parse b ps
  by unfold_locales (rule consume_grows)

lemma scan_file_inv:
  assumes "scan_file parse b n reads = Some ps"
  shows "list_all (\<lambda>p. completion_proof_schema p \<and> cp_session p = b \<and> cm_chat (cp_marker p) = sb_chat b) ps"
    "distinct (map (\<lambda>p. cm_eventId (cp_marker p)) ps)" "distinct (map (\<lambda>p. cm_sequence (cp_marker p)) ps)"
proof -
  obtain pending s where s: "read_loop (consume parse b) n reads [] scan_start = Some (pending, s)" "ps = sc_proofs s"
    using assms by (auto simp: scan_file_def split: option.splits if_splits)
  from valid_scan.read_loop_good [OF scan_inv_start s(1)]
  show "list_all (\<lambda>p. completion_proof_schema p \<and> cp_session p = b \<and> cm_chat (cp_marker p) = sb_chat b) ps"
    "distinct (map (\<lambda>p. cm_eventId (cp_marker p)) ps)" "distinct (map (\<lambda>p. cm_sequence (cp_marker p)) ps)"
    by (simp_all add: scan_inv_def s(2))
qed

lemma read_attempts_Proofs:
  "read_attempts parse b n sns = Proofs ps \<Longrightarrow>
   \<exists>i < n. read_attempt parse b (sns i) = Proofs ps \<and> (\<forall>j < i. read_attempt parse b (sns j) = Retry)"
proof (induction parse b n sns rule: read_attempts.induct)
  case (2 parse b n sns)
  show ?case
  proof (cases "read_attempt parse b (sns 0) = Retry")
    case True
    then obtain i where i: "i < n" "read_attempt parse b (sns (Suc i)) = Proofs ps" "\<forall>j < i. read_attempt parse b (sns (Suc j)) = Retry"
      using 2 by auto
    have "\<forall>j < Suc i. read_attempt parse b (sns j) = Retry" using i(3) True by (simp add: All_less_Suc2)
    then show ?thesis using i(1,2) by (intro exI [where x = "Suc i"]) simp
  next
    case False
    then have "read_attempt parse b (sns 0) = Proofs ps" using 2 by (auto split: attempt_result.splits)
    then show ?thesis by (intro exI [where x = 0]) simp
  qed
qed simp

text \<open>C38: a proof that the reader returns is worth trusting. It was read in one of at most eight attempts, every
attempt before it having seen the file change. In that attempt the open descriptor was a regular file that
is not empty; its length and modification time were the same before the reading, after it and after
the final \<open>fsync\<close> of file and directory, which succeeded; after the reading the name still led to the descriptor's
file (same inode, device, length and modification time), and so it did after the \<open>fsync\<close>, where the name
was no symbolic link. Every proof satisfies its schema, belongs to this session and chat, and no event
and no sequence has two proofs.\<close>

theorem evidence_is_durable_and_valid:
  assumes "readEvidence parse root b dirs sns = Proofs ps"
  shows "dirs \<and> assertSessionPath root b = Inr () \<and>
    (\<exists>i < 8. \<exists>before after named durable durableName. (\<forall>j < i. read_attempt parse b (sns j) = Retry) \<and>
      sn_before (sns i) = Some before \<and> fs_isFile before \<and> 0 < fs_size before \<and>
      sn_after (sns i) = Some after \<and> fs_size after = fs_size before \<and> fs_mtime after = fs_mtime before \<and>
      sn_named (sns i) = Some named \<and> fs_ino named = fs_ino after \<and> fs_dev named = fs_dev after \<and>
      fs_size named = fs_size after \<and> fs_mtime named = fs_mtime after \<and> sn_synced (sns i) \<and>
      sn_durable (sns i) = Some durable \<and> fs_size durable = fs_size before \<and> fs_mtime durable = fs_mtime before \<and>
      sn_durableName (sns i) = Some durableName \<and> fs_ino durableName = fs_ino durable \<and> fs_dev durableName = fs_dev durable \<and>
      fs_size durableName = fs_size durable \<and> fs_mtime durableName = fs_mtime durable \<and> \<not> fs_symlink durableName \<and>
      scan_file parse b (fs_size before) (sn_reads (sns i)) = Some ps) \<and>
    list_all (\<lambda>p. completion_proof_schema p \<and> cp_session p = b \<and> cm_chat (cp_marker p) = sb_chat b) ps \<and>
    distinct (map (\<lambda>p. cm_eventId (cp_marker p)) ps) \<and> distinct (map (\<lambda>p. cm_sequence (cp_marker p)) ps)"
proof -
  obtain i where i: "i < 8" "read_attempt parse b (sns i) = Proofs ps" "\<forall>j < i. read_attempt parse b (sns j) = Retry"
    and start: "dirs" "assertSessionPath root b = Inr ()"
    using assms read_attempts_Proofs [of parse b 8 sns ps] by (auto simp: readEvidence_def split: if_splits)
  obtain before after named durable durableName where d: "sn_before (sns i) = Some before" "fs_isFile before" "0 < fs_size before"
    "sn_after (sns i) = Some after" "sn_named (sns i) = Some named" "same_generation before after" "same_file after named"
    "sn_synced (sns i)" "sn_durable (sns i) = Some durable" "sn_durableName (sns i) = Some durableName"
    "same_generation after durable" "same_file durable durableName" "\<not> fs_symlink durableName"
    "scan_file parse b (fs_size before) (sn_reads (sns i)) = Some ps"
    using i(2) by (auto simp: read_attempt_def split: option.splits if_splits)
  have same: "fs_size after = fs_size before" "fs_mtime after = fs_mtime before" "fs_ino named = fs_ino after" "fs_dev named = fs_dev after"
    "fs_size named = fs_size after" "fs_mtime named = fs_mtime after" "fs_size durable = fs_size before" "fs_mtime durable = fs_mtime before"
    "fs_ino durableName = fs_ino durable" "fs_dev durableName = fs_dev durable" "fs_size durableName = fs_size durable"
    "fs_mtime durableName = fs_mtime durable"
    using d(6,7,11,12) unfolding same_generation_def same_file_def by metis+
  show ?thesis
    by (intro conjI exI [where x = i] exI [where x = before] exI [where x = after] exI [where x = named]
        exI [where x = durable] exI [where x = durableName]) (rule start i(1,3) d same scan_file_inv [OF d(14)])+
qed

definition demo_stat :: file_stat where
  "demo_stat = \<lparr>fs_size = 6, fs_mtime = 1, fs_ino = 2, fs_dev = 3, fs_isFile = True, fs_symlink = False\<rparr>"

definition demo_snapshot :: snapshot where
  "demo_snapshot = \<lparr>sn_before = Some demo_stat, sn_reads = [Some demo_text], sn_after = Some demo_stat,
     sn_named = Some demo_stat, sn_synced = True, sn_durable = Some demo_stat, sn_durableName = Some demo_stat\<rparr>"

lemma demo_path: "assertSessionPath ''/r'' demo_file = Inr ()"
  by code_simp

lemma demo_read: "readEvidence demo_parse ''/r'' demo_file True (\<lambda>_. demo_snapshot) =
    Proofs [\<lparr>cp_marker = demo_marker, cp_entryId = ''2'', cp_session = demo_file\<rparr>]"
proof -
  have "read_loop (consume demo_parse demo_file) 6 [Some demo_text] [] scan_start = feed (consume demo_parse demo_file) demo_text scan_start"
    using read_loop_feed [OF _ feed_no_newline, of 6 "[Some demo_text]" "[]" "consume demo_parse demo_file" scan_start]
    by (simp add: whole_reading_def demo_text_def)
  moreover have "bytes_read 6 [Some demo_text] = demo_text"
    using bytes_read_whole [of 6 "[Some demo_text]"] by (simp add: whole_reading_def demo_text_def)
  ultimately have "scan_file demo_parse demo_file 6 [Some demo_text] = scan_text demo_parse demo_file demo_text"
    unfolding scan_file_def scan_text_def by (simp only:)
  then have "read_attempt demo_parse demo_file demo_snapshot =
      Proofs [\<lparr>cp_marker = demo_marker, cp_entryId = ''2'', cp_session = demo_file\<rparr>]"
    using demo_scan by (simp add: read_attempt_def demo_snapshot_def demo_stat_def same_generation_def same_file_def)
  then show ?thesis by (simp add: readEvidence_def demo_path numeral_eq_Suc)
qed

theorem evidence_is_durable_and_valid_witness:
  "distinct (map (\<lambda>p. cm_eventId (cp_marker p)) [\<lparr>cp_marker = demo_marker, cp_entryId = ''2'', cp_session = demo_file\<rparr>])"
  using evidence_is_durable_and_valid [OF demo_read] by blast

text \<open>evidence only grows: whatever complete or partial lines are appended to a session file, a scan of the
longer file either fails or returns the earlier proofs first, unchanged and in order.\<close>

theorem appended_evidence_grows:
  assumes "scan_text parse b text = Some ps" "scan_text parse b (text @ extra) = Some qs"
  shows "prefix ps qs"
proof -
  obtain s where s: "feed (consume parse b) text scan_start = Some ([], s)" "ps = sc_proofs s"
    using assms(1) by (auto simp: scan_text_def split: option.splits if_splits)
  obtain p' s' where s': "feed (consume parse b) (text @ extra) scan_start = Some (p', s')" "qs = sc_proofs s'"
    using assms(2) by (auto simp: scan_text_def split: option.splits if_splits)
  have "feed (consume parse b) extra s = Some (p', s')"
    using s'(1) feed_append [of "consume parse b" "text" extra scan_start] s(1) by simp
  from growing_scan.feed_good [OF _ this, of ps] show ?thesis by (simp add: s s')
qed

theorem appended_evidence_grows_witness:
  "prefix [] [\<lparr>cp_marker = demo_marker, cp_entryId = ''2'', cp_session = demo_file\<rparr>]"
proof -
  have "feed (consume demo_parse demo_file) [CHR ''h'', CHR 0x0A, CHR ''b'', CHR 0x0A] scan_start =
      Some ('''', scan_start\<lparr>sc_header := True, sc_bound := True, sc_ids := [''1'']\<rparr>)"
    by (simp add: feed.simps demo_header demo_bind)
  moreover have "utf8_ok [CHR ''h'', CHR 0x0A, CHR ''b'', CHR 0x0A]" by (simp add: utf8_ok.simps in_range_def)
  ultimately have "scan_text demo_parse demo_file [CHR ''h'', CHR 0x0A, CHR ''b'', CHR 0x0A] = Some []"
    by (simp add: scan_text_def scan_start_def)
  from appended_evidence_grows [OF this, of "[CHR ''c'', CHR 0x0A]"] demo_scan
  show ?thesis by (simp add: demo_text_def)
qed

end
