(* ===== verification/Index.thy ===== *)
theory Index
  imports Evidence_Spec
begin

text \<open>
  The completion index of one controller process (\<open>createCompletionIndex\<close> in
  \<open>src/session-controller/src/pi/completion-index.ts\<close>): the cache of proofs by file identity, the
  reservations of running appends, and the files that a failed write has poisoned. What the file
  system, the mapping reads and the journal answer at each call is the record \<open>index_env\<close>; every
  exception of the index is \<open>session_failed\<close>, so a failed call is \<open>None\<close>.
\<close>

section \<open>State\<close>

record index =
  ix_poisoned :: "string set"
  ix_pending :: "string set"
  ix_cache :: "(file_stat \<times> completion_proof list) hash"
  ix_step :: nat

type_synonym mapping_row = "string \<times> session_binding option"

text \<open>\<open>ie_queue\<close> is what the jobs that were queued before this one do to the index.\<close>

record index_env =
  ie_root :: string
  ie_operatorJids :: "string list"
  ie_groups :: "string list"
  ie_parse :: "string \<Rightarrow> json option"
  ie_lstat :: "nat \<Rightarrow> session_binding \<Rightarrow> file_stat option"
  ie_dirs :: "nat \<Rightarrow> session_binding \<Rightarrow> bool"
  ie_snapshots :: "nat \<Rightarrow> session_binding \<Rightarrow> nat \<Rightarrow> snapshot"
  ie_mappings :: "nat \<Rightarrow> mapping_row list option"
  ie_unresolved :: "nat \<Rightarrow> string \<Rightarrow> string \<Rightarrow> bool option"
  ie_queue :: "nat \<Rightarrow> index \<Rightarrow> index"

type_synonym 'a index_action = "index \<Rightarrow> 'a option \<times> index"

definition then_do :: "'a index_action \<Rightarrow> ('a \<Rightarrow> 'b index_action) \<Rightarrow> 'b index_action" where
  "then_do m f s = (case m s of (None, s') \<Rightarrow> (None, s') | (Some x, s') \<Rightarrow> f x s')"

definition tick :: "index \<Rightarrow> index" where
  "tick s = s\<lparr>ix_step := Suc (ix_step s)\<rparr>"

definition canonical_chats :: "index_env \<Rightarrow> string list" where
  "canonical_chats E = ie_groups E @ take 1 (ie_operatorJids E)"

definition new_index :: "index_env \<Rightarrow> error_class + index" where
  "new_index E =
     (if canonical_chats E = [] \<or> \<not> distinct (canonical_chats E) then Inl Config_invalid
      else Inr \<lparr>ix_poisoned = {}, ix_pending = {}, ix_cache = [], ix_step = 0\<rparr>)"

section \<open>Operations\<close>

definition poison :: "session_binding \<Rightarrow> index \<Rightarrow> index" where
  "poison b s = s\<lparr>ix_poisoned := insert (sb_sessionFile b) (ix_poisoned s),
     ix_pending := ix_pending s - {sb_sessionFile b}, ix_cache := hdel (sb_sessionFile b) (ix_cache s)\<rparr>"

definition identity :: "index_env \<Rightarrow> session_binding \<Rightarrow> file_stat index_action" where
  "identity E b s =
     (if assertSessionPath (ie_root E) b \<noteq> Inr () then (None, s)
      else case ie_lstat E (ix_step s) b of
        None \<Rightarrow> (None, tick s)
      | Some st \<Rightarrow> if fs_isFile st \<and> \<not> fs_symlink st then (Some st, tick s) else (None, tick s))"

definition strict_read :: "index_env \<Rightarrow> nat \<Rightarrow> session_binding \<Rightarrow> attempt_result" where
  "strict_read E n b = readEvidence (ie_parse E) (ie_root E) b (ie_dirs E n b) (ie_snapshots E n b)"

definition fresh_read :: "index_env \<Rightarrow> session_binding \<Rightarrow> completion_proof list index_action" where
  "fresh_read E b s =
     (case strict_read E (ix_step s) b of
        Proofs ps \<Rightarrow> (Some ps, tick s)
      | Undurable \<Rightarrow> (None, poison b (tick s))
      | _ \<Rightarrow> (None, tick s))"

definition cached :: "session_binding \<Rightarrow> file_stat \<Rightarrow> index \<Rightarrow> completion_proof list option" where
  "cached b before s =
     (case hget (ix_cache s) (sb_sessionFile b) of
        Some (st, ps) \<Rightarrow> if same_file st before then Some ps else None
      | None \<Rightarrow> None)"

definition scan_and_store :: "index_env \<Rightarrow> session_binding \<Rightarrow> file_stat \<Rightarrow> completion_proof list index_action" where
  "scan_and_store E b before =
     then_do (fresh_read E b) (\<lambda>ps.
     then_do (identity E b) (\<lambda>after s.
       if \<not> same_file before after then (Some ps, s)
       else (Some ps, s\<lparr>ix_cache := hset (sb_sessionFile b) (after, ps) (ix_cache s)\<rparr>)))"

definition evidence_body :: "index_env \<Rightarrow> session_binding \<Rightarrow> completion_proof list index_action" where
  "evidence_body E b =
     then_do (identity E b) (\<lambda>before s.
       case cached b before s of
         Some ps \<Rightarrow>
           then_do (identity E b) (\<lambda>after. if same_file before after then (\<lambda>s. (Some ps, s)) else scan_and_store E b before) s
       | None \<Rightarrow> scan_and_store E b before s)"

definition evidence :: "index_env \<Rightarrow> session_binding \<Rightarrow> completion_proof list index_action" where
  "evidence E b s =
     (if sb_sessionFile b \<in> ix_poisoned s then (None, s)
      else case evidence_body E b s of
        (None, s') \<Rightarrow> (None, poison b s')
      | (Some ps, s') \<Rightarrow> (Some ps, s'))"

definition reserve :: "session_binding \<Rightarrow> unit index_action" where
  "reserve b s =
     (if sb_sessionFile b \<in> ix_poisoned s \<or> sb_sessionFile b \<in> ix_pending s then (None, s)
      else (Some (), s\<lparr>ix_cache := hdel (sb_sessionFile b) (ix_cache s), ix_pending := insert (sb_sessionFile b) (ix_pending s)\<rparr>))"

definition publish :: "session_binding \<Rightarrow> unit index_action" where
  "publish b s =
     (if sb_sessionFile b \<in> ix_poisoned s \<or> sb_sessionFile b \<notin> ix_pending s then (None, s)
      else (Some (), s\<lparr>ix_pending := ix_pending s - {sb_sessionFile b}\<rparr>))"

section \<open>Lookups\<close>

fun mapping_rows_ok :: "string \<Rightarrow> mapping_row list \<Rightarrow> string list \<Rightarrow> bool" where
  "mapping_rows_ok root [] seen = True"
| "mapping_rows_ok root ((chat, None) # rows) seen = mapping_rows_ok root rows seen"
| "mapping_rows_ok root ((chat, Some b) # rows) seen =
     (assertSessionPath root b = Inr () \<and> sb_chat b = chat \<and> sb_sessionFile b \<notin> set seen \<and>
      mapping_rows_ok root rows (sb_sessionFile b # seen))"

definition mapping_snapshot :: "index_env \<Rightarrow> mapping_row list index_action" where
  "mapping_snapshot E s =
     (case ie_mappings E (ix_step s) of
        None \<Rightarrow> (None, tick s)
      | Some rows \<Rightarrow>
          if length rows = length (canonical_chats E) \<and> distinct (map fst rows) \<and>
            list_all (\<lambda>r. fst r \<in> set (canonical_chats E)) rows \<and> mapping_rows_ok (ie_root E) rows []
          then (Some rows, tick s) else (None, tick s))"

definition merge_proofs :: "completion_proof list \<Rightarrow> completion_proof list \<Rightarrow> completion_proof list option" where
  "merge_proofs all ps =
     (if distinct (map (\<lambda>p. cm_eventId (cp_marker p)) (all @ ps)) then Some (all @ ps) else None)"

fun rebuild :: "index_env \<Rightarrow> mapping_row list \<Rightarrow> completion_proof list \<Rightarrow> completion_proof list index_action" where
  "rebuild E [] all s = (Some all, s)"
| "rebuild E ((chat, None) # rows) all s = rebuild E rows all s"
| "rebuild E ((chat, Some b) # rows) all s =
     (if sb_sessionFile b \<in> ix_pending s then (None, s)
      else then_do (evidence E b) (\<lambda>ps s.
        case merge_proofs all ps of None \<Rightarrow> (None, s) | Some all \<Rightarrow> rebuild E rows all s) s)"

definition exclusive :: "index_env \<Rightarrow> 'a index_action \<Rightarrow> 'a index_action" where
  "exclusive E job s = job (ie_queue E (ix_step s) s)"

definition findEvent :: "index_env \<Rightarrow> string \<Rightarrow> string \<Rightarrow> completion_proof option index_action" where
  "findEvent E chat eid s =
     (if chat \<notin> set (canonical_chats E) then (None, s)
      else then_do (mapping_snapshot E) (\<lambda>rows.
        exclusive E (then_do (rebuild E rows []) (\<lambda>all s.
          (Some (find (\<lambda>p. cm_chat (cp_marker p) = chat \<and> cm_eventId (cp_marker p) = eid) all), s)))) s)"

datatype own_class = Own_confirmed | Own_uncertain | Own_manual

definition journal_unresolved :: "index_env \<Rightarrow> string \<Rightarrow> string \<Rightarrow> bool index_action" where
  "journal_unresolved E actual mid s = (ie_unresolved E (ix_step s) actual mid, tick s)"

definition own_route :: "index_env \<Rightarrow> string \<Rightarrow> string" where
  "own_route E actual = (if actual \<in> set (ie_operatorJids E) then hd (ie_operatorJids E) else actual)"

definition lists_send :: "string \<Rightarrow> string \<Rightarrow> completion_proof \<Rightarrow> bool" where
  "lists_send actual mid p \<longleftrightarrow>
     list_ex (\<lambda>x. cs_destination x = actual \<and> cs_messageId x = mid) (cm_sends (cp_marker p))"

definition classifyOwn :: "index_env \<Rightarrow> string \<Rightarrow> string \<Rightarrow> string \<Rightarrow> own_class index_action" where
  "classifyOwn E chat actual mid s =
     (if own_route E actual \<noteq> chat \<or> chat \<notin> set (canonical_chats E) \<or> mid = '''' then (None, s)
      else then_do (journal_unresolved E actual mid) (\<lambda>u.
        if u then (\<lambda>s. (Some Own_uncertain, s))
        else then_do (mapping_snapshot E) (\<lambda>rows.
          then_do (exclusive E (then_do (rebuild E rows []) (\<lambda>all s. (Some (list_ex (lists_send actual mid) all), s)))) (\<lambda>found.
          then_do (journal_unresolved E actual mid) (\<lambda>u s.
            (Some (if u then Own_uncertain else if found then Own_confirmed else Own_manual), s))))) s)"

section \<open>Steps\<close>

inductive index_runs :: "index_env \<Rightarrow> index \<Rightarrow> index \<Rightarrow> bool" for E where
  none: "index_runs E s s"
| invalidate: "index_runs E s s' \<Longrightarrow> index_runs E s (poison b s')"
| evidence: "index_runs E s s' \<Longrightarrow> index_runs E s (snd (evidence E b s'))"
| reserve: "index_runs E s s' \<Longrightarrow> index_runs E s (snd (reserve b s'))"
| publish: "index_runs E s s' \<Longrightarrow> index_runs E s (snd (publish b s'))"
| lookup: "index_runs E s s' \<Longrightarrow> index_runs E s (tick s')"

lemma index_runs_trans: "index_runs E s2 s3 \<Longrightarrow> index_runs E s1 s2 \<Longrightarrow> index_runs E s1 s3"
  by (induction rule: index_runs.induct) (auto intro: index_runs.intros)

lemma rebuild_runs: "index_runs E s (snd (rebuild E rows all s))"
proof (induction E rows all s rule: rebuild.induct)
  case (3 E chat b rows all s)
  have e: "index_runs E s (snd (evidence E b s))" by (rule index_runs.evidence [OF index_runs.none])
  show ?case
  proof (cases "sb_sessionFile b \<in> ix_pending s")
    case True
    then show ?thesis by (simp add: index_runs.none)
  next
    case False
    obtain r s' where ev: "evidence E b s = (r, s')" by force
    show ?thesis
    proof (cases r)
      case None
      then show ?thesis using False ev e by (simp add: then_do_def)
    next
      case (Some ps)
      show ?thesis
      proof (cases "merge_proofs all ps")
        case None
        then show ?thesis using False ev e Some by (simp add: then_do_def)
      next
        case (Some all')
        have "index_runs E s' (snd (rebuild E rows all' s'))" using "3.IH" [OF False Some] .
        then show ?thesis using False ev e Some \<open>r = Some ps\<close> index_runs_trans by (fastforce simp: then_do_def)
      qed
    qed
  qed
qed (simp_all add: index_runs.none)

end
