(* ===== verification/Index_Spec.thy ===== *)
theory Index_Spec
  imports Index
begin

text \<open>
  The properties of the completion index: a poisoned file stays poisoned, a reserved file never
  answers, and every answer is what the strict reader returned for that very file generation.
\<close>

section \<open>Every operation keeps the index's invariant\<close>

text \<open>
  A cached answer is the result of an earlier strict read of that file whose identity was sampled
  right after it, and no file is both poisoned and cached or reserved.
\<close>

definition backed :: "index_env \<Rightarrow> string \<Rightarrow> file_stat \<times> completion_proof list \<Rightarrow> bool" where
  "backed E f e \<longleftrightarrow> (\<exists>n b. sb_sessionFile b = f \<and> strict_read E n b = Proofs (snd e) \<and>
     ie_lstat E (Suc n) b = Some (fst e))"

definition index_inv :: "index_env \<Rightarrow> index \<Rightarrow> bool" where
  "index_inv E s \<longleftrightarrow> (\<forall>f e. hget (ix_cache s) f = Some e \<longrightarrow> backed E f e \<and> f \<notin> ix_poisoned s) \<and>
     ix_poisoned s \<inter> ix_pending s = {}"

lemma poison_inv: "index_inv E s \<Longrightarrow> index_inv E (poison b s)"
  by (auto simp: index_inv_def poison_def hget_hdel)

lemma tick_simps [simp]: "ix_poisoned (tick s) = ix_poisoned s" "ix_pending (tick s) = ix_pending s"
  "ix_cache (tick s) = ix_cache s" "ix_step (tick s) = Suc (ix_step s)"
  by (simp_all add: tick_def)

lemma tick_inv [simp]: "index_inv E (tick s) = index_inv E s"
  by (simp add: index_inv_def)

lemma identity_state: "snd (identity E b s) = s \<or> snd (identity E b s) = tick s"
  by (auto simp: identity_def split: option.split)

lemma identity_Some:
  "identity E b s = (Some st, s') \<Longrightarrow> s' = tick s \<and> ie_lstat E (ix_step s) b = Some st \<and>
    assertSessionPath (ie_root E) b = Inr () \<and> fs_isFile st \<and> \<not> fs_symlink st"
  by (auto simp: identity_def split: if_splits option.splits)

lemma identity_inv: "identity E b s = (r, s') \<Longrightarrow> index_inv E s \<Longrightarrow> index_inv E s' \<and> ix_poisoned s' = ix_poisoned s"
  using identity_state [of E b s] by auto

lemma fresh_read_Some: "fresh_read E b s = (Some ps, s') \<Longrightarrow> strict_read E (ix_step s) b = Proofs ps \<and> s' = tick s"
  by (auto simp: fresh_read_def split: attempt_result.splits)

lemma fresh_read_inv: "fresh_read E b s = (r, s') \<Longrightarrow> index_inv E s \<Longrightarrow> index_inv E s'"
  by (auto simp: fresh_read_def poison_inv split: attempt_result.splits)

lemma scan_and_store_inv:
  assumes "scan_and_store E b before s = (r, s')" "index_inv E s" "sb_sessionFile b \<notin> ix_poisoned s"
  shows "index_inv E s'"
proof -
  obtain r1 s1 where 1: "fresh_read E b s = (r1, s1)" by force
  note inv1 = fresh_read_inv [OF 1 assms(2)]
  show ?thesis
  proof (cases r1)
    case None
    then show ?thesis using assms(1) 1 inv1 by (simp add: scan_and_store_def then_do_def)
  next
    case (Some ps)
    note read = fresh_read_Some [OF 1 [unfolded Some]]
    obtain r2 s2 where 2: "identity E b s1 = (r2, s2)" by force
    note inv2 = identity_inv [OF 2 inv1]
    show ?thesis
    proof (cases r2)
      case None
      then show ?thesis using assms(1) 1 2 Some inv2 by (simp add: scan_and_store_def then_do_def)
    next
      case (Some after)
      note id = identity_Some [OF 2 [unfolded Some]]
      have "backed E (sb_sessionFile b) (after, ps)"
        using read id by (auto simp: backed_def intro!: exI [where x = "ix_step s"] exI [where x = b])
      then show ?thesis
        using assms 1 2 Some \<open>r1 = Some ps\<close> inv2 read
        by (auto simp: scan_and_store_def then_do_def index_inv_def hget_hset split: if_splits)
    qed
  qed
qed

text \<open>The ways in which the body of \<open>evidence\<close> returns proofs.\<close>

lemma scan_and_store_Some:
  "scan_and_store E b before s = (Some ps, s') \<Longrightarrow> strict_read E (ix_step s) b = Proofs ps"
  by (auto simp: scan_and_store_def then_do_def dest!: fresh_read_Some split: prod.splits option.splits if_splits)

lemma evidence_body_cases:
  assumes "evidence_body E b s = (r, s')" "index_inv E s" "sb_sessionFile b \<notin> ix_poisoned s"
  shows "index_inv E s' \<and> (\<forall>ps. r = Some ps \<longrightarrow>
    (\<exists>n. strict_read E n b = Proofs ps) \<or>
    (\<exists>st. hget (ix_cache s) (sb_sessionFile b) = Some (st, ps) \<and> (\<exists>now. ie_lstat E (ix_step s) b = Some now \<and> same_file st now) ))"
proof -
  obtain r1 s1 where 1: "identity E b s = (r1, s1)" by force
  note inv1 = identity_inv [OF 1 assms(2)]
  show ?thesis
  proof (cases r1)
    case None
    then show ?thesis using assms(1) 1 inv1 by (auto simp: evidence_body_def then_do_def)
  next
    case (Some before)
    note id = identity_Some [OF 1 [unfolded Some]]
    have clean: "sb_sessionFile b \<notin> ix_poisoned s1" using inv1 assms(3) by simp
    have scan: "index_inv E s2' \<and> (\<forall>ps. r2 = Some ps \<longrightarrow> (\<exists>n. strict_read E n b = Proofs ps))"
      if "scan_and_store E b before s2 = (r2, s2')" "index_inv E s2" "sb_sessionFile b \<notin> ix_poisoned s2" for s2 r2 s2'
      using scan_and_store_inv [OF that] scan_and_store_Some that(1) by blast
    show ?thesis
    proof (cases "cached b before s1")
      case None
      then show ?thesis using assms(1) 1 Some scan [OF _ _ clean] inv1 by (auto simp: evidence_body_def then_do_def)
    next
      case (Some ps)
      then obtain st where st: "hget (ix_cache s) (sb_sessionFile b) = Some (st, ps)" "same_file st before"
        using id by (auto simp: cached_def split: option.splits if_splits)
      obtain r2 s2 where 2: "identity E b s1 = (r2, s2)" by force
      have inv2: "index_inv E s2" "sb_sessionFile b \<notin> ix_poisoned s2"
        using identity_inv [OF 2] inv1 clean by auto
      show ?thesis
        using assms(1) 1 \<open>r1 = Some before\<close> Some 2 st id inv2 scan [OF _ inv2]
        by (cases r2) (auto simp: evidence_body_def then_do_def split: if_splits)
    qed
  qed
qed

lemma evidence_inv: "index_inv E s \<Longrightarrow> index_inv E (snd (evidence E b s))"
  using evidence_body_cases [of E b s] poison_inv
  by (auto simp: evidence_def split: prod.split option.split)

lemma reserve_inv: "index_inv E s \<Longrightarrow> index_inv E (snd (reserve b s))"
  by (auto simp: reserve_def index_inv_def hget_hdel)

lemma publish_inv: "index_inv E s \<Longrightarrow> index_inv E (snd (publish b s))"
  by (auto simp: publish_def index_inv_def)

lemma index_runs_inv: "index_runs E s s' \<Longrightarrow> index_inv E s \<Longrightarrow> index_inv E s'"
  by (induction rule: index_runs.induct) (simp_all add: poison_inv evidence_inv reserve_inv publish_inv)

lemma new_index_inv: "new_index E = Inr s \<Longrightarrow> index_inv E s"
  by (auto simp: new_index_def index_inv_def split: if_splits)

section \<open>Answers\<close>

lemma evidence_Some:
  assumes "index_inv E s" "evidence E b s = (Some ps, s')"
  shows "\<exists>n b'. sb_sessionFile b' = sb_sessionFile b \<and> strict_read E n b' = Proofs ps \<and>
    (b' = b \<or> (\<exists>st now. ie_lstat E (Suc n) b' = Some st \<and> ie_lstat E (ix_step s) b = Some now \<and> same_file st now))"
proof -
  have "sb_sessionFile b \<notin> ix_poisoned s" "evidence_body E b s = (Some ps, s')"
    using assms(2) by (auto simp: evidence_def split: if_splits prod.splits option.splits)
  from evidence_body_cases [OF this(2) assms(1) this(1)]
  consider n where "strict_read E n b = Proofs ps"
    | st now where "hget (ix_cache s) (sb_sessionFile b) = Some (st, ps)" "ie_lstat E (ix_step s) b = Some now" "same_file st now"
    by blast
  then show ?thesis
  proof cases
    case 2
    have "backed E (sb_sessionFile b) (st, ps)" using assms(1) 2(1) by (simp add: index_inv_def)
    then show ?thesis using 2 by (auto simp: backed_def)
  qed blast
qed

text \<open>the index never invents or forgets evidence: in every state that the index can reach, the proofs it
answers for a session are exactly those that the strict reader returned for that file, either now
or earlier under a file identity (device, inode, length, modification time) that the file still
has.\<close>

theorem answers_are_strict_reads:
  assumes "new_index E = Inr s0" "index_runs E s0 s" "evidence E b s = (Some ps, s')"
  shows "\<exists>n b'. sb_sessionFile b' = sb_sessionFile b \<and> strict_read E n b' = Proofs ps \<and>
    (b' = b \<or> (\<exists>st now. ie_lstat E (Suc n) b' = Some st \<and> ie_lstat E (ix_step s) b = Some now \<and> same_file st now))"
  by (rule evidence_Some [OF index_runs_inv [OF assms(2) new_index_inv [OF assms(1)]] assms(3)])

definition demo_env :: index_env where
  "demo_env = \<lparr>ie_root = ''/r'', ie_operatorJids = [''9@lid''], ie_groups = [''1@g.us''], ie_parse = demo_parse,
     ie_lstat = (\<lambda>_ _. Some demo_stat), ie_dirs = (\<lambda>_ _. True), ie_snapshots = (\<lambda>_ _ _. demo_snapshot),
     ie_mappings = (\<lambda>_. Some [(''1@g.us'', Some demo_file), (''9@lid'', None)]), ie_unresolved = (\<lambda>_ _ _. Some False),
     ie_queue = (\<lambda>_ s. s)\<rparr>"

definition demo_index :: index where
  "demo_index = \<lparr>ix_poisoned = {}, ix_pending = {}, ix_cache = [], ix_step = 0\<rparr>"

definition demo_proofs :: "completion_proof list" where
  "demo_proofs = [\<lparr>cp_marker = demo_marker, cp_entryId = ''2'', cp_session = demo_file\<rparr>]"

lemma demo_new_index: "new_index demo_env = Inr demo_index"
  by (simp add: new_index_def demo_index_def canonical_chats_def demo_env_def)

lemma demo_strict_read: "strict_read demo_env n demo_file = Proofs demo_proofs"
  using demo_read by (simp add: strict_read_def demo_env_def demo_proofs_def)

definition demo_filled :: index where
  "demo_filled = demo_index\<lparr>ix_cache := [(sb_sessionFile demo_file, demo_stat, demo_proofs)], ix_step := 3\<rparr>"

lemma demo_evidence_later:
  assumes "ix_poisoned s = {}" "ix_cache s = []" "s' = s\<lparr>ix_cache := [(sb_sessionFile demo_file, demo_stat, demo_proofs)], ix_step := ix_step s + 3\<rparr>"
  shows "evidence demo_env demo_file s = (Some demo_proofs, s')"
proof -
  have id: "identity demo_env demo_file s = (Some demo_stat, tick s)" for s
    using demo_path by (simp add: identity_def demo_env_def demo_stat_def)
  show ?thesis
    using assms by (simp add: evidence_def evidence_body_def then_do_def id scan_and_store_def fresh_read_def demo_strict_read cached_def
        same_file_def hset_def tick_def)
qed

lemma demo_evidence: "evidence demo_env demo_file demo_index = (Some demo_proofs, demo_filled)"
  by (rule demo_evidence_later) (simp_all add: demo_index_def demo_filled_def)

lemma demo_mappings: "mapping_snapshot demo_env s = (Some [(''1@g.us'', Some demo_file), (''9@lid'', None)], tick s)"
  using demo_path by (simp add: mapping_snapshot_def demo_env_def canonical_chats_def) (simp add: demo_file_def)

theorem answers_are_strict_reads_witness:
  "\<exists>n b'. sb_sessionFile b' = sb_sessionFile demo_file \<and> strict_read demo_env n b' = Proofs demo_proofs"
  using answers_are_strict_reads [OF demo_new_index index_runs.none demo_evidence] by blast

section \<open>Failures are never misses\<close>

lemma identity_pending: "identity E b s = (r, s') \<Longrightarrow> ix_pending s' = ix_pending s \<and> ix_poisoned s' = ix_poisoned s"
  using identity_state [of E b s] by auto

lemma poison_keeps:
  "f \<in> ix_poisoned s \<Longrightarrow> f \<in> ix_poisoned (poison b s)"
  "f \<in> ix_pending s \<Longrightarrow> f \<noteq> sb_sessionFile b \<Longrightarrow> f \<in> ix_pending (poison b s)"
  by (simp_all add: poison_def)

text \<open>A call on one file leaves the reservations and the verdicts of the others.\<close>

definition others_kept :: "string \<Rightarrow> index \<Rightarrow> index \<Rightarrow> bool" where
  "others_kept f s s' \<longleftrightarrow> ix_poisoned s \<subseteq> ix_poisoned s' \<and> ix_pending s - {f} \<subseteq> ix_pending s'"

lemma others_kept_refl: "others_kept f s s" "others_kept f s (tick s)" "others_kept f s (poison b s) \<longleftrightarrow> ix_pending s - {f} \<subseteq> ix_pending s - {sb_sessionFile b}"
  by (auto simp: others_kept_def poison_def)

lemma others_kept_trans: "others_kept f s1 s2 \<Longrightarrow> others_kept f s2 s3 \<Longrightarrow> others_kept f s1 s3"
  by (auto simp: others_kept_def)

lemma identity_kept: "identity E b s = (r, s') \<Longrightarrow> others_kept f s s'"
  using identity_pending by (simp add: others_kept_def)

lemma fresh_read_kept: "fresh_read E b s = (r, s') \<Longrightarrow> others_kept (sb_sessionFile b) s s'"
  by (auto simp: fresh_read_def others_kept_def poison_def split: attempt_result.splits)

lemma then_do_kept:
  assumes "\<And>r s'. m s = (r, s') \<Longrightarrow> others_kept f s s'" "\<And>x s1 r s'. g x s1 = (r, s') \<Longrightarrow> others_kept f s1 s'"
    and "then_do m g s = (r, s')"
  shows "others_kept f s s'"
  using assms(3) assms(1) others_kept_trans [OF assms(1) assms(2)]
  by (auto simp: then_do_def split: prod.splits option.splits)

lemma scan_and_store_kept: "scan_and_store E b before s = (r, s') \<Longrightarrow> others_kept (sb_sessionFile b) s s'"
  unfolding scan_and_store_def
proof (erule then_do_kept [rotated 2])
  fix ps s1 r1 s2
  assume "then_do (identity E b) (\<lambda>after s. if \<not> same_file before after then (Some ps, s)
      else (Some ps, s\<lparr>ix_cache := hset (sb_sessionFile b) (after, ps) (ix_cache s)\<rparr>)) s1 = (r1, s2)"
  then show "others_kept (sb_sessionFile b) s1 s2"
    by (rule then_do_kept [rotated 2]) (erule identity_kept, auto simp: others_kept_def split: if_splits)
qed (rule fresh_read_kept)

lemma evidence_body_kept: "evidence_body E b s = (r, s') \<Longrightarrow> others_kept (sb_sessionFile b) s s'"
  unfolding evidence_body_def
proof (erule then_do_kept [rotated 2])
  fix before s1 r1 s2
  assume "(case cached b before s1 of
      Some ps \<Rightarrow> then_do (identity E b) (\<lambda>after. if same_file before after then (\<lambda>s. (Some ps, s)) else scan_and_store E b before) s1
    | None \<Rightarrow> scan_and_store E b before s1) = (r1, s2)"
  then show "others_kept (sb_sessionFile b) s1 s2"
  proof (cases "cached b before s1")
    case (Some ps)
    assume "(case cached b before s1 of
        Some ps \<Rightarrow> then_do (identity E b) (\<lambda>after. if same_file before after then (\<lambda>s. (Some ps, s)) else scan_and_store E b before) s1
      | None \<Rightarrow> scan_and_store E b before s1) = (r1, s2)"
    then have "then_do (identity E b) (\<lambda>after. if same_file before after then (\<lambda>s. (Some ps, s)) else scan_and_store E b before) s1 = (r1, s2)"
      by (simp add: Some)
    then show ?thesis
      by (rule then_do_kept [rotated 2]) (auto simp: others_kept_refl split: if_splits intro: identity_kept scan_and_store_kept)
  qed (auto intro: scan_and_store_kept)
qed (rule identity_kept)

lemma evidence_kept: "evidence E b s = (r, s') \<Longrightarrow> others_kept (sb_sessionFile b) s s'"
  using evidence_body_kept [of E b s]
  by (auto simp: evidence_def others_kept_def poison_def split: if_splits prod.splits option.splits)

text \<open>A mapped session whose file is poisoned or reserved at that moment.\<close>

definition blocked :: "mapping_row list \<Rightarrow> index \<Rightarrow> bool" where
  "blocked rows s \<longleftrightarrow> (\<exists>chat b. (chat, Some b) \<in> set rows \<and>
     (sb_sessionFile b \<in> ix_poisoned s \<or> sb_sessionFile b \<in> ix_pending s))"

lemma rows_ok_distinct:
  "mapping_rows_ok root rows seen \<Longrightarrow> (c, Some b) \<in> set rows \<Longrightarrow> sb_sessionFile b \<notin> set seen"
  by (induction root rows seen rule: mapping_rows_ok.induct) auto

lemma rebuild_blocked:
  "mapping_rows_ok root rows seen \<Longrightarrow> blocked rows s \<Longrightarrow> fst (rebuild E rows all s) = None"
proof (induction root rows seen arbitrary: all s rule: mapping_rows_ok.induct)
  case (3 root chat b rows seen)
  show ?case
  proof (cases "sb_sessionFile b \<in> ix_pending s")
    case False
    obtain r s' where ev: "evidence E b s = (r, s')" by force
    show ?thesis
    proof (cases r)
      case None
      then show ?thesis using False ev by (simp add: then_do_def)
    next
      case (Some ps)
      have clean: "sb_sessionFile b \<notin> ix_poisoned s" using ev Some by (auto simp: evidence_def split: if_splits)
      then obtain c b' where b': "(c, Some b') \<in> set rows" "sb_sessionFile b' \<in> ix_poisoned s \<or> sb_sessionFile b' \<in> ix_pending s"
        using "3.prems"(2) False by (auto simp: blocked_def)
      have "sb_sessionFile b' \<noteq> sb_sessionFile b"
        using rows_ok_distinct [OF _ b'(1)] "3.prems"(1) by fastforce
      then have "blocked rows s'"
        using evidence_kept [OF ev] b' by (auto simp: blocked_def others_kept_def)
      then show ?thesis
        using False ev Some "3.IH" "3.prems"(1) by (auto simp: then_do_def split: option.split)
    qed
  qed simp
qed (auto simp: blocked_def)

lemma then_do_Some: "then_do m f s = (Some y, s'') \<longleftrightarrow> (\<exists>x s'. m s = (Some x, s') \<and> f x s' = (Some y, s''))"
  by (auto simp: then_do_def split: prod.splits option.splits)

lemma mapping_snapshot_Some:
  "mapping_snapshot E s = (Some rows, s') \<Longrightarrow> s' = tick s \<and> ie_mappings E (ix_step s) = Some rows \<and> mapping_rows_ok (ie_root E) rows []"
  by (auto simp: mapping_snapshot_def split: option.splits if_splits)

text \<open>a failure is never reported as a miss: while any mapped session file is poisoned by a failed write or
reserved by a running append at the moment a lookup runs, the lookup fails; it does not answer
\<open>undefined\<close> (nor \<open>manual\<close> for an own message) from the other files. And a poisoned file stays poisoned:
through any later operations its evidence, reservations and publications fail.\<close>

theorem failure_is_not_a_miss:
  assumes "ie_mappings E (ix_step s) = Some rows" "blocked rows (ie_queue E (Suc (ix_step s)) (tick s))"
    and "index_runs E s1 s2" "sb_sessionFile b \<in> ix_poisoned s1"
  shows "fst (findEvent E chat eid s) = None \<and> sb_sessionFile b \<in> ix_poisoned s2 \<and>
    fst (evidence E b s2) = None \<and> fst (reserve b s2) = None \<and> fst (publish b s2) = None"
proof -
  have "fst (findEvent E chat eid s) = None"
  proof (rule ccontr)
    assume "fst (findEvent E chat eid s) \<noteq> None"
    then obtain r s' where "findEvent E chat eid s = (Some r, s')" by (cases "findEvent E chat eid s") auto
    then obtain rows' s0 where m0: "mapping_snapshot E s = (Some rows', s0)"
      "exclusive E (then_do (rebuild E rows' []) (\<lambda>all s.
          (Some (find (\<lambda>p. cm_chat (cp_marker p) = chat \<and> cm_eventId (cp_marker p) = eid) all), s))) s0 = (Some r, s')"
      by (auto simp: findEvent_def then_do_Some split: if_splits)
    then obtain all s'' where m: "mapping_snapshot E s = (Some rows', tick s)"
      "rebuild E rows' [] (ie_queue E (Suc (ix_step s)) (tick s)) = (Some all, s'')"
      using mapping_snapshot_Some [OF m0(1)] by (auto simp: exclusive_def then_do_Some)
    have "rows' = rows" "mapping_rows_ok (ie_root E) rows' []" using mapping_snapshot_Some [OF m(1)] assms(1) by simp_all
    then show False using rebuild_blocked [OF _ assms(2), of "ie_root E" "[]" E "[]"] m(2) by simp
  qed
  moreover have "sb_sessionFile b \<in> ix_poisoned s2"
    using assms(3,4)
  proof (induction rule: index_runs.induct)
    case (evidence s s' b')
    then show ?case using evidence_kept [of E b' s'] by (cases "evidence E b' s'") (auto simp: others_kept_def)
  qed (auto simp: poison_def reserve_def publish_def)
  ultimately show ?thesis by (simp add: evidence_def reserve_def publish_def)
qed

theorem failure_is_not_a_miss_witness:
  "fst (findEvent (demo_env\<lparr>ie_queue := (\<lambda>_ s. snd (reserve demo_file s))\<rparr>) ''9@lid'' ''e'' demo_index) = None \<and>
    fst (reserve demo_file (snd (publish demo_file (poison demo_file demo_index)))) = None"
proof -
  let ?E = "demo_env\<lparr>ie_queue := (\<lambda>_ s. snd (reserve demo_file s))\<rparr>"
  have "ie_mappings ?E (ix_step demo_index) = Some [(''1@g.us'', Some demo_file), (''9@lid'', None)]"
    "blocked [(''1@g.us'', Some demo_file), (''9@lid'', None)] (ie_queue ?E (Suc (ix_step demo_index)) (tick demo_index))"
    by (simp_all add: demo_env_def blocked_def reserve_def demo_index_def tick_def)
  moreover have "index_runs ?E (poison demo_file demo_index) (snd (publish demo_file (poison demo_file demo_index)))"
    by (intro index_runs.publish index_runs.none)
  moreover have "sb_sessionFile demo_file \<in> ix_poisoned (poison demo_file demo_index)" by (simp add: poison_def)
  ultimately show ?thesis using failure_is_not_a_miss by blast
qed

section \<open>Lookups\<close>

lemma rebuild_Some:
  "index_inv E s \<Longrightarrow> rebuild E rows all s = (Some res, s') \<Longrightarrow>
   set all \<subseteq> set res \<and>
   (distinct (map (\<lambda>p. cm_eventId (cp_marker p)) all) \<longrightarrow> distinct (map (\<lambda>p. cm_eventId (cp_marker p)) res)) \<and>
   (\<forall>p \<in> set res. p \<in> set all \<or> (\<exists>n b ps. strict_read E n b = Proofs ps \<and> p \<in> set ps)) \<and>
   (\<forall>chat b. (chat, Some b) \<in> set rows \<longrightarrow> (\<exists>n b' ps. sb_sessionFile b' = sb_sessionFile b \<and>
      strict_read E n b' = Proofs ps \<and> set ps \<subseteq> set res))"
proof (induction E rows all s arbitrary: res s' rule: rebuild.induct)
  case (3 E chat b rows all s)
  from "3.prems"(2) obtain ps s1 all' where ev: "sb_sessionFile b \<notin> ix_pending s" "evidence E b s = (Some ps, s1)"
    "merge_proofs all ps = Some all'" "rebuild E rows all' s1 = (Some res, s')"
    by (auto simp: then_do_Some split: if_splits option.splits)
  have inv: "index_inv E s1" using evidence_inv [OF "3.prems"(1), of b] ev(2) by simp
  have all': "all' = all @ ps" "distinct (map (\<lambda>p. cm_eventId (cp_marker p)) all')"
    using ev(3) by (auto simp: merge_proofs_def split: if_splits)
  obtain n b' where read: "sb_sessionFile b' = sb_sessionFile b" "strict_read E n b' = Proofs ps"
    using evidence_Some [OF "3.prems"(1) ev(2)] by blast
  have IH: "set all' \<subseteq> set res" "distinct (map (\<lambda>p. cm_eventId (cp_marker p)) res)"
    "\<forall>p \<in> set res. p \<in> set all' \<or> (\<exists>n b ps. strict_read E n b = Proofs ps \<and> p \<in> set ps)"
    "\<forall>chat b. (chat, Some b) \<in> set rows \<longrightarrow> (\<exists>n b' ps. sb_sessionFile b' = sb_sessionFile b \<and>
      strict_read E n b' = Proofs ps \<and> set ps \<subseteq> set res)"
    using "3.IH" [OF ev(1,3) inv ev(4)] all'(2) by blast+
  moreover have "\<forall>p \<in> set res. p \<in> set all \<or> (\<exists>n b ps. strict_read E n b = Proofs ps \<and> p \<in> set ps)"
    using IH(3) read(2) all'(1) by fastforce
  ultimately show ?case using read all'(1) by auto
qed auto

text \<open>Complete evidence: every mapped session's strict proofs are in it, and no event has two.\<close>

definition complete_evidence :: "index_env \<Rightarrow> mapping_row list \<Rightarrow> completion_proof list \<Rightarrow> bool" where
  "complete_evidence E rows all \<longleftrightarrow> distinct (map (\<lambda>p. cm_eventId (cp_marker p)) all) \<and>
     (\<forall>p \<in> set all. \<exists>n b ps. strict_read E n b = Proofs ps \<and> p \<in> set ps) \<and>
     (\<forall>chat b. (chat, Some b) \<in> set rows \<longrightarrow> (\<exists>n b' ps. sb_sessionFile b' = sb_sessionFile b \<and>
        strict_read E n b' = Proofs ps \<and> set ps \<subseteq> set all))"

definition orderly :: "index_env \<Rightarrow> bool" where
  "orderly E \<longleftrightarrow> (\<forall>n s. index_runs E s (ie_queue E n s))"

lemma exclusive_rebuild:
  assumes "orderly E" "index_inv E s" "exclusive E (then_do (rebuild E rows []) (\<lambda>all s. (Some (g all), s))) s = (Some r, s')"
  shows "\<exists>all. complete_evidence E rows all \<and> r = g all"
proof -
  obtain all s1 where all: "rebuild E rows [] (ie_queue E (ix_step s) s) = (Some all, s1)" "r = g all"
    using assms(3) by (auto simp: exclusive_def then_do_Some)
  have "index_inv E (ie_queue E (ix_step s) s)"
    using assms(1,2) index_runs_inv [of E s "ie_queue E (ix_step s) s"] by (simp add: orderly_def)
  from rebuild_Some [OF this all(1)] all(2) show ?thesis by (auto simp: complete_evidence_def)
qed

text \<open>a lookup answers from complete evidence: when \<open>findEvent\<close> returns, every mapped session was read
strictly, no event has two proofs anywhere, the returned proof is the only one of that event and
belongs to the asked chat, and \<open>undefined\<close> means that no mapped session proves the event for it.\<close>

theorem lookup_is_complete:
  assumes "orderly E" "index_inv E s" "findEvent E chat eid s = (Some r, s')"
  shows "\<exists>rows all. ie_mappings E (ix_step s) = Some rows \<and> complete_evidence E rows all \<and>
    (case r of
       None \<Rightarrow> \<forall>p \<in> set all. \<not> (cm_chat (cp_marker p) = chat \<and> cm_eventId (cp_marker p) = eid)
     | Some p \<Rightarrow> p \<in> set all \<and> cm_chat (cp_marker p) = chat \<and> cm_eventId (cp_marker p) = eid \<and>
         (\<forall>q \<in> set all. cm_eventId (cp_marker q) = eid \<longrightarrow> q = p))"
proof -
  let ?g = "find (\<lambda>p. cm_chat (cp_marker p) = chat \<and> cm_eventId (cp_marker p) = eid)"
  obtain rows s1 where rows: "mapping_snapshot E s = (Some rows, s1)"
    "exclusive E (then_do (rebuild E rows []) (\<lambda>all s. (Some (?g all), s))) s1 = (Some r, s')"
    using assms(3) by (auto simp: findEvent_def then_do_Some split: if_splits)
  note map = mapping_snapshot_Some [OF rows(1)]
  have "index_inv E s1" using map assms(2) by simp
  from exclusive_rebuild [OF assms(1) this rows(2)] obtain all where all: "complete_evidence E rows all" "r = ?g all" by blast
  have inj: "q = p" if "p \<in> set all" "q \<in> set all" "cm_eventId (cp_marker q) = cm_eventId (cp_marker p)" for p q
    using all(1) that by (auto simp: complete_evidence_def distinct_map inj_on_def)
  show ?thesis
  proof (intro exI conjI)
    show "ie_mappings E (ix_step s) = Some rows" using map by simp
    show "complete_evidence E rows all" by (rule all(1))
    show "case r of
       None \<Rightarrow> \<forall>p \<in> set all. \<not> (cm_chat (cp_marker p) = chat \<and> cm_eventId (cp_marker p) = eid)
     | Some p \<Rightarrow> p \<in> set all \<and> cm_chat (cp_marker p) = chat \<and> cm_eventId (cp_marker p) = eid \<and>
         (\<forall>q \<in> set all. cm_eventId (cp_marker q) = eid \<longrightarrow> q = p)"
      using all(2) inj by (auto simp: find_None_iff find_Some_iff split: option.split)
  qed
qed

lemma demo_lookup: "findEvent demo_env ''1@g.us'' (replicate 32 CHR ''a'') demo_index =
    (Some (Some \<lparr>cp_marker = demo_marker, cp_entryId = ''2'', cp_session = demo_file\<rparr>), tick demo_filled)"
proof -
  have ev: "evidence demo_env demo_file (tick demo_index) = (Some demo_proofs, tick demo_filled)"
    by (rule demo_evidence_later) (simp_all add: demo_index_def demo_filled_def tick_def)
  have "mapping_snapshot demo_env demo_index = (Some [(''1@g.us'', Some demo_file), (''9@lid'', None)], tick demo_index)"
    by (rule demo_mappings)
  moreover have "sb_sessionFile demo_file \<notin> ix_pending (tick demo_index)" by (simp add: demo_index_def tick_def)
  moreover have "merge_proofs [] demo_proofs = Some demo_proofs" by (simp add: merge_proofs_def demo_proofs_def)
  moreover have "''1@g.us'' \<in> set (canonical_chats demo_env)" "ie_queue demo_env n s = s" for n s
    by (simp_all add: canonical_chats_def demo_env_def)
  moreover have "find (\<lambda>p. cm_chat (cp_marker p) = ''1@g.us'' \<and> cm_eventId (cp_marker p) = replicate 32 CHR ''a'') demo_proofs =
      Some \<lparr>cp_marker = demo_marker, cp_entryId = ''2'', cp_session = demo_file\<rparr>"
    by (simp add: demo_proofs_def demo_marker_def)
  ultimately show ?thesis by (simp add: findEvent_def then_do_def exclusive_def ev)
qed

theorem lookup_is_complete_witness:
  "\<exists>rows all. ie_mappings demo_env 0 = Some rows \<and> complete_evidence demo_env rows all \<and>
    \<lparr>cp_marker = demo_marker, cp_entryId = ''2'', cp_session = demo_file\<rparr> \<in> set all"
proof -
  have "orderly demo_env" by (simp add: orderly_def demo_env_def index_runs.none)
  from lookup_is_complete [OF this new_index_inv [OF demo_new_index] demo_lookup]
  show ?thesis by (auto simp: demo_index_def)
qed

text \<open>own messages are classified with the journal first: an unresolved attempt on the destination, seen
before or after the file scan, gives \<open>uncertain\<close>; \<open>confirmed\<close> and \<open>manual\<close> are answered only when both
lookups found none, and then \<open>confirmed\<close> exactly when complete evidence lists that very send.\<close>

theorem own_class_priority:
  assumes "orderly E" "index_inv E s" "classifyOwn E chat actual mid s = (Some r, s')"
  shows "own_route E actual = chat \<and>
    (r = Own_uncertain \<longleftrightarrow>
      ie_unresolved E (ix_step s) actual mid = Some True \<or> ie_unresolved E (ix_step s' - 1) actual mid = Some True) \<and>
    (r \<noteq> Own_uncertain \<longrightarrow>
      ie_unresolved E (ix_step s) actual mid = Some False \<and> ie_unresolved E (ix_step s' - 1) actual mid = Some False \<and>
      (\<exists>rows all. complete_evidence E rows all \<and> (r = Own_confirmed \<longleftrightarrow> (\<exists>p \<in> set all. lists_send actual mid p))))"
proof -
  let ?rest = "\<lambda>u. if u then (\<lambda>s. (Some Own_uncertain, s))
        else then_do (mapping_snapshot E) (\<lambda>rows.
          then_do (exclusive E (then_do (rebuild E rows []) (\<lambda>all s. (Some (list_ex (lists_send actual mid) all), s)))) (\<lambda>found.
          then_do (journal_unresolved E actual mid) (\<lambda>u s.
            (Some (if u then Own_uncertain else if found then Own_confirmed else Own_manual), s))))"
  have route: "own_route E actual = chat" and run: "then_do (journal_unresolved E actual mid) ?rest s = (Some r, s')"
    using assms(3) unfolding classifyOwn_def by (simp_all split: if_splits)
  obtain u where u: "ie_unresolved E (ix_step s) actual mid = Some u" "own_route E actual = chat"
    and rest: "?rest u (tick s) = (Some r, s')"
    using run [unfolded then_do_Some [of "journal_unresolved E actual mid" ?rest]] route
    by (auto simp: journal_unresolved_def simp del: if_split)
  show ?thesis
  proof (cases u)
    case True
    then show ?thesis using u rest by simp
  next
    case False
    obtain rows s2 found s3 v where m: "mapping_snapshot E (tick s) = (Some rows, s2)"
      "exclusive E (then_do (rebuild E rows []) (\<lambda>all s. (Some (list_ex (lists_send actual mid) all), s))) s2 = (Some found, s3)"
      "ie_unresolved E (ix_step s3) actual mid = Some v" "s' = tick s3"
      "r = (if v then Own_uncertain else if found then Own_confirmed else Own_manual)"
      using rest False by (auto simp: then_do_Some journal_unresolved_def)
    have "index_inv E s2" using mapping_snapshot_Some [OF m(1)] assms(2) by simp
    from exclusive_rebuild [OF assms(1) this m(2)]
    obtain all where "complete_evidence E rows all" "found = list_ex (lists_send actual mid) all" by blast
    then show ?thesis using u m False by (auto simp: list_ex_iff)
  qed
qed

theorem own_class_priority_witness: "ie_unresolved demo_env 5 ''1@g.us'' ''m'' = Some False"
proof -
  have ev: "evidence demo_env demo_file (tick (tick demo_index)) = (Some demo_proofs, tick (tick demo_filled))"
    by (rule demo_evidence_later) (simp_all add: demo_index_def demo_filled_def tick_def)
  have "mapping_snapshot demo_env (tick demo_index) = (Some [(''1@g.us'', Some demo_file), (''9@lid'', None)], tick (tick demo_index))"
    by (rule demo_mappings)
  moreover have "sb_sessionFile demo_file \<notin> ix_pending (tick (tick demo_index))" by (simp add: demo_index_def)
  moreover have "merge_proofs [] demo_proofs = Some demo_proofs" by (simp add: merge_proofs_def demo_proofs_def)
  moreover have "''1@g.us'' \<in> set (canonical_chats demo_env)" "ie_queue demo_env n s = s" "ie_unresolved demo_env n c m = Some False"
    "own_route demo_env ''1@g.us'' = ''1@g.us''" for n s c m
    by (simp_all add: canonical_chats_def demo_env_def own_route_def)
  moreover have "list_ex (lists_send ''1@g.us'' ''m'') demo_proofs = False"
    by (simp add: demo_proofs_def lists_send_def demo_marker_def)
  ultimately have "classifyOwn demo_env ''1@g.us'' ''1@g.us'' ''m'' demo_index = (Some Own_manual, tick (tick (tick demo_filled)))"
    by (simp add: classifyOwn_def then_do_def exclusive_def journal_unresolved_def ev)
  moreover have "orderly demo_env" by (simp add: orderly_def demo_env_def index_runs.none)
  ultimately have "ie_unresolved demo_env (ix_step (tick (tick (tick demo_filled))) - 1) ''1@g.us'' ''m'' = Some False"
    using own_class_priority [OF _ new_index_inv [OF demo_new_index]] by blast
  then show ?thesis by (simp add: demo_filled_def)
qed

end
