(* ===== verification/Worker.thy ===== *)
theory Worker
  imports Repository_Own Index_Spec
begin

text \<open>
  The worker that turns one claimed event into a completed one
  (\<open>src/session-controller/src/scheduler/chat-worker.ts\<close>): the ownership gate, the renewal loop that
  runs beside it, the turn, the completion marker and the pause on failure. What the repository, the
  session host and the turn ports answer at each call is the record \<open>worker_env\<close>; the calls of
  the main flow are recorded as effects, in order.
\<close>

section \<open>State\<close>

datatype effect =
    E_renew claimed_work | E_check claimed_work | E_read | E_find | E_own | E_turn | E_classify
  | E_open claimed_work "session_binding option" | E_bind claimed_work session_binding | E_attach_host | E_attach_turns
  | E_prepare | E_begin claimed_work | E_prompt notification | E_after bool | E_confirmed
  | E_append completion_marker | E_complete claimed_work completion_proof | E_pause claimed_work pause_reason
  | E_emit pause_reason | E_dispose

record worker =
  wk_work :: claimed_work
  wk_lost :: bool
  wk_reason :: pause_reason
  wk_prompted :: bool
  wk_open :: bool
  wk_step :: nat
  wk_trace :: "effect list"

text \<open>What a turn port does when it is asked to run: gate checks, the prompt, its own failure.\<close>

datatype port_call = Call_current | Call_prompt | Call_prompt_caught | Call_fail error_class

text \<open>\<open>we_others\<close> is what the renewal loop does to the shared variables while a call is awaited.\<close>

record worker_env =
  we_app :: "nat \<Rightarrow> bool"
  we_others :: "nat \<Rightarrow> worker \<Rightarrow> worker"
  we_renew :: "nat \<Rightarrow> error_class + ownership option"
  we_check :: "nat \<Rightarrow> error_class + bool"
  we_readChat :: "nat \<Rightarrow> error_class + chat_state"
  we_find :: "nat \<Rightarrow> error_class + completion_proof option"
  we_own :: "nat \<Rightarrow> error_class + own_mutation"
  we_turn :: "nat \<Rightarrow> error_class + turn_state"
  we_classify :: "nat \<Rightarrow> error_class + own_class"
  we_open :: "nat \<Rightarrow> error_class + session_binding"
  we_unit :: "nat \<Rightarrow> error_class + unit"
  we_prepare :: "nat \<Rightarrow> error_class + bool option"
  we_bool :: "nat \<Rightarrow> error_class + bool"
  we_port :: "nat \<Rightarrow> port_call list"
  we_confirmed :: "nat \<Rightarrow> error_class + confirmed_send list"
  we_iso :: "nat \<Rightarrow> error_class + string"
  we_append :: "nat \<Rightarrow> error_class + completion_proof"
  we_sha :: "string \<Rightarrow> string"

type_synonym 'a work_exec = "(worker, 'a) exec"

text \<open>An awaited call: the effect starts, the answer is that of this step, and the renewal loop runs meanwhile.\<close>

definition ask :: "worker_env \<Rightarrow> effect \<Rightarrow> (nat \<Rightarrow> error_class + 'a) \<Rightarrow> 'a work_exec" where
  "ask E e answer s =
     (answer (wk_step s), we_others E (wk_step s) (s\<lparr>wk_trace := wk_trace s @ [e], wk_step := Suc (wk_step s)\<rparr>))"

section \<open>The ownership gate\<close>

definition lose :: "'a work_exec" where
  "lose s = (Inl Lease_lost, s\<lparr>wk_lost := True\<rparr>)"

definition app_current :: "worker_env \<Rightarrow> worker \<Rightarrow> bool" where
  "app_current E s = we_app E (wk_step s)"

definition check_gate :: "worker_env \<Rightarrow> unit work_exec" where
  "check_gate E = with_state (\<lambda>s.
     seq (ask E (E_check (wk_work s)) (we_check E)) (\<lambda>ok.
     with_state (\<lambda>s. if \<not> ok \<or> \<not> app_current E s then lose else ret ())))"

definition current :: "worker_env \<Rightarrow> unit work_exec" where
  "current E = with_state (\<lambda>s.
     if wk_lost s \<or> \<not> app_current E s then throw Lease_lost
     else seq (ask E (E_renew (wk_work s)) (we_renew E)) (\<lambda>renewed.
       with_state (\<lambda>s.
         case renewed of
           None \<Rightarrow> lose
         | Some ow \<Rightarrow>
             if wk_lost s \<or> \<not> app_current E s then lose
             else seq (modify (\<lambda>s. s\<lparr>wk_work := (wk_work s)\<lparr>cw_ownership := ow\<rparr>\<rparr>)) (\<lambda>_. check_gate E))))"

text \<open>One turn of the renewal loop: its calls are not part of the main flow's trace.\<close>

definition renewal_beat :: "worker_env \<Rightarrow> worker \<Rightarrow> worker" where
  "renewal_beat E s =
     (case current E s of
        (Inr _, s') \<Rightarrow> s\<lparr>wk_work := wk_work s', wk_lost := wk_lost s'\<rparr>
      | (Inl _, s') \<Rightarrow> s\<lparr>wk_work := wk_work s', wk_lost := True\<rparr>)"

section \<open>The turn\<close>

definition complete_work :: "worker_env \<Rightarrow> completion_proof \<Rightarrow> unit work_exec" where
  "complete_work E p = with_state (\<lambda>s.
     seq (ask E (E_complete (wk_work s) p) (we_bool E)) (\<lambda>ok. if ok then ret () else throw Lease_lost))"

definition proof_matches :: "worker_env \<Rightarrow> notification \<Rightarrow> chat_state \<Rightarrow> completion_proof \<Rightarrow> error_class + unit" where
  "proof_matches E ev st p =
     (if cm_eventId (cp_marker p) \<noteq> event_id ev \<or> cm_chat (cp_marker p) \<noteq> canonical_chat_jid ev \<or>
        cm_sequence (cp_marker p) \<noteq> chat_sequence ev then Inl Session_failed
      else andThen (fingerprintEvent (we_sha E) ev) (\<lambda>fp.
        guard (cm_fingerprint (cp_marker p) = fp \<and> cst_session st = Some (cp_session p)) Session_failed))"

definition existing_marker :: "worker_env \<Rightarrow> chat_state \<Rightarrow> completion_proof \<Rightarrow> unit work_exec" where
  "existing_marker E st found =
     seq (lift (checked completion_proof_schema found Session_failed)) (\<lambda>p.
     with_state (\<lambda>s. seq (lift (proof_matches E (cw_event (wk_work s)) st p)) (\<lambda>_.
     seq (current E) (\<lambda>_. complete_work E p))))"

definition prompt_once :: "worker_env \<Rightarrow> unit work_exec" where
  "prompt_once E = with_state (\<lambda>s.
     if wk_prompted s then throw Mutation_uncertain
     else seq (current E) (\<lambda>_.
       seq (modify (\<lambda>s. s\<lparr>wk_prompted := True\<rparr>)) (\<lambda>_.
       with_state (\<lambda>s. ask E (E_prompt (cw_event (wk_work s))) (we_unit E)))))"

fun run_port :: "worker_env \<Rightarrow> port_call list \<Rightarrow> unit work_exec" where
  "run_port E [] = ret ()"
| "run_port E (Call_current # cs) = seq (current E) (\<lambda>_. run_port E cs)"
| "run_port E (Call_prompt # cs) = seq (prompt_once E) (\<lambda>_. run_port E cs)"
| "run_port E (Call_prompt_caught # cs) = seq (catch (prompt_once E) (\<lambda>_. ret ())) (\<lambda>_. run_port E cs)"
| "run_port E (Call_fail e # cs) = throw e"

text \<open>The port of \<open>createJournalTurns\<close>.\<close>

definition journal_port :: "port_call list" where
  "journal_port = [Call_current, Call_prompt, Call_current]"

definition set_reason :: "pause_reason \<Rightarrow> unit work_exec" where
  "set_reason r = modify (\<lambda>s. s\<lparr>wk_reason := r\<rparr>)"

definition turn_effects :: "worker_env \<Rightarrow> unit work_exec" where
  "turn_effects E =
     seq (set_reason P_preparation_failed) (\<lambda>_.
     seq (ask E E_prepare (we_prepare E)) (\<lambda>preparation.
     seq (current E) (\<lambda>_.
     with_state (\<lambda>s. seq (ask E (E_begin (wk_work s)) (we_bool E)) (\<lambda>begun.
       if \<not> begun then throw Mutation_uncertain
       else seq (set_reason P_mutation_uncertain) (\<lambda>_.
         with_state (\<lambda>s. seq (run_port E (we_port E (wk_step s))) (\<lambda>_.
         ask E (E_after (preparation = Some True)) (we_unit E)))))))))"

definition new_marker :: "worker_env \<Rightarrow> own_class \<Rightarrow> confirmed_send list \<Rightarrow> worker \<Rightarrow> error_class + completion_marker" where
  "new_marker E own sends s =
     (let ev = cw_event (wk_work s) in
      andThen (fingerprintEvent (we_sha E) ev) (\<lambda>fp.
      andThen (we_iso E (wk_step s)) (\<lambda>t.
        Inr \<lparr>cm_eventId = event_id ev, cm_fingerprint = fp, cm_chat = canonical_chat_jid ev,
          cm_sequence = chat_sequence ev, cm_completion = (if own = Own_confirmed then Context_only else Turn),
          cm_completedAt = t, cm_sends = sends\<rparr>)))"

definition finish_work :: "worker_env \<Rightarrow> own_class \<Rightarrow> unit work_exec" where
  "finish_work E own =
     seq (current E) (\<lambda>_.
     seq (ask E E_confirmed (we_confirmed E)) (\<lambda>sends.
     seq (current E) (\<lambda>_.
     with_state (\<lambda>s. seq (lift (new_marker E own sends s)) (\<lambda>m.
     seq (ask E (E_append m) (we_append E)) (\<lambda>p.
     seq (current E) (\<lambda>_. complete_work E p)))))))"

definition bind_session :: "worker_env \<Rightarrow> chat_state \<Rightarrow> session_binding \<Rightarrow> unit work_exec" where
  "bind_session E st b = with_state (\<lambda>s.
     if sb_chat b \<noteq> canonical_chat_jid (cw_event (wk_work s)) \<or> (cst_session st \<noteq> None \<and> cst_session st \<noteq> Some b)
     then throw Session_failed
     else seq (ask E (E_bind (wk_work s) b) (we_bool E)) (\<lambda>ok. if ok then ret () else throw Session_failed))"

definition open_session :: "worker_env \<Rightarrow> chat_state \<Rightarrow> unit work_exec" where
  "open_session E st =
     seq (current E) (\<lambda>_.
     with_state (\<lambda>s. seq (ask E (E_open (wk_work s) (cst_session st)) (we_open E)) (\<lambda>b.
     seq (modify (\<lambda>s. s\<lparr>wk_open := True\<rparr>)) (\<lambda>_.
     seq (current E) (\<lambda>_.
     seq (bind_session E st b) (\<lambda>_.
     seq (current E) (\<lambda>_.
     seq (ask E E_attach_host (we_unit E)) (\<lambda>_.
     seq (current E) (\<lambda>_.
     ask E E_attach_turns (we_unit E))))))))))"

definition own_event :: "worker_env \<Rightarrow> own_class work_exec" where
  "own_event E = with_state (\<lambda>s.
     if is_from_me (cw_event (wk_work s)) then ask E E_classify (we_classify E) else ret Own_manual)"

definition fresh_event :: "worker_env \<Rightarrow> chat_state \<Rightarrow> unit work_exec" where
  "fresh_event E st =
     seq (ask E E_own (we_own E)) (\<lambda>o1.
       if o1 = O_uncertain then throw Mutation_uncertain
       else seq (ask E E_turn (we_turn E)) (\<lambda>t.
         if t = T_lost then throw Lease_lost
         else if t = T_started then throw Mutation_uncertain
         else seq (own_event E) (\<lambda>own.
           if own = Own_uncertain then throw Mutation_uncertain
           else seq (open_session E st) (\<lambda>_.
             seq (if own \<noteq> Own_confirmed then turn_effects E else ret ()) (\<lambda>_. finish_work E own)))))"

definition worker_body :: "worker_env \<Rightarrow> unit work_exec" where
  "worker_body E =
     seq (current E) (\<lambda>_.
     seq (ask E E_read (we_readChat E)) (\<lambda>st.
     with_state (\<lambda>s.
       if Suc (lastCompletedSequence st) \<noteq> chat_sequence (cw_event (wk_work s)) \<or> cst_pause st \<noteq> None
       then throw Sequence_gap
       else seq (ask E E_find (we_find E)) (\<lambda>found.
         case found of Some p \<Rightarrow> existing_marker E st p | None \<Rightarrow> fresh_event E st))))"

section \<open>Failure and clean-up\<close>

text \<open>A diagnostic is an effect of its own step: effect number \<open>n\<close> of the trace is step \<open>n\<close>.\<close>

definition emit_class :: "pause_reason \<Rightarrow> unit work_exec" where
  "emit_class r = modify (\<lambda>s. s\<lparr>wk_trace := wk_trace s @ [E_emit r], wk_step := Suc (wk_step s)\<rparr>)"

definition emit_final :: "unit work_exec" where
  "emit_final = with_state (\<lambda>s. emit_class (if wk_lost s then P_lease_lost else wk_reason s))"

definition pause_work :: "worker_env \<Rightarrow> unit work_exec" where
  "pause_work E =
     catch (seq (current E) (\<lambda>_.
       with_state (\<lambda>s. seq (ask E (E_pause (wk_work s) (wk_reason s)) (we_bool E)) (\<lambda>_. ret ()))))
     (\<lambda>_. modify (\<lambda>s. s\<lparr>wk_lost := True\<rparr>))"

definition on_failure :: "worker_env \<Rightarrow> error_class \<Rightarrow> unit work_exec" where
  "on_failure E e =
     seq (case pause_of_error e of Some r \<Rightarrow> set_reason r | None \<Rightarrow> ret ()) (\<lambda>_.
     seq (with_state (\<lambda>s. if \<not> wk_lost s \<and> app_current E s then pause_work E else ret ())) (\<lambda>_. emit_final))"

definition dispose_session :: "worker_env \<Rightarrow> unit work_exec" where
  "dispose_session E = with_state (\<lambda>s.
     if \<not> wk_open s then ret ()
     else catch (ask E E_dispose (we_unit E)) (\<lambda>_. emit_class P_session_failed))"

definition start_work :: "claimed_work \<Rightarrow> worker" where
  "start_work w = \<lparr>wk_work = w, wk_lost = False, wk_reason = P_session_failed, wk_prompted = False, wk_open = False,
     wk_step = 0, wk_trace = []\<rparr>"

definition runChatWorker :: "worker_env \<Rightarrow> claimed_work \<Rightarrow> worker" where
  "runChatWorker E w =
     snd (seq (catch (worker_body E) (on_failure E)) (\<lambda>_. dispose_session E) (start_work w))"

end
