(* ===== verification/Worker_Spec.thy ===== *)
theory Worker_Spec
  imports Worker
begin

text \<open>
  The properties of the worker: every effect comes directly after a renewal and a check of the ownership that were
  both answered yes, the prompt runs at most once and only inside a begun turn, and every run ends
  completed, with a pause that was answered, with a lease that was lost for a cause, or stale.
\<close>

section \<open>The renewal loop\<close>

text \<open>What may change while a call is awaited: the ownership in the work, and the loss of the lease.\<close>

definition tame :: "(nat \<Rightarrow> worker \<Rightarrow> worker) \<Rightarrow> bool" where
  "tame others \<longleftrightarrow> (\<forall>n s. \<exists>ow lost. (wk_lost s \<longrightarrow> lost) \<and>
     others n s = s\<lparr>wk_work := (wk_work s)\<lparr>cw_ownership := ow\<rparr>, wk_lost := lost\<rparr>)"

lemma tame_keeps:
  assumes "tame others"
  shows "wk_trace (others n s) = wk_trace s" "cw_event (wk_work (others n s)) = cw_event (wk_work s)"
    "wk_prompted (others n s) = wk_prompted s" "wk_step (others n s) = wk_step s" "wk_open (others n s) = wk_open s"
    "wk_reason (others n s) = wk_reason s" "wk_lost s \<Longrightarrow> wk_lost (others n s)"
    "cw_streamId (wk_work (others n s)) = cw_streamId (wk_work s)"
proof -
  obtain ow lost where "wk_lost s \<longrightarrow> lost" "others n s = s\<lparr>wk_work := (wk_work s)\<lparr>cw_ownership := ow\<rparr>, wk_lost := lost\<rparr>"
    using assms unfolding tame_def by blast
  then show "wk_trace (others n s) = wk_trace s" "cw_event (wk_work (others n s)) = cw_event (wk_work s)"
    "wk_prompted (others n s) = wk_prompted s" "wk_step (others n s) = wk_step s" "wk_open (others n s) = wk_open s"
    "wk_reason (others n s) = wk_reason s" "wk_lost s \<Longrightarrow> wk_lost (others n s)"
    "cw_streamId (wk_work (others n s)) = cw_streamId (wk_work s)"
    by simp_all
qed

lemma only_ownership:
  fixes w w' :: claimed_work
  shows "cw_event w' = cw_event w \<Longrightarrow> cw_streamId w' = cw_streamId w \<Longrightarrow> w' = w\<lparr>cw_ownership := cw_ownership w'\<rparr>"
  by (intro claimed_work.equality) auto

lemma current_work:
  assumes "tame (we_others E)" "current E s = (r, s')"
  shows "cw_event (wk_work s') = cw_event (wk_work s) \<and> cw_streamId (wk_work s') = cw_streamId (wk_work s) \<and>
    (wk_lost s \<longrightarrow> wk_lost s') \<and> wk_prompted s' = wk_prompted s"
  using assms(2) tame_keeps [OF assms(1)]
  by (auto simp: current_def with_state_def throw_def seq_def ask_def lose_def modify_def check_gate_def ret_def
      split: if_splits sum.splits option.splits)

text \<open>Any number of turns of the renewal loop is tame.\<close>

definition beats :: "(nat \<Rightarrow> worker_env) \<Rightarrow> (nat \<Rightarrow> nat) \<Rightarrow> nat \<Rightarrow> worker \<Rightarrow> worker" where
  "beats B k n = (renewal_beat (B n)) ^^ k n"

lemma renewal_beat_tame:
  assumes "tame (we_others E)"
  shows "\<exists>ow lost. (wk_lost s \<longrightarrow> lost) \<and> renewal_beat E s = s\<lparr>wk_work := (wk_work s)\<lparr>cw_ownership := ow\<rparr>, wk_lost := lost\<rparr>"
proof -
  obtain r s' where c: "current E s = (r, s')" by force
  note w = current_work [OF assms c]
  have "wk_work s' = (wk_work s)\<lparr>cw_ownership := cw_ownership (wk_work s')\<rparr>" using w only_ownership by blast
  then have "renewal_beat E s = s\<lparr>wk_work := (wk_work s)\<lparr>cw_ownership := cw_ownership (wk_work s')\<rparr>, wk_lost := wk_lost s'\<rparr> \<or>
      renewal_beat E s = s\<lparr>wk_work := (wk_work s)\<lparr>cw_ownership := cw_ownership (wk_work s')\<rparr>, wk_lost := True\<rparr>"
    using c by (cases r) (auto simp: renewal_beat_def)
  then show ?thesis using w by blast
qed

lemma beats_tame:
  assumes "\<And>n. tame (we_others (B n))"
  shows "tame (beats B k)"
proof -
  have "\<exists>ow lost. (wk_lost s \<longrightarrow> lost) \<and>
      (renewal_beat (B n) ^^ m) s = s\<lparr>wk_work := (wk_work s)\<lparr>cw_ownership := ow\<rparr>, wk_lost := lost\<rparr>" for n m s
  proof (induction m)
    case 0
    show ?case by (intro exI [where x = "cw_ownership (wk_work s)"] exI [where x = "wk_lost s"]) simp
  next
    case (Suc m)
    then obtain ow lost where m: "wk_lost s \<longrightarrow> lost"
      "(renewal_beat (B n) ^^ m) s = s\<lparr>wk_work := (wk_work s)\<lparr>cw_ownership := ow\<rparr>, wk_lost := lost\<rparr>" by blast
    from renewal_beat_tame [of "B n" "(renewal_beat (B n) ^^ m) s"] m assms
    show ?case by auto
  qed
  then show ?thesis by (simp add: tame_def beats_def)
qed

section \<open>The trace\<close>

fun gated_kind :: "effect \<Rightarrow> bool" where
  "gated_kind (E_open _ _) = True"
| "gated_kind (E_bind _ _) = True"
| "gated_kind (E_attach_host) = True"
| "gated_kind (E_attach_turns) = True"
| "gated_kind (E_begin _) = True"
| "gated_kind (E_prompt _) = True"
| "gated_kind (E_append _) = True"
| "gated_kind (E_complete _ _) = True"
| "gated_kind (E_pause _ _) = True"
| "gated_kind _ = False"

definition is_check :: "notification \<Rightarrow> effect \<Rightarrow> bool" where
  "is_check ev e \<longleftrightarrow> (\<exists>w. e = E_check w \<and> cw_event w = ev)"

definition is_prompt :: "effect \<Rightarrow> bool" where
  "is_prompt e \<longleftrightarrow> (\<exists>n. e = E_prompt n)"

definition is_begin :: "effect \<Rightarrow> bool" where
  "is_begin e \<longleftrightarrow> (\<exists>w. e = E_begin w)"

text \<open>The gate passed just before position \<open>n\<close>: the lease of the event was renewed, the ownership that
was answered is the one of the work that was checked next, the check answered yes, and the
application was current before, between and after the two calls.\<close>

definition gate_at :: "worker_env \<Rightarrow> notification \<Rightarrow> effect list \<Rightarrow> nat \<Rightarrow> bool" where
  "gate_at E ev tr n \<longleftrightarrow> 2 \<le> n \<and> (\<exists>w0 w. tr ! (n - 2) = E_renew w0 \<and> cw_event w0 = ev \<and>
     we_renew E (n - 2) = Inr (Some (cw_ownership w)) \<and> tr ! (n - 1) = E_check w \<and> cw_event w = ev \<and>
     we_check E (n - 1) = Inr True \<and> we_app E (n - 2) \<and> we_app E (n - 1) \<and> we_app E n)"

text \<open>The turn was begun: an effect of the trace asked for it and was answered yes.\<close>

definition begun_in :: "worker_env \<Rightarrow> effect list \<Rightarrow> nat \<Rightarrow> bool" where
  "begun_in E tr n \<longleftrightarrow> (\<exists>j < n. is_begin (tr ! j) \<and> we_bool E j = Inr True)"

text \<open>Why the lease counts as lost: the renewal loop gave it up during a call, a renewal or a check of the gate
did not pass, the application was no longer current, or the call that pauses the chat failed.\<close>

definition lost_at :: "worker_env \<Rightarrow> effect \<Rightarrow> nat \<Rightarrow> bool" where
  "lost_at E e j \<longleftrightarrow> (\<exists>s. \<not> wk_lost s \<and> wk_lost (we_others E j s)) \<or>
     (\<exists>w. e = E_renew w \<and> \<not> (\<exists>ow. we_renew E j = Inr (Some ow))) \<or>
     (\<exists>w. e = E_check w \<and> we_check E j \<noteq> Inr True) \<or> (\<exists>w r c. e = E_pause w r \<and> we_bool E j = Inl c)"

definition lost_cause :: "worker_env \<Rightarrow> effect list \<Rightarrow> bool" where
  "lost_cause E tr \<longleftrightarrow> (\<exists>j < length tr. lost_at E (tr ! j) j) \<or> (\<exists>j \<le> length tr. \<not> we_app E j)"

lemma gate_at_append: "n \<le> length tr \<Longrightarrow> gate_at E ev (tr @ xs) n = gate_at E ev tr n"
  by (auto simp: gate_at_def nth_append)

lemma begun_in_append: "n \<le> length tr \<Longrightarrow> begun_in E (tr @ xs) n = begun_in E tr n"
  by (simp add: begun_in_def nth_append cong: conj_cong)

lemma begun_in_mono: "begun_in E tr n \<Longrightarrow> n \<le> m \<Longrightarrow> begun_in E tr m"
  unfolding begun_in_def by (meson order_less_le_trans)

lemma lost_cause_append: "lost_cause E tr \<Longrightarrow> lost_cause E (tr @ xs)"
proof (unfold lost_cause_def, elim disjE exE conjE)
  fix j
  assume "j < length tr" "lost_at E (tr ! j) j"
  then have "j < length (tr @ xs) \<and> lost_at E ((tr @ xs) ! j) j" by (simp add: nth_append)
  then show "(\<exists>j < length (tr @ xs). lost_at E ((tr @ xs) ! j) j) \<or> (\<exists>j \<le> length (tr @ xs). \<not> we_app E j)" by blast
next
  fix j
  assume "j \<le> length tr" "\<not> we_app E j"
  then have "j \<le> length (tr @ xs) \<and> \<not> we_app E j" by simp
  then show "(\<exists>j < length (tr @ xs). lost_at E ((tr @ xs) ! j) j) \<or> (\<exists>j \<le> length (tr @ xs). \<not> we_app E j)" by blast
qed

text \<open>Every gated effect follows directly on a gate that passed, the only prompt on a begun turn.\<close>

inductive gated :: "worker_env \<Rightarrow> notification \<Rightarrow> effect list \<Rightarrow> bool" for E ev where
  start: "gated E ev []"
| effect: "gated E ev tr \<Longrightarrow> (gated_kind e \<longrightarrow> gate_at E ev tr (length tr)) \<Longrightarrow>
    (is_prompt e \<longrightarrow> begun_in E tr (length tr) \<and> \<not> list_ex is_prompt tr \<and> e = E_prompt ev) \<Longrightarrow> gated E ev (tr @ [e])"

text \<open>Effect \<open>n\<close> of the trace is the call of step \<open>n\<close>.\<close>

definition work_inv :: "worker_env \<Rightarrow> notification \<Rightarrow> worker \<Rightarrow> bool" where
  "work_inv E ev s \<longleftrightarrow> gated E ev (wk_trace s) \<and> wk_step s = length (wk_trace s) \<and> cw_event (wk_work s) = ev \<and>
     (list_ex is_prompt (wk_trace s) \<longrightarrow> wk_prompted s) \<and> (wk_lost s \<longrightarrow> lost_cause E (wk_trace s))"

definition work_checked :: "worker_env \<Rightarrow> notification \<Rightarrow> worker \<Rightarrow> bool" where
  "work_checked E ev s \<longleftrightarrow> work_inv E ev s \<and> gate_at E ev (wk_trace s) (length (wk_trace s))"

text \<open>The state in which a call is answered.\<close>

abbreviation ask_state :: "worker_env \<Rightarrow> effect \<Rightarrow> worker \<Rightarrow> worker" where
  "ask_state E e s \<equiv> we_others E (wk_step s) (s\<lparr>wk_trace := wk_trace s @ [e], wk_step := Suc (wk_step s)\<rparr>)"

lemma triple_ask:
  assumes "\<And>s r s'. P s \<Longrightarrow> s' = ask_state E e s \<Longrightarrow> r = answer (wk_step s) \<Longrightarrow>
    (\<forall>x. r = Inr x \<longrightarrow> Q x s') \<and> (\<forall>c. r = Inl c \<longrightarrow> R c s')"
  shows "triple P (ask E e answer) Q R"
  using assms by (auto simp: triple_def ask_def split: sum.split)

lemma asked_lost:
  assumes "wk_lost s \<longrightarrow> lost_cause E (wk_trace s)" "wk_step s = length (wk_trace s)" "wk_lost (ask_state E e s)"
  shows "lost_cause E (wk_trace s @ [e])"
proof (cases "wk_lost s")
  case True
  then show ?thesis using assms(1) lost_cause_append by blast
next
  case False
  let ?s = "s\<lparr>wk_trace := wk_trace s @ [e], wk_step := Suc (wk_step s)\<rparr>"
  have "\<not> wk_lost ?s \<and> wk_lost (we_others E (length (wk_trace s)) ?s)" using False assms(2,3) by simp
  then have "lost_at E ((wk_trace s @ [e]) ! length (wk_trace s)) (length (wk_trace s))" unfolding lost_at_def by blast
  moreover have "length (wk_trace s) < length (wk_trace s @ [e])" by simp
  ultimately show ?thesis unfolding lost_cause_def by blast
qed

lemma work_inv_ask:
  assumes "tame (we_others E)" "work_inv E ev s" "gated_kind e \<longrightarrow> gate_at E ev (wk_trace s) (length (wk_trace s))" "\<not> is_prompt e"
  shows "work_inv E ev (ask_state E e s)"
proof -
  have "gated E ev (wk_trace s @ [e])" using assms(2,3,4) by (auto simp: work_inv_def intro: gated.effect)
  moreover have "wk_lost (ask_state E e s) \<longrightarrow> lost_cause E (wk_trace s @ [e])"
    using assms(2) asked_lost unfolding work_inv_def by blast
  ultimately show ?thesis
    using assms(2,4) tame_keeps [OF assms(1)] by (simp add: work_inv_def)
qed

lemma prompt_is_gated: "is_prompt e \<Longrightarrow> gated_kind e"
  by (auto simp: is_prompt_def)

lemma triple_ask_plain:
  "tame (we_others E) \<Longrightarrow> \<not> gated_kind e \<Longrightarrow> triple (work_inv E ev) (ask E e a) (\<lambda>_. work_inv E ev) (\<lambda>_. work_inv E ev)"
  by (rule triple_ask) (auto dest: prompt_is_gated intro!: work_inv_ask)

lemma triple_ask_gated:
  "tame (we_others E) \<Longrightarrow> \<not> is_prompt e \<Longrightarrow> triple (work_checked E ev) (ask E e a) (\<lambda>_. work_inv E ev) (\<lambda>_. work_inv E ev)"
  by (rule triple_ask) (auto simp: work_checked_def intro: work_inv_ask)

section \<open>The flow keeps the trace gated\<close>

text \<open>Normal and exceptional ends alike keep the invariant; a gate that passes leaves its proof last.\<close>

lemma triple_state:
  "(\<And>s0. P s0 \<Longrightarrow> triple (\<lambda>s. P s \<and> s = s0) (f s0) Q R) \<Longrightarrow> triple P (with_state f) Q R"
  by (auto simp: triple_def with_state_def)

lemma triple_at: "triple P m Q R \<Longrightarrow> triple (\<lambda>s. P s \<and> s = s0) m Q R"
  by (auto simp: triple_def)

lemma triple_throw_inv: "triple (work_inv E ev) (throw e) Q (\<lambda>_. work_inv E ev)" "triple (work_checked E ev) (throw e) Q (\<lambda>_. work_inv E ev)"
  by (simp_all add: triple_def throw_def work_checked_def)

lemma triple_ret_inv: "triple (work_inv E ev) (ret x) (\<lambda>_. work_inv E ev) R" "triple (work_checked E ev) (ret x) (\<lambda>_. work_inv E ev) R"
  by (simp_all add: triple_def ret_def work_checked_def)

lemma triple_lift_inv:
  "triple (work_inv E ev) (lift r) (\<lambda>_. work_inv E ev) (\<lambda>_. work_inv E ev)"
  "triple (work_checked E ev) (lift r) (\<lambda>_. work_checked E ev) (\<lambda>_. work_inv E ev)"
  by (auto simp: triple_def lift_def work_checked_def split: sum.split)

text \<open>What \<open>current\<close> throws leaves a cause behind.\<close>

definition work_stopped :: "worker_env \<Rightarrow> notification \<Rightarrow> worker \<Rightarrow> bool" where
  "work_stopped E ev s \<longleftrightarrow> work_inv E ev s \<and> lost_cause E (wk_trace s)"

lemma lose_stopped: "work_stopped E ev s \<Longrightarrow> work_stopped E ev (s\<lparr>wk_lost := True\<rparr>)"
  by (simp add: work_stopped_def work_inv_def)

lemma triple_lose: "(\<And>s. P s \<Longrightarrow> work_stopped E ev s) \<Longrightarrow> triple P lose Q (\<lambda>_. work_stopped E ev)"
  by (simp add: triple_def lose_def lose_stopped)

lemma asked_trace:
  assumes "tame (we_others E)"
  shows "wk_trace (ask_state E e s) = wk_trace s @ [e]" "wk_step (ask_state E e s) = Suc (wk_step s)"
    "cw_event (wk_work (ask_state E e s)) = cw_event (wk_work s)"
  using tame_keeps [OF assms] by simp_all

lemma stopped_inv: "work_stopped E ev s \<Longrightarrow> work_inv E ev s"
  by (simp add: work_stopped_def)

text \<open>A call of the gate: it stays in the trace with its answer, and one that is no pass is a cause.\<close>

lemma asked_inv:
  assumes "tame (we_others E)" "work_inv E ev s" "\<not> gated_kind e"
  shows "work_inv E ev (ask_state E e s)"
  using work_inv_ask [OF assms(1,2)] assms(3) prompt_is_gated by blast

lemma asked_stopped:
  assumes "tame (we_others E)" "work_inv E ev s" "work_inv E ev (ask_state E e s)" "lost_at E e (wk_step s)"
  shows "work_stopped E ev (ask_state E e s)"
proof -
  have "lost_cause E (wk_trace s @ [e])"
    using assms(2,4) unfolding lost_cause_def work_inv_def by (intro disjI1 exI [where x = "length (wk_trace s)"]) simp
  then show ?thesis using assms(3) asked_trace [OF assms(1)] by (simp add: work_stopped_def)
qed

lemma stale_stopped: "work_inv E ev s \<Longrightarrow> \<not> app_current E s \<Longrightarrow> work_stopped E ev s"
  by (auto simp: work_stopped_def work_inv_def app_current_def lost_cause_def)

lemma lost_stopped: "work_inv E ev s \<Longrightarrow> wk_lost s \<Longrightarrow> work_stopped E ev s"
  by (simp add: work_stopped_def work_inv_def)

definition work_renewed :: "worker_env \<Rightarrow> notification \<Rightarrow> worker \<Rightarrow> bool" where
  "work_renewed E ev s \<longleftrightarrow> work_inv E ev s \<and> (\<exists>tr w0. wk_trace s = tr @ [E_renew w0] \<and> cw_event w0 = ev \<and>
     we_renew E (length tr) = Inr (Some (cw_ownership (wk_work s))) \<and> we_app E (length tr) \<and> we_app E (Suc (length tr)))"

lemma gate_passed:
  assumes "work_renewed E ev s" "tame (we_others E)" "we_check E (wk_step s) = Inr True" "app_current E (ask_state E (E_check (wk_work s)) s)"
  shows "work_checked E ev (ask_state E (E_check (wk_work s)) s)"
proof -
  obtain tr w0 where tr: "wk_trace s = tr @ [E_renew w0]" "cw_event w0 = ev"
    "we_renew E (length tr) = Inr (Some (cw_ownership (wk_work s)))" "we_app E (length tr)" "we_app E (Suc (length tr))"
    and inv: "work_inv E ev s"
    using assms(1) unfolding work_renewed_def by blast
  have n: "wk_step s = Suc (length tr)" "cw_event (wk_work s) = ev" using inv tr(1) by (simp_all add: work_inv_def)
  have "we_app E (Suc (Suc (length tr)))" using assms(4) unfolding app_current_def asked_trace(2) [OF assms(2)] by (simp add: n)
  then have "gate_at E ev (tr @ [E_renew w0, E_check (wk_work s)]) (Suc (Suc (length tr)))"
    using tr assms(3) n by (simp add: gate_at_def nth_append)
  moreover have "work_inv E ev (ask_state E (E_check (wk_work s)) s)" by (rule asked_inv [OF assms(2) inv]) simp
  ultimately show ?thesis unfolding work_checked_def asked_trace(1) [OF assms(2)] by (simp add: tr(1))
qed

lemma triple_check_gate:
  assumes t: "tame (we_others E)"
  shows "triple (work_renewed E ev) (check_gate E) (\<lambda>_. work_checked E ev) (\<lambda>_. work_stopped E ev)"
proof (unfold check_gate_def, rule triple_state)
  fix s0
  let ?P = "\<lambda>ok s. work_inv E ev s \<and> (ok \<longrightarrow> app_current E s \<longrightarrow> work_checked E ev s) \<and> (\<not> ok \<longrightarrow> work_stopped E ev s)"
  have "triple (\<lambda>s. work_renewed E ev s \<and> s = s0) (ask E (E_check (wk_work s0)) (we_check E)) ?P (\<lambda>_. work_stopped E ev)"
  proof (rule triple_ask)
    fix s r s'
    assume s: "work_renewed E ev s \<and> s = s0" "s' = ask_state E (E_check (wk_work s0)) s" "r = we_check E (wk_step s)"
    from s(1) have pre: "work_inv E ev s" unfolding work_renewed_def by blast
    have inv: "work_inv E ev s'" unfolding s(2) by (rule asked_inv [OF t pre]) simp
    have stop: "work_stopped E ev s'" if "r \<noteq> Inr True"
      unfolding s(2) by (rule asked_stopped [OF t pre inv [unfolded s(2)]]) (use that s(3) in \<open>auto simp: lost_at_def\<close>)
    have pass: "app_current E s' \<longrightarrow> work_checked E ev s'" if "r = Inr True"
      using gate_passed [of E ev s] s that t by metis
    show "(\<forall>x. r = Inr x \<longrightarrow> ?P x s') \<and> (\<forall>c. r = Inl c \<longrightarrow> work_stopped E ev s')"
      using inv stop pass by (intro conjI allI impI) auto
  qed
  then show "triple (\<lambda>s. work_renewed E ev s \<and> s = s0) (seq (ask E (E_check (wk_work s0)) (we_check E)) (\<lambda>ok.
      with_state (\<lambda>s. if \<not> ok \<or> \<not> app_current E s then lose else ret ()))) (\<lambda>_. work_checked E ev) (\<lambda>_. work_stopped E ev)"
    by (rule triple_seq)
      (rule triple_state, rule triple_if, rule triple_lose, use stale_stopped in blast, rule triple_ret, blast)
qed

lemma triple_current_stops:
  assumes t: "tame (we_others E)"
  shows "triple (work_inv E ev) (current E) (\<lambda>_. work_checked E ev) (\<lambda>_. work_stopped E ev)"
proof (unfold current_def, rule triple_state, rule triple_if)
  fix s0
  show "triple (\<lambda>s. work_inv E ev s \<and> s = s0) (throw Lease_lost) (\<lambda>_. work_checked E ev) (\<lambda>_. work_stopped E ev)"
    if "wk_lost s0 \<or> \<not> app_current E s0"
    using that lost_stopped stale_stopped by (auto simp: triple_def throw_def)
next
  fix s0
  assume live: "\<not> (wk_lost s0 \<or> \<not> app_current E s0)"
  let ?R = "\<lambda>r s. (\<exists>tr. wk_trace s = tr @ [E_renew (wk_work s0)] \<and> (r = None \<longrightarrow> work_stopped E ev s) \<and> we_app E (length tr) \<and>
      cw_event (wk_work s0) = ev \<and> we_renew E (length tr) = Inr r) \<and> work_inv E ev s"
  have ask: "triple (\<lambda>s. work_inv E ev s \<and> s = s0) (ask E (E_renew (wk_work s0)) (we_renew E)) ?R (\<lambda>_. work_stopped E ev)"
  proof (rule triple_ask)
    fix s r s'
    assume s: "work_inv E ev s \<and> s = s0" "s' = ask_state E (E_renew (wk_work s0)) s" "r = we_renew E (wk_step s)"
    have inv: "work_inv E ev s'" unfolding s(2) by (rule asked_inv [OF t]) (use s in auto)
    have stop: "work_stopped E ev s'" if "\<not> (\<exists>ow. r = Inr (Some ow))"
      unfolding s(2) by (rule asked_stopped [OF t _ inv [unfolded s(2)]]) (use s that in \<open>auto simp: lost_at_def\<close>)
    have tr: "wk_trace s' = wk_trace s0 @ [E_renew (wk_work s0)]" "cw_event (wk_work s0) = ev" "wk_step s0 = length (wk_trace s0)"
      using s asked_trace [OF t] by (auto simp: work_inv_def)
    have "?R x s'" if "r = Inr x" for x
      using that tr inv stop live s by (intro conjI exI [where x = "wk_trace s0"]) (auto simp: app_current_def)
    then show "(\<forall>x. r = Inr x \<longrightarrow> ?R x s') \<and> (\<forall>c. r = Inl c \<longrightarrow> work_stopped E ev s')" using stop by auto
  qed
  have gate: "triple (\<lambda>s. ?R (Some ow) s \<and> \<not> wk_lost s \<and> app_current E s)
      (seq (modify (\<lambda>s. s\<lparr>wk_work := (wk_work s)\<lparr>cw_ownership := ow\<rparr>\<rparr>)) (\<lambda>_. check_gate E))
      (\<lambda>_. work_checked E ev) (\<lambda>_. work_stopped E ev)" for ow
    by (rule triple_seq [OF triple_modify triple_check_gate [OF t]])
      (auto simp: work_renewed_def work_inv_def app_current_def)
  show "triple (\<lambda>s. work_inv E ev s \<and> s = s0) (seq (ask E (E_renew (wk_work s0)) (we_renew E)) (\<lambda>renewed.
      with_state (\<lambda>s. case renewed of None \<Rightarrow> lose | Some ow \<Rightarrow> if wk_lost s \<or> \<not> app_current E s then lose
        else seq (modify (\<lambda>s. s\<lparr>wk_work := (wk_work s)\<lparr>cw_ownership := ow\<rparr>\<rparr>)) (\<lambda>_. check_gate E))))
      (\<lambda>_. work_checked E ev) (\<lambda>_. work_stopped E ev)"
  proof (rule triple_seq [OF ask], rule triple_state, rule triple_option)
    fix x s1
    show "triple (\<lambda>s. ?R x s \<and> s = s1) lose (\<lambda>_. work_checked E ev) (\<lambda>_. work_stopped E ev)" if "x = None"
      using that by (intro triple_lose) auto
    show "triple (\<lambda>s. ?R x s \<and> s = s1) (if wk_lost s1 \<or> \<not> app_current E s1 then lose
        else seq (modify (\<lambda>s. s\<lparr>wk_work := (wk_work s)\<lparr>cw_ownership := ow\<rparr>\<rparr>)) (\<lambda>_. check_gate E))
        (\<lambda>_. work_checked E ev) (\<lambda>_. work_stopped E ev)" if "x = Some ow" for ow
      using that lost_stopped stale_stopped
      by (intro triple_if triple_lose triple_weaken [OF gate [of ow]]) auto
  qed
qed

lemma triple_current:
  assumes "tame (we_others E)"
  shows "triple (work_inv E ev) (current E) (\<lambda>_. work_checked E ev) (\<lambda>_. work_inv E ev)"
  by (rule triple_weaken [OF triple_current_stops [OF assms]]) (auto simp: stopped_inv)

lemma seq_modify:
  assumes "\<And>s. P s \<Longrightarrow> P' (f s)" "triple P' m Q R"
  shows "triple P (seq (modify f) (\<lambda>_. m)) Q R"
  by (rule triple_seq [OF triple_modify assms(2)]) (rule assms(1))

lemma seq_current:
  assumes "tame (we_others E)" "triple (work_checked E ev) m Q (\<lambda>_. work_inv E ev)"
  shows "triple (work_inv E ev) (seq (current E) (\<lambda>_. m)) Q (\<lambda>_. work_inv E ev)"
  by (rule triple_seq [OF triple_current [OF assms(1)] assms(2)])

lemma seq_plain:
  assumes "tame (we_others E)" "\<not> gated_kind e" "\<And>x. triple (work_inv E ev) (f x) Q (\<lambda>_. work_inv E ev)"
  shows "triple (work_inv E ev) (seq (ask E e a) f) Q (\<lambda>_. work_inv E ev)"
  by (rule triple_seq [OF triple_ask_plain [OF assms(1,2)] assms(3)])

lemma seq_gated:
  assumes "tame (we_others E)" "\<not> is_prompt e" "\<And>x. triple (work_inv E ev) (f x) Q (\<lambda>_. work_inv E ev)"
  shows "triple (work_checked E ev) (seq (ask E e a) f) Q (\<lambda>_. work_inv E ev)"
  by (rule triple_seq [OF triple_ask_gated [OF assms(1,2)] assms(3)])

lemma triple_seq_lift:
  "(\<And>x. triple (work_inv E ev) (f x) Q (\<lambda>_. work_inv E ev)) \<Longrightarrow> triple (work_inv E ev) (seq (lift r) f) Q (\<lambda>_. work_inv E ev)"
  "(\<And>x. triple (work_checked E ev) (f x) Q (\<lambda>_. work_inv E ev)) \<Longrightarrow> triple (work_checked E ev) (seq (lift r) f) Q (\<lambda>_. work_inv E ev)"
  by (rule triple_seq [OF triple_lift_inv(1)], blast) (rule triple_seq [OF triple_lift_inv(2)], blast)

lemma triple_set_reason: "triple (work_inv E ev) (set_reason r) (\<lambda>_. work_inv E ev) (\<lambda>_. work_inv E ev)"
  by (simp add: set_reason_def triple_def modify_def work_inv_def)

lemma triple_drop_check: "triple (work_inv E ev) m Q R \<Longrightarrow> triple (work_checked E ev) m Q R"
  by (auto simp: triple_def work_checked_def)

text \<open>A completion counts only when the very call that ends the trace was answered yes.\<close>

definition completed_end :: "worker_env \<Rightarrow> notification \<Rightarrow> effect list \<Rightarrow> bool" where
  "completed_end E ev tr \<longleftrightarrow>
     (\<exists>pre w p. tr = pre @ [E_complete w p] \<and> cw_event w = ev \<and> we_bool E (length pre) = Inr True)"

definition completed :: "worker_env \<Rightarrow> notification \<Rightarrow> worker \<Rightarrow> bool" where
  "completed E ev s \<longleftrightarrow> work_inv E ev s \<and> completed_end E ev (wk_trace s)"

lemma triple_complete:
  assumes t: "tame (we_others E)"
  shows "triple (work_checked E ev) (complete_work E p) (\<lambda>_. completed E ev) (\<lambda>_. work_inv E ev)"
proof (unfold complete_work_def, rule triple_state)
  fix s0
  assume s0: "work_checked E ev s0"
  let ?Q = "\<lambda>ok s. work_inv E ev s \<and> (ok \<longrightarrow> completed E ev s)"
  have "triple (\<lambda>s. work_checked E ev s \<and> s = s0) (ask E (E_complete (wk_work s0) p) (we_bool E)) ?Q (\<lambda>_. work_inv E ev)"
  proof (rule triple_ask)
    fix s r s'
    assume "work_checked E ev s \<and> s = s0" and s': "s' = ask_state E (E_complete (wk_work s0) p) s" and r: "r = we_bool E (wk_step s)"
    then have s: "s = s0" by simp
    have inv: "work_inv E ev s'"
      unfolding s' s using s0 by (intro work_inv_ask [OF t]) (auto simp: work_checked_def is_prompt_def)
    have "wk_trace s' = wk_trace s0 @ [E_complete (wk_work s0) p]" unfolding s' s by (rule asked_trace(1) [OF t])
    then have "r = Inr True \<longrightarrow> completed E ev s'"
      using inv r s s0 unfolding completed_def completed_end_def work_checked_def work_inv_def by auto
    then show "(\<forall>x. r = Inr x \<longrightarrow> ?Q x s') \<and> (\<forall>c. r = Inl c \<longrightarrow> work_inv E ev s')" using inv by auto
  qed
  then show "triple (\<lambda>s. work_checked E ev s \<and> s = s0)
      (seq (ask E (E_complete (wk_work s0) p) (we_bool E)) (\<lambda>ok. if ok then ret () else throw Lease_lost))
      (\<lambda>_. completed E ev) (\<lambda>_. work_inv E ev)"
    by (rule triple_seq) (auto intro!: triple_if triple_ret triple_throw)
qed

lemma triple_existing:
  assumes t: "tame (we_others E)"
  shows "triple (work_inv E ev) (existing_marker E st found) (\<lambda>_. completed E ev) (\<lambda>_. work_inv E ev)"
  unfolding existing_marker_def
  by (rule triple_seq_lift, rule triple_state, rule triple_at, rule triple_seq_lift,
      rule seq_current [OF t], rule triple_complete [OF t])

text \<open>The prompt: only after a begun turn, and only when none came before.\<close>

definition begun :: "worker_env \<Rightarrow> notification \<Rightarrow> worker \<Rightarrow> bool" where
  "begun E ev s \<longleftrightarrow> work_inv E ev s \<and> begun_in E (wk_trace s) (length (wk_trace s))"

lemma begun_inv: "begun E ev s \<Longrightarrow> work_inv E ev s"
  by (simp add: begun_def)

lemma begun_in_longer: "begun_in E tr (length tr) \<Longrightarrow> begun_in E (tr @ xs) (length (tr @ xs))"
  by (rule begun_in_mono [of _ _ "length tr"]) (simp_all add: begun_in_append)

lemma current_extends:
  assumes "tame (we_others E)" "current E s = (r, s')"
  shows "\<exists>xs. wk_trace s' = wk_trace s @ xs"
  using assms(2) tame_keeps(1) [OF assms(1)]
  by (auto simp: current_def with_state_def throw_def seq_def ask_def lose_def modify_def check_gate_def ret_def
      split: if_splits sum.splits option.splits)

text \<open>The gate of a begun turn is the same gate; the beginning stays in the trace.\<close>

lemma triple_begun_current:
  assumes t: "tame (we_others E)"
  shows "triple (begun E ev) (current E) (\<lambda>_ s. begun E ev s \<and> work_checked E ev s) (\<lambda>_. begun E ev)"
proof (rule tripleI)
  fix s x s'
  assume s: "begun E ev s" "current E s = (Inr x, s')"
  have "work_checked E ev s'" by (rule triple_Inr [OF triple_current [OF t] begun_inv [OF s(1)] s(2)])
  then show "begun E ev s' \<and> work_checked E ev s'"
    using current_extends [OF t s(2)] s(1) begun_in_longer unfolding begun_def work_checked_def by metis
next
  fix s e s'
  assume s: "begun E ev s" "current E s = (Inl e, s')"
  have "work_inv E ev s'" by (rule triple_Inl [OF triple_current [OF t] begun_inv [OF s(1)] s(2)])
  then show "begun E ev s'"
    using current_extends [OF t s(2)] s(1) begun_in_longer unfolding begun_def by metis
qed

lemma prompt_asked:
  assumes t: "tame (we_others E)" and s: "begun E ev s" "work_checked E ev s" "\<not> list_ex is_prompt (wk_trace s)" "wk_prompted s"
  shows "begun E ev (ask_state E (E_prompt (cw_event (wk_work s))) s)"
proof -
  let ?e = "E_prompt (cw_event (wk_work s))"
  have g: "gated E ev (wk_trace s @ [?e])"
    using s by (intro gated.effect) (auto simp: begun_def work_checked_def work_inv_def)
  have l: "wk_lost (ask_state E ?e s) \<longrightarrow> lost_cause E (wk_trace s @ [?e])"
    using begun_inv [OF s(1)] asked_lost unfolding work_inv_def by blast
  have "work_inv E ev (ask_state E ?e s)"
    using g l begun_inv [OF s(1)] s(4) tame_keeps [OF t] by (simp add: work_inv_def)
  then show ?thesis
    using s(1) begun_in_longer unfolding begun_def asked_trace(1) [OF t] by blast
qed

lemma triple_prompt:
  assumes t: "tame (we_others E)"
  shows "triple (begun E ev) (prompt_once E) (\<lambda>_. begun E ev) (\<lambda>_. begun E ev)"
proof (unfold prompt_once_def, rule triple_state, rule triple_if)
  fix s0 :: worker
  let ?P = "\<lambda>s. begun E ev s \<and> work_checked E ev s \<and> \<not> list_ex is_prompt (wk_trace s)"
  assume fresh: "\<not> wk_prompted s0"
  have gate: "triple (\<lambda>s. begun E ev s \<and> s = s0) (current E) (\<lambda>_. ?P) (\<lambda>_. begun E ev)"
  proof (rule tripleI)
    fix s x s'
    assume s: "begun E ev s \<and> s = s0" and run: "current E s = (Inr x, s')"
    have c: "begun E ev s' \<and> work_checked E ev s'" using triple_Inr [OF triple_begun_current [OF t] _ run] s by blast
    moreover have "\<not> wk_prompted s'" using current_work [OF t run] fresh s by simp
    ultimately show "?P s'" unfolding work_checked_def work_inv_def by blast
  qed (use triple_Inl [OF triple_begun_current [OF t]] in blast)
  have go: "triple (\<lambda>s. ?P s \<and> wk_prompted s) (with_state (\<lambda>s. ask E (E_prompt (cw_event (wk_work s))) (we_unit E)))
      (\<lambda>_. begun E ev) (\<lambda>_. begun E ev)"
    by (rule triple_state, rule triple_ask) (use prompt_asked [OF t] in blast)
  show "triple (\<lambda>s. begun E ev s \<and> s = s0) (seq (current E) (\<lambda>_. seq (modify (\<lambda>s. s\<lparr>wk_prompted := True\<rparr>)) (\<lambda>_.
      with_state (\<lambda>s. ask E (E_prompt (cw_event (wk_work s))) (we_unit E))))) (\<lambda>_. begun E ev) (\<lambda>_. begun E ev)"
    by (rule triple_seq [OF gate], rule seq_modify [OF _ go])
      (auto simp: begun_def work_checked_def work_inv_def)
qed (simp add: triple_def throw_def)

lemma triple_port:
  assumes t: "tame (we_others E)"
  shows "triple (begun E ev) (run_port E cs) (\<lambda>_. begun E ev) (\<lambda>_. begun E ev)"
proof (induction cs)
  case Nil
  show ?case by (simp add: triple_def ret_def)
next
  case (Cons x cs)
  have gate: "triple (begun E ev) (current E) (\<lambda>_. begun E ev) (\<lambda>_. begun E ev)"
    by (rule triple_weaken [OF triple_begun_current [OF t]]) auto
  have caught: "triple (begun E ev) (catch (prompt_once E) (\<lambda>_. ret ())) (\<lambda>_. begun E ev) (\<lambda>_. begun E ev)"
    by (rule triple_catch [OF triple_prompt [OF t]]) (simp add: triple_def ret_def)
  show ?case
  proof (cases x)
    case Call_current
    then show ?thesis using triple_seq [OF gate] Cons.IH by simp
  next
    case Call_prompt
    then show ?thesis using triple_seq [OF triple_prompt [OF t]] Cons.IH by simp
  next
    case Call_prompt_caught
    then show ?thesis using triple_seq [OF caught] Cons.IH by simp
  next
    case (Call_fail e)
    then show ?thesis by (simp add: triple_def throw_def)
  qed
qed

lemma triple_turn:
  assumes t: "tame (we_others E)"
  shows "triple (work_inv E ev) (turn_effects E) (\<lambda>_. work_inv E ev) (\<lambda>_. work_inv E ev)"
proof -
  have after: "triple (begun E ev) (seq (set_reason P_mutation_uncertain) (\<lambda>_.
      with_state (\<lambda>s. seq (run_port E (we_port E (wk_step s))) (\<lambda>_. ask E (E_after pr) (we_unit E))))) (\<lambda>_. work_inv E ev) (\<lambda>_. work_inv E ev)" for pr
  proof -
    have reason: "triple (begun E ev) (set_reason P_mutation_uncertain) (\<lambda>_. begun E ev) (\<lambda>_. work_inv E ev)"
      by (simp add: set_reason_def triple_def modify_def begun_def work_inv_def)
    have port: "triple (begun E ev) (run_port E cs) (\<lambda>_. work_inv E ev) (\<lambda>_. work_inv E ev)" for cs
      by (rule triple_weaken [OF triple_port [OF t]]) (auto simp: begun_inv)
    have "triple (work_inv E ev) (ask E (E_after pr) (we_unit E)) (\<lambda>_. work_inv E ev) (\<lambda>_. work_inv E ev)"
      by (rule triple_ask_plain [OF t]) simp
    then show ?thesis
      by (intro triple_seq [OF reason] triple_state triple_at triple_seq [OF port])
  qed
  have start: "triple (\<lambda>s. work_checked E ev s \<and> s = s0) (ask E (E_begin (wk_work s0)) (we_bool E))
      (\<lambda>ok s. work_inv E ev s \<and> (ok \<longrightarrow> begun E ev s)) (\<lambda>_. work_inv E ev)" for s0
  proof (rule triple_ask)
    fix s r s'
    assume s: "work_checked E ev s \<and> s = s0" "s' = ask_state E (E_begin (wk_work s0)) s" "r = we_bool E (wk_step s)"
    have inv: "work_inv E ev s'"
      unfolding s(2) using s(1) by (intro work_inv_ask [OF t]) (auto simp: work_checked_def is_prompt_def)
    have "begun_in E (wk_trace s @ [E_begin (wk_work s0)]) (Suc (length (wk_trace s)))" if "r = Inr True"
      using that s by (auto simp: begun_in_def is_begin_def work_checked_def work_inv_def intro!: exI [where x = "length (wk_trace s)"])
    then have "begun E ev s'" if "r = Inr True"
      using that inv unfolding begun_def s(2) asked_trace(1) [OF t] by simp
    then show "(\<forall>x. r = Inr x \<longrightarrow> work_inv E ev s' \<and> (x \<longrightarrow> begun E ev s')) \<and> (\<forall>c. r = Inl c \<longrightarrow> work_inv E ev s')"
      using inv by auto
  qed
  show ?thesis
    unfolding turn_effects_def
    by (rule triple_seq [OF triple_set_reason], rule seq_plain [OF t], simp, rule seq_current [OF t],
        rule triple_state, rule triple_seq [OF start], rule triple_if, simp add: triple_def throw_def,
        rule triple_weaken [OF after]) simp_all
qed

lemma triple_finish:
  assumes t: "tame (we_others E)"
  shows "triple (work_inv E ev) (finish_work E own) (\<lambda>_. completed E ev) (\<lambda>_. work_inv E ev)"
  unfolding finish_work_def
  by (rule seq_current [OF t], rule triple_drop_check, rule seq_plain [OF t], simp, rule seq_current [OF t],
      rule triple_state, rule triple_at, rule triple_seq_lift, rule seq_gated [OF t], simp add: is_prompt_def,
      rule seq_current [OF t], rule triple_complete [OF t])

lemma triple_bind:
  assumes t: "tame (we_others E)"
  shows "triple (work_checked E ev) (bind_session E st b) (\<lambda>_. work_inv E ev) (\<lambda>_. work_inv E ev)"
  unfolding bind_session_def
  by (rule triple_state, rule triple_at, rule triple_if, rule triple_throw_inv, rule seq_gated [OF t],
      simp add: is_prompt_def, rule triple_if, rule triple_ret_inv, rule triple_throw_inv)

lemma triple_open:
  assumes t: "tame (we_others E)"
  shows "triple (work_inv E ev) (open_session E st) (\<lambda>_. work_inv E ev) (\<lambda>_. work_inv E ev)"
  unfolding open_session_def
  by (rule seq_current [OF t], rule triple_state, rule triple_at, rule seq_gated [OF t], simp add: is_prompt_def,
      rule seq_modify [where P' = "work_inv E ev"], simp add: work_inv_def, rule seq_current [OF t],
      rule triple_seq [OF triple_bind [OF t]], rule seq_current [OF t], rule seq_gated [OF t], simp add: is_prompt_def,
      rule seq_current [OF t], rule triple_ask_gated [OF t], simp add: is_prompt_def)

lemma triple_own:
  assumes t: "tame (we_others E)"
  shows "triple (work_inv E ev) (own_event E) (\<lambda>_. work_inv E ev) (\<lambda>_. work_inv E ev)"
  unfolding own_event_def
  by (rule triple_state, rule triple_at, rule triple_if, rule triple_ask_plain [OF t], simp, rule triple_ret_inv)

lemma triple_fresh:
  assumes t: "tame (we_others E)"
  shows "triple (work_inv E ev) (fresh_event E st) (\<lambda>_. completed E ev) (\<lambda>_. work_inv E ev)"
  unfolding fresh_event_def
  by (rule seq_plain [OF t], simp, rule triple_if, rule triple_throw_inv, rule seq_plain [OF t], simp,
      rule triple_if, rule triple_throw_inv, rule triple_if, rule triple_throw_inv,
      rule triple_seq [OF triple_own [OF t]], rule triple_if, rule triple_throw_inv,
      rule triple_seq [OF triple_open [OF t]], rule triple_seq [where Q = "\<lambda>_. work_inv E ev"],
      rule triple_if, rule triple_turn [OF t], rule triple_ret_inv, rule triple_finish [OF t])

lemma triple_body:
  assumes t: "tame (we_others E)"
  shows "triple (work_inv E ev) (worker_body E) (\<lambda>_. completed E ev) (\<lambda>_. work_inv E ev)"
  unfolding worker_body_def
  by (rule seq_current [OF t], rule triple_drop_check, rule seq_plain [OF t], simp, rule triple_state, rule triple_at,
      rule triple_if, rule triple_throw_inv, rule seq_plain [OF t], simp, rule triple_option, rule triple_fresh [OF t],
      rule triple_existing [OF t])

section \<open>The whole run\<close>

text \<open>The other three ends. A pause was asked for the event and answered (a refusal of the answer is ignored by the code: the
lease was superseded then, and the reason emitted is the one of the pause, or the loss).\<close>

definition paused_end :: "worker_env \<Rightarrow> notification \<Rightarrow> effect list \<Rightarrow> bool" where
  "paused_end E ev tr \<longleftrightarrow> (\<exists>pre w r b r'. tr = pre @ [E_pause w r, E_emit r'] \<and> cw_event w = ev \<and>
     we_bool E (length pre) = Inr b \<and> (r' = r \<or> r' = P_lease_lost))"

definition lost_end :: "worker_env \<Rightarrow> effect list \<Rightarrow> bool" where
  "lost_end E tr \<longleftrightarrow> (\<exists>pre. tr = pre @ [E_emit P_lease_lost] \<and> lost_cause E pre)"

definition stale_end :: "worker_env \<Rightarrow> effect list \<Rightarrow> bool" where
  "stale_end E tr \<longleftrightarrow> (\<exists>pre r. tr = pre @ [E_emit r] \<and> \<not> we_app E (length pre))"

definition work_decided :: "worker_env \<Rightarrow> notification \<Rightarrow> effect list \<Rightarrow> bool" where
  "work_decided E ev tr \<longleftrightarrow> completed_end E ev tr \<or> paused_end E ev tr \<or> lost_end E tr \<or> stale_end E tr"

definition work_pausing :: "worker_env \<Rightarrow> notification \<Rightarrow> worker \<Rightarrow> bool" where
  "work_pausing E ev s \<longleftrightarrow> work_inv E ev s \<and> (wk_lost s \<or> (\<exists>pre w b. wk_trace s = pre @ [E_pause w (wk_reason s)] \<and>
     cw_event w = ev \<and> we_bool E (length pre) = Inr b))"

lemma pause_asked:
  assumes t: "tame (we_others E)" and s: "work_checked E ev s" "s' = ask_state E (E_pause (wk_work s) (wk_reason s)) s"
  shows "we_bool E (wk_step s) = Inr b \<Longrightarrow> work_pausing E ev s'" "we_bool E (wk_step s) = Inl c \<Longrightarrow> work_stopped E ev s'"
proof -
  have inv: "work_inv E ev s'"
    unfolding s(2) using s(1) by (intro work_inv_ask [OF t]) (auto simp: work_checked_def is_prompt_def)
  have pre: "work_inv E ev s" using s(1) by (simp add: work_checked_def)
  have tr: "wk_trace s' = wk_trace s @ [E_pause (wk_work s) (wk_reason s')]"
    unfolding s(2) using tame_keeps(1,6) [OF t] by simp
  show "work_pausing E ev s'" if "we_bool E (wk_step s) = Inr b"
    using that inv tr pre unfolding work_pausing_def work_inv_def by metis
  show "work_stopped E ev s'" if "we_bool E (wk_step s) = Inl c"
    unfolding s(2) by (rule asked_stopped [OF t pre inv [unfolded s(2)]]) (use that in \<open>auto simp: lost_at_def\<close>)
qed

lemma triple_pause:
  assumes t: "tame (we_others E)"
  shows "triple (work_inv E ev) (pause_work E) (\<lambda>_. work_pausing E ev) (\<lambda>_ _. False)"
proof -
  have "triple (\<lambda>s. work_checked E ev s \<and> s = s0) (ask E (E_pause (wk_work s0) (wk_reason s0)) (we_bool E))
      (\<lambda>_. work_pausing E ev) (\<lambda>_. work_stopped E ev)" for s0
    by (rule triple_ask) (use pause_asked [OF t] in metis)
  then have ask: "triple (work_checked E ev) (with_state (\<lambda>s. seq (ask E (E_pause (wk_work s) (wk_reason s)) (we_bool E)) (\<lambda>_. ret ())))
      (\<lambda>_. work_pausing E ev) (\<lambda>_. work_stopped E ev)"
    by (intro triple_state triple_seq [where Q = "\<lambda>_. work_pausing E ev"] triple_ret)
  show ?thesis
    unfolding pause_work_def
    by (rule triple_catch [OF triple_seq [OF triple_current_stops [OF t] ask]], rule triple_modify)
      (auto simp: work_pausing_def dest: lose_stopped stopped_inv)
qed

lemma gated_snoc_plain: "gated E ev tr \<Longrightarrow> \<not> gated_kind e \<Longrightarrow> gated E ev (tr @ [e])"
  using prompt_is_gated by (auto intro: gated.effect)

lemma emit_inv: "work_inv E ev s \<Longrightarrow> work_inv E ev (s\<lparr>wk_trace := wk_trace s @ [E_emit r], wk_step := Suc (wk_step s)\<rparr>)"
  using lost_cause_append [of E "wk_trace s" "[E_emit r]"] by (auto simp: work_inv_def is_prompt_def intro: gated_snoc_plain)

lemma triple_failure:
  assumes t: "tame (we_others E)"
  shows "triple (work_inv E ev) (on_failure E e) (\<lambda>_ s. work_inv E ev s \<and> work_decided E ev (wk_trace s)) (\<lambda>_ _. False)"
proof -
  let ?P = "\<lambda>s. work_pausing E ev s \<or> (work_inv E ev s \<and> \<not> app_current E s)"
  have reason: "triple (work_inv E ev) (case pause_of_error e of Some r \<Rightarrow> set_reason r | None \<Rightarrow> ret ()) (\<lambda>_. work_inv E ev) (\<lambda>_ _. False)"
    by (rule triple_option) (simp_all add: triple_def ret_def set_reason_def modify_def work_inv_def)
  have pause: "triple (work_inv E ev) (with_state (\<lambda>s. if \<not> wk_lost s \<and> app_current E s then pause_work E else ret ())) (\<lambda>_. ?P) (\<lambda>_ _. False)"
    by (rule triple_state, rule triple_if, rule triple_weaken [OF triple_pause [OF t]])
      (auto simp: triple_def ret_def work_pausing_def)
  have emit: "triple ?P emit_final (\<lambda>_ s. work_inv E ev s \<and> work_decided E ev (wk_trace s)) (\<lambda>_ _. False)"
  proof (unfold emit_final_def emit_class_def, rule triple_state, rule triple_modify)
    fix s0 s
    assume s: "?P s \<and> s = s0"
    let ?r = "if wk_lost s0 then P_lease_lost else wk_reason s0"
    have inv: "work_inv E ev s" using s by (auto simp: work_pausing_def)
    have "work_decided E ev (wk_trace s @ [E_emit ?r])"
    proof (cases "wk_lost s")
      case True
      then have "lost_end E (wk_trace s @ [E_emit ?r])" using inv s by (auto simp: lost_end_def work_inv_def)
      then show ?thesis by (simp add: work_decided_def)
    next
      case False
      show ?thesis
      proof (cases "app_current E s")
        case True
        then obtain pre w b where "wk_trace s = pre @ [E_pause w (wk_reason s)]" "cw_event w = ev" "we_bool E (length pre) = Inr b"
          using False s unfolding work_pausing_def by blast
        then have "paused_end E ev (wk_trace s @ [E_emit ?r])" using False s by (auto simp: paused_end_def)
        then show ?thesis by (simp add: work_decided_def)
      next
        case stale: False
        then have "stale_end E (wk_trace s @ [E_emit ?r])" using inv by (auto simp: stale_end_def work_inv_def app_current_def)
        then show ?thesis by (simp add: work_decided_def)
      qed
    qed
    then show "work_inv E ev (s\<lparr>wk_trace := wk_trace s @ [E_emit ?r], wk_step := Suc (wk_step s)\<rparr>) \<and>
        work_decided E ev (wk_trace (s\<lparr>wk_trace := wk_trace s @ [E_emit ?r], wk_step := Suc (wk_step s)\<rparr>))"
      using emit_inv [OF inv] by simp
  qed
  show ?thesis unfolding on_failure_def by (rule triple_seq [OF reason triple_seq [OF pause emit]])
qed

text \<open>After the decision only the session is disposed.\<close>

definition run_end :: "worker_env \<Rightarrow> notification \<Rightarrow> worker \<Rightarrow> bool" where
  "run_end E ev s \<longleftrightarrow> work_inv E ev s \<and> (\<exists>tr rest. wk_trace s = tr @ rest \<and> work_decided E ev tr \<and>
     rest \<in> {[], [E_dispose], [E_dispose, E_emit P_session_failed]})"

lemma triple_dispose:
  assumes t: "tame (we_others E)"
  shows "triple (\<lambda>s. work_inv E ev s \<and> work_decided E ev (wk_trace s)) (dispose_session E) (\<lambda>_. run_end E ev) (\<lambda>_ _. False)"
proof -
  let ?D = "\<lambda>s. work_inv E ev s \<and> (\<exists>tr. wk_trace s = tr @ [E_dispose] \<and> work_decided E ev tr)"
  have dispose: "triple (\<lambda>s. work_inv E ev s \<and> work_decided E ev (wk_trace s)) (ask E E_dispose (we_unit E)) (\<lambda>_. ?D) (\<lambda>_. ?D)"
    by (rule triple_ask) (use asked_inv [OF t, where e = E_dispose] asked_trace(1) [OF t] in auto)
  have emit: "triple ?D (emit_class P_session_failed) (\<lambda>_. run_end E ev) (\<lambda>_ _. False)"
    unfolding emit_class_def by (rule triple_modify) (use emit_inv in \<open>force simp: run_end_def\<close>)
  have ends: "?D s \<Longrightarrow> run_end E ev s" for s by (auto simp: run_end_def)
  show ?thesis
    unfolding dispose_session_def
    by (rule triple_state, rule triple_at, rule triple_if, rule triple_ret, force simp: run_end_def,
        rule triple_catch [OF triple_weaken [OF dispose] emit]) (use ends in blast)+
qed

lemma start_inv: "work_inv E (cw_event w) (start_work w)"
  by (simp add: work_inv_def start_work_def gated.start)

lemma run_ends:
  assumes t: "tame (we_others E)"
  shows "run_end E (cw_event w) (runChatWorker E w)"
proof -
  let ?run = "seq (catch (worker_body E) (on_failure E)) (\<lambda>_. dispose_session E)"
  let ?Q = "\<lambda>s. work_inv E (cw_event w) s \<and> work_decided E (cw_event w) (wk_trace s)"
  have body: "triple (work_inv E (cw_event w)) (worker_body E) (\<lambda>_. ?Q) (\<lambda>_. work_inv E (cw_event w))"
    by (rule triple_weaken [OF triple_body [OF t]]) (simp_all add: completed_def work_decided_def)
  have run: "triple (work_inv E (cw_event w)) ?run (\<lambda>_. run_end E (cw_event w)) (\<lambda>_ _. False)"
    by (rule triple_seq [OF triple_catch [OF body triple_failure [OF t]] triple_dispose [OF t]])
  obtain r s where r: "?run (start_work w) = (r, s)" by force
  have "run_end E (cw_event w) s"
    using triple_Inl [OF run start_inv] triple_Inr [OF run start_inv] r by (cases r) blast+
  then show ?thesis using r by (simp add: runChatWorker_def)
qed

text \<open>Every gated effect of a trace follows a gate that passed.\<close>

lemma gated_nth:
  assumes "gated E ev tr" "i < length tr" "gated_kind (tr ! i)"
  shows "gate_at E ev tr i"
  using assms
proof (induction rule: gated.induct)
  case (effect tr e)
  then show ?case by (cases "i < length tr") (auto simp: nth_append gate_at_append not_less_eq less_Suc_eq)
qed simp

lemma gated_prompts:
  "gated E ev tr \<Longrightarrow> length (filter is_prompt tr) \<le> 1 \<and>
    (\<forall>i < length tr. is_prompt (tr ! i) \<longrightarrow> tr ! i = E_prompt ev \<and> begun_in E tr i)"
proof (induction rule: gated.induct)
  case (effect tr e)
  have "length (filter is_prompt (tr @ [e])) \<le> 1"
    using effect by (auto simp: filter_empty_conv list_ex_iff)
  moreover have "(tr @ [e]) ! i = E_prompt ev \<and> begun_in E (tr @ [e]) i"
    if "i < length (tr @ [e])" "is_prompt ((tr @ [e]) ! i)" for i
    using that effect by (cases "i < length tr") (auto simp: nth_append begun_in_append less_Suc_eq)
  ultimately show ?case by blast
qed simp

text \<open>C1: stale work starts no effect and an event is prompted at most once: in every run of the worker, whatever
the repository, the host and the ports answer and whatever the renewal loop does meanwhile, each
open, attach, bind, begin, prompt, append, complete and pause comes directly after a gate that passed: the
effect two before it renewed the lease of the same event and was granted an ownership, the effect
before it checked the work with exactly that ownership and was answered yes, and the application was
current at the renewal, at the check and at the effect; at most one prompt is made, for the
claimed event and after a call that begins its turn was answered yes. Effect number i of the trace is the
call whose answer is the one of step i.\<close>

theorem effects_are_gated:
  assumes "tame (we_others E)"
  shows "wk_step (runChatWorker E w) = length (wk_trace (runChatWorker E w)) \<and>
    (\<forall>i < length (wk_trace (runChatWorker E w)). gated_kind (wk_trace (runChatWorker E w) ! i) \<longrightarrow>
      2 \<le> i \<and> (\<exists>w0 w1. wk_trace (runChatWorker E w) ! (i - 2) = E_renew w0 \<and> cw_event w0 = cw_event w \<and>
        we_renew E (i - 2) = Inr (Some (cw_ownership w1)) \<and> wk_trace (runChatWorker E w) ! (i - 1) = E_check w1 \<and>
        cw_event w1 = cw_event w \<and> we_check E (i - 1) = Inr True \<and> we_app E (i - 2) \<and> we_app E (i - 1) \<and> we_app E i)) \<and>
    length (filter is_prompt (wk_trace (runChatWorker E w))) \<le> 1 \<and>
    (\<forall>i < length (wk_trace (runChatWorker E w)). is_prompt (wk_trace (runChatWorker E w) ! i) \<longrightarrow>
      wk_trace (runChatWorker E w) ! i = E_prompt (cw_event w) \<and>
      (\<exists>j < i. is_begin (wk_trace (runChatWorker E w) ! j) \<and> we_bool E j = Inr True))"
proof -
  have "gated E (cw_event w) (wk_trace (runChatWorker E w))" "wk_step (runChatWorker E w) = length (wk_trace (runChatWorker E w))"
    using run_ends [OF assms] by (simp_all add: run_end_def work_inv_def)
  then show ?thesis
    using gated_nth gated_prompts unfolding gate_at_def begun_in_def by blast
qed

definition demo_worker_env :: worker_env where
  "demo_worker_env = \<lparr>we_app = (\<lambda>_. True), we_others = beats (\<lambda>_. undefined) (\<lambda>_. 0),
     we_renew = (\<lambda>_. Inr (Some (cw_ownership demo_claimed_work))), we_check = (\<lambda>_. Inr True),
     we_readChat = (\<lambda>_. Inr \<lparr>cst_chat = ''1@g.us'', lastCompletedSequence = 0, cst_session = None, cst_pause = None, gapSinceMs = None\<rparr>),
     we_find = (\<lambda>_. Inr None), we_own = (\<lambda>_. Inr O_none), we_turn = (\<lambda>_. Inr T_fresh), we_classify = (\<lambda>_. Inr Own_manual),
     we_open = (\<lambda>_. Inr demo_binding), we_unit = (\<lambda>_. Inr ()), we_prepare = (\<lambda>_. Inr None), we_bool = (\<lambda>_. Inr True),
     we_port = (\<lambda>_. journal_port), we_confirmed = (\<lambda>_. Inr []), we_iso = (\<lambda>_. Inr ''2026-01-01T00:00:00Z''),
     we_append = (\<lambda>_. Inr demo_proof), we_sha = (\<lambda>_. replicate 64 CHR ''a'')\<rparr>"

lemma demo_worker_tame: "tame (we_others demo_worker_env)"
proof -
  have "\<exists>ow lost. (wk_lost s \<longrightarrow> lost) \<and> s = s\<lparr>wk_work := (wk_work s)\<lparr>cw_ownership := ow\<rparr>, wk_lost := lost\<rparr>" for s :: worker
    by (intro exI [where x = "cw_ownership (wk_work s)"] exI [where x = "wk_lost s"]) simp
  then show ?thesis by (simp add: tame_def demo_worker_env_def beats_def)
qed

text \<open>The effects of that run, without the gates.\<close>

definition demo_trace :: "effect list" where
  "demo_trace = wk_trace (runChatWorker demo_worker_env demo_claimed_work)"

lemma demo_worker_answers:
  "we_app demo_worker_env n" "we_others demo_worker_env n s = s"
  "we_renew demo_worker_env n = Inr (Some (cw_ownership demo_claimed_work))" "we_check demo_worker_env n = Inr True"
  "we_readChat demo_worker_env n = Inr \<lparr>cst_chat = ''1@g.us'', lastCompletedSequence = 0, cst_session = None, cst_pause = None, gapSinceMs = None\<rparr>"
  "we_find demo_worker_env n = Inr None" "we_own demo_worker_env n = Inr O_none" "we_turn demo_worker_env n = Inr T_fresh"
  "we_open demo_worker_env n = Inr demo_binding" "we_unit demo_worker_env n = Inr ()" "we_prepare demo_worker_env n = Inr None"
  "we_bool demo_worker_env n = Inr True" "we_port demo_worker_env n = [Call_current, Call_prompt, Call_current]"
  "we_confirmed demo_worker_env n = Inr []" "we_iso demo_worker_env n = Inr ''2026-01-01T00:00:00Z''"
  "we_append demo_worker_env n = Inr demo_proof" "fingerprintEvent (we_sha demo_worker_env) demo_event = Inr demo_fp"
  using demo_fingerprint
  by (simp_all add: demo_worker_env_def beats_def journal_port_def fingerprint_def demo_world_def)

lemma demo_event_facts:
  "is_from_me demo_event = False" "canonical_chat_jid demo_event = ''1@g.us''" "chat_sequence demo_event = Suc 0"
  "sb_chat demo_binding = ''1@g.us''" "cw_event demo_claimed_work = demo_event"
  "demo_claimed_work\<lparr>cw_ownership := cw_ownership demo_claimed_work\<rparr> = demo_claimed_work"
  by (simp_all add: demo_event_def demo_binding_def demo_claimed_work_def)

lemma demo_current:
  "cw_event (wk_work s) = demo_event \<Longrightarrow> cw_streamId (wk_work s) = (2, 0) \<Longrightarrow> \<not> wk_lost s \<Longrightarrow>
   current demo_worker_env s = (Inr (), s\<lparr>wk_work := demo_claimed_work,
     wk_trace := wk_trace s @ [E_renew (wk_work s), E_check demo_claimed_work], wk_step := Suc (Suc (wk_step s))\<rparr>)"
proof -
  assume w: "cw_event (wk_work s) = demo_event" "cw_streamId (wk_work s) = (2, 0)" and live: "\<not> wk_lost s"
  have "(wk_work s)\<lparr>cw_ownership := cw_ownership demo_claimed_work\<rparr> = demo_claimed_work"
    using w by (intro claimed_work.equality) (simp_all add: demo_claimed_work_def)
  then show ?thesis
    using live by (simp add: current_def with_state_def seq_def ask_def modify_def check_gate_def ret_def app_current_def demo_worker_answers)
qed

lemma demo_run:
  "filter (\<lambda>e. \<not> is_check demo_event e \<and> (\<forall>w. e \<noteq> E_renew w)) demo_trace =
     [E_read, E_find, E_own, E_turn, E_open demo_claimed_work None, E_bind demo_claimed_work demo_binding, E_attach_host,
      E_attach_turns, E_prepare, E_begin demo_claimed_work, E_prompt demo_event, E_after False, E_confirmed,
      E_append \<lparr>cm_eventId = event_id demo_event, cm_fingerprint = demo_fp, cm_chat = ''1@g.us'', cm_sequence = 1,
        cm_completion = Turn, cm_completedAt = ''2026-01-01T00:00:00Z'', cm_sends = []\<rparr>,
      E_complete demo_claimed_work demo_proof, E_dispose]"
  unfolding demo_trace_def runChatWorker_def
  by (simp add: start_work_def worker_body_def demo_current demo_event_facts demo_worker_answers seq_def ask_def with_state_def
      fresh_event_def own_event_def ret_def open_session_def modify_def bind_session_def turn_effects_def set_reason_def
      prompt_once_def finish_work_def new_marker_def Let_def lift_def complete_work_def catch_def dispose_session_def
      is_check_def demo_claimed_work_def [THEN arg_cong [where f = cw_streamId]])

theorem effects_are_gated_witness: "length (filter is_prompt demo_trace) \<le> 1"
  unfolding demo_trace_def using effects_are_gated [OF demo_worker_tame, of demo_claimed_work] by blast

section \<open>How a run ends\<close>

text \<open>C20: no run is silently dropped: after the effect that decides it a run only disposes the session, and the
decision is one of four. The run completed: its last call was a completion of the claimed event and exactly
that call was answered yes. Or the chat was asked to pause and that very call was answered (the code does
not look at the answer: a no means that the lease was superseded). Or the lease is lost, for a
cause in the run: the renewal loop gave it up during a call, a renewal of the gate granted
nothing or failed, a check of the gate was not answered yes, the pausing call failed, or the application
was stale at a step. Or the application was stale exactly at the decision. In the last three
cases the reason was emitted, so that the next owner of the chat decides.\<close>

theorem worker_run_is_decided:
  assumes "tame (we_others E)"
  shows "\<exists>tr rest. wk_trace (runChatWorker E w) = tr @ rest \<and>
    ((\<exists>pre w1 p. tr = pre @ [E_complete w1 p] \<and> cw_event w1 = cw_event w \<and> we_bool E (length pre) = Inr True) \<or>
     (\<exists>pre w1 r b r'. tr = pre @ [E_pause w1 r, E_emit r'] \<and> cw_event w1 = cw_event w \<and>
       we_bool E (length pre) = Inr b \<and> (r' = r \<or> r' = P_lease_lost)) \<or>
     (\<exists>pre. tr = pre @ [E_emit P_lease_lost] \<and> lost_cause E pre) \<or>
     (\<exists>pre r. tr = pre @ [E_emit r] \<and> \<not> we_app E (length pre))) \<and>
    rest \<in> {[], [E_dispose], [E_dispose, E_emit P_session_failed]}"
  by (rule run_ends [OF assms, unfolded run_end_def work_decided_def completed_end_def paused_end_def lost_end_def stale_end_def,
    THEN conjunct2])

theorem worker_run_is_decided_witness:
  "\<exists>tr rest. demo_trace = tr @ rest \<and> rest \<in> {[], [E_dispose], [E_dispose, E_emit P_session_failed]}"
  unfolding demo_trace_def using worker_run_is_decided [OF demo_worker_tame, of demo_claimed_work] by (elim exE conjE) (intro exI conjI, assumption+)

section \<open>What a prompt needs\<close>

definition prompt_allowed :: "worker_env \<Rightarrow> notification \<Rightarrow> bool" where
  "prompt_allowed E ev \<longleftrightarrow> (\<exists>n. we_find E n = Inr None) \<and> (\<exists>n x. we_own E n = Inr x \<and> x \<noteq> O_uncertain) \<and>
     (\<exists>n. we_turn E n = Inr T_fresh) \<and> (is_from_me ev \<longrightarrow> (\<exists>n. we_classify E n = Inr Own_manual))"

definition unprompted :: "worker_env \<Rightarrow> notification \<Rightarrow> worker \<Rightarrow> bool" where
  "unprompted E ev s \<longleftrightarrow> cw_event (wk_work s) = ev \<and> (list_ex is_prompt (wk_trace s) \<longrightarrow> prompt_allowed E ev)"

lemma unprompted_ask:
  assumes "tame (we_others E)" "unprompted E ev s" "\<not> is_prompt e \<or> prompt_allowed E ev"
  shows "unprompted E ev (we_others E n (s\<lparr>wk_trace := wk_trace s @ [e], wk_step := m\<rparr>))"
  using assms tame_keeps(1,2) [OF assms(1)] by (auto simp: unprompted_def)

text \<open>The rules of the prefix before the prompt, remembering the answers.\<close>

definition keeps :: "worker_env \<Rightarrow> notification \<Rightarrow> 'a work_exec \<Rightarrow> bool" where
  "keeps E ev m \<longleftrightarrow> triple (unprompted E ev) m (\<lambda>_. unprompted E ev) (\<lambda>_. unprompted E ev)"

lemma keeps_ask_seq:
  assumes "tame (we_others E)" "\<not> is_prompt e \<or> prompt_allowed E ev" "\<And>n x. a n = Inr x \<Longrightarrow> keeps E ev (f x)"
  shows "keeps E ev (seq (ask E e a) f)"
  unfolding keeps_def
proof (rule triple_seq [where Q = "\<lambda>x s. unprompted E ev s \<and> (\<exists>n. a n = Inr x)"])
  show "triple (unprompted E ev) (ask E e a) (\<lambda>x s. unprompted E ev s \<and> (\<exists>n. a n = Inr x)) (\<lambda>_. unprompted E ev)"
    using unprompted_ask [OF assms(1) _ assms(2)] by (intro triple_ask) (auto intro: sym)
  show "triple (\<lambda>s. unprompted E ev s \<and> (\<exists>n. a n = Inr x)) (f x) (\<lambda>_. unprompted E ev) (\<lambda>_. unprompted E ev)" for x
  proof (cases "\<exists>n. a n = Inr x")
    case True
    then have "keeps E ev (f x)" using assms(3) by blast
    then show ?thesis using True by (simp add: keeps_def)
  qed (simp add: triple_def)
qed

lemma keeps_ask: "tame (we_others E) \<Longrightarrow> \<not> is_prompt e \<or> prompt_allowed E ev \<Longrightarrow> keeps E ev (ask E e a)"
  unfolding keeps_def by (rule triple_ask) (auto intro: unprompted_ask)

lemma keeps_seq: "keeps E ev m \<Longrightarrow> (\<And>x. keeps E ev (f x)) \<Longrightarrow> keeps E ev (seq m f)"
  unfolding keeps_def by (rule triple_seq)

lemma keeps_state: "(\<And>s. cw_event (wk_work s) = ev \<Longrightarrow> keeps E ev (f s)) \<Longrightarrow> keeps E ev (with_state f)"
  by (auto simp: keeps_def triple_def with_state_def unprompted_def)

lemma keeps_simple: "keeps E ev (ret x)" "keeps E ev (throw e)" "keeps E ev lose" "keeps E ev (lift r)" "keeps E ev (set_reason pr)"
  by (auto simp: keeps_def triple_def ret_def throw_def lose_def lift_def set_reason_def modify_def unprompted_def split: sum.split)

lemma keeps_modify: "(\<And>s. wk_trace (f s) = wk_trace s \<and> cw_event (wk_work (f s)) = cw_event (wk_work s)) \<Longrightarrow> keeps E ev (modify f)"
  by (simp add: keeps_def triple_def modify_def unprompted_def)

lemma keeps_if: "(b \<Longrightarrow> keeps E ev m) \<Longrightarrow> (\<not> b \<Longrightarrow> keeps E ev n) \<Longrightarrow> keeps E ev (if b then m else n)"
  by simp

lemma keeps_option: "(x = None \<Longrightarrow> keeps E ev m) \<Longrightarrow> (\<And>y. x = Some y \<Longrightarrow> keeps E ev (f y)) \<Longrightarrow>
    keeps E ev (case x of None \<Rightarrow> m | Some y \<Rightarrow> f y)"
  by (cases x) auto

lemma keeps_catch: "keeps E ev m \<Longrightarrow> (\<And>e. keeps E ev (h e)) \<Longrightarrow> keeps E ev (catch m h)"
  unfolding keeps_def by (rule triple_catch)

lemmas keeps_rules = keeps_state keeps_if keeps_option keeps_simple

lemma keeps_current: "tame (we_others E) \<Longrightarrow> keeps E ev (current E)"
  unfolding current_def check_gate_def
  by (intro keeps_rules keeps_ask_seq keeps_seq keeps_modify) (auto simp: is_prompt_def)

lemma keeps_complete: "tame (we_others E) \<Longrightarrow> keeps E ev (complete_work E p)"
  unfolding complete_work_def by (intro keeps_rules keeps_ask_seq) (auto simp: is_prompt_def)

lemma keeps_gate_seq: "tame (we_others E) \<Longrightarrow> keeps E ev m \<Longrightarrow> keeps E ev (seq (current E) (\<lambda>_. m))"
  by (rule keeps_seq [OF keeps_current])

lemma keeps_prompt: "tame (we_others E) \<Longrightarrow> prompt_allowed E ev \<Longrightarrow> keeps E ev (prompt_once E)"
  unfolding prompt_once_def
  by (intro keeps_rules keeps_gate_seq keeps_seq [OF keeps_modify] keeps_ask) auto

lemma keeps_port:
  assumes "tame (we_others E)" "prompt_allowed E ev"
  shows "keeps E ev (run_port E cs)"
proof (induction cs)
  case (Cons c cs)
  then show ?case
    using keeps_prompt [OF assms] keeps_current [OF assms(1)]
    by (cases c) (auto intro!: keeps_seq keeps_catch keeps_simple)
qed (simp add: keeps_simple)

lemma keeps_turn: "tame (we_others E) \<Longrightarrow> prompt_allowed E ev \<Longrightarrow> keeps E ev (turn_effects E)"
  unfolding turn_effects_def
  by (intro keeps_rules keeps_seq [OF keeps_simple(5)] keeps_ask_seq keeps_gate_seq keeps_seq [OF keeps_port] keeps_ask) auto

lemma keeps_finish: "tame (we_others E) \<Longrightarrow> keeps E ev (finish_work E own)"
  unfolding finish_work_def
  by (intro keeps_rules keeps_gate_seq keeps_ask_seq keeps_seq [OF keeps_simple(4)] keeps_complete) (auto simp: is_prompt_def)

lemma keeps_open: "tame (we_others E) \<Longrightarrow> keeps E ev (open_session E st)"
  unfolding open_session_def bind_session_def
  by (intro keeps_rules keeps_gate_seq keeps_ask_seq keeps_seq [OF keeps_modify] keeps_seq [OF keeps_state] keeps_ask)
    (auto simp: is_prompt_def)

lemma keeps_fresh:
  assumes t: "tame (we_others E)" and none: "\<exists>n. we_find E n = Inr None"
  shows "keeps E ev (fresh_event E st)"
proof -
  have finish: "keeps E ev (seq (open_session E st) (\<lambda>_. seq (if own \<noteq> Own_confirmed then turn_effects E else ret ()) (\<lambda>_. finish_work E own)))"
    if "own \<noteq> Own_confirmed \<longrightarrow> prompt_allowed E ev" for own
    using that
    by (intro keeps_seq [OF keeps_open [OF t]] keeps_seq keeps_if keeps_turn [OF t] keeps_simple keeps_finish [OF t]) auto
  show ?thesis
    unfolding fresh_event_def
  proof (intro keeps_ask_seq [OF t] keeps_if keeps_simple)
    fix n o1 n' t'
    assume own: "we_own E n = Inr o1" "o1 \<noteq> O_uncertain" and turn: "we_turn E n' = Inr t'" "t' \<noteq> T_lost" "t' \<noteq> T_started"
    have fresh: "\<exists>n. we_turn E n = Inr T_fresh" using turn by (cases t') auto
    show "keeps E ev (seq (own_event E) (\<lambda>own. if own = Own_uncertain then throw Mutation_uncertain
        else seq (open_session E st) (\<lambda>_. seq (if own \<noteq> Own_confirmed then turn_effects E else ret ()) (\<lambda>_. finish_work E own))))"
    proof (cases "is_from_me ev")
      case True
      have "keeps E ev (seq (own_event E) f) = keeps E ev (seq (with_state (\<lambda>s. ask E E_classify (we_classify E))) f)" for f :: "own_class \<Rightarrow> unit work_exec"
        using True by (auto simp: keeps_def triple_def seq_def own_event_def with_state_def unprompted_def)
      moreover have "keeps E ev (seq (ask E E_classify (we_classify E)) (\<lambda>own. if own = Own_uncertain then throw Mutation_uncertain
        else seq (open_session E st) (\<lambda>_. seq (if own \<noteq> Own_confirmed then turn_effects E else ret ()) (\<lambda>_. finish_work E own))))"
      proof (intro keeps_ask_seq [OF t] keeps_if keeps_simple finish)
        fix n c
        assume "we_classify E n = Inr c" "c \<noteq> Own_uncertain"
        then show "c \<noteq> Own_confirmed \<longrightarrow> prompt_allowed E ev"
          using none own fresh by (cases c) (auto simp: prompt_allowed_def)
      qed (simp add: is_prompt_def)
      ultimately show ?thesis by (simp add: with_state_def [abs_def])
    next
      case False
      have "keeps E ev (seq (own_event E) f) = keeps E ev (f Own_manual)" for f :: "own_class \<Rightarrow> unit work_exec"
        using False by (auto simp: keeps_def triple_def seq_def own_event_def with_state_def unprompted_def ret_def)
      moreover have "prompt_allowed E ev" using none own fresh False by (auto simp: prompt_allowed_def)
      ultimately show ?thesis using finish [of Own_manual] by simp
    qed
  qed (simp_all add: is_prompt_def)
qed

lemma keeps_body:
  assumes t: "tame (we_others E)"
  shows "keeps E ev (worker_body E)"
  unfolding worker_body_def existing_marker_def
  by (intro keeps_gate_seq [OF t] keeps_rules keeps_ask_seq [OF t] keeps_seq [OF keeps_simple(4)] keeps_complete [OF t] keeps_fresh [OF t])
    (auto simp: is_prompt_def)

lemma keeps_end:
  assumes t: "tame (we_others E)"
  shows "keeps E ev (on_failure E e)" "keeps E ev (dispose_session E)"
proof -
  show "keeps E ev (on_failure E e)"
    unfolding on_failure_def pause_work_def emit_final_def emit_class_def
    by (rule keeps_seq, rule keeps_option, rule keeps_simple, rule keeps_simple, rule keeps_seq, rule keeps_state, rule keeps_if,
        rule keeps_catch, rule keeps_gate_seq [OF t], rule keeps_state, rule keeps_ask_seq [OF t], simp add: is_prompt_def,
        rule keeps_simple, rule keeps_modify, simp, rule keeps_simple, rule keeps_state,
        simp add: keeps_def triple_def modify_def unprompted_def is_prompt_def)
  show "keeps E ev (dispose_session E)"
    unfolding dispose_session_def emit_class_def
    by (rule keeps_state, rule keeps_if, rule keeps_simple, rule keeps_catch, rule keeps_ask [OF t], simp add: is_prompt_def,
        simp add: keeps_def triple_def modify_def unprompted_def is_prompt_def)
qed

text \<open>a prompt is never repeated after a crash: a run makes a prompt only when the completion index held no
proof of the event, no mutation on its chat was unresolved, the turn had not been started before, and an
own message was classified as typed by hand; in every other case the run ends without a prompt.\<close>

theorem prompt_only_when_fresh:
  assumes "tame (we_others E)" "list_ex is_prompt (wk_trace (runChatWorker E w))"
  shows "(\<exists>n. we_find E n = Inr None) \<and> (\<exists>n x. we_own E n = Inr x \<and> x \<noteq> O_uncertain) \<and>
    (\<exists>n. we_turn E n = Inr T_fresh) \<and> (is_from_me (cw_event w) \<longrightarrow> (\<exists>n. we_classify E n = Inr Own_manual))"
proof -
  have run: "keeps E (cw_event w) (seq (catch (worker_body E) (on_failure E)) (\<lambda>_. dispose_session E))"
    by (intro keeps_seq keeps_catch keeps_body keeps_end assms(1))
  have start: "unprompted E (cw_event w) (start_work w)" by (simp add: unprompted_def start_work_def)
  have "unprompted E (cw_event w) (runChatWorker E w)"
    using triple_Inr [OF run [unfolded keeps_def] start] triple_Inl [OF run [unfolded keeps_def] start]
    unfolding runChatWorker_def
    by (cases "seq (catch (worker_body E) (on_failure E)) (\<lambda>_. dispose_session E) (start_work w)";
        cases "fst (seq (catch (worker_body E) (on_failure E)) (\<lambda>_. dispose_session E) (start_work w))") auto
  then show ?thesis using assms(2) by (simp add: unprompted_def prompt_allowed_def)
qed

theorem prompt_only_when_fresh_witness: "\<exists>n. we_find demo_worker_env n = Inr None"
proof -
  have "E_prompt demo_event \<in> set (filter (\<lambda>e. \<not> is_check demo_event e \<and> (\<forall>w. e \<noteq> E_renew w)) demo_trace)"
    unfolding demo_run by simp
  then have "list_ex is_prompt (wk_trace (runChatWorker demo_worker_env demo_claimed_work))"
    by (auto simp: demo_trace_def list_ex_iff is_prompt_def)
  from prompt_only_when_fresh [OF demo_worker_tame this] show ?thesis by blast
qed


end
