(* ===== verification/Coordinator.thy ===== *)
theory Coordinator
  imports Worker_Spec
begin

text \<open>
  The scheduler of one controller process (\<open>src/session-controller/src/scheduler/coordinator.ts\<close> and
  \<open>recovery.ts\<close>): the claim loop over the configured chats, the heartbeat of the application fence,
  stop, fail-closed and drain, as functions on its variables. An \<open>await\<close> is a phase of the loop:
  between two phases the heartbeat, finishing workers and callers interleave (the step relation).
\<close>

section \<open>Options\<close>

record scheduler_options =
  so_concurrency :: int
  so_leaseMs :: int
  so_renewMs :: int
  so_gapTimeoutMs :: int
  so_pollMs :: int

definition options_ok :: "scheduler_options \<Rightarrow> bool" where
  "options_ok c \<longleftrightarrow> 1 \<le> so_concurrency c \<and> so_concurrency c \<le> 64 \<and>
     3000 \<le> so_leaseMs c \<and> so_leaseMs c \<le> 300000 \<and>
     100 \<le> so_renewMs c \<and> so_renewMs c * 3 < so_leaseMs c \<and>
     1000 \<le> so_gapTimeoutMs c \<and> so_gapTimeoutMs c \<le> 3600000 \<and>
     1 \<le> so_pollMs c \<and> so_pollMs c \<le> 5000"

section \<open>Pending-entry recovery\<close>

type_synonym cursors = "stream_id hash"

definition recovery_start :: "cursors \<Rightarrow> string \<Rightarrow> stream_id" where
  "recovery_start cs chat = (case hget cs chat of Some i \<Rightarrow> i | None \<Rightarrow> (0, 0))"

definition recovery_step :: "cursors \<Rightarrow> string \<Rightarrow> pel_recovery \<Rightarrow> bool \<times> cursors" where
  "recovery_step cs chat r =
     (case r of
        PEL_ok next claimed deleted \<Rightarrow> (deleted = 0, hset chat next cs)
      | _ \<Rightarrow> (False, cs))"

definition recovery_count_default :: nat where
  "recovery_count_default = 32"

definition recover :: "'st world \<Rightarrow> cursors \<Rightarrow> string \<Rightarrow> fence \<Rightarrow> string \<Rightarrow> ('st, bool \<times> cursors) action" where
  "recover W cs chat app consumer =
     seq (recoverPending W chat app consumer (recovery_start cs chat) recovery_count_default) (\<lambda>r. ret (recovery_step cs chat r))"

section \<open>State\<close>

datatype loop_phase =
    Not_started | Acquiring | Top | Slot nat | Recovering nat string | Claiming nat string | Waiting | Ended

datatype coord_event = Worker_started string claimed_work | App_released fence | Emitted error_class

record coord =
  co_started :: bool
  co_stopped :: bool
  co_live :: bool
  co_lossReported :: bool
  co_beating :: bool
  co_app :: "fence option"
  co_position :: nat
  co_active :: "string list"
  co_phase :: loop_phase
  co_log :: "coord_event list"

definition new_coord :: coord where
  "new_coord = \<lparr>co_started = False, co_stopped = False, co_live = False, co_lossReported = False, co_beating = False,
     co_app = None, co_position = 0, co_active = [], co_phase = Not_started, co_log = []\<rparr>"

definition lose_app :: "coord \<Rightarrow> coord" where
  "lose_app c =
     (if co_lossReported c then c
      else c\<lparr>co_lossReported := True, co_live := False, co_stopped := True, co_beating := False,
        co_log := co_log c @ [Emitted Lease_lost]\<rparr>)"

definition failClosed :: "coord \<Rightarrow> coord" where
  "failClosed c = lose_app c"

definition stopScheduling :: "coord \<Rightarrow> coord" where
  "stopScheduling c = c\<lparr>co_stopped := True\<rparr>"

section \<open>Start\<close>

definition start :: "coord \<Rightarrow> error_class + coord" where
  "start c = (if co_stopped c \<or> co_started c then Inl Intake_closed else Inr (c\<lparr>co_started := True, co_phase := Acquiring\<rparr>))"

text \<open>The answer of \<open>acquireApp\<close>. An aborted heartbeat signal ends the heartbeat at once.\<close>

definition acquired :: "error_class + fence option \<Rightarrow> coord \<Rightarrow> coord" where
  "acquired r c =
     (case r of
        Inr (Some f) \<Rightarrow> c\<lparr>co_app := Some f, co_live := True, co_beating := \<not> co_lossReported c, co_phase := Top\<rparr>
      | _ \<Rightarrow> c\<lparr>co_phase := Ended\<rparr>)"

section \<open>The heartbeat\<close>

definition heartbeat :: "error_class + fence option \<Rightarrow> coord \<Rightarrow> coord" where
  "heartbeat r c =
     (case (co_app c, r) of
        (Some f, Inr (Some renewed)) \<Rightarrow> c\<lparr>co_app := Some renewed\<rparr>
      | _ \<Rightarrow> (lose_app c)\<lparr>co_beating := False\<rparr>)"

section \<open>The claim loop\<close>

definition loop_failed :: "coord \<Rightarrow> coord" where
  "loop_failed c = (lose_app c)\<lparr>co_phase := Ended\<rparr>"

definition loop_top :: "coord \<Rightarrow> coord" where
  "loop_top c = c\<lparr>co_phase := (if \<not> co_stopped c \<and> co_live c \<and> co_app c \<noteq> None then Slot 0 else Ended)\<rparr>"

definition after_slots :: "coord \<Rightarrow> coord" where
  "after_slots c = c\<lparr>co_phase := (if \<not> co_stopped c then Waiting else Top)\<rparr>"

text \<open>One round of the \<open>for\<close> loop up to its first \<open>await\<close>; \<open>i\<close> is its index, \<open>owner_ok\<close> whether the new ID is one.\<close>

definition loop_slot :: "nat \<Rightarrow> string list \<Rightarrow> bool \<Rightarrow> nat \<Rightarrow> coord \<Rightarrow> coord" where
  "loop_slot conc chats owner_ok i c =
     (if i < length chats \<and> \<not> co_stopped c \<and> co_live c then
        if conc \<le> length (co_active c) then after_slots c
        else
          let chat = chats ! (co_position c mod length chats);
              c = c\<lparr>co_position := Suc (co_position c)\<rparr>
          in if chat \<in> set (co_active c) then c\<lparr>co_phase := Slot (Suc i)\<rparr>
             else if \<not> owner_ok then loop_failed c
             else c\<lparr>co_phase := Recovering i chat\<rparr>
      else after_slots c)"

definition after_recovery :: "error_class + bool \<Rightarrow> nat \<Rightarrow> string \<Rightarrow> coord \<Rightarrow> coord" where
  "after_recovery r i chat c =
     (case r of
        Inl _ \<Rightarrow> loop_failed c
      | Inr False \<Rightarrow> c\<lparr>co_phase := Slot (Suc i)\<rparr>
      | Inr True \<Rightarrow> if co_stopped c \<or> \<not> co_live c then after_slots c else c\<lparr>co_phase := Claiming i chat\<rparr>)"

text \<open>A lease granted after a stop is held by an empty task: no worker is started for it.\<close>

definition after_claim :: "error_class + claim_result \<Rightarrow> nat \<Rightarrow> string \<Rightarrow> coord \<Rightarrow> coord" where
  "after_claim r i chat c =
     (case r of
        Inl _ \<Rightarrow> loop_failed c
      | Inr CR_lost \<Rightarrow> after_slots (lose_app c)
      | Inr (CR_claimed work) \<Rightarrow>
          c\<lparr>co_active := chat # co_active c, co_phase := Slot (Suc i),
            co_log := co_log c @ (if co_stopped c \<or> \<not> co_live c then [] else [Worker_started chat work])\<rparr>
      | Inr _ \<Rightarrow> c\<lparr>co_phase := Slot (Suc i)\<rparr>)"

definition waited :: "bool \<Rightarrow> coord \<Rightarrow> coord" where
  "waited ok c = (if ok then c\<lparr>co_phase := Top\<rparr> else loop_failed c)"

definition task_done :: "string \<Rightarrow> bool \<Rightarrow> coord \<Rightarrow> coord" where
  "task_done chat threw c = c\<lparr>co_active := remove1 chat (co_active c),
     co_log := co_log c @ (if threw then [Emitted Internal_failed] else [])\<rparr>"

section \<open>Drain\<close>

definition drain_ready :: "coord \<Rightarrow> bool" where
  "drain_ready c \<longleftrightarrow> co_stopped c \<and> (co_phase c = Ended \<or> co_phase c = Not_started) \<and> co_active c = []"

definition drain_end :: "error_class + bool \<Rightarrow> coord \<Rightarrow> coord" where
  "drain_end r c =
     (case co_app c of
        Some f \<Rightarrow> if co_live c
          then c\<lparr>co_beating := False, co_live := False,
            co_log := co_log c @ [App_released f] @ (case r of Inl _ \<Rightarrow> [Emitted Store_unavailable] | Inr _ \<Rightarrow> [])\<rparr>
          else c\<lparr>co_beating := False\<rparr>
      | None \<Rightarrow> c\<lparr>co_beating := False, co_live := False\<rparr>)"

section \<open>Interleaving\<close>

inductive coord_step :: "nat \<Rightarrow> string list \<Rightarrow> coord \<Rightarrow> coord \<Rightarrow> bool" for conc chats where
  starts: "start c = Inr c' \<Longrightarrow> coord_step conc chats c c'"
| acquires: "co_phase c = Acquiring \<Longrightarrow> coord_step conc chats c (acquired r c)"
| beats: "co_beating c \<Longrightarrow> coord_step conc chats c (heartbeat r c)"
| tops: "co_phase c = Top \<Longrightarrow> coord_step conc chats c (loop_top c)"
| slots: "co_phase c = Slot i \<Longrightarrow> coord_step conc chats c (loop_slot conc chats owner_ok i c)"
| recovers: "co_phase c = Recovering i chat \<Longrightarrow> coord_step conc chats c (after_recovery r i chat c)"
| claims: "co_phase c = Claiming i chat \<Longrightarrow> coord_step conc chats c (after_claim r i chat c)"
| waits: "co_phase c = Waiting \<Longrightarrow> coord_step conc chats c (waited ok c)"
| finishes: "chat \<in> set (co_active c) \<Longrightarrow> coord_step conc chats c (task_done chat threw c)"
| stops: "coord_step conc chats c (stopScheduling c)"
| fails: "coord_step conc chats c (failClosed c)"
| drains: "drain_ready c \<Longrightarrow> coord_step conc chats c (drain_end r c)"

inductive coord_steps :: "nat \<Rightarrow> string list \<Rightarrow> coord \<Rightarrow> coord \<Rightarrow> bool" for conc chats where
  refl: "coord_steps conc chats c c"
| step: "coord_steps conc chats c c' \<Longrightarrow> coord_step conc chats c' c'' \<Longrightarrow> coord_steps conc chats c c''"

inductive_cases coord_stepE: "coord_step conc chats c c'"

lemmas coord_defs = lose_app_def failClosed_def stopScheduling_def start_def acquired_def heartbeat_def loop_failed_def
  loop_top_def after_slots_def loop_slot_def after_recovery_def after_claim_def waited_def task_done_def drain_end_def

end
