(* ===== verification/Coordinator_Spec.thy ===== *)
theory Coordinator_Spec
  imports Coordinator
begin

text \<open>
  The properties of the scheduler: one worker per chat and at most the configured number in all, no
  new worker after a stop or a loss, release only after the drain, and fairness of the rounds.
\<close>

section \<open>The invariant\<close>

fun claiming_chat :: "loop_phase \<Rightarrow> string option" where
  "claiming_chat (Recovering i chat) = Some chat"
| "claiming_chat (Claiming i chat) = Some chat"
| "claiming_chat _ = None"

definition is_loss :: "coord_event \<Rightarrow> bool" where
  "is_loss e \<longleftrightarrow> e = Emitted Lease_lost"

definition coord_inv :: "nat \<Rightarrow> string list \<Rightarrow> coord \<Rightarrow> bool" where
  "coord_inv conc chats c \<longleftrightarrow>
     distinct (co_active c) \<and> set (co_active c) \<subseteq> set chats \<and> length (co_active c) \<le> conc \<and>
     (\<forall>chat. claiming_chat (co_phase c) = Some chat \<longrightarrow>
        chat \<in> set chats \<and> chat \<notin> set (co_active c) \<and> length (co_active c) < conc) \<and>
     (co_lossReported c \<longrightarrow> co_stopped c) \<and>
     length (filter is_loss (co_log c)) = (if co_lossReported c then 1 else 0)"

lemma lose_app_inv: "coord_inv conc chats c \<Longrightarrow> coord_inv conc chats (lose_app c)"
  by (auto simp: coord_inv_def lose_app_def is_loss_def)

lemma phase_inv:
  "coord_inv conc chats c \<Longrightarrow> claiming_chat p = None \<Longrightarrow> coord_inv conc chats (c\<lparr>co_phase := p\<rparr>)"
  by (simp add: coord_inv_def)

lemma beating_inv: "coord_inv conc chats (c\<lparr>co_beating := b\<rparr>) = coord_inv conc chats c"
  by (simp add: coord_inv_def)

lemma loop_failed_inv: "coord_inv conc chats c \<Longrightarrow> coord_inv conc chats (loop_failed c)"
  unfolding loop_failed_def by (rule phase_inv [OF lose_app_inv]) simp_all

lemma after_slots_inv: "coord_inv conc chats c \<Longrightarrow> coord_inv conc chats (after_slots c)"
  unfolding after_slots_def by (rule phase_inv) simp_all

lemma loop_slot_inv:
  assumes "coord_inv conc chats c"
  shows "coord_inv conc chats (loop_slot conc chats ok i c)"
proof -
  let ?c = "c\<lparr>co_position := Suc (co_position c)\<rparr>"
  have pos: "coord_inv conc chats ?c" using assms by (simp add: coord_inv_def)
  have "chats ! (co_position c mod length chats) \<in> set chats" if "i < length chats"
    using that by (intro nth_mem mod_less_divisor) linarith
  then have "coord_inv conc chats (?c\<lparr>co_phase := Recovering i (chats ! (co_position c mod length chats))\<rparr>)"
    if "i < length chats" "\<not> conc \<le> length (co_active c)" "chats ! (co_position c mod length chats) \<notin> set (co_active c)"
    using that pos by (simp add: coord_inv_def)
  then show ?thesis
    using after_slots_inv [OF assms] loop_failed_inv [OF pos] phase_inv [OF pos, of "Slot (Suc i)"]
    by (simp add: loop_slot_def Let_def)
qed

lemma after_recovery_inv:
  assumes "coord_inv conc chats c" "co_phase c = Recovering i chat"
  shows "coord_inv conc chats (after_recovery r i chat c)"
proof -
  have "coord_inv conc chats (c\<lparr>co_phase := Claiming i chat\<rparr>)" using assms by (simp add: coord_inv_def)
  then show ?thesis
    using assms(1) by (auto simp: after_recovery_def intro: loop_failed_inv after_slots_inv phase_inv split: sum.split bool.split)
qed

lemma after_claim_inv:
  assumes "coord_inv conc chats c" "co_phase c = Claiming i chat"
  shows "coord_inv conc chats (after_claim r i chat c)"
proof -
  have "coord_inv conc chats (c\<lparr>co_active := chat # co_active c, co_phase := Slot (Suc i),
      co_log := co_log c @ (if co_stopped c \<or> \<not> co_live c then [] else [Worker_started chat work])\<rparr>)" for work
    using assms by (auto simp: coord_inv_def is_loss_def)
  then show ?thesis
    using assms(1) by (auto simp: after_claim_def intro: loop_failed_inv after_slots_inv lose_app_inv phase_inv split: sum.split claim_result.split)
qed

lemma task_done_inv: "coord_inv conc chats c \<Longrightarrow> coord_inv conc chats (task_done chat threw c)"
proof -
  assume inv: "coord_inv conc chats c"
  have "set (remove1 chat (co_active c)) \<subseteq> set (co_active c)" by (rule set_remove1_subset)
  moreover have "length (remove1 chat (co_active c)) \<le> length (co_active c)" by (simp add: length_remove1)
  moreover have "is_loss (Emitted Internal_failed) = False" by (simp add: is_loss_def)
  ultimately show ?thesis using inv by (auto simp: coord_inv_def task_done_def)
qed

lemma coord_step_inv: "coord_step conc chats c c' \<Longrightarrow> coord_inv conc chats c \<Longrightarrow> coord_inv conc chats c'"
proof (induction rule: coord_step.induct)
  case (beats c r)
  then show ?case
    by (auto simp: heartbeat_def beating_inv lose_app_inv split: option.split sum.split) (simp add: coord_inv_def)
next
  case (waits c ok)
  then show ?case
    by (auto simp: waited_def intro: phase_inv loop_failed_inv)
next
  case (drains c r)
  then show ?case
    by (auto simp: drain_end_def coord_inv_def is_loss_def split: option.split sum.split)
qed (auto simp: loop_slot_inv after_recovery_inv after_claim_inv task_done_inv failClosed_def lose_app_inv
    intro: loop_failed_inv, auto simp: coord_inv_def coord_defs split: if_splits sum.splits option.splits)

lemma coord_steps_inv: "coord_steps conc chats c c' \<Longrightarrow> coord_inv conc chats c \<Longrightarrow> coord_inv conc chats c'"
  by (induction rule: coord_steps.induct) (auto dest: coord_step_inv)

lemma new_coord_inv: "coord_inv conc chats new_coord"
  by (simp add: coord_inv_def new_coord_def)

text \<open>in every interleaving of the claim loop, the heartbeat, finishing workers, stops and losses, no chat has two
workers, never more than the configured number run, every busy chat is a configured one, a loss of
the application fence stops the scheduling, and it is reported exactly once.\<close>

theorem coordinator_is_bounded:
  assumes "coord_steps conc chats new_coord c"
  shows "distinct (co_active c) \<and> length (co_active c) \<le> conc \<and> set (co_active c) \<subseteq> set chats \<and>
    (co_lossReported c \<longrightarrow> co_stopped c) \<and>
    length (filter is_loss (co_log c)) = (if co_lossReported c then 1 else 0)"
  using coord_steps_inv [OF assms new_coord_inv] by (simp add: coord_inv_def)

section \<open>Stopping\<close>

definition is_start :: "coord_event \<Rightarrow> bool" where
  "is_start e \<longleftrightarrow> (\<exists>chat w. e = Worker_started chat w)"

definition is_release :: "coord_event \<Rightarrow> bool" where
  "is_release e \<longleftrightarrow> (\<exists>f. e = App_released f)"

lemma event_kinds [simp]:
  "is_start (Worker_started chat w)" "\<not> is_start (Emitted e)" "\<not> is_start (App_released f)"
  "\<not> is_release (Worker_started chat w)" "\<not> is_release (Emitted e)" "is_release (App_released f)"
  by (simp_all add: is_start_def is_release_def)

lemma stopped_step:
  assumes "coord_step conc chats c c'" "co_stopped c"
  shows "co_stopped c' \<and> filter is_start (co_log c') = filter is_start (co_log c)"
  using assms
  by (cases rule: coord_step.cases)
    (auto simp: coord_defs Let_def split: if_splits sum.splits option.splits bool.splits claim_result.splits)

text \<open>After the drain has begun to end: stopped, the loop over, nothing running.\<close>

lemma ready_step:
  assumes "coord_step conc chats c c'" "drain_ready c"
  shows "drain_ready c'"
  using assms(2) assms(1)
  by (auto simp: drain_ready_def elim!: coord_step.cases)
    (auto simp: coord_defs Let_def split: if_splits sum.splits option.splits)

lemma release_step:
  assumes "coord_step conc chats c c'" "filter is_release (co_log c') \<noteq> filter is_release (co_log c)"
  shows "drain_ready c \<and> drain_ready c'"
  using assms
  by (cases rule: coord_step.cases)
    (auto simp: coord_defs drain_ready_def Let_def split: if_splits sum.splits option.splits bool.splits claim_result.splits)

text \<open>stopping is final and orderly: once the scheduler is stopped (by a caller or by a lost fence) no later step
starts a worker, and whenever the application fence is released the loop has ended, no worker is
running, and this stays so; so the fence is never given up under a running turn.\<close>

theorem stop_is_final:
  assumes "coord_steps conc chats c c'" "co_stopped c"
  shows "co_stopped c' \<and> filter is_start (co_log c') = filter is_start (co_log c) \<and>
    (filter is_release (co_log c') \<noteq> filter is_release (co_log c) \<longrightarrow> drain_ready c')"
  using assms
proof (induction rule: coord_steps.induct)
  case (step c c' c'')
  have IH: "co_stopped c' \<and> filter is_start (co_log c') = filter is_start (co_log c) \<and>
    (filter is_release (co_log c') \<noteq> filter is_release (co_log c) \<longrightarrow> drain_ready c')"
    using step.IH step.prems .
  then show ?case
    using stopped_step [OF step.hyps(2)] ready_step [OF step.hyps(2)] release_step [OF step.hyps(2)] by metis
qed simp

text \<open>A run that ends by a drain: start, fence, one worker, stop, the worker ends, release.\<close>

definition demo_fence :: fence where
  "demo_fence = \<lparr>f_owner = replicate 32 CHR ''a'', f_epoch = ''1'', expiresAtMs = 9\<rparr>"

definition demo_running :: coord where
  "demo_running = after_claim (Inr (CR_claimed demo_claimed_work)) 0 ''1@g.us''
     (after_recovery (Inr True) 0 ''1@g.us'' (loop_slot 2 [''1@g.us'', ''9@lid''] True 0
       (loop_top (acquired (Inr (Some demo_fence)) (new_coord\<lparr>co_started := True, co_phase := Acquiring\<rparr>)))))"

lemma demo_running_eq: "demo_running = \<lparr>co_started = True, co_stopped = False, co_live = True, co_lossReported = False,
    co_beating = True, co_app = Some demo_fence, co_position = 1, co_active = [''1@g.us''], co_phase = Slot 1,
    co_log = [Worker_started ''1@g.us'' demo_claimed_work]\<rparr>"
  by (simp add: demo_running_def coord_defs new_coord_def Let_def)

lemma demo_running_steps: "coord_steps 2 [''1@g.us'', ''9@lid''] new_coord demo_running"
proof -
  let ?C = "[''1@g.us'', ''9@lid'']"
  have "coord_steps 2 ?C new_coord (new_coord\<lparr>co_started := True, co_phase := Acquiring\<rparr>)"
    by (rule coord_steps.step [OF coord_steps.refl coord_step.starts]) (simp add: start_def new_coord_def)
  then have "coord_steps 2 ?C new_coord (acquired (Inr (Some demo_fence)) (new_coord\<lparr>co_started := True, co_phase := Acquiring\<rparr>))"
    by (rule coord_steps.step [OF _ coord_step.acquires]) simp
  then have "coord_steps 2 ?C new_coord (loop_top (acquired (Inr (Some demo_fence)) (new_coord\<lparr>co_started := True, co_phase := Acquiring\<rparr>)))"
    by (rule coord_steps.step [OF _ coord_step.tops]) (simp add: acquired_def)
  then have "coord_steps 2 ?C new_coord (loop_slot 2 ?C True 0 (loop_top (acquired (Inr (Some demo_fence)) (new_coord\<lparr>co_started := True, co_phase := Acquiring\<rparr>))))"
    by (rule coord_steps.step [OF _ coord_step.slots]) (simp add: acquired_def loop_top_def new_coord_def)
  then have "coord_steps 2 ?C new_coord (after_recovery (Inr True) 0 ''1@g.us'' (loop_slot 2 ?C True 0 (loop_top
      (acquired (Inr (Some demo_fence)) (new_coord\<lparr>co_started := True, co_phase := Acquiring\<rparr>)))))"
    by (rule coord_steps.step [OF _ coord_step.recovers]) (simp add: coord_defs new_coord_def Let_def)
  then show ?thesis
    unfolding demo_running_def
    by (rule coord_steps.step [OF _ coord_step.claims]) (simp add: coord_defs new_coord_def Let_def)
qed

theorem coordinator_is_bounded_witness: "length (co_active demo_running) \<le> 2 \<and> co_active demo_running = [''1@g.us'']"
  using coordinator_is_bounded [OF demo_running_steps] by (simp add: demo_running_eq)

theorem stop_is_final_witness:
  "filter is_start (co_log (task_done ''1@g.us'' False (stopScheduling demo_running))) = [Worker_started ''1@g.us'' demo_claimed_work]"
proof -
  have "coord_step 2 [''1@g.us'', ''9@lid''] (stopScheduling demo_running) (task_done ''1@g.us'' False (stopScheduling demo_running))"
    by (rule coord_step.finishes) (simp add: demo_running_eq stopScheduling_def)
  from stop_is_final [OF coord_steps.step [OF coord_steps.refl this]]
  show ?thesis by (simp add: stopScheduling_def demo_running_eq)
qed

section \<open>Fairness\<close>

text \<open>the rounds are fair: any as many consecutive selections of the loop as there are configured chats select
every configured chat exactly once, wherever the position counter stands.\<close>

theorem rounds_are_fair:
  assumes "distinct chats" "chats \<noteq> []"
  shows "distinct (map (\<lambda>k. chats ! ((p + k) mod length chats)) [0..<length chats]) \<and>
    set (map (\<lambda>k. chats ! ((p + k) mod length chats)) [0..<length chats]) = set chats \<and>
    (co_phase c = Slot i \<longrightarrow> i < length chats \<longrightarrow> \<not> co_stopped c \<longrightarrow> co_live c \<longrightarrow> length (co_active c) < conc \<longrightarrow>
      chats ! (co_position c mod length chats) \<notin> set (co_active c) \<longrightarrow>
      co_phase (loop_slot conc chats True i c) = Recovering i (chats ! (co_position c mod length chats)) \<and>
      co_position (loop_slot conc chats True i c) = Suc (co_position c))"
proof -
  let ?n = "length chats"
  have rot: "map (\<lambda>k. chats ! ((p + k) mod ?n)) [0..<?n] = rotate p chats"
    by (rule nth_equalityI) (simp_all add: nth_rotate add.commute)
  show ?thesis unfolding rot using assms(1) by (simp add: loop_slot_def Let_def)
qed

theorem rounds_are_fair_witness:
  "set (map (\<lambda>k. [''1@g.us'', ''9@lid''] ! ((5 + k) mod length [''1@g.us'', ''9@lid''])) [0..<length [''1@g.us'', ''9@lid'']]) =
    {''1@g.us'', ''9@lid''}"
  using rounds_are_fair [of "[''1@g.us'', ''9@lid'']" 5] by simp

end

