(* ===== verification/Journal.thy ===== *)
theory Journal
  imports Repository_Own Index_Spec
begin

text \<open>
  The tool journal (\<open>src/session-controller/src/pi/tool-journal-extension.ts\<close>): which tool calls
  mutate WhatsApp, the policy on attribution, the destination of a call, the envelope that confirms
  a send, and the hooks that journal every mutation before and after it runs. What the repository,
  the session file and the turn context answer at each awaited call is the record \<open>journal_env\<close>;
  the calls and the verdicts given to the agent are recorded in order.
\<close>

section \<open>Tools\<close>

fun destination_field :: "mutation_tool \<Rightarrow> string" where
  "destination_field Send_message = ''to''"
| "destination_field Send_group_message = ''jid''"
| "destination_field Send_auto_message = ''jid''"
| "destination_field Send_media = ''to''"
| "destination_field Send_reaction = ''chat_jid''"
| "destination_field Edit_message = ''chat_jid''"
| "destination_field Revoke_message = ''chat_jid''"

definition mutation_tools :: "mutation_tool list" where
  "mutation_tools = [Send_message, Send_group_message, Send_auto_message, Send_media, Send_reaction, Edit_message, Revoke_message]"

definition whatsappToolName :: "string \<Rightarrow> string" where
  "whatsappToolName tool = ''mcp__whatsapp_session_controller__'' @ tool"

definition toolOf :: "string \<Rightarrow> mutation_tool option" where
  "toolOf name = List.find (\<lambda>t. name = whatsappToolName (tool_text t)) mutation_tools"

definition adapter_server :: string where
  "adapter_server = ''whatsapp_session_controller_''"

definition adapter_source :: string where
  "adapter_source = ''<inline:mcp>''"

section \<open>Attribution\<close>

definition attribution_tools :: "mutation_tool set" where
  "attribution_tools = {Send_message, Send_group_message, Send_auto_message}"

definition participant_servers :: "string list" where
  "participant_servers = [''@s.whatsapp.net'', ''@lid'', ''@bot'', ''@hosted'', ''@hosted.lid'']"

text \<open>A trusted alias may carry a numeric device component, which is dropped.\<close>

definition drop_device :: "string \<Rightarrow> string" where
  "drop_device r =
     (case r of
        c # t \<Rightarrow> if c = CHR '':'' \<and> takeWhile is_digit t \<noteq> [] then dropWhile is_digit t else r
      | [] \<Rightarrow> r)"

definition participantIdentity :: "bool \<Rightarrow> json option \<Rightarrow> string option" where
  "participantIdentity alias v =
     (case v of
        Some (JStr s) \<Rightarrow>
          if 128 < length s then None
          else (let u = takeWhile is_digit s; r = dropWhile is_digit s; r' = (if alias then drop_device r else r)
            in if u \<noteq> [] \<and> r' \<in> set participant_servers then Some (u @ r') else None)
      | _ \<Rightarrow> None)"

definition empty_quote :: "json option \<Rightarrow> bool" where
  "empty_quote v \<longleftrightarrow> v = None \<or> v = Some JNull \<or> v = Some (JStr [])"

definition sender_aliases :: "notification \<Rightarrow> string list" where
  "sender_aliases ev = List.map_filter (participantIdentity True)
     [Some (JStr (sender_jid ev)), map_option JStr (sender_alt_jid ev)]"

definition permitsParticipantAttribution :: "mutation_tool \<Rightarrow> (string \<times> json) list \<Rightarrow> notification \<Rightarrow> bool" where
  "permitsParticipantAttribution tool inp ev =
     (if tool \<notin> attribution_tools then True
      else if \<not> empty_quote (jget inp ''quoted_message_id'') \<or> \<not> empty_quote (jget inp ''quoted_participant'') then False
      else case jget inp ''mentions'' of
          None \<Rightarrow> True
        | Some JNull \<Rightarrow> True
        | Some (JArr []) \<Rightarrow> True
        | Some (JArr [m]) \<Rightarrow>
            (case participantIdentity False (Some m) of None \<Rightarrow> False | Some i \<Rightarrow> i \<in> set (sender_aliases ev))
        | _ \<Rightarrow> False)"

section \<open>Destinations\<close>

definition normalizing :: "mutation_tool set" where
  "normalizing = {Send_message, Send_auto_message, Send_media}"

definition mutationDestination :: "mutation_tool \<Rightarrow> (string \<times> json) list \<Rightarrow> error_class + string" where
  "mutationDestination tool inp =
     (case as_str (jget inp (destination_field tool)) of
        None \<Rightarrow> Inl Mutation_uncertain
      | Some v \<Rightarrow>
          (let digits = filter is_digit v;
               actual = (if tool \<in> normalizing \<and> CHR ''@'' \<notin> set v \<and> digits \<noteq> [] then digits @ ''@s.whatsapp.net'' else v)
           in checked chat_jid_schema actual Mutation_uncertain))"

section \<open>The envelope of a confirmed send\<close>

definition exact_keys :: "string list \<Rightarrow> (string \<times> json) list \<Rightarrow> bool" where
  "exact_keys ks kv \<longleftrightarrow> length kv = length ks \<and> set (map fst kv) = set ks"

text \<open>The loop over the pending values, the last one first.\<close>

fun children :: "json \<Rightarrow> json list" where
  "children (JArr xs) = xs"
| "children (JObj kv) = map snd kv"
| "children _ = []"

fun is_container :: "json \<Rightarrow> bool" where
  "is_container (JArr _) = True"
| "is_container (JObj _) = True"
| "is_container _ = False"

definition stack_size :: "(json \<times> nat) list \<Rightarrow> nat" where
  "stack_size st = sum_list (map (\<lambda>(v, _). Suc (size v)) st)"

lemma stack_size_children: "stack_size (map (\<lambda>c. (c, d)) (children v)) \<le> size v"
proof (cases v)
  case (JArr xs)
  have "stack_size (map (\<lambda>c. (c, d)) xs) = size_list size xs"
    by (induction xs) (simp_all add: stack_size_def)
  then show ?thesis using JArr by simp
next
  case (JObj kv)
  have "stack_size (map (\<lambda>c. (c, d)) (map snd kv)) \<le> size (JObj kv)"
    by (induction kv) (auto simp: stack_size_def)
  then show ?thesis using JObj by simp
qed (simp_all add: stack_size_def)

lemma stack_size_simps [simp]:
  "stack_size [] = 0" "stack_size ((v, d) # st) = Suc (size v) + stack_size st"
  "stack_size (st @ st') = stack_size st + stack_size st'" "stack_size (rev st) = stack_size st"
  by (simp_all add: stack_size_def sum_list_rev rev_map [symmetric])

function within_stack :: "nat \<Rightarrow> (json \<times> nat) list \<Rightarrow> bool" where
  "within_stack maximum [] = True"
| "within_stack maximum ((v, d) # rest) =
     (if \<not> is_container v then within_stack maximum rest
      else if maximum < Suc d then False
      else within_stack maximum (rev (map (\<lambda>c. (c, Suc d)) (children v)) @ rest))"
  by pat_completeness auto
termination
proof (relation "measure (\<lambda>(_, st). stack_size st)", goal_cases)
  case (3 maximum v d rest)
  then show ?case using stack_size_children [of "Suc d" v] by simp
qed simp_all

definition withinDepth :: "nat \<Rightarrow> json \<Rightarrow> bool" where
  "withinDepth maximum v = within_stack maximum [(v, 0)]"

record tool_result =
  tr_name :: string
  tr_callId :: string
  tr_input :: "(string \<times> json) list"
  tr_isError :: bool
  tr_details :: "json option"
  tr_content :: "json option"

fun json_object :: "json option \<Rightarrow> (string \<times> json) list option" where
  "json_object (Some (JObj kv)) = Some kv"
| "json_object _ = None"

text \<open>The text of a block \<open>{ type: 'text', text }\<close> with no other key.\<close>

definition text_block :: "json \<Rightarrow> string option" where
  "text_block v =
     (case v of
        JObj kv \<Rightarrow> if exact_keys [''text'', ''type''] kv \<and> jget kv ''type'' = Some (JStr ''text'')
          then as_str (jget kv ''text'') else None
      | _ \<Rightarrow> None)"

definition envelope_ok :: "mutation_tool \<Rightarrow> tool_result \<Rightarrow> (string \<times> json) list \<Rightarrow> (string \<times> json) list \<Rightarrow> bool" where
  "envelope_ok tool ev details env \<longleftrightarrow>
     \<not> tr_isError ev \<and> jget details ''server'' = Some (JStr adapter_server) \<and>
     jget details ''tool'' = Some (JStr (tool_text tool)) \<and> jget details ''error'' = None \<and> jget details ''outputGuard'' = None \<and>
     only_keys [''content'', ''structuredContent'', ''isError'', ''_meta''] env \<and>
     (jget env ''isError'' = None \<or> jget env ''isError'' = Some (JBool False))"

text \<open>The string that the one content block and the structured result both hold.\<close>

definition envelope_text :: "(string \<times> json) list \<Rightarrow> string option" where
  "envelope_text env =
     (case (jget env ''content'', json_object (jget env ''structuredContent'')) of
        (Some (JArr [block]), Some structured) \<Rightarrow>
          (case (text_block block, as_str (jget structured ''result'')) of
             (Some t, Some r) \<Rightarrow> if exact_keys [''result''] structured \<and> t = r then Some r else None
           | _ \<Rightarrow> None)
      | _ \<Rightarrow> None)"

definition visible_text :: "json option \<Rightarrow> string option" where
  "visible_text content = (case content of Some (JArr (b # _)) \<Rightarrow> text_block b | _ \<Rightarrow> None)"

definition payload_message :: "json option \<Rightarrow> string option" where
  "payload_message v =
     (case v of
        Some (JObj kv) \<Rightarrow>
          if withinDepth 1 (JObj kv) \<and> exact_keys [''message_id'', ''success''] kv \<and> jget kv ''success'' = Some (JBool True)
          then (case as_str (jget kv ''message_id'') of
                  Some i \<Rightarrow> if message_id_schema i \<and> \<not> js_blank i then Some i else None
                | None \<Rightarrow> None)
          else None
      | _ \<Rightarrow> None)"

definition confirmedMessage :: "(string \<Rightarrow> json option) \<Rightarrow> tool_result \<Rightarrow> mutation_tool \<Rightarrow> string option" where
  "confirmedMessage parse ev tool =
     (case json_object (tr_details ev) of
        None \<Rightarrow> None
      | Some details \<Rightarrow>
         (case json_object (jget details ''mcpResult'') of
            None \<Rightarrow> None
          | Some env \<Rightarrow>
              if \<not> envelope_ok tool ev details env then None
              else (case envelope_text env of
                  None \<Rightarrow> None
                | Some raw \<Rightarrow>
                    if visible_text (tr_content ev) \<noteq> Some raw \<or> length raw < 2 \<or> 4096 < length raw then None
                    else payload_message (parse raw))))"

section \<open>Live sessions\<close>

record tool_call =
  tc_name :: string
  tc_callId :: string
  tc_input :: "(string \<times> json) list"

datatype call_verdict = Allowed | Policy_blocked | Uncertain_blocked

text \<open>An awaited call, the abort of the agent's run, or the verdict of a hook.\<close>

datatype journal_effect =
    J_current
  | J_record session_binding string mutation_state
  | J_begin claimed_work mutation_state
  | J_confirm claimed_work string string
  | J_uncertain claimed_work string
  | J_list string
  | J_own string string
  | J_fallback
  | J_prompt
  | J_abort
  | J_call tool_call call_verdict
  | J_result tool_result bool

text \<open>\<open>calls\<close> is a JavaScript \<open>Map\<close>: a list in insertion order.\<close>

record live =
  jl_session :: session_binding
  jl_context :: bool
  jl_running :: bool
  jl_poisoned :: bool
  jl_registered :: bool
  jl_calls :: "(string \<times> mutation_state) list"

record tool_journal =
  tj_live :: "string \<Rightarrow> live option"
  tj_log :: "journal_effect list"

type_synonym 'a journal_exec = "(tool_journal, 'a) exec"

text \<open>The answers, by the number of effects before the call.\<close>

record journal_env =
  te_current :: "nat \<Rightarrow> error_class + unit"
  te_work :: "nat \<Rightarrow> claimed_work"
  te_record :: "nat \<Rightarrow> error_class + unit"
  te_bool :: "nat \<Rightarrow> error_class + bool"
  te_list :: "nat \<Rightarrow> error_class + mutation_state list"
  te_own :: "nat \<Rightarrow> error_class + own_mutation"
  te_fallback :: "nat \<Rightarrow> error_class + own_class"
  te_id :: "nat \<Rightarrow> string"
  te_iso :: "nat \<Rightarrow> error_class + string"
  te_sources :: "string \<Rightarrow> (string \<times> string) list"
  te_parse :: "string \<Rightarrow> json option"
  te_sha :: "string \<Rightarrow> string"

definition perform :: "journal_effect \<Rightarrow> (nat \<Rightarrow> error_class + 'a) \<Rightarrow> 'a journal_exec" where
  "perform e answer s = (answer (length (tj_log s)), s\<lparr>tj_log := tj_log s @ [e]\<rparr>)"

definition remark :: "journal_effect \<Rightarrow> unit journal_exec" where
  "remark e = perform e (\<lambda>_. Inr ())"

definition with_live :: "string \<Rightarrow> (live \<Rightarrow> 'a journal_exec) \<Rightarrow> 'a journal_exec" where
  "with_live i f = with_state (\<lambda>s. case tj_live s i of None \<Rightarrow> throw Mutation_uncertain | Some l \<Rightarrow> f l)"

definition change :: "string \<Rightarrow> (live \<Rightarrow> live) \<Rightarrow> unit journal_exec" where
  "change i f = modify (\<lambda>s. s\<lparr>tj_live := (tj_live s)(i := map_option f (tj_live s i))\<rparr>)"

definition with_work :: "journal_env \<Rightarrow> (claimed_work \<Rightarrow> 'a journal_exec) \<Rightarrow> 'a journal_exec" where
  "with_work E f = with_state (\<lambda>s. f (te_work E (length (tj_log s))))"

definition set_poisoned :: "string \<Rightarrow> unit journal_exec" where
  "set_poisoned i = change i (\<lambda>l. l\<lparr>jl_poisoned := True\<rparr>)"

definition get_live :: "session_binding \<Rightarrow> live journal_exec" where
  "get_live b = with_live (sb_sessionId b) (\<lambda>l. if jl_session l = b then ret l else throw Mutation_uncertain)"

definition turn_gate :: "journal_env \<Rightarrow> string \<Rightarrow> unit journal_exec" where
  "turn_gate E i = with_live i (\<lambda>l.
     if \<not> jl_context l \<or> \<not> jl_running l \<or> jl_poisoned l then throw Mutation_uncertain
     else seq (perform J_current (te_current E)) (\<lambda>_.
       with_live i (\<lambda>l. if jl_poisoned l then throw Mutation_uncertain else ret ())))"

text \<open>One task of the session's queue: its failure poisons the session.\<close>

definition enqueue :: "string \<Rightarrow> 'a journal_exec \<Rightarrow> 'a journal_exec" where
  "enqueue i m = catch m (\<lambda>e. seq (set_poisoned i) (\<lambda>_. throw e))"

definition record_state :: "journal_env \<Rightarrow> string \<Rightarrow> mutation_state \<Rightarrow> unit journal_exec" where
  "record_state E i st =
     seq (turn_gate E i) (\<lambda>_.
     with_work E (\<lambda>w. seq (lift (fingerprintEvent (te_sha E) (cw_event w))) (\<lambda>fp.
     with_live i (\<lambda>l. seq (perform (J_record (jl_session l) fp st) (te_record E)) (\<lambda>_. turn_gate E i)))))"

definition make_uncertain :: "journal_env \<Rightarrow> string \<Rightarrow> mutation_state \<Rightarrow> unit journal_exec" where
  "make_uncertain E i a =
     seq (turn_gate E i) (\<lambda>_.
     with_work E (\<lambda>w. seq (perform (J_uncertain w (mu_attemptId a)) (te_bool E)) (\<lambda>ok.
       if \<not> ok then throw Mutation_uncertain
       else seq (record_state E i (a\<lparr>mu_status := Uncertain\<rparr>)) (\<lambda>_. set_poisoned i))))"

section \<open>The hooks\<close>

definition session_started :: "string \<Rightarrow> unit journal_exec" where
  "session_started i = change i (\<lambda>l. l\<lparr>jl_registered := True\<rparr>)"

definition verifySource :: "journal_env \<Rightarrow> string \<Rightarrow> error_class + unit" where
  "verifySource E name = guard (te_sources E name = [(adapter_source, ''inline'')]) Mutation_uncertain"

definition new_attempt :: "journal_env \<Rightarrow> nat \<Rightarrow> mutation_tool \<Rightarrow> tool_call \<Rightarrow> string \<Rightarrow> string \<Rightarrow> mutation_state" where
  "new_attempt E n tool c dest t =
     (let w = te_work E n in
      \<lparr>mu_attemptId = te_id E n, mu_eventId = event_id (cw_event w), mu_chat = canonical_chat_jid (cw_event w),
        mu_toolCallId = tc_callId c, mu_tool = tool, mu_destination = dest, mu_startedAt = t,
        mu_ownership = cw_ownership w, mu_status = Attempting\<rparr>)"

definition prepare_attempt :: "journal_env \<Rightarrow> mutation_tool \<Rightarrow> tool_call \<Rightarrow> mutation_state journal_exec" where
  "prepare_attempt E tool c =
     seq (lift (mutationDestination tool (tc_input c))) (\<lambda>dest.
     with_state (\<lambda>s. seq (lift (te_iso E (length (tj_log s)))) (\<lambda>t.
     seq (lift (checked mutation_attempt_schema (new_attempt E (length (tj_log s)) tool c dest t) Mutation_uncertain)) (\<lambda>a.
     seq (perform J_current (te_current E)) (\<lambda>_.
     with_work E (\<lambda>w. ret (a\<lparr>mu_ownership := cw_ownership w\<rparr>)))))))"

text \<open>The attempt is durable in the repository before the call is live, and recorded before it may run.\<close>

definition begin_call :: "journal_env \<Rightarrow> string \<Rightarrow> tool_call \<Rightarrow> mutation_state \<Rightarrow> unit journal_exec" where
  "begin_call E i c a =
     with_work E (\<lambda>w. seq (perform (J_begin w a) (te_bool E)) (\<lambda>ok.
       if \<not> ok then throw Mutation_uncertain
       else change i (\<lambda>l. l\<lparr>jl_calls := jl_calls l @ [(tc_callId c, a)]\<rparr>)))"

definition call_body :: "journal_env \<Rightarrow> string \<Rightarrow> mutation_tool \<Rightarrow> tool_call \<Rightarrow> bool journal_exec" where
  "call_body E i tool c =
     seq (turn_gate E i) (\<lambda>_.
     seq (lift (verifySource E (tc_name c))) (\<lambda>_.
     with_live i (\<lambda>l.
       if map_of (jl_calls l) (tc_callId c) \<noteq> None then throw Mutation_uncertain
       else with_work E (\<lambda>w.
         if \<not> permitsParticipantAttribution tool (tc_input c) (cw_event w) then ret False
         else seq (prepare_attempt E tool c) (\<lambda>a.
           seq (begin_call E i c a) (\<lambda>_.
           seq (record_state E i a) (\<lambda>_. seq (turn_gate E i) (\<lambda>_. ret True))))))))"

definition on_tool_call :: "journal_env \<Rightarrow> string \<Rightarrow> tool_call \<Rightarrow> unit journal_exec" where
  "on_tool_call E i c =
     (case toolOf (tc_name c) of
        None \<Rightarrow> ret ()
      | Some tool \<Rightarrow>
          seq (catch (with_live i (\<lambda>_. seq (enqueue i (call_body E i tool c)) (\<lambda>allowed.
                 ret (if allowed then Allowed else Policy_blocked))))
               (\<lambda>_. seq (set_poisoned i) (\<lambda>_. seq (remark J_abort) (\<lambda>_. ret Uncertain_blocked))))
            (\<lambda>v. remark (J_call c v)))"

text \<open>The confirmed state is durable in the session before the repository confirms it.\<close>

definition confirm_call :: "journal_env \<Rightarrow> string \<Rightarrow> string \<Rightarrow> mutation_state \<Rightarrow> string \<Rightarrow> unit journal_exec" where
  "confirm_call E i cid a mid =
     with_state (\<lambda>s. seq (lift (te_iso E (length (tj_log s)))) (\<lambda>t.
     seq (record_state E i (a\<lparr>mu_status := Confirmed mid t\<rparr>)) (\<lambda>_.
     seq (perform J_current (te_current E)) (\<lambda>_.
     with_work E (\<lambda>w. seq (perform (J_confirm w (mu_attemptId a) mid) (te_bool E)) (\<lambda>ok.
       if \<not> ok then throw Mutation_uncertain
       else seq (turn_gate E i) (\<lambda>_.
         change i (\<lambda>l. l\<lparr>jl_calls := filter (\<lambda>(k, _). k \<noteq> cid) (jl_calls l)\<rparr>))))))))"

definition result_body :: "journal_env \<Rightarrow> string \<Rightarrow> mutation_tool \<Rightarrow> tool_result \<Rightarrow> unit journal_exec" where
  "result_body E i tool r =
     seq (turn_gate E i) (\<lambda>_.
     with_live i (\<lambda>l.
       case map_of (jl_calls l) (tr_callId r) of
         None \<Rightarrow> throw Mutation_uncertain
       | Some a \<Rightarrow>
           if mu_tool a \<noteq> tool then throw Mutation_uncertain
           else seq (lift (mutationDestination tool (tr_input r))) (\<lambda>dest.
             if dest \<noteq> mu_destination a then throw Mutation_uncertain
             else case confirmedMessage (te_parse E) r tool of
                 None \<Rightarrow> seq (make_uncertain E i a) (\<lambda>_. throw Mutation_uncertain)
               | Some mid \<Rightarrow> confirm_call E i (tr_callId r) a mid)))"

definition on_tool_result :: "journal_env \<Rightarrow> string \<Rightarrow> tool_result \<Rightarrow> unit journal_exec" where
  "on_tool_result E i r =
     (case toolOf (tr_name r) of
        None \<Rightarrow> ret ()
      | Some tool \<Rightarrow>
          seq (catch (with_live i (\<lambda>_. seq (enqueue i (result_body E i tool r)) (\<lambda>_. ret True)))
               (\<lambda>_. seq (set_poisoned i) (\<lambda>_. seq (remark J_abort) (\<lambda>_. ret False))))
            (\<lambda>ok. remark (J_result r ok)))"

definition before_provider_request :: "string \<Rightarrow> unit journal_exec" where
  "before_provider_request i = with_state (\<lambda>s.
     case tj_live s i of Some l \<Rightarrow> if jl_poisoned l then remark J_abort else ret () | None \<Rightarrow> ret ())"

section \<open>The run of one turn\<close>

text \<open>What the agent does inside the prompt, in the order of the queue, and how the prompt settles.\<close>

datatype agent_event = Ev_call tool_call | Ev_result tool_result | Ev_request

datatype prompt_end = Prompt_ok | Prompt_failed error_class | Prompt_error

fun agent_step :: "journal_env \<Rightarrow> string \<Rightarrow> agent_event \<Rightarrow> unit journal_exec" where
  "agent_step E i (Ev_call c) = on_tool_call E i c"
| "agent_step E i (Ev_result r) = on_tool_result E i r"
| "agent_step E i Ev_request = before_provider_request i"

fun agent_steps :: "journal_env \<Rightarrow> string \<Rightarrow> agent_event list \<Rightarrow> unit journal_exec" where
  "agent_steps E i [] = ret ()"
| "agent_steps E i (e # es) = seq (agent_step E i e) (\<lambda>_. agent_steps E i es)"

fun unresolved_row :: "mutation_state \<Rightarrow> bool" where
  "unresolved_row m = (mu_status m = Attempting \<or> mu_status m = Uncertain)"

definition list_journal :: "journal_env \<Rightarrow> string \<Rightarrow> mutation_state list journal_exec" where
  "list_journal E chat = perform (J_list chat) (te_list E)"

text \<open>The first live call is converted, then the run fails.\<close>

definition convert_first :: "journal_env \<Rightarrow> string \<Rightarrow> unit journal_exec" where
  "convert_first E i = with_live i (\<lambda>l.
     case jl_calls l of [] \<Rightarrow> throw Mutation_uncertain
     | (_, a) # _ \<Rightarrow> seq (make_uncertain E i a) (\<lambda>_. throw Mutation_uncertain))"

text \<open>\<open>Some e\<close>: the prompt failed, and \<open>e\<close> is the class that is thrown for it.\<close>

definition prompt_class :: "prompt_end \<Rightarrow> mutation_state list \<Rightarrow> error_class option" where
  "prompt_class pend now =
     (case pend of
        Prompt_ok \<Rightarrow> None
      | Prompt_failed e \<Rightarrow> Some (if list_ex (\<lambda>a. is_confirmed (mu_status a)) now then Session_failed else e)
      | Prompt_error \<Rightarrow> Some Session_failed)"

definition settle_run :: "journal_env \<Rightarrow> string \<Rightarrow> notification \<Rightarrow> prompt_end \<Rightarrow> error_class option journal_exec" where
  "settle_run E i ev pend =
     seq (list_journal E (canonical_chat_jid ev)) (\<lambda>rows.
       let now = filter (\<lambda>a. mu_eventId a = event_id ev) rows in
       with_live i (\<lambda>l.
         if jl_calls l \<noteq> [] \<or> list_ex unresolved_row now then seq (convert_first E i) (\<lambda>_. ret None)
         else case prompt_class pend now of
             Some e \<Rightarrow> ret (Some e)
           | None \<Rightarrow> seq (turn_gate E i) (\<lambda>_.
               if list_ex (\<lambda>a. mu_eventId a \<noteq> event_id ev \<or> \<not> is_confirmed (mu_status a)) rows
               then throw Mutation_uncertain else ret None)))"

definition run_body :: "journal_env \<Rightarrow> string \<Rightarrow> agent_event list \<Rightarrow> prompt_end \<Rightarrow> error_class option journal_exec" where
  "run_body E i es pend =
     seq (turn_gate E i) (\<lambda>_.
     with_work E (\<lambda>w. let ev = cw_event w in
     seq (list_journal E (canonical_chat_jid ev)) (\<lambda>prior.
       if list_ex (\<lambda>a. mu_eventId a = event_id ev) prior then throw Mutation_uncertain
       else seq (remark J_prompt) (\<lambda>_. seq (agent_steps E i es) (\<lambda>_. settle_run E i ev pend)))))"

text \<open>The \<open>catch\<close> of \<open>run\<close>: only a prompt's own failure keeps its class.\<close>

definition guarded_run :: "journal_env \<Rightarrow> string \<Rightarrow> agent_event list \<Rightarrow> prompt_end \<Rightarrow> unit journal_exec" where
  "guarded_run E i es pend =
     seq (catch (seq (run_body E i es pend) (\<lambda>r. seq (if r = None then ret () else set_poisoned i) (\<lambda>_. ret r)))
           (\<lambda>_. seq (set_poisoned i) (\<lambda>_. throw Mutation_uncertain)))
       (\<lambda>r. case r of Some e \<Rightarrow> throw e | None \<Rightarrow> ret ())"

definition run :: "journal_env \<Rightarrow> session_binding \<Rightarrow> agent_event list \<Rightarrow> prompt_end \<Rightarrow> unit journal_exec" where
  "run E b es pend =
     seq (get_live b) (\<lambda>l. let i = sb_sessionId b in
       if \<not> jl_context l \<or> jl_running l \<or> jl_poisoned l then throw Mutation_uncertain
       else seq (change i (\<lambda>l. l\<lparr>jl_running := True\<rparr>)) (\<lambda>_.
         finalize (guarded_run E i es pend) (change i (\<lambda>l. l\<lparr>jl_running := False\<rparr>))))"

section \<open>Binding, evidence and disposal\<close>

definition bind_journal :: "session_binding \<Rightarrow> unit journal_exec" where
  "bind_journal b = with_state (\<lambda>s.
     if tj_live s (sb_sessionId b) \<noteq> None then throw Mutation_uncertain
     else modify (\<lambda>s. s\<lparr>tj_live := (tj_live s)(sb_sessionId b \<mapsto>
       \<lparr>jl_session = b, jl_context = False, jl_running = False, jl_poisoned = False, jl_registered = False, jl_calls = []\<rparr>)\<rparr>))"

definition attach_turn :: "journal_env \<Rightarrow> session_binding \<Rightarrow> unit journal_exec" where
  "attach_turn E b =
     seq (get_live b) (\<lambda>_. let i = sb_sessionId b in
     seq (perform J_current (te_current E)) (\<lambda>_.
     with_work E (\<lambda>w. with_live i (\<lambda>l.
       if \<not> jl_registered l \<or> jl_context l \<or> jl_poisoned l \<or> canonical_chat_jid (cw_event w) \<noteq> sb_chat b
       then throw Mutation_uncertain
       else change i (\<lambda>l. l\<lparr>jl_context := True\<rparr>)))))"

fun send_of :: "mutation_state \<Rightarrow> confirmed_send option" where
  "send_of m = (case mu_status m of Confirmed mid _ \<Rightarrow> Some \<lparr>cs_destination = mu_destination m, cs_messageId = mid\<rparr> | _ \<Rightarrow> None)"

text \<open>\<open>new Map\<close> keeps the place of the first of equal keys.\<close>

definition unique_sends :: "mutation_state list \<Rightarrow> confirmed_send list" where
  "unique_sends rows = rev (remdups (rev (List.map_filter send_of rows)))"

definition confirmed :: "journal_env \<Rightarrow> confirmed_send list journal_exec" where
  "confirmed E =
     seq (perform J_current (te_current E)) (\<lambda>_.
     with_work E (\<lambda>w. seq (list_journal E (canonical_chat_jid (cw_event w))) (\<lambda>rows.
     with_work E (\<lambda>w. if list_ex (\<lambda>a. mu_eventId a \<noteq> event_id (cw_event w) \<or> \<not> is_confirmed (mu_status a)) rows
       then throw Mutation_uncertain else ret (unique_sends rows)))))"

definition own_lookup :: "journal_env \<Rightarrow> string \<Rightarrow> string \<Rightarrow> own_mutation journal_exec" where
  "own_lookup E actual mid = perform (J_own actual mid) (te_own E)"

definition index_lookup :: "journal_env \<Rightarrow> own_class journal_exec" where
  "index_lookup E = perform J_fallback (te_fallback E)"

definition classify_own :: "journal_env \<Rightarrow> string \<Rightarrow> string \<Rightarrow> own_class journal_exec" where
  "classify_own E actual mid =
     seq (own_lookup E actual mid) (\<lambda>first.
     if first = O_uncertain then ret Own_uncertain
     else seq (index_lookup E) (\<lambda>indexed.
       if indexed = Own_uncertain then ret Own_uncertain
       else seq (own_lookup E actual mid) (\<lambda>last.
         if last = O_uncertain then ret Own_uncertain
         else if last = O_confirmed \<or> indexed = Own_confirmed then ret Own_confirmed
         else if first = O_confirmed
           then seq (index_lookup E) (\<lambda>settled. ret (if settled = Own_confirmed then Own_confirmed else Own_uncertain))
         else ret indexed)))"

definition dispose_journal :: "session_binding \<Rightarrow> unit journal_exec" where
  "dispose_journal b =
     seq (get_live b) (\<lambda>l. if jl_running l then throw Mutation_uncertain
       else modify (\<lambda>s. s\<lparr>tj_live := (tj_live s)(sb_sessionId b := None)\<rparr>))"

end
