(* ===== verification/Journal_Spec.thy ===== *)
theory Journal_Spec
  imports Journal
begin

text \<open>
  The properties of the tool journal: the depth check equals the depth of the value, the policy on
  attribution and destinations, no mutation runs without a durable attempt, a run that succeeds has
  confirmed every attempt with an exact envelope, and a failed run is final.
\<close>

section \<open>The depth of a value\<close>

fun json_depth :: "json \<Rightarrow> nat" where
  "json_depth (JArr xs) = Suc (Max (set (0 # map json_depth xs)))"
| "json_depth (JObj kv) = Suc (Max (set (0 # map (\<lambda>(_, v). json_depth v) kv)))"
| "json_depth _ = 0"

lemma Max_plus_le: "finite S \<Longrightarrow> Max (insert 0 S) + k \<le> m \<longleftrightarrow> k \<le> m \<and> (\<forall>x \<in> S. x + k \<le> (m :: nat))"
proof -
  assume "finite S"
  then have "Max (insert 0 S) \<le> m - k \<longleftrightarrow> (\<forall>x \<in> S. x \<le> m - k)" by simp
  then show ?thesis by (cases "k \<le> m") (auto simp: le_diff_conv2)
qed

lemma json_depth_children:
  assumes "is_container v"
  shows "json_depth v + d \<le> m \<longleftrightarrow> Suc d \<le> m \<and> (\<forall>c \<in> set (children v). json_depth c + Suc d \<le> m)"
proof (cases v)
  case (JArr xs)
  then show ?thesis using Max_plus_le [of "json_depth ` set xs" "Suc d" m] by simp
next
  case (JObj kv)
  then show ?thesis
    using Max_plus_le [of "(\<lambda>(_, v). json_depth v) ` set kv" "Suc d" m] by (simp add: case_prod_beta)
qed (use assms in simp_all)

lemma json_depth_scalar: "\<not> is_container v \<Longrightarrow> json_depth v = 0"
  by (cases v) auto

lemma within_stack_depth:
  "(\<forall>(v, d) \<in> set st. d \<le> m) \<Longrightarrow> within_stack m st \<longleftrightarrow> (\<forall>(v, d) \<in> set st. json_depth v + d \<le> m)"
proof (induction m st rule: within_stack.induct)
  case (2 m v d rest)
  show ?case
  proof (cases "is_container v")
    case False
    then show ?thesis using 2 by (simp add: json_depth_scalar)
  next
    case True
    note c = json_depth_children [OF True, of d m]
    show ?thesis
    proof (cases "m < Suc d")
      case True
      then show ?thesis using \<open>is_container v\<close> c by auto
    next
      case False
      have "within_stack m ((v, d) # rest) = within_stack m (rev (map (\<lambda>c. (c, Suc d)) (children v)) @ rest)"
        using True False by simp
      also have "\<dots> \<longleftrightarrow> (\<forall>(v, d) \<in> set (rev (map (\<lambda>c. (c, Suc d)) (children v)) @ rest). json_depth v + d \<le> m)"
        using 2 True False by (intro "2.IH") auto
      also have "\<dots> \<longleftrightarrow> (\<forall>(v, d) \<in> set ((v, d) # rest). json_depth v + d \<le> m)"
        using c False by (simp add: ball_Un)
      finally show ?thesis .
    qed
  qed
qed simp

text \<open>The iterative depth check decides exactly whether the nesting depth of the value is within the maximum.\<close>

theorem depth_check_is_depth: "withinDepth maximum v \<longleftrightarrow> json_depth v \<le> maximum"
  using within_stack_depth [of "[(v, 0)]" maximum] by (simp add: withinDepth_def)

section \<open>Attribution and destinations\<close>

lemma participantIdentity_strict: "participantIdentity False (Some v) = Some i \<Longrightarrow> v = JStr i"
  by (auto simp: participantIdentity_def Let_def split: json.splits if_splits)

lemma participantIdentity_of_jid:
  assumes "participant_jid j"
  shows "participantIdentity alias (Some (JStr j)) = Some j"
proof -
  define u where "u = takeWhile is_digit j"
  define r where "r = dropWhile is_digit j"
  have j: "j = u @ r" by (simp add: u_def r_def)
  have r: "r \<in> set participant_servers" and u: "u \<noteq> []" and n: "\<not> 128 < length j"
    using assms by (auto simp: participant_jid_def jid_with_def jid_user_def jid_server_def participant_servers_def u_def r_def)
  then have "drop_device r = r" by (auto simp: drop_device_def participant_servers_def)
  then show ?thesis
    unfolding participantIdentity_def option.case json.case u_def [symmetric] r_def [symmetric]
    using r u n j by (simp add: Let_def)
qed

lemma sender_aliases_set:
  assumes "notification_schema ev"
  shows "set (sender_aliases ev) = insert (sender_jid ev) (set_option (sender_alt_jid ev))"
proof -
  have "participantIdentity True None = None" by (simp add: participantIdentity_def)
  then show ?thesis using assms participantIdentity_of_jid
    by (auto simp: sender_aliases_def notification_schema_def map_filter_simps split: option.splits)
qed

definition mentions_sender :: "json option \<Rightarrow> notification \<Rightarrow> bool" where
  "mentions_sender v ev \<longleftrightarrow> v = None \<or> v = Some JNull \<or> v = Some (JArr []) \<or>
     (\<exists>m. v = Some (JArr [JStr m]) \<and> (m = sender_jid ev \<or> sender_alt_jid ev = Some m))"

text \<open>For an admitted event a text send is permitted exactly when it quotes nobody and mentions at most the sender of that event, under one of the two JIDs of the event.\<close>

theorem attribution_only_to_sender:
  assumes "notification_schema ev" "tool \<in> attribution_tools"
  shows "permitsParticipantAttribution tool inp ev \<longleftrightarrow>
    empty_quote (jget inp ''quoted_message_id'') \<and> empty_quote (jget inp ''quoted_participant'') \<and>
    mentions_sender (jget inp ''mentions'') ev"
proof -
  have jid: "participantIdentity False (Some (JStr m)) = Some m" if "m \<in> set (sender_aliases ev)" for m
    using that assms(1) sender_aliases_set [OF assms(1)]
    by (intro participantIdentity_of_jid) (auto simp: notification_schema_def)
  have one: "(case participantIdentity False (Some v) of None \<Rightarrow> False | Some i \<Rightarrow> i \<in> set (sender_aliases ev)) \<longleftrightarrow>
      (\<exists>m. v = JStr m \<and> (m = sender_jid ev \<or> sender_alt_jid ev = Some m))" for v
  proof
    assume "case participantIdentity False (Some v) of None \<Rightarrow> False | Some i \<Rightarrow> i \<in> set (sender_aliases ev)"
    then obtain i where "v = JStr i" "i \<in> set (sender_aliases ev)"
      using participantIdentity_strict by (auto split: option.splits)
    then show "\<exists>m. v = JStr m \<and> (m = sender_jid ev \<or> sender_alt_jid ev = Some m)"
      using sender_aliases_set [OF assms(1)] by (auto split: option.splits)
  next
    assume "\<exists>m. v = JStr m \<and> (m = sender_jid ev \<or> sender_alt_jid ev = Some m)"
    then obtain m where "v = JStr m" "m \<in> set (sender_aliases ev)"
      using sender_aliases_set [OF assms(1)] by (auto split: option.splits)
    then show "case participantIdentity False (Some v) of None \<Rightarrow> False | Some i \<Rightarrow> i \<in> set (sender_aliases ev)"
      using jid by simp
  qed
  define sender where "sender v = (case participantIdentity False (Some v) of None \<Rightarrow> False | Some i \<Rightarrow> i \<in> set (sender_aliases ev))" for v
  have arr: "(case v of None \<Rightarrow> True | Some JNull \<Rightarrow> True | Some (JArr []) \<Rightarrow> True | Some (JArr [m]) \<Rightarrow> sender m
      | _ \<Rightarrow> False) \<longleftrightarrow> mentions_sender v ev" for v
    using one by (auto simp: mentions_sender_def sender_def [symmetric] split: option.split json.split list.split)
  show ?thesis using assms(2) by (auto simp: permitsParticipantAttribution_def arr [unfolded sender_def])
qed

text \<open>The destination of an accepted mutation is a group or private JID: the argument itself, or for the text and media sends a bare telephone number completed to the private JID of its digits; giving the JID again yields the same destination.\<close>

theorem destination_is_chat:
  assumes "mutationDestination tool inp = Inr d"
  shows "chat_jid_schema d \<and>
    (\<exists>v. jget inp (destination_field tool) = Some (JStr v) \<and>
      (d = v \<or> tool \<in> normalizing \<and> CHR ''@'' \<notin> set v \<and> filter is_digit v \<noteq> [] \<and> d = filter is_digit v @ ''@s.whatsapp.net'')) \<and>
    mutationDestination tool [(destination_field tool, JStr d)] = Inr d"
proof -
  obtain v where v: "as_str (jget inp (destination_field tool)) = Some v"
    using assms by (auto simp: mutationDestination_def split: option.splits)
  then have j: "jget inp (destination_field tool) = Some (JStr v)" by (elim as_str.elims) auto
  have d: "chat_jid_schema d"
    using assms v by (auto simp: mutationDestination_def Let_def)
  then have at: "CHR ''@'' \<in> set d"
    by (intro set_dropWhileD [of "CHR ''@''" is_digit d])
      (auto simp: chat_jid_schema_def group_jid_def private_jid_def jid_with_def jid_server_def)
  show ?thesis
    using assms v d at j by (auto simp: mutationDestination_def Let_def jget_def split: if_splits)
qed

section \<open>What the log says of an attempt\<close>

text \<open>All positions are from \<open>k\<close>, the length of the log at the start of the run.\<close>

definition attempt_begun :: "journal_env \<Rightarrow> nat \<Rightarrow> journal_effect list \<Rightarrow> mutation_state \<Rightarrow> bool" where
  "attempt_begun E k log a \<longleftrightarrow> (\<exists>n w. k \<le> n \<and> n < length log \<and> log ! n = J_begin w a \<and> te_bool E n = Inr True)"

definition recorded :: "journal_env \<Rightarrow> nat \<Rightarrow> journal_effect list \<Rightarrow> session_binding \<Rightarrow> mutation_state \<Rightarrow> bool" where
  "recorded E k log b a \<longleftrightarrow> (\<exists>n fp. k \<le> n \<and> n < length log \<and> log ! n = J_record b fp a \<and> te_record E n = Inr ())"

text \<open>The attempt that a tool call gives, under the policy on attribution.\<close>

definition attempt_for :: "journal_env \<Rightarrow> notification \<Rightarrow> tool_call \<Rightarrow> mutation_state \<Rightarrow> bool" where
  "attempt_for E ev c a \<longleftrightarrow>
     toolOf (tc_name c) = Some (mu_tool a) \<and> te_sources E (tc_name c) = [(adapter_source, ''inline'')] \<and>
     permitsParticipantAttribution (mu_tool a) (tc_input c) ev \<and>
     mutationDestination (mu_tool a) (tc_input c) = Inr (mu_destination a) \<and>
     mu_toolCallId a = tc_callId c \<and> mu_eventId a = event_id ev \<and> mu_chat a = canonical_chat_jid ev \<and> mu_status a = Attempting"

definition journaled :: "journal_env \<Rightarrow> notification \<Rightarrow> nat \<Rightarrow> journal_effect list \<Rightarrow> session_binding \<Rightarrow> tool_call \<Rightarrow> bool" where
  "journaled E ev k log b c \<longleftrightarrow> (\<exists>a. attempt_for E ev c a \<and> attempt_begun E k log a \<and> recorded E k log b a)"

text \<open>The durable record of the confirmed state comes before the confirmation in the repository.\<close>

definition settled_send :: "journal_env \<Rightarrow> tool_result set \<Rightarrow> nat \<Rightarrow> journal_effect list \<Rightarrow> session_binding \<Rightarrow> mutation_state \<Rightarrow> bool" where
  "settled_send E R k log b a \<longleftrightarrow> (\<exists>r \<in> R. \<exists>mid t m w.
     tr_callId r = mu_toolCallId a \<and> confirmedMessage (te_parse E) r (mu_tool a) = Some mid \<and>
     m < length log \<and> log ! m = J_confirm w (mu_attemptId a) mid \<and> te_bool E m = Inr True \<and>
     recorded E k (take m log) b (a\<lparr>mu_status := Confirmed mid t\<rparr>))"

lemma ex_snoc: "(\<exists>n. n < length (xs @ [e]) \<and> P n ((xs @ [e]) ! n)) \<longleftrightarrow> (\<exists>n. n < length xs \<and> P n (xs ! n)) \<or> P (length xs) e"
proof -
  have "(\<exists>n. n < length (xs @ [e]) \<and> P n ((xs @ [e]) ! n)) \<longleftrightarrow>
      (\<exists>n. n < length xs \<and> P n ((xs @ [e]) ! n)) \<or> P (length xs) ((xs @ [e]) ! length xs)"
    by (auto simp: less_Suc_eq)
  also have "\<dots> \<longleftrightarrow> (\<exists>n. n < length xs \<and> P n (xs ! n)) \<or> P (length xs) e"
    by (auto simp: nth_append)
  finally show ?thesis .
qed

lemma attempt_begun_snoc:
  "attempt_begun E k (log @ [e]) a \<longleftrightarrow> attempt_begun E k log a \<or> k \<le> length log \<and> (\<exists>w. e = J_begin w a) \<and> te_bool E (length log) = Inr True"
  using ex_snoc [of log e "\<lambda>n x. k \<le> n \<and> (\<exists>w. x = J_begin w a) \<and> te_bool E n = Inr True"] unfolding attempt_begun_def by blast

lemma recorded_snoc:
  "recorded E k (log @ [e]) b a \<longleftrightarrow>
   recorded E k log b a \<or> k \<le> length log \<and> (\<exists>fp. e = J_record b fp a) \<and> te_record E (length log) = Inr ()"
  using ex_snoc [of log e "\<lambda>n x. k \<le> n \<and> (\<exists>fp. x = J_record b fp a) \<and> te_record E n = Inr ()"] unfolding recorded_def by blast

lemma journaled_snoc: "journaled E ev k log b c \<Longrightarrow> journaled E ev k (log @ [e]) b c"
  unfolding journaled_def attempt_begun_snoc recorded_snoc by blast

lemma settled_snoc: "settled_send E R k log b a \<Longrightarrow> settled_send E R k (log @ [e]) b a"
proof -
  assume "settled_send E R k log b a"
  then obtain r mid t m w where "r \<in> R" "tr_callId r = mu_toolCallId a" "confirmedMessage (te_parse E) r (mu_tool a) = Some mid"
    "m < length log" "log ! m = J_confirm w (mu_attemptId a) mid" "te_bool E m = Inr True"
    "recorded E k (take m log) b (a\<lparr>mu_status := Confirmed mid t\<rparr>)"
    unfolding settled_send_def by blast
  moreover from this have "(log @ [e]) ! m = J_confirm w (mu_attemptId a) mid" "take m (log @ [e]) = take m log"
    by (simp_all add: nth_append)
  ultimately show ?thesis unfolding settled_send_def by (metis length_append trans_less_add1)
qed

section \<open>The invariant of a running session\<close>

definition calm :: "nat \<Rightarrow> journal_effect list \<Rightarrow> bool" where
  "calm k log \<longleftrightarrow> (\<forall>p. k \<le> p \<and> p < length log \<longrightarrow>
     (\<forall>c. log ! p \<noteq> J_call c Uncertain_blocked) \<and> (\<forall>r. log ! p \<noteq> J_result r False))"

definition all_journaled :: "journal_env \<Rightarrow> notification \<Rightarrow> nat \<Rightarrow> journal_effect list \<Rightarrow> session_binding \<Rightarrow> bool" where
  "all_journaled E ev k log b \<longleftrightarrow> (\<forall>p c. k \<le> p \<and> p < length log \<and> log ! p = J_call c Allowed \<longrightarrow> journaled E ev k (take p log) b c)"

definition calls_inv :: "journal_env \<Rightarrow> nat \<Rightarrow> journal_effect list \<Rightarrow> (string \<times> mutation_state) list \<Rightarrow> bool" where
  "calls_inv E k log calls \<longleftrightarrow> distinct (map fst calls) \<and> (\<forall>(cid, a) \<in> set calls. mu_toolCallId a = cid \<and> attempt_begun E k log a)"

definition turn_inv :: "journal_env \<Rightarrow> notification \<Rightarrow> tool_result set \<Rightarrow> nat \<Rightarrow> session_binding \<Rightarrow> live \<Rightarrow> journal_effect list \<Rightarrow> bool" where
  "turn_inv E ev R k b l log \<longleftrightarrow> jl_session l = b \<and> k \<le> length log \<and> calls_inv E k log (jl_calls l) \<and> all_journaled E ev k log b \<and>
     (jl_poisoned l \<or> calm k log \<and>
       (\<forall>a. attempt_begun E k log a \<longrightarrow> (mu_toolCallId a, a) \<in> set (jl_calls l) \<or> settled_send E R k log b a))"

fun is_verdict :: "journal_effect \<Rightarrow> bool" where
  "is_verdict (J_call _ _) = True"
| "is_verdict (J_result _ _) = True"
| "is_verdict _ = False"

fun is_begin_call :: "journal_effect \<Rightarrow> bool" where
  "is_begin_call (J_begin _ _) = True"
| "is_begin_call _ = False"

lemma all_snoc: "(\<forall>n. n < length (xs @ [e]) \<longrightarrow> P n ((xs @ [e]) ! n)) \<longleftrightarrow> (\<forall>n. n < length xs \<longrightarrow> P n (xs ! n)) \<and> P (length xs) e"
  using ex_snoc [of xs e "\<lambda>n x. \<not> P n x"] by blast

lemma all_journaled_snoc:
  "all_journaled E ev k (log @ [e]) b \<longleftrightarrow>
   all_journaled E ev k log b \<and> (\<forall>c. k \<le> length log \<and> e = J_call c Allowed \<longrightarrow> journaled E ev k log b c)"
proof -
  let ?P = "\<lambda>t n x. \<forall>c. k \<le> n \<and> x = J_call c Allowed \<longrightarrow> journaled E ev k (t n) b c"
  have "all_journaled E ev k (log @ [e]) b \<longleftrightarrow>
      (\<forall>n. n < length (log @ [e]) \<longrightarrow> ?P (\<lambda>n. take n (log @ [e])) n ((log @ [e]) ! n))"
    unfolding all_journaled_def by blast
  also have "\<dots> \<longleftrightarrow> (\<forall>n. n < length log \<longrightarrow> ?P (\<lambda>n. take n (log @ [e])) n (log ! n)) \<and> ?P (\<lambda>n. take n (log @ [e])) (length log) e"
    by (rule all_snoc)
  also have "\<dots> \<longleftrightarrow> all_journaled E ev k log b \<and> ?P (\<lambda>_. log) (length log) e"
    unfolding all_journaled_def by (simp cong: conj_cong imp_cong) blast
  finally show ?thesis by simp
qed

lemma calm_snoc:
  "calm k (log @ [e]) \<longleftrightarrow> calm k log \<and> (k \<le> length log \<longrightarrow> (\<forall>c. e \<noteq> J_call c Uncertain_blocked) \<and> (\<forall>r. e \<noteq> J_result r False))"
  using all_snoc [of log e "\<lambda>n x. k \<le> n \<longrightarrow> (\<forall>c. x \<noteq> J_call c Uncertain_blocked) \<and> (\<forall>r. x \<noteq> J_result r False)"]
  unfolding calm_def by blast

lemma calls_inv_snoc: "calls_inv E k log calls \<Longrightarrow> calls_inv E k (log @ [e]) calls"
  unfolding calls_inv_def attempt_begun_snoc by blast

lemma turn_inv_snoc:
  assumes "turn_inv E ev R k b l log" "\<not> is_verdict e" "\<not> is_begin_call e"
  shows "turn_inv E ev R k b l (log @ [e])"
proof -
  have "attempt_begun E k (log @ [e]) a \<longleftrightarrow> attempt_begun E k log a" for a using assms(3) by (auto simp: attempt_begun_snoc)
  moreover have "all_journaled E ev k (log @ [e]) b \<longleftrightarrow> all_journaled E ev k log b" "calm k (log @ [e]) \<longleftrightarrow> calm k log"
    using assms(2) by (auto simp: all_journaled_snoc calm_snoc)
  ultimately show ?thesis
    using assms(1) by (auto simp: turn_inv_def intro: calls_inv_snoc settled_snoc)
qed

lemma turn_inv_poison: "turn_inv E ev R k b l log \<Longrightarrow> turn_inv E ev R k b (l\<lparr>jl_poisoned := True\<rparr>) log"
  by (simp add: turn_inv_def)

lemma turn_inv_running: "turn_inv E ev R k b l log \<Longrightarrow> turn_inv E ev R k b (l\<lparr>jl_running := v\<rparr>) log"
  by (simp add: turn_inv_def)

lemma turn_inv_call:
  assumes "turn_inv E ev R k b l log" "v = Allowed \<longrightarrow> journaled E ev k log b c" "v = Uncertain_blocked \<longrightarrow> jl_poisoned l"
  shows "turn_inv E ev R k b l (log @ [J_call c v])"
proof -
  have "attempt_begun E k (log @ [J_call c v]) a \<longleftrightarrow> attempt_begun E k log a" for a by (auto simp: attempt_begun_snoc)
  then show ?thesis
    using assms by (auto simp: turn_inv_def all_journaled_snoc calm_snoc intro: calls_inv_snoc settled_snoc)
qed

lemma turn_inv_result:
  assumes "turn_inv E ev R k b l log" "\<not> ok \<longrightarrow> jl_poisoned l"
  shows "turn_inv E ev R k b l (log @ [J_result r ok])"
proof -
  have "attempt_begun E k (log @ [J_result r ok]) a \<longleftrightarrow> attempt_begun E k log a" for a by (auto simp: attempt_begun_snoc)
  then show ?thesis
    using assms by (auto simp: turn_inv_def all_journaled_snoc calm_snoc intro: calls_inv_snoc settled_snoc)
qed

section \<open>Every step keeps the invariant\<close>

text \<open>\<open>X\<close> is what the code has learnt of the live calls and the log.\<close>

definition during :: "journal_env \<Rightarrow> notification \<Rightarrow> tool_result set \<Rightarrow> nat \<Rightarrow> session_binding \<Rightarrow>
    ((string \<times> mutation_state) list \<Rightarrow> journal_effect list \<Rightarrow> bool) \<Rightarrow> tool_journal \<Rightarrow> bool" where
  "during E ev R k b X s \<longleftrightarrow> (\<exists>l. tj_live s (sb_sessionId b) = Some l \<and> turn_inv E ev R k b l (tj_log s) \<and> X (jl_calls l) (tj_log s))"

definition lasting :: "('c \<Rightarrow> journal_effect list \<Rightarrow> bool) \<Rightarrow> bool" where
  "lasting X \<longleftrightarrow> (\<forall>cs log e. X cs log \<longrightarrow> X cs (log @ [e]))"

definition is_poisoned :: "string \<Rightarrow> tool_journal \<Rightarrow> bool" where
  "is_poisoned i s \<longleftrightarrow> (\<exists>l. tj_live s i = Some l \<and> jl_poisoned l)"

abbreviation anything :: "'c \<Rightarrow> 'd \<Rightarrow> bool" where
  "anything \<equiv> \<lambda>_ _. True"

lemma lasting_intros [intro, simp]:
  "lasting anything" "lasting (\<lambda>cs _. P cs)"
  "lasting X \<Longrightarrow> lasting Y \<Longrightarrow> lasting (\<lambda>cs log. X cs log \<and> Y cs log)"
  "lasting (\<lambda>_ log. attempt_begun E k log a)" "lasting (\<lambda>_ log. recorded E k log b a)" "lasting (\<lambda>_ log. settled_send E R k log b a)"
  by (auto simp: lasting_def attempt_begun_snoc recorded_snoc intro: settled_snoc)

lemma during_weaken: "during E ev R k b X s \<Longrightarrow> (\<And>cs log. X cs log \<Longrightarrow> Y cs log) \<Longrightarrow> during E ev R k b Y s"
  by (auto simp: during_def)

lemma during_any: "during E ev R k b X s \<Longrightarrow> during E ev R k b anything s"
  by (auto simp: during_def)

lemma triple_with_live:
  "(\<And>l. triple (\<lambda>s. P s \<and> tj_live s i = Some l) (f l) Q R') \<Longrightarrow> (\<And>s. P s \<Longrightarrow> R' Mutation_uncertain s) \<Longrightarrow>
   triple P (with_live i f) Q R'"
  by (auto simp: triple_def with_live_def with_state_def throw_def split: option.split)

lemma triple_with_work:
  "(\<And>n. triple (\<lambda>s. P s \<and> length (tj_log s) = n) (f (te_work E n)) Q R') \<Longrightarrow> triple P (with_work E f) Q R'"
  by (auto simp: triple_def with_work_def with_state_def)

lemma triple_perform:
  assumes "lasting X" "\<not> is_verdict e" "\<not> is_begin_call e"
  shows "triple (during E ev R k b X) (perform e a) (\<lambda>_. during E ev R k b X) (\<lambda>_. during E ev R k b anything)"
  using assms by (auto simp: triple_def perform_def during_def lasting_def intro: turn_inv_snoc split: sum.split)

lemma triple_poison:
  "triple (during E ev R k b X) (set_poisoned (sb_sessionId b)) (\<lambda>_ s. during E ev R k b X s \<and> is_poisoned (sb_sessionId b) s) Q"
  by (auto simp: triple_def set_poisoned_def change_def modify_def during_def is_poisoned_def intro: turn_inv_poison)

lemma triple_post: "triple P m Q R' \<Longrightarrow> (\<And>x s. Q x s \<Longrightarrow> Q' x s) \<Longrightarrow> triple P m Q' R'"
  by (erule triple_weaken) auto

lemma triple_pre: "triple P m Q R' \<Longrightarrow> (\<And>s. P' s \<Longrightarrow> P s) \<Longrightarrow> triple P' m Q R'"
  by (erule triple_weaken) auto

lemma triple_gate:
  assumes "lasting X"
  shows "triple (during E ev R k b X) (turn_gate E (sb_sessionId b))
    (\<lambda>_ s. during E ev R k b X s \<and> \<not> is_poisoned (sb_sessionId b) s) (\<lambda>_. during E ev R k b anything)"
  unfolding turn_gate_def
proof (rule triple_with_live)
  fix l
  show "triple (\<lambda>s. during E ev R k b X s \<and> tj_live s (sb_sessionId b) = Some l)
      (if \<not> jl_context l \<or> \<not> jl_running l \<or> jl_poisoned l then throw Mutation_uncertain
       else seq (perform J_current (te_current E)) (\<lambda>_. with_live (sb_sessionId b) (\<lambda>l. if jl_poisoned l then throw Mutation_uncertain else ret ())))
      (\<lambda>_ s. during E ev R k b X s \<and> \<not> is_poisoned (sb_sessionId b) s) (\<lambda>_. during E ev R k b anything)"
    using assms
    by (intro triple_if triple_throw triple_seq [OF triple_pre [OF triple_perform [of X]]] triple_with_live triple_ret)
      (auto dest: during_any simp: is_poisoned_def)
qed (rule during_any)

text \<open>The rules by which the code is followed call by call.\<close>

lemma then_perform:
  "lasting X \<Longrightarrow> \<not> is_verdict e \<Longrightarrow> \<not> is_begin_call e \<Longrightarrow>
   (\<And>x. triple (during E ev R k b X) (f x) Q (\<lambda>_. during E ev R k b anything)) \<Longrightarrow>
   triple (during E ev R k b X) (seq (perform e a) f) Q (\<lambda>_. during E ev R k b anything)"
  by (rule triple_seq [OF triple_perform])

lemma then_gate:
  "lasting X \<Longrightarrow> triple (during E ev R k b X) (f ()) Q (\<lambda>_. during E ev R k b anything) \<Longrightarrow>
   triple (during E ev R k b X) (seq (turn_gate E (sb_sessionId b)) f) Q (\<lambda>_. during E ev R k b anything)"
  by (rule triple_seq [OF triple_post [OF triple_gate]]) auto

lemma then_lift:
  "(\<And>x. r = Inr x \<Longrightarrow> triple (during E ev R k b X) (f x) Q (\<lambda>_. during E ev R k b anything)) \<Longrightarrow>
   triple (during E ev R k b X) (seq (lift r) f) Q (\<lambda>_. during E ev R k b anything)"
  by (cases r) (auto intro: triple_throw during_any)

lemma during_throw: "triple (during E ev R k b X) (throw e) Q (\<lambda>_. during E ev R k b anything)"
  by (auto intro: triple_throw during_any)

text \<open>A record ends up in the log with its answer.\<close>

lemma triple_record:
  assumes "lasting X"
  shows "triple (during E ev R k b X) (perform (J_record b fp st) (te_record E))
    (\<lambda>_. during E ev R k b (\<lambda>cs log. X cs log \<and> recorded E k log b st)) (\<lambda>_. during E ev R k b anything)"
proof -
  have log: "turn_inv E ev R k b l (log @ [J_record b fp st])" "k \<le> length log" if "turn_inv E ev R k b l log" for l log
    using that turn_inv_snoc [OF that, of "J_record b fp st"] by (auto simp: turn_inv_def)
  have X: "X cs (log @ [J_record b fp st])" if "X cs log" for cs log using assms that by (auto simp: lasting_def)
  show ?thesis
    by (auto simp: triple_def perform_def during_def recorded_snoc intro: log X split: sum.split)
qed

lemma triple_record_state:
  assumes "lasting X"
  shows "triple (during E ev R k b X) (record_state E (sb_sessionId b) st)
    (\<lambda>_. during E ev R k b (\<lambda>cs log. X cs log \<and> recorded E k log b st)) (\<lambda>_. during E ev R k b anything)"
  unfolding record_state_def
proof (intro then_gate triple_with_work, goal_cases)
  case (2 n)
  have "triple (during E ev R k b X)
      (with_live (sb_sessionId b) (\<lambda>l. seq (perform (J_record (jl_session l) fp st) (te_record E)) (\<lambda>_. turn_gate E (sb_sessionId b))))
      (\<lambda>_. during E ev R k b (\<lambda>cs log. X cs log \<and> recorded E k log b st)) (\<lambda>_. during E ev R k b anything)" for fp
  proof (rule triple_with_live)
    fix l :: live
    have "triple (\<lambda>s. during E ev R k b X s \<and> jl_session l = b)
        (seq (perform (J_record (jl_session l) fp st) (te_record E)) (\<lambda>_. turn_gate E (sb_sessionId b)))
        (\<lambda>_. during E ev R k b (\<lambda>cs log. X cs log \<and> recorded E k log b st)) (\<lambda>_. during E ev R k b anything)"
    proof (cases "jl_session l = b")
      case True
      then show ?thesis
        using assms by (auto intro!: triple_seq [OF triple_record] triple_post [OF triple_gate])
    qed (simp add: triple_def)
    then show "triple (\<lambda>s. during E ev R k b X s \<and> tj_live s (sb_sessionId b) = Some l)
        (seq (perform (J_record (jl_session l) fp st) (te_record E)) (\<lambda>_. turn_gate E (sb_sessionId b)))
        (\<lambda>_. during E ev R k b (\<lambda>cs log. X cs log \<and> recorded E k log b st)) (\<lambda>_. during E ev R k b anything)"
      by (rule triple_pre) (auto simp: during_def turn_inv_def)
  qed (rule during_any)
  then show ?case by (intro triple_pre [OF then_lift]) auto
qed (rule assms)

lemma triple_uncertain:
  assumes "lasting X"
  shows "triple (during E ev R k b X) (make_uncertain E (sb_sessionId b) a)
    (\<lambda>_. during E ev R k b X) (\<lambda>_. during E ev R k b anything)"
  unfolding make_uncertain_def
proof (intro then_gate triple_with_work, goal_cases)
  case (2 n)
  have "triple (during E ev R k b X)
      (seq (perform (J_uncertain (te_work E n) (mu_attemptId a)) (te_bool E)) (\<lambda>ok. if \<not> ok then throw Mutation_uncertain
        else seq (record_state E (sb_sessionId b) (a\<lparr>mu_status := Uncertain\<rparr>)) (\<lambda>_. set_poisoned (sb_sessionId b))))
      (\<lambda>_. during E ev R k b X) (\<lambda>_. during E ev R k b anything)"
    using assms
    by (intro then_perform triple_if during_throw triple_seq [OF triple_record_state] triple_post [OF triple_poison])
      (auto elim: during_weaken)
  then show ?case by (rule triple_pre) simp
qed (rule assms)

section \<open>The hooks keep the invariant\<close>

text \<open>Every answer of the turn context is about the same event.\<close>

definition steady :: "journal_env \<Rightarrow> notification \<Rightarrow> bool" where
  "steady E ev \<longleftrightarrow> (\<forall>n. cw_event (te_work E n) = ev)"

definition drafted :: "notification \<Rightarrow> mutation_tool \<Rightarrow> tool_call \<Rightarrow> mutation_state \<Rightarrow> bool" where
  "drafted ev tool c a \<longleftrightarrow> mu_tool a = tool \<and> mutationDestination tool (tc_input c) = Inr (mu_destination a) \<and>
     mu_toolCallId a = tc_callId c \<and> mu_eventId a = event_id ev \<and> mu_chat a = canonical_chat_jid ev \<and> mu_status a = Attempting"

lemma triple_prepare:
  assumes "lasting X" "steady E ev"
  shows "triple (during E ev R k b X) (prepare_attempt E tool c)
    (\<lambda>a s. drafted ev tool c a \<and> during E ev R k b X s) (\<lambda>_. during E ev R k b anything)"
  unfolding prepare_attempt_def
proof (intro then_lift triple_with_state, goal_cases)
  case (1 dest s0)
  let ?n = "length (tj_log s0)"
  have "triple (during E ev R k b X)
      (seq (lift (te_iso E ?n)) (\<lambda>t. seq (lift (checked mutation_attempt_schema (new_attempt E ?n tool c dest t) Mutation_uncertain)) (\<lambda>a.
        seq (perform J_current (te_current E)) (\<lambda>_. with_work E (\<lambda>w. ret (a\<lparr>mu_ownership := cw_ownership w\<rparr>))))))
      (\<lambda>a s. drafted ev tool c a \<and> during E ev R k b X s) (\<lambda>_. during E ev R k b anything)"
    using assms 1
    by (intro then_lift then_perform triple_with_work triple_ret)
      (auto simp: drafted_def new_attempt_def steady_def Let_def)
  then show ?case by (rule triple_pre) simp
qed

lemma turn_inv_begun:
  assumes inv: "turn_inv E ev R k b l log" and free: "map_of (jl_calls l) (tc_callId c) = None" and a: "mu_toolCallId a = tc_callId c"
    and ok: "te_bool E (length log) = Inr True"
  shows "turn_inv E ev R k b (l\<lparr>jl_calls := jl_calls l @ [(tc_callId c, a)]\<rparr>) (log @ [J_begin w a])"
proof -
  let ?log = "log @ [J_begin w a]"
  have k: "k \<le> length log" using inv by (simp add: turn_inv_def)
  then have b: "attempt_begun E k ?log x \<longleftrightarrow> attempt_begun E k log x \<or> x = a" for x using ok by (auto simp: attempt_begun_snoc)
  have "calls_inv E k ?log (jl_calls l @ [(tc_callId c, a)])"
    using inv free a b by (fastforce simp: turn_inv_def calls_inv_def map_of_eq_None_iff)
  moreover have "all_journaled E ev k ?log b" "calm k ?log \<longleftrightarrow> calm k log"
    using inv by (auto simp: turn_inv_def all_journaled_snoc calm_snoc)
  ultimately show ?thesis
    using inv k a b by (auto simp: turn_inv_def intro: settled_snoc)
qed

lemma turn_inv_refused:
  assumes "turn_inv E ev R k b l log" "te_bool E (length log) \<noteq> Inr True"
  shows "turn_inv E ev R k b l (log @ [J_begin w a])"
proof -
  have "attempt_begun E k (log @ [J_begin w a]) x \<longleftrightarrow> attempt_begun E k log x" for x using assms(2) by (simp add: attempt_begun_snoc)
  then show ?thesis
    using assms(1) by (auto simp: turn_inv_def all_journaled_snoc calm_snoc intro: calls_inv_snoc settled_snoc)
qed

lemma triple_begin:
  assumes a: "mu_toolCallId a = tc_callId c"
  shows "triple (during E ev R k b (\<lambda>cs _. map_of cs (tc_callId c) = None)) (begin_call E (sb_sessionId b) c a)
    (\<lambda>_. during E ev R k b (\<lambda>_ log. attempt_begun E k log a)) (\<lambda>_. during E ev R k b anything)"
proof (rule tripleI)
  fix s x s'
  assume "during E ev R k b (\<lambda>cs _. map_of cs (tc_callId c) = None) s" and r: "begin_call E (sb_sessionId b) c a s = (Inr x, s')"
  then obtain l where l: "tj_live s (sb_sessionId b) = Some l" "turn_inv E ev R k b l (tj_log s)" "map_of (jl_calls l) (tc_callId c) = None"
    by (auto simp: during_def)
  let ?n = "length (tj_log s)"
  have ok: "te_bool E ?n = Inr True"
    using r by (auto simp: begin_call_def with_work_def with_state_def seq_def perform_def throw_def split: sum.splits if_splits)
  then have s': "tj_live s' (sb_sessionId b) = Some (l\<lparr>jl_calls := jl_calls l @ [(tc_callId c, a)]\<rparr>)"
    "tj_log s' = tj_log s @ [J_begin (te_work E ?n) a]"
    using r l(1) by (auto simp: begin_call_def with_work_def with_state_def seq_def perform_def change_def modify_def)
  have "attempt_begun E k (tj_log s') a" using ok l(2) by (auto simp: s' attempt_begun_snoc turn_inv_def)
  then show "during E ev R k b (\<lambda>_ log. attempt_begun E k log a) s'"
    using turn_inv_begun [OF l(2,3) a ok] s' by (auto simp: during_def)
next
  fix s e s'
  assume "during E ev R k b (\<lambda>cs _. map_of cs (tc_callId c) = None) s" and r: "begin_call E (sb_sessionId b) c a s = (Inl e, s')"
  then obtain l where l: "tj_live s (sb_sessionId b) = Some l" "turn_inv E ev R k b l (tj_log s)"
    by (auto simp: during_def)
  have "te_bool E (length (tj_log s)) \<noteq> Inr True" "tj_live s' = tj_live s" "\<exists>w. tj_log s' = tj_log s @ [J_begin w a]"
    using r by (auto simp: begin_call_def with_work_def with_state_def seq_def perform_def change_def modify_def throw_def
        split: sum.splits if_splits)
  then show "during E ev R k b anything s'"
    using l turn_inv_refused by (auto simp: during_def)
qed

lemma triple_live_call:
  assumes "attempt_for E ev c a"
  shows "triple (during E ev R k b (\<lambda>cs _. map_of cs (tc_callId c) = None))
    (seq (begin_call E (sb_sessionId b) c a) (\<lambda>_. seq (record_state E (sb_sessionId b) a) (\<lambda>_.
      seq (turn_gate E (sb_sessionId b)) (\<lambda>_. ret True))))
    (\<lambda>allowed. during E ev R k b (\<lambda>_ log. allowed \<longrightarrow> journaled E ev k log b c)) (\<lambda>_. during E ev R k b anything)"
proof -
  have "mu_toolCallId a = tc_callId c" using assms by (simp add: attempt_for_def)
  then show ?thesis
    using assms
    by (intro triple_seq [OF triple_begin] triple_seq [OF triple_record_state] then_gate triple_ret)
      (auto simp: journaled_def during_def)
qed

lemma triple_fact: "(Q \<Longrightarrow> triple P m S T) \<Longrightarrow> triple (\<lambda>s. Q \<and> P s) m S T"
  by (auto simp: triple_def)

lemma triple_checked_call:
  assumes "steady E ev" "toolOf (tc_name c) = Some tool" "te_sources E (tc_name c) = [(adapter_source, ''inline'')]"
  shows "triple (during E ev R k b (\<lambda>cs _. map_of cs (tc_callId c) = None))
    (with_work E (\<lambda>w. if \<not> permitsParticipantAttribution tool (tc_input c) (cw_event w) then ret False
      else seq (prepare_attempt E tool c) (\<lambda>a. seq (begin_call E (sb_sessionId b) c a) (\<lambda>_.
        seq (record_state E (sb_sessionId b) a) (\<lambda>_. seq (turn_gate E (sb_sessionId b)) (\<lambda>_. ret True))))))
    (\<lambda>allowed. during E ev R k b (\<lambda>_ log. allowed \<longrightarrow> journaled E ev k log b c)) (\<lambda>_. during E ev R k b anything)"
proof (rule triple_with_work, rule triple_pre [where P = "during E ev R k b (\<lambda>cs _. map_of cs (tc_callId c) = None)"],
    rule triple_if, goal_cases)
  case (1 n)
  show ?case by (rule triple_ret) (auto simp: during_def)
next
  case (2 n)
  then have "permitsParticipantAttribution tool (tc_input c) ev" using assms(1) by (simp add: steady_def)
  then have "attempt_for E ev c a" if "drafted ev tool c a" for a
    using that assms(2,3) by (auto simp: drafted_def attempt_for_def)
  then show ?case
    by (intro triple_seq [OF triple_prepare [OF _ assms(1)]] triple_fact triple_live_call) simp_all
qed simp

lemma triple_call_body:
  assumes "steady E ev" "toolOf (tc_name c) = Some tool"
  shows "triple (during E ev R k b anything) (call_body E (sb_sessionId b) tool c)
    (\<lambda>allowed. during E ev R k b (\<lambda>_ log. allowed \<longrightarrow> journaled E ev k log b c)) (\<lambda>_. during E ev R k b anything)"
  unfolding call_body_def
proof (intro then_gate then_lift triple_with_live triple_if, goal_cases)
  case (2 u l)
  show ?case by (rule triple_throw) simp
next
  case (3 u l)
  have src: "te_sources E (tc_name c) = [(adapter_source, ''inline'')]" using 3 by (simp add: verifySource_def)
  show ?case
    using 3 by (intro triple_pre [OF triple_checked_call [OF assms src]]) (auto simp: during_def)
qed simp_all

section \<open>The results\<close>

lemma turn_inv_drop:
  assumes inv: "turn_inv E ev R k b l log" and a: "map_of (jl_calls l) cid = Some a" and sent: "settled_send E R k log b a"
  shows "turn_inv E ev R k b (l\<lparr>jl_calls := filter (\<lambda>(k, _). k \<noteq> cid) (jl_calls l)\<rparr>) log"
proof -
  let ?calls = "filter (\<lambda>(k, _). k \<noteq> cid) (jl_calls l)"
  have d: "distinct (map fst (jl_calls l))" using inv by (simp add: turn_inv_def calls_inv_def)
  have "x = a" if "(cid, x) \<in> set (jl_calls l)" for x using a that d by simp
  then have "(mu_toolCallId x, x) \<in> set ?calls \<or> x = a" if "(mu_toolCallId x, x) \<in> set (jl_calls l)" for x
    using that by auto
  moreover have "calls_inv E k log ?calls"
    using inv d by (auto simp: turn_inv_def calls_inv_def distinct_map_filter)
  ultimately show ?thesis using inv sent by (fastforce simp: turn_inv_def)
qed

lemma triple_drop:
  "triple (during E ev R k b (\<lambda>cs log. map_of cs cid = Some a \<and> settled_send E R k log b a))
    (change (sb_sessionId b) (\<lambda>l. l\<lparr>jl_calls := filter (\<lambda>(k, _). k \<noteq> cid) (jl_calls l)\<rparr>))
    (\<lambda>_. during E ev R k b anything) Q"
  by (auto simp: triple_def change_def modify_def during_def intro: turn_inv_drop)

lemma triple_confirm:
  assumes "r \<in> R" "tr_callId r = mu_toolCallId a" "confirmedMessage (te_parse E) r (mu_tool a) = Some mid" "lasting X"
  shows "triple (during E ev R k b (\<lambda>cs log. X cs log \<and> recorded E k log b (a\<lparr>mu_status := Confirmed mid t\<rparr>)))
    (perform (J_confirm w (mu_attemptId a) mid) (te_bool E))
    (\<lambda>ok. during E ev R k b (\<lambda>cs log. X cs log \<and> (ok \<longrightarrow> settled_send E R k log b a))) (\<lambda>_. during E ev R k b anything)"
proof -
  have "settled_send E R k (log @ [J_confirm w (mu_attemptId a) mid]) b a"
    if "recorded E k log b (a\<lparr>mu_status := Confirmed mid t\<rparr>)" "te_bool E (length log) = Inr True" for log
    unfolding settled_send_def
    using assms(1-3) that
    by (intro bexI [of _ r] exI [of _ mid] exI [of _ t] exI [of _ "length log"] exI [of _ w]) auto
  moreover have "turn_inv E ev R k b l (log @ [J_confirm w (mu_attemptId a) mid])" if "turn_inv E ev R k b l log" for l log
    using that by (rule turn_inv_snoc) simp_all
  ultimately show ?thesis
    using assms(4) by (fastforce simp: triple_def perform_def during_def lasting_def split: sum.split)
qed

lemma triple_confirm_call:
  assumes "r \<in> R" "tr_callId r = cid" "mu_toolCallId a = cid" "confirmedMessage (te_parse E) r (mu_tool a) = Some mid"
  shows "triple (during E ev R k b (\<lambda>cs _. map_of cs cid = Some a)) (confirm_call E (sb_sessionId b) cid a mid)
    (\<lambda>_. during E ev R k b anything) (\<lambda>_. during E ev R k b anything)"
proof -
  let ?X = "\<lambda>cs _. map_of cs cid = Some a"
  have step: "triple (during E ev R k b (\<lambda>cs log. ?X cs log \<and> recorded E k log b (a\<lparr>mu_status := Confirmed mid t\<rparr>)))
      (seq (perform (J_confirm w (mu_attemptId a) mid) (te_bool E)) (\<lambda>ok. if \<not> ok then throw Mutation_uncertain
        else seq (turn_gate E (sb_sessionId b)) (\<lambda>_.
          change (sb_sessionId b) (\<lambda>l. l\<lparr>jl_calls := filter (\<lambda>(k, _). k \<noteq> cid) (jl_calls l)\<rparr>))))
      (\<lambda>_. during E ev R k b anything) (\<lambda>_. during E ev R k b anything)" for w t
  proof (rule triple_seq [OF triple_confirm [OF assms(1) _ assms(4)]], goal_cases)
    case (3 ok)
    show ?case
    proof (cases ok)
      case True
      then show ?thesis by (auto intro!: then_gate triple_drop)
    qed (auto intro: during_throw)
  qed (simp_all add: assms)
  have whole: "triple (during E ev R k b ?X)
      (seq (lift (te_iso E n)) (\<lambda>t. seq (record_state E (sb_sessionId b) (a\<lparr>mu_status := Confirmed mid t\<rparr>)) (\<lambda>_.
        seq (perform J_current (te_current E)) (\<lambda>_. with_work E (\<lambda>w. seq (perform (J_confirm w (mu_attemptId a) mid) (te_bool E)) (\<lambda>ok.
          if \<not> ok then throw Mutation_uncertain
          else seq (turn_gate E (sb_sessionId b)) (\<lambda>_.
            change (sb_sessionId b) (\<lambda>l. l\<lparr>jl_calls := filter (\<lambda>(k, _). k \<noteq> cid) (jl_calls l)\<rparr>))))))))
      (\<lambda>_. during E ev R k b anything) (\<lambda>_. during E ev R k b anything)" for n
    by (intro then_lift triple_seq [OF triple_record_state] then_perform triple_with_work triple_pre [OF step]) auto
  show ?thesis unfolding confirm_call_def by (rule triple_with_state, rule triple_pre [OF whole]) simp
qed

lemma triple_result_body:
  assumes "r \<in> R"
  shows "triple (during E ev R k b anything) (result_body E (sb_sessionId b) tool r)
    (\<lambda>_. during E ev R k b anything) (\<lambda>_. during E ev R k b anything)"
  unfolding result_body_def
proof (intro then_gate triple_with_live triple_option triple_if, goal_cases)
  case (4 l a)
  let ?X = "\<lambda>cs _. map_of cs (tr_callId r) = Some a \<and> mu_toolCallId a = tr_callId r"
  have "triple (during E ev R k b ?X)
      (seq (lift (mutationDestination tool (tr_input r))) (\<lambda>dest. if dest \<noteq> mu_destination a then throw Mutation_uncertain
        else case confirmedMessage (te_parse E) r tool of None \<Rightarrow> seq (make_uncertain E (sb_sessionId b) a) (\<lambda>_. throw Mutation_uncertain)
          | Some mid \<Rightarrow> confirm_call E (sb_sessionId b) (tr_callId r) a mid))
      (\<lambda>_. during E ev R k b anything) (\<lambda>_. during E ev R k b anything)"
  proof (intro then_lift triple_if during_throw triple_option, goal_cases)
    case (1 dest)
    show ?case by (intro triple_seq [OF triple_uncertain] during_throw) simp
  next
    case (2 dest mid)
    have "triple (during E ev R k b ?X) (confirm_call E (sb_sessionId b) (tr_callId r) a mid)
        (\<lambda>_. during E ev R k b anything) (\<lambda>_. during E ev R k b anything)" if "mu_toolCallId a = tr_callId r"
      using assms 2 4 that by (intro triple_pre [OF triple_confirm_call [of r]]) (auto elim: during_weaken)
    then show ?case by (cases "mu_toolCallId a = tr_callId r") (auto simp: triple_def during_def)
  qed
  then show ?case
    using 4 by (elim triple_pre) (fastforce simp: during_def turn_inv_def calls_inv_def dest: map_of_SomeD)
qed (auto intro: triple_throw)

section \<open>The agent's events\<close>

lemma triple_enqueue:
  "triple (during E ev R k b X) m Q (\<lambda>_. during E ev R k b anything) \<Longrightarrow>
   triple (during E ev R k b X) (enqueue (sb_sessionId b) m) Q (\<lambda>_. during E ev R k b anything)"
  unfolding enqueue_def
  by (rule triple_catch, assumption, rule triple_seq, rule triple_poison) (auto intro: triple_throw during_any)

lemma turn_inv_abort: "turn_inv E ev R k b l log \<Longrightarrow> turn_inv E ev R k b l (log @ [J_abort])"
  by (rule turn_inv_snoc) simp_all

text \<open>A failed hook poisons the session, and aborts the agent.\<close>

lemma triple_hook_failed:
  "triple (during E ev R k b anything) (seq (set_poisoned (sb_sessionId b)) (\<lambda>_. seq (remark J_abort) (\<lambda>_. ret v)))
    (\<lambda>x s. x = v \<and> during E ev R k b anything s \<and> is_poisoned (sb_sessionId b) s) Q"
proof -
  have "triple (\<lambda>s. during E ev R k b anything s \<and> is_poisoned (sb_sessionId b) s) (remark J_abort)
      (\<lambda>_ s. during E ev R k b anything s \<and> is_poisoned (sb_sessionId b) s) Q"
    by (auto simp: triple_def remark_def perform_def during_def is_poisoned_def intro: turn_inv_abort)
  then show ?thesis by (intro triple_seq [OF triple_poison] triple_seq [of _ "remark J_abort"] triple_ret) auto
qed

lemma triple_tool_call:
  assumes "steady E ev"
  shows "triple (during E ev R k b anything) (on_tool_call E (sb_sessionId b) c) (\<lambda>_. during E ev R k b anything)
    (\<lambda>_. during E ev R k b anything)"
proof (cases "toolOf (tc_name c)")
  case None
  then show ?thesis by (simp add: on_tool_call_def triple_ret)
next
  case (Some tool)
  let ?i = "sb_sessionId b"
  let ?Q = "\<lambda>v s. during E ev R k b (\<lambda>_ log. v = Allowed \<longrightarrow> journaled E ev k log b c) s \<and> (v = Uncertain_blocked \<longrightarrow> is_poisoned ?i s)"
  have body: "triple (during E ev R k b anything)
      (with_live ?i (\<lambda>_. seq (enqueue ?i (call_body E ?i tool c)) (\<lambda>allowed. ret (if allowed then Allowed else Policy_blocked))))
      ?Q (\<lambda>_. during E ev R k b anything)"
    by (rule triple_with_live, rule triple_pre, rule triple_seq [OF triple_enqueue [OF triple_call_body [OF assms Some]]])
      (auto intro!: triple_ret elim: during_weaken)
  have hook: "triple (during E ev R k b anything)
      (catch (with_live ?i (\<lambda>_. seq (enqueue ?i (call_body E ?i tool c)) (\<lambda>allowed. ret (if allowed then Allowed else Policy_blocked))))
        (\<lambda>_. seq (set_poisoned ?i) (\<lambda>_. seq (remark J_abort) (\<lambda>_. ret Uncertain_blocked))))
      ?Q (\<lambda>_. during E ev R k b anything)"
    by (rule triple_catch [OF body], rule triple_post [OF triple_hook_failed]) (auto elim: during_weaken)
  have verdict: "triple (?Q v) (remark (J_call c v)) (\<lambda>_. during E ev R k b anything) (\<lambda>_. during E ev R k b anything)" for v
    by (auto simp: triple_def remark_def perform_def during_def is_poisoned_def intro: turn_inv_call)
  show ?thesis using Some by (simp add: on_tool_call_def triple_seq [OF hook verdict])
qed

lemma triple_tool_result:
  assumes "r \<in> R"
  shows "triple (during E ev R k b anything) (on_tool_result E (sb_sessionId b) r) (\<lambda>_. during E ev R k b anything)
    (\<lambda>_. during E ev R k b anything)"
proof (cases "toolOf (tr_name r)")
  case None
  then show ?thesis by (simp add: on_tool_result_def triple_ret)
next
  case (Some tool)
  let ?i = "sb_sessionId b"
  let ?Q = "\<lambda>ok s. during E ev R k b anything s \<and> (\<not> ok \<longrightarrow> is_poisoned ?i s)"
  have body: "triple (during E ev R k b anything)
      (with_live ?i (\<lambda>_. seq (enqueue ?i (result_body E ?i tool r)) (\<lambda>_. ret True))) ?Q (\<lambda>_. during E ev R k b anything)"
    by (rule triple_with_live, rule triple_pre, rule triple_seq [OF triple_enqueue [OF triple_result_body [OF assms]]])
      (auto intro!: triple_ret)
  have hook: "triple (during E ev R k b anything)
      (catch (with_live ?i (\<lambda>_. seq (enqueue ?i (result_body E ?i tool r)) (\<lambda>_. ret True)))
        (\<lambda>_. seq (set_poisoned ?i) (\<lambda>_. seq (remark J_abort) (\<lambda>_. ret False))))
      ?Q (\<lambda>_. during E ev R k b anything)"
    by (rule triple_catch [OF body], rule triple_post [OF triple_hook_failed]) auto
  have verdict: "triple (?Q ok) (remark (J_result r ok)) (\<lambda>_. during E ev R k b anything) (\<lambda>_. during E ev R k b anything)" for ok
    by (auto simp: triple_def remark_def perform_def during_def is_poisoned_def intro: turn_inv_result)
  show ?thesis using Some by (simp add: on_tool_result_def triple_seq [OF hook verdict])
qed

lemma triple_agent_steps:
  assumes "steady E ev" "{r. Ev_result r \<in> set es} \<subseteq> R"
  shows "triple (during E ev R k b anything) (agent_steps E (sb_sessionId b) es) (\<lambda>_. during E ev R k b anything)
    (\<lambda>_. during E ev R k b anything)"
  using assms(2)
proof (induction es)
  case (Cons e es)
  have "triple (during E ev R k b anything) (agent_step E (sb_sessionId b) e) (\<lambda>_. during E ev R k b anything)
      (\<lambda>_. during E ev R k b anything)"
  proof (cases e)
    case Ev_request
    then show ?thesis
      by (auto simp: triple_def before_provider_request_def with_state_def remark_def perform_def ret_def during_def
          intro: turn_inv_abort split: option.split)
  qed (use assms(1) Cons.prems triple_tool_call triple_tool_result in auto)
  with Cons show ?case by (auto intro: triple_seq)
qed (simp add: triple_ret)

section \<open>The run\<close>

definition listed :: "journal_env \<Rightarrow> nat \<Rightarrow> journal_effect list \<Rightarrow> string \<Rightarrow> mutation_state list \<Rightarrow> bool" where
  "listed E k log chat rows \<longleftrightarrow> (\<exists>n. k \<le> n \<and> n < length log \<and> log ! n = J_list chat \<and> te_list E n = Inr rows)"

lemma listed_snoc:
  "listed E k (log @ [e]) chat rows \<longleftrightarrow>
   listed E k log chat rows \<or> k \<le> length log \<and> e = J_list chat \<and> te_list E (length log) = Inr rows"
  using ex_snoc [of log e "\<lambda>n x. k \<le> n \<and> x = J_list chat \<and> te_list E n = Inr rows"] unfolding listed_def by blast

lemma lasting_listed [intro, simp]: "lasting (\<lambda>_ log. listed E k log chat rows)"
  by (auto simp: lasting_def listed_snoc)

lemma triple_list:
  assumes "lasting X"
  shows "triple (during E ev R k b X) (list_journal E chat)
    (\<lambda>rows. during E ev R k b (\<lambda>cs log. X cs log \<and> listed E k log chat rows)) (\<lambda>_. during E ev R k b anything)"
proof -
  have log: "turn_inv E ev R k b l (log @ [J_list chat])" "k \<le> length log" if "turn_inv E ev R k b l log" for l log
    using that turn_inv_snoc [OF that, of "J_list chat"] by (auto simp: turn_inv_def)
  have X: "X cs (log @ [J_list chat])" if "X cs log" for cs log using assms that by (auto simp: lasting_def)
  show ?thesis
    by (auto simp: triple_def list_journal_def perform_def during_def listed_snoc intro: log X split: sum.split)
qed

text \<open>All that a successful run has established.\<close>

definition all_confirmed :: "notification \<Rightarrow> mutation_state list \<Rightarrow> bool" where
  "all_confirmed ev rows \<longleftrightarrow> (\<forall>a \<in> set rows. mu_eventId a = event_id ev \<and> is_confirmed (mu_status a))"

abbreviation run_good :: "journal_env \<Rightarrow> notification \<Rightarrow> nat \<Rightarrow> (string \<times> mutation_state) list \<Rightarrow> journal_effect list \<Rightarrow> bool" where
  "run_good E ev k \<equiv> \<lambda>cs log. cs = [] \<and> (\<exists>rows. listed E k log (canonical_chat_jid ev) rows \<and> all_confirmed ev rows)"

lemma triple_convert:
  "triple (during E ev R k b anything) (convert_first E (sb_sessionId b)) (\<lambda>_ _. False) (\<lambda>_. during E ev R k b anything)"
  unfolding convert_first_def
proof (rule triple_with_live)
  fix l
  show "triple (\<lambda>s. during E ev R k b anything s \<and> tj_live s (sb_sessionId b) = Some l)
      (case jl_calls l of [] \<Rightarrow> throw Mutation_uncertain | (_, a) # _ \<Rightarrow> seq (make_uncertain E (sb_sessionId b) a) (\<lambda>_. throw Mutation_uncertain))
      (\<lambda>_ _. False) (\<lambda>_. during E ev R k b anything)"
    by (cases "jl_calls l") (auto intro!: triple_throw triple_pre [OF triple_seq [OF triple_uncertain [of anything]]] simp: split_beta)
qed (rule during_any)

lemma prompt_class_None: "prompt_class pend now = None \<longleftrightarrow> pend = Prompt_ok"
  by (simp add: prompt_class_def split: prompt_end.split)

lemma triple_settle_run:
  "triple (during E ev R k b anything) (settle_run E (sb_sessionId b) ev pend)
    (\<lambda>r s. during E ev R k b anything s \<and> (r = None \<longrightarrow>
       during E ev R k b (run_good E ev k) s \<and> \<not> is_poisoned (sb_sessionId b) s \<and> pend = Prompt_ok))
    (\<lambda>_. during E ev R k b anything)"
  unfolding settle_run_def Let_def
proof (intro triple_seq [OF triple_list] triple_with_live triple_if triple_option, goal_cases)
  case (2 rows l)
  show ?case by (rule triple_seq, rule triple_pre [OF triple_convert]) (auto intro: during_any triple_ret)
next
  case (3 rows l)
  let ?X = "\<lambda>cs log. cs = [] \<and> listed E k log (canonical_chat_jid ev) rows"
  have "triple (during E ev R k b ?X)
      (seq (turn_gate E (sb_sessionId b)) (\<lambda>_. if list_ex (\<lambda>a. mu_eventId a \<noteq> event_id ev \<or> \<not> is_confirmed (mu_status a)) rows
        then throw Mutation_uncertain else ret None))
      (\<lambda>r s. during E ev R k b anything s \<and> (r = None \<longrightarrow>
        during E ev R k b (run_good E ev k) s \<and> \<not> is_poisoned (sb_sessionId b) s \<and> pend = Prompt_ok))
      (\<lambda>_. during E ev R k b anything)"
  proof (rule triple_seq [OF triple_gate], goal_cases)
    case (2 u)
    show ?case
      using 3(2)
      by (auto intro!: triple_if triple_throw triple_ret dest: during_any elim!: during_weaken
          simp: prompt_class_None list_ex_iff all_confirmed_def)
  qed simp
  then show ?case by (rule triple_pre) (use 3 in \<open>auto simp: during_def\<close>)
next
  case (4 rows l e)
  then show ?case by (auto intro: triple_ret during_any)
qed (auto intro: during_any)

lemma triple_run_body:
  assumes "steady E ev" "{r. Ev_result r \<in> set es} \<subseteq> R"
  shows "triple (during E ev R k b anything) (run_body E (sb_sessionId b) es pend)
    (\<lambda>r s. during E ev R k b anything s \<and> (r = None \<longrightarrow>
       during E ev R k b (run_good E ev k) s \<and> \<not> is_poisoned (sb_sessionId b) s \<and> pend = Prompt_ok))
    (\<lambda>_. during E ev R k b anything)"
proof -
  have work: "cw_event (te_work E n) = ev" for n using assms(1) by (simp add: steady_def)
  have prompt: "triple (during E ev R k b anything) (remark J_prompt) (\<lambda>_. during E ev R k b anything) (\<lambda>_. during E ev R k b anything)"
    unfolding remark_def by (rule triple_perform) simp_all
  have rest: "triple (during E ev R k b anything)
      (seq (remark J_prompt) (\<lambda>_. seq (agent_steps E (sb_sessionId b) es) (\<lambda>_. settle_run E (sb_sessionId b) ev pend)))
      (\<lambda>r s. during E ev R k b anything s \<and> (r = None \<longrightarrow>
        during E ev R k b (run_good E ev k) s \<and> \<not> is_poisoned (sb_sessionId b) s \<and> pend = Prompt_ok))
      (\<lambda>_. during E ev R k b anything)"
    by (rule triple_seq [OF prompt], rule triple_seq [OF triple_agent_steps [OF assms]], rule triple_settle_run)
  have checked: "triple (during E ev R k b anything)
      (seq (list_journal E (canonical_chat_jid ev)) (\<lambda>prior. if list_ex (\<lambda>a. mu_eventId a = event_id ev) prior then throw Mutation_uncertain
        else seq (remark J_prompt) (\<lambda>_. seq (agent_steps E (sb_sessionId b) es) (\<lambda>_. settle_run E (sb_sessionId b) ev pend))))
      (\<lambda>r s. during E ev R k b anything s \<and> (r = None \<longrightarrow>
        during E ev R k b (run_good E ev k) s \<and> \<not> is_poisoned (sb_sessionId b) s \<and> pend = Prompt_ok))
      (\<lambda>_. during E ev R k b anything)"
    by (rule triple_seq [OF triple_post [OF triple_list [of anything], where Q' = "\<lambda>_. during E ev R k b anything"]])
      (auto dest: during_any intro: triple_if during_throw rest)
  show ?thesis
    unfolding run_body_def Let_def
  proof (intro then_gate triple_with_work, goal_cases)
    case (2 n)
    show ?case unfolding work by (rule triple_pre [OF checked]) simp
  qed simp
qed

text \<open>A session as \<open>bind\<close> leaves it, or as a successful run does.\<close>

definition no_calls :: "session_binding \<Rightarrow> tool_journal \<Rightarrow> bool" where
  "no_calls b s \<longleftrightarrow> (\<exists>l. tj_live s (sb_sessionId b) = Some l \<and> jl_session l = b \<and> jl_calls l = [])"

lemma run_starts: "no_calls b s \<Longrightarrow> during E ev R (length (tj_log s)) b anything s"
  by (auto simp: no_calls_def during_def turn_inv_def calls_inv_def all_journaled_def calm_def attempt_begun_def)

lemma triple_running:
  "triple (\<lambda>s. during E ev R k b X s \<and> (c \<longrightarrow> \<not> is_poisoned (sb_sessionId b) s)) (change (sb_sessionId b) (\<lambda>l. l\<lparr>jl_running := v\<rparr>))
    (\<lambda>_ s. during E ev R k b X s \<and> (c \<longrightarrow> \<not> is_poisoned (sb_sessionId b) s)) Q"
  by (auto simp: triple_def change_def modify_def during_def is_poisoned_def intro: turn_inv_running)

definition run_done :: "journal_env \<Rightarrow> notification \<Rightarrow> tool_result set \<Rightarrow> nat \<Rightarrow> session_binding \<Rightarrow> prompt_end \<Rightarrow> tool_journal \<Rightarrow> bool" where
  "run_done E ev R k b pend s \<longleftrightarrow> during E ev R k b (run_good E ev k) s \<and> \<not> is_poisoned (sb_sessionId b) s \<and> pend = Prompt_ok"

lemma triple_guarded:
  assumes "steady E ev" "{r. Ev_result r \<in> set es} \<subseteq> R"
  shows "triple (during E ev R k b anything) (guarded_run E (sb_sessionId b) es pend)
    (\<lambda>_. run_done E ev R k b pend) (\<lambda>_. during E ev R k b anything)"
  unfolding guarded_run_def
proof (rule triple_seq [OF triple_catch])
  let ?i = "sb_sessionId b"
  let ?Q = "\<lambda>r s. during E ev R k b anything s \<and> (r = None \<longrightarrow> run_done E ev R k b pend s)"
  have mark: "triple (?Q r) (seq (if r = None then ret () else set_poisoned ?i) (\<lambda>_. ret r)) ?Q (\<lambda>_. during E ev R k b anything)" for r
    by (cases r) (auto intro!: triple_ret triple_pre [OF triple_seq [OF triple_poison [of _ _ _ _ _ anything]]])
  show "triple (during E ev R k b anything) (seq (run_body E ?i es pend) (\<lambda>r. seq (if r = None then ret () else set_poisoned ?i) (\<lambda>_. ret r)))
      ?Q (\<lambda>_. during E ev R k b anything)"
    by (rule triple_seq [OF triple_run_body [OF assms, folded run_done_def] mark])
  show "triple (during E ev R k b anything) (seq (set_poisoned ?i) (\<lambda>_. throw Mutation_uncertain)) ?Q (\<lambda>_. during E ev R k b anything)"
    by (rule triple_seq [OF triple_poison], rule triple_throw) simp
  show "triple (?Q r) (case r of Some e \<Rightarrow> throw e | None \<Rightarrow> ret ()) (\<lambda>_. run_done E ev R k b pend) (\<lambda>_. during E ev R k b anything)" for r
    by (cases r) (auto intro: triple_throw triple_ret)
qed

lemma triple_run:
  assumes "steady E ev" "{r. Ev_result r \<in> set es} \<subseteq> R"
  shows "triple (during E ev R k b anything) (run E b es pend) (\<lambda>_. run_done E ev R k b pend) (\<lambda>_. during E ev R k b anything)"
proof -
  let ?set = "\<lambda>v. change (sb_sessionId b) (\<lambda>l. l\<lparr>jl_running := v\<rparr>)"
  have live: "triple (during E ev R k b anything) (get_live b) (\<lambda>_. during E ev R k b anything) (\<lambda>_. during E ev R k b anything)"
    by (auto simp: triple_def get_live_def with_live_def with_state_def ret_def throw_def split: option.split sum.split)
  have running: "triple (during E ev R k b anything) (?set v) (\<lambda>_. during E ev R k b anything) (\<lambda>_. during E ev R k b anything)" for v
    using triple_running [of E ev R k b anything False] by simp
  have finished: "triple (run_done E ev R k b pend) (?set False) (\<lambda>_. run_done E ev R k b pend) (\<lambda>_. during E ev R k b anything)"
  proof (cases "pend = Prompt_ok")
    case True
    show ?thesis by (rule triple_weaken [OF triple_running [of E ev R k b "run_good E ev k" True]]) (auto simp: run_done_def True)
  qed (simp add: triple_def run_done_def)
  have guarded: "triple (during E ev R k b anything) (finalize (guarded_run E (sb_sessionId b) es pend) (?set False))
      (\<lambda>_. run_done E ev R k b pend) (\<lambda>_. during E ev R k b anything)"
    by (rule triple_finalize [OF triple_guarded [OF assms] finished running])
  show ?thesis unfolding run_def Let_def
    by (rule triple_seq [OF live], rule triple_if, rule during_throw, rule triple_seq [OF running guarded])
qed

text \<open>C4: Whatever the agent does in a turn, and however the turn ends, no mutating tool call is allowed to run before the repository has durably attempt_begun an attempt for exactly that call, event, chat and normalised destination, the session file has recorded it, the tool comes from the trusted adapter and the attribution policy permits its input.\<close>

theorem allowed_call_is_journaled:
  assumes "steady E ev" "no_calls b s" "run E b es pend s = (r, s')"
    and "length (tj_log s) \<le> p" "p < length (tj_log s')" "tj_log s' ! p = J_call c Allowed"
  shows "\<exists>a. attempt_for E ev c a \<and> attempt_begun E (length (tj_log s)) (take p (tj_log s')) a \<and>
    recorded E (length (tj_log s)) (take p (tj_log s')) b a"
proof -
  let ?R = "{r. Ev_result r \<in> set es}"
  have "during E ev ?R (length (tj_log s)) b anything s'"
  proof (cases r)
    case (Inl e)
    then show ?thesis using triple_Inl [OF triple_run [OF assms(1) order_refl] run_starts [OF assms(2)]] assms(3) by blast
  next
    case (Inr x)
    then show ?thesis
      using triple_Inr [OF triple_run [OF assms(1) order_refl] run_starts [OF assms(2)]] assms(3)
      by (auto simp: run_done_def dest: during_any)
  qed
  then show ?thesis
    using assms(4-6) by (auto simp: during_def turn_inv_def all_journaled_def journaled_def)
qed

text \<open>C16: When a turn's run succeeds, the prompt has settled normally, no hook has failed, every attempt attempt_begun in the run has been confirmed in the repository after a durable record, with the message ID that the exact envelope of that call's result carries, and the last journal listing holds confirmed rows of this event only.\<close>

theorem successful_run_is_confirmed:
  assumes "steady E ev" "no_calls b s" "run E b es pend s = (Inr u, s')"
  shows "pend = Prompt_ok \<and> calm (length (tj_log s)) (tj_log s') \<and> no_calls b s' \<and>
    (\<forall>a. attempt_begun E (length (tj_log s)) (tj_log s') a \<longrightarrow>
      settled_send E {r. Ev_result r \<in> set es} (length (tj_log s)) (tj_log s') b a) \<and>
    (\<exists>rows. listed E (length (tj_log s)) (tj_log s') (canonical_chat_jid ev) rows \<and> all_confirmed ev rows)"
proof -
  let ?R = "{r. Ev_result r \<in> set es}"
  let ?k = "length (tj_log s)"
  have fin: "run_done E ev ?R ?k b pend s'"
    using triple_Inr [OF triple_run [OF assms(1) order_refl] run_starts [OF assms(2)] assms(3)] .
  then obtain l where "tj_live s' (sb_sessionId b) = Some l" "turn_inv E ev ?R ?k b l (tj_log s')" "jl_calls l = []"
    "\<exists>rows. listed E ?k (tj_log s') (canonical_chat_jid ev) rows \<and> all_confirmed ev rows" "\<not> jl_poisoned l"
    by (auto simp: run_done_def during_def is_poisoned_def)
  then show ?thesis using fin by (auto simp: run_done_def turn_inv_def no_calls_def)
qed

section \<open>A failed run is final\<close>

lemma triple_guarded_failure:
  assumes "steady E ev" "{r. Ev_result r \<in> set es} \<subseteq> R"
  shows "triple (during E ev R k b anything) (guarded_run E (sb_sessionId b) es pend) (\<lambda>_ _. True)
    (\<lambda>_ s. during E ev R k b anything s \<and> is_poisoned (sb_sessionId b) s)"
proof -
  let ?i = "sb_sessionId b"
  let ?dead = "\<lambda>s. during E ev R k b anything s \<and> is_poisoned ?i s"
  have mark: "triple (during E ev R k b anything) (seq (if r = None then ret () else set_poisoned ?i) (\<lambda>_. ret r))
      (\<lambda>r s. r = None \<or> ?dead s) (\<lambda>_. during E ev R k b anything)" for r
  proof (cases r)
    case (Some e)
    show ?thesis unfolding Some by (rule triple_seq [where Q = "\<lambda>_. ?dead"]) (simp_all add: triple_poison triple_ret)
  qed (simp add: triple_ret)
  have body: "triple (during E ev R k b anything)
      (seq (run_body E ?i es pend) (\<lambda>r. seq (if r = None then ret () else set_poisoned ?i) (\<lambda>_. ret r)))
      (\<lambda>r s. r = None \<or> ?dead s) (\<lambda>_. during E ev R k b anything)"
    by (rule triple_seq [OF triple_post [OF triple_run_body [OF assms], where Q' = "\<lambda>_. during E ev R k b anything"] mark]) simp
  have caught: "triple (during E ev R k b anything) (seq (set_poisoned ?i) (\<lambda>_. throw Mutation_uncertain))
      (\<lambda>r s. r = None \<or> ?dead s) (\<lambda>_. ?dead)"
    by (rule triple_seq [OF triple_poison], rule triple_throw)
  have last: "triple (\<lambda>s. r = None \<or> ?dead s) (case r of Some e \<Rightarrow> throw e | None \<Rightarrow> ret ()) (\<lambda>_ _. True) (\<lambda>_. ?dead)" for r
    by (cases r) (simp_all add: triple_ret triple_throw)
  show ?thesis unfolding guarded_run_def by (rule triple_seq [OF triple_catch [OF body caught] last])
qed

text \<open>A run that has started and fails is final: every later run of that session, whatever its answers, fails at once without a prompt and without any effect.\<close>

theorem failed_run_is_final:
  assumes "steady E ev" "no_calls b s" "run E b es pend s = (Inl e, s')"
    and "tj_live s (sb_sessionId b) = Some l" "jl_context l" "\<not> jl_running l" "\<not> jl_poisoned l"
  shows "run E' b es' pend' s' = (Inl Mutation_uncertain, s')"
proof -
  let ?i = "sb_sessionId b"
  let ?R = "{r. Ev_result r \<in> set es}"
  let ?k = "length (tj_log s)"
  obtain s1 where s1: "change ?i (\<lambda>l. l\<lparr>jl_running := True\<rparr>) s = (Inr (), s1)" by (simp add: change_def modify_def)
  then have start: "during E ev ?R ?k b anything s1"
    using triple_Inr [OF triple_running [of E ev ?R ?k b anything False] _ s1] run_starts [OF assms(2)] by simp
  have session: "jl_session l = b" using assms(2,4) by (simp add: no_calls_def)
  obtain r s2 where g: "guarded_run E ?i es pend s1 = (r, s2)" by force
  obtain s3 where s3: "change ?i (\<lambda>l. l\<lparr>jl_running := False\<rparr>) s2 = (Inr (), s3)" by (simp add: change_def modify_def)
  have "finalize (guarded_run E ?i es pend) (change ?i (\<lambda>l. l\<lparr>jl_running := False\<rparr>)) s1 = (Inl e, s')"
    using assms(3-7) session s1 by (simp add: run_def get_live_def with_live_def with_state_def seq_def ret_def Let_def)
  then have r: "r = Inl e" and s': "s' = s3" using g s3 by (auto simp: finalize_def)
  have "during E ev ?R ?k b anything s2 \<and> is_poisoned ?i s2"
    using triple_Inl [OF triple_guarded_failure [OF assms(1) order_refl] start] g r by blast
  then have "\<exists>l. tj_live s' ?i = Some l \<and> jl_session l = b \<and> jl_poisoned l"
    using s3 s' by (auto simp: during_def is_poisoned_def turn_inv_def change_def modify_def)
  then show ?thesis
    by (auto simp: run_def get_live_def with_live_def with_state_def seq_def ret_def throw_def Let_def)
qed

section \<open>A run with one send\<close>

definition demo_call :: tool_call where
  "demo_call = \<lparr>tc_name = whatsappToolName ''send_message'', tc_callId = ''t'', tc_input = [(''to'', JStr ''1@g.us'')]\<rparr>"

definition demo_block :: json where
  "demo_block = JObj [(''type'', JStr ''text''), (''text'', JStr ''ok'')]"

definition demo_result :: tool_result where
  "demo_result = \<lparr>tr_name = whatsappToolName ''send_message'', tr_callId = ''t'', tr_input = [(''to'', JStr ''1@g.us'')],
     tr_isError = False,
     tr_details = Some (JObj [(''server'', JStr adapter_server), (''tool'', JStr ''send_message''),
       (''mcpResult'', JObj [(''content'', JArr [demo_block]), (''structuredContent'', JObj [(''result'', JStr ''ok'')])])]),
     tr_content = Some (JArr [demo_block])\<rparr>"

definition demo_journal_env :: journal_env where
  "demo_journal_env = \<lparr>te_current = (\<lambda>_. Inr ()), te_work = (\<lambda>_. demo_claimed_work), te_record = (\<lambda>_. Inr ()),
     te_bool = (\<lambda>_. Inr True),
     te_list = (\<lambda>n. Inr (if n < 5 then [] else [demo_attempt\<lparr>mu_status := Confirmed ''m'' ''2026-01-01T00:00:00Z''\<rparr>])),
     te_own = (\<lambda>_. Inr O_none), te_fallback = (\<lambda>_. Inr Own_manual), te_id = (\<lambda>_. replicate 32 CHR ''c''),
     te_iso = (\<lambda>_. Inr ''2026-01-01T00:00:00Z''), te_sources = (\<lambda>_. [(adapter_source, ''inline'')]),
     te_parse = (\<lambda>raw. if raw = ''ok'' then Some (JObj [(''success'', JBool True), (''message_id'', JStr ''m'')]) else None),
     te_sha = (\<lambda>_. replicate 64 CHR ''a'')\<rparr>"

definition demo_session :: live where
  "demo_session = \<lparr>jl_session = demo_binding, jl_context = True, jl_running = False, jl_poisoned = False,
     jl_registered = True, jl_calls = []\<rparr>"

definition demo_journal :: tool_journal where
  "demo_journal = \<lparr>tj_live = [''s'' \<mapsto> demo_session], tj_log = []\<rparr>"

lemma demo_journal_answers:
  "te_current demo_journal_env n = Inr ()" "te_work demo_journal_env n = demo_claimed_work" "te_record demo_journal_env n = Inr ()"
  "te_bool demo_journal_env n = Inr True" "te_iso demo_journal_env n = Inr ''2026-01-01T00:00:00Z''"
  "te_sources demo_journal_env x = [(adapter_source, ''inline'')]"
  "fingerprintEvent (te_sha demo_journal_env) demo_event = Inr demo_fp"
  "cw_event demo_claimed_work = demo_event"
  using demo_fingerprint by (simp_all add: demo_journal_env_def fingerprint_def demo_world_def demo_claimed_work_def)

lemma demo_tool: "toolOf (whatsappToolName ''send_message'') = Some Send_message"
  by (simp add: toolOf_def mutation_tools_def whatsappToolName_def)

lemma demo_destination: "mutationDestination Send_message [(''to'', JStr ''1@g.us'')] = Inr ''1@g.us''"
  by (simp add: mutationDestination_def jget_def chat_jid_schema_def group_jid_def jid_with_def jid_user_def jid_server_def is_digit_def)

lemma demo_message: "confirmedMessage (te_parse demo_journal_env) demo_result Send_message = Some ''m''"
  by (simp add: confirmedMessage_def demo_result_def jget_def envelope_ok_def only_keys_def envelope_text_def demo_block_def
      text_block_def exact_keys_def visible_text_def payload_message_def demo_journal_env_def withinDepth_def
      message_id_schema_def blank1_def insert_commute)

lemma demo_new_attempt: "new_attempt demo_journal_env n Send_message demo_call ''1@g.us'' ''2026-01-01T00:00:00Z'' = demo_attempt"
  by (simp add: new_attempt_def demo_journal_env_def demo_call_def demo_attempt_def demo_claimed_work_def demo_event_def)

lemma demo_gate:
  "tj_live s ''s'' = Some l \<Longrightarrow> jl_context l \<Longrightarrow> jl_running l \<Longrightarrow> \<not> jl_poisoned l \<Longrightarrow>
   turn_gate demo_journal_env ''s'' s = (Inr (), s\<lparr>tj_log := tj_log s @ [J_current]\<rparr>)"
  by (simp add: turn_gate_def with_live_def with_state_def seq_def perform_def ret_def demo_journal_answers)

lemma demo_record_state:
  "tj_live s ''s'' = Some l \<Longrightarrow> jl_session l = demo_binding \<Longrightarrow> jl_context l \<Longrightarrow> jl_running l \<Longrightarrow> \<not> jl_poisoned l \<Longrightarrow>
   record_state demo_journal_env ''s'' st s = (Inr (), s\<lparr>tj_log := tj_log s @ [J_current, J_record demo_binding demo_fp st, J_current]\<rparr>)"
  by (simp add: record_state_def demo_gate with_work_def with_live_def with_state_def seq_def perform_def lift_def demo_journal_answers)

definition demo_live :: "(string \<times> mutation_state) list \<Rightarrow> journal_effect list \<Rightarrow> tool_journal" where
  "demo_live cs log = \<lparr>tj_live = [''s'' \<mapsto> demo_session\<lparr>jl_running := True, jl_calls := cs\<rparr>], tj_log = log\<rparr>"

lemma demo_tool_call:
  "on_tool_call demo_journal_env ''s'' demo_call (demo_live [] log) =
   (Inr (), demo_live [(''t'', demo_attempt)] (log @ [J_current, J_current, J_begin demo_claimed_work demo_attempt, J_current,
      J_record demo_binding demo_fp demo_attempt, J_current, J_current, J_call demo_call Allowed]))"
proof -
  have "mutation_attempt_schema demo_attempt" "demo_attempt\<lparr>mu_ownership := cw_ownership demo_claimed_work\<rparr> = demo_attempt"
    using demo_attempt_schema by (simp_all add: mutation_attempt_schema_def demo_attempt_def)
  moreover have "permitsParticipantAttribution Send_message [(''to'', JStr ''1@g.us'')] demo_event"
    by (simp add: permitsParticipantAttribution_def empty_quote_def jget_def)
  moreover have "tc_name demo_call = whatsappToolName ''send_message''" "tc_callId demo_call = ''t''"
    "tc_input demo_call = [(''to'', JStr ''1@g.us'')]" by (simp_all add: demo_call_def)
  ultimately show ?thesis
    by (simp add: on_tool_call_def demo_tool catch_def with_live_def with_state_def demo_live_def demo_session_def enqueue_def
        call_body_def seq_def demo_gate lift_def verifySource_def guard_def demo_journal_answers with_work_def prepare_attempt_def
        demo_destination demo_new_attempt checked_def perform_def begin_call_def change_def modify_def demo_record_state ret_def
        remark_def)
qed

lemma demo_tool_result:
  "on_tool_result demo_journal_env ''s'' demo_result (demo_live [(''t'', demo_attempt)] log) =
   (Inr (), demo_live [] (log @ [J_current, J_current,
      J_record demo_binding demo_fp (demo_attempt\<lparr>mu_status := Confirmed ''m'' ''2026-01-01T00:00:00Z''\<rparr>), J_current, J_current,
      J_confirm demo_claimed_work (mu_attemptId demo_attempt) ''m'', J_current, J_result demo_result True]))"
proof -
  have "tr_name demo_result = whatsappToolName ''send_message''" "tr_callId demo_result = ''t''"
    "tr_input demo_result = [(''to'', JStr ''1@g.us'')]" by (simp_all add: demo_result_def)
  moreover have "mu_tool demo_attempt = Send_message" "mu_destination demo_attempt = ''1@g.us''" by (simp_all add: demo_attempt_def)
  ultimately show ?thesis
    by (simp add: on_tool_result_def demo_tool catch_def with_live_def with_state_def demo_live_def demo_session_def enqueue_def
        result_body_def seq_def demo_gate lift_def demo_journal_answers with_work_def demo_destination demo_message confirm_call_def
        perform_def change_def modify_def demo_record_state ret_def remark_def)
qed

lemma demo_live_step:
  "turn_gate demo_journal_env ''s'' (demo_live cs log) = (Inr (), demo_live cs (log @ [J_current]))"
  "perform e answer (demo_live cs log) = (answer (length log), demo_live cs (log @ [e]))"
  "remark e (demo_live cs log) = (Inr (), demo_live cs (log @ [e]))"
  "with_work demo_journal_env f (demo_live cs log) = f demo_claimed_work (demo_live cs log)"
  "with_live ''s'' g (demo_live cs log) = g (demo_session\<lparr>jl_running := True, jl_calls := cs\<rparr>) (demo_live cs log)"
  by (simp_all add: demo_live_def demo_session_def demo_gate perform_def remark_def with_work_def with_state_def with_live_def
      demo_journal_answers)

definition demo_run_log :: "journal_effect list" where
  "demo_run_log = [J_current, J_list ''1@g.us'', J_prompt] @
     [J_current, J_current, J_begin demo_claimed_work demo_attempt, J_current, J_record demo_binding demo_fp demo_attempt,
      J_current, J_current, J_call demo_call Allowed] @
     [J_current, J_current, J_record demo_binding demo_fp (demo_attempt\<lparr>mu_status := Confirmed ''m'' ''2026-01-01T00:00:00Z''\<rparr>),
      J_current, J_current, J_confirm demo_claimed_work (mu_attemptId demo_attempt) ''m'', J_current, J_result demo_result True] @
     [J_list ''1@g.us'', J_current]"

lemma demo_send_run:
  "run demo_journal_env demo_binding [Ev_call demo_call, Ev_result demo_result] Prompt_ok demo_journal =
   (Inr (), demo_journal\<lparr>tj_log := demo_run_log\<rparr>)"
proof -
  have ev: "canonical_chat_jid demo_event = ''1@g.us''" "sb_sessionId demo_binding = ''s''"
    by (simp_all add: demo_event_def demo_binding_def)
  have rows: "te_list demo_journal_env n =
      Inr (if n < 5 then [] else [demo_attempt\<lparr>mu_status := Confirmed ''m'' ''2026-01-01T00:00:00Z''\<rparr>])" for n
    by (simp add: demo_journal_env_def)
  have a: "mu_eventId demo_attempt = event_id demo_event" by (simp add: demo_attempt_def)
  have "change ''s'' (\<lambda>l. l\<lparr>jl_running := True\<rparr>) demo_journal = (Inr (), demo_live [] [])"
    by (simp add: change_def modify_def demo_journal_def demo_live_def demo_session_def)
  moreover have "change ''s'' (\<lambda>l. l\<lparr>jl_running := False\<rparr>) (demo_live [] demo_run_log) = (Inr (), demo_journal\<lparr>tj_log := demo_run_log\<rparr>)"
    by (simp add: change_def modify_def demo_journal_def demo_live_def demo_session_def)
  moreover have "run_body demo_journal_env ''s'' [Ev_call demo_call, Ev_result demo_result] Prompt_ok (demo_live [] []) =
      (Inr None, demo_live [] demo_run_log)"
    by (simp add: run_body_def demo_run_log_def seq_def demo_live_step demo_journal_answers Let_def ev rows list_journal_def
        demo_tool_call demo_tool_result settle_run_def prompt_class_def ret_def a)
  ultimately show ?thesis
    by (simp add: run_def get_live_def with_live_def with_state_def seq_def ret_def demo_journal_def demo_session_def ev Let_def
        finalize_def guarded_run_def catch_def)
qed

lemma demo_steady: "steady demo_journal_env demo_event"
  by (simp add: steady_def demo_journal_answers)

lemma demo_no_calls: "no_calls demo_binding demo_journal"
  by (simp add: no_calls_def demo_journal_def demo_session_def demo_binding_def)

theorem allowed_call_is_journaled_witness:
  "\<exists>a. attempt_for demo_journal_env demo_event demo_call a \<and> attempt_begun demo_journal_env 0 (take 10 demo_run_log) a \<and>
    recorded demo_journal_env 0 (take 10 demo_run_log) demo_binding a"
proof -
  have "demo_run_log ! 10 = J_call demo_call Allowed" "10 < length demo_run_log"
    by (simp_all add: demo_run_log_def)
  then show ?thesis
    using allowed_call_is_journaled [OF demo_steady demo_no_calls demo_send_run, of 10 demo_call] by (simp add: demo_journal_def)
qed

theorem successful_run_is_confirmed_witness:
  "settled_send demo_journal_env {demo_result} 0 demo_run_log demo_binding demo_attempt"
proof -
  have "attempt_begun demo_journal_env 0 demo_run_log demo_attempt"
    unfolding attempt_begun_def by (rule exI [of _ 5]) (simp add: demo_run_log_def demo_journal_answers)
  moreover have "{r. Ev_result r \<in> set [Ev_call demo_call, Ev_result demo_result]} = {demo_result}" by auto
  ultimately show ?thesis
    using successful_run_is_confirmed [OF demo_steady demo_no_calls demo_send_run] by (simp add: demo_journal_def)
qed

theorem attribution_only_to_sender_witness:
  "\<not> permitsParticipantAttribution Send_message [(''mentions'', JArr [JStr ''6@lid''])] demo_event \<and>
   permitsParticipantAttribution Send_message [(''mentions'', JArr [JStr ''5@lid''])] demo_event"
  using attribution_only_to_sender [OF demo_event_schema, of Send_message]
  by (simp add: attribution_tools_def mentions_sender_def jget_def empty_quote_def demo_event_def)

theorem destination_is_chat_witness: "chat_jid_schema ''49@s.whatsapp.net''"
proof -
  have "mutationDestination Send_media [(''to'', JStr ''+4 9'')] = Inr ''49@s.whatsapp.net''"
    by (simp add: mutationDestination_def jget_def normalizing_def is_digit_def chat_jid_schema_def private_jid_def jid_with_def
        jid_user_def jid_server_def)
  from destination_is_chat [OF this] show ?thesis by blast
qed

lemma demo_failing_run:
  "\<exists>s'. run demo_journal_env demo_binding [] Prompt_error demo_journal = (Inl Session_failed, s')"
proof -
  have ev: "canonical_chat_jid demo_event = ''1@g.us''" "sb_sessionId demo_binding = ''s''"
    by (simp_all add: demo_event_def demo_binding_def)
  have rows: "te_list demo_journal_env n =
      Inr (if n < 5 then [] else [demo_attempt\<lparr>mu_status := Confirmed ''m'' ''2026-01-01T00:00:00Z''\<rparr>])" for n
    by (simp add: demo_journal_env_def)
  have "change ''s'' (\<lambda>l. l\<lparr>jl_running := True\<rparr>) demo_journal = (Inr (), demo_live [] [])"
    by (simp add: change_def modify_def demo_journal_def demo_live_def demo_session_def)
  moreover have "\<exists>s'. run_body demo_journal_env ''s'' [] Prompt_error (demo_live [] []) = (Inr (Some Session_failed), s')"
    by (simp add: run_body_def seq_def demo_live_step demo_journal_answers Let_def ev rows list_journal_def settle_run_def
        prompt_class_def ret_def)
  ultimately show ?thesis
    by (auto simp: run_def get_live_def with_live_def with_state_def seq_def ret_def demo_journal_def demo_session_def ev Let_def
        finalize_def guarded_run_def catch_def set_poisoned_def change_def modify_def throw_def)
qed

theorem failed_run_is_final_witness:
  "\<exists>s'. run demo_journal_env demo_binding [] Prompt_error demo_journal = (Inl Session_failed, s') \<and>
    run demo_journal_env demo_binding [Ev_call demo_call] Prompt_ok s' = (Inl Mutation_uncertain, s')"
proof -
  obtain s' where s': "run demo_journal_env demo_binding [] Prompt_error demo_journal = (Inl Session_failed, s')"
    using demo_failing_run by blast
  have "tj_live demo_journal (sb_sessionId demo_binding) = Some demo_session" "jl_context demo_session"
    "\<not> jl_running demo_session" "\<not> jl_poisoned demo_session"
    by (simp_all add: demo_journal_def demo_binding_def demo_session_def)
  from failed_run_is_final [OF demo_steady demo_no_calls s' this] s' show ?thesis by blast
qed

end
