(* ===== verification/Records.thy ===== *)
theory Records
  imports Repository_Own Evidence_Spec
begin

text \<open>
  The records that are written to the journal and to session files, as JSON objects, and the checks
  that turn an untyped value back into a record: the mutation states, the journal's envelope and the
  checkpoint (\<open>src/session-controller/src/domain.ts\<close> and the schemas of
  \<open>compaction/checkpoint.ts\<close>). Reading back what was written gives the same record.
\<close>

section \<open>Reading values\<close>

definition nat_of_json :: "json option \<Rightarrow> nat option" where
  "nat_of_json v = (case as_int v of Some i \<Rightarrow> if 0 \<le> i then Some (nat i) else None | None \<Rightarrow> None)"

definition closed_object :: "string list \<Rightarrow> json option \<Rightarrow> (string \<times> json) list option" where
  "closed_object ks v = (case v of Some (JObj kv) \<Rightarrow> if only_keys ks kv then Some kv else None | _ \<Rightarrow> None)"

definition literal :: "string \<Rightarrow> json option \<Rightarrow> unit option" where
  "literal s v = (if v = Some (JStr s) then Some () else None)"

definition version_1 :: "json option \<Rightarrow> unit option" where
  "version_1 v = (if v = Some (JInt 1) then Some () else None)"

definition array_of_json :: "(json \<Rightarrow> 'a option) \<Rightarrow> json option \<Rightarrow> 'a list option" where
  "array_of_json f v = (case v of Some (JArr xs) \<Rightarrow> those (map f xs) | _ \<Rightarrow> None)"

definition conforming :: "('a \<Rightarrow> bool) \<Rightarrow> 'a option \<Rightarrow> 'a option" where
  "conforming schema v = (case v of Some x \<Rightarrow> if schema x then Some x else None | None \<Rightarrow> None)"

lemma conforming_Some [simp]: "conforming schema v = Some x \<longleftrightarrow> v = Some x \<and> schema x"
  by (auto simp: conforming_def split: option.splits)

lemma nat_of_json_int [simp]: "nat_of_json (Some (JInt (int n))) = Some n"
  by (simp add: nat_of_json_def)

lemma array_of_json_map: "(\<And>x. x \<in> set xs \<Longrightarrow> f (g x) = Some x) \<Longrightarrow> array_of_json f (Some (JArr (map g xs))) = Some xs"
proof -
  assume "\<And>x. x \<in> set xs \<Longrightarrow> f (g x) = Some x"
  then have "those (map f (map g xs)) = Some xs" by (induction xs) auto
  then show ?thesis by (simp add: array_of_json_def)
qed

section \<open>Mutation states\<close>

definition tool_of_json :: "json option \<Rightarrow> mutation_tool option" where
  "tool_of_json v = (case as_str v of
     Some s \<Rightarrow> List.find (\<lambda>t. tool_text t = s)
       [Send_message, Send_group_message, Send_auto_message, Send_media, Send_reaction, Edit_message, Revoke_message]
   | None \<Rightarrow> None)"

definition fence_json :: "fence \<Rightarrow> json" where
  "fence_json f = JObj [(''owner'', JStr (f_owner f)), (''epoch'', JStr (f_epoch f)), (''expiresAtMs'', JInt (int (expiresAtMs f)))]"

definition fence_of_json :: "json option \<Rightarrow> fence option" where
  "fence_of_json v = do {
     kv \<leftarrow> closed_object [''owner'', ''epoch'', ''expiresAtMs''] v;
     ow \<leftarrow> as_str (jget kv ''owner''); ep \<leftarrow> as_str (jget kv ''epoch''); ex \<leftarrow> nat_of_json (jget kv ''expiresAtMs'');
     Some \<lparr>f_owner = ow, f_epoch = ep, expiresAtMs = ex\<rparr> }"

definition ownership_json :: "ownership \<Rightarrow> json" where
  "ownership_json x = JObj [(''app'', fence_json (own_app x)), (''chat'', fence_json (own_chat x))]"

definition ownership_of_json :: "json option \<Rightarrow> ownership option" where
  "ownership_of_json v = do {
     kv \<leftarrow> closed_object [''app'', ''chat''] v;
     a \<leftarrow> fence_of_json (jget kv ''app''); c \<leftarrow> fence_of_json (jget kv ''chat'');
     Some \<lparr>own_app = a, own_chat = c\<rparr> }"

definition mutation_keys :: "string list" where
  "mutation_keys = [''version'', ''attemptId'', ''eventId'', ''canonicalChatId'', ''toolCallId'', ''tool'', ''destination'',
     ''startedAt'', ''ownership'', ''status'']"

fun status_json :: "mutation_status \<Rightarrow> (string \<times> json) list" where
  "status_json Attempting = [(''status'', JStr ''attempting'')]"
| "status_json (Confirmed mid fin) = [(''status'', JStr ''confirmed''), (''messageId'', JStr mid), (''finishedAt'', JStr fin)]"
| "status_json Uncertain = [(''status'', JStr ''uncertain''), (''reason'', JStr ''mutation_uncertain'')]"

definition mutation_json :: "mutation_state \<Rightarrow> json" where
  "mutation_json m = JObj ([(''version'', JInt 1), (''attemptId'', JStr (mu_attemptId m)), (''eventId'', JStr (mu_eventId m)),
     (''canonicalChatId'', JStr (mu_chat m)), (''toolCallId'', JStr (mu_toolCallId m)), (''tool'', JStr (tool_text (mu_tool m))),
     (''destination'', JStr (mu_destination m)), (''startedAt'', JStr (mu_startedAt m)),
     (''ownership'', ownership_json (mu_ownership m))] @ status_json (mu_status m))"

text \<open>Each status has its own closed set of keys.\<close>

definition status_of_json :: "(string \<times> json) list \<Rightarrow> mutation_status option" where
  "status_of_json kv =
     (case jget kv ''status'' of
        Some (JStr s) \<Rightarrow>
          if s = ''attempting'' then (if only_keys mutation_keys kv then Some Attempting else None)
          else if s = ''confirmed'' then
            (if only_keys (mutation_keys @ [''messageId'', ''finishedAt'']) kv
             then do { mid \<leftarrow> as_str (jget kv ''messageId''); fin \<leftarrow> as_str (jget kv ''finishedAt''); Some (Confirmed mid fin) }
             else None)
          else if s = ''uncertain'' then
            (if only_keys (mutation_keys @ [''reason'']) kv
             then do { _ \<leftarrow> literal ''mutation_uncertain'' (jget kv ''reason''); Some Uncertain } else None)
          else None
      | _ \<Rightarrow> None)"

definition mutation_fields :: "(string \<times> json) list \<Rightarrow> mutation_state option" where
  "mutation_fields kv = do {
     _ \<leftarrow> version_1 (jget kv ''version'');
     aid \<leftarrow> as_str (jget kv ''attemptId''); eid \<leftarrow> as_str (jget kv ''eventId''); chat \<leftarrow> as_str (jget kv ''canonicalChatId'');
     cid \<leftarrow> as_str (jget kv ''toolCallId''); tool \<leftarrow> tool_of_json (jget kv ''tool''); dest \<leftarrow> as_str (jget kv ''destination'');
     t \<leftarrow> as_str (jget kv ''startedAt''); ow \<leftarrow> ownership_of_json (jget kv ''ownership''); st \<leftarrow> status_of_json kv;
     Some \<lparr>mu_attemptId = aid, mu_eventId = eid, mu_chat = chat, mu_toolCallId = cid, mu_tool = tool, mu_destination = dest,
       mu_startedAt = t, mu_ownership = ow, mu_status = st\<rparr> }"

definition mutation_of_json :: "json option \<Rightarrow> mutation_state option" where
  "mutation_of_json v = (case v of Some (JObj kv) \<Rightarrow> conforming mutation_state_schema (mutation_fields kv) | _ \<Rightarrow> None)"

section \<open>The journal's records in a session\<close>

record journal_record =
  jr_fingerprint :: string
  jr_session :: session_binding
  jr_state :: mutation_state

definition journal_record_json :: "journal_record \<Rightarrow> json" where
  "journal_record_json r = JObj [(''version'', JInt 1), (''session'', session_json (jr_session r)),
     (''eventFingerprint'', JStr (jr_fingerprint r)), (''state'', mutation_json (jr_state r))]"

definition journal_record_schema :: "journal_record \<Rightarrow> bool" where
  "journal_record_schema r \<longleftrightarrow> event_fingerprint_schema (jr_fingerprint r) \<and> session_binding_schema (jr_session r) \<and>
     mutation_state_schema (jr_state r)"

definition journal_record_of_json :: "json option \<Rightarrow> journal_record option" where
  "journal_record_of_json v = conforming journal_record_schema (do {
     kv \<leftarrow> closed_object [''version'', ''eventFingerprint'', ''session'', ''state''] v;
     _ \<leftarrow> version_1 (jget kv ''version''); fp \<leftarrow> as_str (jget kv ''eventFingerprint'');
     b \<leftarrow> binding_of_json (jget kv ''session''); m \<leftarrow> mutation_of_json (jget kv ''state'');
     Some \<lparr>jr_fingerprint = fp, jr_session = b, jr_state = m\<rparr> })"

section \<open>Checkpoints\<close>

definition outcome_of_json :: "json \<Rightarrow> tool_outcome option" where
  "outcome_of_json v = do {
     kv \<leftarrow> closed_object [''attemptId'', ''tool'', ''destination'', ''messageId''] (Some v);
     a \<leftarrow> as_str (jget kv ''attemptId''); t \<leftarrow> tool_of_json (jget kv ''tool''); d \<leftarrow> as_str (jget kv ''destination'');
     m \<leftarrow> as_str (jget kv ''messageId'');
     Some \<lparr>to_attemptId = a, to_tool = t, to_destination = d, to_messageId = m\<rparr> }"

definition notes_of_json :: "json option \<Rightarrow> string list option" where
  "notes_of_json = array_of_json (\<lambda>v. as_str (Some v))"

definition checkpoint_keys :: "string list" where
  "checkpoint_keys = [''version'', ''canonicalChatId'', ''lastCompletedSequence'', ''policyVersion'', ''templateVersion'',
     ''createdAt'', ''goals'', ''decisions'', ''constraints'', ''verifiedFacts'', ''pendingWork'', ''approvalBoundaries'',
     ''nextSteps'', ''confirmedToolOutcomes'']"

definition checkpoint_of_json :: "json option \<Rightarrow> checkpoint_v1 option" where
  "checkpoint_of_json v = conforming checkpoint_schema (do {
     kv \<leftarrow> closed_object checkpoint_keys v;
     _ \<leftarrow> version_1 (jget kv ''version''); chat \<leftarrow> as_str (jget kv ''canonicalChatId'');
     sq \<leftarrow> nat_of_json (jget kv ''lastCompletedSequence''); pv \<leftarrow> as_str (jget kv ''policyVersion'');
     tv \<leftarrow> as_str (jget kv ''templateVersion''); at \<leftarrow> as_str (jget kv ''createdAt'');
     go \<leftarrow> notes_of_json (jget kv ''goals''); de \<leftarrow> notes_of_json (jget kv ''decisions'');
     co \<leftarrow> notes_of_json (jget kv ''constraints''); vf \<leftarrow> notes_of_json (jget kv ''verifiedFacts'');
     pw \<leftarrow> notes_of_json (jget kv ''pendingWork''); ab \<leftarrow> notes_of_json (jget kv ''approvalBoundaries'');
     ns \<leftarrow> notes_of_json (jget kv ''nextSteps'');
     outs \<leftarrow> array_of_json outcome_of_json (jget kv ''confirmedToolOutcomes'');
     Some \<lparr>ck_chat = chat, ck_lastSequence = sq, ck_policyVersion = pv, ck_templateVersion = tv, ck_createdAt = at,
       ck_goals = go, ck_decisions = de, ck_constraints = co, ck_verifiedFacts = vf, ck_pendingWork = pw,
       ck_approvalBoundaries = ab, ck_nextSteps = ns, ck_outcomes = outs\<rparr> })"

section \<open>Writing and reading back\<close>

lemma tool_of_json_text [simp]: "tool_of_json (Some (JStr (tool_text t))) = Some t"
  by (cases t) (simp_all add: tool_of_json_def)

lemma fence_roundtrip [simp]: "fence_of_json (Some (fence_json f)) = Some f"
  by (simp add: fence_json_def fence_of_json_def closed_object_def only_keys_def jget_def)

lemma ownership_roundtrip [simp]: "ownership_of_json (Some (ownership_json x)) = Some x"
  by (simp add: ownership_json_def ownership_of_json_def closed_object_def only_keys_def jget_def)

lemma outcome_roundtrip [simp]: "outcome_of_json (outcome_json x) = Some x"
  by (simp add: outcome_json_def outcome_of_json_def closed_object_def only_keys_def jget_def)

lemma notes_roundtrip [simp]: "notes_of_json (Some (notes_json ns)) = Some ns"
  by (simp add: notes_of_json_def notes_json_def array_of_json_map)

lemma binding_roundtrip: "session_binding_schema b \<Longrightarrow> binding_of_json (Some (session_json b)) = Some b"
  by (simp add: session_json_def binding_of_json_def only_keys_def jget_def Let_def session_binding_schema_def)

lemma mutation_roundtrip: "mutation_state_schema m \<Longrightarrow> mutation_of_json (Some (mutation_json m)) = Some m"
  by (cases "mu_status m")
    (simp_all add: mutation_json_def mutation_of_json_def mutation_fields_def jget_def version_1_def status_of_json_def
      mutation_keys_def only_keys_def literal_def)

lemma journal_record_roundtrip_lemma:
  "journal_record_schema r \<Longrightarrow> journal_record_of_json (Some (journal_record_json r)) = Some r"
  using binding_roundtrip [of "jr_session r"] mutation_roundtrip [of "jr_state r"]
  by (simp add: journal_record_json_def journal_record_of_json_def closed_object_def only_keys_def jget_def version_1_def
      journal_record_schema_def)

lemma checkpoint_roundtrip_lemma: "checkpoint_schema c \<Longrightarrow> checkpoint_of_json (Some (checkpoint_json c)) = Some c"
  by (simp add: checkpoint_json_def checkpoint_of_json_def closed_object_def checkpoint_keys_def only_keys_def jget_def
      version_1_def array_of_json_map)

text \<open>A journal record written to a session file is read back as the same record, whatever the status of its attempt.\<close>

theorem journal_record_roundtrip:
  assumes "journal_record_schema r"
  shows "journal_record_of_json (Some (journal_record_json r)) = Some r"
  using assms by (rule journal_record_roundtrip_lemma)

text \<open>A checkpoint written as JSON is read back as the same checkpoint.\<close>

theorem checkpoint_roundtrip:
  assumes "checkpoint_schema c"
  shows "checkpoint_of_json (Some (checkpoint_json c)) = Some c"
  using assms by (rule checkpoint_roundtrip_lemma)

definition demo_journal_record :: journal_record where
  "demo_journal_record = \<lparr>jr_fingerprint = demo_fp, jr_session = demo_binding, jr_state = demo_attempt\<rparr>"

lemma demo_journal_record_schema: "journal_record_schema demo_journal_record"
proof -
  have "event_fingerprint_schema demo_fp" "session_binding_schema demo_binding"
    using demo_proof_schema by (simp_all add: completion_proof_schema_def completion_marker_schema_def demo_proof_def)
  then show ?thesis by (simp add: journal_record_schema_def demo_journal_record_def demo_attempt_schema)
qed

theorem journal_record_roundtrip_witness:
  "journal_record_of_json (Some (journal_record_json demo_journal_record)) = Some demo_journal_record"
  by (rule journal_record_roundtrip [OF demo_journal_record_schema])

definition demo_checkpoint :: checkpoint_v1 where
  "demo_checkpoint = \<lparr>ck_chat = ''1@g.us'', ck_lastSequence = 0, ck_policyVersion = ''1'', ck_templateVersion = ''1'',
     ck_createdAt = ''2026-01-01T00:00:00Z'', ck_goals = [''g''], ck_decisions = [], ck_constraints = [], ck_verifiedFacts = [],
     ck_pendingWork = [], ck_approvalBoundaries = [], ck_nextSteps = [],
     ck_outcomes = [\<lparr>to_attemptId = replicate 32 CHR ''c'', to_tool = Send_message, to_destination = ''1@g.us'', to_messageId = ''m''\<rparr>]\<rparr>"

lemma demo_checkpoint_schema: "checkpoint_schema demo_checkpoint"
  by (simp add: checkpoint_schema_def demo_checkpoint_def chat_jid_schema_def group_jid_def jid_with_def jid_user_def
      jid_server_def is_digit_def counter_schema_def version_schema_def demo_time notes_schema_def tool_outcome_schema_def
      opaque_id_def is_hex_def list_all_iff message_id_schema_def)

theorem checkpoint_roundtrip_witness: "checkpoint_of_json (Some (checkpoint_json demo_checkpoint)) = Some demo_checkpoint"
  by (rule checkpoint_roundtrip [OF demo_checkpoint_schema])

end
