(* ===== verification/Checkpoint.thy ===== *)
theory Checkpoint
  imports Records Index
begin

text \<open>
  The checkpoint of a compaction (\<open>src/session-controller/src/compaction/checkpoint.ts\<close>): its
  validation, its rendered summary, and the outcomes of confirmed sends that the active branch of a
  session proves. \<open>sensitive\<close> stands for the five patterns of credentials that a string may match.
\<close>

section \<open>Identity\<close>

record checkpoint_identity =
  ci_chat :: string
  ci_lastSequence :: nat
  ci_policyVersion :: string
  ci_templateVersion :: string
  ci_createdAt :: string

definition checkpointIdentity :: "checkpoint_v1 \<Rightarrow> checkpoint_identity" where
  "checkpointIdentity c = \<lparr>ci_chat = ck_chat c, ci_lastSequence = ck_lastSequence c, ci_policyVersion = ck_policyVersion c,
     ci_templateVersion = ck_templateVersion c, ci_createdAt = ck_createdAt c\<rparr>"

section \<open>Sensitive text\<close>

text \<open>The loop visits at most 4096 values, the last one pending first; a longer value counts as sensitive.\<close>

fun sensitive_scan :: "(string \<Rightarrow> bool) \<Rightarrow> nat \<Rightarrow> json list \<Rightarrow> bool" where
  "sensitive_scan sensitive n [] = False"
| "sensitive_scan sensitive 0 (v # st) = True"
| "sensitive_scan sensitive (Suc n) (v # st) =
     (case v of
        JStr s \<Rightarrow> sensitive s \<or> sensitive_scan sensitive n st
      | JArr xs \<Rightarrow> sensitive_scan sensitive n (rev xs @ st)
      | JObj kv \<Rightarrow> sensitive_scan sensitive n (rev (map snd kv) @ st)
      | _ \<Rightarrow> sensitive_scan sensitive n st)"

definition containsSensitive :: "(string \<Rightarrow> bool) \<Rightarrow> json \<Rightarrow> bool" where
  "containsSensitive sensitive v = sensitive_scan sensitive 4096 [v]"

section \<open>Validation\<close>

definition checkpoint_notes :: "checkpoint_v1 \<Rightarrow> string list" where
  "checkpoint_notes c = concat [ck_goals c, ck_decisions c, ck_constraints c, ck_verifiedFacts c, ck_pendingWork c,
     ck_approvalBoundaries c, ck_nextSteps c]"

definition line_break :: "string \<Rightarrow> bool" where
  "line_break s \<longleftrightarrow> CHR 0x0A \<in> set s \<or> CHR 0x0D \<in> set s"

definition checkpoint_text :: "checkpoint_v1 \<Rightarrow> string" where
  "checkpoint_text c = stringify (checkpoint_json c)"

definition validateCheckpoint :: "(string \<Rightarrow> bool) \<Rightarrow> checkpoint_v1 \<Rightarrow> checkpoint_identity \<Rightarrow> nat \<Rightarrow> error_class + checkpoint_v1" where
  "validateCheckpoint sensitive value expected maximumBytes =
     andThen (guard (1024 \<le> maximumBytes \<and> maximumBytes \<le> 262144) Checkpoint_invalid) (\<lambda>_.
     andThen (checked checkpoint_schema value Checkpoint_invalid) (\<lambda>c.
     andThen (guard (\<not> list_ex line_break (checkpoint_notes c)) Checkpoint_invalid) (\<lambda>_.
     andThen (guard (distinct (map to_attemptId (ck_outcomes c))) Checkpoint_invalid) (\<lambda>_.
     andThen (guard (checkpointIdentity c = expected \<and> \<not> containsSensitive sensitive (checkpoint_json c)) Checkpoint_invalid) (\<lambda>_.
     andThen (guard (length (checkpoint_text c) \<le> maximumBytes) Checkpoint_invalid) (\<lambda>_. Inr c))))))"

section \<open>The rendered summary\<close>

definition summary_lines :: "string \<Rightarrow> string list \<Rightarrow> string list" where
  "summary_lines title values =
     (''## '' @ title) # (if values \<noteq> [] then map (\<lambda>v. ''- '' @ v) values else [''- None recorded.''])"

definition outcome_line :: "tool_outcome \<Rightarrow> string" where
  "outcome_line x = tool_text (to_tool x) @ '': '' @ to_destination x @ '' ('' @ to_messageId x @ '')''"

definition summary_text :: "checkpoint_v1 \<Rightarrow> string \<Rightarrow> string" where
  "summary_text c checkpointId = intercalate [CHR 0x0A]
     ([''## Checkpoint Metadata'', ''- Checkpoint ID: '' @ checkpointId, ''- Created at: '' @ ck_createdAt c] @
      summary_lines ''Goals'' (ck_goals c) @ summary_lines ''Decisions'' (ck_decisions c) @
      summary_lines ''Constraints'' (ck_constraints c) @ summary_lines ''Verified Facts'' (ck_verifiedFacts c) @
      summary_lines ''Pending Work'' (ck_pendingWork c) @
      summary_lines ''Confirmed Tool Outcomes'' (map outcome_line (ck_outcomes c)) @
      summary_lines ''Approval Boundaries'' (ck_approvalBoundaries c) @ summary_lines ''Next Steps'' (ck_nextSteps c) @
      [''## Continuity'', ''- Canonical chat: '' @ ck_chat c, ''- Last completed sequence: '' @ show_nat (ck_lastSequence c),
       ''- Policy version: '' @ ck_policyVersion c, ''- Template version: '' @ ck_templateVersion c])"

definition renderCheckpointSummary :: "(string \<Rightarrow> bool) \<Rightarrow> checkpoint_v1 \<Rightarrow> string \<Rightarrow> checkpoint_identity \<Rightarrow> nat \<Rightarrow> error_class + string" where
  "renderCheckpointSummary sensitive checkpoint checkpointId expected maximumBytes =
     andThen (validateCheckpoint sensitive checkpoint expected maximumBytes) (\<lambda>c.
     andThen (checked opaque_id checkpointId Checkpoint_invalid) (\<lambda>i.
       let summary = summary_text c i in
       andThen (guard (length summary \<le> maximumBytes \<and> \<not> containsSensitive sensitive (JStr summary)) Checkpoint_invalid)
         (\<lambda>_. Inr summary)))"

section \<open>The confirmed history of a branch\<close>

definition supported_types :: "string list" where
  "supported_types = [''message'', ''model_change'', ''thinking_level_change'', ''compaction'', ''context_edit'',
     ''branch_summary'', ''custom'', ''custom_message'', ''label'', ''session_info'', ''usage'']"

definition entry_supported :: "(string \<times> json) list \<Rightarrow> bool" where
  "entry_supported e \<longleftrightarrow> (\<exists>t \<in> set supported_types. jget e ''type'' = Some (JStr t))"

definition assertSupportedEntries :: "json list \<Rightarrow> error_class + unit" where
  "assertSupportedEntries entries =
     guard (list_all (\<lambda>v. case v of JObj kv \<Rightarrow> entry_supported kv | _ \<Rightarrow> False) entries) Checkpoint_invalid"

definition mutation_type :: string where
  "mutation_type = ''whatsapp.controller.mutation.v1''"

definition controller_prefix :: string where
  "controller_prefix = ''whatsapp.controller.''"

text \<open>\<open>transitions\<close> and \<open>outcomes\<close> are JavaScript maps: association lists in insertion order.\<close>

record history =
  hi_bound :: bool
  hi_transitions :: "(string \<times> journal_record) list"
  hi_completed :: "string list"
  hi_outcomes :: "(string \<times> tool_outcome) list"

definition add_outcome :: "tool_outcome \<Rightarrow> history \<Rightarrow> history option" where
  "add_outcome v h =
     (let outs = AList.update (to_attemptId v) v (hi_outcomes h) in
      if map_of (hi_outcomes h) (to_attemptId v) \<notin> {None, Some v} then None
      else if 256 < length outs then None
      else Some (h\<lparr>hi_outcomes := outs\<rparr>))"

fun add_outcomes :: "tool_outcome list \<Rightarrow> history \<Rightarrow> history option" where
  "add_outcomes [] h = Some h"
| "add_outcomes (v # vs) h = Option.bind (add_outcome v h) (add_outcomes vs)"

definition sameMutation :: "mutation_state \<Rightarrow> mutation_state \<Rightarrow> bool" where
  "sameMutation a b \<longleftrightarrow> a\<lparr>mu_status := Attempting\<rparr> = b\<lparr>mu_status := Attempting\<rparr>"

definition take_journal :: "session_binding \<Rightarrow> journal_record \<Rightarrow> history \<Rightarrow> history option" where
  "take_journal b r h =
     (if jr_session r \<noteq> b \<or> mu_chat (jr_state r) \<noteq> sb_chat b \<or> mu_eventId (jr_state r) \<in> set (hi_completed h) then None
      else if (case map_of (hi_transitions h) (mu_attemptId (jr_state r)) of
             None \<Rightarrow> mu_status (jr_state r) = Attempting
           | Some p \<Rightarrow> mu_status (jr_state p) = Attempting \<and> is_confirmed (mu_status (jr_state r)) \<and>
               jr_fingerprint p = jr_fingerprint r \<and> sameMutation (jr_state p) (jr_state r))
      then Some (h\<lparr>hi_transitions := AList.update (mu_attemptId (jr_state r)) r (hi_transitions h)\<rparr>)
      else None)"

fun outcome_of :: "mutation_state \<Rightarrow> tool_outcome option" where
  "outcome_of m = (case mu_status m of
     Confirmed mid _ \<Rightarrow> Some \<lparr>to_attemptId = mu_attemptId m, to_tool = mu_tool m, to_destination = mu_destination m, to_messageId = mid\<rparr>
   | _ \<Rightarrow> None)"

declare outcome_of.simps [simp del]

definition lists_outcome :: "completion_marker \<Rightarrow> tool_outcome \<Rightarrow> bool" where
  "lists_outcome m o' \<longleftrightarrow> \<lparr>cs_destination = to_destination o', cs_messageId = to_messageId o'\<rparr> \<in> set (cm_sends m)"

text \<open>Every attempt of the marker's event is confirmed and listed by the marker.\<close>

fun settle_transitions :: "completion_marker \<Rightarrow> (string \<times> journal_record) list \<Rightarrow> history \<Rightarrow> history option" where
  "settle_transitions m [] h = Some h"
| "settle_transitions m ((k, r) # rs) h =
     (if mu_eventId (jr_state r) \<noteq> cm_eventId m then settle_transitions m rs h
      else if jr_fingerprint r \<noteq> cm_fingerprint m then None
      else case outcome_of (jr_state r) of
          None \<Rightarrow> None
        | Some v \<Rightarrow> if lists_outcome m v then Option.bind (add_outcome v h) (settle_transitions m rs) else None)"

definition matches_send :: "completion_marker \<Rightarrow> confirmed_send \<Rightarrow> journal_record \<Rightarrow> bool" where
  "matches_send m s r \<longleftrightarrow> mu_eventId (jr_state r) = cm_eventId m \<and>
     (case outcome_of (jr_state r) of None \<Rightarrow> False
      | Some v \<Rightarrow> to_destination v = cs_destination s \<and> to_messageId v = cs_messageId s)"

definition take_completion :: "session_binding \<Rightarrow> nat \<Rightarrow> completion_marker \<Rightarrow> history \<Rightarrow> history option" where
  "take_completion b lastSequence m h =
     (if cm_chat m \<noteq> sb_chat b \<or> lastSequence < cm_sequence m \<or> cm_eventId m \<in> set (hi_completed h) then None
      else do {
        h' \<leftarrow> settle_transitions m (hi_transitions h) h;
        if list_all (\<lambda>s. length (filter (matches_send m s) (map snd (hi_transitions h))) = 1) (cm_sends m)
        then Some (h'\<lparr>hi_completed := cm_eventId m # hi_completed h'\<rparr>) else None })"

definition consume_history :: "session_binding \<Rightarrow> nat \<Rightarrow> (string \<times> json) list \<Rightarrow> history \<Rightarrow> history option" where
  "consume_history b lastSequence e h =
     (if \<not> entry_supported e then None
      else if jget e ''type'' \<noteq> Some (JStr ''custom'') then Some h
      else (case jget e ''customType'' of
          Some (JStr t) \<Rightarrow>
            if t = binding_type then
              (if hi_bound h \<or> binding_of_json (jget e ''data'') \<noteq> Some b then None else Some (h\<lparr>hi_bound := True\<rparr>))
            else if t = mutation_type then
              (if \<not> hi_bound h then None
               else Option.bind (journal_record_of_json (jget e ''data'')) (\<lambda>r. take_journal b r h))
            else if t = completion_type then
              (if \<not> hi_bound h then None
               else Option.bind (marker_of_json (jget e ''data'')) (\<lambda>m. take_completion b lastSequence m h))
            else if take (length controller_prefix) t = controller_prefix then None
            else Some h
        | None \<Rightarrow> Some h | Some JNull \<Rightarrow> Some h | _ \<Rightarrow> None))"

fun consume_all :: "session_binding \<Rightarrow> nat \<Rightarrow> (string \<times> json) list list \<Rightarrow> history \<Rightarrow> history option" where
  "consume_all b lastSequence [] h = Some h"
| "consume_all b lastSequence (e # es) h = Option.bind (consume_history b lastSequence e h) (consume_all b lastSequence es)"

definition history_start :: history where
  "history_start = \<lparr>hi_bound = False, hi_transitions = [], hi_completed = [], hi_outcomes = []\<rparr>"

text \<open>The outcomes already in the current checkpoint.\<close>

definition history_prior :: "session_binding \<Rightarrow> nat \<Rightarrow> checkpoint_v1 option \<Rightarrow> history option" where
  "history_prior b lastSequence current =
     (case current of
        None \<Rightarrow> Some history_start
      | Some c \<Rightarrow> if \<not> checkpoint_schema c \<or> ck_chat c \<noteq> sb_chat b \<or> lastSequence < ck_lastSequence c then None
          else add_outcomes (ck_outcomes c) history_start)"

definition settled_transition :: "history \<Rightarrow> journal_record \<Rightarrow> bool" where
  "settled_transition h r \<longleftrightarrow> is_confirmed (mu_status (jr_state r)) \<and> mu_eventId (jr_state r) \<in> set (hi_completed h)"

definition confirmedHistory :: "(string \<times> json) list list \<Rightarrow> session_binding \<Rightarrow> nat \<Rightarrow> checkpoint_v1 option \<Rightarrow>
    error_class + tool_outcome list" where
  "confirmedHistory entries b lastSequence current =
     (case (if max_safe < lastSequence \<or> 4096 < length entries \<or> \<not> session_binding_schema b then None
            else do {
              h0 \<leftarrow> history_prior b lastSequence current;
              h \<leftarrow> consume_all b lastSequence entries h0;
              if hi_bound h \<and> list_all (settled_transition h) (map snd (hi_transitions h))
              then Some (map snd (sort_keys (hi_outcomes h))) else None }) of
        None \<Rightarrow> Inl Checkpoint_invalid
      | Some outs \<Rightarrow> Inr outs)"

end
