(* ===== verification/Checkpoint_Spec.thy ===== *)
theory Checkpoint_Spec
  imports Checkpoint
begin

text \<open>
  The properties of checkpoints: what the scan for sensitive text guarantees, what a validated
  checkpoint is, and that the confirmed history holds exactly the sends that the branch proves.
\<close>

section \<open>Sensitive text\<close>

fun json_strings :: "json \<Rightarrow> string set" where
  "json_strings (JStr s) = {s}"
| "json_strings (JArr xs) = (\<Union>x \<in> set xs. json_strings x)"
| "json_strings (JObj kv) = (\<Union>(_, v) \<in> set kv. json_strings v)"
| "json_strings _ = {}"

lemma sensitive_scan_complete:
  "\<not> sensitive_scan sensitive n st \<Longrightarrow> v \<in> set st \<Longrightarrow> s \<in> json_strings v \<Longrightarrow> \<not> sensitive s"
proof (induction sensitive n st arbitrary: v rule: sensitive_scan.induct)
  case (3 sensitive n u st)
  show ?case
  proof (cases "v = u")
    case False
    then show ?thesis using 3 by (cases u) auto
  next
    case True
    then show ?thesis using 3 by (cases u) (fastforce simp: case_prod_beta)+
  qed
qed simp_all

section \<open>Validated checkpoints\<close>

text \<open>A validated checkpoint is the given value, unchanged; it fits its schema and the byte limit, has the expected identity, distinct attempts and notes of one line, and no string in it matches a pattern of credentials.\<close>

theorem validated_checkpoint:
  assumes "validateCheckpoint sensitive value expected maximumBytes = Inr c"
  shows "c = value \<and> checkpoint_schema c \<and> checkpointIdentity c = expected \<and>
    length (checkpoint_text c) \<le> maximumBytes \<and> maximumBytes \<le> 262144 \<and> distinct (map to_attemptId (ck_outcomes c)) \<and>
    (\<forall>note \<in> set (checkpoint_notes c). \<not> line_break note) \<and>
    (\<forall>s \<in> json_strings (checkpoint_json c). \<not> sensitive s)"
  using assms sensitive_scan_complete [of sensitive 4096 "[checkpoint_json c]" "checkpoint_json c"]
  by (auto simp: validateCheckpoint_def containsSensitive_def list_ex_iff)

section \<open>The evidence in a branch\<close>

definition custom_entry :: "string \<Rightarrow> (string \<times> json) list \<Rightarrow> bool" where
  "custom_entry t e \<longleftrightarrow> jget e ''type'' = Some (JStr ''custom'') \<and> jget e ''customType'' = Some (JStr t)"

definition journal_at :: "session_binding \<Rightarrow> (string \<times> json) list \<Rightarrow> journal_record \<Rightarrow> bool" where
  "journal_at b e r \<longleftrightarrow> custom_entry mutation_type e \<and> journal_record_of_json (jget e ''data'') = Some r \<and> jr_session r = b"

definition marker_at :: "(string \<times> json) list \<Rightarrow> completion_marker \<Rightarrow> bool" where
  "marker_at e m \<longleftrightarrow> custom_entry completion_type e \<and> marker_of_json (jget e ''data'') = Some m"

text \<open>A confirmed record that comes after the attempting record of the same call.\<close>

definition confirmed_in :: "session_binding \<Rightarrow> (string \<times> json) list list \<Rightarrow> journal_record \<Rightarrow> bool" where
  "confirmed_in b P r \<longleftrightarrow> (\<exists>us e vs. P = us @ e # vs \<and> journal_at b e r \<and> is_confirmed (mu_status (jr_state r)) \<and>
     (\<exists>e' \<in> set us. \<exists>p. journal_at b e' p \<and> mu_status (jr_state p) = Attempting \<and> jr_fingerprint p = jr_fingerprint r \<and>
        sameMutation (jr_state p) (jr_state r)))"

text \<open>An outcome is proved by a marker that lists it, after the confirmed record of the same event.\<close>

definition proved_in :: "session_binding \<Rightarrow> nat \<Rightarrow> (string \<times> json) list list \<Rightarrow> tool_outcome \<Rightarrow> bool" where
  "proved_in b n P v \<longleftrightarrow> (\<exists>us e vs m r. P = us @ e # vs \<and> marker_at e m \<and> cm_chat m = sb_chat b \<and> cm_sequence m \<le> n \<and>
     confirmed_in b us r \<and> outcome_of (jr_state r) = Some v \<and> mu_eventId (jr_state r) = cm_eventId m \<and>
     jr_fingerprint r = cm_fingerprint m \<and> lists_outcome m v)"

lemma confirmed_in_snoc: "confirmed_in b P r \<Longrightarrow> confirmed_in b (P @ [e]) r"
  unfolding confirmed_in_def by (metis append.assoc append_Cons)

lemma proved_in_snoc: "proved_in b n P v \<Longrightarrow> proved_in b n (P @ [e]) v"
  unfolding proved_in_def by (metis append.assoc append_Cons)

lemma confirmed_in_last:
  "journal_at b e r \<Longrightarrow> is_confirmed (mu_status (jr_state r)) \<Longrightarrow> e' \<in> set P \<Longrightarrow> journal_at b e' p \<Longrightarrow>
   mu_status (jr_state p) = Attempting \<Longrightarrow> jr_fingerprint p = jr_fingerprint r \<Longrightarrow> sameMutation (jr_state p) (jr_state r) \<Longrightarrow>
   confirmed_in b (P @ [e]) r"
  unfolding confirmed_in_def by (intro exI [of _ P] exI [of _ e] exI [of _ "[]"]) auto

lemma proved_in_last:
  "marker_at e m \<Longrightarrow> cm_chat m = sb_chat b \<Longrightarrow> cm_sequence m \<le> n \<Longrightarrow> confirmed_in b P r \<Longrightarrow> outcome_of (jr_state r) = Some v \<Longrightarrow>
   mu_eventId (jr_state r) = cm_eventId m \<Longrightarrow> jr_fingerprint r = cm_fingerprint m \<Longrightarrow> lists_outcome m v \<Longrightarrow> proved_in b n (P @ [e]) v"
  unfolding proved_in_def by (intro exI [of _ P] exI [of _ e] exI [of _ "[]"] exI [of _ m] exI [of _ r]) simp

section \<open>The invariant of the loop\<close>

definition transition_ok :: "session_binding \<Rightarrow> (string \<times> json) list list \<Rightarrow> string \<times> journal_record \<Rightarrow> bool" where
  "transition_ok b P x \<longleftrightarrow> (case x of (k, r) \<Rightarrow> k = mu_attemptId (jr_state r) \<and>
     (mu_status (jr_state r) = Attempting \<and> (\<exists>e \<in> set P. journal_at b e r) \<or> confirmed_in b P r))"

definition outcome_ok :: "session_binding \<Rightarrow> nat \<Rightarrow> tool_outcome list \<Rightarrow> (string \<times> json) list list \<Rightarrow> string \<times> tool_outcome \<Rightarrow> bool" where
  "outcome_ok b n prior P x \<longleftrightarrow> (case x of (k, v) \<Rightarrow> k = to_attemptId v \<and> (v \<in> set prior \<or> proved_in b n P v))"

definition seen :: "history \<Rightarrow> (string \<times> json) list \<Rightarrow> bool" where
  "seen h e \<longleftrightarrow> (\<forall>r. custom_entry mutation_type e \<and> journal_record_of_json (jget e ''data'') = Some r \<longrightarrow>
     (\<exists>r'. (mu_attemptId (jr_state r), r') \<in> set (hi_transitions h) \<and> sameMutation (jr_state r) (jr_state r')))"

definition finished :: "history \<Rightarrow> string \<times> journal_record \<Rightarrow> bool" where
  "finished h x \<longleftrightarrow> (case x of (k, r) \<Rightarrow> mu_eventId (jr_state r) \<in> set (hi_completed h) \<longrightarrow>
     (\<exists>v. outcome_of (jr_state r) = Some v \<and> (k, v) \<in> set (hi_outcomes h)))"

definition history_inv :: "session_binding \<Rightarrow> nat \<Rightarrow> tool_outcome list \<Rightarrow> (string \<times> json) list list \<Rightarrow> history \<Rightarrow> bool" where
  "history_inv b n prior P h \<longleftrightarrow>
     distinct (map fst (hi_transitions h)) \<and> distinct (map fst (hi_outcomes h)) \<and>
     (\<forall>x \<in> set (hi_transitions h). transition_ok b P x) \<and> (\<forall>x \<in> set (hi_outcomes h). outcome_ok b n prior P x) \<and>
     (\<forall>e \<in> set P. seen h e) \<and> (\<forall>x \<in> set (hi_transitions h). finished h x)"

lemma transition_ok_snoc: "transition_ok b P x \<Longrightarrow> transition_ok b (P @ [e]) x"
  by (auto simp: transition_ok_def intro: confirmed_in_snoc)

lemma outcome_ok_snoc: "outcome_ok b n prior P x \<Longrightarrow> outcome_ok b n prior (P @ [e]) x"
  by (auto simp: outcome_ok_def intro: proved_in_snoc)

lemma sameMutation_refl [simp]: "sameMutation a a"
  by (simp add: sameMutation_def)

lemma sameMutation_trans: "sameMutation a b \<Longrightarrow> sameMutation b c \<Longrightarrow> sameMutation a c"
  by (simp add: sameMutation_def)

lemma sameMutation_attempt:
  assumes "sameMutation a b"
  shows "mu_attemptId a = mu_attemptId b" "mu_eventId a = mu_eventId b" "mu_tool a = mu_tool b" "mu_destination a = mu_destination b"
proof -
  have "a\<lparr>mu_status := Attempting\<rparr> = b\<lparr>mu_status := Attempting\<rparr>" using assms by (simp add: sameMutation_def)
  then show "mu_attemptId a = mu_attemptId b" "mu_eventId a = mu_eventId b" "mu_tool a = mu_tool b" "mu_destination a = mu_destination b"
    by (metis mutation_state.select_convs mutation_state.surjective mutation_state.update_convs)+
qed

lemma update_members:
  assumes "distinct (map fst xs)"
  shows "(k, v) \<in> set (AList.update k' v' xs) \<longleftrightarrow> (if k = k' then v = v' else (k, v) \<in> set xs)"
  using assms by (metis (no_types, lifting) distinct_update map_of_eq_Some_iff update_conv' fun_upd_apply option.inject)

lemma history_other_entry:
  assumes "history_inv b n prior P h" "\<not> custom_entry mutation_type e"
  shows "history_inv b n prior (P @ [e]) h" "history_inv b n prior (P @ [e]) (h\<lparr>hi_bound := True\<rparr>)"
  using assms by (auto simp: history_inv_def seen_def finished_def split_beta intro: transition_ok_snoc outcome_ok_snoc)

lemma take_journal_inv:
  assumes inv: "history_inv b n prior P h" and e: "custom_entry mutation_type e" "journal_record_of_json (jget e ''data'') = Some r"
    and take: "take_journal b r h = Some h'"
  shows "history_inv b n prior (P @ [e]) h'"
proof -
  let ?k = "mu_attemptId (jr_state r)"
  have h': "h' = h\<lparr>hi_transitions := AList.update ?k r (hi_transitions h)\<rparr>" and s: "jr_session r = b"
    and fresh: "mu_eventId (jr_state r) \<notin> set (hi_completed h)"
    using take by (auto simp: take_journal_def split: if_splits)
  have at: "journal_at b e r" using e s by (simp add: journal_at_def)
  have d: "distinct (map fst (hi_transitions h))" using inv by (simp add: history_inv_def)
  note mem = update_members [OF d]
  have prior: "(?k, p) \<in> set (hi_transitions h) \<Longrightarrow> sameMutation (jr_state p) (jr_state r) \<and> mu_status (jr_state p) = Attempting \<and>
      is_confirmed (mu_status (jr_state r)) \<and> jr_fingerprint p = jr_fingerprint r" for p
    using take d by (auto simp: take_journal_def split: if_splits option.splits)
  have new: "transition_ok b (P @ [e]) (?k, r)"
  proof (cases "map_of (hi_transitions h) ?k")
    case None
    then have "mu_status (jr_state r) = Attempting" using take by (auto simp: take_journal_def split: if_splits)
    then show ?thesis using at by (auto simp: transition_ok_def)
  next
    case (Some p)
    then have p: "(?k, p) \<in> set (hi_transitions h)" by (rule map_of_SomeD)
    then have "transition_ok b P (?k, p)" using inv by (simp add: history_inv_def)
    then obtain e' where "e' \<in> set P" "journal_at b e' p"
      using prior [OF p] by (auto simp: transition_ok_def confirmed_in_def)
    then show ?thesis using prior [OF p] at by (auto simp: transition_ok_def intro: confirmed_in_last)
  qed
  have old: "transition_ok b P x" "finished h x" if "x \<in> set (hi_transitions h)" for x
    using that inv by (simp_all add: history_inv_def)
  have "transition_ok b (P @ [e]) x \<and> finished h' x" if x: "x \<in> set (hi_transitions h')" for x
  proof (cases "fst x = ?k")
    case True
    then have "x = (?k, r)" using x by (cases x) (auto simp: h' mem)
    then show ?thesis using new fresh by (simp add: finished_def h')
  next
    case False
    then have "x \<in> set (hi_transitions h)" using x by (cases x) (auto simp: h' mem)
    then show ?thesis using old [of x] by (auto simp: finished_def h' intro: transition_ok_snoc)
  qed
  moreover have "seen h' e'" if "e' \<in> set (P @ [e])" for e'
    unfolding seen_def
  proof (intro allI impI)
    fix q assume q: "custom_entry mutation_type e' \<and> journal_record_of_json (jget e' ''data'') = Some q"
    show "\<exists>r'. (mu_attemptId (jr_state q), r') \<in> set (hi_transitions h') \<and> sameMutation (jr_state q) (jr_state r')"
    proof (cases "e' = e")
      case True
      then show ?thesis using q e by (auto simp: h' mem)
    next
      case False
      then have "seen h e'" using inv that by (simp add: history_inv_def)
      then obtain r' where r': "(mu_attemptId (jr_state q), r') \<in> set (hi_transitions h)" "sameMutation (jr_state q) (jr_state r')"
        using q by (auto simp: seen_def)
      show ?thesis
      proof (cases "mu_attemptId (jr_state q) = ?k")
        case True
        then have "sameMutation (jr_state q) (jr_state r)" using prior r' sameMutation_trans by metis
        then show ?thesis using True by (auto simp: h' mem)
      qed (use r' in \<open>auto simp: h' mem\<close>)
    qed
  qed
  moreover have "distinct (map fst (hi_transitions h'))" using d by (simp add: h' distinct_update)
  moreover have "\<forall>x \<in> set (hi_outcomes h'). outcome_ok b n prior (P @ [e]) x" "distinct (map fst (hi_outcomes h'))"
    using inv by (simp_all add: history_inv_def h' outcome_ok_snoc)
  ultimately show ?thesis unfolding history_inv_def by blast
qed

lemma outcome_of_attempt: "outcome_of m = Some v \<Longrightarrow> to_attemptId v = mu_attemptId m \<and> is_confirmed (mu_status m)"
  by (auto simp: outcome_of.simps split: mutation_status.splits)

lemma add_outcome_spec:
  assumes "add_outcome v h = Some h'" "distinct (map fst (hi_outcomes h))"
  shows "h' = h\<lparr>hi_outcomes := hi_outcomes h'\<rparr> \<and> distinct (map fst (hi_outcomes h')) \<and>
    set (hi_outcomes h') = insert (to_attemptId v, v) (set (hi_outcomes h))"
proof -
  have h': "h' = h\<lparr>hi_outcomes := AList.update (to_attemptId v) v (hi_outcomes h)\<rparr>"
    and same: "map_of (hi_outcomes h) (to_attemptId v) \<in> {None, Some v}"
    using assms(1) by (auto simp: add_outcome_def Let_def split: if_splits)
  have "u = v" if "(to_attemptId v, u) \<in> set (hi_outcomes h)" for u
    using same assms(2) that by (simp add: map_of_is_SomeI)
  then have "x \<in> set (hi_outcomes h') \<longleftrightarrow> x = (to_attemptId v, v) \<or> x \<in> set (hi_outcomes h)" for x
    by (cases x) (auto simp: h' update_members [OF assms(2)])
  then show ?thesis using assms(2) by (auto simp: h' distinct_update)
qed

definition event_outcome :: "completion_marker \<Rightarrow> journal_record \<Rightarrow> tool_outcome \<Rightarrow> bool" where
  "event_outcome m r v \<longleftrightarrow> mu_eventId (jr_state r) = cm_eventId m \<and> jr_fingerprint r = cm_fingerprint m \<and>
     outcome_of (jr_state r) = Some v \<and> lists_outcome m v"

lemma settle_transitions_spec:
  assumes "settle_transitions m rs h = Some h'" "distinct (map fst (hi_outcomes h))"
  shows "h' = h\<lparr>hi_outcomes := hi_outcomes h'\<rparr> \<and> distinct (map fst (hi_outcomes h')) \<and>
    (\<forall>k r. (k, r) \<in> set rs \<and> mu_eventId (jr_state r) = cm_eventId m \<longrightarrow> (\<exists>v. event_outcome m r v)) \<and>
    set (hi_outcomes h') = set (hi_outcomes h) \<union> {(to_attemptId v, v) |v. \<exists>k r. (k, r) \<in> set rs \<and> event_outcome m r v}"
  using assms
proof (induction m rs h rule: settle_transitions.induct)
  case (2 m k r rs h)
  show ?case
  proof (cases "mu_eventId (jr_state r) = cm_eventId m")
    case False
    then have "settle_transitions m rs h = Some h'" using 2(3) by simp
    from "2.IH"(1) [OF _ this 2(4)] False show ?thesis by (auto simp: event_outcome_def)
  next
    case True
    then obtain v h1 where v: "outcome_of (jr_state r) = Some v" "lists_outcome m v" "jr_fingerprint r = cm_fingerprint m"
      and h1: "add_outcome v h = Some h1" "settle_transitions m rs h1 = Some h'"
      using 2(3) by (auto simp: bind_eq_Some_conv split: option.splits if_splits)
    note a = add_outcome_spec [OF h1(1) 2(4)]
    have ih: "h' = h1\<lparr>hi_outcomes := hi_outcomes h'\<rparr>" "distinct (map fst (hi_outcomes h'))"
      "\<forall>k r. (k, r) \<in> set rs \<and> mu_eventId (jr_state r) = cm_eventId m \<longrightarrow> (\<exists>v. event_outcome m r v)"
      "set (hi_outcomes h') = set (hi_outcomes h1) \<union> {(to_attemptId v, v) |v. \<exists>k r. (k, r) \<in> set rs \<and> event_outcome m r v}"
      using "2.IH"(2) [of v h1] True v h1 a by (simp, simp, fastforce, simp)
    have only: "event_outcome m r u \<longleftrightarrow> u = v" for u using v True by (auto simp: event_outcome_def)
    have "h' = h\<lparr>hi_outcomes := hi_outcomes h'\<rparr>" using ih(1) a by (metis history.surjective history.update_convs(4))
    moreover have "set (hi_outcomes h') = set (hi_outcomes h) \<union>
        {(to_attemptId v, v) |v. \<exists>k' r'. (k', r') \<in> set ((k, r) # rs) \<and> event_outcome m r' v}"
      unfolding ih(4) using a only by auto
    moreover have "\<forall>k' r'. (k', r') \<in> set ((k, r) # rs) \<and> mu_eventId (jr_state r') = cm_eventId m \<longrightarrow> (\<exists>v. event_outcome m r' v)"
      using ih(3) only by auto
    ultimately show ?thesis using ih(2) by blast
  qed
qed simp

lemma take_completion_inv:
  assumes inv: "history_inv b n prior P h" and e: "marker_at e m" and take: "take_completion b n m h = Some h'"
  shows "history_inv b n prior (P @ [e]) h'"
proof -
  obtain h1 where h1: "settle_transitions m (hi_transitions h) h = Some h1"
    and h': "h' = h1\<lparr>hi_completed := cm_eventId m # hi_completed h1\<rparr>" and m: "cm_chat m = sb_chat b" "cm_sequence m \<le> n"
    using take by (auto simp: take_completion_def bind_eq_Some_conv split: if_splits)
  have d: "distinct (map fst (hi_outcomes h))" using inv by (simp add: history_inv_def)
  note spec = settle_transitions_spec [OF h1 d]
  have same: "hi_transitions h' = hi_transitions h" "hi_completed h' = cm_eventId m # hi_completed h" "hi_outcomes h' = hi_outcomes h1"
  proof -
    have "hi_transitions h1 = hi_transitions h \<and> hi_completed h1 = hi_completed h"
      using spec by (metis history.select_convs(2,3) history.surjective history.update_convs(4))
    then show "hi_transitions h' = hi_transitions h" "hi_completed h' = cm_eventId m # hi_completed h" "hi_outcomes h' = hi_outcomes h1"
      by (simp_all add: h')
  qed
  have "outcome_ok b n prior (P @ [e]) x" if "x \<in> set (hi_outcomes h')" for x
  proof (cases "x \<in> set (hi_outcomes h)")
    case True
    then show ?thesis using inv by (simp add: history_inv_def outcome_ok_snoc)
  next
    case False
    have "x \<in> set (hi_outcomes h) \<union> {(to_attemptId v, v) |v. \<exists>k r. (k, r) \<in> set (hi_transitions h) \<and> event_outcome m r v}"
      using that spec same(3) by metis
    then obtain v k r where v: "x = (to_attemptId v, v)" "(k, r) \<in> set (hi_transitions h)" "event_outcome m r v"
      using False by blast
    have "transition_ok b P (k, r)" using inv v(2) by (simp add: history_inv_def)
    then have "confirmed_in b P r" using v(3) outcome_of_attempt [of "jr_state r" v] by (auto simp: transition_ok_def event_outcome_def)
    then show ?thesis using v e m by (auto simp: outcome_ok_def event_outcome_def intro: proved_in_last)
  qed
  moreover have "finished h' x" if x: "x \<in> set (hi_transitions h')" for x
  proof -
    obtain k r where kr: "x = (k, r)" by (cases x)
    have tr: "k = mu_attemptId (jr_state r)" "finished h (k, r)" "(k, r) \<in> set (hi_transitions h)"
      using x inv kr same by (auto simp: history_inv_def transition_ok_def)
    show ?thesis
    proof (cases "mu_eventId (jr_state r) = cm_eventId m")
      case True
      then obtain v where v: "event_outcome m r v" using spec tr(3) by blast
      then have "(k, v) \<in> set (hi_outcomes h')"
        using spec tr same(3) outcome_of_attempt [of "jr_state r" v] by (auto simp: event_outcome_def)
      then show ?thesis using v kr by (auto simp: finished_def event_outcome_def)
    next
      case False
      then show ?thesis using tr(2) spec kr same by (auto simp: finished_def)
    qed
  qed
  moreover have "seen h' e'" if "e' \<in> set (P @ [e])" for e'
  proof -
    have "\<not> custom_entry mutation_type e"
      using e by (auto simp: marker_at_def custom_entry_def mutation_type_def completion_type_def)
    then show ?thesis using that inv same by (auto simp: history_inv_def seen_def)
  qed
  moreover have "\<forall>x \<in> set (hi_transitions h'). transition_ok b (P @ [e]) x"
    using inv same by (auto simp: history_inv_def intro: transition_ok_snoc)
  ultimately show ?thesis using inv spec same unfolding history_inv_def by auto
qed

lemma consume_history_inv:
  assumes inv: "history_inv b n prior P h" and c: "consume_history b n e h = Some h'"
  shows "history_inv b n prior (P @ [e]) h'"
proof (cases "\<exists>t. jget e ''type'' = Some (JStr ''custom'') \<and> jget e ''customType'' = Some (JStr t)")
  case False
  then have "h' = h" using c by (auto simp: consume_history_def split: if_splits option.splits json.splits)
  moreover have "\<not> custom_entry mutation_type e" using False by (auto simp: custom_entry_def)
  ultimately show ?thesis using history_other_entry(1) [OF inv] by simp
next
  case True
  then obtain t where t: "custom_entry t e" by (auto simp: custom_entry_def)
  then have ty: "jget e ''type'' = Some (JStr ''custom'')" "jget e ''customType'' = Some (JStr t)" by (simp_all add: custom_entry_def)
  have other: "custom_entry u e \<Longrightarrow> u = t" for u using ty by (simp add: custom_entry_def)
  show ?thesis
  proof (cases "t = mutation_type")
    case True
    have "t \<noteq> binding_type" using True by (simp add: mutation_type_def binding_type_def)
    then obtain r where "journal_record_of_json (jget e ''data'') = Some r" "take_journal b r h = Some h'"
      using c ty True by (auto simp: consume_history_def bind_eq_Some_conv split: if_splits)
    then show ?thesis using take_journal_inv [OF inv] t True by blast
  next
    case False
    then have no: "\<not> custom_entry mutation_type e" using other by blast
    show ?thesis
    proof (cases "t = completion_type")
      case True
      have "t \<noteq> binding_type" using True by (simp add: completion_type_def binding_type_def)
      then obtain m where "marker_of_json (jget e ''data'') = Some m" "take_completion b n m h = Some h'"
        using c ty True False by (auto simp: consume_history_def bind_eq_Some_conv split: if_splits)
      then show ?thesis using take_completion_inv [OF inv] t True by (auto simp: marker_at_def)
    next
      case other: False
      then have "h' = h \<or> h' = h\<lparr>hi_bound := True\<rparr>"
        using c ty False by (auto simp: consume_history_def split: if_splits)
      then show ?thesis using history_other_entry [OF inv no] by auto
    qed
  qed
qed

lemma consume_all_inv:
  "history_inv b n prior P h \<Longrightarrow> consume_all b n es h = Some h' \<Longrightarrow> history_inv b n prior (P @ es) h'"
proof (induction es arbitrary: P h)
  case (Cons e es)
  then obtain h1 where "consume_history b n e h = Some h1" "consume_all b n es h1 = Some h'"
    by (auto simp: bind_eq_Some_conv)
  with Cons consume_history_inv [OF Cons.prems(1)] show ?case by (metis append_Cons append_Nil append_assoc)
qed simp

lemma add_outcomes_inv:
  "add_outcomes vs h = Some h' \<Longrightarrow> hi_transitions h = [] \<Longrightarrow> distinct (map fst (hi_outcomes h)) \<Longrightarrow> set vs \<subseteq> set prior \<Longrightarrow>
   (\<forall>x \<in> set (hi_outcomes h). outcome_ok b n prior [] x) \<Longrightarrow> history_inv b n prior [] h'"
proof (induction vs arbitrary: h)
  case Nil
  then show ?case by (auto simp: history_inv_def)
next
  case (Cons v vs)
  then obtain h1 where h1: "add_outcome v h = Some h1" "add_outcomes vs h1 = Some h'"
    by (auto simp: bind_eq_Some_conv)
  note a = add_outcome_spec [OF h1(1) Cons.prems(3)]
  have "hi_transitions h1 = []" using a Cons.prems(2) by (metis history.select_convs(2) history.surjective history.update_convs(4))
  moreover have "\<forall>x \<in> set (hi_outcomes h1). outcome_ok b n prior [] x"
    using a Cons.prems(4,5) by (auto simp: outcome_ok_def)
  ultimately show ?case using Cons.IH [OF h1(2)] a Cons.prems(4) by simp
qed

section \<open>The history\<close>

lemma insert_key_set: "set (insert_key x xs) = insert x (set xs)"
  by (induction xs) auto

lemma sort_keys_set: "set (sort_keys xs) = set xs"
  by (induction xs) (auto simp: sort_keys_def insert_key_set)

definition prior_outcomes :: "checkpoint_v1 option \<Rightarrow> tool_outcome list" where
  "prior_outcomes current = (case current of None \<Rightarrow> [] | Some c \<Rightarrow> ck_outcomes c)"

text \<open>When the history of a branch is accepted, every outcome in it is one of the current checkpoint or is proved by the branch: an attempting record of this session, later its confirmed record, later a completion marker of the same event, within the completed sequences, that lists the send; and no journal record of the branch is left out: each belongs to an attempt whose outcome is in the history.\<close>

theorem history_is_proved:
  assumes "confirmedHistory entries b n current = Inr outs"
  shows "(\<forall>v \<in> set outs. v \<in> set (prior_outcomes current) \<or> proved_in b n entries v) \<and>
    (\<forall>e \<in> set entries. \<forall>r. custom_entry mutation_type e \<and> journal_record_of_json (jget e ''data'') = Some r \<longrightarrow>
      (\<exists>v \<in> set outs. to_attemptId v = mu_attemptId (jr_state r) \<and> to_tool v = mu_tool (jr_state r) \<and>
        to_destination v = mu_destination (jr_state r)))"
proof -
  obtain h0 h where h: "history_prior b n current = Some h0" "consume_all b n entries h0 = Some h"
    and settled: "list_all (settled_transition h) (map snd (hi_transitions h))" and outs: "outs = map snd (sort_keys (hi_outcomes h))"
    using assms by (auto simp: confirmedHistory_def bind_eq_Some_conv split: option.splits if_splits)
  have start: "history_inv b n (prior_outcomes current) [] h0"
  proof (cases current)
    case None
    then show ?thesis using h(1) by (auto simp: history_prior_def history_inv_def history_start_def)
  next
    case (Some c)
    then have "add_outcomes (ck_outcomes c) history_start = Some h0" using h(1) by (auto simp: history_prior_def split: if_splits)
    then show ?thesis by (rule add_outcomes_inv) (simp_all add: history_start_def prior_outcomes_def Some)
  qed
  have inv: "history_inv b n (prior_outcomes current) entries h" using consume_all_inv [OF start h(2)] by simp
  have members: "v \<in> set outs \<longleftrightarrow> (\<exists>k. (k, v) \<in> set (hi_outcomes h))" for v
    by (force simp: outs sort_keys_set)
  have "v \<in> set (prior_outcomes current) \<or> proved_in b n entries v" if "v \<in> set outs" for v
    using that inv by (auto simp: members history_inv_def outcome_ok_def)
  moreover have "\<exists>v \<in> set outs. to_attemptId v = mu_attemptId (jr_state r) \<and> to_tool v = mu_tool (jr_state r) \<and>
      to_destination v = mu_destination (jr_state r)"
    if e: "e \<in> set entries" "custom_entry mutation_type e" "journal_record_of_json (jget e ''data'') = Some r" for e r
  proof -
    have "seen h e" using inv e(1) by (simp add: history_inv_def)
    then obtain r' where r': "(mu_attemptId (jr_state r), r') \<in> set (hi_transitions h)" "sameMutation (jr_state r) (jr_state r')"
      using e(2,3) unfolding seen_def by blast
    then have "settled_transition h r'" "finished h (mu_attemptId (jr_state r), r')"
      using settled inv by (force simp: list_all_iff history_inv_def)+
    then obtain v where "outcome_of (jr_state r') = Some v" "(mu_attemptId (jr_state r), v) \<in> set (hi_outcomes h)"
      by (auto simp: settled_transition_def finished_def)
    then show ?thesis
      using sameMutation_attempt [OF r'(2)] members
      by (intro bexI [of _ v]) (auto simp: outcome_of.simps split: mutation_status.splits)
  qed
  ultimately show ?thesis by blast
qed

section \<open>A branch with one send\<close>

definition demo_confirmed_record :: journal_record where
  "demo_confirmed_record = demo_journal_record\<lparr>jr_state := demo_attempt\<lparr>mu_status := Confirmed ''m'' ''2026-01-01T00:00:00Z''\<rparr>\<rparr>"

definition demo_send_marker :: completion_marker where
  "demo_send_marker = (cp_marker demo_proof)\<lparr>cm_sends := [\<lparr>cs_destination = ''1@g.us'', cs_messageId = ''m''\<rparr>]\<rparr>"

definition custom_json :: "string \<Rightarrow> json \<Rightarrow> (string \<times> json) list" where
  "custom_json t d = [(''type'', JStr ''custom''), (''customType'', JStr t), (''data'', d)]"

definition demo_marker_json :: json where
  "demo_marker_json = JObj [(''version'', JInt 1), (''eventId'', JStr (event_id demo_event)), (''eventFingerprint'', JStr demo_fp),
     (''canonicalChatId'', JStr ''1@g.us''), (''chatSequence'', JInt 1), (''completion'', JStr ''turn''),
     (''completedAt'', JStr ''2026-01-01T00:00:00Z''),
     (''confirmedSends'', JArr [JObj [(''destination'', JStr ''1@g.us''), (''messageId'', JStr ''m'')]])]"

definition demo_branch :: "(string \<times> json) list list" where
  "demo_branch = [custom_json binding_type (session_json demo_binding),
     custom_json mutation_type (journal_record_json demo_journal_record),
     custom_json mutation_type (journal_record_json demo_confirmed_record),
     custom_json completion_type demo_marker_json]"

lemma demo_confirmed_record_schema: "journal_record_schema demo_confirmed_record"
proof -
  have "mutation_state_schema (demo_attempt\<lparr>mu_status := Confirmed ''m'' ''2026-01-01T00:00:00Z''\<rparr>)"
    using demo_attempt_schema by (simp add: mutation_state_schema_def demo_attempt_def demo_time message_id_schema_def)
  then show ?thesis
    using demo_journal_record_schema by (simp add: journal_record_schema_def demo_confirmed_record_def demo_journal_record_def)
qed

lemma demo_binding_schema: "session_binding_schema demo_binding"
  using demo_proof_schema by (simp add: completion_proof_schema_def demo_proof_def)

lemma demo_send_marker_schema: "completion_marker_schema demo_send_marker"
proof -
  have "completion_marker_schema (cp_marker demo_proof)" using demo_proof_schema by (simp add: completion_proof_schema_def)
  then show ?thesis
    by (simp add: completion_marker_schema_def demo_send_marker_def confirmed_send_schema_def chat_jid_schema_def group_jid_def
        jid_with_def jid_user_def jid_server_def is_digit_def message_id_schema_def)
qed

lemma demo_marker_read: "marker_of_json (Some demo_marker_json) = Some demo_send_marker"
proof -
  have "marker_fields (case demo_marker_json of JObj kv \<Rightarrow> kv | _ \<Rightarrow> []) = Some demo_send_marker"
    by (simp add: marker_fields_def demo_marker_json_def jget_def send_of_json_def only_keys_def demo_send_marker_def demo_proof_def)
  then show ?thesis using demo_send_marker_schema
    by (simp add: marker_of_json_def demo_marker_json_def only_keys_def marker_keys_def)
qed

lemma demo_branch_entry [simp]:
  "jget (custom_json t d) ''type'' = Some (JStr ''custom'')" "jget (custom_json t d) ''customType'' = Some (JStr t)"
  "jget (custom_json t d) ''data'' = Some d" "entry_supported (custom_json t d)"
  by (simp_all add: custom_json_def jget_def entry_supported_def supported_types_def)

lemma demo_history:
  "confirmedHistory demo_branch demo_binding 1 None =
   Inr [\<lparr>to_attemptId = mu_attemptId demo_attempt, to_tool = Send_message, to_destination = ''1@g.us'', to_messageId = ''m''\<rparr>]"
proof -
  have types: "binding_type \<noteq> mutation_type" "mutation_type \<noteq> binding_type" "completion_type \<noteq> binding_type" "completion_type \<noteq> mutation_type"
    by (simp_all add: binding_type_def mutation_type_def completion_type_def)
  have read: "binding_of_json (Some (session_json demo_binding)) = Some demo_binding"
    "journal_record_of_json (Some (journal_record_json demo_journal_record)) = Some demo_journal_record"
    "journal_record_of_json (Some (journal_record_json demo_confirmed_record)) = Some demo_confirmed_record"
    using binding_roundtrip [OF demo_binding_schema] journal_record_roundtrip_lemma demo_journal_record_schema demo_confirmed_record_schema
    by simp_all
  have f: "jr_session demo_journal_record = demo_binding" "jr_session demo_confirmed_record = demo_binding"
    "jr_state demo_journal_record = demo_attempt" "jr_fingerprint demo_journal_record = demo_fp"
    "jr_fingerprint demo_confirmed_record = demo_fp" "mu_chat demo_attempt = ''1@g.us''" "sb_chat demo_binding = ''1@g.us''"
    "mu_status demo_attempt = Attempting" "mu_eventId demo_attempt = event_id demo_event" "mu_tool demo_attempt = Send_message"
    "mu_destination demo_attempt = ''1@g.us''"
    "jr_state demo_confirmed_record = demo_attempt\<lparr>mu_status := Confirmed ''m'' ''2026-01-01T00:00:00Z''\<rparr>"
    "cm_eventId demo_send_marker = event_id demo_event" "cm_fingerprint demo_send_marker = demo_fp" "cm_chat demo_send_marker = ''1@g.us''"
    "cm_sequence demo_send_marker = 1" "cm_sends demo_send_marker = [\<lparr>cs_destination = ''1@g.us'', cs_messageId = ''m''\<rparr>]"
    by (simp_all add: demo_journal_record_def demo_confirmed_record_def demo_binding_def demo_attempt_def demo_send_marker_def demo_proof_def)
  show ?thesis
    by (simp add: confirmedHistory_def max_safe_def demo_branch_def demo_binding_schema history_prior_def consume_history_def types read
        demo_marker_read take_journal_def f history_start_def sameMutation_def take_completion_def outcome_of.simps lists_outcome_def
        add_outcome_def matches_send_def settled_transition_def sort_keys_def)
qed

theorem history_is_proved_witness:
  "proved_in demo_binding 1 demo_branch
     \<lparr>to_attemptId = mu_attemptId demo_attempt, to_tool = Send_message, to_destination = ''1@g.us'', to_messageId = ''m''\<rparr>"
  using history_is_proved [OF demo_history] by (simp add: prior_outcomes_def)

lemma sensitive_scan_numeral:
  "sensitive_scan sensitive (numeral k) (v # st) =
     (case v of
        JStr s \<Rightarrow> sensitive s \<or> sensitive_scan sensitive (pred_numeral k) st
      | JArr xs \<Rightarrow> sensitive_scan sensitive (pred_numeral k) (rev xs @ st)
      | JObj kv \<Rightarrow> sensitive_scan sensitive (pred_numeral k) (rev (map snd kv) @ st)
      | _ \<Rightarrow> sensitive_scan sensitive (pred_numeral k) st)"
  by (simp add: numeral_eq_Suc)

lemma demo_checkpoint_length: "length (checkpoint_text demo_checkpoint) \<le> 600"
  by code_simp

lemma demo_validated:
  "validateCheckpoint (\<lambda>s. s = ''password: hunter22'') demo_checkpoint (checkpointIdentity demo_checkpoint) 65536 = Inr demo_checkpoint"
proof -
  have "replicate 32 CHR ''c'' \<noteq> ''password: hunter22''"
    by (rule notI, drule arg_cong [where f = length]) simp
  then have "\<not> containsSensitive (\<lambda>s. s = ''password: hunter22'') (checkpoint_json demo_checkpoint)"
    by (simp add: containsSensitive_def sensitive_scan_numeral checkpoint_json_def demo_checkpoint_def notes_json_def outcome_json_def)
  moreover note demo_checkpoint_length
  moreover have "\<not> list_ex line_break (checkpoint_notes demo_checkpoint)"
    by (simp add: checkpoint_notes_def demo_checkpoint_def line_break_def)
  moreover have "distinct (map to_attemptId (ck_outcomes demo_checkpoint))" by (simp add: demo_checkpoint_def)
  ultimately show ?thesis by (simp add: validateCheckpoint_def demo_checkpoint_schema guard_def checked_def)
qed

theorem validated_checkpoint_witness: "length (checkpoint_text demo_checkpoint) \<le> 65536"
  using validated_checkpoint [OF demo_validated] by blast

end
