(* ===== verification/Usage.thy ===== *)
theory Usage
  imports Domain
begin

text \<open>
  The policy that decides whether the conversation still fits its window
  (\<open>src/session-controller/src/compaction/usage-policy.ts\<close>). A JavaScript number that the code checks
  for being an integer is a \<open>js_number\<close>; the sums are exact because every summand is a safe
  integer and a sum beyond the safe range is refused.
\<close>

section \<open>Numbers\<close>

text \<open>\<open>JS_other\<close>: a number that is no integer (its integral part below is what a comparison needs), or no finite number.\<close>

datatype js_number = JS_int int | JS_fraction int | JS_not_finite

text \<open>\<open>JS_fraction i\<close> lies strictly between \<open>i\<close> and \<open>i + 1\<close>.\<close>

fun safe_integer :: "js_number \<Rightarrow> int \<Rightarrow> int option" where
  "safe_integer (JS_int i) minimum = (if minimum \<le> i \<and> \<bar>i\<bar> \<le> int max_safe then Some i else None)"
| "safe_integer _ _ = None"

fun percent_ok :: "js_number \<Rightarrow> bool" where
  "percent_ok (JS_int i) = (0 \<le> i \<and> i \<le> 100)"
| "percent_ok (JS_fraction i) = (0 \<le> i \<and> i < 100)"
| "percent_ok JS_not_finite = False"

section \<open>The policy\<close>

record usage_config =
  uc_safeWorkingWindow :: int
  uc_defaultContextWindow :: int
  uc_headroomPercent :: int
  uc_responseReserve :: int
  uc_preparationReserve :: int
  uc_summaryReserve :: int
  uc_checkpointMaxBytes :: int

definition usage_reserve :: "usage_config \<Rightarrow> int" where
  "usage_reserve c = uc_responseReserve c + uc_preparationReserve c + uc_summaryReserve c"

definition usage_config_ok :: "usage_config \<Rightarrow> bool" where
  "usage_config_ok c \<longleftrightarrow>
     list_all (\<lambda>v. 1 \<le> v \<and> v \<le> int max_safe) [uc_safeWorkingWindow c, uc_defaultContextWindow c, uc_headroomPercent c,
       uc_responseReserve c, uc_preparationReserve c, uc_summaryReserve c, uc_checkpointMaxBytes c] \<and>
     1024 \<le> uc_safeWorkingWindow c \<and> uc_safeWorkingWindow c \<le> 10000000 \<and>
     1024 \<le> uc_defaultContextWindow c \<and> uc_defaultContextWindow c \<le> 10000000 \<and> uc_headroomPercent c \<le> 99 \<and>
     uc_responseReserve c \<le> 1000000 \<and> uc_preparationReserve c \<le> 1000000 \<and> uc_summaryReserve c \<le> 1000000 \<and>
     1024 \<le> uc_checkpointMaxBytes c \<and> uc_checkpointMaxBytes c \<le> 262144 \<and>
     usage_reserve c \<le> int max_safe \<and> usage_reserve c < min (uc_safeWorkingWindow c) (uc_defaultContextWindow c)"

definition createUsagePolicy :: "usage_config \<Rightarrow> error_class + usage_config" where
  "createUsagePolicy c = andThen (guard (usage_config_ok c) Config_invalid) (\<lambda>_. Inr c)"

record usage_snapshot =
  us_tokens :: "js_number option"
  us_contextWindow :: js_number
  us_percent :: "js_number option"

record token_budget =
  tb_event :: js_number
  tb_tools :: js_number
  tb_prompt :: js_number

text \<open>The effective window, the projected and the remaining tokens.\<close>

datatype usage_decision = Usage_ok int int int | Usage_compact int int int | Usage_unknown_decision

definition usage_numbers :: "usage_snapshot option \<Rightarrow> (int \<times> int) option" where
  "usage_numbers usage =
     (case usage of
        None \<Rightarrow> None
      | Some u \<Rightarrow>
         (case (Option.bind (us_tokens u) (\<lambda>t. safe_integer t 0), safe_integer (us_contextWindow u) 1, us_percent u) of
            (Some t, Some w, Some p) \<Rightarrow> if percent_ok p then Some (t, w) else None
          | _ \<Rightarrow> None))"

definition incoming_tokens :: "token_budget \<Rightarrow> int option" where
  "incoming_tokens incoming =
     (case (safe_integer (tb_event incoming) 0, safe_integer (tb_tools incoming) 0, safe_integer (tb_prompt incoming) 0) of
        (Some e, Some t, Some p) \<Rightarrow> Some (e + t + p)
      | _ \<Rightarrow> None)"

definition decide :: "usage_config \<Rightarrow> usage_snapshot option \<Rightarrow> token_budget \<Rightarrow> error_class + usage_decision" where
  "decide c usage incoming =
     (case incoming_tokens incoming of
        None \<Rightarrow> Inl Usage_unknown
      | Some budget \<Rightarrow>
         (case usage_numbers usage of
            None \<Rightarrow> Inr Usage_unknown_decision
          | Some (tokens, contextWindow) \<Rightarrow>
              let effective = min contextWindow (uc_safeWorkingWindow c);
                  extra = usage_reserve c + budget;
                  projected = tokens + extra;
                  remaining = max 0 (effective - projected) in
              if int max_safe < extra \<or> int max_safe < projected then Inl Usage_unknown
              else Inr (if remaining * 100 \<le> effective * uc_headroomPercent c
                then Usage_compact effective projected remaining else Usage_ok effective projected remaining)))"

section \<open>What a decision means\<close>

text \<open>The decision is that the conversation fits exactly when more than the headroom percentage of the effective window, the smaller of the model's and the configured one, stays free after the tokens in use, the three reserves and the incoming budget; it then fits both windows. Otherwise, with the same numbers, it is to compact.\<close>

theorem usage_decision_spec:
  assumes "createUsagePolicy c = Inr c'" "incoming_tokens incoming = Some budget" "usage_numbers usage = Some (tokens, window)"
    and "decide c' usage incoming = Inr d"
  shows "(d = Usage_ok (min window (uc_safeWorkingWindow c)) (tokens + usage_reserve c + budget)
        (min window (uc_safeWorkingWindow c) - (tokens + usage_reserve c + budget)) \<and>
      tokens + usage_reserve c + budget < min window (uc_safeWorkingWindow c) \<and>
      min window (uc_safeWorkingWindow c) * uc_headroomPercent c <
        (min window (uc_safeWorkingWindow c) - (tokens + usage_reserve c + budget)) * 100) \<or>
    ((\<exists>remaining. d = Usage_compact (min window (uc_safeWorkingWindow c)) (tokens + usage_reserve c + budget) remaining \<and> 0 \<le> remaining) \<and>
      (min window (uc_safeWorkingWindow c) - (tokens + usage_reserve c + budget)) * 100 \<le>
        min window (uc_safeWorkingWindow c) * uc_headroomPercent c)"
proof -
  define eff where "eff = min window (uc_safeWorkingWindow c)"
  define proj where "proj = tokens + usage_reserve c + budget"
  have c: "c' = c" "1 \<le> uc_headroomPercent c" "1 \<le> uc_safeWorkingWindow c"
    using assms(1) by (auto simp: createUsagePolicy_def usage_config_ok_def)
  have "1 \<le> window"
  proof -
    have "safe_integer n m = Some i \<Longrightarrow> m \<le> i" for n m i by (cases n) (auto split: if_splits)
    then show ?thesis using assms(3) by (auto simp: usage_numbers_def split: option.splits if_splits)
  qed
  then have pos: "0 < eff * uc_headroomPercent c" using c by (simp add: eff_def)
  have d: "d = (if max 0 (eff - proj) * 100 \<le> eff * uc_headroomPercent c
      then Usage_compact eff proj (max 0 (eff - proj)) else Usage_ok eff proj (max 0 (eff - proj)))"
    using assms(2-4) by (auto simp: decide_def c(1) Let_def eff_def proj_def algebra_simps split: if_splits)
  show ?thesis
    unfolding eff_def [symmetric] proj_def [symmetric]
  proof (cases "max 0 (eff - proj) * 100 \<le> eff * uc_headroomPercent c")
    case True
    moreover have "(eff - proj) * 100 \<le> max 0 (eff - proj) * 100" by (intro mult_right_mono) simp_all
    ultimately have "(eff - proj) * 100 \<le> eff * uc_headroomPercent c" by (rule order_trans [rotated])
    then show "d = Usage_ok eff proj (eff - proj) \<and> proj < eff \<and> eff * uc_headroomPercent c < (eff - proj) * 100 \<or>
        (\<exists>remaining. d = Usage_compact eff proj remaining \<and> 0 \<le> remaining) \<and> (eff - proj) * 100 \<le> eff * uc_headroomPercent c"
      using True d by auto
  next
    case False
    have "proj < eff"
    proof (rule ccontr)
      assume "\<not> proj < eff"
      then have "max 0 (eff - proj) = 0" by simp
      then show False using False pos by simp
    qed
    then show "d = Usage_ok eff proj (eff - proj) \<and> proj < eff \<and> eff * uc_headroomPercent c < (eff - proj) * 100 \<or>
        (\<exists>remaining. d = Usage_compact eff proj remaining \<and> 0 \<le> remaining) \<and> (eff - proj) * 100 \<le> eff * uc_headroomPercent c"
      using False d by (simp add: max_def)
  qed
qed

text \<open>More tokens in use, or a larger incoming budget, never turn the decision from compaction to fitting.\<close>

theorem usage_monotone:
  assumes "usage_numbers usage = Some (tokens, window)" "usage_numbers usage' = Some (tokens', window)" "tokens \<le> tokens'"
    and "incoming_tokens incoming = Some budget" "incoming_tokens incoming' = Some budget'" "budget \<le> budget'"
    and "decide c usage' incoming' = Inr (Usage_ok e p r)"
  shows "\<exists>p' r'. decide c usage incoming = Inr (Usage_ok e p' r') \<and> p' \<le> p \<and> r \<le> r'"
proof -
  define eff where "eff = min window (uc_safeWorkingWindow c)"
  define limit where "limit = eff * uc_headroomPercent c"
  define proj where "proj = tokens + (usage_reserve c + budget)"
  define proj' where "proj' = tokens' + (usage_reserve c + budget')"
  have r: "\<not> int max_safe < usage_reserve c + budget'" "\<not> int max_safe < proj'" "\<not> max 0 (eff - proj') * 100 \<le> limit"
    "e = eff" "p = proj'" "r = max 0 (eff - proj')"
    using assms(2,5,7) by (auto simp: decide_def Let_def eff_def limit_def proj'_def split: if_splits)
  have le: "proj \<le> proj'" "max 0 (eff - proj') \<le> max 0 (eff - proj)" using assms(3,6) by (auto simp: proj_def proj'_def)
  have "max 0 (eff - proj') * 100 \<le> max 0 (eff - proj) * 100" by (rule mult_right_mono [OF le(2)]) simp
  then have "\<not> max 0 (eff - proj) * 100 \<le> limit" using r(3) by (metis order_trans)
  moreover have "\<not> int max_safe < usage_reserve c + budget" "\<not> int max_safe < proj" using r(1,2) assms(6) le(1) by linarith+
  ultimately have "decide c usage incoming = Inr (Usage_ok eff proj (max 0 (eff - proj)))"
    using assms(1,4) by (simp add: decide_def Let_def eff_def limit_def proj_def)
  then show ?thesis using r(4-6) le by auto
qed

definition demo_usage_config :: usage_config where
  "demo_usage_config = \<lparr>uc_safeWorkingWindow = 100000, uc_defaultContextWindow = 262144, uc_headroomPercent = 15,
     uc_responseReserve = 4096, uc_preparationReserve = 2048, uc_summaryReserve = 2048, uc_checkpointMaxBytes = 65536\<rparr>"

definition demo_usage :: "int \<Rightarrow> usage_snapshot option" where
  "demo_usage t = Some \<lparr>us_tokens = Some (JS_int t), us_contextWindow = JS_int 200000, us_percent = Some (JS_fraction 5)\<rparr>"

definition demo_budget :: token_budget where
  "demo_budget = \<lparr>tb_event = JS_int 100, tb_tools = JS_int 0, tb_prompt = JS_int 8\<rparr>"

lemma demo_decision: "decide demo_usage_config (demo_usage 50000) demo_budget = Inr (Usage_ok 100000 58300 41700)"
  by (simp add: decide_def demo_usage_config_def demo_usage_def demo_budget_def incoming_tokens_def usage_numbers_def max_safe_def
      usage_reserve_def Let_def)

lemma demo_usage_values:
  "createUsagePolicy demo_usage_config = Inr demo_usage_config" "incoming_tokens demo_budget = Some 108"
  "usage_numbers (demo_usage 50000) = Some (50000, 200000)" "usage_numbers (demo_usage 40000) = Some (40000, 200000)"
  by (simp_all add: createUsagePolicy_def usage_config_ok_def demo_usage_config_def usage_reserve_def max_safe_def guard_def
      incoming_tokens_def demo_budget_def usage_numbers_def demo_usage_def)

theorem usage_decision_spec_witness: "50000 + usage_reserve demo_usage_config + 108 < min 200000 (uc_safeWorkingWindow demo_usage_config)"
  using usage_decision_spec [OF demo_usage_values(1-3) demo_decision] by auto

theorem usage_monotone_witness:
  "\<exists>p' r'. decide demo_usage_config (demo_usage 40000) demo_budget = Inr (Usage_ok 100000 p' r') \<and> p' \<le> 58300 \<and> 41700 \<le> r'"
  using usage_monotone [OF demo_usage_values(4,3) _ demo_usage_values(2,2) _ demo_decision] by simp

end
