(* ===== verification/Trace.thy ===== *)
theory Trace
  imports Exec
begin

text \<open>
  Code that only calls its ports: the state is the list of calls made so far, and the environment
  answers each call by its position. The rules at the end follow such code call by call, keep what
  the answers have taught, and show that every call was made only where it may be.
\<close>

type_synonym ('e, 'a) traced_exec = "('e list, 'a) exec"

definition call :: "'e \<Rightarrow> (nat \<Rightarrow> error_class + 'a) \<Rightarrow> ('e, 'a) traced_exec" where
  "call e answer log = (answer (length log), log @ [e])"

text \<open>A synchronous observation at this point of the run.\<close>

definition observe :: "(nat \<Rightarrow> 'b) \<Rightarrow> ('b \<Rightarrow> ('e, 'a) traced_exec) \<Rightarrow> ('e, 'a) traced_exec" where
  "observe f g log = g (f (length log)) log"

definition require :: "bool \<Rightarrow> error_class \<Rightarrow> ('s, unit) exec" where
  "require b e = lift (guard b e)"

section \<open>What a log has answered\<close>

definition answered :: "'e list \<Rightarrow> 'e \<Rightarrow> (nat \<Rightarrow> error_class + 'a) \<Rightarrow> 'a \<Rightarrow> bool" where
  "answered log e answer x \<longleftrightarrow> (\<exists>n < length log. log ! n = e \<and> answer n = Inr x)"

definition keeps_growing :: "('e list \<Rightarrow> bool) \<Rightarrow> bool" where
  "keeps_growing X \<longleftrightarrow> (\<forall>log e. X log \<longrightarrow> X (log @ [e]))"

lemma answered_snoc: "answered (log @ [e]) c f x \<longleftrightarrow> answered log c f x \<or> c = e \<and> f (length log) = Inr x"
proof -
  have "answered (log @ [e]) c f x \<longleftrightarrow>
      (e = c \<and> f (length log) = Inr x) \<or> (\<exists>n < length log. (log @ [e]) ! n = c \<and> f n = Inr x)"
    by (simp add: answered_def Ex_less_Suc)
  also have "(\<exists>n < length log. (log @ [e]) ! n = c \<and> f n = Inr x) \<longleftrightarrow> answered log c f x"
    unfolding answered_def by (metis nth_append)
  finally show ?thesis by blast
qed

lemma keeps_growing_intros [intro, simp]:
  "keeps_growing (\<lambda>_. True)" "keeps_growing (\<lambda>_. P)" "keeps_growing (\<lambda>log. answered log e f x)"
  "keeps_growing X \<Longrightarrow> keeps_growing Y \<Longrightarrow> keeps_growing (\<lambda>log. X log \<and> Y log)"
  "keeps_growing (\<lambda>log. e \<in> set log)"
  by (auto simp: keeps_growing_def answered_snoc)

text \<open>The call was answered at a moment when \<open>X\<close> held of the log.\<close>

definition answered_since :: "'e list \<Rightarrow> 'e \<Rightarrow> (nat \<Rightarrow> error_class + 'a) \<Rightarrow> 'a \<Rightarrow> ('e list \<Rightarrow> bool) \<Rightarrow> bool" where
  "answered_since log e answer x X \<longleftrightarrow> (\<exists>n < length log. log ! n = e \<and> answer n = Inr x \<and> X (take n log))"

lemma answered_since_snoc:
  "answered_since (log @ [e]) c f x X \<longleftrightarrow> answered_since log c f x X \<or> c = e \<and> f (length log) = Inr x \<and> X log"
proof -
  have "(\<exists>n < length log. (log @ [e]) ! n = c \<and> f n = Inr x \<and> X (take n (log @ [e]))) \<longleftrightarrow> answered_since log c f x X"
    unfolding answered_since_def by (auto simp: nth_append)
  then show ?thesis by (auto simp: answered_since_def Ex_less_Suc)
qed

lemma keeps_growing_since [intro, simp]: "keeps_growing (\<lambda>log. answered_since log e f x X)"
  by (auto simp: keeps_growing_def answered_since_snoc)

section \<open>Guarded traces\<close>

text \<open>\<open>G log e\<close>: after \<open>log\<close> the call \<open>e\<close> may be made.\<close>

definition guarded :: "('e list \<Rightarrow> 'e \<Rightarrow> bool) \<Rightarrow> 'e list \<Rightarrow> bool" where
  "guarded G log \<longleftrightarrow> (\<forall>p < length log. G (take p log) (log ! p))"

lemma guarded_Nil [simp]: "guarded G []"
  by (simp add: guarded_def)

lemma guarded_snoc: "guarded G (log @ [e]) \<longleftrightarrow> guarded G log \<and> G log e"
proof -
  have "(\<forall>p < length log. G (take p (log @ [e])) ((log @ [e]) ! p)) \<longleftrightarrow> guarded G log"
    unfolding guarded_def by (simp add: nth_append)
  then show ?thesis by (auto simp: guarded_def All_less_Suc)
qed

lemma guarded_snoc2: "guarded G log \<Longrightarrow> G log a \<Longrightarrow> G (log @ [a]) b \<Longrightarrow> guarded G (log @ [a, b])"
  using iffD2 [OF guarded_snoc, of G "log @ [a]" b] iffD2 [OF guarded_snoc, of G log a] by simp

lemma guardedD: "guarded G log \<Longrightarrow> p < length log \<Longrightarrow> G (take p log) (log ! p)"
  by (simp add: guarded_def)

text \<open>A run keeps the guard, starting from what \<open>X\<close> says of the log and ending in what \<open>Q\<close> says of result and log.\<close>

definition guards :: "('e list \<Rightarrow> 'e \<Rightarrow> bool) \<Rightarrow> ('e list \<Rightarrow> bool) \<Rightarrow> ('e, 'a) traced_exec \<Rightarrow> ('a \<Rightarrow> 'e list \<Rightarrow> bool) \<Rightarrow> bool" where
  "guards G X m Q \<longleftrightarrow> triple (\<lambda>log. guarded G log \<and> X log) m (\<lambda>x log. guarded G log \<and> Q x log) (\<lambda>_. guarded G)"

lemma guards_Inr:
  assumes "guards G X m Q" "guarded G log" "X log" "m log = (Inr x, log')"
  shows "guarded G log' \<and> Q x log'"
  using triple_Inr [OF assms(1) [unfolded guards_def] conjI [OF assms(2,3)] assms(4)] .

lemma guards_Inl:
  assumes "guards G X m Q" "guarded G log" "X log" "m log = (Inl e, log')"
  shows "guarded G log'"
  using triple_Inl [OF assms(1) [unfolded guards_def] conjI [OF assms(2,3)] assms(4)] .

lemma guards_any:
  assumes "guards G X m Q" "guarded G log" "X log" "m log = (r, log')"
  shows "guarded G log'"
  using guards_Inr [OF assms(1-3)] guards_Inl [OF assms(1-3)] assms(4) by (cases r) simp_all

lemma guards_weaken: "guards G X m Q \<Longrightarrow> (\<And>log. Y log \<Longrightarrow> X log) \<Longrightarrow> (\<And>x log. Q x log \<Longrightarrow> S x log) \<Longrightarrow> guards G Y m S"
  unfolding guards_def by (erule triple_weaken) auto

lemma guards_seq: "guards G X m Q \<Longrightarrow> (\<And>x. guards G (Q x) (f x) S) \<Longrightarrow> guards G X (seq m f) S"
  unfolding guards_def by (rule triple_seq)

lemma guards_call:
  assumes "\<And>log. X log \<Longrightarrow> G log e" "keeps_growing X"
  shows "guards G X (call e f) (\<lambda>x log. X log \<and> answered log e f x)"
  using assms
  by (auto simp: guards_def triple_def call_def guarded_snoc keeps_growing_def answered_snoc split: sum.split)

lemma guards_call_since:
  assumes "\<And>log. X log \<Longrightarrow> G log e" "keeps_growing X"
  shows "guards G X (call e f) (\<lambda>x log. X log \<and> answered_since log e f x X)"
  using assms
  by (auto simp: guards_def triple_def call_def guarded_snoc keeps_growing_def answered_since_snoc split: sum.split)

lemma guards_then_since:
  "(\<And>log. X log \<Longrightarrow> G log e) \<Longrightarrow> keeps_growing X \<Longrightarrow>
   (\<And>x. guards G (\<lambda>log. X log \<and> answered_since log e f x X) (g x) Q) \<Longrightarrow> guards G X (seq (call e f) g) Q"
  by (rule guards_seq [OF guards_call_since])

text \<open>A call whose answer is not needed later.\<close>

lemma guards_skip:
  "(\<And>log. X log \<Longrightarrow> G log e) \<Longrightarrow> keeps_growing X \<Longrightarrow> (\<And>x. guards G X (g x) Q) \<Longrightarrow> guards G X (seq (call e f) g) Q"
  by (rule guards_seq [of _ _ _ "\<lambda>_. X"], rule guards_weaken [OF guards_call [of X]]) auto

lemma guards_then:
  "(\<And>log. X log \<Longrightarrow> G log e) \<Longrightarrow> keeps_growing X \<Longrightarrow> (\<And>x. guards G (\<lambda>log. X log \<and> answered log e f x) (g x) Q) \<Longrightarrow>
   guards G X (seq (call e f) g) Q"
  by (rule guards_seq [OF guards_call])

lemma guards_ret: "(\<And>log. X log \<Longrightarrow> Q x log) \<Longrightarrow> guards G X (ret x) Q"
  unfolding guards_def by (rule triple_ret) simp

lemma guards_throw: "guards G X (throw e) Q"
  unfolding guards_def by (rule triple_throw) simp

lemma guards_if: "(b \<Longrightarrow> guards G X m Q) \<Longrightarrow> (\<not> b \<Longrightarrow> guards G X n Q) \<Longrightarrow> guards G X (if b then m else n) Q"
  by simp

lemma guards_option:
  "(x = None \<Longrightarrow> guards G X m Q) \<Longrightarrow> (\<And>y. x = Some y \<Longrightarrow> guards G X (f y) Q) \<Longrightarrow>
   guards G X (case x of None \<Rightarrow> m | Some y \<Rightarrow> f y) Q"
  by (cases x) simp_all

lemma guards_lift: "(\<And>x. r = Inr x \<Longrightarrow> guards G X (f x) Q) \<Longrightarrow> guards G X (seq (lift r) f) Q"
  by (cases r) (simp_all add: guards_throw)

lemma guards_require:
  "(b \<Longrightarrow> guards G X (f ()) Q) \<Longrightarrow> guards G X (seq (require b e) f) Q"
  unfolding require_def by (rule guards_lift) simp

lemma guards_observe: "(\<And>n. guards G X (g (f n)) Q) \<Longrightarrow> guards G X (observe f g) Q"
  by (auto simp: guards_def triple_def observe_def)

lemma guards_catch: "guards G X m Q \<Longrightarrow> (\<And>e. guards G (\<lambda>_. True) (h e) Q) \<Longrightarrow> guards G X (catch m h) Q"
  unfolding guards_def by (rule triple_catch, assumption) simp

lemma guards_ex: "(\<And>q. guards G (X q) m Q) \<Longrightarrow> guards G (\<lambda>log. \<exists>q. X q log) m Q"
proof (unfold guards_def triple_def, intro allI impI, goal_cases)
  case (1 log)
  then obtain q where "guarded G log \<and> X q log" by blast
  with 1(1) [of q] show ?case by simp
qed

lemma guards_pre: "guards G X m Q \<Longrightarrow> (\<And>log. Y log \<Longrightarrow> X log) \<Longrightarrow> guards G Y m Q"
  by (rule guards_weaken)

text \<open>A call that comes directly after another one, the check of the ownership.\<close>

definition after_check :: "('e, unit) traced_exec \<Rightarrow> ('e, 'a) traced_exec \<Rightarrow> ('e, 'a) traced_exec" where
  "after_check check m = seq check (\<lambda>_. m)"

lemma guards_after_check:
  assumes "\<And>log. X log \<Longrightarrow> G log c" "\<And>log. X log \<Longrightarrow> G (log @ [c]) e" "keeps_growing X"
  shows "guards G X (after_check (call c f0) (call e f)) (\<lambda>x log. X log \<and> answered log e f x)"
proof -
  have "X (log @ [c])" "X (log @ [c, e])" if "X log" for log
  proof -
    show "X (log @ [c])" using that assms(3) by (simp add: keeps_growing_def)
    then have "X ((log @ [c]) @ [e])" using assms(3) by (metis keeps_growing_def)
    then show "X (log @ [c, e])" by simp
  qed
  then show ?thesis
    using assms(1,2) guarded_snoc [of G _ c] guarded_snoc [of G "_ @ [c]" e] answered_snoc [of "_ @ [c]" e e f]
    by (auto simp: guards_def triple_def after_check_def seq_def call_def split: sum.split)
qed

lemma guards_then_checked:
  "(\<And>log. X log \<Longrightarrow> G log c) \<Longrightarrow> (\<And>log. X log \<Longrightarrow> G (log @ [c]) e) \<Longrightarrow> keeps_growing X \<Longrightarrow>
   (\<And>x. guards G (\<lambda>log. X log \<and> answered log e f x) (g x) Q) \<Longrightarrow>
   guards G X (seq (after_check (call c f0) (call e f)) g) Q"
  by (rule guards_seq [OF guards_after_check])

end
