(* ===== verification/Compactor.thy ===== *)
theory Compactor
  imports Checkpoint Usage Trace
begin

text \<open>
  The preparation of a turn (\<open>src/session-controller/src/compaction/compactor.ts\<close>): the latest
  checkpoint is first settled, then the usage decides whether the session is compacted before the
  prompt. The repository, the session and the templates are ports; every call to one follows directly
  on a check of the ownership.
\<close>

section \<open>Ports\<close>

datatype compact_effect =
    C_current | C_latest | C_reconcile checkpoint_record | C_transition claimed_work string checkpoint_phase
  | C_readChat | C_list | C_history nat "checkpoint_v1 option" | C_template string | C_compact string checkpoint_v1

record compact_env =
  ce_current :: "nat \<Rightarrow> error_class + unit"
  ce_work :: "nat \<Rightarrow> claimed_work"
  ce_latest :: "nat \<Rightarrow> error_class + checkpoint_record option"
  ce_reconcile :: "nat \<Rightarrow> error_class + (string \<times> checkpoint_v1)"
  ce_transition :: "nat \<Rightarrow> error_class + bool"
  ce_readChat :: "nat \<Rightarrow> error_class + chat_state"
  ce_list :: "nat \<Rightarrow> error_class + mutation_state list"
  ce_history :: "nat \<Rightarrow> error_class + tool_outcome list"
  ce_template :: "nat \<Rightarrow> error_class + string"
  ce_compact :: "nat \<Rightarrow> error_class + (string \<times> checkpoint_v1)"
  ce_usage :: "nat \<Rightarrow> usage_snapshot option"
  ce_incoming :: "nat \<Rightarrow> token_budget"
  ce_fresh :: "nat \<Rightarrow> bool"
  ce_iso :: "nat \<Rightarrow> error_class + string"
  ce_binding :: session_binding
  ce_hasHistory :: bool
  ce_hasRecovery :: bool
  ce_config :: usage_config
  ce_policyVersion :: string
  ce_templateVersion :: string
  ce_prePath :: string
  ce_summaryPath :: string
  ce_sensitive :: "string \<Rightarrow> bool"

type_synonym 'a compact_exec = "(compact_effect, 'a) traced_exec"

definition current_check :: "compact_env \<Rightarrow> unit compact_exec" where
  "current_check E = call C_current (ce_current E)"

definition fresh_call :: "compact_env \<Rightarrow> compact_effect \<Rightarrow> (nat \<Rightarrow> error_class + 'a) \<Rightarrow> 'a compact_exec" where
  "fresh_call E e answer = after_check (current_check E) (call e answer)"

section \<open>Outcomes\<close>

definition mergeOutcomes :: "tool_outcome list \<Rightarrow> error_class + tool_outcome list" where
  "mergeOutcomes sources =
     (if \<not> list_all tool_outcome_schema sources then Inl Checkpoint_invalid
      else case add_outcomes sources history_start of
          None \<Rightarrow> Inl Checkpoint_invalid
        | Some h \<Rightarrow> Inr (map snd (sort_keys (hi_outcomes h))))"

section \<open>Settling the latest checkpoint\<close>

definition transition_to :: "compact_env \<Rightarrow> string \<Rightarrow> checkpoint_phase \<Rightarrow> unit compact_exec" where
  "transition_to E i phase =
     seq (current_check E) (\<lambda>_.
     observe (ce_work E) (\<lambda>w. seq (call (C_transition w i phase) (ce_transition E)) (\<lambda>ok. require ok Restore_failed)))"

text \<open>The latest record, required to be this checkpoint in this phase.\<close>

definition latest_is :: "compact_env \<Rightarrow> checkpoint_record \<Rightarrow> checkpoint_phase \<Rightarrow> checkpoint_record compact_exec" where
  "latest_is E r phase =
     seq (fresh_call E C_latest (ce_latest E)) (\<lambda>l.
       case l of
         None \<Rightarrow> throw Restore_failed
       | Some s \<Rightarrow> seq (require (cr_phase s = phase \<and> cr_id s = cr_id r \<and> cr_checkpoint s = cr_checkpoint r) Restore_failed)
           (\<lambda>_. ret s))"

definition advance :: "compact_env \<Rightarrow> checkpoint_record \<Rightarrow> string \<Rightarrow> unit compact_exec" where
  "advance E r entry =
     (case cr_phase r of
        Prepared \<Rightarrow>
          seq (transition_to E (cr_id r) (Compacted entry)) (\<lambda>_.
          seq (latest_is E r (Compacted entry)) (\<lambda>s.
          transition_to E (cr_id s) (Restored entry)))
      | Compacted _ \<Rightarrow> transition_to E (cr_id r) (Restored entry)
      | _ \<Rightarrow> ret ())"

definition settle_record :: "compact_env \<Rightarrow> checkpoint_record \<Rightarrow> checkpoint_record compact_exec" where
  "settle_record E r =
     seq (current_check E) (\<lambda>_.
     seq (require (ce_hasRecovery E) Restore_failed) (\<lambda>_.
     seq (call (C_reconcile r) (ce_reconcile E)) (\<lambda>recovered.
     seq (require (snd recovered = cr_checkpoint r) Restore_failed) (\<lambda>_.
     seq (advance E r (fst recovered)) (\<lambda>_.
     latest_is E r (Restored (fst recovered)))))))"

definition settle_latest :: "compact_env \<Rightarrow> checkpoint_record option compact_exec" where
  "settle_latest E =
     seq (fresh_call E C_latest (ce_latest E)) (\<lambda>latest.
       case latest of
         None \<Rightarrow> ret None
       | Some r \<Rightarrow> if cr_phase r = Aborted then ret None else seq (settle_record E r) (\<lambda>s. ret (Some s)))"

section \<open>Compaction\<close>

definition fixed_error :: "error_class \<Rightarrow> error_class + 'a \<Rightarrow> error_class + 'a" where
  "fixed_error e r = (case r of Inl _ \<Rightarrow> Inl e | Inr x \<Rightarrow> Inr x)"

definition template :: "compact_env \<Rightarrow> string \<Rightarrow> string compact_exec" where
  "template E path =
     seq (fresh_call E (C_template path) (\<lambda>n. fixed_error Preparation_failed (ce_template E n))) (\<lambda>value.
       if js_blank value \<or> 65536 < length value then throw Preparation_failed else ret value)"

definition checkpoint_seed :: "compact_env \<Rightarrow> chat_state \<Rightarrow> string \<Rightarrow> tool_outcome list \<Rightarrow> checkpoint_v1" where
  "checkpoint_seed E st now outs = \<lparr>ck_chat = cst_chat st, ck_lastSequence = lastCompletedSequence st,
     ck_policyVersion = ce_policyVersion E, ck_templateVersion = ce_templateVersion E, ck_createdAt = now,
     ck_goals = [], ck_decisions = [], ck_constraints = [], ck_verifiedFacts = [], ck_pendingWork = [],
     ck_approvalBoundaries = [], ck_nextSteps = [], ck_outcomes = outs\<rparr>"

definition max_checkpoint_bytes :: "compact_env \<Rightarrow> nat" where
  "max_checkpoint_bytes E = nat (uc_checkpointMaxBytes (ce_config E))"

text \<open>The checkpoint that the session returns keeps identity and outcomes of the seed, and the repository has restored it.\<close>

definition compact_session :: "compact_env \<Rightarrow> checkpoint_v1 \<Rightarrow> bool compact_exec" where
  "compact_session E seed =
     seq (template E (ce_prePath E)) (\<lambda>pre.
     seq (template E (ce_summaryPath E)) (\<lambda>summary.
     seq (fresh_call E (C_compact (pre @ CHR 0x0A # summary) seed) (ce_compact E)) (\<lambda>result.
     seq (lift (validateCheckpoint (ce_sensitive E) (snd result) (checkpointIdentity seed) (max_checkpoint_bytes E))) (\<lambda>c.
     seq (require (ck_outcomes c = ck_outcomes seed) Checkpoint_invalid) (\<lambda>_.
     seq (fresh_call E C_latest (ce_latest E)) (\<lambda>restored.
       case restored of
         None \<Rightarrow> throw Restore_failed
       | Some s \<Rightarrow> seq (require (checkpoint_record_schema s \<and> cr_phase s = Restored (fst result) \<and> cr_checkpoint s = c) Restore_failed)
           (\<lambda>_. ret True)))))))"

text \<open>An exception that is no \<open>ControllerError\<close> becomes \<open>compaction_failed\<close>.\<close>

definition rethrow_fixed :: "error_class \<Rightarrow> error_class" where
  "rethrow_fixed e = (if e = Internal_failed then Compaction_failed else e)"

definition compact_turn :: "compact_env \<Rightarrow> chat_state \<Rightarrow> checkpoint_record option \<Rightarrow> mutation_state list \<Rightarrow> bool compact_exec" where
  "compact_turn E st prior pending =
     seq (current_check E) (\<lambda>_.
     seq (require (ce_hasHistory E) Checkpoint_invalid) (\<lambda>_.
     seq (call (C_history (lastCompletedSequence st) (map_option cr_checkpoint prior)) (ce_history E)) (\<lambda>historical.
     seq (lift (mergeOutcomes (historical @ List.map_filter outcome_of pending))) (\<lambda>outs.
     observe (ce_iso E) (\<lambda>now. seq (lift now) (\<lambda>now.
     seq (lift (checked checkpoint_schema (checkpoint_seed E st now outs) Checkpoint_invalid)) (\<lambda>seed.
     catch (compact_session E seed) (\<lambda>e. throw (rethrow_fixed e)))))))))"

section \<open>\<open>prepare\<close> and \<open>afterPrompt\<close>\<close>

text \<open>The result says whether the usage is required after the prompt.\<close>

definition prepare_checked :: "compact_env \<Rightarrow> checkpoint_record option \<Rightarrow> usage_decision \<Rightarrow> bool compact_exec" where
  "prepare_checked E prior decision =
     seq (fresh_call E C_readChat (ce_readChat E)) (\<lambda>st.
     observe (ce_work E) (\<lambda>w.
     seq (require (cst_session st = Some (ce_binding E) \<and> Suc (lastCompletedSequence st) = chat_sequence (cw_event w)) Checkpoint_invalid) (\<lambda>_.
     seq (fresh_call E C_list (ce_list E)) (\<lambda>pending.
     seq (require (list_all (\<lambda>m. is_confirmed (mu_status m)) pending) Checkpoint_invalid) (\<lambda>_.
       if decision = Usage_unknown_decision then ret True else compact_turn E st prior pending)))))"

fun is_ok :: "usage_decision \<Rightarrow> bool" where
  "is_ok (Usage_ok _ _ _) = True"
| "is_ok _ = False"

definition prepare :: "compact_env \<Rightarrow> bool compact_exec" where
  "prepare E =
     seq (settle_latest E) (\<lambda>prior.
     observe (\<lambda>n. (decide (ce_config E) (ce_usage E n) (ce_incoming E n), ce_fresh E n)) (\<lambda>(d, fresh).
     seq (lift d) (\<lambda>decision.
       if is_ok decision then ret False
       else if decision = Usage_unknown_decision \<and> (prior \<noteq> None \<or> \<not> fresh) then throw Usage_unknown
       else prepare_checked E prior decision)))"

definition afterPrompt :: "compact_env \<Rightarrow> bool \<Rightarrow> unit compact_exec" where
  "afterPrompt E required =
     (if \<not> required then ret ()
      else seq (current_check E) (\<lambda>_.
        observe (\<lambda>n. decide (ce_config E) (ce_usage E n) \<lparr>tb_event = JS_int 0, tb_tools = JS_int 0, tb_prompt = JS_int 0\<rparr>) (\<lambda>d.
        seq (lift d) (\<lambda>decision. require (decision \<noteq> Usage_unknown_decision) Usage_unknown))))"

end
