(* ===== verification/Extension.thy ===== *)
theory Extension
  imports Compactor
begin

text \<open>
  The checkpoint extension (\<open>src/session-controller/src/compaction/checkpoint-extension.ts\<close>): the hooks
  that a session calls around a compaction, and the run that prepares a checkpoint, arms the hooks,
  compacts the session and checks what came back. The state is the log of calls and the two map entries
  of one session; the runs of other sessions touch other entries only.
\<close>

section \<open>The hooks\<close>

record compaction_result =
  re_summary :: string
  re_firstKept :: string
  re_tokensBefore :: nat
  re_usage :: "json option"
  re_checkpointId :: string
  re_checkpoint :: checkpoint_v1

record compact_entry =
  en_id :: string
  en_summary :: string
  en_firstKept :: string
  en_tokensBefore :: int
  en_usage :: "json option"
  en_details :: "json option"
  en_fromHook :: bool

record compact_event =
  ev_fromExtension :: bool
  ev_reason :: string
  ev_willRetry :: bool
  ev_entry :: "compact_entry option"

record armed =
  ar_checkpointId :: string
  ar_replacement :: compaction_result
  ar_event :: "compact_event option"
  ar_failed :: bool

datatype hook = Hook_start | Hook_before | Hook_compact compact_event | Hook_failed | Hook_shutdown

datatype preflight = Ready | Ready_as string | Not_ready

datatype ext_effect =
    X_current | X_preflight | X_branch | X_projection | X_tokens | X_transcript | X_complete string | X_generation
  | X_prepare claimed_work checkpoint_record | X_compact string
  | X_latest | X_transition claimed_work string checkpoint_phase

text \<open>\<open>x_answers\<close>: what the hook before a compaction has returned, oldest first.\<close>

record ext =
  x_log :: "ext_effect list"
  x_armed :: "armed option"
  x_runtime :: bool
  x_answers :: "compaction_result option list"

definition beforeCompact :: "ext \<Rightarrow> compaction_result option" where
  "beforeCompact s = map_option ar_replacement (x_armed s)"

fun deliver :: "hook \<Rightarrow> ext \<Rightarrow> ext" where
  "deliver Hook_start s = s\<lparr>x_runtime := True\<rparr>"
| "deliver Hook_before s = s\<lparr>x_answers := x_answers s @ [beforeCompact s]\<rparr>"
| "deliver (Hook_compact ev) s = s\<lparr>x_armed := map_option (\<lambda>a. a\<lparr>ar_event := Some ev\<rparr>) (x_armed s)\<rparr>"
| "deliver Hook_failed s = s\<lparr>x_armed := map_option (\<lambda>a. a\<lparr>ar_failed := True\<rparr>) (x_armed s)\<rparr>"
| "deliver Hook_shutdown s = s\<lparr>x_runtime := False\<rparr>"

section \<open>Ports\<close>

text \<open>The last projected entry's ID and whether the projection has a message.\<close>

record projection =
  pj_last :: "string option"
  pj_messages :: bool

text \<open>Text blocks of the model's answer; other blocks are \<open>None\<close>.\<close>

record completion_reply =
  rp_content :: "string option list"
  rp_usage :: "json option"

record ext_env =
  xe_current :: "nat \<Rightarrow> error_class + unit"
  xe_work :: "nat \<Rightarrow> claimed_work"
  xe_preflight :: "nat \<Rightarrow> error_class + preflight"
  xe_branch :: "nat \<Rightarrow> error_class + json list"
  xe_projection :: "nat \<Rightarrow> error_class + projection"
  xe_tokens :: "nat \<Rightarrow> error_class + js_number option"
  xe_transcript :: "nat \<Rightarrow> error_class + string"
  xe_hasModel :: "nat \<Rightarrow> bool"
  xe_complete :: "nat \<Rightarrow> error_class + completion_reply"
  xe_generation :: "nat \<Rightarrow> error_class + file_generation"
  xe_prepare :: "nat \<Rightarrow> error_class + bool"
  xe_compact :: "nat \<Rightarrow> error_class + json option"
  xe_latest :: "nat \<Rightarrow> error_class + checkpoint_record option"
  xe_transition :: "nat \<Rightarrow> error_class + bool"
  xe_hooks :: "nat \<Rightarrow> hook list"
  xe_sessionId :: "nat \<Rightarrow> string"
  xe_idle :: "nat \<Rightarrow> bool"
  xe_newId :: string
  xe_binding :: session_binding
  xe_maxBytes :: nat
  xe_parse :: "string \<Rightarrow> json option"
  xe_sensitive :: "string \<Rightarrow> bool"
  xe_sha :: "string \<Rightarrow> string"

type_synonym 'a ext_exec = "(ext_effect, 'a) traced_exec"

definition ext_current :: "ext_env \<Rightarrow> unit ext_exec" where
  "ext_current E = call X_current (xe_current E)"

section \<open>The prepared checkpoint\<close>

definition branchGeneration :: "(string \<Rightarrow> string) \<Rightarrow> json list \<Rightarrow> string" where
  "branchGeneration sha branch = sha (''sc:pi-active-branch:v1'' @ CHR 0x00 # stringify (JArr branch))"

definition kept_tokens :: "projection \<Rightarrow> js_number option \<Rightarrow> error_class + (string \<times> nat)" where
  "kept_tokens pj tokens =
     (case (pj_last pj, Option.bind tokens (\<lambda>t. safe_integer t 0)) of
        (Some i, Some t) \<Rightarrow> if i \<noteq> '''' \<and> pj_messages pj then Inr (i, nat t) else Inl Compaction_failed
      | _ \<Rightarrow> Inl Compaction_failed)"

definition checkpoint_request :: "string \<Rightarrow> string \<Rightarrow> checkpoint_v1 \<Rightarrow> string \<Rightarrow> string" where
  "checkpoint_request preparation summary seed transcript = intercalate [CHR 0x0A]
     [preparation, summary,
      ''Return one JSON CheckpointV1 object only. Fixed fields and confirmedToolOutcomes must exactly equal:'',
      checkpoint_text seed, ''Finalized conversation:'', transcript]"

definition validate_untyped :: "(string \<Rightarrow> bool) \<Rightarrow> json \<Rightarrow> checkpoint_identity \<Rightarrow> nat \<Rightarrow> error_class + checkpoint_v1" where
  "validate_untyped sensitive v expected maximumBytes =
     (case checkpoint_of_json (Some v) of None \<Rightarrow> Inl Checkpoint_invalid
      | Some c \<Rightarrow> validateCheckpoint sensitive c expected maximumBytes)"

definition reply_text :: "completion_reply \<Rightarrow> string" where
  "reply_text r = concat (List.map_filter id (rp_content r))"

text \<open>The model's answer as a checkpoint of the seed.\<close>

definition checkpoint_reply :: "ext_env \<Rightarrow> checkpoint_v1 \<Rightarrow> completion_reply \<Rightarrow> error_class + checkpoint_v1" where
  "checkpoint_reply E seed reply =
     (let text = reply_text reply in
      andThen (guard (\<not> js_blank text \<and> length text \<le> xe_maxBytes E) Compaction_failed) (\<lambda>_.
      case xe_parse E text of
        None \<Rightarrow> Inl Compaction_failed
      | Some v \<Rightarrow> andThen (validate_untyped (xe_sensitive E) v (checkpointIdentity seed) (xe_maxBytes E)) (\<lambda>c.
          andThen (guard (ck_outcomes c = ck_outcomes seed) Compaction_failed) (\<lambda>_. Inr c))))"

definition prepared_record :: "string \<Rightarrow> checkpoint_v1 \<Rightarrow> claimed_work \<Rightarrow> string \<Rightarrow> session_binding \<Rightarrow> file_generation \<Rightarrow> checkpoint_record" where
  "prepared_record i c w fp b g = \<lparr>cr_id = i, cr_checkpoint = c,
     cr_recovery = Some \<lparr>rb_eventId = event_id (cw_event w), rb_fingerprint = fp,
       rb_streamId = cw_streamId w, rb_session = b, rb_generation = g\<rparr>, cr_phase = Prepared\<rparr>"

text \<open>The request to the model, from the branch that the preflight has accepted.\<close>

definition request_checkpoint :: "ext_env \<Rightarrow> checkpoint_v1 \<Rightarrow> string \<Rightarrow> string \<Rightarrow> (preflight \<times> json list \<times> string \<times> nat \<times> completion_reply) ext_exec" where
  "request_checkpoint E seed preparation summary =
     seq (ext_current E) (\<lambda>_.
     seq (call X_preflight (xe_preflight E)) (\<lambda>ready.
     seq (require (ready \<noteq> Not_ready) Compaction_capacity) (\<lambda>_.
     seq (call X_branch (xe_branch E)) (\<lambda>branch.
     seq (lift (assertSupportedEntries branch)) (\<lambda>_.
     seq (call X_projection (xe_projection E)) (\<lambda>pj.
     seq (call X_tokens (xe_tokens E)) (\<lambda>tokens.
     seq (lift (kept_tokens pj tokens)) (\<lambda>kept.
     seq (call X_transcript (xe_transcript E)) (\<lambda>transcript.
     seq (lift (checked checkpoint_schema seed Checkpoint_invalid)) (\<lambda>seed.
     seq (require (length (checkpoint_request preparation summary seed transcript) \<le> xe_maxBytes E * 8) Compaction_failed) (\<lambda>_.
     seq (ext_current E) (\<lambda>_.
     observe (xe_hasModel E) (\<lambda>model.
     seq (require model Compaction_failed) (\<lambda>_.
     seq (call (X_complete (checkpoint_request preparation summary seed transcript)) (xe_complete E)) (\<lambda>reply.
     ret (ready, branch, fst kept, snd kept, reply))))))))))))))))"

text \<open>The answer is only used when preflight and branch are what they were before the request.\<close>

definition unchanged :: "ext_env \<Rightarrow> preflight \<Rightarrow> json list \<Rightarrow> unit ext_exec" where
  "unchanged E ready branch =
     seq (ext_current E) (\<lambda>_.
     seq (call X_preflight (xe_preflight E)) (\<lambda>again.
     seq (require (again \<noteq> Not_ready \<and> again = ready) Compaction_capacity) (\<lambda>_.
     seq (call X_branch (xe_branch E)) (\<lambda>branch'.
     require (branchGeneration (xe_sha E) branch' = branchGeneration (xe_sha E) branch) Compaction_capacity))))"

definition prepare_checkpoint :: "ext_env \<Rightarrow> checkpoint_v1 \<Rightarrow> string \<Rightarrow> string \<Rightarrow> compaction_result ext_exec" where
  "prepare_checkpoint E seed preparation summary =
     seq (request_checkpoint E seed preparation summary) (\<lambda>(ready, branch, kept, tokens, reply).
     seq (unchanged E ready branch) (\<lambda>_.
     seq (lift (checkpoint_reply E seed reply)) (\<lambda>c.
     seq (lift (renderCheckpointSummary (xe_sensitive E) c (xe_newId E) (checkpointIdentity seed) (xe_maxBytes E))) (\<lambda>text.
     seq (ext_current E) (\<lambda>_.
     seq (call X_generation (xe_generation E)) (\<lambda>g.
     observe (xe_work E) (\<lambda>w.
     seq (lift (fingerprintEvent (xe_sha E) (cw_event w))) (\<lambda>fp.
     seq (call (X_prepare w (prepared_record (xe_newId E) c w fp (xe_binding E) g)) (xe_prepare E)) (\<lambda>ok.
     seq (require ok Compaction_failed) (\<lambda>_.
     seq (ext_current E) (\<lambda>_.
     ret \<lparr>re_summary = text, re_firstKept = kept, re_tokensBefore = tokens, re_usage = rp_usage reply,
       re_checkpointId = xe_newId E, re_checkpoint = c\<rparr>)))))))))))"

section \<open>What came back\<close>

definition details_of_json :: "json option \<Rightarrow> (string \<times> checkpoint_v1) option" where
  "details_of_json v = do {
     kv \<leftarrow> closed_object [''version'', ''checkpointId'', ''checkpoint''] v;
     _ \<leftarrow> version_1 (jget kv ''version''); i \<leftarrow> as_str (jget kv ''checkpointId'');
     c \<leftarrow> checkpoint_of_json (jget kv ''checkpoint'');
     Some (i, c) }"

text \<open>The value that the session's call returned against the entry of the event.\<close>

definition returned_ok :: "json option \<Rightarrow> compact_entry \<Rightarrow> (string \<times> checkpoint_v1) \<Rightarrow> bool" where
  "returned_ok returned entry details \<longleftrightarrow>
     (case returned of
        Some (JObj kv) \<Rightarrow> jget kv ''summary'' = Some (JStr (en_summary entry)) \<and>
          jget kv ''firstKeptEntryId'' = Some (JStr (en_firstKept entry)) \<and>
          jget kv ''tokensBefore'' = Some (JInt (en_tokensBefore entry)) \<and>
          jget kv ''usage'' = en_usage entry \<and> details_of_json (jget kv ''details'') = Some details
      | _ \<Rightarrow> False)"

definition compacted_entry :: "armed option \<Rightarrow> compaction_result \<Rightarrow> json option \<Rightarrow> error_class + string" where
  "compacted_entry state result returned =
     (case Option.bind state (\<lambda>a. if ar_failed a then None else ar_event a) of
        None \<Rightarrow> Inl Compaction_failed
      | Some ev \<Rightarrow>
         (case ev_entry ev of
            None \<Rightarrow> Inl Compaction_failed
          | Some entry \<Rightarrow>
              if ev_fromExtension ev \<and> ev_reason ev = ''manual'' \<and> \<not> ev_willRetry ev \<and> en_fromHook entry \<and>
                1 \<le> length (en_id entry) \<and> length (en_id entry) \<le> 128 \<and> en_summary entry = re_summary result \<and>
                details_of_json (en_details entry) = Some (re_checkpointId result, re_checkpoint result) \<and>
                returned_ok returned entry (re_checkpointId result, re_checkpoint result)
              then Inr (en_id entry) else Inl Compaction_failed))"

section \<open>The run\<close>

definition deliver_at :: "ext_env \<Rightarrow> nat \<Rightarrow> ext \<Rightarrow> ext" where
  "deliver_at E n s = fold deliver (xe_hooks E n) s"

text \<open>While the calls of \<open>m\<close> are awaited, the session calls its hooks.\<close>

definition with_hooks :: "ext_env \<Rightarrow> 'a ext_exec \<Rightarrow> (ext, 'a) exec" where
  "with_hooks E m s =
     (let (r, log) = m (x_log s)
      in (r, fold (deliver_at E) [length (x_log s) ..< length log] (s\<lparr>x_log := log\<rparr>)))"

definition compaction_marker :: "string \<Rightarrow> string" where
  "compaction_marker i = ''WHATSAPP_CHECKPOINT_V1:'' @ i"

definition arm :: "compaction_result \<Rightarrow> ext \<Rightarrow> ext" where
  "arm result s = s\<lparr>x_armed := Some \<lparr>ar_checkpointId = re_checkpointId result, ar_replacement = result, ar_event = None, ar_failed = False\<rparr>\<rparr>"

definition compact_armed :: "ext_env \<Rightarrow> compaction_result \<Rightarrow> (ext, string) exec" where
  "compact_armed E result =
     finalize (seq (modify (arm result)) (\<lambda>_.
       seq (with_hooks E (call (X_compact (compaction_marker (re_checkpointId result))) (xe_compact E))) (\<lambda>returned.
       seq (with_hooks E (ext_current E)) (\<lambda>_.
       with_state (\<lambda>s. lift (compacted_entry (x_armed s) result returned))))))
     (modify (\<lambda>s. s\<lparr>x_armed := None\<rparr>))"

text \<open>The result: the compaction entry and the checkpoint that it holds.\<close>

definition run_checkpoint :: "ext_env \<Rightarrow> string \<Rightarrow> checkpoint_v1 \<Rightarrow> string \<Rightarrow> string \<Rightarrow> (ext, string \<times> compaction_result) exec" where
  "run_checkpoint E i seed preparation summary =
     with_state (\<lambda>s.
       if \<not> x_runtime s \<or> xe_sessionId E (length (x_log s)) \<noteq> i \<or> \<not> xe_idle E (length (x_log s)) \<or> x_armed s \<noteq> None
       then throw Compaction_failed
       else catch (seq (with_hooks E (prepare_checkpoint E seed preparation summary)) (\<lambda>result.
              seq (compact_armed E result) (\<lambda>entry. ret (entry, result))))
            (\<lambda>e. throw (rethrow_fixed e)))"

text \<open>The two steps that the caller takes afterwards.\<close>

definition ext_compacted :: "ext_env \<Rightarrow> string \<times> compaction_result \<Rightarrow> unit ext_exec" where
  "ext_compacted E r =
     seq (ext_current E) (\<lambda>_. observe (xe_work E) (\<lambda>w.
     seq (call (X_transition w (re_checkpointId (snd r)) (Compacted (fst r))) (xe_transition E)) (\<lambda>ok. require ok Compaction_failed)))"

definition ext_restored :: "ext_env \<Rightarrow> string \<times> compaction_result \<Rightarrow> unit ext_exec" where
  "ext_restored E r =
     seq (ext_current E) (\<lambda>_.
     seq (call X_latest (xe_latest E)) (\<lambda>latest.
     case latest of
       None \<Rightarrow> throw Restore_failed
     | Some c \<Rightarrow>
         seq (require (cr_phase c = Compacted (fst r) \<and> cr_id c = re_checkpointId (snd r) \<and> cr_checkpoint c = re_checkpoint (snd r)) Restore_failed) (\<lambda>_.
         seq (ext_current E) (\<lambda>_. observe (xe_work E) (\<lambda>w.
         seq (call (X_transition w (re_checkpointId (snd r)) (Restored (fst r))) (xe_transition E)) (\<lambda>ok. require ok Restore_failed))))))"

end
