(* ===== verification/Compactor_Spec.thy ===== *)
theory Compactor_Spec
  imports Compactor
begin

text \<open>
  The properties of the preparation: every port call is directly after an ownership check, a
  checkpoint is only advanced along its lifecycle after a faithful reconciliation, the session is
  compacted only from a settled state, and a preparation that succeeds leaves the latest checkpoint
  restored.
\<close>

section \<open>What a call needs\<close>

definition reconciled :: "compact_env \<Rightarrow> compact_effect list \<Rightarrow> checkpoint_record \<Rightarrow> string \<Rightarrow> bool" where
  "reconciled E log r entry \<longleftrightarrow> answered log C_latest (ce_latest E) (Some r) \<and>
     answered log (C_reconcile r) (ce_reconcile E) (entry, cr_checkpoint r)"

definition latest_seen :: "compact_env \<Rightarrow> compact_effect list \<Rightarrow> checkpoint_record \<Rightarrow> checkpoint_phase \<Rightarrow> bool" where
  "latest_seen E log r phase \<longleftrightarrow> (\<exists>s. answered log C_latest (ce_latest E) (Some s) \<and> cr_phase s = phase \<and>
     cr_id s = cr_id r \<and> cr_checkpoint s = cr_checkpoint r)"

definition transition_allowed :: "compact_env \<Rightarrow> compact_effect list \<Rightarrow> string \<Rightarrow> checkpoint_phase \<Rightarrow> bool" where
  "transition_allowed E log i phase \<longleftrightarrow> (\<exists>r entry. reconciled E log r entry \<and> i = cr_id r \<and>
     (cr_phase r = Prepared \<and> phase = Compacted entry \<or>
      phase = Restored entry \<and> ((\<exists>x. cr_phase r = Compacted x) \<or> cr_phase r = Prepared \<and> latest_seen E log r (Compacted entry))))"

definition template_read :: "compact_env \<Rightarrow> compact_effect list \<Rightarrow> string \<Rightarrow> string \<Rightarrow> bool" where
  "template_read E log path value \<longleftrightarrow> answered log (C_template path) (ce_template E) value \<and> \<not> js_blank value \<and> length value \<le> 65536"

text \<open>The session is at the event's predecessor and bound to this session, every journal row is confirmed.\<close>

definition turn_settled :: "compact_env \<Rightarrow> notification \<Rightarrow> compact_effect list \<Rightarrow> chat_state \<Rightarrow> mutation_state list \<Rightarrow> bool" where
  "turn_settled E ev log st rows \<longleftrightarrow> answered log C_readChat (ce_readChat E) st \<and> cst_session st = Some (ce_binding E) \<and>
     Suc (lastCompletedSequence st) = chat_sequence ev \<and> answered log C_list (ce_list E) rows \<and>
     (\<forall>m \<in> set rows. is_confirmed (mu_status m))"

definition seeded :: "compact_env \<Rightarrow> notification \<Rightarrow> compact_effect list \<Rightarrow> checkpoint_v1 \<Rightarrow> bool" where
  "seeded E ev log seed \<longleftrightarrow> (\<exists>st rows prior hist. turn_settled E ev log st rows \<and>
     answered log (C_history (lastCompletedSequence st) prior) (ce_history E) hist \<and>
     mergeOutcomes (hist @ List.map_filter outcome_of rows) = Inr (ck_outcomes seed) \<and> checkpoint_schema seed \<and>
     ck_chat seed = cst_chat st \<and> ck_lastSequence seed = lastCompletedSequence st)"

definition compaction_decided :: "compact_env \<Rightarrow> bool" where
  "compaction_decided E \<longleftrightarrow> (\<exists>n a b c. decide (ce_config E) (ce_usage E n) (ce_incoming E n) = Inr (Usage_compact a b c))"

definition effect_allowed :: "compact_env \<Rightarrow> notification \<Rightarrow> compact_effect list \<Rightarrow> compact_effect \<Rightarrow> bool" where
  "effect_allowed E ev log e \<longleftrightarrow>
     (case e of
        C_transition w i phase \<Rightarrow> transition_allowed E log i phase
      | C_compact instructions seed \<Rightarrow> seeded E ev log seed \<and> compaction_decided E \<and>
          (\<exists>pre summary. template_read E log (ce_prePath E) pre \<and> template_read E log (ce_summaryPath E) summary \<and>
             instructions = pre @ CHR 0x0A # summary)
      | _ \<Rightarrow> True)"

definition compact_guard :: "compact_env \<Rightarrow> notification \<Rightarrow> compact_effect list \<Rightarrow> compact_effect \<Rightarrow> bool" where
  "compact_guard E ev log e \<longleftrightarrow> e = C_current \<or> log \<noteq> [] \<and> last log = C_current \<and> effect_allowed E ev log e"

lemma growing_facts [intro, simp]:
  "keeps_growing (\<lambda>log. reconciled E log r entry)" "keeps_growing (\<lambda>log. latest_seen E log r phase)"
  "keeps_growing (\<lambda>log. template_read E log path v)" "keeps_growing (\<lambda>log. turn_settled E ev log st rows)"
  "keeps_growing (\<lambda>log. seeded E ev log seed)"
  by (auto simp: keeps_growing_def reconciled_def latest_seen_def template_read_def turn_settled_def seeded_def answered_snoc)

lemma compact_guard_current [simp]: "compact_guard E ev log C_current"
  by (simp add: compact_guard_def)

lemma compact_guard_checked: "effect_allowed E ev (log @ [C_current]) e \<Longrightarrow> compact_guard E ev (log @ [C_current]) e"
  by (simp add: compact_guard_def)

lemma guards_fresh_call:
  assumes "\<And>log. X log \<Longrightarrow> effect_allowed E ev (log @ [C_current]) e" "keeps_growing X"
  shows "guards (compact_guard E ev) X (fresh_call E e f) (\<lambda>x log. X log \<and> answered log e f x)"
  unfolding fresh_call_def current_check_def
  by (rule guards_after_check) (auto simp: assms compact_guard_checked)

lemma guards_fresh:
  "(\<And>log. X log \<Longrightarrow> effect_allowed E ev (log @ [C_current]) e) \<Longrightarrow> keeps_growing X \<Longrightarrow>
   (\<And>x. guards (compact_guard E ev) (\<lambda>log. X log \<and> answered log e f x) (g x) Q) \<Longrightarrow>
   guards (compact_guard E ev) X (seq (fresh_call E e f) g) Q"
  by (rule guards_seq [OF guards_fresh_call])

lemma seq_assoc: "seq m (\<lambda>x. seq (f x) g) = seq (seq m f) g"
  by (rule ext) (auto simp: seq_def split: prod.splits sum.splits)

lemma check_then_call: "seq (current_check E) (\<lambda>_. seq (call e f) g) = seq (fresh_call E e f) g"
  by (simp add: fresh_call_def after_check_def seq_assoc)

lemma require_then: "seq (require b e) f = (if b then f () else throw e)"
  by (simp add: require_def guard_def)

lemma guards_check: "keeps_growing X \<Longrightarrow> guards (compact_guard E ev) X (current_check E) (\<lambda>_. X)"
  unfolding current_check_def by (rule guards_weaken [OF guards_call [of X]]) auto

text \<open>A condition between the check and the call changes nothing in the log.\<close>

lemma guards_check_require:
  "keeps_growing X \<Longrightarrow> (b \<Longrightarrow> guards (compact_guard E ev) X (seq (fresh_call E c f) g) Q) \<Longrightarrow>
   guards (compact_guard E ev) X (seq (current_check E) (\<lambda>_. seq (require b e) (\<lambda>_. seq (call c f) g))) Q"
  by (auto simp: require_then check_then_call intro: guards_seq [OF guards_check] guards_throw)

lemma guards_transition:
  assumes "\<And>log. X log \<Longrightarrow> transition_allowed E log i phase" "keeps_growing X"
  shows "guards (compact_guard E ev) X (transition_to E i phase) (\<lambda>_. X)"
proof -
  have grow: "X (log @ [e])" if "X log" for log e using assms(2) that by (simp add: keeps_growing_def)
  have two: "X (log @ [C_current, C_transition w i phase])" if "X log" for log w
    using grow [OF grow [OF that], of C_current "C_transition w i phase"] by simp
  have ok: "guarded (compact_guard E ev) (log @ [C_current])" "guarded (compact_guard E ev) (log @ [C_current, C_transition w i phase])"
    if "X log" "guarded (compact_guard E ev) log" for log w
  proof -
    show c: "guarded (compact_guard E ev) (log @ [C_current])" using that(2) by (simp add: guarded_snoc)
    have "transition_allowed E (log @ [C_current]) i phase" by (rule assms(1) [OF grow [OF that(1)]])
    then have "guarded (compact_guard E ev) ((log @ [C_current]) @ [C_transition w i phase])"
      using c guarded_snoc [of "compact_guard E ev" "log @ [C_current]"] by (simp add: compact_guard_checked effect_allowed_def)
    then show "guarded (compact_guard E ev) (log @ [C_current, C_transition w i phase])" by simp
  qed
  show ?thesis
    using grow two ok
    by (auto simp: guards_def triple_def transition_to_def current_check_def seq_def call_def observe_def require_def lift_def
        split: sum.split)
qed

section \<open>Settling\<close>

lemma guards_latest_is:
  assumes "keeps_growing X"
  shows "guards (compact_guard E ev) X (latest_is E r phase)
    (\<lambda>s log. X log \<and> latest_seen E log r phase \<and> cr_id s = cr_id r \<and> answered log C_latest (ce_latest E) (Some s) \<and>
      cr_phase s = phase \<and> cr_checkpoint s = cr_checkpoint r)"
  unfolding latest_is_def using assms
  by (intro guards_fresh guards_option guards_throw guards_require guards_ret)
    (auto simp: effect_allowed_def latest_seen_def)

lemma guards_advance:
  assumes "keeps_growing X" "\<And>log. X log \<Longrightarrow> reconciled E log r entry"
  shows "guards (compact_guard E ev) X (advance E r entry) (\<lambda>_. X)"
proof -
  have prepared: "guards (compact_guard E ev) X
      (seq (transition_to E (cr_id r) (Compacted entry)) (\<lambda>_. seq (latest_is E r (Compacted entry)) (\<lambda>s. transition_to E (cr_id s) (Restored entry))))
      (\<lambda>_. X)" if p: "cr_phase r = Prepared"
  proof (rule guards_seq [OF guards_transition], goal_cases)
    case (1 log)
    then show ?case using p assms(2) unfolding transition_allowed_def by blast
  next
    case (3 u)
    show ?case
    proof (rule guards_seq [OF guards_latest_is [OF assms(1)]])
      fix s
      let ?X = "\<lambda>log. X log \<and> latest_seen E log r (Compacted entry)"
      have step: "guards (compact_guard E ev) ?X (transition_to E (cr_id r) (Restored entry)) (\<lambda>_. ?X)"
        using p assms by (intro guards_transition) (auto simp: transition_allowed_def)
      show "guards (compact_guard E ev) (\<lambda>log. X log \<and> latest_seen E log r (Compacted entry) \<and> cr_id s = cr_id r \<and>
          answered log C_latest (ce_latest E) (Some s) \<and> cr_phase s = Compacted entry \<and> cr_checkpoint s = cr_checkpoint r)
          (transition_to E (cr_id s) (Restored entry)) (\<lambda>_. X)"
      proof (cases "cr_id s = cr_id r")
        case True
        show ?thesis unfolding True by (rule guards_weaken [OF step]) auto
      qed (simp add: guards_def triple_def)
    qed
  qed (rule assms(1))
  have compacted: "guards (compact_guard E ev) X (transition_to E (cr_id r) (Restored entry)) (\<lambda>_. X)" if "cr_phase r = Compacted x" for x
    using that assms by (intro guards_transition) (auto simp: transition_allowed_def)
  show ?thesis
    unfolding advance_def using prepared compacted by (cases "cr_phase r") (auto intro: guards_ret)
qed

lemma guards_settle_record:
  assumes "keeps_growing X" "\<And>log. X log \<Longrightarrow> answered log C_latest (ce_latest E) (Some r)"
  shows "guards (compact_guard E ev) X (settle_record E r)
    (\<lambda>s log. X log \<and> (\<exists>entry. reconciled E log r entry \<and> latest_seen E log r (Restored entry)))"
  unfolding settle_record_def
proof (intro guards_check_require guards_fresh guards_require, goal_cases)
  case (4 recovered)
  let ?X = "\<lambda>log. (X log \<and> answered log (C_reconcile r) (ce_reconcile E) recovered) \<and> reconciled E log r (fst recovered)"
  have "guards (compact_guard E ev) ?X (seq (advance E r (fst recovered)) (\<lambda>_. latest_is E r (Restored (fst recovered))))
      (\<lambda>s log. X log \<and> (\<exists>entry. reconciled E log r entry \<and> latest_seen E log r (Restored entry)))"
    using assms(1)
    by (intro guards_seq [OF guards_advance] guards_weaken [OF guards_latest_is [of ?X]]) auto
  then show ?case
    using 4 assms(2) by (elim guards_pre) (cases recovered, auto simp: reconciled_def)
qed (auto simp: assms(1) effect_allowed_def)

section \<open>Compacting\<close>

lemma answered_fixed_error: "answered log c (\<lambda>n. fixed_error e (f n)) x \<longleftrightarrow> answered log c f x"
proof -
  have "fixed_error e r = Inr x \<longleftrightarrow> r = Inr x" for r by (simp add: fixed_error_def split: sum.split)
  then show ?thesis by (simp add: answered_def)
qed

lemma guards_template:
  "keeps_growing X \<Longrightarrow> guards (compact_guard E ev) X (template E path) (\<lambda>v log. X log \<and> template_read E log path v)"
  unfolding template_def
  by (intro guards_fresh guards_if guards_throw guards_ret) (auto simp: effect_allowed_def template_read_def answered_fixed_error)

definition restored_compaction :: "compact_env \<Rightarrow> compact_effect list \<Rightarrow> checkpoint_v1 \<Rightarrow> bool" where
  "restored_compaction E log seed \<longleftrightarrow> (\<exists>instructions entry c s.
     answered log (C_compact instructions seed) (ce_compact E) (entry, c) \<and>
     validateCheckpoint (ce_sensitive E) c (checkpointIdentity seed) (max_checkpoint_bytes E) = Inr c \<and> ck_outcomes c = ck_outcomes seed \<and>
     answered log C_latest (ce_latest E) (Some s) \<and> cr_phase s = Restored entry \<and> cr_checkpoint s = c)"

lemma validateCheckpoint_same: "validateCheckpoint sens v expected n = Inr c \<Longrightarrow> c = v"
  by (auto simp: validateCheckpoint_def)

lemma guards_compact_session:
  assumes "keeps_growing X" "\<And>log. X log \<Longrightarrow> seeded E ev log seed" "compaction_decided E"
  shows "guards (compact_guard E ev) X (compact_session E seed) (\<lambda>b log. b \<and> X log \<and> restored_compaction E log seed)"
  unfolding compact_session_def
proof (intro guards_seq [OF guards_template] guards_fresh guards_lift guards_require guards_option guards_throw guards_ret, goal_cases)
  case (3 pre summary log)
  have "template_read E (log @ [C_current]) (ce_prePath E) pre" "template_read E (log @ [C_current]) (ce_summaryPath E) summary"
    "seeded E ev (log @ [C_current]) seed"
    using 3 assms(2) by (auto simp: template_read_def seeded_def turn_settled_def answered_snoc)
  then show ?case using assms(3) by (auto simp: effect_allowed_def)
next
  case (7 pre summary result c restored s log)
  then have "snd result = c" using validateCheckpoint_same by metis
  then show ?case using 7 unfolding restored_compaction_def by (cases result) auto
qed (auto simp: assms(1) effect_allowed_def)

lemma guards_compact_turn:
  assumes "keeps_growing X" "\<And>log. X log \<Longrightarrow> turn_settled E ev log st pending" "compaction_decided E"
  shows "guards (compact_guard E ev) X (compact_turn E st prior pending) (\<lambda>b log. b \<and> X log \<and> (\<exists>seed. restored_compaction E log seed))"
  unfolding compact_turn_def
proof (intro guards_check_require guards_fresh guards_lift guards_observe, goal_cases)
  case (4 historical outs n now seed)
  let ?X = "\<lambda>log. (X log \<and> answered log (C_history (lastCompletedSequence st) (map_option cr_checkpoint prior)) (ce_history E) historical) \<and>
    seeded E ev log seed"
  have same: "checkpoint_schema seed" "seed = checkpoint_seed E st now outs" using 4 by auto
  have "guards (compact_guard E ev) ?X (compact_session E seed) (\<lambda>b log. b \<and> ?X log \<and> restored_compaction E log seed)"
    using assms(1,3) by (intro guards_compact_session) auto
  then have "guards (compact_guard E ev) ?X (catch (compact_session E seed) (\<lambda>e. throw (rethrow_fixed e)))
      (\<lambda>b log. b \<and> X log \<and> (\<exists>seed. restored_compaction E log seed))"
    by (intro guards_catch guards_throw) (auto elim: guards_weaken)
  moreover have "seeded E ev log seed"
    if "X log" "answered log (C_history (lastCompletedSequence st) (map_option cr_checkpoint prior)) (ce_history E) historical" for log
    using that 4 same assms(2) [OF that(1)] unfolding seeded_def by (auto simp: checkpoint_seed_def)
  ultimately show ?case by (elim guards_pre) auto
qed (auto simp: assms(1) effect_allowed_def)

section \<open>The whole preparation\<close>

definition steady_work :: "compact_env \<Rightarrow> notification \<Rightarrow> bool" where
  "steady_work E ev \<longleftrightarrow> (\<forall>n. cw_event (ce_work E n) = ev)"

definition decided :: "compact_env \<Rightarrow> (usage_decision \<Rightarrow> bool) \<Rightarrow> bool" where
  "decided E P \<longleftrightarrow> (\<exists>n d. decide (ce_config E) (ce_usage E n) (ce_incoming E n) = Inr d \<and> P d)"

lemma guards_prepare_checked:
  assumes "steady_work E ev" "keeps_growing X" "d \<noteq> Usage_unknown_decision \<longrightarrow> compaction_decided E"
  shows "guards (compact_guard E ev) X (prepare_checked E prior d)
    (\<lambda>b log. b \<and> X log \<and> (d = Usage_unknown_decision \<or> (\<exists>seed. restored_compaction E log seed)))"
  unfolding prepare_checked_def
proof (intro guards_fresh guards_observe guards_require guards_if guards_ret, goal_cases)
  case (6 st n pending)
  let ?X = "\<lambda>log. (X log \<and> answered log C_readChat (ce_readChat E) st) \<and> answered log C_list (ce_list E) pending"
  have "turn_settled E ev log st pending" if "?X log" for log
    using that 6 assms(1) by (auto simp: turn_settled_def steady_work_def list_all_iff)
  then have "guards (compact_guard E ev) ?X (compact_turn E st prior pending)
      (\<lambda>b log. b \<and> ?X log \<and> (\<exists>seed. restored_compaction E log seed))"
    using assms 6 by (intro guards_compact_turn) auto
  then show ?case by (rule guards_weaken) auto
qed (auto simp: assms effect_allowed_def)

text \<open>The preparation after the first reading of the latest checkpoint.\<close>

definition prepare_rest :: "compact_env \<Rightarrow> checkpoint_record option \<Rightarrow> bool compact_exec" where
  "prepare_rest E latest =
     seq (case latest of None \<Rightarrow> ret None
          | Some r \<Rightarrow> if cr_phase r = Aborted then ret None else seq (settle_record E r) (\<lambda>s. ret (Some s))) (\<lambda>prior.
     observe (\<lambda>n. (decide (ce_config E) (ce_usage E n) (ce_incoming E n), ce_fresh E n)) (\<lambda>(d, fresh).
     seq (lift d) (\<lambda>decision.
       if is_ok decision then ret False
       else if decision = Usage_unknown_decision \<and> (prior \<noteq> None \<or> \<not> fresh) then throw Usage_unknown
       else prepare_checked E prior decision)))"

lemma prepare_split: "prepare E = seq (fresh_call E C_latest (ce_latest E)) (prepare_rest E)"
  unfolding prepare_def settle_latest_def prepare_rest_def [abs_def] by (simp add: seq_assoc)

definition prepared :: "compact_env \<Rightarrow> checkpoint_record option \<Rightarrow> bool \<Rightarrow> compact_effect list \<Rightarrow> bool" where
  "prepared E latest b log \<longleftrightarrow>
     (\<forall>r. latest = Some r \<and> cr_phase r \<noteq> Aborted \<longrightarrow> (\<exists>entry. reconciled E log r entry \<and> latest_seen E log r (Restored entry))) \<and>
     (if b then decided E (\<lambda>d. d = Usage_unknown_decision) \<or> (\<exists>seed. restored_compaction E log seed) else decided E is_ok)"

lemma guards_prepare_rest:
  assumes "steady_work E ev"
  shows "guards (compact_guard E ev) (\<lambda>log. answered log C_latest (ce_latest E) latest) (prepare_rest E latest) (prepared E latest)"
  unfolding prepare_rest_def
proof (rule guards_seq)
  let ?done = "\<lambda>log. \<forall>r. latest = Some r \<and> cr_phase r \<noteq> Aborted \<longrightarrow> (\<exists>entry. reconciled E log r entry \<and> latest_seen E log r (Restored entry))"
  show "guards (compact_guard E ev) (\<lambda>log. answered log C_latest (ce_latest E) latest)
      (case latest of None \<Rightarrow> ret None | Some r \<Rightarrow> if cr_phase r = Aborted then ret None else seq (settle_record E r) (\<lambda>s. ret (Some s)))
      (\<lambda>_. ?done)"
  proof (cases latest)
    case None
    then show ?thesis by (auto intro: guards_ret)
  next
    case (Some r)
    show ?thesis
    proof (cases "cr_phase r = Aborted")
      case True
      then show ?thesis using Some by (auto intro: guards_ret)
    next
      case False
      have "guards (compact_guard E ev) (\<lambda>log. answered log C_latest (ce_latest E) (Some r)) (seq (settle_record E r) (\<lambda>s. ret (Some s)))
          (\<lambda>_. ?done)"
        by (rule guards_seq [OF guards_settle_record [of "\<lambda>log. answered log C_latest (ce_latest E) (Some r)"]])
          (auto simp: Some intro: guards_ret)
      then show ?thesis using Some False by simp
    qed
  qed
  fix prior
  have grow: "keeps_growing ?done"
    unfolding keeps_growing_def reconciled_def latest_seen_def answered_snoc by blast
  show "guards (compact_guard E ev) ?done
      (observe (\<lambda>n. (decide (ce_config E) (ce_usage E n) (ce_incoming E n), ce_fresh E n)) (\<lambda>(d, fresh).
        seq (lift d) (\<lambda>decision. if is_ok decision then ret False
          else if decision = Usage_unknown_decision \<and> (prior \<noteq> None \<or> \<not> fresh) then throw Usage_unknown
          else prepare_checked E prior decision)))
      (prepared E latest)"
  proof (rule guards_observe, simp only: prod.case, rule guards_lift, intro guards_if guards_throw, goal_cases)
    case (1 n d)
    then show ?case by (intro guards_ret) (auto simp: prepared_def decided_def)
  next
    case (2 n d)
    have "d \<noteq> Usage_unknown_decision \<longrightarrow> compaction_decided E"
      using 2 by (cases d) (auto simp: compaction_decided_def)
    from guards_prepare_checked [OF assms grow this] show ?case
      by (rule guards_weaken) (use 2 in \<open>auto simp: prepared_def decided_def\<close>)
  qed
qed

lemma guards_prepare:
  assumes "steady_work E ev"
  shows "guards (compact_guard E ev) (\<lambda>_. True) (prepare E) (\<lambda>b log. \<exists>latest. prepared E latest b log)"
  unfolding prepare_split
proof (rule guards_fresh)
  fix latest
  show "guards (compact_guard E ev) (\<lambda>log. True \<and> answered log C_latest (ce_latest E) latest) (prepare_rest E latest)
      (\<lambda>b log. \<exists>latest. prepared E latest b log)"
    by (rule guards_weaken [OF guards_prepare_rest [OF assms, of latest]]) auto
qed (auto simp: effect_allowed_def)

text \<open>C17: However a preparation ends, every call to a port is made directly after an ownership check; a checkpoint is moved only along its lifecycle, after the session has reconciled exactly that record; and the session is compacted only when the usage asks for it, from a state that is bound to this session, completed up to the event's predecessor and without an unconfirmed journal row, with a seed whose outcomes are the merged history.\<close>

theorem preparation_is_guarded:
  assumes "steady_work E ev" "prepare E [] = (r, log)" "p < length log"
  shows "compact_guard E ev (take p log) (log ! p)"
  using guardedD [OF guards_any [OF guards_prepare [OF assms(1)] guarded_Nil TrueI assms(2)] assms(3)] .

text \<open>A preparation that succeeds has first restored the latest checkpoint, unless it was aborted: the repository then holds it in the restored phase with the entry that the session reconciled. It promises that no usage is required afterwards only when the conversation fits its window; otherwise the usage was unknown on a first turn or the session was compacted to a validated checkpoint that the repository has restored.\<close>

theorem preparation_settles:
  assumes "steady_work E ev" "prepare E [] = (Inr b, log)"
  shows "\<exists>latest. ce_latest E 1 = Inr latest \<and> prepared E latest b log"
proof -
  have "seq (fresh_call E C_latest (ce_latest E)) (prepare_rest E) [] = (Inr b, log)" using assms(2) by (simp add: prepare_split)
  then obtain latest where l: "ce_latest E 1 = Inr latest" "prepare_rest E latest [C_current, C_latest] = (Inr b, log)"
    by (auto simp: fresh_call_def after_check_def current_check_def seq_def call_def split: sum.splits)
  have "guarded (compact_guard E ev) [C_current, C_latest]"
    by (auto simp: guarded_def less_Suc_eq compact_guard_def effect_allowed_def)
  moreover have "answered [C_current, C_latest] C_latest (ce_latest E) latest"
    unfolding answered_def by (rule exI [of _ 1]) (use l(1) in simp)
  ultimately have "prepared E latest b log" using guards_Inr [OF guards_prepare_rest [OF assms(1)] _ _ l(2)] by blast
  then show ?thesis using l(1) by blast
qed

section \<open>A preparation that settles a prepared checkpoint\<close>

definition demo_record :: "checkpoint_phase \<Rightarrow> checkpoint_record" where
  "demo_record phase = \<lparr>cr_id = ''c'', cr_checkpoint = demo_checkpoint, cr_recovery = None, cr_phase = phase\<rparr>"

definition demo_claim_of :: claimed_work where
  "demo_claim_of = \<lparr>cw_streamId = (3, 0), cw_event = demo_event,
     cw_ownership = \<lparr>own_app = \<lparr>f_owner = ''A'', f_epoch = ''1'', expiresAtMs = 9\<rparr>, own_chat = \<lparr>f_owner = ''W'', f_epoch = ''1'', expiresAtMs = 9\<rparr>\<rparr>\<rparr>"

text \<open>The latest record is read at the positions 1, 7 and 11: prepared, then compacted, then restored.\<close>

definition demo_compact_env :: compact_env where
  "demo_compact_env = \<lparr>ce_current = (\<lambda>_. Inr ()), ce_work = (\<lambda>_. demo_claim_of),
     ce_latest = (\<lambda>n. Inr (Some (demo_record (if n = 1 then Prepared else if n = 7 then Compacted ''e'' else Restored ''e'')))),
     ce_reconcile = (\<lambda>_. Inr (''e'', demo_checkpoint)), ce_transition = (\<lambda>_. Inr True),
     ce_readChat = (\<lambda>_. Inl Checkpoint_invalid), ce_list = (\<lambda>_. Inl Checkpoint_invalid), ce_history = (\<lambda>_. Inl Checkpoint_invalid),
     ce_template = (\<lambda>_. Inl Preparation_failed), ce_compact = (\<lambda>_. Inl Compaction_failed),
     ce_usage = (\<lambda>_. demo_usage 50000), ce_incoming = (\<lambda>_. demo_budget), ce_fresh = (\<lambda>_. False),
     ce_iso = (\<lambda>_. Inr ''2026-01-01T00:00:00Z''), ce_binding = demo_binding, ce_hasHistory = True, ce_hasRecovery = True,
     ce_config = demo_usage_config, ce_policyVersion = ''1'', ce_templateVersion = ''1'',
     ce_prePath = ''a'', ce_summaryPath = ''b'', ce_sensitive = (\<lambda>_. False)\<rparr>"

definition demo_prepare_log :: "compact_effect list" where
  "demo_prepare_log = [C_current, C_latest, C_current, C_reconcile (demo_record Prepared),
     C_current, C_transition demo_claim_of ''c'' (Compacted ''e''), C_current, C_latest,
     C_current, C_transition demo_claim_of ''c'' (Restored ''e''), C_current, C_latest]"

lemma demo_prepare_values [simp]:
  "ce_current demo_compact_env = (\<lambda>_. Inr ())" "ce_work demo_compact_env = (\<lambda>_. demo_claim_of)"
  "ce_latest demo_compact_env n =
     Inr (Some (demo_record (if n = 1 then Prepared else if n = 7 then Compacted ''e'' else Restored ''e'')))"
  "ce_reconcile demo_compact_env = (\<lambda>_. Inr (''e'', demo_checkpoint))" "ce_transition demo_compact_env = (\<lambda>_. Inr True)"
  "ce_config demo_compact_env = demo_usage_config" "ce_usage demo_compact_env = (\<lambda>_. demo_usage 50000)"
  "ce_incoming demo_compact_env = (\<lambda>_. demo_budget)" "ce_hasRecovery demo_compact_env"
  by (simp_all add: demo_compact_env_def)

lemma demo_record_values [simp]:
  "cr_id (demo_record p) = ''c''" "cr_checkpoint (demo_record p) = demo_checkpoint" "cr_phase (demo_record p) = p"
  by (simp_all add: demo_record_def)

lemma demo_prepare: "prepare demo_compact_env [] = (Inr False, demo_prepare_log)"
  by (simp add: prepare_def settle_latest_def settle_record_def advance_def transition_to_def latest_is_def fresh_call_def
      after_check_def current_check_def require_def call_def observe_def seq_def lift_def ret_def guard_def demo_decision
      demo_prepare_log_def)

lemma demo_steady_work: "steady_work demo_compact_env demo_event"
  by (simp add: steady_work_def demo_claim_of_def)

theorem preparation_is_guarded_witness:
  "compact_guard demo_compact_env demo_event (take 5 demo_prepare_log) (C_transition demo_claim_of ''c'' (Compacted ''e''))"
  using preparation_is_guarded [OF demo_steady_work demo_prepare, of 5] by (simp add: demo_prepare_log_def)

theorem preparation_settles_witness: "prepared demo_compact_env (Some (demo_record Prepared)) False demo_prepare_log"
  using preparation_settles [OF demo_steady_work demo_prepare] by simp

end
