(* ===== verification/Extension_Spec.thy ===== *)
theory Extension_Spec
  imports Extension Compactor_Spec Checkpoint_Spec
begin

text \<open>
  The properties of the checkpoint extension: the session is compacted only for a checkpoint that was
  requested and validated between two equal preflights and prepared in the repository, the hooks are
  armed exactly while the session compacts, and a run that succeeds has the compaction entry that it
  prepared.
\<close>

section \<open>When a call may be made\<close>

text \<open>The model was asked after the preflight had accepted the branch.\<close>

definition asked :: "ext_env \<Rightarrow> preflight \<Rightarrow> json list \<Rightarrow> string \<Rightarrow> completion_reply \<Rightarrow> ext_effect list \<Rightarrow> bool" where
  "asked E ready branch q reply log \<longleftrightarrow> answered_since log (X_complete q) (xe_complete E) reply
     (\<lambda>l. answered l X_preflight (xe_preflight E) ready \<and> answered l X_branch (xe_branch E) branch)"

text \<open>After the answer, preflight and branch were found unchanged.\<close>

definition asked_unchanged :: "ext_env \<Rightarrow> completion_reply \<Rightarrow> ext_effect list \<Rightarrow> bool" where
  "asked_unchanged E reply log \<longleftrightarrow> (\<exists>ready branch branch' q. ready \<noteq> Not_ready \<and> assertSupportedEntries branch = Inr () \<and>
     branchGeneration (xe_sha E) branch' = branchGeneration (xe_sha E) branch \<and>
     answered_since log X_branch (xe_branch E) branch'
       (\<lambda>l. answered_since l X_preflight (xe_preflight E) ready (asked E ready branch q reply)))"

definition valid_reply :: "ext_env \<Rightarrow> checkpoint_v1 \<Rightarrow> ext_effect list \<Rightarrow> checkpoint_v1 \<Rightarrow> string \<Rightarrow> bool" where
  "valid_reply E seed log c text \<longleftrightarrow> (\<exists>reply. asked_unchanged E reply log \<and> checkpoint_reply E seed reply = Inr c) \<and>
     renderCheckpointSummary (xe_sensitive E) c (xe_newId E) (checkpointIdentity seed) (xe_maxBytes E) = Inr text"

definition prepare_allowed :: "ext_env \<Rightarrow> checkpoint_v1 \<Rightarrow> ext_effect list \<Rightarrow> claimed_work \<Rightarrow> checkpoint_record \<Rightarrow> bool" where
  "prepare_allowed E seed log w r \<longleftrightarrow> (\<exists>c text fp g l. valid_reply E seed log c text \<and>
     fingerprintEvent (xe_sha E) (cw_event w) = Inr fp \<and> r = prepared_record (xe_newId E) c w fp (xe_binding E) g \<and>
     log = l @ [X_current, X_generation] \<and> xe_generation E (Suc (length l)) = Inr g)"

definition is_prepared :: "ext_env \<Rightarrow> checkpoint_v1 \<Rightarrow> ext_effect list \<Rightarrow> compaction_result \<Rightarrow> bool" where
  "is_prepared E seed log result \<longleftrightarrow> re_checkpointId result = xe_newId E \<and>
     valid_reply E seed log (re_checkpoint result) (re_summary result) \<and>
     (\<exists>w r. cr_id r = re_checkpointId result \<and> cr_checkpoint r = re_checkpoint result \<and>
       answered log (X_prepare w r) (xe_prepare E) True)"

definition ext_guard :: "ext_env \<Rightarrow> checkpoint_v1 \<Rightarrow> ext_effect list \<Rightarrow> ext_effect \<Rightarrow> bool" where
  "ext_guard E seed log e \<longleftrightarrow>
     (case e of
        X_prepare w r \<Rightarrow> prepare_allowed E seed log w r
      | X_compact m \<Rightarrow> log \<noteq> [] \<and> last log = X_current \<and>
          (\<exists>result. m = compaction_marker (re_checkpointId result) \<and> is_prepared E seed log result)
      | _ \<Rightarrow> True)"

lemma growing_asked [intro, simp]: "keeps_growing (asked E ready branch q reply)"
  unfolding asked_def by simp

lemma growing_unchanged [intro, simp]: "keeps_growing (asked_unchanged E reply)"
  unfolding keeps_growing_def asked_unchanged_def answered_since_snoc by blast

lemma growing_valid [intro, simp]: "keeps_growing (\<lambda>log. valid_reply E seed log c text)"
  using growing_unchanged unfolding keeps_growing_def valid_reply_def by blast

lemma growing_prepared [intro, simp]: "keeps_growing (\<lambda>log. is_prepared E seed log result)"
  using growing_valid unfolding keeps_growing_def is_prepared_def answered_snoc by blast

lemma ext_guard_plain [simp]:
  "ext_guard E seed log X_current" "ext_guard E seed log X_preflight" "ext_guard E seed log X_branch"
  "ext_guard E seed log X_projection" "ext_guard E seed log X_tokens" "ext_guard E seed log X_transcript"
  "ext_guard E seed log (X_complete q)" "ext_guard E seed log X_generation"
  by (simp_all add: ext_guard_def)

section \<open>The preparation\<close>

abbreviation ext_guards where "ext_guards E seed \<equiv> guards (ext_guard E seed)"

lemma guards_ext_current: "keeps_growing X \<Longrightarrow> (\<And>x. ext_guards E seed X (g x) Q) \<Longrightarrow> ext_guards E seed X (seq (ext_current E) g) Q"
  unfolding ext_current_def by (rule guards_skip) simp_all

lemma guards_request:
  "ext_guards E seed (\<lambda>_. True) (request_checkpoint E s preparation summary)
     (\<lambda>(ready, branch, kept, tokens, reply) log. ready \<noteq> Not_ready \<and> assertSupportedEntries branch = Inr () \<and>
       (\<exists>q. asked E ready branch q reply log))"
  unfolding request_checkpoint_def
proof (rule guards_ext_current, simp, rule guards_then, simp, simp, rule guards_require, rule guards_then, simp, simp,
    rule guards_lift, rule guards_skip, simp, simp, rule guards_skip, simp, simp, rule guards_lift, rule guards_skip, simp, simp,
    rule guards_lift, rule guards_require, rule guards_ext_current, simp, rule guards_observe, rule guards_require,
    rule guards_then_since, simp, simp, goal_cases)
  case (1 a ready branch c pj tokens kept transcript seed' e n reply)
  then show ?case by (intro guards_ret) (auto simp: asked_def)
qed

lemma guards_unchanged:
  assumes "ready \<noteq> Not_ready" "assertSupportedEntries branch = Inr ()"
  shows "ext_guards E seed (\<lambda>log. \<exists>q. asked E ready branch q reply log) (unchanged E ready branch) (\<lambda>_. asked_unchanged E reply)"
proof -
  have "ext_guards E seed (asked E ready branch q reply) (unchanged E ready branch) (\<lambda>_. asked_unchanged E reply)" for q
    unfolding unchanged_def
  proof (rule guards_ext_current, simp, rule guards_then_since, simp, simp, rule guards_require, goal_cases)
    case (1 a again)
    let ?X = "\<lambda>log. answered_since log X_preflight (xe_preflight E) ready (asked E ready branch q reply)"
    have "ext_guards E seed ?X
        (seq (call X_branch (xe_branch E)) (\<lambda>branch'. require (branchGeneration (xe_sha E) branch' = branchGeneration (xe_sha E) branch) Compaction_capacity))
        (\<lambda>_. asked_unchanged E reply)"
    proof (rule guards_then_since, simp, simp)
      fix branch'
      show "ext_guards E seed (\<lambda>log. ?X log \<and> answered_since log X_branch (xe_branch E) branch' ?X)
          (require (branchGeneration (xe_sha E) branch' = branchGeneration (xe_sha E) branch) Compaction_capacity)
          (\<lambda>_. asked_unchanged E reply)"
        using assms
        by (cases "branchGeneration (xe_sha E) branch' = branchGeneration (xe_sha E) branch")
          (auto simp: require_def guard_def lift_def guards_def triple_def asked_unchanged_def split: sum.splits)
    qed
    then show ?case using 1 by (elim guards_pre) auto
  qed
  then show ?thesis by (rule guards_ex)
qed

text \<open>The last part of the preparation makes its calls in one go.\<close>

lemma guards_store:
  assumes "\<And>log. X log \<Longrightarrow> valid_reply E seed log c text" "keeps_growing X"
    and "re_checkpointId result = xe_newId E" "re_checkpoint result = c" "re_summary result = text"
  shows "ext_guards E seed X
    (seq (ext_current E) (\<lambda>_. seq (call X_generation (xe_generation E)) (\<lambda>g. observe (xe_work E) (\<lambda>w.
      seq (lift (fingerprintEvent (xe_sha E) (cw_event w))) (\<lambda>fp.
      seq (call (X_prepare w (prepared_record (xe_newId E) c w fp (xe_binding E) g)) (xe_prepare E)) (\<lambda>ok.
      seq (require ok Compaction_failed) (\<lambda>_. seq (ext_current E) (\<lambda>_. ret result))))))))
    (\<lambda>r log. r = result \<and> log \<noteq> [] \<and> last log = X_current \<and> is_prepared E seed log result)"
proof -
  have grow: "X (log @ l)" if "X log" for log l
    using that assms(2) by (induction l rule: rev_induct) (simp_all add: keeps_growing_def flip: append_assoc)
  have valid: "valid_reply E seed (log @ l) c text" if "X log" for log l using assms(1) grow [OF that] by blast
  let ?r = "\<lambda>n g fp. prepared_record (xe_newId E) c (xe_work E n) fp (xe_binding E) g"
  have guarded_prepare: "guarded (ext_guard E seed) (log @ [X_current, X_generation, X_prepare (xe_work E n) (?r n g fp)])"
    if "guarded (ext_guard E seed) log" "X log" "xe_generation E (Suc (length log)) = Inr g"
      "fingerprintEvent (xe_sha E) (cw_event (xe_work E n)) = Inr fp" for log n g fp
  proof -
    have "guarded (ext_guard E seed) (log @ [X_current, X_generation])" by (rule guarded_snoc2) (simp_all add: that(1))
    moreover have "ext_guard E seed (log @ [X_current, X_generation]) (X_prepare (xe_work E n) (?r n g fp))"
      using valid [OF that(2)] that(3,4) by (auto simp: ext_guard_def prepare_allowed_def)
    ultimately show ?thesis
      using iffD2 [OF guarded_snoc, of "ext_guard E seed" "log @ [X_current, X_generation]" "X_prepare (xe_work E n) (?r n g fp)"] by simp
  qed
  have guarded_plain: "guarded (ext_guard E seed) (log @ [X_current])" "guarded (ext_guard E seed) (log @ [X_current, X_generation])"
    if "guarded (ext_guard E seed) log" for log
    using guarded_snoc2 [OF that, of X_current X_generation] that by (simp_all add: guarded_snoc)
  have guarded_end: "guarded (ext_guard E seed) (log @ [X_current, X_generation, X_prepare w r, X_current])"
    if "guarded (ext_guard E seed) (log @ [X_current, X_generation, X_prepare w r])" for log w r
    using that guarded_snoc [of "ext_guard E seed" "log @ [X_current, X_generation, X_prepare w r]" X_current] by simp
  have finished: "is_prepared E seed (log @ [X_current, X_generation, X_prepare (xe_work E n) (?r n g fp), X_current]) result"
    if "X log" "xe_prepare E (Suc (Suc (length log))) = Inr True" for log n g fp
  proof -
    have "answered (log @ [X_current, X_generation, X_prepare (xe_work E n) (?r n g fp), X_current])
        (X_prepare (xe_work E n) (?r n g fp)) (xe_prepare E) True"
      unfolding answered_def by (rule exI [of _ "Suc (Suc (length log))"]) (use that(2) in \<open>simp add: nth_append\<close>)
    then show ?thesis
      using valid [OF that(1)] assms(3-5) unfolding is_prepared_def by (metis checkpoint_record.select_convs(1,2) prepared_record_def)
  qed
  show ?thesis
    using guarded_plain guarded_prepare guarded_end finished
    by (auto simp: guards_def triple_def seq_def call_def observe_def require_def lift_def guard_def ret_def ext_current_def
        split: sum.split)
qed

lemma guards_fact: "(b \<Longrightarrow> guards G X m Q) \<Longrightarrow> guards G (\<lambda>log. b \<and> X log) m Q"
  by (cases b) (simp_all add: guards_def triple_def)

lemma guards_prepare_checkpoint:
  "ext_guards E seed (\<lambda>_. True) (prepare_checkpoint E seed preparation summary)
     (\<lambda>result log. log \<noteq> [] \<and> last log = X_current \<and> is_prepared E seed log result)"
  unfolding prepare_checkpoint_def
proof (rule guards_seq [OF guards_request], goal_cases)
  case (1 x)
  obtain ready branch kept tokens reply where x: "x = (ready, branch, kept, tokens, reply)" by (cases x) blast
  show ?case
    unfolding x prod.case
  proof (rule guards_fact, rule guards_fact, rule guards_seq [OF guards_unchanged], assumption, assumption,
      rule guards_lift, rule guards_lift, goal_cases)
    case (1 u c body)
    let ?result = "\<lparr>re_summary = body, re_firstKept = kept, re_tokensBefore = tokens, re_usage = rp_usage reply,
      re_checkpointId = xe_newId E, re_checkpoint = c\<rparr>"
    have "valid_reply E seed log c body" if "asked_unchanged E reply log" for log
      using that 1 unfolding valid_reply_def by blast
    from guards_store [OF this growing_unchanged, where result = ?result] show ?case
      by (rule guards_weaken) auto
  qed
qed

text \<open>The preparation never compacts.\<close>

fun is_compact :: "ext_effect \<Rightarrow> bool" where
  "is_compact (X_compact m) = True"
| "is_compact _ = False"

abbreviation never_compact where "never_compact \<equiv> guards (\<lambda>_ e. \<not> is_compact e)"

lemma never_compact_prepare: "never_compact (\<lambda>_. True) (prepare_checkpoint E seed preparation summary) (\<lambda>_ _. True)"
proof -
  have req: "never_compact (\<lambda>_. True) (request_checkpoint E s preparation summary) (\<lambda>_ _. True)" for s
    unfolding request_checkpoint_def ext_current_def
    by (intro guards_skip guards_lift guards_require guards_observe guards_ret) simp_all
  have unc: "never_compact (\<lambda>_. True) (unchanged E ready branch) (\<lambda>_ _. True)" for ready branch
    unfolding unchanged_def ext_current_def require_def
    by (intro guards_skip guards_lift guards_ret) (auto simp: guard_def lift_def guards_def triple_def)
  show ?thesis
    unfolding prepare_checkpoint_def ext_current_def
    by (rule guards_seq [OF req], simp only: split_beta, rule guards_seq [OF unc])
      (intro guards_skip guards_lift guards_require guards_observe guards_ret; simp)
qed

section \<open>The hooks\<close>

definition before_hooks :: "ext_env \<Rightarrow> nat \<Rightarrow> nat \<Rightarrow> nat" where
  "before_hooks E a b = count_list (concat (map (xe_hooks E) [a ..< b])) Hook_before"

lemma deliver_log [simp]: "x_log (deliver h s) = x_log s"
  by (cases h) simp_all

lemma deliver_replacement [simp]: "beforeCompact (deliver h s) = beforeCompact s"
  by (cases h; cases "x_armed s") (simp_all add: beforeCompact_def)

lemma deliver_answers: "x_answers (deliver h s) = x_answers s @ (if h = Hook_before then [beforeCompact s] else [])"
  by (cases h) simp_all

lemma deliver_all:
  "x_log (fold deliver hs s) = x_log s" "beforeCompact (fold deliver hs s) = beforeCompact s"
  "x_answers (fold deliver hs s) = x_answers s @ replicate (count_list hs Hook_before) (beforeCompact s)"
  by (induction hs arbitrary: s) (simp_all add: deliver_answers)

lemma deliver_positions: "fold (deliver_at E) ns s = fold deliver (concat (map (xe_hooks E) ns)) s"
  by (induction ns arbitrary: s) (simp_all add: deliver_at_def)

lemma with_hooks_state:
  assumes "with_hooks E m s = (r, s')"
  shows "m (x_log s) = (r, x_log s')" "beforeCompact s' = beforeCompact s"
    "x_answers s' = x_answers s @ replicate (before_hooks E (length (x_log s)) (length (x_log s'))) (beforeCompact s)"
proof -
  obtain log where m: "m (x_log s) = (r, log)"
    and s': "s' = fold deliver (concat (map (xe_hooks E) [length (x_log s) ..< length log])) (s\<lparr>x_log := log\<rparr>)"
    using assms by (auto simp: with_hooks_def deliver_positions split: prod.splits)
  have b: "beforeCompact (s\<lparr>x_log := log\<rparr>) = beforeCompact s" by (simp add: beforeCompact_def)
  show "m (x_log s) = (r, x_log s')" "beforeCompact s' = beforeCompact s" using m b unfolding s' by (simp_all add: deliver_all)
  show "x_answers s' = x_answers s @ replicate (before_hooks E (length (x_log s)) (length (x_log s'))) (beforeCompact s)"
    using b unfolding s' by (simp add: deliver_all before_hooks_def)
qed

lemma unarmed_iff: "x_armed s = None \<longleftrightarrow> beforeCompact s = None"
  by (simp add: beforeCompact_def)

lemma before_hooks_split: "a \<le> b \<Longrightarrow> b \<le> c \<Longrightarrow> before_hooks E a c = before_hooks E a b + before_hooks E b c"
proof -
  assume "a \<le> b" "b \<le> c"
  then have "[a ..< c] = [a ..< b] @ [b ..< c]" using upt_add_eq_append [of a b "c - b"] by simp
  then show ?thesis by (simp add: before_hooks_def)
qed

section \<open>The run\<close>

text \<open>A run that was refused at once, or its parts: the preparation, the compaction and the clean-up.\<close>

definition armed_end :: "ext_env \<Rightarrow> compaction_result \<Rightarrow> ext \<Rightarrow> (error_class + string) \<times> ext" where
  "armed_end E result s = seq (with_hooks E (call (X_compact (compaction_marker (re_checkpointId result))) (xe_compact E))) (\<lambda>returned.
     seq (with_hooks E (ext_current E)) (\<lambda>_. with_state (\<lambda>s. lift (compacted_entry (x_armed s) result returned)))) (arm result s)"

lemma compact_armed_eq: "compact_armed E result s = (case armed_end E result s of (r, s') \<Rightarrow> (r, s'\<lparr>x_armed := None\<rparr>))"
  by (simp add: compact_armed_def armed_end_def finalize_def modify_def seq_def split: prod.splits sum.splits)

lemma run_cases:
  assumes "run_checkpoint E i seed preparation summary s = (r, s')"
  obtains "s' = s" "r = Inl Compaction_failed"
  | e where "x_armed s = None" "with_hooks E (prepare_checkpoint E seed preparation summary) s = (Inl e, s')" "r = Inl (rethrow_fixed e)"
  | result s1 s2 q where "x_armed s = None" "with_hooks E (prepare_checkpoint E seed preparation summary) s = (Inr result, s1)"
      "armed_end E result s1 = (q, s2)" "s' = s2\<lparr>x_armed := None\<rparr>"
      "r = (case q of Inl e \<Rightarrow> Inl (rethrow_fixed e) | Inr entry \<Rightarrow> Inr (entry, result))"
proof (cases "\<not> x_runtime s \<or> xe_sessionId E (length (x_log s)) \<noteq> i \<or> \<not> xe_idle E (length (x_log s)) \<or> x_armed s \<noteq> None")
  case True
  then show ?thesis using assms that(1) by (auto simp: run_checkpoint_def with_state_def throw_def)
next
  case False
  obtain p s1 where p: "with_hooks E (prepare_checkpoint E seed preparation summary) s = (p, s1)" by force
  show ?thesis
  proof (cases p)
    case (Inl e)
    then show ?thesis using that(2) assms False p by (auto simp: run_checkpoint_def with_state_def catch_def seq_def throw_def)
  next
    case (Inr result)
    obtain q s2 where q: "armed_end E result s1 = (q, s2)" by force
    show ?thesis
      by (rule that(3) [OF _ p [unfolded Inr] q]) (use assms False p Inr q in
        \<open>auto simp: run_checkpoint_def with_state_def catch_def seq_def throw_def compact_armed_eq ret_def split: sum.splits\<close>)
  qed
qed

lemma armed_end_cases:
  assumes "armed_end E result s = (q, s')"
  obtains e where "x_log s' = x_log s @ [X_compact (compaction_marker (re_checkpointId result))]" "q = Inl e"
  | e where "x_log s' = x_log s @ [X_compact (compaction_marker (re_checkpointId result)), X_current]" "q = Inl e"
  | returned entry where "x_log s' = x_log s @ [X_compact (compaction_marker (re_checkpointId result)), X_current]" "q = Inr entry"
      "xe_compact E (length (x_log s)) = Inr returned" "compacted_entry (x_armed s') result returned = Inr entry"
proof -
  have log: "x_log (arm result s) = x_log s" by (simp add: arm_def)
  show ?thesis
    using assms that unfolding armed_end_def
    by (cases q) (auto simp: seq_def with_state_def lift_def log with_hooks_def call_def ext_current_def deliver_positions deliver_all
        split: sum.splits prod.splits)
qed

text \<open>C18: A checkpoint is prepared in the repository only directly after an ownership check and the capture of the session file's generation, with the validated checkpoint that the model returned for the seed, asked and answered while preflight and branch stayed the same; and the session is compacted only directly after an ownership check, with the marker of a checkpoint that the repository has prepared. This holds of every run, however it ends.\<close>

theorem compaction_is_prepared:
  assumes "run_checkpoint E i seed preparation summary s = (r, s')" "x_log s = []" "p < length (x_log s')"
  shows "ext_guard E seed (take p (x_log s')) (x_log s' ! p)"
proof -
  have "guarded (ext_guard E seed) (x_log s')"
    using assms(1)
  proof (cases rule: run_cases)
    case 1
    then show ?thesis using assms(2) by simp
  next
    case (2 e)
    then have "prepare_checkpoint E seed preparation summary [] = (Inl e, x_log s')" using with_hooks_state(1) assms(2) by metis
    then show ?thesis using guards_any [OF guards_prepare_checkpoint guarded_Nil TrueI] by blast
  next
    case (3 result s1 s2 q)
    then have "prepare_checkpoint E seed preparation summary [] = (Inr result, x_log s1)" using with_hooks_state(1) assms(2) by metis
    then have s1: "guarded (ext_guard E seed) (x_log s1)" "x_log s1 \<noteq> [] \<and> last (x_log s1) = X_current \<and> is_prepared E seed (x_log s1) result"
      using guards_Inr [OF guards_prepare_checkpoint guarded_Nil TrueI] by blast+
    let ?e = "X_compact (compaction_marker (re_checkpointId result))"
    have compact: "ext_guard E seed (x_log s1) ?e" using s1(2) by (auto simp: ext_guard_def)
    have "guarded (ext_guard E seed) (x_log s1 @ [?e])" "guarded (ext_guard E seed) (x_log s1 @ [?e, X_current])"
      using s1(1) compact guarded_snoc2 [OF s1(1) compact] by (simp_all add: guarded_snoc)
    then show ?thesis using 3(3,4) by (auto elim: armed_end_cases)
  qed
  then show ?thesis using guardedD assms(3) by blast
qed

text \<open>While the session compacts, the hook before a compaction answers with the armed replacement.\<close>

lemma armed_end_answers:
  assumes "armed_end E result s = (q, s')"
  shows "x_answers s' = x_answers s @ replicate (before_hooks E (length (x_log s)) (length (x_log s'))) (Some result)"
proof -
  let ?call = "call (X_compact (compaction_marker (re_checkpointId result))) (xe_compact E)"
  have arm: "x_log (arm result s) = x_log s" "x_answers (arm result s) = x_answers s" "beforeCompact (arm result s) = Some result"
    by (simp_all add: arm_def beforeCompact_def)
  obtain q1 s1 where one: "with_hooks E ?call (arm result s) = (q1, s1)" by force
  note a = with_hooks_state [OF one, unfolded arm]
  have len: "length (x_log s) \<le> length (x_log s1)" using a(1) by (auto simp: call_def) (metis le_add1 length_append)
  show ?thesis
  proof (cases q1)
    case (Inl e)
    then show ?thesis using assms one a(3) by (simp add: armed_end_def seq_def)
  next
    case (Inr returned)
    obtain q2 s2 where two: "with_hooks E (ext_current E) s1 = (q2, s2)" by force
    note b = with_hooks_state [OF two]
    have "s' = s2" using assms one two Inr by (auto simp: armed_end_def seq_def with_state_def lift_def split: sum.splits)
    moreover have "length (x_log s1) \<le> length (x_log s2)" using b(1) by (auto simp: ext_current_def call_def) (metis le_add1 length_append)
    ultimately show ?thesis using a b before_hooks_split [OF len, of "length (x_log s2)" E] by (simp add: replicate_add)
  qed
qed

lemma compact_position:
  assumes "list_all (\<lambda>e. \<not> is_compact e) l"
  shows "length (takeWhile (\<lambda>e. \<not> is_compact e) l) = length l"
    "length (takeWhile (\<lambda>e. \<not> is_compact e) (l @ X_compact m # r)) = length l"
  using assms by (induction l) auto

text \<open>After a run the session's entry of the armed map is what it was before, so the hooks of a later compaction are not answered by this one. A hook before a compaction that the session calls until this run's call of \<open>compact\<close> gets no replacement; every one that it calls from then on gets exactly the prepared replacement.\<close>

theorem hooks_answer_exactly:
  assumes "run_checkpoint E i seed preparation summary s = (r, s')" "x_log s = []"
    and "k = length (takeWhile (\<lambda>e. \<not> is_compact e) (x_log s'))"
  shows "x_armed s' = x_armed s \<and> (x_armed s = None \<longrightarrow>
    (\<exists>result. x_answers s' = x_answers s @ replicate (before_hooks E 0 k) None @
        replicate (before_hooks E k (length (x_log s'))) (Some result) \<and>
      (k < length (x_log s') \<longrightarrow> x_log s' ! k = X_compact (compaction_marker (re_checkpointId result)) \<and>
        is_prepared E seed (take k (x_log s')) result)))"
  using assms(1)
proof (cases rule: run_cases)
  case 1
  then show ?thesis using assms(2,3) by (simp add: before_hooks_def)
next
  case (2 e)
  note h = with_hooks_state [OF 2(2), unfolded assms(2)]
  have "guarded (\<lambda>_ e. \<not> is_compact e) (x_log s')"
    using guards_any [OF never_compact_prepare guarded_Nil TrueI h(1)] .
  then have "k = length (x_log s')" using assms(3) compact_position(1) by (auto simp: guarded_def list_all_length)
  moreover have "x_armed s' = None" "beforeCompact s = None" using h(2) 2(1) by (simp_all add: unarmed_iff)
  ultimately show ?thesis using h(3) 2(1) by (simp add: before_hooks_def)
next
  case (3 result s1 s2 q)
  note h = with_hooks_state [OF 3(2), unfolded assms(2)]
  have "guarded (\<lambda>_ e. \<not> is_compact e) (x_log s1)"
    using guards_any [OF never_compact_prepare guarded_Nil TrueI h(1)] .
  then have none: "list_all (\<lambda>e. \<not> is_compact e) (x_log s1)" by (auto simp: guarded_def list_all_length)
  have log: "\<exists>l. x_log s2 = x_log s1 @ X_compact (compaction_marker (re_checkpointId result)) # l"
    using 3(3) by (auto elim: armed_end_cases)
  then have k: "k = length (x_log s1)" using assms(3) 3(4) compact_position(2) [OF none] by auto
  have "is_prepared E seed (x_log s1) result"
    using guards_Inr [OF guards_prepare_checkpoint guarded_Nil TrueI h(1)] by blast
  moreover have "x_answers s' = x_answers s @ replicate (before_hooks E 0 k) None @
      replicate (before_hooks E k (length (x_log s'))) (Some result)"
    using armed_end_answers [OF 3(3)] h(3) 3(1,4) k by (simp add: unarmed_iff)
  ultimately show ?thesis using 3(1,4) k log by auto
qed

lemma deliver_event:
  assumes "x_armed s = Some a"
  shows "\<exists>b. x_armed (fold deliver hs s) = Some b \<and> ar_failed b = (ar_failed a \<or> Hook_failed \<in> set hs) \<and>
    (\<forall>ev. ar_event b = Some ev \<longrightarrow> ar_event a = Some ev \<or> Hook_compact ev \<in> set hs)"
  using assms
proof (induction hs arbitrary: s a)
  case (Cons h hs)
  have "\<exists>c. x_armed (deliver h s) = Some c \<and> ar_failed c = (ar_failed a \<or> h = Hook_failed) \<and>
      (\<forall>ev. ar_event c = Some ev \<longrightarrow> ar_event a = Some ev \<or> h = Hook_compact ev)"
    using Cons.prems by (cases h) auto
  then obtain c where c: "x_armed (deliver h s) = Some c" "ar_failed c = (ar_failed a \<or> h = Hook_failed)"
    "\<forall>ev. ar_event c = Some ev \<longrightarrow> ar_event a = Some ev \<or> h = Hook_compact ev" by blast
  obtain b where b: "x_armed (fold deliver hs (deliver h s)) = Some b" "ar_failed b = (ar_failed c \<or> Hook_failed \<in> set hs)"
    "\<forall>ev. ar_event b = Some ev \<longrightarrow> ar_event c = Some ev \<or> Hook_compact ev \<in> set hs"
    using Cons.IH [OF c(1)] by blast
  show ?case using b c(2,3) by auto
qed simp

lemma armed_hooks:
  assumes "armed_end E result s = (q, s')" "x_log s' = x_log s @ [X_compact m, X_current]"
  shows "\<exists>b. x_armed s' = Some b \<and> ar_failed b = (Hook_failed \<in> set (xe_hooks E (length (x_log s)) @ xe_hooks E (Suc (length (x_log s))))) \<and>
    (\<forall>ev. ar_event b = Some ev \<longrightarrow> Hook_compact ev \<in> set (xe_hooks E (length (x_log s)) @ xe_hooks E (Suc (length (x_log s)))))"
proof -
  let ?n = "length (x_log s)" let ?a = "arm result s" let ?c = "X_compact (compaction_marker (re_checkpointId result))"
  let ?s1 = "fold deliver (xe_hooks E ?n) (?a\<lparr>x_log := x_log s @ [?c]\<rparr>)"
  let ?s2 = "fold deliver (xe_hooks E (Suc ?n)) (?s1\<lparr>x_log := x_log s @ [?c, X_current]\<rparr>)"
  have log: "x_log ?a = x_log s" "x_armed ?a = Some \<lparr>ar_checkpointId = re_checkpointId result, ar_replacement = result, ar_event = None, ar_failed = False\<rparr>"
    by (simp_all add: arm_def)
  have s': "s' = ?s2"
    using assms unfolding armed_end_def
    by (auto simp: seq_def with_state_def lift_def log with_hooks_def call_def ext_current_def deliver_positions deliver_all
        split: sum.splits)
  obtain b where b: "x_armed ?s1 = Some b" "ar_failed b = (Hook_failed \<in> set (xe_hooks E ?n))"
    "\<forall>ev. ar_event b = Some ev \<longrightarrow> Hook_compact ev \<in> set (xe_hooks E ?n)"
    using deliver_event [of "?a\<lparr>x_log := x_log s @ [?c]\<rparr>" _ "xe_hooks E ?n"] log(2) by auto
  show ?thesis
    using deliver_event [of "?s1\<lparr>x_log := x_log s @ [?c, X_current]\<rparr>" b "xe_hooks E (Suc ?n)"] b unfolding s' by auto
qed

text \<open>A run that succeeds has the entry that the session reported to the hook: while the session compacted, or during the ownership check that followed, the compact hook was called with an entry that carries this ID, the rendered summary and exactly the prepared checkpoint, no failure was reported, and the value that the session returned agrees with the entry.\<close>

theorem successful_compaction:
  assumes "run_checkpoint E i seed preparation summary s = (Inr (entry, result), s')" "x_log s = []"
  shows "is_prepared E seed (x_log s') result \<and>
    (\<exists>n returned ev en. length (x_log s') = n + 2 \<and> x_log s' ! n = X_compact (compaction_marker (re_checkpointId result)) \<and>
      xe_compact E n = Inr returned \<and> Hook_compact ev \<in> set (xe_hooks E n @ xe_hooks E (Suc n)) \<and>
      Hook_failed \<notin> set (xe_hooks E n @ xe_hooks E (Suc n)) \<and> ev_entry ev = Some en \<and> en_id en = entry \<and>
      en_summary en = re_summary result \<and> details_of_json (en_details en) = Some (re_checkpointId result, re_checkpoint result) \<and>
      returned_ok returned en (re_checkpointId result, re_checkpoint result))"
  using assms(1)
proof (cases rule: run_cases)
  case (3 res s1 s2 q)
  then have q: "q = Inr entry" "res = result" by (auto split: sum.splits)
  note h = with_hooks_state [OF 3(2), unfolded assms(2) q(2)]
  have prepared: "is_prepared E seed (x_log s1) result"
    using guards_Inr [OF guards_prepare_checkpoint guarded_Nil TrueI h(1)] by blast
  let ?n = "length (x_log s1)" let ?e = "X_compact (compaction_marker (re_checkpointId result))"
  from 3(3) [unfolded q] obtain returned where r: "x_log s2 = x_log s1 @ [?e, X_current]" "xe_compact E ?n = Inr returned"
    "compacted_entry (x_armed s2) result returned = Inr entry" by (rule armed_end_cases) auto
  have hooks: "\<exists>b. x_armed s2 = Some b \<and> ar_failed b = (Hook_failed \<in> set (xe_hooks E ?n @ xe_hooks E (Suc ?n))) \<and>
      (\<forall>ev. ar_event b = Some ev \<longrightarrow> Hook_compact ev \<in> set (xe_hooks E ?n @ xe_hooks E (Suc ?n)))"
    using armed_hooks [OF 3(3) [unfolded q] r(1)] .
  have "is_prepared E seed (x_log s1 @ [?e, X_current]) result"
    using prepared growing_prepared unfolding keeps_growing_def
    by (metis append.assoc append_Cons append_Nil)
  moreover have "\<exists>ev en. Hook_compact ev \<in> set (xe_hooks E ?n @ xe_hooks E (Suc ?n)) \<and>
      Hook_failed \<notin> set (xe_hooks E ?n @ xe_hooks E (Suc ?n)) \<and> ev_entry ev = Some en \<and> en_id en = entry \<and>
      en_summary en = re_summary result \<and> details_of_json (en_details en) = Some (re_checkpointId result, re_checkpoint result) \<and>
      returned_ok returned en (re_checkpointId result, re_checkpoint result)"
    using hooks r(3) by (auto simp: compacted_entry_def split: option.splits if_splits)
  ultimately show ?thesis using 3(4) r(1,2) by (intro conjI) (simp, rule exI [of _ ?n], auto)
qed auto

section \<open>A compaction\<close>

abbreviation demo_id :: string where "demo_id \<equiv> replicate 32 CHR ''d''"

definition demo_summary :: string where
  "demo_summary = summary_text demo_checkpoint demo_id"

definition demo_details :: json where
  "demo_details = JObj [(''version'', JInt 1), (''checkpointId'', JStr demo_id), (''checkpoint'', checkpoint_json demo_checkpoint)]"

definition demo_entry :: compact_entry where
  "demo_entry = \<lparr>en_id = ''e'', en_summary = demo_summary, en_firstKept = ''k'', en_tokensBefore = 10, en_usage = None,
     en_details = Some demo_details, en_fromHook = True\<rparr>"

definition demo_compact_event :: compact_event where
  "demo_compact_event = \<lparr>ev_fromExtension = True, ev_reason = ''manual'', ev_willRetry = False, ev_entry = Some demo_entry\<rparr>"

definition demo_returned :: json where
  "demo_returned = JObj [(''summary'', JStr demo_summary), (''firstKeptEntryId'', JStr ''k''), (''tokensBefore'', JInt 10),
     (''details'', demo_details)]"

definition demo_ext_env :: ext_env where
  "demo_ext_env = \<lparr>xe_current = (\<lambda>_. Inr ()), xe_work = (\<lambda>_. demo_claim_of), xe_preflight = (\<lambda>_. Inr Ready), xe_branch = (\<lambda>_. Inr []),
     xe_projection = (\<lambda>_. Inr \<lparr>pj_last = Some ''k'', pj_messages = True\<rparr>), xe_tokens = (\<lambda>_. Inr (Some (JS_int 10))),
     xe_transcript = (\<lambda>_. Inr ''t''), xe_hasModel = (\<lambda>_. True),
     xe_complete = (\<lambda>_. Inr \<lparr>rp_content = [Some ''j''], rp_usage = None\<rparr>),
     xe_generation = (\<lambda>_. Inr \<lparr>fg_device = ''1'', fg_inode = ''1'', fg_size = ''1'', fg_mtimeNs = ''1'', fg_ctimeNs = ''1''\<rparr>),
     xe_prepare = (\<lambda>_. Inr True), xe_compact = (\<lambda>_. Inr (Some demo_returned)), xe_latest = (\<lambda>_. Inr None), xe_transition = (\<lambda>_. Inr True),
     xe_hooks = (\<lambda>n. if n = 15 then [Hook_before, Hook_compact demo_compact_event] else []),
     xe_sessionId = (\<lambda>_. ''s''), xe_idle = (\<lambda>_. True), xe_newId = demo_id, xe_binding = demo_binding, xe_maxBytes = 65536,
     xe_parse = (\<lambda>_. Some (checkpoint_json demo_checkpoint)), xe_sensitive = (\<lambda>s. s = ''password: hunter22''), xe_sha = (\<lambda>_. '''')\<rparr>"

definition demo_ext :: ext where
  "demo_ext = \<lparr>x_log = [], x_armed = None, x_runtime = True, x_answers = []\<rparr>"

definition demo_result :: compaction_result where
  "demo_result = \<lparr>re_summary = demo_summary, re_firstKept = ''k'', re_tokensBefore = 10, re_usage = None,
     re_checkpointId = demo_id, re_checkpoint = demo_checkpoint\<rparr>"

lemma demo_ext_values [simp]:
  "xe_current demo_ext_env = (\<lambda>_. Inr ())" "xe_work demo_ext_env = (\<lambda>_. demo_claim_of)" "xe_preflight demo_ext_env = (\<lambda>_. Inr Ready)"
  "xe_branch demo_ext_env = (\<lambda>_. Inr [])" "xe_projection demo_ext_env = (\<lambda>_. Inr \<lparr>pj_last = Some ''k'', pj_messages = True\<rparr>)"
  "xe_tokens demo_ext_env = (\<lambda>_. Inr (Some (JS_int 10)))" "xe_transcript demo_ext_env = (\<lambda>_. Inr ''t'')"
  "xe_hasModel demo_ext_env = (\<lambda>_. True)" "xe_complete demo_ext_env = (\<lambda>_. Inr \<lparr>rp_content = [Some ''j''], rp_usage = None\<rparr>)"
  "xe_generation demo_ext_env = (\<lambda>_. Inr \<lparr>fg_device = ''1'', fg_inode = ''1'', fg_size = ''1'', fg_mtimeNs = ''1'', fg_ctimeNs = ''1''\<rparr>)"
  "xe_prepare demo_ext_env = (\<lambda>_. Inr True)" "xe_compact demo_ext_env = (\<lambda>_. Inr (Some demo_returned))"
  "xe_hooks demo_ext_env n = (if n = 15 then [Hook_before, Hook_compact demo_compact_event] else [])"
  "xe_sessionId demo_ext_env = (\<lambda>_. ''s'')" "xe_idle demo_ext_env = (\<lambda>_. True)" "xe_newId demo_ext_env = demo_id"
  "xe_binding demo_ext_env = demo_binding" "xe_maxBytes demo_ext_env = 65536" "xe_parse demo_ext_env = (\<lambda>_. Some (checkpoint_json demo_checkpoint))"
  "xe_sensitive demo_ext_env = (\<lambda>s. s = ''password: hunter22'')" "xe_sha demo_ext_env = (\<lambda>_. '''')"
  by (simp_all add: demo_ext_env_def)

lemma demo_summary_rendered:
  "renderCheckpointSummary (\<lambda>s. s = ''password: hunter22'') demo_checkpoint demo_id (checkpointIdentity demo_checkpoint) 65536 = Inr demo_summary"
proof -
  have "length demo_summary \<le> 1000" by code_simp
  moreover have "hd demo_summary \<noteq> CHR ''p''" by code_simp
  then have "demo_summary \<noteq> ''password: hunter22''" by (metis list.sel(1))
  ultimately show ?thesis
    by (simp add: renderCheckpointSummary_def demo_validated checked_def opaque_id_def list_all_iff is_hex_def is_digit_def guard_def containsSensitive_def
        sensitive_scan_numeral flip: demo_summary_def)
qed

lemma demo_details_read: "details_of_json (Some demo_details) = Some (demo_id, demo_checkpoint)"
  using checkpoint_roundtrip_lemma [OF demo_checkpoint_schema]
  by (simp add: details_of_json_def demo_details_def closed_object_def only_keys_def jget_def version_1_def)

lemma demo_request_fits: "length (checkpoint_request '''' '''' demo_checkpoint ''t'') \<le> 524288"
  using demo_checkpoint_length by (simp add: checkpoint_request_def)

lemma demo_reply: "checkpoint_reply demo_ext_env demo_checkpoint \<lparr>rp_content = [Some ''j''], rp_usage = None\<rparr> = Inr demo_checkpoint"
  using checkpoint_roundtrip_lemma [OF demo_checkpoint_schema]
  by (simp add: checkpoint_reply_def reply_text_def map_filter_def guard_def validate_untyped_def demo_validated blank1_def)

definition demo_run_start :: "ext_effect list" where
  "demo_run_start = [X_current, X_preflight, X_branch, X_projection, X_tokens, X_transcript, X_current,
     X_complete (checkpoint_request '''' '''' demo_checkpoint ''t''), X_current, X_preflight, X_branch, X_current, X_generation,
     X_prepare demo_claim_of (prepared_record demo_id demo_checkpoint demo_claim_of (fingerprint_digest (\<lambda>_. '''') demo_event) demo_binding
       \<lparr>fg_device = ''1'', fg_inode = ''1'', fg_size = ''1'', fg_mtimeNs = ''1'', fg_ctimeNs = ''1''\<rparr>), X_current]"

lemma demo_prepare_checkpoint: "prepare_checkpoint demo_ext_env demo_checkpoint '''' '''' [] = (Inr demo_result, demo_run_start)"
  using demo_request_fits demo_reply demo_summary_rendered demo_event_schema demo_checkpoint_schema
  by (simp add: prepare_checkpoint_def request_checkpoint_def unchanged_def ext_current_def call_def observe_def seq_def lift_def
      require_def guard_def ret_def kept_tokens_def checked_def assertSupportedEntries_def max_safe_def fingerprintEvent_def
      demo_claim_of_def demo_run_start_def demo_result_def)

lemma demo_prepare_hooks:
  "with_hooks demo_ext_env (prepare_checkpoint demo_ext_env demo_checkpoint '''' '''') demo_ext =
     (Inr demo_result, demo_ext\<lparr>x_log := demo_run_start\<rparr>)"
proof -
  have "concat (map (xe_hooks demo_ext_env) [0 ..< length demo_run_start]) = []"
    by (simp add: demo_run_start_def)
  then show ?thesis
    by (simp add: with_hooks_def demo_ext_def demo_prepare_checkpoint deliver_positions del: concat_eq_Nil_conv demo_ext_values)
qed

lemma demo_entry_accepted:
  "compacted_entry (Some \<lparr>ar_checkpointId = demo_id, ar_replacement = demo_result, ar_event = Some demo_compact_event, ar_failed = False\<rparr>)
     demo_result (Some demo_returned) = Inr ''e''"
  using demo_details_read
  by (simp add: compacted_entry_def demo_compact_event_def demo_entry_def demo_result_def returned_ok_def demo_returned_def jget_def)

definition demo_ext_end :: ext where
  "demo_ext_end = demo_ext\<lparr>x_log := demo_run_start @ [X_compact (compaction_marker demo_id), X_current], x_answers := [Some demo_result]\<rparr>"

lemma demo_armed_end:
  "armed_end demo_ext_env demo_result (demo_ext\<lparr>x_log := demo_run_start\<rparr>) =
     (Inr ''e'', demo_ext_end\<lparr>x_armed := Some \<lparr>ar_checkpointId = demo_id, ar_replacement = demo_result,
        ar_event = Some demo_compact_event, ar_failed = False\<rparr>\<rparr>)"
proof -
  have len: "length demo_run_start = 15" by (simp add: demo_run_start_def)
  have id: "re_checkpointId demo_result = demo_id" by (simp add: demo_result_def)
  show ?thesis
    using demo_entry_accepted
    by (simp add: armed_end_def seq_def with_hooks_def call_def ext_current_def with_state_def lift_def arm_def deliver_at_def len id
        beforeCompact_def demo_ext_end_def demo_ext_def)
qed

lemma demo_checkpoint_run:
  "run_checkpoint demo_ext_env ''s'' demo_checkpoint '''' '''' demo_ext = (Inr (''e'', demo_result), demo_ext_end)"
proof -
  have start: "x_runtime demo_ext" "x_armed demo_ext = None" by (simp_all add: demo_ext_def)
  have "compact_armed demo_ext_env demo_result (demo_ext\<lparr>x_log := demo_run_start\<rparr>) = (Inr ''e'', demo_ext_end)"
    by (simp add: compact_armed_eq demo_armed_end) (simp add: demo_ext_end_def demo_ext_def)
  then show ?thesis
    by (simp add: run_checkpoint_def with_state_def catch_def seq_def ret_def start demo_prepare_hooks)
qed

lemma demo_ext_log: "x_log demo_ext = []" "length (x_log demo_ext_end) = 17" "x_log demo_ext_end ! 15 = X_compact (compaction_marker demo_id)"
  by (simp_all add: demo_ext_def demo_ext_end_def demo_run_start_def)

theorem compaction_is_prepared_witness:
  "ext_guard demo_ext_env demo_checkpoint (take 15 (x_log demo_ext_end)) (X_compact (compaction_marker demo_id))"
  using compaction_is_prepared [OF demo_checkpoint_run demo_ext_log(1), of 15] by (simp add: demo_ext_log)

theorem hooks_answer_exactly_witness: "x_armed demo_ext_end = None"
  using hooks_answer_exactly [OF demo_checkpoint_run demo_ext_log(1) refl] by (simp add: demo_ext_def)

theorem successful_compaction_witness: "is_prepared demo_ext_env demo_checkpoint (x_log demo_ext_end) demo_result"
  using successful_compaction [OF demo_checkpoint_run demo_ext_log(1)] by blast

end
