(* ===== verification/Orphan.thy ===== *)
theory Orphan
  imports Checkpoint
begin

text \<open>
  The proof that a prepared compaction was abandoned
  (\<open>src/session-controller/src/compaction/orphan-recovery.ts\<close>): the stable generation of a session
  file, and the strict reading of the whole file that finds no trace of the event and nothing written
  after the preparation. Everything but \<open>ControllerError('restore_failed')\<close> is ruled out at the end,
  so an answer is a generation or \<open>None\<close>. What the file system answers is data.
\<close>

section \<open>Times\<close>

text \<open>The fraction's digits and the sign of the zone of a date-time that matches the pattern.\<close>

definition time_fraction :: "string \<Rightarrow> string" where
  "time_fraction s = (if take 1 (drop 19 s) = ''.'' then takeWhile is_digit (drop 20 s) else [])"

definition zone_minutes :: "string \<Rightarrow> time_groups \<Rightarrow> int" where
  "zone_minutes s t =
     (case tg_zone t of
        None \<Rightarrow> 0
      | Some (h, m) \<Rightarrow> (if take 1 (drop (length s - 6) s) = ''-'' then -1 else 1) * int (h * 60 + m))"

text \<open>The days before the first of January of year \<open>y\<close>, counted from year 0.\<close>

definition days_before_year :: "nat \<Rightarrow> nat" where
  "days_before_year y = 365 * y + (y + 3) div 4 + (y + 399) div 400 - (y + 99) div 100"

definition epoch_days :: "time_groups \<Rightarrow> int" where
  "epoch_days t = int (days_before_year (tg_year t) + sum_list (take (tg_month t - 1) (month_days (tg_year t))) + (tg_day t - 1))
     - int (days_before_year 1970)"

definition epoch_seconds :: "string \<Rightarrow> time_groups \<Rightarrow> int" where
  "epoch_seconds s t =
     ((epoch_days t * 24 + int (tg_hour t)) * 60 + int (tg_minute t) - zone_minutes s t) * 60 + int (tg_second t)"

text \<open>\<open>n\<close> digits of the fraction, padded with zeros.\<close>

definition fraction_value :: "nat \<Rightarrow> string \<Rightarrow> nat" where
  "fraction_value n s = dval (take n (time_fraction s @ replicate n CHR ''0''))"

text \<open>Legal element values; the end of a day may be written as hour 24.\<close>

definition date_legal :: "string \<Rightarrow> time_groups \<Rightarrow> bool" where
  "date_legal s t \<longleftrightarrow> date_in_range t \<or>
     date_in_range (t\<lparr>tg_hour := 0\<rparr>) \<and> tg_hour t = 24 \<and> tg_minute t = 0 \<and> tg_second t = 0 \<and> dval (time_fraction s) = 0"

text \<open>\<open>Date.parse\<close> in milliseconds; \<open>None\<close> is \<open>NaN\<close>.\<close>

definition date_parse :: "string \<Rightarrow> int option" where
  "date_parse s = do {
     t \<leftarrow> match_timestamp s;
     if date_legal s t then Some (epoch_seconds s t * 1000 + int (fraction_value 3 s)) else None }"

text \<open>The fraction is cut off before the date is parsed, hence hour 24 is legal with any fraction.\<close>

definition timestampNs :: "string \<Rightarrow> int option" where
  "timestampNs s = do {
     t \<leftarrow> match_timestamp s;
     if date_legal (take 19 s) t then Some (epoch_seconds s t * 1000000000 + int (fraction_value 9 s)) else None }"

text \<open>A comparison with \<open>NaN\<close> is false.\<close>

definition not_before :: "string \<Rightarrow> string \<Rightarrow> bool" where
  "not_before a b \<longleftrightarrow> (case (date_parse a, date_parse b) of (Some x, Some y) \<Rightarrow> y \<le> x | _ \<Rightarrow> False)"

section \<open>The directories above the file\<close>

definition dirname :: "string \<Rightarrow> string" where
  "dirname p =
     (let body = dropWhile (\<lambda>c. c = CHR ''/'') (rev p);
          r = dropWhile (\<lambda>c. c \<noteq> CHR ''/'') body in
      if body = [] then (if p = [] then ''.'' else ''/'')
      else if r = [] then ''.''
      else if tl r = [] then ''/''
      else if tl r = ''/'' then ''//''
      else rev (tl r))"

definition resolved_text :: "string \<Rightarrow> string" where
  "resolved_text root = CHR ''/'' # intercalate ''/'' (resolve_path root)"

text \<open>\<open>lstat\<close> of a path: whether it is a directory and no symbolic link. The path is absolute, so its parent is the root or shorter.\<close>

function ancestors_ok :: "(string \<Rightarrow> bool) \<Rightarrow> string \<Rightarrow> string \<Rightarrow> bool" where
  "ancestors_ok directory root p =
     (if \<not> directory p then False
      else if p = root then True
      else if length (dirname p) < length p then ancestors_ok directory root (dirname p)
      else False)"
  by pat_completeness auto
termination
  by (relation "measure (\<lambda>(_, _, p). length p)") auto

declare ancestors_ok.simps [simp del]

definition assertAncestors :: "(string \<Rightarrow> bool) \<Rightarrow> string \<Rightarrow> session_binding \<Rightarrow> bool" where
  "assertAncestors directory root b \<longleftrightarrow> session_binding_schema b \<and> session_path_ok root b \<and>
     ancestors_ok directory (resolved_text root) (dirname (sb_sessionFile b))"

section \<open>Generations\<close>

record big_stat =
  bs_dev :: nat
  bs_ino :: nat
  bs_size :: nat
  bs_mtimeNs :: int
  bs_ctimeNs :: int
  bs_isFile :: bool
  bs_symlink :: bool

definition generation_of :: "big_stat \<Rightarrow> file_generation" where
  "generation_of st = \<lparr>fg_device = show_nat (bs_dev st), fg_inode = show_nat (bs_ino st), fg_size = show_nat (bs_size st),
     fg_mtimeNs = show_int (bs_mtimeNs st), fg_ctimeNs = show_int (bs_ctimeNs st)\<rparr>"

definition generation :: "big_stat \<Rightarrow> file_generation option" where
  "generation st = (let g = generation_of st in if file_generation_schema g then Some g else None)"

text \<open>What the file system answers in one attempt; \<open>None\<close> is a call that throws, \<open>os_before\<close> includes the opening and \<open>os_named\<close> the closing.\<close>

record orphan_snapshot =
  os_before :: "big_stat option"
  os_reads :: "string option list"
  os_after :: "big_stat option"
  os_named :: "big_stat option"

datatype 'a attempt = Again | Given_up | Done 'a

definition capture_attempt :: "orphan_snapshot \<Rightarrow> file_generation attempt" where
  "capture_attempt sn =
     (case (os_before sn, os_after sn, os_named sn) of
        (Some before, Some after, Some named) \<Rightarrow>
          if \<not> bs_isFile before \<or> bs_size before = 0 \<or> bs_symlink named then Given_up
          else (case generation before of
            None \<Rightarrow> Given_up
          | Some g \<Rightarrow>
             (case generation after of
                None \<Rightarrow> Given_up
              | Some g1 \<Rightarrow> if g \<noteq> g1 then Again
                  else (case generation named of
                    None \<Rightarrow> Given_up
                  | Some g2 \<Rightarrow> if g = g2 then Done g else Again)))
      | _ \<Rightarrow> Given_up)"

fun attempts :: "('b \<Rightarrow> 'a attempt) \<Rightarrow> nat \<Rightarrow> (nat \<Rightarrow> 'b) \<Rightarrow> 'a option" where
  "attempts try_once 0 sns = None"
| "attempts try_once (Suc n) sns =
     (case try_once (sns 0) of
        Again \<Rightarrow> attempts try_once n (\<lambda>i. sns (Suc i))
      | Given_up \<Rightarrow> None
      | Done x \<Rightarrow> Some x)"

definition captureStableSessionFileGeneration :: "(string \<Rightarrow> bool) \<Rightarrow> string \<Rightarrow> session_binding \<Rightarrow> (nat \<Rightarrow> orphan_snapshot) \<Rightarrow> file_generation option" where
  "captureStableSessionFileGeneration directory root b sns =
     (if assertAncestors directory root b then attempts capture_attempt 8 sns else None)"

section \<open>One line\<close>

record orphan_scan =
  oc_header :: bool
  oc_ids :: "string list"
  oc_bindings :: nat
  oc_unsafe :: bool

definition orphan_start :: orphan_scan where
  "orphan_start = \<lparr>oc_header = False, oc_ids = [], oc_bindings = 0, oc_unsafe = False\<rparr>"

record orphan_query =
  oq_binding :: session_binding
  oq_eventId :: string
  oq_prepared :: checkpoint_record
  oq_maxBytes :: nat
  oq_sensitive :: "string \<Rightarrow> bool"
  oq_parse :: "string \<Rightarrow> json option"

definition controllerDetails :: "json option \<Rightarrow> (string \<times> json) list option" where
  "controllerDetails v =
     (case v of
        Some (JObj kv) \<Rightarrow> if jget kv ''checkpointId'' \<noteq> None \<or> jget kv ''checkpoint'' \<noteq> None \<or> jget kv ''version'' = Some (JInt 1)
          then Some kv else None
      | _ \<Rightarrow> None)"

definition appended_after :: "orphan_query \<Rightarrow> (string \<times> json) list \<Rightarrow> bool" where
  "appended_after Q e =
     (case as_str (jget e ''timestamp'') of None \<Rightarrow> False | Some s \<Rightarrow> not_before s (ck_createdAt (cr_checkpoint (oq_prepared Q))))"

text \<open>A compaction entry with the controller's details: \<open>Some True\<close> claims the prepared checkpoint, \<open>Some False\<close> an older one.\<close>

definition claim_of :: "orphan_query \<Rightarrow> (string \<times> json) list \<Rightarrow> string \<Rightarrow> checkpoint_v1 \<Rightarrow> string \<Rightarrow> bool option" where
  "claim_of Q e i c summary =
     (if jget e ''summary'' \<noteq> Some (JStr summary) then None
      else if i = cr_id (oq_prepared Q) then (if c = cr_checkpoint (oq_prepared Q) then Some True else None)
      else if appended_after Q e then None else Some False)"

definition compaction_claim :: "orphan_query \<Rightarrow> (string \<times> json) list \<Rightarrow> (string \<times> json) list \<Rightarrow> bool option" where
  "compaction_claim Q e details = do {
     i \<leftarrow> as_str (jget details ''checkpointId'');
     c \<leftarrow> checkpoint_of_json (jget details ''checkpoint'');
     if \<not> opaque_id i \<or> jget details ''version'' \<noteq> Some (JInt 1) \<or> jget e ''fromHook'' \<noteq> Some (JBool True) then None
     else do {
       summary \<leftarrow> (case renderCheckpointSummary (oq_sensitive Q) c i (checkpointIdentity c) (oq_maxBytes Q) of
         Inl _ \<Rightarrow> None | Inr summary \<Rightarrow> Some summary);
       claim_of Q e i c summary } }"

text \<open>Whether an entry of the type is well formed and, if so, whether it claims the checkpoint.\<close>

definition entry_claim :: "orphan_query \<Rightarrow> string list \<Rightarrow> string \<Rightarrow> (string \<times> json) list \<Rightarrow> bool option" where
  "entry_claim Q ids t e =
     (if \<not> shape_ok ids t e then None
      else if t \<noteq> ''compaction'' then Some False
      else if \<not> is_finite (jget e ''tokensBefore'') then None
      else case controllerDetails (jget e ''details'') of
          Some details \<Rightarrow> compaction_claim Q e details
        | None \<Rightarrow> if appended_after Q e then None else Some False)"

text \<open>A custom entry: the new count of bindings and whether it is about the event.\<close>

definition take_custom :: "orphan_query \<Rightarrow> string \<Rightarrow> (string \<times> json) list \<Rightarrow> orphan_scan \<Rightarrow> orphan_scan option" where
  "take_custom Q ct e s =
     (if ct = binding_type then
        (if binding_of_json (jget e ''data'') = Some (oq_binding Q) then Some (s\<lparr>oc_bindings := Suc (oc_bindings s)\<rparr>) else None)
      else if ct = completion_type then do {
        m \<leftarrow> marker_of_json (jget e ''data'');
        if cm_chat m \<noteq> sb_chat (oq_binding Q) then None
        else Some (s\<lparr>oc_unsafe := oc_unsafe s \<or> cm_eventId m = oq_eventId Q\<rparr>) }
      else if ct = mutation_type then do {
        r \<leftarrow> journal_record_of_json (jget e ''data'');
        if jr_session r \<noteq> oq_binding Q \<or> mu_chat (jr_state r) \<noteq> sb_chat (oq_binding Q) then None
        else Some (s\<lparr>oc_unsafe := oc_unsafe s \<or> mu_eventId (jr_state r) = oq_eventId Q\<rparr>) }
      else if take (length controller_prefix) ct = controller_prefix then None
      else Some s)"

definition orphan_entry :: "orphan_query \<Rightarrow> (string \<times> json) list \<Rightarrow> orphan_scan \<Rightarrow> orphan_scan option" where
  "orphan_entry Q e s =
     (if \<not> common_ok (oc_ids s) e then None
      else
        let t = the (as_str (jget e ''type'')); i = the (as_str (jget e ''id''));
            s = s\<lparr>oc_ids := i # oc_ids s\<rparr>
        in do {
          claimed \<leftarrow> entry_claim Q (oc_ids s) t e;
          let s = s\<lparr>oc_unsafe := oc_unsafe s \<or> claimed \<or> appended_after Q e\<rparr>;
          if t \<noteq> ''custom'' then Some s
          else case as_str (jget e ''customType'') of None \<Rightarrow> None | Some ct \<Rightarrow> take_custom Q ct e s })"

definition orphan_line :: "orphan_query \<Rightarrow> string \<Rightarrow> orphan_scan \<Rightarrow> orphan_scan option" where
  "orphan_line Q line s =
     (case oq_parse Q (if oc_header s then line else strip_bom line) of
        Some (JObj e) \<Rightarrow>
          if oc_header s then orphan_entry Q e s
          else if header_ok (oq_binding Q) e then Some (s\<lparr>oc_header := True\<rparr>) else None
      | _ \<Rightarrow> None)"

section \<open>The file\<close>

definition max_line_bytes :: nat where
  "max_line_bytes = 8 * 1024 * 1024"

text \<open>The loop of the strict reader, with a limit on a line that has not ended.\<close>

fun bounded_read_loop :: "(string \<Rightarrow> 's \<Rightarrow> 's option) \<Rightarrow> nat \<Rightarrow> string option list \<Rightarrow> string \<Rightarrow> 's \<Rightarrow> (string \<times> 's) option" where
  "bounded_read_loop take_line 0 reads pending s = Some (pending, s)"
| "bounded_read_loop take_line (Suc n) [] pending s = None"
| "bounded_read_loop take_line (Suc n) (None # reads) pending s = None"
| "bounded_read_loop take_line (Suc n) (Some chunk # reads) pending s =
     (if chunk = [] \<or> max_line_bytes < length (pending @ chunk) \<and> CHR 0x0A \<notin> set (pending @ chunk) then None
      else case feed take_line (pending @ chunk) s of
        None \<Rightarrow> None
      | Some (pending, s) \<Rightarrow> bounded_read_loop take_line (Suc n - length chunk) reads pending s)"

definition orphan_file :: "orphan_query \<Rightarrow> nat \<Rightarrow> string option list \<Rightarrow> bool" where
  "orphan_file Q len reads =
     (case bounded_read_loop (orphan_line Q) len reads [] orphan_start of
        None \<Rightarrow> False
      | Some (pending, s) \<Rightarrow>
          utf8_ok (bytes_read len reads) \<and> pending = [] \<and> oc_header s \<and> oc_bindings s = 1 \<and> \<not> oc_unsafe s)"

definition unchanged_file :: "big_stat \<Rightarrow> big_stat \<Rightarrow> big_stat \<Rightarrow> bool" where
  "unchanged_file before after named \<longleftrightarrow> bs_size before = bs_size after \<and> bs_mtimeNs before = bs_mtimeNs after \<and>
     bs_ctimeNs before = bs_ctimeNs after \<and> bs_ino after = bs_ino named \<and> bs_dev after = bs_dev named \<and>
     bs_size after = bs_size named \<and> bs_mtimeNs after = bs_mtimeNs named \<and> bs_ctimeNs after = bs_ctimeNs named"

text \<open>The generation must be the one that the preparation has recorded, or else be older than the checkpoint.\<close>

definition recorded_generation :: "checkpoint_record \<Rightarrow> big_stat \<Rightarrow> file_generation \<Rightarrow> bool" where
  "recorded_generation r after g \<longleftrightarrow>
     (case cr_recovery r of
        Some rb \<Rightarrow> file_generation_schema (rb_generation rb) \<and> g = rb_generation rb
      | None \<Rightarrow> (case timestampNs (ck_createdAt (cr_checkpoint r)) of
            None \<Rightarrow> False
          | Some created \<Rightarrow> bs_mtimeNs after < created \<and> bs_ctimeNs after < created))"

definition orphan_attempt :: "orphan_query \<Rightarrow> orphan_snapshot \<Rightarrow> file_generation attempt" where
  "orphan_attempt Q sn =
     (case os_before sn of
        None \<Rightarrow> Given_up
      | Some before \<Rightarrow>
          if \<not> bs_isFile before \<or> bs_size before = 0 then Given_up
          else case (os_after sn, os_named sn) of
            (Some after, Some named) \<Rightarrow>
              if \<not> unchanged_file before after named then Again
              else if \<not> orphan_file Q (bs_size before) (os_reads sn) \<or> bs_symlink named then Given_up
              else (case generation after of
                None \<Rightarrow> Given_up
              | Some g \<Rightarrow> if recorded_generation (oq_prepared Q) after g then Done g else Given_up)
          | _ \<Rightarrow> Given_up)"

definition provePreparedCompactionOrphan :: "(string \<Rightarrow> bool) \<Rightarrow> string \<Rightarrow> orphan_query \<Rightarrow> (nat \<Rightarrow> orphan_snapshot) \<Rightarrow> file_generation option" where
  "provePreparedCompactionOrphan directory root Q sns =
     (if assertAncestors directory root (oq_binding Q) \<and> cr_phase (oq_prepared Q) = Prepared \<and>
        ck_chat (cr_checkpoint (oq_prepared Q)) = sb_chat (oq_binding Q)
      then attempts (orphan_attempt Q) 8 sns else None)"

end
