(* ===== verification/Orphan_Spec.thy ===== *)
theory Orphan_Spec
  imports Orphan Checkpoint_Spec
begin

text \<open>
  The properties of the orphan proof: what a proof says of every line of the file, of the directories
  above it and of its generation.
\<close>

section \<open>The reading of the file\<close>

lemma bounded_read_loop: "bounded_read_loop f n reads p s = Some r \<Longrightarrow> read_loop f n reads p s = Some r"
  by (induction f n reads p s rule: bounded_read_loop.induct) (auto split: if_splits option.splits)

text \<open>A reading that succeeds has fed the bytes that it read, whatever comes after them.\<close>

lemma read_loop_bytes:
  "read_loop f n reads p s = Some r \<Longrightarrow> feed f p s = Some (p, s) \<Longrightarrow> feed f (p @ bytes_read n reads) s = Some r"
proof (induction f n reads p s rule: read_loop.induct)
  case (4 f n chunk reads p s)
  then obtain p' s' where c: "chunk \<noteq> []" "feed f (p @ chunk) s = Some (p', s')"
    "read_loop f (Suc n - length chunk) reads p' s' = Some r"
    by (auto split: if_splits option.splits)
  have idle: "feed f p' s' = Some (p', s')" using feed_append [of f "p @ chunk" "[]" s] c(2) by simp
  from "4.IH" [OF c(1) c(2) refl c(3) idle] show ?case
    using feed_append [of f "p @ chunk" "bytes_read (Suc n - length chunk) reads" s] c(2) by simp
qed auto

fun take_lines :: "(string \<Rightarrow> 's \<Rightarrow> 's option) \<Rightarrow> string list \<Rightarrow> 's \<Rightarrow> 's option" where
  "take_lines f [] s = Some s"
| "take_lines f (l # ls) s = Option.bind (f l s) (take_lines f ls)"

definition join_lines :: "string list \<Rightarrow> string" where
  "join_lines ls = concat (map (\<lambda>l. l @ [CHR 0x0A]) ls)"

lemma feed_lines:
  "feed f p s = Some ([], s') \<Longrightarrow> \<exists>ls. p = join_lines ls \<and> (\<forall>l \<in> set ls. CHR 0x0A \<notin> set l) \<and> take_lines f ls s = Some s'"
proof (induction p arbitrary: s rule: length_induct)
  case (1 p)
  show ?case
  proof (cases "CHR 0x0A \<in> set p")
    case False
    then have "p = []" "s' = s" using 1(2) by (simp_all add: feed.simps)
    then show ?thesis by (intro exI [of _ "[]"]) (simp add: join_lines_def)
  next
    case True
    let ?l = "takeWhile (\<lambda>c. c \<noteq> CHR 0x0A) p" let ?r = "tl (dropWhile (\<lambda>c. c \<noteq> CHR 0x0A) p)"
    obtain s1 where s1: "f ?l s = Some s1" "feed f ?r s1 = Some ([], s')"
      using 1(2) True by (subst (asm) feed.simps) (auto split: option.splits)
    obtain ls where ls: "?r = join_lines ls" "\<forall>l \<in> set ls. CHR 0x0A \<notin> set l" "take_lines f ls s1 = Some s'"
      using 1(1) after_newline_shorter [OF True] s1(2) by blast
    have "dropWhile (\<lambda>c. c \<noteq> CHR 0x0A) p = CHR 0x0A # ?r"
      using True hd_dropWhile [of "\<lambda>c. c \<noteq> CHR 0x0A" p] by (cases "dropWhile (\<lambda>c. c \<noteq> CHR 0x0A) p") auto
    then have "p = ?l @ CHR 0x0A # ?r" by (metis takeWhile_dropWhile_id)
    moreover have "CHR 0x0A \<notin> set ?l" using set_takeWhileD by fastforce
    ultimately show ?thesis
      using ls s1(1) by (intro exI [of _ "?l # ls"]) (auto simp: join_lines_def)
  qed
qed

section \<open>What an accepted line says\<close>

definition entry_of :: "(string \<times> json) list \<Rightarrow> string \<Rightarrow> bool" where
  "entry_of e t \<longleftrightarrow> jget e ''type'' = Some (JStr t)"

definition harmless :: "orphan_query \<Rightarrow> (string \<times> json) list \<Rightarrow> bool" where
  "harmless Q e \<longleftrightarrow> validTime (jget e ''timestamp'') \<and> \<not> appended_after Q e \<and>
     (entry_of e ''compaction'' \<longrightarrow> (\<forall>kv. jget e ''details'' = Some (JObj kv) \<longrightarrow>
       jget kv ''checkpointId'' \<noteq> Some (JStr (cr_id (oq_prepared Q))))) \<and>
     (entry_of e ''custom'' \<and> jget e ''customType'' = Some (JStr completion_type) \<longrightarrow>
       (\<exists>m. marker_of_json (jget e ''data'') = Some m \<and> cm_eventId m \<noteq> oq_eventId Q)) \<and>
     (entry_of e ''custom'' \<and> jget e ''customType'' = Some (JStr mutation_type) \<longrightarrow>
       (\<exists>r. journal_record_of_json (jget e ''data'') = Some r \<and> mu_eventId (jr_state r) \<noteq> oq_eventId Q))"

lemma claim_of_other: "claim_of Q e i c summary = Some False \<Longrightarrow> i \<noteq> cr_id (oq_prepared Q)"
  by (auto simp: claim_of_def split: if_splits)

lemma case_Inr: "(case r of Inl _ \<Rightarrow> None | Inr x \<Rightarrow> Some x) = Some y \<longleftrightarrow> r = Inr y"
  by (cases r) auto

lemma compaction_claim_other:
  "compaction_claim Q e kv = Some False \<Longrightarrow> jget kv ''checkpointId'' \<noteq> Some (JStr (cr_id (oq_prepared Q)))"
  by (auto simp: compaction_claim_def bind_eq_Some_conv case_Inr dest: claim_of_other split: if_splits)

lemma entry_claim_other:
  assumes "entry_claim Q ids ''compaction'' e = Some False" "jget e ''details'' = Some (JObj kv)"
  shows "jget kv ''checkpointId'' \<noteq> Some (JStr (cr_id (oq_prepared Q)))"
proof (cases "controllerDetails (jget e ''details'')")
  case None
  then show ?thesis using assms(2) by (auto simp: controllerDetails_def split: if_splits)
next
  case (Some d)
  then have "d = kv" using assms(2) by (auto simp: controllerDetails_def split: if_splits)
  then show ?thesis using assms(1) Some by (intro compaction_claim_other [of Q e]) (auto simp: entry_claim_def split: if_splits)
qed

lemma types_differ: "binding_type \<noteq> completion_type" "binding_type \<noteq> mutation_type" "completion_type \<noteq> mutation_type"
  by (simp_all add: binding_type_def completion_type_def mutation_type_def)

lemma take_custom_harmless:
  assumes "take_custom Q ct e s = Some s'" "\<not> oc_unsafe s'"
  shows "\<not> oc_unsafe s \<and> oc_header s' = oc_header s \<and>
    (ct = completion_type \<longrightarrow> (\<exists>m. marker_of_json (jget e ''data'') = Some m \<and> cm_eventId m \<noteq> oq_eventId Q)) \<and>
    (ct = mutation_type \<longrightarrow> (\<exists>r. journal_record_of_json (jget e ''data'') = Some r \<and> mu_eventId (jr_state r) \<noteq> oq_eventId Q))"
  using assms types_differ by (auto simp: take_custom_def bind_eq_Some_conv split: if_splits)

lemma as_str_Some: "as_str v = Some t \<longleftrightarrow> v = Some (JStr t)"
  by (cases v rule: as_str.cases) auto

lemma orphan_entry_harmless:
  assumes "orphan_entry Q e s = Some s'" "\<not> oc_unsafe s'"
  shows "harmless Q e \<and> \<not> oc_unsafe s \<and> oc_header s' = oc_header s"
proof -
  have ok: "common_ok (oc_ids s) e" using assms(1) by (auto simp: orphan_entry_def split: if_splits)
  then obtain t i where t: "jget e ''type'' = Some (JStr t)" "jget e ''id'' = Some (JStr i)"
    by (auto simp: common_ok_def as_str_Some split: option.splits)
  then have strings: "as_str (jget e ''type'') = Some t" "as_str (jget e ''id'') = Some i" by (simp_all add: as_str_Some)
  let ?s1 = "s\<lparr>oc_ids := i # oc_ids s\<rparr>"
  let ?rest = "\<lambda>claimed. let s2 = ?s1\<lparr>oc_unsafe := oc_unsafe ?s1 \<or> claimed \<or> appended_after Q e\<rparr> in
      if t \<noteq> ''custom'' then Some s2
      else case as_str (jget e ''customType'') of None \<Rightarrow> None | Some ct \<Rightarrow> take_custom Q ct e s2"
  have "Option.bind (entry_claim Q (oc_ids ?s1) t e) ?rest = Some s'"
    using assms(1) unfolding orphan_entry_def Let_def strings option.sel by (simp only: ok not_True_eq_False if_False)
  then obtain claimed where claimed: "entry_claim Q (oc_ids ?s1) t e = Some claimed" and rest: "?rest claimed = Some s'"
    unfolding bind_eq_Some_conv by blast
  have safe: "\<not> oc_unsafe s" "\<not> claimed" "\<not> appended_after Q e" "oc_header s' = oc_header s"
    using rest assms(2) take_custom_harmless [of Q _ e "?s1\<lparr>oc_unsafe := oc_unsafe s \<or> claimed \<or> appended_after Q e\<rparr>" s']
    by (auto simp: Let_def split: if_splits option.splits)
  have custom: "(jget e ''customType'' = Some (JStr completion_type) \<longrightarrow>
        (\<exists>m. marker_of_json (jget e ''data'') = Some m \<and> cm_eventId m \<noteq> oq_eventId Q)) \<and>
      (jget e ''customType'' = Some (JStr mutation_type) \<longrightarrow>
        (\<exists>r. journal_record_of_json (jget e ''data'') = Some r \<and> mu_eventId (jr_state r) \<noteq> oq_eventId Q))" if "t = ''custom''"
    using rest that assms(2) take_custom_harmless [of Q _ e "?s1\<lparr>oc_unsafe := oc_unsafe s \<or> claimed \<or> appended_after Q e\<rparr>" s']
    by (auto simp: Let_def as_str_Some split: option.splits)
  have compaction: "jget kv ''checkpointId'' \<noteq> Some (JStr (cr_id (oq_prepared Q)))"
    if "t = ''compaction''" "jget e ''details'' = Some (JObj kv)" for kv
    using entry_claim_other [of Q "oc_ids ?s1" e kv] claimed safe(2) that by simp
  have "validTime (jget e ''timestamp'')" using ok by (simp add: common_ok_def)
  then show ?thesis
    using safe custom compaction t(1) unfolding harmless_def entry_of_def by auto
qed

section \<open>The whole file\<close>

definition line_harmless :: "orphan_query \<Rightarrow> string \<Rightarrow> bool" where
  "line_harmless Q l \<longleftrightarrow> (\<exists>e. oq_parse Q l = Some (JObj e) \<and> harmless Q e)"

lemma orphan_line_cases:
  assumes "orphan_line Q l s = Some s'" "oc_header s"
  obtains e where "oq_parse Q l = Some (JObj e)" "orphan_entry Q e s = Some s'"
proof (cases "oq_parse Q l")
  case None
  then show ?thesis using assms by (simp add: orphan_line_def)
next
  case (Some v)
  then show ?thesis using assms that by (cases v) (simp_all add: orphan_line_def)
qed

lemma orphan_line_entry:
  assumes "orphan_line Q l s = Some s'" "oc_header s" "\<not> oc_unsafe s'"
  shows "line_harmless Q l \<and> oc_header s' \<and> \<not> oc_unsafe s"
  using assms(1,2)
proof (rule orphan_line_cases)
  fix e assume e: "oq_parse Q l = Some (JObj e)" "orphan_entry Q e s = Some s'"
  from orphan_entry_harmless [OF e(2) assms(3)] show ?thesis using e(1) assms(2) by (auto simp: line_harmless_def)
qed

lemma take_custom_header: "take_custom Q ct e s = Some s' \<Longrightarrow> oc_header s' = oc_header s"
  by (auto simp: take_custom_def bind_eq_Some_conv split: if_splits)

lemma orphan_entry_header: "orphan_entry Q e s = Some s' \<Longrightarrow> oc_header s' = oc_header s"
  by (auto simp: orphan_entry_def Let_def bind_eq_Some_conv dest!: take_custom_header split: if_splits option.splits)

lemma orphan_line_header:
  assumes "orphan_line Q l s = Some s'"
  shows "oc_header s'"
proof (cases "oc_header s")
  case True
  from assms True show ?thesis by (rule orphan_line_cases) (use True orphan_entry_header in blast)
next
  case False
  then show ?thesis using assms by (auto simp: orphan_line_def split: option.splits json.splits if_splits)
qed

lemma orphan_lines:
  "take_lines (orphan_line Q) ls s = Some s' \<Longrightarrow> oc_header s \<Longrightarrow> \<not> oc_unsafe s' \<Longrightarrow>
   (\<forall>l \<in> set ls. line_harmless Q l) \<and> \<not> oc_unsafe s"
proof (induction ls arbitrary: s)
  case (Cons l ls)
  then obtain s1 where s1: "orphan_line Q l s = Some s1" "take_lines (orphan_line Q) ls s1 = Some s'"
    by (auto simp: bind_eq_Some_conv)
  have "oc_header s1" by (rule orphan_line_header [OF s1(1)])
  then have rest: "(\<forall>l \<in> set ls. line_harmless Q l) \<and> \<not> oc_unsafe s1" using Cons.IH [OF s1(2)] Cons.prems(3) by blast
  then show ?case using orphan_line_entry [OF s1(1) Cons.prems(2)] by auto
qed simp

lemma orphan_file_lines:
  assumes "orphan_file Q n reads"
  shows "\<exists>ls. bytes_read n reads = join_lines ls \<and> utf8_ok (join_lines ls) \<and> (\<forall>l \<in> set (tl ls). line_harmless Q l)"
proof -
  obtain s where s: "bounded_read_loop (orphan_line Q) n reads [] orphan_start = Some ([], s)"
    and ok: "utf8_ok (bytes_read n reads)" "oc_header s" "\<not> oc_unsafe s"
    using assms by (auto simp: orphan_file_def split: option.splits)
  have "feed (orphan_line Q) (bytes_read n reads) orphan_start = Some ([], s)"
    using read_loop_bytes [OF bounded_read_loop [OF s] feed_no_newline] by simp
  then obtain ls where ls: "bytes_read n reads = join_lines ls" "take_lines (orphan_line Q) ls orphan_start = Some s"
    using feed_lines [of "orphan_line Q" "bytes_read n reads" orphan_start s] by auto
  have "\<forall>l \<in> set (tl ls). line_harmless Q l"
  proof (cases ls)
    case (Cons l r)
    then obtain s1 where s1: "orphan_line Q l orphan_start = Some s1" "take_lines (orphan_line Q) r s1 = Some s"
      using ls(2) by (auto simp: bind_eq_Some_conv)
    have "oc_header s1" by (rule orphan_line_header [OF s1(1)])
    then show ?thesis using orphan_lines [OF s1(2) _ ok(3)] Cons by simp
  qed simp
  then show ?thesis using ls(1) ok(1) by metis
qed

section \<open>The directories and the attempts\<close>

lemma ancestors_ok_all:
  "ancestors_ok directory root p \<Longrightarrow> \<exists>k. (dirname ^^ k) p = root \<and> (\<forall>j \<le> k. directory ((dirname ^^ j) p))"
proof (induction directory root p rule: ancestors_ok.induct)
  case (1 directory root p)
  have d: "directory p" using 1(2) by (subst (asm) ancestors_ok.simps) (auto split: if_splits)
  show ?case
  proof (cases "p = root")
    case True
    then show ?thesis using d by (intro exI [of _ 0]) simp
  next
    case False
    then have "length (dirname p) < length p" "ancestors_ok directory root (dirname p)"
      using 1(2) d by (subst (asm) ancestors_ok.simps; auto split: if_splits)+
    then obtain k where k: "(dirname ^^ k) (dirname p) = root" "\<forall>j \<le> k. directory ((dirname ^^ j) (dirname p))"
      using 1(1) d False by blast
    have "\<forall>j \<le> Suc k. directory ((dirname ^^ j) p)"
    proof (intro allI impI)
      fix j assume "j \<le> Suc k"
      then show "directory ((dirname ^^ j) p)" using d k(2) by (cases j) (simp_all add: funpow_Suc_right del: funpow.simps)
    qed
    then show ?thesis using k(1) by (intro exI [of _ "Suc k"]) (simp add: funpow_Suc_right del: funpow.simps)
  qed
qed

lemma attempts_Some: "attempts f n sns = Some x \<Longrightarrow> \<exists>i < n. f (sns i) = Done x"
proof (induction n arbitrary: sns)
  case (Suc n)
  show ?case
  proof (cases "f (sns 0)")
    case Again
    then obtain i where "i < n" "f (sns (Suc i)) = Done x" using Suc by auto
    then show ?thesis by (intro exI [of _ "Suc i"]) simp
  qed (use Suc.prems in auto)
qed simp

definition reached_root :: "(string \<Rightarrow> bool) \<Rightarrow> string \<Rightarrow> session_binding \<Rightarrow> bool" where
  "reached_root directory root b \<longleftrightarrow> (\<exists>k. (dirname ^^ k) (dirname (sb_sessionFile b)) = resolved_text root \<and>
     (\<forall>j \<le> k. directory ((dirname ^^ j) (dirname (sb_sessionFile b)))))"

text \<open>C32: A prepared compaction counts as abandoned only if, in one stable reading of the session file below the root and behind no symbolic link, the whole file is valid UTF-8, made of complete lines, and no line after the header is dated at or after the checkpoint, claims its ID in a compaction, completes the event, or journals a tool call of it; and the file's generation is the one that was recorded at the preparation, or, for a record without one, older than the checkpoint.\<close>

theorem orphan_left_no_trace:
  assumes "provePreparedCompactionOrphan directory root Q sns = Some g"
  shows "cr_phase (oq_prepared Q) = Prepared \<and> reached_root directory root (oq_binding Q) \<and>
    (\<exists>before after named reads ls. (\<exists>i < 8. sns i = \<lparr>os_before = Some before, os_reads = reads, os_after = Some after, os_named = Some named\<rparr>) \<and>
      bs_isFile before \<and> unchanged_file before after named \<and> \<not> bs_symlink named \<and> g = generation_of after \<and>
      recorded_generation (oq_prepared Q) after g \<and> bytes_read (bs_size before) reads = join_lines ls \<and> utf8_ok (join_lines ls) \<and>
      (\<forall>l \<in> set (tl ls). line_harmless Q l))"
proof -
  have a: "assertAncestors directory root (oq_binding Q)" "cr_phase (oq_prepared Q) = Prepared" "attempts (orphan_attempt Q) 8 sns = Some g"
    using assms by (auto simp: provePreparedCompactionOrphan_def split: if_splits)
  obtain i where i: "i < 8" "orphan_attempt Q (sns i) = Done g" using attempts_Some [OF a(3)] by blast
  then obtain before after named where st: "os_before (sns i) = Some before" "os_after (sns i) = Some after" "os_named (sns i) = Some named"
    and ok: "bs_isFile before" "unchanged_file before after named" "\<not> bs_symlink named" "generation after = Some g"
      "orphan_file Q (bs_size before) (os_reads (sns i))" "recorded_generation (oq_prepared Q) after g"
    by (auto simp: orphan_attempt_def split: option.splits if_splits)
  have sn: "sns i = \<lparr>os_before = Some before, os_reads = os_reads (sns i), os_after = Some after, os_named = Some named\<rparr>"
    using st by (metis orphan_snapshot.surjective old.unit.exhaust)
  obtain ls where ls: "bytes_read (bs_size before) (os_reads (sns i)) = join_lines ls" "utf8_ok (join_lines ls)"
    "\<forall>l \<in> set (tl ls). line_harmless Q l"
    using orphan_file_lines [OF ok(5)] by blast
  have "g = generation_of after" using ok(4) by (auto simp: generation_def Let_def split: if_splits)
  moreover have "reached_root directory root (oq_binding Q)"
    using a(1) ancestors_ok_all unfolding assertAncestors_def reached_root_def by blast
  ultimately show ?thesis using a(2) i(1) sn ok ls by blast
qed

section \<open>Generations\<close>

lemma show_int_inj: "show_int a = show_int b \<Longrightarrow> a = b"
proof -
  have minus: "show_nat n \<noteq> CHR ''-'' # s" for n s
    using show_nat_hd [of n "[]"] by (auto simp: is_digit_def)
  show "show_int a = show_int b \<Longrightarrow> a = b"
    using minus by (auto simp: show_int_def split: if_splits dest!: show_nat_inj) (metis minus)+
qed

definition same_stat :: "big_stat \<Rightarrow> big_stat \<Rightarrow> bool" where
  "same_stat a b \<longleftrightarrow> bs_dev a = bs_dev b \<and> bs_ino a = bs_ino b \<and> bs_size a = bs_size b \<and>
     bs_mtimeNs a = bs_mtimeNs b \<and> bs_ctimeNs a = bs_ctimeNs b"

lemma generation_of_inj: "generation_of a = generation_of b \<longleftrightarrow> same_stat a b"
  by (auto simp: generation_of_def same_stat_def dest!: show_nat_inj show_int_inj)

lemma generation_Some: "generation a = Some g \<Longrightarrow> g = generation_of a"
  by (auto simp: generation_def Let_def split: if_splits)

lemma captured_stable:
  assumes "captureStableSessionFileGeneration directory root b sns = Some g"
  shows "\<exists>i < 8. \<exists>before after named. os_before (sns i) = Some before \<and> os_after (sns i) = Some after \<and> os_named (sns i) = Some named \<and>
    g = generation_of before \<and> same_stat before after \<and> same_stat before named \<and> \<not> bs_symlink named"
proof -
  have a: "attempts capture_attempt 8 sns = Some g"
    using assms by (simp add: captureStableSessionFileGeneration_def split: if_splits)
  obtain i where i: "i < 8" "capture_attempt (sns i) = Done g" using attempts_Some [OF a] by blast
  obtain before after named where st: "os_before (sns i) = Some before" "os_after (sns i) = Some after" "os_named (sns i) = Some named"
    using i(2) by (auto simp: capture_attempt_def split: option.splits)
  have g: "generation before = Some g" "generation after = Some g" "generation named = Some g" "\<not> bs_symlink named"
    using i(2) st by (auto simp: capture_attempt_def split: option.splits if_splits)
  then have "g = generation_of before" "same_stat before after" "same_stat before named"
    using generation_of_inj by (metis generation_Some)+
  then show ?thesis using i(1) st g(4) by blast
qed

text \<open>When the generation was captured at the preparation and recorded in the record, an abandoned compaction has exactly that file: device, inode, size and both times that the recovery sees are those that the preparation saw, so nothing was written in between. A file that changed in any of them is not an orphan.\<close>

theorem orphan_file_is_the_prepared_one:
  assumes "captureStableSessionFileGeneration directory root b sns = Some (rb_generation rb)"
    and "cr_recovery (oq_prepared Q) = Some rb" "provePreparedCompactionOrphan directory' root' Q sns' = Some g"
  shows "g = rb_generation rb \<and> (\<exists>i j before after. os_before (sns i) = Some before \<and> os_after (sns' j) = Some after \<and> same_stat before after)"
proof -
  obtain i before where before: "os_before (sns i) = Some before" "rb_generation rb = generation_of before"
    using captured_stable [OF assms(1)] by blast
  have a: "attempts (orphan_attempt Q) 8 sns' = Some g"
    using assms(3) by (auto simp: provePreparedCompactionOrphan_def split: if_splits)
  obtain j where "orphan_attempt Q (sns' j) = Done g" using attempts_Some [OF a] by blast
  then obtain after where after: "os_after (sns' j) = Some after" "generation after = Some g" "recorded_generation (oq_prepared Q) after g"
    by (auto simp: orphan_attempt_def split: option.splits if_splits)
  have g: "g = rb_generation rb" using after(3) assms(2) by (simp add: recorded_generation_def)
  then have "same_stat before after" using before(2) generation_Some [OF after(2)] generation_of_inj by metis
  then show ?thesis using g before(1) after(1) by blast
qed

section \<open>An abandoned compaction\<close>

definition demo_stat :: big_stat where
  "demo_stat = \<lparr>bs_dev = 1, bs_ino = 1, bs_size = 6, bs_mtimeNs = 1, bs_ctimeNs = 1, bs_isFile = True, bs_symlink = False\<rparr>"

definition demo_orphan_snapshot :: orphan_snapshot where
  "demo_orphan_snapshot = \<lparr>os_before = Some demo_stat, os_reads = [Some demo_text], os_after = Some demo_stat, os_named = Some demo_stat\<rparr>"

definition demo_recovery :: recovery_binding where
  "demo_recovery = \<lparr>rb_eventId = event_id demo_event, rb_fingerprint = demo_fp, rb_streamId = (3, 0), rb_session = demo_file,
     rb_generation = generation_of demo_stat\<rparr>"

definition demo_query :: orphan_query where
  "demo_query = \<lparr>oq_binding = demo_file, oq_eventId = event_id demo_event,
     oq_prepared = \<lparr>cr_id = replicate 32 CHR ''d'', cr_checkpoint = demo_checkpoint\<lparr>ck_createdAt := ''2026-01-02T00:00:00Z''\<rparr>,
       cr_recovery = Some demo_recovery, cr_phase = Prepared\<rparr>,
     oq_maxBytes = 65536, oq_sensitive = (\<lambda>_. False), oq_parse = demo_parse\<rparr>"

lemma demo_later: "\<not> not_before ''2026-01-01T00:00:00Z'' ''2026-01-02T00:00:00Z''"
  by (simp add: not_before_def date_parse_def date_legal_def date_in_range_def month_days_def time_text_defs epoch_seconds_def
      epoch_days_def days_before_year_def zone_minutes_def fraction_value_def time_fraction_def)

lemma demo_ancestors: "assertAncestors (\<lambda>_. True) ''/r'' demo_file"
  by code_simp

lemma demo_generation: "generation demo_stat = Some (generation_of demo_stat)" "file_generation_schema (generation_of demo_stat)"
  by code_simp+

lemma demo_query_values [simp]:
  "oq_binding demo_query = demo_file" "oq_eventId demo_query = event_id demo_event" "oq_parse demo_query = demo_parse"
  "cr_phase (oq_prepared demo_query) = Prepared" "cr_recovery (oq_prepared demo_query) = Some demo_recovery"
  "ck_chat (cr_checkpoint (oq_prepared demo_query)) = sb_chat demo_file"
  "ck_createdAt (cr_checkpoint (oq_prepared demo_query)) = ''2026-01-02T00:00:00Z''"
  by (simp_all add: demo_query_def demo_checkpoint_def demo_file_def)

lemma demo_orphan_header: "orphan_line demo_query ''h'' orphan_start = Some (orphan_start\<lparr>oc_header := True\<rparr>)"
  by (simp add: orphan_line_def orphan_start_def strip_bom_def demo_parse_def header_ok_def jget_def demo_file_def demo_time)

lemma demo_orphan_bind: "orphan_line demo_query ''b'' (orphan_start\<lparr>oc_header := True\<rparr>) =
    Some \<lparr>oc_header = True, oc_ids = [''1''], oc_bindings = 1, oc_unsafe = False\<rparr>"
proof -
  have "binding_of_json (Some (JObj [(''canonicalChatId'', JStr ''1@g.us''), (''sessionId'', JStr ''s''),
      (''sessionFile'', JStr ''/r/a/../b/s.jsonl'')])) = Some demo_file"
    by code_simp
  then show ?thesis
    by (simp add: orphan_line_def orphan_start_def demo_parse_def orphan_entry_def common_ok_def entry_types_def jget_def
        demo_time shape_ok_def entry_claim_def Let_def appended_after_def demo_later take_custom_def)
qed

lemma demo_orphan_complete: "orphan_line demo_query ''c'' \<lparr>oc_header = True, oc_ids = [''1''], oc_bindings = 1, oc_unsafe = False\<rparr> =
    Some \<lparr>oc_header = True, oc_ids = [''2'', ''1''], oc_bindings = 1, oc_unsafe = False\<rparr>"
proof -
  have "marker_of_json (Some (JObj [(''version'', JInt 1), (''eventId'', JStr (replicate 32 CHR ''a'')),
      (''eventFingerprint'', JStr (''sha256:v1:'' @ replicate 64 CHR ''b'')), (''canonicalChatId'', JStr ''1@g.us''),
      (''chatSequence'', JInt 1), (''completion'', JStr ''turn''), (''completedAt'', JStr ''2026-01-01T00:00:00Z''),
      (''confirmedSends'', JArr [])])) = Some demo_marker"
    using demo_marker_schema
    by (simp add: marker_of_json_def only_keys_def marker_keys_def marker_fields_def jget_def demo_marker_def)
  moreover have "cm_chat demo_marker = sb_chat demo_file" "cm_eventId demo_marker \<noteq> event_id demo_event"
    by (simp_all add: demo_marker_def demo_file_def demo_event_def numeral_eq_Suc)
  ultimately show ?thesis
    by (simp add: orphan_line_def demo_parse_def orphan_entry_def common_ok_def entry_types_def jget_def known_id_def
        demo_time shape_ok_def entry_claim_def Let_def appended_after_def demo_later take_custom_def binding_type_def completion_type_def)
qed

lemma demo_orphan_file: "orphan_file demo_query 6 [Some demo_text]"
proof -
  have "feed (orphan_line demo_query) demo_text orphan_start =
      Some ('''', \<lparr>oc_header = True, oc_ids = [''2'', ''1''], oc_bindings = 1, oc_unsafe = False\<rparr>)"
    by (simp add: demo_text_def feed.simps demo_orphan_header demo_orphan_bind demo_orphan_complete [unfolded One_nat_def])
  moreover have "utf8_ok demo_text" by (simp add: demo_text_def utf8_ok.simps in_range_def)
  moreover have "demo_text \<noteq> []" "CHR 0x0A \<in> set demo_text" "length demo_text = 6" by (simp_all add: demo_text_def)
  ultimately show ?thesis by (simp add: orphan_file_def numeral_eq_Suc)
qed

lemma demo_orphan: "provePreparedCompactionOrphan (\<lambda>_. True) ''/r'' demo_query (\<lambda>_. demo_orphan_snapshot) = Some (generation_of demo_stat)"
proof -
  have "recorded_generation (oq_prepared demo_query) demo_stat (generation_of demo_stat)"
    by (simp add: recorded_generation_def demo_recovery_def demo_generation)
  moreover have "bs_size demo_stat = 6" "bs_isFile demo_stat" "\<not> bs_symlink demo_stat" "unchanged_file demo_stat demo_stat demo_stat"
    by (simp_all add: demo_stat_def unchanged_file_def)
  ultimately have "orphan_attempt demo_query demo_orphan_snapshot = Done (generation_of demo_stat)"
    using demo_orphan_file by (simp add: orphan_attempt_def demo_orphan_snapshot_def demo_generation)
  then show ?thesis using demo_ancestors by (simp add: provePreparedCompactionOrphan_def numeral_eq_Suc)
qed

theorem orphan_left_no_trace_witness: "reached_root (\<lambda>_. True) ''/r'' demo_file"
  using orphan_left_no_trace [OF demo_orphan] by simp

lemma demo_capture: "captureStableSessionFileGeneration (\<lambda>_. True) ''/r'' demo_file (\<lambda>_. demo_orphan_snapshot) = Some (rb_generation demo_recovery)"
proof -
  have "bs_size demo_stat = 6" "bs_isFile demo_stat" "\<not> bs_symlink demo_stat" by (simp_all add: demo_stat_def)
  then show ?thesis
    using demo_ancestors
    by (simp add: captureStableSessionFileGeneration_def capture_attempt_def demo_orphan_snapshot_def demo_generation demo_recovery_def
        numeral_eq_Suc)
qed

theorem orphan_file_is_the_prepared_one_witness: "generation_of demo_stat = rb_generation demo_recovery"
  using orphan_file_is_the_prepared_one [OF demo_capture demo_query_values(5) demo_orphan] by blast

end
