(* ===== verification/Manifest.thy ===== *)
theory Manifest
  imports Orphan
begin

text \<open>
  The operator's recovery manifest (\<open>src/session-controller/src/compaction/recovery-manifest.ts\<close>): a
  private one-time file that is staged under a random name, published by a hard link, and consumed by
  reading and unlinking it. The state is the file system: names for inodes. A call may fail at any step,
  and other processes act before every call.
\<close>

section \<open>The file system\<close>

record inode =
  in_dev :: nat
  in_ino :: nat
  in_mtime :: nat
  in_ctime :: nat
  in_mode :: nat
  in_uid :: nat
  in_isFile :: bool
  in_symlink :: bool
  in_content :: string

text \<open>\<open>mf_open\<close>: whether the manifest's own file handle is open.\<close>

record mfs =
  mf_names :: "(string \<times> nat) list"
  mf_inodes :: "nat \<Rightarrow> inode"
  mf_step :: nat
  mf_open :: bool

record manifest_env =
  me_fault :: "nat \<Rightarrow> bool"
  me_others :: "nat \<Rightarrow> mfs \<Rightarrow> mfs"
  me_clock :: "nat \<Rightarrow> nat"
  me_newInode :: "nat \<Rightarrow> nat"
  me_random :: "nat \<Rightarrow> string"
  me_uid :: "nat option"
  me_dev :: nat
  me_creator :: nat
  me_parse :: "string \<Rightarrow> json option"

type_synonym 'a mexec = "(mfs, 'a) exec"

definition sys :: "manifest_env \<Rightarrow> 'a mexec \<Rightarrow> 'a mexec" where
  "sys E f s =
     (let n = mf_step s; s = me_others E n (s\<lparr>mf_step := Suc n\<rparr>)
      in if me_fault E n then (Inl Internal_failed, s) else f s)"

record mstat =
  ms_inode :: inode
  ms_nlink :: nat

definition stat_of :: "nat \<Rightarrow> mfs \<Rightarrow> mstat" where
  "stat_of i s = \<lparr>ms_inode = mf_inodes s i, ms_nlink = length (filter (\<lambda>p. snd p = i) (mf_names s))\<rparr>"

definition lstat :: "manifest_env \<Rightarrow> string \<Rightarrow> mstat option mexec" where
  "lstat E path = sys E (\<lambda>s. (Inr (map_option (\<lambda>i. stat_of i s) (map_of (mf_names s) path)), s))"

definition existing :: "mstat option \<Rightarrow> mstat mexec" where
  "existing st = (case st of None \<Rightarrow> throw Internal_failed | Some x \<Rightarrow> ret x)"

definition lstat_existing :: "manifest_env \<Rightarrow> string \<Rightarrow> mstat mexec" where
  "lstat_existing E path = seq (lstat E path) existing"

text \<open>\<open>O_NOFOLLOW\<close> refuses a symbolic link.\<close>

definition open_file :: "manifest_env \<Rightarrow> string \<Rightarrow> nat mexec" where
  "open_file E path = sys E (\<lambda>s.
     case map_of (mf_names s) path of
       None \<Rightarrow> (Inl Internal_failed, s)
     | Some i \<Rightarrow> if in_symlink (mf_inodes s i) then (Inl Internal_failed, s) else (Inr i, s\<lparr>mf_open := True\<rparr>))"

definition fstat :: "manifest_env \<Rightarrow> nat \<Rightarrow> mstat mexec" where
  "fstat E i = sys E (\<lambda>s. (Inr (stat_of i s), s))"

definition read_file :: "manifest_env \<Rightarrow> nat \<Rightarrow> string mexec" where
  "read_file E i = sys E (\<lambda>s. (Inr (in_content (mf_inodes s i)), s))"

definition touch :: "nat \<Rightarrow> nat \<Rightarrow> mfs \<Rightarrow> mfs" where
  "touch i now s = s\<lparr>mf_inodes := (mf_inodes s)(i := (mf_inodes s i)\<lparr>in_ctime := now\<rparr>)\<rparr>"

text \<open>\<open>link\<close> never replaces a name; \<open>unlink\<close> removes one.\<close>

definition link_file :: "manifest_env \<Rightarrow> string \<Rightarrow> string \<Rightarrow> unit mexec" where
  "link_file E from target = sys E (\<lambda>s.
     case (map_of (mf_names s) from, map_of (mf_names s) target) of
       (Some i, None) \<Rightarrow> (Inr (), (touch i (me_clock E (mf_step s)) s)\<lparr>mf_names := (target, i) # mf_names s\<rparr>)
     | _ \<Rightarrow> (Inl Internal_failed, s))"

definition unlink_file :: "manifest_env \<Rightarrow> string \<Rightarrow> unit mexec" where
  "unlink_file E path = sys E (\<lambda>s.
     case map_of (mf_names s) path of
       None \<Rightarrow> (Inl Internal_failed, s)
     | Some i \<Rightarrow> (Inr (), (touch i (me_clock E (mf_step s)) s)\<lparr>mf_names := filter (\<lambda>p. fst p \<noteq> path) (mf_names s)\<rparr>))"

text \<open>A directory handle is opened, synced and closed; a file is synced and closed.\<close>

definition plain :: "manifest_env \<Rightarrow> unit mexec" where
  "plain E = sys E (\<lambda>s. (Inr (), s))"

text \<open>\<open>O_EXCL\<close>: \<open>None\<close> is \<open>EEXIST\<close>.\<close>

definition create_file :: "manifest_env \<Rightarrow> string \<Rightarrow> nat option mexec" where
  "create_file E path = sys E (\<lambda>s.
     case map_of (mf_names s) path of
       Some _ \<Rightarrow> (Inr None, s)
     | None \<Rightarrow>
         let i = me_newInode E (mf_step s); now = me_clock E (mf_step s) in
         (Inr (Some i), s\<lparr>mf_names := (path, i) # mf_names s, mf_open := True,
            mf_inodes := (mf_inodes s)(i := \<lparr>in_dev = me_dev E, in_ino = i, in_mtime = now, in_ctime = now, in_mode = 384,
              in_uid = me_creator E, in_isFile = True, in_symlink = False, in_content = []\<rparr>)\<rparr>))"

definition write_file :: "manifest_env \<Rightarrow> nat \<Rightarrow> string \<Rightarrow> unit mexec" where
  "write_file E i content = sys E (\<lambda>s.
     let now = me_clock E (mf_step s) in
     (Inr (), s\<lparr>mf_inodes := (mf_inodes s)(i := (mf_inodes s i)\<lparr>in_content := content, in_mtime := now, in_ctime := now\<rparr>)\<rparr>))"

definition close_all :: "manifest_env \<Rightarrow> unit mexec" where
  "close_all E = finalize
     (with_state (\<lambda>s. if mf_open s then seq (modify (\<lambda>s. s\<lparr>mf_open := False\<rparr>)) (\<lambda>_. plain E) else ret ()))
     (plain E)"

section \<open>The manifest\<close>

text \<open>\<open>DIGEST\<close>: \<open>sha256:v1:\<close> and 64 hex digits.\<close>

definition digest_schema :: "string \<Rightarrow> bool" where
  "digest_schema = event_fingerprint_schema"

definition manifest_of_json :: "json option \<Rightarrow> string option" where
  "manifest_of_json v = do {
     kv \<leftarrow> closed_object [''version'', ''expectedStateDigest''] v;
     _ \<leftarrow> version_1 (jget kv ''version''); d \<leftarrow> as_str (jget kv ''expectedStateDigest'');
     if digest_schema d then Some d else None }"

definition manifest_json :: "string \<Rightarrow> json" where
  "manifest_json digest = JObj [(''version'', JInt 1), (''expectedStateDigest'', JStr digest)]"

definition manifest_path :: "string \<Rightarrow> bool" where
  "manifest_path p \<longleftrightarrow> is_absolute p \<and> list_all (\<lambda>c. 32 \<le> (of_char c :: nat)) p"

definition owned_by :: "manifest_env \<Rightarrow> nat \<Rightarrow> bool" where
  "owned_by E u \<longleftrightarrow> (case me_uid E of None \<Rightarrow> True | Some own \<Rightarrow> u = own)"

definition private_stat :: "manifest_env \<Rightarrow> mstat \<Rightarrow> bool" where
  "private_stat E st \<longleftrightarrow> in_isFile (ms_inode st) \<and> \<not> in_symlink (ms_inode st) \<and> ms_nlink st = 1 \<and>
     in_mode (ms_inode st) = 384 \<and> owned_by E (in_uid (ms_inode st)) \<and>
     1 \<le> length (in_content (ms_inode st)) \<and> length (in_content (ms_inode st)) \<le> 512"

definition check :: "bool \<Rightarrow> unit mexec" where
  "check b = (if b then ret () else throw Config_invalid)"

definition to_config_invalid :: "'a mexec \<Rightarrow> 'a mexec" where
  "to_config_invalid m = catch m (\<lambda>_. throw Config_invalid)"

definition same_named :: "mstat \<Rightarrow> mstat \<Rightarrow> bool" where
  "same_named a b \<longleftrightarrow> in_dev (ms_inode a) = in_dev (ms_inode b) \<and> in_ino (ms_inode a) = in_ino (ms_inode b) \<and>
     length (in_content (ms_inode a)) = length (in_content (ms_inode b)) \<and> in_mtime (ms_inode a) = in_mtime (ms_inode b) \<and>
     in_ctime (ms_inode a) = in_ctime (ms_inode b)"

section \<open>Consuming\<close>

definition consume_body :: "manifest_env \<Rightarrow> string \<Rightarrow> string mexec" where
  "consume_body E path =
     seq (open_file E path) (\<lambda>i.
     seq (fstat E i) (\<lambda>before. seq (check (private_stat E before)) (\<lambda>_.
     seq (read_file E i) (\<lambda>content.
     case manifest_of_json (me_parse E content) of
       None \<Rightarrow> throw Config_invalid
     | Some digest \<Rightarrow>
         seq (lstat_existing E path) (\<lambda>named. seq (check (private_stat E named)) (\<lambda>_.
         seq (check (same_named before named)) (\<lambda>_.
         seq (unlink_file E path) (\<lambda>_. seq (plain E) (\<lambda>_. ret digest)))))))))"

definition consumeRecoveryManifest :: "manifest_env \<Rightarrow> string \<Rightarrow> string mexec" where
  "consumeRecoveryManifest E path =
     seq (check (manifest_path path)) (\<lambda>_. seq (plain E) (\<lambda>_. finalize (to_config_invalid (consume_body E path)) (close_all E)))"

section \<open>Staging\<close>

record staged =
  sg_target :: string
  sg_path :: string
  sg_dev :: nat
  sg_ino :: nat
  sg_size :: nat
  sg_mtime :: nat
  sg_ctime :: nat

definition absent :: "manifest_env \<Rightarrow> string \<Rightarrow> bool mexec" where
  "absent E path = catch (seq (lstat E path) (\<lambda>st. ret (st = None))) (\<lambda>_. ret False)"

definition staged_name :: "manifest_env \<Rightarrow> string \<Rightarrow> nat \<Rightarrow> string" where
  "staged_name E parent k = parent @ ''/.compaction-recovery-'' @ me_random E k @ ''.pending''"

text \<open>At most eight names, the \<open>k\<close>-th being \<open>staged_name E parent k\<close>; every failure says which name was tried last.\<close>

fun create_staged :: "manifest_env \<Rightarrow> string \<Rightarrow> nat \<Rightarrow> nat \<Rightarrow> (string option \<times> nat option) mexec" where
  "create_staged E parent 0 k = ret (if k = 0 then None else Some (staged_name E parent (k - 1)), None)"
| "create_staged E parent (Suc n) k =
     catch (seq (create_file E (staged_name E parent k)) (\<lambda>i. case i of
         None \<Rightarrow> create_staged E parent n (Suc k)
       | Some j \<Rightarrow> ret (Some (staged_name E parent k), Some j)))
     (\<lambda>_. ret (Some (staged_name E parent k), None))"

text \<open>The content, a \<open>JSON\<close> line, is durable before the stage is reported; the directory is synced last.\<close>

definition fill_staged :: "manifest_env \<Rightarrow> string \<Rightarrow> string \<Rightarrow> string \<Rightarrow> nat \<Rightarrow> staged mexec" where
  "fill_staged E path digest name i =
     seq (write_file E i (stringify (manifest_json digest) @ [CHR 0x0A])) (\<lambda>_. seq (plain E) (\<lambda>_.
     seq (fstat E i) (\<lambda>st. seq (check (private_stat E st)) (\<lambda>_. seq (plain E) (\<lambda>_.
     ret \<lparr>sg_target = path, sg_path = name, sg_dev = in_dev (ms_inode st), sg_ino = in_ino (ms_inode st),
       sg_size = length (in_content (ms_inode st)), sg_mtime = in_mtime (ms_inode st), sg_ctime = in_ctime (ms_inode st)\<rparr>)))))"

definition ignore_errors :: "unit mexec \<Rightarrow> unit mexec" where
  "ignore_errors m = catch m (\<lambda>_. ret ())"

definition drop_name :: "manifest_env \<Rightarrow> string option \<Rightarrow> unit mexec" where
  "drop_name E name =
     (case name of None \<Rightarrow> ret () | Some p \<Rightarrow> ignore_errors (seq (unlink_file E p) (\<lambda>_. plain E)))"

definition stage_body :: "manifest_env \<Rightarrow> string \<Rightarrow> string \<Rightarrow> staged mexec" where
  "stage_body E path digest =
     seq (to_config_invalid (seq (absent E path) check)) (\<lambda>_.
     seq (create_staged E (dirname path) 8 0) (\<lambda>(name, i).
     case (name, i) of
       (Some p, Some j) \<Rightarrow> catch (fill_staged E path digest p j) (\<lambda>_. seq (drop_name E name) (\<lambda>_. throw Config_invalid))
     | _ \<Rightarrow> seq (drop_name E name) (\<lambda>_. throw Config_invalid)))"

definition stageRecoveryManifest :: "manifest_env \<Rightarrow> string \<Rightarrow> string \<Rightarrow> staged mexec" where
  "stageRecoveryManifest E path digest =
     seq (check (manifest_path path)) (\<lambda>_. seq (check (digest_schema digest)) (\<lambda>_. seq (plain E) (\<lambda>_.
     finalize (stage_body E path digest) (close_all E))))"

section \<open>Publishing and discarding\<close>

definition samePublishedFile :: "staged \<Rightarrow> mstat \<Rightarrow> bool" where
  "samePublishedFile g st \<longleftrightarrow> in_dev (ms_inode st) = sg_dev g \<and> in_ino (ms_inode st) = sg_ino g \<and>
     length (in_content (ms_inode st)) = sg_size g \<and> in_mtime (ms_inode st) = sg_mtime g"

definition sameStageFile :: "staged \<Rightarrow> mstat \<Rightarrow> bool" where
  "sameStageFile g st \<longleftrightarrow> samePublishedFile g st \<and> in_ctime (ms_inode st) = sg_ctime g"

definition check_staged :: "manifest_env \<Rightarrow> staged \<Rightarrow> unit mexec" where
  "check_staged E g =
     seq (open_file E (sg_path g)) (\<lambda>i.
     seq (fstat E i) (\<lambda>before. seq (check (private_stat E before)) (\<lambda>_.
     seq (lstat_existing E (sg_path g)) (\<lambda>named. seq (check (private_stat E named)) (\<lambda>_.
     check (sameStageFile g before \<and> sameStageFile g named))))))"

definition finish_publish :: "manifest_env \<Rightarrow> staged \<Rightarrow> unit mexec" where
  "finish_publish E g =
     seq (lstat_existing E (sg_target g)) (\<lambda>published. seq (check (samePublishedFile g published)) (\<lambda>_.
     seq (unlink_file E (sg_path g)) (\<lambda>_.
     seq (lstat_existing E (sg_target g)) (\<lambda>final. seq (check (private_stat E final)) (\<lambda>_.
     seq (check (samePublishedFile g final)) (\<lambda>_. plain E))))))"

text \<open>After a failure behind the link, the target is removed if it still is the staged file.\<close>

definition undo_target :: "manifest_env \<Rightarrow> staged \<Rightarrow> unit mexec" where
  "undo_target E g = ignore_errors
     (seq (lstat_existing E (sg_target g)) (\<lambda>st. if samePublishedFile g st then unlink_file E (sg_target g) else ret ()))"

definition publish_body :: "manifest_env \<Rightarrow> staged \<Rightarrow> unit mexec" where
  "publish_body E g =
     catch (seq (check_staged E g) (\<lambda>_. seq (link_file E (sg_path g) (sg_target g)) (\<lambda>_.
       catch (finish_publish E g) (\<lambda>e. seq (undo_target E g) (\<lambda>_. throw e)))))
     (\<lambda>_. seq (ignore_errors (unlink_file E (sg_path g))) (\<lambda>_. seq (ignore_errors (plain E)) (\<lambda>_. throw Config_invalid)))"

definition same_parent :: "staged \<Rightarrow> bool" where
  "same_parent g \<longleftrightarrow> manifest_path (sg_target g) \<and> manifest_path (sg_path g) \<and> dirname (sg_path g) = dirname (sg_target g)"

definition publishRecoveryManifest :: "manifest_env \<Rightarrow> staged \<Rightarrow> unit mexec" where
  "publishRecoveryManifest E g =
     seq (check (same_parent g)) (\<lambda>_. seq (plain E) (\<lambda>_. finalize (publish_body E g) (close_all E)))"

definition discard_body :: "manifest_env \<Rightarrow> staged \<Rightarrow> unit mexec" where
  "discard_body E g = to_config_invalid
     (seq (lstat E (sg_path g)) (\<lambda>st. case st of
        None \<Rightarrow> ret ()
      | Some st \<Rightarrow> seq (check (private_stat E st)) (\<lambda>_. seq (check (sameStageFile g st)) (\<lambda>_.
          seq (unlink_file E (sg_path g)) (\<lambda>_. plain E)))))"

definition discardRecoveryManifest :: "manifest_env \<Rightarrow> staged \<Rightarrow> unit mexec" where
  "discardRecoveryManifest E g =
     seq (check (same_parent g)) (\<lambda>_. seq (plain E) (\<lambda>_. finalize (discard_body E g) (plain E)))"

end
