(* ===== verification/Manifest_Spec.thy ===== *)
theory Manifest_Spec
  imports Manifest
begin

text \<open>
  The properties of the recovery manifest: a publication never replaces a manifest, moves exactly the
  staged file, and a manifest is consumed at most once; staged, published and consumed without
  interference it yields the digest that was staged, unless it lies in the root directory.
\<close>

section \<open>What a run keeps\<close>

definition through :: "(mfs \<Rightarrow> bool) \<Rightarrow> 'a mexec \<Rightarrow> bool" where
  "through P m \<longleftrightarrow> triple P m (\<lambda>_. P) (\<lambda>_. P)"

lemma through_seq: "through P m \<Longrightarrow> (\<And>x. through P (f x)) \<Longrightarrow> through P (seq m f)"
  unfolding through_def by (rule triple_seq)

lemma through_catch: "through P m \<Longrightarrow> (\<And>e. through P (h e)) \<Longrightarrow> through P (catch m h)"
  unfolding through_def by (rule triple_catch)

lemma through_finalize: "through P m \<Longrightarrow> through P c \<Longrightarrow> through P (finalize m c)"
  unfolding through_def by (rule triple_finalize)

lemma through_simple: "through P (ret x)" "through P (throw e)" "through P (check b)"
  by (simp_all add: through_def check_def triple_ret triple_throw)

lemma through_with_state: "(\<And>s. through P (f s)) \<Longrightarrow> through P (with_state f)"
  by (auto simp: through_def triple_def with_state_def)

lemma through_option: "through P m \<Longrightarrow> (\<And>y. through P (f y)) \<Longrightarrow> through P (case x of None \<Rightarrow> m | Some y \<Rightarrow> f y)"
  by (cases x) simp_all

lemma through_if: "through P m \<Longrightarrow> through P n \<Longrightarrow> through P (if b then m else n)"
  by simp

lemma triple_sys:
  assumes "\<And>n s. P s \<Longrightarrow> P (me_others E n (s\<lparr>mf_step := Suc n\<rparr>))"
    and "\<And>s. P s \<Longrightarrow> case f s of (Inl e, s') \<Rightarrow> R e s' | (Inr x, s') \<Rightarrow> Q x s'" "\<And>e s. P s \<Longrightarrow> R e s"
  shows "triple P (sys E f) Q R"
  using assms by (auto simp: triple_def sys_def Let_def)

text \<open>A property of the names alone that the other processes keep.\<close>

definition kept_by_others :: "manifest_env \<Rightarrow> ((string \<times> nat) list \<Rightarrow> bool) \<Rightarrow> bool" where
  "kept_by_others E P \<longleftrightarrow> (\<forall>n s. P (mf_names s) \<longrightarrow> P (mf_names (me_others E n s)))"

abbreviation named :: "((string \<times> nat) list \<Rightarrow> bool) \<Rightarrow> mfs \<Rightarrow> bool" where
  "named P s \<equiv> P (mf_names s)"

lemma through_read:
  assumes "kept_by_others E P"
  shows "through (named P) (lstat E p)" "through (named P) (fstat E i)" "through (named P) (read_file E i)" "through (named P) (plain E)"
    "through (named P) (open_file E p)" "through (named P) (write_file E i c)"
  unfolding through_def lstat_def fstat_def read_file_def plain_def open_file_def write_file_def
  using assms by (auto intro!: triple_sys simp: kept_by_others_def Let_def split: option.splits if_splits)

lemma through_existing: "kept_by_others E P \<Longrightarrow> through (named P) (lstat_existing E p)"
  unfolding lstat_existing_def existing_def by (intro through_seq through_read through_option through_simple)

lemma through_close: "kept_by_others E P \<Longrightarrow> through (named P) (close_all E)"
  unfolding close_all_def
  by (intro through_finalize through_with_state through_if through_seq through_read through_simple)
    (auto simp: through_def intro!: triple_modify)

lemma through_unlink:
  assumes "kept_by_others E P" "\<And>ns. P ns \<Longrightarrow> P (filter (\<lambda>x. fst x \<noteq> p) ns)"
  shows "through (named P) (unlink_file E p)"
  unfolding through_def unlink_file_def using assms
  by (auto intro!: triple_sys simp: kept_by_others_def touch_def split: option.splits)

lemma map_of_filter_other: "p \<noteq> q \<Longrightarrow> map_of (filter (\<lambda>x. fst x \<noteq> p) ns) q = map_of ns q"
  by (induction ns) auto

lemma map_of_filter_same: "map_of (filter (\<lambda>x. fst x \<noteq> p) ns) p = None"
  by (induction ns) auto

lemma through_check_staged: "kept_by_others E P \<Longrightarrow> through (named P) (check_staged E g)"
  unfolding check_staged_def by (intro through_seq through_read through_existing through_simple)

section \<open>Publishing\<close>

text \<open>The others leave the entry of a name alone.\<close>

definition leaves_name :: "manifest_env \<Rightarrow> string \<Rightarrow> bool" where
  "leaves_name E p \<longleftrightarrow> (\<forall>v. kept_by_others E (\<lambda>ns. map_of ns p = v))"

lemma triple_link_refused:
  assumes "kept_by_others E (\<lambda>ns. map_of ns target = Some i)"
  shows "triple (named (\<lambda>ns. map_of ns target = Some i)) (link_file E from target) (\<lambda>_ _. False)
    (\<lambda>_. named (\<lambda>ns. map_of ns target = Some i))"
  unfolding link_file_def using assms
  by (auto intro!: triple_sys simp: kept_by_others_def split: option.splits)

lemma triple_False: "triple (\<lambda>_. False) m Q R"
  by (simp add: triple_def)

text \<open>A publication never replaces a manifest: when the target already names a file, that other processes leave alone, every publication to it fails and the target still names the same file.\<close>

theorem publish_never_replaces:
  assumes "leaves_name E (sg_target g)" "sg_path g \<noteq> sg_target g" "map_of (mf_names s) (sg_target g) = Some i"
    and "publishRecoveryManifest E g s = (r, s')"
  shows "(\<exists>e. r = Inl e) \<and> map_of (mf_names s') (sg_target g) = Some i"
proof -
  let ?P = "\<lambda>ns. map_of ns (sg_target g) = Some i"
  have k: "kept_by_others E ?P" using assms(1) by (simp add: leaves_name_def)
  have unlink: "through (named ?P) (unlink_file E (sg_path g))"
    by (rule through_unlink [OF k]) (simp add: map_of_filter_other assms(2))
  have inner: "triple (named ?P) (seq (link_file E (sg_path g) (sg_target g))
      (\<lambda>_. catch (finish_publish E g) (\<lambda>e. seq (undo_target E g) (\<lambda>_. throw e)))) (\<lambda>_ _. False) (\<lambda>_. named ?P)"
    by (rule triple_seq [OF triple_link_refused [OF k]]) (rule triple_False)
  have ignored: "through (named ?P) (ignore_errors m)" if "through (named ?P) m" for m
    unfolding ignore_errors_def by (rule through_catch [OF that through_simple(1)])
  have throws: "triple (named ?P) (seq (ignore_errors (unlink_file E (sg_path g))) (\<lambda>_. seq (ignore_errors (plain E)) (\<lambda>_. throw Config_invalid)))
      (\<lambda>_ _. False) (\<lambda>_. named ?P)"
    by (rule triple_seq [OF ignored [OF unlink, unfolded through_def]],
        rule triple_seq [OF ignored [OF through_read(4) [OF k], unfolded through_def]], rule triple_throw)
  have body: "triple (named ?P) (publish_body E g) (\<lambda>_ _. False) (\<lambda>_. named ?P)"
    unfolding publish_body_def
    by (rule triple_catch [OF triple_seq [OF through_check_staged [OF k, unfolded through_def] inner]]) (rule throws)
  have "triple (named ?P) (publishRecoveryManifest E g) (\<lambda>_ _. False) (\<lambda>_. named ?P)"
    unfolding publishRecoveryManifest_def
    by (rule triple_seq [OF through_simple(3) [unfolded through_def]], rule triple_seq [OF through_read(4) [OF k, unfolded through_def]],
        rule triple_finalize [OF body]) (use through_close [OF k] in \<open>auto simp: through_def triple_False\<close>)
  then show ?thesis
    using assms(3,4) by (cases r) (auto dest: triple_Inr triple_Inl)
qed

section \<open>Consuming\<close>

lemma triple_unlink:
  "triple (\<lambda>_. True) (unlink_file E p) (\<lambda>_. named (\<lambda>ns. map_of ns p = None)) (\<lambda>_ _. True)"
  unfolding unlink_file_def by (rule triple_sys) (auto simp: map_of_filter_same split: option.splits)

lemma triple_anything: "triple P m (\<lambda>_ _. True) (\<lambda>_ _. True)"
  by (auto simp: triple_def split: prod.split sum.split)

lemma manifest_of_json_digest: "manifest_of_json v = Some d \<Longrightarrow> digest_schema d"
  by (auto simp: manifest_of_json_def bind_eq_Some_conv split: if_splits)

lemma triple_consume_body:
  assumes "kept_by_others E (\<lambda>ns. map_of ns path = None)"
  shows "triple (\<lambda>_. True) (consume_body E path) (\<lambda>d s. digest_schema d \<and> map_of (mf_names s) path = None) (\<lambda>_ _. True)"
proof -
  let ?Q = "\<lambda>d s. digest_schema d \<and> map_of (mf_names s) path = None"
  have plain: "triple (named (\<lambda>ns. map_of ns path = None)) (plain E) (\<lambda>_. named (\<lambda>ns. map_of ns path = None)) (\<lambda>_ _. True)"
    using through_read(4) [OF assms] by (auto simp: through_def elim: triple_weaken)
  have tail: "triple (\<lambda>_. True) (seq (unlink_file E path) (\<lambda>_. seq (plain E) (\<lambda>_. ret d))) ?Q (\<lambda>_ _. True)"
    if "digest_schema d" for d
    by (rule triple_seq [OF triple_unlink], rule triple_seq [OF plain], rule triple_ret) (simp add: that)
  show ?thesis
    unfolding consume_body_def
    by (rule triple_seq [OF triple_anything], rule triple_seq [OF triple_anything], rule triple_seq [OF triple_anything],
        rule triple_seq [OF triple_anything], rule triple_option, simp add: triple_throw, rule triple_seq [OF triple_anything],
        rule triple_seq [OF triple_anything], rule triple_seq [OF triple_anything], rule tail, rule manifest_of_json_digest)
qed

lemma triple_consume:
  assumes "kept_by_others E (\<lambda>ns. map_of ns path = None)"
  shows "triple (\<lambda>_. True) (consumeRecoveryManifest E path) (\<lambda>d s. digest_schema d \<and> map_of (mf_names s) path = None) (\<lambda>_ _. True)"
proof -
  have body: "triple (\<lambda>_. True) (to_config_invalid (consume_body E path)) (\<lambda>d s. digest_schema d \<and> map_of (mf_names s) path = None) (\<lambda>_ _. True)"
    unfolding to_config_invalid_def by (rule triple_catch [OF triple_consume_body [OF assms]]) (simp add: triple_throw)
  have closing: "triple (\<lambda>s. digest_schema d \<and> map_of (mf_names s) path = None) (close_all E)
      (\<lambda>_ s. digest_schema d \<and> map_of (mf_names s) path = None) (\<lambda>_ _. True)" for d
    using through_close [OF assms] by (cases "digest_schema d") (auto simp: through_def triple_False elim: triple_weaken)
  show ?thesis
    unfolding consumeRecoveryManifest_def
    by (rule triple_seq [OF triple_anything], rule triple_seq [OF triple_anything], rule triple_finalize [OF body closing triple_anything])
qed

lemma open_absent:
  assumes "kept_by_others E (\<lambda>ns. map_of ns path = None)"
  shows "triple (named (\<lambda>ns. map_of ns path = None)) (open_file E path) (\<lambda>_ _. False) (\<lambda>_ _. True)"
  unfolding open_file_def using assms by (auto intro!: triple_sys simp: kept_by_others_def)

text \<open>C33: A manifest is consumed at most once: what is returned is a digest in its format, the manifest's name is gone with it, and as long as nobody else creates the name again the next consumption fails.\<close>

theorem consumed_at_most_once:
  assumes "leaves_name E path" "consumeRecoveryManifest E path s = (Inr d, s')" "consumeRecoveryManifest E path s' = (r, s'')"
  shows "digest_schema d \<and> map_of (mf_names s') path = None \<and> (\<exists>e. r = Inl e)"
proof -
  have k: "kept_by_others E (\<lambda>ns. map_of ns path = None)" using assms(1) by (simp add: leaves_name_def)
  have first: "digest_schema d \<and> map_of (mf_names s') path = None" using triple_Inr [OF triple_consume [OF k] TrueI assms(2)] .
  let ?P = "named (\<lambda>ns. map_of ns path = None)"
  have body: "triple ?P (to_config_invalid (consume_body E path)) (\<lambda>_ _. False) (\<lambda>_ _. True)"
    unfolding to_config_invalid_def consume_body_def
    by (rule triple_catch [OF triple_seq [OF open_absent [OF k] triple_False]]) (simp add: triple_throw)
  have keep: "triple ?P m (\<lambda>_. ?P) (\<lambda>_ _. True)" if "through ?P m" for m :: "unit mexec"
    using that by (auto simp: through_def elim: triple_weaken)
  have "triple ?P (consumeRecoveryManifest E path) (\<lambda>_ _. False) (\<lambda>_ _. True)"
    unfolding consumeRecoveryManifest_def
    by (rule triple_seq [OF keep [OF through_simple(3)]], rule triple_seq [OF keep [OF through_read(4) [OF k]]],
        rule triple_finalize [OF body triple_False triple_anything])
  then show ?thesis using first assms(3) by (cases r) (auto dest: triple_Inr)
qed

section \<open>From the stage to the digest\<close>

text \<open>No call fails and nobody interferes.\<close>

definition calm :: "manifest_env \<Rightarrow> bool" where
  "calm E \<longleftrightarrow> me_fault E = (\<lambda>_. False) \<and> me_others E = (\<lambda>_ s. s)"

lemma sys_calm: "calm E \<Longrightarrow> sys E f s = f (s\<lparr>mf_step := Suc (mf_step s)\<rparr>)"
  by (simp add: sys_def calm_def Let_def)

lemma quote_length: "length (quote s) \<le> 6 * length s + 2"
proof -
  have "length (quote_char c) \<le> 6" for c
    by (auto simp: quote_char_def split: option.split)
  then have "length (concat (map quote_char s)) \<le> 6 * length s" by (induction s) (auto simp: add_mono)
  then show ?thesis by (simp add: quote_def)
qed

definition manifest_text :: "string \<Rightarrow> string" where
  "manifest_text d = stringify (manifest_json d) @ [CHR 0x0A]"

lemma manifest_text_length: "digest_schema d \<Longrightarrow> 1 \<le> length (manifest_text d) \<and> length (manifest_text d) \<le> 512"
proof -
  assume "digest_schema d"
  then have "length d = 74" by (auto simp: digest_schema_def event_fingerprint_schema_def)
  then have "length (quote d) \<le> 446" using quote_length [of d] by simp
  moreover have "length (quote ''version'') = 9" "length (quote ''expectedStateDigest'') = 21" "length (show_int 1) = 1" by code_simp+
  ultimately show ?thesis by (simp add: manifest_text_def manifest_json_def)
qed

definition holds_manifest :: "manifest_env \<Rightarrow> mfs \<Rightarrow> string \<Rightarrow> nat \<Rightarrow> string \<Rightarrow> bool" where
  "holds_manifest E s p i d \<longleftrightarrow> map_of (mf_names s) p = Some i \<and> filter (\<lambda>x. snd x = i) (mf_names s) = [(p, i)] \<and>
     in_isFile (mf_inodes s i) \<and> \<not> in_symlink (mf_inodes s i) \<and> in_mode (mf_inodes s i) = 384 \<and>
     owned_by E (in_uid (mf_inodes s i)) \<and> in_content (mf_inodes s i) = manifest_text d"

lemma private_manifest: "holds_manifest E s p i d \<Longrightarrow> digest_schema d \<Longrightarrow> private_stat E (stat_of i s)"
  using manifest_text_length [of d] by (simp add: holds_manifest_def private_stat_def stat_of_def)

lemma holds_manifest_step [simp]:
  "holds_manifest E (s\<lparr>mf_step := n\<rparr>) p i d = holds_manifest E s p i d" "holds_manifest E (s\<lparr>mf_open := b\<rparr>) p i d = holds_manifest E s p i d"
  by (simp_all add: holds_manifest_def)

lemma stat_of_step [simp]: "stat_of i (s\<lparr>mf_step := n\<rparr>) = stat_of i s" "stat_of i (s\<lparr>mf_open := b\<rparr>) = stat_of i s"
  by (simp_all add: stat_of_def)

lemmas calm_steps = sys_calm seq_def finalize_def with_state_def modify_def ret_def throw_def check_def catch_def
  to_config_invalid_def plain_def close_all_def

text \<open>Only the names and the inodes matter.\<close>

definition same_files :: "mfs \<Rightarrow> mfs \<Rightarrow> bool" where
  "same_files s s' \<longleftrightarrow> mf_names s' = mf_names s \<and> mf_inodes s' = mf_inodes s"

lemma same_files_facts:
  assumes "same_files s s'"
  shows "holds_manifest E s' p i d = holds_manifest E s p i d" "stat_of i s' = stat_of i s" "mf_names s' = mf_names s"
  using assms by (simp_all add: same_files_def holds_manifest_def stat_of_def)

lemma close_calm: "calm E \<Longrightarrow> \<exists>s'. close_all E s = (Inr (), s') \<and> same_files s s'"
  by (cases "mf_open s") (simp_all add: calm_steps same_files_def)

lemma consume_calm:
  assumes "calm E" "manifest_path p" "holds_manifest E s p i d" "digest_schema d" "me_parse E (manifest_text d) = Some (manifest_json d)"
  shows "\<exists>s'. consumeRecoveryManifest E p s = (Inr d, s')"
proof -
  have f: "map_of (mf_names s) p = Some i" "\<not> in_symlink (mf_inodes s i)" "in_content (mf_inodes s i) = manifest_text d"
    using assms(3) by (simp_all add: holds_manifest_def)
  have "manifest_of_json (Some (manifest_json d)) = Some d"
    using assms(4) by (simp add: manifest_of_json_def manifest_json_def closed_object_def only_keys_def jget_def version_1_def)
  then have "\<exists>s'. consume_body E p s1 = (Inr d, s')" if "s1 = s\<lparr>mf_step := n\<rparr>" for s1 n
    using f private_manifest [OF assms(3,4)] assms(1,5) unfolding that
    by (simp add: consume_body_def open_file_def fstat_def read_file_def lstat_existing_def lstat_def existing_def unlink_file_def
        calm_steps same_named_def)
  then obtain s2 where "consume_body E p (s\<lparr>mf_step := Suc (mf_step s)\<rparr>) = (Inr d, s2)" by blast
  moreover obtain s3 where "close_all E s2 = (Inr (), s3)" using close_calm [OF assms(1)] by blast
  ultimately show ?thesis
    using assms(1,2) by (simp add: consumeRecoveryManifest_def seq_def check_def ret_def plain_def sys_calm finalize_def
        to_config_invalid_def catch_def)
qed

lemma stage_calm:
  assumes "calm E" "manifest_path p" "digest_schema d" "map_of (mf_names s) p = None" "staged_name E (dirname p) 0 \<noteq> p"
    and "map_of (mf_names s) (staged_name E (dirname p) 0) = None" "\<forall>n. \<forall>x \<in> set (mf_names s). snd x \<noteq> me_newInode E n"
    and "owned_by E (me_creator E)"
  shows "\<exists>g s' i. stageRecoveryManifest E p d s = (Inr g, s') \<and> sg_target g = p \<and> sg_path g = staged_name E (dirname p) 0 \<and>
    holds_manifest E s' (sg_path g) i d \<and> sameStageFile g (stat_of i s') \<and> map_of (mf_names s') p = None"
proof -
  let ?st = "staged_name E (dirname p) 0"
  have fresh: "filter (\<lambda>x. snd x = me_newInode E n) (mf_names s) = []" for n
    using assms(7) by (simp add: filter_empty_conv)
  have len: "1 \<le> length (manifest_text d)" "length (manifest_text d) \<le> 512" using manifest_text_length [OF assms(3)] by simp_all
  have "\<exists>g s' i. stage_body E p d s1 = (Inr g, s') \<and> sg_target g = p \<and> sg_path g = ?st \<and> holds_manifest E s' ?st i d \<and>
      sameStageFile g (stat_of i s') \<and> map_of (mf_names s') p = None" if "s1 = s\<lparr>mf_step := n\<rparr>" for s1 n
    using assms fresh len unfolding that
    by (simp add: stage_body_def absent_def lstat_def create_file_def fill_staged_def write_file_def fstat_def calm_steps numeral_eq_Suc
        Let_def private_stat_def stat_of_def holds_manifest_def sameStageFile_def samePublishedFile_def flip: manifest_text_def)
  then obtain g s2 i where r: "stage_body E p d (s\<lparr>mf_step := Suc (mf_step s)\<rparr>) = (Inr g, s2)" "sg_target g = p" "sg_path g = ?st"
    "holds_manifest E s2 ?st i d" "sameStageFile g (stat_of i s2)" "map_of (mf_names s2) p = None" by blast
  obtain s3 where s3: "close_all E s2 = (Inr (), s3)" "same_files s2 s3" using close_calm [OF assms(1)] by blast
  then have "stageRecoveryManifest E p d s = (Inr g, s3)"
    using assms(1-3) r(1) by (simp add: stageRecoveryManifest_def seq_def check_def ret_def plain_def sys_calm finalize_def)
  then show ?thesis using r(2-6) same_files_facts [OF s3(2)] by metis
qed

lemma filter_other_name: "map_of ns q = None \<Longrightarrow> filter (\<lambda>x. fst x \<noteq> q) ns = ns"
  by (induction ns) (auto split: if_splits)

text \<open>Of the names, only the staged one is the file's.\<close>

lemma filter_moved:
  assumes "filter (\<lambda>x. snd x = i) ns = [(q, i)]"
  shows "filter (\<lambda>x. snd x = i) (filter (\<lambda>x. fst x \<noteq> q) ns) = []"
proof -
  have "filter (\<lambda>x. snd x = i) (filter (\<lambda>x. fst x \<noteq> q) ns) = filter (\<lambda>x. fst x \<noteq> q) (filter (\<lambda>x. snd x = i) ns)"
    by (simp add: conj_commute)
  then show ?thesis using assms by simp
qed

lemma publish_calm:
  assumes "calm E" "same_parent g" "sg_path g \<noteq> sg_target g" "holds_manifest E s (sg_path g) i d" "digest_schema d"
    and "sameStageFile g (stat_of i s)" "map_of (mf_names s) (sg_target g) = None"
  shows "\<exists>s'. publishRecoveryManifest E g s = (Inr (), s') \<and> holds_manifest E s' (sg_target g) i d \<and> map_of (mf_names s') (sg_path g) = None"
proof -
  have f: "map_of (mf_names s) (sg_path g) = Some i" "filter (\<lambda>x. snd x = i) (mf_names s) = [(sg_path g, i)]"
    "in_isFile (mf_inodes s i)" "\<not> in_symlink (mf_inodes s i)" "in_mode (mf_inodes s i) = 384" "owned_by E (in_uid (mf_inodes s i))"
    "in_content (mf_inodes s i) = manifest_text d"
    using assms(4) by (simp_all add: holds_manifest_def)
  have len: "Suc 0 \<le> length (manifest_text d)" "length (manifest_text d) \<le> 512" using manifest_text_length [OF assms(5)] by simp_all
  have g: "in_dev (mf_inodes s i) = sg_dev g" "in_ino (mf_inodes s i) = sg_ino g" "length (manifest_text d) = sg_size g"
    "in_mtime (mf_inodes s i) = sg_mtime g" "in_ctime (mf_inodes s i) = sg_ctime g"
    using assms(6) f(7) by (simp_all add: sameStageFile_def samePublishedFile_def stat_of_def)
  have "\<exists>s'. publish_body E g s1 = (Inr (), s') \<and> holds_manifest E s' (sg_target g) i d \<and> map_of (mf_names s') (sg_path g) = None"
    if "s1 = s\<lparr>mf_step := n\<rparr>" for s1 n
    using assms(1,3,7) f g len filter_moved [OF f(2)] map_of_filter_same [of "sg_path g" "mf_names s"] unfolding that
    by (simp add: publish_body_def check_staged_def finish_publish_def open_file_def fstat_def lstat_existing_def lstat_def existing_def
        link_file_def unlink_file_def touch_def calm_steps private_stat_def stat_of_def samePublishedFile_def sameStageFile_def
        holds_manifest_def)
  then obtain s2 where r: "publish_body E g (s\<lparr>mf_step := Suc (mf_step s)\<rparr>) = (Inr (), s2)"
    "holds_manifest E s2 (sg_target g) i d" "map_of (mf_names s2) (sg_path g) = None" by blast
  obtain s3 where s3: "close_all E s2 = (Inr (), s3)" "same_files s2 s3" using close_calm [OF assms(1)] by blast
  then have "publishRecoveryManifest E g s = (Inr (), s3)"
    using assms(1,2) r(1) by (simp add: publishRecoveryManifest_def seq_def check_def ret_def plain_def sys_calm finalize_def)
  then show ?thesis using r(2,3) same_files_facts [OF s3(2)] by metis
qed

text \<open>The directory of a file that is named below a directory other than the root.\<close>

lemma dirname_below:
  assumes "q \<noteq> []" "q \<noteq> ''/''" "CHR ''/'' \<notin> set f" "f \<noteq> []"
  shows "dirname (q @ ''/'' @ f) = q"
proof -
  have "dropWhile (\<lambda>c. c = CHR ''/'') (rev (q @ ''/'' @ f)) = rev f @ CHR ''/'' # rev q"
    using assms(3,4) by (cases "rev f") auto
  moreover have "dropWhile (\<lambda>c. c \<noteq> CHR ''/'') (rev f @ CHR ''/'' # rev q) = CHR ''/'' # rev q"
    by (subst dropWhile_append2) (use assms(3) in auto)
  moreover have "rev q \<noteq> ''/''" using assms(2) by (metis rev_rev_ident rev_singleton_conv)
  ultimately show ?thesis using assms(1) by (simp add: dirname_def Let_def)
qed

text \<open>The directory of a manifest path is absolute and has no control character, as the path.\<close>

lemma absolute_cons: "is_absolute p \<Longrightarrow> \<exists>p'. p = CHR ''/'' # p'"
  unfolding is_absolute_def by (cases p) simp_all

lemma kept_path: "manifest_path (q @ x) \<Longrightarrow> q \<noteq> [] \<Longrightarrow> manifest_path q"
  unfolding manifest_path_def is_absolute_def by (cases q) simp_all

lemma dirname_path:
  assumes "manifest_path p"
  shows "manifest_path (dirname p)" "dirname p \<noteq> []"
proof -
  obtain p' where p': "p = CHR ''/'' # p'" using assms absolute_cons unfolding manifest_path_def by blast
  define body where "body = dropWhile (\<lambda>c. c = CHR ''/'') (rev p)"
  define r where "r = dropWhile (\<lambda>c. c \<noteq> CHR ''/'') body"
  have d: "dirname p = (if body = [] then ''/'' else if r = [] then ''.'' else if tl r = [] then ''/'' else if tl r = ''/'' then ''//'' else rev (tl r))"
    unfolding dirname_def Let_def body_def [symmetric] r_def [symmetric] by (simp add: p')
  define a b where "a = takeWhile (\<lambda>c. c = CHR ''/'') (rev p)" and "b = takeWhile (\<lambda>c. c \<noteq> CHR ''/'') body"
  then have a: "rev p = a @ body" and b: "body = b @ r" by (simp_all only: body_def r_def takeWhile_dropWhile_id)
  have "rev (rev p) = rev (a @ b @ r)" using a b by (simp only:)
  then have split: "p = rev r @ rev b @ rev a" by (simp only: rev_append rev_rev_ident append.assoc)
  have slash: "r \<noteq> []" if "body \<noteq> []"
  proof -
    have "last (rev p) = CHR ''/''" by (simp add: p')
    then have "last body = CHR ''/''" unfolding a using that by simp
    then have "CHR ''/'' \<in> set body" using that last_in_set by metis
    then show ?thesis unfolding r_def dropWhile_eq_Nil_conv by blast
  qed
  have tail: "manifest_path (rev (tl r))" if "tl r \<noteq> []"
  proof -
    obtain x where "rev r = rev (tl r) @ x" by (cases r) auto
    then have x: "p = rev (tl r) @ (x @ rev b @ rev a)" using split by (simp only: append.assoc)
    show ?thesis by (rule kept_path [OF assms [unfolded x]]) (use that in simp)
  qed
  have root: "manifest_path ''/''" "manifest_path ''//''" by code_simp+
  show "manifest_path (dirname p)"
    unfolding d using slash tail root by (cases "body = []"; cases "tl r = []"; cases "tl r = ''/''") simp_all
  show "dirname p \<noteq> []"
    unfolding d by (simp split: if_split)
qed

lemma staged_below:
  assumes "manifest_path p" "dirname p \<noteq> ''/''"
    and "list_all (\<lambda>c. 32 \<le> (of_char c :: nat) \<and> c \<noteq> CHR ''/'') (me_random E k)"
  shows "dirname (staged_name E (dirname p) k) = dirname p" "manifest_path (staged_name E (dirname p) k)"
proof -
  let ?f = "''.compaction-recovery-'' @ me_random E k @ ''.pending''"
  have f: "staged_name E (dirname p) k = dirname p @ ''/'' @ ?f" by (simp add: staged_name_def)
  have "CHR ''/'' \<notin> set (me_random E k)" using assms(3) unfolding list_all_iff by blast
  then have "CHR ''/'' \<notin> set ?f" by simp
  then show "dirname (staged_name E (dirname p) k) = dirname p"
    unfolding f by (intro dirname_below dirname_path(2) [OF assms(1)] assms(2)) simp_all
  have g: "list_all (\<lambda>c. 32 \<le> (of_char c :: nat)) (me_random E k)"
    using assms(3) unfolding list_all_iff by blast
  obtain q where q: "dirname p = CHR ''/'' # q" using dirname_path(1) [OF assms(1)] absolute_cons unfolding manifest_path_def by blast
  have "list_all (\<lambda>c. 32 \<le> (of_char c :: nat)) (dirname p)" using dirname_path(1) [OF assms(1)] unfolding manifest_path_def by blast
  then show "manifest_path (staged_name E (dirname p) k)"
    using g unfolding f manifest_path_def is_absolute_def by (simp add: q)
qed

text \<open>C34: Without failures and interference, what is staged, published and consumed is the digest, for every
configured path whose directory is not the root: the staged file, named beside the path by a fresh
name (random characters, no slash among them, and not the name of the path), can be published under the free name, and
its consumption returns exactly the digest that was staged. For a path directly in the root directory
this does not hold: such a stage can never be published.\<close>

theorem staged_digest_is_consumed:
  assumes "calm E" "manifest_path p" "dirname p \<noteq> ''/''" "digest_schema d" "map_of (mf_names s) p = None"
    and "map_of (mf_names s) (staged_name E (dirname p) 0) = None" "staged_name E (dirname p) 0 \<noteq> p"
    and "list_all (\<lambda>c. 32 \<le> (of_char c :: nat) \<and> c \<noteq> CHR ''/'') (me_random E 0)"
    and "\<forall>n. \<forall>x \<in> set (mf_names s). snd x \<noteq> me_newInode E n" "owned_by E (me_creator E)"
    and "me_parse E (manifest_text d) = Some (manifest_json d)"
  shows "\<exists>g s1 s2 s3. stageRecoveryManifest E p d s = (Inr g, s1) \<and> publishRecoveryManifest E g s1 = (Inr (), s2) \<and>
    consumeRecoveryManifest E p s2 = (Inr d, s3)"
proof -
  obtain g s1 i where st: "stageRecoveryManifest E p d s = (Inr g, s1)" "sg_target g = p" "sg_path g = staged_name E (dirname p) 0"
    "holds_manifest E s1 (sg_path g) i d" "sameStageFile g (stat_of i s1)" "map_of (mf_names s1) p = None"
    using stage_calm [OF assms(1,2,4,5,7,6,9,10)] by blast
  have "same_parent g" using st(2,3) assms(2) staged_below [OF assms(2,3,8)] by (simp add: same_parent_def)
  then obtain s2 where pb: "publishRecoveryManifest E g s1 = (Inr (), s2)" "holds_manifest E s2 p i d"
    using publish_calm [OF assms(1) _ _ st(4) assms(4) st(5)] st(2,3,6) assms(7) by metis
  obtain s3 where "consumeRecoveryManifest E p s2 = (Inr d, s3)"
    using consume_calm [OF assms(1,2) pb(2) assms(4,11)] by blast
  then show ?thesis using st(1) pb(1) by blast
qed

section \<open>A failed publication\<close>

definition one_failure :: "manifest_env \<Rightarrow> bool" where
  "one_failure E \<longleftrightarrow> me_others E = (\<lambda>_ s. s) \<and> (\<exists>f. \<forall>n. me_fault E n \<longrightarrow> n = f)"

lemma sys_alone:
  "me_others E = (\<lambda>_ s. s) \<Longrightarrow>
   sys E f s = (if me_fault E (mf_step s) then (Inl Internal_failed, s\<lparr>mf_step := Suc (mf_step s)\<rparr>) else f (s\<lparr>mf_step := Suc (mf_step s)\<rparr>))"
  by (simp add: sys_def Let_def)

lemma one_failureD: "one_failure E \<Longrightarrow> me_fault E f \<Longrightarrow> n \<noteq> f \<Longrightarrow> \<not> me_fault E n"
  by (auto simp: one_failure_def)

text \<open>After the link, both names are the file's.\<close>

definition linked :: "manifest_env \<Rightarrow> staged \<Rightarrow> nat \<Rightarrow> mfs \<Rightarrow> bool" where
  "linked E g i s \<longleftrightarrow> map_of (mf_names s) (sg_target g) = Some i \<and> samePublishedFile g (stat_of i s)"

lemma undo_linked:
  assumes "me_others E = (\<lambda>_ s. s)" "linked E g i s" "\<forall>n \<ge> mf_step s. \<not> me_fault E n"
  shows "\<exists>s'. undo_target E g s = (Inr (), s') \<and> map_of (mf_names s') (sg_target g) = None"
  using assms
  by (simp add: undo_target_def ignore_errors_def lstat_existing_def lstat_def existing_def unlink_file_def calm_steps sys_alone
      linked_def map_of_filter_same samePublishedFile_def stat_of_def)

lemma finish_linked:
  assumes "one_failure E" "linked E g i s" "sg_path g \<noteq> sg_target g"
    and "filter (\<lambda>x. snd x = i) (filter (\<lambda>x. fst x \<noteq> sg_path g) (mf_names s)) = [(sg_target g, i)]"
    and "map_of (mf_names s) (sg_path g) = Some i" "private_stat E (stat_of i s\<lparr>ms_nlink := 1\<rparr>)"
    and "finish_publish E g s = (Inl e, s')"
  shows "linked E g i s' \<and> (\<forall>n \<ge> mf_step s'. \<not> me_fault E n)"
proof -
  let ?k = "mf_step s"
  have o: "me_others E = (\<lambda>_ s. s)" using assms(1) by (simp add: one_failure_def)
  note unfold = finish_publish_def lstat_existing_def lstat_def existing_def unlink_file_def calm_steps sys_alone [OF o]
    linked_def samePublishedFile_def stat_of_def private_stat_def touch_def map_of_filter_other
  have later: "\<forall>n > f. \<not> me_fault E n" if "me_fault E f" for f
    using one_failureD [OF assms(1) that] by auto
  consider "me_fault E ?k" | "me_fault E (Suc ?k)" "\<not> me_fault E ?k"
    | "me_fault E (Suc (Suc ?k))" "\<not> me_fault E ?k" "\<not> me_fault E (Suc ?k)"
    | "me_fault E (Suc (Suc (Suc ?k)))" "\<not> me_fault E ?k" "\<not> me_fault E (Suc ?k)" "\<not> me_fault E (Suc (Suc ?k))"
    | "\<not> me_fault E ?k" "\<not> me_fault E (Suc ?k)" "\<not> me_fault E (Suc (Suc ?k))" "\<not> me_fault E (Suc (Suc (Suc ?k)))"
    by blast
  then show ?thesis
  proof cases
    case 1
    then show ?thesis using assms(2,7) later [OF 1] by (auto simp: unfold)
  next
    case 2
    then show ?thesis using assms(2,7) later [OF 2(1)] by (auto simp: unfold)
  next
    case 3
    then show ?thesis using assms(2,3,5,7) later [OF 3(1)] by (auto simp: unfold)
  next
    case 4
    then show ?thesis using assms(2-7) later [OF 4(1)] by (auto simp: unfold)
  next
    case 5
    then have False using assms(2-7) by (auto simp: unfold)
    then show ?thesis ..
  qed
qed

lemma check_staged_result:
  assumes "me_others E = (\<lambda>_ s. s)" "check_staged E g s = (r, s')"
  shows "same_files s s' \<and> (r = Inr () \<longrightarrow> (\<exists>i. map_of (mf_names s) (sg_path g) = Some i \<and> private_stat E (stat_of i s) \<and> sameStageFile g (stat_of i s)))"
  using assms(2)
  by (auto simp: check_staged_def open_file_def fstat_def lstat_existing_def lstat_def existing_def calm_steps sys_alone [OF assms(1)]
      same_files_def split: if_splits option.splits prod.splits sum.splits)

lemma link_result:
  assumes "me_others E = (\<lambda>_ s. s)" "link_file E p q s = (r, s')" "map_of (mf_names s) p = Some i" "map_of (mf_names s) q = None"
  shows "case r of Inl e \<Rightarrow> same_files s s' | Inr _ \<Rightarrow> mf_names s' = (q, i) # mf_names s \<and>
    (\<exists>now. mf_inodes s' = (mf_inodes s)(i := (mf_inodes s i)\<lparr>in_ctime := now\<rparr>))"
  using assms(2-4)
  by (auto simp: link_file_def sys_alone [OF assms(1)] touch_def same_files_def split: if_splits)

text \<open>The end of a failed publication, which removes the staged name.\<close>

definition give_up :: "manifest_env \<Rightarrow> staged \<Rightarrow> unit mexec" where
  "give_up E g = seq (ignore_errors (unlink_file E (sg_path g))) (\<lambda>_. seq (ignore_errors (plain E)) (\<lambda>_. throw Config_invalid))"

lemma give_up_target:
  assumes "me_others E = (\<lambda>_ s. s)" "sg_path g \<noteq> sg_target g" "give_up E g s = (r, s')"
  shows "map_of (mf_names s') (sg_target g) = map_of (mf_names s) (sg_target g)"
  using assms(2,3)
  by (auto simp: give_up_def ignore_errors_def unlink_file_def touch_def calm_steps sys_alone [OF assms(1)] map_of_filter_other
      split: if_splits option.splits)

lemma failed_publish_body:
  assumes "one_failure E" "sg_path g \<noteq> sg_target g" "map_of (mf_names s) (sg_target g) = None"
    and "filter (\<lambda>x. snd x = i) (mf_names s) = [(sg_path g, i)]" "map_of (mf_names s) (sg_path g) = Some i"
    and "publish_body E g s = (Inl e, s')"
  shows "map_of (mf_names s') (sg_target g) = None"
proof -
  have o: "me_others E = (\<lambda>_ s. s)" using assms(1) by (simp add: one_failure_def)
  obtain r1 s1 where c: "check_staged E g s = (r1, s1)" by force
  note c' = check_staged_result [OF o c]
  show ?thesis
  proof (cases r1)
    case (Inl e1)
    then have "give_up E g s1 = (Inl e, s')" using assms(6) c by (simp add: publish_body_def give_up_def catch_def seq_def)
    then show ?thesis using give_up_target [OF o assms(2)] c' assms(3) by (simp add: same_files_def)
  next
    case (Inr u)
    obtain r2 s2 where l: "link_file E (sg_path g) (sg_target g) s1 = (r2, s2)" by force
    have n1: "mf_names s1 = mf_names s" "mf_inodes s1 = mf_inodes s" using c' by (simp_all add: same_files_def)
    have st: "private_stat E (stat_of i s)" "sameStageFile g (stat_of i s)" using c' Inr assms(5) by auto
    note l' = link_result [OF o l, unfolded n1, OF assms(5,3)]
    show ?thesis
    proof (cases r2)
      case (Inl e2)
      then have "give_up E g s2 = (Inl e, s')"
        using assms(6) c l \<open>r1 = Inr u\<close> by (simp add: publish_body_def give_up_def catch_def seq_def)
      then show ?thesis using give_up_target [OF o assms(2)] l' Inl assms(3) n1 by (simp add: same_files_def)
    next
      case (Inr v)
      then obtain now where n2: "mf_names s2 = (sg_target g, i) # mf_names s"
        "mf_inodes s2 = (mf_inodes s)(i := (mf_inodes s i)\<lparr>in_ctime := now\<rparr>)" using l' by auto
      obtain r3 s3 where f: "finish_publish E g s2 = (r3, s3)" by force
      show ?thesis
      proof (cases r3)
        case (Inr w)
        then show ?thesis using assms(6) c l f \<open>r1 = Inr u\<close> \<open>r2 = Inr v\<close> by (simp add: publish_body_def catch_def seq_def)
      next
        case (Inl e3)
        have "linked E g i s2" using n2 st(2) by (simp add: linked_def stat_of_def samePublishedFile_def sameStageFile_def)
        moreover have "filter (\<lambda>x. snd x = i) (filter (\<lambda>x. fst x \<noteq> sg_path g) (mf_names s2)) = [(sg_target g, i)]"
          using n2 filter_moved [OF assms(4)] assms(2) by simp
        moreover have "map_of (mf_names s2) (sg_path g) = Some i" using n2 assms(2,5) by simp
        moreover have "private_stat E (stat_of i s2\<lparr>ms_nlink := 1\<rparr>)" using n2 st(1) by (simp add: private_stat_def stat_of_def)
        ultimately have "linked E g i s3" "\<forall>n \<ge> mf_step s3. \<not> me_fault E n"
          using finish_linked [OF assms(1) _ assms(2) _ _ _ f [unfolded Inl]] by blast+
        then obtain s4 where u: "undo_target E g s3 = (Inr (), s4)" "map_of (mf_names s4) (sg_target g) = None"
          using undo_linked [OF o] by blast
        then have "give_up E g s4 = (Inl e, s')"
          using assms(6) c l f Inl \<open>r1 = Inr u\<close> \<open>r2 = Inr v\<close> by (simp add: publish_body_def give_up_def catch_def seq_def throw_def)
        then show ?thesis using give_up_target [OF o assms(2)] u(2) by simp
      qed
    qed
  qed
qed

text \<open>A publication that fails because one call fails, whichever it is, leaves no manifest behind: the target name, free before, is free again. The only exception is a call that fails when everything is done and the handles are being closed.\<close>

theorem failed_publish_leaves_nothing:
  assumes "one_failure E" "sg_path g \<noteq> sg_target g" "map_of (mf_names s) (sg_target g) = None"
    and "filter (\<lambda>x. snd x = i) (mf_names s) = [(sg_path g, i)]" "map_of (mf_names s) (sg_path g) = Some i"
    and "publishRecoveryManifest E g s = (Inl e, s')"
  shows "map_of (mf_names s') (sg_target g) = None \<or>
    (\<exists>s2. publish_body E g (s\<lparr>mf_step := Suc (mf_step s)\<rparr>) = (Inr (), s2) \<and> close_all E s2 = (Inl e, s'))"
proof -
  have o: "me_others E = (\<lambda>_ s. s)" using assms(1) by (simp add: one_failure_def)
  then have k: "kept_by_others E (\<lambda>ns. map_of ns (sg_target g) = None)" by (simp add: kept_by_others_def)
  let ?s = "s\<lparr>mf_step := Suc (mf_step s)\<rparr>"
  obtain r1 s1 r2 s2 where r: "publish_body E g ?s = (r1, s1)" "close_all E s1 = (r2, s2)" by (metis surj_pair)
  consider "s' = s" | "s' = ?s" | "same_parent g" "\<not> me_fault E (mf_step s)"
    using assms(6) by (auto simp: publishRecoveryManifest_def calm_steps sys_alone [OF o] split: if_splits)
  then show ?thesis
  proof cases
    case 3
    then have s': "(case r2 of Inl e2 \<Rightarrow> Inl e2 | Inr _ \<Rightarrow> r1) = Inl e" "s' = s2"
      using assms(6) r by (auto simp: publishRecoveryManifest_def seq_def check_def ret_def plain_def sys_alone [OF o] finalize_def
          split: sum.splits)
    show ?thesis
    proof (cases r1)
      case (Inl e1)
      have "map_of (mf_names s1) (sg_target g) = None"
        using failed_publish_body [OF assms(1,2) _ _ _ r(1) [unfolded Inl]] assms(3-5) by simp
      then have "map_of (mf_names s2) (sg_target g) = None"
        using through_close [OF k] r(2) by (cases r2) (auto simp: through_def dest: triple_Inr triple_Inl)
      then show ?thesis using s'(2) by simp
    next
      case (Inr u)
      then show ?thesis using r s' by (auto split: sum.splits)
    qed
  qed (use assms(3) in simp_all)
qed

section \<open>A manifest\<close>

definition demo_digest :: string where
  "demo_digest = ''sha256:v1:'' @ replicate 64 CHR ''b''"

definition demo_menv :: manifest_env where
  "demo_menv = \<lparr>me_fault = (\<lambda>_. False), me_others = (\<lambda>_ s. s), me_clock = (\<lambda>n. n), me_newInode = (\<lambda>_. 7), me_random = (\<lambda>_. ''r''),
     me_uid = Some 5, me_dev = 1, me_creator = 5, me_parse = (\<lambda>_. Some (manifest_json demo_digest))\<rparr>"

definition demo_fs :: mfs where
  "demo_fs = \<lparr>mf_names = [], mf_inodes = (\<lambda>_. \<lparr>in_dev = 1, in_ino = 9, in_mtime = 0, in_ctime = 0, in_mode = 0, in_uid = 0, in_isFile = True,
     in_symlink = False, in_content = ''x''\<rparr>), mf_step = 0, mf_open = False\<rparr>"

lemma demo_calm: "calm demo_menv"
  by (simp add: calm_def demo_menv_def)

lemma demo_digest_schema: "digest_schema demo_digest"
  by (simp add: digest_schema_def event_fingerprint_schema_def demo_digest_def list_all_iff is_hex_def is_digit_def)

lemma demo_names: "manifest_path ''/r/m''" "dirname ''/r/m'' \<noteq> ''/''" "staged_name demo_menv (dirname ''/r/m'') 0 \<noteq> ''/r/m''"
  "list_all (\<lambda>c. 32 \<le> (of_char c :: nat) \<and> c \<noteq> CHR ''/'') (me_random demo_menv 0)"
  by code_simp+

lemma demo_manifest_free: "map_of (mf_names demo_fs) p = None" "\<forall>n. \<forall>x \<in> set (mf_names demo_fs). snd x \<noteq> me_newInode demo_menv n"
  "owned_by demo_menv (me_creator demo_menv)" "me_parse demo_menv (manifest_text demo_digest) = Some (manifest_json demo_digest)"
  by (simp_all add: demo_fs_def demo_menv_def owned_by_def)

theorem staged_digest_is_consumed_witness:
  "\<exists>g s1 s2 s3. stageRecoveryManifest demo_menv ''/r/m'' demo_digest demo_fs = (Inr g, s1) \<and>
     publishRecoveryManifest demo_menv g s1 = (Inr (), s2) \<and> consumeRecoveryManifest demo_menv ''/r/m'' s2 = (Inr demo_digest, s3)"
  by (rule staged_digest_is_consumed [OF demo_calm demo_names(1,2) demo_digest_schema demo_manifest_free(1) demo_manifest_free(1)
        demo_names(3,4) demo_manifest_free(2-4)])

definition demo_manifest_fs :: "string \<Rightarrow> mfs" where
  "demo_manifest_fs p = demo_fs\<lparr>mf_names := [(p, 7)], mf_inodes := (\<lambda>_. \<lparr>in_dev = 1, in_ino = 7, in_mtime = 1, in_ctime = 1,
     in_mode = 384, in_uid = 5, in_isFile = True, in_symlink = False, in_content = manifest_text demo_digest\<rparr>)\<rparr>"

lemma demo_holds: "holds_manifest demo_menv (demo_manifest_fs p) p 7 demo_digest"
  by (simp add: holds_manifest_def demo_manifest_fs_def demo_menv_def owned_by_def)

lemma demo_leaves: "leaves_name demo_menv p"
  by (simp add: leaves_name_def kept_by_others_def demo_menv_def)

theorem consumed_at_most_once_witness:
  "\<exists>s'. consumeRecoveryManifest demo_menv ''/r/m'' (demo_manifest_fs ''/r/m'') = (Inr demo_digest, s') \<and> map_of (mf_names s') ''/r/m'' = None"
proof -
  obtain s' where s': "consumeRecoveryManifest demo_menv ''/r/m'' (demo_manifest_fs ''/r/m'') = (Inr demo_digest, s')"
    using consume_calm [OF demo_calm demo_names(1) demo_holds demo_digest_schema demo_manifest_free(4)] by blast
  obtain r s'' where "consumeRecoveryManifest demo_menv ''/r/m'' s' = (r, s'')" by force
  from consumed_at_most_once [OF demo_leaves s' this] s' show ?thesis by blast
qed

definition demo_stage :: staged where
  "demo_stage = \<lparr>sg_target = ''/r/m'', sg_path = ''/r/p'', sg_dev = 1, sg_ino = 7, sg_size = length (manifest_text demo_digest),
     sg_mtime = 1, sg_ctime = 1\<rparr>"

theorem publish_never_replaces_witness:
  "map_of (mf_names (snd (publishRecoveryManifest demo_menv demo_stage (demo_manifest_fs ''/r/m'')))) ''/r/m'' = Some 7"
proof -
  have "map_of (mf_names (demo_manifest_fs ''/r/m'')) (sg_target demo_stage) = Some 7" "sg_path demo_stage \<noteq> sg_target demo_stage"
    by (simp_all add: demo_manifest_fs_def demo_stage_def)
  from publish_never_replaces [OF demo_leaves this(2,1), of _ "snd (publishRecoveryManifest demo_menv demo_stage (demo_manifest_fs ''/r/m''))"]
  show ?thesis by (metis demo_stage_def prod.collapse staged.select_convs(1))
qed

text \<open>The unlinking of the staged name, the seventh call, fails.\<close>

definition demo_failing :: manifest_env where
  "demo_failing = demo_menv\<lparr>me_fault := (\<lambda>n. n = 6)\<rparr>"

lemma demo_failing_publish: "\<exists>e s'. publishRecoveryManifest demo_failing demo_stage (demo_manifest_fs ''/r/p'') = (Inl e, s') \<and>
    fst (publish_body demo_failing demo_stage ((demo_manifest_fs ''/r/p'')\<lparr>mf_step := 1\<rparr>)) \<noteq> Inr ()"
proof -
  have E: "me_others demo_failing = (\<lambda>_ s. s)" "me_fault demo_failing = (\<lambda>n. n = 6)" "me_uid demo_failing = Some 5"
    by (simp_all add: demo_failing_def demo_menv_def)
  have len: "Suc 0 \<le> length (manifest_text demo_digest)" "length (manifest_text demo_digest) \<le> 512"
    using manifest_text_length [OF demo_digest_schema] by simp_all
  have parent: "same_parent demo_stage" by (simp add: same_parent_def demo_stage_def) code_simp
  show ?thesis
    using parent len
    by (simp add: publishRecoveryManifest_def publish_body_def check_staged_def finish_publish_def undo_target_def ignore_errors_def
        open_file_def fstat_def lstat_existing_def lstat_def existing_def link_file_def unlink_file_def touch_def calm_steps
        sys_alone [OF E(1)] E private_stat_def owned_by_def stat_of_def samePublishedFile_def sameStageFile_def demo_stage_def
        demo_manifest_fs_def demo_fs_def)
qed

theorem failed_publish_leaves_nothing_witness:
  "map_of (mf_names (snd (publishRecoveryManifest demo_failing demo_stage (demo_manifest_fs ''/r/p'')))) ''/r/m'' = None"
proof -
  obtain e s' where p: "publishRecoveryManifest demo_failing demo_stage (demo_manifest_fs ''/r/p'') = (Inl e, s')"
    "fst (publish_body demo_failing demo_stage ((demo_manifest_fs ''/r/p'')\<lparr>mf_step := 1\<rparr>)) \<noteq> Inr ()"
    using demo_failing_publish by blast
  have one: "one_failure demo_failing" by (simp add: one_failure_def demo_failing_def demo_menv_def)
  have start: "sg_path demo_stage \<noteq> sg_target demo_stage" "map_of (mf_names (demo_manifest_fs ''/r/p'')) (sg_target demo_stage) = None"
    "filter (\<lambda>x. snd x = 7) (mf_names (demo_manifest_fs ''/r/p'')) = [(sg_path demo_stage, 7)]"
    "map_of (mf_names (demo_manifest_fs ''/r/p'')) (sg_path demo_stage) = Some 7" "mf_step (demo_manifest_fs ''/r/p'') = 0"
    by (simp_all add: demo_manifest_fs_def demo_stage_def demo_fs_def)
  from failed_publish_leaves_nothing [OF one start(1-4) p(1)] p(2) start(5)
  have "map_of (mf_names s') (sg_target demo_stage) = None" by auto
  then show ?thesis using p(1) by (simp add: demo_stage_def)
qed

section \<open>A manifest in the root directory\<close>

lemma dirname_under_root:
  assumes "CHR ''/'' \<notin> set r" "r \<noteq> []"
  shows "dirname (''//'' @ r) = ''//''"
proof -
  have "dropWhile (\<lambda>c. c = CHR ''/'') (rev (''//'' @ r)) = rev r @ ''//''"
    using assms by (cases "rev r") auto
  moreover have "dropWhile (\<lambda>c. c \<noteq> CHR ''/'') (rev r @ ''//'') = ''//''"
    by (subst dropWhile_append2) (use assms(1) in auto)
  ultimately show ?thesis by (simp add: dirname_def Let_def)
qed

text \<open>A manifest directly in the root directory can be staged but neither published nor discarded: the staged name begins with two slashes, so its directory is read as another one than the target's, and both operations refuse the stage before they touch a file.\<close>

theorem root_manifest_is_stuck:
  assumes "dirname (sg_target g) = ''/''" "sg_path g = staged_name E ''/'' k" "CHR ''/'' \<notin> set (me_random E k)"
  shows "publishRecoveryManifest E g s = (Inl Config_invalid, s) \<and> discardRecoveryManifest E g s = (Inl Config_invalid, s)"
proof -
  have "sg_path g = ''//'' @ (''.compaction-recovery-'' @ me_random E k @ ''.pending'')" by (simp add: assms(2) staged_name_def)
  moreover have "CHR ''/'' \<notin> set (''.compaction-recovery-'' @ me_random E k @ ''.pending'')" using assms(3) by simp
  ultimately have "dirname (sg_path g) = ''//''" using dirname_under_root by simp
  then have "\<not> same_parent g" using assms(1) by (simp add: same_parent_def)
  then show ?thesis
    by (simp add: publishRecoveryManifest_def discardRecoveryManifest_def seq_def check_def throw_def)
qed

theorem root_manifest_is_stuck_witness:
  "publishRecoveryManifest demo_menv (demo_stage\<lparr>sg_target := ''/m'', sg_path := staged_name demo_menv ''/'' 0\<rparr>) demo_fs =
     (Inl Config_invalid, demo_fs)"
proof -
  have "dirname ''/m'' = ''/''" "CHR ''/'' \<notin> set (me_random demo_menv 0)" by (code_simp, simp add: demo_menv_def)
  then show ?thesis
    using root_manifest_is_stuck [of "demo_stage\<lparr>sg_target := ''/m'', sg_path := staged_name demo_menv ''/'' 0\<rparr>" demo_menv 0 demo_fs] by simp
qed

end
