(* ===== verification/Server.thy ===== *)
theory Server
  imports Repository
begin

text \<open>
  The webhook server (\<open>src/session-controller/src/intake/server.ts\<close>). A request is handled by a task
  that runs in pieces: up to its first \<open>await\<close> when it arrives, one listener call per body event, the
  rest of the handler up to \<open>store.accept\<close> once the body is there, and the answer of the store. One
  \<open>server_event\<close> is one such piece; pieces of different requests, \<open>stopIntake\<close>, \<open>close\<close> and lost
  connections interleave as they come. Header values are the bytes of the connection
  (Node decodes them as Latin-1). The readiness port's answer is a value of the event: \<open>None\<close> is a throw.
\<close>

section \<open>Headers\<close>

definition lower_ascii :: "char \<Rightarrow> char" where
  "lower_ascii c = (if 65 \<le> (of_char c :: nat) \<and> (of_char c :: nat) \<le> 90
     then char_of ((of_char c :: nat) + 32) else c)"

fun header_values :: "string list \<Rightarrow> string \<Rightarrow> string list" where
  "header_values [] name = []"
| "header_values [n] name = (if map lower_ascii n = name then [''''] else [])"
| "header_values (n # v # rest) name =
     (if map lower_ascii n = name then v # header_values rest name else header_values rest name)"

definition singleHeader :: "string list \<Rightarrow> string \<Rightarrow> string option" where
  "singleHeader raw name = (case header_values raw name of [v] \<Rightarrow> Some v | _ \<Rightarrow> None)"

definition js_space :: "char \<Rightarrow> bool" where
  "js_space c \<longleftrightarrow> blank1 c \<or> c = CHR 0xA0"

text \<open>\<open>/^application\\/json(?:\\s*;\\s*charset=utf-8)?$/i\<close>\<close>

definition json_media :: "string \<Rightarrow> bool" where
  "json_media t =
     (let l = map lower_ascii t in
      take 16 l = ''application/json'' \<and>
      (drop 16 l = [] \<or>
       (case dropWhile js_space (drop 16 l) of
          [] \<Rightarrow> False
        | c # s \<Rightarrow> c = CHR '';'' \<and> dropWhile js_space s = ''charset=utf-8'')))"

definition media_ok :: "string list \<Rightarrow> bool" where
  "media_ok raw =
     (case singleHeader raw ''content-type'' of
        None \<Rightarrow> False
      | Some t \<Rightarrow> json_media t \<and>
          (case singleHeader raw ''content-encoding'' of
             None \<Rightarrow> header_values raw ''content-encoding'' = []
           | Some e \<Rightarrow> e = ''identity''))"

definition length_check :: "nat \<Rightarrow> string list \<Rightarrow> error_class + unit" where
  "length_check maxBodyBytes raw =
     (case singleHeader raw ''content-length'' of
        None \<Rightarrow> Inr ()
      | Some n \<Rightarrow>
          if \<not> canonical n \<or> max_safe < dval n then Inl Body_invalid
          else if maxBodyBytes < dval n then Inl Body_too_large
          else Inr ())"

record signed_headers =
  sh_timestamp :: string
  sh_signature :: string
  sh_request :: string

definition signed_headers_of :: "string list \<Rightarrow> error_class + signed_headers" where
  "signed_headers_of raw =
     (case (singleHeader raw ''x-webhook-timestamp'', singleHeader raw ''x-webhook-signature-v2'',
        singleHeader raw ''x-request-id'') of
        (Some t, Some s, Some r) \<Rightarrow>
          if opaque_id r then Inr \<lparr>sh_timestamp = t, sh_signature = s, sh_request = r\<rparr>
          else Inl Signature_invalid
      | _ \<Rightarrow> Inl Signature_invalid)"

section \<open>The body\<close>

datatype body_event = Data string | End | Abort | Timer

record reading =
  rd_bytes :: nat
  rd_chunks :: "string list"

datatype body_state = Pending reading | Failed_body error_class | Body string

definition no_body :: body_state where
  "no_body = Pending \<lparr>rd_bytes = 0, rd_chunks = []\<rparr>"

text \<open>\<open>readBody\<close>: once the promise is settled its listeners are off.\<close>

fun read_event :: "nat \<Rightarrow> body_state \<Rightarrow> body_event \<Rightarrow> body_state" where
  "read_event limit (Pending r) (Data chunk) =
     (if limit < rd_bytes r + length chunk then Failed_body Body_too_large
      else Pending \<lparr>rd_bytes = rd_bytes r + length chunk, rd_chunks = rd_chunks r @ [chunk]\<rparr>)"
| "read_event limit (Pending r) End = Body (concat (rd_chunks r))"
| "read_event limit (Pending r) Abort = Failed_body Body_invalid"
| "read_event limit (Pending r) Timer = Failed_body Request_timeout"
| "read_event limit settled e = settled"

section \<open>The handler\<close>

record http_request =
  rq_url :: string
  rq_method :: string
  rq_headers :: "string list"

record server_config =
  sv_webhookPath :: string
  sv_maxBodyBytes :: nat
  sv_maxInflight :: nat
  sv_secret :: string
  sv_freshness :: nat
  sv_policy :: admission_policy

text \<open>What a request is waiting for, the reply and diagnostic a request ends with.\<close>

datatype flight =
    Reading signed_headers body_state
  | Accepting notification

datatype response_body = Status string | Delivery string string | Error_text string | Error_class error_class

record response =
  rs_status :: nat
  rs_body :: response_body
  rs_close :: bool

datatype intake_note = Note_accepted notification | Note_duplicate notification | Note_error error_class nat
  | Note_listen_failed

fun error_status :: "error_class \<Rightarrow> nat" where
  "error_status Signature_invalid = 401"
| "error_status Policy_denied = 403"
| "error_status Body_too_large = 413"
| "error_status Request_timeout = 408"
| "error_status Identity_conflict = 409"
| "error_status Store_unavailable = 503"
| "error_status Not_ready = 503"
| "error_status Intake_closed = 503"
| "error_status Internal_failed = 500"
| "error_status _ = 400"

datatype close_phase = Serving | Closing | Draining "nat set"

record server =
  sv_stopping :: bool
  sv_active :: nat
  sv_flights :: "nat \<Rightarrow> flight option"
  sv_seen :: "nat set"
  sv_gone :: "nat set"
  sv_replies :: "(nat \<times> response) list"
  sv_accepts :: "(nat \<times> notification) list"
  sv_notes :: "intake_note list"
  sv_listening :: bool
  sv_pending :: bool
  sv_closing :: close_phase

text \<open>
  The variables of \<open>createWebhookServer\<close>; \<open>tasks\<close> are the requests in \<open>sv_flights\<close>. \<open>sv_seen\<close> are the
  requests that arrived, \<open>sv_gone\<close> those whose response is destroyed; \<open>sv_replies\<close>, \<open>sv_accepts\<close> (the calls
  of \<open>store.accept\<close>) and \<open>sv_notes\<close> (diagnostics) record what the server did.
\<close>

definition new_server :: server where
  "new_server = \<lparr>sv_stopping = False, sv_active = 0, sv_flights = (\<lambda>_. None), sv_seen = {}, sv_gone = {}, sv_replies = [],
     sv_accepts = [], sv_notes = [], sv_listening = False, sv_pending = False, sv_closing = Serving\<rparr>"

definition createWebhookServer :: "server_config \<Rightarrow> error_class + server" where
  "createWebhookServer cfg =
     (if signature_config_ok (sv_secret cfg) (sv_freshness cfg) then Inr new_server else Inl Config_invalid)"

definition ready :: "server \<Rightarrow> bool option \<Rightarrow> bool" where
  "ready s port \<longleftrightarrow> \<not> sv_stopping s \<and> port = Some True"

text \<open>\<open>reply\<close>: nothing is sent on a destroyed response, nor twice.\<close>

definition send_reply :: "nat \<Rightarrow> response \<Rightarrow> server \<Rightarrow> server" where
  "send_reply i r s =
     (if i \<in> sv_gone s \<or> i \<in> fst ` set (sv_replies s) then s
      else s\<lparr>sv_replies := sv_replies s @ [(i, r)]\<rparr>)"

definition emit_note :: "intake_note \<Rightarrow> server \<Rightarrow> server" where
  "emit_note n s = s\<lparr>sv_notes := sv_notes s @ [n]\<rparr>"

text \<open>The end of an admitted request: \<open>finally { active--; }\<close>, and its task leaves \<open>tasks\<close>.\<close>

definition leave :: "nat \<Rightarrow> server \<Rightarrow> server" where
  "leave i s = s\<lparr>sv_active := sv_active s - 1, sv_flights := (sv_flights s)(i := None),
     sv_closing := (case sv_closing s of Draining T \<Rightarrow> Draining (T - {i}) | c \<Rightarrow> c)\<rparr>"

definition refuse :: "nat \<Rightarrow> error_class \<Rightarrow> server \<Rightarrow> server" where
  "refuse i code s =
     leave i (emit_note (Note_error code (error_status code))
       (send_reply i \<lparr>rs_status = error_status code, rs_body = Error_class code, rs_close = True\<rparr> s))"

definition plain_reply :: "nat \<Rightarrow> nat \<Rightarrow> response_body \<Rightarrow> server \<Rightarrow> server" where
  "plain_reply i status body s = send_reply i \<lparr>rs_status = status, rs_body = body, rs_close = True\<rparr> s"

text \<open>The first piece of an admitted request: the headers, up to \<open>await readBody\<close>.\<close>

definition admit_request :: "server_config \<Rightarrow> nat \<Rightarrow> http_request \<Rightarrow> server \<Rightarrow> server" where
  "admit_request cfg i rq s =
     (let s = s\<lparr>sv_active := sv_active s + 1\<rparr> in
      if \<not> media_ok (rq_headers rq) then leave i (plain_reply i 415 (Error_text ''unsupported_media_type'') s)
      else
        case length_check (sv_maxBodyBytes cfg) (rq_headers rq) of
          Inl code \<Rightarrow> refuse i code s
        | Inr _ \<Rightarrow>
            (case signed_headers_of (rq_headers rq) of
               Inl code \<Rightarrow> refuse i code s
             | Inr h \<Rightarrow> s\<lparr>sv_flights := (sv_flights s)(i \<mapsto> Reading h no_body)\<rparr>))"

definition arrive :: "server_config \<Rightarrow> nat \<Rightarrow> http_request \<Rightarrow> bool option \<Rightarrow> server \<Rightarrow> server" where
  "arrive cfg i rq port s =
     (if rq_url rq = ''/ready'' \<and> rq_method rq = ''GET'' then
        (if ready s port then plain_reply i 200 (Status ''ready'') s else plain_reply i 503 (Status ''unavailable'') s)
      else if rq_url rq \<noteq> sv_webhookPath cfg then plain_reply i 404 (Error_text ''not_found'') s
      else if rq_method rq \<noteq> ''POST'' then plain_reply i 405 (Error_text ''method_not_allowed'') s
      else if \<not> ready s port \<or> sv_maxInflight cfg \<le> sv_active s then
        plain_reply i 503 (Error_text (if sv_stopping s then ''intake_closed'' else ''not_ready'')) s
      else admit_request cfg i rq s)"

definition body_arrives :: "server_config \<Rightarrow> nat \<Rightarrow> body_event \<Rightarrow> server \<Rightarrow> server" where
  "body_arrives cfg i e s =
     (case sv_flights s i of
        Some (Reading h b) \<Rightarrow>
          s\<lparr>sv_flights := (sv_flights s)(i \<mapsto> Reading h (read_event (sv_maxBodyBytes cfg) b e))\<rparr>
      | _ \<Rightarrow> s)"

text \<open>The checks between the body and \<open>store.accept\<close>: signature, payload, identity, readiness.\<close>

definition check_body :: "(string \<Rightarrow> string \<Rightarrow> string) \<Rightarrow> (string \<Rightarrow> json option) \<Rightarrow> server_config \<Rightarrow>
    nat \<Rightarrow> signed_headers \<Rightarrow> string \<Rightarrow> error_class + notification" where
  "check_body hmac parse cfg now h body =
     (case verifySignature hmac (sv_secret cfg) (sv_freshness cfg) now body (Some (sh_timestamp h)) (Some (sh_signature h)) of
        Inl code \<Rightarrow> Inl code
      | Inr _ \<Rightarrow>
          (case parsePayload parse body (sv_policy cfg) of
             Inl code \<Rightarrow> Inl code
           | Inr event \<Rightarrow> if sh_request h \<noteq> event_id event then Inl Payload_invalid else Inr event))"

definition resume :: "(string \<Rightarrow> string \<Rightarrow> string) \<Rightarrow> (string \<Rightarrow> json option) \<Rightarrow> server_config \<Rightarrow> nat \<Rightarrow>
    nat \<Rightarrow> bool option \<Rightarrow> server \<Rightarrow> server" where
  "resume hmac parse cfg i now port s =
     (case sv_flights s i of
        Some (Reading h (Failed_body code)) \<Rightarrow> refuse i code s
      | Some (Reading h (Body body)) \<Rightarrow>
          (case check_body hmac parse cfg now h body of
             Inl code \<Rightarrow> refuse i code s
           | Inr event \<Rightarrow>
               if \<not> ready s port then refuse i (if sv_stopping s then Intake_closed else Not_ready) s
               else s\<lparr>sv_flights := (sv_flights s)(i \<mapsto> Accepting event),
                  sv_accepts := sv_accepts s @ [(i, event)]\<rparr>)
      | _ \<Rightarrow> s)"

text \<open>The answer of \<open>store.accept\<close>: \<open>None\<close> is a rejection or a value without the schema.\<close>

definition accept_result :: "acceptance option \<Rightarrow> error_class + bool" where
  "accept_result answer =
     (case answer of
        None \<Rightarrow> Inl Store_unavailable
      | Some A_unavailable \<Rightarrow> Inl Store_unavailable
      | Some A_conflict \<Rightarrow> Inl Identity_conflict
      | Some A_duplicate \<Rightarrow> Inr True
      | Some A_accepted \<Rightarrow> Inr False)"

definition store_answers :: "nat \<Rightarrow> acceptance option \<Rightarrow> server \<Rightarrow> server" where
  "store_answers i answer s =
     (case sv_flights s i of
        Some (Accepting event) \<Rightarrow>
          (case accept_result answer of
             Inl code \<Rightarrow> refuse i code s
           | Inr duplicate \<Rightarrow>
               leave i (emit_note (if duplicate then Note_duplicate event else Note_accepted event)
                 (send_reply i \<lparr>rs_status = (if duplicate then 200 else 202),
                    rs_body = Delivery (if duplicate then ''duplicate'' else ''accepted'') (event_id event),
                    rs_close = False\<rparr> s)))
      | _ \<Rightarrow> s)"

section \<open>Listening and closing\<close>

definition listen_hosts :: "string list" where
  "listen_hosts = [''127.0.0.1'', ''::1'', ''0.0.0.0'']"

text \<open>\<open>listen\<close>: the rejection of a refused call, or a pending bind. \<open>throws\<close>: \<open>server.listen\<close> threw.\<close>

definition listen :: "int \<Rightarrow> string \<Rightarrow> bool \<Rightarrow> server \<Rightarrow> (error_class + unit) \<times> server" where
  "listen port host throws s =
     (if sv_stopping s \<or> sv_listening s \<or> port < 0 \<or> 65535 < port \<or> host \<notin> set listen_hosts
      then (Inl Listen_failed, s)
      else if throws then (Inl Listen_failed, s\<lparr>sv_listening := False\<rparr>)
      else (Inr (), s\<lparr>sv_listening := True, sv_pending := True\<rparr>))"

definition bound :: "server \<Rightarrow> server" where
  "bound s = s\<lparr>sv_pending := False\<rparr>"

text \<open>An \<open>error\<close> event: always a diagnostic, and the end of a pending bind.\<close>

definition server_error :: "server \<Rightarrow> server" where
  "server_error s =
     (let s = emit_note Note_listen_failed s in
      if sv_pending s then s\<lparr>sv_pending := False, sv_listening := False\<rparr> else s)"

definition stopIntake :: "server \<Rightarrow> server" where
  "stopIntake s = s\<lparr>sv_stopping := True\<rparr>"

text \<open>\<open>close\<close>: the first call stops the intake and waits for the connections, then for the tasks.\<close>

definition close_server :: "server \<Rightarrow> server" where
  "close_server s = (case sv_closing s of Serving \<Rightarrow> s\<lparr>sv_stopping := True, sv_closing := Closing\<rparr> | _ \<Rightarrow> s)"

definition connections_closed :: "server \<Rightarrow> server" where
  "connections_closed s =
     (case sv_closing s of
        Closing \<Rightarrow> s\<lparr>sv_closing := Draining {i. sv_flights s i \<noteq> None}\<rparr>
      | _ \<Rightarrow> s)"

definition close_resolved :: "server \<Rightarrow> bool" where
  "close_resolved s \<longleftrightarrow> sv_closing s = Draining {}"

section \<open>Steps\<close>

datatype server_event =
    Arrive nat http_request "bool option"
  | Body_event nat body_event
  | Resume nat nat "bool option"
  | Store_answer nat "acceptance option"
  | Hangup nat
  | Listen int string bool
  | Bound
  | Server_error
  | Stop_intake
  | Close
  | Connections_closed

text \<open>
  An event that cannot happen leaves the state: a request arrives once, under a number of its own, and
  none once the closed server has no connection left.
\<close>

fun server_step :: "(string \<Rightarrow> string \<Rightarrow> string) \<Rightarrow> (string \<Rightarrow> json option) \<Rightarrow> server_config \<Rightarrow>
    server \<Rightarrow> server_event \<Rightarrow> server" where
  "server_step hmac parse cfg s (Arrive i rq port) =
     (if i \<in> sv_seen s \<or> (case sv_closing s of Draining T \<Rightarrow> True | _ \<Rightarrow> False) then s
      else arrive cfg i rq port (s\<lparr>sv_seen := insert i (sv_seen s)\<rparr>))"
| "server_step hmac parse cfg s (Body_event i e) = body_arrives cfg i e s"
| "server_step hmac parse cfg s (Resume i now port) = resume hmac parse cfg i now port s"
| "server_step hmac parse cfg s (Store_answer i a) = store_answers i a s"
| "server_step hmac parse cfg s (Hangup i) = s\<lparr>sv_gone := insert i (sv_gone s)\<rparr>"
| "server_step hmac parse cfg s (Listen port host throws) = snd (listen port host throws s)"
| "server_step hmac parse cfg s Bound = bound s"
| "server_step hmac parse cfg s Server_error = server_error s"
| "server_step hmac parse cfg s Stop_intake = stopIntake s"
| "server_step hmac parse cfg s Close = close_server s"
| "server_step hmac parse cfg s Connections_closed = connections_closed s"

definition serve :: "(string \<Rightarrow> string \<Rightarrow> string) \<Rightarrow> (string \<Rightarrow> json option) \<Rightarrow> server_config \<Rightarrow>
    server \<Rightarrow> server_event list \<Rightarrow> server" where
  "serve hmac parse cfg = foldl (server_step hmac parse cfg)"

end
