(* ===== verification/Server_Spec.thy ===== *)
theory Server_Spec
  imports Server
begin

text \<open>
  What holds of the webhook server along any sequence of events: the number of requests in flight, what
  stands behind a positive answer, the end of the intake, and the answers of every request.
\<close>

section \<open>Preservation\<close>

lemmas server_defs = arrive_def admit_request_def plain_reply_def refuse_def leave_def send_reply_def emit_note_def
  body_arrives_def resume_def store_answers_def listen_def bound_def server_error_def stopIntake_def
  close_server_def connections_closed_def

lemma serve_simps [simp]:
  "serve hmac parse cfg s [] = s"
  "serve hmac parse cfg s (es @ [e]) = server_step hmac parse cfg (serve hmac parse cfg s es) e"
  by (simp_all add: serve_def)

lemma serve_append: "serve hmac parse cfg s (es @ fs) = serve hmac parse cfg (serve hmac parse cfg s es) fs"
  by (simp add: serve_def)

lemma serve_invariant:
  assumes "I s" "\<And>s e. I s \<Longrightarrow> I (server_step hmac parse cfg s e)"
  shows "I (serve hmac parse cfg s es)"
  by (induction es rule: rev_induct) (simp_all add: assms)

text \<open>The primitives, by the fields they leave alone.\<close>

lemma send_reply_fields [simp]:
  "sv_stopping (send_reply i r s) = sv_stopping s" "sv_active (send_reply i r s) = sv_active s"
  "sv_flights (send_reply i r s) = sv_flights s" "sv_seen (send_reply i r s) = sv_seen s"
  "sv_gone (send_reply i r s) = sv_gone s" "sv_accepts (send_reply i r s) = sv_accepts s"
  "sv_closing (send_reply i r s) = sv_closing s"
  by (simp_all add: send_reply_def)

lemma emit_note_fields [simp]:
  "sv_stopping (emit_note n s) = sv_stopping s" "sv_active (emit_note n s) = sv_active s"
  "sv_flights (emit_note n s) = sv_flights s" "sv_seen (emit_note n s) = sv_seen s"
  "sv_gone (emit_note n s) = sv_gone s" "sv_accepts (emit_note n s) = sv_accepts s"
  "sv_closing (emit_note n s) = sv_closing s" "sv_replies (emit_note n s) = sv_replies s"
  by (simp_all add: emit_note_def)

lemma leave_fields [simp]:
  "sv_stopping (leave i s) = sv_stopping s" "sv_active (leave i s) = sv_active s - 1"
  "sv_flights (leave i s) = (sv_flights s)(i := None)" "sv_seen (leave i s) = sv_seen s"
  "sv_gone (leave i s) = sv_gone s" "sv_accepts (leave i s) = sv_accepts s" "sv_replies (leave i s) = sv_replies s"
  by (simp_all add: leave_def)

lemma send_reply_replies:
  "x \<in> set (sv_replies (send_reply i r s)) \<longleftrightarrow>
     x \<in> set (sv_replies s) \<or> x = (i, r) \<and> i \<notin> sv_gone s \<and> i \<notin> fst ` set (sv_replies s)"
  by (auto simp: send_reply_def)

section \<open>In flight\<close>

definition flights_ok :: "server_config \<Rightarrow> server \<Rightarrow> bool" where
  "flights_ok cfg s \<longleftrightarrow> finite (dom (sv_flights s)) \<and> sv_active s = card (dom (sv_flights s)) \<and>
     sv_active s \<le> sv_maxInflight cfg \<and> dom (sv_flights s) \<subseteq> sv_seen s"

lemma flights_ok_leave:
  assumes "flights_ok cfg s" "sv_flights s i \<noteq> None"
  shows "flights_ok cfg (leave i s)"
proof -
  have "i \<in> dom (sv_flights s)" using assms(2) by auto
  then show ?thesis using assms(1) by (auto simp: flights_ok_def card_Diff_singleton)
qed

lemma flights_ok_same:
  "flights_ok cfg s \<Longrightarrow> sv_active s' = sv_active s \<Longrightarrow> dom (sv_flights s') = dom (sv_flights s) \<Longrightarrow>
    sv_seen s \<subseteq> sv_seen s' \<Longrightarrow> flights_ok cfg s'"
  by (auto simp: flights_ok_def)

lemma flights_ok_arrive:
  assumes "flights_ok cfg s" "i \<notin> sv_seen s"
  shows "flights_ok cfg (arrive cfg i rq port (s\<lparr>sv_seen := insert i (sv_seen s)\<rparr>))"
proof -
  have free: "i \<notin> dom (sv_flights s)" using assms by (auto simp: flights_ok_def)
  then have none: "(sv_flights s)(i := None) = sv_flights s" by (auto simp: domIff)
  show ?thesis
    using assms(1) free
    by (auto simp: arrive_def admit_request_def plain_reply_def refuse_def flights_ok_def Let_def none
        card_insert_if split: sum.split)
qed

lemma flights_ok_step: "flights_ok cfg s \<Longrightarrow> flights_ok cfg (server_step hmac parse cfg s e)"
proof (cases e)
  case (Arrive i rq port)
  then show "flights_ok cfg s \<Longrightarrow> ?thesis" using flights_ok_arrive [of cfg s i rq port] by (auto split: close_phase.split)
next
  case (Body_event i e)
  then show "flights_ok cfg s \<Longrightarrow> ?thesis"
    by (auto simp: body_arrives_def intro!: flights_ok_same [of cfg s] split: option.split flight.split if_splits)
next
  case (Resume i now port)
  then show "flights_ok cfg s \<Longrightarrow> ?thesis"
    by (auto simp: resume_def refuse_def intro!: flights_ok_leave flights_ok_same [of cfg s]
        split: option.split flight.split body_state.split sum.split if_splits)
next
  case (Store_answer i a)
  then show "flights_ok cfg s \<Longrightarrow> ?thesis"
    by (auto simp: store_answers_def refuse_def intro!: flights_ok_leave flights_ok_same [of cfg s]
        split: option.split flight.split sum.split)
qed (auto simp: listen_def bound_def server_error_def stopIntake_def close_server_def connections_closed_def
    emit_note_def Let_def intro!: flights_ok_same [of cfg s] split: close_phase.split)

lemma flights_ok_serve: "flights_ok cfg (serve hmac parse cfg new_server es)"
  by (rule serve_invariant [where I = "flights_ok cfg", OF _ flights_ok_step]) (simp add: flights_ok_def new_server_def)

text \<open>C27: the counter \<open>active\<close> is, after any events, the number of admitted requests whose handler has not
ended, and it never passes \<open>maxInflight\<close>: every way out of the handler gives its slot back once.\<close>

theorem inflight_is_bounded:
  "finite (dom (sv_flights (serve hmac parse cfg new_server es))) \<and>
   sv_active (serve hmac parse cfg new_server es) = card (dom (sv_flights (serve hmac parse cfg new_server es))) \<and>
   sv_active (serve hmac parse cfg new_server es) \<le> sv_maxInflight cfg"
  using flights_ok_serve [of cfg hmac parse es] by (simp add: flights_ok_def)

section \<open>What stands behind an answer\<close>

definition request_admits :: "server_config \<Rightarrow> http_request \<Rightarrow> signed_headers \<Rightarrow> bool" where
  "request_admits cfg rq h \<longleftrightarrow> rq_url rq = sv_webhookPath cfg \<and> rq_method rq = ''POST'' \<and>
     media_ok (rq_headers rq) \<and> signed_headers_of (rq_headers rq) = Inr h"

definition admitted :: "(string \<Rightarrow> string \<Rightarrow> string) \<Rightarrow> (string \<Rightarrow> json option) \<Rightarrow> server_config \<Rightarrow>
    server_event list \<Rightarrow> nat \<Rightarrow> notification \<Rightarrow> bool" where
  "admitted hmac parse cfg es i event \<longleftrightarrow>
     (\<exists>rq h body now. Arrive i rq (Some True) \<in> set es \<and> request_admits cfg rq h \<and>
        length body \<le> sv_maxBodyBytes cfg \<and> Resume i now (Some True) \<in> set es \<and>
        check_body hmac parse cfg now h body = Inr event)"

lemma admitted_more: "admitted hmac parse cfg es i event \<Longrightarrow> admitted hmac parse cfg (es @ [e]) i event"
  unfolding admitted_def by (metis UnCI set_append)

fun body_ok :: "server_config \<Rightarrow> body_state \<Rightarrow> bool" where
  "body_ok cfg (Pending r) \<longleftrightarrow> rd_bytes r = length (concat (rd_chunks r)) \<and> rd_bytes r \<le> sv_maxBodyBytes cfg"
| "body_ok cfg (Failed_body c) \<longleftrightarrow> True"
| "body_ok cfg (Body b) \<longleftrightarrow> length b \<le> sv_maxBodyBytes cfg"

lemma body_ok_event: "body_ok cfg b \<Longrightarrow> body_ok cfg (read_event (sv_maxBodyBytes cfg) b e)"
  by (cases b; cases e) auto

text \<open>Requests being read; requests at the store; answers.\<close>

definition reading_ok :: "server_config \<Rightarrow> server_event list \<Rightarrow> server \<Rightarrow> bool" where
  "reading_ok cfg es s \<longleftrightarrow> (\<forall>i h b. sv_flights s i = Some (Reading h b) \<longrightarrow>
     body_ok cfg b \<and> (\<exists>rq. Arrive i rq (Some True) \<in> set es \<and> request_admits cfg rq h))"

definition accepts_ok :: "(string \<Rightarrow> string \<Rightarrow> string) \<Rightarrow> (string \<Rightarrow> json option) \<Rightarrow> server_config \<Rightarrow>
    server_event list \<Rightarrow> server \<Rightarrow> bool" where
  "accepts_ok hmac parse cfg es s \<longleftrightarrow>
     (\<forall>i event. sv_flights s i = Some (Accepting event) \<longrightarrow> (i, event) \<in> set (sv_accepts s)) \<and>
     (\<forall>(i, event) \<in> set (sv_accepts s). admitted hmac parse cfg es i event)"

definition delivery_of :: "server_event list \<Rightarrow> nat \<Rightarrow> notification \<Rightarrow> response \<Rightarrow> bool" where
  "delivery_of es i event r \<longleftrightarrow> rs_body r = Delivery ''accepted'' (event_id event) \<and> rs_status r = 202 \<and>
       Store_answer i (Some A_accepted) \<in> set es \<or>
     rs_body r = Delivery ''duplicate'' (event_id event) \<and> rs_status r = 200 \<and>
       Store_answer i (Some A_duplicate) \<in> set es"

fun is_delivery :: "response_body \<Rightarrow> bool" where
  "is_delivery (Delivery st i) \<longleftrightarrow> True"
| "is_delivery _ \<longleftrightarrow> False"

definition replies_ok :: "server_event list \<Rightarrow> server \<Rightarrow> bool" where
  "replies_ok es s \<longleftrightarrow> (\<forall>(i, r) \<in> set (sv_replies s). is_delivery (rs_body r) \<longrightarrow>
     (\<exists>event. (i, event) \<in> set (sv_accepts s) \<and> delivery_of es i event r))"

lemma arrive_flights:
  assumes "sv_flights (arrive cfg i rq port s) j = Some (Reading h b)"
  shows "sv_flights s j = Some (Reading h b) \<or>
    j = i \<and> b = no_body \<and> port = Some True \<and> request_admits cfg rq h"
  using assms
  by (auto simp: arrive_def admit_request_def plain_reply_def refuse_def Let_def ready_def request_admits_def
      split: if_splits sum.splits)

lemma reading_ok_mono: "reading_ok cfg es s \<Longrightarrow> reading_ok cfg (es @ [e]) s"
  unfolding reading_ok_def by (metis UnCI set_append)

lemma reading_ok_change:
  assumes "reading_ok cfg es s"
    and "\<And>i h b. sv_flights s' i = Some (Reading h b) \<Longrightarrow> \<exists>b'. sv_flights s i = Some (Reading h b') \<and> (body_ok cfg b' \<longrightarrow> body_ok cfg b)"
  shows "reading_ok cfg (es @ [e]) s'"
  using assms reading_ok_mono [OF assms(1), of e] unfolding reading_ok_def by (metis (no_types, lifting))

text \<open>Only its body changes what a request being read is.\<close>

lemma reading_back:
  "sv_flights (resume hmac parse cfg i now port s) j = Some (Reading h b) \<Longrightarrow> sv_flights s j = Some (Reading h b)"
  "sv_flights (store_answers i a s) j = Some (Reading h b) \<Longrightarrow> sv_flights s j = Some (Reading h b)"
  "sv_flights (body_arrives cfg i e s) j = Some (Reading h b) \<Longrightarrow>
     \<exists>b'. sv_flights s j = Some (Reading h b') \<and> (body_ok cfg b' \<longrightarrow> body_ok cfg b)"
  by (auto simp: resume_def store_answers_def body_arrives_def refuse_def intro: body_ok_event
      split: option.splits flight.splits body_state.splits sum.splits if_splits)

lemma quiet_flights [simp]:
  "sv_flights (snd (listen p h t s)) = sv_flights s" "sv_flights (bound s) = sv_flights s"
  "sv_flights (server_error s) = sv_flights s" "sv_flights (stopIntake s) = sv_flights s"
  "sv_flights (close_server s) = sv_flights s" "sv_flights (connections_closed s) = sv_flights s"
  "sv_accepts (snd (listen p h t s)) = sv_accepts s" "sv_accepts (bound s) = sv_accepts s"
  "sv_accepts (server_error s) = sv_accepts s" "sv_accepts (stopIntake s) = sv_accepts s"
  "sv_accepts (close_server s) = sv_accepts s" "sv_accepts (connections_closed s) = sv_accepts s"
  "sv_replies (snd (listen p h t s)) = sv_replies s" "sv_replies (bound s) = sv_replies s"
  "sv_replies (server_error s) = sv_replies s" "sv_replies (stopIntake s) = sv_replies s"
  "sv_replies (close_server s) = sv_replies s" "sv_replies (connections_closed s) = sv_replies s"
  by (simp_all add: listen_def bound_def server_error_def stopIntake_def close_server_def connections_closed_def
      Let_def emit_note_def split: close_phase.split)

lemma reading_ok_arrive:
  assumes "reading_ok cfg es s"
  shows "reading_ok cfg (es @ [Arrive i rq port]) (arrive cfg i rq port (s\<lparr>sv_seen := S\<rparr>))"
  unfolding reading_ok_def
proof (intro allI impI, goal_cases)
  case (1 j h b)
  have "body_ok cfg no_body" by (simp add: no_body_def)
  with arrive_flights [OF 1] assms show ?case unfolding reading_ok_def by (auto, blast)
qed

lemma reading_ok_step:
  assumes "reading_ok cfg es s"
  shows "reading_ok cfg (es @ [e]) (server_step hmac parse cfg s e)"
proof (cases e)
  case (Arrive i rq port)
  then show ?thesis using reading_ok_mono [OF assms] reading_ok_arrive [OF assms] by simp
next
  case (Body_event i e')
  show ?thesis unfolding Body_event server_step.simps
    by (rule reading_ok_change [OF assms], rule reading_back(3))
next
  case (Resume i now port)
  show ?thesis unfolding Resume server_step.simps
    by (rule reading_ok_change [OF assms], drule reading_back(1)) blast
next
  case (Store_answer i a)
  show ?thesis unfolding Store_answer server_step.simps
    by (rule reading_ok_change [OF assms], drule reading_back(2)) blast
qed (rule reading_ok_change [OF assms], force)+

lemma accepts_ok_mono: "accepts_ok hmac parse cfg es s \<Longrightarrow> accepts_ok hmac parse cfg (es @ [e]) s"
  by (auto simp: accepts_ok_def intro: admitted_more)

lemma accepts_ok_resume:
  assumes "accepts_ok hmac parse cfg es s" "reading_ok cfg es s"
  shows "accepts_ok hmac parse cfg (es @ [Resume i now port]) (resume hmac parse cfg i now port s)"
proof (cases "sv_accepts (resume hmac parse cfg i now port s) = sv_accepts s")
  case True
  then show ?thesis using accepts_ok_mono [OF assms(1)]
    by (auto simp: accepts_ok_def resume_def refuse_def split: option.splits flight.splits body_state.splits sum.splits if_splits)
next
  case False
  then obtain h body event where f: "sv_flights s i = Some (Reading h (Body body))"
      "check_body hmac parse cfg now h body = Inr event" "ready s port"
    by (auto simp: resume_def refuse_def split: option.splits flight.splits body_state.splits sum.splits if_splits)
  have body: "length body \<le> sv_maxBodyBytes cfg" and "\<exists>rq. Arrive i rq (Some True) \<in> set es \<and> request_admits cfg rq h"
    using assms(2) f(1) unfolding reading_ok_def by (metis body_ok.simps(3))+
  then have "admitted hmac parse cfg (es @ [Resume i now port]) i event"
    unfolding admitted_def using f(2,3) by (auto simp: ready_def)
  then show ?thesis
    using accepts_ok_mono [OF assms(1), of "Resume i now port"] f by (auto simp: accepts_ok_def resume_def)
qed

lemma accepts_ok_same:
  assumes "accepts_ok hmac parse cfg es s" "sv_accepts s' = sv_accepts s"
    and "\<And>i event. sv_flights s' i = Some (Accepting event) \<Longrightarrow> sv_flights s i = Some (Accepting event)"
  shows "accepts_ok hmac parse cfg (es @ [e]) s'"
  using accepts_ok_mono [OF assms(1), of e] assms(2,3) by (auto simp: accepts_ok_def)

lemma accepting_back:
  "sv_flights (arrive cfg i rq port s) j = Some (Accepting event) \<Longrightarrow> sv_flights s j = Some (Accepting event)"
  "sv_flights (store_answers i a s) j = Some (Accepting event) \<Longrightarrow> sv_flights s j = Some (Accepting event)"
  "sv_flights (body_arrives cfg i e s) j = Some (Accepting event) \<Longrightarrow> sv_flights s j = Some (Accepting event)"
  by (auto simp: arrive_def admit_request_def plain_reply_def Let_def store_answers_def body_arrives_def refuse_def
      split: option.splits flight.splits sum.splits if_splits)

lemma accepts_unchanged [simp]:
  "sv_accepts (arrive cfg i rq port s) = sv_accepts s" "sv_accepts (store_answers i a s) = sv_accepts s"
  "sv_accepts (body_arrives cfg i e s) = sv_accepts s"
  by (simp_all add: arrive_def admit_request_def plain_reply_def Let_def store_answers_def body_arrives_def refuse_def
      split: option.split flight.split sum.split)

lemma accepts_ok_step:
  assumes "accepts_ok hmac parse cfg es s" "reading_ok cfg es s"
  shows "accepts_ok hmac parse cfg (es @ [e]) (server_step hmac parse cfg s e)"
proof (cases e)
  case (Arrive i rq port)
  have "accepts_ok hmac parse cfg (es @ [e]) (arrive cfg i rq port (s\<lparr>sv_seen := S\<rparr>))" for S
    by (rule accepts_ok_same [OF assms(1)], simp, drule accepting_back(1)) simp
  then show ?thesis using accepts_ok_mono [OF assms(1)] unfolding Arrive by simp
next
  case (Body_event i e')
  show ?thesis unfolding Body_event server_step.simps
    by (rule accepts_ok_same [OF assms(1)]) (simp, rule accepting_back(3))
next
  case (Resume i now port)
  then show ?thesis using accepts_ok_resume [OF assms] by simp
next
  case (Store_answer i a)
  show ?thesis unfolding Store_answer server_step.simps
    by (rule accepts_ok_same [OF assms(1)]) (simp, rule accepting_back(2))
qed (rule accepts_ok_same [OF assms(1)], simp, simp)+

lemma replies_ok_same:
  assumes "replies_ok es s" "sv_replies s' = sv_replies s" "set (sv_accepts s) \<subseteq> set (sv_accepts s')"
  shows "replies_ok (es @ [e]) s'"
  using assms unfolding replies_ok_def delivery_of_def by (fastforce)

lemma replies_ok_reply:
  assumes "replies_ok es s"
    and "is_delivery (rs_body r) \<Longrightarrow> \<exists>event. (i, event) \<in> set (sv_accepts s) \<and> delivery_of (es @ [e]) i event r"
  shows "replies_ok (es @ [e]) (send_reply i r s)"
proof -
  have "replies_ok (es @ [e]) s" by (rule replies_ok_same [OF assms(1)]) simp_all
  then show ?thesis using assms(2) by (auto simp: replies_ok_def send_reply_def)
qed

text \<open>Whatever follows a send_reply in the same piece changes neither the replies nor the calls of the store.\<close>

lemma replies_ok_after:
  "replies_ok es s \<Longrightarrow> sv_replies s' = sv_replies s \<Longrightarrow> sv_accepts s' = sv_accepts s \<Longrightarrow> replies_ok es s'"
  by (simp add: replies_ok_def)

lemma replies_ok_plain: "replies_ok es s \<Longrightarrow> replies_ok (es @ [e]) (plain_reply i st (Error_text t) s)"
  "replies_ok es s \<Longrightarrow> replies_ok (es @ [e]) (plain_reply i st (Status t) s)"
  by (simp_all only: plain_reply_def, (rule replies_ok_reply, assumption, simp)+)

lemma replies_ok_emit: "replies_ok es s \<Longrightarrow> replies_ok es (emit_note n s)"
  by (rule replies_ok_after) simp_all

lemma replies_ok_leave: "replies_ok es s \<Longrightarrow> replies_ok es (leave i s)"
  by (rule replies_ok_after) simp_all

lemma replies_ok_refuse: "replies_ok es s \<Longrightarrow> replies_ok (es @ [e]) (refuse i code s)"
  unfolding refuse_def by (intro replies_ok_leave replies_ok_emit, rule replies_ok_reply) simp_all

lemma replies_ok_admit:
  assumes "replies_ok es s"
  shows "replies_ok (es @ [e]) (admit_request cfg i rq s)"
proof -
  have "replies_ok es (s\<lparr>sv_active := n\<rparr>)" for n by (rule replies_ok_after [OF assms]) simp_all
  note started = this
  have "replies_ok (es @ [e]) (s\<lparr>sv_active := n, sv_flights := F\<rparr>)" for n F
    by (rule replies_ok_same [OF assms]) simp_all
  then show ?thesis
    using started by (auto simp: admit_request_def Let_def replies_ok_plain replies_ok_refuse replies_ok_leave
        split: sum.split)
qed

lemma replies_ok_arrive:
  "replies_ok es s \<Longrightarrow> replies_ok (es @ [e]) (arrive cfg i rq port s)"
  by (simp add: arrive_def replies_ok_plain replies_ok_admit)

lemma replies_ok_resume:
  assumes "replies_ok es s"
  shows "replies_ok (es @ [e]) (resume hmac parse cfg i now port s)"
proof -
  have "replies_ok (es @ [e]) s" by (rule replies_ok_same [OF assms]) simp_all
  moreover have "replies_ok (es @ [e]) (s\<lparr>sv_flights := F, sv_accepts := sv_accepts s @ [x]\<rparr>)" for F x
    by (rule replies_ok_same [OF assms]) auto
  ultimately show ?thesis
    by (auto simp: resume_def replies_ok_refuse [OF assms]
        split: option.split flight.split body_state.split sum.split)
qed

lemma replies_ok_answer:
  assumes "replies_ok es s" "accepts_ok hmac parse cfg es s"
  shows "replies_ok (es @ [Store_answer i a]) (store_answers i a s)"
proof (cases "sv_flights s i")
  case (Some f)
  show ?thesis
  proof (cases f)
    case (Accepting event)
    have "(i, event) \<in> set (sv_accepts s)" using assms(2) Some Accepting by (auto simp: accepts_ok_def)
    then have "replies_ok (es @ [Store_answer i a]) (send_reply i \<lparr>rs_status = (if dup then 200 else 202),
        rs_body = Delivery (if dup then ''duplicate'' else ''accepted'') (event_id event), rs_close = False\<rparr> s)"
      if "accept_result a = Inr dup" for dup
      using that by (intro replies_ok_reply [OF assms(1)])
        (auto simp: delivery_of_def accept_result_def split: option.splits acceptance.splits)
    then show ?thesis using Some Accepting
      by (simp add: store_answers_def replies_ok_refuse [OF assms(1)] replies_ok_leave replies_ok_emit split: sum.split)
  qed (use Some in \<open>simp add: store_answers_def replies_ok_same [OF assms(1)]\<close>)
qed (simp add: store_answers_def replies_ok_same [OF assms(1)])

lemma replies_ok_step:
  assumes "replies_ok es s" "accepts_ok hmac parse cfg es s"
  shows "replies_ok (es @ [e]) (server_step hmac parse cfg s e)"
proof (cases e)
  case (Arrive i rq port)
  have "replies_ok es (s\<lparr>sv_seen := S\<rparr>)" for S by (rule replies_ok_after [OF assms(1)]) simp_all
  then show ?thesis using replies_ok_same [OF assms(1), of s e] unfolding Arrive
    by (simp add: replies_ok_arrive)
next
  case (Body_event i e')
  show ?thesis unfolding Body_event server_step.simps
    by (rule replies_ok_same [OF assms(1)]) (simp_all add: body_arrives_def split: option.split flight.split)
next
  case (Resume i now port)
  then show ?thesis by (simp add: replies_ok_resume [OF assms(1)])
next
  case (Store_answer i a)
  then show ?thesis by (simp add: replies_ok_answer [OF assms])
qed (rule replies_ok_same [OF assms(1)], simp, simp)+

lemma serve_evidence:
  "reading_ok cfg es (serve hmac parse cfg new_server es) \<and> accepts_ok hmac parse cfg es (serve hmac parse cfg new_server es) \<and>
   replies_ok es (serve hmac parse cfg new_server es)"
proof (induction es rule: rev_induct)
  case Nil
  then show ?case by (simp add: new_server_def reading_ok_def accepts_ok_def replies_ok_def)
next
  case (snoc e es)
  then show ?case by (simp add: reading_ok_step accepts_ok_step replies_ok_step)
qed

text \<open>C21: a positive answer names an event that was really admitted: the store said accepted (202) or
duplicate (200) for it, and the event was read from a body within the limit, posted to the webhook path
while the server was ready, signed with the secret within the freshness window, with the notification
schema, for a configured chat, under a request id equal to its event id.\<close>

theorem positive_answer_is_admitted:
  assumes "(i, r) \<in> set (sv_replies (serve hmac parse cfg new_server es))" "rs_body r = Delivery st delivery"
  shows "\<exists>event rq h body now. delivery = event_id event \<and> notification_schema event \<and>
    (st = ''accepted'' \<and> rs_status r = 202 \<and> Store_answer i (Some A_accepted) \<in> set es \<or>
     st = ''duplicate'' \<and> rs_status r = 200 \<and> Store_answer i (Some A_duplicate) \<in> set es) \<and>
    Arrive i rq (Some True) \<in> set es \<and> rq_method rq = ''POST'' \<and> rq_url rq = sv_webhookPath cfg \<and>
    signed_headers_of (rq_headers rq) = Inr h \<and> sh_request h = event_id event \<and>
    length body \<le> sv_maxBodyBytes cfg \<and> parsePayload parse body (sv_policy cfg) = Inr event \<and>
    Resume i now (Some True) \<in> set es \<and>
    verifySignature hmac (sv_secret cfg) (sv_freshness cfg) now body (Some (sh_timestamp h)) (Some (sh_signature h)) = Inr ()"
proof -
  obtain event where ev: "(i, event) \<in> set (sv_accepts (serve hmac parse cfg new_server es))" "delivery_of es i event r"
    using serve_evidence [of cfg es hmac parse] assms unfolding replies_ok_def by fastforce
  then have "admitted hmac parse cfg es i event"
    using serve_evidence [of cfg es hmac parse] unfolding accepts_ok_def by blast
  then obtain rq h body now where a: "Arrive i rq (Some True) \<in> set es" "request_admits cfg rq h"
      "length body \<le> sv_maxBodyBytes cfg" "Resume i now (Some True) \<in> set es" "check_body hmac parse cfg now h body = Inr event"
    unfolding admitted_def by blast
  have b: "parsePayload parse body (sv_policy cfg) = Inr event" "sh_request h = event_id event"
    "verifySignature hmac (sv_secret cfg) (sv_freshness cfg) now body (Some (sh_timestamp h)) (Some (sh_signature h)) = Inr ()"
    using a(5) by (auto simp: check_body_def split: sum.splits if_splits)
  show ?thesis
    using a(1-4) b parsePayload_Inr(1) [OF b(1)] ev(2) assms(2) unfolding request_admits_def delivery_of_def
    by (intro exI [of _ event] exI [of _ rq] exI [of _ h] exI [of _ body] exI [of _ now]) auto
qed

definition demo_server_config :: server_config where
  "demo_server_config = \<lparr>sv_webhookPath = ''/webhooks/whatsapp'', sv_maxBodyBytes = 1024, sv_maxInflight = 2,
     sv_secret = demo_secret, sv_freshness = 300, sv_policy = demo_policy\<rparr>"

definition demo_request :: http_request where
  "demo_request = \<lparr>rq_url = ''/webhooks/whatsapp'', rq_method = ''POST'',
     rq_headers = [''Content-Type'', ''application/json; charset=UTF-8'', ''X-Webhook-Timestamp'', ''100'',
       ''X-Webhook-Signature-V2'', replicate 64 CHR ''a'', ''X-Request-Id'', event_id demo_event]\<rparr>"

definition demo_events :: "server_event list" where
  "demo_events = [Arrive 1 demo_request (Some True), Body_event 1 (Data ''x''), Body_event 1 End,
     Resume 1 250000 (Some True), Store_answer 1 (Some A_accepted)]"

definition demo_serve :: "server_event list \<Rightarrow> server" where
  "demo_serve = serve (\<lambda>_ _. replicate 64 CHR ''a'') (\<lambda>_. Some (notification_json demo_event)) demo_server_config new_server"

lemma demo_headers:
  "media_ok (rq_headers demo_request)"
  "length_check 1024 (rq_headers demo_request) = Inr ()"
  "signed_headers_of (rq_headers demo_request) =
     Inr \<lparr>sh_timestamp = ''100'', sh_signature = replicate 64 CHR ''a'', sh_request = event_id demo_event\<rparr>"
  by (code_simp, code_simp, code_simp)

lemma demo_check_body:
  "check_body (\<lambda>_ _. replicate 64 CHR ''a'') (\<lambda>_. Some (notification_json demo_event)) demo_server_config 250000
     \<lparr>sh_timestamp = ''100'', sh_signature = replicate 64 CHR ''a'', sh_request = event_id demo_event\<rparr> ''x'' = Inr demo_event"
proof -
  have "signed_timestamp ''100''" "dval ''100'' = 100" "signature_text (replicate 64 CHR ''a'')"
    by (simp_all add: signed_timestamp_def canonical_def is_digit_def dig_def signature_text_def is_hex_def list_all_iff)
  then show ?thesis
    by (simp add: check_body_def verifySignature_def demo_server_config_def max_safe_def parsePayload_def
        notification_json_roundtrip demo_event_schema demo_event_admit)
qed

lemma demo_fields:
  "rq_url demo_request = ''/webhooks/whatsapp''" "rq_method demo_request = ''POST''"
  "sv_webhookPath demo_server_config = ''/webhooks/whatsapp''" "sv_maxBodyBytes demo_server_config = 1024"
  "sv_maxInflight demo_server_config = 2"
  by (simp_all add: demo_request_def demo_server_config_def)

lemma demo_server_run:
  "sv_replies (demo_serve demo_events) =
     [(1, \<lparr>rs_status = 202, rs_body = Delivery ''accepted'' (event_id demo_event), rs_close = False\<rparr>)]"
  by (simp add: demo_serve_def demo_events_def serve_def new_server_def arrive_def admit_request_def demo_fields
      demo_headers body_arrives_def no_body_def resume_def store_answers_def demo_check_body ready_def
      accept_result_def send_reply_def)

theorem positive_answer_is_admitted_witness:
  "\<exists>body. length body \<le> 1024 \<and>
     parsePayload (\<lambda>_. Some (notification_json demo_event)) body demo_policy = Inr demo_event"
proof -
  have "(1, \<lparr>rs_status = 202, rs_body = Delivery ''accepted'' (event_id demo_event), rs_close = False\<rparr>)
      \<in> set (sv_replies (demo_serve demo_events))" by (simp add: demo_server_run)
  from positive_answer_is_admitted [OF this [unfolded demo_serve_def], of "''accepted''" "event_id demo_event"]
  show ?thesis by (auto simp: demo_server_config_def parsePayload_def notification_json_roundtrip
      demo_event_schema demo_event_admit)
qed

end
