(* ===== verification/Server_Close.thy ===== *)
theory Server_Close
  imports Server_Spec
begin

text \<open>
  The end of the webhook server: nothing reaches the store after a stop, every request is answered once
  or its connection is gone, and \<open>close\<close> resolves only when no handler is left.
\<close>

section \<open>Stopping and closing\<close>

lemma stopped_server_step:
  assumes "sv_stopping s"
  shows "sv_stopping (server_step hmac parse cfg s e) \<and> sv_accepts (server_step hmac parse cfg s e) = sv_accepts s"
proof (cases e)
  case (Arrive i rq port)
  then show ?thesis using assms by (auto simp: arrive_def ready_def plain_reply_def)
next
  case (Resume i now port)
  then show ?thesis using assms
    by (auto simp: resume_def ready_def refuse_def split: option.split flight.split body_state.split sum.split)
qed (use assms in \<open>auto simp: body_arrives_def store_answers_def refuse_def listen_def bound_def server_error_def
    stopIntake_def close_server_def connections_closed_def emit_note_def Let_def
    split: option.split flight.split sum.split close_phase.split\<close>)

text \<open>once \<open>stopIntake\<close> or \<open>close\<close> was called no further event reaches the store, whatever requests
were being read at that moment and whatever still arrives.\<close>

theorem stopped_intake_accepts_nothing:
  assumes "e \<in> {Stop_intake, Close}"
  shows "sv_accepts (serve hmac parse cfg (server_step hmac parse cfg (serve hmac parse cfg new_server es) e) fs) =
    sv_accepts (serve hmac parse cfg new_server es)"
proof -
  let ?s = "serve hmac parse cfg new_server es"
  have closed: "sv_closing ?s = Serving \<or> sv_stopping ?s"
  proof (rule serve_invariant [of "\<lambda>s. sv_closing s = Serving \<or> sv_stopping s"])
    fix s :: server and e assume "sv_closing s = Serving \<or> sv_stopping s"
    then show "sv_closing (server_step hmac parse cfg s e) = Serving \<or> sv_stopping (server_step hmac parse cfg s e)"
      using stopped_server_step [of s hmac parse cfg e]
      by (cases e) (auto simp: server_defs Let_def ready_def
          split: option.split flight.split sum.split body_state.split close_phase.split)
  qed (simp add: new_server_def)
  then have "sv_stopping (server_step hmac parse cfg ?s e) \<and> sv_accepts (server_step hmac parse cfg ?s e) = sv_accepts ?s"
    using assms by (auto simp: stopIntake_def close_server_def split: close_phase.split)
  then have "sv_stopping (serve hmac parse cfg (server_step hmac parse cfg ?s e) fs) \<and>
      sv_accepts (serve hmac parse cfg (server_step hmac parse cfg ?s e) fs) = sv_accepts ?s"
    by (intro serve_invariant [of "\<lambda>s. sv_stopping s \<and> sv_accepts s = sv_accepts ?s"]) (auto dest: stopped_server_step)
  then show ?thesis by simp
qed

theorem stopped_intake_accepts_nothing_witness:
  "sv_accepts (serve (\<lambda>_ _. []) (\<lambda>_. None) demo_server_config
     (server_step (\<lambda>_ _. []) (\<lambda>_. None) demo_server_config (serve (\<lambda>_ _. []) (\<lambda>_. None) demo_server_config new_server []) Close)
     [Arrive 1 demo_request (Some True)]) = []"
  by (subst stopped_intake_accepts_nothing) (simp_all add: new_server_def)

definition answered_but :: "nat set \<Rightarrow> server \<Rightarrow> bool" where
  "answered_but X s \<longleftrightarrow> distinct (map fst (sv_replies s)) \<and>
     (\<forall>j \<in> sv_seen s - X. sv_flights s j = None \<longrightarrow> j \<in> fst ` set (sv_replies s) \<or> j \<in> sv_gone s)"

lemma answered_reply: "answered_but {i} s \<Longrightarrow> answered_but {} (send_reply i r s)"
  by (auto simp: answered_but_def send_reply_def)

lemma answered_leave: "answered_but {i} s \<Longrightarrow> answered_but {} (leave i (send_reply i r s))"
  by (auto simp: answered_but_def send_reply_def leave_def)

lemma answered_weaken: "answered_but {} s \<Longrightarrow> answered_but X s"
  by (auto simp: answered_but_def)

lemma answered_emit: "answered_but {i} s \<Longrightarrow> answered_but {} (leave i (emit_note n (send_reply i r s)))"
  using answered_leave [of i s r] by (simp add: answered_but_def)

lemma answered_refuse: "answered_but {i} s \<Longrightarrow> answered_but {} (refuse i code s)"
  unfolding refuse_def by (rule answered_emit)

lemma answered_active [simp]: "answered_but X (s\<lparr>sv_active := n\<rparr>) = answered_but X s"
  by (simp add: answered_but_def)

lemma answered_flight:
  "answered_but {i} s \<Longrightarrow> F = (sv_flights s)(i \<mapsto> f) \<Longrightarrow> answered_but {} (s\<lparr>sv_flights := F, sv_accepts := a\<rparr>)"
  "answered_but {i} s \<Longrightarrow> F = (sv_flights s)(i \<mapsto> f) \<Longrightarrow> answered_but {} (s\<lparr>sv_flights := F\<rparr>)"
  "answered_but {i} s \<Longrightarrow> F = (sv_flights s)(i \<mapsto> f) \<Longrightarrow> answered_but {} (s\<lparr>sv_active := n, sv_flights := F\<rparr>)"
  by (auto simp: answered_but_def)

lemma answered_admit:
  assumes "answered_but {i} s"
  shows "answered_but {} (admit_request cfg i rq s)"
proof -
  have "answered_but {i} (s\<lparr>sv_active := sv_active s + 1\<rparr>)" using assms by simp
  then show ?thesis
    using answered_flight(3) [OF assms refl]
    by (simp add: admit_request_def Let_def plain_reply_def answered_leave answered_refuse split: sum.split)
qed

lemma answered_arrive:
  assumes "answered_but {} s"
  shows "answered_but {} (arrive cfg i rq port (s\<lparr>sv_seen := insert i (sv_seen s)\<rparr>))"
proof -
  have "answered_but {i} (s\<lparr>sv_seen := insert i (sv_seen s)\<rparr>)"
    using assms by (auto simp: answered_but_def)
  then show ?thesis by (simp add: arrive_def plain_reply_def answered_reply answered_admit)
qed

lemma answered_step:
  assumes "answered_but {} s"
  shows "answered_but {} (server_step hmac parse cfg s e)"
proof (cases e)
  case (Arrive i rq port)
  then show ?thesis using assms answered_arrive [OF assms] by simp
next
  case (Body_event i e')
  then show ?thesis
    by (simp add: body_arrives_def assms answered_flight(2) [OF answered_weaken [OF assms] refl]
        split: option.split flight.split)
next
  case (Resume i now port)
  then show ?thesis
    by (simp add: resume_def assms answered_flight(1) [OF answered_weaken [OF assms] refl]
        answered_refuse [OF answered_weaken [OF assms]]
        split: option.split flight.split body_state.split sum.split)
next
  case (Store_answer i a)
  then show ?thesis
    by (simp add: store_answers_def assms answered_emit [OF answered_weaken [OF assms]]
        answered_refuse [OF answered_weaken [OF assms]] split: option.split flight.split sum.split)
qed (use assms in \<open>auto simp: answered_but_def listen_def bound_def server_error_def
    stopIntake_def close_server_def connections_closed_def emit_note_def Let_def split: close_phase.split\<close>)

definition draining_ok :: "server \<Rightarrow> bool" where
  "draining_ok s \<longleftrightarrow> (\<forall>T. sv_closing s = Draining T \<longrightarrow> T = dom (sv_flights s))"

lemma draining_ok_change:
  "draining_ok s \<Longrightarrow> sv_closing s' = sv_closing s \<Longrightarrow> dom (sv_flights s') = dom (sv_flights s) \<Longrightarrow> draining_ok s'"
  by (simp add: draining_ok_def)

lemma draining_ok_leave: "draining_ok s \<Longrightarrow> draining_ok (leave i s)"
  by (auto simp: draining_ok_def leave_def split: close_phase.splits)

lemma draining_ok_refuse: "draining_ok s \<Longrightarrow> draining_ok (refuse i code s)"
  unfolding refuse_def by (rule draining_ok_leave, rule draining_ok_change) simp_all

lemma draining_ok_arrive:
  assumes "\<nexists>T. sv_closing s = Draining T"
  shows "\<nexists>T. sv_closing (arrive cfg i rq port s) = Draining T"
  using assms by (auto simp: arrive_def admit_request_def plain_reply_def refuse_def Let_def leave_def send_reply_def
      emit_note_def split: sum.splits if_splits close_phase.splits)

lemma draining_ok_step:
  assumes "draining_ok s"
  shows "draining_ok (server_step hmac parse cfg s e)"
proof (cases e)
  case (Arrive i rq port)
  then show ?thesis using assms draining_ok_arrive [of "s\<lparr>sv_seen := insert i (sv_seen s)\<rparr>" cfg i rq port]
    by (auto simp: draining_ok_def split: close_phase.split)
next
  case (Body_event i e')
  have "dom (sv_flights (body_arrives cfg i e' s)) = dom (sv_flights s)" "sv_closing (body_arrives cfg i e' s) = sv_closing s"
    by (auto simp: body_arrives_def split: option.splits flight.splits if_splits)
  then show ?thesis using draining_ok_change [OF assms] unfolding Body_event by simp
next
  case (Resume i now port)
  have "draining_ok (s\<lparr>sv_flights := (sv_flights s)(i \<mapsto> f), sv_accepts := a\<rparr>)" if "sv_flights s i = Some g" for f g a
    using assms that by (auto simp: draining_ok_def)
  then show ?thesis using assms unfolding Resume
    by (auto simp: resume_def draining_ok_refuse split: option.split flight.split body_state.split sum.split)
next
  case (Store_answer i a)
  have "draining_ok (leave i (emit_note n (send_reply i r s)))" for n r
    by (rule draining_ok_leave, rule draining_ok_change [OF assms]) simp_all
  then show ?thesis using assms unfolding Store_answer
    by (auto simp: store_answers_def draining_ok_refuse split: option.split flight.split sum.split)
qed (use assms in \<open>auto simp: draining_ok_def listen_def bound_def server_error_def stopIntake_def close_server_def
    connections_closed_def emit_note_def Let_def dom_def split: close_phase.split\<close>)

lemma serve_answered:
  "answered_but {} (serve hmac parse cfg new_server es) \<and> draining_ok (serve hmac parse cfg new_server es)"
  by (rule serve_invariant [where I = "\<lambda>s. answered_but {} s \<and> draining_ok s"])
    (simp_all add: answered_step draining_ok_step, simp add: new_server_def answered_but_def draining_ok_def)

definition server_finished :: "server \<Rightarrow> server \<Rightarrow> bool" where
  "server_finished s s' \<longleftrightarrow> sv_flights s' = Map.empty \<and> sv_closing s' = Draining {} \<and> sv_replies s' = sv_replies s \<and>
     sv_accepts s' = sv_accepts s"

lemma server_finished_step: "server_finished s s' \<Longrightarrow> server_finished s (server_step hmac parse cfg s' e)"
  by (cases e) (auto simp: server_finished_def body_arrives_def resume_def store_answers_def listen_def bound_def
      server_error_def stopIntake_def close_server_def connections_closed_def emit_note_def Let_def)

text \<open>C22: every request is answered at most once, and when its handler has ended it was answered, unless its
connection was lost. The promise of \<open>close\<close> resolves only when every handler has ended, those in
\<open>store.accept\<close> included: from then on there is no further call of the store and no further answer.\<close>

theorem close_waits_for_requests:
  fixes hmac :: "string \<Rightarrow> string \<Rightarrow> string" and parse :: "string \<Rightarrow> json option" and cfg :: server_config
    and es :: "server_event list"
  defines "s \<equiv> serve hmac parse cfg new_server es"
  shows "distinct (map fst (sv_replies s)) \<and>
    (\<forall>i. i \<in> sv_seen s \<longrightarrow> sv_flights s i \<noteq> None \<or> i \<in> fst ` set (sv_replies s) \<or> i \<in> sv_gone s) \<and>
    (close_resolved s \<longrightarrow> sv_flights s = Map.empty \<and> sv_active s = 0 \<and>
      (\<forall>fs. sv_accepts (serve hmac parse cfg s fs) = sv_accepts s \<and> sv_replies (serve hmac parse cfg s fs) = sv_replies s))"
proof -
  have ok: "answered_but {} s" "draining_ok s" "flights_ok cfg s"
    unfolding s_def using serve_answered [of hmac parse cfg es] flights_ok_serve [of cfg hmac parse es] by auto
  have "server_finished s (serve hmac parse cfg s fs) \<and> sv_active s = 0" if "close_resolved s" for fs
  proof -
    have closed: "sv_closing s = Draining {}" using that by (simp add: close_resolved_def)
    with ok(2) have none: "sv_flights s = Map.empty" unfolding draining_ok_def by auto
    with closed have "server_finished s s" by (simp add: server_finished_def)
    then have "server_finished s (serve hmac parse cfg s fs)"
      by (rule serve_invariant [where I = "server_finished s"]) (rule server_finished_step)
    then show ?thesis using ok(3) none by (simp add: flights_ok_def)
  qed
  then have "close_resolved s \<Longrightarrow> sv_flights s = Map.empty \<and> sv_active s = 0 \<and>
      (\<forall>fs. sv_accepts (serve hmac parse cfg s fs) = sv_accepts s \<and> sv_replies (serve hmac parse cfg s fs) = sv_replies s)"
    using serve_simps(1) [of hmac parse cfg s] unfolding server_finished_def by metis
  moreover have "\<forall>i. i \<in> sv_seen s \<longrightarrow> sv_flights s i \<noteq> None \<or> i \<in> fst ` set (sv_replies s) \<or> i \<in> sv_gone s"
    using ok(1) unfolding answered_but_def by blast
  ultimately show ?thesis using ok(1) unfolding answered_but_def by blast
qed

theorem close_waits_for_requests_witness:
  "close_resolved (demo_serve (demo_events @ [Close, Connections_closed])) \<and>
   sv_active (demo_serve (demo_events @ [Close, Connections_closed])) = 0 \<and>
   length (sv_replies (demo_serve (demo_events @ [Close, Connections_closed]))) = 1"
proof -
  let ?s = "demo_serve (demo_events @ [Close, Connections_closed])"
  have none: "sv_flights (demo_serve demo_events) = Map.empty" "sv_closing (demo_serve demo_events) = Serving"
    by (simp_all add: demo_serve_def demo_events_def serve_def new_server_def arrive_def admit_request_def demo_fields
      demo_headers body_arrives_def no_body_def resume_def store_answers_def demo_check_body ready_def
      accept_result_def send_reply_def leave_def fun_eq_iff)
  have run: "?s = connections_closed (close_server (demo_serve demo_events))"
    by (simp add: demo_serve_def serve_def)
  have res: "close_resolved ?s"
    unfolding run by (simp add: close_resolved_def connections_closed_def close_server_def none)
  have replies: "sv_replies ?s = sv_replies (demo_serve demo_events)" unfolding run by simp
  show ?thesis
    using close_waits_for_requests [of "\<lambda>_ _. replicate 64 CHR ''a''" "\<lambda>_. Some (notification_json demo_event)"
        demo_server_config "demo_events @ [Close, Connections_closed]"] res replies demo_server_run
    unfolding demo_serve_def by simp
qed

end
