(* ===== verification/Lifecycle.thy ===== *)
theory Lifecycle
  imports Exec Json
begin

text \<open>
  The process around the controller (\<open>src/session-controller/src/main.ts\<close>): the probes of the bridge, the
  lifecycle from start to the last cleanup (\<open>runLifecycle\<close>) and the command line. The lifecycle is
  a function from its variables and one event to its variables: the composition's promises settle,
  signals come, workers report diagnostics, in any order between two pieces of the main function.
\<close>

section \<open>The bridge\<close>

datatype probe = Request_fails | Not_ok | Body_fails | Answered json

definition connected_status :: "json \<Rightarrow> bool" where
  "connected_status v =
     (case v of
        JObj fs \<Rightarrow> jget fs ''state'' = Some (JStr ''CONNECTED'') \<and> jget fs ''is_connected'' = Some (JBool True)
      | _ \<Rightarrow> False)"

text \<open>\<open>aborted\<close>: the signal when the request has ended.\<close>

definition bridgeConnected :: "probe \<Rightarrow> bool \<Rightarrow> error_class + bool" where
  "bridgeConnected p aborted =
     (case p of
        Answered v \<Rightarrow> Inr (connected_status v)
      | _ \<Rightarrow> if aborted then Inl Intake_closed else Inr False)"

text \<open>One turn of a loop: the signal at its tests, the probe, and how the wait ended.\<close>

record bridge_round =
  br_top :: bool
  br_probe :: probe
  br_probe_aborted :: bool
  br_after :: bool
  br_waited :: bool
  br_wait_aborted :: bool

text \<open>\<open>None\<close>: the loop goes on.\<close>

fun waitForBridge :: "bridge_round list \<Rightarrow> (error_class + unit) option" where
  "waitForBridge [] = None"
| "waitForBridge (r # rs) =
     (if br_top r then Some (Inl Intake_closed)
      else
        case bridgeConnected (br_probe r) (br_probe_aborted r) of
          Inl e \<Rightarrow> Some (Inl e)
        | Inr True \<Rightarrow> Some (Inr ())
        | Inr False \<Rightarrow>
            if br_after r then Some (Inl Intake_closed)
            else if \<not> br_waited r then Some (Inl (if br_wait_aborted r then Intake_closed else Internal_failed))
            else waitForBridge rs)"

fun monitorBridge :: "bridge_round list \<Rightarrow> (error_class + unit) option" where
  "monitorBridge [] = None"
| "monitorBridge (r # rs) =
     (if br_top r then Some (Inl Intake_closed)
      else if \<not> br_waited r then Some (Inl (if br_wait_aborted r then Intake_closed else Internal_failed))
      else if br_after r then Some (Inl Intake_closed)
      else
        case bridgeConnected (br_probe r) (br_probe_aborted r) of
          Inl e \<Rightarrow> Some (Inl e)
        | Inr True \<Rightarrow> monitorBridge rs
        | Inr False \<Rightarrow> Some (Inl Internal_failed))"

section \<open>The variables of the lifecycle\<close>

datatype resource = Res_redis | Res_repository | Res_host | Res_coordinator | Res_server

datatype cleanup = Stop_intake_of | Stop_scheduling_of | Drain_of | Close_server_of | Close_host_of
  | Close_repository_of | Close_redis_of

datatype diagnostic = D_error error_class | D_intake_accepted | D_intake_duplicate | D_ready | D_stopped

datatype life_effect = Diag diagnostic | Fail_closed | Attempt cleanup bool

datatype life_phase = Preparing | Waiting_bridge | Starting | Operating bool | Cleaning nat | Exited

text \<open>\<open>Operating True\<close>: the monitor has ended.\<close>

record life =
  lf_phase :: life_phase
  lf_operational :: bool
  lf_shutting :: bool
  lf_stop :: bool
  lf_code :: nat
  lf_resources :: "resource set"
  lf_sched_stopped :: bool
  lf_fc_invoked :: bool
  lf_fc_running :: bool
  lf_loss :: bool
  lf_log :: "life_effect list"

definition new_life :: life where
  "new_life = \<lparr>lf_phase = Preparing, lf_operational = False, lf_shutting = False, lf_stop = False, lf_code = 0,
     lf_resources = {}, lf_sched_stopped = False, lf_fc_invoked = False, lf_fc_running = False, lf_loss = False,
     lf_log = []\<rparr>"

definition note_effect :: "life_effect \<Rightarrow> life \<Rightarrow> life" where
  "note_effect e s = s\<lparr>lf_log := lf_log s @ [e]\<rparr>"

text \<open>\<open>requestStop\<close>: \<open>lf_stop\<close> is also the aborted startup signal and the resolved termination.\<close>

definition requestStop :: "nat \<Rightarrow> life \<Rightarrow> life" where
  "requestStop code s = s\<lparr>lf_operational := False, lf_stop := True, lf_code := max (lf_code s) code\<rparr>"

section \<open>Diagnostics and fail-closed\<close>

definition shutdown_failures :: "diagnostic set" where
  "shutdown_failures = {D_error Internal_failed, D_error Session_failed, D_error Store_unavailable}"

definition pass_on :: "diagnostic \<Rightarrow> life \<Rightarrow> life" where
  "pass_on d s =
     note_effect (Diag d) (if lf_shutting s \<and> d \<in> shutdown_failures then s\<lparr>lf_code := 1\<rparr> else s)"

text \<open>What \<open>failClosed\<close> emits while it runs: a loss is absorbed, the rest is passed on.\<close>

fun emit_inside :: "diagnostic list \<Rightarrow> life \<Rightarrow> life" where
  "emit_inside [] s = s"
| "emit_inside (d # ds) s = emit_inside ds (if d = D_error Lease_lost then s else pass_on d s)"

definition failClosedOnce :: "diagnostic list \<Rightarrow> life \<Rightarrow> life" where
  "failClosedOnce inside s =
     (let s = s\<lparr>lf_operational := False\<rparr> in
      if lf_fc_invoked s then s
      else
        let s = s\<lparr>lf_fc_invoked := True, lf_fc_running := True\<rparr>;
            s = (if Res_coordinator \<in> lf_resources s then emit_inside inside (note_effect Fail_closed s) else s)
        in requestStop 1 (s\<lparr>lf_fc_running := False\<rparr>))"

definition emit :: "diagnostic list \<Rightarrow> diagnostic \<Rightarrow> life \<Rightarrow> life" where
  "emit inside d s =
     (if d = D_error Lease_lost then
        (if lf_loss s \<or> lf_fc_running s then s
         else note_effect (Diag (D_error Lease_lost)) ((failClosedOnce inside s)\<lparr>lf_loss := True\<rparr>))
      else pass_on d s)"

definition isReady :: "life \<Rightarrow> bool \<Rightarrow> bool" where
  "isReady s redis_ready \<longleftrightarrow> lf_operational s \<and> Res_redis \<in> lf_resources s \<and> redis_ready"

definition ensureRunning :: "life \<Rightarrow> error_class + unit" where
  "ensureRunning s = (if lf_stop s \<or> lf_shutting s then Inl Intake_closed else Inr ())"

section \<open>The main function\<close>

text \<open>The start of the \<open>finally\<close> block: handlers off, cleanup begins.\<close>

definition begin_cleanup :: "life \<Rightarrow> life" where
  "begin_cleanup s = s\<lparr>lf_phase := Cleaning 0, lf_shutting := True, lf_operational := False\<rparr>"

definition expected_stop :: "life \<Rightarrow> error_class \<Rightarrow> bool" where
  "expected_stop s e \<longleftrightarrow> lf_stop s \<and> e = Intake_closed"

definition life_fails :: "diagnostic list \<Rightarrow> error_class \<Rightarrow> life \<Rightarrow> life" where
  "life_fails inside e s =
     begin_cleanup (if expected_stop s e then s else (emit inside (D_error e) s)\<lparr>lf_code := 1\<rparr>)"

definition await_then :: "diagnostic list \<Rightarrow> error_class + unit \<Rightarrow> (life \<Rightarrow> life) \<Rightarrow> life \<Rightarrow> life" where
  "await_then inside r next s =
     (case r of
        Inl e \<Rightarrow> life_fails inside e s
      | Inr _ \<Rightarrow> (case ensureRunning s of Inl e \<Rightarrow> life_fails inside e s | Inr _ \<Rightarrow> next s))"

definition go_operational :: "life \<Rightarrow> life" where
  "go_operational s = emit [] D_ready (s\<lparr>lf_phase := Operating False, lf_operational := True\<rparr>)"

text \<open>The monitor's own \<open>try\<close> and \<open>catch\<close>.\<close>

definition monitor_ends :: "diagnostic list \<Rightarrow> error_class + unit \<Rightarrow> life \<Rightarrow> life" where
  "monitor_ends inside r s =
     (let s' = s\<lparr>lf_phase := Operating True\<rparr> in
      case r of
        Inr _ \<Rightarrow> if lf_stop s then s' else emit inside (D_error Lease_lost) (failClosedOnce inside s')
      | Inl e \<Rightarrow> if expected_stop s e then s' else emit inside (D_error Lease_lost) (failClosedOnce inside s'))"

section \<open>Cleanup\<close>

definition cleanups :: "(resource \<times> cleanup) list" where
  "cleanups = [(Res_server, Stop_intake_of), (Res_coordinator, Stop_scheduling_of), (Res_coordinator, Drain_of),
     (Res_server, Close_server_of), (Res_host, Close_host_of), (Res_repository, Close_repository_of),
     (Res_redis, Close_redis_of)]"

fun cleanup_class :: "cleanup \<Rightarrow> error_class" where
  "cleanup_class Close_host_of = Session_failed"
| "cleanup_class Close_repository_of = Store_unavailable"
| "cleanup_class Close_redis_of = Store_unavailable"
| "cleanup_class _ = Internal_failed"

text \<open>\<open>stopScheduling\<close> is idempotent; the other operations are called as they are.\<close>

definition cleanup_due :: "life \<Rightarrow> resource \<Rightarrow> cleanup \<Rightarrow> bool" where
  "cleanup_due s r c \<longleftrightarrow> r \<in> lf_resources s \<and> (c = Stop_scheduling_of \<longrightarrow> \<not> lf_sched_stopped s)"

definition after_attempt :: "cleanup \<Rightarrow> bool \<Rightarrow> life \<Rightarrow> life" where
  "after_attempt c ok s =
     (if ok then (if c = Stop_scheduling_of then s\<lparr>lf_sched_stopped := True\<rparr> else s)
      else emit [] (D_error (cleanup_class c)) (s\<lparr>lf_code := 1\<rparr>))"

definition clean_step :: "nat \<Rightarrow> bool \<Rightarrow> life \<Rightarrow> life" where
  "clean_step n ok s =
     (if n < length cleanups then
        (case cleanups ! n of
           (r, c) \<Rightarrow> (if cleanup_due s r c then after_attempt c ok (note_effect (Attempt c ok) s) else s)
             \<lparr>lf_phase := Cleaning (Suc n)\<rparr>)
      else (emit [] D_stopped s)\<lparr>lf_phase := Exited\<rparr>)"

section \<open>Steps\<close>

text \<open>\<open>inside\<close>: what the one call of \<open>failClosed\<close> of this run emits before it returns or throws.\<close>

datatype life_event =
    Acquired resource
  | Prepared "error_class + unit"
  | Bridge_up "error_class + unit"
  | Started "error_class + unit"
  | Monitor_end "error_class + unit"
  | Proceed
  | Clean bool
  | Signal
  | Request_stop nat
  | Emitted diagnostic

definition signals_on :: "life \<Rightarrow> bool" where
  "signals_on s \<longleftrightarrow> (case lf_phase s of Cleaning n \<Rightarrow> False | Exited \<Rightarrow> False | _ \<Rightarrow> True)"

fun life_step :: "diagnostic list \<Rightarrow> life \<Rightarrow> life_event \<Rightarrow> life" where
  "life_step inside s (Acquired r) = (if lf_phase s = Preparing then s\<lparr>lf_resources := insert r (lf_resources s)\<rparr> else s)"
| "life_step inside s (Prepared r) =
     (if lf_phase s = Preparing then await_then inside r (\<lambda>s. s\<lparr>lf_phase := Waiting_bridge\<rparr>) s else s)"
| "life_step inside s (Bridge_up r) =
     (if lf_phase s = Waiting_bridge then await_then inside r (\<lambda>s. s\<lparr>lf_phase := Starting\<rparr>) s else s)"
| "life_step inside s (Started r) = (if lf_phase s = Starting then await_then inside r go_operational s else s)"
| "life_step inside s (Monitor_end r) = (if lf_phase s = Operating False then monitor_ends inside r s else s)"
| "life_step inside s Proceed = (if lf_phase s = Operating True \<and> lf_stop s then begin_cleanup s else s)"
| "life_step inside s (Clean ok) = (case lf_phase s of Cleaning n \<Rightarrow> clean_step n ok s | _ \<Rightarrow> s)"
| "life_step inside s Signal = (if signals_on s then requestStop 0 s else s)"
| "life_step inside s (Request_stop code) = (if lf_phase s = Exited then s else requestStop code s)"
| "life_step inside s (Emitted d) = (if lf_phase s = Exited then s else emit inside d s)"

definition life_run :: "diagnostic list \<Rightarrow> life_event list \<Rightarrow> life" where
  "life_run inside es = foldl (life_step inside) new_life es"

section \<open>Command line\<close>

datatype command = Run_lifecycle | Check_inventory | Recover | Create_manifest

definition command_of :: "string list \<Rightarrow> command option" where
  "command_of args =
     (if args = [] then Some Run_lifecycle
      else if args = [''--check-pi-inventory''] then Some Check_inventory
      else if args = [''--recover-compaction-failures''] then Some Recover
      else if args = [''--create-compaction-recovery-manifest''] then Some Create_manifest
      else None)"

text \<open>The exit code: that of the command, or 2 for anything else.\<close>

definition runCli :: "(command \<Rightarrow> nat) \<Rightarrow> string list \<Rightarrow> nat" where
  "runCli exit_of args = (case command_of args of Some c \<Rightarrow> exit_of c | None \<Rightarrow> 2)"

end
