(* ===== verification/Lifecycle_Spec.thy ===== *)
theory Lifecycle_Spec
  imports Lifecycle "HOL-Library.Sublist"
begin

text \<open>
  What holds of the process in any run: it is ready only between a complete start and the first reason
  to stop, a lost lease is reported once and closes the scheduler once, every acquired resource is
  cleaned up in order whatever fails, and exit code 0 means that nothing did.
\<close>

section \<open>Diagnostics keep the flow\<close>

text \<open>What no diagnostic changes.\<close>

definition same_flow :: "life \<Rightarrow> life \<Rightarrow> bool" where
  "same_flow s s' \<longleftrightarrow> lf_phase s' = lf_phase s \<and> lf_shutting s' = lf_shutting s \<and> lf_resources s' = lf_resources s \<and>
     lf_sched_stopped s' = lf_sched_stopped s \<and> (lf_stop s \<longrightarrow> lf_stop s') \<and> (lf_operational s' \<longrightarrow> lf_operational s)"

lemma same_flow_refl [simp]: "same_flow s s"
  by (simp add: same_flow_def)

lemma same_flow_trans: "same_flow s s' \<Longrightarrow> same_flow s' s'' \<Longrightarrow> same_flow s s''"
  by (auto simp: same_flow_def)

lemma pass_on_fields [simp]:
  "lf_phase (pass_on d s) = lf_phase s" "lf_shutting (pass_on d s) = lf_shutting s"
  "lf_resources (pass_on d s) = lf_resources s" "lf_sched_stopped (pass_on d s) = lf_sched_stopped s"
  "lf_stop (pass_on d s) = lf_stop s" "lf_operational (pass_on d s) = lf_operational s"
  "lf_fc_invoked (pass_on d s) = lf_fc_invoked s" "lf_fc_running (pass_on d s) = lf_fc_running s"
  "lf_loss (pass_on d s) = lf_loss s" "lf_log (pass_on d s) = lf_log s @ [Diag d]"
  by (simp_all add: pass_on_def note_effect_def)

lemma emit_inside_fields [simp]:
  "lf_phase (emit_inside ds s) = lf_phase s" "lf_shutting (emit_inside ds s) = lf_shutting s"
  "lf_resources (emit_inside ds s) = lf_resources s" "lf_sched_stopped (emit_inside ds s) = lf_sched_stopped s"
  "lf_stop (emit_inside ds s) = lf_stop s" "lf_operational (emit_inside ds s) = lf_operational s"
  "lf_fc_invoked (emit_inside ds s) = lf_fc_invoked s" "lf_fc_running (emit_inside ds s) = lf_fc_running s"
  "lf_loss (emit_inside ds s) = lf_loss s"
  "lf_log (emit_inside ds s) = lf_log s @ map Diag (filter (\<lambda>d. d \<noteq> D_error Lease_lost) ds)"
  by (induction ds arbitrary: s) simp_all

lemma pass_on_code: "lf_code (pass_on d s) = lf_code s \<or> lf_code (pass_on d s) = 1"
  by (simp add: pass_on_def note_effect_def)

lemma emit_inside_code: "lf_code (emit_inside ds s) = lf_code s \<or> lf_code (emit_inside ds s) = 1"
proof (induction ds arbitrary: s)
  case (Cons d ds)
  show ?case using Cons [of "if d = D_error Lease_lost then s else pass_on d s"] pass_on_code [of d s]
    by (auto split: if_splits)
qed simp

lemma failClosedOnce_fields [simp]:
  "lf_phase (failClosedOnce i s) = lf_phase s" "lf_shutting (failClosedOnce i s) = lf_shutting s"
  "lf_resources (failClosedOnce i s) = lf_resources s" "lf_sched_stopped (failClosedOnce i s) = lf_sched_stopped s"
  "lf_operational (failClosedOnce i s) = False" "lf_fc_invoked (failClosedOnce i s) = True"
  "lf_loss (failClosedOnce i s) = lf_loss s"
  by (simp_all add: failClosedOnce_def Let_def requestStop_def note_effect_def)

lemma failClosedOnce_stop: "lf_stop (failClosedOnce i s) \<longleftrightarrow> lf_stop s \<or> \<not> lf_fc_invoked s"
  by (simp add: failClosedOnce_def Let_def requestStop_def)

lemma failClosedOnce_running: "lf_fc_running (failClosedOnce i s) \<longleftrightarrow> lf_fc_invoked s \<and> lf_fc_running s"
  by (simp add: failClosedOnce_def Let_def requestStop_def)

lemma failClosedOnce_code: "\<not> lf_fc_invoked s \<Longrightarrow> 1 \<le> lf_code (failClosedOnce i s)"
  by (simp add: failClosedOnce_def Let_def requestStop_def)

lemma failClosedOnce_log:
  "lf_log (failClosedOnce i s) = lf_log s @
     (if \<not> lf_fc_invoked s \<and> Res_coordinator \<in> lf_resources s
      then Fail_closed # map Diag (filter (\<lambda>d. d \<noteq> D_error Lease_lost) i) else [])"
  by (simp add: failClosedOnce_def Let_def requestStop_def note_effect_def)

lemma emit_same_flow: "same_flow s (emit i d s)"
  by (auto simp: same_flow_def emit_def note_effect_def failClosedOnce_stop)

lemma failClosedOnce_same_flow: "same_flow s (failClosedOnce i s)"
  by (auto simp: same_flow_def failClosedOnce_stop)

section \<open>The invariant of the flags\<close>

definition operating :: "life \<Rightarrow> bool" where
  "operating s \<longleftrightarrow> (\<exists>b. lf_phase s = Operating b)"

definition cleaning :: "life \<Rightarrow> bool" where
  "cleaning s \<longleftrightarrow> (\<exists>n. lf_phase s = Cleaning n) \<or> lf_phase s = Exited"

definition life_inv :: "life \<Rightarrow> bool" where
  "life_inv s \<longleftrightarrow> (lf_operational s \<longrightarrow> operating s \<and> \<not> lf_stop s) \<and> (lf_fc_invoked s \<longrightarrow> lf_stop s) \<and>
     (lf_loss s \<longrightarrow> lf_fc_invoked s) \<and> \<not> lf_fc_running s \<and> lf_shutting s = cleaning s \<and>
     (operating s \<longrightarrow> lf_stop s \<or> lf_operational s)"

lemma life_inv_emit: "life_inv s \<Longrightarrow> life_inv (emit i d s)"
  by (auto simp: life_inv_def emit_def note_effect_def failClosedOnce_stop failClosedOnce_running operating_def cleaning_def)

lemma life_inv_failClosed: "life_inv s \<Longrightarrow> life_inv (failClosedOnce i s)"
  by (auto simp: life_inv_def failClosedOnce_stop failClosedOnce_running operating_def cleaning_def)

lemma life_inv_code [simp]: "life_inv (s\<lparr>lf_code := n\<rparr>) = life_inv s"
  by (simp add: life_inv_def operating_def cleaning_def)

lemma life_inv_begin: "life_inv s \<Longrightarrow> life_inv (begin_cleanup s)"
  by (auto simp: life_inv_def begin_cleanup_def operating_def cleaning_def)

lemma life_inv_fails: "life_inv s \<Longrightarrow> life_inv (life_fails i e s)"
  by (simp add: life_fails_def life_inv_begin life_inv_emit)

lemma life_inv_await:
  assumes "life_inv s" "lf_stop s = False \<Longrightarrow> life_inv (next s)"
  shows "life_inv (await_then i r next s)"
  using assms by (auto simp: await_then_def ensureRunning_def life_inv_fails split: sum.split)

lemma life_inv_phase:
  "life_inv s \<Longrightarrow> \<not> operating s \<Longrightarrow> \<not> cleaning s \<Longrightarrow> p \<in> {Preparing, Waiting_bridge, Starting} \<Longrightarrow>
   life_inv (s\<lparr>lf_phase := p\<rparr>)"
  "life_inv s \<Longrightarrow> operating s \<Longrightarrow> life_inv (s\<lparr>lf_phase := Operating b\<rparr>)"
  "life_inv s \<Longrightarrow> cleaning s \<Longrightarrow> p = Exited \<or> (\<exists>n. p = Cleaning n) \<Longrightarrow> life_inv (s\<lparr>lf_phase := p\<rparr>)"
  by (auto simp: life_inv_def operating_def cleaning_def)

lemma life_inv_operational:
  assumes "life_inv s" "lf_stop s = False" "\<not> cleaning s"
  shows "life_inv (go_operational s)"
  unfolding go_operational_def using assms
  by (intro life_inv_emit) (auto simp: life_inv_def operating_def cleaning_def)

lemma life_inv_monitor:
  assumes "life_inv s" "operating s"
  shows "life_inv (monitor_ends i r s)"
  using life_inv_phase(2) [OF assms, of True]
  by (auto simp: monitor_ends_def Let_def life_inv_emit life_inv_failClosed split: sum.split)

lemma after_attempt_phase: "lf_phase (after_attempt c ok (note_effect x s)) = lf_phase s"
  using emit_same_flow [of "note_effect x s\<lparr>lf_code := 1\<rparr>" "[]"]
  by (auto simp: after_attempt_def note_effect_def same_flow_def)

lemma life_inv_attempt:
  assumes "life_inv s"
  shows "life_inv (after_attempt c ok (note_effect x s))"
proof -
  have "life_inv (note_effect x s)" "life_inv (note_effect x s\<lparr>lf_sched_stopped := True\<rparr>)"
    using assms by (auto simp: note_effect_def life_inv_def operating_def cleaning_def)
  then show ?thesis by (simp add: after_attempt_def life_inv_emit)
qed

lemma life_inv_clean:
  assumes "life_inv s" "cleaning s"
  shows "life_inv (clean_step n ok s)"
proof -
  have "cleaning t" if "lf_phase t = lf_phase s" for t using assms(2) that by (simp add: cleaning_def)
  note moved = this
  have "lf_phase (emit [] D_stopped s) = lf_phase s"
    using emit_same_flow [of s "[]" D_stopped] by (simp add: same_flow_def)
  then show ?thesis
    unfolding clean_step_def using assms
    by (auto intro!: life_inv_phase(3) life_inv_emit life_inv_attempt moved simp: after_attempt_phase split: prod.split)
qed

lemma life_inv_step:
  assumes "life_inv s"
  shows "life_inv (life_step i s e)"
proof (cases e)
  case (Prepared r)
  then show ?thesis using assms
    by (auto intro!: life_inv_await life_inv_phase(1) simp: operating_def cleaning_def)
next
  case (Bridge_up r)
  then show ?thesis using assms
    by (auto intro!: life_inv_await life_inv_phase(1) simp: operating_def cleaning_def)
next
  case (Started r)
  then show ?thesis using assms
    by (auto intro!: life_inv_await life_inv_operational simp: cleaning_def)
next
  case (Monitor_end r)
  then show ?thesis using assms by (auto intro!: life_inv_monitor simp: operating_def)
next
  case (Clean ok)
  then show ?thesis using assms by (auto intro!: life_inv_clean simp: cleaning_def split: life_phase.split)
next
  case (Emitted d)
  then show ?thesis using assms by (simp add: life_inv_emit)
next
  case Proceed
  then show ?thesis using assms by (simp add: life_inv_begin)
qed (use assms in \<open>auto simp: requestStop_def life_inv_def operating_def cleaning_def\<close>)

section \<open>Readiness\<close>

lemma life_run_simps [simp]: "life_run i [] = new_life" "life_run i (es @ [e]) = life_step i (life_run i es) e"
  by (simp_all add: life_run_def)

lemma life_inv_run: "life_inv (life_run i es)"
  by (induction es rule: rev_induct) (simp_all add: life_inv_step, simp add: new_life_def life_inv_def operating_def cleaning_def)

fun reached :: "life_phase \<Rightarrow> life_event list" where
  "reached Waiting_bridge = [Prepared (Inr ())]"
| "reached Starting = [Prepared (Inr ()), Bridge_up (Inr ())]"
| "reached (Operating b) = [Prepared (Inr ()), Bridge_up (Inr ()), Started (Inr ())]"
| "reached _ = []"

fun stop_event :: "life_event \<Rightarrow> bool" where
  "stop_event Signal = True"
| "stop_event (Request_stop c) = True"
| "stop_event (Emitted d) = (d = D_error Lease_lost)"
| "stop_event _ = False"

lemma emit_flow [simp]:
  "lf_phase (emit i d s) = lf_phase s" "lf_resources (emit i d s) = lf_resources s"
  "lf_sched_stopped (emit i d s) = lf_sched_stopped s"
  using emit_same_flow [of s i d] by (simp_all add: same_flow_def)

lemma emit_stop: "lf_stop s \<Longrightarrow> lf_stop (emit i d s)"
  using emit_same_flow [of s i d] by (simp add: same_flow_def)

lemma begin_cleanup_fields [simp]:
  "lf_phase (begin_cleanup s) = Cleaning 0" "lf_resources (begin_cleanup s) = lf_resources s"
  "lf_log (begin_cleanup s) = lf_log s" "lf_code (begin_cleanup s) = lf_code s"
  "lf_sched_stopped (begin_cleanup s) = lf_sched_stopped s" "lf_fc_invoked (begin_cleanup s) = lf_fc_invoked s"
  "lf_loss (begin_cleanup s) = lf_loss s" "lf_stop (begin_cleanup s) = lf_stop s"
  by (simp_all add: begin_cleanup_def)

lemma life_fails_phase [simp]: "lf_phase (life_fails i e s) = Cleaning 0" "lf_resources (life_fails i e s) = lf_resources s"
  by (simp_all add: life_fails_def)

lemma clean_step_flow [simp]:
  "lf_resources (clean_step n ok s) = lf_resources s"
  "lf_phase (clean_step n ok s) = (if n < length cleanups then Cleaning (Suc n) else Exited)"
  using emit_same_flow [of _ "[]"]
  by (auto simp: clean_step_def after_attempt_def note_effect_def split: prod.split)

lemma phase_step:
  "lf_phase (life_step i s e) = lf_phase s \<or> reached (lf_phase (life_step i s e)) = reached (lf_phase s) @ [e] \<or>
   reached (lf_phase (life_step i s e)) = [] \<or> (\<exists>b c. lf_phase s = Operating b \<and> lf_phase (life_step i s e) = Operating c)"
  by (cases e) (auto simp: await_then_def go_operational_def monitor_ends_def Let_def requestStop_def
      split: sum.split life_phase.split unit.split)

lemma reached_run: "subseq (reached (lf_phase (life_run i es))) es"
proof (induction es rule: rev_induct)
  case (snoc e es)
  then have "subseq (reached (lf_phase (life_run i es))) (es @ [e])" by (rule subseq_rev_drop_many)
  moreover have "subseq (reached (lf_phase (life_run i es)) @ [e]) (es @ [e])" using snoc by simp
  ultimately show ?case using phase_step [of i "life_run i es" e] by auto
qed (simp add: new_life_def)

lemma resources_step: "lf_resources (life_step i s e) \<subseteq> lf_resources s \<union> {r. e = Acquired r}"
  by (cases e) (auto simp: await_then_def go_operational_def monitor_ends_def Let_def requestStop_def
      split: sum.split life_phase.split)

lemma resources_run: "r \<in> lf_resources (life_run i es) \<Longrightarrow> Acquired r \<in> set es"
proof (induction es rule: rev_induct)
  case (snoc e es)
  then show ?case using resources_step [of i "life_run i es" e] by auto
qed (simp add: new_life_def)

lemma stop_step:
  assumes "life_inv s" "lf_stop s \<or> cleaning s"
  shows "lf_stop (life_step i s e) \<or> cleaning (life_step i s e)"
  using assms
  by (cases e) (auto simp: await_then_def ensureRunning_def monitor_ends_def Let_def requestStop_def life_inv_def
      cleaning_def emit_stop failClosedOnce_stop split: sum.split life_phase.split)

lemma stop_event_stops:
  assumes "life_inv s" "stop_event e"
  shows "lf_stop (life_step i s e) \<or> cleaning (life_step i s e)"
  using assms
  by (cases e) (auto simp: requestStop_def signals_on_def cleaning_def emit_def failClosedOnce_stop note_effect_def
      life_inv_def split: life_phase.split if_splits)

lemma stop_run: "\<exists>e \<in> set es. stop_event e \<Longrightarrow> lf_stop (life_run i es) \<or> cleaning (life_run i es)"
proof (induction es rule: rev_induct)
  case (snoc e es)
  then show ?case
    using stop_step [OF life_inv_run [of i es], of i e] stop_event_stops [OF life_inv_run [of i es], of e i] by auto
qed simp

text \<open>the process reports ready only while the whole service runs: Redis was acquired and is ready now,
preparation, bridge and scheduler came up in this order, and since the start there was no signal, no
request to stop and no lost lease.\<close>

theorem ready_only_while_running:
  assumes "isReady (life_run i es) redis_ready"
  shows "redis_ready \<and> Acquired Res_redis \<in> set es \<and>
    subseq [Prepared (Inr ()), Bridge_up (Inr ()), Started (Inr ())] es \<and>
    Signal \<notin> set es \<and> (\<forall>code. Request_stop code \<notin> set es) \<and> Emitted (D_error Lease_lost) \<notin> set es"
proof -
  let ?s = "life_run i es"
  have op: "operating ?s" "\<not> lf_stop ?s" "redis_ready" "Res_redis \<in> lf_resources ?s"
    using assms life_inv_run [of i es] by (auto simp: isReady_def life_inv_def)
  then have "\<not> cleaning ?s" by (auto simp: operating_def cleaning_def)
  then have "\<forall>e \<in> set es. \<not> stop_event e" using stop_run [of es i] op(2) by blast
  then have none: "Signal \<notin> set es \<and> (\<forall>code. Request_stop code \<notin> set es) \<and> Emitted (D_error Lease_lost) \<notin> set es"
    by (auto dest: bspec)
  have "subseq [Prepared (Inr ()), Bridge_up (Inr ()), Started (Inr ())] es"
    using reached_run [of i es] op(1) by (auto simp: operating_def)
  then show ?thesis using none op resources_run [OF op(4)] by blast
qed

definition demo_start :: "life_event list" where
  "demo_start = [Acquired Res_redis, Acquired Res_coordinator, Acquired Res_server, Prepared (Inr ()),
     Bridge_up (Inr ()), Started (Inr ())]"

lemmas life_defs = life_run_def new_life_def demo_start_def await_then_def ensureRunning_def go_operational_def
  emit_def pass_on_def note_effect_def shutdown_failures_def

theorem ready_only_while_running_witness:
  "isReady (life_run [] demo_start) True \<and> Signal \<notin> set demo_start"
proof -
  have ok: "isReady (life_run [] demo_start) True" by (simp add: life_defs isReady_def)
  with ready_only_while_running [OF ok] show ?thesis by blast
qed

section \<open>Losing the lease\<close>

definition losses :: "life_effect list \<Rightarrow> nat" where
  "losses log = length (filter (\<lambda>e. e = Diag (D_error Lease_lost)) log)"

definition closes :: "life_effect list \<Rightarrow> nat" where
  "closes log = length (filter (\<lambda>e. e = Fail_closed) log)"

lemma losses_simps [simp]:
  "losses [] = 0" "losses (a @ b) = losses a + losses b"
  "losses (e # log) = (if e = Diag (D_error Lease_lost) then 1 else 0) + losses log"
  "losses (map Diag (filter (\<lambda>d. d \<noteq> D_error Lease_lost) ds)) = 0"
  by (auto simp: losses_def filter_empty_conv)

lemma closes_simps [simp]:
  "closes [] = 0" "closes (a @ b) = closes a + closes b"
  "closes (e # log) = (if e = Fail_closed then 1 else 0) + closes log"
  "closes (map Diag ds) = 0"
  by (auto simp: closes_def filter_empty_conv)

definition loss_inv :: "life \<Rightarrow> bool" where
  "loss_inv s \<longleftrightarrow> losses (lf_log s) = (if lf_loss s then 1 else 0) \<and>
     closes (lf_log s) \<le> (if lf_fc_invoked s then 1 else 0) \<and> (lf_fc_invoked s \<longrightarrow> 1 \<le> lf_code s)"

lemma pass_on_code_keeps: "1 \<le> lf_code s \<Longrightarrow> 1 \<le> lf_code (pass_on d s)"
  using pass_on_code [of d s] by auto

lemma loss_inv_failClosed:
  assumes "loss_inv s"
  shows "loss_inv (failClosedOnce i s)"
proof (cases "lf_fc_invoked s")
  case True
  then have "lf_code (failClosedOnce i s) = lf_code s" by (simp add: failClosedOnce_def Let_def)
  then show ?thesis using assms True by (simp add: loss_inv_def failClosedOnce_log)
next
  case False
  then show ?thesis using assms failClosedOnce_code [OF False, of i] by (simp add: loss_inv_def failClosedOnce_log)
qed

lemma loss_inv_emit: "loss_inv s \<Longrightarrow> loss_inv (emit i d s)"
  using loss_inv_failClosed [of s i] pass_on_code_keeps [of s d]
  by (auto simp: emit_def loss_inv_def note_effect_def)

lemma loss_inv_same:
  "loss_inv s \<Longrightarrow> lf_log s' = lf_log s \<Longrightarrow> lf_loss s' = lf_loss s \<Longrightarrow> lf_fc_invoked s' = lf_fc_invoked s \<Longrightarrow>
   lf_code s \<le> lf_code s' \<Longrightarrow> loss_inv s'"
  by (auto simp: loss_inv_def)

lemma loss_inv_one: "loss_inv s \<Longrightarrow> loss_inv (s\<lparr>lf_code := Suc 0\<rparr>)"
  by (simp add: loss_inv_def)

lemma loss_inv_fails: "loss_inv s \<Longrightarrow> loss_inv (life_fails i e s)"
  unfolding life_fails_def
  by (rule loss_inv_same [of "if expected_stop s e then s else (emit i (D_error e) s)\<lparr>lf_code := 1\<rparr>"])
    (simp_all add: loss_inv_one loss_inv_emit)

lemma loss_inv_await:
  assumes "loss_inv s" "loss_inv (next s)"
  shows "loss_inv (await_then i r next s)"
  using assms by (auto simp: await_then_def loss_inv_fails split: sum.split)

lemma loss_inv_attempt:
  assumes "loss_inv s"
  shows "loss_inv (after_attempt c ok (note_effect (Attempt c ok) s))"
proof -
  have "loss_inv (note_effect (Attempt d b) s)" "loss_inv (note_effect (Attempt d b) s\<lparr>lf_sched_stopped := True\<rparr>)" for d b
    using assms by (simp_all add: loss_inv_def note_effect_def)
  then show ?thesis by (simp add: after_attempt_def loss_inv_emit loss_inv_one)
qed

lemma loss_inv_phase [simp]: "loss_inv (s\<lparr>lf_phase := p\<rparr>) = loss_inv s"
  by (simp add: loss_inv_def)

lemma loss_inv_step:
  assumes "loss_inv s"
  shows "loss_inv (life_step i s e)"
proof (cases e)
  case (Clean ok)
  then show ?thesis using assms
    by (auto simp: clean_step_def loss_inv_attempt loss_inv_emit split: life_phase.split prod.split)
next
  case (Monitor_end r)
  then show ?thesis using assms
    by (auto simp: monitor_ends_def Let_def loss_inv_emit loss_inv_failClosed split: sum.split)
next
  case (Started r)
  have "loss_inv (go_operational s)"
    unfolding go_operational_def by (rule loss_inv_emit, rule loss_inv_same [OF assms]) simp_all
  then show ?thesis using assms by (simp add: Started loss_inv_await)
next
  case (Signal)
  then show ?thesis using assms by (auto simp: requestStop_def intro!: loss_inv_same [of s])
next
  case (Request_stop c)
  then show ?thesis using assms by (auto simp: requestStop_def intro!: loss_inv_same [of s])
next
  case Proceed
  then show ?thesis using assms by (auto intro!: loss_inv_same [of s "begin_cleanup s"])
qed (use assms in \<open>auto intro!: loss_inv_await loss_inv_same [of s] loss_inv_emit\<close>)

lemma loss_inv_run: "loss_inv (life_run i es)"
  by (induction es rule: rev_induct) (simp_all add: loss_inv_step, simp add: new_life_def loss_inv_def)

text \<open>whatever reports the loss of the lease, and however often (workers, the bridge monitor, a failing start,
the scheduler's own report from inside \<open>failClosed\<close>), the scheduler is failed closed at most once, the loss
is reported at most once, and the process is then stopping, not ready, and exits with a failure.\<close>

theorem lease_loss_is_reported_once:
  "losses (lf_log (life_run i es)) \<le> 1 \<and> closes (lf_log (life_run i es)) \<le> 1 \<and>
   (losses (lf_log (life_run i es)) = 1 \<or> closes (lf_log (life_run i es)) = 1 \<longrightarrow>
     lf_stop (life_run i es) \<and> \<not> isReady (life_run i es) redis_ready \<and> 1 \<le> lf_code (life_run i es))"
  using loss_inv_run [of i es] life_inv_run [of i es]
  by (auto simp: loss_inv_def life_inv_def isReady_def split: if_splits)

theorem lease_loss_is_reported_once_witness:
  "losses (lf_log (life_run [D_error Lease_lost, D_error Store_unavailable]
     (demo_start @ [Emitted (D_error Lease_lost), Emitted (D_error Lease_lost), Monitor_end (Inl Internal_failed)]))) = 1 \<and>
   1 \<le> lf_code (life_run [D_error Lease_lost, D_error Store_unavailable]
     (demo_start @ [Emitted (D_error Lease_lost), Emitted (D_error Lease_lost), Monitor_end (Inl Internal_failed)]))"
proof -
  let ?s = "life_run [D_error Lease_lost, D_error Store_unavailable]
     (demo_start @ [Emitted (D_error Lease_lost), Emitted (D_error Lease_lost), Monitor_end (Inl Internal_failed)])"
  have "losses (lf_log ?s) = 1"
    by (simp add: life_defs failClosedOnce_def Let_def requestStop_def monitor_ends_def expected_stop_def)
  with lease_loss_is_reported_once [of "[D_error Lease_lost, D_error Store_unavailable]"
      "demo_start @ [Emitted (D_error Lease_lost), Emitted (D_error Lease_lost), Monitor_end (Inl Internal_failed)]" True]
  show ?thesis by blast
qed

section \<open>Cleanup\<close>

fun attempts_of :: "life_effect list \<Rightarrow> (cleanup \<times> bool) list" where
  "attempts_of [] = []"
| "attempts_of (Attempt c ok # log) = (c, ok) # attempts_of log"
| "attempts_of (e # log) = attempts_of log"

lemma attempts_of_append [simp]: "attempts_of (a @ b) = attempts_of a @ attempts_of b"
  by (induction a rule: attempts_of.induct) simp_all

lemma attempts_of_Diag [simp]: "attempts_of (map Diag ds) = []"
  by (induction ds) simp_all

definition plan :: "resource set \<Rightarrow> nat \<Rightarrow> cleanup list" where
  "plan R n = [c. (r, c) \<leftarrow> take n cleanups, r \<in> R]"

definition planned :: "life \<Rightarrow> nat" where
  "planned s = (case lf_phase s of Cleaning n \<Rightarrow> n | Exited \<Rightarrow> length cleanups | _ \<Rightarrow> 0)"

definition clean_inv :: "life \<Rightarrow> bool" where
  "clean_inv s \<longleftrightarrow> map fst (attempts_of (lf_log s)) = plan (lf_resources s) (planned s) \<and>
     planned s \<le> length cleanups \<and> (lf_sched_stopped s \<longrightarrow> 2 \<le> planned s) \<and>
     (lf_code s = 0 \<longrightarrow> list_all snd (attempts_of (lf_log s))) \<and>
     (lf_phase s = Exited \<longrightarrow> lf_log s \<noteq> [] \<and> last (lf_log s) = Diag D_stopped) \<and>
     (lf_code s = 0 \<and> cleaning s \<longrightarrow> lf_stop s)"

lemma planned_le: "n < length cleanups \<Longrightarrow> cleanups ! n = (r, c) \<Longrightarrow> plan R (Suc n) = plan R n @ (if r \<in> R then [c] else [])"
  by (simp add: plan_def take_Suc_conv_app_nth)

lemma emit_attempts [simp]: "attempts_of (lf_log (emit i d s)) = attempts_of (lf_log s)"
  by (simp add: emit_def note_effect_def failClosedOnce_log)

lemma failClosedOnce_attempts [simp]: "attempts_of (lf_log (failClosedOnce i s)) = attempts_of (lf_log s)"
  by (simp add: failClosedOnce_log)

lemma emit_inside_zero: "lf_code (emit_inside ds s) = 0 \<Longrightarrow> lf_code s = 0"
  using emit_inside_code [of ds s] by auto

lemma failClosedOnce_zero: "lf_code (failClosedOnce i s) = 0 \<Longrightarrow> lf_code s = 0"
  using failClosedOnce_code [of s i] by (cases "lf_fc_invoked s") (auto simp: failClosedOnce_def Let_def)

lemma emit_zero: "lf_code (emit i d s) = 0 \<Longrightarrow> lf_code s = 0"
  using pass_on_code [of d s] failClosedOnce_zero [of i s] by (auto simp: emit_def note_effect_def split: if_splits)

lemma planned_same: "lf_phase s' = lf_phase s \<Longrightarrow> planned s' = planned s"
  by (simp add: planned_def)

text \<open>Everything but a step of the cleanup: no attempt, and the exit code never goes back to 0.\<close>

lemma clean_inv_same:
  assumes "clean_inv s" "lf_phase s \<noteq> Exited" "lf_phase s' \<noteq> Exited" "planned s' = planned s"
    and "attempts_of (lf_log s') = attempts_of (lf_log s)" "lf_sched_stopped s' = lf_sched_stopped s"
    and "planned s = 0 \<or> lf_resources s' = lf_resources s"
    and "lf_code s' = 0 \<Longrightarrow> lf_code s = 0" "cleaning s' \<Longrightarrow> lf_code s' = 0 \<Longrightarrow> lf_stop s'"
  shows "clean_inv s'"
  using assms by (auto simp: clean_inv_def plan_def)

lemma clean_inv_fails:
  assumes "clean_inv s" "lf_phase s \<noteq> Exited" "planned s = 0"
  shows "clean_inv (life_fails i e s)"
  using assms
  by (auto intro!: clean_inv_same [of s] simp: life_fails_def planned_def expected_stop_def dest: emit_zero)

lemma clean_inv_await:
  assumes "clean_inv s" "lf_phase s \<noteq> Exited" "planned s = 0" "clean_inv (next s)"
  shows "clean_inv (await_then i r next s)"
  using assms by (auto simp: await_then_def clean_inv_fails split: sum.split)

lemma clean_inv_operational:
  assumes "clean_inv s" "lf_phase s \<noteq> Exited" "planned s = 0"
  shows "clean_inv (go_operational s)"
  by (rule clean_inv_same [OF assms(1,2)])
    (use assms(3) in \<open>simp_all add: go_operational_def planned_def cleaning_def\<close>, metis emit_zero life.select_convs(5) life.update_convs(1,2) life.surjective)

lemma clean_inv_emit:
  assumes "clean_inv s" "lf_phase s \<noteq> Exited"
  shows "clean_inv (emit i d s)"
proof (rule clean_inv_same [OF assms])
  assume "cleaning (emit i d s)" "lf_code (emit i d s) = 0"
  then have "cleaning s" "lf_code s = 0" by (simp_all add: cleaning_def emit_zero)
  then show "lf_stop (emit i d s)" using assms(1) by (simp add: clean_inv_def emit_stop)
qed (use assms(2) in \<open>simp_all add: planned_def emit_zero\<close>)

lemma clean_inv_attempt:
  assumes "clean_inv s" "lf_phase s = Cleaning n" "n < length cleanups" "cleanups ! n = (r, c)" "cleanup_due s r c"
  shows "clean_inv ((after_attempt c ok (note_effect (Attempt c ok) s))\<lparr>lf_phase := Cleaning (Suc n)\<rparr>)"
proof -
  have r: "r \<in> lf_resources s" using assms(5) by (simp add: cleanup_due_def)
  have pos: "c = Stop_scheduling_of \<Longrightarrow> n = 1"
    using assms(3,4) by (auto simp: cleanups_def less_Suc_eq numeral_eq_Suc)
  have "n = planned s" using assms(2) by (simp add: planned_def)
  then have base: "map fst (attempts_of (lf_log s)) = plan (lf_resources s) n"
    "lf_sched_stopped s \<longrightarrow> 2 \<le> n" "lf_code s = 0 \<Longrightarrow> list_all snd (attempts_of (lf_log s)) \<and> lf_stop s"
    using assms(1,2) by (auto simp: clean_inv_def cleaning_def)
  have code: "lf_code (emit [] d (s\<lparr>lf_log := log, lf_code := Suc 0\<rparr>)) = 0 \<longleftrightarrow> False" for d log
    using emit_zero [of "[]" d "s\<lparr>lf_log := log, lf_code := Suc 0\<rparr>"] by auto
  show ?thesis
    using base r assms(3) planned_le [OF assms(3,4)] pos
    by (auto simp: clean_inv_def after_attempt_def note_effect_def planned_def cleaning_def code)
qed

lemma clean_inv_skip:
  assumes "clean_inv s" "lf_phase s = Cleaning n" "n < length cleanups" "cleanups ! n = (r, c)" "\<not> cleanup_due s r c"
  shows "clean_inv (s\<lparr>lf_phase := Cleaning (Suc n)\<rparr>)"
proof -
  have "c = Stop_scheduling_of \<Longrightarrow> n = 1"
    using assms(3,4) by (auto simp: cleanups_def less_Suc_eq numeral_eq_Suc)
  moreover have "lf_sched_stopped s \<Longrightarrow> 2 \<le> n" using assms(1,2) by (auto simp: clean_inv_def planned_def)
  ultimately have "r \<notin> lf_resources s" using assms(5) by (auto simp: cleanup_due_def)
  then show ?thesis
    using assms(1-3) planned_le [OF assms(3,4), of "lf_resources s"] by (auto simp: clean_inv_def planned_def cleaning_def)
qed

lemma clean_inv_exit:
  assumes "clean_inv s" "lf_phase s = Cleaning n" "\<not> n < length cleanups"
  shows "clean_inv ((emit [] D_stopped s)\<lparr>lf_phase := Exited\<rparr>)"
proof -
  have "planned s = n" using assms(2) by (simp add: planned_def)
  then have n: "n = length cleanups" using assms(1,3) by (auto simp: clean_inv_def)
  have "clean_inv (emit [] D_stopped s)" by (rule clean_inv_emit) (use assms in simp_all)
  moreover have "lf_log (emit [] D_stopped s) = lf_log s @ [Diag D_stopped]" by (simp add: emit_def)
  ultimately show ?thesis using assms(2) n
    by (auto simp: clean_inv_def planned_def cleaning_def cleanups_def)
qed

lemma clean_inv_step:
  assumes "clean_inv s" "life_inv s"
  shows "clean_inv (life_step i s e)"
proof (cases e)
  case (Clean ok)
  then show ?thesis using assms(1)
    by (auto simp: clean_step_def clean_inv_attempt clean_inv_skip clean_inv_exit split: life_phase.split prod.split)
next
  case (Acquired r)
  then show ?thesis using assms(1)
    by (auto intro!: clean_inv_same [of s] simp: planned_def cleaning_def)
next
  case (Prepared r)
  have "clean_inv (s\<lparr>lf_phase := Waiting_bridge\<rparr>)" if "lf_phase s = Preparing"
    using that by (intro clean_inv_same [OF assms(1)]) (auto simp: planned_def cleaning_def)
  then show ?thesis using assms(1) Prepared by (auto intro!: clean_inv_await simp: planned_def)
next
  case (Bridge_up r)
  have "clean_inv (s\<lparr>lf_phase := Starting\<rparr>)" if "lf_phase s = Waiting_bridge"
    using that by (intro clean_inv_same [OF assms(1)]) (auto simp: planned_def cleaning_def)
  then show ?thesis using assms(1) Bridge_up by (auto intro!: clean_inv_await simp: planned_def)
next
  case (Started r)
  then show ?thesis using assms(1) by (auto intro!: clean_inv_await clean_inv_operational simp: planned_def)
next
  case (Monitor_end r)
  then show ?thesis using assms(1)
    by (auto simp: monitor_ends_def Let_def planned_def cleaning_def
        intro!: clean_inv_same [of s] dest!: emit_zero failClosedOnce_zero split: sum.split)
next
  case Proceed
  then show ?thesis using assms(1)
    by (auto intro!: clean_inv_same [of s] simp: planned_def cleaning_def begin_cleanup_def)
next
  case Signal
  then show ?thesis using assms(1)
    by (auto intro!: clean_inv_same [of s] simp: planned_def cleaning_def requestStop_def signals_on_def)
next
  case (Request_stop c)
  then show ?thesis using assms(1)
    by (auto intro!: clean_inv_same [of s] simp: planned_def cleaning_def requestStop_def)
next
  case (Emitted d)
  then show ?thesis using assms(1) by (simp add: clean_inv_emit)
qed

lemma clean_inv_run: "clean_inv (life_run i es)"
  by (induction es rule: rev_induct)
    (simp_all add: clean_inv_step life_inv_run, simp add: new_life_def clean_inv_def planned_def plan_def cleaning_def)

lemma all_cleanups:
  "[c. (r, c) \<leftarrow> cleanups, r \<in> R] =
     (if Res_server \<in> R then [Stop_intake_of] else []) @ (if Res_coordinator \<in> R then [Stop_scheduling_of, Drain_of] else []) @
     (if Res_server \<in> R then [Close_server_of] else []) @ (if Res_host \<in> R then [Close_host_of] else []) @
     (if Res_repository \<in> R then [Close_repository_of] else []) @ (if Res_redis \<in> R then [Close_redis_of] else [])"
  by (simp add: cleanups_def)

text \<open>C30: when the process exits, every resource it had acquired was cleaned up, each operation attempted exactly once and in
this order, written out in the statement: stop the intake of a server; stop the scheduling of a coordinator
and drain it; close the server, the host, the repository and the Redis connections, whichever of these
failed before; and \<open>stopped\<close> is the last report. Exit code 0 says more: the stop was asked for, every
cleanup succeeded, and no lease was lost.\<close>

theorem exit_cleans_everything:
  assumes "lf_phase (life_run i es) = Exited"
  shows "map fst (attempts_of (lf_log (life_run i es))) =
      (if Res_server \<in> lf_resources (life_run i es) then [Stop_intake_of] else []) @
      (if Res_coordinator \<in> lf_resources (life_run i es) then [Stop_scheduling_of, Drain_of] else []) @
      (if Res_server \<in> lf_resources (life_run i es) then [Close_server_of] else []) @
      (if Res_host \<in> lf_resources (life_run i es) then [Close_host_of] else []) @
      (if Res_repository \<in> lf_resources (life_run i es) then [Close_repository_of] else []) @
      (if Res_redis \<in> lf_resources (life_run i es) then [Close_redis_of] else []) \<and>
    lf_log (life_run i es) \<noteq> [] \<and> last (lf_log (life_run i es)) = Diag D_stopped \<and>
    (lf_code (life_run i es) = 0 \<longrightarrow> lf_stop (life_run i es) \<and>
      list_all snd (attempts_of (lf_log (life_run i es))) \<and> losses (lf_log (life_run i es)) = 0)"
proof -
  have "cleaning (life_run i es)" using assms by (simp add: cleaning_def)
  then have "map fst (attempts_of (lf_log (life_run i es))) = [c. (r, c) \<leftarrow> cleanups, r \<in> lf_resources (life_run i es)] \<and>
    lf_log (life_run i es) \<noteq> [] \<and> last (lf_log (life_run i es)) = Diag D_stopped \<and>
    (lf_code (life_run i es) = 0 \<longrightarrow> lf_stop (life_run i es) \<and>
      list_all snd (attempts_of (lf_log (life_run i es))) \<and> losses (lf_log (life_run i es)) = 0)"
    using clean_inv_run [of i es] loss_inv_run [of i es] life_inv_run [of i es] assms
    by (auto simp: clean_inv_def plan_def planned_def loss_inv_def life_inv_def split: if_splits)
  then show ?thesis unfolding all_cleanups .
qed

definition demo_stop :: "life_event list" where
  "demo_stop = demo_start @ [Signal, Monitor_end (Inl Intake_closed), Proceed] @ replicate 7 (Clean True) @ [Clean True]"

theorem exit_cleans_everything_witness:
  "map fst (attempts_of (lf_log (life_run [] demo_stop))) =
    [Stop_intake_of, Stop_scheduling_of, Drain_of, Close_server_of, Close_redis_of]"
proof -
  have out: "lf_phase (life_run [] demo_stop) = Exited" "lf_resources (life_run [] demo_stop) = {Res_redis, Res_coordinator, Res_server}"
    by (auto simp: life_defs demo_stop_def numeral_eq_Suc requestStop_def signals_on_def monitor_ends_def expected_stop_def
        begin_cleanup_def clean_step_def cleanups_def cleanup_due_def after_attempt_def)
  from exit_cleans_everything [OF out(1)] show ?thesis by (simp add: out(2))
qed

section \<open>The end\<close>

text \<open>The event that ends what the main function waits for in its phase, whatever its outcome.\<close>

fun settles :: "life_phase \<Rightarrow> life_event \<Rightarrow> bool" where
  "settles Preparing (Prepared r) = True"
| "settles Waiting_bridge (Bridge_up r) = True"
| "settles Starting (Started r) = True"
| "settles (Operating False) (Monitor_end r) = True"
| "settles (Operating True) Proceed = True"
| "settles (Cleaning n) (Clean ok) = True"
| "settles phase e = False"

fun settlements :: "diagnostic list \<Rightarrow> life \<Rightarrow> life_event list \<Rightarrow> nat" where
  "settlements i s [] = 0"
| "settlements i s (e # es) = (if settles (lf_phase s) e then 1 else 0) + settlements i (life_step i s e) es"

fun rank :: "life_phase \<Rightarrow> nat" where
  "rank Exited = 0"
| "rank (Cleaning n) = Suc (length cleanups - n)"
| "rank (Operating True) = length cleanups + 2"
| "rank phase = length cleanups + 3"

lemma rank_zero [simp]: "rank p = 0 \<longleftrightarrow> p = Exited"
  by (cases p rule: rank.cases) simp_all

definition ending :: "life \<Rightarrow> bool" where
  "ending s \<longleftrightarrow> lf_stop s \<or> cleaning s"

lemma rank_clean: "rank (lf_phase (clean_step n ok s)) < Suc (length cleanups - n)"
  by (auto simp: clean_step_def Let_def split: prod.split)

lemma rank_fails: "rank (lf_phase (life_fails i e s)) = Suc (length cleanups)" "cleaning (life_fails i e s)"
  by (simp_all add: life_fails_def begin_cleanup_def cleaning_def)

lemma await_ends: "lf_stop s \<Longrightarrow> \<exists>e. await_then i r next s = life_fails i e s"
  by (auto simp: await_then_def ensureRunning_def split: sum.split)

lemma ending_same: "ending s \<Longrightarrow> lf_phase s' = lf_phase s \<Longrightarrow> (lf_stop s \<Longrightarrow> lf_stop s') \<Longrightarrow> ending s' \<and> rank (lf_phase s') \<le> rank (lf_phase s)"
  by (auto simp: ending_def cleaning_def)

lemma ending_step:
  assumes "ending s"
  shows "ending (life_step i s e) \<and> rank (lf_phase (life_step i s e)) \<le> rank (lf_phase s)"
    and "settles (lf_phase s) e \<Longrightarrow> rank (lf_phase (life_step i s e)) < rank (lf_phase s)"
proof -
  have cleaning: "cleaning (clean_step n ok s)" for n ok
    by (auto simp: clean_step_def cleaning_def split: prod.split)
  have stop: "lf_stop s" if "lf_phase s \<in> {Preparing, Waiting_bridge, Starting, Operating b}" for b
    using assms that by (auto simp: ending_def cleaning_def)
  have await: "ending (await_then i r f s) \<and> rank (lf_phase (await_then i r f s)) = Suc (length cleanups)"
    if "lf_stop s" for r and f :: "life \<Rightarrow> life"
    using await_ends [OF that, of i r f] rank_fails [of i _ s] by (auto simp: ending_def)
  have monitor: "ending (monitor_ends i r s)" "lf_phase (monitor_ends i r s) = Operating True" if "lf_stop s" for r
    using that by (auto simp: monitor_ends_def Let_def ending_def emit_stop failClosedOnce_stop split: sum.split)
  note same = ending_same [OF assms]
  show "ending (life_step i s e) \<and> rank (lf_phase (life_step i s e)) \<le> rank (lf_phase s)"
  proof (cases e)
    case (Clean ok)
    then show ?thesis using assms cleaning rank_clean [of _ ok s] by (auto simp: ending_def less_imp_le split: life_phase.split)
  next
    case (Prepared r)
    then show ?thesis using assms await stop by auto
  next
    case (Bridge_up r)
    then show ?thesis using assms await stop by auto
  next
    case (Started r)
    then show ?thesis using assms await stop by auto
  next
    case (Monitor_end r)
    then show ?thesis using assms monitor stop [of False] by auto
  next
    case Proceed
    then show ?thesis using assms by (auto simp: begin_cleanup_def ending_def cleaning_def)
  next
    case (Acquired r)
    show ?thesis unfolding Acquired by (rule same) auto
  next
    case Signal
    show ?thesis unfolding Signal by (rule same) (auto simp: requestStop_def)
  next
    case (Request_stop c)
    show ?thesis unfolding Request_stop by (rule same) (auto simp: requestStop_def)
  next
    case (Emitted d)
    show ?thesis unfolding Emitted by (rule same) (auto simp: emit_stop)
  qed
  show "rank (lf_phase (life_step i s e)) < rank (lf_phase s)" if "settles (lf_phase s) e"
    using that stop [of False] stop [of True] await monitor rank_clean
    by (cases "(lf_phase s, e)" rule: settles.cases) (auto simp: begin_cleanup_def)
qed

lemma settlements_bounded:
  assumes "ending s"
  shows "settlements i s es + rank (lf_phase (foldl (life_step i) s es)) \<le> rank (lf_phase s)"
  using assms
proof (induction es arbitrary: s)
  case (Cons e es)
  have "settlements i (life_step i s e) es + rank (lf_phase (foldl (life_step i) (life_step i s e) es)) \<le>
      rank (lf_phase (life_step i s e))"
    using Cons.IH ending_step(1) [OF Cons.prems] by blast
  moreover have "rank (lf_phase (life_step i s e)) + (if settles (lf_phase s) e then 1 else 0) \<le> rank (lf_phase s)"
    using ending_step(1) [OF Cons.prems, of i e] ending_step(2) [OF Cons.prems, of e i] by auto
  ultimately show ?case by simp
qed simp

text \<open>C31: a stop always ends the process: once a stop was requested or the main function has failed, at most ten
of the calls it waits for can still settle, whichever of them fail and whatever happens in between; after
the tenth the process has exited, so no order of failures keeps it alive.\<close>

theorem stop_terminates:
  assumes "lf_stop (life_run i es) \<or> (\<exists>n. lf_phase (life_run i es) = Cleaning n)"
  shows "settlements i (life_run i es) fs \<le> 10 \<and>
    (settlements i (life_run i es) fs = 10 \<longrightarrow> lf_phase (life_run i (es @ fs)) = Exited)"
proof -
  have "ending (life_run i es)" using assms by (auto simp: ending_def cleaning_def)
  then have "settlements i (life_run i es) fs + rank (lf_phase (life_run i (es @ fs))) \<le> rank (lf_phase (life_run i es))"
    using settlements_bounded [of "life_run i es" i fs] by (simp add: life_run_def)
  moreover have "rank p \<le> 10" for p by (cases p rule: rank.cases) (simp_all add: cleanups_def)
  ultimately have "settlements i (life_run i es) fs + rank (lf_phase (life_run i (es @ fs))) \<le> 10"
    using order_trans by blast
  then show ?thesis by (cases "lf_phase (life_run i (es @ fs)) = Exited") (auto simp flip: rank_zero)
qed

theorem stop_terminates_witness:
  "settlements [] (life_run [] (demo_start @ [Signal])) ([Monitor_end (Inl Intake_closed), Proceed] @ replicate 8 (Clean False)) = 10 \<and>
   lf_phase (life_run [] ((demo_start @ [Signal]) @ [Monitor_end (Inl Intake_closed), Proceed] @ replicate 8 (Clean False))) = Exited"
proof -
  let ?fs = "[Monitor_end (Inl Intake_closed), Proceed] @ replicate 8 (Clean False)"
  have stop: "lf_stop (life_run [] (demo_start @ [Signal]))"
    by (simp add: life_defs requestStop_def signals_on_def)
  have "settlements [] (life_run [] (demo_start @ [Signal])) ?fs = 10"
    by (simp add: life_defs numeral_eq_Suc requestStop_def signals_on_def monitor_ends_def expected_stop_def
        begin_cleanup_def clean_step_def cleanups_def cleanup_due_def after_attempt_def)
  with stop_terminates [of "[]" "demo_start @ [Signal]" ?fs] stop show ?thesis by blast
qed

section \<open>The bridge\<close>

definition probe_ok :: "bridge_round \<Rightarrow> bool" where
  "probe_ok r \<longleftrightarrow> \<not> br_top r \<and> br_waited r \<and> \<not> br_after r \<and> bridgeConnected (br_probe r) (br_probe_aborted r) = Inr True"

text \<open>while the service runs the bridge monitor never ends well: it goes on exactly as long as every probe
found the bridge connected, with exactly the status \<open>CONNECTED\<close>; anything else is terminal, and if it comes
in a running process, the process stops being ready and is on its way out with a failure.\<close>

theorem monitor_fails_closed:
  "(monitorBridge rs = None \<longleftrightarrow> (\<forall>r \<in> set rs. probe_ok r)) \<and> monitorBridge rs \<noteq> Some (Inr ()) \<and>
   (monitorBridge rs = Some result \<and> lf_phase (life_run i es) = Operating False \<longrightarrow>
     (let s = life_run i (es @ [Monitor_end result]) in
      lf_stop s \<and> \<not> isReady s redis_ready \<and> lf_phase s = Operating True \<and>
      (result = Inl Internal_failed \<longrightarrow> 1 \<le> lf_code s \<and> losses (lf_log s) = 1)))"
proof -
  have "(monitorBridge rs = None \<longleftrightarrow> (\<forall>r \<in> set rs. probe_ok r)) \<and> monitorBridge rs \<noteq> Some (Inr ())"
    by (induction rs rule: monitorBridge.induct) (auto simp: probe_ok_def split: sum.split bool.split if_splits)
  moreover have "let s = life_run i (es @ [Monitor_end result]) in lf_stop s \<and> \<not> isReady s redis_ready \<and>
      lf_phase s = Operating True \<and> (result = Inl Internal_failed \<longrightarrow> 1 \<le> lf_code s \<and> losses (lf_log s) = 1)"
    if "monitorBridge rs = Some result" "lf_phase (life_run i es) = Operating False"
  proof -
    let ?s = "life_run i es"
    have inv: "life_inv (life_step i ?s (Monitor_end result))" "loss_inv (life_step i ?s (Monitor_end result))"
      using life_inv_run loss_inv_run life_inv_step loss_inv_step by blast+
    have "lf_stop (life_step i ?s (Monitor_end result)) \<and> lf_phase (life_step i ?s (Monitor_end result)) = Operating True"
      using that(2) life_inv_run [of i es]
      by (auto simp: monitor_ends_def Let_def expected_stop_def emit_stop failClosedOnce_stop life_inv_def split: sum.split)
    moreover have "lf_loss (life_step i ?s (Monitor_end result))" if "result = Inl Internal_failed"
      using that \<open>lf_phase ?s = Operating False\<close> life_inv_run [of i es]
      by (auto simp: monitor_ends_def Let_def expected_stop_def emit_def note_effect_def failClosedOnce_running life_inv_def)
    ultimately show ?thesis using inv unfolding life_inv_def loss_inv_def isReady_def Let_def by (auto split: if_splits)
  qed
  ultimately show ?thesis by blast
qed

theorem monitor_fails_closed_witness:
  "\<not> isReady (life_run [] (demo_start @ [Monitor_end (Inl Internal_failed)])) True \<and>
   losses (lf_log (life_run [] (demo_start @ [Monitor_end (Inl Internal_failed)]))) = 1"
proof -
  let ?r = "\<lparr>br_top = False, br_probe = Not_ok, br_probe_aborted = False, br_after = False, br_waited = True, br_wait_aborted = False\<rparr>"
  have "monitorBridge [?r] = Some (Inl Internal_failed)" by (simp add: bridgeConnected_def)
  moreover have "lf_phase (life_run [] demo_start) = Operating False" by (simp add: life_defs)
  ultimately show ?thesis
    using monitor_fails_closed [of "[?r]" "Inl Internal_failed" "[]" demo_start True] unfolding Let_def by blast
qed

end
