(* ===== verification/Config.thy ===== *)
theory Config
  imports Coordinator Usage Server "HOL-Library.Monad_Syntax"
begin

text \<open>
  The configuration (\<open>src/session-controller/src/config.ts\<close>): reading the environment, the schema, and the
  checks beyond it. Every refusal is the class \<open>config_invalid\<close>, so the readers return an option. The
  environment maps a variable to its text; \<open>parse\<close> is \<open>JSON.parse\<close> and \<open>url_of\<close> the WHATWG \<open>URL\<close> constructor.
\<close>

section \<open>Text\<close>

fun trim_start :: "string \<Rightarrow> string" where
  "trim_start [] = []"
| "trim_start [c] = (if blank1 c then [] else [c])"
| "trim_start [c, d] = (if blank1 c then trim_start [d] else if blank2 c d then [] else [c, d])"
| "trim_start (c # d # e # s) =
     (if blank1 c then trim_start (d # e # s)
      else if blank2 c d then trim_start (e # s)
      else if blank3 c d e then trim_start s
      else c # d # e # s)"

fun trim_end :: "string \<Rightarrow> string" where
  "trim_end [] = []"
| "trim_end (c # s) = (if js_blank (c # s) then [] else c # trim_end s)"

definition js_trim :: "string \<Rightarrow> string" where
  "js_trim s = trim_end (trim_start s)"

fun split_comma :: "string \<Rightarrow> string list" where
  "split_comma [] = [[]]"
| "split_comma (c # s) =
     (if c = CHR '','' then [] # split_comma s
      else (case split_comma s of [] \<Rightarrow> [[c]] | p # ps \<Rightarrow> (c # p) # ps))"

definition nonzero_digits :: "string \<Rightarrow> bool" where
  "nonzero_digits p \<longleftrightarrow> p \<noteq> [] \<and> take 1 p \<noteq> ''0'' \<and> list_all is_digit p"

definition no_control :: "string \<Rightarrow> bool" where
  "no_control p \<longleftrightarrow> list_all (\<lambda>c. 31 < (of_char c :: nat)) p"

section \<open>The environment\<close>

type_synonym environment = "string \<Rightarrow> string option"

definition required :: "environment \<Rightarrow> string \<Rightarrow> string option" where
  "required env key = (case env key of None \<Rightarrow> None | Some v \<Rightarrow> if v = '''' then None else Some v)"

definition number :: "environment \<Rightarrow> string \<Rightarrow> nat option \<Rightarrow> nat option" where
  "number env key fallback =
     (case env key of
        None \<Rightarrow> fallback
      | Some v \<Rightarrow> if canonical v \<and> dval v \<le> max_safe then Some (dval v) else None)"

definition list_of :: "environment \<Rightarrow> string \<Rightarrow> string list option" where
  "list_of env key = do { v \<leftarrow> required env key; Some (set_of_list [] (map js_trim (split_comma v))) }"

definition default_text :: "environment \<Rightarrow> string \<Rightarrow> string \<Rightarrow> string" where
  "default_text env key text = (case env key of None \<Rightarrow> text | Some v \<Rightarrow> v)"

section \<open>The configuration\<close>

record http_config =
  hc_host :: string
  hc_port :: nat
  hc_webhookPath :: string
  hc_maxBodyBytes :: nat
  hc_requestTimeoutMs :: nat
  hc_maxInflight :: nat

record redis_config =
  xc_url :: string
  xc_waitAofMs :: nat
  xc_blockMs :: nat

record bridge_config =
  bc_baseUrl :: string
  bc_pollMs :: nat
  bc_requestTimeoutMs :: nat

record scheduler_config =
  sc_concurrency :: nat
  sc_leaseMs :: nat
  sc_renewMs :: nat
  sc_gapTimeoutMs :: nat

record pi_config =
  pc_cwd :: string
  pc_agentDir :: string
  pc_sessionDir :: string
  pc_systemPromptPath :: string
  pc_preCompactionPath :: string
  pc_compactionSummaryPath :: string
  pc_policyVersion :: string
  pc_templateVersion :: string
  pc_provider :: "string option"
  pc_model :: "string option"

record mcp_config =
  mc_command :: string
  mc_args :: "string list"
  mc_cwd :: string

record compaction_config =
  cc_safeWorkingWindowTokens :: nat
  cc_defaultContextWindowTokens :: nat
  cc_headroomPercent :: nat
  cc_responseReserveTokens :: nat
  cc_preparationReserveTokens :: nat
  cc_summaryReserveTokens :: nat
  cc_checkpointMaxBytes :: nat

record controller_config =
  cf_http :: http_config
  cf_secret :: string
  cf_freshnessSeconds :: nat
  cf_admission :: admission_policy
  cf_redis :: redis_config
  cf_bridge :: bridge_config
  cf_scheduler :: scheduler_config
  cf_pi :: pi_config
  cf_mcp :: mcp_config
  cf_compaction :: compaction_config

section \<open>The schema\<close>

definition within :: "nat \<Rightarrow> nat \<Rightarrow> nat \<Rightarrow> bool" where
  "within minimum maximum n \<longleftrightarrow> minimum \<le> n \<and> n \<le> maximum"

definition text_within :: "nat \<Rightarrow> nat \<Rightarrow> string \<Rightarrow> bool" where
  "text_within minimum maximum s = within minimum maximum (length s)"

definition path_schema :: "string \<Rightarrow> bool" where
  "path_schema = text_within 1 4096"

definition path_char :: "char \<Rightarrow> bool" where
  "path_char c \<longleftrightarrow> is_digit c \<or> 65 \<le> (of_char c :: nat) \<and> (of_char c :: nat) \<le> 90 \<or>
     97 \<le> (of_char c :: nat) \<and> (of_char c :: nat) \<le> 122 \<or> c = CHR ''_'' \<or> c = CHR ''-''"

definition webhook_path :: "string \<Rightarrow> bool" where
  "webhook_path p \<longleftrightarrow> take 10 p = ''/webhooks/'' \<and> text_within 1 64 (drop 10 p) \<and> list_all path_char (drop 10 p)"

definition http_schema :: "http_config \<Rightarrow> bool" where
  "http_schema h \<longleftrightarrow> hc_host h \<in> {''127.0.0.1'', ''::1'', ''0.0.0.0''} \<and> within 1 65535 (hc_port h) \<and>
     webhook_path (hc_webhookPath h) \<and> within 1024 1048576 (hc_maxBodyBytes h) \<and>
     within 1000 60000 (hc_requestTimeoutMs h) \<and> within 1 1024 (hc_maxInflight h)"

definition admission_schema :: "admission_policy \<Rightarrow> bool" where
  "admission_schema a \<longleftrightarrow> ap_groups a \<noteq> [] \<and> distinct (ap_groups a) \<and> list_all group_jid (ap_groups a) \<and>
     ap_operatorJids a \<noteq> [] \<and> distinct (ap_operatorJids a) \<and> list_all private_jid (ap_operatorJids a)"

definition redis_schema :: "redis_config \<Rightarrow> bool" where
  "redis_schema r \<longleftrightarrow> text_within 1 4096 (xc_url r) \<and> within 1 30000 (xc_waitAofMs r) \<and> within 1 5000 (xc_blockMs r)"

definition bridge_schema :: "bridge_config \<Rightarrow> bool" where
  "bridge_schema b \<longleftrightarrow> text_within 1 512 (bc_baseUrl b) \<and> within 100 60000 (bc_pollMs b) \<and>
     within 100 30000 (bc_requestTimeoutMs b)"

definition scheduler_schema :: "scheduler_config \<Rightarrow> bool" where
  "scheduler_schema s \<longleftrightarrow> within 1 64 (sc_concurrency s) \<and> within 3000 300000 (sc_leaseMs s) \<and>
     within 100 100000 (sc_renewMs s) \<and> within 1000 3600000 (sc_gapTimeoutMs s)"

definition pi_schema :: "pi_config \<Rightarrow> bool" where
  "pi_schema p \<longleftrightarrow>
     list_all path_schema [pc_cwd p, pc_agentDir p, pc_sessionDir p, pc_systemPromptPath p, pc_preCompactionPath p,
       pc_compactionSummaryPath p] \<and>
     version_schema (pc_policyVersion p) \<and> version_schema (pc_templateVersion p) \<and>
     (case pc_provider p of None \<Rightarrow> True | Some v \<Rightarrow> text_within 1 128 v) \<and>
     (case pc_model p of None \<Rightarrow> True | Some v \<Rightarrow> text_within 1 256 v)"

definition mcp_schema :: "mcp_config \<Rightarrow> bool" where
  "mcp_schema m \<longleftrightarrow> text_within 1 4096 (mc_command m) \<and> length (mc_args m) \<le> 64 \<and>
     list_all (text_within 0 4096) (mc_args m) \<and> path_schema (mc_cwd m)"

definition compaction_schema :: "compaction_config \<Rightarrow> bool" where
  "compaction_schema b \<longleftrightarrow> within 1024 10000000 (cc_safeWorkingWindowTokens b) \<and>
     within 1024 10000000 (cc_defaultContextWindowTokens b) \<and> within 1 99 (cc_headroomPercent b) \<and>
     within 1 1000000 (cc_responseReserveTokens b) \<and> within 1 1000000 (cc_preparationReserveTokens b) \<and>
     within 1 1000000 (cc_summaryReserveTokens b) \<and> within 1024 262144 (cc_checkpointMaxBytes b)"

definition config_schema :: "controller_config \<Rightarrow> bool" where
  "config_schema c \<longleftrightarrow> http_schema (cf_http c) \<and> text_within 1 4096 (cf_secret c) \<and>
     within 1 3600 (cf_freshnessSeconds c) \<and> admission_schema (cf_admission c) \<and> redis_schema (cf_redis c) \<and>
     bridge_schema (cf_bridge c) \<and> scheduler_schema (cf_scheduler c) \<and> pi_schema (cf_pi c) \<and>
     mcp_schema (cf_mcp c) \<and> compaction_schema (cf_compaction c)"

section \<open>The checks beyond the schema\<close>

record url =
  url_protocol :: string
  url_hostname :: string
  url_username :: string
  url_password :: string
  url_search :: string
  url_hash :: string
  url_pathname :: string
  url_port :: string
  url_origin :: string

definition bare_url :: "url \<Rightarrow> bool" where
  "bare_url u \<longleftrightarrow> url_username u = '''' \<and> url_password u = '''' \<and> url_search u = '''' \<and> url_hash u = '''' \<and>
     (url_port u = '''' \<or> nonzero_digits (url_port u))"

definition redis_url_ok :: "(string \<Rightarrow> url option) \<Rightarrow> string \<Rightarrow> bool" where
  "redis_url_ok url_of text =
     (case url_of text of
        None \<Rightarrow> False
      | Some u \<Rightarrow> url_protocol u = ''redis:'' \<and>
          url_hostname u \<in> {''127.0.0.1'', ''[::1]'', ''localhost'', ''redis''} \<and> bare_url u \<and>
          url_pathname u \<in> {'''', ''/'', ''/0''})"

text \<open>\<open>(?::[1-9]\\d{0,4})?\\/?$\<close>\<close>

definition bridge_tail :: "string \<Rightarrow> bool" where
  "bridge_tail r =
     (case r of
        [] \<Rightarrow> True
      | c # s \<Rightarrow>
          if c = CHR '':'' then
            (let p = takeWhile is_digit s in
             nonzero_digits p \<and> length p \<le> 5 \<and> drop (length p) s \<in> {'''', ''/''})
          else r = ''/'')"

definition literal_bridge :: "string \<Rightarrow> bool" where
  "literal_bridge s \<longleftrightarrow>
     take 16 s = ''http://127.0.0.1'' \<and> bridge_tail (drop 16 s) \<or>
     take 12 s = ''http://[::1]'' \<and> bridge_tail (drop 12 s)"

definition bridge_url_ok :: "url \<Rightarrow> bool" where
  "bridge_url_ok u \<longleftrightarrow> url_protocol u = ''http:'' \<and> url_hostname u \<in> {''127.0.0.1'', ''[::1]''} \<and> bare_url u \<and>
     url_pathname u = ''/''"

definition secret_ok :: "string \<Rightarrow> bool" where
  "secret_ok s \<longleftrightarrow> js_trim s \<noteq> '''' \<and> s \<noteq> ''INSECURE_NO_AUTH'' \<and> 32 \<le> length s"

definition safe_path :: "string \<Rightarrow> bool" where
  "safe_path p \<longleftrightarrow> is_absolute p \<and> no_control p"

definition window_ok :: "compaction_config \<Rightarrow> bool" where
  "window_ok b \<longleftrightarrow> cc_responseReserveTokens b + cc_preparationReserveTokens b + cc_summaryReserveTokens b <
     min (cc_safeWorkingWindowTokens b) (cc_defaultContextWindowTokens b)"

definition config_checks :: "(string \<Rightarrow> url option) \<Rightarrow> controller_config \<Rightarrow> bool" where
  "config_checks url_of c \<longleftrightarrow> secret_ok (cf_secret c) \<and> redis_url_ok url_of (xc_url (cf_redis c)) \<and>
     literal_bridge (bc_baseUrl (cf_bridge c)) \<and>
     sc_renewMs (cf_scheduler c) * 3 < sc_leaseMs (cf_scheduler c) \<and>
     list_all safe_path [pc_cwd (cf_pi c), pc_agentDir (cf_pi c), pc_sessionDir (cf_pi c),
       pc_systemPromptPath (cf_pi c), pc_preCompactionPath (cf_pi c), pc_compactionSummaryPath (cf_pi c), mc_cwd (cf_mcp c)] \<and>
     (pc_provider (cf_pi c) = None \<longleftrightarrow> pc_model (cf_pi c) = None) \<and> window_ok (cf_compaction c)"

definition validateConfig :: "(string \<Rightarrow> url option) \<Rightarrow> controller_config \<Rightarrow> error_class + controller_config" where
  "validateConfig url_of c =
     (if \<not> config_schema c \<or> \<not> config_checks url_of c then Inl Config_invalid
      else
        case url_of (bc_baseUrl (cf_bridge c)) of
          None \<Rightarrow> Inl Config_invalid
        | Some u \<Rightarrow>
            if bridge_url_ok u then Inr (c\<lparr>cf_bridge := (cf_bridge c)\<lparr>bc_baseUrl := url_origin u\<rparr>\<rparr>)
            else Inl Config_invalid)"

section \<open>Loading\<close>

definition load_http :: "environment \<Rightarrow> http_config option" where
  "load_http env = do {
     port \<leftarrow> number env ''SESSION_CONTROLLER_PORT'' (Some 8644);
     body \<leftarrow> number env ''SESSION_CONTROLLER_MAX_BODY_BYTES'' (Some 65536);
     timeout \<leftarrow> number env ''SESSION_CONTROLLER_REQUEST_TIMEOUT_MS'' (Some 10000);
     inflight \<leftarrow> number env ''SESSION_CONTROLLER_MAX_INFLIGHT'' (Some 128);
     Some \<lparr>hc_host = default_text env ''SESSION_CONTROLLER_HOST'' ''127.0.0.1'', hc_port = port,
       hc_webhookPath = default_text env ''SESSION_CONTROLLER_WEBHOOK_PATH'' ''/webhooks/whatsapp'',
       hc_maxBodyBytes = body, hc_requestTimeoutMs = timeout, hc_maxInflight = inflight\<rparr> }"

definition load_admission :: "environment \<Rightarrow> admission_policy option" where
  "load_admission env = do {
     groups \<leftarrow> list_of env ''BRIDGE_NOTIFY_GROUP_ALLOWLIST'';
     operators \<leftarrow> list_of env ''BRIDGE_NOTIFY_OPERATOR_JIDS'';
     Some \<lparr>ap_groups = groups, ap_operatorJids = operators\<rparr> }"

definition load_redis :: "environment \<Rightarrow> redis_config option" where
  "load_redis env = do {
     url \<leftarrow> required env ''SESSION_CONTROLLER_REDIS_URL'';
     waitAof \<leftarrow> number env ''SESSION_CONTROLLER_WAIT_AOF_MS'' (Some 3000);
     block \<leftarrow> number env ''SESSION_CONTROLLER_BLOCK_MS'' (Some 1000);
     Some \<lparr>xc_url = url, xc_waitAofMs = waitAof, xc_blockMs = block\<rparr> }"

definition load_bridge :: "environment \<Rightarrow> bridge_config option" where
  "load_bridge env = do {
     poll \<leftarrow> number env ''SESSION_CONTROLLER_BRIDGE_POLL_MS'' (Some 1000);
     timeout \<leftarrow> number env ''SESSION_CONTROLLER_BRIDGE_REQUEST_TIMEOUT_MS'' (Some 2000);
     Some \<lparr>bc_baseUrl = default_text env ''SESSION_CONTROLLER_BRIDGE_BASE_URL'' ''http://127.0.0.1:8080'',
       bc_pollMs = poll, bc_requestTimeoutMs = timeout\<rparr> }"

definition load_scheduler :: "environment \<Rightarrow> scheduler_config option" where
  "load_scheduler env = do {
     concurrency \<leftarrow> number env ''SESSION_CONTROLLER_CONCURRENCY'' (Some 4);
     lease \<leftarrow> number env ''SESSION_CONTROLLER_LEASE_MS'' (Some 30000);
     renew \<leftarrow> number env ''SESSION_CONTROLLER_RENEW_MS'' (Some 5000);
     gap \<leftarrow> number env ''SESSION_CONTROLLER_GAP_TIMEOUT_MS'' (Some 30000);
     Some \<lparr>sc_concurrency = concurrency, sc_leaseMs = lease, sc_renewMs = renew, sc_gapTimeoutMs = gap\<rparr> }"

definition load_pi :: "environment \<Rightarrow> pi_config option" where
  "load_pi env = do {
     cwd \<leftarrow> required env ''SESSION_CONTROLLER_PI_CWD'';
     agent \<leftarrow> required env ''SESSION_CONTROLLER_PI_AGENT_DIR'';
     sessions \<leftarrow> required env ''SESSION_CONTROLLER_SESSION_DIR'';
     system \<leftarrow> required env ''SESSION_CONTROLLER_SYSTEM_PROMPT_PATH'';
     pre \<leftarrow> required env ''SESSION_CONTROLLER_PRE_COMPACTION_PATH'';
     summary \<leftarrow> required env ''SESSION_CONTROLLER_COMPACTION_SUMMARY_PATH'';
     Some \<lparr>pc_cwd = cwd, pc_agentDir = agent, pc_sessionDir = sessions, pc_systemPromptPath = system,
       pc_preCompactionPath = pre, pc_compactionSummaryPath = summary,
       pc_policyVersion = default_text env ''SESSION_CONTROLLER_POLICY_VERSION'' ''1'',
       pc_templateVersion = default_text env ''SESSION_CONTROLLER_TEMPLATE_VERSION'' ''1'',
       pc_provider = env ''SESSION_CONTROLLER_PI_PROVIDER'', pc_model = env ''SESSION_CONTROLLER_PI_MODEL''\<rparr> }"

fun string_items :: "json list \<Rightarrow> string list option" where
  "string_items [] = Some []"
| "string_items (JStr s # vs) = (case string_items vs of None \<Rightarrow> None | Some ss \<Rightarrow> Some (s # ss))"
| "string_items (v # vs) = None"

text \<open>A value that is no list of strings is refused by the schema.\<close>

definition load_mcp :: "(string \<Rightarrow> json option) \<Rightarrow> environment \<Rightarrow> mcp_config option" where
  "load_mcp parse env = do {
     text \<leftarrow> required env ''SESSION_CONTROLLER_MCP_ARGS_JSON'';
     value \<leftarrow> parse text;
     command \<leftarrow> required env ''SESSION_CONTROLLER_MCP_COMMAND'';
     args \<leftarrow> (case value of JArr vs \<Rightarrow> string_items vs | _ \<Rightarrow> None);
     cwd \<leftarrow> required env ''SESSION_CONTROLLER_MCP_CWD'';
     Some \<lparr>mc_command = command, mc_args = args, mc_cwd = cwd\<rparr> }"

definition load_compaction :: "environment \<Rightarrow> compaction_config option" where
  "load_compaction env = do {
     safe \<leftarrow> number env ''SESSION_CONTROLLER_SAFE_WORKING_WINDOW_TOKENS'' None;
     window \<leftarrow> number env ''SESSION_CONTROLLER_DEFAULT_CONTEXT_WINDOW_TOKENS'' (Some 262144);
     headroom \<leftarrow> number env ''SESSION_CONTROLLER_COMPACTION_HEADROOM_PERCENT'' (Some 15);
     response \<leftarrow> number env ''SESSION_CONTROLLER_RESPONSE_RESERVE_TOKENS'' (Some 4096);
     preparation \<leftarrow> number env ''SESSION_CONTROLLER_PREPARATION_RESERVE_TOKENS'' (Some 2048);
     summary \<leftarrow> number env ''SESSION_CONTROLLER_SUMMARY_RESERVE_TOKENS'' (Some 2048);
     checkpoint \<leftarrow> number env ''SESSION_CONTROLLER_CHECKPOINT_MAX_BYTES'' (Some 65536);
     Some \<lparr>cc_safeWorkingWindowTokens = safe, cc_defaultContextWindowTokens = window,
       cc_headroomPercent = headroom, cc_responseReserveTokens = response,
       cc_preparationReserveTokens = preparation, cc_summaryReserveTokens = summary,
       cc_checkpointMaxBytes = checkpoint\<rparr> }"

definition read_config :: "(string \<Rightarrow> json option) \<Rightarrow> environment \<Rightarrow> controller_config option" where
  "read_config parse env = do {
     mcp \<leftarrow> load_mcp parse env;
     http \<leftarrow> load_http env;
     secret \<leftarrow> required env ''BRIDGE_NOTIFY_SECRET'';
     freshness \<leftarrow> number env ''SESSION_CONTROLLER_FRESHNESS_SECONDS'' (Some 300);
     admission \<leftarrow> load_admission env;
     redis \<leftarrow> load_redis env;
     bridge \<leftarrow> load_bridge env;
     scheduler \<leftarrow> load_scheduler env;
     pi \<leftarrow> load_pi env;
     compaction \<leftarrow> load_compaction env;
     Some \<lparr>cf_http = http, cf_secret = secret, cf_freshnessSeconds = freshness, cf_admission = admission,
       cf_redis = redis, cf_bridge = bridge, cf_scheduler = scheduler, cf_pi = pi, cf_mcp = mcp,
       cf_compaction = compaction\<rparr> }"

definition loadConfig :: "(string \<Rightarrow> json option) \<Rightarrow> (string \<Rightarrow> url option) \<Rightarrow> environment \<Rightarrow> error_class + controller_config" where
  "loadConfig parse url_of env =
     (case read_config parse env of None \<Rightarrow> Inl Config_invalid | Some c \<Rightarrow> validateConfig url_of c)"

section \<open>The configuration of a recovery\<close>

record recovery_config =
  rf_admission :: admission_policy
  rf_redis :: redis_config
  rf_leaseMs :: nat
  rf_renewMs :: nat
  rf_sessionDir :: string
  rf_checkpointMaxBytes :: nat
  rf_manifestPath :: "string option"

definition recovery_schema :: "recovery_config \<Rightarrow> bool" where
  "recovery_schema c \<longleftrightarrow> admission_schema (rf_admission c) \<and> redis_schema (rf_redis c) \<and>
     within 3000 300000 (rf_leaseMs c) \<and> within 100 100000 (rf_renewMs c) \<and> path_schema (rf_sessionDir c) \<and>
     within 1024 262144 (rf_checkpointMaxBytes c) \<and>
     (case rf_manifestPath c of None \<Rightarrow> True | Some p \<Rightarrow> path_schema p)"

definition recovery_checks :: "(string \<Rightarrow> url option) \<Rightarrow> recovery_config \<Rightarrow> bool" where
  "recovery_checks url_of c \<longleftrightarrow> redis_url_ok url_of (xc_url (rf_redis c)) \<and>
     rf_renewMs c * 3 < rf_leaseMs c \<and> rf_renewMs c + xc_waitAofMs (rf_redis c) * 4 < rf_leaseMs c \<and>
     safe_path (rf_sessionDir c) \<and> (case rf_manifestPath c of None \<Rightarrow> True | Some p \<Rightarrow> safe_path p)"

definition read_recovery :: "environment \<Rightarrow> recovery_config option" where
  "read_recovery env = do {
     admission \<leftarrow> load_admission env;
     redis \<leftarrow> load_redis env;
     lease \<leftarrow> number env ''SESSION_CONTROLLER_LEASE_MS'' (Some 30000);
     renew \<leftarrow> number env ''SESSION_CONTROLLER_RENEW_MS'' (Some 5000);
     sessions \<leftarrow> required env ''SESSION_CONTROLLER_SESSION_DIR'';
     checkpoint \<leftarrow> number env ''SESSION_CONTROLLER_CHECKPOINT_MAX_BYTES'' (Some 65536);
     Some \<lparr>rf_admission = admission, rf_redis = redis, rf_leaseMs = lease, rf_renewMs = renew,
       rf_sessionDir = sessions, rf_checkpointMaxBytes = checkpoint,
       rf_manifestPath = required env ''SESSION_CONTROLLER_COMPACTION_RECOVERY_MANIFEST''\<rparr> }"

definition loadRecoveryConfig :: "(string \<Rightarrow> url option) \<Rightarrow> environment \<Rightarrow> error_class + recovery_config" where
  "loadRecoveryConfig url_of env =
     (case read_recovery env of
        None \<Rightarrow> Inl Config_invalid
      | Some c \<Rightarrow> if recovery_schema c \<and> recovery_checks url_of c then Inr c else Inl Config_invalid)"

section \<open>What the components take of it\<close>

definition server_config_of :: "controller_config \<Rightarrow> server_config" where
  "server_config_of c = \<lparr>sv_webhookPath = hc_webhookPath (cf_http c), sv_maxBodyBytes = hc_maxBodyBytes (cf_http c),
     sv_maxInflight = hc_maxInflight (cf_http c), sv_secret = cf_secret c, sv_freshness = cf_freshnessSeconds c,
     sv_policy = cf_admission c\<rparr>"

definition scheduler_options_of :: "controller_config \<Rightarrow> scheduler_options" where
  "scheduler_options_of c = \<lparr>so_concurrency = int (sc_concurrency (cf_scheduler c)),
     so_leaseMs = int (sc_leaseMs (cf_scheduler c)), so_renewMs = int (sc_renewMs (cf_scheduler c)),
     so_gapTimeoutMs = int (sc_gapTimeoutMs (cf_scheduler c)), so_pollMs = int (xc_blockMs (cf_redis c))\<rparr>"

definition usage_config_of :: "controller_config \<Rightarrow> usage_config" where
  "usage_config_of c =
     (let b = cf_compaction c in
      \<lparr>uc_safeWorkingWindow = int (cc_safeWorkingWindowTokens b),
       uc_defaultContextWindow = int (cc_defaultContextWindowTokens b), uc_headroomPercent = int (cc_headroomPercent b),
       uc_responseReserve = int (cc_responseReserveTokens b), uc_preparationReserve = int (cc_preparationReserveTokens b),
       uc_summaryReserve = int (cc_summaryReserveTokens b), uc_checkpointMaxBytes = int (cc_checkpointMaxBytes b)\<rparr>)"

end
