(* ===== verification/Config_Spec.thy ===== *)
theory Config_Spec
  imports Config
begin

text \<open>
  A configuration that loads is one every component accepts, with the lease arithmetic the recovery relies
  on; and the recovery reads its own variables only.
\<close>

lemma blank2_blank1: "blank2 c d \<Longrightarrow> \<not> blank1 c"
  by (simp add: blank1_def blank2_def)

lemma trim_start_blank: "trim_start s = [] \<longleftrightarrow> js_blank s"
  by (induction s rule: trim_start.induct) (auto dest: blank2_blank1)

lemma trim_start_stops: "js_blank (trim_start s) \<longleftrightarrow> trim_start s = []"
  by (induction s rule: trim_start.induct) auto

lemma trim_end_blank: "trim_end s = [] \<longleftrightarrow> js_blank s"
  by (cases s) auto

lemma js_trim_blank: "js_trim s = [] \<longleftrightarrow> js_blank s"
  by (simp add: js_trim_def trim_end_blank trim_start_stops trim_start_blank)

lemma private_group_chat: "group_jid s \<Longrightarrow> chat_jid_schema s" "private_jid s \<Longrightarrow> chat_jid_schema s"
  by (simp_all add: chat_jid_schema_def)

lemma admission_schema_chats:
  assumes "admission_schema a"
  shows "\<exists>chats. configuredChats (ap_groups a) (ap_operatorJids a) = Inr chats"
proof -
  obtain first rest where ops: "ap_operatorJids a = first # rest"
    using assms by (cases "ap_operatorJids a") (auto simp: admission_schema_def)
  have "list_all chat_jid_schema (set_of_list [] (ap_groups a @ [first]))"
    using assms ops private_group_chat by (auto simp: admission_schema_def list_all_iff set_of_list_set)
  then show ?thesis by (simp add: ops Let_def)
qed

lemma loadConfig_Inr:
  assumes "loadConfig parse url_of env = Inr c"
  obtains raw u where "read_config parse env = Some raw" "config_schema raw" "config_checks url_of raw"
    "url_of (bc_baseUrl (cf_bridge raw)) = Some u" "bridge_url_ok u"
    "c = raw\<lparr>cf_bridge := (cf_bridge raw)\<lparr>bc_baseUrl := url_origin u\<rparr>\<rparr>"
  using assms by (auto simp: loadConfig_def validateConfig_def split: option.splits if_splits)

text \<open>C35: a configuration that loads is accepted by everything it is handed to: the signature verifier and the
webhook server start, the configured chats are chat identifiers, the usage policy is valid, and the scheduler's
options satisfy its own checks, with leases the repository accepts.\<close>

theorem config_feeds_components:
  assumes "loadConfig parse url_of env = Inr c"
  shows "createWebhookServer (server_config_of c) = Inr new_server \<and>
    (\<exists>verify. createSignatureVerifier hmac (cf_secret c) (cf_freshnessSeconds c) = Inr verify) \<and>
    (\<exists>chats. configuredChats (ap_groups (cf_admission c)) (ap_operatorJids (cf_admission c)) = Inr chats) \<and>
    createUsagePolicy (usage_config_of c) = Inr (usage_config_of c) \<and>
    options_ok (scheduler_options_of c) \<and> duration (sc_leaseMs (cf_scheduler c)) \<and>
    0 < sv_maxInflight (server_config_of c)"
proof -
  obtain raw u where raw: "read_config parse env = Some raw" "config_schema raw" "config_checks url_of raw"
    "url_of (bc_baseUrl (cf_bridge raw)) = Some u" "bridge_url_ok u"
    "c = raw\<lparr>cf_bridge := (cf_bridge raw)\<lparr>bc_baseUrl := url_origin u\<rparr>\<rparr>"
    by (rule loadConfig_Inr [OF assms])
  have secret: "signature_config_ok (cf_secret c) (cf_freshnessSeconds c)"
    using raw by (auto simp: config_schema_def config_checks_def secret_ok_def signature_config_ok_def within_def js_trim_blank)
  have admission: "admission_schema (cf_admission c)" using raw by (simp add: config_schema_def)
  have usage: "usage_config_ok (usage_config_of c)"
    using raw by (auto simp: usage_config_ok_def usage_config_of_def Let_def usage_reserve_def config_schema_def
        config_checks_def compaction_schema_def within_def window_ok_def max_safe_def)
  have "options_ok (scheduler_options_of c)" "duration (sc_leaseMs (cf_scheduler c))"
    using raw by (auto simp: options_ok_def scheduler_options_of_def duration_def config_schema_def config_checks_def
        scheduler_schema_def redis_schema_def within_def)
  moreover have "0 < sv_maxInflight (server_config_of c)"
    using raw by (simp add: server_config_of_def config_schema_def http_schema_def within_def)
  ultimately show ?thesis
    using secret usage admission_schema_chats [OF admission]
    by (simp add: createWebhookServer_def server_config_of_def createSignatureVerifier_def createUsagePolicy_def guard_def)
qed

definition demo_env :: environment where
  "demo_env = map_of [(''SESSION_CONTROLLER_MCP_ARGS_JSON'', ''[]''), (''BRIDGE_NOTIFY_SECRET'', demo_secret),
     (''BRIDGE_NOTIFY_GROUP_ALLOWLIST'', ''1@g.us, 2@g.us,1@g.us''), (''BRIDGE_NOTIFY_OPERATOR_JIDS'', ''9@lid''),
     (''SESSION_CONTROLLER_REDIS_URL'', ''redis://redis''), (''SESSION_CONTROLLER_PI_CWD'', ''/w''),
     (''SESSION_CONTROLLER_PI_AGENT_DIR'', ''/a''), (''SESSION_CONTROLLER_SESSION_DIR'', ''/s''),
     (''SESSION_CONTROLLER_SYSTEM_PROMPT_PATH'', ''/p''), (''SESSION_CONTROLLER_PRE_COMPACTION_PATH'', ''/c''),
     (''SESSION_CONTROLLER_COMPACTION_SUMMARY_PATH'', ''/d''), (''SESSION_CONTROLLER_MCP_COMMAND'', ''mcp''),
     (''SESSION_CONTROLLER_MCP_CWD'', ''/m''), (''SESSION_CONTROLLER_SAFE_WORKING_WINDOW_TOKENS'', ''20000'')]"

definition demo_url :: "string \<Rightarrow> url option" where
  "demo_url s = Some \<lparr>url_protocol = (if take 5 s = ''redis'' then ''redis:'' else ''http:''),
     url_hostname = (if take 5 s = ''redis'' then ''redis'' else ''127.0.0.1''), url_username = '''', url_password = '''',
     url_search = '''', url_hash = '''', url_pathname = (if take 5 s = ''redis'' then '''' else ''/''),
     url_port = (if take 5 s = ''redis'' then '''' else ''8080''), url_origin = s\<rparr>"

lemma demo_lists: "list_of demo_env ''BRIDGE_NOTIFY_GROUP_ALLOWLIST'' = Some [''1@g.us'', ''2@g.us'']"
  "list_of demo_env ''BRIDGE_NOTIFY_OPERATOR_JIDS'' = Some [''9@lid'']"
  by (code_simp, code_simp)

lemma demo_numbers: "number demo_env ''SESSION_CONTROLLER_SAFE_WORKING_WINDOW_TOKENS'' None = Some 20000"
  by (simp add: number_def demo_env_def canonical_def is_digit_def dig_def max_safe_def)

lemma demo_texts:
  "required demo_env ''SESSION_CONTROLLER_MCP_ARGS_JSON'' = Some ''[]''"
  "required demo_env ''BRIDGE_NOTIFY_SECRET'' = Some demo_secret"
  "required demo_env ''SESSION_CONTROLLER_REDIS_URL'' = Some ''redis://redis''"
  "required demo_env ''SESSION_CONTROLLER_PI_CWD'' = Some ''/w''"
  "required demo_env ''SESSION_CONTROLLER_PI_AGENT_DIR'' = Some ''/a''"
  "required demo_env ''SESSION_CONTROLLER_SESSION_DIR'' = Some ''/s''"
  "required demo_env ''SESSION_CONTROLLER_SYSTEM_PROMPT_PATH'' = Some ''/p''"
  "required demo_env ''SESSION_CONTROLLER_PRE_COMPACTION_PATH'' = Some ''/c''"
  "required demo_env ''SESSION_CONTROLLER_COMPACTION_SUMMARY_PATH'' = Some ''/d''"
  "required demo_env ''SESSION_CONTROLLER_MCP_COMMAND'' = Some ''mcp''"
  "required demo_env ''SESSION_CONTROLLER_MCP_CWD'' = Some ''/m''"
  by (simp_all add: required_def demo_env_def demo_secret_def)

definition demo_config :: controller_config where
  "demo_config = \<lparr>
     cf_http = \<lparr>hc_host = ''127.0.0.1'', hc_port = 8644, hc_webhookPath = ''/webhooks/whatsapp'',
       hc_maxBodyBytes = 65536, hc_requestTimeoutMs = 10000, hc_maxInflight = 128\<rparr>,
     cf_secret = demo_secret, cf_freshnessSeconds = 300,
     cf_admission = \<lparr>ap_groups = [''1@g.us'', ''2@g.us''], ap_operatorJids = [''9@lid'']\<rparr>,
     cf_redis = \<lparr>xc_url = ''redis://redis'', xc_waitAofMs = 3000, xc_blockMs = 1000\<rparr>,
     cf_bridge = \<lparr>bc_baseUrl = ''http://127.0.0.1:8080'', bc_pollMs = 1000, bc_requestTimeoutMs = 2000\<rparr>,
     cf_scheduler = \<lparr>sc_concurrency = 4, sc_leaseMs = 30000, sc_renewMs = 5000, sc_gapTimeoutMs = 30000\<rparr>,
     cf_pi = \<lparr>pc_cwd = ''/w'', pc_agentDir = ''/a'', pc_sessionDir = ''/s'', pc_systemPromptPath = ''/p'',
       pc_preCompactionPath = ''/c'', pc_compactionSummaryPath = ''/d'', pc_policyVersion = ''1'',
       pc_templateVersion = ''1'', pc_provider = None, pc_model = None\<rparr>,
     cf_mcp = \<lparr>mc_command = ''mcp'', mc_args = [], mc_cwd = ''/m''\<rparr>,
     cf_compaction = \<lparr>cc_safeWorkingWindowTokens = 20000, cc_defaultContextWindowTokens = 262144,
       cc_headroomPercent = 15, cc_responseReserveTokens = 4096, cc_preparationReserveTokens = 2048,
       cc_summaryReserveTokens = 2048, cc_checkpointMaxBytes = 65536\<rparr>\<rparr>"

lemma demo_reads:
  "load_http demo_env = Some (cf_http demo_config)" "load_admission demo_env = Some (cf_admission demo_config)"
  "load_redis demo_env = Some (cf_redis demo_config)" "load_bridge demo_env = Some (cf_bridge demo_config)"
  "load_scheduler demo_env = Some (cf_scheduler demo_config)" "load_pi demo_env = Some (cf_pi demo_config)"
  "load_mcp (\<lambda>_. Some (JArr [])) demo_env = Some (cf_mcp demo_config)"
  "load_compaction demo_env = Some (cf_compaction demo_config)"
  unfolding load_http_def load_admission_def load_redis_def load_bridge_def load_scheduler_def load_pi_def
    load_mcp_def load_compaction_def demo_texts demo_lists demo_numbers
  by (simp_all add: number_def default_text_def demo_env_def demo_config_def)

lemma demo_load: "loadConfig (\<lambda>_. Some (JArr [])) demo_url demo_env = Inr demo_config"
proof -
  have "read_config (\<lambda>_. Some (JArr [])) demo_env = Some demo_config"
    unfolding read_config_def demo_reads demo_texts by (simp add: number_def demo_env_def demo_config_def)
  moreover have "config_schema demo_config"
    by (simp add: config_schema_def demo_config_def http_schema_def webhook_path_def path_char_def is_digit_def
        text_within_def within_def admission_schema_def redis_schema_def bridge_schema_def scheduler_schema_def
        pi_schema_def path_schema_def version_schema_def mcp_schema_def compaction_schema_def demo_secret_def
        group_jid_def private_jid_def jid_with_def jid_user_def jid_server_def)
  moreover have "config_checks demo_url demo_config"
  proof -
    have "secret_ok demo_secret" by code_simp
    then show ?thesis
      by (simp add: config_checks_def demo_config_def redis_url_ok_def demo_url_def bare_url_def literal_bridge_def
          bridge_tail_def nonzero_digits_def is_digit_def safe_path_def is_absolute_def no_control_def window_ok_def)
  qed
  moreover have "demo_config\<lparr>cf_bridge := (cf_bridge demo_config)\<lparr>bc_baseUrl := ''http://127.0.0.1:8080''\<rparr>\<rparr> = demo_config"
    by (simp add: demo_config_def)
  ultimately show ?thesis
    by (simp add: loadConfig_def validateConfig_def demo_url_def bridge_url_ok_def bare_url_def nonzero_digits_def
        is_digit_def) (simp add: demo_config_def)
qed

theorem config_feeds_components_witness:
  "createWebhookServer (server_config_of demo_config) = Inr new_server \<and> options_ok (scheduler_options_of demo_config)"
  using config_feeds_components [OF demo_load] by blast

section \<open>The configuration of a recovery\<close>

definition recovery_keys :: "string list" where
  "recovery_keys = [''BRIDGE_NOTIFY_GROUP_ALLOWLIST'', ''BRIDGE_NOTIFY_OPERATOR_JIDS'', ''SESSION_CONTROLLER_REDIS_URL'',
     ''SESSION_CONTROLLER_WAIT_AOF_MS'', ''SESSION_CONTROLLER_BLOCK_MS'', ''SESSION_CONTROLLER_LEASE_MS'',
     ''SESSION_CONTROLLER_RENEW_MS'', ''SESSION_CONTROLLER_SESSION_DIR'', ''SESSION_CONTROLLER_CHECKPOINT_MAX_BYTES'',
     ''SESSION_CONTROLLER_COMPACTION_RECOVERY_MANIFEST'']"

text \<open>the recovery process is loaded from its ten variables alone: no webhook secret, provider credential,
prompt, MCP command or bridge setting can change its configuration or make it fail. What it loads is
valid for Redis and the session files, and its lease covers a renewal and four durability barriers.\<close>

theorem recovery_reads_only_its_inputs:
  assumes "\<forall>key \<in> set recovery_keys. env key = env' key"
  shows "loadRecoveryConfig url_of env = loadRecoveryConfig url_of env' \<and>
    (\<forall>c. loadRecoveryConfig url_of env = Inr c \<longrightarrow>
      (\<exists>chats. configuredChats (ap_groups (rf_admission c)) (ap_operatorJids (rf_admission c)) = Inr chats) \<and>
      duration (rf_leaseMs c) \<and> is_absolute (rf_sessionDir c) \<and> rf_renewMs c * 3 < rf_leaseMs c \<and>
      rf_renewMs c + 4 * xc_waitAofMs (rf_redis c) < rf_leaseMs c)"
proof -
  have "read_recovery env = read_recovery env'"
    using assms by (simp add: recovery_keys_def read_recovery_def load_admission_def load_redis_def list_of_def
        required_def number_def)
  then have "loadRecoveryConfig url_of env = loadRecoveryConfig url_of env'" by (simp add: loadRecoveryConfig_def)
  moreover have "(\<exists>chats. configuredChats (ap_groups (rf_admission c)) (ap_operatorJids (rf_admission c)) = Inr chats) \<and>
      duration (rf_leaseMs c) \<and> is_absolute (rf_sessionDir c) \<and> rf_renewMs c * 3 < rf_leaseMs c \<and>
      rf_renewMs c + 4 * xc_waitAofMs (rf_redis c) < rf_leaseMs c"
    if "loadRecoveryConfig url_of env = Inr c" for c
  proof -
    have "recovery_schema c" "recovery_checks url_of c"
      using that by (auto simp: loadRecoveryConfig_def split: option.splits if_splits)
    then show ?thesis using admission_schema_chats [of "rf_admission c"]
      by (auto simp: recovery_schema_def recovery_checks_def duration_def within_def safe_path_def)
  qed
  ultimately show ?thesis by blast
qed

theorem recovery_reads_only_its_inputs_witness:
  "loadRecoveryConfig demo_url (demo_env(''BRIDGE_NOTIFY_SECRET'' := None)) = loadRecoveryConfig demo_url demo_env"
proof -
  have "\<forall>key \<in> set recovery_keys. (demo_env(''BRIDGE_NOTIFY_SECRET'' := None)) key = demo_env key"
    by (simp add: recovery_keys_def)
  from recovery_reads_only_its_inputs [OF this] show ?thesis by blast
qed

end
