(* ===== verification/Host.thy ===== *)
theory Host
  imports Extension
begin

text \<open>
  The session host (\<open>src/session-controller/src/pi/session-host.ts\<close>) as it serves one chat: the opening of
  a session, the port that the worker holds (prompt, history, reconciliation, compaction, completion,
  disposal) and the close. The flags that the handlers share are fields of the state, the completion index
  is the one of theory \<open>Index\<close>, and every call of a port is an effect in a log, answered by its position.
  While a call is awaited other handlers of the host run: \<open>he_others\<close> is what they do to the state.
\<close>

section \<open>State and ports\<close>

datatype host_effect =
    H_current "nat option" | H_evidence | H_classify | H_append completion_marker | H_record mutation_state
  | H_sync | H_sync_directory "string list" | H_prompt string | H_wait_idle | H_run_begin | H_run_end
  | H_reopen | H_compact string checkpoint_v1 | H_compacted | H_restored
  | H_lstat "string list" | H_mkdir "string list" | H_create | H_append_binding session_binding | H_create_file | H_write
  | H_fsync | H_close_file | H_bind session_binding | H_open | H_journal_bind | H_connect | H_no_compaction
  | H_extensions | H_ready | H_operation | H_attach_journal | H_dispose_runtime | H_dispose_journal

text \<open>\<open>hs_context\<close> is the attached turn context, \<open>hs_reserved\<close> the local variable of a running append.\<close>

record hosted =
  hs_closed :: bool
  hs_closeTask :: "(error_class + unit) option"
  hs_active :: bool
  hs_opening :: bool
  hs_attachable :: bool
  hs_context :: "nat option"
  hs_disposed :: bool
  hs_disposing :: bool
  hs_done :: "(error_class + unit) option"
  hs_busy :: bool
  hs_prompted :: bool
  hs_settled :: bool
  hs_reserved :: bool
  hs_connected :: bool
  hs_journaled :: bool
  hs_index :: index
  hs_log :: "host_effect list"

type_synonym entry = "(string \<times> json) list"

text \<open>A session as \<open>sdk.open\<close> returns it; no branch if it has no \<open>getBranch\<close>.\<close>

record reopened =
  ro_id :: string
  ro_file :: "string option"
  ro_branch :: "entry list option"

record compaction_outcome =
  co_entry :: string
  co_checkpointId :: string
  co_checkpoint :: checkpoint_v1
  co_compacted :: bool
  co_restored :: bool

datatype path_stat = Missing | Directory | Other

record host_env =
  he_work :: claimed_work
  he_binding :: session_binding
  he_root :: string
  he_journal :: bool
  he_compactor :: bool
  he_maxBytes :: nat
  he_sensitive :: "string \<Rightarrow> bool"
  he_sha :: "string \<Rightarrow> string"
  he_index :: index_env
  he_others :: "nat \<Rightarrow> hosted \<Rightarrow> hosted"
  he_unit :: "nat \<Rightarrow> error_class + unit"
  he_bool :: "nat \<Rightarrow> error_class + bool"
  he_string :: "nat \<Rightarrow> error_class + string"
  he_classify :: "nat \<Rightarrow> error_class + own_class"
  he_reopen :: "nat \<Rightarrow> error_class + reopened"
  he_compact :: "nat \<Rightarrow> error_class + compaction_outcome"
  he_create :: "nat \<Rightarrow> error_class + string \<times> string option"
  he_lstat :: "nat \<Rightarrow> error_class + path_stat"
  he_mkdir :: "nat \<Rightarrow> bool"
  he_failure :: "nat \<Rightarrow> error_class \<Rightarrow> error_class"
  he_idle :: "nat \<Rightarrow> bool"
  he_outcome :: "nat \<Rightarrow> bool \<times> bool"
  he_branch :: "nat \<Rightarrow> entry list option"
  he_usage :: "nat \<Rightarrow> usage_snapshot option"
  he_tools :: "nat \<Rightarrow> string list"

type_synonym 'a host_exec = "(hosted, 'a) exec"

text \<open>An awaited call, a synchronous one, and a synchronous observation.\<close>

definition hcall :: "host_env \<Rightarrow> host_effect \<Rightarrow> (nat \<Rightarrow> error_class + 'a) \<Rightarrow> 'a host_exec" where
  "hcall E e answer s =
     (answer (length (hs_log s)), he_others E (length (hs_log s)) (s\<lparr>hs_log := hs_log s @ [e]\<rparr>))"

definition hnow :: "host_effect \<Rightarrow> (nat \<Rightarrow> error_class + 'a) \<Rightarrow> 'a host_exec" where
  "hnow e answer s = (answer (length (hs_log s)), s\<lparr>hs_log := hs_log s @ [e]\<rparr>)"

definition hsee :: "(nat \<Rightarrow> 'b) \<Rightarrow> ('b \<Rightarrow> 'a host_exec) \<Rightarrow> 'a host_exec" where
  "hsee f g s = g (f (length (hs_log s))) s"

text \<open>A job of the index under its lock; its only exception is \<open>session_failed\<close>.\<close>

definition index_job :: "host_env \<Rightarrow> 'a index_action \<Rightarrow> 'a host_exec" where
  "index_job E job s =
     (case exclusive (he_index E) job (hs_index s) of
        (r, i) \<Rightarrow> hcall E H_evidence (\<lambda>_. case r of None \<Rightarrow> Inl Session_failed | Some x \<Rightarrow> Inr x) (s\<lparr>hs_index := i\<rparr>))"

definition host_evidence :: "host_env \<Rightarrow> completion_proof list host_exec" where
  "host_evidence E = index_job E (evidence (he_index E) (he_binding E))"

definition invalidate :: "host_env \<Rightarrow> hosted \<Rightarrow> hosted" where
  "invalidate E s = s\<lparr>hs_index := poison (he_binding E) (hs_index s)\<rparr>"

section \<open>Gates\<close>

definition initial_current :: "host_env \<Rightarrow> unit host_exec" where
  "initial_current E = hcall E (H_current None) (he_unit E)"

definition host_current :: "host_env \<Rightarrow> unit host_exec" where
  "host_current E = with_state (\<lambda>s.
     if hs_disposed s \<or> hs_closed s then throw Session_failed else hcall E (H_current (hs_context s)) (he_unit E))"

definition requireAttached :: "host_env \<Rightarrow> unit host_exec" where
  "requireAttached E = with_state (\<lambda>s.
     if hs_context s = None \<or> hs_disposing s then throw Session_failed
     else seq (host_current E) (\<lambda>_. with_state (\<lambda>s. if hs_disposing s then throw Session_failed else ret ())))"

definition begin_op :: "unit host_exec" where
  "begin_op = modify (\<lambda>s. s\<lparr>hs_busy := True\<rparr>)"

definition end_op :: "unit host_exec" where
  "end_op = modify (\<lambda>s. s\<lparr>hs_busy := False\<rparr>)"

text \<open>An exception that is no \<open>ControllerError\<close> gets the class of the operation.\<close>

definition host_class :: "error_class \<Rightarrow> error_class \<Rightarrow> error_class" where
  "host_class fixed e = (if e = Internal_failed then fixed else e)"

definition available :: "host_env \<Rightarrow> error_class \<Rightarrow> unit host_exec" where
  "available E e = with_state (\<lambda>s. hsee (he_idle E) (\<lambda>idle. if hs_busy s \<or> \<not> idle then throw e else ret ()))"

section \<open>Reading\<close>

definition fresh_entry :: "entry \<Rightarrow> bool" where
  "fresh_entry e \<longleftrightarrow> jget e ''type'' \<noteq> Some (JStr ''message'') \<and> jget e ''type'' \<noteq> Some (JStr ''compaction'') \<and>
     \<not> (jget e ''type'' = Some (JStr ''custom'') \<and>
        jget e ''customType'' \<in> {Some (JStr completion_type), Some (JStr mutation_type)})"

definition isFresh :: "host_env \<Rightarrow> hosted \<Rightarrow> bool" where
  "isFresh E s =
     (let n = length (hs_log s) in
      \<not> (hs_disposed s \<or> hs_busy s \<or> \<not> he_idle E n \<or> hs_prompted s) \<and>
      (case he_branch E n of None \<Rightarrow> False | Some entries \<Rightarrow> list_all fresh_entry entries))"

definition host_usage :: "host_env \<Rightarrow> hosted \<Rightarrow> usage_snapshot option" where
  "host_usage E s =
     (let n = length (hs_log s) in if hs_disposed s \<or> hs_busy s \<or> \<not> he_idle E n then None else he_usage E n)"

definition host_history :: "host_env \<Rightarrow> nat \<Rightarrow> checkpoint_v1 option \<Rightarrow> tool_outcome list host_exec" where
  "host_history E lastSequence current =
     seq (requireAttached E) (\<lambda>_.
     seq (host_current E) (\<lambda>_.
     hsee (he_branch E) (\<lambda>branch.
       case branch of
         None \<Rightarrow> throw Checkpoint_invalid
       | Some entries \<Rightarrow>
           seq (host_current E) (\<lambda>_. lift (confirmedHistory entries (he_binding E) lastSequence current)))))"

section \<open>The prompt\<close>

definition invoke :: "host_env \<Rightarrow> string \<Rightarrow> unit host_exec" where
  "invoke E instructions =
     seq (hcall E (H_prompt instructions) (he_unit E)) (\<lambda>_. hcall E H_wait_idle (he_unit E))"

text \<open>
  The run of the journal calls the prompt at most once, and a prompt that failed makes the run fail, with
  a class of the journal's choice.
\<close>

definition journal_run :: "host_env \<Rightarrow> unit host_exec \<Rightarrow> unit host_exec" where
  "journal_run E m =
     seq (hcall E H_run_begin (he_unit E)) (\<lambda>_.
     seq (catch (seq m (\<lambda>_. ret None)) (\<lambda>e. ret (Some e))) (\<lambda>failure.
       case failure of
         None \<Rightarrow> hcall E H_run_end (he_unit E)
       | Some e \<Rightarrow> hcall E H_run_end (\<lambda>n. Inl (he_failure E n e))))"

definition prompt_body :: "host_env \<Rightarrow> string \<Rightarrow> unit host_exec" where
  "prompt_body E instructions =
     seq (host_current E) (\<lambda>_.
     seq (if he_journal E then journal_run E (invoke E instructions) else invoke E instructions) (\<lambda>_.
     hsee (\<lambda>n. (he_outcome E n, he_idle E n)) (\<lambda>((settled, aborted), idle).
       if \<not> settled \<or> aborted \<or> \<not> idle then throw Session_failed
       else seq (host_current E) (\<lambda>_. modify (\<lambda>s. s\<lparr>hs_settled := True\<rparr>)))))"

definition same_event :: "host_env \<Rightarrow> notification \<Rightarrow> unit host_exec" where
  "same_event E event =
     seq (lift (fingerprintEvent (he_sha E) event)) (\<lambda>a.
     seq (lift (fingerprintEvent (he_sha E) (cw_event (he_work E)))) (\<lambda>b.
       if a \<noteq> b then throw Session_failed else ret ()))"

definition host_prompt :: "host_env \<Rightarrow> notification \<Rightarrow> string \<Rightarrow> unit host_exec" where
  "host_prompt E event instructions =
     seq (requireAttached E) (\<lambda>_.
     seq (available E Session_failed) (\<lambda>_.
     with_state (\<lambda>s.
       if hs_prompted s then throw Session_failed
       else seq (same_event E event) (\<lambda>_.
         seq (modify (\<lambda>s. s\<lparr>hs_prompted := True\<rparr>)) (\<lambda>_.
         seq begin_op (\<lambda>_.
         finalize (catch (prompt_body E instructions) (\<lambda>e. throw (host_class Session_failed e))) end_op))))))"

section \<open>The compaction entry of a reopened session\<close>

text \<open>The one entry of the branch that claims the checkpoint; entries of abandoned siblings are not in it.\<close>

definition claims_checkpoint :: "string \<Rightarrow> entry \<Rightarrow> bool" where
  "claims_checkpoint i e \<longleftrightarrow> jget e ''type'' = Some (JStr ''compaction'') \<and>
     (case jget e ''details'' of Some (JObj kv) \<Rightarrow> jget kv ''checkpointId'' = Some (JStr i) | _ \<Rightarrow> False)"

definition only_claim :: "string \<Rightarrow> entry list \<Rightarrow> entry option" where
  "only_claim i entries = (case filter (claims_checkpoint i) entries of [e] \<Rightarrow> Some e | _ \<Rightarrow> None)"

text \<open>The checkpoint that the entry stores, if it is valid for the identity and the summary is its rendering.\<close>

definition stored_checkpoint :: "host_env \<Rightarrow> string \<Rightarrow> checkpoint_identity \<Rightarrow> entry \<Rightarrow> checkpoint_v1 option" where
  "stored_checkpoint E i expected e =
     (case jget e ''details'' of
        Some (JObj kv) \<Rightarrow>
          (if jget e ''fromHook'' = Some (JBool True) \<and> jget kv ''version'' = Some (JInt 1) then
             (case jget kv ''checkpoint'' of
                None \<Rightarrow> None
              | Some v \<Rightarrow>
                 (case validate_untyped (he_sensitive E) v expected (he_maxBytes E) of
                    Inl _ \<Rightarrow> None
                  | Inr c \<Rightarrow>
                     (case renderCheckpointSummary (he_sensitive E) c i expected (he_maxBytes E) of
                        Inl _ \<Rightarrow> None
                      | Inr summary \<Rightarrow> if jget e ''summary'' = Some (JStr summary) then Some c else None)))
           else None)
      | _ \<Rightarrow> None)"

definition reopened_branch :: "host_env \<Rightarrow> reopened \<Rightarrow> entry list option" where
  "reopened_branch E r =
     (if ro_id r = sb_sessionId (he_binding E) \<and> ro_file r = Some (sb_sessionFile (he_binding E)) then ro_branch r else None)"

definition session_directory :: "host_env \<Rightarrow> string list" where
  "session_directory E = butlast (resolve_path (sb_sessionFile (he_binding E)))"

text \<open>The entry that a reconciled record rests on.\<close>

definition reconciled_entry :: "host_env \<Rightarrow> checkpoint_record \<Rightarrow> reopened \<Rightarrow> string option" where
  "reconciled_entry E r ro =
     (case Option.bind (reopened_branch E ro) (only_claim (cr_id r)) of
        None \<Rightarrow> None
      | Some e \<Rightarrow>
         (case as_str (jget e ''id'') of
            None \<Rightarrow> None
          | Some i \<Rightarrow>
              if 1 \<le> length i \<and> length i \<le> 128 \<and>
                (case cr_phase r of Compacted x \<Rightarrow> x = i | Restored x \<Rightarrow> x = i | _ \<Rightarrow> True) \<and>
                stored_checkpoint E (cr_id r) (checkpointIdentity (cr_checkpoint r)) e = Some (cr_checkpoint r)
              then Some i else None))"

definition sync_session :: "host_env \<Rightarrow> unit host_exec" where
  "sync_session E = seq (host_current E) (\<lambda>_. hcall E H_sync (he_unit E))"

definition sync_directory :: "host_env \<Rightarrow> unit host_exec" where
  "sync_directory E = seq (host_current E) (\<lambda>_. hcall E (H_sync_directory (session_directory E)) (he_unit E))"

definition reconcileCheckpoint :: "host_env \<Rightarrow> checkpoint_record \<Rightarrow> (string \<times> checkpoint_v1) host_exec" where
  "reconcileCheckpoint E r =
     seq (requireAttached E) (\<lambda>_.
     seq (available E Restore_failed) (\<lambda>_.
     if ck_chat (cr_checkpoint r) \<noteq> sb_chat (he_binding E) then throw Restore_failed
     else
       seq (sync_session E) (\<lambda>_.
       seq (sync_directory E) (\<lambda>_.
       seq (host_current E) (\<lambda>_.
       seq (hnow H_reopen (he_reopen E)) (\<lambda>ro.
         case reconciled_entry E r ro of
           None \<Rightarrow> throw Restore_failed
         | Some i \<Rightarrow>
             seq (host_evidence E) (\<lambda>_.
             seq (host_current E) (\<lambda>_.
             ret (i, cr_checkpoint r)))))))))"

section \<open>Compaction\<close>

definition compacted_ok :: "host_env \<Rightarrow> checkpoint_v1 \<Rightarrow> compaction_outcome \<Rightarrow> reopened \<Rightarrow> bool" where
  "compacted_ok E seed r ro \<longleftrightarrow>
     (case Option.bind (reopened_branch E ro) (only_claim (co_checkpointId r)) of
        None \<Rightarrow> False
      | Some e \<Rightarrow> jget e ''id'' = Some (JStr (co_entry r)) \<and>
          stored_checkpoint E (co_checkpointId r) (checkpointIdentity seed) e = Some (co_checkpoint r))"

definition verify_compaction :: "host_env \<Rightarrow> checkpoint_v1 \<Rightarrow> compaction_outcome \<Rightarrow> unit host_exec" where
  "verify_compaction E seed r =
     catch (seq (hnow H_reopen (he_reopen E)) (\<lambda>ro. if compacted_ok E seed r ro then ret () else throw Compaction_failed))
       (\<lambda>_. throw Compaction_failed)"

definition mcp_prefix :: string where
  "mcp_prefix = ''mcp__whatsapp_session_controller__''"

definition mcp_tool :: "string \<Rightarrow> bool" where
  "mcp_tool name \<longleftrightarrow> take (length mcp_prefix) name = mcp_prefix"

definition compact_body :: "host_env \<Rightarrow> string \<Rightarrow> checkpoint_v1 \<Rightarrow> (string \<times> checkpoint_v1) host_exec" where
  "compact_body E instructions seed =
     seq (host_current E) (\<lambda>_.
     seq (hcall E (H_compact instructions seed) (he_compact E)) (\<lambda>r.
     seq (hcall E H_wait_idle (he_unit E)) (\<lambda>_.
     seq (host_current E) (\<lambda>_.
     seq (sync_session E) (\<lambda>_.
     seq (sync_directory E) (\<lambda>_.
     hsee (he_tools E) (\<lambda>tools.
     let controlled = co_compacted r \<and> co_restored r in
     if list_ex mcp_tool tools \<and> \<not> controlled then throw Compaction_failed
     else
       seq (if controlled then
              seq (host_current E) (\<lambda>_.
              seq (hcall E H_compacted (he_unit E)) (\<lambda>_.
              seq (host_current E) (\<lambda>_.
              seq (verify_compaction E seed r) (\<lambda>_.
              seq (host_current E) (\<lambda>_.
              seq (hcall E H_restored (he_unit E)) (\<lambda>_. host_current E))))))
            else ret ()) (\<lambda>_.
       seq (host_evidence E) (\<lambda>_.
       ret (co_entry r, co_checkpoint r))))))))))"

definition host_compact :: "host_env \<Rightarrow> string \<Rightarrow> checkpoint_v1 \<Rightarrow> (string \<times> checkpoint_v1) host_exec" where
  "host_compact E instructions seed =
     seq (requireAttached E) (\<lambda>_.
     seq (available E Compaction_failed) (\<lambda>_.
     with_state (\<lambda>s.
       if \<not> he_compactor E \<or> hs_context s = None then throw Compaction_failed
       else seq begin_op (\<lambda>_.
         finalize (catch (compact_body E instructions seed)
             (\<lambda>e. seq (modify (invalidate E)) (\<lambda>_. throw (host_class Compaction_failed e)))) end_op))))"

section \<open>Completion\<close>

definition marker_matches :: "host_env \<Rightarrow> completion_marker \<Rightarrow> error_class + unit" where
  "marker_matches E m =
     (let ev = cw_event (he_work E) in
      if cm_eventId m \<noteq> event_id ev \<or> cm_chat m \<noteq> canonical_chat_jid ev \<or> cm_sequence m \<noteq> chat_sequence ev
      then Inl Session_failed
      else andThen (fingerprintEvent (he_sha E) ev) (\<lambda>fp. guard (cm_fingerprint m = fp) Session_failed))"

text \<open>What the kind of the completion needs.\<close>

definition completion_allowed :: "host_env \<Rightarrow> completion_marker \<Rightarrow> unit host_exec" where
  "completion_allowed E m = with_state (\<lambda>s.
     if cm_completion m = Turn then (if hs_settled s then ret () else throw Session_failed)
     else if \<not> is_from_me (cw_event (he_work E)) then throw Session_failed
     else seq (hcall E H_classify (he_classify E)) (\<lambda>c. if c = Own_confirmed then ret () else throw Session_failed))"

text \<open>The proof that is there already, or a reservation of the file.\<close>

definition find_or_reserve :: "host_env \<Rightarrow> completion_marker \<Rightarrow> completion_proof option index_action" where
  "find_or_reserve E m =
     then_do (evidence (he_index E) (he_binding E)) (\<lambda>before.
       case find (\<lambda>p. cm_eventId (cp_marker p) = cm_eventId m) before of
         Some found \<Rightarrow> (\<lambda>i. (if cp_marker found = m then Some (Some found) else None, i))
       | None \<Rightarrow> then_do (reserve (he_binding E)) (\<lambda>_ i. (Some None, i)))"

definition check_and_publish :: "host_env \<Rightarrow> completion_marker \<Rightarrow> string \<Rightarrow> completion_proof index_action" where
  "check_and_publish E m i =
     then_do (evidence (he_index E) (he_binding E)) (\<lambda>after.
       case find (\<lambda>p. cp_entryId p = i) after of
         None \<Rightarrow> (\<lambda>ix. (None, ix))
       | Some p \<Rightarrow>
           if cp_marker p \<noteq> m then (\<lambda>ix. (None, ix))
           else then_do (publish (he_binding E)) (\<lambda>_ ix. (Some p, ix)))"

definition append_body :: "host_env \<Rightarrow> completion_marker \<Rightarrow> completion_proof host_exec" where
  "append_body E m =
     seq (host_current E) (\<lambda>_.
     seq (index_job E (find_or_reserve E m)) (\<lambda>existing.
     case existing of
       Some p \<Rightarrow> ret p
     | None \<Rightarrow>
         seq (modify (\<lambda>s. s\<lparr>hs_reserved := True\<rparr>)) (\<lambda>_.
         seq (host_current E) (\<lambda>_.
         seq (hnow (H_append m) (he_string E)) (\<lambda>i.
         seq (sync_session E) (\<lambda>_.
         seq (host_current E) (\<lambda>_.
         seq (index_job E (check_and_publish E m i)) (\<lambda>p.
         seq (modify (\<lambda>s. s\<lparr>hs_reserved := False\<rparr>)) (\<lambda>_. ret p)))))))))"

definition append_failed :: "host_env \<Rightarrow> 'a host_exec" where
  "append_failed E =
     seq (modify (\<lambda>s. if hs_reserved s then invalidate E (s\<lparr>hs_reserved := False\<rparr>) else s)) (\<lambda>_. throw Session_failed)"

definition appendCompletion :: "host_env \<Rightarrow> completion_marker \<Rightarrow> completion_proof host_exec" where
  "appendCompletion E input =
     seq (requireAttached E) (\<lambda>_.
     seq (available E Session_failed) (\<lambda>_.
     seq (lift (checked completion_marker_schema input Session_failed)) (\<lambda>m.
     seq (lift (marker_matches E m)) (\<lambda>_.
     seq (completion_allowed E m) (\<lambda>_.
     seq (modify (\<lambda>s. s\<lparr>hs_busy := True, hs_reserved := False\<rparr>)) (\<lambda>_.
     finalize (catch (append_body E m) (\<lambda>_. append_failed E)) end_op))))))"

text \<open>What the journal calls to write a record: durable, or the file is never trusted again.\<close>

definition host_record :: "host_env \<Rightarrow> mutation_state \<Rightarrow> unit host_exec" where
  "host_record E value =
     catch (seq (host_current E) (\<lambda>_.
            seq (hnow (H_record value) (he_unit E)) (\<lambda>_.
            seq (sync_session E) (\<lambda>_.
            seq (sync_directory E) (\<lambda>_.
            host_current E)))))
       (\<lambda>_. seq (modify (invalidate E)) (\<lambda>_. throw Mutation_uncertain))"

section \<open>Opening\<close>

text \<open>
  \<open>durableDirectory\<close> (\<open>pi/completion-index.ts\<close>) on the segments of the resolved path, innermost first: a
  directory that is missing is created below its durable parent, and the parent is synced after it.
\<close>

definition needs_directory :: "path_stat \<Rightarrow> unit host_exec" where
  "needs_directory st = (if st = Directory then ret () else throw Session_failed)"

definition existing_stat :: "error_class + path_stat \<Rightarrow> error_class + path_stat" where
  "existing_stat r = (if r = Inr Missing then Inl Internal_failed else r)"

fun durableDirectory :: "host_env \<Rightarrow> string list \<Rightarrow> unit host_exec" where
  "durableDirectory E [] =
     seq (hcall E (H_lstat []) (\<lambda>n. fixed_error Session_failed (he_lstat E n))) needs_directory"
| "durableDirectory E (x # up) =
     seq (hcall E (H_lstat (rev (x # up))) (\<lambda>n. fixed_error Session_failed (he_lstat E n))) (\<lambda>st.
       if st \<noteq> Missing then needs_directory st
       else
         seq (durableDirectory E up) (\<lambda>_.
         seq (initial_current E) (\<lambda>_.
         seq (hcall E (H_mkdir (rev (x # up))) (\<lambda>n. guard (he_mkdir E n) Session_failed)) (\<lambda>_.
         seq (hcall E (H_lstat (rev (x # up))) (\<lambda>n. existing_stat (he_lstat E n))) (\<lambda>st.
         seq (needs_directory st) (\<lambda>_.
         seq (initial_current E) (\<lambda>_.
         hcall E (H_sync_directory (rev up)) (he_unit E))))))))"

text \<open>A new session file: created exclusively, written, synced, and synced in its directory.\<close>

definition seed_file :: "host_env \<Rightarrow> unit host_exec" where
  "seed_file E =
     seq (initial_current E) (\<lambda>_.
     seq (hcall E H_create_file (he_unit E)) (\<lambda>_.
     finalize
       (seq (hcall E H_write (he_unit E)) (\<lambda>_.
        seq (initial_current E) (\<lambda>_.
        hcall E H_fsync (he_unit E))))
       (hcall E H_close_file (he_unit E))))"

text \<open>
  \<open>dir\<close>: the segments of the directory \<open>root/sha256(chat)\<close>, innermost first. What the SDK has created is the
  binding from then on.
\<close>

definition new_session :: "host_env \<Rightarrow> string list \<Rightarrow> session_binding host_exec" where
  "new_session E dir =
     seq (durableDirectory E dir) (\<lambda>_.
     seq (initial_current E) (\<lambda>_.
     seq (hnow H_create (he_create E)) (\<lambda>(i, file).
       case file of
         None \<Rightarrow> throw Session_failed
       | Some f \<Rightarrow>
         seq (lift (checked session_binding_schema
           \<lparr>sb_chat = canonical_chat_jid (cw_event (he_work E)), sb_sessionId = i, sb_sessionFile = f\<rparr> Session_failed)) (\<lambda>b.
         seq (lift (assertSessionPath (he_root E) b)) (\<lambda>_.
         seq (hnow (H_append_binding b) (he_unit E)) (\<lambda>_.
         seq (seed_file E) (\<lambda>_.
         seq (initial_current E) (\<lambda>_.
         seq (hcall E (H_sync_directory (rev dir)) (he_unit E)) (\<lambda>_.
         seq (host_evidence (E\<lparr>he_binding := b\<rparr>)) (\<lambda>_. ret b))))))))))"

definition existing_session :: "host_env \<Rightarrow> session_binding \<Rightarrow> session_binding host_exec" where
  "existing_session E b =
     (if sb_chat b \<noteq> canonical_chat_jid (cw_event (he_work E)) then throw Session_failed
      else seq (host_evidence (E\<lparr>he_binding := b\<rparr>)) (\<lambda>_. ret b))"

definition connect_session :: "host_env \<Rightarrow> unit host_exec" where
  "connect_session E =
     seq (initial_current E) (\<lambda>_.
     seq (hcall E (H_bind (he_binding E)) (he_bool E)) (\<lambda>ok.
     if \<not> ok then throw Lease_lost
     else
       seq (initial_current E) (\<lambda>_.
       seq (hnow H_open (he_reopen E)) (\<lambda>m.
       if ro_id m \<noteq> sb_sessionId (he_binding E) \<or> ro_file m \<noteq> Some (sb_sessionFile (he_binding E)) then throw Session_failed
       else
         seq (if he_journal E then seq (hnow H_journal_bind (he_unit E)) (\<lambda>_. modify (\<lambda>s. s\<lparr>hs_journaled := True\<rparr>)) else ret ()) (\<lambda>_.
         seq (hcall E H_connect (he_unit E)) (\<lambda>_.
         seq (modify (\<lambda>s. s\<lparr>hs_connected := True\<rparr>)) (\<lambda>_.
         seq (host_current E) (\<lambda>_.
         seq (hnow H_no_compaction (he_unit E)) (\<lambda>_.
         seq (host_current E) (\<lambda>_.
         seq (hcall E H_extensions (he_unit E)) (\<lambda>_.
         seq (host_current E) (\<lambda>_.
         seq (hcall E H_ready (he_unit E)) (\<lambda>_.
         hsee (he_tools E) (\<lambda>tools.
           if \<not> he_journal E \<and> list_ex mcp_tool tools then throw Session_failed
           else modify (\<lambda>s. s\<lparr>hs_active := True, hs_attachable := True\<rparr>)))))))))))))))"

text \<open>A failed opening disposes of what it has made; its own failures are dropped.\<close>

definition quietly :: "unit host_exec \<Rightarrow> unit host_exec" where
  "quietly m = catch m (\<lambda>_. ret ())"

definition open_failed :: "host_env \<Rightarrow> error_class \<Rightarrow> 'a host_exec" where
  "open_failed E e = with_state (\<lambda>s.
     seq (if hs_connected s then quietly (hcall E H_dispose_runtime (he_unit E)) else ret ()) (\<lambda>_.
     seq (if hs_journaled s then quietly (hcall E H_dispose_journal (he_unit E)) else ret ()) (\<lambda>_.
     throw (host_class Session_failed e))))"

text \<open>The variables of a new port.\<close>

definition new_port :: "hosted \<Rightarrow> hosted" where
  "new_port s = s\<lparr>hs_opening := True, hs_attachable := False, hs_context := None, hs_disposed := False, hs_disposing := False, hs_done := None,
     hs_busy := False, hs_prompted := False, hs_settled := False, hs_reserved := False, hs_connected := False, hs_journaled := False\<rparr>"

text \<open>The mapped session of the chat, or the directory of a new one; the result is the binding of the port.\<close>

definition open_host :: "host_env \<Rightarrow> session_binding + string list \<Rightarrow> session_binding host_exec" where
  "open_host E source = with_state (\<lambda>s.
     if hs_closed s \<or> hs_active s \<or> hs_opening s then throw Session_failed
     else seq (modify new_port) (\<lambda>_.
       finalize
         (catch (seq (initial_current E) (\<lambda>_.
                 seq (case source of Inl b \<Rightarrow> existing_session E b | Inr dir \<Rightarrow> new_session E dir) (\<lambda>b.
                 seq (connect_session (E\<lparr>he_binding := b\<rparr>)) (\<lambda>_. ret b))))
            (open_failed E))
         (modify (\<lambda>s. s\<lparr>hs_opening := False\<rparr>))))"

section \<open>Attachment and disposal\<close>

definition attach_host :: "host_env \<Rightarrow> nat \<Rightarrow> notification \<Rightarrow> unit host_exec" where
  "attach_host E c event = with_state (\<lambda>s.
     if \<not> hs_attachable s then throw Session_failed
     else
       seq (hcall E (H_current (Some c)) (he_unit E)) (\<lambda>_.
       with_state (\<lambda>s.
         if hs_disposed s \<or> hs_disposing s \<or> hs_context s \<notin> {None, Some c} \<or>
            event_id event \<noteq> event_id (cw_event (he_work E)) then throw Session_failed
         else seq (same_event E event) (\<lambda>_.
           seq (modify (\<lambda>s. s\<lparr>hs_context := Some c\<rparr>)) (\<lambda>_.
           if he_journal E then hcall E H_attach_journal (he_unit E) else ret ())))))"

text \<open>The running operation ends, whatever else runs until then.\<close>

definition await_operation :: "host_env \<Rightarrow> unit host_exec" where
  "await_operation E = seq (hcall E H_operation (\<lambda>_. Inr ())) (\<lambda>_. modify (\<lambda>s. s\<lparr>hs_busy := False\<rparr>))"

definition tried :: "unit host_exec \<Rightarrow> bool host_exec" where
  "tried m = catch (seq m (\<lambda>_. ret False)) (\<lambda>_. ret True)"

definition dispose_body :: "host_env \<Rightarrow> bool host_exec" where
  "dispose_body E =
     seq (await_operation E) (\<lambda>_.
     seq (tried (hcall E H_wait_idle (he_unit E))) (\<lambda>f1.
     seq (modify (\<lambda>s. s\<lparr>hs_disposed := True\<rparr>)) (\<lambda>_.
     seq (tried (hcall E H_dispose_runtime (he_unit E))) (\<lambda>f2.
     seq (if he_journal E then tried (hcall E H_dispose_journal (he_unit E)) else ret False) (\<lambda>f3.
     ret (f1 \<or> f2 \<or> f3))))))"

text \<open>A later call shares the outcome of the first one.\<close>

definition dispose_host :: "host_env \<Rightarrow> unit host_exec" where
  "dispose_host E = with_state (\<lambda>s.
     case hs_done s of
       Some r \<Rightarrow> lift r
     | None \<Rightarrow>
         seq (modify (\<lambda>s. s\<lparr>hs_disposing := True\<rparr>)) (\<lambda>_.
         seq (dispose_body E) (\<lambda>failed.
         let r = (if failed then Inl Session_failed else Inr ()) in
         seq (modify (\<lambda>s. s\<lparr>hs_disposed := True, hs_active := False, hs_attachable := False, hs_done := Some r\<rparr>)) (\<lambda>_. lift r))))"

text \<open>The first call takes the sessions; a later one shares its outcome.\<close>

definition close_host :: "host_env \<Rightarrow> unit host_exec" where
  "close_host E = with_state (\<lambda>s.
     case hs_closeTask s of
       Some r \<Rightarrow> lift r
     | None \<Rightarrow>
         seq (modify (\<lambda>s. s\<lparr>hs_closed := True, hs_active := False\<rparr>)) (\<lambda>_.
         seq (if hs_active s then tried (dispose_host E) else ret False) (\<lambda>failed.
         let r = (if hs_opening s \<or> failed then Inl Session_failed else Inr ()) in
         seq (modify (\<lambda>s. s\<lparr>hs_closeTask := Some r\<rparr>)) (\<lambda>_. lift r))))"

end
