(* ===== verification/Host_Spec.thy ===== *)
theory Host_Spec
  imports Host Worker_Spec
begin

text \<open>
  The session host in every run, whatever its ports answer and whatever other handlers do while a call is
  awaited: which effects directly follow a check of the ownership, that a session is prompted at most once,
  and in which order a session is opened.
\<close>

section \<open>Invariants of an execution\<close>

definition holds :: "('s \<Rightarrow> bool) \<Rightarrow> ('s, 'a) exec \<Rightarrow> bool" where
  "holds I m \<longleftrightarrow> triple I m (\<lambda>_. I) (\<lambda>_. I)"

lemma holds_end: "holds I m \<Longrightarrow> I s \<Longrightarrow> I (snd (m s))"
  by (cases "m s"; cases "fst (m s)") (auto simp: holds_def dest: triple_Inr triple_Inl)

lemma holds_seq: "holds I m \<Longrightarrow> (\<And>x. holds I (f x)) \<Longrightarrow> holds I (seq m f)"
  unfolding holds_def by (rule triple_seq)

lemma holds_simple: "holds I (ret x)" "holds I (throw e)" "holds I (lift r)"
  by (auto simp: holds_def triple_def ret_def throw_def lift_def split: sum.split)

lemma holds_modify: "(\<And>s. I s \<Longrightarrow> I (g s)) \<Longrightarrow> holds I (modify g)"
  by (simp add: holds_def triple_def modify_def)

lemma holds_state: "(\<And>s. holds I (f s)) \<Longrightarrow> holds I (with_state f)"
  by (auto simp: holds_def triple_def with_state_def)

lemma holds_see: "(\<And>x. holds I (g x)) \<Longrightarrow> holds I (hsee f g)"
  by (auto simp: holds_def triple_def hsee_def)

lemma holds_catch: "holds I m \<Longrightarrow> (\<And>e. holds I (h e)) \<Longrightarrow> holds I (catch m h)"
  unfolding holds_def by (rule triple_catch)

lemma holds_finalize: "holds I m \<Longrightarrow> holds I c \<Longrightarrow> holds I (finalize m c)"
  unfolding holds_def by (rule triple_finalize [of _ _ "\<lambda>_. I" "\<lambda>_. I"])

lemma holds_if: "(b \<Longrightarrow> holds I m) \<Longrightarrow> (\<not> b \<Longrightarrow> holds I n) \<Longrightarrow> holds I (if b then m else n)"
  by simp

lemma holds_option: "(x = None \<Longrightarrow> holds I m) \<Longrightarrow> (\<And>y. x = Some y \<Longrightarrow> holds I (f y)) \<Longrightarrow>
    holds I (case x of None \<Rightarrow> m | Some y \<Rightarrow> f y)"
  by (cases x) simp_all

lemma holds_prod: "(\<And>a b. holds I (f a b)) \<Longrightarrow> holds I (case x of (a, b) \<Rightarrow> f a b)"
  "(\<And>p q. holds I (g p q z)) \<Longrightarrow> holds I ((case x of (p, q) \<Rightarrow> g p q) z)"
  by (cases x, simp)+

lemma holds_call: "(\<And>n s. I s \<Longrightarrow> I (he_others E n (s\<lparr>hs_log := hs_log s @ [e]\<rparr>))) \<Longrightarrow> holds I (hcall E e f)"
  by (auto simp: holds_def triple_def hcall_def split: sum.split)

lemma holds_now: "(\<And>s. I s \<Longrightarrow> I (s\<lparr>hs_log := hs_log s @ [e]\<rparr>)) \<Longrightarrow> holds I (hnow e f)"
  by (auto simp: holds_def triple_def hnow_def split: sum.split)

lemma holds_job:
  assumes "\<And>s. I s \<Longrightarrow> I (s\<lparr>hs_index := snd (exclusive (he_index E) job (hs_index s))\<rparr>)"
    and "\<And>n s. I s \<Longrightarrow> I (he_others E n (s\<lparr>hs_log := hs_log s @ [H_evidence]\<rparr>))"
  shows "holds I (index_job E job)"
  unfolding holds_def triple_def
proof (intro allI impI)
  fix s assume "I s"
  obtain r i where x: "exclusive (he_index E) job (hs_index s) = (r, i)" by force
  from assms(1) [OF \<open>I s\<close>] x have "I (s\<lparr>hs_index := i\<rparr>)" by simp
  from assms(2) [OF this] show "case index_job E job s of (Inl e, s') \<Rightarrow> I s' | (Inr x, s') \<Rightarrow> I s'"
    by (cases r) (simp_all add: index_job_def x hcall_def)
qed

lemmas holds_rules = holds_seq holds_simple holds_modify holds_state holds_see holds_catch holds_finalize holds_if
  holds_option holds_prod

section \<open>What may follow what\<close>

definition gate_before :: "host_env \<Rightarrow> host_effect list \<Rightarrow> bool" where
  "gate_before E log \<longleftrightarrow> log \<noteq> [] \<and> (\<exists>c. last log = H_current c) \<and> he_unit E (length log - 1) = Inr ()"

text \<open>With a journal, its run has begun in between.\<close>

definition prompt_gate :: "host_env \<Rightarrow> host_effect list \<Rightarrow> bool" where
  "prompt_gate E log \<longleftrightarrow>
     (if he_journal E then log \<noteq> [] \<and> last log = H_run_begin \<and> he_unit E (length log - 1) = Inr () \<and> gate_before E (butlast log)
      else gate_before E log)"

fun gated_effect :: "host_effect \<Rightarrow> bool" where
  "gated_effect (H_append m) = True"
| "gated_effect (H_record v) = True"
| "gated_effect H_sync = True"
| "gated_effect (H_sync_directory d) = True"
| "gated_effect (H_compact i c) = True"
| "gated_effect H_compacted = True"
| "gated_effect H_restored = True"
| "gated_effect H_run_begin = True"
| "gated_effect H_reopen = True"
| "gated_effect (H_mkdir d) = True"
| "gated_effect H_create = True"
| "gated_effect H_create_file = True"
| "gated_effect H_fsync = True"
| "gated_effect (H_bind b) = True"
| "gated_effect H_open = True"
| "gated_effect H_no_compaction = True"
| "gated_effect H_extensions = True"
| "gated_effect H_ready = True"
| "gated_effect e = False"

fun is_prompt_of :: "host_effect \<Rightarrow> bool" where
  "is_prompt_of (H_prompt i) = True"
| "is_prompt_of e = False"

definition host_guard :: "host_env \<Rightarrow> host_effect list \<Rightarrow> host_effect \<Rightarrow> bool" where
  "host_guard E log e \<longleftrightarrow> (gated_effect e \<longrightarrow> gate_before E log) \<and> (is_prompt_of e \<longrightarrow> prompt_gate E log)"

lemma host_guard_binding [simp]: "host_guard (E\<lparr>he_binding := b\<rparr>) = host_guard E" "gate_before (E\<lparr>he_binding := b\<rparr>) = gate_before E"
  by (auto simp: host_guard_def prompt_gate_def gate_before_def fun_eq_iff)

text \<open>Other handlers write their own log.\<close>

definition logs_kept :: "host_env \<Rightarrow> bool" where
  "logs_kept E \<longleftrightarrow> (\<forall>n s. hs_log (he_others E n s) = hs_log s)"

definition gd :: "host_env \<Rightarrow> hosted \<Rightarrow> bool" where
  "gd E s \<longleftrightarrow> guarded (host_guard E) (hs_log s)"

definition checked_gd :: "host_env \<Rightarrow> hosted \<Rightarrow> bool" where
  "checked_gd E s \<longleftrightarrow> gd E s \<and> gate_before E (hs_log s)"

lemma gd_binding [simp]: "gd (E\<lparr>he_binding := b\<rparr>) = gd E" "checked_gd (E\<lparr>he_binding := b\<rparr>) = checked_gd E"
  by (simp_all add: gd_def checked_gd_def fun_eq_iff)

lemma logs_kept_binding [simp]: "logs_kept (E\<lparr>he_binding := b\<rparr>) = logs_kept E"
  by (simp add: logs_kept_def)

lemma checked_gd_gd: "checked_gd E s \<Longrightarrow> gd E s"
  by (simp add: checked_gd_def)

abbreviation keeps_gd :: "host_env \<Rightarrow> 'a host_exec \<Rightarrow> bool" where
  "keeps_gd E \<equiv> holds (gd E)"

lemmas keeps_gd_def = holds_def [of "gd E" for E]

definition takes_gd :: "host_env \<Rightarrow> 'a host_exec \<Rightarrow> bool" where
  "takes_gd E m \<longleftrightarrow> triple (checked_gd E) m (\<lambda>_. gd E) (\<lambda>_. gd E)"

lemma keeps_binding [simp]: "keeps_gd (E\<lparr>he_binding := b\<rparr>) m = keeps_gd E m" "takes_gd (E\<lparr>he_binding := b\<rparr>) m = takes_gd E m"
  by (simp_all add: keeps_gd_def takes_gd_def)

lemma keeps_takes: "keeps_gd E m \<Longrightarrow> takes_gd E m"
  unfolding keeps_gd_def takes_gd_def by (erule triple_weaken) (simp_all add: checked_gd_gd)

section \<open>Rules\<close>

lemma keeps_call: "logs_kept E \<Longrightarrow> \<not> gated_effect e \<Longrightarrow> \<not> is_prompt_of e \<Longrightarrow> keeps_gd E (hcall E e f)"
  by (auto simp: keeps_gd_def triple_def hcall_def gd_def guarded_snoc host_guard_def logs_kept_def split: sum.split)

lemma keeps_now: "\<not> gated_effect e \<Longrightarrow> \<not> is_prompt_of e \<Longrightarrow> keeps_gd E (hnow e f)"
  by (auto simp: keeps_gd_def triple_def hnow_def gd_def guarded_snoc host_guard_def split: sum.split)

lemma takes_call: "logs_kept E \<Longrightarrow> \<not> is_prompt_of e \<Longrightarrow> takes_gd E (hcall E e f)"
  by (auto simp: takes_gd_def triple_def hcall_def checked_gd_def gd_def guarded_snoc host_guard_def logs_kept_def split: sum.split)

lemma takes_now: "\<not> is_prompt_of e \<Longrightarrow> takes_gd E (hnow e f)"
  by (auto simp: takes_gd_def triple_def hnow_def checked_gd_def gd_def guarded_snoc host_guard_def split: sum.split)

lemma gives_call: "logs_kept E \<Longrightarrow> triple (gd E) (hcall E (H_current c) (he_unit E)) (\<lambda>_. checked_gd E) (\<lambda>_. gd E)"
  by (auto simp: triple_def hcall_def gd_def checked_gd_def guarded_snoc host_guard_def gate_before_def logs_kept_def split: sum.split)

lemma gives_current: "logs_kept E \<Longrightarrow> triple (gd E) (host_current E) (\<lambda>_. checked_gd E) (\<lambda>_. gd E)"
  using gives_call [of E] by (auto simp: host_current_def triple_def with_state_def throw_def)

lemma takes_seq_gd: "takes_gd E m \<Longrightarrow> (\<And>x. keeps_gd E (f x)) \<Longrightarrow> takes_gd E (seq m f)"
  unfolding keeps_gd_def takes_gd_def by (rule triple_seq)

text \<open>A check, then what may follow it.\<close>

lemma keeps_current_seq: "logs_kept E \<Longrightarrow> takes_gd E (f ()) \<Longrightarrow> keeps_gd E (seq (host_current E) f)"
  unfolding keeps_gd_def takes_gd_def by (rule triple_seq [OF gives_current]) simp_all

lemma keeps_initial_seq: "logs_kept E \<Longrightarrow> takes_gd E (f ()) \<Longrightarrow> keeps_gd E (seq (initial_current E) f)"
  unfolding keeps_gd_def takes_gd_def initial_current_def by (rule triple_seq [OF gives_call]) simp_all

lemma takes_see_gd: "(\<And>x. takes_gd E (g x)) \<Longrightarrow> takes_gd E (hsee f g)"
  by (auto simp: takes_gd_def triple_def hsee_def)

lemma gd_current: "logs_kept E \<Longrightarrow> keeps_gd E (host_current E)" "logs_kept E \<Longrightarrow> keeps_gd E (initial_current E)"
  using gives_current [of E] gives_call [of E None]
  by (auto simp: keeps_gd_def initial_current_def elim!: triple_weaken intro: checked_gd_gd)

lemma keeps_index_job: "logs_kept E \<Longrightarrow> keeps_gd E (index_job E job)"
  by (auto simp: keeps_gd_def triple_def index_job_def hcall_def gd_def guarded_snoc host_guard_def logs_kept_def
      split: sum.split prod.split option.split)

section \<open>Every operation\<close>

lemmas gd_steps = keeps_current_seq keeps_initial_seq takes_seq_gd takes_call takes_now takes_see_gd
  holds_rules gd_current keeps_index_job keeps_call keeps_now keeps_takes

lemma keeps_parts:
  assumes L: "logs_kept E"
  shows "keeps_gd E (requireAttached E)" "keeps_gd E (available E e)" "keeps_gd E begin_op" "keeps_gd E end_op"
    "keeps_gd E (same_event E event)" "keeps_gd E (host_evidence E)" "keeps_gd E (sync_session E)" "keeps_gd E (sync_directory E)"
  unfolding requireAttached_def available_def begin_op_def end_op_def same_event_def host_evidence_def sync_session_def sync_directory_def
  by (rule gd_steps | rule L | simp add: gd_def)+

lemma keeps_reading:
  assumes L: "logs_kept E"
  shows "keeps_gd E (host_history E q c)" "keeps_gd E (reconcileCheckpoint E r)"
  unfolding host_history_def reconcileCheckpoint_def
  by (rule keeps_parts [OF L] gd_steps | rule L | simp add: gd_def)+

lemma keeps_verify:
  assumes L: "logs_kept E"
  shows "takes_gd E (verify_compaction E seed r)"
proof -
  have "takes_gd E (seq (hnow H_reopen (he_reopen E)) (\<lambda>ro. if compacted_ok E seed r ro then ret () else throw Compaction_failed))"
    by (rule gd_steps | simp add: gd_def)+
  then have "triple (checked_gd E) (verify_compaction E seed r) (\<lambda>_. gd E) (\<lambda>_. gd E)"
    unfolding takes_gd_def verify_compaction_def by (rule triple_catch, intro triple_throw)
  then show ?thesis by (simp add: takes_gd_def)
qed

lemma keeps_compact:
  assumes L: "logs_kept E"
  shows "keeps_gd E (host_compact E i seed)"
  unfolding host_compact_def compact_body_def Let_def
  by (rule keeps_parts [OF L] takes_seq_gd [OF keeps_verify [OF L]] gd_steps | rule L | simp add: invalidate_def gd_def)+

lemma keeps_append:
  assumes L: "logs_kept E"
  shows "keeps_gd E (appendCompletion E m)" "keeps_gd E (host_record E v)"
  unfolding appendCompletion_def append_body_def append_failed_def host_record_def completion_allowed_def
  by (rule keeps_parts [OF L] gd_steps | rule L | simp add: invalidate_def gd_def)+

section \<open>The prompt\<close>

definition prompting :: "host_env \<Rightarrow> hosted \<Rightarrow> bool" where
  "prompting E s \<longleftrightarrow> gd E s \<and> prompt_gate E (hs_log s)"

lemma invoke_gd:
  assumes L: "logs_kept E"
  shows "triple (prompting E) (invoke E i) (\<lambda>_. gd E) (\<lambda>_. gd E)"
proof -
  have "triple (prompting E) (hcall E (H_prompt i) (he_unit E)) (\<lambda>_. gd E) (\<lambda>_. gd E)"
    using L by (auto simp: triple_def hcall_def prompting_def gd_def guarded_snoc host_guard_def logs_kept_def split: sum.split)
  moreover have "triple (gd E) (hcall E H_wait_idle (he_unit E)) (\<lambda>_. gd E) (\<lambda>_. gd E)"
    using keeps_call [OF L, of H_wait_idle "he_unit E"] by (simp add: keeps_gd_def)
  ultimately show ?thesis unfolding invoke_def by (rule triple_seq)
qed

lemma journal_run_gd:
  assumes L: "logs_kept E" and J: "he_journal E"
  shows "takes_gd E (journal_run E (invoke E i))"
proof -
  have begin_run: "triple (checked_gd E) (hcall E H_run_begin (he_unit E)) (\<lambda>_. prompting E) (\<lambda>_. gd E)"
    using L J by (auto simp: triple_def hcall_def checked_gd_def gd_def prompting_def guarded_snoc host_guard_def
        prompt_gate_def logs_kept_def split: sum.split)
  have inner: "triple (prompting E) (catch (seq (invoke E i) (\<lambda>_. ret None)) (\<lambda>e. ret (Some e))) (\<lambda>_. gd E) (\<lambda>_. gd E)"
    by (rule triple_catch [OF triple_seq [OF invoke_gd [OF L]]]) (simp_all add: triple_ret)
  have tail: "keeps_gd E (case x of None \<Rightarrow> hcall E H_run_end (he_unit E)
      | Some e \<Rightarrow> hcall E H_run_end (\<lambda>n. Inl (he_failure E n e)))" for x
    by (rule gd_steps | rule L | simp add: gd_def)+
  show ?thesis
    unfolding takes_gd_def journal_run_def
    by (rule triple_seq [OF begin_run], rule triple_seq [OF inner], rule tail [unfolded keeps_gd_def])
qed

lemma gd_prompt:
  assumes L: "logs_kept E"
  shows "keeps_gd E (host_prompt E ev i)"
proof -
  have run: "takes_gd E (if he_journal E then journal_run E (invoke E i) else invoke E i)"
    using journal_run_gd [OF L, of i] triple_weaken [OF invoke_gd [OF L, of i], of "checked_gd E"]
    by (auto simp: takes_gd_def checked_gd_def prompting_def prompt_gate_def)
  have "keeps_gd E (prompt_body E i)"
    unfolding prompt_body_def
    by (rule keeps_current_seq, rule L, rule takes_seq_gd, rule run) (rule gd_steps | rule L | simp add: gd_def)+
  then show ?thesis
    unfolding host_prompt_def
    by (intro keeps_parts [OF L] holds_rules) (simp_all add: gd_def)
qed

section \<open>Opening, attachment and the end\<close>

lemma keeps_directory:
  assumes L: "logs_kept E"
  shows "keeps_gd E (durableDirectory E dir)"
proof (induction dir)
  case Nil
  show ?case unfolding durableDirectory.simps needs_directory_def by (rule gd_steps | rule L | simp add: gd_def)+
next
  case (Cons x up)
  show ?case unfolding durableDirectory.simps needs_directory_def by (rule Cons.IH gd_steps | rule L | simp add: gd_def)+
qed

lemma gd_open:
  assumes L: "logs_kept E"
  shows "keeps_gd E (open_host E source)"
proof -
  have evidence: "keeps_gd E (host_evidence (E\<lparr>he_binding := b\<rparr>))" for b
    using keeps_parts(6) [of "E\<lparr>he_binding := b\<rparr>"] L by simp
  have seed: "keeps_gd E (seed_file E)"
    unfolding seed_file_def
    by (rule keeps_initial_seq, rule L, rule takes_seq_gd, rule takes_call, rule L, simp) (rule gd_steps | rule L | simp add: gd_def)+
  have fresh: "keeps_gd E (new_session E dir)" for dir
    unfolding new_session_def by (rule evidence seed keeps_directory [OF L] gd_steps | rule L | simp add: gd_def)+
  have mapped: "keeps_gd E (existing_session E b)" for b
    unfolding existing_session_def by (rule evidence gd_steps | simp add: gd_def)+
  have connect: "keeps_gd E' (connect_session E')" if "logs_kept E'" for E'
    unfolding connect_session_def by (rule gd_steps | rule that | simp add: gd_def)+
  have connect_b: "keeps_gd E (connect_session (E\<lparr>he_binding := b\<rparr>))" for b
    using connect [of "E\<lparr>he_binding := b\<rparr>"] L by simp
  have failed: "keeps_gd E (open_failed E e)" for e
    unfolding open_failed_def quietly_def by (rule gd_steps | rule L | simp add: gd_def)+
  have source: "keeps_gd E (case source of Inl b \<Rightarrow> existing_session E b | Inr dir \<Rightarrow> new_session E dir)"
    by (cases source) (simp_all add: mapped fresh)
  show ?thesis
    unfolding open_host_def
    by (rule source connect_b failed gd_steps | rule L | simp add: new_port_def gd_def)+
qed

lemma keeps_attach:
  assumes L: "logs_kept E"
  shows "keeps_gd E (attach_host E c ev)"
  unfolding attach_host_def by (rule keeps_parts [OF L] gd_steps | rule L | simp add: gd_def)+

lemma keeps_dispose:
  assumes L: "logs_kept E"
  shows "keeps_gd E (dispose_host E)" "keeps_gd E (close_host E)"
proof -
  show dispose: "keeps_gd E (dispose_host E)"
    unfolding dispose_host_def dispose_body_def await_operation_def tried_def Let_def by (rule gd_steps | rule L | simp add: gd_def)+
  show "keeps_gd E (close_host E)"
    unfolding close_host_def tried_def Let_def by (rule dispose gd_steps | rule L | simp add: gd_def)+
qed

section \<open>Runs of a host\<close>

datatype host_op =
    Do_open "session_binding + string list" | Do_attach nat notification | Do_prompt notification string
  | Do_history nat "checkpoint_v1 option" | Do_reconcile checkpoint_record | Do_compact string checkpoint_v1
  | Do_append completion_marker | Do_record mutation_state | Do_dispose | Do_close

fun host_step :: "host_env \<Rightarrow> host_op \<Rightarrow> hosted \<Rightarrow> hosted" where
  "host_step E (Do_open source) s = snd (open_host E source s)"
| "host_step E (Do_attach c ev) s = snd (attach_host E c ev s)"
| "host_step E (Do_prompt ev i) s = snd (host_prompt E ev i s)"
| "host_step E (Do_history q c) s = snd (host_history E q c s)"
| "host_step E (Do_reconcile r) s = snd (reconcileCheckpoint E r s)"
| "host_step E (Do_compact i c) s = snd (host_compact E i c s)"
| "host_step E (Do_append m) s = snd (appendCompletion E m s)"
| "host_step E (Do_record v) s = snd (host_record E v s)"
| "host_step E Do_dispose s = snd (dispose_host E s)"
| "host_step E Do_close s = snd (close_host E s)"

definition host_run :: "host_env \<Rightarrow> host_op list \<Rightarrow> hosted \<Rightarrow> hosted" where
  "host_run E ops s = fold (host_step E) ops s"

lemma host_step_gd:
  assumes L: "logs_kept E" and "gd E s"
  shows "gd E (host_step E oper s)"
  using assms(2)
  by (cases oper) (simp_all add: holds_end [OF gd_open [OF L]] holds_end [OF keeps_attach [OF L]] holds_end [OF gd_prompt [OF L]]
      holds_end [OF keeps_reading(1) [OF L]] holds_end [OF keeps_reading(2) [OF L]] holds_end [OF keeps_compact [OF L]]
      holds_end [OF keeps_append(1) [OF L]] holds_end [OF keeps_append(2) [OF L]] holds_end [OF keeps_dispose(1) [OF L]]
      holds_end [OF keeps_dispose(2) [OF L]])

lemma fold_inv: "(\<And>x s. x \<in> set xs \<Longrightarrow> I s \<Longrightarrow> I (f x s)) \<Longrightarrow> I s \<Longrightarrow> I (fold f xs s)"
  by (induction xs arbitrary: s) simp_all

text \<open>C5: in every run of the host, each effect on the session and its files (creating, binding, opening,
starting, recording, appending, syncing, compacting, restoring) directly follows a check of the ownership
that succeeded; and the model is prompted only directly after such a check, or, with a journal, directly
after the journal's run began on it.\<close>

theorem session_effects_are_gated:
  assumes "logs_kept E" "hs_log s = []" "p < length (hs_log (host_run E ops s))"
  shows "(gated_effect (hs_log (host_run E ops s) ! p) \<longrightarrow>
      0 < p \<and> (\<exists>c. hs_log (host_run E ops s) ! (p - 1) = H_current c) \<and> he_unit E (p - 1) = Inr ()) \<and>
    (is_prompt_of (hs_log (host_run E ops s) ! p) \<longrightarrow>
      (if he_journal E then
         1 < p \<and> hs_log (host_run E ops s) ! (p - 1) = H_run_begin \<and> he_unit E (p - 1) = Inr () \<and>
         (\<exists>c. hs_log (host_run E ops s) ! (p - 2) = H_current c) \<and> he_unit E (p - 2) = Inr ()
       else 0 < p \<and> (\<exists>c. hs_log (host_run E ops s) ! (p - 1) = H_current c) \<and> he_unit E (p - 1) = Inr ()))"
proof -
  let ?log = "hs_log (host_run E ops s)"
  have "gd E s" using assms(2) by (simp add: gd_def)
  then have "gd E (host_run E ops s)"
    using fold_inv [of ops "gd E" "host_step E" s] host_step_gd [OF assms(1)] unfolding host_run_def by blast
  then have "guarded (host_guard E) ?log" by (simp add: gd_def)
  from guardedD [OF this assms(3)] have guard: "host_guard E (take p ?log) (?log ! p)" .
  have last: "last (take q ?log) = ?log ! (q - 1)" if "take q ?log \<noteq> []" "q \<le> p" for q
    using that assms(3) by (auto simp: last_conv_nth min_def)
  have gate: "0 < q \<and> (\<exists>c. ?log ! (q - 1) = H_current c) \<and> he_unit E (q - 1) = Inr ()" if "gate_before E (take q ?log)" "q \<le> p" for q
    using that last [of q] assms(3) by (auto simp: gate_before_def min_def)
  have two: "1 < p \<and> ?log ! (p - 1) = H_run_begin \<and> he_unit E (p - 1) = Inr () \<and>
      (\<exists>c. ?log ! (p - 2) = H_current c) \<and> he_unit E (p - 2) = Inr ()" if "he_journal E" "prompt_gate E (take p ?log)"
  proof -
    have b: "take p ?log \<noteq> []" "last (take p ?log) = H_run_begin" "he_unit E (length (take p ?log) - 1) = Inr ()"
      "gate_before E (butlast (take p ?log))"
      using that by (auto simp: prompt_gate_def)
    have "butlast (take p ?log) = take (p - 1) ?log" using assms(3) by (simp add: butlast_take)
    with gate [of "p - 1"] b(4) have "0 < p - 1 \<and> (\<exists>c. ?log ! (p - 1 - 1) = H_current c) \<and> he_unit E (p - 1 - 1) = Inr ()"
      by simp
    then show ?thesis using b last [of p] assms(3) by (simp add: numeral_2_eq_2 diff_diff_eq)
  qed
  show ?thesis
    using guard gate [of p] two unfolding host_guard_def prompt_gate_def by (auto split: if_splits)
qed

section \<open>One prompt\<close>

definition prompts_of :: "host_effect list \<Rightarrow> nat" where
  "prompts_of log = length (filter is_prompt_of log)"

definition settled_prompt :: "host_env \<Rightarrow> host_effect list \<Rightarrow> bool" where
  "settled_prompt E log \<longleftrightarrow> (\<exists>p q. p < q \<and> q \<le> length log \<and> is_prompt_of (log ! p) \<and> he_unit E p = Inr () \<and>
     he_outcome E q = (True, False) \<and> he_idle E q)"

definition prompt_done :: "host_env \<Rightarrow> host_effect list \<Rightarrow> bool" where
  "prompt_done E log \<longleftrightarrow> (\<exists>p < length log. is_prompt_of (log ! p) \<and> he_unit E p = Inr ())"

definition turn_guard :: "host_env \<Rightarrow> host_effect list \<Rightarrow> host_effect \<Rightarrow> bool" where
  "turn_guard E log e \<longleftrightarrow> (\<forall>m. e = H_append m \<longrightarrow>
     completion_marker_schema m \<and> marker_matches E m = Inr () \<and> (cm_completion m = Turn \<longrightarrow> settled_prompt E log))"

definition once_inv :: "host_env \<Rightarrow> hosted \<Rightarrow> bool" where
  "once_inv E s \<longleftrightarrow> prompts_of (hs_log s) \<le> (if hs_prompted s then 1 else 0) \<and>
     (hs_settled s \<longrightarrow> settled_prompt E (hs_log s)) \<and> guarded (turn_guard E) (hs_log s)"

text \<open>Other handlers neither forget the prompt nor settle a turn of this port.\<close>

definition prompts_kept :: "host_env \<Rightarrow> bool" where
  "prompts_kept E \<longleftrightarrow> logs_kept E \<and> (\<forall>n s. (hs_prompted s \<longrightarrow> hs_prompted (he_others E n s)) \<and>
     (hs_settled (he_others E n s) \<longrightarrow> hs_settled s))"

lemma settled_prompt_snoc: "settled_prompt E log \<Longrightarrow> settled_prompt E (log @ [e])"
  unfolding settled_prompt_def
proof (elim exE conjE)
  fix p q assume "p < q" "q \<le> length log" "is_prompt_of (log ! p)" "he_unit E p = Inr ()" "he_outcome E q = (True, False)" "he_idle E q"
  then have "p < q \<and> q \<le> length (log @ [e]) \<and> is_prompt_of ((log @ [e]) ! p) \<and> he_unit E p = Inr () \<and>
      he_outcome E q = (True, False) \<and> he_idle E q" by (simp add: nth_append)
  then show "\<exists>p q. p < q \<and> q \<le> length (log @ [e]) \<and> is_prompt_of ((log @ [e]) ! p) \<and> he_unit E p = Inr () \<and>
      he_outcome E q = (True, False) \<and> he_idle E q" by blast
qed

lemma done_snoc: "prompt_done E log \<Longrightarrow> prompt_done E (log @ [e])"
  by (auto simp: prompt_done_def nth_append intro: less_SucI)

lemma once_snoc:
  assumes "once_inv E s" "prompts_kept E" "\<not> is_prompt_of e" "turn_guard E (hs_log s) e"
  shows "once_inv E (s\<lparr>hs_log := hs_log s @ [e]\<rparr>)" "once_inv E (he_others E n (s\<lparr>hs_log := hs_log s @ [e]\<rparr>))"
proof -
  let ?s = "s\<lparr>hs_log := hs_log s @ [e]\<rparr>"
  show one: "once_inv E ?s"
    using assms(1,3,4) by (auto simp: once_inv_def prompts_of_def guarded_snoc settled_prompt_snoc)
  have "hs_log (he_others E n ?s) = hs_log ?s" "hs_prompted ?s \<longrightarrow> hs_prompted (he_others E n ?s)"
    "hs_settled (he_others E n ?s) \<longrightarrow> hs_settled ?s"
    using assms(2) unfolding prompts_kept_def logs_kept_def by blast+
  then show "once_inv E (he_others E n ?s)" using one by (auto simp: once_inv_def split: if_splits)
qed

abbreviation keeps_once :: "host_env \<Rightarrow> 'a host_exec \<Rightarrow> bool" where
  "keeps_once E \<equiv> holds (once_inv E)"

lemma once_call:
  assumes "prompts_kept E" "\<not> is_prompt_of e" "\<And>m. e \<noteq> H_append m"
  shows "keeps_once E (hcall E e f)" "keeps_once E (hnow e f)"
  using once_snoc [of E _ e] assms by (auto intro!: holds_call holds_now simp: turn_guard_def)

lemma once_job: "prompts_kept E \<Longrightarrow> keeps_once E (index_job E job)"
  using once_snoc(2) [of E _ H_evidence] by (auto intro!: holds_job simp: turn_guard_def, auto simp: once_inv_def)

lemma once_modify:
  "(\<And>s. hs_log (g s) = hs_log s \<and> (hs_prompted s \<longrightarrow> hs_prompted (g s)) \<and> (hs_settled (g s) \<longrightarrow> hs_settled s)) \<Longrightarrow>
   keeps_once E (modify g)"
proof (rule holds_modify)
  fix s
  assume g: "\<And>s. hs_log (g s) = hs_log s \<and> (hs_prompted s \<longrightarrow> hs_prompted (g s)) \<and> (hs_settled (g s) \<longrightarrow> hs_settled s)"
  assume "once_inv E s"
  then show "once_inv E (g s)" using g [of s] by (auto simp: once_inv_def split: if_splits)
qed

lemmas once_steps = holds_seq holds_simple once_modify holds_state holds_see holds_catch holds_finalize holds_if
  holds_option holds_prod once_call once_job

lemma once_parts:
  assumes K: "prompts_kept E"
  shows "keeps_once E (host_current E)" "keeps_once E (requireAttached E)" "keeps_once E (available E e)"
    "keeps_once E (host_evidence E)" "keeps_once E (sync_session E)" "keeps_once E (sync_directory E)"
    "keeps_once E (same_event E event)"
  unfolding host_current_def requireAttached_def available_def host_evidence_def sync_session_def sync_directory_def same_event_def
  by (rule once_steps | rule K | simp)+

lemma once_reading:
  assumes K: "prompts_kept E"
  shows "keeps_once E (host_history E q c)" "keeps_once E (reconcileCheckpoint E r)"
  unfolding host_history_def reconcileCheckpoint_def
  by (rule once_parts [OF K] once_steps | rule K | simp)+

lemma once_verify:
  assumes K: "prompts_kept E"
  shows "keeps_once E (verify_compaction E seed r)"
  unfolding verify_compaction_def by (rule once_steps | rule K | simp)+

lemma once_compact:
  assumes K: "prompts_kept E"
  shows "keeps_once E (host_compact E i seed)"
  unfolding host_compact_def compact_body_def begin_op_def end_op_def Let_def
  by (rule once_parts [OF K] once_verify [OF K] once_steps | rule K | simp add: invalidate_def)+

lemma once_record:
  assumes K: "prompts_kept E"
  shows "keeps_once E (host_record E v)" "keeps_once E (attach_host E x ev)"
  unfolding host_record_def attach_host_def
  by (rule once_parts [OF K] once_steps | rule K | simp add: invalidate_def)+

lemma once_dispose:
  assumes K: "prompts_kept E"
  shows "keeps_once E (dispose_host E)" "keeps_once E (close_host E)"
proof -
  show dispose: "keeps_once E (dispose_host E)"
    unfolding dispose_host_def dispose_body_def await_operation_def tried_def Let_def by (rule once_steps | rule K | simp)+
  show "keeps_once E (close_host E)"
    unfolding close_host_def tried_def Let_def by (rule dispose once_steps | rule K | simp)+
qed

text \<open>Before the prompt: started, but not prompted; after it: prompted.\<close>

definition about_to :: "host_env \<Rightarrow> hosted \<Rightarrow> bool" where
  "about_to E s \<longleftrightarrow> once_inv E s \<and> hs_prompted s \<and> prompts_of (hs_log s) = 0"

definition did_prompt :: "host_env \<Rightarrow> hosted \<Rightarrow> bool" where
  "did_prompt E s \<longleftrightarrow> once_inv E s \<and> prompt_done E (hs_log s)"

lemma about_call:
  assumes K: "prompts_kept E" and e: "\<not> is_prompt_of e" "\<And>m. e \<noteq> H_append m"
  shows "holds (about_to E) (hcall E e f)"
proof (rule holds_call)
  fix n s assume s: "about_to E s"
  let ?s = "s\<lparr>hs_log := hs_log s @ [e]\<rparr>"
  have "once_inv E (he_others E n ?s)" by (rule once_snoc [OF _ K]) (use s e in \<open>auto simp: about_to_def turn_guard_def\<close>)
  moreover have "hs_log (he_others E n ?s) = hs_log ?s" "hs_prompted ?s \<longrightarrow> hs_prompted (he_others E n ?s)"
    using K unfolding prompts_kept_def logs_kept_def by blast+
  ultimately show "about_to E (he_others E n ?s)" using s e(1) by (simp add: about_to_def prompts_of_def)
qed

lemma did_call:
  assumes K: "prompts_kept E" and e: "\<not> is_prompt_of e" "\<And>m. e \<noteq> H_append m"
  shows "holds (did_prompt E) (hcall E e f)"
proof (rule holds_call)
  fix n s assume s: "did_prompt E s"
  let ?s = "s\<lparr>hs_log := hs_log s @ [e]\<rparr>"
  have "once_inv E (he_others E n ?s)" by (rule once_snoc [OF _ K]) (use s e in \<open>auto simp: did_prompt_def turn_guard_def\<close>)
  moreover have "hs_log (he_others E n ?s) = hs_log ?s"
    using K unfolding prompts_kept_def logs_kept_def by blast
  ultimately show "did_prompt E (he_others E n ?s)" using s by (simp add: did_prompt_def done_snoc)
qed

lemma about_once: "about_to E s \<Longrightarrow> once_inv E s" and did_once: "did_prompt E s \<Longrightarrow> once_inv E s"
  by (simp_all add: about_to_def did_prompt_def)

lemma prompt_call:
  assumes K: "prompts_kept E"
  shows "triple (about_to E) (hcall E (H_prompt i) (he_unit E)) (\<lambda>_. did_prompt E) (\<lambda>_. once_inv E)"
proof (unfold triple_def, intro allI impI)
  fix s assume s: "about_to E s"
  let ?n = "length (hs_log s)" and ?s = "s\<lparr>hs_log := hs_log s @ [H_prompt i]\<rparr>"
  have o: "hs_log (he_others E ?n ?s) = hs_log ?s" "hs_prompted (he_others E ?n ?s)"
    "hs_settled (he_others E ?n ?s) \<longrightarrow> hs_settled ?s"
    using K s unfolding prompts_kept_def logs_kept_def about_to_def by auto
  have "once_inv E (he_others E ?n ?s)"
    using s o settled_prompt_snoc [of E "hs_log s" "H_prompt i"]
    by (auto simp: about_to_def once_inv_def prompts_of_def guarded_snoc turn_guard_def)
  moreover have "prompt_done E (hs_log (he_others E ?n ?s))" if "he_unit E ?n = Inr ()"
    using that o(1) by (auto simp: prompt_done_def intro!: exI [of _ ?n])
  ultimately show "case hcall E (H_prompt i) (he_unit E) s of (Inl e, s') \<Rightarrow> once_inv E s' | (Inr x, s') \<Rightarrow> did_prompt E s'"
    by (cases "he_unit E ?n") (auto simp: hcall_def did_prompt_def)
qed

lemma invoke_once:
  assumes K: "prompts_kept E"
  shows "triple (about_to E) (invoke E i) (\<lambda>_. did_prompt E) (\<lambda>_. once_inv E)"
  unfolding invoke_def
  by (rule triple_seq [OF prompt_call [OF K]], rule triple_weaken [OF did_call [OF K, of H_wait_idle, unfolded holds_def]])
    (simp_all add: did_once)

lemma journal_run_once:
  assumes K: "prompts_kept E"
  shows "triple (about_to E) (journal_run E (invoke E i)) (\<lambda>_. did_prompt E) (\<lambda>_. once_inv E)"
proof -
  have start: "triple (about_to E) (hcall E H_run_begin (he_unit E)) (\<lambda>_. about_to E) (\<lambda>_. once_inv E)"
    by (rule triple_weaken [OF about_call [OF K, of H_run_begin, unfolded holds_def]]) (simp_all add: about_once)
  have inner: "triple (about_to E) (catch (seq (invoke E i) (\<lambda>_. ret None)) (\<lambda>e. ret (Some e)))
      (\<lambda>x s. if x = None then did_prompt E s else once_inv E s) (\<lambda>_. once_inv E)"
    by (rule triple_catch [OF triple_seq [OF invoke_once [OF K]]]) (auto intro!: triple_ret)
  have good: "triple (did_prompt E) (hcall E H_run_end (he_unit E)) (\<lambda>_. did_prompt E) (\<lambda>_. once_inv E)"
    by (rule triple_weaken [OF did_call [OF K, of H_run_end, unfolded holds_def]]) (simp_all add: did_once)
  have bad: "triple (once_inv E) (hcall E H_run_end (\<lambda>n. Inl (he_failure E n e))) (\<lambda>_. did_prompt E) (\<lambda>_. once_inv E)" for e
    using once_call(1) [OF K, of H_run_end "\<lambda>n. Inl (he_failure E n e)"]
    by (auto simp: holds_def triple_def hcall_def)
  have tail: "triple (\<lambda>s. if x = None then did_prompt E s else once_inv E s)
      (case x of None \<Rightarrow> hcall E H_run_end (he_unit E) | Some e \<Rightarrow> hcall E H_run_end (\<lambda>n. Inl (he_failure E n e)))
      (\<lambda>_. did_prompt E) (\<lambda>_. once_inv E)" for x
    using good bad by (cases x) simp_all
  show ?thesis unfolding journal_run_def by (rule triple_seq [OF start], rule triple_seq [OF inner tail])
qed

lemma prompt_body_once:
  assumes K: "prompts_kept E"
  shows "triple (about_to E) (prompt_body E i) (\<lambda>_. once_inv E) (\<lambda>_. once_inv E)"
proof -
  have gate: "triple (about_to E) (host_current E) (\<lambda>_. about_to E) (\<lambda>_. once_inv E)"
  proof -
    have "holds (about_to E) (host_current E)"
      unfolding host_current_def by (rule holds_state, rule holds_if, rule holds_simple, rule about_call [OF K]) simp_all
    then show ?thesis unfolding holds_def by (rule triple_weaken) (simp_all add: about_once)
  qed
  have run: "triple (about_to E) (if he_journal E then journal_run E (invoke E i) else invoke E i) (\<lambda>_. did_prompt E) (\<lambda>_. once_inv E)"
    using invoke_once [OF K] journal_run_once [OF K] by simp
  define J where "J s \<longleftrightarrow> once_inv E s \<and> settled_prompt E (hs_log s)" for s
  have J_gate: "triple J (host_current E) (\<lambda>_. J) (\<lambda>_. once_inv E)"
  proof -
    have call: "holds J (hcall E (H_current c) (he_unit E))" for c
    proof (rule holds_call)
      fix n s assume s: "J s"
      let ?s = "s\<lparr>hs_log := hs_log s @ [H_current c]\<rparr>"
      have "once_inv E (he_others E n ?s)" by (rule once_snoc [OF _ K]) (use s in \<open>auto simp: J_def turn_guard_def\<close>)
      moreover have "hs_log (he_others E n ?s) = hs_log ?s" using K unfolding prompts_kept_def logs_kept_def by blast
      ultimately show "J (he_others E n ?s)" using s by (simp add: J_def settled_prompt_snoc)
    qed
    have "holds J (host_current E)"
      unfolding host_current_def by (rule holds_state, rule holds_if, rule holds_simple, rule call)
    then show ?thesis unfolding holds_def by (rule triple_weaken) (simp_all add: J_def)
  qed
  have finish: "triple J (modify (\<lambda>s. s\<lparr>hs_settled := True\<rparr>)) (\<lambda>_. once_inv E) (\<lambda>_. once_inv E)"
    by (rule triple_modify) (auto simp: J_def once_inv_def)
  have good: "triple J (seq (host_current E) (\<lambda>_. modify (\<lambda>s. s\<lparr>hs_settled := True\<rparr>))) (\<lambda>_. once_inv E) (\<lambda>_. once_inv E)"
    by (rule triple_seq [OF J_gate finish])
  have check: "triple (did_prompt E) (hsee (\<lambda>n. (he_outcome E n, he_idle E n)) (\<lambda>((settled, aborted), idle).
       if \<not> settled \<or> aborted \<or> \<not> idle then throw Session_failed
       else seq (host_current E) (\<lambda>_. modify (\<lambda>s. s\<lparr>hs_settled := True\<rparr>)))) (\<lambda>_. once_inv E) (\<lambda>_. once_inv E)"
  proof (unfold triple_def, intro allI impI)
    fix s assume s: "did_prompt E s"
    let ?n = "length (hs_log s)"
    obtain settled aborted where o: "he_outcome E ?n = (settled, aborted)" by force
    have "J s" if "settled" "\<not> aborted" "he_idle E ?n"
      using s that o by (auto simp: J_def did_prompt_def settled_prompt_def prompt_done_def)
    then show "case hsee (\<lambda>n. (he_outcome E n, he_idle E n)) (\<lambda>((settled, aborted), idle).
       if \<not> settled \<or> aborted \<or> \<not> idle then throw Session_failed
       else seq (host_current E) (\<lambda>_. modify (\<lambda>s. s\<lparr>hs_settled := True\<rparr>))) s of
        (Inl e, s') \<Rightarrow> once_inv E s' | (Inr x, s') \<Rightarrow> once_inv E s'"
      using good [unfolded triple_def, THEN spec, of s] s by (auto simp: hsee_def o throw_def did_once)
  qed
  show ?thesis unfolding prompt_body_def by (rule triple_seq [OF gate], rule triple_seq [OF run check])
qed

lemma once_prompt:
  assumes K: "prompts_kept E"
  shows "keeps_once E (host_prompt E ev i)"
proof -
  define N where "N s \<longleftrightarrow> once_inv E s \<and> prompts_of (hs_log s) = 0" for s
  have N: "N s \<Longrightarrow> once_inv E s" for s by (simp add: N_def)
  have same: "triple N (same_event E ev) (\<lambda>_. N) (\<lambda>_. once_inv E)"
  proof -
    have "holds N (same_event E ev)" unfolding same_event_def by (intro holds_rules)
    then show ?thesis unfolding holds_def by (rule triple_weaken) (simp_all add: N)
  qed
  have mark: "triple N (modify (\<lambda>s. s\<lparr>hs_prompted := True\<rparr>)) (\<lambda>_. about_to E) (\<lambda>_. once_inv E)"
    by (rule triple_modify) (auto simp: N_def about_to_def once_inv_def)
  have busy: "triple (about_to E) begin_op (\<lambda>_. about_to E) (\<lambda>_. once_inv E)"
    unfolding begin_op_def by (rule triple_modify) (simp add: about_to_def once_inv_def)
  have body: "triple (about_to E) (finalize (catch (prompt_body E i) (\<lambda>e. throw (host_class Session_failed e))) end_op)
      (\<lambda>_. once_inv E) (\<lambda>_. once_inv E)"
  proof (rule triple_finalize [of _ _ "\<lambda>_. once_inv E" "\<lambda>_. once_inv E"])
    show "triple (about_to E) (catch (prompt_body E i) (\<lambda>e. throw (host_class Session_failed e))) (\<lambda>_. once_inv E) (\<lambda>_. once_inv E)"
      by (rule triple_catch [OF prompt_body_once [OF K]]) (rule triple_throw)
    show "triple (once_inv E) end_op (\<lambda>_. once_inv E) (\<lambda>_. once_inv E)"
      "triple (once_inv E) end_op (\<lambda>_. once_inv E) (\<lambda>_. once_inv E)"
      unfolding end_op_def by (rule triple_modify, simp add: once_inv_def)+
  qed
  have start: "triple N (seq (same_event E ev) (\<lambda>_. seq (modify (\<lambda>s. s\<lparr>hs_prompted := True\<rparr>)) (\<lambda>_. seq begin_op (\<lambda>_.
      finalize (catch (prompt_body E i) (\<lambda>e. throw (host_class Session_failed e))) end_op)))) (\<lambda>_. once_inv E) (\<lambda>_. once_inv E)"
    by (rule triple_seq [OF same], rule triple_seq [OF mark], rule triple_seq [OF busy body])
  have rest: "keeps_once E (with_state (\<lambda>s. if hs_prompted s then throw Session_failed
      else seq (same_event E ev) (\<lambda>_. seq (modify (\<lambda>s. s\<lparr>hs_prompted := True\<rparr>)) (\<lambda>_. seq begin_op (\<lambda>_.
        finalize (catch (prompt_body E i) (\<lambda>e. throw (host_class Session_failed e))) end_op)))))"
  proof (unfold holds_def triple_def, intro allI impI)
    fix s assume s: "once_inv E s"
    then have "N s" if "\<not> hs_prompted s" using that by (simp add: N_def once_inv_def)
    then show "case with_state (\<lambda>s. if hs_prompted s then throw Session_failed
      else seq (same_event E ev) (\<lambda>_. seq (modify (\<lambda>s. s\<lparr>hs_prompted := True\<rparr>)) (\<lambda>_. seq begin_op (\<lambda>_.
        finalize (catch (prompt_body E i) (\<lambda>e. throw (host_class Session_failed e))) end_op)))) s of
        (Inl e, s') \<Rightarrow> once_inv E s' | (Inr x, s') \<Rightarrow> once_inv E s'"
      using s start [unfolded triple_def, THEN spec, of s] by (simp add: with_state_def throw_def)
  qed
  show ?thesis unfolding host_prompt_def by (intro holds_seq once_parts [OF K] rest)
qed

text \<open>An append of a turn's marker comes after the settled prompt.\<close>

definition may_append :: "host_env \<Rightarrow> completion_marker \<Rightarrow> hosted \<Rightarrow> bool" where
  "may_append E m s \<longleftrightarrow> once_inv E s \<and> completion_marker_schema m \<and> marker_matches E m = Inr () \<and>
     (cm_completion m = Turn \<longrightarrow> settled_prompt E (hs_log s))"

lemma may_append_snoc:
  assumes "may_append E m s" "prompts_kept E" "\<not> is_prompt_of e" "\<And>x. e = H_append x \<Longrightarrow> x = m"
  shows "may_append E m (s\<lparr>hs_log := hs_log s @ [e]\<rparr>)" "may_append E m (he_others E n (s\<lparr>hs_log := hs_log s @ [e]\<rparr>))"
proof -
  let ?s = "s\<lparr>hs_log := hs_log s @ [e]\<rparr>"
  have t: "turn_guard E (hs_log s) e" using assms(1,4) by (auto simp: turn_guard_def may_append_def)
  have "once_inv E ?s" "once_inv E (he_others E n ?s)"
    using once_snoc [OF _ assms(2,3) t] assms(1) by (simp_all add: may_append_def)
  moreover have "hs_log (he_others E n ?s) = hs_log ?s" using assms(2) unfolding prompts_kept_def logs_kept_def by blast
  ultimately show "may_append E m ?s" "may_append E m (he_others E n ?s)"
    using assms(1) by (simp_all add: may_append_def settled_prompt_snoc)
qed

lemma append_body_once:
  assumes K: "prompts_kept E"
  shows "holds (may_append E m) (append_body E m)"
proof -
  have call: "holds (may_append E m) (hcall E e f)" if "\<not> is_prompt_of e" "\<And>x. e \<noteq> H_append x" for e and f :: "nat \<Rightarrow> error_class + 'z"
    by (rule holds_call, rule may_append_snoc [OF _ K that(1)]) (use that(2) in simp_all)
  have append: "holds (may_append E m) (hnow (H_append m) (he_string E))"
    by (rule holds_now, rule may_append_snoc [OF _ K]) simp_all
  have change: "holds (may_append E m) (modify (\<lambda>s. s\<lparr>hs_reserved := b\<rparr>))" for b
    by (rule holds_modify) (simp add: may_append_def once_inv_def)
  have gate: "holds (may_append E m) (host_current E)" "holds (may_append E m) (sync_session E)"
    unfolding host_current_def sync_session_def by (rule holds_rules call | simp)+
  have job1: "holds (may_append E m) (index_job E (find_or_reserve E m))" and job2: "holds (may_append E m) (index_job E (check_and_publish E m i))" for i
    by (rule holds_job, simp add: may_append_def once_inv_def, rule may_append_snoc [OF _ K], simp_all)+
  show ?thesis
    unfolding append_body_def
    by (intro holds_seq holds_option holds_simple gate job1 job2 change append)
qed

lemma once_append:
  assumes K: "prompts_kept E"
  shows "keeps_once E (appendCompletion E input)"
proof -
  define S where "S m s \<longleftrightarrow> once_inv E s \<and> completion_marker_schema m" for m s
  have schema: "triple (once_inv E) (lift (checked completion_marker_schema input Session_failed)) S (\<lambda>_. once_inv E)"
    by (rule triple_lift) (auto simp: S_def checked_def split: if_splits)
  have matches: "triple (S m) (lift (marker_matches E m)) (\<lambda>_ s. S m s \<and> marker_matches E m = Inr ()) (\<lambda>_. once_inv E)" for m
    by (rule triple_lift) (auto simp: S_def)
  have allowed: "triple (\<lambda>s. S m s \<and> marker_matches E m = Inr ()) (completion_allowed E m) (\<lambda>_. may_append E m) (\<lambda>_. once_inv E)" for m
  proof (unfold triple_def, intro allI impI)
    fix s assume s: "S m s \<and> marker_matches E m = Inr ()"
    have "keeps_once E (completion_allowed E m)"
      unfolding completion_allowed_def by (rule once_steps | rule K | simp)+
    from holds_end [OF this, of s] s have "once_inv E (snd (completion_allowed E m s))" by (simp add: S_def)
    moreover have "may_append E m s'" if "completion_allowed E m s = (Inr u, s')" "once_inv E s'" for u s'
      using that s by (auto simp: completion_allowed_def with_state_def may_append_def S_def once_inv_def ret_def throw_def split: if_splits)
    ultimately show "case completion_allowed E m s of (Inl e, s') \<Rightarrow> once_inv E s' | (Inr x, s') \<Rightarrow> may_append E m s'"
      by (cases "completion_allowed E m s"; cases "fst (completion_allowed E m s)") auto
  qed
  have mark: "triple (may_append E m) (modify (\<lambda>s. s\<lparr>hs_busy := True, hs_reserved := False\<rparr>)) (\<lambda>_. may_append E m) (\<lambda>_. once_inv E)" for m
    by (rule triple_modify) (simp add: may_append_def once_inv_def)
  have failed: "holds (may_append E m) (append_failed E)" for m
    unfolding append_failed_def
    by (intro holds_seq holds_modify holds_simple) (auto simp: invalidate_def may_append_def once_inv_def split: if_splits)
  have body: "triple (may_append E m) (finalize (catch (append_body E m) (\<lambda>_. append_failed E)) end_op) (\<lambda>_. once_inv E) (\<lambda>_. once_inv E)" for m
  proof -
    have "holds (may_append E m) (finalize (catch (append_body E m) (\<lambda>_. append_failed E)) end_op)"
      unfolding end_op_def
      by (intro holds_finalize holds_catch append_body_once [OF K] failed holds_modify) (simp add: may_append_def once_inv_def)
    then show ?thesis unfolding holds_def by (rule triple_weaken) (simp_all add: may_append_def)
  qed
  have tail: "keeps_once E (seq (lift (checked completion_marker_schema input Session_failed)) (\<lambda>m.
     seq (lift (marker_matches E m)) (\<lambda>_. seq (completion_allowed E m) (\<lambda>_.
     seq (modify (\<lambda>s. s\<lparr>hs_busy := True, hs_reserved := False\<rparr>)) (\<lambda>_.
     finalize (catch (append_body E m) (\<lambda>_. append_failed E)) end_op)))))"
    unfolding holds_def
    by (rule triple_seq [OF schema], rule triple_seq [OF matches], rule triple_seq [OF allowed], rule triple_seq [OF mark body])
  show ?thesis unfolding appendCompletion_def by (intro holds_seq once_parts [OF K] tail)
qed

lemma host_step_once:
  assumes K: "prompts_kept E" and "once_inv E s" "\<forall>source. oper \<noteq> Do_open source"
  shows "once_inv E (host_step E oper s)"
  using assms(2,3)
  by (cases oper) (simp_all add: holds_end [OF once_record(2) [OF K]] holds_end [OF once_prompt [OF K]]
      holds_end [OF once_reading(1) [OF K]] holds_end [OF once_reading(2) [OF K]] holds_end [OF once_compact [OF K]]
      holds_end [OF once_append [OF K]] holds_end [OF once_record(1) [OF K]] holds_end [OF once_dispose(1) [OF K]]
      holds_end [OF once_dispose(2) [OF K]])

lemma settled_take:
  assumes "settled_prompt E (take n log)" "n < length log"
  shows "\<exists>p q. p < q \<and> q \<le> n \<and> is_prompt_of (log ! p) \<and> he_unit E p = Inr () \<and> he_outcome E q = (True, False) \<and> he_idle E q"
proof -
  obtain p q where "p < q" "q \<le> length (take n log)" "is_prompt_of (take n log ! p)" "he_unit E p = Inr ()"
    "he_outcome E q = (True, False)" "he_idle E q"
    using assms(1) unfolding settled_prompt_def by blast
  then show ?thesis using assms(2) by (intro exI [of _ p] exI [of _ q]) simp
qed

text \<open>C6: an opened session prompts the model at most once, however often and in whatever order the worker calls
its operations; and a completion marker is written only if it is valid and is that of the claimed event,
and the marker of a turn only after that prompt returned, the session settled without abort and is idle.\<close>

theorem session_prompts_once:
  assumes "prompts_kept E" "hs_log s = []" "\<not> hs_settled s" "\<forall>source. Do_open source \<notin> set ops"
  shows "length (filter is_prompt_of (hs_log (host_run E ops s))) \<le> 1 \<and>
    (\<forall>n m. n < length (hs_log (host_run E ops s)) \<and> hs_log (host_run E ops s) ! n = H_append m \<longrightarrow>
      completion_marker_schema m \<and> marker_matches E m = Inr () \<and>
      (cm_completion m = Turn \<longrightarrow> (\<exists>p q. p < q \<and> q \<le> n \<and> is_prompt_of (hs_log (host_run E ops s) ! p) \<and> he_unit E p = Inr () \<and>
         he_outcome E q = (True, False) \<and> he_idle E q)))"
proof -
  let ?log = "hs_log (host_run E ops s)"
  have "once_inv E s" using assms(2,3) by (simp add: once_inv_def prompts_of_def)
  then have inv: "once_inv E (host_run E ops s)"
    unfolding host_run_def
  proof (rule fold_inv [of ops "once_inv E" "host_step E" s, rotated])
    fix x t assume "x \<in> set ops" "once_inv E t"
    then show "once_inv E (host_step E x t)" using assms(4) by (intro host_step_once [OF assms(1)]) auto
  qed
  have "completion_marker_schema m \<and> marker_matches E m = Inr () \<and>
      (cm_completion m = Turn \<longrightarrow> (\<exists>p q. p < q \<and> q \<le> n \<and> is_prompt_of (?log ! p) \<and> he_unit E p = Inr () \<and>
         he_outcome E q = (True, False) \<and> he_idle E q))"
    if "n < length ?log" "?log ! n = H_append m" for n m
  proof -
    have "turn_guard E (take n ?log) (H_append m)" using guardedD [of "turn_guard E" ?log n] inv that by (simp add: once_inv_def)
    then have t: "completion_marker_schema m \<and> marker_matches E m = Inr () \<and> (cm_completion m = Turn \<longrightarrow> settled_prompt E (take n ?log))"
      by (simp add: turn_guard_def)
    have settled: "\<exists>p q. p < q \<and> q \<le> n \<and> is_prompt_of (?log ! p) \<and> he_unit E p = Inr () \<and> he_outcome E q = (True, False) \<and> he_idle E q"
      if "settled_prompt E (take n ?log)"
      by (rule settled_take [OF that \<open>n < length ?log\<close>])
    show ?thesis
      by (rule conjI [OF conjunct1 [OF t] conjI [OF conjunct1 [OF conjunct2 [OF t]]]], rule impI, rule settled,
          rule mp [OF conjunct2 [OF conjunct2 [OF t]]])
  qed
  moreover have "length (filter is_prompt_of ?log) \<le> 1" using inv by (auto simp: once_inv_def prompts_of_def split: if_splits)
  ultimately show ?thesis by blast
qed

section \<open>An example\<close>

definition demo_outcome :: compaction_outcome where
  "demo_outcome = \<lparr>co_entry = ''x'', co_checkpointId = ''c'', co_checkpoint = undefined, co_compacted = True, co_restored = True\<rparr>"

definition demo_host :: host_env where
  "demo_host = \<lparr>he_work = demo_claimed_work, he_binding = demo_file, he_root = ''/r'', he_journal = True, he_compactor = True,
     he_maxBytes = 4096, he_sensitive = (\<lambda>_. False), he_sha = (\<lambda>_. replicate 64 CHR ''b''), he_index = demo_env, he_others = (\<lambda>_ s. s),
     he_unit = (\<lambda>_. Inr ()), he_bool = (\<lambda>_. Inr True), he_string = (\<lambda>_. Inr ''2''), he_classify = (\<lambda>_. Inr Own_confirmed),
     he_reopen = (\<lambda>_. Inr \<lparr>ro_id = ''s'', ro_file = Some ''/r/a/../b/s.jsonl'', ro_branch = Some []\<rparr>),
     he_compact = (\<lambda>_. Inr demo_outcome), he_create = (\<lambda>_. Inr (''s'', Some ''/r/a/../b/s.jsonl'')),
     he_lstat = (\<lambda>_. Inr Directory), he_mkdir = (\<lambda>_. True), he_failure = (\<lambda>_ e. e), he_idle = (\<lambda>_. True),
     he_outcome = (\<lambda>_. (True, False)), he_branch = (\<lambda>_. Some []), he_usage = (\<lambda>_. None), he_tools = (\<lambda>_. [])\<rparr>"

definition demo_hosted :: hosted where
  "demo_hosted = \<lparr>hs_closed = False, hs_closeTask = None, hs_active = False, hs_opening = False, hs_attachable = False, hs_context = None,
     hs_disposed = False, hs_disposing = False, hs_done = None, hs_busy = False, hs_prompted = False, hs_settled = False,
     hs_reserved = False, hs_connected = False, hs_journaled = False, hs_index = demo_index, hs_log = []\<rparr>"

lemma demo_host_values [simp]:
  "he_work demo_host = demo_claimed_work" "he_binding demo_host = demo_file" "he_root demo_host = ''/r''" "he_journal demo_host = True"
  "he_compactor demo_host = True" "he_index demo_host = demo_env" "he_others demo_host n s = s" "he_unit demo_host n = Inr ()"
  "he_bool demo_host n = Inr True" "he_string demo_host n = Inr ''2''" "he_idle demo_host n = True"
  "he_outcome demo_host n = (True, False)" "he_tools demo_host n = []" "he_lstat demo_host n = Inr Directory"
  "he_reopen demo_host n = Inr \<lparr>ro_id = ''s'', ro_file = Some ''/r/a/../b/s.jsonl'', ro_branch = Some []\<rparr>"
  by (simp_all add: demo_host_def)

lemma demo_host_tame: "logs_kept demo_host" "prompts_kept demo_host"
  by (simp_all add: logs_kept_def prompts_kept_def)

lemma demo_same_event: "same_event demo_host demo_event = ret ()"
  by (rule ext) (simp add: same_event_def seq_def lift_def ret_def fingerprintEvent_def demo_event_schema demo_event_facts checked_def)

lemmas host_exec_defs = hcall_def hnow_def hsee_def host_current_def requireAttached_def available_def begin_op_def end_op_def
  seq_def catch_def finalize_def with_state_def modify_def ret_def throw_def lift_def

lemma demo_prompt_log:
  "hs_log (host_run demo_host [Do_prompt demo_event ''hi''] (demo_hosted\<lparr>hs_context := Some 0\<rparr>)) =
    [H_current (Some 0), H_current (Some 0), H_run_begin, H_prompt ''hi'', H_wait_idle, H_run_end, H_current (Some 0)]"
  by (simp add: host_run_def host_prompt_def demo_same_event prompt_body_def journal_run_def invoke_def host_exec_defs demo_hosted_def)

theorem session_effects_are_gated_witness:
  "he_unit demo_host 1 = Inr () \<and> is_prompt_of (H_prompt ''hi'')"
proof -
  let ?log = "hs_log (host_run demo_host [Do_prompt demo_event ''hi''] (demo_hosted\<lparr>hs_context := Some 0\<rparr>))"
  have "3 < length ?log" "?log ! 3 = H_prompt ''hi''" by (simp_all add: demo_prompt_log)
  with session_effects_are_gated [OF demo_host_tame(1), of "demo_hosted\<lparr>hs_context := Some 0\<rparr>" 3 "[Do_prompt demo_event ''hi'']"]
  show ?thesis by (simp add: demo_hosted_def)
qed

theorem session_prompts_once_witness:
  "length (filter is_prompt_of (hs_log (host_run demo_host [Do_prompt demo_event ''hi'', Do_prompt demo_event ''ho'']
    (demo_hosted\<lparr>hs_context := Some 0\<rparr>)))) \<le> 1"
  using session_prompts_once [OF demo_host_tame(2), of "demo_hosted\<lparr>hs_context := Some 0\<rparr>"
      "[Do_prompt demo_event ''hi'', Do_prompt demo_event ''ho'']"]
  by (simp add: demo_hosted_def)

end
