(* ===== verification/Host_Files.thy ===== *)
theory Host_Files
  imports Host_Spec
begin

text \<open>
  The session file and the completion index: an appended marker is durable and read back before it is
  published, a reservation never outlives the append, and a failed append leaves the file distrusted.
\<close>

section \<open>The index under a running append\<close>

definition file_kept :: "string \<Rightarrow> index \<Rightarrow> index \<Rightarrow> bool" where
  "file_kept f i i' \<longleftrightarrow> (f \<in> ix_pending i' \<longrightarrow> f \<in> ix_pending i) \<and> ix_poisoned i \<subseteq> ix_poisoned i'"

text \<open>
  What else runs in the process keeps the index valid, never forgets a verdict, and reserves the file of
  this port no more; it has its own log and its own variables.
\<close>

definition file_tame :: "host_env \<Rightarrow> bool" where
  "file_tame E \<longleftrightarrow> logs_kept E \<and>
     (\<forall>n s. hs_reserved (he_others E n s) = hs_reserved s \<and>
        file_kept (sb_sessionFile (he_binding E)) (hs_index s) (hs_index (he_others E n s)) \<and>
        (index_inv (he_index E) (hs_index s) \<longrightarrow> index_inv (he_index E) (hs_index (he_others E n s)))) \<and>
     (\<forall>n i. file_kept (sb_sessionFile (he_binding E)) i (ie_queue (he_index E) n i) \<and>
        (index_inv (he_index E) i \<longrightarrow> index_inv (he_index E) (ie_queue (he_index E) n i)))"

lemma file_kept_trans: "file_kept f a b \<Longrightarrow> file_kept f b c \<Longrightarrow> file_kept f a c"
  by (auto simp: file_kept_def)

lemma file_kept_refl [simp]: "file_kept f i i" "file_kept f i (tick i)" "file_kept f i (poison b i)"
  by (auto simp: file_kept_def poison_def)

lemma identity_file: "file_kept f i (snd (identity E b i))"
  using identity_state [of E b i] by auto

lemma fresh_file: "file_kept f i (snd (fresh_read E b i))"
  by (auto simp: fresh_read_def file_kept_def poison_def split: attempt_result.split)

lemma then_do_file:
  assumes "file_kept f i (snd (m i))" "\<And>x j. m i = (Some x, j) \<Longrightarrow> file_kept f j (snd (g x j))"
  shows "file_kept f i (snd (then_do m g i))"
proof -
  obtain r j where m: "m i = (r, j)" by force
  show ?thesis using assms(1) assms(2) [of _ j] file_kept_trans [of f i j] m
    by (cases r) (auto simp: then_do_def)
qed

lemma scan_file_kept: "file_kept f i (snd (scan_and_store E b before i))"
  unfolding scan_and_store_def
proof (rule then_do_file [OF fresh_file], rule then_do_file [OF identity_file])
  fix x j y j'
  show "file_kept f j' (snd ((if \<not> same_file before y then (Some x, j')
      else (Some x, j'\<lparr>ix_cache := hset (sb_sessionFile b) (y, x) (ix_cache j')\<rparr>))))"
    by (simp add: file_kept_def)
qed

lemma evidence_file: "file_kept f i (snd (evidence E b i))"
proof -
  have body: "file_kept f i (snd (evidence_body E b i))" for i
    unfolding evidence_body_def
  proof (rule then_do_file [OF identity_file])
    fix before j
    have hit: "file_kept f j (snd (then_do (identity E b)
        (\<lambda>after. if same_file before after then \<lambda>s. (Some ps, s) else scan_and_store E b before) j))" for ps
      by (rule then_do_file [OF identity_file]) (simp add: scan_file_kept)
    show "file_kept f j (snd (case cached b before j of
        None \<Rightarrow> scan_and_store E b before j
      | Some ps \<Rightarrow> then_do (identity E b) (\<lambda>after. if same_file before after then \<lambda>s. (Some ps, s) else scan_and_store E b before) j))"
      using hit by (simp add: scan_file_kept split: option.split)
  qed
  obtain r j where e: "evidence_body E b i = (r, j)" by force
  have k: "file_kept f i j" using body [of i] e by simp
  then have "file_kept f i (poison b j)" using file_kept_trans [OF k] by simp
  then show ?thesis using k e by (cases r) (auto simp: evidence_def)
qed

section \<open>The phases of an append\<close>

text \<open>\<open>L\<close>: the log at the start; \<open>P\<close>: what was called since.\<close>

definition since :: "host_effect list \<Rightarrow> (host_effect list \<Rightarrow> bool) \<Rightarrow> hosted \<Rightarrow> bool" where
  "since L P s \<longleftrightarrow> (\<exists>l. hs_log s = L @ l \<and> P l)"

definition no_append :: "host_effect list \<Rightarrow> bool" where
  "no_append l \<longleftrightarrow> (\<forall>m. H_append m \<notin> set l)"

definition own_file :: "host_env \<Rightarrow> string" where
  "own_file E = sb_sessionFile (he_binding E)"

definition before_append :: "host_env \<Rightarrow> host_effect list \<Rightarrow> hosted \<Rightarrow> bool" where
  "before_append E L s \<longleftrightarrow> index_inv (he_index E) (hs_index s) \<and> own_file E \<notin> ix_pending (hs_index s) \<and> since L no_append s"

definition not_reserved :: "host_env \<Rightarrow> host_effect list \<Rightarrow> hosted \<Rightarrow> bool" where
  "not_reserved E L s \<longleftrightarrow> before_append E L s \<and> \<not> hs_reserved s"

definition reserved :: "host_env \<Rightarrow> host_effect list \<Rightarrow> (host_effect list \<Rightarrow> bool) \<Rightarrow> hosted \<Rightarrow> bool" where
  "reserved E L P s \<longleftrightarrow> index_inv (he_index E) (hs_index s) \<and> hs_reserved s \<and> since L P s"

lemma others_file:
  assumes "file_tame E"
  shows "hs_log (he_others E n s) = hs_log s" "hs_reserved (he_others E n s) = hs_reserved s"
    "file_kept (own_file E) (hs_index s) (hs_index (he_others E n s))"
    "index_inv (he_index E) (hs_index s) \<Longrightarrow> index_inv (he_index E) (hs_index (he_others E n s))"
  using assms unfolding file_tame_def logs_kept_def own_file_def by blast+

lemma since_snoc: "since L P s \<Longrightarrow> since L (\<lambda>l. \<exists>l0. l = l0 @ [e] \<and> P l0) (s\<lparr>hs_log := hs_log s @ [e]\<rparr>)"
  by (auto simp: since_def)

lemma since_weaken: "since L P s \<Longrightarrow> (\<And>l. P l \<Longrightarrow> Q l) \<Longrightarrow> since L Q s"
  by (auto simp: since_def)

lemma before_snoc:
  assumes "file_tame E" "\<And>m. e \<noteq> H_append m"
  shows "before_append E L s \<Longrightarrow> before_append E L (he_others E n (s\<lparr>hs_log := hs_log s @ [e]\<rparr>))"
    "not_reserved E L s \<Longrightarrow> not_reserved E L (he_others E n (s\<lparr>hs_log := hs_log s @ [e]\<rparr>))"
proof -
  show *: "before_append E L (he_others E n (s\<lparr>hs_log := hs_log s @ [e]\<rparr>))" if "before_append E L s" for s
  proof -
    let ?s = "s\<lparr>hs_log := hs_log s @ [e]\<rparr>"
    have "since L no_append ?s"
      by (rule since_weaken [OF since_snoc [where P = no_append]]) (use that assms(2) [THEN not_sym] in \<open>auto simp: before_append_def no_append_def\<close>)
    then show ?thesis
      using that others_file [OF assms(1), where n = n and s = ?s] by (auto simp: before_append_def file_kept_def since_def)
  qed
  show "not_reserved E L s \<Longrightarrow> not_reserved E L (he_others E n (s\<lparr>hs_log := hs_log s @ [e]\<rparr>))"
    using * [of s] others_file(2) [OF assms(1), where n = n and s = "s\<lparr>hs_log := hs_log s @ [e]\<rparr>"] by (simp add: not_reserved_def)
qed

lemma before_calls:
  assumes "file_tame E" "\<And>m. e \<noteq> H_append m"
  shows "holds (before_append E L) (hcall E e f)" "holds (not_reserved E L) (hcall E e f)"
  by (rule holds_call, erule before_snoc [OF assms])+

lemma reserved_call:
  assumes "file_tame E"
  shows "triple (reserved E L P) (hcall E e f)
      (\<lambda>x. reserved E L (\<lambda>l. \<exists>l0. l = l0 @ [e] \<and> P l0 \<and> f (length L + length l0) = Inr x)) (\<lambda>_. reserved E L (\<lambda>_. True))"
proof (unfold triple_def, intro allI impI)
  fix s assume s: "reserved E L P s"
  obtain l where l: "hs_log s = L @ l" "P l" using s by (auto simp: reserved_def since_def)
  let ?s = "s\<lparr>hs_log := hs_log s @ [e]\<rparr>"
  have i: "index_inv (he_index E) (hs_index ?s)" "hs_reserved ?s" using s by (simp_all add: reserved_def)
  have r: "reserved E L Q (he_others E n ?s)" if "Q (l @ [e])" for Q n
    unfolding reserved_def since_def
    using others_file [OF assms, where n = n and s = ?s] i l(1) that by simp
  let ?Q = "\<lambda>x l. \<exists>l0. l = l0 @ [e] \<and> P l0 \<and> f (length L + length l0) = Inr x"
  show "case hcall E e f s of (Inl e, s') \<Rightarrow> reserved E L (\<lambda>_. True) s' | (Inr x, s') \<Rightarrow> reserved E L (?Q x) s'"
  proof (cases "f (length (hs_log s))")
    case (Inl e')
    then show ?thesis using r [of "\<lambda>_. True" "length (hs_log s)"] by (simp add: hcall_def)
  next
    case (Inr x)
    then have "?Q x (l @ [e])" using l by simp
    from r [of "?Q x", OF this] Inr show ?thesis by (simp add: hcall_def)
  qed
qed

lemma reserved_now:
  "triple (reserved E L P) (hnow e f)
      (\<lambda>x. reserved E L (\<lambda>l. \<exists>l0. l = l0 @ [e] \<and> P l0 \<and> f (length L + length l0) = Inr x)) (\<lambda>_. reserved E L (\<lambda>_. True))"
  by (rule tripleI) (auto simp: hnow_def reserved_def since_def)

lemma reserved_current:
  assumes "file_tame E"
  shows "triple (reserved E L P) (host_current E)
      (\<lambda>_. reserved E L (\<lambda>l. \<exists>l0 c. l = l0 @ [H_current c] \<and> P l0)) (\<lambda>_. reserved E L (\<lambda>_. True))"
proof -
  have "triple (reserved E L P) (hcall E (H_current c) (he_unit E))
      (\<lambda>_. reserved E L (\<lambda>l. \<exists>l0 c. l = l0 @ [H_current c] \<and> P l0)) (\<lambda>_. reserved E L (\<lambda>_. True))" for c
    by (rule triple_weaken [OF reserved_call [OF assms, where P = P]]) (auto simp: reserved_def since_def)
  then show ?thesis by (auto simp: host_current_def triple_def with_state_def throw_def reserved_def since_def)
qed

section \<open>The jobs of an append\<close>

definition read_proof :: "host_env \<Rightarrow> completion_proof \<Rightarrow> bool" where
  "read_proof E p \<longleftrightarrow> (\<exists>n b ps. sb_sessionFile b = own_file E \<and> strict_read (he_index E) n b = Proofs ps \<and> p \<in> set ps)"

lemma evidence_read:
  assumes "index_inv (he_index E) i" "evidence (he_index E) (he_binding E) i = (Some ps, j)" "p \<in> set ps"
  shows "read_proof E p"
  using evidence_Some [OF assms(1,2)] assms(3) unfolding read_proof_def own_file_def by blast

lemma find_member: "find P xs = Some x \<Longrightarrow> x \<in> set xs \<and> P x"
  by (metis find_Some_iff nth_mem)

lemma find_or_reserve_cases:
  assumes "index_inv (he_index E) i" "own_file E \<notin> ix_pending i" "find_or_reserve E m i = (r, j)"
  shows "index_inv (he_index E) j \<and> (r \<noteq> Some None \<longrightarrow> own_file E \<notin> ix_pending j) \<and>
    (\<forall>p. r = Some (Some p) \<longrightarrow> cp_marker p = m \<and> read_proof E p)"
proof -
  obtain q k where ev: "evidence (he_index E) (he_binding E) i = (q, k)" by force
  have k: "index_inv (he_index E) k" "own_file E \<notin> ix_pending k"
    using evidence_inv [OF assms(1)] evidence_file [of "own_file E" i "he_index E" "he_binding E"] assms(2) ev
    by (metis snd_conv, simp add: file_kept_def)
  show ?thesis
  proof (cases q)
    case None
    then show ?thesis using assms(3) k by (simp add: find_or_reserve_def then_do_def ev)
  next
    case (Some before)
    note before = this
    show ?thesis
    proof (cases "find (\<lambda>p. cm_eventId (cp_marker p) = cm_eventId m) before")
      case None
      have inv: "index_inv (he_index E) (snd (reserve (he_binding E) k))" by (rule reserve_inv [OF k(1)])
      show ?thesis
        using assms(3) k inv None before
        by (auto simp: find_or_reserve_def then_do_def ev reserve_def split: if_splits)
    next
      case (Some found)
      have "read_proof E found" using evidence_read [OF assms(1) ev [unfolded before]] find_member [OF Some] by blast
      then show ?thesis using assms(3) k Some before by (auto simp: find_or_reserve_def then_do_def ev split: if_splits)
    qed
  qed
qed

lemma check_and_publish_cases:
  assumes "index_inv (he_index E) i" "check_and_publish E m x i = (r, j)"
  shows "index_inv (he_index E) j \<and>
    (\<forall>p. r = Some p \<longrightarrow> own_file E \<notin> ix_pending j \<and> cp_marker p = m \<and> cp_entryId p = x \<and> read_proof E p)"
proof -
  obtain q k where ev: "evidence (he_index E) (he_binding E) i = (q, k)" by force
  have k: "index_inv (he_index E) k" using evidence_inv [OF assms(1)] ev by (metis snd_conv)
  show ?thesis
  proof (cases q)
    case None
    then show ?thesis using assms(2) k by (simp add: check_and_publish_def then_do_def ev)
  next
    case (Some after)
    note after = this
    show ?thesis
    proof (cases "find (\<lambda>p. cp_entryId p = x) after")
      case None
      then show ?thesis using assms(2) k after by (simp add: check_and_publish_def then_do_def ev)
    next
      case (Some p)
      have "read_proof E p" "cp_entryId p = x"
        using evidence_read [OF assms(1) ev [unfolded after]] find_member [OF Some] by blast+
      moreover have "index_inv (he_index E) (snd (publish (he_binding E) k))" by (rule publish_inv [OF k])
      ultimately show ?thesis
        using assms(2) k Some after
        by (auto simp: check_and_publish_def then_do_def ev publish_def own_file_def split: if_splits)
    qed
  qed
qed

lemma queue_file:
  assumes "file_tame E" "index_inv (he_index E) i"
  shows "index_inv (he_index E) (ie_queue (he_index E) n i)"
    "own_file E \<notin> ix_pending i \<Longrightarrow> own_file E \<notin> ix_pending (ie_queue (he_index E) n i)"
  using assms unfolding file_tame_def file_kept_def own_file_def by blast+

text \<open>A job is a call once its effect on the index is known.\<close>

lemma index_job_call:
  "index_job E job s = (case exclusive (he_index E) job (hs_index s) of (r, i) \<Rightarrow>
     hcall E H_evidence (\<lambda>_. case r of None \<Rightarrow> Inl Session_failed | Some x \<Rightarrow> Inr x) (s\<lparr>hs_index := i\<rparr>))"
  by (simp add: index_job_def)

definition found :: "host_env \<Rightarrow> completion_marker \<Rightarrow> completion_proof \<Rightarrow> bool" where
  "found E m p \<longleftrightarrow> cp_marker p = m \<and> read_proof E p"

lemma find_or_reserve_job:
  assumes T: "file_tame E"
  shows "triple (not_reserved E L) (index_job E (find_or_reserve E m))
     (\<lambda>x s. case x of Some p \<Rightarrow> not_reserved E L s \<and> found E m p
        | None \<Rightarrow> index_inv (he_index E) (hs_index s) \<and> since L no_append s) (\<lambda>_. not_reserved E L)"
proof (unfold triple_def, intro allI impI)
  fix s assume s: "not_reserved E L s"
  let ?q = "ie_queue (he_index E) (ix_step (hs_index s)) (hs_index s)"
  obtain r i where job: "find_or_reserve E m ?q = (r, i)" by force
  have inv: "index_inv (he_index E) (hs_index s)" "own_file E \<notin> ix_pending (hs_index s)" using s by (simp_all add: not_reserved_def before_append_def)
  note c = find_or_reserve_cases [OF queue_file(1) [OF T inv(1)] queue_file(2) [OF T inv] job]
  let ?s = "s\<lparr>hs_index := i, hs_log := hs_log s @ [H_evidence]\<rparr>"
  let ?t = "he_others E (length (hs_log s)) ?s"
  have t: "index_inv (he_index E) (hs_index ?t)" "since L no_append ?t"
    using s c others_file [OF T, where n = "length (hs_log s)" and s = ?s]
    by (auto simp: not_reserved_def before_append_def since_def no_append_def)
  have n: "not_reserved E L ?t" if "r \<noteq> Some None"
  proof -
    have "own_file E \<notin> ix_pending i" using c that by blast
    then have "own_file E \<notin> ix_pending (hs_index ?t)"
      using others_file(3) [OF T, where n = "length (hs_log s)" and s = ?s] by (auto simp: file_kept_def)
    then show ?thesis using t s others_file(2) [OF T, where n = "length (hs_log s)" and s = ?s]
      by (simp add: not_reserved_def before_append_def)
  qed
  have e: "index_job E (find_or_reserve E m) s = ((case r of None \<Rightarrow> Inl Session_failed | Some x \<Rightarrow> Inr x), ?t)"
    by (simp add: index_job_call exclusive_def job hcall_def)
  show "case index_job E (find_or_reserve E m) s of (Inl e, s') \<Rightarrow> not_reserved E L s'
    | (Inr x, s') \<Rightarrow> (case x of Some p \<Rightarrow> not_reserved E L s' \<and> found E m p
        | None \<Rightarrow> index_inv (he_index E) (hs_index s') \<and> since L no_append s')"
  proof (cases r)
    case None
    then show ?thesis using n by (simp add: e)
  next
    case (Some x)
    show ?thesis
    proof (cases x)
      case None
      then show ?thesis using Some t by (simp add: e)
    next
      case (Some p)
      have "r \<noteq> Some None" "found E m p" using \<open>r = Some x\<close> Some c by (simp_all add: found_def)
      then show ?thesis using \<open>r = Some x\<close> Some n by (simp add: e)
    qed
  qed
qed

lemma check_and_publish_job:
  assumes T: "file_tame E"
  shows "triple (reserved E L P) (index_job E (check_and_publish E m x))
     (\<lambda>p s. index_inv (he_index E) (hs_index s) \<and> own_file E \<notin> ix_pending (hs_index s) \<and> found E m p \<and> cp_entryId p = x \<and>
        since L (\<lambda>l. \<exists>l0. l = l0 @ [H_evidence] \<and> P l0) s) (\<lambda>_. reserved E L (\<lambda>_. True))"
proof (unfold triple_def, intro allI impI)
  fix s assume s: "reserved E L P s"
  let ?q = "ie_queue (he_index E) (ix_step (hs_index s)) (hs_index s)"
  obtain r i where job: "check_and_publish E m x ?q = (r, i)" by force
  have inv: "index_inv (he_index E) (hs_index s)" using s by (simp add: reserved_def)
  note c = check_and_publish_cases [OF queue_file(1) [OF T inv] job]
  let ?s = "s\<lparr>hs_index := i, hs_log := hs_log s @ [H_evidence]\<rparr>"
  let ?t = "he_others E (length (hs_log s)) ?s"
  have t: "index_inv (he_index E) (hs_index ?t)" "since L (\<lambda>l. \<exists>l0. l = l0 @ [H_evidence] \<and> P l0) ?t" "hs_reserved ?t"
    using s c others_file [OF T, where n = "length (hs_log s)" and s = ?s]
    by (auto simp: reserved_def since_def)
  have e: "index_job E (check_and_publish E m x) s = ((case r of None \<Rightarrow> Inl Session_failed | Some x \<Rightarrow> Inr x), ?t)"
    by (simp add: index_job_call exclusive_def job hcall_def)
  show "case index_job E (check_and_publish E m x) s of (Inl e, s') \<Rightarrow> reserved E L (\<lambda>_. True) s'
    | (Inr p, s') \<Rightarrow> index_inv (he_index E) (hs_index s') \<and> own_file E \<notin> ix_pending (hs_index s') \<and> found E m p \<and> cp_entryId p = x \<and>
        since L (\<lambda>l. \<exists>l0. l = l0 @ [H_evidence] \<and> P l0) s'"
  proof (cases r)
    case None
    then show ?thesis using t since_weaken [OF t(2), of "\<lambda>_. True"] by (simp add: e reserved_def)
  next
    case (Some p)
    have "own_file E \<notin> ix_pending i" using c Some by blast
    then have "own_file E \<notin> ix_pending (hs_index ?t)"
      using others_file(3) [OF T, where n = "length (hs_log s)" and s = ?s] by (auto simp: file_kept_def)
    then show ?thesis using t Some c by (simp add: e found_def)
  qed
qed

section \<open>The append\<close>

definition durable_append :: "host_env \<Rightarrow> host_effect list \<Rightarrow> completion_marker \<Rightarrow> completion_proof \<Rightarrow> host_effect list \<Rightarrow> bool" where
  "durable_append E L m p l \<longleftrightarrow> (\<exists>pre c1 c2. l = pre @ [H_append m, H_current c1, H_sync, H_current c2, H_evidence] \<and> no_append pre \<and>
     he_string E (length L + length pre) = Inr (cp_entryId p) \<and> he_unit E (length L + length pre + 2) = Inr ())"

definition appended :: "host_env \<Rightarrow> host_effect list \<Rightarrow> completion_marker \<Rightarrow> completion_proof \<Rightarrow> hosted \<Rightarrow> bool" where
  "appended E L m p s \<longleftrightarrow> own_file E \<notin> ix_pending (hs_index s) \<and> found E m p \<and>
     since L (\<lambda>l. no_append l \<or> durable_append E L m p l) s"

definition not_appended :: "host_env \<Rightarrow> host_effect list \<Rightarrow> hosted \<Rightarrow> bool" where
  "not_appended E L s \<longleftrightarrow> own_file E \<notin> ix_pending (hs_index s) \<and>
     since L (\<lambda>l. no_append l \<or> own_file E \<in> ix_poisoned (hs_index s)) s"

definition open_append :: "host_env \<Rightarrow> host_effect list \<Rightarrow> hosted \<Rightarrow> bool" where
  "open_append E L s \<longleftrightarrow> not_reserved E L s \<or> reserved E L (\<lambda>_. True) s"

lemma append_body_ends:
  assumes T: "file_tame E"
  shows "triple (not_reserved E L) (append_body E m) (\<lambda>p. appended E L m p) (\<lambda>_. open_append E L)"
proof -
  have current: "triple (not_reserved E L) (host_current E) (\<lambda>_. not_reserved E L) (\<lambda>_. open_append E L)"
  proof -
    have call: "holds (not_reserved E L) (hcall E (H_current c) (he_unit E))" for c
      by (rule before_calls(2) [OF T]) simp
    have "holds (not_reserved E L) (host_current E)"
      unfolding host_current_def by (rule holds_rules call | simp)+
    then show ?thesis unfolding holds_def by (rule triple_weaken) (unfold open_append_def, (assumption | erule disjI1)+)
  qed
  have job: "triple (not_reserved E L) (index_job E (find_or_reserve E m))
     (\<lambda>x s. case x of Some p \<Rightarrow> not_reserved E L s \<and> found E m p
        | None \<Rightarrow> index_inv (he_index E) (hs_index s) \<and> since L no_append s) (\<lambda>_. open_append E L)"
    by (rule triple_weaken [OF find_or_reserve_job [OF T, where L = L and m = m]]) (simp_all add: open_append_def)
  have r: "triple P n Q (\<lambda>_. open_append E L)" if "triple P n Q (\<lambda>_. reserved E L (\<lambda>_. True))" for P n and Q :: "'z \<Rightarrow> hosted \<Rightarrow> bool"
    by (rule triple_weaken [OF that]) (simp_all add: open_append_def)
  have mark: "triple (\<lambda>s. index_inv (he_index E) (hs_index s) \<and> since L no_append s) (modify (\<lambda>s. s\<lparr>hs_reserved := True\<rparr>))
      (\<lambda>_. reserved E L no_append) (\<lambda>_. open_append E L)"
    by (rule triple_modify) (simp add: reserved_def since_def)
  have again: "triple (reserved E L no_append) (host_current E) (\<lambda>_. reserved E L no_append) (\<lambda>_. open_append E L)"
    by (rule r, rule triple_weaken [OF reserved_current [OF T, where L = L and P = no_append]]) (auto simp: reserved_def since_def no_append_def)
  have put: "triple (reserved E L no_append) (hnow (H_append m) (he_string E))
      (\<lambda>i. reserved E L (\<lambda>l. \<exists>l0. l = l0 @ [H_append m] \<and> no_append l0 \<and> he_string E (length L + length l0) = Inr i)) (\<lambda>_. open_append E L)"
    by (rule r, rule reserved_now)
  have sync: "triple (reserved E L P) (sync_session E)
      (\<lambda>x. reserved E L (\<lambda>l. \<exists>l1. l = l1 @ [H_sync] \<and> (\<exists>l0 c. l1 = l0 @ [H_current c] \<and> P l0) \<and> he_unit E (length L + length l1) = Inr x))
      (\<lambda>_. open_append E L)" for P
    unfolding sync_session_def by (rule r, rule triple_seq [OF reserved_current [OF T]], rule reserved_call [OF T])
  have gate: "triple (reserved E L P) (host_current E) (\<lambda>_. reserved E L (\<lambda>l. \<exists>l0 c. l = l0 @ [H_current c] \<and> P l0)) (\<lambda>_. open_append E L)" for P
    by (rule r, rule reserved_current [OF T])
  define W where "W i u l \<longleftrightarrow> (\<exists>l0 c. l = l0 @ [H_current c] \<and> (\<exists>l1. l0 = l1 @ [H_sync] \<and> (\<exists>l2 c. l1 = l2 @ [H_current c] \<and>
      (\<exists>pre. l2 = pre @ [H_append m] \<and> no_append pre \<and> he_string E (length L + length pre) = Inr i)) \<and>
      he_unit E (length L + length l1) = Inr u))" for i u l
  have done_append: "triple (reserved E L (W i u)) (seq (index_job E (check_and_publish E m i)) (\<lambda>p. seq (modify (\<lambda>s. s\<lparr>hs_reserved := False\<rparr>)) (\<lambda>_. ret p)))
      (\<lambda>p. appended E L m p) (\<lambda>_. open_append E L)" for i u
  proof -
    have shape: "durable_append E L m p (l @ [H_evidence])" if "W i u l" "cp_entryId p = i" for l p
      using that unfolding W_def
    proof (elim exE conjE)
      fix l0 c l1 l2 c2 pre
      assume "cp_entryId p = i" "l = l0 @ [H_current c]" "l0 = l1 @ [H_sync]" "he_unit E (length L + length l1) = Inr u"
        "l1 = l2 @ [H_current c2]" "l2 = pre @ [H_append m]" "no_append pre" "he_string E (length L + length pre) = Inr i"
      then have "l @ [H_evidence] = pre @ [H_append m, H_current c2, H_sync, H_current c, H_evidence] \<and> no_append pre \<and>
          he_string E (length L + length pre) = Inr (cp_entryId p) \<and> he_unit E (length L + length pre + 2) = Inr ()"
        by (simp add: ac_simps)
      then show ?thesis unfolding durable_append_def by (intro exI)
    qed
    have last: "triple (\<lambda>s. index_inv (he_index E) (hs_index s) \<and> own_file E \<notin> ix_pending (hs_index s) \<and> found E m p \<and> cp_entryId p = i \<and>
        since L (\<lambda>l. \<exists>l0. l = l0 @ [H_evidence] \<and> W i u l0) s) (seq (modify (\<lambda>s. s\<lparr>hs_reserved := False\<rparr>)) (\<lambda>_. ret p))
        (\<lambda>p. appended E L m p) (\<lambda>_. open_append E L)" for p
    proof (rule triple_seq [OF triple_modify [where Q = "\<lambda>_. appended E L m p"] triple_ret])
      fix s assume s: "index_inv (he_index E) (hs_index s) \<and> own_file E \<notin> ix_pending (hs_index s) \<and> found E m p \<and> cp_entryId p = i \<and>
        since L (\<lambda>l. \<exists>l0. l = l0 @ [H_evidence] \<and> W i u l0) s"
      have "since L (\<lambda>l. no_append l \<or> durable_append E L m p l) s"
      proof (rule since_weaken)
        show "since L (\<lambda>l. \<exists>l0. l = l0 @ [H_evidence] \<and> W i u l0) s" using s by blast
        fix l assume "\<exists>l0. l = l0 @ [H_evidence] \<and> W i u l0"
        then show "no_append l \<or> durable_append E L m p l" using shape s by blast
      qed
      then show "appended E L m p (s\<lparr>hs_reserved := False\<rparr>)" using s by (simp add: appended_def since_def)
    qed
    show ?thesis by (rule triple_seq [OF r [OF check_and_publish_job [OF T]]], rule last)
  qed
  have rest: "triple (\<lambda>s. index_inv (he_index E) (hs_index s) \<and> since L no_append s)
     (seq (modify (\<lambda>s. s\<lparr>hs_reserved := True\<rparr>)) (\<lambda>_.
         seq (host_current E) (\<lambda>_.
         seq (hnow (H_append m) (he_string E)) (\<lambda>i.
         seq (sync_session E) (\<lambda>_.
         seq (host_current E) (\<lambda>_.
         seq (index_job E (check_and_publish E m i)) (\<lambda>p.
         seq (modify (\<lambda>s. s\<lparr>hs_reserved := False\<rparr>)) (\<lambda>_. ret p)))))))) (\<lambda>p. appended E L m p) (\<lambda>_. open_append E L)"
    by (rule triple_seq [OF mark], rule triple_seq [OF again], rule triple_seq [OF put], rule triple_seq [OF sync], rule triple_seq [OF gate],
        rule done_append [unfolded W_def])
  show ?thesis
    unfolding append_body_def
  proof (rule triple_seq [OF current], rule triple_seq [OF job])
    fix x
    show "triple (\<lambda>s. case x of None \<Rightarrow> index_inv (he_index E) (hs_index s) \<and> since L no_append s
        | Some p \<Rightarrow> not_reserved E L s \<and> found E m p)
      (case x of None \<Rightarrow> seq (modify (\<lambda>s. s\<lparr>hs_reserved := True\<rparr>)) (\<lambda>_. seq (host_current E) (\<lambda>_. seq (hnow (H_append m) (he_string E)) (\<lambda>i.
         seq (sync_session E) (\<lambda>_. seq (host_current E) (\<lambda>_. seq (index_job E (check_and_publish E m i)) (\<lambda>p.
         seq (modify (\<lambda>s. s\<lparr>hs_reserved := False\<rparr>)) (\<lambda>_. ret p)))))))
       | Some p \<Rightarrow> ret p) (\<lambda>p. appended E L m p) (\<lambda>_. open_append E L)"
      by (cases x) (use rest in \<open>simp, auto intro!: triple_ret simp: appended_def not_reserved_def before_append_def since_def\<close>)
  qed
qed

lemma append_failed_ends:
  "triple (open_append E L) (append_failed E :: 'a host_exec) Q (\<lambda>_. not_appended E L)"
  unfolding append_failed_def
proof (rule triple_seq [where Q = "\<lambda>_. not_appended E L"])
  show "triple (open_append E L) (modify (\<lambda>s. if hs_reserved s then invalidate E (s\<lparr>hs_reserved := False\<rparr>) else s))
      (\<lambda>_. not_appended E L) (\<lambda>_. not_appended E L)"
    by (rule triple_modify)
      (auto simp: open_append_def not_reserved_def before_append_def reserved_def not_appended_def since_def invalidate_def poison_def own_file_def)
qed (simp add: triple_throw)

text \<open>C15: what a completion leaves behind: when it is answered, the answer is the proof of exactly this marker as a strict
read of the session file returned it, and if the marker was written now, the write was followed by a sync that
succeeded and by that read; when it fails, a file that was written is distrusted for good. In both cases the
file is no longer reserved.\<close>

theorem append_is_durable:
  assumes "file_tame E" "index_inv (he_index E) (hs_index s)" "sb_sessionFile (he_binding E) \<notin> ix_pending (hs_index s)"
    "appendCompletion E m s = (r, s')"
  shows "\<exists>new. hs_log s' = hs_log s @ new \<and> sb_sessionFile (he_binding E) \<notin> ix_pending (hs_index s') \<and>
    (case r of
       Inl e \<Rightarrow> (\<exists>x. H_append x \<in> set new) \<longrightarrow> sb_sessionFile (he_binding E) \<in> ix_poisoned (hs_index s')
     | Inr p \<Rightarrow> cp_marker p = m \<and>
         (\<exists>n b ps. sb_sessionFile b = sb_sessionFile (he_binding E) \<and> strict_read (he_index E) n b = Proofs ps \<and> p \<in> set ps) \<and>
         ((\<exists>x. H_append x \<in> set new) \<longrightarrow>
            (\<exists>pre c1 c2. new = pre @ [H_append m, H_current c1, H_sync, H_current c2, H_evidence] \<and>
               he_string E (length (hs_log s) + length pre) = Inr (cp_entryId p) \<and>
               he_unit E (length (hs_log s) + length pre + 2) = Inr ())))"
proof -
  define L where "L = hs_log s"
  have start: "before_append E L s" using assms(2,3) by (simp add: before_append_def L_def since_def no_append_def own_file_def)
  have keep: "holds (before_append E L) (hcall E e f)" if "\<And>x. e \<noteq> H_append x" for e and f :: "nat \<Rightarrow> error_class + 'z"
    by (rule before_calls(1) [OF assms(1) that])
  have first: "holds (before_append E L) (requireAttached E)" "holds (before_append E L) (available E Session_failed)"
    "holds (before_append E L) (completion_allowed E x)" for x
    unfolding requireAttached_def available_def completion_allowed_def host_current_def by (rule holds_rules keep | simp)+
  have weak: "triple (before_append E L) n (\<lambda>_. before_append E L) (\<lambda>_. not_appended E L)" if "holds (before_append E L) n" for n :: "'z host_exec"
    by (rule triple_weaken [OF that [unfolded holds_def]]) (auto simp: before_append_def not_appended_def since_def)
  have mark: "triple (before_append E L) (modify (\<lambda>s. s\<lparr>hs_busy := True, hs_reserved := False\<rparr>)) (\<lambda>_. not_reserved E L) (\<lambda>_. not_appended E L)"
    by (rule triple_modify) (simp add: before_append_def not_reserved_def since_def)
  have body: "triple (not_reserved E L) (finalize (catch (append_body E x) (\<lambda>_. append_failed E)) end_op)
      (\<lambda>p. appended E L x p) (\<lambda>_. not_appended E L)" for x
    unfolding end_op_def
    by (rule triple_finalize, rule triple_catch, rule append_body_ends [OF assms(1)], rule append_failed_ends)
      (rule triple_modify, simp add: appended_def not_appended_def since_def)+
  have all: "triple (before_append E L) (appendCompletion E m) (\<lambda>p. appended E L m p) (\<lambda>_. not_appended E L)"
    unfolding appendCompletion_def
  proof (rule triple_seq [OF weak [OF first(1)]], rule triple_seq [OF weak [OF first(2)]])
    have schema: "triple (before_append E L) (lift (checked completion_marker_schema m Session_failed))
        (\<lambda>x s. before_append E L s \<and> x = m) (\<lambda>_. not_appended E L)"
      by (rule triple_lift) (auto simp: checked_def before_append_def not_appended_def since_def split: if_splits)
    have matches: "triple (\<lambda>s. before_append E L s \<and> x = m) (lift (marker_matches E x)) (\<lambda>_ s. before_append E L s \<and> x = m) (\<lambda>_. not_appended E L)" for x
      by (rule triple_lift) (auto simp: before_append_def not_appended_def since_def)
    have tail: "triple (\<lambda>s. before_append E L s \<and> x = m) (seq (completion_allowed E x) (\<lambda>_.
        seq (modify (\<lambda>s. s\<lparr>hs_busy := True, hs_reserved := False\<rparr>)) (\<lambda>_.
        finalize (catch (append_body E x) (\<lambda>_. append_failed E)) end_op))) (\<lambda>p. appended E L m p) (\<lambda>_. not_appended E L)" for x
    proof (cases "x = m")
      case True
      show ?thesis
        unfolding True
        by (rule triple_weaken [OF triple_seq [OF weak [OF first(3) [of m]] triple_seq [OF mark body [of m]]]]) simp_all
    qed (simp add: triple_def)
    show "triple (before_append E L) (seq (lift (checked completion_marker_schema m Session_failed)) (\<lambda>m.
       seq (lift (marker_matches E m)) (\<lambda>_. seq (completion_allowed E m) (\<lambda>_.
       seq (modify (\<lambda>s. s\<lparr>hs_busy := True, hs_reserved := False\<rparr>)) (\<lambda>_.
       finalize (catch (append_body E m) (\<lambda>_. append_failed E)) end_op))))) (\<lambda>p. appended E L m p) (\<lambda>_. not_appended E L)"
      by (rule triple_seq [OF schema], rule triple_seq [OF matches], rule tail)
  qed
  show ?thesis
  proof (cases r)
    case (Inl e)
    have "not_appended E L s'" using triple_Inl [OF all start] assms(4) Inl by blast
    then show ?thesis using Inl by (auto simp: not_appended_def since_def no_append_def own_file_def L_def)
  next
    case (Inr p)
    have a: "appended E L m p s'" using triple_Inr [OF all start] assms(4) Inr by blast
    then obtain new where new: "hs_log s' = hs_log s @ new" "no_append new \<or> durable_append E (hs_log s) m p new"
      by (auto simp: appended_def since_def L_def)
    then have "(\<exists>x. H_append x \<in> set new) \<longrightarrow>
            (\<exists>pre c1 c2. new = pre @ [H_append m, H_current c1, H_sync, H_current c2, H_evidence] \<and>
               he_string E (length (hs_log s) + length pre) = Inr (cp_entryId p) \<and>
               he_unit E (length (hs_log s) + length pre + 2) = Inr ())"
      unfolding durable_append_def no_append_def by blast
    then show ?thesis using a new(1) Inr unfolding appended_def found_def read_proof_def own_file_def by (intro exI [of _ new]) simp
  qed
qed

section \<open>The end of a port\<close>

text \<open>Other handlers do not undo a disposal.\<close>

definition disposal_kept :: "host_env \<Rightarrow> bool" where
  "disposal_kept E \<longleftrightarrow> logs_kept E \<and> (\<forall>n s. hs_disposing s \<longrightarrow> hs_disposing (he_others E n s))"

fun port_op :: "host_op \<Rightarrow> bool" where
  "port_op (Do_open source) = False"
| "port_op (Do_record v) = False"
| "port_op Do_close = False"
| "port_op oper = True"

lemma disposed_port:
  assumes "hs_disposing s" "\<not> hs_attachable s" "hs_done s = Some r" "port_op oper"
  shows "host_step E oper s = s"
  using assms
  by (cases oper) (simp_all add: attach_host_def host_prompt_def host_history_def reconcileCheckpoint_def host_compact_def
      appendCompletion_def requireAttached_def dispose_host_def with_state_def throw_def lift_def seq_def)

text \<open>An attempt that another one follows whatever its outcome.\<close>

lemma tried_call: "tried (hcall E e f) s = (Inr (f (length (hs_log s)) \<noteq> Inr ()), snd (hcall E e f s))"
  by (simp add: tried_def catch_def seq_def hcall_def ret_def split: sum.split)

text \<open>C23: the end of a session port: a disposal waits for the running operation and for the runtime to be idle, then
disposes of the runtime and of the journal's binding, each whatever failed before; it reports success exactly
if all of it succeeded; and afterwards no operation of the port does anything, a second disposal included.\<close>

theorem disposal_is_final:
  assumes "disposal_kept E" "hs_done s = None" "dispose_host E s = (r, s')"
  shows "hs_log s' = hs_log s @ [H_operation, H_wait_idle, H_dispose_runtime] @ (if he_journal E then [H_dispose_journal] else []) \<and>
    (r = Inr () \<longleftrightarrow> he_unit E (length (hs_log s) + 1) = Inr () \<and> he_unit E (length (hs_log s) + 2) = Inr () \<and>
       (he_journal E \<longrightarrow> he_unit E (length (hs_log s) + 3) = Inr ())) \<and>
    \<not> hs_active s' \<and> (\<forall>oper. port_op oper \<longrightarrow> host_step E oper s' = s') \<and> fst (dispose_host E s') = r"
proof -
  have log: "hs_log (he_others E n t) = hs_log t" and keep: "hs_disposing t \<Longrightarrow> hs_disposing (he_others E n t)" for n t
    using assms(1) unfolding disposal_kept_def logs_kept_def by blast+
  have run: "hs_log s' = hs_log s @ [H_operation, H_wait_idle, H_dispose_runtime] @ (if he_journal E then [H_dispose_journal] else []) \<and>
    (r = Inr () \<longleftrightarrow> he_unit E (length (hs_log s) + 1) = Inr () \<and> he_unit E (length (hs_log s) + 2) = Inr () \<and>
       (he_journal E \<longrightarrow> he_unit E (length (hs_log s) + 3) = Inr ())) \<and>
    \<not> hs_active s' \<and> \<not> hs_attachable s' \<and> hs_disposing s' \<and> hs_done s' = Some r"
    using assms(3)
    by (auto simp: dispose_host_def assms(2) dispose_body_def await_operation_def with_state_def seq_def modify_def hcall_def tried_call
        ret_def lift_def Let_def log keep numeral_3_eq_3 split: if_splits)
  have "fst (dispose_host E s') = r" using run by (simp add: dispose_host_def with_state_def lift_def)
  then show ?thesis using run disposed_port [of s' r] by blast
qed

section \<open>An example\<close>

text \<open>A session that holds its header and its binding first, and the marker after the append.\<close>

definition bound_text :: string where
  "bound_text = [CHR ''h'', CHR 0x0A, CHR ''b'', CHR 0x0A]"

definition bound_snapshot :: snapshot where
  "bound_snapshot = demo_snapshot\<lparr>sn_before := Some (demo_stat\<lparr>fs_size := 4\<rparr>), sn_reads := [Some bound_text],
     sn_after := Some (demo_stat\<lparr>fs_size := 4\<rparr>), sn_named := Some (demo_stat\<lparr>fs_size := 4\<rparr>),
     sn_durable := Some (demo_stat\<lparr>fs_size := 4\<rparr>), sn_durableName := Some (demo_stat\<lparr>fs_size := 4\<rparr>)\<rparr>"

definition append_index :: index_env where
  "append_index = demo_env\<lparr>ie_snapshots := (\<lambda>n _ _. if n = 1 then bound_snapshot else demo_snapshot)\<rparr>"

definition append_event :: notification where
  "append_event = demo_event\<lparr>event_id := replicate 32 CHR ''a''\<rparr>"

definition append_host :: host_env where
  "append_host = demo_host\<lparr>he_index := append_index, he_work := demo_claimed_work\<lparr>cw_event := append_event\<rparr>\<rparr>"

lemma bound_scan: "scan_text demo_parse demo_file bound_text = Some []"
proof -
  have "feed (consume demo_parse demo_file) bound_text scan_start = Some ('''', scan_start\<lparr>sc_header := True, sc_bound := True, sc_ids := [''1'']\<rparr>)"
    by (simp add: bound_text_def feed.simps demo_header demo_bind)
  moreover have "utf8_ok bound_text" by (simp add: bound_text_def utf8_ok.simps in_range_def)
  ultimately show ?thesis by (simp add: scan_text_def scan_start_def)
qed

lemma bound_read: "readEvidence demo_parse ''/r'' demo_file True (\<lambda>_. bound_snapshot) = Proofs []"
proof -
  have "read_loop (consume demo_parse demo_file) 4 [Some bound_text] [] scan_start = feed (consume demo_parse demo_file) bound_text scan_start"
    using read_loop_feed [OF _ feed_no_newline, of 4 "[Some bound_text]" "[]" "consume demo_parse demo_file" scan_start]
    by (simp add: whole_reading_def bound_text_def)
  moreover have "bytes_read 4 [Some bound_text] = bound_text"
    using bytes_read_whole [of 4 "[Some bound_text]"] by (simp add: whole_reading_def bound_text_def)
  ultimately have "scan_file demo_parse demo_file 4 [Some bound_text] = scan_text demo_parse demo_file bound_text"
    unfolding scan_file_def scan_text_def by (simp only:)
  then have "read_attempt demo_parse demo_file bound_snapshot = Proofs []"
    using bound_scan by (simp add: read_attempt_def bound_snapshot_def demo_snapshot_def demo_stat_def same_generation_def same_file_def)
  then show ?thesis by (simp add: readEvidence_def demo_path numeral_eq_Suc)
qed

lemma append_reads: "strict_read append_index 1 demo_file = Proofs []" "n \<noteq> 1 \<Longrightarrow> strict_read append_index n demo_file = Proofs demo_proofs"
  using bound_read demo_read by (simp_all add: strict_read_def append_index_def demo_env_def demo_proofs_def)

lemma append_identity: "identity append_index demo_file i = (Some demo_stat, tick i)"
  using demo_path by (simp add: identity_def append_index_def demo_env_def demo_stat_def)

lemma append_evidence:
  assumes "ix_poisoned i = {}" "ix_cache i = []" "strict_read append_index (Suc (ix_step i)) demo_file = Proofs ps"
  shows "evidence append_index demo_file i = (Some ps, i\<lparr>ix_cache := [(sb_sessionFile demo_file, demo_stat, ps)], ix_step := ix_step i + 3\<rparr>)"
  using assms by (simp add: evidence_def evidence_body_def then_do_def append_identity scan_and_store_def fresh_read_def cached_def
      same_file_def hset_def tick_def)

definition reserved_index :: index where
  "reserved_index = demo_index\<lparr>ix_pending := {sb_sessionFile demo_file}, ix_step := 3\<rparr>"

lemma append_reserves: "find_or_reserve append_host demo_marker demo_index = (Some None, reserved_index)"
proof -
  have "evidence append_index demo_file demo_index =
      (Some [], demo_index\<lparr>ix_cache := [(sb_sessionFile demo_file, demo_stat, [])], ix_step := ix_step demo_index + 3\<rparr>)"
    by (rule append_evidence) (simp_all add: demo_index_def append_reads(1) [simplified])
  then show ?thesis
    by (simp add: find_or_reserve_def then_do_def append_host_def reserve_def demo_index_def reserved_index_def hdel_def)
qed

lemma append_publishes: "fst (check_and_publish append_host demo_marker ''2'' reserved_index) = Some (hd demo_proofs)"
proof -
  have "evidence append_index demo_file reserved_index =
      (Some demo_proofs, reserved_index\<lparr>ix_cache := [(sb_sessionFile demo_file, demo_stat, demo_proofs)], ix_step := ix_step reserved_index + 3\<rparr>)"
    by (rule append_evidence) (simp_all add: reserved_index_def demo_index_def append_reads(2))
  then show ?thesis
    by (simp add: check_and_publish_def then_do_def append_host_def publish_def demo_index_def reserved_index_def demo_proofs_def)
qed

lemma append_event_schema: "notification_schema append_event"
  by (simp add: notification_schema_def append_event_def demo_event_def opaque_id_def is_hex_def is_digit_def message_id_schema_def
      timestamp_schema_def sequence_schema_def max_safe_def participant_jid_def jid_with_def jid_user_def
      jid_server_def group_jid_def match_timestamp_def take_digits_def skip_fraction_def match_zone_def dig_def list_all_iff)

lemma append_matches: "marker_matches append_host demo_marker = Inr ()"
  using append_event_schema
  by (simp add: marker_matches_def append_host_def Let_def demo_marker_def fingerprintEvent_def checked_def fingerprint_digest_def
      demo_host_def guard_def append_event_def demo_event_def)

definition append_start :: hosted where
  "append_start = demo_hosted\<lparr>hs_context := Some 0, hs_settled := True\<rparr>"

lemma append_host_values [simp]:
  "he_binding append_host = demo_file" "he_index append_host = append_index" "he_others append_host n s = s" "he_unit append_host n = Inr ()"
  "he_string append_host n = Inr ''2''" "he_idle append_host n = True" "ie_queue append_index n i = i"
  by (simp_all add: append_host_def append_index_def demo_env_def)

lemma append_index_jobs:
  "hs_index s = demo_index \<Longrightarrow> index_job append_host (find_or_reserve append_host demo_marker) s =
     (Inr None, s\<lparr>hs_index := reserved_index, hs_log := hs_log s @ [H_evidence]\<rparr>)"
  "hs_index s = reserved_index \<Longrightarrow> index_job append_host (check_and_publish append_host demo_marker ''2'') s =
     (Inr (hd demo_proofs), s\<lparr>hs_index := snd (check_and_publish append_host demo_marker ''2'' reserved_index), hs_log := hs_log s @ [H_evidence]\<rparr>)"
  using append_reserves append_publishes
  by (auto simp: index_job_def exclusive_def hcall_def split: prod.split)

lemma append_runs:
  "\<exists>s'. appendCompletion append_host demo_marker append_start = (Inr (hd demo_proofs), s') \<and> H_append demo_marker \<in> set (hs_log s')"
  using demo_marker_schema append_matches
  by (simp add: appendCompletion_def append_body_def completion_allowed_def sync_session_def append_start_def demo_hosted_def
      host_exec_defs append_index_jobs checked_def demo_marker_def [THEN arg_cong [where f = cm_completion]])

theorem append_is_durable_witness:
  "\<exists>pre c1 c2. hs_log (snd (appendCompletion append_host demo_marker append_start)) =
     pre @ [H_append demo_marker, H_current c1, H_sync, H_current c2, H_evidence]"
proof -
  obtain s' where run: "appendCompletion append_host demo_marker append_start = (Inr (hd demo_proofs), s')" "H_append demo_marker \<in> set (hs_log s')"
    using append_runs by blast
  have "file_tame append_host"
    by (auto simp: file_tame_def logs_kept_def append_index_def demo_env_def)
  moreover have "index_inv append_index (hs_index append_start)" "sb_sessionFile demo_file \<notin> ix_pending (hs_index append_start)"
    by (simp_all add: append_start_def demo_hosted_def index_inv_def demo_index_def)
  moreover have "hs_log append_start = []" by (simp add: append_start_def demo_hosted_def)
  ultimately show ?thesis using append_is_durable [OF _ _ _ run(1)] run by auto
qed

theorem disposal_is_final_witness:
  "hs_log (snd (dispose_host demo_host demo_hosted)) = [H_operation, H_wait_idle, H_dispose_runtime, H_dispose_journal]"
proof -
  obtain r s' where run: "dispose_host demo_host demo_hosted = (r, s')" by force
  have "disposal_kept demo_host" "hs_done demo_hosted = None" "hs_log demo_hosted = []"
    by (simp_all add: disposal_kept_def demo_host_tame demo_hosted_def)
  then show ?thesis using disposal_is_final [OF _ _ run] run by simp
qed

end
