(* ===== verification/Policy.thy ===== *)
theory Policy
  imports Config
begin

text \<open>
  The prompt policy (\<open>src/session-controller/src/pi/prompt-policy.ts\<close>): the operator's policy file is split
  into the system text and the event template, and the template is rendered for an event by one pass that
  puts a JSON string literal for every slot. Texts are UTF-8; \<open>\<backslash>s\<close> of a regular expression is the white space
  that \<open>trim\<close> removes. Rendered texts are shown to determine the values of their slots.
\<close>

section \<open>Slots\<close>

definition policy_slots :: "string list" where
  "policy_slots = [''canonical_chat_jid'', ''chat_jid'', ''sender_jid'', ''sender_alt_jid'', ''message_id'', ''event_id'',
     ''chat_sequence'', ''origin'']"

definition word_char :: "char \<Rightarrow> bool" where
  "word_char c \<longleftrightarrow> path_char c \<and> c \<noteq> CHR ''-''"

text \<open>What follows two opening braces: white space, a word, white space and two closing braces.\<close>

definition slot_at :: "string \<Rightarrow> (string \<times> string) option" where
  "slot_at s =
     (let t = trim_start s; name = takeWhile word_char t; rest = trim_start (dropWhile word_char t) in
      if name \<noteq> [] \<and> take 2 rest = [CHR 0x7D, CHR 0x7D] then Some (name, drop 2 rest) else None)"

definition opens_slot :: "string \<Rightarrow> bool" where
  "opens_slot s \<longleftrightarrow> take 2 s = [CHR 0x7B, CHR 0x7B]"

text \<open>No opening that is not one of a known slot.\<close>

fun slots_known :: "string \<Rightarrow> bool" where
  "slots_known [] = True"
| "slots_known (c # s) =
     ((opens_slot (c # s) \<longrightarrow> (case slot_at (drop 1 s) of Some (name, _) \<Rightarrow> name \<in> set policy_slots | None \<Rightarrow> False)) \<and> slots_known s)"

definition slot_value :: "notification \<Rightarrow> string \<Rightarrow> string" where
  "slot_value event name =
     (if name = ''canonical_chat_jid'' then canonical_chat_jid event
      else if name = ''chat_jid'' then chat_jid event
      else if name = ''sender_jid'' then sender_jid event
      else if name = ''sender_alt_jid'' then (case sender_alt_jid event of None \<Rightarrow> '''' | Some j \<Rightarrow> j)
      else if name = ''message_id'' then message_id event
      else if name = ''event_id'' then event_id event
      else if name = ''chat_sequence'' then show_nat (chat_sequence event)
      else if is_from_me event then ''own-account-manual'' else ''participant'')"

lemma trim_start_length: "length (trim_start s) \<le> length s"
  by (induction s rule: trim_start.induct) auto

lemma slot_at_shorter: "slot_at s = Some (name, rest) \<Longrightarrow> length rest \<le> length s"
  using trim_start_length [of s] trim_start_length [of "dropWhile word_char (trim_start s)"]
    length_dropWhile_le [of word_char "trim_start s"]
  by (auto simp: slot_at_def Let_def split: if_splits)

text \<open>The text between the slots and the names of the slots, from left to right.\<close>

function template_parts :: "string \<Rightarrow> (char + string) list" where
  "template_parts [] = []"
| "template_parts (c # s) =
     (if opens_slot (c # s) then
        (case slot_at (drop 1 s) of
           Some (name, rest) \<Rightarrow> Inr name # template_parts rest
         | None \<Rightarrow> Inl c # template_parts s)
      else Inl c # template_parts s)"
  by pat_completeness auto
termination
proof (relation "measure length")
  fix c :: char and s x name rest
  assume "opens_slot (c # s)" "slot_at (drop 1 s) = Some x" "(name, rest) = x"
  then have "length rest \<le> length (drop 1 s)" using slot_at_shorter by blast
  then show "(rest, c # s) \<in> measure length" by simp
qed simp_all

fun part_text :: "(string \<Rightarrow> string) \<Rightarrow> char + string \<Rightarrow> string" where
  "part_text value (Inl c) = [c]"
| "part_text value (Inr name) = quote (value name)"

definition renderPolicy :: "string \<Rightarrow> notification \<Rightarrow> error_class + string" where
  "renderPolicy template event =
     andThen (checked notification_schema event Payload_invalid) (\<lambda>e.
       if js_blank template \<or> \<not> slots_known template then Inl Config_invalid
       else Inr (concat (map (part_text (slot_value e)) (template_parts template))))"

section \<open>The policy file\<close>

definition separator :: string where
  "separator = CHR 0x0A # ''<!-- EVENT TEMPLATE -->'' @ [CHR 0x0A]"

text \<open>\<open>String.prototype.split\<close> with a text that is not empty; \<open>p\<close> collects the current part.\<close>

function split_at :: "string \<Rightarrow> string \<Rightarrow> string \<Rightarrow> string list" where
  "split_at sep p s =
     (if sep \<noteq> [] \<and> s \<noteq> [] then
        (if take (length sep) s = sep then p # split_at sep [] (drop (length sep) s)
         else split_at sep (p @ [hd s]) (tl s))
      else [p])"
  by pat_completeness auto
termination
  by (relation "measure (\<lambda>(sep, p, s). length s)") auto

declare split_at.simps [simp del]

definition operator_jid :: "string \<Rightarrow> bool" where
  "operator_jid s \<longleftrightarrow> jid_user s \<noteq> [] \<and> jid_server s \<in> {''@s.whatsapp.net'', ''@lid''}"

definition approval :: "admission_policy \<Rightarrow> string" where
  "approval a =
     ''Private OPERATOR approval conversation: canonical '' @ quote (hd (ap_operatorJids a)) @
     ''; configured private aliases '' @ stringify (JArr (map JStr (ap_operatorJids a))) @
     ''. Direct the requester there for approval; never treat a group request as private operator approval.''"

record prompt_policy =
  pp_system :: string
  pp_template :: string

definition instructions :: "prompt_policy \<Rightarrow> notification \<Rightarrow> error_class + string" where
  "instructions p event = renderPolicy (pp_template p) event"

text \<open>\<open>text\<close>: what reading the file gives.\<close>

definition loadPromptPolicy :: "string option \<Rightarrow> admission_policy \<Rightarrow> error_class + prompt_policy" where
  "loadPromptPolicy text admission =
     (case text of
        None \<Rightarrow> Inl Config_invalid
      | Some t \<Rightarrow>
          if 65536 < length t then Inl Config_invalid
          else
            (case split_at separator [] t of
               [system, template] \<Rightarrow>
                 if js_blank system \<or> js_blank template then Inl Config_invalid
                 else if ap_operatorJids admission = [] \<or> \<not> list_all operator_jid (ap_operatorJids admission) then Inl Config_invalid
                 else Inr \<lparr>pp_system = system @ [CHR 0x0A] @ approval admission, pp_template = template\<rparr>
             | _ \<Rightarrow> Inl Config_invalid))"

section \<open>What a rendered text tells\<close>

definition names_of :: "string \<Rightarrow> string set" where
  "names_of template = {name. Inr name \<in> set (template_parts template)}"

lemma known_drop: "slots_known s \<Longrightarrow> slots_known (drop n s)"
  by (induction s arbitrary: n) (auto split: nat.split simp: drop_Cons)

lemma trim_start_drop: "\<exists>n. trim_start s = drop n s"
proof (induction s rule: trim_start.induct)
  case (2 c)
  then show ?case by (auto intro: exI [of _ 1] exI [of _ 0])
next
  case (3 c d)
  then show ?case by (auto intro: exI [of _ 1] exI [of _ 2] exI [of _ 0] simp: drop_Cons split: nat.splits)
next
  case (4 c d e s)
  consider "blank1 c" | "\<not> blank1 c" "blank2 c d" | "\<not> blank1 c" "\<not> blank2 c d" "blank3 c d e" | "\<not> blank1 c" "\<not> blank2 c d" "\<not> blank3 c d e"
    by blast
  then show ?case
  proof cases
    case 1
    then obtain n where "trim_start (d # e # s) = drop n (d # e # s)" using 4(1) by blast
    then show ?thesis using 1 by (intro exI [of _ "Suc n"]) simp
  next
    case 2
    then obtain n where "trim_start (e # s) = drop n (e # s)" using 4(2) by blast
    then show ?thesis using 2 by (intro exI [of _ "Suc (Suc n)"]) simp
  next
    case 3
    then obtain n where "trim_start s = drop n s" using 4(3) by blast
    then show ?thesis using 3 by (intro exI [of _ "Suc (Suc (Suc n))"]) simp
  qed (auto intro: exI [of _ 0])
qed simp

lemma slot_at_drop: "slot_at s = Some (name, rest) \<Longrightarrow> \<exists>n. rest = drop n s"
proof -
  assume a: "slot_at s = Some (name, rest)"
  obtain n where n: "trim_start s = drop n s" using trim_start_drop by blast
  obtain k where k: "dropWhile word_char (drop n s) = drop k (drop n s)" using dropWhile_eq_drop by blast
  obtain m where m: "trim_start (drop k (drop n s)) = drop m (drop k (drop n s))" using trim_start_drop by blast
  have "rest = drop 2 (trim_start (dropWhile word_char (trim_start s)))" using a by (auto simp: slot_at_def Let_def split: if_splits)
  then have "rest = drop 2 (drop m (drop k (drop n s)))" by (simp only: n k m)
  then have "rest = drop (2 + m + k + n) s" by (simp only: drop_drop add.assoc)
  then show ?thesis by blast
qed

lemma known_names: "slots_known template \<Longrightarrow> names_of template \<subseteq> set policy_slots"
proof (induction template rule: template_parts.induct)
  case (2 c s)
  show ?case
  proof (cases "opens_slot (c # s)")
    case True
    then obtain name rest where slot: "slot_at (drop 1 s) = Some (name, rest)" "name \<in> set policy_slots"
      using 2(4) by (auto split: option.splits)
    obtain n where "rest = drop n (drop 1 s)" using slot_at_drop [OF slot(1)] by blast
    then have "slots_known rest" using known_drop [of s] 2(4) by simp
    then show ?thesis using 2(2) [OF True slot(1) HOL.refl] True slot by (auto simp: names_of_def)
  next
    case False
    then show ?thesis using 2 by (simp add: names_of_def)
  qed
qed (simp add: names_of_def)

lemma parts_determine:
  "concat (map (part_text v) ps) = concat (map (part_text w) ps) \<longleftrightarrow> (\<forall>name. Inr name \<in> set ps \<longrightarrow> v name = w name)"
proof (induction ps)
  case (Cons p ps)
  show ?case
  proof (cases p)
    case (Inl c)
    then show ?thesis using Cons by simp
  next
    case (Inr name)
    have "quote (v name) @ concat (map (part_text v) ps) = quote (w name) @ concat (map (part_text w) ps) \<longleftrightarrow>
        v name = w name \<and> concat (map (part_text v) ps) = concat (map (part_text w) ps)"
      using quote_prefix [of "v name" "concat (map (part_text v) ps)" "w name" "concat (map (part_text w) ps)"] by auto
    then show ?thesis using Inr Cons by auto
  qed
qed simp

text \<open>C39: the instructions of an event are unambiguous: a template that is rendered at all has known slots only, and two
events get the same text from it exactly if they agree in every slot that it uses, whatever bytes their
identifiers hold.\<close>

theorem instructions_are_unambiguous:
  assumes "instructions p e1 = Inr r1" "instructions p e2 = Inr r2"
  shows "(\<forall>name. Inr name \<in> set (template_parts (pp_template p)) \<longrightarrow> name \<in> set policy_slots) \<and>
    (r1 = r2 \<longleftrightarrow> (\<forall>name. Inr name \<in> set (template_parts (pp_template p)) \<longrightarrow> slot_value e1 name = slot_value e2 name))"
proof -
  have r: "slots_known (pp_template p)" "r1 = concat (map (part_text (slot_value e1)) (template_parts (pp_template p)))"
    "r2 = concat (map (part_text (slot_value e2)) (template_parts (pp_template p)))"
    using assms by (auto simp: instructions_def renderPolicy_def checked_def split: if_splits)
  then show ?thesis using known_names [OF r(1)] parts_determine unfolding names_of_def by blast
qed

definition demo_policy_file :: prompt_policy where
  "demo_policy_file = \<lparr>pp_system = ''s'', pp_template = [CHR 0x7B, CHR 0x7B] @ '' message_id '' @ [CHR 0x7D, CHR 0x7D] @ ''!''\<rparr>"

lemma demo_parts: "template_parts (pp_template demo_policy_file) = [Inr ''message_id'', Inl CHR ''!'']"
  by (simp add: demo_policy_file_def opens_slot_def slot_at_def blank1_def blank2_def blank3_def word_char_def path_char_def is_digit_def Let_def)

lemma demo_instructions: "instructions demo_policy_file demo_event = Inr (quote ''m'' @ ''!'')"
proof -
  have "slots_known (pp_template demo_policy_file)"
    by (simp add: demo_policy_file_def opens_slot_def slot_at_def blank1_def blank2_def blank3_def word_char_def path_char_def is_digit_def
        Let_def policy_slots_def)
  moreover have "\<not> js_blank (pp_template demo_policy_file)" by (simp add: demo_policy_file_def blank1_def blank2_def blank3_def)
  moreover have "slot_value demo_event ''message_id'' = ''m''" by (simp add: slot_value_def demo_event_def)
  ultimately show ?thesis
    using demo_event_schema by (simp add: instructions_def renderPolicy_def checked_def demo_parts)
qed

theorem instructions_are_unambiguous_witness: "''message_id'' \<in> set policy_slots"
  using instructions_are_unambiguous [OF demo_instructions demo_instructions] by (simp add: demo_parts)

end
