(* ===== verification/Loader.thy ===== *)
theory Loader
  imports Policy Trace Journal "HOL-Library.Multiset"
begin

text \<open>
  The loader of the native runtime (\<open>src/session-controller/src/pi/mcp-loader.ts\<close>): the controller's own adapter
  configuration, the settings without a second adapter, the status that the adapter publishes, the check that
  a session exposes exactly the controller's tools, and the connection of a session with its disposal. The
  runtime and the adapter are packages: what they answer is a parameter, by the position of the call.
\<close>

section \<open>The adapter's configuration\<close>

definition createControllerMcpConfig :: "controller_config \<Rightarrow> json" where
  "createControllerMcpConfig c = JObj
     [(''mcpServers'', JObj [(adapter_server, JObj
        [(''command'', JStr (mc_command (cf_mcp c))),
         (''args'', JArr (map JStr (mc_args (cf_mcp c)))),
         (''cwd'', JStr (mc_cwd (cf_mcp c))),
         (''env'', JObj
            [(''MCP_TRANSPORT'', JStr ''stdio''),
             (''BRIDGE_URL'', JStr (bc_baseUrl (cf_bridge c))),
             (''WORKSPACE_DIR'', JStr (pc_cwd (cf_pi c))),
             (''LOG_LEVEL'', JStr ''INFO'')]),
         (''literalEnv'', JBool True), (''inheritEnv'', JBool False), (''lifecycle'', JStr ''keep-alive''),
         (''directTools'', JBool True), (''toolPrefix'', JStr ''mcp''), (''approveTools'', JBool False),
         (''exposeResources'', JBool False), (''openUi'', JBool False)])]),
      (''settings'', JObj
        [(''toolPrefix'', JStr ''mcp''), (''scriptMode'', JBool False), (''namespaceProxyTools'', JBool False),
         (''disableProxyTool'', JBool True), (''directTools'', JBool False), (''hostConfigDiscovery'', JStr ''off''),
         (''autoAuth'', JBool False), (''sampling'', JBool False), (''elicitation'', JBool False),
         (''notifyOnStartupConnect'', JBool False), (''mcpFooterStatus'', JStr ''off''), (''freezeDirectTools'', JBool True),
         (''strictDirectToolArguments'', JBool True), (''directToolResultDetails'', JStr ''bounded''), (''outputGuard'', JBool True),
         (''exposeResources'', JBool False), (''approveTools'', JBool False), (''allowInstall'', JBool False)])]"

text \<open>Variables of the process that would replace the policy of the adapter.\<close>

definition adapter_policy_kept :: "environment \<Rightarrow> bool" where
  "adapter_policy_kept env \<longleftrightarrow>
     (case env ''MCP_OUTPUT_GUARD'' of None \<Rightarrow> True | Some v \<Rightarrow> map lower_ascii (js_trim v) \<notin> {''0'', ''false'', ''no'', ''off''}) \<and>
     env ''MCP_DIRECT_TOOLS'' = None"

definition load_checked :: "environment \<Rightarrow> error_class + unit" where
  "load_checked env = guard (adapter_policy_kept env) Config_invalid"

section \<open>Settings without another adapter\<close>

text \<open>A package is declared by its source alone or by an object with a source.\<close>

datatype pi_package = Package string | Package_object string "(string \<times> json) list"

record pi_settings =
  ps_packages :: "pi_package list option"
  ps_extensions :: "string list option"
  ps_compaction :: "json hash"
  ps_rest :: "json hash"

fun packageSource :: "pi_package \<Rightarrow> string" where
  "packageSource (Package s) = js_trim s"
| "packageSource (Package_object s _) = js_trim s"

text \<open>\<open>^npm:pi-mcp-adapter(?:@[^/]+)?$\<close>\<close>

definition isConfiguredMcpAdapterPackage :: "pi_package \<Rightarrow> bool" where
  "isConfiguredMcpAdapterPackage p \<longleftrightarrow>
     (let s = packageSource p; rest = drop 18 s in
      take 18 s = ''npm:pi-mcp-adapter'' \<and>
      (rest = [] \<or> take 1 rest = ''@'' \<and> drop 1 rest \<noteq> [] \<and> CHR ''/'' \<notin> set (drop 1 rest)))"

definition withoutConfiguredMcpAdapter :: "pi_package list \<Rightarrow> pi_package list" where
  "withoutConfiguredMcpAdapter ps = filter (\<lambda>p. \<not> isConfiguredMcpAdapterPackage p) ps"

definition hasExtensionPattern :: "string \<Rightarrow> bool" where
  "hasExtensionPattern s \<longleftrightarrow> take 1 s \<in> {''+'', ''!'', ''-''} \<or>
     list_ex (\<lambda>c. c \<in> {CHR ''*'', CHR ''?'', CHR ''['', CHR '']'', CHR 0x7B, CHR 0x7D, CHR ''('', CHR '')''}) s"

definition letter :: "char \<Rightarrow> bool" where
  "letter c \<longleftrightarrow> 97 \<le> (of_char (lower_ascii c) :: nat) \<and> (of_char (lower_ascii c) :: nat) \<le> 122"

definition scheme_char :: "char \<Rightarrow> bool" where
  "scheme_char c \<longleftrightarrow> letter c \<or> is_digit c \<or> c = CHR ''+'' \<or> c = CHR ''.'' \<or> c = CHR ''-''"

text \<open>
  \<open>^[a-z][a-z\<backslash>d+.-]*:\<close> without case. Two letters beyond ASCII fold to ASCII ones: the long s, C5 BF, and the
  Kelvin sign, E2 84 AA.
\<close>

fun scheme_tail :: "string \<Rightarrow> bool" where
  "scheme_tail [] = False"
| "scheme_tail (c # s) =
     (c = CHR '':'' \<or> scheme_char c \<and> scheme_tail s \<or>
      (case s of d # r \<Rightarrow> c = CHR 0xC5 \<and> d = CHR 0xBF \<and> scheme_tail r | [] \<Rightarrow> False) \<or>
      (case s of d # e # r \<Rightarrow> c = CHR 0xE2 \<and> d = CHR 0x84 \<and> e = CHR 0xAA \<and> scheme_tail r | _ \<Rightarrow> False))"

definition has_scheme :: "string \<Rightarrow> bool" where
  "has_scheme s \<longleftrightarrow>
     s \<noteq> [] \<and> letter (hd s) \<and> scheme_tail (tl s) \<or>
     take 2 s = [CHR 0xC5, CHR 0xBF] \<and> scheme_tail (drop 2 s) \<or>
     take 3 s = [CHR 0xE2, CHR 0x84, CHR 0xAA] \<and> scheme_tail (drop 3 s)"

definition git_remote :: "string \<Rightarrow> bool" where
  "git_remote s \<longleftrightarrow>
     map lower_ascii (take 4 s) = ''git@'' \<and>
     (let host = takeWhile (\<lambda>c. c \<noteq> CHR '':'') (drop 4 s) in host \<noteq> [] \<and> length host < length (drop 4 s))"

text \<open>The file system: the real path and its kind, and the text of a manifest as JSON.\<close>

datatype path_kind = Kind_file | Kind_directory | Kind_other

datatype manifest = No_manifest | Unreadable_manifest | Read_manifest json

record extension_fs =
  ef_home :: string
  ef_realpath :: "string list \<Rightarrow> string list option"
  ef_kind :: "string list \<Rightarrow> path_kind option"
  ef_manifest :: "string list \<Rightarrow> manifest"

text \<open>From a directory, innermost segment first, up to the root.\<close>

definition names_adapter :: "json \<Rightarrow> bool" where
  "names_adapter v \<longleftrightarrow> (case v of JObj kv \<Rightarrow> jget kv ''name'' = Some (JStr ''pi-mcp-adapter'') | _ \<Rightarrow> False)"

fun owned_by_adapter :: "extension_fs \<Rightarrow> string list \<Rightarrow> bool" where
  "owned_by_adapter F [] = (case ef_manifest F [] of Read_manifest v \<Rightarrow> names_adapter v | _ \<Rightarrow> False)"
| "owned_by_adapter F (x # up) =
     (case ef_manifest F (rev (x # up)) of
        Read_manifest v \<Rightarrow> names_adapter v
      | Unreadable_manifest \<Rightarrow> False
      | No_manifest \<Rightarrow> owned_by_adapter F up)"

definition extension_path :: "extension_fs \<Rightarrow> string \<Rightarrow> string \<Rightarrow> string list" where
  "extension_path F source base =
     (if source = ''~'' then resolve_path (ef_home F)
      else if take 2 source = ''~/'' then resolve_path (ef_home F @ ''/'' @ drop 2 source)
      else if is_absolute source then resolve_path source
      else resolve_path (base @ ''/'' @ source))"

definition isConfiguredMcpAdapterExtension :: "extension_fs \<Rightarrow> string \<Rightarrow> string \<Rightarrow> bool" where
  "isConfiguredMcpAdapterExtension F value base =
     (let source = js_trim value in
      if source = [] \<or> take 8 source = ''builtin:'' \<or> hasExtensionPattern source \<or> has_scheme source \<or> git_remote source then False
      else
        (case ef_realpath F (extension_path F source base) of
           None \<Rightarrow> False
         | Some p \<Rightarrow>
             (case ef_kind F p of
                Some Kind_file \<Rightarrow> owned_by_adapter F (rev (butlast p))
              | Some Kind_directory \<Rightarrow> owned_by_adapter F (rev p)
              | _ \<Rightarrow> False)))"

definition withoutConfiguredMcpAdapterExtensions :: "extension_fs \<Rightarrow> string list \<Rightarrow> string \<Rightarrow> string list" where
  "withoutConfiguredMcpAdapterExtensions F extensions base =
     filter (\<lambda>v. \<not> isConfiguredMcpAdapterExtension F v base) extensions"

definition controllerScopedSettings :: "extension_fs \<Rightarrow> pi_settings \<Rightarrow> string \<Rightarrow> pi_settings" where
  "controllerScopedSettings F s base = s\<lparr>
     ps_packages := map_option withoutConfiguredMcpAdapter (ps_packages s),
     ps_extensions := map_option (\<lambda>es. withoutConfiguredMcpAdapterExtensions F es base) (ps_extensions s),
     ps_compaction := hset ''enabled'' (JBool False) (ps_compaction s)\<rparr>"

section \<open>The adapter's status\<close>

record server_status =
  ss_name :: string
  ss_status :: string
  ss_listenState :: string
  ss_toolCount :: nat
  ss_directToolCount :: nat
  ss_disabled :: bool
  ss_catalogStale :: "bool option"

definition runtime_statuses :: "string list" where
  "runtime_statuses = [''connected'', ''cached'', ''failed'', ''needs-auth'', ''not-connected'', ''blocked'', ''disabled'']"

definition listen_states :: "string list" where
  "listen_states = [''active'', ''dropped'', ''re-establishing'', ''legacy'', ''not-listening'', ''disconnected'']"

definition count_of :: "json option \<Rightarrow> nat option" where
  "count_of v = (case as_int v of None \<Rightarrow> None | Some i \<Rightarrow> if 0 \<le> i \<and> i \<le> int max_safe then Some (nat i) else None)"

definition one_of :: "string list \<Rightarrow> json option \<Rightarrow> string option" where
  "one_of xs v = (case as_str v of None \<Rightarrow> None | Some s \<Rightarrow> if s \<in> set xs then Some s else None)"

definition parse_server :: "json \<Rightarrow> server_status option" where
  "parse_server v =
     (case v of
        JObj kv \<Rightarrow> do {
          name \<leftarrow> as_str (jget kv ''name'');
          status \<leftarrow> one_of runtime_statuses (jget kv ''status'');
          listening \<leftarrow> one_of listen_states (jget kv ''listenState'');
          tools \<leftarrow> count_of (jget kv ''toolCount'');
          direct \<leftarrow> count_of (jget kv ''directToolCount'');
          off \<leftarrow> as_bool (jget kv ''disabled'');
          stale \<leftarrow> (case jget kv ''catalogStale'' of None \<Rightarrow> Some None | Some (JBool b) \<Rightarrow> Some (Some b) | Some _ \<Rightarrow> None);
          Some \<lparr>ss_name = name, ss_status = status, ss_listenState = listening, ss_toolCount = tools,
            ss_directToolCount = direct, ss_disabled = off, ss_catalogStale = stale\<rparr> }
      | _ \<Rightarrow> None)"

fun parse_servers :: "json list \<Rightarrow> server_status list option" where
  "parse_servers [] = Some []"
| "parse_servers (v # vs) = do { x \<leftarrow> parse_server v; xs \<leftarrow> parse_servers vs; Some (x # xs) }"

definition parseAdapterStatusSnapshot :: "json \<Rightarrow> server_status list option" where
  "parseAdapterStatusSnapshot v =
     (case v of
        JObj kv \<Rightarrow>
          if jget kv ''version'' \<noteq> Some (JInt 1) then None
          else (case jget kv ''servers'' of Some (JArr vs) \<Rightarrow> parse_servers vs | _ \<Rightarrow> None)
      | _ \<Rightarrow> None)"

text \<open>The tracker keeps the latest snapshot that is valid.\<close>

definition statusObserver :: "json \<Rightarrow> server_status list option \<Rightarrow> server_status list option" where
  "statusObserver v latest = (case parseAdapterStatusSnapshot v of None \<Rightarrow> latest | Some s \<Rightarrow> Some s)"

section \<open>The tools of a session\<close>

definition REQUIRED_WHATSAPP_TOOLS :: "string list" where
  "REQUIRED_WHATSAPP_TOOLS =
     [''get_message'', ''send_message'', ''check_new_messages'', ''get_messages'', ''get_unread_chats'', ''get_unread_messages'',
      ''get_group_context'', ''send_reaction'', ''edit_message'', ''revoke_message'', ''check_triggers'', ''list_groups'', ''get_group'',
      ''send_group_message'', ''send_auto_message'', ''send_media'', ''download_media'', ''analyze_media'', ''list_contacts'',
      ''get_contact'', ''semantic_search'']"

definition required_names :: "string list" where
  "required_names = map whatsappToolName REQUIRED_WHATSAPP_TOOLS"

record tool_info =
  ti_name :: string
  ti_exposure :: "string option"
  ti_source :: "(string \<times> string) option"

record surface =
  su_tools :: "tool_info list"
  su_active :: "string list"
  su_callable :: "string list"
  su_status :: "server_status list option"

definition isAdapterSource :: "tool_info \<Rightarrow> bool" where
  "isAdapterSource t \<longleftrightarrow> ti_source t = Some (adapter_source, ''inline'')"

definition own_name :: "string \<Rightarrow> bool" where
  "own_name name \<longleftrightarrow> (let prefix = whatsappToolName '''' in take (length prefix) name = prefix)"

definition forbidden_surfaces :: "string list" where
  "forbidden_surfaces = [''mcp'', ''mcpScript'', ''mcp__'' @ adapter_server]"

text \<open>As many as required, no two the same, all required.\<close>

definition exact_names :: "string list \<Rightarrow> bool" where
  "exact_names names \<longleftrightarrow> length names = length required_names \<and> length (remdups names) = length required_names \<and>
     list_all (\<lambda>n. n \<in> set required_names) names"

definition live_status :: "server_status list option \<Rightarrow> bool" where
  "live_status latest \<longleftrightarrow>
     (case filter (\<lambda>x. ss_name x = adapter_server) (case latest of None \<Rightarrow> [] | Some xs \<Rightarrow> xs) of
        [x] \<Rightarrow> ss_status x = ''connected'' \<and> ss_listenState x \<noteq> ''disconnected'' \<and>
          ss_toolCount x = length required_names \<and> ss_directToolCount x = length required_names \<and>
          ss_catalogStale x \<noteq> Some True \<and> \<not> ss_disabled x
      | _ \<Rightarrow> False)"

definition surface_ready :: "surface \<Rightarrow> bool" where
  "surface_ready v \<longleftrightarrow>
     (let own = filter (\<lambda>t. own_name (ti_name t)) (su_tools v) in
      live_status (su_status v) \<and> exact_names (map ti_name own) \<and> exact_names (filter own_name (su_active v)) \<and>
      list_all (\<lambda>t. ti_exposure t = Some ''direct'') own \<and> list_all isAdapterSource own \<and>
      list_all (\<lambda>t. ti_name t \<in> set required_names \<longrightarrow> isAdapterSource t) (su_tools v) \<and>
      list_all (\<lambda>n. n \<notin> set (su_active v) \<and> n \<notin> set (su_callable v)) forbidden_surfaces)"

datatype load_effect =
    L_current | L_delay | L_settings | L_materialize | L_reload | L_create_session | L_shutdown | L_native_dispose | L_abort

record load_env =
  le_full :: bool
  le_extra :: bool
  le_provider :: bool
  le_model :: bool
  le_current :: "nat \<Rightarrow> error_class + unit"
  le_surface :: "nat \<Rightarrow> surface"
  le_unit :: "nat \<Rightarrow> error_class + unit"
  le_paths :: "nat \<Rightarrow> error_class + string list"
  le_clean :: "nat \<Rightarrow> bool"

type_synonym 'a load_exec = "(load_effect, 'a) traced_exec"

fun ready_attempts :: "load_env \<Rightarrow> nat \<Rightarrow> unit load_exec" where
  "ready_attempts E 0 = throw Session_failed"
| "ready_attempts E (Suc n) =
     seq (call L_current (le_current E)) (\<lambda>_.
     observe (le_surface E) (\<lambda>v.
       if surface_ready v then ret ()
       else seq (call L_delay (\<lambda>_. Inr ())) (\<lambda>_. ready_attempts E n)))"

definition session_ready :: "load_env \<Rightarrow> unit load_exec" where
  "session_ready E = ready_attempts E 100"

section \<open>Connecting a session\<close>

text \<open>The fence hooks of a session: a tool call is blocked and a request aborted when the ownership is gone.\<close>

definition fence_tool_call :: "load_env \<Rightarrow> bool load_exec" where
  "fence_tool_call E = catch (seq (call L_current (le_current E)) (\<lambda>_. ret True)) (\<lambda>_. ret False)"

definition fence_request :: "load_env \<Rightarrow> unit load_exec" where
  "fence_request E = catch (call L_current (le_current E)) (\<lambda>_. call L_abort (\<lambda>_. Inr ()))"

text \<open>The resources of the inventory check: exactly the observer and the adapter, without a diagnostic.\<close>

definition observer_source :: string where
  "observer_source = ''<inline:controller-mcp-status-observer>''"

definition createOwnedInventoryLoader :: "load_env \<Rightarrow> unit load_exec" where
  "createOwnedInventoryLoader E =
     seq (call L_materialize (le_paths E)) (\<lambda>paths.
     observe (le_clean E) (\<lambda>clean. require (clean \<and> paths = [observer_source, adapter_source]) Session_failed))"

definition load_resources :: "load_env \<Rightarrow> unit load_exec" where
  "load_resources E =
     (if le_full E then call L_settings (le_unit E)
      else if le_extra E then throw Session_failed
      else createOwnedInventoryLoader E)"

text \<open>The end of the session: the shutdown event, then the native disposal whatever came of it.\<close>

definition owned_dispose :: "load_env \<Rightarrow> unit load_exec" where
  "owned_dispose E = finalize (call L_shutdown (le_unit E)) (call L_native_dispose (le_unit E))"

definition connect_runtime :: "load_env \<Rightarrow> unit load_exec" where
  "connect_runtime E =
     seq (call L_current (le_current E)) (\<lambda>_.
     seq (load_resources E) (\<lambda>_.
     seq (require (le_provider E \<longrightarrow> le_model E) Config_invalid) (\<lambda>_.
     seq (call L_reload (le_unit E)) (\<lambda>_.
     seq (call L_create_session (le_unit E)) (\<lambda>_.
     catch
       (observe (le_clean E) (\<lambda>clean.
          if \<not> clean then throw Session_failed else call L_current (le_current E)))
       (\<lambda>e. seq (catch (owned_dispose E) (\<lambda>_. ret ())) (\<lambda>_. throw e)))))))"

text \<open>The session handle: a later disposal shares the first one's outcome.\<close>

record owned =
  ow_disposing :: "(error_class + unit) option"
  ow_log :: "load_effect list"

definition dispose_owned :: "load_env \<Rightarrow> (owned, unit) exec" where
  "dispose_owned E s =
     (case ow_disposing s of
        Some r \<Rightarrow> (r, s)
      | None \<Rightarrow>
          (case owned_dispose E (ow_log s) of (r, log) \<Rightarrow> (r, s\<lparr>ow_disposing := Some r, ow_log := log\<rparr>)))"

section \<open>The preparation probe\<close>

record probe_env =
  pb_model :: "(string \<times> string) option"
  pb_idle :: bool
  pb_prepares :: bool
  pb_settings :: json
  pb_branch :: "json list option"
  pb_sha :: "string \<Rightarrow> string"

text \<open>A branch that cannot be written as JSON makes the probe fail.\<close>

definition compactionPreflight :: "probe_env \<Rightarrow> string option" where
  "compactionPreflight P =
     (case pb_model P of
        None \<Rightarrow> None
      | Some (provider, model) \<Rightarrow>
          if \<not> pb_idle P \<or> \<not> pb_prepares P then None
          else
            (case pb_branch P of
               None \<Rightarrow> None
             | Some branch \<Rightarrow> Some (''sha256:v1:'' @ pb_sha P (''sc:pi-compaction-preflight:v1'' @ [CHR 0x00] @
                 stringify (JArr [JStr provider, JStr model, pb_settings P, JArr branch])))))"

end
