(* ===== verification/Loader_Spec.thy ===== *)
theory Loader_Spec
  imports Loader
begin

text \<open>
  The loader: a session is ready exactly when it exposes the controller's tools and nothing that replaces
  them, a connection that fails takes its session down, and the settings of a session name no second adapter.
\<close>

section \<open>The exact surface\<close>

definition exact_surface :: "surface \<Rightarrow> bool" where
  "exact_surface v \<longleftrightarrow>
     mset (map ti_name (filter (\<lambda>t. own_name (ti_name t)) (su_tools v))) = mset required_names \<and>
     (\<forall>t \<in> set (su_tools v). own_name (ti_name t) \<longrightarrow> ti_exposure t = Some ''direct'' \<and> isAdapterSource t) \<and>
     mset (filter own_name (su_active v)) = mset required_names \<and>
     set forbidden_surfaces \<inter> (set (su_active v) \<union> set (su_callable v)) = {} \<and>
     (\<exists>x. filter (\<lambda>y. ss_name y = adapter_server) (case su_status v of None \<Rightarrow> [] | Some xs \<Rightarrow> xs) = [x] \<and>
        ss_status x = ''connected'' \<and> ss_listenState x \<noteq> ''disconnected'' \<and> ss_toolCount x = 21 \<and> ss_directToolCount x = 21 \<and>
        ss_catalogStale x \<noteq> Some True \<and> \<not> ss_disabled x)"

lemma required_distinct: "distinct required_names"
proof -
  have "inj_on whatsappToolName (set REQUIRED_WHATSAPP_TOOLS)" by (simp add: inj_on_def whatsappToolName_def)
  moreover have "distinct REQUIRED_WHATSAPP_TOOLS" by (simp add: REQUIRED_WHATSAPP_TOOLS_def)
  ultimately show ?thesis by (simp add: required_names_def distinct_map)
qed

lemma required_length: "length required_names = 21"
  by (simp add: required_names_def REQUIRED_WHATSAPP_TOOLS_def)

lemma required_own: "n \<in> set required_names \<Longrightarrow> own_name n"
  by (auto simp: required_names_def own_name_def whatsappToolName_def Let_def)

lemma exact_names_mset: "exact_names names \<longleftrightarrow> mset names = mset required_names"
proof
  assume e: "exact_names names"
  then have d: "distinct names" using length_remdups_eq [of names] by (simp add: exact_names_def)
  have "set names \<subseteq> set required_names" using e by (auto simp: exact_names_def list_all_iff)
  moreover have "card (set names) = card (set required_names)"
    using e distinct_card [OF d] distinct_card [OF required_distinct] by (simp add: exact_names_def)
  ultimately have "set names = set required_names" by (simp add: card_subset_eq)
  then show "mset names = mset required_names" using set_eq_iff_mset_eq_distinct [OF d required_distinct] by simp
next
  assume m: "mset names = mset required_names"
  have "length names = length required_names" using mset_eq_length [OF m] .
  moreover have "distinct names" using mset_eq_imp_distinct_iff [OF m] required_distinct by simp
  moreover have "set names = set required_names" using mset_eq_setD [OF m] .
  ultimately show "exact_names names" by (simp add: exact_names_def list_all_iff distinct_remdups_id)
qed

lemma surface_ready_exact: "surface_ready v \<longleftrightarrow> exact_surface v"
proof -
  have live: "live_status l \<longleftrightarrow> (\<exists>x. filter (\<lambda>y. ss_name y = adapter_server) (case l of None \<Rightarrow> [] | Some xs \<Rightarrow> xs) = [x] \<and>
        ss_status x = ''connected'' \<and> ss_listenState x \<noteq> ''disconnected'' \<and> ss_toolCount x = 21 \<and> ss_directToolCount x = 21 \<and>
        ss_catalogStale x \<noteq> Some True \<and> \<not> ss_disabled x)" for l
    unfolding live_status_def required_length by (auto split: list.split)
  have tools: "list_all (\<lambda>t. ti_exposure t = Some ''direct'') (filter (\<lambda>t. own_name (ti_name t)) ts) \<and>
      list_all isAdapterSource (filter (\<lambda>t. own_name (ti_name t)) ts) \<and>
      list_all (\<lambda>t. ti_name t \<in> set required_names \<longrightarrow> isAdapterSource t) ts \<longleftrightarrow>
      (\<forall>t \<in> set ts. own_name (ti_name t) \<longrightarrow> ti_exposure t = Some ''direct'' \<and> isAdapterSource t)" for ts
    using required_own by (auto simp: list_all_iff)
  have surfaces: "list_all (\<lambda>n. n \<notin> set a \<and> n \<notin> set c) fs \<longleftrightarrow> set fs \<inter> (set a \<union> set c) = {}" for a c and fs :: "string list"
    by (auto simp: list_all_iff)
  show ?thesis
    unfolding surface_ready_def exact_surface_def Let_def live exact_names_mset surfaces using tools [of "su_tools v"] by blast
qed

section \<open>The wait for the tools\<close>

definition looks :: "nat \<Rightarrow> load_effect list" where
  "looks k = concat (replicate k [L_current, L_delay])"

lemma looks_simps [simp]: "looks 0 = []" "length (looks k) = 2 * k" "looks k @ [L_current, L_delay] = looks (Suc k)"
proof -
  have "concat (replicate k xs) @ xs = xs @ concat (replicate k xs)" for k and xs :: "load_effect list"
    by (induction k) simp_all
  from this [of k "[L_current, L_delay]"] show "looks k @ [L_current, L_delay] = looks (Suc k)" by (simp add: looks_def)
  show "length (looks k) = 2 * k" by (induction k) (simp_all add: looks_def)
qed (simp add: looks_def)

definition wait_ends :: "load_env \<Rightarrow> nat \<Rightarrow> nat \<Rightarrow> error_class + unit \<Rightarrow> load_effect list \<Rightarrow> bool" where
  "wait_ends E i n r log \<longleftrightarrow>
     (\<exists>k. i \<le> k \<and> k \<le> n \<and> (\<forall>j. i \<le> j \<and> j < k \<longrightarrow> le_current E (2 * j) = Inr () \<and> \<not> surface_ready (le_surface E (2 * j + 1))) \<and>
       (if k = n then r = Inl Session_failed \<and> log = looks n
        else log = looks k @ [L_current] \<and>
          (case r of Inl e \<Rightarrow> le_current E (2 * k) = Inl e
             | Inr _ \<Rightarrow> le_current E (2 * k) = Inr () \<and> surface_ready (le_surface E (2 * k + 1)))))"

lemma ready_attempts_ends:
  "ready_attempts E m (looks i) = (r, log) \<Longrightarrow> wait_ends E i (i + m) r log"
proof (induction m arbitrary: i)
  case 0
  then show ?case by (auto simp: throw_def wait_ends_def intro!: exI [of _ i])
next
  case (Suc m)
  show ?case
  proof (cases "le_current E (2 * i)")
    case (Inl e)
    then have "r = Inl e" "log = looks i @ [L_current]" using Suc.prems by (simp_all add: seq_def call_def)
    then show ?thesis unfolding wait_ends_def using Inl by (intro exI [of _ i]) auto
  next
    case (Inr u)
    show ?thesis
    proof (cases "surface_ready (le_surface E (2 * i + 1))")
      case True
      then have "r = Inr ()" "log = looks i @ [L_current]" using Suc.prems Inr by (simp_all add: seq_def call_def observe_def ret_def)
      then show ?thesis unfolding wait_ends_def using Inr True by (intro exI [of _ i]) auto
    next
      case False
      have "ready_attempts E m (looks (Suc i)) = (r, log)"
        using Suc.prems Inr False by (simp add: seq_def call_def observe_def)
      from Suc.IH [OF this] obtain k where k: "Suc i \<le> k" "k \<le> Suc i + m"
        "\<forall>j. Suc i \<le> j \<and> j < k \<longrightarrow> le_current E (2 * j) = Inr () \<and> \<not> surface_ready (le_surface E (2 * j + 1))"
        "if k = Suc i + m then r = Inl Session_failed \<and> log = looks (Suc i + m)
        else log = looks k @ [L_current] \<and>
          (case r of Inl e \<Rightarrow> le_current E (2 * k) = Inl e
             | Inr _ \<Rightarrow> le_current E (2 * k) = Inr () \<and> surface_ready (le_surface E (2 * k + 1)))"
        unfolding wait_ends_def by blast
      have "le_current E (2 * j) = Inr () \<and> \<not> surface_ready (le_surface E (2 * j + 1))" if "i \<le> j" "j < k" for j
        using that k(3) Inr False by (cases "j = i") simp_all
      then show ?thesis unfolding wait_ends_def using k(1,2,4) by (intro exI [of _ k]) simp
    qed
  qed
qed

text \<open>C25: a session is used only with exactly the controller's 21 tools: the wait ends after at most a hundred looks, each
after a check of the ownership; it succeeds only at a look that shows each tool once, active, direct and from the
controller's adapter, no generic surface, and one live server of the right size; and it gives up only when no
look has shown that.\<close>

theorem ready_is_exact:
  assumes "session_ready E [] = (r, log)"
  shows "case r of
      Inr _ \<Rightarrow> (\<exists>k < 100. log = looks k @ [L_current] \<and> (\<forall>j \<le> k. le_current E (2 * j) = Inr ()) \<and>
        exact_surface (le_surface E (2 * k + 1)) \<and> (\<forall>j < k. \<not> exact_surface (le_surface E (2 * j + 1))))
    | Inl e \<Rightarrow> (\<exists>k < 100. log = looks k @ [L_current] \<and> le_current E (2 * k) = Inl e) \<or>
        e = Session_failed \<and> log = looks 100 \<and> (\<forall>j < 100. le_current E (2 * j) = Inr () \<and> \<not> exact_surface (le_surface E (2 * j + 1)))"
proof -
  have "wait_ends E 0 100 r log"
    using ready_attempts_ends [of E 100 0 r log] assms by (simp add: session_ready_def)
  then obtain k where k: "k \<le> 100" "\<forall>j < k. le_current E (2 * j) = Inr () \<and> \<not> exact_surface (le_surface E (2 * j + 1))"
    "if k = 100 then r = Inl Session_failed \<and> log = looks 100
        else log = looks k @ [L_current] \<and>
          (case r of Inl e \<Rightarrow> le_current E (2 * k) = Inl e
             | Inr _ \<Rightarrow> le_current E (2 * k) = Inr () \<and> exact_surface (le_surface E (2 * k + 1)))"
    unfolding wait_ends_def surface_ready_exact by auto
  show ?thesis
  proof (cases r)
    case (Inl e)
    then show ?thesis using k by (cases "k = 100") auto
  next
    case (Inr u)
    then have "k < 100" using k(1,3) by (cases "k = 100") simp_all
    moreover have "le_current E (2 * j) = Inr ()" if "j \<le> k" for j
      using that k Inr \<open>k < 100\<close> by (cases "j = k") simp_all
    ultimately show ?thesis using k Inr by auto
  qed
qed

section \<open>The life of a connection\<close>

lemma call_result: "call e f log = (f (length log), log @ [e])"
  by (simp add: call_def)

lemma load_resources_keeps:
  assumes "load_resources E log = (r, log')"
  shows "\<exists>l. log' = log @ l \<and> set l \<subseteq> {L_settings, L_materialize}"
  using assms
  by (auto simp: load_resources_def createOwnedInventoryLoader_def seq_def call_result observe_def require_def lift_def throw_def
      split: if_splits sum.splits)

lemma owned_dispose_log: "snd (owned_dispose E log) = log @ [L_shutdown, L_native_dispose]"
  by (simp add: owned_dispose_def finalize_def call_result split: prod.split sum.split)

definition before_session :: "load_effect set" where
  "before_session = {L_current, L_settings, L_materialize, L_reload}"

text \<open>a connection owns its session: it hands out a session only if the extensions loaded without a diagnostic and the
ownership was checked after the session was created; if either fails, the session is taken down, the shutdown
event first and the native disposal whatever came of it, and the first failure is the one reported; and
without a created session nothing is taken down.\<close>

theorem connection_owns_its_session:
  assumes "connect_runtime E [] = (r, log)"
  shows "(\<exists>pre. set pre \<subseteq> before_session \<and> (le_provider E \<longrightarrow> le_model E) \<and> le_unit E (length pre) = Inr () \<and>
       (case r of
          Inr _ \<Rightarrow> log = pre @ [L_create_session, L_current] \<and> le_clean E (length pre + 1) \<and> le_current E (length pre + 1) = Inr ()
        | Inl e \<Rightarrow> log = pre @ [L_create_session, L_shutdown, L_native_dispose] \<and> \<not> le_clean E (length pre + 1) \<and> e = Session_failed \<or>
            log = pre @ [L_create_session, L_current, L_shutdown, L_native_dispose] \<and> le_current E (length pre + 1) = Inl e)) \<or>
     (\<exists>e. r = Inl e) \<and> L_shutdown \<notin> set log \<and> L_native_dispose \<notin> set log"
proof (cases "\<exists>e. le_current E 0 = Inl e")
  case True
  then obtain e where "le_current E 0 = Inl e" by blast
  then have "r = Inl e" "log = [L_current]" using assms by (simp_all add: connect_runtime_def seq_def call_result)
  then show ?thesis by simp
next
  case False
  then have c: "le_current E 0 = Inr ()" by (cases "le_current E 0") auto
  obtain r1 l1 where res: "load_resources E [L_current] = (r1, l1)" by force
  obtain l where l: "l1 = [L_current] @ l" "set l \<subseteq> {L_settings, L_materialize}" using load_resources_keeps [OF res] by blast
  have none: "L_shutdown \<notin> set l" "L_native_dispose \<notin> set l" using l(2) by auto
  show ?thesis
  proof (cases r1)
    case (Inl e)
    then show ?thesis using assms c res l none by (auto simp: connect_runtime_def seq_def call_result)
  next
    case (Inr u)
    show ?thesis
    proof (cases "(le_provider E \<longrightarrow> le_model E) \<and> le_unit E (length l1) = Inr () \<and> le_unit E (Suc (length l1)) = Inr ()")
      case False
      then have "(\<exists>e. r = Inl e) \<and> set log \<subseteq> set l1 \<union> {L_reload, L_create_session}"
        using assms [symmetric] c res Inr
        by (cases "le_unit E (length l1)"; cases "le_unit E (Suc (length l1))")
          (auto simp: connect_runtime_def seq_def call_result require_def lift_def guard_def throw_def split: if_splits)
      then show ?thesis using l none by auto
    next
      case True
      define pre where "pre = l1 @ [L_reload]"
      have pre: "set pre \<subseteq> before_session" using l by (auto simp: pre_def before_session_def)
      have rest: "catch (observe (le_clean E) (\<lambda>clean. if \<not> clean then throw Session_failed else call L_current (le_current E)))
          (\<lambda>e. seq (catch (owned_dispose E) (\<lambda>_. ret ())) (\<lambda>_. throw e)) (pre @ [L_create_session]) = (r, log)"
        using assms c res Inr True by (simp add: connect_runtime_def seq_def call_result require_def lift_def guard_def pre_def)
      have down: "seq (catch (owned_dispose E) (\<lambda>_. ret ())) (\<lambda>_. throw e) log' = (Inl e, log' @ [L_shutdown, L_native_dispose])"
        for e :: error_class and log'
        using owned_dispose_log [of E log']
        by (cases "owned_dispose E log'"; cases "fst (owned_dispose E log')") (auto simp: seq_def catch_def ret_def throw_def)
      have "le_unit E (length pre) = Inr ()" using True by (simp add: pre_def)
      moreover have "case r of
          Inr _ \<Rightarrow> log = pre @ [L_create_session, L_current] \<and> le_clean E (length pre + 1) \<and> le_current E (length pre + 1) = Inr ()
        | Inl e \<Rightarrow> log = pre @ [L_create_session, L_shutdown, L_native_dispose] \<and> \<not> le_clean E (length pre + 1) \<and> e = Session_failed \<or>
            log = pre @ [L_create_session, L_current, L_shutdown, L_native_dispose] \<and> le_current E (length pre + 1) = Inl e"
        using rest [symmetric]
        by (cases "le_clean E (length pre + 1)"; cases "le_current E (length pre + 1)")
          (auto simp: catch_def observe_def throw_def call_result down)
      ultimately show ?thesis using pre True by blast
    qed
  qed
qed

text \<open>Once disposed of, a session is not disposed of again.\<close>

lemma disposed_once:
  "dispose_owned E (snd (dispose_owned E s)) = dispose_owned E s"
  by (simp add: dispose_owned_def split: option.split prod.split)

section \<open>The settings\<close>

text \<open>the settings of a controller session declare no adapter besides the controller's own: no package and no extension
of the scope is the adapter, every other declaration is kept in its order, automatic compaction is off and the
other settings are as they were; scoping twice changes nothing more.\<close>

theorem scoped_settings_drop_adapter:
  "(\<forall>ps p. ps_packages (controllerScopedSettings F s base) = Some ps \<and> p \<in> set ps \<longrightarrow> \<not> isConfiguredMcpAdapterPackage p) \<and>
   (\<forall>es v. ps_extensions (controllerScopedSettings F s base) = Some es \<and> v \<in> set es \<longrightarrow> \<not> isConfiguredMcpAdapterExtension F v base) \<and>
   (\<forall>ps. ps_packages s = Some ps \<longrightarrow> ps_packages (controllerScopedSettings F s base) =
      Some (filter (\<lambda>p. \<not> isConfiguredMcpAdapterPackage p) ps)) \<and>
   hget (ps_compaction (controllerScopedSettings F s base)) ''enabled'' = Some (JBool False) \<and>
   (\<forall>k. k \<noteq> ''enabled'' \<longrightarrow> hget (ps_compaction (controllerScopedSettings F s base)) k = hget (ps_compaction s) k) \<and>
   ps_rest (controllerScopedSettings F s base) = ps_rest s \<and>
   controllerScopedSettings F (controllerScopedSettings F s base) base = controllerScopedSettings F s base"
proof -
  have idem: "hset k v (hset k v h) = hset k v h" for k and v :: json and h
    by (induction h) (auto simp: hset_def)
  show ?thesis
    by (auto simp: controllerScopedSettings_def withoutConfiguredMcpAdapter_def [abs_def] withoutConfiguredMcpAdapterExtensions_def hget_hset idem
        option.map_comp comp_def)
qed

section \<open>An example\<close>

definition demo_tools :: "tool_info list" where
  "demo_tools = map (\<lambda>n. \<lparr>ti_name = n, ti_exposure = Some ''direct'', ti_source = Some (adapter_source, ''inline'')\<rparr>) required_names"

definition demo_surface :: surface where
  "demo_surface = \<lparr>su_tools = demo_tools, su_active = ''read'' # required_names, su_callable = ''read'' # required_names,
     su_status = Some [\<lparr>ss_name = adapter_server, ss_status = ''connected'', ss_listenState = ''active'', ss_toolCount = 21,
       ss_directToolCount = 21, ss_disabled = False, ss_catalogStale = None\<rparr>]\<rparr>"

text \<open>The tools appear at the second look.\<close>

definition demo_load :: load_env where
  "demo_load = \<lparr>le_full = True, le_extra = True, le_provider = True, le_model = True, le_current = (\<lambda>_. Inr ()),
     le_surface = (\<lambda>n. if n = 1 then demo_surface\<lparr>su_status := None\<rparr> else demo_surface), le_unit = (\<lambda>_. Inr ()),
     le_paths = (\<lambda>_. Inr []), le_clean = (\<lambda>n. n \<noteq> 4)\<rparr>"

lemma required_no_surface: "''mcp'' \<notin> set required_names" "''mcpScript'' \<notin> set required_names" "''mcp__'' @ adapter_server \<notin> set required_names"
  by (simp_all add: required_names_def REQUIRED_WHATSAPP_TOOLS_def whatsappToolName_def adapter_server_def)

lemma demo_surface_exact: "exact_surface demo_surface"
proof -
  have own: "filter own_name required_names = required_names" using required_own by (simp add: filter_id_conv)
  have names: "map ti_name demo_tools = required_names" by (simp add: demo_tools_def comp_def)
  have "filter (\<lambda>t. own_name (ti_name t)) demo_tools = demo_tools"
    using required_own by (auto simp: demo_tools_def filter_id_conv)
  moreover have "\<not> own_name ''read''" by (simp add: own_name_def whatsappToolName_def Let_def)
  ultimately show ?thesis
    using required_no_surface
    by (simp add: exact_surface_def demo_surface_def own names forbidden_surfaces_def)
      (simp add: demo_tools_def isAdapterSource_def adapter_server_def)
qed

lemma demo_ready: "session_ready demo_load [] = (Inr (), [L_current, L_delay, L_current])"
proof -
  have first: "\<not> surface_ready (demo_surface\<lparr>su_status := None\<rparr>)"
    by (simp add: surface_ready_exact exact_surface_def)
  have second: "surface_ready demo_surface" using demo_surface_exact by (simp add: surface_ready_exact)
  have "ready_attempts demo_load (Suc (Suc n)) [] = (Inr (), [L_current, L_delay, L_current])" for n
    using first second by (simp add: seq_def call_def observe_def demo_load_def ret_def)
  from this [of 98] show ?thesis by (simp add: session_ready_def)
qed

theorem ready_is_exact_witness: "\<exists>k < 100. [L_current, L_delay, L_current] = looks k @ [L_current]"
  using ready_is_exact [OF demo_ready] by auto

theorem connection_owns_its_session_witness:
  "snd (connect_runtime demo_load []) = [L_current, L_settings, L_reload, L_create_session, L_shutdown, L_native_dispose]"
proof -
  have run: "connect_runtime demo_load [] =
      (Inl Session_failed, [L_current, L_settings, L_reload, L_create_session, L_shutdown, L_native_dispose])"
    by (simp add: connect_runtime_def seq_def call_def demo_load_def load_resources_def require_def lift_def guard_def catch_def observe_def
        throw_def owned_dispose_def finalize_def ret_def)
  show ?thesis using connection_owns_its_session [OF run] run by simp
qed

definition demo_ext_fs :: extension_fs where
  "demo_ext_fs = \<lparr>ef_home = ''/h'', ef_realpath = Some, ef_kind = (\<lambda>_. Some Kind_directory),
     ef_manifest = (\<lambda>p. if p = [''n'', ''a''] then Read_manifest (JObj [(''name'', JStr ''pi-mcp-adapter'')]) else No_manifest)\<rparr>"

definition demo_settings :: pi_settings where
  "demo_settings = \<lparr>ps_packages = Some [Package '' npm:pi-mcp-adapter@1.2'', Package ''npm:pi-mcp-adapter-x''], ps_extensions = Some [''a/dist''],
     ps_compaction = [(''enabled'', JBool True), (''reserve'', JInt 1)], ps_rest = []\<rparr>"

theorem scoped_settings_drop_adapter_witness:
  "ps_packages (controllerScopedSettings demo_ext_fs demo_settings ''/n'') = Some [Package ''npm:pi-mcp-adapter-x''] \<and>
   hget (ps_compaction (controllerScopedSettings demo_ext_fs demo_settings ''/n'')) ''reserve'' = Some (JInt 1)"
proof -
  have a: "isConfiguredMcpAdapterPackage (Package '' npm:pi-mcp-adapter@1.2'')" "\<not> isConfiguredMcpAdapterPackage (Package ''npm:pi-mcp-adapter-x'')"
    by (code_simp, code_simp)
  have d: "hget (ps_compaction demo_settings) ''reserve'' = Some (JInt 1)" "ps_packages demo_settings =
      Some [Package '' npm:pi-mcp-adapter@1.2'', Package ''npm:pi-mcp-adapter-x'']"
    by (simp_all add: demo_settings_def hget_def)
  note t = scoped_settings_drop_adapter [of demo_ext_fs demo_settings "''/n''"]
  note kept = conjunct2 [OF conjunct2 [OF t]]
  have "ps_packages (controllerScopedSettings demo_ext_fs demo_settings ''/n'') = Some [Package ''npm:pi-mcp-adapter-x'']"
    using spec [OF conjunct1 [OF kept], THEN mp, OF d(2)] a by simp
  moreover have "hget (ps_compaction (controllerScopedSettings demo_ext_fs demo_settings ''/n'')) ''reserve'' = Some (JInt 1)"
    using spec [OF conjunct1 [OF conjunct2 [OF conjunct2 [OF kept]]], of "''reserve''"] d(1) by simp
  ultimately show ?thesis by blast
qed

end
