(* ===== verification/Recovery.thy ===== *)
theory Recovery
  imports Config_Spec Trace Orphan_Spec Manifest_Spec
begin

text \<open>
  The operator's repair of orphaned compactions (\<open>recoverCompactionFailures\<close> of
  \<open>src/session-controller/src/main.ts\<close>). The calls of its dependencies are effects in a log and answered by
  their position in it. The heartbeat of a claimed chat runs beside the proofs: while a call is awaited it
  makes as many steps as the environment says, and its renewals are effects of the same log.
\<close>

section \<open>State and environment\<close>

datatype recovery_effect =
    X_connect | X_repository | X_acquire | X_consume string | X_renew_app | X_claim string "string option"
  | X_prove repair_claim | X_check claimed_work | X_abort repair_claim file_generation
  | X_release_claim repair_claim | X_release_app fence | X_close_repository | X_close_connections
  | X_beat_app | X_beat_chat

text \<open>The heartbeat: waiting for its timer, between its two renewals, failed, or over.\<close>

datatype recovery_beat = Beat_waiting | Beat_renewing | Beat_failed | Beat_over

record recovery_counts =
  n_scanned :: nat
  n_repaired :: nat
  n_skipped :: nat
  n_failed :: nat

record recov =
  rv_active :: bool
  rv_app :: "fence option"
  rv_claim :: "repair_claim option"
  rv_beat :: recovery_beat
  rv_counts :: recovery_counts
  rv_connected :: bool
  rv_repository :: bool
  rv_log :: "recovery_effect list"

record recovery_env =
  xe_load :: "error_class + recovery_config"
  xe_connect :: "nat \<Rightarrow> error_class + unit"
  xe_repository :: "nat \<Rightarrow> error_class + string list"
  xe_acquire :: "nat \<Rightarrow> error_class + fence option"
  xe_consume :: "nat \<Rightarrow> error_class + string"
  xe_renewApp :: "nat \<Rightarrow> error_class + fence option"
  xe_claim :: "nat \<Rightarrow> error_class + repair_result"
  xe_renew :: "nat \<Rightarrow> error_class + ownership option"
  xe_prove :: "nat \<Rightarrow> error_class + file_generation"
  xe_bool :: "nat \<Rightarrow> error_class + bool"
  xe_unit :: "nat \<Rightarrow> error_class + unit"
  xe_digest :: "repair_claim \<Rightarrow> file_generation \<Rightarrow> error_class + string"
  xe_beats :: "nat \<Rightarrow> nat"

type_synonym 'a rec_exec = "(recov, 'a) exec"

section \<open>The heartbeat\<close>

definition set_claim_ownership :: "(ownership \<Rightarrow> ownership) \<Rightarrow> recov \<Rightarrow> recov" where
  "set_claim_ownership f s =
     s\<lparr>rv_claim := map_option (\<lambda>c. c\<lparr>rc_work := (rc_work c)\<lparr>cw_ownership := f (cw_ownership (rc_work c))\<rparr>\<rparr>) (rv_claim s)\<rparr>"

definition beat_app :: "recovery_env \<Rightarrow> recov \<Rightarrow> recov" where
  "beat_app E s =
     (let n = length (rv_log s); s = s\<lparr>rv_log := rv_log s @ [X_beat_app]\<rparr> in
      case xe_renewApp E n of
        Inr (Some next) \<Rightarrow> (set_claim_ownership (\<lambda>own. own\<lparr>own_app := next\<rparr>) s)\<lparr>rv_app := Some next, rv_beat := Beat_renewing\<rparr>
      | _ \<Rightarrow> s\<lparr>rv_beat := Beat_failed\<rparr>)"

definition beat_chat :: "recovery_env \<Rightarrow> recov \<Rightarrow> recov" where
  "beat_chat E s =
     (let n = length (rv_log s); s = s\<lparr>rv_log := rv_log s @ [X_beat_chat]\<rparr> in
      case xe_renew E n of
        Inr (Some own) \<Rightarrow> (set_claim_ownership (\<lambda>_. own) s)\<lparr>rv_beat := Beat_waiting\<rparr>
      | _ \<Rightarrow> s\<lparr>rv_beat := Beat_failed\<rparr>)"

definition beat :: "recovery_env \<Rightarrow> recov \<Rightarrow> recov" where
  "beat E s = (case rv_beat s of Beat_waiting \<Rightarrow> beat_app E s | Beat_renewing \<Rightarrow> beat_chat E s | _ \<Rightarrow> s)"

text \<open>\<open>stop.abort(); await heartbeat\<close>: an iteration that has begun is finished.\<close>

definition drain_beat :: "recovery_env \<Rightarrow> recov \<Rightarrow> recov" where
  "drain_beat E s =
     (let s = (if rv_beat s = Beat_renewing then beat_chat E s else s) in
      if rv_beat s = Beat_failed then s else s\<lparr>rv_beat := Beat_over\<rparr>)"

definition rec_call :: "recovery_env \<Rightarrow> recovery_effect \<Rightarrow> (nat \<Rightarrow> error_class + 'a) \<Rightarrow> 'a rec_exec" where
  "rec_call E e answer s =
     (answer (length (rv_log s)), (beat E ^^ xe_beats E (length (rv_log s))) (s\<lparr>rv_log := rv_log s @ [e]\<rparr>))"

definition drain :: "recovery_env \<Rightarrow> unit rec_exec" where
  "drain E = modify (drain_beat E)"

definition beat_alive :: "unit rec_exec" where
  "beat_alive = with_state (\<lambda>s. if rv_beat s = Beat_failed then throw Lease_lost else ret ())"

definition with_claim :: "(repair_claim \<Rightarrow> 'a rec_exec) \<Rightarrow> 'a rec_exec" where
  "with_claim f = with_state (\<lambda>s. case rv_claim s of Some c \<Rightarrow> f c | None \<Rightarrow> throw Internal_failed)"

section \<open>One claimed chat\<close>

definition prove :: "recovery_env \<Rightarrow> file_generation rec_exec" where
  "prove E = with_claim (\<lambda>c. rec_call E (X_prove c) (xe_prove E))"

text \<open>A record without recovery binding needs the operator's digest of exactly this tuple.\<close>

definition legacy_check :: "recovery_env \<Rightarrow> file_generation \<Rightarrow> unit rec_exec" where
  "legacy_check E second = with_claim (\<lambda>c.
     if cr_recovery (rc_checkpoint c) \<noteq> None then ret ()
     else
       case rc_intent c of
         None \<Rightarrow> throw Restore_failed
       | Some expected \<Rightarrow>
           if expected = '''' then throw Restore_failed
           else seq (lift (xe_digest E c second)) (\<lambda>d. if d = expected then ret () else throw Restore_failed))"

definition abort_repair :: "recovery_env \<Rightarrow> file_generation \<Rightarrow> unit rec_exec" where
  "abort_repair E second =
     seq (with_claim (\<lambda>c. rec_call E (X_check (rc_work c)) (xe_bool E))) (\<lambda>ok.
       if \<not> ok then throw Restore_failed
       else seq (with_claim (\<lambda>c. rec_call E (X_abort c second) (xe_bool E))) (\<lambda>ok.
         if ok then ret () else throw Restore_failed))"

definition repair_body :: "recovery_env \<Rightarrow> unit rec_exec" where
  "repair_body E =
     seq (prove E) (\<lambda>first.
     seq beat_alive (\<lambda>_.
     seq (prove E) (\<lambda>second.
     with_state (\<lambda>s.
       if rv_beat s = Beat_failed \<or> first \<noteq> second then throw Restore_failed
       else seq (legacy_check E second) (\<lambda>_.
         seq (drain E) (\<lambda>_.
         seq beat_alive (\<lambda>_.
         abort_repair E second)))))))"

text \<open>The result: repaired. A failed repair releases its fence.\<close>

definition release_claim :: "recovery_env \<Rightarrow> unit rec_exec" where
  "release_claim E =
     catch (seq (with_claim (\<lambda>c. rec_call E (X_release_claim c) (xe_bool E))) (\<lambda>_. ret ())) (\<lambda>_. ret ())"

definition settle_claim :: "recovery_env \<Rightarrow> repair_claim \<Rightarrow> bool rec_exec" where
  "settle_claim E c =
     seq (modify (\<lambda>s. s\<lparr>rv_claim := Some c, rv_beat := Beat_waiting\<rparr>)) (\<lambda>_.
     catch (seq (repair_body E) (\<lambda>_. seq (drain E) (\<lambda>_. ret True)))
       (\<lambda>_. seq (drain E) (\<lambda>_. seq (release_claim E) (\<lambda>_. ret False))))"

section \<open>All chats\<close>

definition count_in :: "(recovery_counts \<Rightarrow> recovery_counts) \<Rightarrow> unit rec_exec" where
  "count_in f = modify (\<lambda>s. s\<lparr>rv_counts := f (rv_counts s)\<rparr>)"

abbreviation scanned_one :: "recovery_counts \<Rightarrow> recovery_counts" where
  "scanned_one c \<equiv> c\<lparr>n_scanned := Suc (n_scanned c)\<rparr>"
abbreviation repaired_one :: "recovery_counts \<Rightarrow> recovery_counts" where
  "repaired_one c \<equiv> c\<lparr>n_repaired := Suc (n_repaired c)\<rparr>"
abbreviation skipped_one :: "recovery_counts \<Rightarrow> recovery_counts" where
  "skipped_one c \<equiv> c\<lparr>n_skipped := Suc (n_skipped c)\<rparr>"
abbreviation failed_one :: "recovery_counts \<Rightarrow> recovery_counts" where
  "failed_one c \<equiv> c\<lparr>n_failed := Suc (n_failed c)\<rparr>"

definition recover_chat :: "recovery_env \<Rightarrow> string option \<Rightarrow> string \<Rightarrow> unit rec_exec" where
  "recover_chat E intent chat =
     seq (count_in scanned_one) (\<lambda>_.
     seq (rec_call E X_renew_app (xe_renewApp E)) (\<lambda>renewed.
       case renewed of
         None \<Rightarrow> throw Lease_lost
       | Some app \<Rightarrow>
           seq (modify (\<lambda>s. s\<lparr>rv_app := Some app\<rparr>)) (\<lambda>_.
           seq (rec_call E (X_claim chat intent) (xe_claim E)) (\<lambda>candidate.
             case candidate of
               RR_ineligible \<Rightarrow> count_in skipped_one
             | RR_claimed c \<Rightarrow> seq (settle_claim E c) (\<lambda>ok. count_in (if ok then repaired_one else failed_one))
             | _ \<Rightarrow> count_in failed_one))))"

fun recover_chats :: "recovery_env \<Rightarrow> string option \<Rightarrow> string list \<Rightarrow> unit rec_exec" where
  "recover_chats E intent [] = ret ()"
| "recover_chats E intent (chat # chats) = seq (recover_chat E intent chat) (\<lambda>_. recover_chats E intent chats)"

definition release_app :: "recovery_env \<Rightarrow> fence \<Rightarrow> unit rec_exec" where
  "release_app E app =
     seq (rec_call E (X_release_app app) (xe_bool E)) (\<lambda>ok. if ok then ret () else count_in failed_one)"

definition with_app :: "(fence \<Rightarrow> unit rec_exec) \<Rightarrow> unit rec_exec" where
  "with_app f = with_state (\<lambda>s. case rv_app s of Some a \<Rightarrow> f a | None \<Rightarrow> ret ())"

definition recover_main :: "recovery_env \<Rightarrow> unit rec_exec" where
  "recover_main E =
     seq (lift (xe_load E)) (\<lambda>config.
     seq (rec_call E X_connect (xe_connect E)) (\<lambda>_.
     seq (modify (\<lambda>s. s\<lparr>rv_connected := True\<rparr>)) (\<lambda>_.
     seq (rec_call E X_repository (xe_repository E)) (\<lambda>chats.
     seq (modify (\<lambda>s. s\<lparr>rv_repository := True\<rparr>)) (\<lambda>_.
     seq (rec_call E X_acquire (xe_acquire E)) (\<lambda>app.
       case app of
         None \<Rightarrow> throw Lease_lost
       | Some app \<Rightarrow>
           seq (modify (\<lambda>s. s\<lparr>rv_app := Some app\<rparr>)) (\<lambda>_.
           seq (case rf_manifestPath config of
                  None \<Rightarrow> ret None
                | Some path \<Rightarrow> seq (rec_call E (X_consume path) (xe_consume E)) (\<lambda>d. ret (Some d))) (\<lambda>intent.
           seq (recover_chats E intent chats) (\<lambda>_.
           seq (with_app (release_app E)) (\<lambda>_.
           modify (\<lambda>s. s\<lparr>rv_app := None\<rparr>)))))))))))"

text \<open>The \<open>finally\<close> block: what is still held is given back, each on its own.\<close>

definition counted :: "unit rec_exec \<Rightarrow> unit rec_exec" where
  "counted m = catch m (\<lambda>_. count_in failed_one)"

definition recover_close :: "recovery_env \<Rightarrow> unit rec_exec" where
  "recover_close E = with_state (\<lambda>s.
     seq (if rv_repository s then counted (with_app (release_app E)) else ret ()) (\<lambda>_.
       if rv_repository s then counted (rec_call E X_close_repository (xe_unit E))
       else if rv_connected s then counted (rec_call E X_close_connections (xe_unit E))
       else ret ()))"

definition no_counts :: recovery_counts where
  "no_counts = \<lparr>n_scanned = 0, n_repaired = 0, n_skipped = 0, n_failed = 0\<rparr>"

definition recovery_start_state :: "recov \<Rightarrow> recov" where
  "recovery_start_state s = s\<lparr>rv_active := True, rv_app := None, rv_claim := None, rv_beat := Beat_over,
     rv_counts := no_counts, rv_connected := False, rv_repository := False\<rparr>"

text \<open>The exit code, the reported counts, and the state after it. A second run beside an active one only reports.\<close>

definition recoverCompactionFailures :: "recovery_env \<Rightarrow> recov \<Rightarrow> (nat \<times> recovery_counts) \<times> recov" where
  "recoverCompactionFailures E s =
     (if rv_active s then ((1, no_counts\<lparr>n_failed := 1\<rparr>), s)
      else
        let s' = snd (seq (counted (recover_main E)) (\<lambda>_. recover_close E) (recovery_start_state s))
        in ((if 0 < n_failed (rv_counts s') then 1 else 0, rv_counts s'), s'\<lparr>rv_active := False\<rparr>))"

end
