(* ===== verification/Recovery_Spec.thy ===== *)
theory Recovery_Spec
  imports Recovery
begin

text \<open>
  What the operator's repair does in every run, whatever its dependencies answer and whenever the
  heartbeat runs: an abort rests on two equal proofs, a confirmed ownership and a drained heartbeat; and
  exit code 0 means that every chat was repaired or had nothing to repair.
\<close>

section \<open>What an abort needs\<close>

text \<open>What the heartbeat does not change of a claim.\<close>

definition core :: "repair_claim \<Rightarrow> stream_id \<times> notification \<times> session_binding \<times> checkpoint_record \<times> string option" where
  "core c = (cw_streamId (rc_work c), cw_event (rc_work c), rc_binding c, rc_checkpoint c, rc_intent c)"

type_synonym claim_core = "stream_id \<times> notification \<times> session_binding \<times> checkpoint_record \<times> string option"

definition claim_granted :: "recovery_env \<Rightarrow> claim_core \<Rightarrow> recovery_effect list \<Rightarrow> bool" where
  "claim_granted E k log \<longleftrightarrow> (\<exists>chat intent c. core c = k \<and> answered log (X_claim chat intent) (xe_claim E) (RR_claimed c))"

definition proved_once :: "recovery_env \<Rightarrow> claim_core \<Rightarrow> file_generation \<Rightarrow> recovery_effect list \<Rightarrow> bool" where
  "proved_once E k g log \<longleftrightarrow> (\<exists>c. core c = k \<and> answered log (X_prove c) (xe_prove E) g)"

definition proved_twice :: "recovery_env \<Rightarrow> claim_core \<Rightarrow> file_generation \<Rightarrow> recovery_effect list \<Rightarrow> bool" where
  "proved_twice E k g log \<longleftrightarrow> (\<exists>c. core c = k \<and> answered_since log (X_prove c) (xe_prove E) g (proved_once E k g))"

definition authorized :: "recovery_env \<Rightarrow> claim_core \<Rightarrow> file_generation \<Rightarrow> bool" where
  "authorized E k g \<longleftrightarrow> (case k of (i, ev, b, r, intent) \<Rightarrow>
     cr_recovery r \<noteq> None \<or> (\<exists>d c. intent = Some d \<and> d \<noteq> '''' \<and> core c = k \<and> xe_digest E c g = Inr d))"

definition abort_evidence :: "recovery_env \<Rightarrow> claim_core \<Rightarrow> file_generation \<Rightarrow> recovery_effect list \<Rightarrow> bool" where
  "abort_evidence E k g log \<longleftrightarrow> claim_granted E k log \<and> proved_twice E k g log \<and> authorized E k g"

fun is_mark :: "recovery_effect \<Rightarrow> bool" where
  "is_mark (X_claim chat intent) = True"
| "is_mark (X_check w) = True"
| "is_mark (X_abort c g) = True"
| "is_mark (X_release_claim c) = True"
| "is_mark _ = False"

text \<open>A claim was made and neither its final check nor its release has begun.\<close>

definition beats_open :: "recovery_effect list \<Rightarrow> bool" where
  "beats_open log \<longleftrightarrow> (\<exists>chat intent marks. filter is_mark log = marks @ [X_claim chat intent])"

definition recovery_guard :: "recovery_env \<Rightarrow> recovery_effect list \<Rightarrow> recovery_effect \<Rightarrow> bool" where
  "recovery_guard E log e \<longleftrightarrow>
     (case e of
        X_abort c g \<Rightarrow> abort_evidence E (core c) g log \<and> log \<noteq> [] \<and> last log = X_check (rc_work c) \<and>
          xe_bool E (length log - 1) = Inr True
      | X_beat_app \<Rightarrow> beats_open log
      | X_beat_chat \<Rightarrow> beats_open log
      | _ \<Rightarrow> True)"

lemma growing_ex [intro, simp]: "(\<And>x. keeps_growing (X x)) \<Longrightarrow> keeps_growing (\<lambda>log. \<exists>x. X x log)"
  by (auto simp: keeps_growing_def)

lemma growing_evidence [intro, simp]:
  "keeps_growing (claim_granted E k)" "keeps_growing (proved_once E k g)" "keeps_growing (proved_twice E k g)"
proof -
  show "keeps_growing (claim_granted E k)" unfolding claim_granted_def by (intro growing_ex keeps_growing_intros)
  show "keeps_growing (proved_once E k g)" unfolding proved_once_def by (intro growing_ex keeps_growing_intros)
  show "keeps_growing (proved_twice E k g)" unfolding proved_twice_def
    by (intro growing_ex keeps_growing_intros keeps_growing_since)
qed

section \<open>The heartbeat\<close>

definition beat_quiet :: "recov \<Rightarrow> bool" where
  "beat_quiet s \<longleftrightarrow> rv_beat s = Beat_failed \<or> rv_beat s = Beat_over"

definition claim_is :: "claim_core option \<Rightarrow> recov \<Rightarrow> bool" where
  "claim_is k s \<longleftrightarrow> map_option core (rv_claim s) = k"

text \<open>The log is guarded, the claim is the one of core \<open>k\<close>, and a running heartbeat is one that may run.\<close>

definition steady :: "recovery_env \<Rightarrow> claim_core option \<Rightarrow> recov \<Rightarrow> bool" where
  "steady E k s \<longleftrightarrow> guarded (recovery_guard E) (rv_log s) \<and> claim_is k s \<and> (beat_quiet s \<or> beats_open (rv_log s))"

lemma core_ownership [simp]:
  "core (c\<lparr>rc_work := (rc_work c)\<lparr>cw_ownership := own\<rparr>\<rparr>) = core c"
  by (simp add: core_def)

lemma claim_is_ownership: "claim_is k s \<Longrightarrow> claim_is k (set_claim_ownership f s)"
  by (cases "rv_claim s") (auto simp: claim_is_def set_claim_ownership_def)

lemma beats_open_neutral [simp]: "\<not> is_mark e \<Longrightarrow> beats_open (log @ [e]) = beats_open log"
  by (simp add: beats_open_def)

lemma set_claim_ownership_fields [simp]:
  "rv_log (set_claim_ownership f s) = rv_log s" "rv_beat (set_claim_ownership f s) = rv_beat s"
  "rv_counts (set_claim_ownership f s) = rv_counts s"
  by (simp_all add: set_claim_ownership_def)

lemma steady_beat_app:
  assumes "steady E k s" "\<not> beat_quiet s"
  shows "steady E k (beat_app E s) \<and> (\<exists>es. rv_log (beat_app E s) = rv_log s @ es)"
  using assms
  by (auto simp: beat_app_def Let_def steady_def guarded_snoc recovery_guard_def beat_quiet_def claim_is_def
      set_claim_ownership_def option.map_comp comp_def split: sum.split option.split)

lemma steady_beat_chat:
  assumes "steady E k s" "\<not> beat_quiet s"
  shows "steady E k (beat_chat E s) \<and> (\<exists>es. rv_log (beat_chat E s) = rv_log s @ es)"
  using assms
  by (auto simp: beat_chat_def Let_def steady_def guarded_snoc recovery_guard_def beat_quiet_def claim_is_def
      set_claim_ownership_def option.map_comp comp_def split: sum.split option.split)

lemma steady_beat:
  assumes "steady E k s"
  shows "steady E k (beat E s) \<and> (\<exists>es. rv_log (beat E s) = rv_log s @ es)"
  using assms steady_beat_app [OF assms] steady_beat_chat [OF assms]
  by (cases "rv_beat s") (auto simp: beat_def beat_quiet_def)

lemma steady_beats: "steady E k s \<Longrightarrow> steady E k ((beat E ^^ n) s) \<and> (\<exists>es. rv_log ((beat E ^^ n) s) = rv_log s @ es)"
proof (induction n)
  case (Suc n)
  then show ?case using steady_beat [of E k "(beat E ^^ n) s"] by auto
qed simp

lemma growing_append: "keeps_growing X \<Longrightarrow> X log \<Longrightarrow> X (log @ es)"
proof (induction es rule: rev_induct)
  case (snoc e es)
  then show ?case unfolding keeps_growing_def by (metis append_assoc)
qed simp

lemma quiet_beats [simp]: "beat_quiet s \<Longrightarrow> (beat E ^^ n) s = s"
  by (induction n) (auto simp: beat_def beat_quiet_def split: recovery_beat.split)

section \<open>Calls\<close>

text \<open>While a heartbeat may run: the claim stays the same and nothing that was learnt is lost.\<close>

lemma triple_rec_call:
  assumes "\<not> is_mark e" "\<And>log. recovery_guard E log e" "keeps_growing X"
  shows "triple (\<lambda>s. steady E k s \<and> X (rv_log s)) (rec_call E e f)
    (\<lambda>x s. steady E k s \<and> X (rv_log s) \<and> answered_since (rv_log s) e f x X) (\<lambda>_. steady E k)"
proof (rule tripleI)
  fix s r assume s: "steady E k s \<and> X (rv_log s)"
  let ?s = "s\<lparr>rv_log := rv_log s @ [e]\<rparr>" and ?n = "xe_beats E (length (rv_log s))"
  have "steady E k ?s"
    using s assms(1,2) by (auto simp: steady_def guarded_snoc claim_is_def beat_quiet_def)
  from steady_beats [OF this, of ?n] obtain es where
    st: "steady E k ((beat E ^^ ?n) ?s)" "rv_log ((beat E ^^ ?n) ?s) = (rv_log s @ [e]) @ es" by auto
  {
    fix x s' assume "rec_call E e f s = (Inr x, s')"
    then have r: "f (length (rv_log s)) = Inr x" "s' = (beat E ^^ ?n) ?s" by (simp_all add: rec_call_def)
    have "answered_since (rv_log s @ [e]) e f x X" using s r(1) by (simp add: answered_since_snoc)
    then have "answered_since (rv_log s') e f x X"
      unfolding r(2) st(2) by (rule growing_append [OF keeps_growing_since])
    moreover have "X (rv_log s')"
      unfolding r(2) st(2) append_assoc using growing_append [OF assms(3)] s by blast
    ultimately show "steady E k s' \<and> X (rv_log s') \<and> answered_since (rv_log s') e f x X"
      using st(1) r(2) by simp
  }
  fix e' s' assume "rec_call E e f s = (Inl e', s')"
  then show "steady E k s'" using st(1) by (simp add: rec_call_def)
qed

text \<open>With the heartbeat over, a call is one effect.\<close>

lemma triple_quiet_call:
  assumes "\<And>s. P s \<Longrightarrow> beat_quiet s"
    and "\<And>s x. P s \<Longrightarrow> f (length (rv_log s)) = Inr x \<Longrightarrow> Q x (s\<lparr>rv_log := rv_log s @ [e]\<rparr>)"
    and "\<And>s x. P s \<Longrightarrow> f (length (rv_log s)) = Inl x \<Longrightarrow> R x (s\<lparr>rv_log := rv_log s @ [e]\<rparr>)"
  shows "triple P (rec_call E e f) Q R"
proof -
  have "rec_call E e f s = (f (length (rv_log s)), s\<lparr>rv_log := rv_log s @ [e]\<rparr>)" if "P s" for s
    using quiet_beats [where s = "s\<lparr>rv_log := rv_log s @ [e]\<rparr>" and E = E] assms(1) [OF that] by (simp add: rec_call_def beat_quiet_def)
  then show ?thesis using assms(2,3) by (auto simp: triple_def split: sum.split)
qed

lemma triple_with_claim:
  assumes "\<And>c. core c = k \<Longrightarrow> triple (\<lambda>s. P s \<and> rv_claim s = Some c) (f c) Q R" "\<And>s. P s \<Longrightarrow> claim_is (Some k) s"
  shows "triple P (with_claim f) Q R"
proof (unfold triple_def, intro allI impI)
  fix s assume P: "P s"
  then obtain c where c: "rv_claim s = Some c" "core c = k" using assms(2) by (auto simp: claim_is_def)
  then show "case with_claim f s of (Inl e, s') \<Rightarrow> R e s' | (Inr x, s') \<Rightarrow> Q x s'"
    using assms(1) [OF c(2)] P by (auto simp: with_claim_def with_state_def triple_def)
qed

section \<open>One claim\<close>

lemma keeps_granted [simp]: "keeps_growing (\<lambda>log. claim_granted E k log \<and> P)"
  by (intro keeps_growing_intros growing_evidence)

lemma triple_prove:
  assumes "keeps_growing X"
  shows "triple (\<lambda>s. steady E (Some k) s \<and> X (rv_log s)) (prove E)
    (\<lambda>g s. steady E (Some k) s \<and> X (rv_log s) \<and>
       (\<exists>c. core c = k \<and> answered_since (rv_log s) (X_prove c) (xe_prove E) g X)) (\<lambda>_. steady E (Some k))"
  unfolding prove_def
proof (rule triple_with_claim [where k = k])
  fix c assume c: "core c = k"
  show "triple (\<lambda>s. (steady E (Some k) s \<and> X (rv_log s)) \<and> rv_claim s = Some c) (rec_call E (X_prove c) (xe_prove E))
    (\<lambda>g s. steady E (Some k) s \<and> X (rv_log s) \<and>
       (\<exists>c. core c = k \<and> answered_since (rv_log s) (X_prove c) (xe_prove E) g X)) (\<lambda>_. steady E (Some k))"
    by (rule triple_weaken [OF triple_rec_call [OF _ _ assms]])
      (use c in \<open>auto simp: recovery_guard_def\<close>)
qed (simp add: steady_def)

lemma since_answered: "answered_since log e f x X \<Longrightarrow> answered log e f x"
  by (auto simp: answered_since_def answered_def)

lemma triple_throw_if: "triple P (if b then throw e else ret ()) (\<lambda>_ s. P s \<and> \<not> b) (\<lambda>_. P)"
  by (simp add: triple_def throw_def ret_def)

lemma triple_beat_alive: "triple P beat_alive (\<lambda>_ s. P s \<and> rv_beat s \<noteq> Beat_failed) (\<lambda>_. P)"
  by (auto simp: triple_def beat_alive_def with_state_def throw_def ret_def)

lemma drain_steady:
  assumes "steady E k s"
  shows "steady E k (drain_beat E s) \<and> beat_quiet (drain_beat E s) \<and> (\<exists>es. rv_log (drain_beat E s) = rv_log s @ es)"
proof -
  let ?s = "if rv_beat s = Beat_renewing then beat_chat E s else s"
  have "steady E k ?s \<and> (\<exists>es. rv_log ?s = rv_log s @ es)"
    using assms steady_beat_chat [OF assms] by (auto simp: beat_quiet_def)
  then show ?thesis by (auto simp: drain_beat_def Let_def steady_def beat_quiet_def claim_is_def)
qed

lemma triple_drain:
  assumes "keeps_growing X"
  shows "triple (\<lambda>s. steady E k s \<and> X (rv_log s)) (drain E) (\<lambda>_ s. steady E k s \<and> beat_quiet s \<and> X (rv_log s)) R"
proof (unfold drain_def, rule triple_modify)
  fix s assume s: "steady E k s \<and> X (rv_log s)"
  then obtain es where "steady E k (drain_beat E s)" "beat_quiet (drain_beat E s)" "rv_log (drain_beat E s) = rv_log s @ es"
    using drain_steady by blast
  then show "steady E k (drain_beat E s) \<and> beat_quiet (drain_beat E s) \<and> X (rv_log (drain_beat E s))"
    using s growing_append [OF assms] by simp
qed

lemma triple_legacy_check:
  "triple (\<lambda>s. steady E (Some k) s \<and> X (rv_log s)) (legacy_check E g)
    (\<lambda>_ s. steady E (Some k) s \<and> X (rv_log s) \<and> authorized E k g) (\<lambda>_. steady E (Some k))"
  unfolding legacy_check_def
proof (rule triple_with_claim [where k = k])
  fix c assume "core c = k"
  then show "triple (\<lambda>s. (steady E (Some k) s \<and> X (rv_log s)) \<and> rv_claim s = Some c)
     (if cr_recovery (rc_checkpoint c) \<noteq> None then ret ()
      else case rc_intent c of None \<Rightarrow> throw Restore_failed
        | Some expected \<Rightarrow> if expected = '''' then throw Restore_failed
            else seq (lift (xe_digest E c g)) (\<lambda>d. if d = expected then ret () else throw Restore_failed))
     (\<lambda>_ s. steady E (Some k) s \<and> X (rv_log s) \<and> authorized E k g) (\<lambda>_. steady E (Some k))"
    by (cases "xe_digest E c g") (auto simp: triple_def ret_def throw_def authorized_def core_def split: option.split)
qed (simp add: steady_def)

text \<open>The last two calls: with the heartbeat drained nothing comes between the check and the abort.\<close>

lemma triple_abort_repair:
  "triple (\<lambda>s. steady E (Some k) s \<and> beat_quiet s \<and> abort_evidence E k g (rv_log s)) (abort_repair E g)
    (\<lambda>_. \<lambda>s. steady E (Some k) s \<and> beat_quiet s) (\<lambda>_ s. steady E (Some k) s \<and> beat_quiet s)"
proof -
  let ?P = "\<lambda>s. steady E (Some k) s \<and> beat_quiet s \<and> abort_evidence E k g (rv_log s)"
  let ?Q = "\<lambda>c s. ?P s \<and> rv_claim s = Some c \<and> rv_log s \<noteq> [] \<and> last (rv_log s) = X_check (rc_work c) \<and>
     xe_bool E (length (rv_log s) - 1) = Inr True"
  let ?R = "\<lambda>_ s. steady E (Some k) s \<and> beat_quiet s"
  have grow: "keeps_growing (abort_evidence E k g)"
    unfolding abort_evidence_def by (intro keeps_growing_intros growing_evidence)
  have check: "triple ?P (with_claim (\<lambda>c. rec_call E (X_check (rc_work c)) (xe_bool E)))
      (\<lambda>ok s. ?P s \<and> (ok \<longrightarrow> (\<exists>c. ?Q c s))) ?R"
  proof (rule triple_with_claim [where k = k])
    fix c assume "core c = k"
    show "triple (\<lambda>s. ?P s \<and> rv_claim s = Some c) (rec_call E (X_check (rc_work c)) (xe_bool E))
        (\<lambda>ok s. ?P s \<and> (ok \<longrightarrow> (\<exists>c. ?Q c s))) ?R"
      by (rule triple_quiet_call)
        (use growing_append [OF grow] in \<open>auto simp: steady_def guarded_snoc recovery_guard_def claim_is_def beat_quiet_def\<close>)
  qed (simp add: steady_def)
  have abort: "triple (\<lambda>s. \<exists>c. ?Q c s) (with_claim (\<lambda>c. rec_call E (X_abort c g) (xe_bool E))) (\<lambda>_ s. ?R () s) ?R"
  proof (rule triple_with_claim [where k = k])
    fix c assume c: "core c = k"
    show "triple (\<lambda>s. (\<exists>c. ?Q c s) \<and> rv_claim s = Some c) (rec_call E (X_abort c g) (xe_bool E)) (\<lambda>_ s. ?R () s) ?R"
      by (rule triple_quiet_call) (use c in \<open>auto simp: steady_def guarded_snoc recovery_guard_def claim_is_def beat_quiet_def\<close>)
  qed (auto simp: steady_def)
  have tail: "triple (\<lambda>s. \<exists>c. ?Q c s) (seq (with_claim (\<lambda>c. rec_call E (X_abort c g) (xe_bool E)))
      (\<lambda>ok. if ok then ret () else throw Restore_failed)) (\<lambda>_ s. ?R () s) ?R"
    by (rule triple_seq [OF abort], rule triple_if, rule triple_ret, simp, rule triple_throw, simp)
  show ?thesis
    unfolding abort_repair_def
    by (rule triple_seq [OF check], rule triple_if, rule triple_throw, simp, rule triple_weaken [OF tail]) auto
qed

text \<open>The body of a repair keeps the guard, and its abort has its evidence.\<close>

lemma triple_repair_body:
  "triple (\<lambda>s. steady E (Some k) s \<and> claim_granted E k (rv_log s)) (repair_body E)
    (\<lambda>_. steady E (Some k)) (\<lambda>_. steady E (Some k))"
proof -
  let ?G = "\<lambda>log. claim_granted E k log"
  let ?once = "\<lambda>g log. claim_granted E k log \<and> proved_once E k g log"
  let ?twice = "\<lambda>g log. claim_granted E k log \<and> proved_twice E k g log"
  have first: "triple (\<lambda>s. steady E (Some k) s \<and> ?G (rv_log s)) (prove E)
      (\<lambda>g s. steady E (Some k) s \<and> ?once g (rv_log s)) (\<lambda>_. steady E (Some k))"
    by (rule triple_weaken [OF triple_prove [of ?G]]) (auto simp: proved_once_def intro: since_answered)
  have second: "triple (\<lambda>s. steady E (Some k) s \<and> ?once g (rv_log s)) (prove E)
      (\<lambda>h s. steady E (Some k) s \<and> (h = g \<longrightarrow> ?twice g (rv_log s))) (\<lambda>_. steady E (Some k))" for g
  proof (rule triple_weaken [OF triple_prove [of "?once g"]])
    fix h s assume "steady E (Some k) s \<and> ?once g (rv_log s) \<and>
      (\<exists>c. core c = k \<and> answered_since (rv_log s) (X_prove c) (xe_prove E) h (?once g))"
    then show "steady E (Some k) s \<and> (h = g \<longrightarrow> ?twice g (rv_log s))"
      by (auto simp: proved_twice_def answered_since_def)
  qed (auto intro: keeps_growing_intros)
  have finish: "triple (\<lambda>s. steady E (Some k) s \<and> ?twice g (rv_log s))
      (seq (legacy_check E g) (\<lambda>_. seq (drain E) (\<lambda>_. seq beat_alive (\<lambda>_. abort_repair E g))))
      (\<lambda>_. steady E (Some k)) (\<lambda>_. steady E (Some k))" for g
  proof (rule triple_seq [OF triple_legacy_check [of _ _ "?twice g"]])
    have drained: "triple (\<lambda>s. steady E (Some k) s \<and> ?twice g (rv_log s) \<and> authorized E k g) (drain E)
        (\<lambda>_ s. steady E (Some k) s \<and> beat_quiet s \<and> abort_evidence E k g (rv_log s)) (\<lambda>_. steady E (Some k))"
      by (rule triple_weaken [OF triple_drain [of "\<lambda>log. ?twice g log \<and> authorized E k g"]])
        (auto simp: abort_evidence_def intro!: keeps_growing_intros growing_evidence)
    show "triple (\<lambda>s. steady E (Some k) s \<and> ?twice g (rv_log s) \<and> authorized E k g)
        (seq (drain E) (\<lambda>_. seq beat_alive (\<lambda>_. abort_repair E g))) (\<lambda>_. steady E (Some k)) (\<lambda>_. steady E (Some k))"
      by (rule triple_seq [OF drained], rule triple_seq [OF triple_weaken [OF triple_beat_alive]], assumption, assumption,
          simp, rule triple_weaken [OF triple_abort_repair]) auto
  qed
  show ?thesis
    unfolding repair_body_def
    by (rule triple_seq [OF first], rule triple_seq [OF triple_weaken [OF triple_beat_alive]], assumption, assumption, simp,
        rule triple_weaken [OF triple_seq [OF second]])
      (auto intro!: triple_with_state triple_if triple_throw intro: triple_weaken [OF finish])
qed

section \<open>The whole run\<close>

definition calm_log :: "recovery_env \<Rightarrow> recov \<Rightarrow> bool" where
  "calm_log E s \<longleftrightarrow> guarded (recovery_guard E) (rv_log s) \<and> beat_quiet s"

lemma steady_calm: "steady E k s \<Longrightarrow> beat_quiet s \<Longrightarrow> calm_log E s"
  by (simp add: steady_def calm_log_def)

lemma triple_calm_call:
  assumes "\<And>log. recovery_guard E log e"
  shows "triple (calm_log E) (rec_call E e f) (\<lambda>_. calm_log E) (\<lambda>_. calm_log E)"
  by (rule triple_quiet_call) (use assms in \<open>auto simp: calm_log_def guarded_snoc beat_quiet_def\<close>)

lemma triple_calm_modify:
  "(\<And>s. rv_log (f s) = rv_log s \<and> rv_beat (f s) = rv_beat s) \<Longrightarrow> triple (calm_log E) (modify f) (\<lambda>_. calm_log E) R"
  by (rule triple_modify) (simp add: calm_log_def beat_quiet_def)

lemma triple_calm_count: "triple (calm_log E) (count_in f) (\<lambda>_. calm_log E) R"
  unfolding count_in_def by (rule triple_calm_modify) simp

lemma triple_release_claim:
  "triple (\<lambda>s. steady E (Some k) s \<and> beat_quiet s) (release_claim E) (\<lambda>_. calm_log E) (\<lambda>_. calm_log E)"
proof -
  have "triple (\<lambda>s. steady E (Some k) s \<and> beat_quiet s) (with_claim (\<lambda>c. rec_call E (X_release_claim c) (xe_bool E)))
      (\<lambda>_. calm_log E) (\<lambda>_. calm_log E)"
  proof (rule triple_with_claim [where k = k])
    fix c
    show "triple (\<lambda>s. (steady E (Some k) s \<and> beat_quiet s) \<and> rv_claim s = Some c)
        (rec_call E (X_release_claim c) (xe_bool E)) (\<lambda>_. calm_log E) (\<lambda>_. calm_log E)"
      by (rule triple_weaken [OF triple_calm_call]) (auto simp: recovery_guard_def steady_calm)
  qed (simp add: steady_def)
  then show ?thesis
    unfolding release_claim_def by (intro triple_catch [OF triple_seq] triple_ret) assumption+
qed

lemma triple_settle_claim:
  "triple (\<lambda>s. calm_log E s \<and> claim_granted E (core c) (rv_log s) \<and> beats_open (rv_log s)) (settle_claim E c)
    (\<lambda>_. calm_log E) (\<lambda>_. calm_log E)"
proof -
  let ?k = "core c" and ?start = "\<lambda>s. s\<lparr>rv_claim := Some c, rv_beat := Beat_waiting\<rparr>"
  have start: "triple (\<lambda>s. calm_log E s \<and> claim_granted E ?k (rv_log s) \<and> beats_open (rv_log s)) (modify ?start)
      (\<lambda>_ s. steady E (Some ?k) s \<and> claim_granted E ?k (rv_log s)) (\<lambda>_. calm_log E)"
    by (rule triple_modify) (simp add: calm_log_def steady_def claim_is_def)
  have drained: "triple (steady E (Some ?k)) (drain E) (\<lambda>_ s. steady E (Some ?k) s \<and> beat_quiet s) R" for R
    by (rule triple_weaken [OF triple_drain [of "\<lambda>_. True"]]) auto
  have good: "triple (\<lambda>s. steady E (Some ?k) s \<and> claim_granted E ?k (rv_log s))
      (seq (repair_body E) (\<lambda>_. seq (drain E) (\<lambda>_. ret True))) (\<lambda>_. calm_log E) (\<lambda>_. steady E (Some ?k))"
    by (rule triple_seq [OF triple_repair_body], rule triple_seq [OF drained], rule triple_ret) (auto intro: steady_calm)
  have bad: "triple (steady E (Some ?k)) (seq (drain E) (\<lambda>_. seq (release_claim E) (\<lambda>_. ret False)))
      (\<lambda>_. calm_log E) (\<lambda>_. calm_log E)"
    by (rule triple_seq [OF drained], rule triple_seq [OF triple_release_claim], rule triple_ret)
  show ?thesis
    unfolding settle_claim_def by (rule triple_seq [OF start], rule triple_catch [OF good bad])
qed

lemma triple_recover_chat: "triple (calm_log E) (recover_chat E intent chat) (\<lambda>_. calm_log E) (\<lambda>_. calm_log E)"
proof -
  have claim: "triple (calm_log E) (rec_call E (X_claim chat intent) (xe_claim E))
      (\<lambda>r s. calm_log E s \<and> (\<forall>c. r = RR_claimed c \<longrightarrow> claim_granted E (core c) (rv_log s) \<and> beats_open (rv_log s)))
      (\<lambda>_. calm_log E)"
    by (rule triple_quiet_call)
      (auto simp: calm_log_def guarded_snoc recovery_guard_def beat_quiet_def claim_granted_def answered_snoc beats_open_def)
  have settle: "triple (\<lambda>s. calm_log E s \<and> (\<forall>c. r = RR_claimed c \<longrightarrow> claim_granted E (core c) (rv_log s) \<and> beats_open (rv_log s)))
      (case r of RR_ineligible \<Rightarrow> count_in skipped_one
        | RR_claimed c \<Rightarrow> seq (settle_claim E c) (\<lambda>ok. count_in (if ok then repaired_one else failed_one))
        | _ \<Rightarrow> count_in failed_one) (\<lambda>_. calm_log E) (\<lambda>_. calm_log E)" for r
  proof (cases r)
    case (RR_claimed c)
    have "triple (\<lambda>s. calm_log E s \<and> claim_granted E (core c) (rv_log s) \<and> beats_open (rv_log s))
        (seq (settle_claim E c) (\<lambda>ok. count_in (if ok then repaired_one else failed_one))) (\<lambda>_. calm_log E) (\<lambda>_. calm_log E)"
      by (rule triple_seq [OF triple_settle_claim triple_calm_count])
    then show ?thesis unfolding RR_claimed repair_result.case by (rule triple_weaken) auto
  qed (auto intro: triple_weaken [OF triple_calm_count])
  show ?thesis
    unfolding recover_chat_def
    by (rule triple_seq [OF triple_calm_count], rule triple_seq [OF triple_calm_call], simp add: recovery_guard_def,
        rule triple_option, rule triple_throw, simp,
        rule triple_seq [OF triple_calm_modify], simp, rule triple_seq [OF claim settle])
qed

lemma triple_recover_chats: "triple (calm_log E) (recover_chats E intent chats) (\<lambda>_. calm_log E) (\<lambda>_. calm_log E)"
proof (induction chats)
  case Nil
  show ?case by (simp add: triple_def ret_def)
next
  case (Cons chat chats)
  show ?case unfolding recover_chats.simps by (rule triple_seq [OF triple_recover_chat Cons])
qed

lemma triple_release_app: "triple (calm_log E) (release_app E app) (\<lambda>_. calm_log E) (\<lambda>_. calm_log E)"
  unfolding release_app_def
  by (rule triple_seq [OF triple_calm_call], simp add: recovery_guard_def,
      rule triple_if, rule triple_ret, assumption, rule triple_calm_count)

lemma triple_with_app:
  assumes "\<And>a. triple P (f a) (\<lambda>_. P) (\<lambda>_. P)"
  shows "triple P (with_app f) (\<lambda>_. P) (\<lambda>_. P)"
  using assms by (auto simp: triple_def with_app_def with_state_def ret_def split: option.split)

lemma triple_counted: "triple (calm_log E) m (\<lambda>_. calm_log E) (\<lambda>_. calm_log E) \<Longrightarrow>
    triple (calm_log E) (counted m) (\<lambda>_. calm_log E) R"
  unfolding counted_def by (rule triple_catch) (auto intro: triple_calm_count)

lemma triple_recover_main: "triple (calm_log E) (recover_main E) (\<lambda>_. calm_log E) (\<lambda>_. calm_log E)"
proof -
  have consume: "triple (calm_log E) (case path of None \<Rightarrow> ret None
      | Some path \<Rightarrow> seq (rec_call E (X_consume path) (xe_consume E)) (\<lambda>d. ret (Some d))) (\<lambda>_. calm_log E) (\<lambda>_. calm_log E)" for path
    by (rule triple_option, rule triple_ret, assumption, rule triple_seq [OF triple_calm_call],
        simp add: recovery_guard_def, rule triple_ret)
  have rest: "triple (calm_log E) (case app of None \<Rightarrow> throw Lease_lost
     | Some app \<Rightarrow>
        seq (modify (\<lambda>s. s\<lparr>rv_app := Some app\<rparr>)) (\<lambda>_.
        seq (case path of None \<Rightarrow> ret None
           | Some path \<Rightarrow> seq (rec_call E (X_consume path) (xe_consume E)) (\<lambda>d. ret (Some d))) (\<lambda>intent.
        seq (recover_chats E intent chats) (\<lambda>_.
        seq (with_app (release_app E)) (\<lambda>_. modify (\<lambda>s. s\<lparr>rv_app := None\<rparr>)))))) (\<lambda>_. calm_log E) (\<lambda>_. calm_log E)"
    for app path chats
    by (rule triple_option, rule triple_throw, assumption, rule triple_seq [OF triple_calm_modify], simp,
        rule triple_seq [OF consume], rule triple_seq [OF triple_recover_chats],
        rule triple_seq [OF triple_with_app [OF triple_release_app]], rule triple_calm_modify, simp)
  show ?thesis
    unfolding recover_main_def
    by (rule triple_seq [OF triple_lift [of _ _ _ "\<lambda>_. calm_log E"]], assumption, assumption,
        rule triple_seq [OF triple_calm_call], simp add: recovery_guard_def, rule triple_seq [OF triple_calm_modify], simp,
        rule triple_seq [OF triple_calm_call], simp add: recovery_guard_def, rule triple_seq [OF triple_calm_modify], simp,
        rule triple_seq [OF triple_calm_call], simp add: recovery_guard_def, rule rest)
qed

lemma triple_recover_close: "triple (calm_log E) (recover_close E) (\<lambda>_. calm_log E) (\<lambda>_. calm_log E)"
proof -
  have calls: "triple (calm_log E) (counted (with_app (release_app E))) (\<lambda>_. calm_log E) R"
    "triple (calm_log E) (counted (rec_call E X_close_repository (xe_unit E))) (\<lambda>_. calm_log E) R"
    "triple (calm_log E) (counted (rec_call E X_close_connections (xe_unit E))) (\<lambda>_. calm_log E) R" for R
    by (rule triple_counted [OF triple_with_app [OF triple_release_app]], rule triple_counted [OF triple_calm_call],
        simp add: recovery_guard_def, rule triple_counted [OF triple_calm_call], simp add: recovery_guard_def)
  have skip: "triple (calm_log E) (ret ()) (\<lambda>_. calm_log E) R" for R by (rule triple_ret)
  have "triple (calm_log E) (seq (if a then counted (with_app (release_app E)) else ret ()) (\<lambda>_.
       if a then counted (rec_call E X_close_repository (xe_unit E))
       else if b then counted (rec_call E X_close_connections (xe_unit E)) else ret ())) (\<lambda>_. calm_log E) (\<lambda>_. calm_log E)" for a b
    using calls skip by (intro triple_seq [of _ _ "\<lambda>_. calm_log E"] triple_if) auto
  then show ?thesis by (auto simp: recover_close_def triple_def with_state_def)
qed

lemma recovery_log_guarded:
  assumes "rv_active s = False" "rv_log s = []"
  shows "guarded (recovery_guard E) (rv_log (snd (recoverCompactionFailures E s)))"
proof -
  have "triple (calm_log E) (seq (counted (recover_main E)) (\<lambda>_. recover_close E)) (\<lambda>_. calm_log E) (\<lambda>_. calm_log E)"
    by (rule triple_seq [OF triple_counted [OF triple_recover_main] triple_recover_close])
  moreover have "calm_log E (recovery_start_state s)"
    using assms(2) by (simp add: calm_log_def recovery_start_state_def beat_quiet_def)
  ultimately have "calm_log E (snd (seq (counted (recover_main E)) (\<lambda>_. recover_close E) (recovery_start_state s)))"
    unfolding triple_def by (auto split: prod.splits sum.splits simp: case_prod_beta)
  then show ?thesis using assms(1) by (simp add: recoverCompactionFailures_def Let_def calm_log_def)
qed

text \<open>C10: the repair aborts a prepared checkpoint only with full evidence: the claim was granted by the
repository, two separate proofs of its session file gave this one generation, a record without
recovery binding carries the operator's digest of exactly this claim and generation, and the call
directly before confirmed the ownership; no renewal of the heartbeat came in between or comes later
for this claim.\<close>

theorem repair_aborts_are_proved:
  assumes "rv_active s = False" "rv_log s = []"
    and "log = rv_log (snd (recoverCompactionFailures E s))" "p < length log"
  shows "(\<forall>c g. log ! p = X_abort c g \<longrightarrow>
      (\<exists>chat intent c0. core c0 = core c \<and> answered (take p log) (X_claim chat intent) (xe_claim E) (RR_claimed c0)) \<and>
      (\<exists>m n c1 c2. m < n \<and> n < p \<and> core c1 = core c \<and> core c2 = core c \<and> log ! m = X_prove c1 \<and> log ! n = X_prove c2 \<and>
         xe_prove E m = Inr g \<and> xe_prove E n = Inr g) \<and>
      (cr_recovery (rc_checkpoint c) = None \<longrightarrow>
         (\<exists>d c3. rc_intent c = Some d \<and> d \<noteq> '''' \<and> core c3 = core c \<and> xe_digest E c3 g = Inr d)) \<and>
      0 < p \<and> log ! (p - 1) = X_check (rc_work c) \<and> xe_bool E (p - 1) = Inr True) \<and>
    (log ! p = X_beat_app \<or> log ! p = X_beat_chat \<longrightarrow> beats_open (take p log))"
proof -
  have g: "recovery_guard E (take p log) (log ! p)"
    using guardedD [OF recovery_log_guarded [OF assms(1,2), of E]] assms(3,4) by simp
  have twice: "\<exists>m n c1 c2. m < n \<and> n < p \<and> core c1 = core c \<and> core c2 = core c \<and> log ! m = X_prove c1 \<and>
      log ! n = X_prove c2 \<and> xe_prove E m = Inr g \<and> xe_prove E n = Inr g"
    if proved: "proved_twice E (core c) g (take p log)" for c g
  proof -
    obtain c2 where c2: "core c2 = core c"
        "answered_since (take p log) (X_prove c2) (xe_prove E) g (proved_once E (core c) g)"
      using proved unfolding proved_twice_def by blast
    then obtain n where n: "n < p" "log ! n = X_prove c2" "xe_prove E n = Inr g" "proved_once E (core c) g (take n log)"
      using assms(4) unfolding answered_since_def by (auto simp: min_def)
    then obtain c1 where c1: "core c1 = core c" "answered (take n log) (X_prove c1) (xe_prove E) g"
      unfolding proved_once_def by blast
    then obtain m where "m < n" "log ! m = X_prove c1" "xe_prove E m = Inr g"
      using assms(4) n(1) unfolding answered_def by auto
    then show ?thesis using n c1(1) c2(1) by blast
  qed
  have abort: "(\<exists>chat intent c0. core c0 = core c \<and> answered (take p log) (X_claim chat intent) (xe_claim E) (RR_claimed c0)) \<and>
      (\<exists>m n c1 c2. m < n \<and> n < p \<and> core c1 = core c \<and> core c2 = core c \<and> log ! m = X_prove c1 \<and> log ! n = X_prove c2 \<and>
         xe_prove E m = Inr g \<and> xe_prove E n = Inr g) \<and>
      (cr_recovery (rc_checkpoint c) = None \<longrightarrow>
         (\<exists>d c3. rc_intent c = Some d \<and> d \<noteq> '''' \<and> core c3 = core c \<and> xe_digest E c3 g = Inr d)) \<and>
      0 < p \<and> log ! (p - 1) = X_check (rc_work c) \<and> xe_bool E (p - 1) = Inr True"
    if e: "log ! p = X_abort c g" for c g
  proof -
    have ev: "claim_granted E (core c) (take p log)" "proved_twice E (core c) g (take p log)" "authorized E (core c) g"
      "take p log \<noteq> []" "last (take p log) = X_check (rc_work c)" "xe_bool E (length (take p log) - 1) = Inr True"
      using g [unfolded e] by (simp_all add: recovery_guard_def abort_evidence_def)
    have "cr_recovery (rc_checkpoint c) = None \<longrightarrow>
        (\<exists>d c3. rc_intent c = Some d \<and> d \<noteq> '''' \<and> core c3 = core c \<and> xe_digest E c3 g = Inr d)"
      using ev(3) unfolding authorized_def by (auto simp: core_def)
    moreover have "0 < p \<and> log ! (p - 1) = X_check (rc_work c) \<and> xe_bool E (p - 1) = Inr True"
      using ev(4-6) assms(4) by (auto simp: last_conv_nth)
    ultimately show ?thesis using twice [OF ev(2)] ev(1) unfolding claim_granted_def by blast
  qed
  have "beats_open (take p log)" if "log ! p = X_beat_app \<or> log ! p = X_beat_chat"
    using g that by (auto simp: recovery_guard_def)
  then show ?thesis using abort by blast
qed

section \<open>An example\<close>

definition rec_fence :: fence where
  "rec_fence = \<lparr>f_owner = ''A'', f_epoch = ''1'', expiresAtMs = 9\<rparr>"

definition rec_claim :: repair_claim where
  "rec_claim = \<lparr>rc_work = \<lparr>cw_streamId = (3, 0), cw_event = demo_event,
       cw_ownership = \<lparr>own_app = rec_fence, own_chat = rec_fence\<rparr>\<rparr>, rc_binding = demo_binding,
     rc_checkpoint = \<lparr>cr_id = ''c'', cr_checkpoint = demo_checkpoint, cr_recovery = None, cr_phase = Prepared\<rparr>,
     rc_intent = Some ''d''\<rparr>"

definition rec_generation :: file_generation where
  "rec_generation = \<lparr>fg_device = ''1'', fg_inode = ''1'', fg_size = ''1'', fg_mtimeNs = ''1'', fg_ctimeNs = ''1''\<rparr>"

definition rec_config :: recovery_config where
  "rec_config = \<lparr>rf_admission = demo_policy, rf_redis = \<lparr>xc_url = ''r'', xc_waitAofMs = 1, xc_blockMs = 1\<rparr>, rf_leaseMs = 9, rf_renewMs = 1,
     rf_sessionDir = ''/s'', rf_checkpointMaxBytes = 9, rf_manifestPath = Some ''/m''\<rparr>"

text \<open>One chat with a legacy record; the heartbeat renews once during the first proof.\<close>

definition rec_env :: recovery_env where
  "rec_env = \<lparr>xe_load = Inr rec_config, xe_connect = (\<lambda>_. Inr ()), xe_repository = (\<lambda>_. Inr [''1@g.us'']),
     xe_acquire = (\<lambda>_. Inr (Some rec_fence)), xe_consume = (\<lambda>_. Inr ''d''), xe_renewApp = (\<lambda>_. Inr (Some rec_fence)),
     xe_claim = (\<lambda>_. Inr (RR_claimed rec_claim)),
     xe_renew = (\<lambda>_. Inr (Some \<lparr>own_app = rec_fence, own_chat = rec_fence\<rparr>)), xe_prove = (\<lambda>_. Inr rec_generation),
     xe_bool = (\<lambda>_. Inr True), xe_unit = (\<lambda>_. Inr ()), xe_digest = (\<lambda>_ _. Inr ''d''),
     xe_beats = (\<lambda>n. if n = 6 then 2 else 0)\<rparr>"

definition idle_recovery :: recov where
  "idle_recovery = \<lparr>rv_active = False, rv_app = None, rv_claim = None, rv_beat = Beat_over, rv_counts = no_counts,
     rv_connected = False, rv_repository = False, rv_log = []\<rparr>"

lemmas recovery_defs = recoverCompactionFailures_def recovery_start_state_def recover_main_def recover_close_def
  recover_chat_def settle_claim_def repair_body_def abort_repair_def legacy_check_def release_app_def with_app_def
  prove_def with_claim_def beat_alive_def drain_def drain_beat_def counted_def count_in_def rec_call_def
  beat_def beat_app_def beat_chat_def set_claim_ownership_def seq_def catch_def with_state_def modify_def
  ret_def throw_def lift_def no_counts_def

lemma rec_claim_same: "rec_claim\<lparr>rc_work := rc_work rec_claim\<lparr>cw_ownership := \<lparr>own_app = rec_fence, own_chat = rec_fence\<rparr>\<rparr>\<rparr> = rec_claim"
  by (simp add: rec_claim_def)

lemma rec_claim_fields: "cr_recovery (rc_checkpoint rec_claim) = None" "rc_intent rec_claim = Some ''d''"
  "cw_ownership (rc_work rec_claim) = \<lparr>own_app = rec_fence, own_chat = rec_fence\<rparr>" "rf_manifestPath rec_config = Some ''/m''"
  by (simp_all add: rec_claim_def rec_config_def)

lemma rec_env_values:
  "xe_load rec_env = Inr rec_config" "xe_connect rec_env n = Inr ()" "xe_repository rec_env n = Inr [''1@g.us'']"
  "xe_acquire rec_env n = Inr (Some rec_fence)" "xe_consume rec_env n = Inr ''d''"
  "xe_renewApp rec_env n = Inr (Some rec_fence)" "xe_claim rec_env n = Inr (RR_claimed rec_claim)"
  "xe_renew rec_env n = Inr (Some \<lparr>own_app = rec_fence, own_chat = rec_fence\<rparr>)" "xe_prove rec_env n = Inr rec_generation"
  "xe_bool rec_env n = Inr True" "xe_unit rec_env n = Inr ()" "xe_digest rec_env c g = Inr ''d''"
  "xe_beats rec_env n = (if n = 6 then 2 else 0)"
  by (simp_all add: rec_env_def)

text \<open>Evaluation in order: a continuation is not rewritten before it is reached.\<close>

lemma exec_cong: "s = s' \<Longrightarrow> seq m f s = seq m f s'" "s = s' \<Longrightarrow> catch m h s = catch m h s'"
  "s = s' \<Longrightarrow> with_state g s = with_state g s'" "s = s' \<Longrightarrow> modify k s = modify k s'"
  by simp_all

abbreviation rec_state :: "recovery_effect list \<Rightarrow> fence option \<Rightarrow> recovery_counts \<Rightarrow> repair_claim option \<Rightarrow> recov" where
  "rec_state log app counts c \<equiv> \<lparr>rv_active = True, rv_app = app, rv_claim = c, rv_beat = Beat_over, rv_counts = counts,
     rv_connected = True, rv_repository = True, rv_log = log\<rparr>"

definition rec_begin :: "recovery_effect list" where
  "rec_begin = [X_connect, X_repository, X_acquire, X_consume ''/m'']"

definition rec_repair :: "recovery_effect list" where
  "rec_repair = [X_renew_app, X_claim ''1@g.us'' (Some ''d''), X_prove rec_claim, X_beat_app, X_beat_chat, X_prove rec_claim,
     X_check (rc_work rec_claim), X_abort rec_claim rec_generation]"

lemma rec_chats:
  "recover_chats rec_env (Some ''d'') [''1@g.us''] (rec_state rec_begin (Some rec_fence) no_counts None) =
    (Inr (), rec_state (rec_begin @ rec_repair) (Some rec_fence) (scanned_one (repaired_one no_counts)) (Some rec_claim))"
  by (simp add: recovery_defs rec_env_values numeral_2_eq_2 rec_claim_fields rec_claim_same rec_begin_def rec_repair_def
      cong: exec_cong)

lemma rec_main:
  "recover_main rec_env (recovery_start_state idle_recovery) =
    (Inr (), rec_state (rec_begin @ rec_repair @ [X_release_app rec_fence]) None (scanned_one (repaired_one no_counts)) (Some rec_claim))"
  by (simp add: recovery_defs rec_env_values rec_claim_fields idle_recovery_def
      rec_chats [unfolded rec_begin_def no_counts_def] rec_begin_def rec_repair_def
      del: recover_chats.simps cong: exec_cong)

lemma rec_run:
  "rv_log (snd (recoverCompactionFailures rec_env idle_recovery)) =
    rec_begin @ rec_repair @ [X_release_app rec_fence, X_close_repository]"
  "fst (recoverCompactionFailures rec_env idle_recovery) =
    (0, \<lparr>n_scanned = 1, n_repaired = 1, n_skipped = 0, n_failed = 0\<rparr>)"
proof -
  have "seq (counted (recover_main rec_env)) (\<lambda>_. recover_close rec_env) (recovery_start_state idle_recovery) =
      (Inr (), rec_state (rec_begin @ rec_repair @ [X_release_app rec_fence, X_close_repository]) None
        (scanned_one (repaired_one no_counts)) (Some rec_claim))"
    by (simp add: seq_def counted_def catch_def rec_main recover_close_def with_state_def with_app_def ret_def
        rec_call_def rec_env_values rec_begin_def rec_repair_def cong: exec_cong)
  then show "rv_log (snd (recoverCompactionFailures rec_env idle_recovery)) =
      rec_begin @ rec_repair @ [X_release_app rec_fence, X_close_repository]"
    "fst (recoverCompactionFailures rec_env idle_recovery) = (0, \<lparr>n_scanned = 1, n_repaired = 1, n_skipped = 0, n_failed = 0\<rparr>)"
    by (simp_all add: recoverCompactionFailures_def idle_recovery_def no_counts_def)
qed

theorem repair_aborts_are_proved_witness:
  "\<exists>d. rc_intent rec_claim = Some d \<and> d \<noteq> ''''"
proof -
  have idle: "rv_active idle_recovery = False" "rv_log idle_recovery = []" by (simp_all add: idle_recovery_def)
  let ?log = "rv_log (snd (recoverCompactionFailures rec_env idle_recovery))"
  have at: "11 < length ?log" "?log ! 11 = X_abort rec_claim rec_generation" by (simp_all add: rec_run(1) rec_begin_def rec_repair_def)
  from conjunct1 [OF repair_aborts_are_proved [OF idle HOL.refl at(1)], rule_format, OF at(2)] rec_claim_fields(1)
  show ?thesis by blast
qed

end
