(* ===== verification/Recovery_Count.thy ===== *)
theory Recovery_Count
  imports Recovery_Spec
begin

text \<open>
  The books of the operator's repair: the log of a run is read as a ledger with one line per claimed chat.
  Every claim that was granted is settled in its own line, before the next chat is claimed, and what the
  process reports is what the ledger says.
\<close>

section \<open>The ledger\<close>

text \<open>What became of a claim: nothing to repair; refused (any other answer, or no answer); granted and still open; aborted
with a confirmed answer; given back, and whether that was confirmed. A \<open>Claim_stray\<close> line
is an abort or a release without the open claim it belongs to.\<close>

datatype claim_outcome =
    Claim_skipped | Claim_refused | Claim_open repair_claim | Claim_repaired | Claim_released bool | Claim_stray

type_synonym ledger_lines = "(string \<times> claim_outcome) list"

text \<open>A heartbeat renews the ownership of a claim and changes nothing else of it.\<close>

definition same_claim :: "repair_claim \<Rightarrow> repair_claim \<Rightarrow> bool" where
  "same_claim c c' \<longleftrightarrow> c' = c\<lparr>rc_work := (rc_work c)\<lparr>cw_ownership := cw_ownership (rc_work c')\<rparr>\<rparr>"

fun settle_line :: "repair_claim \<Rightarrow> claim_outcome \<Rightarrow> ledger_lines \<Rightarrow> ledger_lines" where
  "settle_line c' out ((chat, Claim_open c) # L) =
     (if same_claim c c' then (chat, out) # L else ('''', Claim_stray) # (chat, Claim_open c) # L)"
| "settle_line c' out L = ('''', Claim_stray) # L"

definition claim_line :: "error_class + repair_result \<Rightarrow> claim_outcome" where
  "claim_line answer = (case answer of
     Inr RR_ineligible \<Rightarrow> Claim_skipped | Inr (RR_claimed c) \<Rightarrow> Claim_open c | _ \<Rightarrow> Claim_refused)"

fun enter :: "recovery_env \<Rightarrow> nat \<Rightarrow> recovery_effect \<Rightarrow> ledger_lines \<Rightarrow> ledger_lines" where
  "enter E n (X_claim chat intent) L = (chat, claim_line (xe_claim E n)) # L"
| "enter E n (X_abort c g) L = (if xe_bool E n = Inr True then settle_line c Claim_repaired L else L)"
| "enter E n (X_release_claim c) L = settle_line c (Claim_released (xe_bool E n = Inr True)) L"
| "enter E n _ L = L"

text \<open>The log is read from its first entry on; the newest line of the ledger comes first.\<close>

primrec ledger_of :: "recovery_env \<Rightarrow> recovery_effect list \<Rightarrow> ledger_lines" where
  "ledger_of E [] = []"
| "ledger_of E (e # es) = enter E (length es) e (ledger_of E es)"

definition ledger :: "recovery_env \<Rightarrow> recovery_effect list \<Rightarrow> ledger_lines" where
  "ledger E log = ledger_of E (rev log)"

lemma ledger_Nil [simp]: "ledger E [] = []"
  by (simp add: ledger_def)

lemma ledger_snoc: "ledger E (log @ [e]) = enter E (length log) e (ledger E log)"
  by (simp add: ledger_def)

definition booked :: "recovery_effect \<Rightarrow> bool" where
  "booked e \<longleftrightarrow> (\<exists>chat intent. e = X_claim chat intent) \<or> (\<exists>c g. e = X_abort c g) \<or> (\<exists>c. e = X_release_claim c)"

lemma not_booked: "\<not> booked e \<Longrightarrow> enter E n e L = L"
  by (cases e) (auto simp: booked_def)

lemma same_claim_refl [simp]: "same_claim c c"
  by (simp add: same_claim_def)

lemma same_claim_trans: "same_claim c c' \<Longrightarrow> same_claim c' c'' \<Longrightarrow> same_claim c c''"
  by (cases c; cases c'; cases c''; cases "rc_work c"; cases "rc_work c'"; cases "rc_work c''") (simp add: same_claim_def)

type_synonym accounts = "recovery_counts \<times> ledger_lines"

definition books :: "recovery_env \<Rightarrow> recov \<Rightarrow> accounts" where
  "books E s = (rv_counts s, ledger E (rv_log s))"

text \<open>The books are at \<open>t\<close>, and the claim at hand, if \<open>c\<close> names one, is that claim with a renewed ownership.\<close>

definition at_hand :: "repair_claim option \<Rightarrow> recov \<Rightarrow> bool" where
  "at_hand c s \<longleftrightarrow> (\<forall>c0. c = Some c0 \<longrightarrow> (\<exists>c'. rv_claim s = Some c' \<and> same_claim c0 c'))"

definition at :: "recovery_env \<Rightarrow> repair_claim option \<Rightarrow> accounts \<Rightarrow> recov \<Rightarrow> bool" where
  "at E c t s \<longleftrightarrow> books E s = t \<and> at_hand c s"

lemma at_hand_log [simp]: "at_hand c (s\<lparr>rv_log := l\<rparr>) = at_hand c s"
  by (simp add: at_hand_def)

lemma at_log: "at E c t s \<Longrightarrow> \<not> booked e \<Longrightarrow> at E c t (s\<lparr>rv_log := rv_log s @ [e]\<rparr>)"
  by (simp add: at_def books_def ledger_snoc not_booked)

lemma at_same:
  "at E c t s \<Longrightarrow> rv_counts s' = rv_counts s \<Longrightarrow> rv_log s' = rv_log s \<Longrightarrow> (\<And>d. at_hand d s \<Longrightarrow> at_hand d s') \<Longrightarrow> at E c t s'"
  by (simp add: at_def books_def)

lemma at_hand_ownership: "at_hand c s \<Longrightarrow> at_hand c (set_claim_ownership f s)"
proof (cases c)
  case (Some c0)
  assume "at_hand c s"
  then obtain c' where c': "rv_claim s = Some c'" "same_claim c0 c'" using Some by (auto simp: at_hand_def)
  let ?n = "c'\<lparr>rc_work := (rc_work c')\<lparr>cw_ownership := f (cw_ownership (rc_work c'))\<rparr>\<rparr>"
  have "same_claim c0 ?n" by (rule same_claim_trans [OF c'(2)]) (simp add: same_claim_def)
  then show ?thesis using Some c'(1) by (simp add: at_hand_def set_claim_ownership_def)
qed (simp add: at_hand_def)

lemma at_beat_app:
  assumes "at E c t s"
  shows "at E c t (beat_app E s)"
proof -
  let ?s = "s\<lparr>rv_log := rv_log s @ [X_beat_app]\<rparr>"
  have l: "at E c t ?s" by (rule at_log [OF assms]) (simp add: booked_def)
  have "at E c t ((set_claim_ownership f ?s)\<lparr>rv_app := a, rv_beat := b\<rparr>)" for f a b
    by (rule at_same [OF l], simp_all add: set_claim_ownership_def)
      (use at_hand_ownership [of _ ?s f] in \<open>simp_all add: at_hand_def set_claim_ownership_def\<close>)
  moreover have "at E c t (?s\<lparr>rv_beat := b\<rparr>)" for b
    by (rule at_same [OF l]) (simp_all add: at_hand_def)
  ultimately show ?thesis by (simp add: beat_app_def Let_def split: sum.split option.split)
qed

lemma at_beat_chat:
  assumes "at E c t s"
  shows "at E c t (beat_chat E s)"
proof -
  let ?s = "s\<lparr>rv_log := rv_log s @ [X_beat_chat]\<rparr>"
  have l: "at E c t ?s" by (rule at_log [OF assms]) (simp add: booked_def)
  have "at E c t ((set_claim_ownership f ?s)\<lparr>rv_beat := b\<rparr>)" for f b
    by (rule at_same [OF l], simp_all add: set_claim_ownership_def)
      (use at_hand_ownership [of _ ?s f] in \<open>simp_all add: at_hand_def set_claim_ownership_def\<close>)
  moreover have "at E c t (?s\<lparr>rv_beat := b\<rparr>)" for b
    by (rule at_same [OF l]) (simp_all add: at_hand_def)
  ultimately show ?thesis by (simp add: beat_chat_def Let_def split: sum.split option.split)
qed

lemma at_beat: "at E c t s \<Longrightarrow> at E c t (beat E s)"
  by (simp add: beat_def at_beat_app at_beat_chat split: recovery_beat.split)

lemma at_beats: "at E c t s \<Longrightarrow> at E c t ((beat E ^^ n) s)"
  by (induction n) (simp_all add: at_beat)

lemma at_drain:
  assumes "at E c t s"
  shows "at E c t (drain_beat E s)"
proof -
  have "at E c t (if rv_beat s = Beat_renewing then beat_chat E s else s)" using assms by (simp add: at_beat_chat)
  then show ?thesis unfolding drain_beat_def Let_def by (simp add: at_def books_def at_hand_def)
qed

section \<open>Code that books nothing\<close>

definition unbooked :: "recovery_env \<Rightarrow> 'a rec_exec \<Rightarrow> bool" where
  "unbooked E m \<longleftrightarrow> (\<forall>c t. triple (at E c t) m (\<lambda>_. at E c t) (\<lambda>_. at E c t))"

lemma unbooked_triple: "unbooked E m \<Longrightarrow> triple (at E c t) m (\<lambda>_. at E c t) (\<lambda>_. at E c t)"
  unfolding unbooked_def by blast

lemma unbooked_call: "\<not> booked e \<Longrightarrow> unbooked E (rec_call E e f)"
  using at_log at_beats by (fastforce simp: unbooked_def triple_def rec_call_def split: sum.split)

lemma unbooked_seq: "unbooked E m \<Longrightarrow> (\<And>x. unbooked E (f x)) \<Longrightarrow> unbooked E (seq m f)"
  unfolding unbooked_def [of E "seq m f"] by (intro allI triple_seq [OF unbooked_triple unbooked_triple])

lemma unbooked_catch: "unbooked E m \<Longrightarrow> (\<And>x. unbooked E (h x)) \<Longrightarrow> unbooked E (catch m h)"
  unfolding unbooked_def [of E "catch m h"] by (intro allI triple_catch [OF unbooked_triple unbooked_triple])

lemma unbooked_ret: "unbooked E (ret x)" "unbooked E (throw e)" "unbooked E (lift r)" "unbooked E (drain E)"
  by (auto simp: unbooked_def triple_def ret_def throw_def lift_def drain_def modify_def at_drain split: sum.split)

lemma unbooked_if: "unbooked E m \<Longrightarrow> unbooked E n \<Longrightarrow> unbooked E (if b then m else n)"
  by simp

lemma unbooked_with_state: "(\<And>s. unbooked E (f s)) \<Longrightarrow> unbooked E (with_state f)"
  by (auto simp: unbooked_def triple_def with_state_def)

lemma unbooked_with_claim: "(\<And>c. unbooked E (f c)) \<Longrightarrow> unbooked E (with_claim f)"
  unfolding with_claim_def by (rule unbooked_with_state) (auto simp: unbooked_ret split: option.split)

lemmas unbooked_rules = unbooked_seq unbooked_catch unbooked_ret unbooked_if unbooked_with_state unbooked_with_claim

lemma unbooked_body: "unbooked E (prove E)" "unbooked E beat_alive" "unbooked E (legacy_check E g)"
proof -
  show "unbooked E (prove E)" unfolding prove_def by (intro unbooked_rules unbooked_call) (simp add: booked_def)
  show "unbooked E beat_alive" unfolding beat_alive_def by (intro unbooked_rules)
  show "unbooked E (legacy_check E g)" unfolding legacy_check_def
    by (intro unbooked_rules) (auto intro!: unbooked_rules split: option.split)
qed

section \<open>One claim\<close>

lemma triple_with_claim_at:
  assumes "\<And>c'. same_claim c c' \<Longrightarrow> triple (at E (Some c) t) (f c') Q R"
  shows "triple (at E (Some c) t) (with_claim f) Q R"
proof (unfold triple_def, intro allI impI)
  fix s assume s: "at E (Some c) t s"
  then obtain c' where "rv_claim s = Some c'" "same_claim c c'" by (auto simp: at_def at_hand_def)
  then show "case with_claim f s of (Inl e, s') \<Rightarrow> R e s' | (Inr x, s') \<Rightarrow> Q x s'"
    using assms [of c'] s by (simp add: triple_def with_claim_def with_state_def)
qed

text \<open>A call that is booked: its entry, and heartbeats that book nothing.\<close>

lemma triple_booked_call:
  assumes "\<And>n x. f n = Inr x \<Longrightarrow> enter E n e L = u x" and "\<And>n x. f n = Inl x \<Longrightarrow> enter E n e L = v"
  shows "triple (at E c (k, L)) (rec_call E e f) (\<lambda>x. at E c (k, u x)) (\<lambda>_. at E c (k, v))"
proof (unfold triple_def, intro allI impI)
  fix s assume s: "at E c (k, L) s"
  have new: "at E c (k, enter E (length (rv_log s)) e L) ((beat E ^^ n) (s\<lparr>rv_log := rv_log s @ [e]\<rparr>))" for n
    by (rule at_beats) (use s in \<open>simp add: at_def books_def ledger_snoc\<close>)
  show "case rec_call E e f s of (Inl e, s') \<Rightarrow> at E c (k, v) s' | (Inr x, s') \<Rightarrow> at E c (k, u x) s'"
    using assms new by (cases "f (length (rv_log s))") (simp_all add: rec_call_def)
qed

lemma triple_abort_at:
  "triple (at E (Some c) (k, (chat, Claim_open c) # L)) (abort_repair E h) (\<lambda>_. at E (Some c) (k, (chat, Claim_repaired) # L))
    (\<lambda>_. at E (Some c) (k, (chat, Claim_open c) # L))"
proof -
  have check: "unbooked E (with_claim (\<lambda>c. rec_call E (X_check (rc_work c)) (xe_bool E)))"
    by (intro unbooked_rules unbooked_call) (simp add: booked_def)
  have abort: "triple (at E (Some c) (k, (chat, Claim_open c) # L)) (with_claim (\<lambda>c. rec_call E (X_abort c h) (xe_bool E)))
      (\<lambda>ok. at E (Some c) (k, (chat, if ok then Claim_repaired else Claim_open c) # L))
      (\<lambda>_. at E (Some c) (k, (chat, Claim_open c) # L))"
    by (rule triple_with_claim_at, rule triple_booked_call) simp_all
  show ?thesis
    unfolding abort_repair_def
    by (rule triple_seq [OF unbooked_triple [OF check]], rule triple_if, rule triple_throw, assumption,
        rule triple_seq [OF abort], rule triple_if, rule triple_ret, simp, rule triple_throw, simp)
qed

lemma triple_body_at:
  "triple (at E (Some c) (k, (chat, Claim_open c) # L)) (repair_body E) (\<lambda>_. at E (Some c) (k, (chat, Claim_repaired) # L))
    (\<lambda>_. at E (Some c) (k, (chat, Claim_open c) # L))"
proof -
  let ?P = "at E (Some c) (k, (chat, Claim_open c) # L)" and ?Q = "at E (Some c) (k, (chat, Claim_repaired) # L)"
  have last: "triple ?P (seq (legacy_check E h) (\<lambda>_. seq (drain E) (\<lambda>_. seq beat_alive (\<lambda>_. abort_repair E h)))) (\<lambda>_. ?Q) (\<lambda>_. ?P)" for h
    by (rule triple_seq [OF unbooked_triple [OF unbooked_body(3)]], rule triple_seq [OF unbooked_triple [OF unbooked_ret(4)]],
        rule triple_seq [OF unbooked_triple [OF unbooked_body(2)]], rule triple_abort_at)
  have "triple ?P (with_state (\<lambda>s. if rv_beat s = Beat_failed \<or> x \<noteq> y then throw Restore_failed
        else seq (legacy_check E y) (\<lambda>_. seq (drain E) (\<lambda>_. seq beat_alive (\<lambda>_. abort_repair E y))))) (\<lambda>_. ?Q) (\<lambda>_. ?P)" for x y
    using last [of y] by (auto simp: triple_def with_state_def throw_def)
  then show ?thesis
    unfolding repair_body_def
    by (intro triple_seq [OF unbooked_triple [OF unbooked_body(1)]] triple_seq [OF unbooked_triple [OF unbooked_body(2)]])
qed

text \<open>A claim ends in one of two ways, and no failure leaves it open.\<close>

definition ends_as :: "recovery_env \<Rightarrow> recovery_counts \<Rightarrow> string \<Rightarrow> ledger_lines \<Rightarrow> bool \<Rightarrow> recov \<Rightarrow> bool" where
  "ends_as E k chat L ok s \<longleftrightarrow> (if ok then at E None (k, (chat, Claim_repaired) # L) s
     else \<exists>b. at E None (k, (chat, Claim_released b) # L) s)"

lemma at_forget: "at E c t s \<Longrightarrow> at E None t s"
  by (simp add: at_def at_hand_def)

lemma triple_release_at:
  "triple (at E (Some c) (k, (chat, Claim_open c) # L)) (release_claim E) (\<lambda>_. ends_as E k chat L False) (\<lambda>_ _. False)"
proof (unfold triple_def, intro allI impI)
  fix s assume s: "at E (Some c) (k, (chat, Claim_open c) # L) s"
  then obtain c' where c': "rv_claim s = Some c'" "same_claim c c'" by (auto simp: at_def at_hand_def)
  have new: "ends_as E k chat L False ((beat E ^^ n) (s\<lparr>rv_log := rv_log s @ [X_release_claim c']\<rparr>))" for n
    unfolding ends_as_def if_False
    by (intro exI at_beats at_forget [of E "Some c"]) (use s c' in \<open>simp add: at_def books_def ledger_snoc\<close>)
  then show "case release_claim E s of (Inl e, s') \<Rightarrow> False | (Inr x, s') \<Rightarrow> ends_as E k chat L False s'"
    using c' by (auto simp: release_claim_def catch_def seq_def with_claim_def with_state_def rec_call_def ret_def split: sum.split)
qed

lemma triple_settle_at:
  "triple (at E None (k, (chat, Claim_open c) # L)) (settle_claim E c) (ends_as E k chat L) (\<lambda>_ _. False)"
proof -
  let ?P = "at E (Some c) (k, (chat, Claim_open c) # L)"
  have start: "triple (at E None (k, (chat, Claim_open c) # L)) (modify (\<lambda>s. s\<lparr>rv_claim := Some c, rv_beat := Beat_waiting\<rparr>))
      (\<lambda>_. ?P) (\<lambda>_ _. False)"
    by (rule triple_modify) (simp add: at_def books_def at_hand_def)
  have drained: "triple (at E (Some c) t) (drain E) (\<lambda>_. at E (Some c) t) R" for t R
    unfolding drain_def by (rule triple_modify) (rule at_drain)
  have good: "triple ?P (seq (repair_body E) (\<lambda>_. seq (drain E) (\<lambda>_. ret True))) (ends_as E k chat L) (\<lambda>_. ?P)"
    by (rule triple_seq [OF triple_body_at], rule triple_seq [OF drained], rule triple_ret) (simp add: ends_as_def at_forget)
  have bad: "triple ?P (seq (drain E) (\<lambda>_. seq (release_claim E) (\<lambda>_. ret False))) (ends_as E k chat L) (\<lambda>_ _. False)"
    by (rule triple_seq [OF drained], rule triple_seq [OF triple_release_at], rule triple_ret)
  show ?thesis
    unfolding settle_claim_def by (rule triple_seq [OF start], rule triple_catch [OF good bad])
qed

section \<open>All chats\<close>

text \<open>Lines that count as failed, and settled lines.\<close>

fun bad_line :: "string \<times> claim_outcome \<Rightarrow> bool" where
  "bad_line (_, Claim_refused) = True"
| "bad_line (_, Claim_released _) = True"
| "bad_line _ = False"

fun settled_line :: "string \<times> claim_outcome \<Rightarrow> bool" where
  "settled_line (_, Claim_open _) = False"
| "settled_line (_, Claim_stray) = False"
| "settled_line _ = True"

definition lines_of :: "claim_outcome \<Rightarrow> ledger_lines \<Rightarrow> nat" where
  "lines_of out L = length (filter (\<lambda>x. snd x = out) L)"

text \<open>The counts say what the ledger says: \<open>o'\<close> chats are scanned and not yet claimed, \<open>f\<close> bad lines not yet counted.\<close>

definition exact_books :: "nat \<Rightarrow> nat \<Rightarrow> string list \<Rightarrow> accounts \<Rightarrow> bool" where
  "exact_books o' f cs b \<longleftrightarrow> (case b of (k, L) \<Rightarrow> list_all settled_line L \<and> map fst (rev L) = cs \<and>
     n_repaired k = lines_of Claim_repaired L \<and> n_skipped k = lines_of Claim_skipped L \<and>
     n_failed k + f = length (filter bad_line L) \<and> n_scanned k = length L + o')"

definition balanced :: "recovery_env \<Rightarrow> nat \<Rightarrow> nat \<Rightarrow> string list \<Rightarrow> recov \<Rightarrow> bool" where
  "balanced E o' f cs s \<longleftrightarrow> exact_books o' f cs (books E s)"

text \<open>What a thrown exception may leave behind.\<close>

definition chat_open :: "recovery_env \<Rightarrow> recov \<Rightarrow> bool" where
  "chat_open E s \<longleftrightarrow> (\<exists>o' f cs. o' \<le> 1 \<and> f \<le> 1 \<and> balanced E o' f cs s)"

lemma balanced_open: "balanced E o' f cs s \<Longrightarrow> o' \<le> 1 \<Longrightarrow> f \<le> 1 \<Longrightarrow> chat_open E s"
  unfolding chat_open_def by blast

lemma at_balanced: "at E c t s \<Longrightarrow> exact_books o' f cs t \<Longrightarrow> balanced E o' f cs s"
  by (simp add: at_def balanced_def)

lemma unbooked_books:
  assumes "unbooked E m"
  shows "triple (\<lambda>s. P (books E s)) m (\<lambda>_ s. P (books E s)) (\<lambda>_ s. P (books E s))"
proof (unfold triple_def, intro allI impI)
  fix s assume s: "P (books E s)"
  have "at E None (books E s) s" by (simp add: at_def at_hand_def)
  note run = spec [OF unbooked_triple [OF assms, of None "books E s", unfolded triple_def], of s, THEN mp, OF this]
  then show "case m s of (Inl e, s') \<Rightarrow> P (books E s') | (Inr x, s') \<Rightarrow> P (books E s')"
    using s by (auto simp: at_def split: prod.splits sum.splits)
qed

lemma unbooked_balanced:
  "unbooked E m \<Longrightarrow> triple (balanced E o' f cs) m (\<lambda>_. balanced E o' f cs) (\<lambda>_. balanced E o' f cs)"
  using unbooked_books [of E m "exact_books o' f cs"] by (simp add: balanced_def [abs_def])

text \<open>The claim of a chat writes its line; what follows settles and counts it.\<close>

definition claim_written :: "recovery_env \<Rightarrow> string list \<Rightarrow> string \<Rightarrow> repair_result \<Rightarrow> recov \<Rightarrow> bool" where
  "claim_written E cs chat x s \<longleftrightarrow> (\<exists>k L. at E None (k, (chat, claim_line (Inr x)) # L) s \<and> exact_books 1 0 cs (k, L))"

lemma claim_balanced:
  "triple (balanced E 1 0 cs) (rec_call E (X_claim chat intent) (xe_claim E))
    (\<lambda>x s. claim_written E cs chat x s) (\<lambda>_ s. balanced E 0 1 (cs @ [chat]) s)"
proof (unfold triple_def, intro allI impI)
  fix s assume "balanced E 1 0 cs s"
  then have s: "exact_books 1 0 cs (rv_counts s, ledger E (rv_log s))" by (simp add: balanced_def books_def)
  let ?n = "length (rv_log s)" and ?e = "X_claim chat intent"
  have new: "at E None (rv_counts s, (chat, claim_line (xe_claim E ?n)) # ledger E (rv_log s))
      ((beat E ^^ m) (s\<lparr>rv_log := rv_log s @ [?e]\<rparr>))" for m
    by (rule at_beats) (simp add: at_def at_hand_def books_def ledger_snoc)
  show "case rec_call E ?e (xe_claim E) s of (Inl e, s') \<Rightarrow> balanced E 0 1 (cs @ [chat]) s' | (Inr x, s') \<Rightarrow> claim_written E cs chat x s'"
  proof (cases "xe_claim E ?n")
    case (Inl e)
    have "exact_books 0 1 (cs @ [chat]) (rv_counts s, (chat, claim_line (Inl e)) # ledger E (rv_log s))"
      using s by (simp add: exact_books_def claim_line_def lines_of_def)
    then show ?thesis using at_balanced [OF new] Inl by (simp add: rec_call_def)
  next
    case (Inr x)
    then show ?thesis using new s unfolding rec_call_def claim_written_def by auto
  qed
qed

lemma count_refused:
  assumes "claim_line (Inr x) = Claim_refused"
  shows "triple (claim_written E cs chat x) (count_in failed_one) (\<lambda>_. balanced E 0 0 (cs @ [chat])) R"
  unfolding count_in_def
  by (rule triple_modify)
    (use assms in \<open>auto simp: claim_written_def at_def books_def balanced_def exact_books_def lines_of_def\<close>)

lemma count_skipped:
  "triple (claim_written E cs chat RR_ineligible) (count_in skipped_one) (\<lambda>_. balanced E 0 0 (cs @ [chat])) R"
  unfolding count_in_def
  by (rule triple_modify) (auto simp: claim_written_def claim_line_def at_def books_def balanced_def exact_books_def lines_of_def)

lemma settle_balanced:
  "triple (claim_written E cs chat (RR_claimed c)) (seq (settle_claim E c) (\<lambda>ok. count_in (if ok then repaired_one else failed_one)))
    (\<lambda>_. balanced E 0 0 (cs @ [chat])) (\<lambda>_ _. False)"
proof -
  have one: "triple (at E None (k, (chat, Claim_open c) # L))
      (seq (settle_claim E c) (\<lambda>ok. count_in (if ok then repaired_one else failed_one)))
      (\<lambda>_. balanced E 0 0 (cs @ [chat])) (\<lambda>_ _. False)" if "exact_books 1 0 cs (k, L)" for k L
    unfolding count_in_def
    by (rule triple_seq [OF triple_settle_at], rule triple_modify)
      (use that in \<open>auto simp: ends_as_def at_def books_def balanced_def exact_books_def lines_of_def split: if_splits\<close>)
  show ?thesis
  proof (unfold triple_def, intro allI impI)
    fix s assume "claim_written E cs chat (RR_claimed c) s"
    then obtain k L where k: "at E None (k, (chat, Claim_open c) # L) s" "exact_books 1 0 cs (k, L)"
      by (auto simp: claim_written_def claim_line_def)
    show "case seq (settle_claim E c) (\<lambda>ok. count_in (if ok then repaired_one else failed_one)) s of
        (Inl e, s') \<Rightarrow> False | (Inr x, s') \<Rightarrow> balanced E 0 0 (cs @ [chat]) s'"
      by (rule spec [OF one [OF k(2), unfolded triple_def], of s, THEN mp, OF k(1)])
  qed
qed

lemma chat_balanced:
  "triple (balanced E 0 0 cs) (recover_chat E intent chat) (\<lambda>_. balanced E 0 0 (cs @ [chat])) (\<lambda>_. chat_open E)"
proof -
  have count: "triple (balanced E 0 0 cs) (count_in scanned_one) (\<lambda>_. balanced E 1 0 cs) R" for R
    unfolding count_in_def by (rule triple_modify) (auto simp: balanced_def books_def exact_books_def)
  have renew: "triple (balanced E 1 0 cs) (rec_call E X_renew_app (xe_renewApp E)) (\<lambda>_. balanced E 1 0 cs) (\<lambda>_. chat_open E)"
    by (rule triple_weaken [OF unbooked_balanced [OF unbooked_call]]) (auto simp: booked_def intro: balanced_open)
  have keep: "triple (balanced E 1 0 cs) (modify (\<lambda>s. s\<lparr>rv_app := Some app\<rparr>)) (\<lambda>_. balanced E 1 0 cs) (\<lambda>_. chat_open E)" for app
    by (rule triple_modify) (simp add: balanced_def books_def)
  have claim: "triple (balanced E 1 0 cs) (rec_call E (X_claim chat intent) (xe_claim E))
      (\<lambda>x s. claim_written E cs chat x s) (\<lambda>_. chat_open E)"
    by (rule triple_weaken [OF claim_balanced]) (auto intro: balanced_open)
  have outcome: "triple (claim_written E cs chat x)
      (case x of RR_ineligible \<Rightarrow> count_in skipped_one
        | RR_claimed c \<Rightarrow> seq (settle_claim E c) (\<lambda>ok. count_in (if ok then repaired_one else failed_one))
        | _ \<Rightarrow> count_in failed_one) (\<lambda>_. balanced E 0 0 (cs @ [chat])) (\<lambda>_. chat_open E)" for x
  proof (cases x)
    case (RR_claimed c)
    show ?thesis unfolding RR_claimed repair_result.case by (rule triple_weaken [OF settle_balanced]) simp_all
  qed (simp_all only: repair_result.case, rule count_skipped, (rule count_refused, simp add: claim_line_def)+)
  show ?thesis
    unfolding recover_chat_def
    by (rule triple_seq [OF count], rule triple_seq [OF renew], rule triple_option, rule triple_throw, erule balanced_open, simp, simp,
        rule triple_seq [OF keep], rule triple_seq [OF claim outcome])
qed

lemma chats_balanced:
  "triple (balanced E 0 0 cs) (recover_chats E intent chats) (\<lambda>_. balanced E 0 0 (cs @ chats)) (\<lambda>_. chat_open E)"
proof (induction chats arbitrary: cs)
  case Nil
  show ?case by (simp add: triple_def ret_def)
next
  case (Cons chat chats)
  show ?case unfolding recover_chats.simps
    using triple_seq [OF chat_balanced Cons, of cs] by simp
qed

section \<open>The whole run\<close>

text \<open>
  The books of a finished run: every line is settled, the counts are those of the ledger, and
  without a failure the ledger has one line for every chat of the configuration, in its order. The
  configured chats are answered at position 1 of the log: only the connection precedes them.
\<close>

definition closed_books :: "recovery_env \<Rightarrow> accounts \<Rightarrow> bool" where
  "closed_books E b \<longleftrightarrow> (case b of (k, L) \<Rightarrow> list_all settled_line L \<and>
     n_repaired k = lines_of Claim_repaired L \<and> n_skipped k = lines_of Claim_skipped L \<and>
     length (filter bad_line L) \<le> n_failed k \<and> length L \<le> n_scanned k \<and> n_scanned k \<le> Suc (length L) \<and>
     (n_failed k = 0 \<longrightarrow> n_scanned k = length L \<and> xe_repository E 1 = Inr (map fst (rev L))))"

lemma triple_count_failed:
  assumes "\<And>s. P s \<Longrightarrow> chat_open E s \<or> closed_books E (books E s)"
  shows "triple P (count_in failed_one) (\<lambda>_ s. closed_books E (books E s)) R"
  unfolding count_in_def
proof (rule triple_modify)
  fix s assume "P s"
  then show "closed_books E (books E (s\<lparr>rv_counts := failed_one (rv_counts s)\<rparr>))"
    using assms [of s] by (auto simp: chat_open_def balanced_def exact_books_def books_def closed_books_def)
qed

lemma triple_counted_books:
  assumes "triple P m (\<lambda>_ s. closed_books E (books E s)) (\<lambda>_ s. chat_open E s \<or> closed_books E (books E s))"
  shows "triple P (counted m) (\<lambda>_ s. closed_books E (books E s)) R"
  unfolding counted_def by (rule triple_catch [OF assms triple_count_failed]) simp

lemma release_app_books:
  "triple (\<lambda>s. closed_books E (books E s)) (with_app (release_app E)) (\<lambda>_ s. closed_books E (books E s))
    (\<lambda>_ s. closed_books E (books E s))"
proof -
  have "triple (\<lambda>s. closed_books E (books E s)) (release_app E app) (\<lambda>_ s. closed_books E (books E s))
      (\<lambda>_ s. closed_books E (books E s))" for app
    unfolding release_app_def
    by (rule triple_seq [OF unbooked_books [OF unbooked_call]], simp add: booked_def, rule triple_if, rule triple_ret,
        assumption, rule triple_count_failed, simp)
  then show ?thesis by (auto simp: with_app_def triple_def with_state_def ret_def split: option.split)
qed

lemma close_books:
  "triple (\<lambda>s. closed_books E (books E s)) (recover_close E) (\<lambda>_ s. closed_books E (books E s)) (\<lambda>_ _. True)"
proof -
  let ?C = "\<lambda>s. closed_books E (books E s)"
  have call: "triple ?C (counted (rec_call E e f)) (\<lambda>_. ?C) R" if "\<not> booked e" for e R and f :: "nat \<Rightarrow> error_class + unit"
    by (rule triple_counted_books [OF triple_weaken [OF unbooked_books [OF unbooked_call [OF that], of "closed_books E"]]]) simp_all
  have app: "triple ?C (counted (with_app (release_app E))) (\<lambda>_. ?C) R" for R
    by (rule triple_counted_books, rule triple_weaken [OF release_app_books]) simp_all
  have close: "triple ?C (counted (rec_call E X_close_repository (xe_unit E))) (\<lambda>_. ?C) R"
    "triple ?C (counted (rec_call E X_close_connections (xe_unit E))) (\<lambda>_. ?C) R" for R
    by (rule call, simp add: booked_def)+
  have skip: "triple ?C (ret ()) (\<lambda>_. ?C) R" for R by (rule triple_ret)
  have "triple ?C (seq (if a then counted (with_app (release_app E)) else ret ()) (\<lambda>_.
       if a then counted (rec_call E X_close_repository (xe_unit E))
       else if b then counted (rec_call E X_close_connections (xe_unit E)) else ret ())) (\<lambda>_. ?C) (\<lambda>_ _. True)" for a b
    using app close skip by (intro triple_seq [of _ _ "\<lambda>_. ?C"] triple_if) auto
  then show ?thesis by (auto simp: recover_close_def triple_def with_state_def)
qed

lemma beats_over: "rv_beat s = Beat_over \<Longrightarrow> (beat E ^^ n) s = s"
  by (induction n) (simp_all add: beat_def)

text \<open>A call before any claim: the heartbeat does not run.\<close>

lemma triple_early_call:
  assumes "\<not> booked e"
  shows "triple (\<lambda>s. balanced E 0 0 [] s \<and> rv_beat s = Beat_over \<and> length (rv_log s) = n) (rec_call E e f)
    (\<lambda>x s. (balanced E 0 0 [] s \<and> rv_beat s = Beat_over \<and> length (rv_log s) = Suc n) \<and> f n = Inr x)
    (\<lambda>_. chat_open E)"
proof (unfold triple_def, intro allI impI)
  fix s assume s: "balanced E 0 0 [] s \<and> rv_beat s = Beat_over \<and> length (rv_log s) = n"
  let ?s = "s\<lparr>rv_log := rv_log s @ [e]\<rparr>"
  have "balanced E 0 0 [] ?s"
    using s not_booked [OF assms] by (simp add: balanced_def books_def ledger_snoc)
  then show "case rec_call E e f s of (Inl x, s') \<Rightarrow> chat_open E s'
    | (Inr x, s') \<Rightarrow> (balanced E 0 0 [] s' \<and> rv_beat s' = Beat_over \<and> length (rv_log s') = Suc n) \<and> f n = Inr x"
    using s balanced_open [of E 0 0] by (auto simp: rec_call_def beats_over split: sum.split)
qed

lemma main_books:
  "triple (\<lambda>s. balanced E 0 0 [] s \<and> rv_beat s = Beat_over \<and> length (rv_log s) = 0) (recover_main E)
    (\<lambda>_ s. closed_books E (books E s)) (\<lambda>_ s. chat_open E s \<or> closed_books E (books E s))"
proof -
  let ?N = "\<lambda>n s. balanced E 0 0 [] s \<and> rv_beat s = Beat_over \<and> length (rv_log s) = n"
  let ?B = "\<lambda>s. balanced E 0 0 [] s" and ?C = "\<lambda>s. closed_books E (books E s)"
  let ?R = "\<lambda>_ s. chat_open E s \<or> closed_books E (books E s)"
  have opens: "?B s \<Longrightarrow> chat_open E s" for s by (erule balanced_open) simp_all
  have early: "triple (?N n) (rec_call E e f) (\<lambda>x s. ?N (Suc n) s \<and> f n = Inr x) ?R"
    if "\<not> booked e" for n e and f :: "nat \<Rightarrow> error_class + 'c"
    by (rule triple_weaken [OF triple_early_call [OF that]]) (simp_all add: opens)
  have set_connected: "triple (\<lambda>s. ?N n s \<and> F) (modify (\<lambda>s. s\<lparr>rv_connected := True\<rparr>)) (\<lambda>_. ?N n) ?R"
    and set_repository: "triple (\<lambda>s. ?N n s \<and> F) (modify (\<lambda>s. s\<lparr>rv_repository := True\<rparr>)) (\<lambda>_. ?N n) ?R" for n F
    by (rule triple_modify, simp add: balanced_def books_def)+
  have quiet_call: "triple ?B (rec_call E e f) (\<lambda>_. ?B) ?R" if "\<not> booked e" for e and f :: "nat \<Rightarrow> error_class + 'c"
    by (rule triple_weaken [OF unbooked_balanced [OF unbooked_call [OF that]]]) (assumption, assumption, blast intro: opens)
  have chats: "triple ?B (recover_chats E intent cs) (\<lambda>_. ?C) ?R" if "xe_repository E 1 = Inr cs" for intent cs
    by (rule triple_weaken [OF chats_balanced])
      (use that in \<open>auto simp: balanced_def exact_books_def closed_books_def books_def\<close>)
  have rest: "triple ?B (case app of None \<Rightarrow> throw Lease_lost | Some app \<Rightarrow>
        seq (modify (\<lambda>s. s\<lparr>rv_app := Some app\<rparr>)) (\<lambda>_.
        seq (case path of None \<Rightarrow> ret None
           | Some path \<Rightarrow> seq (rec_call E (X_consume path) (xe_consume E)) (\<lambda>d. ret (Some d))) (\<lambda>intent.
        seq (recover_chats E intent cs) (\<lambda>_.
        seq (with_app (release_app E)) (\<lambda>_. modify (\<lambda>s. s\<lparr>rv_app := None\<rparr>)))))) (\<lambda>_. ?C) ?R"
    if cs: "xe_repository E 1 = Inr cs" for app path cs
  proof -
    have keep: "triple ?B (modify (\<lambda>s. s\<lparr>rv_app := a\<rparr>)) (\<lambda>_. ?B) ?R" for a
      by (rule triple_modify) (simp add: balanced_def books_def)
    have drop: "triple ?C (modify (\<lambda>s. s\<lparr>rv_app := a\<rparr>)) (\<lambda>_. ?C) ?R" for a
      by (rule triple_modify) (simp add: books_def)
    have consume: "triple ?B (case path of None \<Rightarrow> ret None
         | Some path \<Rightarrow> seq (rec_call E (X_consume path) (xe_consume E)) (\<lambda>d. ret (Some d))) (\<lambda>_. ?B) ?R"
      by (rule triple_option, rule triple_ret, assumption, rule triple_seq [OF quiet_call], simp add: booked_def,
          rule triple_ret, assumption)
    have release: "triple ?C (with_app (release_app E)) (\<lambda>_. ?C) ?R"
      by (rule triple_weaken [OF release_app_books]) simp_all
    show ?thesis
      by (rule triple_option, rule triple_throw, simp add: opens, rule triple_seq [OF keep], rule triple_seq [OF consume],
          rule triple_seq [OF chats [OF cs]], rule triple_seq [OF release drop])
  qed
  have chosen: "triple (\<lambda>s. ?N 2 s \<and> xe_repository E 1 = Inr cs) (seq (modify (\<lambda>s. s\<lparr>rv_repository := True\<rparr>)) (\<lambda>_.
      seq (rec_call E X_acquire (xe_acquire E)) (\<lambda>app. case app of None \<Rightarrow> throw Lease_lost | Some app \<Rightarrow>
        seq (modify (\<lambda>s. s\<lparr>rv_app := Some app\<rparr>)) (\<lambda>_.
        seq (case path of None \<Rightarrow> ret None
           | Some path \<Rightarrow> seq (rec_call E (X_consume path) (xe_consume E)) (\<lambda>d. ret (Some d))) (\<lambda>intent.
        seq (recover_chats E intent cs) (\<lambda>_.
        seq (with_app (release_app E)) (\<lambda>_. modify (\<lambda>s. s\<lparr>rv_app := None\<rparr>)))))))) (\<lambda>_. ?C) ?R" for cs path
  proof (cases "xe_repository E 1 = Inr cs")
    case True
    have acquire: "triple (?N 2) (rec_call E X_acquire (xe_acquire E)) (\<lambda>_. ?B) ?R"
      by (rule triple_weaken [OF early], simp add: booked_def, assumption, elim conjE, assumption, assumption)
    show ?thesis by (rule triple_seq [OF set_repository], rule triple_seq [OF acquire rest [OF True]])
  next
    case False
    then show ?thesis by (simp add: triple_def)
  qed
  have load: "triple (?N 0) (lift (xe_load E)) (\<lambda>_. ?N 0) ?R"
    by (rule triple_lift) (simp_all add: opens)
  have connect: "triple (?N 0) (rec_call E X_connect (xe_connect E)) (\<lambda>x s. ?N (Suc 0) s \<and> xe_connect E 0 = Inr x) ?R"
    by (rule early) (simp add: booked_def)
  have repository: "triple (?N (Suc 0)) (rec_call E X_repository (xe_repository E))
      (\<lambda>cs s. ?N 2 s \<and> xe_repository E 1 = Inr cs) ?R"
    using early [of X_repository "Suc 0" "xe_repository E"] by (simp add: booked_def numeral_2_eq_2)
  show ?thesis
    unfolding recover_main_def
    by (rule triple_seq [OF load], rule triple_seq [OF connect], rule triple_seq [OF set_connected],
        rule triple_seq [OF repository chosen])
qed

lemma counted_returns: "\<exists>s'. counted m s = (Inr (), s')"
  by (cases "m s", cases "fst (m s)") (simp_all add: counted_def catch_def count_in_def modify_def)

lemma close_returns: "\<exists>s'. recover_close E s = (Inr (), s')"
proof -
  have "\<exists>s'. seq (if a then counted m else ret ()) (\<lambda>_. if a then counted n else if b then counted o' else ret ()) s = (Inr (), s')"
    for a b m n o' s
  proof -
    obtain s1 where "counted m s = (Inr (), s1)" using counted_returns by blast
    moreover obtain s2 where "counted n s1 = (Inr (), s2)" using counted_returns by blast
    moreover obtain s3 where "counted o' s = (Inr (), s3)" using counted_returns by blast
    ultimately show ?thesis by (simp add: seq_def ret_def)
  qed
  then show ?thesis by (simp add: recover_close_def with_state_def)
qed

lemma counted_then_close: "\<exists>s'. seq (counted m) (\<lambda>_. recover_close E) s = (Inr (), s')"
proof -
  obtain s1 where s1: "counted m s = (Inr (), s1)" using counted_returns by blast
  obtain s2 where "recover_close E s1 = (Inr (), s2)" using close_returns by blast
  with s1 show ?thesis by (simp add: seq_def)
qed

lemma run_books:
  assumes "rv_active s = False" "rv_log s = []"
  shows "closed_books E (books E (snd (recoverCompactionFailures E s)))"
proof -
  let ?s = "recovery_start_state s"
  have run: "triple (\<lambda>s. balanced E 0 0 [] s \<and> rv_beat s = Beat_over \<and> length (rv_log s) = 0)
      (seq (counted (recover_main E)) (\<lambda>_. recover_close E)) (\<lambda>_ s. closed_books E (books E s)) (\<lambda>_ _. True)"
    by (rule triple_seq [OF triple_counted_books [OF main_books] close_books])
  have start: "balanced E 0 0 [] ?s \<and> rv_beat ?s = Beat_over \<and> length (rv_log ?s) = 0"
    using assms(2) by (simp add: recovery_start_state_def balanced_def exact_books_def books_def no_counts_def lines_of_def)
  obtain s' where s': "seq (counted (recover_main E)) (\<lambda>_. recover_close E) ?s = (Inr (), s')"
    using counted_then_close by blast
  have "closed_books E (books E s')" by (rule triple_Inr [OF run start s'])
  then show ?thesis using assms(1) s' by (simp add: recoverCompactionFailures_def Let_def books_def)
qed

text \<open>C28: the report of a repair is exact in every run, whatever fails in it. The ledger reads the log: a line for
every claim, by the answer to it, and an abort that was confirmed or a give-back settles the open claim it names, the
one that was granted with at most its ownership renewed since. Then every granted claim is settled
exactly once: it is aborted with a confirmed answer, or a give-back was asked for (the line says whether it was
confirmed), and there is no abort or give-back beside these. The number of repaired chats is the number of
confirmed aborts; the number of skipped chats is the number of claims answered as ineligible;
every other refused, inconsistent or unanswered claim and every claim that was given back counts as
failed. The exit code is 0 exactly if no failure was counted, and then the chats of the configuration were
claimed once each and in their order, and every one was repaired or had nothing to repair.\<close>

theorem recovery_accounts_for_every_claim:
  assumes "rv_active s = False" "rv_log s = []"
    and "recoverCompactionFailures E s = ((exit_code, k), s')"
  shows "list_all settled_line (ledger E (rv_log s')) \<and> n_repaired k = lines_of Claim_repaired (ledger E (rv_log s')) \<and>
    n_skipped k = lines_of Claim_skipped (ledger E (rv_log s')) \<and>
    length (filter bad_line (ledger E (rv_log s'))) \<le> n_failed k \<and> (exit_code = 0 \<longleftrightarrow> n_failed k = 0) \<and>
    (exit_code = 0 \<longrightarrow> xe_repository E 1 = Inr (map fst (rev (ledger E (rv_log s')))) \<and>
      n_scanned k = length (ledger E (rv_log s')) \<and>
      list_all (\<lambda>x. snd x = Claim_repaired \<or> snd x = Claim_skipped) (ledger E (rv_log s')))"
proof -
  have k: "k = rv_counts s'" and code: "exit_code = (if 0 < n_failed k then 1 else 0)"
    using assms(1,3) by (auto simp: recoverCompactionFailures_def Let_def)
  have c: "closed_books E (k, ledger E (rv_log s'))"
    using run_books [OF assms(1,2), of E] assms(3) k by (simp add: books_def)
  have good: "snd x = Claim_repaired \<or> snd x = Claim_skipped" if "settled_line x" "\<not> bad_line x" for x
    using that by (cases x; cases "snd x") auto
  have "list_all (\<lambda>x. snd x = Claim_repaired \<or> snd x = Claim_skipped) (ledger E (rv_log s'))" if "n_failed k = 0"
    using c that good by (auto simp: closed_books_def list_all_iff filter_empty_conv)
  then show ?thesis using c code by (auto simp: closed_books_def)
qed

theorem recovery_accounts_for_every_claim_witness:
  "1 = lines_of Claim_repaired (ledger rec_env (rec_begin @ rec_repair @ [X_release_app rec_fence, X_close_repository])) \<and>
    xe_repository rec_env 1 =
      Inr (map fst (rev (ledger rec_env (rec_begin @ rec_repair @ [X_release_app rec_fence, X_close_repository]))))"
proof -
  have idle: "rv_active idle_recovery = False" "rv_log idle_recovery = []" by (simp_all add: idle_recovery_def)
  let ?s = "snd (recoverCompactionFailures rec_env idle_recovery)"
    and ?k = "\<lparr>n_scanned = 1, n_repaired = 1, n_skipped = 0, n_failed = 0\<rparr>"
  have run: "recoverCompactionFailures rec_env idle_recovery = ((0, ?k), ?s)"
    using rec_run(2) by (metis prod.collapse)
  note exact = recovery_accounts_for_every_claim [OF idle run, unfolded rec_run(1)]
  have "n_repaired ?k = lines_of Claim_repaired (ledger rec_env (rec_begin @ rec_repair @ [X_release_app rec_fence, X_close_repository]))"
    using exact by (elim conjE)
  moreover have "xe_repository rec_env 1 =
      Inr (map fst (rev (ledger rec_env (rec_begin @ rec_repair @ [X_release_app rec_fence, X_close_repository]))))"
    using exact by blast
  ultimately show ?thesis unfolding recovery_counts.select_convs by (rule conjI)
qed

end
