(* ===== verification/Intent.thy ===== *)
theory Intent
  imports Recovery_Count
begin

text \<open>
  The operator's step before a repair of records without recovery binding
  (\<open>createCompactionRecoveryManifest\<close> of \<open>src/session-controller/src/main.ts\<close>): the one claim that is
  eligible is proved twice, the digest of its tuple is staged in a file that nothing reads, the claim is given
  back and only then the file is published. The heartbeat of the selected claim runs beside the calls as in
  theory \<open>Recovery\<close>.
\<close>

section \<open>State and environment\<close>

datatype intent_effect =
    I_connect | I_repository | I_acquire | I_renew_app | I_create string | I_prove repair_claim | I_stage string string
  | I_release_claim repair_claim | I_publish string | I_discard string | I_release_app fence
  | I_close_repository | I_close_connections | I_beat_app | I_beat_chat

record intent =
  it_app :: "fence option"
  it_selected :: "repair_claim option"
  it_digest :: "string option"
  it_staged :: "string option"
  it_released :: bool
  it_attempted :: bool
  it_published :: bool
  it_beat :: recovery_beat
  it_scanned :: nat
  it_eligible :: nat
  it_failed :: nat
  it_connected :: bool
  it_repository :: bool
  it_log :: "intent_effect list"

text \<open>A stage is named by its temporary path.\<close>

record intent_env =
  ne_load :: "error_class + recovery_config"
  ne_connect :: "nat \<Rightarrow> error_class + unit"
  ne_repository :: "nat \<Rightarrow> error_class + string list"
  ne_acquire :: "nat \<Rightarrow> error_class + fence option"
  ne_renewApp :: "nat \<Rightarrow> error_class + fence option"
  ne_create :: "nat \<Rightarrow> error_class + repair_result"
  ne_renew :: "nat \<Rightarrow> error_class + ownership option"
  ne_prove :: "nat \<Rightarrow> error_class + file_generation"
  ne_stage :: "nat \<Rightarrow> error_class + string"
  ne_bool :: "nat \<Rightarrow> error_class + bool"
  ne_unit :: "nat \<Rightarrow> error_class + unit"
  ne_digest :: "repair_claim \<Rightarrow> file_generation \<Rightarrow> error_class + string"
  ne_beats :: "nat \<Rightarrow> nat"

type_synonym 'a intent_exec = "(intent, 'a) exec"

section \<open>The heartbeat\<close>

definition set_selected_ownership :: "(ownership \<Rightarrow> ownership) \<Rightarrow> intent \<Rightarrow> intent" where
  "set_selected_ownership f s =
     s\<lparr>it_selected := map_option (\<lambda>c. c\<lparr>rc_work := (rc_work c)\<lparr>cw_ownership := f (cw_ownership (rc_work c))\<rparr>\<rparr>) (it_selected s)\<rparr>"

definition intent_beat_app :: "intent_env \<Rightarrow> intent \<Rightarrow> intent" where
  "intent_beat_app E s =
     (let n = length (it_log s); s = s\<lparr>it_log := it_log s @ [I_beat_app]\<rparr> in
      case ne_renewApp E n of
        Inr (Some next) \<Rightarrow> (set_selected_ownership (\<lambda>own. own\<lparr>own_app := next\<rparr>) s)\<lparr>it_app := Some next, it_beat := Beat_renewing\<rparr>
      | _ \<Rightarrow> s\<lparr>it_beat := Beat_failed\<rparr>)"

definition intent_beat_chat :: "intent_env \<Rightarrow> intent \<Rightarrow> intent" where
  "intent_beat_chat E s =
     (let n = length (it_log s); s = s\<lparr>it_log := it_log s @ [I_beat_chat]\<rparr> in
      case ne_renew E n of
        Inr (Some own) \<Rightarrow> (set_selected_ownership (\<lambda>_. own) s)\<lparr>it_beat := Beat_waiting\<rparr>
      | _ \<Rightarrow> s\<lparr>it_beat := Beat_failed\<rparr>)"

definition intent_beat :: "intent_env \<Rightarrow> intent \<Rightarrow> intent" where
  "intent_beat E s =
     (case it_beat s of Beat_waiting \<Rightarrow> intent_beat_app E s | Beat_renewing \<Rightarrow> intent_beat_chat E s | _ \<Rightarrow> s)"

definition intent_drain :: "intent_env \<Rightarrow> intent \<Rightarrow> intent" where
  "intent_drain E s =
     (let s = (if it_beat s = Beat_renewing then intent_beat_chat E s else s) in
      if it_beat s = Beat_failed then s else s\<lparr>it_beat := Beat_over\<rparr>)"

definition intent_call :: "intent_env \<Rightarrow> intent_effect \<Rightarrow> (nat \<Rightarrow> error_class + 'a) \<Rightarrow> 'a intent_exec" where
  "intent_call E e answer s =
     (answer (length (it_log s)), (intent_beat E ^^ ne_beats E (length (it_log s))) (s\<lparr>it_log := it_log s @ [e]\<rparr>))"

definition with_selected :: "(repair_claim \<Rightarrow> 'a intent_exec) \<Rightarrow> 'a intent_exec" where
  "with_selected f = with_state (\<lambda>s. case it_selected s of Some c \<Rightarrow> f c | None \<Rightarrow> throw Internal_failed)"

section \<open>The chats\<close>

text \<open>The first eligible claim: proved twice under the heartbeat, and its digest kept.\<close>

definition select_claim :: "intent_env \<Rightarrow> repair_claim \<Rightarrow> unit intent_exec" where
  "select_claim E c =
     seq (modify (\<lambda>s. s\<lparr>it_selected := Some c, it_beat := Beat_waiting\<rparr>)) (\<lambda>_.
     seq (with_selected (\<lambda>c. intent_call E (I_prove c) (ne_prove E))) (\<lambda>first.
     seq (with_selected (\<lambda>c. intent_call E (I_prove c) (ne_prove E))) (\<lambda>second.
     with_state (\<lambda>s.
       if it_beat s = Beat_failed \<or> first \<noteq> second then throw Restore_failed
       else seq (with_selected (\<lambda>c. lift (ne_digest E c second))) (\<lambda>d.
         modify (\<lambda>s. s\<lparr>it_digest := Some d\<rparr>))))))"

text \<open>Another eligible claim is given back at once.\<close>

definition eligible_claim :: "intent_env \<Rightarrow> repair_claim \<Rightarrow> unit intent_exec" where
  "eligible_claim E c =
     seq (modify (\<lambda>s. s\<lparr>it_eligible := Suc (it_eligible s)\<rparr>)) (\<lambda>_.
     with_state (\<lambda>s.
       if it_selected s \<noteq> None then
         seq (intent_call E (I_release_claim c) (ne_bool E)) (\<lambda>ok. if ok then ret () else throw Lease_lost)
       else select_claim E c))"

definition intent_chat :: "intent_env \<Rightarrow> string \<Rightarrow> unit intent_exec" where
  "intent_chat E chat =
     seq (modify (\<lambda>s. s\<lparr>it_scanned := Suc (it_scanned s)\<rparr>)) (\<lambda>_.
     seq (intent_call E I_renew_app (ne_renewApp E)) (\<lambda>renewed.
       case renewed of
         None \<Rightarrow> throw Lease_lost
       | Some app \<Rightarrow>
           seq (modify (\<lambda>s. s\<lparr>it_app := Some app\<rparr>)) (\<lambda>_.
           seq (intent_call E (I_create chat) (ne_create E)) (\<lambda>candidate.
             case candidate of
               RR_ineligible \<Rightarrow> ret ()
             | RR_claimed c \<Rightarrow> eligible_claim E c
             | _ \<Rightarrow> throw Restore_failed))))"

fun intent_chats :: "intent_env \<Rightarrow> string list \<Rightarrow> unit intent_exec" where
  "intent_chats E [] = ret ()"
| "intent_chats E (chat # chats) = seq (intent_chat E chat) (\<lambda>_. intent_chats E chats)"

section \<open>Staging and publication\<close>

definition publish_intent :: "intent_env \<Rightarrow> string \<Rightarrow> unit intent_exec" where
  "publish_intent E path = with_state (\<lambda>s.
     if it_eligible s \<noteq> 1 \<or> it_digest s \<in> {None, Some ''''} \<or> it_selected s = None \<or> it_beat s = Beat_failed then throw Restore_failed
     else
       seq (case it_digest s of None \<Rightarrow> throw Restore_failed | Some d \<Rightarrow> intent_call E (I_stage path d) (ne_stage E)) (\<lambda>st.
       seq (modify (\<lambda>s. s\<lparr>it_staged := Some st\<rparr>)) (\<lambda>_.
       seq (modify (intent_drain E)) (\<lambda>_.
       with_state (\<lambda>s.
         if it_beat s = Beat_failed then throw Lease_lost
         else
           seq (modify (\<lambda>s. s\<lparr>it_attempted := True\<rparr>)) (\<lambda>_.
           seq (with_selected (\<lambda>c. intent_call E (I_release_claim c) (ne_bool E))) (\<lambda>ok.
             if \<not> ok then throw Lease_lost
             else
               seq (modify (\<lambda>s. s\<lparr>it_released := True\<rparr>)) (\<lambda>_.
               seq (intent_call E (I_publish st) (ne_unit E)) (\<lambda>_.
               modify (\<lambda>s. s\<lparr>it_published := True\<rparr>))))))))))"

text \<open>The \<open>finally\<close> block of the selection: no stage is left unless it was published, no claim is kept.\<close>

definition discard_stage :: "intent_env \<Rightarrow> unit intent_exec" where
  "discard_stage E = with_state (\<lambda>s.
     case it_staged s of
       Some st \<Rightarrow> if it_published s then ret () else catch (intent_call E (I_discard st) (ne_unit E)) (\<lambda>_. ret ())
     | None \<Rightarrow> ret ())"

definition give_up_claim :: "intent_env \<Rightarrow> unit intent_exec" where
  "give_up_claim E = with_state (\<lambda>s.
     if it_selected s \<noteq> None \<and> \<not> it_released s \<and> \<not> it_attempted s then
       catch (seq (with_selected (\<lambda>c. intent_call E (I_release_claim c) (ne_bool E))) (\<lambda>ok.
           modify (\<lambda>s. s\<lparr>it_released := ok\<rparr>))) (\<lambda>_. ret ())
     else ret ())"

definition intent_settle :: "intent_env \<Rightarrow> unit intent_exec" where
  "intent_settle E = seq (modify (intent_drain E)) (\<lambda>_. seq (discard_stage E) (\<lambda>_. give_up_claim E))"

definition intent_failed :: "unit intent_exec" where
  "intent_failed = modify (\<lambda>s. s\<lparr>it_failed := Suc (it_failed s)\<rparr>)"

definition intent_release_app :: "intent_env \<Rightarrow> unit intent_exec" where
  "intent_release_app E = with_state (\<lambda>s.
     case it_app s of
       None \<Rightarrow> ret ()
     | Some app \<Rightarrow> seq (intent_call E (I_release_app app) (ne_bool E)) (\<lambda>ok. if ok then ret () else intent_failed))"

definition intent_main :: "intent_env \<Rightarrow> unit intent_exec" where
  "intent_main E =
     seq (lift (ne_load E)) (\<lambda>config.
     if rf_manifestPath config \<in> {None, Some ''''} then throw Config_invalid
     else
       seq (intent_call E I_connect (ne_connect E)) (\<lambda>_.
       seq (modify (\<lambda>s. s\<lparr>it_connected := True\<rparr>)) (\<lambda>_.
       seq (intent_call E I_repository (ne_repository E)) (\<lambda>chats.
       seq (modify (\<lambda>s. s\<lparr>it_repository := True\<rparr>)) (\<lambda>_.
       seq (intent_call E I_acquire (ne_acquire E)) (\<lambda>app.
         case app of
           None \<Rightarrow> throw Lease_lost
         | Some app \<Rightarrow>
             seq (modify (\<lambda>s. s\<lparr>it_app := Some app\<rparr>)) (\<lambda>_.
             seq (finalize (seq (intent_chats E chats) (\<lambda>_. publish_intent E (the (rf_manifestPath config)))) (intent_settle E)) (\<lambda>_.
             with_state (\<lambda>s.
               if it_beat s = Beat_failed \<or> \<not> it_released s \<or> \<not> it_published s then throw Lease_lost
               else seq (intent_release_app E) (\<lambda>_. modify (\<lambda>s. s\<lparr>it_app := None\<rparr>)))))))))))"

definition intent_close :: "intent_env \<Rightarrow> unit intent_exec" where
  "intent_close E = with_state (\<lambda>s.
     seq (if it_repository s then catch (intent_release_app E) (\<lambda>_. intent_failed) else ret ()) (\<lambda>_.
       if it_repository s then catch (intent_call E I_close_repository (ne_unit E)) (\<lambda>_. intent_failed)
       else if it_connected s then catch (intent_call E I_close_connections (ne_unit E)) (\<lambda>_. intent_failed)
       else ret ()))"

definition new_intent :: intent where
  "new_intent = \<lparr>it_app = None, it_selected = None, it_digest = None, it_staged = None, it_released = False, it_attempted = False,
     it_published = False, it_beat = Beat_over, it_scanned = 0, it_eligible = 0, it_failed = 0, it_connected = False,
     it_repository = False, it_log = []\<rparr>"

text \<open>The exit code and the state that is reported.\<close>

definition createCompactionRecoveryManifest :: "intent_env \<Rightarrow> nat \<times> intent" where
  "createCompactionRecoveryManifest E =
     (let s = snd (seq (catch (intent_main E) (\<lambda>_. intent_failed)) (\<lambda>_. intent_close E) new_intent) in
      (if 0 < it_failed s then 1 else 0, s))"

end
