(* ===== verification/Intent_Spec.thy ===== *)
theory Intent_Spec
  imports Intent Host_Spec
begin

text \<open>
  What the operator's intent rests on in every run, whatever the dependencies answer and whenever the
  heartbeat runs: a published digest is the one of the only eligible claim, proved twice, and it is
  published directly after the claim was given back; for everything that was staged or claimed the discard or the
  give-back is attempted, and with exit code 0 it was confirmed.
\<close>

section \<open>What the log says\<close>

definition grant_at :: "intent_env \<Rightarrow> nat \<Rightarrow> intent_effect \<Rightarrow> bool" where
  "grant_at E n e \<longleftrightarrow> (\<exists>chat c. e = I_create chat \<and> ne_create E n = Inr (RR_claimed c))"

definition grants_in :: "intent_env \<Rightarrow> intent_effect list \<Rightarrow> nat" where
  "grants_in E log = length (filter (\<lambda>n. grant_at E n (log ! n)) [0..<length log])"

lemma grants_snoc: "grants_in E (log @ [e]) = grants_in E log + (if grant_at E (length log) e then 1 else 0)"
proof -
  have "filter (\<lambda>n. grant_at E n ((log @ [e]) ! n)) [0..<length log] = filter (\<lambda>n. grant_at E n (log ! n)) [0..<length log]"
    by (rule filter_cong) (simp_all add: nth_append)
  then show ?thesis by (simp add: grants_in_def)
qed

definition granted :: "intent_env \<Rightarrow> repair_claim \<Rightarrow> intent_effect list \<Rightarrow> bool" where
  "granted E c log \<longleftrightarrow> (\<exists>chat. answered log (I_create chat) (ne_create E) (RR_claimed c))"

definition proved :: "intent_env \<Rightarrow> claim_core \<Rightarrow> file_generation \<Rightarrow> intent_effect list \<Rightarrow> bool" where
  "proved E k g log \<longleftrightarrow> (\<exists>c. core c = k \<and> answered log (I_prove c) (ne_prove E) g)"

definition proved_again :: "intent_env \<Rightarrow> claim_core \<Rightarrow> file_generation \<Rightarrow> intent_effect list \<Rightarrow> bool" where
  "proved_again E k g log \<longleftrightarrow> (\<exists>c. core c = k \<and> answered_since log (I_prove c) (ne_prove E) g (proved E k g))"

definition digest_evidence :: "intent_env \<Rightarrow> string \<Rightarrow> intent_effect list \<Rightarrow> bool" where
  "digest_evidence E d log \<longleftrightarrow> (\<exists>k g c c'. core c = k \<and> core c' = k \<and> granted E c log \<and> proved_again E k g log \<and> ne_digest E c' g = Inr d)"

definition confirmed_back :: "intent_env \<Rightarrow> claim_core \<Rightarrow> intent_effect list \<Rightarrow> bool" where
  "confirmed_back E k log \<longleftrightarrow> (\<exists>c. core c = k \<and> answered log (I_release_claim c) (ne_bool E) True)"

definition given_back :: "claim_core \<Rightarrow> intent_effect list \<Rightarrow> bool" where
  "given_back k log \<longleftrightarrow> (\<exists>c. core c = k \<and> I_release_claim c \<in> set log)"

lemma intent_growing [intro, simp]:
  "keeps_growing (granted E c)" "keeps_growing (proved E k g)" "keeps_growing (proved_again E k g)"
  "keeps_growing (digest_evidence E d)" "keeps_growing (given_back k)" "keeps_growing (confirmed_back E k)"
proof -
  show "keeps_growing (confirmed_back E k)" unfolding confirmed_back_def by (intro growing_ex keeps_growing_intros)
  show g: "keeps_growing (granted E c)" for c unfolding granted_def by (intro growing_ex keeps_growing_intros)
  show "keeps_growing (proved E k g)" unfolding proved_def by (intro growing_ex keeps_growing_intros)
  show p: "keeps_growing (proved_again E k g)" for k g unfolding proved_again_def
    by (intro growing_ex keeps_growing_intros keeps_growing_since)
  show "keeps_growing (digest_evidence E d)" unfolding digest_evidence_def by (intro growing_ex keeps_growing_intros g p)
  show "keeps_growing (given_back k)" unfolding given_back_def by (intro growing_ex keeps_growing_intros)
qed

definition configured_path :: "intent_env \<Rightarrow> string \<Rightarrow> bool" where
  "configured_path E path \<longleftrightarrow> (\<exists>config. ne_load E = Inr config \<and> rf_manifestPath config = Some path)"

definition intent_guard :: "intent_env \<Rightarrow> intent_effect list \<Rightarrow> intent_effect \<Rightarrow> bool" where
  "intent_guard E log e \<longleftrightarrow>
     (case e of
        I_stage path d \<Rightarrow> grants_in E log = 1 \<and> digest_evidence E d log \<and> configured_path E path
      | I_publish st \<Rightarrow> grants_in E log = 1 \<and> log \<noteq> [] \<and> (\<exists>c. last log = I_release_claim c) \<and> ne_bool E (length log - 1) = Inr True \<and>
          (\<exists>path d. answered log (I_stage path d) (ne_stage E) st)
      | _ \<Rightarrow> True)"

section \<open>The heartbeat\<close>

definition beats_only :: "intent_effect list \<Rightarrow> bool" where
  "beats_only es \<longleftrightarrow> set es \<subseteq> {I_beat_app, I_beat_chat}"

text \<open>\<open>grown s t\<close>: only the heartbeat has run from \<open>s\<close> to \<open>t\<close>.\<close>

definition grown :: "intent \<Rightarrow> intent \<Rightarrow> bool" where
  "grown s t \<longleftrightarrow> it_digest t = it_digest s \<and> it_staged t = it_staged s \<and> it_released t = it_released s \<and> it_attempted t = it_attempted s \<and>
     it_published t = it_published s \<and> it_eligible t = it_eligible s \<and> it_failed t = it_failed s \<and> it_repository t = it_repository s \<and>
     map_option core (it_selected t) = map_option core (it_selected s) \<and>
     (\<exists>es. it_log t = it_log s @ es \<and> beats_only es) \<and> (it_beat s \<in> {Beat_failed, Beat_over} \<longrightarrow> t = s)"

lemma grown_refl: "grown s s"
  by (simp add: grown_def beats_only_def)

lemma grown_trans:
  assumes "grown s t" "grown t u"
  shows "grown s u"
proof -
  obtain a b where "it_log t = it_log s @ a" "beats_only a" "it_log u = it_log t @ b" "beats_only b"
    using assms unfolding grown_def by blast
  then have log: "\<exists>es. it_log u = it_log s @ es \<and> beats_only es"
    by (intro exI [of _ "a @ b"]) (simp add: beats_only_def)
  have "it_beat s \<in> {Beat_failed, Beat_over} \<longrightarrow> u = s" using assms unfolding grown_def by blast
  then show ?thesis using assms log unfolding grown_def by simp
qed

lemma beat_app_grown: "it_beat s = Beat_waiting \<Longrightarrow> grown s (intent_beat_app E s)"
  by (auto simp: grown_def intent_beat_app_def Let_def set_selected_ownership_def beats_only_def option.map_comp comp_def split: sum.split option.split)

lemma beat_chat_grown: "it_beat s = Beat_renewing \<Longrightarrow> grown s (intent_beat_chat E s)"
  by (auto simp: grown_def intent_beat_chat_def Let_def set_selected_ownership_def beats_only_def option.map_comp comp_def split: sum.split option.split)

lemma beat_grown: "grown s (intent_beat E s)"
  using beat_app_grown [of s E] beat_chat_grown [of s E] grown_refl [of s] by (simp add: intent_beat_def split: recovery_beat.split)

lemma beats_grown: "grown s ((intent_beat E ^^ n) s)"
  by (induction n) (auto simp: grown_refl intro: grown_trans beat_grown)

text \<open>Draining ends the heartbeat and otherwise only lets it run.\<close>

lemma drain_grown: "\<exists>t. grown s t \<and> intent_drain E s = t\<lparr>it_beat := it_beat (intent_drain E s)\<rparr> \<and>
    it_beat (intent_drain E s) \<in> {Beat_failed, Beat_over}"
proof (cases "it_beat s = Beat_renewing")
  case True
  then show ?thesis using beat_chat_grown [OF True, of E]
    by (intro exI [of _ "intent_beat_chat E s"]) (auto simp: intent_drain_def Let_def)
next
  case False
  then show ?thesis using grown_refl by (intro exI [of _ s]) (auto simp: intent_drain_def Let_def)
qed

section \<open>The invariant\<close>

text \<open>\<open>K\<close> and \<open>n\<close>: a grant that was just answered and is not in the variables yet.\<close>

definition open_inv :: "intent_env \<Rightarrow> claim_core set \<Rightarrow> nat \<Rightarrow> intent \<Rightarrow> bool" where
  "open_inv E K n s \<longleftrightarrow>
     guarded (intent_guard E) (it_log s) \<and>
     it_eligible s + n = grants_in E (it_log s) \<and>
     (\<forall>d. it_digest s = Some d \<longrightarrow> digest_evidence E d (it_log s)) \<and>
     (\<forall>path d st. answered (it_log s) (I_stage path d) (ne_stage E) st \<longrightarrow> it_staged s = Some st) \<and>
     (\<forall>st. it_staged s = Some st \<longrightarrow> (\<exists>path d. answered (it_log s) (I_stage path d) (ne_stage E) st)) \<and>
     (it_published s \<longrightarrow> (\<exists>st. it_staged s = Some st \<and> answered (it_log s) (I_publish st) (ne_unit E) ())) \<and>
     (\<forall>c. granted E c (it_log s) \<longrightarrow> core c \<in> K \<or> map_option core (it_selected s) = Some (core c) \<or> given_back (core c) (it_log s)) \<and>
     (it_released s \<or> it_attempted s \<longrightarrow> (\<exists>k. map_option core (it_selected s) = Some k \<and> given_back k (it_log s))) \<and>
     (\<forall>k. map_option core (it_selected s) = Some k \<longrightarrow> (\<exists>c. core c = k \<and> granted E c (it_log s)))"

abbreviation intent_inv :: "intent_env \<Rightarrow> intent \<Rightarrow> bool" where
  "intent_inv E \<equiv> open_inv E {} 0"

lemma beats_answered: "beats_only es \<Longrightarrow> e \<notin> {I_beat_app, I_beat_chat} \<Longrightarrow> answered (log @ es) e f x = answered log e f x"
proof (induction es rule: rev_induct)
  case (snoc b es)
  have "b = I_beat_app \<or> b = I_beat_chat" using snoc.prems(1) by (auto simp: beats_only_def)
  then show ?case using snoc answered_snoc [of "log @ es" b e f x] by (auto simp: beats_only_def)
qed simp

lemma beats_guarded:
  "beats_only es \<Longrightarrow> guarded (intent_guard E) (log @ es) = guarded (intent_guard E) log \<and> grants_in E (log @ es) = grants_in E log"
proof (induction es rule: rev_induct)
  case (snoc b es)
  have "b = I_beat_app \<or> b = I_beat_chat" using snoc.prems by (auto simp: beats_only_def)
  then have "intent_guard E l b" "\<not> grant_at E n b" for l n by (auto simp: intent_guard_def grant_at_def)
  then show ?case
    using snoc guarded_snoc [of "intent_guard E" "log @ es" b] grants_snoc [of E "log @ es" b] by (simp add: beats_only_def)
qed simp

lemma beats_ext:
  assumes "beats_only es"
  shows "guarded (intent_guard E) (log @ es) = guarded (intent_guard E) log" "grants_in E (log @ es) = grants_in E log"
    "granted E c (log @ es) = granted E c log" "given_back k (log @ es) = given_back k log"
    "answered (log @ es) (I_stage path d) f x = answered log (I_stage path d) f x"
    "answered (log @ es) (I_publish st) g y = answered log (I_publish st) g y"
  using beats_guarded [OF assms] assms
  by (simp_all add: granted_def beats_answered) (auto simp: given_back_def beats_only_def)

lemma inv_grown:
  assumes "open_inv E K n s" "grown s t"
  shows "open_inv E K n t"
proof -
  obtain es where es: "it_log t = it_log s @ es" "beats_only es" using assms(2) unfolding grown_def by blast
  have same: "it_digest t = it_digest s" "it_staged t = it_staged s" "it_released t = it_released s" "it_attempted t = it_attempted s"
    "it_published t = it_published s" "it_eligible t = it_eligible s" "map_option core (it_selected t) = map_option core (it_selected s)"
    using assms(2) unfolding grown_def by blast+
  have digest: "digest_evidence E d (it_log s) \<Longrightarrow> digest_evidence E d (it_log s @ es)" for d
    by (rule growing_append [OF intent_growing(4)])
  show ?thesis using assms(1) digest unfolding open_inv_def es(1) same beats_ext [OF es(2)] by blast
qed

text \<open>An effect that is neither a grant, nor a stage, nor a publication.\<close>

fun plain_effect :: "intent_effect \<Rightarrow> bool" where
  "plain_effect (I_create chat) = False"
| "plain_effect (I_stage path d) = False"
| "plain_effect (I_publish st) = False"
| "plain_effect e = True"

lemma plain_not: "plain_effect e \<Longrightarrow> e \<noteq> I_create chat \<and> e \<noteq> I_stage path d \<and> e \<noteq> I_publish st"
  by auto

lemma inv_plain:
  assumes "open_inv E K n s" "plain_effect e"
  shows "open_inv E K n (s\<lparr>it_log := it_log s @ [e]\<rparr>)"
proof -
  let ?log = "it_log s @ [e]"
  have ne: "e \<noteq> I_create chat" "e \<noteq> I_stage path d" "e \<noteq> I_publish st" for chat path d st using plain_not [OF assms(2)] by blast+
  have g: "guarded (intent_guard E) ?log = guarded (intent_guard E) (it_log s)"
    using assms(2) guarded_snoc [of "intent_guard E" "it_log s" e] by (cases e) (simp_all add: intent_guard_def)
  have c: "grants_in E ?log = grants_in E (it_log s)" using ne by (auto simp: grants_snoc grant_at_def)
  have a: "granted E k ?log = granted E k (it_log s)" "answered ?log (I_stage path d) f x = answered (it_log s) (I_stage path d) f x"
    "answered ?log (I_publish st) h y = answered (it_log s) (I_publish st) h y" for k path d f x st h y
    using ne by (auto simp: granted_def answered_snoc)
  have d: "digest_evidence E x (it_log s) \<Longrightarrow> digest_evidence E x ?log" for x
    by (rule growing_append [OF intent_growing(4)])
  have b: "given_back k (it_log s) \<Longrightarrow> given_back k ?log" for k by (rule growing_append [OF intent_growing(5)])
  show ?thesis using assms(1) b d unfolding open_inv_def by (simp add: g c a) blast
qed

section \<open>Calls\<close>

lemma triple_icall:
  assumes "\<And>s t. P s \<Longrightarrow> grown (s\<lparr>it_log := it_log s @ [e]\<rparr>) t \<Longrightarrow>
      (case f (length (it_log s)) of Inl x \<Rightarrow> R x t | Inr x \<Rightarrow> Q x t)"
  shows "triple P (intent_call E e f) Q R"
proof (unfold triple_def, intro allI impI)
  fix s assume "P s"
  from assms [OF this beats_grown]
  show "case intent_call E e f s of (Inl x, s') \<Rightarrow> R x s' | (Inr x, s') \<Rightarrow> Q x s'"
    by (cases "f (length (it_log s))") (auto simp: intent_call_def)
qed

lemma holds_icall: "plain_effect e \<Longrightarrow> holds (intent_inv E) (intent_call E e f)"
  unfolding holds_def by (rule triple_icall) (auto intro: inv_grown inv_plain split: sum.split)

lemma inv_drain: "intent_inv E s \<Longrightarrow> intent_inv E (intent_drain E s)"
proof -
  assume i: "intent_inv E s"
  obtain t where t: "grown s t" "intent_drain E s = t\<lparr>it_beat := it_beat (intent_drain E s)\<rparr>" using drain_grown by blast
  have "intent_inv E (t\<lparr>it_beat := b\<rparr>)" for b using inv_grown [OF i t(1)] by (simp add: open_inv_def)
  then show ?thesis by (subst t(2))
qed

section \<open>The selected claim\<close>

definition selecting :: "intent_env \<Rightarrow> claim_core \<Rightarrow> (intent_effect list \<Rightarrow> bool) \<Rightarrow> intent \<Rightarrow> bool" where
  "selecting E k P s \<longleftrightarrow> intent_inv E s \<and> map_option core (it_selected s) = Some k \<and> P (it_log s)"

lemma triple_with_selected:
  assumes "\<And>c. core c = k \<Longrightarrow> triple (selecting E k P) (f c) Q R"
  shows "triple (selecting E k P) (with_selected f) Q R"
proof (unfold triple_def, intro allI impI)
  fix s assume s: "selecting E k P s"
  then obtain c where "it_selected s = Some c" "core c = k" by (auto simp: selecting_def)
  then show "case with_selected f s of (Inl e, s') \<Rightarrow> R e s' | (Inr x, s') \<Rightarrow> Q x s'"
    using assms [of c] s by (simp add: with_selected_def with_state_def triple_def)
qed

lemma grown_log: "grown s t \<Longrightarrow> \<exists>es. it_log t = it_log s @ es \<and> beats_only es"
  unfolding grown_def by blast

lemma triple_select_prove:
  assumes P: "keeps_growing P" and c: "core c = k"
  shows "triple (selecting E k P) (intent_call E (I_prove c) (ne_prove E))
    (\<lambda>g. selecting E k (\<lambda>l. P l \<and> (\<exists>c. core c = k \<and> answered_since l (I_prove c) (ne_prove E) g P))) (\<lambda>_. intent_inv E)"
proof (rule triple_icall)
  fix s t assume s: "selecting E k P s" and g: "grown (s\<lparr>it_log := it_log s @ [I_prove c]\<rparr>) t"
  have i: "intent_inv E t" using inv_grown [OF inv_plain g] s by (simp add: selecting_def)
  obtain es where es: "it_log t = (it_log s @ [I_prove c]) @ es" using grown_log [OF g] by auto
  have sel: "map_option core (it_selected t) = Some k" using g s by (simp add: grown_def selecting_def)
  have "P (it_log t)" unfolding es append_assoc using growing_append [OF P] s by (simp add: selecting_def)
  moreover have "answered_since (it_log t) (I_prove c) (ne_prove E) x P" if "ne_prove E (length (it_log s)) = Inr x" for x
    unfolding es by (rule growing_append [OF keeps_growing_since]) (use s that in \<open>simp add: answered_since_snoc selecting_def\<close>)
  ultimately show "case ne_prove E (length (it_log s)) of Inl x \<Rightarrow> intent_inv E t
      | Inr x \<Rightarrow> selecting E k (\<lambda>l. P l \<and> (\<exists>c. core c = k \<and> answered_since l (I_prove c) (ne_prove E) x P)) t"
    using i sel c by (auto simp: selecting_def split: sum.split)
qed

lemma open_selected:
  assumes "open_inv E {core c} 0 s" "it_selected s = None" "\<not> it_released s" "\<not> it_attempted s" "granted E c (it_log s)"
  shows "intent_inv E (s\<lparr>it_selected := Some c, it_beat := b\<rparr>)"
proof -
  have all: "granted E x (it_log s) \<Longrightarrow> core x = core c \<or> given_back (core x) (it_log s)" for x
    using assms(1,2) unfolding open_inv_def by simp
  have rest: "guarded (intent_guard E) (it_log s)" "it_eligible s = grants_in E (it_log s)"
    "\<forall>d. it_digest s = Some d \<longrightarrow> digest_evidence E d (it_log s)"
    "\<forall>path d st. answered (it_log s) (I_stage path d) (ne_stage E) st \<longrightarrow> it_staged s = Some st"
    "\<forall>st. it_staged s = Some st \<longrightarrow> (\<exists>path d. answered (it_log s) (I_stage path d) (ne_stage E) st)"
    "it_published s \<longrightarrow> (\<exists>st. it_staged s = Some st \<and> answered (it_log s) (I_publish st) (ne_unit E) ())"
    using assms(1) unfolding open_inv_def by simp_all
  show ?thesis
    unfolding open_inv_def
  proof (intro conjI)
    show "\<forall>x. granted E x (it_log (s\<lparr>it_selected := Some c, it_beat := b\<rparr>)) \<longrightarrow> core x \<in> {} \<or>
        map_option core (it_selected (s\<lparr>it_selected := Some c, it_beat := b\<rparr>)) = Some (core x) \<or>
        given_back (core x) (it_log (s\<lparr>it_selected := Some c, it_beat := b\<rparr>))"
    proof (intro allI impI)
      fix x assume "granted E x (it_log (s\<lparr>it_selected := Some c, it_beat := b\<rparr>))"
      then have "core x = core c \<or> given_back (core x) (it_log s)" using all by simp
      then show "core x \<in> {} \<or> map_option core (it_selected (s\<lparr>it_selected := Some c, it_beat := b\<rparr>)) = Some (core x) \<or>
        given_back (core x) (it_log (s\<lparr>it_selected := Some c, it_beat := b\<rparr>))" by auto
    qed
  qed (use rest assms(3,4,5) in auto)
qed

lemma triple_select:
  assumes "core c = k"
  shows "triple (\<lambda>s. open_inv E {k} 0 s \<and> granted E c (it_log s) \<and> it_selected s = None \<and> \<not> it_released s \<and> \<not> it_attempted s)
    (select_claim E c) (\<lambda>_. intent_inv E) (\<lambda>_. intent_inv E)"
proof -
  let ?P0 = "granted E c" and ?P1 = "\<lambda>g l. granted E c l \<and> proved E k g l"
  have start: "triple (\<lambda>s. open_inv E {k} 0 s \<and> granted E c (it_log s) \<and> it_selected s = None \<and> \<not> it_released s \<and> \<not> it_attempted s)
      (modify (\<lambda>s. s\<lparr>it_selected := Some c, it_beat := Beat_waiting\<rparr>)) (\<lambda>_. selecting E k ?P0) (\<lambda>_. intent_inv E)"
  proof (rule triple_modify)
    fix s assume s: "open_inv E {k} 0 s \<and> granted E c (it_log s) \<and> it_selected s = None \<and> \<not> it_released s \<and> \<not> it_attempted s"
    then have "intent_inv E (s\<lparr>it_selected := Some c, it_beat := Beat_waiting\<rparr>)"
      using open_selected [of E c s] assms by blast
    then show "selecting E k ?P0 (s\<lparr>it_selected := Some c, it_beat := Beat_waiting\<rparr>)" using s assms by (simp add: selecting_def)
  qed
  have first: "triple (selecting E k ?P0) (with_selected (\<lambda>c. intent_call E (I_prove c) (ne_prove E)))
      (\<lambda>g. selecting E k (?P1 g)) (\<lambda>_. intent_inv E)"
  proof (rule triple_with_selected)
    fix c' assume "core c' = k"
    from triple_select_prove [OF intent_growing(1) this, of E E c]
    show "triple (selecting E k ?P0) (intent_call E (I_prove c') (ne_prove E)) (\<lambda>g. selecting E k (?P1 g)) (\<lambda>_. intent_inv E)"
      by (rule triple_weaken) (auto simp: selecting_def proved_def intro: since_answered)
  qed
  have second: "triple (selecting E k (?P1 g)) (with_selected (\<lambda>c. intent_call E (I_prove c) (ne_prove E)))
      (\<lambda>h. selecting E k (\<lambda>l. granted E c l \<and> (h = g \<longrightarrow> proved_again E k g l))) (\<lambda>_. intent_inv E)" for g
  proof (rule triple_with_selected)
    fix c' assume c': "core c' = k"
    have grow: "keeps_growing (?P1 g)" by (intro keeps_growing_intros intent_growing)
    from triple_select_prove [OF grow c', of E]
    show "triple (selecting E k (?P1 g)) (intent_call E (I_prove c') (ne_prove E))
        (\<lambda>h. selecting E k (\<lambda>l. granted E c l \<and> (h = g \<longrightarrow> proved_again E k g l))) (\<lambda>_. intent_inv E)"
      by (rule triple_weaken) (auto simp: selecting_def proved_again_def answered_since_def)
  qed
  have digest: "triple (selecting E k (\<lambda>l. granted E c l \<and> proved_again E k g l))
      (seq (with_selected (\<lambda>c. lift (ne_digest E c g))) (\<lambda>d. modify (\<lambda>s. s\<lparr>it_digest := Some d\<rparr>))) (\<lambda>_. intent_inv E) (\<lambda>_. intent_inv E)" for g
  proof (rule triple_seq [where Q = "\<lambda>d s. selecting E k (digest_evidence E d) s"])
    show "triple (selecting E k (\<lambda>l. granted E c l \<and> proved_again E k g l)) (with_selected (\<lambda>c. lift (ne_digest E c g)))
        (\<lambda>d. selecting E k (digest_evidence E d)) (\<lambda>_. intent_inv E)"
    proof (rule triple_with_selected, rule triple_lift)
      fix c' d s assume "core c' = k" "ne_digest E c' g = Inr d" "selecting E k (\<lambda>l. granted E c l \<and> proved_again E k g l) s"
      then show "selecting E k (digest_evidence E d) s" using assms unfolding selecting_def digest_evidence_def by blast
    qed (simp add: selecting_def)
    show "triple (selecting E k (digest_evidence E d)) (modify (\<lambda>s. s\<lparr>it_digest := Some d\<rparr>)) (\<lambda>_. intent_inv E) (\<lambda>_. intent_inv E)" for d
      by (rule triple_modify) (simp add: selecting_def open_inv_def)
  qed
  have decide: "triple (selecting E k (\<lambda>l. granted E c l \<and> (h = g \<longrightarrow> proved_again E k g l)))
      (with_state (\<lambda>s. if it_beat s = Beat_failed \<or> g \<noteq> h then throw Restore_failed
         else seq (with_selected (\<lambda>c. lift (ne_digest E c h))) (\<lambda>d. modify (\<lambda>s. s\<lparr>it_digest := Some d\<rparr>))))
      (\<lambda>_. intent_inv E) (\<lambda>_. intent_inv E)" for g h
    by (rule triple_with_state, rule triple_if, rule triple_throw, simp add: selecting_def, rule triple_weaken [OF digest [of h]])
      (simp_all add: selecting_def)
  show ?thesis
    unfolding select_claim_def
    by (rule triple_seq [OF start], rule triple_seq [OF first], rule triple_seq [OF second], rule decide)
qed

section \<open>The chats\<close>

text \<open>Nothing was staged, given back or published yet.\<close>

definition untouched :: "intent \<Rightarrow> bool" where
  "untouched s \<longleftrightarrow> it_staged s = None \<and> \<not> it_released s \<and> \<not> it_attempted s \<and> \<not> it_published s"

lemma field_updates [simp]:
  "open_inv E K n (s\<lparr>it_app := a\<rparr>) = open_inv E K n s" "open_inv E K n (s\<lparr>it_scanned := k\<rparr>) = open_inv E K n s"
  "open_inv E K n (s\<lparr>it_failed := k\<rparr>) = open_inv E K n s" "open_inv E K n (s\<lparr>it_connected := b\<rparr>) = open_inv E K n s"
  "open_inv E K n (s\<lparr>it_repository := b\<rparr>) = open_inv E K n s" "open_inv E K n (s\<lparr>it_beat := h\<rparr>) = open_inv E K n s"
  "open_inv E K n (s\<lparr>it_eligible := Suc (it_eligible s)\<rparr>) = open_inv E K (Suc n) s"
  "untouched (s\<lparr>it_app := a\<rparr>) = untouched s" "untouched (s\<lparr>it_scanned := k\<rparr>) = untouched s"
  "untouched (s\<lparr>it_eligible := k\<rparr>) = untouched s"
  by (simp_all add: open_inv_def untouched_def)

lemma triple_both: "triple P m Q R \<Longrightarrow> holds N m \<Longrightarrow>
    triple (\<lambda>s. P s \<and> N s) m (\<lambda>x s. Q x s \<and> N s) (\<lambda>e s. R e s \<and> N s)"
  unfolding holds_def triple_def by (fastforce split: prod.splits sum.splits)

lemma holds_untouched_call: "holds untouched (intent_call E e f)"
  unfolding holds_def by (rule triple_icall) (auto simp: untouched_def grown_def split: sum.split)

lemma holds_untouched_select: "holds untouched (with_selected f)" if "\<And>c. holds untouched (f c)"
  unfolding with_selected_def by (rule holds_rules that | simp)+

lemma holds_untouched: "holds untouched (select_claim E c)" "holds untouched (eligible_claim E c)"
proof -
  show s: "holds untouched (select_claim E c)"
    unfolding select_claim_def by (rule holds_rules holds_untouched_select holds_untouched_call | simp add: untouched_def)+
  show "holds untouched (eligible_claim E c)"
    unfolding eligible_claim_def by (rule s holds_rules holds_untouched_call | simp add: untouched_def)+
qed

lemma open_given_back:
  assumes "open_inv E {core c} 0 s" "given_back (core c) (it_log s)"
  shows "intent_inv E s"
  using assms unfolding open_inv_def by (elim conjE, intro conjI) (assumption | metis singletonD)+

lemma triple_eligible:
  "triple (\<lambda>s. (open_inv E {core c} 1 s \<and> granted E c (it_log s)) \<and> untouched s) (eligible_claim E c)
    (\<lambda>_ s. intent_inv E s \<and> untouched s) (\<lambda>_ s. intent_inv E s \<and> untouched s)"
proof -
  let ?P = "\<lambda>s. open_inv E {core c} 0 s \<and> granted E c (it_log s) \<and> untouched s"
  have count: "triple (\<lambda>s. (open_inv E {core c} 1 s \<and> granted E c (it_log s)) \<and> untouched s)
      (modify (\<lambda>s. s\<lparr>it_eligible := Suc (it_eligible s)\<rparr>)) (\<lambda>_. ?P) (\<lambda>_ s. intent_inv E s \<and> untouched s)"
    by (rule triple_modify) simp
  have give: "triple ?P (intent_call E (I_release_claim c) (ne_bool E)) (\<lambda>_ s. intent_inv E s \<and> untouched s) (\<lambda>_ s. intent_inv E s \<and> untouched s)"
  proof (rule triple_icall)
    fix s t assume s: "?P s" and g: "grown (s\<lparr>it_log := it_log s @ [I_release_claim c]\<rparr>) t"
    have o: "open_inv E {core c} 0 t" using inv_grown [OF inv_plain g] s by simp
    obtain es where "it_log t = (it_log s @ [I_release_claim c]) @ es" using grown_log [OF g] by auto
    then have "given_back (core c) (it_log t)" by (auto simp: given_back_def)
    then have "intent_inv E t" by (rule open_given_back [OF o])
    moreover have "untouched t" using g s by (simp add: grown_def untouched_def)
    ultimately show "case ne_bool E (length (it_log s)) of Inl x \<Rightarrow> intent_inv E t \<and> untouched t | Inr x \<Rightarrow> intent_inv E t \<and> untouched t"
      by (simp split: sum.split)
  qed
  have other: "triple ?P (seq (intent_call E (I_release_claim c) (ne_bool E)) (\<lambda>ok. if ok then ret () else throw Lease_lost))
      (\<lambda>_ s. intent_inv E s \<and> untouched s) (\<lambda>_ s. intent_inv E s \<and> untouched s)"
    by (rule triple_seq [OF give]) (rule triple_if triple_ret triple_throw | assumption)+
  have select: "triple (\<lambda>s. ?P s \<and> it_selected s = None) (select_claim E c) (\<lambda>_ s. intent_inv E s \<and> untouched s) (\<lambda>_ s. intent_inv E s \<and> untouched s)"
    by (rule triple_weaken [OF triple_both [OF triple_select [OF HOL.refl, of E c] holds_untouched(1) [of E c]]])
      (simp_all add: untouched_def)
  show ?thesis
    unfolding eligible_claim_def
  proof (rule triple_seq [OF count])
    show "triple ?P (with_state (\<lambda>s. if it_selected s \<noteq> None then seq (intent_call E (I_release_claim c) (ne_bool E))
        (\<lambda>ok. if ok then ret () else throw Lease_lost) else select_claim E c))
      (\<lambda>_ s. intent_inv E s \<and> untouched s) (\<lambda>_ s. intent_inv E s \<and> untouched s)"
      by (rule triple_with_state, rule triple_if, rule triple_weaken [OF other], simp_all, rule triple_weaken [OF select]) simp_all
  qed
qed

lemma triple_create:
  "triple (intent_inv E) (intent_call E (I_create chat) (ne_create E))
    (\<lambda>r s. case r of RR_claimed c \<Rightarrow> open_inv E {core c} 1 s \<and> granted E c (it_log s) | _ \<Rightarrow> intent_inv E s) (\<lambda>_. intent_inv E)"
proof (rule triple_icall)
  fix s t assume s: "intent_inv E s" and g: "grown (s\<lparr>it_log := it_log s @ [I_create chat]\<rparr>) t"
  let ?s = "s\<lparr>it_log := it_log s @ [I_create chat]\<rparr>" and ?r = "ne_create E (length (it_log s))"
  have guard: "guarded (intent_guard E) (it_log ?s)" using s by (simp add: open_inv_def guarded_snoc intent_guard_def)
  have digest: "digest_evidence E d (it_log s) \<Longrightarrow> digest_evidence E d (it_log ?s)" for d
    using growing_append [OF intent_growing(4), of E d "it_log s" "[I_create chat]"] by simp
  have a: "answered (it_log ?s) (I_stage path d) f x = answered (it_log s) (I_stage path d) f x"
    "answered (it_log ?s) (I_publish st) h y = answered (it_log s) (I_publish st) h y" "given_back k (it_log ?s) = given_back k (it_log s)"
    for path d f x st h y k by (auto simp: answered_snoc given_back_def)
  have grows: "granted E c (it_log s) \<Longrightarrow> granted E c (it_log ?s)" for c
    using growing_append [OF intent_growing(1), of E c "it_log s" "[I_create chat]"] by simp
  have open_inv: "open_inv E K n ?s" if "grants_in E (it_log ?s) = grants_in E (it_log s) + n"
      "\<And>c. granted E c (it_log ?s) \<Longrightarrow> granted E c (it_log s) \<or> core c \<in> K" for K n
  proof -
    have old: "it_eligible s = grants_in E (it_log s)" "\<forall>d. it_digest s = Some d \<longrightarrow> digest_evidence E d (it_log s)"
      "\<forall>path d st. answered (it_log s) (I_stage path d) (ne_stage E) st \<longrightarrow> it_staged s = Some st"
      "\<forall>st. it_staged s = Some st \<longrightarrow> (\<exists>path d. answered (it_log s) (I_stage path d) (ne_stage E) st)"
      "it_published s \<longrightarrow> (\<exists>st. it_staged s = Some st \<and> answered (it_log s) (I_publish st) (ne_unit E) ())"
      "\<forall>c. granted E c (it_log s) \<longrightarrow> map_option core (it_selected s) = Some (core c) \<or> given_back (core c) (it_log s)"
      "it_released s \<or> it_attempted s \<longrightarrow> (\<exists>k. map_option core (it_selected s) = Some k \<and> given_back k (it_log s))"
      "\<forall>k. map_option core (it_selected s) = Some k \<longrightarrow> (\<exists>c. core c = k \<and> granted E c (it_log s))"
      using s unfolding open_inv_def by (simp, blast+)
    have "\<forall>d. it_digest s = Some d \<longrightarrow> digest_evidence E d (it_log ?s)" using old(2) digest by blast
    moreover have "\<forall>c. granted E c (it_log ?s) \<longrightarrow> core c \<in> K \<or> map_option core (it_selected s) = Some (core c) \<or>
        given_back (core c) (it_log s)" using old(6) that(2) by blast
    moreover have "\<forall>k. map_option core (it_selected s) = Some k \<longrightarrow> (\<exists>c. core c = k \<and> granted E c (it_log ?s))"
      using old(8) grows by blast
    moreover have "it_eligible ?s + n = grants_in E (it_log ?s)" using old(1) that(1) by simp
    ultimately show ?thesis
      using guard old(3,4,5,7) unfolding open_inv_def a by (simp del: split_paired_Ex split_paired_All)
  qed
  show "case ?r of Inl x \<Rightarrow> intent_inv E t
      | Inr x \<Rightarrow> (case x of RR_claimed c \<Rightarrow> open_inv E {core c} 1 t \<and> granted E c (it_log t) | _ \<Rightarrow> intent_inv E t)"
  proof (cases "\<exists>c. ?r = Inr (RR_claimed c)")
    case True
    then obtain c where c: "?r = Inr (RR_claimed c)" by blast
    have "open_inv E {core c} 1 ?s" by (rule open_inv) (use c in \<open>auto simp: grants_snoc grant_at_def granted_def answered_snoc\<close>)
    then have "open_inv E {core c} 1 t" using inv_grown [OF _ g] by blast
    moreover obtain es where "it_log t = it_log ?s @ es" using grown_log [OF g] by blast
    then have "granted E c (it_log t)"
      using growing_append [OF intent_growing(1), of E c "it_log ?s" es] c by (auto simp: granted_def answered_snoc)
    ultimately show ?thesis using c by simp
  next
    case False
    have "intent_inv E ?s" by (rule open_inv) (use False in \<open>auto simp: grants_snoc grant_at_def granted_def answered_snoc\<close>)
    then have "intent_inv E t" using inv_grown [OF _ g] by blast
    then show ?thesis using False by (auto split: sum.split repair_result.split)
  qed
qed

lemma triple_intent_chat:
  "triple (\<lambda>s. intent_inv E s \<and> untouched s) (intent_chat E chat) (\<lambda>_ s. intent_inv E s \<and> untouched s) (\<lambda>_ s. intent_inv E s \<and> untouched s)"
proof -
  let ?I = "\<lambda>s. intent_inv E s \<and> untouched s"
  have set: "triple ?I (modify f) (\<lambda>_. ?I) (\<lambda>_. ?I)" if "\<And>s. ?I s \<Longrightarrow> ?I (f s)" for f by (rule triple_modify) (rule that)
  have renew: "triple ?I (intent_call E I_renew_app (ne_renewApp E)) (\<lambda>_. ?I) (\<lambda>_. ?I)"
    by (rule triple_both [OF holds_icall [of I_renew_app, unfolded holds_def] holds_untouched_call]) simp
  have create: "triple ?I (intent_call E (I_create chat) (ne_create E))
      (\<lambda>r s. (case r of RR_claimed c \<Rightarrow> open_inv E {core c} 1 s \<and> granted E c (it_log s) | _ \<Rightarrow> intent_inv E s) \<and> untouched s) (\<lambda>_. ?I)"
    by (rule triple_both [OF triple_create holds_untouched_call])
  have tail: "triple (\<lambda>s. (case r of RR_claimed c \<Rightarrow> open_inv E {core c} 1 s \<and> granted E c (it_log s) | _ \<Rightarrow> intent_inv E s) \<and> untouched s)
      (case r of RR_ineligible \<Rightarrow> ret () | RR_claimed c \<Rightarrow> eligible_claim E c | _ \<Rightarrow> throw Restore_failed) (\<lambda>_. ?I) (\<lambda>_. ?I)" for r
    using triple_eligible [of E] by (cases r) (simp_all add: triple_ret triple_throw)
  have part: "triple ?I (seq (modify (\<lambda>s. s\<lparr>it_app := Some app\<rparr>)) (\<lambda>_. seq (intent_call E (I_create chat) (ne_create E)) (\<lambda>candidate.
      case candidate of RR_ineligible \<Rightarrow> ret () | RR_claimed c \<Rightarrow> eligible_claim E c | _ \<Rightarrow> throw Restore_failed))) (\<lambda>_. ?I) (\<lambda>_. ?I)" for app
    by (rule triple_seq [OF set], simp, rule triple_seq [OF create], rule tail)
  show ?thesis
    unfolding intent_chat_def
    by (rule triple_seq [OF set], simp, rule triple_seq [OF renew])
      (rule triple_option, rule triple_throw, assumption, rule part)
qed

lemma triple_intent_chats:
  "triple (\<lambda>s. intent_inv E s \<and> untouched s) (intent_chats E chats) (\<lambda>_ s. intent_inv E s \<and> untouched s) (\<lambda>_ s. intent_inv E s \<and> untouched s)"
proof (induction chats)
  case Nil
  show ?case by (simp add: triple_ret)
next
  case (Cons chat chats)
  show ?case unfolding intent_chats.simps by (rule triple_seq [OF triple_intent_chat Cons.IH])
qed

section \<open>Publication\<close>

definition picked :: "claim_core \<Rightarrow> intent \<Rightarrow> bool" where
  "picked k s \<longleftrightarrow> map_option core (it_selected s) = Some k \<and> it_eligible s = 1"

lemma picked_grown: "grown s t \<Longrightarrow> picked k (s\<lparr>it_log := l\<rparr>) \<Longrightarrow> picked k t"
  by (simp add: picked_def grown_def)

text \<open>Before and after the drain, and around the last release.\<close>

definition staged_at :: "intent_env \<Rightarrow> claim_core \<Rightarrow> string \<Rightarrow> intent \<Rightarrow> bool" where
  "staged_at E k st s \<longleftrightarrow> intent_inv E s \<and> picked k s \<and> it_staged s = Some st \<and> \<not> it_published s"

definition releasing :: "intent_env \<Rightarrow> claim_core \<Rightarrow> string \<Rightarrow> intent \<Rightarrow> bool" where
  "releasing E k st s \<longleftrightarrow> staged_at E k st (s\<lparr>it_attempted := False\<rparr>) \<and> it_attempted s \<and> it_beat s = Beat_over"

definition publishable :: "intent_env \<Rightarrow> claim_core \<Rightarrow> string \<Rightarrow> intent \<Rightarrow> bool" where
  "publishable E k st s \<longleftrightarrow> staged_at E k st s \<and> it_beat s = Beat_over \<and>
     it_log s \<noteq> [] \<and> (\<exists>c. core c = k \<and> last (it_log s) = I_release_claim c) \<and> ne_bool E (length (it_log s) - 1) = Inr True"

lemma inv_stage:
  assumes "intent_inv E s" "untouched s" "picked k s" "it_digest s = Some d" "configured_path E path"
  shows "case ne_stage E (length (it_log s)) of
      Inl x \<Rightarrow> intent_inv E (s\<lparr>it_log := it_log s @ [I_stage path d]\<rparr>)
    | Inr st \<Rightarrow> intent_inv E (s\<lparr>it_log := it_log s @ [I_stage path d], it_staged := Some st\<rparr>)"
proof -
  let ?log = "it_log s @ [I_stage path d]"
  have facts: "guarded (intent_guard E) (it_log s)" "it_eligible s = grants_in E (it_log s)"
    "\<And>d. it_digest s = Some d \<Longrightarrow> digest_evidence E d (it_log s)"
    "\<And>path d st. \<not> answered (it_log s) (I_stage path d) (ne_stage E) st"
    "\<And>c. granted E c (it_log s) \<Longrightarrow> map_option core (it_selected s) = Some (core c) \<or> given_back (core c) (it_log s)"
    "\<And>k. map_option core (it_selected s) = Some k \<Longrightarrow> \<exists>c. core c = k \<and> granted E c (it_log s)"
    using assms(1,2) unfolding open_inv_def untouched_def by fastforce+
  have guard: "guarded (intent_guard E) ?log"
    using facts(1,2,3) assms(3,4,5) by (simp add: guarded_snoc intent_guard_def picked_def)
  have digest: "digest_evidence E d ?log" if "it_digest s = Some d" for d
    by (rule growing_append [OF intent_growing(4) facts(3) [OF that]])
  have same: "grants_in E ?log = grants_in E (it_log s)" "granted E c ?log = granted E c (it_log s)"
    "given_back k ?log = given_back k (it_log s)" for c k
    by (auto simp: grants_snoc grant_at_def granted_def answered_snoc given_back_def)
  have stage: "answered ?log (I_stage p x) (ne_stage E) st \<longleftrightarrow> p = path \<and> x = d \<and> ne_stage E (length (it_log s)) = Inr st" for p x st
    using facts(4) by (auto simp: answered_snoc)
  show ?thesis
    using guard digest facts(2,5,6) assms(2) unfolding open_inv_def untouched_def
    by (cases "ne_stage E (length (it_log s))") (simp_all add: same stage)
qed

lemma triple_stage:
  assumes "configured_path E path"
  shows "triple (\<lambda>s. intent_inv E s \<and> untouched s \<and> picked k s \<and> it_digest s = Some d) (intent_call E (I_stage path d) (ne_stage E))
    (\<lambda>st s. staged_at E k st (s\<lparr>it_staged := Some st\<rparr>)) (\<lambda>_. intent_inv E)"
proof (rule triple_icall)
  fix s t assume s: "intent_inv E s \<and> untouched s \<and> picked k s \<and> it_digest s = Some d"
    and g: "grown (s\<lparr>it_log := it_log s @ [I_stage path d]\<rparr>) t"
  from inv_stage [of E s k d path] s assms
  have inv: "case ne_stage E (length (it_log s)) of
      Inl x \<Rightarrow> intent_inv E (s\<lparr>it_log := it_log s @ [I_stage path d]\<rparr>)
    | Inr st \<Rightarrow> intent_inv E (s\<lparr>it_log := it_log s @ [I_stage path d], it_staged := Some st\<rparr>)" by blast
  show "case ne_stage E (length (it_log s)) of Inl x \<Rightarrow> intent_inv E t | Inr st \<Rightarrow> staged_at E k st (t\<lparr>it_staged := Some st\<rparr>)"
  proof (cases "ne_stage E (length (it_log s))")
    case (Inl x)
    then show ?thesis using inv inv_grown [OF _ g] by simp
  next
    case (Inr st)
    have "grown (s\<lparr>it_log := it_log s @ [I_stage path d], it_staged := Some st\<rparr>) (t\<lparr>it_staged := Some st\<rparr>)"
      using g unfolding grown_def by auto
    then have "intent_inv E (t\<lparr>it_staged := Some st\<rparr>)" using inv Inr inv_grown by simp
    then show ?thesis using Inr s g by (simp add: staged_at_def picked_def untouched_def grown_def)
  qed
qed

lemma triple_drained:
  "triple (staged_at E k st) (modify (intent_drain E)) (\<lambda>_ s. staged_at E k st s \<and> it_beat s \<in> {Beat_failed, Beat_over}) (\<lambda>_. intent_inv E)"
proof (rule triple_modify)
  fix s assume s: "staged_at E k st s"
  obtain t where t: "grown s t" "intent_drain E s = t\<lparr>it_beat := it_beat (intent_drain E s)\<rparr>"
    "it_beat (intent_drain E s) \<in> {Beat_failed, Beat_over}" using drain_grown by blast
  have "staged_at E k st (t\<lparr>it_beat := b\<rparr>)" for b
    using s inv_grown [OF _ t(1)] t(1) by (simp add: staged_at_def picked_def grown_def)
  then have "staged_at E k st (intent_drain E s)" by (subst t(2))
  then show "staged_at E k st (intent_drain E s) \<and> it_beat (intent_drain E s) \<in> {Beat_failed, Beat_over}" using t(3) by simp
qed

lemma inv_attempted: "intent_inv E (s\<lparr>it_attempted := False\<rparr>) \<Longrightarrow> map_option core (it_selected s) = Some k \<Longrightarrow> given_back k (it_log s) \<Longrightarrow>
    intent_inv E s"
  unfolding open_inv_def by (elim conjE, intro conjI) (simp_all del: split_paired_Ex split_paired_All, blast)

lemma inv_unattempted: "intent_inv E s \<Longrightarrow> intent_inv E (s\<lparr>it_attempted := False\<rparr>)"
  unfolding open_inv_def by (elim conjE, intro conjI) (simp_all del: split_paired_Ex split_paired_All)

lemma triple_release_selected:
  "triple (releasing E k st) (with_selected (\<lambda>c. intent_call E (I_release_claim c) (ne_bool E)))
    (\<lambda>ok s. if ok then publishable E k st s \<and> given_back k (it_log s) else intent_inv E s) (\<lambda>_. intent_inv E)"
proof (unfold triple_def, intro allI impI)
  fix s assume s: "releasing E k st s"
  then obtain c where c: "it_selected s = Some c" "core c = k" by (auto simp: releasing_def staged_at_def picked_def)
  let ?t = "s\<lparr>it_log := it_log s @ [I_release_claim c]\<rparr>"
  have quiet: "(intent_beat E ^^ n) ?t = ?t" for n
    using beats_grown [of ?t n E] s by (simp add: grown_def releasing_def)
  have gone: "given_back k (it_log ?t)" using c by (auto simp: given_back_def)
  have "intent_inv E ((s\<lparr>it_attempted := False\<rparr>)\<lparr>it_log := it_log (s\<lparr>it_attempted := False\<rparr>) @ [I_release_claim c]\<rparr>)"
    by (rule inv_plain) (use s in \<open>simp_all add: releasing_def staged_at_def\<close>)
  moreover have "?t\<lparr>it_attempted := False\<rparr> = (s\<lparr>it_attempted := False\<rparr>)\<lparr>it_log := it_log (s\<lparr>it_attempted := False\<rparr>) @ [I_release_claim c]\<rparr>"
    by simp
  ultimately have "intent_inv E (?t\<lparr>it_attempted := False\<rparr>)" by (simp only:)
  then have inv: "intent_inv E ?t" using inv_attempted [of E ?t k] c gone by simp
  have "publishable E k st ?t" if "ne_bool E (length (it_log s)) = Inr True"
    using s inv that c(2) by (auto simp: publishable_def releasing_def staged_at_def picked_def)
  then show "case with_selected (\<lambda>c. intent_call E (I_release_claim c) (ne_bool E)) s of
      (Inl e, s') \<Rightarrow> intent_inv E s'
    | (Inr ok, s') \<Rightarrow> if ok then publishable E k st s' \<and> given_back k (it_log s') else intent_inv E s'"
    using inv gone quiet c(1) by (auto simp: with_selected_def with_state_def intent_call_def split: sum.split)
qed

lemma inv_released: "intent_inv E s \<Longrightarrow> map_option core (it_selected s) = Some k \<Longrightarrow> given_back k (it_log s) \<Longrightarrow>
    intent_inv E (s\<lparr>it_released := b\<rparr>)"
  unfolding open_inv_def by (elim conjE, intro conjI) (simp_all del: split_paired_Ex split_paired_All, blast)

lemma inv_published: "intent_inv E s \<Longrightarrow> it_staged s = Some st \<Longrightarrow> answered (it_log s) (I_publish st) (ne_unit E) () \<Longrightarrow>
    intent_inv E (s\<lparr>it_published := True\<rparr>)"
  unfolding open_inv_def by simp

lemma inv_publish:
  assumes "publishable E k st s"
  shows "intent_inv E (s\<lparr>it_log := it_log s @ [I_publish st]\<rparr>)"
proof -
  let ?log = "it_log s @ [I_publish st]"
  have inv: "intent_inv E s" and staged: "it_staged s = Some st" and one: "it_eligible s = 1" and fresh: "\<not> it_published s"
    using assms by (simp_all add: publishable_def staged_at_def picked_def)
  then have stage: "\<exists>path d. answered (it_log s) (I_stage path d) (ne_stage E) st" "grants_in E (it_log s) = 1"
    unfolding open_inv_def by simp_all
  have last: "it_log s \<noteq> []" "\<exists>c. last (it_log s) = I_release_claim c" "ne_bool E (length (it_log s) - 1) = Inr True"
    using assms unfolding publishable_def by blast+
  have guard: "guarded (intent_guard E) ?log"
    using last inv stage by (simp add: guarded_snoc intent_guard_def open_inv_def)
  have same: "grants_in E ?log = grants_in E (it_log s)" "granted E c ?log = granted E c (it_log s)"
    "given_back k ?log = given_back k (it_log s)" "answered ?log (I_stage path d) f x = answered (it_log s) (I_stage path d) f x"
    for c k path d f x
    by (auto simp: grants_snoc grant_at_def granted_def answered_snoc given_back_def)
  have digest: "digest_evidence E d (it_log s) \<Longrightarrow> digest_evidence E d ?log" for d
    by (rule growing_append [OF intent_growing(4)])
  show ?thesis
    using inv guard digest fresh unfolding open_inv_def
    by (elim conjE, intro conjI) (simp_all add: same del: split_paired_Ex split_paired_All)
qed

text \<open>Published for the one eligible claim, whose give-back was confirmed.\<close>

definition confirmed_run :: "intent_env \<Rightarrow> intent \<Rightarrow> bool" where
  "confirmed_run E s \<longleftrightarrow> it_published s \<and> it_eligible s = 1 \<and>
     (\<exists>k. map_option core (it_selected s) = Some k \<and> confirmed_back E k (it_log s))"

definition published :: "intent_env \<Rightarrow> intent \<Rightarrow> bool" where
  "published E s \<longleftrightarrow> intent_inv E s \<and> confirmed_run E s"

lemma publishable_returned:
  assumes "publishable E k st s"
  shows "confirmed_back E k (it_log s)"
proof -
  obtain c where c: "core c = k" "last (it_log s) = I_release_claim c" "it_log s \<noteq> []" "ne_bool E (length (it_log s) - 1) = Inr True"
    using assms unfolding publishable_def by blast
  then obtain pre where pre: "it_log s = pre @ [I_release_claim c]" by (metis append_butlast_last_id)
  then have "answered (it_log s) (I_release_claim c) (ne_bool E) True" using c(4) by (simp add: answered_snoc)
  then show ?thesis using c(1) unfolding confirmed_back_def by blast
qed

lemma confirmed_step:
  assumes "confirmed_run E s" "grown (s\<lparr>it_log := it_log s @ [e]\<rparr>) t"
  shows "confirmed_run E t"
proof -
  obtain es where es: "it_log t = it_log s @ (e # es)" using grown_log [OF assms(2)] by auto
  have "confirmed_back E k (it_log s) \<Longrightarrow> confirmed_back E k (it_log t)" for k
    unfolding es by (rule growing_append [OF intent_growing(6)])
  moreover have "it_published t = it_published s" "it_eligible t = it_eligible s"
    "map_option core (it_selected t) = map_option core (it_selected s)" using assms(2) by (simp_all add: grown_def)
  ultimately show ?thesis using assms(1) unfolding confirmed_run_def by auto
qed

lemma confirmed_grown: "confirmed_run E s \<Longrightarrow> grown s t \<Longrightarrow> confirmed_run E t"
proof -
  assume s: "confirmed_run E s" and g: "grown s t"
  obtain es where es: "it_log t = it_log s @ es" using grown_log [OF g] by blast
  have "confirmed_back E k (it_log s) \<Longrightarrow> confirmed_back E k (it_log t)" for k
    unfolding es by (rule growing_append [OF intent_growing(6)])
  moreover have "it_published t = it_published s" "it_eligible t = it_eligible s"
    "map_option core (it_selected t) = map_option core (it_selected s)" using g by (simp_all add: grown_def)
  ultimately show ?thesis using s unfolding confirmed_run_def by auto
qed

lemma triple_publish:
  "triple (publishable E k st) (intent_call E (I_publish st) (ne_unit E))
    (\<lambda>_ s. intent_inv E s \<and> it_staged s = Some st \<and> answered (it_log s) (I_publish st) (ne_unit E) () \<and>
      confirmed_run E (s\<lparr>it_published := True\<rparr>)) (\<lambda>_. intent_inv E)"
proof (rule triple_icall)
  fix s t assume s: "publishable E k st s" and g: "grown (s\<lparr>it_log := it_log s @ [I_publish st]\<rparr>) t"
  have t: "t = s\<lparr>it_log := it_log s @ [I_publish st]\<rparr>" using g s by (simp add: grown_def publishable_def)
  have "confirmed_back E k (it_log s @ [I_publish st])"
    by (rule growing_append [OF intent_growing(6) publishable_returned [OF s]])
  moreover have "map_option core (it_selected s) = Some k" "it_eligible s = 1"
    using s unfolding publishable_def staged_at_def picked_def by blast+
  ultimately have confirmed: "confirmed_run E (t\<lparr>it_published := True\<rparr>)"
    unfolding confirmed_run_def t by (auto simp del: split_paired_Ex)
  show "case ne_unit E (length (it_log s)) of Inl x \<Rightarrow> intent_inv E t
      | Inr x \<Rightarrow> intent_inv E t \<and> it_staged t = Some st \<and> answered (it_log t) (I_publish st) (ne_unit E) () \<and>
          confirmed_run E (t\<lparr>it_published := True\<rparr>)"
    using confirmed inv_publish [OF s] s t by (auto simp: publishable_def staged_at_def answered_snoc split: sum.split)
qed

lemma triple_publish_intent:
  assumes "configured_path E path"
  shows "triple (\<lambda>s. intent_inv E s \<and> untouched s) (publish_intent E path) (\<lambda>_. published E) (\<lambda>_. intent_inv E)"
proof -
  have last: "triple (\<lambda>s. publishable E k st s \<and> given_back k (it_log s))
      (seq (modify (\<lambda>s. s\<lparr>it_released := True\<rparr>)) (\<lambda>_. seq (intent_call E (I_publish st) (ne_unit E)) (\<lambda>_. modify (\<lambda>s. s\<lparr>it_published := True\<rparr>))))
      (\<lambda>_. published E) (\<lambda>_. intent_inv E)" for k st
  proof (rule triple_seq [OF triple_modify [where Q = "\<lambda>_. publishable E k st"]])
    fix s assume s: "publishable E k st s \<and> given_back k (it_log s)"
    then have "intent_inv E (s\<lparr>it_released := True\<rparr>)"
      by (intro inv_released [where k = k]) (simp_all add: publishable_def staged_at_def picked_def)
    then show "publishable E k st (s\<lparr>it_released := True\<rparr>)" using s by (simp add: publishable_def staged_at_def picked_def)
  next
    show "triple (publishable E k st) (seq (intent_call E (I_publish st) (ne_unit E)) (\<lambda>_. modify (\<lambda>s. s\<lparr>it_published := True\<rparr>)))
        (\<lambda>_. published E) (\<lambda>_. intent_inv E)"
      by (rule triple_seq [OF triple_publish], rule triple_modify) (simp add: published_def inv_published)
  qed
  have release: "triple (releasing E k st) (seq (with_selected (\<lambda>c. intent_call E (I_release_claim c) (ne_bool E))) (\<lambda>ok.
        if \<not> ok then throw Lease_lost
        else seq (modify (\<lambda>s. s\<lparr>it_released := True\<rparr>)) (\<lambda>_. seq (intent_call E (I_publish st) (ne_unit E)) (\<lambda>_.
          modify (\<lambda>s. s\<lparr>it_published := True\<rparr>))))) (\<lambda>_. published E) (\<lambda>_. intent_inv E)" for k st
    by (rule triple_seq [OF triple_release_selected], rule triple_if, rule triple_throw, simp, rule triple_weaken [OF last [of k st]]) simp_all
  have drained: "triple (\<lambda>s. staged_at E k st s \<and> it_beat s \<in> {Beat_failed, Beat_over})
      (with_state (\<lambda>s. if it_beat s = Beat_failed then throw Lease_lost
         else seq (modify (\<lambda>s. s\<lparr>it_attempted := True\<rparr>)) (\<lambda>_.
           seq (with_selected (\<lambda>c. intent_call E (I_release_claim c) (ne_bool E))) (\<lambda>ok.
             if \<not> ok then throw Lease_lost
             else seq (modify (\<lambda>s. s\<lparr>it_released := True\<rparr>)) (\<lambda>_. seq (intent_call E (I_publish st) (ne_unit E)) (\<lambda>_.
               modify (\<lambda>s. s\<lparr>it_published := True\<rparr>)))))) ) (\<lambda>_. published E) (\<lambda>_. intent_inv E)" for k st
  proof (rule triple_with_state, rule triple_if, rule triple_throw, simp add: staged_at_def, rule triple_seq [OF triple_modify release [of k]])
    fix s0 s :: intent assume "it_beat s0 \<noteq> Beat_failed" and s: "(staged_at E k st s \<and> it_beat s \<in> {Beat_failed, Beat_over}) \<and> s = s0"
    have "intent_inv E (s\<lparr>it_attempted := False\<rparr>)" by (rule inv_unattempted) (use s in \<open>auto simp: staged_at_def\<close>)
    then show "releasing E k st (s\<lparr>it_attempted := True\<rparr>)"
      using s \<open>it_beat s0 \<noteq> Beat_failed\<close> by (auto simp: releasing_def staged_at_def picked_def)
  qed
  have stage: "triple (\<lambda>s. intent_inv E s \<and> untouched s \<and> picked k s \<and> it_digest s = Some d)
      (seq (intent_call E (I_stage path d) (ne_stage E)) (\<lambda>st.
       seq (modify (\<lambda>s. s\<lparr>it_staged := Some st\<rparr>)) (\<lambda>_.
       seq (modify (intent_drain E)) (\<lambda>_.
       with_state (\<lambda>s. if it_beat s = Beat_failed then throw Lease_lost
         else seq (modify (\<lambda>s. s\<lparr>it_attempted := True\<rparr>)) (\<lambda>_.
           seq (with_selected (\<lambda>c. intent_call E (I_release_claim c) (ne_bool E))) (\<lambda>ok.
             if \<not> ok then throw Lease_lost
             else seq (modify (\<lambda>s. s\<lparr>it_released := True\<rparr>)) (\<lambda>_. seq (intent_call E (I_publish st) (ne_unit E)) (\<lambda>_.
               modify (\<lambda>s. s\<lparr>it_published := True\<rparr>)))))))))) (\<lambda>_. published E) (\<lambda>_. intent_inv E)" for k d
    by (rule triple_seq [OF triple_stage [OF assms]], rule triple_seq [OF triple_modify], assumption, rule triple_seq [OF triple_drained], rule drained)
  show ?thesis
    unfolding publish_intent_def
  proof (rule triple_with_state, rule triple_if, rule triple_throw, simp)
    fix s0 :: intent
    assume n: "\<not> (it_eligible s0 \<noteq> 1 \<or> it_digest s0 \<in> {None, Some ''''} \<or> it_selected s0 = None \<or> it_beat s0 = Beat_failed)"
    then obtain d c where d: "it_digest s0 = Some d" "it_selected s0 = Some c" by auto
    show "triple (\<lambda>s. (intent_inv E s \<and> untouched s) \<and> s = s0)
      (seq (case it_digest s0 of None \<Rightarrow> throw Restore_failed | Some d \<Rightarrow> intent_call E (I_stage path d) (ne_stage E)) (\<lambda>st.
       seq (modify (\<lambda>s. s\<lparr>it_staged := Some st\<rparr>)) (\<lambda>_.
       seq (modify (intent_drain E)) (\<lambda>_.
       with_state (\<lambda>s. if it_beat s = Beat_failed then throw Lease_lost
         else seq (modify (\<lambda>s. s\<lparr>it_attempted := True\<rparr>)) (\<lambda>_.
           seq (with_selected (\<lambda>c. intent_call E (I_release_claim c) (ne_bool E))) (\<lambda>ok.
             if \<not> ok then throw Lease_lost
             else seq (modify (\<lambda>s. s\<lparr>it_released := True\<rparr>)) (\<lambda>_. seq (intent_call E (I_publish st) (ne_unit E)) (\<lambda>_.
               modify (\<lambda>s. s\<lparr>it_published := True\<rparr>)))))))))) (\<lambda>_. published E) (\<lambda>_. intent_inv E)"
      unfolding d(1) option.case
      by (rule triple_weaken [OF stage [of "core c" d]]) (use d n in \<open>auto simp: picked_def\<close>)
  qed
qed

section \<open>The end of a run\<close>

text \<open>No stage without publication or discard, no selected claim that was not given back.\<close>

definition settled_run :: "intent_env \<Rightarrow> intent \<Rightarrow> bool" where
  "settled_run E s \<longleftrightarrow> intent_inv E s \<and>
     (\<forall>st. it_staged s = Some st \<longrightarrow> it_published s \<or> I_discard st \<in> set (it_log s)) \<and>
     (\<forall>k. map_option core (it_selected s) = Some k \<longrightarrow> given_back k (it_log s))"

definition discarded_run :: "intent_env \<Rightarrow> intent \<Rightarrow> bool" where
  "discarded_run E s \<longleftrightarrow> intent_inv E s \<and> (\<forall>st. it_staged s = Some st \<longrightarrow> it_published s \<or> I_discard st \<in> set (it_log s))"

lemma discarded_step:
  assumes "discarded_run E s" "plain_effect e" "grown (s\<lparr>it_log := it_log s @ [e]\<rparr>) t"
  shows "discarded_run E t"
proof -
  have "intent_inv E t" using inv_grown [OF inv_plain assms(3)] assms(1,2) by (simp add: discarded_run_def)
  moreover obtain es where "it_log t = (it_log s @ [e]) @ es" using grown_log [OF assms(3)] by auto
  moreover have "it_staged t = it_staged s" "it_published t = it_published s" using assms(3) by (simp_all add: grown_def)
  ultimately show ?thesis using assms(1) by (auto simp: discarded_run_def)
qed

lemma settled_step:
  assumes "settled_run E s" "plain_effect e" "grown (s\<lparr>it_log := it_log s @ [e]\<rparr>) t"
  shows "settled_run E t"
proof -
  have "discarded_run E s" using assms(1) unfolding settled_run_def discarded_run_def by blast
  then have "discarded_run E t" by (rule discarded_step [OF _ assms(2,3)])
  moreover obtain es where "it_log t = it_log s @ (e # es)" using grown_log [OF assms(3)] by auto
  moreover have "map_option core (it_selected t) = map_option core (it_selected s)" using assms(3) by (simp add: grown_def)
  ultimately show ?thesis
    using assms(1) growing_append [OF intent_growing(5)] by (simp add: discarded_run_def settled_run_def del: split_paired_All)
qed

lemma holds_settled_call: "plain_effect e \<Longrightarrow> holds (settled_run E) (intent_call E e f)"
  unfolding holds_def by (rule triple_icall) (auto intro: settled_step split: sum.split)

lemma holds_published_call: "plain_effect e \<Longrightarrow> holds (\<lambda>s. settled_run E s \<and> confirmed_run E s) (intent_call E e f)"
  unfolding holds_def by (rule triple_icall) (auto intro: settled_step confirmed_step split: sum.split)

lemma settle_discards: "triple (intent_inv E) (discard_stage E) (\<lambda>_. discarded_run E) R"
proof -
  have discard: "triple (\<lambda>s. intent_inv E s \<and> it_staged s = Some st) (catch (intent_call E (I_discard st) (ne_unit E)) (\<lambda>_. ret ()))
      (\<lambda>_. discarded_run E) R" for st
  proof (rule triple_catch [where R' = "\<lambda>_. discarded_run E"], rule triple_icall)
    fix s t assume s: "intent_inv E s \<and> it_staged s = Some st" and g: "grown (s\<lparr>it_log := it_log s @ [I_discard st]\<rparr>) t"
    have "intent_inv E t" using inv_grown [OF inv_plain g] s by simp
    moreover obtain es where "it_log t = (it_log s @ [I_discard st]) @ es" using grown_log [OF g] by auto
    ultimately have "discarded_run E t" using s g by (simp add: discarded_run_def grown_def)
    then show "case ne_unit E (length (it_log s)) of Inl x \<Rightarrow> discarded_run E t | Inr x \<Rightarrow> discarded_run E t" by (simp split: sum.split)
  qed (rule triple_ret)
  show ?thesis
    unfolding discard_stage_def
  proof (rule triple_with_state)
    fix s0 :: intent
    show "triple (\<lambda>s. intent_inv E s \<and> s = s0) (case it_staged s0 of None \<Rightarrow> ret ()
        | Some st \<Rightarrow> if it_published s0 then ret () else catch (intent_call E (I_discard st) (ne_unit E)) (\<lambda>_. ret ()))
      (\<lambda>_. discarded_run E) R"
    proof (cases "it_staged s0")
      case None
      then show ?thesis by (auto intro: triple_ret simp: discarded_run_def)
    next
      case (Some st)
      have "triple (\<lambda>s. intent_inv E s \<and> s = s0) (if it_published s0 then ret ()
          else catch (intent_call E (I_discard st) (ne_unit E)) (\<lambda>_. ret ())) (\<lambda>_. discarded_run E) R"
        by (rule triple_if, rule triple_ret, simp add: discarded_run_def, rule triple_weaken [OF discard [of st]]) (use Some in simp_all)
      then show ?thesis by (simp add: Some)
    qed
  qed
qed

lemma settle_releases: "triple (discarded_run E) (give_up_claim E) (\<lambda>_. settled_run E) (\<lambda>_. settled_run E)"
proof (unfold triple_def, intro allI impI)
  fix s assume s: "discarded_run E s"
  show "case give_up_claim E s of (Inl e, s') \<Rightarrow> settled_run E s' | (Inr x, s') \<Rightarrow> settled_run E s'"
  proof (cases "it_selected s \<noteq> None \<and> \<not> it_released s \<and> \<not> it_attempted s")
    case False
    then have "\<forall>k. map_option core (it_selected s) = Some k \<longrightarrow> given_back k (it_log s)"
      using s unfolding discarded_run_def open_inv_def by (auto simp del: split_paired_Ex split_paired_All)
    then have "settled_run E s" using s unfolding settled_run_def discarded_run_def by blast
    moreover have "give_up_claim E s = (Inr (), s)" using False by (simp only: give_up_claim_def with_state_def if_False ret_def)
    ultimately show ?thesis by simp
  next
    case True
    then obtain c where c: "it_selected s = Some c" by blast
    define t where "t = snd (intent_call E (I_release_claim c) (ne_bool E) s)"
    have call: "intent_call E (I_release_claim c) (ne_bool E) s = (ne_bool E (length (it_log s)), t)" by (simp add: t_def intent_call_def)
    have g: "grown (s\<lparr>it_log := it_log s @ [I_release_claim c]\<rparr>) t" using beats_grown by (simp add: t_def intent_call_def)
    have d: "discarded_run E t" by (rule discarded_step [OF s _ g]) simp
    obtain es where "it_log t = (it_log s @ [I_release_claim c]) @ es" using grown_log [OF g] by auto
    then have gone: "given_back (core c) (it_log t)" by (auto simp: given_back_def)
    have sel: "map_option core (it_selected t) = Some (core c)" using g c by (simp add: grown_def)
    have all: "\<forall>k. map_option core (it_selected t) = Some k \<longrightarrow> given_back k (it_log t)" using gone unfolding sel by simp
    have "intent_inv E (t\<lparr>it_released := b\<rparr>)" for b
      using inv_released [OF _ sel gone] d by (simp add: discarded_run_def)
    then have "settled_run E t" "settled_run E (t\<lparr>it_released := b\<rparr>)" for b
      using d all unfolding settled_run_def discarded_run_def by (simp_all del: split_paired_All)
    then show ?thesis
      using True c call by (simp add: give_up_claim_def with_state_def with_selected_def catch_def seq_def modify_def ret_def split: sum.split)
  qed
qed

definition intent_end :: "intent_env \<Rightarrow> intent \<Rightarrow> bool" where
  "intent_end E s \<longleftrightarrow> settled_run E s \<and> (it_failed s = 0 \<longrightarrow> confirmed_run E s)"

lemma settled_updates [simp]:
  "settled_run E (s\<lparr>it_app := a\<rparr>) = settled_run E s" "settled_run E (s\<lparr>it_failed := n\<rparr>) = settled_run E s"
  "settled_run E (s\<lparr>it_connected := b\<rparr>) = settled_run E s" "settled_run E (s\<lparr>it_repository := b\<rparr>) = settled_run E s"
  by (simp_all add: settled_run_def)

lemma confirmed_updates [simp]:
  "confirmed_run E (s\<lparr>it_app := a\<rparr>) = confirmed_run E s" "confirmed_run E (s\<lparr>it_failed := n\<rparr>) = confirmed_run E s"
  "confirmed_run E (s\<lparr>it_released := b\<rparr>) = confirmed_run E s" "confirmed_run E (s\<lparr>it_beat := h\<rparr>) = confirmed_run E s"
  by (simp_all add: confirmed_run_def)

lemma untouched_updates [simp]:
  "untouched (s\<lparr>it_connected := b\<rparr>) = untouched s" "untouched (s\<lparr>it_repository := b\<rparr>) = untouched s"
  by (simp_all add: untouched_def)

lemma triple_settle: "triple (intent_inv E) (intent_settle E) (\<lambda>_. settled_run E) (\<lambda>_. settled_run E)"
  unfolding intent_settle_def
  by (rule triple_seq [OF triple_modify triple_seq [OF settle_discards settle_releases]]) (rule inv_drain)

lemma confirmed_drain: "confirmed_run E s \<Longrightarrow> confirmed_run E (intent_drain E s)"
proof -
  assume s: "confirmed_run E s"
  obtain t where t: "grown s t" "intent_drain E s = t\<lparr>it_beat := it_beat (intent_drain E s)\<rparr>" using drain_grown by blast
  show ?thesis by (subst t(2)) (simp add: confirmed_grown [OF s t(1)])
qed

lemma holds_published_settle: "holds (confirmed_run E) (intent_settle E)"
proof -
  have call: "holds (confirmed_run E) (intent_call E e f)" for e and f :: "nat \<Rightarrow> error_class + 'z"
    unfolding holds_def by (rule triple_icall) (auto intro: confirmed_step split: sum.split)
  have sel: "holds (confirmed_run E) (with_selected (\<lambda>c. intent_call E (g c) f))" for g and f :: "nat \<Rightarrow> error_class + 'z"
    unfolding with_selected_def by (rule holds_rules call | simp)+
  show ?thesis
    unfolding intent_settle_def discard_stage_def give_up_claim_def
    by (rule holds_rules call sel | simp add: confirmed_drain)+
qed

lemma triple_intent_main:
  "triple (\<lambda>s. settled_run E s \<and> untouched s) (intent_main E) (\<lambda>_. intent_end E) (\<lambda>_. settled_run E)"
proof -
  let ?S = "\<lambda>s. settled_run E s \<and> untouched s"
  have call: "triple ?S (intent_call E e f) (\<lambda>_. ?S) (\<lambda>_. settled_run E)" if "plain_effect e" for e and f :: "nat \<Rightarrow> error_class + 'z"
    by (rule triple_weaken [OF triple_both [OF holds_settled_call [OF that, unfolded holds_def] holds_untouched_call]]) simp_all
  have set: "triple ?S (modify f) (\<lambda>_. ?S) (\<lambda>_. settled_run E)" if "\<And>s. ?S s \<Longrightarrow> ?S (f s)" for f
    by (rule triple_modify) (rule that)
  have work: "triple ?S (finalize (seq (intent_chats E chats) (\<lambda>_. publish_intent E path)) (intent_settle E))
      (\<lambda>_ s. settled_run E s \<and> confirmed_run E s) (\<lambda>_. settled_run E)" if "configured_path E path" for chats path
  proof (rule triple_finalize)
    have chats: "triple ?S (intent_chats E chats) (\<lambda>_ s. intent_inv E s \<and> untouched s) (\<lambda>_. intent_inv E)"
      by (rule triple_weaken [OF triple_intent_chats]) (simp_all add: settled_run_def)
    show "triple ?S (seq (intent_chats E chats) (\<lambda>_. publish_intent E path)) (\<lambda>_. published E) (\<lambda>_. intent_inv E)"
      by (rule triple_seq [OF chats triple_publish_intent [OF that]])
    show "triple (published E) (intent_settle E) (\<lambda>_ s. settled_run E s \<and> confirmed_run E s) (\<lambda>_. settled_run E)"
      by (rule triple_weaken [OF triple_both [OF triple_settle holds_published_settle]]) (simp_all add: published_def)
    show "triple (intent_inv E) (intent_settle E) (\<lambda>_. settled_run E) (\<lambda>_. settled_run E)" by (rule triple_settle)
  qed
  have release: "triple (\<lambda>s. settled_run E s \<and> confirmed_run E s) (intent_release_app E) (\<lambda>_ s. settled_run E s \<and> confirmed_run E s) (\<lambda>_. settled_run E)"
  proof -
    have "holds (\<lambda>s. settled_run E s \<and> confirmed_run E s) (intent_release_app E)"
      unfolding intent_release_app_def intent_failed_def by (rule holds_rules holds_published_call | simp)+
    from triple_weaken [OF this [unfolded holds_def]] show ?thesis by simp
  qed
  have finish: "triple (\<lambda>s. settled_run E s \<and> confirmed_run E s) (with_state (\<lambda>s.
      if it_beat s = Beat_failed \<or> \<not> it_released s \<or> \<not> it_published s then throw Lease_lost
      else seq (intent_release_app E) (\<lambda>_. modify (\<lambda>s. s\<lparr>it_app := None\<rparr>)))) (\<lambda>_. intent_end E) (\<lambda>_. settled_run E)"
    by (rule triple_with_state, rule triple_if, rule triple_throw, simp, rule triple_weaken [OF triple_seq [OF release triple_modify]])
      (auto simp: intent_end_def)
  have body: "triple ?S (seq (finalize (seq (intent_chats E chats) (\<lambda>_. publish_intent E path)) (intent_settle E)) (\<lambda>_.
      with_state (\<lambda>s. if it_beat s = Beat_failed \<or> \<not> it_released s \<or> \<not> it_published s then throw Lease_lost
        else seq (intent_release_app E) (\<lambda>_. modify (\<lambda>s. s\<lparr>it_app := None\<rparr>))))) (\<lambda>_. intent_end E) (\<lambda>_. settled_run E)"
    if "configured_path E path" for chats path
    by (rule triple_seq [OF work [OF that] finish])
  show ?thesis
  proof (cases "ne_load E")
    case (Inl e)
    then show ?thesis by (simp add: intent_main_def) (rule triple_throw, simp)
  next
    case (Inr config)
    have path: "configured_path E (the (rf_manifestPath config))" if "rf_manifestPath config \<notin> {None, Some ''''}"
      using that Inr by (auto simp: configured_path_def)
    show ?thesis
      unfolding intent_main_def Inr seq_simps
      by (rule triple_if, rule triple_throw, simp, rule triple_seq [OF call], simp, rule triple_seq [OF set], simp,
          rule triple_seq [OF call], simp, rule triple_seq [OF set], simp, rule triple_seq [OF call], simp,
          rule triple_option, rule triple_throw, simp, rule triple_seq [OF set], simp, rule body [OF path])
  qed
qed

lemma holds_intent_end: "holds (intent_end E) (intent_close E)" "holds (intent_end E) intent_failed"
proof -
  have call: "holds (intent_end E) (intent_call E e f)" if "plain_effect e" for e and f :: "nat \<Rightarrow> error_class + 'z"
    unfolding holds_def by (rule triple_icall) (use that in \<open>auto intro: settled_step confirmed_step simp: intent_end_def grown_def split: sum.split\<close>)
  show failed: "holds (intent_end E) intent_failed"
    unfolding intent_failed_def by (rule holds_modify) (simp add: intent_end_def)
  show "holds (intent_end E) (intent_close E)"
    unfolding intent_close_def intent_release_app_def by (rule failed holds_rules call | simp)+
qed

lemma intent_run_ends:
  assumes "createCompactionRecoveryManifest E = (code, s)"
  shows "intent_end E s \<and> (code = 0 \<longleftrightarrow> it_failed s = 0)"
proof -
  have start: "settled_run E new_intent" "untouched new_intent"
    by (simp_all add: settled_run_def open_inv_def new_intent_def untouched_def grants_in_def granted_def answered_def)
  have "triple (\<lambda>s. settled_run E s \<and> untouched s) (catch (intent_main E) (\<lambda>_. intent_failed)) (\<lambda>_. intent_end E) (\<lambda>_. intent_end E)"
  proof (rule triple_catch)
    show "triple (\<lambda>s. settled_run E s \<and> untouched s) (intent_main E) (\<lambda>_. intent_end E) (\<lambda>_. settled_run E)"
      by (rule triple_intent_main)
    show "triple (settled_run E) intent_failed (\<lambda>_. intent_end E) (\<lambda>_. intent_end E)"
      unfolding intent_failed_def by (rule triple_modify) (simp add: intent_end_def)
  qed
  from triple_seq [OF this holds_intent_end(1) [unfolded holds_def]]
  have run: "triple (\<lambda>s. settled_run E s \<and> untouched s) (seq (catch (intent_main E) (\<lambda>_. intent_failed)) (\<lambda>_. intent_close E))
    (\<lambda>_. intent_end E) (\<lambda>_. intent_end E)" .
  obtain r t where t: "seq (catch (intent_main E) (\<lambda>_. intent_failed)) (\<lambda>_. intent_close E) new_intent = (r, t)" by force
  have "intent_end E t" using triple_Inr [OF run _, of new_intent] triple_Inl [OF run _, of new_intent] start t by (cases r) auto
  moreover have "s = t" "code = (if 0 < it_failed t then 1 else 0)" using assms t by (auto simp: createCompactionRecoveryManifest_def split: if_splits)
  ultimately show ?thesis by simp
qed

section \<open>The properties\<close>

text \<open>C11: the operator's intent is proved: if a digest file is published, then the claim was given back in the call directly
before; the file was staged at the configured path while exactly one claim had been granted; and its digest is
the one of that claim's tuple, whose session file two successive proofs found in the same generation.\<close>

theorem published_intent_is_proved:
  assumes "createCompactionRecoveryManifest E = (code, s)" "n < length (it_log s)" "it_log s ! n = I_publish st"
  shows "0 < n \<and> (\<exists>c. it_log s ! (n - 1) = I_release_claim c) \<and> ne_bool E (n - 1) = Inr True \<and>
    (\<exists>m path d config. m < n \<and> it_log s ! m = I_stage path d \<and> ne_stage E m = Inr st \<and>
       ne_load E = Inr config \<and> rf_manifestPath config = Some path \<and>
       length (filter (\<lambda>i. \<exists>chat c. it_log s ! i = I_create chat \<and> ne_create E i = Inr (RR_claimed c)) [0..<m]) = 1 \<and>
       (\<exists>i p q chat c c1 c2 c3 g. i < m \<and> it_log s ! i = I_create chat \<and> ne_create E i = Inr (RR_claimed c) \<and>
          p < q \<and> q < m \<and> it_log s ! p = I_prove c1 \<and> it_log s ! q = I_prove c2 \<and> ne_prove E p = Inr g \<and> ne_prove E q = Inr g \<and>
          core c1 = core c \<and> core c2 = core c \<and> core c3 = core c \<and> ne_digest E c3 g = Inr d))"
proof -
  let ?log = "it_log s"
  have guarded: "guarded (intent_guard E) ?log"
    using intent_run_ends [OF assms(1)] by (simp add: intent_end_def settled_run_def open_inv_def)
  have "intent_guard E (take n ?log) (I_publish st)" using guardedD [OF guarded assms(2)] assms(3) by simp
  then have p: "take n ?log \<noteq> []" "\<exists>c. last (take n ?log) = I_release_claim c" "ne_bool E (length (take n ?log) - 1) = Inr True"
    "\<exists>path d. answered (take n ?log) (I_stage path d) (ne_stage E) st"
    unfolding intent_guard_def by simp_all
  have last: "last (take n ?log) = ?log ! (n - 1)" "length (take n ?log) = n" "0 < n"
    using p(1) assms(2) by (auto simp: last_conv_nth min_def)
  obtain path d m where m: "m < n" "?log ! m = I_stage path d" "ne_stage E m = Inr st"
    using p(4) assms(2) by (auto simp: answered_def)
  then have "m < length ?log" using assms(2) by simp
  from guardedD [OF guarded this] m(2)
  have g: "grants_in E (take m ?log) = 1" "digest_evidence E d (take m ?log)" "configured_path E path" by (simp_all add: intent_guard_def)
  have "filter (\<lambda>i. grant_at E i (take m ?log ! i)) [0..<m] =
      filter (\<lambda>i. \<exists>chat c. ?log ! i = I_create chat \<and> ne_create E i = Inr (RR_claimed c)) [0..<m]"
    by (rule filter_cong) (simp_all add: grant_at_def)
  then have one: "length (filter (\<lambda>i. \<exists>chat c. ?log ! i = I_create chat \<and> ne_create E i = Inr (RR_claimed c)) [0..<m]) = 1"
    using g(1) \<open>m < length ?log\<close> by (simp add: grants_in_def min_def)
  obtain k gen c c3 where e: "core c = k" "core c3 = k" "granted E c (take m ?log)" "proved_again E k gen (take m ?log)" "ne_digest E c3 gen = Inr d"
    using g(2) unfolding digest_evidence_def by blast
  obtain chat i where i: "i < m" "?log ! i = I_create chat" "ne_create E i = Inr (RR_claimed c)"
    using e(3) \<open>m < length ?log\<close> by (auto simp: granted_def answered_def)
  obtain c2 q where q: "core c2 = k" "q < m" "?log ! q = I_prove c2" "ne_prove E q = Inr gen" "proved E k gen (take q ?log)"
    using e(4) \<open>m < length ?log\<close> by (auto simp: proved_again_def answered_since_def min_def)
  obtain c1 p' where p': "core c1 = k" "p' < q" "?log ! p' = I_prove c1" "ne_prove E p' = Inr gen"
    using q(2,5) \<open>m < length ?log\<close> by (auto simp: proved_def answered_def)
  obtain config where config: "ne_load E = Inr config" "rf_manifestPath config = Some path" using g(3) by (auto simp: configured_path_def)
  have ev: "\<exists>i p q chat c c1 c2 c3 g. i < m \<and> ?log ! i = I_create chat \<and> ne_create E i = Inr (RR_claimed c) \<and>
          p < q \<and> q < m \<and> ?log ! p = I_prove c1 \<and> ?log ! q = I_prove c2 \<and> ne_prove E p = Inr g \<and> ne_prove E q = Inr g \<and>
          core c1 = core c \<and> core c2 = core c \<and> core c3 = core c \<and> ne_digest E c3 g = Inr d"
    by (rule exI [of _ i], rule exI [of _ p'], rule exI [of _ q], rule exI [of _ chat], rule exI [of _ c], rule exI [of _ c1],
        rule exI [of _ c2], rule exI [of _ c3], rule exI [of _ gen]) (simp add: i q p' e)
  have "\<exists>m path d config. m < n \<and> ?log ! m = I_stage path d \<and> ne_stage E m = Inr st \<and>
       ne_load E = Inr config \<and> rf_manifestPath config = Some path \<and>
       length (filter (\<lambda>i. \<exists>chat c. ?log ! i = I_create chat \<and> ne_create E i = Inr (RR_claimed c)) [0..<m]) = 1 \<and>
       (\<exists>i p q chat c c1 c2 c3 g. i < m \<and> ?log ! i = I_create chat \<and> ne_create E i = Inr (RR_claimed c) \<and>
          p < q \<and> q < m \<and> ?log ! p = I_prove c1 \<and> ?log ! q = I_prove c2 \<and> ne_prove E p = Inr g \<and> ne_prove E q = Inr g \<and>
          core c1 = core c \<and> core c2 = core c \<and> core c3 = core c \<and> ne_digest E c3 g = Inr d)"
    by (rule exI [of _ m], rule exI [of _ path], rule exI [of _ d], rule exI [of _ config], intro conjI)
      (rule m config one ev)+
  then show ?thesis using p(2,3) last by simp
qed

text \<open>C29: the operator's intent leaves nothing behind: however the run ends, a file that was staged was published or its
discard was attempted, and for every claim that was granted a give-back of that claim (with at most its ownership
renewed) was attempted; that attempt may fail. Exit code 0 means more: a file was published, only one claim had
been granted, and its give-back was answered yes.\<close>

theorem intent_leaves_nothing_behind:
  assumes "createCompactionRecoveryManifest E = (code, s)"
  shows "(\<forall>path d st. answered (it_log s) (I_stage path d) (ne_stage E) st \<longrightarrow>
       answered (it_log s) (I_publish st) (ne_unit E) () \<or> I_discard st \<in> set (it_log s)) \<and>
    (\<forall>chat c. answered (it_log s) (I_create chat) (ne_create E) (RR_claimed c) \<longrightarrow>
       (\<exists>c'. core c' = core c \<and> I_release_claim c' \<in> set (it_log s))) \<and>
    (code = 0 \<longrightarrow> (\<exists>st. answered (it_log s) (I_publish st) (ne_unit E) ()) \<and>
       length (filter (\<lambda>i. \<exists>chat c. it_log s ! i = I_create chat \<and> ne_create E i = Inr (RR_claimed c)) [0..<length (it_log s)]) = 1 \<and>
       (\<exists>chat c c'. answered (it_log s) (I_create chat) (ne_create E) (RR_claimed c) \<and> core c' = core c \<and>
          answered (it_log s) (I_release_claim c') (ne_bool E) True))"
proof -
  have e: "intent_inv E s" "\<forall>st. it_staged s = Some st \<longrightarrow> it_published s \<or> I_discard st \<in> set (it_log s)"
    "\<forall>k. map_option core (it_selected s) = Some k \<longrightarrow> given_back k (it_log s)"
    using intent_run_ends [OF assms] unfolding intent_end_def settled_run_def by blast+
  have i: "\<forall>path d st. answered (it_log s) (I_stage path d) (ne_stage E) st \<longrightarrow> it_staged s = Some st"
    "it_published s \<longrightarrow> (\<exists>st. it_staged s = Some st \<and> answered (it_log s) (I_publish st) (ne_unit E) ())"
    "\<forall>c. granted E c (it_log s) \<longrightarrow> map_option core (it_selected s) = Some (core c) \<or> given_back (core c) (it_log s)"
    "\<forall>k. map_option core (it_selected s) = Some k \<longrightarrow> (\<exists>c. core c = k \<and> granted E c (it_log s))"
    "it_eligible s = grants_in E (it_log s)"
    using e(1) unfolding open_inv_def by (blast+, simp)
  have finished: "(\<exists>st. answered (it_log s) (I_publish st) (ne_unit E) ()) \<and> grants_in E (it_log s) = 1 \<and>
      (\<exists>chat c c'. answered (it_log s) (I_create chat) (ne_create E) (RR_claimed c) \<and> core c' = core c \<and>
        answered (it_log s) (I_release_claim c') (ne_bool E) True)" if "code = 0"
  proof -
    have c: "confirmed_run E s" using intent_run_ends [OF assms] that unfolding intent_end_def by simp
    then obtain k where k: "map_option core (it_selected s) = Some k" "confirmed_back E k (it_log s)" unfolding confirmed_run_def by blast
    obtain c where c1: "core c = k" "granted E c (it_log s)" using i(4) k(1) by blast
    show ?thesis using c i(2,5) k(2) c1 unfolding confirmed_run_def confirmed_back_def granted_def by metis
  qed
  have staged: "\<forall>path d st. answered (it_log s) (I_stage path d) (ne_stage E) st \<longrightarrow>
      answered (it_log s) (I_publish st) (ne_unit E) () \<or> I_discard st \<in> set (it_log s)"
    using i(1,2) e(2) by (metis option.inject)
  have given: "\<forall>chat c. answered (it_log s) (I_create chat) (ne_create E) (RR_claimed c) \<longrightarrow>
      (\<exists>c'. core c' = core c \<and> I_release_claim c' \<in> set (it_log s))"
    using i(3) e(3) unfolding granted_def given_back_def by metis
  show ?thesis using staged given finished unfolding grants_in_def grant_at_def by blast
qed

section \<open>A run\<close>

definition intent_env_demo :: intent_env where
  "intent_env_demo = \<lparr>ne_load = Inr (rec_config\<lparr>rf_manifestPath := Some ''/m''\<rparr>), ne_connect = (\<lambda>_. Inr ()), ne_repository = (\<lambda>_. Inr [''1@g.us'']),
     ne_acquire = (\<lambda>_. Inr (Some rec_fence)), ne_renewApp = (\<lambda>_. Inr (Some rec_fence)), ne_create = (\<lambda>_. Inr (RR_claimed rec_claim)),
     ne_renew = (\<lambda>_. Inr (Some \<lparr>own_app = rec_fence, own_chat = rec_fence\<rparr>)), ne_prove = (\<lambda>_. Inr rec_generation),
     ne_stage = (\<lambda>_. Inr ''/t''), ne_bool = (\<lambda>_. Inr True), ne_unit = (\<lambda>_. Inr ()), ne_digest = (\<lambda>_ _. Inr ''d''), ne_beats = (\<lambda>_. 0)\<rparr>"

lemma intent_demo_values:
  "ne_load intent_env_demo = Inr (rec_config\<lparr>rf_manifestPath := Some ''/m''\<rparr>)" "ne_connect intent_env_demo n = Inr ()"
  "ne_repository intent_env_demo n = Inr [''1@g.us'']" "ne_acquire intent_env_demo n = Inr (Some rec_fence)"
  "ne_renewApp intent_env_demo n = Inr (Some rec_fence)" "ne_create intent_env_demo n = Inr (RR_claimed rec_claim)"
  "ne_renew intent_env_demo n = Inr (Some \<lparr>own_app = rec_fence, own_chat = rec_fence\<rparr>)"
  "ne_prove intent_env_demo n = Inr rec_generation" "ne_stage intent_env_demo n = Inr ''/t''"
  "ne_bool intent_env_demo n = Inr True" "ne_unit intent_env_demo n = Inr ()" "ne_digest intent_env_demo c g = Inr ''d''"
  "ne_beats intent_env_demo n = 0"
  by (simp_all add: intent_env_demo_def)

definition intent_steps :: "intent_effect list" where
  "intent_steps = [I_connect, I_repository, I_acquire, I_renew_app, I_create ''1@g.us'', I_prove rec_claim, I_prove rec_claim,
     I_stage ''/m'' ''d'', I_release_claim rec_claim, I_publish ''/t'']"

definition intent_selected :: intent where
  "intent_selected = new_intent\<lparr>it_connected := True, it_repository := True, it_app := Some rec_fence, it_selected := Some rec_claim,
     it_digest := Some ''d'', it_scanned := 1, it_eligible := 1, it_beat := Beat_waiting, it_log := take 7 intent_steps\<rparr>"

definition intent_done :: intent where
  "intent_done = intent_selected\<lparr>it_staged := Some ''/t'', it_released := True, it_attempted := True, it_published := True,
     it_beat := Beat_over, it_log := intent_steps\<rparr>"

lemmas intent_defs = intent_chats.simps intent_chat_def eligible_claim_def select_claim_def intent_call_def with_selected_def
  publish_intent_def intent_settle_def discard_stage_def give_up_claim_def intent_release_app_def intent_drain_def
  finalize_def seq_def catch_def with_state_def modify_def ret_def throw_def lift_def

lemma intent_demo_selects:
  "intent_chats intent_env_demo [''1@g.us''] (new_intent\<lparr>it_connected := True, it_repository := True, it_app := Some rec_fence,
     it_log := take 3 intent_steps\<rparr>) = (Inr (), intent_selected)"
  by (simp add: intent_defs intent_demo_values intent_selected_def intent_steps_def new_intent_def cong: exec_cong)

lemma intent_demo_publishes:
  "finalize (publish_intent intent_env_demo ''/m'') (intent_settle intent_env_demo) intent_selected = (Inr (), intent_done)"
  by (simp add: intent_defs intent_demo_values intent_selected_def intent_done_def intent_steps_def new_intent_def cong: exec_cong)


lemma intent_demo_work:
  "finalize (seq (intent_chats intent_env_demo [''1@g.us'']) (\<lambda>_. publish_intent intent_env_demo ''/m'')) (intent_settle intent_env_demo)
     (new_intent\<lparr>it_connected := True, it_repository := True, it_app := Some rec_fence, it_log := take 3 intent_steps\<rparr>) = (Inr (), intent_done)"
proof -
  have fin: "finalize (seq m (\<lambda>_. f)) g s = finalize f g s'" if "m s = (Inr (), s')" for m f g :: "unit intent_exec" and s s'
    using that by (simp add: finalize_def seq_def)
  show ?thesis by (subst fin, rule intent_demo_selects, rule intent_demo_publishes)
qed

lemma intent_demo_run:
  "createCompactionRecoveryManifest intent_env_demo =
     (0, intent_done\<lparr>it_app := None, it_log := intent_steps @ [I_release_app rec_fence, I_close_repository]\<rparr>)"
proof -
  have "intent_main intent_env_demo new_intent =
      (Inr (), intent_done\<lparr>it_app := None, it_log := intent_steps @ [I_release_app rec_fence]\<rparr>)"
    using intent_demo_work
    by (simp add: intent_main_def intent_demo_values intent_call_def intent_release_app_def seq_def with_state_def modify_def ret_def throw_def
        lift_def intent_steps_def new_intent_def intent_done_def intent_selected_def cong: exec_cong)
  then show ?thesis
    by (simp add: createCompactionRecoveryManifest_def intent_close_def intent_demo_values intent_call_def intent_release_app_def
        seq_def catch_def with_state_def modify_def ret_def throw_def intent_steps_def new_intent_def intent_done_def intent_selected_def cong: exec_cong)
qed

theorem published_intent_is_proved_witness:
  "(\<exists>c. (intent_steps @ [I_release_app rec_fence, I_close_repository]) ! 8 = I_release_claim c)"
  using published_intent_is_proved [OF intent_demo_run, of 9 "''/t''"] by (simp add: intent_steps_def)

theorem intent_leaves_nothing_behind_witness:
  "\<exists>st c. answered (intent_steps @ [I_release_app rec_fence, I_close_repository]) (I_publish st) (ne_unit intent_env_demo) () \<and>
    answered (intent_steps @ [I_release_app rec_fence, I_close_repository]) (I_release_claim c) (ne_bool intent_env_demo) True"
proof -
  have log: "it_log (intent_done\<lparr>it_app := None, it_log := intent_steps @ [I_release_app rec_fence, I_close_repository]\<rparr>) =
    intent_steps @ [I_release_app rec_fence, I_close_repository]" by simp
  show ?thesis
    using mp [OF conjunct2 [OF conjunct2 [OF intent_leaves_nothing_behind [OF intent_demo_run, unfolded log]]] HOL.refl] by blast
qed

end
