(* ===== verification/Client.thy ===== *)
theory Client
  imports Trace Connection Config
begin

text \<open>
  The three Redis clients of a controller process (\<open>src/session-controller/src/redis/client.ts\<close>): the
  check of the server's durability settings, the connection with its clean-up, the serialised operations, the
  durability barrier around every write, and the close. Theory \<open>Connection\<close> is the abstraction of this
  file that the repository is proved over; the refinement is in theory \<open>Client_Spec\<close>.
\<close>

section \<open>Clients and replies\<close>

datatype role = Writer | Reader | Mapping

text \<open>A reply as the client package hands it over in protocol version 2.\<close>

datatype resp = R_text string | R_number int | R_list "resp list" | R_nil

datatype client_effect =
    C_connect role | C_send role "string list" | C_operation | C_tail | C_close role | C_destroy role

record redis_client =
  rs_healthy :: bool
  rs_closing :: bool
  rs_closed :: "(error_class + unit) option"
  rs_log :: "client_effect list"

text \<open>
  The package and the network: what each call answers, whether a client is ready or open when its getter is read
  (the getter \<open>isOpen\<close> may throw), and, while a call is awaited, whether a client reported \<open>error\<close> or \<open>end\<close>
  and whether \<open>close\<close> was called.
\<close>

record client_env =
  ce_redis :: redis_config
  ce_unit :: "nat \<Rightarrow> error_class + unit"
  ce_reply :: "nat \<Rightarrow> error_class + resp"
  ce_ready :: "nat \<Rightarrow> role \<Rightarrow> bool"
  ce_isOpen :: "nat \<Rightarrow> role \<Rightarrow> bool option"
  ce_breaks :: "nat \<Rightarrow> bool"
  ce_closes :: "nat \<Rightarrow> bool"

definition meanwhile :: "client_env \<Rightarrow> nat \<Rightarrow> 'z redis_client_scheme \<Rightarrow> 'z redis_client_scheme" where
  "meanwhile E n s = s\<lparr>rs_healthy := (rs_healthy s \<and> \<not> ce_breaks E n), rs_closing := (rs_closing s \<or> ce_closes E n)\<rparr>"

definition ccall :: "client_env \<Rightarrow> client_effect \<Rightarrow> (nat \<Rightarrow> error_class + 'a) \<Rightarrow> ('z redis_client_scheme, 'a) exec" where
  "ccall E e answer s =
     (answer (length (rs_log s)), meanwhile E (length (rs_log s)) (s\<lparr>rs_log := rs_log s @ [e]\<rparr>))"

definition csend :: "client_env \<Rightarrow> role \<Rightarrow> string list \<Rightarrow> ('z redis_client_scheme, resp) exec" where
  "csend E r command = ccall E (C_send r command) (ce_reply E)"

section \<open>The baseline\<close>

fun text_of :: "resp \<Rightarrow> string option" where
  "text_of (R_text t) = Some t"
| "text_of _ = None"

definition strings :: "resp \<Rightarrow> error_class + string list" where
  "strings reply = (case reply of
     R_list rs \<Rightarrow> (if list_all (\<lambda>r. text_of r \<noteq> None) rs then Inr (map (\<lambda>r. the (text_of r)) rs) else Inl Store_unavailable)
   | _ \<Rightarrow> Inl Store_unavailable)"

text \<open>The lines of a text, as \<open>^\<close> and \<open>$\<close> see them in multiline mode: a carriage return ends a line as well.\<close>

fun text_lines :: "string \<Rightarrow> string list" where
  "text_lines [] = [[]]"
| "text_lines (c # cs) =
     (if c = CHR 0x0A \<or> c = CHR 0x0D then [] # text_lines cs
      else (case text_lines cs of l # ls \<Rightarrow> (c # l) # ls | [] \<Rightarrow> [[c]]))"

definition take_number :: "string \<Rightarrow> (nat \<times> string) option" where
  "take_number t = (case takeWhile is_digit t of [] \<Rightarrow> None
     | ds \<Rightarrow> Some (foldl (\<lambda>n c. 10 * n + dig c) 0 ds, dropWhile is_digit t))"

definition take_prefix :: "string \<Rightarrow> string \<Rightarrow> string option" where
  "take_prefix p t = (if take (length p) t = p then Some (drop (length p) t) else None)"

definition version_line :: "string \<Rightarrow> (nat \<times> nat) option" where
  "version_line l =
     (case take_prefix ''redis_version:'' l of None \<Rightarrow> None | Some l \<Rightarrow>
      case take_number l of None \<Rightarrow> None | Some (major, l) \<Rightarrow>
      case take_prefix ''.'' l of None \<Rightarrow> None | Some l \<Rightarrow>
      case take_number l of None \<Rightarrow> None | Some (minor, l) \<Rightarrow>
      case take_prefix ''.'' l of None \<Rightarrow> None | Some l \<Rightarrow>
      case take_number l of Some (_, []) \<Rightarrow> Some (major, minor) | _ \<Rightarrow> None)"

text \<open>The first line that is a version decides.\<close>

fun redis_version :: "string list \<Rightarrow> (nat \<times> nat) option" where
  "redis_version [] = None"
| "redis_version (l # ls) = (case version_line l of Some v \<Rightarrow> Some v | None \<Rightarrow> redis_version ls)"

definition version_ok :: "resp \<Rightarrow> bool" where
  "version_ok info =
     (case text_of info of None \<Rightarrow> False
      | Some t \<Rightarrow> (case redis_version (text_lines t) of None \<Rightarrow> False
          | Some (major, minor) \<Rightarrow> \<not> (major < 7 \<or> major = 7 \<and> minor < 2)))"

definition setting_ok :: "string \<Rightarrow> string \<Rightarrow> resp \<Rightarrow> bool" where
  "setting_ok key expected reply = (strings reply = Inr [key, expected])"

definition persistence_ok :: "resp \<Rightarrow> bool" where
  "persistence_ok reply =
     (case text_of reply of None \<Rightarrow> False
      | Some t \<Rightarrow> ''aof_enabled:1'' \<in> set (text_lines t) \<and> ''aof_last_write_status:ok'' \<in> set (text_lines t))"

definition must :: "bool \<Rightarrow> ('s, unit) exec" where
  "must b = require b Store_unavailable"

definition required_settings :: "(string \<times> string) list" where
  "required_settings = [(''appendonly'', ''yes''), (''appendfsync'', ''always''), (''maxmemory-policy'', ''noeviction'')]"

fun check_settings :: "client_env \<Rightarrow> role \<Rightarrow> (string \<times> string) list \<Rightarrow> ('z redis_client_scheme, unit) exec" where
  "check_settings E r [] = ret ()"
| "check_settings E r ((key, expected) # rest) =
     seq (csend E r [''CONFIG'', ''GET'', key]) (\<lambda>reply.
     seq (must (setting_ok key expected reply)) (\<lambda>_. check_settings E r rest))"

definition requireBaseline :: "client_env \<Rightarrow> role \<Rightarrow> ('z redis_client_scheme, unit) exec" where
  "requireBaseline E r =
     seq (csend E r [''INFO'', ''server'']) (\<lambda>info.
     seq (must (version_ok info)) (\<lambda>_.
     seq (check_settings E r required_settings) (\<lambda>_.
     seq (csend E r [''INFO'', ''persistence'']) (\<lambda>persistence.
     must (persistence_ok persistence)))))"

section \<open>Connecting\<close>

text \<open>A destruction is attempted only on an open client; whether the attempt failed is the value.\<close>

definition cnow :: "client_effect \<Rightarrow> (nat \<Rightarrow> error_class + 'a) \<Rightarrow> ('z redis_client_scheme, 'a) exec" where
  "cnow e answer s = (answer (length (rs_log s)), s\<lparr>rs_log := rs_log s @ [e]\<rparr>)"

definition attempted :: "('s, unit) exec \<Rightarrow> ('s, bool) exec" where
  "attempted m = catch (seq m (\<lambda>_. ret False)) (\<lambda>_. ret True)"

definition if_open :: "client_env \<Rightarrow> role \<Rightarrow> ('z redis_client_scheme, unit) exec \<Rightarrow> ('z redis_client_scheme, unit) exec" where
  "if_open E r m = with_state (\<lambda>s.
     case ce_isOpen E (length (rs_log s)) r of
       None \<Rightarrow> throw Internal_failed
     | Some b \<Rightarrow> if b then m else ret ())"

definition destroy :: "client_env \<Rightarrow> role \<Rightarrow> ('z redis_client_scheme, bool) exec" where
  "destroy E r = attempted (if_open E r (cnow (C_destroy r) (ce_unit E)))"

fun each_client :: "(role \<Rightarrow> ('s, bool) exec) \<Rightarrow> role list \<Rightarrow> ('s, bool) exec" where
  "each_client f [] = ret False"
| "each_client f (r # rs) = seq (f r) (\<lambda>a. seq (each_client f rs) (\<lambda>b. ret (a \<or> b)))"

definition connect_client :: "client_env \<Rightarrow> role \<Rightarrow> ('z redis_client_scheme, unit) exec" where
  "connect_client E r = ccall E (C_connect r) (ce_unit E)"

definition connectRedis :: "client_env \<Rightarrow> ('z redis_client_scheme, unit) exec" where
  "connectRedis E =
     catch (seq (connect_client E Writer) (\<lambda>_. seq (requireBaseline E Writer) (\<lambda>_.
            seq (connect_client E Reader) (\<lambda>_.
            seq (connect_client E Mapping) (\<lambda>_. requireBaseline E Mapping)))))
       (\<lambda>_. seq (each_client (destroy E) [Mapping, Reader, Writer]) (\<lambda>_. throw Store_unavailable))"

section \<open>Operations\<close>

definition client_ready :: "client_env \<Rightarrow> 'z redis_client_scheme \<Rightarrow> bool" where
  "client_ready E s \<longleftrightarrow> rs_healthy s \<and> \<not> rs_closing s \<and>
     list_all (ce_ready E (length (rs_log s))) [Writer, Reader, Mapping]"

text \<open>An operation at its turn in the queue: those before it have settled.\<close>

definition client_serial :: "client_env \<Rightarrow> ('z redis_client_scheme, 'a) exec \<Rightarrow> ('z redis_client_scheme, 'a) exec" where
  "client_serial E m = with_state (\<lambda>s. if client_ready E s then m else throw Store_unavailable)"

text \<open>The reply to \<open>WAITAOF\<close>: fsynced by this server at least, and by any number of replicas.\<close>

definition acknowledged :: "resp \<Rightarrow> bool" where
  "acknowledged reply = (case reply of R_list [R_number a, R_number b] \<Rightarrow> 1 \<le> a \<and> 0 \<le> b | _ \<Rightarrow> False)"

definition waitaof :: "client_env \<Rightarrow> string list" where
  "waitaof E = [''WAITAOF'', ''1'', ''0'', show_nat (xc_waitAofMs (ce_redis E))]"

definition barrier_body :: "client_env \<Rightarrow> ('z redis_client_scheme, 'a) exec \<Rightarrow> ('z redis_client_scheme, 'a) exec" where
  "barrier_body E m =
     seq (requireBaseline E Writer) (\<lambda>_.
     seq m (\<lambda>x.
     seq (csend E Writer (waitaof E)) (\<lambda>reply.
     seq (must (acknowledged reply)) (\<lambda>_. ret x))))"

definition client_durable :: "client_env \<Rightarrow> ('z redis_client_scheme, 'a) exec \<Rightarrow> ('z redis_client_scheme, 'a) exec" where
  "client_durable E m = client_serial E (catch (barrier_body E m)
     (\<lambda>_. seq (modify (\<lambda>s. s\<lparr>rs_healthy := False\<rparr>)) (\<lambda>_. throw Store_unavailable)))"

section \<open>Closing\<close>

text \<open>\<open>close_client\<close> waits for the queue, asks the clients that write to close, then destroys what is still open.\<close>

definition ask_close :: "client_env \<Rightarrow> role \<Rightarrow> ('z redis_client_scheme, bool) exec" where
  "ask_close E r = attempted (if_open E r (ccall E (C_close r) (ce_unit E)))"

definition close_body :: "client_env \<Rightarrow> ('z redis_client_scheme, unit) exec" where
  "close_body E =
     seq (destroy E Reader) (\<lambda>a.
     seq (ccall E C_tail (\<lambda>_. Inr ())) (\<lambda>_.
     seq (each_client (ask_close E) [Mapping, Writer]) (\<lambda>b.
     seq (each_client (destroy E) [Reader, Mapping, Writer]) (\<lambda>c.
     must (\<not> (a \<or> b \<or> c))))))"

definition close_client :: "client_env \<Rightarrow> ('z redis_client_scheme, unit) exec" where
  "close_client E s =
     (case rs_closed s of
        Some r \<Rightarrow> (r, s)
      | None \<Rightarrow> (case close_body E (s\<lparr>rs_closing := True\<rparr>) of (r, s) \<Rightarrow> (r, s\<lparr>rs_closed := Some r\<rparr>)))"

definition new_client :: redis_client where
  "new_client = \<lparr>rs_healthy = True, rs_closing = False, rs_closed = None, rs_log = []\<rparr>"

end
