(* ===== verification/Client_Spec.thy ===== *)
theory Client_Spec
  imports Client
begin

text \<open>
  What the Redis clients promise: a write counts only between a check of the durability settings and an
  acknowledged \<open>WAITAOF\<close>, a failed write closes the connection to later ones, connecting and closing leave no client
  open without a last attempt to destroy it, and the barrier is the one of theory \<open>Connection\<close>.
\<close>

section \<open>The baseline\<close>

definition baseline_commands :: "role \<Rightarrow> client_effect list" where
  "baseline_commands r = C_send r [''INFO'', ''server''] #
     map (\<lambda>(key, _). C_send r [''CONFIG'', ''GET'', key]) required_settings @ [C_send r [''INFO'', ''persistence'']]"

definition replied :: "client_env \<Rightarrow> nat \<Rightarrow> (resp \<Rightarrow> bool) \<Rightarrow> bool" where
  "replied E n ok \<longleftrightarrow> (case ce_reply E n of Inl _ \<Rightarrow> False | Inr reply \<Rightarrow> ok reply)"

definition baseline_at :: "client_env \<Rightarrow> nat \<Rightarrow> bool" where
  "baseline_at E n \<longleftrightarrow> replied E n version_ok \<and> replied E (n + 1) (setting_ok ''appendonly'' ''yes'') \<and>
     replied E (n + 2) (setting_ok ''appendfsync'' ''always'') \<and> replied E (n + 3) (setting_ok ''maxmemory-policy'' ''noeviction'') \<and>
     replied E (n + 4) persistence_ok"

lemma meanwhile_log [simp]: "rs_log (meanwhile E n s) = rs_log s" "rs_closed (meanwhile E n s) = rs_closed s"
  "redis_client.more (meanwhile E n s) = redis_client.more s"
  by (simp_all add: meanwhile_def)

lemma meanwhile_flags: "rs_healthy (meanwhile E n s) \<Longrightarrow> rs_healthy s" "rs_closing s \<Longrightarrow> rs_closing (meanwhile E n s)"
  by (simp_all add: meanwhile_def)

lemmas client_defs = seq_def ret_def throw_def must_def require_def lift_def guard_def csend_def ccall_def

lemma baseline_length [simp]: "length (baseline_commands r) = 5"
  by (simp add: baseline_commands_def required_settings_def)

text \<open>What a call may change.\<close>

definition calm_client :: "client_env \<Rightarrow> bool" where
  "calm_client E \<longleftrightarrow> (\<forall>n. \<not> ce_breaks E n \<and> \<not> ce_closes E n \<and> (\<forall>r. ce_ready E n r))"

definition kept :: "client_env \<Rightarrow> 'z redis_client_scheme \<Rightarrow> 'z redis_client_scheme \<Rightarrow> bool" where
  "kept E s t \<longleftrightarrow> redis_client.more t = redis_client.more s \<and> rs_closed t = rs_closed s \<and>
     (rs_healthy t \<longrightarrow> rs_healthy s) \<and> (rs_closing s \<longrightarrow> rs_closing t) \<and>
     (calm_client E \<longrightarrow> rs_healthy t = rs_healthy s \<and> rs_closing t = rs_closing s) \<and> (\<exists>new. rs_log t = rs_log s @ new)"

lemma kept_client_refl: "kept E s s"
  by (simp add: kept_def)

lemma kept_client_trans: "kept E s t \<Longrightarrow> kept E t u \<Longrightarrow> kept E s u"
  by (auto simp: kept_def)

abbreviation sent :: "client_env \<Rightarrow> client_effect \<Rightarrow> 'z redis_client_scheme \<Rightarrow> 'z redis_client_scheme" where
  "sent E e s \<equiv> meanwhile E (length (rs_log s)) (s\<lparr>rs_log := rs_log s @ [e]\<rparr>)"

lemma sent_kept: "kept E s (sent E e s)"
  by (auto simp: kept_def meanwhile_def calm_client_def)

text \<open>A sequence of commands and checks: it succeeds exactly if every reply passes.\<close>

definition checks :: "client_env \<Rightarrow> ('z redis_client_scheme, unit) exec \<Rightarrow> client_effect list \<Rightarrow> (nat \<Rightarrow> bool) \<Rightarrow> bool" where
  "checks E m commands ok \<longleftrightarrow> (\<forall>s x s'. m s = (x, s') \<longrightarrow> kept E s s' \<and> (x = Inr () \<longleftrightarrow> ok (length (rs_log s))) \<and>
     (x = Inr () \<longrightarrow> rs_log s' = rs_log s @ commands))"

lemma checks_send:
  assumes "checks E m commands good"
  shows "checks E (seq (csend E r c) (\<lambda>reply. seq (must (ok reply)) (\<lambda>_. m))) (C_send r c # commands)
    (\<lambda>n. replied E n ok \<and> good (Suc n))"
  unfolding checks_def
proof (intro allI impI)
  fix s x s' assume run: "seq (csend E r c) (\<lambda>reply. seq (must (ok reply)) (\<lambda>_. m)) s = (x, s')"
  let ?t = "sent E (C_send r c) s"
  have cases: "if replied E (length (rs_log s)) ok then m ?t = (x, s') else x \<noteq> Inr () \<and> s' = ?t"
    using run by (auto simp: client_defs replied_def split: sum.splits if_splits)
  show "kept E s s' \<and> (x = Inr () \<longleftrightarrow> replied E (length (rs_log s)) ok \<and> good (Suc (length (rs_log s)))) \<and>
      (x = Inr () \<longrightarrow> rs_log s' = rs_log s @ C_send r c # commands)"
  proof (cases "replied E (length (rs_log s)) ok")
    case True
    then have "kept E ?t s' \<and> (x = Inr () \<longleftrightarrow> good (length (rs_log ?t))) \<and> (x = Inr () \<longrightarrow> rs_log s' = rs_log ?t @ commands)"
      using cases assms unfolding checks_def by simp
    then show ?thesis using True by (auto intro: kept_client_trans [OF sent_kept])
  next
    case False
    then show ?thesis using cases sent_kept by simp
  qed
qed

lemma checks_ret: "checks E (ret ()) [] (\<lambda>_. True)"
  by (simp add: checks_def ret_def kept_client_refl)

lemma seq_ret: "seq m (\<lambda>_. ret ()) = m"
proof (rule ext)
  fix s show "seq m (\<lambda>_. ret ()) s = m s" by (cases "m s") (auto simp: seq_def ret_def split: sum.split)
qed

lemma seq_nested: "seq (seq m f) g = seq m (\<lambda>x. seq (f x) g)"
  by (auto simp: seq_def fun_eq_iff split: prod.split sum.split)

lemma baseline_checks: "checks E (requireBaseline E r) (baseline_commands r) (baseline_at E)"
proof -
  have last: "must b = seq (must b) (\<lambda>_. ret ())" for b by (simp only: seq_ret)
  have ok: "baseline_at E = (\<lambda>n. replied E n version_ok \<and> replied E (Suc n) (setting_ok ''appendonly'' ''yes'') \<and>
      replied E (Suc (Suc n)) (setting_ok ''appendfsync'' ''always'') \<and>
      replied E (Suc (Suc (Suc n))) (setting_ok ''maxmemory-policy'' ''noeviction'') \<and>
      replied E (Suc (Suc (Suc (Suc n)))) persistence_ok \<and> True)"
    by (simp add: baseline_at_def fun_eq_iff eval_nat_numeral)
  show ?thesis
    unfolding ok requireBaseline_def required_settings_def check_settings.simps seq_nested seq_simps baseline_commands_def list.map
      prod.case append.simps
    by (subst last) (rule checks_send checks_ret)+
qed

lemma baseline_run:
  assumes "requireBaseline E r s = (x, s')"
  shows "kept E s s'" "x = Inr () \<longleftrightarrow> baseline_at E (length (rs_log s))" "x = Inr () \<Longrightarrow> rs_log s' = rs_log s @ baseline_commands r"
  using baseline_checks assms unfolding checks_def by blast+

section \<open>The durability barrier\<close>

definition extends_log :: "('z redis_client_scheme, 'a) exec \<Rightarrow> bool" where
  "extends_log m \<longleftrightarrow> (\<forall>s r s'. m s = (r, s') \<longrightarrow> (\<exists>new. rs_log s' = rs_log s @ new))"

lemma barrier_Inr:
  assumes "extends_log m" "barrier_body E m s = (Inr x, s')"
  shows "baseline_at E (length (rs_log s))"
    "\<exists>mid. rs_log s' = rs_log s @ baseline_commands Writer @ mid @ [C_send Writer (waitaof E)] \<and>
       replied E (length (rs_log s) + 5 + length mid) acknowledged"
proof -
  obtain t where t: "requireBaseline E Writer s = (Inr (), t)"
    "seq m (\<lambda>x. seq (csend E Writer (waitaof E)) (\<lambda>reply. seq (must (acknowledged reply)) (\<lambda>_. ret x))) t = (Inr x, s')"
    using assms(2) by (auto simp: barrier_body_def seq_Inr)
  obtain y u where u: "m t = (Inr y, u)" "seq (csend E Writer (waitaof E)) (\<lambda>reply. seq (must (acknowledged reply)) (\<lambda>_. ret y)) u = (Inr x, s')"
    using t(2) unfolding seq_Inr by blast
  obtain mid where mid: "rs_log u = rs_log t @ mid" using assms(1) u(1) unfolding extends_log_def by blast
  have "replied E (length (rs_log u)) acknowledged \<and> rs_log s' = rs_log u @ [C_send Writer (waitaof E)]"
    using u(2) by (auto simp: client_defs replied_def split: sum.splits if_splits)
  moreover have "rs_log t = rs_log s @ baseline_commands Writer" using baseline_run [OF t(1)] by simp
  ultimately show "\<exists>mid. rs_log s' = rs_log s @ baseline_commands Writer @ mid @ [C_send Writer (waitaof E)] \<and>
      replied E (length (rs_log s) + 5 + length mid) acknowledged"
    using mid by (intro exI [of _ mid]) (simp add: add.assoc)
  show "baseline_at E (length (rs_log s))" using baseline_run [OF t(1)] by simp
qed

lemma serial_unready: "\<not> client_ready E s \<Longrightarrow> client_serial E m s = (Inl Store_unavailable, s)"
  by (simp add: client_serial_def with_state_def throw_def)

lemma durable_ready:
  assumes "client_ready E s" "barrier_body E m s = (q, t)"
  shows "client_durable E m s =
    (case q of Inl e \<Rightarrow> (Inl Store_unavailable, t\<lparr>rs_healthy := False\<rparr>) | Inr x \<Rightarrow> (Inr x, t))"
  using assms by (simp add: client_durable_def client_serial_def with_state_def catch_def seq_def modify_def throw_def split: sum.split)

text \<open>C8: a write is durable or it fails for good: a write that succeeds ran between a check of the server's
settings, every one of them as required, and a \<open>WAITAOF\<close> that acknowledged an fsync; it started with three healthy
clients. Any failure on the way is reported as \<open>store_unavailable\<close> and closes the connection to every later
operation, whatever it is.\<close>

theorem write_is_durable:
  assumes "extends_log m" "client_durable E m s = (r, s')"
  shows "case r of
      Inr x \<Rightarrow> client_ready E s \<and> baseline_at E (length (rs_log s)) \<and>
        (\<exists>mid. rs_log s' = rs_log s @ baseline_commands Writer @ mid @ [C_send Writer (waitaof E)] \<and>
           replied E (length (rs_log s) + 5 + length mid) acknowledged)
    | Inl e \<Rightarrow> e = Store_unavailable \<and> (client_ready E s \<longrightarrow> \<not> rs_healthy s') \<and> (\<not> client_ready E s \<longrightarrow> s' = s) \<and>
        (\<not> rs_healthy s' \<longrightarrow> (\<forall>k. client_serial E (k :: ('z redis_client_scheme, 'b) exec) s' = (Inl Store_unavailable, s')))"
proof (cases "client_ready E s")
  case False
  then have "r = Inl Store_unavailable" "s' = s" using assms(2) by (simp_all add: client_durable_def serial_unready)
  then show ?thesis using False by (simp add: serial_unready)
next
  case True
  have unready: "\<not> client_ready E s'" if "\<not> rs_healthy s'" using that by (simp add: client_ready_def)
  obtain q t where q: "barrier_body E m s = (q, t)" by force
  show ?thesis
  proof (cases q)
    case (Inl e)
    then have "r = Inl Store_unavailable" "s' = t\<lparr>rs_healthy := False\<rparr>" using assms(2) durable_ready [OF True q] by simp_all
    then show ?thesis using True unready by (simp add: serial_unready)
  next
    case (Inr x)
    then have "r = Inr x" "s' = t" using assms(2) durable_ready [OF True q] by simp_all
    then show ?thesis using True barrier_Inr [OF assms(1)] q Inr by simp
  qed
qed

section \<open>The abstraction that the repository is proved over\<close>

text \<open>The clients with the connection of theory \<open>Connection\<close> behind them: an operation is one command here.\<close>

record 'st backed_client = redis_client +
  cx_conn :: "'st conn"

definition as_conn :: "client_env \<Rightarrow> 'st backed_client \<Rightarrow> 'st conn" where
  "as_conn E s = (cx_conn s)\<lparr>c_healthy := client_ready E s\<rparr>"

definition backed_op :: "client_env \<Rightarrow> ('st, 'a) action \<Rightarrow> ('st backed_client, 'a) exec" where
  "backed_op E m = seq (ccall E C_operation (\<lambda>_. Inr ())) (\<lambda>_ s. case m (cx_conn s) of (r, c) \<Rightarrow> (r, s\<lparr>cx_conn := c\<rparr>))"

definition as_world :: "client_env \<Rightarrow> nat \<Rightarrow> 'st world \<Rightarrow> 'st world" where
  "as_world E n W = W\<lparr>w_baseline := (\<lambda>_. baseline_at E n), w_waitaof := (\<lambda>_. replied E (n + 6) acknowledged)\<rparr>"

definition ignores_health :: "('st, 'a) action \<Rightarrow> bool" where
  "ignores_health m \<longleftrightarrow> (\<forall>c h. m (c\<lparr>c_healthy := h\<rparr>) = (fst (m c), (snd (m c))\<lparr>c_healthy := h\<rparr>))"

lemma calm_meanwhile: "calm_client E \<Longrightarrow> meanwhile E n s = s"
  by (simp add: meanwhile_def calm_client_def)

lemma calm_ready: "calm_client E \<Longrightarrow> client_ready E s \<longleftrightarrow> rs_healthy s \<and> \<not> rs_closing s"
  by (simp add: client_ready_def calm_client_def)

lemma calm_kept_conn: "calm_client E \<Longrightarrow> kept E s t \<Longrightarrow>
    as_conn E t = as_conn E s \<and> cx_conn t = cx_conn s \<and> client_ready E t = client_ready E s"
proof -
  assume calm: "calm_client E" and k: "kept E s t"
  have "cx_conn t = cx_conn s"
    using k unfolding kept_def by (cases s, cases t) simp
  then show ?thesis using calm k by (simp add: as_conn_def calm_ready kept_def)
qed

lemma backed_barrier:
  assumes "calm_client E" "client_ready E s" "requireBaseline E Writer s = (Inr (), u)"
    "m (cx_conn s) = (y, c)" "barrier_body E (backed_op E m) s = (q, t)"
  shows "cx_conn t = c" "case y of Inl e \<Rightarrow> q = Inl e
      | Inr x \<Rightarrow> if replied E (length (rs_log s) + 6) acknowledged then q = Inr x \<and> as_conn E t = c\<lparr>c_healthy := True\<rparr> else (\<exists>e. q = Inl e)"
proof -
  have u: "cx_conn u = cx_conn s" "rs_healthy u" "\<not> rs_closing u" "length (rs_log u) = length (rs_log s) + 5"
    using calm_kept_conn [OF assms(1) baseline_run(1) [OF assms(3)]] assms(2) calm_ready [OF assms(1), of u] baseline_run(3) [OF assms(3)]
    by auto
  define v where "v = u\<lparr>rs_log := rs_log u @ [C_operation], cx_conn := c\<rparr>"
  have run: "seq (backed_op E m) (\<lambda>x. seq (csend E Writer (waitaof E)) (\<lambda>reply. seq (must (acknowledged reply)) (\<lambda>_. ret x))) u = (q, t)"
    using assms(3,5) by (simp add: barrier_body_def seq_def)
  have op: "backed_op E m u = (y, v)"
    by (simp add: backed_op_def seq_def ccall_def calm_meanwhile [OF assms(1)] u(1) assms(4) v_def)
  have v: "cx_conn v = c" "length (rs_log v) = length (rs_log s) + 6" "rs_healthy v" "\<not> rs_closing v" using u(2-4) by (simp_all add: v_def)
  have ends: "cx_conn t = c \<and> (case y of Inl e \<Rightarrow> q = Inl e
      | Inr x \<Rightarrow> if replied E (length (rs_log s) + 6) acknowledged then q = Inr x \<and> as_conn E t = c\<lparr>c_healthy := True\<rparr> else (\<exists>e. q = Inl e))"
  proof (cases y)
    case (Inl e)
    then show ?thesis using run op v(1) by (auto simp: seq_def)
  next
    case (Inr x)
    have sent: "seq (csend E Writer (waitaof E)) (\<lambda>reply. seq (must (acknowledged reply)) (\<lambda>_. ret x)) v = (q, t)"
      using run op Inr by (simp add: seq_def)
    have "t = v\<lparr>rs_log := rs_log v @ [C_send Writer (waitaof E)]\<rparr> \<and>
        (if replied E (length (rs_log s) + 6) acknowledged then q = Inr x else \<exists>e. q = Inl e)"
      using sent v(2) by (auto simp: client_defs replied_def calm_meanwhile [OF assms(1)] split: sum.splits if_splits)
    then show ?thesis using v Inr by (auto simp: as_conn_def calm_ready [OF assms(1)])
  qed
  then show "cx_conn t = c" "case y of Inl e \<Rightarrow> q = Inl e
      | Inr x \<Rightarrow> if replied E (length (rs_log s) + 6) acknowledged then q = Inr x \<and> as_conn E t = c\<lparr>c_healthy := True\<rparr> else (\<exists>e. q = Inl e)"
    by simp_all
qed

text \<open>C9: the barrier refines the one of the repository's model: while no client reports an error and \<open>close\<close> is not called, a
write through the three clients does to the connection, and answers, exactly what \<open>durable\<close> of theory
\<open>Connection\<close> does in the world whose baseline and \<open>WAITAOF\<close> are what the replies say.\<close>

theorem client_refines_connection:
  assumes "calm_client E" "ignores_health m" "client_durable E (backed_op E m) s = (r, s')"
  shows "durable (as_world E (length (rs_log s)) W) m (as_conn E s) = (r, as_conn E s')"
proof (cases "client_ready E s")
  case False
  then show ?thesis using assms(3) by (simp add: client_durable_def serial_unready durable_def serial_def as_conn_def)
next
  case True
  let ?n = "length (rs_log s)"
  obtain q t where q: "barrier_body E (backed_op E m) s = (q, t)" by force
  obtain b u where b: "requireBaseline E Writer s = (b, u)" by force
  obtain y c where m: "m (cx_conn s) = (y, c)" by force
  have conn: "c_healthy (as_conn E s)" "m (as_conn E s) = (y, c\<lparr>c_healthy := True\<rparr>)"
    using True assms(2) m by (simp_all add: as_conn_def ignores_health_def)
  have failed: "(r, as_conn E s') = (Inl Store_unavailable, (cx_conn t)\<lparr>c_healthy := False\<rparr>)" if "q = Inl e" for e
    using that assms(3) durable_ready [OF True q] by (auto simp: as_conn_def client_ready_def)
  show ?thesis
  proof (cases b)
    case (Inl e)
    then have "q = Inl e" "t = u" using q b by (simp_all add: barrier_body_def seq_def)
    moreover have "cx_conn u = cx_conn s" using calm_kept_conn [OF assms(1) baseline_run(1) [OF b]] by simp
    ultimately show ?thesis using failed baseline_run(2) [OF b] Inl conn(1)
      by (simp add: durable_def serial_def as_world_def as_conn_def)
  next
    case (Inr x)
    then have "requireBaseline E Writer s = (Inr (), u)" using b by simp
    note ends = backed_barrier [OF assms(1) True this m q]
    have "baseline_at E ?n" using baseline_run(2) [OF b] Inr by simp
    then show ?thesis using ends conn failed assms(3) durable_ready [OF True q]
      by (auto simp: durable_def serial_def as_world_def split: sum.splits if_splits)
  qed
qed

section \<open>No client is left open\<close>

text \<open>What a sweep over the clients owes to one of them between two points of the log.\<close>

definition cleared :: "client_env \<Rightarrow> nat \<Rightarrow> client_effect list \<Rightarrow> role \<Rightarrow> bool" where
  "cleared E n log r \<longleftrightarrow> C_destroy r \<in> set (drop n log) \<or> (\<exists>k \<ge> n. k \<le> length log \<and> ce_isOpen E k r \<noteq> Some True)"

definition surely_cleared :: "client_env \<Rightarrow> nat \<Rightarrow> client_effect list \<Rightarrow> role \<Rightarrow> bool" where
  "surely_cleared E n log r \<longleftrightarrow>
     (\<exists>k \<ge> n. k < length log \<and> log ! k = C_destroy r \<and> ce_unit E k = Inr () \<or> k \<le> length log \<and> ce_isOpen E k r = Some False)"

lemma cleared_mono: "cleared E n log r \<Longrightarrow> m \<le> n \<Longrightarrow> cleared E m (log @ later) r"
  using set_drop_subset_set_drop [of m n log] by (fastforce simp: cleared_def)

lemma surely_mono: "surely_cleared E n log r \<Longrightarrow> m \<le> n \<Longrightarrow> surely_cleared E m (log @ later) r"
proof -
  assume "surely_cleared E n log r" "m \<le> n"
  then obtain k where "m \<le> k" "k < length log \<and> log ! k = C_destroy r \<and> ce_unit E k = Inr () \<or> k \<le> length log \<and> ce_isOpen E k r = Some False"
    unfolding surely_cleared_def by (meson le_trans)
  then show ?thesis unfolding surely_cleared_def by (intro exI [of _ k]) (auto simp: nth_append)
qed

lemma destroy_run:
  assumes "destroy E r s = (x, s')"
  shows "\<exists>d failed. x = Inr failed \<and> s' = s\<lparr>rs_log := rs_log s @ d\<rparr> \<and> set d \<subseteq> {C_destroy r} \<and>
    cleared E (length (rs_log s)) (rs_log s @ d) r \<and> (\<not> failed \<longrightarrow> surely_cleared E (length (rs_log s)) (rs_log s @ d) r)"
proof (cases "ce_isOpen E (length (rs_log s)) r = Some True")
  case True
  then have "x = Inr (ce_unit E (length (rs_log s)) \<noteq> Inr ())" "s' = s\<lparr>rs_log := rs_log s @ [C_destroy r]\<rparr>"
    using assms by (auto simp: destroy_def attempted_def if_open_def with_state_def catch_def seq_def cnow_def ret_def split: sum.splits)
  moreover have "cleared E (length (rs_log s)) (rs_log s @ [C_destroy r]) r" by (simp add: cleared_def)
  moreover have "ce_unit E (length (rs_log s)) = Inr () \<Longrightarrow> surely_cleared E (length (rs_log s)) (rs_log s @ [C_destroy r]) r"
    unfolding surely_cleared_def by (intro exI [of _ "length (rs_log s)"]) simp
  ultimately show ?thesis
    by (intro exI [of _ "[C_destroy r]"] exI [of _ "ce_unit E (length (rs_log s)) \<noteq> Inr ()"]) simp
next
  case False
  then have "x = Inr (ce_isOpen E (length (rs_log s)) r = None)" "s' = s"
    using assms
    by (auto simp: destroy_def attempted_def if_open_def with_state_def catch_def seq_def throw_def ret_def split: option.splits if_splits)
  then show ?thesis using False
    by (intro exI [of _ "[]"] exI [of _ "ce_isOpen E (length (rs_log s)) r = None"]) (auto simp: cleared_def surely_cleared_def)
qed

lemma sweep_run:
  assumes "each_client (destroy E) roles s = (x, s')"
  shows "\<exists>d failed. x = Inr failed \<and> s' = s\<lparr>rs_log := rs_log s @ d\<rparr> \<and> set d \<subseteq> C_destroy ` set roles \<and>
    (\<forall>r \<in> set roles. cleared E (length (rs_log s)) (rs_log s @ d) r \<and>
       (\<not> failed \<longrightarrow> surely_cleared E (length (rs_log s)) (rs_log s @ d) r))"
  using assms
proof (induction roles arbitrary: s x s')
  case Nil
  then show ?case by (intro exI [of _ "[]"] exI [of _ False]) (simp add: ret_def)
next
  case (Cons r roles)
  obtain y t where one: "destroy E r s = (y, t)" by force
  from destroy_run [OF one] obtain d a where d: "y = Inr a" "t = s\<lparr>rs_log := rs_log s @ d\<rparr>" "set d \<subseteq> {C_destroy r}"
    "cleared E (length (rs_log s)) (rs_log s @ d) r" "\<not> a \<longrightarrow> surely_cleared E (length (rs_log s)) (rs_log s @ d) r" by blast
  obtain z u where rest: "each_client (destroy E) roles t = (z, u)" by force
  from Cons.IH [OF rest] obtain e b where e: "z = Inr b" "u = t\<lparr>rs_log := rs_log t @ e\<rparr>" "set e \<subseteq> C_destroy ` set roles"
    "\<forall>q \<in> set roles. cleared E (length (rs_log t)) (rs_log t @ e) q \<and> (\<not> b \<longrightarrow> surely_cleared E (length (rs_log t)) (rs_log t @ e) q)" by blast
  have "x = Inr (a \<or> b)" "s' = u" using Cons.prems one rest d(1) e(1) by (simp_all add: seq_def ret_def)
  moreover have "cleared E (length (rs_log s)) (rs_log s @ d @ e) q \<and> (\<not> (a \<or> b) \<longrightarrow> surely_cleared E (length (rs_log s)) (rs_log s @ d @ e) q)"
    if "q \<in> set (r # roles)" for q
  proof (cases "q = r")
    case True
    then show ?thesis using cleared_mono [OF d(4), of _ e] surely_mono [of E "length (rs_log s)" "rs_log s @ d" r _ e] d(5) by simp
  next
    case False
    then have "q \<in> set roles" using that by simp
    then have "cleared E (length (rs_log t)) (rs_log t @ e) q" "\<not> b \<longrightarrow> surely_cleared E (length (rs_log t)) (rs_log t @ e) q"
      using e(4) by blast+
    moreover have "length (rs_log s) \<le> length (rs_log t)" using d(2) by simp
    ultimately show ?thesis
      using cleared_mono [of E "length (rs_log t)" "rs_log t @ e" q "length (rs_log s)" "[]"]
        surely_mono [of E "length (rs_log t)" "rs_log t @ e" q "length (rs_log s)" "[]"] d(2) by simp
  qed
  ultimately show ?case using d e by (intro exI [of _ "d @ e"] exI [of _ "a \<or> b"]) auto
qed

lemma all_roles: "set [Mapping, Reader, Writer] = UNIV" "set [Reader, Mapping, Writer] = UNIV"
  using role.exhaust by auto

text \<open>connecting is all or nothing: it succeeds only if the writer and the mapping reader each passed the check of the
server's durability settings right after they connected; if anything fails, every client is cleared, that is destroyed
unless it is seen not to be open, and the failure is reported as \<open>store_unavailable\<close>.\<close>

theorem connecting_is_all_or_nothing:
  fixes s s' :: "'z redis_client_scheme"
  assumes "rs_log s = []" "connectRedis E s = (r, s')"
  shows "case r of
      Inr _ \<Rightarrow> rs_log s' = C_connect Writer # baseline_commands Writer @ [C_connect Reader, C_connect Mapping] @ baseline_commands Mapping \<and>
        baseline_at E 1 \<and> baseline_at E 8
    | Inl e \<Rightarrow> e = Store_unavailable \<and> 
        (\<exists>pre d. rs_log s' = pre @ d \<and> set d \<subseteq> range C_destroy \<and> (\<forall>q. cleared E (length pre) (rs_log s') q))"
proof -
  define m :: "('z redis_client_scheme, unit) exec" where "m = seq (connect_client E Writer) (\<lambda>_. seq (requireBaseline E Writer) (\<lambda>_.
            seq (connect_client E Reader) (\<lambda>_. seq (connect_client E Mapping) (\<lambda>_. requireBaseline E Mapping))))"
  obtain q t where q: "m s = (q, t)" by force
  show ?thesis
  proof (cases q)
    case (Inl e)
    obtain y u where sweep: "each_client (destroy E) [Mapping, Reader, Writer] t = (y, u)" by force
    from sweep_run [OF sweep] obtain d failed where "y = Inr failed" "u = t\<lparr>rs_log := rs_log t @ d\<rparr>"
      "set d \<subseteq> range C_destroy" "\<forall>r \<in> UNIV. cleared E (length (rs_log t)) (rs_log t @ d) r" unfolding all_roles by blast
    moreover have "r = Inl Store_unavailable \<and> s' = u"
      using assms(2) q Inl sweep calculation(1) unfolding connectRedis_def m_def [symmetric]
      by (simp add: catch_def seq_def throw_def del: each_client.simps)
    ultimately have ends: "r = Inl Store_unavailable"
        "rs_log s' = rs_log t @ d \<and> set d \<subseteq> range C_destroy \<and> (\<forall>q. cleared E (length (rs_log t)) (rs_log s') q)" by simp_all
    have "\<exists>pre d. rs_log s' = pre @ d \<and> set d \<subseteq> range C_destroy \<and> (\<forall>q. cleared E (length pre) (rs_log s') q)"
      by (rule exI [of _ "rs_log t"], rule exI [of _ d], rule ends(2))
    then show ?thesis using ends(1) by simp
  next
    case (Inr x)
    then have "r = Inr x" "s' = t" using assms(2) q unfolding connectRedis_def m_def [symmetric] by (simp_all add: catch_def)
    moreover obtain a b c d where steps: "connect_client E Writer s = (Inr (), a)" "requireBaseline E Writer a = (Inr (), b)"
      "connect_client E Reader b = (Inr (), c)" "connect_client E Mapping c = (Inr (), d)" "requireBaseline E Mapping d = (Inr (), t)"
      using q Inr unfolding m_def by (auto simp: seq_Inr)
    moreover have "rs_log a = [C_connect Writer]" "rs_log c = rs_log b @ [C_connect Reader]" "rs_log d = rs_log c @ [C_connect Mapping]"
      using steps assms(1) by (auto simp: connect_client_def ccall_def)
    ultimately show ?thesis using baseline_run(2,3) [OF steps(2)] baseline_run(2,3) [OF steps(5)] by simp
  qed
qed


lemma ask_close_run:
  assumes "ask_close E r s = (x, s')"
  shows "\<exists>b failed. x = Inr failed \<and> kept E s s' \<and> rs_log s' = rs_log s @ b \<and> set b \<subseteq> {C_close r}"
proof (cases "ce_isOpen E (length (rs_log s)) r = Some True")
  case True
  then have "s' = sent E (C_close r) s" "\<exists>failed. x = Inr failed"
    using assms by (auto simp: ask_close_def attempted_def if_open_def with_state_def catch_def seq_def ccall_def ret_def split: sum.splits)
  then show ?thesis using sent_kept by (intro exI [of _ "[C_close r]"]) auto
next
  case False
  then have "s' = s" "\<exists>failed. x = Inr failed"
    using assms
    by (auto simp: ask_close_def attempted_def if_open_def with_state_def catch_def seq_def throw_def ret_def split: option.splits if_splits)
  then show ?thesis using kept_client_refl by (intro exI [of _ "[]"]) auto
qed

lemma close_body_run:
  assumes "close_body E s = (r, s')"
  shows "\<exists>a b d. kept E s s' \<and> rs_log s' = rs_log s @ a @ C_tail # b @ d \<and>
    set a \<subseteq> {C_destroy Reader} \<and> set b \<subseteq> {C_close Mapping, C_close Writer} \<and> set d \<subseteq> range C_destroy \<and>
    (\<forall>q. cleared E (length (rs_log s @ a @ C_tail # b)) (rs_log s') q) \<and>
    (case r of Inl e \<Rightarrow> e = Store_unavailable | Inr _ \<Rightarrow> \<forall>q. surely_cleared E (length (rs_log s @ a @ C_tail # b)) (rs_log s') q)"
proof -
  have grow: "kept E t (t\<lparr>rs_log := rs_log t @ l\<rparr>)" for t :: "'z redis_client_scheme" and l by (simp add: kept_def)
  obtain f1 t1 where 1: "destroy E Reader s = (f1, t1)" by force
  from destroy_run [OF 1] obtain a x1 where a: "f1 = Inr x1" "t1 = s\<lparr>rs_log := rs_log s @ a\<rparr>" "set a \<subseteq> {C_destroy Reader}" by blast
  let ?t2 = "sent E C_tail t1"
  obtain f3 t3 where 3: "ask_close E Mapping ?t2 = (f3, t3)" by force
  from ask_close_run [OF 3] obtain b1 x3 where b1: "f3 = Inr x3" "kept E ?t2 t3" "rs_log t3 = rs_log ?t2 @ b1" "set b1 \<subseteq> {C_close Mapping}" by blast
  obtain f4 t4 where 4: "ask_close E Writer t3 = (f4, t4)" by force
  from ask_close_run [OF 4] obtain b2 x4 where b2: "f4 = Inr x4" "kept E t3 t4" "rs_log t4 = rs_log t3 @ b2" "set b2 \<subseteq> {C_close Writer}" by blast
  obtain f5 t5 where 5: "each_client (destroy E) [Reader, Mapping, Writer] t4 = (f5, t5)" by force
  from sweep_run [OF 5, unfolded all_roles] obtain d x5 where d: "f5 = Inr x5" "t5 = t4\<lparr>rs_log := rs_log t4 @ d\<rparr>" "set d \<subseteq> range C_destroy"
    "\<forall>q. cleared E (length (rs_log t4)) (rs_log t4 @ d) q \<and> (\<not> x5 \<longrightarrow> surely_cleared E (length (rs_log t4)) (rs_log t4 @ d) q)" by blast
  have closes: "each_client (ask_close E) [Mapping, Writer] ?t2 = (Inr (x3 \<or> x4), t4)"
    using 3 4 b1(1) b2(1) by (simp add: seq_def ret_def)
  have ends: "s' = t5" "r = (if x1 \<or> (x3 \<or> x4) \<or> x5 then Inl Store_unavailable else Inr ())"
    using assms 1 a(1) closes 5 d(1)
    by (auto simp: close_body_def seq_def ccall_def must_def require_def lift_def guard_def simp del: each_client.simps split: if_splits)
  have "kept E s t1" "kept E t1 ?t2" "kept E t4 t5" using grow [of s a] sent_kept [of E t1 C_tail] grow [of t4 d] a(2) d(2) by simp_all
  then have kept: "kept E s s'" using b1(2) b2(2) ends(1) by (metis kept_client_trans)
  have before: "rs_log t4 = rs_log s @ a @ C_tail # (b1 @ b2)" using a(2) b1(3) b2(3) by simp
  then have log: "rs_log s' = rs_log s @ a @ C_tail # (b1 @ b2) @ d" using d(2) ends(1) by simp
  have after: "rs_log t4 @ d = rs_log s'" using before log by simp
  have sets: "set (b1 @ b2) \<subseteq> {C_close Mapping, C_close Writer}" using b1(4) b2(4) by auto
  have clear: "\<forall>q. cleared E (length (rs_log s @ a @ C_tail # (b1 @ b2))) (rs_log s') q"
    using d(4) unfolding before [symmetric] after by blast
  have sure: "case r of Inl e \<Rightarrow> e = Store_unavailable
      | Inr _ \<Rightarrow> \<forall>q. surely_cleared E (length (rs_log s @ a @ C_tail # (b1 @ b2))) (rs_log s') q"
    using d(4) ends(2) unfolding before [symmetric] after by auto
  show ?thesis
    by (rule exI [of _ a], rule exI [of _ "b1 @ b2"], rule exI [of _ d], intro conjI) (rule kept log a(3) sets d(3) clear sure)+
qed

text \<open>C26: a close releases everything once: it waits for the queue before it asks the writing clients to close, never interrupts
one of them earlier, and sweeps every client at the end; it succeeds only if every client was destroyed or seen
closed in that sweep. Afterwards no operation runs, and a second close does nothing and gives the same answer.\<close>

theorem close_releases_once:
  fixes s s' :: "'z redis_client_scheme"
  assumes "rs_closed s = None" "close_client E s = (r, s')"
  shows "(\<exists>a b d. rs_log s' = rs_log s @ a @ C_tail # b @ d \<and>
      set a \<subseteq> {C_destroy Reader} \<and> set b \<subseteq> {C_close Mapping, C_close Writer} \<and> set d \<subseteq> range C_destroy \<and>
      (\<forall>q. cleared E (length (rs_log s @ a @ C_tail # b)) (rs_log s') q) \<and>
      (case r of Inl e \<Rightarrow> e = Store_unavailable | Inr _ \<Rightarrow> \<forall>q. surely_cleared E (length (rs_log s @ a @ C_tail # b)) (rs_log s') q)) \<and>
    client_serial E (k :: ('z redis_client_scheme, 'b) exec) s' = (Inl Store_unavailable, s') \<and> close_client E s' = (r, s')"
proof -
  obtain q t where body: "close_body E (s\<lparr>rs_closing := True\<rparr>) = (q, t)" by force
  then have ends: "r = q" "s' = t\<lparr>rs_closed := Some r\<rparr>" using assms by (auto simp: close_client_def)
  note run = close_body_run [OF body]
  then have "rs_closing s'" using ends(2) by (auto simp: kept_def)
  then have "client_serial E k s' = (Inl Store_unavailable, s')" by (simp add: serial_unready client_ready_def)
  moreover have "close_client E s' = (r, s')" using ends by (simp add: close_client_def)
  moreover have logs: "rs_log (s\<lparr>rs_closing := True\<rparr>) = rs_log s" "rs_log s' = rs_log t" using ends(2) by simp_all
  ultimately show ?thesis using run unfolding ends(1) logs by blast
qed

section \<open>Runs\<close>

definition demo_replies :: "resp list" where
  "demo_replies = [R_text ''redis_version:7.2.0'', R_list [R_text ''appendonly'', R_text ''yes''], R_list [R_text ''appendfsync'', R_text ''always''],
     R_list [R_text ''maxmemory-policy'', R_text ''noeviction''], R_text (''aof_enabled:1'' @ [CHR 0x0D, CHR 0x0A] @ ''aof_last_write_status:ok'')]"

definition demo_client :: "resp list \<Rightarrow> client_env" where
  "demo_client replies = \<lparr>ce_redis = \<lparr>xc_url = ''r'', xc_waitAofMs = 100, xc_blockMs = 1\<rparr>, ce_unit = (\<lambda>_. Inr ()),
     ce_reply = (\<lambda>n. Inr (replies ! n)), ce_ready = (\<lambda>_ _. True), ce_isOpen = (\<lambda>_ _. Some True), ce_breaks = (\<lambda>_. False),
     ce_closes = (\<lambda>_. False)\<rparr>"

lemma demo_replies_ok: "version_ok (R_text ''redis_version:7.2.0'')" "setting_ok ''appendonly'' ''yes'' (R_list [R_text ''appendonly'', R_text ''yes''])"
  "setting_ok ''appendfsync'' ''always'' (R_list [R_text ''appendfsync'', R_text ''always''])"
  "setting_ok ''maxmemory-policy'' ''noeviction'' (R_list [R_text ''maxmemory-policy'', R_text ''noeviction''])"
  "persistence_ok (R_text (''aof_enabled:1'' @ [CHR 0x0D, CHR 0x0A] @ ''aof_last_write_status:ok''))"
  "acknowledged (R_list [R_number 1, R_number 0])"
  by code_simp+

abbreviation write_replies :: "resp list" where
  "write_replies \<equiv> demo_replies @ [R_nil, R_list [R_number 1, R_number 0]]"

lemma demo_client_calm: "calm_client (demo_client replies)"
  by (simp add: calm_client_def demo_client_def)

definition demo_write :: "(redis_client, unit) exec" where
  "demo_write = ccall (demo_client write_replies) C_operation (\<lambda>_. Inr ())"

lemma demo_write_runs: "fst (client_durable (demo_client write_replies) demo_write new_client) = Inr ()"
  by (simp add: client_durable_def client_serial_def with_state_def client_ready_def catch_def barrier_body_def requireBaseline_def required_settings_def
      demo_write_def demo_client_def client_defs meanwhile_def new_client_def demo_replies_def demo_replies_ok
      [unfolded append_Cons append_Nil])


theorem write_is_durable_witness: "baseline_at (demo_client write_replies) 0"
proof -
  have "extends_log demo_write" by (auto simp: extends_log_def demo_write_def ccall_def)
  moreover obtain s' where "client_durable (demo_client write_replies) demo_write new_client = (Inr (), s')"
    using demo_write_runs by (metis prod.collapse)
  ultimately show ?thesis using write_is_durable [of demo_write "demo_client write_replies" new_client "Inr ()"] by (auto simp: new_client_def)
qed

lemma eval_ignores_health: "ignores_health (eval_script W chat oper)"
  by (auto simp: ignores_health_def eval_script_def Let_def split: delivery.split)

definition demo_backed :: "list_stream backed_client" where
  "demo_backed = redis_client.extend new_client \<lparr>cx_conn = demo_conn\<rparr>"

theorem client_refines_connection_witness:
  "\<exists>r s'. client_durable (demo_client write_replies) (backed_op (demo_client write_replies) (eval_script demo_world ''1@g.us'' Op_read)) demo_backed = (r, s') \<and>
     durable (as_world (demo_client write_replies) 0 demo_world) (eval_script demo_world ''1@g.us'' Op_read) (as_conn (demo_client write_replies) demo_backed) =
       (r, as_conn (demo_client write_replies) s')"
proof -
  obtain r s' where run: "client_durable (demo_client write_replies) (backed_op (demo_client write_replies) (eval_script demo_world ''1@g.us'' Op_read))
      demo_backed = (r, s')" by force
  have "length (rs_log demo_backed) = 0" by (simp add: demo_backed_def new_client_def redis_client.defs)
  then show ?thesis using client_refines_connection [OF demo_client_calm eval_ignores_health run, of demo_world] run by auto
qed

abbreviation connect_replies :: "resp list" where
  "connect_replies \<equiv> R_nil # demo_replies @ [R_nil, R_nil] @ demo_replies"

theorem connecting_is_all_or_nothing_witness:
  "rs_log (snd (connectRedis (demo_client connect_replies) new_client)) =
     C_connect Writer # baseline_commands Writer @ [C_connect Reader, C_connect Mapping] @ baseline_commands Mapping"
proof -
  have "fst (connectRedis (demo_client connect_replies) new_client) = Inr ()"
    by (simp add: connectRedis_def catch_def connect_client_def requireBaseline_def required_settings_def demo_client_def client_defs
        meanwhile_def new_client_def demo_replies_def demo_replies_ok [unfolded append_Cons append_Nil])
  then have "connectRedis (demo_client connect_replies) new_client =
      (Inr (), snd (connectRedis (demo_client connect_replies) new_client))" by (metis prod.collapse)
  from connecting_is_all_or_nothing [OF _ this] this show ?thesis by (simp add: new_client_def)
qed

theorem close_releases_once_witness:
  "\<exists>s'. close_client (demo_client []) new_client = (Inr (), s') \<and> close_client (demo_client []) s' = (Inr (), s')"
proof -
  have "close_client (demo_client []) new_client = (Inr (), new_client\<lparr>rs_closing := True, rs_closed := Some (Inr ()),
      rs_log := [C_destroy Reader, C_tail, C_close Mapping, C_close Writer, C_destroy Reader, C_destroy Mapping, C_destroy Writer]\<rparr>)"
    by (simp add: close_client_def close_body_def destroy_def ask_close_def attempted_def if_open_def with_state_def catch_def cnow_def
        demo_client_def client_defs meanwhile_def new_client_def)
  from this close_releases_once [OF _ this] show ?thesis by (auto simp: new_client_def)
qed

end
