(* ===== verification/Lazy.thy ===== *)
theory Lazy
  imports Trace
begin

text \<open>
  The session host of the process is built when the first turn asks for it (\<open>createLazyPiHost\<close> of
  \<open>src/session-controller/src/main.ts\<close>): one initialisation shared by every call, cut at its awaits, with calls to
  \<open>open\<close>, \<open>attach\<close> and \<open>close\<close> arriving and resuming between the pieces in any order; and the deferred checkpoint
  extension (\<open>createDeferredCheckpoint\<close>) that the initialisation fills in before the SDK can call it.
\<close>

section \<open>State\<close>

text \<open>\<open>Loading_modules\<close>: the extension module and the model runtime are awaited; \<open>Loading_sdk\<close>: \<open>loadNativeSdk\<close> is.\<close>

datatype lazy_init = Not_started | Loading_modules | Loading_sdk | Host_ready | Init_failed error_class

datatype lazy_call = Call_open | Call_attach

datatype lazy_effect =
    Z_load_modules | Z_delegate | Z_load_sdk | Z_create_host
  | Z_host nat lazy_call | Z_refused nat error_class
  | Z_close_called nat | Z_close_host nat | Z_closed nat "error_class + unit"
  | Z_checkpoint "error_class + unit"

record lazy_host =
  lz_closed :: bool
  lz_init :: lazy_init
  lz_delegate :: bool
  lz_waiting :: "(nat \<times> lazy_call) list"
  lz_closers :: "nat list"
  lz_log :: "lazy_effect list"

definition new_lazy :: lazy_host where
  "new_lazy = \<lparr>lz_closed = False, lz_init = Not_started, lz_delegate = False, lz_waiting = [], lz_closers = [], lz_log = []\<rparr>"

definition znote :: "lazy_effect \<Rightarrow> lazy_host \<Rightarrow> lazy_host" where
  "znote e s = s\<lparr>lz_log := lz_log s @ [e]\<rparr>"

section \<open>The deferred checkpoint extension\<close>

definition delegate_initialize :: "bool \<Rightarrow> error_class + bool" where
  "delegate_initialize delegate = (if delegate then Inl Session_failed else Inr True)"

text \<open>\<open>extension\<close> and \<open>run\<close>: what they answer before they reach the delegate.\<close>

definition delegate_call :: "bool \<Rightarrow> error_class + unit" where
  "delegate_call delegate = guard delegate Session_failed"

section \<open>Initialisation\<close>

text \<open>\<open>initialize\<close>: refused once closed, otherwise the one promise, started by the first call.\<close>

definition lazy_start :: "lazy_host \<Rightarrow> lazy_host" where
  "lazy_start s = (if lz_init s = Not_started then znote Z_load_modules (s\<lparr>lz_init := Loading_modules\<rparr>) else s)"

definition initialize_call :: "nat \<Rightarrow> lazy_call \<Rightarrow> lazy_host \<Rightarrow> lazy_host" where
  "initialize_call i c s =
     (if lz_closed s then znote (Z_refused i Session_failed) s
      else (lazy_start s)\<lparr>lz_waiting := lz_waiting s @ [(i, c)]\<rparr>)"

definition modules_loaded :: "error_class + unit \<Rightarrow> lazy_host \<Rightarrow> lazy_host" where
  "modules_loaded r s =
     (if lz_init s \<noteq> Loading_modules then s
      else case r of
        Inl e \<Rightarrow> s\<lparr>lz_init := Init_failed e\<rparr>
      | Inr _ \<Rightarrow>
          (case delegate_initialize (lz_delegate s) of
             Inl e \<Rightarrow> s\<lparr>lz_init := Init_failed e\<rparr>
           | Inr d \<Rightarrow> znote Z_load_sdk (znote Z_delegate (s\<lparr>lz_delegate := d, lz_init := Loading_sdk\<rparr>))))"

text \<open>The SDK is loaded and the host constructed on it; either may fail.\<close>

definition sdk_loaded :: "error_class + unit \<Rightarrow> lazy_host \<Rightarrow> lazy_host" where
  "sdk_loaded r s =
     (if lz_init s \<noteq> Loading_sdk then s
      else case r of
        Inl e \<Rightarrow> s\<lparr>lz_init := Init_failed e\<rparr>
      | Inr _ \<Rightarrow> znote Z_create_host (s\<lparr>lz_init := Host_ready\<rparr>))"

section \<open>Calls\<close>

text \<open>A call that has awaited the initialisation looks again whether the host was closed meanwhile.\<close>

definition call_resumes :: "nat \<Rightarrow> lazy_call \<Rightarrow> lazy_host \<Rightarrow> lazy_host" where
  "call_resumes i c s =
     (if (i, c) \<notin> set (lz_waiting s) then s
      else let t = s\<lparr>lz_waiting := remove1 (i, c) (lz_waiting s)\<rparr> in
        case lz_init s of
          Host_ready \<Rightarrow> znote (if lz_closed s then Z_refused i Session_failed else Z_host i c) t
        | Init_failed e \<Rightarrow> znote (Z_refused i e) t
        | _ \<Rightarrow> s)"

definition lazy_close :: "nat \<Rightarrow> lazy_host \<Rightarrow> lazy_host" where
  "lazy_close j s =
     (let t = znote (Z_close_called j) (s\<lparr>lz_closed := True\<rparr>) in
      case lz_init s of
        Host_ready \<Rightarrow> znote (Z_close_host j) t
      | Not_started \<Rightarrow> znote (Z_closed j (Inr ())) t
      | _ \<Rightarrow> t\<lparr>lz_closers := lz_closers s @ [j]\<rparr>)"

text \<open>Only a failed initialisation is suppressed: no host exists then.\<close>

definition close_resumes :: "nat \<Rightarrow> lazy_host \<Rightarrow> lazy_host" where
  "close_resumes j s =
     (if j \<notin> set (lz_closers s) then s
      else let t = s\<lparr>lz_closers := remove1 j (lz_closers s)\<rparr> in
        case lz_init s of
          Host_ready \<Rightarrow> znote (Z_close_host j) t
        | Init_failed _ \<Rightarrow> znote (Z_closed j (Inr ())) t
        | _ \<Rightarrow> s)"

definition host_closed :: "nat \<Rightarrow> error_class + unit \<Rightarrow> lazy_host \<Rightarrow> lazy_host" where
  "host_closed j r s = (if Z_close_host j \<in> set (lz_log s) then znote (Z_closed j r) s else s)"

datatype lazy_event =
    Ev_call nat lazy_call | Ev_modules "error_class + unit" | Ev_sdk "error_class + unit" | Ev_resume nat lazy_call
  | Ev_close nat | Ev_close_resume nat | Ev_host_closed nat "error_class + unit" | Ev_checkpoint

fun lazy_step :: "lazy_host \<Rightarrow> lazy_event \<Rightarrow> lazy_host" where
  "lazy_step s (Ev_call i c) = initialize_call i c s"
| "lazy_step s (Ev_modules r) = modules_loaded r s"
| "lazy_step s (Ev_sdk r) = sdk_loaded r s"
| "lazy_step s (Ev_resume i c) = call_resumes i c s"
| "lazy_step s (Ev_close j) = lazy_close j s"
| "lazy_step s (Ev_close_resume j) = close_resumes j s"
| "lazy_step s (Ev_host_closed j r) = host_closed j r s"
| "lazy_step s Ev_checkpoint = znote (Z_checkpoint (delegate_call (lz_delegate s))) s"

definition lazy_run :: "lazy_event list \<Rightarrow> lazy_host" where
  "lazy_run es = foldl lazy_step new_lazy es"

section \<open>Invariant\<close>

definition lazy_guard :: "lazy_effect list \<Rightarrow> lazy_effect \<Rightarrow> bool" where
  "lazy_guard log e \<longleftrightarrow>
     (case e of
        Z_host i c \<Rightarrow> Z_create_host \<in> set log \<and> (\<forall>j. Z_close_called j \<notin> set log)
      | Z_close_host j \<Rightarrow> Z_create_host \<in> set log \<and> Z_close_called j \<in> set log
      | Z_closed j r \<Rightarrow> Z_close_host j \<in> set log \<or> Z_create_host \<notin> set log \<and> r = Inr ()
      | Z_checkpoint r \<Rightarrow> Z_load_sdk \<in> set log \<longrightarrow> r = Inr ()
      | Z_load_sdk \<Rightarrow> Z_delegate \<in> set log
      | _ \<Rightarrow> True)"

definition lazy_inv :: "lazy_host \<Rightarrow> bool" where
  "lazy_inv s \<longleftrightarrow> guarded lazy_guard (lz_log s) \<and>
     count_list (lz_log s) Z_load_modules = (if lz_init s = Not_started then 0 else 1) \<and>
     count_list (lz_log s) Z_create_host = (if lz_init s = Host_ready then 1 else 0) \<and>
     (Z_load_sdk \<in> set (lz_log s) \<longrightarrow> lz_delegate s) \<and>
     (lz_closed s \<longleftrightarrow> (\<exists>j. Z_close_called j \<in> set (lz_log s))) \<and>
     (\<forall>j \<in> set (lz_closers s). Z_close_called j \<in> set (lz_log s)) \<and>
     (\<forall>j r. Z_closed j r \<in> set (lz_log s) \<longrightarrow> Z_close_host j \<in> set (lz_log s) \<or>
        lz_closed s \<and> (lz_init s = Not_started \<or> (\<exists>e. lz_init s = Init_failed e)))"

lemma created_ready: "lazy_inv s \<Longrightarrow> Z_create_host \<in> set (lz_log s) \<longleftrightarrow> lz_init s = Host_ready"
  using count_list_0_iff [of "lz_log s" Z_create_host] by (auto simp: lazy_inv_def split: if_splits)

lemmas lazy_defs = initialize_call_def lazy_start_def modules_loaded_def sdk_loaded_def call_resumes_def lazy_close_def
  close_resumes_def host_closed_def znote_def delegate_initialize_def delegate_call_def

lemma lazy_step_inv:
  assumes "lazy_inv s"
  shows "lazy_inv (lazy_step s e)"
proof (cases e)
  case (Ev_call i c)
  then show ?thesis using assms by (auto simp: lazy_inv_def lazy_defs guarded_snoc lazy_guard_def)
next
  case (Ev_modules r)
  then show ?thesis using assms by (auto simp: lazy_inv_def lazy_defs guarded_snoc2 lazy_guard_def split: sum.split)
next
  case (Ev_sdk r)
  then show ?thesis using assms by (auto simp: lazy_inv_def lazy_defs guarded_snoc lazy_guard_def split: sum.split)
next
  case (Ev_resume i c)
  then show ?thesis using assms created_ready [OF assms]
    by (auto simp: lazy_inv_def lazy_defs guarded_snoc lazy_guard_def Let_def split: lazy_init.split)
next
  case (Ev_close j)
  then show ?thesis using assms created_ready [OF assms]
    by (auto simp: lazy_inv_def lazy_defs guarded_snoc guarded_snoc2 lazy_guard_def Let_def split: lazy_init.split)
next
  case (Ev_close_resume j)
  then show ?thesis using assms created_ready [OF assms]
    by (auto simp: lazy_inv_def lazy_defs guarded_snoc lazy_guard_def Let_def split: lazy_init.split dest: notin_set_remove1)
next
  case (Ev_host_closed j r)
  then show ?thesis using assms by (auto simp: lazy_inv_def lazy_defs guarded_snoc lazy_guard_def)
next
  case Ev_checkpoint
  then show ?thesis using assms by (auto simp: lazy_inv_def lazy_defs guarded_snoc lazy_guard_def guard_def)
qed

lemma lazy_run_inv: "lazy_inv (lazy_run es)"
proof -
  have "lazy_inv new_lazy" by (simp add: lazy_inv_def new_lazy_def)
  then have "lazy_inv (foldl lazy_step s es)" if "s = new_lazy" for s
    using that by (induction es rule: rev_induct) (simp_all add: lazy_step_inv)
  then show ?thesis by (simp add: lazy_run_def)
qed

section \<open>The property\<close>

text \<open>C24: one host, used while open and closed for certain: in whatever order calls to \<open>open\<close>, \<open>attach\<close> and \<open>close\<close> arrive and
resume, the initialisation starts at most once and makes at most one host; no call reaches the host before it exists or
after a close was asked for; a close that has settled has closed the host if one exists, even if it was made after the
close was asked for; and the checkpoint extension answers from the moment on that the SDK may call it.\<close>

theorem lazy_host_is_closed:
  assumes "lz_log (lazy_run es) = log"
  shows "count_list log Z_load_modules \<le> 1 \<and> count_list log Z_create_host \<le> 1 \<and>
    (\<forall>n < length log. \<forall>i c. log ! n = Z_host i c \<longrightarrow>
       Z_create_host \<in> set (take n log) \<and> (\<forall>j. Z_close_called j \<notin> set (take n log))) \<and>
    (\<forall>j r. Z_closed j r \<in> set log \<and> Z_create_host \<in> set log \<longrightarrow> Z_close_host j \<in> set log) \<and>
    (\<forall>n < length log. \<forall>r. log ! n = Z_checkpoint r \<and> Z_load_sdk \<in> set (take n log) \<longrightarrow> r = Inr ())"
proof -
  have inv: "lazy_inv (lazy_run es)" by (rule lazy_run_inv)
  then have guarded: "guarded lazy_guard log" and counts: "count_list log Z_load_modules \<le> 1" "count_list log Z_create_host \<le> 1"
    using assms by (auto simp: lazy_inv_def)
  have at: "lazy_guard (take n log) (log ! n)" if "n < length log" for n by (rule guardedD [OF guarded that])
  have host: "Z_create_host \<in> set (take n log) \<and> (\<forall>j. Z_close_called j \<notin> set (take n log))" if "n < length log" "log ! n = Z_host i c" for n i c
    using at [OF that(1)] that(2) by (simp add: lazy_guard_def)
  have checkpoint: "r = Inr ()" if "n < length log" "log ! n = Z_checkpoint r" "Z_load_sdk \<in> set (take n log)" for n r
    using at [OF that(1)] that(2,3) by (simp add: lazy_guard_def)
  have closed: "Z_close_host j \<in> set log" if "Z_closed j r \<in> set log" "Z_create_host \<in> set log" for j r
    using that inv created_ready [OF inv] assms by (auto simp: lazy_inv_def)
  show ?thesis using counts host checkpoint closed by blast
qed

definition demo_lazy :: "lazy_event list" where
  "demo_lazy = [Ev_call 0 Call_open, Ev_modules (Inr ()), Ev_close 1, Ev_sdk (Inr ()), Ev_checkpoint, Ev_resume 0 Call_open, Ev_close_resume 1,
     Ev_host_closed 1 (Inr ()), Ev_call 2 Call_attach]"

lemma demo_lazy_log: "lz_log (lazy_run demo_lazy) = [Z_load_modules, Z_delegate, Z_load_sdk, Z_close_called 1, Z_create_host, Z_checkpoint (Inr ()),
    Z_refused 0 Session_failed, Z_close_host 1, Z_closed 1 (Inr ()), Z_refused 2 Session_failed]"
  by (simp add: lazy_run_def demo_lazy_def lazy_defs new_lazy_def guard_def)

theorem lazy_host_is_closed_witness:
  "Z_closed 1 (Inr ()) \<in> set (lz_log (lazy_run demo_lazy)) \<and> Z_close_host 1 \<in> set (lz_log (lazy_run demo_lazy))"
  using lazy_host_is_closed [OF demo_lazy_log] by (auto simp: demo_lazy_log)

end
