(* ===== verification/Spec2Isabelle.thy ===== *)
theory Spec2Isabelle
  imports Script_Spec Coordinator_Spec Journal_Spec Checkpoint_Spec Extension_Spec Orphan_Spec Manifest_Spec
    Server_Close Lifecycle_Spec Config_Spec Host_Files Loader_Spec Intent_Spec Client_Spec Lazy
begin

text \<open>
  The session controller of the WhatsApp MCP server (\<open>src/session-controller/src\<close>). It admits
  message notifications of configured WhatsApp chats into Redis streams and lets one agent session per
  chat answer them in order, at most once each, with every tool call that changes the outside world
  journaled.

  \<^bold>\<open>The program and its theories.\<close>

    \<^item> The Redis script (\<open>redis/scripts.ts\<close>), the only writer of Redis: one function per branch of
      the Lua code over the nine keys of a chat. \<open>Decimal\<close> (counters as decimal strings), \<open>Keyspace\<close>
      (keys, journal rows, fences), \<open>Streams\<close> (the locale of Redis streams and its interpretation),
      \<open>Script_Intake\<close>, \<open>Script_Lease\<close>, \<open>Script_Work\<close>, \<open>Script_Repair\<close> (the operations), \<open>Script\<close> (the
      dispatch \<open>run_script\<close>), \<open>Database\<close> (all chats with the shared application and identity keys,
      \<open>redis/keys.ts\<close>). \<open>Script_Inv\<close>, \<open>Script_Runs\<close>, \<open>Script_Facts\<close> and \<open>Script_Spec\<close> prove the invariant
      of the keys and what holds along any sequence of runs: fencing, one head event at a time, one
      begin per turn, epochs and cursors that only grow, an event in one chat only, the sweep of a
      crashed worker's mutations, and run by run the one step a checkpoint record may take.
    \<^item> The records (\<open>domain.ts\<close>): \<open>Domain\<close> (schemas as predicates, the event fingerprint), \<open>Json\<close>,
      \<open>Encoders\<close> (canonical text), \<open>Records\<close> (decoders and encoders, with their round trips).
    \<^item> The Redis clients (\<open>redis/client.ts\<close>): \<open>Client\<close> (the check of the server's durability settings, connecting,
      serialised operations, the barrier with its \<open>WAITAOF\<close>, the close) and \<open>Client_Spec\<close> (a write is durable or closes the
      connection; nothing is left open; the barrier refines the one of \<open>Connection\<close>).
    \<^item> The repository (\<open>redis/repository.ts\<close>): \<open>Connection\<close> (the queue of
      operations and the durability barrier, seen from the repository), \<open>Repository\<close>, \<open>Repository_Repair\<close>, \<open>Repository_Own\<close> (its operations
      as actions on the connection), with \<open>Repository_Facts\<close>, \<open>Repository_Spec\<close>, \<open>Repository_Work\<close>: an event
      is not admitted after it was completed anywhere, a completion is backed by a proof in a session
      file, every success is durable.
    \<^item> Intake (\<open>intake/payload.ts\<close>, \<open>intake/signature.ts\<close>): \<open>Intake\<close>; the webhook server
      (\<open>intake/server.ts\<close>): \<open>Server\<close> cuts every handler into the pieces between its awaits, so that requests,
      store answers, lost connections, \<open>stopIntake\<close> and \<open>close\<close> interleave in any order. \<open>Server_Spec\<close> and
      \<open>Server_Close\<close>: the bound on requests in flight, what a positive answer proves, what stopping and
      closing guarantee. Header texts are Latin-1 bytes; whether Redis is ready is answered by the caller's port.
    \<^item> The completion index (\<open>pi/completion-index.ts\<close>): \<open>Evidence\<close> (the chunked strict reader of session
      files, equal to the reader of the whole file) and \<open>Index\<close> (rebuild, lookup, poisoning).
    \<^item> The scheduler (\<open>scheduler/*.ts\<close>): \<open>Worker\<close> (one claimed event up to its completion or pause) and
      \<open>Coordinator\<close> (slots, lease, stop). \<open>Worker_Spec\<close>: a gated effect follows a renewal and a check that were
      answered yes, and the effect that decides a run is named with its answer.
    \<^item> The tool journal (\<open>pi/tool-journal-extension.ts\<close>): \<open>Journal\<close> and \<open>Journal_Spec\<close>.
    \<^item> Compaction (\<open>compaction/*.ts\<close>): \<open>Checkpoint\<close> (validation, summary, confirmed history), \<open>Usage\<close> (does
      the conversation fit), \<open>Compactor\<close> (the preparation of a turn), \<open>Extension\<close> (the checkpoint extension:
      its hooks answer exactly while one compaction is armed), \<open>Orphan\<close> (the proof that a prepared
      compaction was abandoned, from a stable reading of its session file), \<open>Manifest\<close> (the one-shot
      recovery manifest, over a file-system state of names, files and handles whose every operation may fail).
    \<^item> The process (\<open>config.ts\<close>, \<open>main.ts\<close>): \<open>Config\<close> (both configurations from the environment; what loads is
      accepted by every component it is handed to), \<open>Lifecycle\<close> (start, bridge monitor, fail-closed, stop and
      cleanup of the process as steps; the command line), \<open>Recovery\<close> (the operator's repair of abandoned
      compactions, with the heartbeat as interference). \<open>Lifecycle_Spec\<close>: readiness, one report of a lost
      lease, an exit that cleans up everything, and at most ten awaited calls after a stop. \<open>Recovery_Spec\<close>,
      \<open>Recovery_Count\<close>: an abort rests on two equal proofs, and the report is what the ledger says that is read from the log,
      one line per claim.
      \<open>Intent\<close> and \<open>Intent_Spec\<close>: the operator's intent for records without recovery binding; what is
      published rests on two equal proofs of the only eligible claim, and everything staged or claimed is discarded or
      given back as far as the calls for it succeed.
    \<^item> The Pi session (\<open>pi/session-host.ts\<close>, \<open>pi/prompt-policy.ts\<close>, \<open>pi/mcp-loader.ts\<close>): \<open>Host\<close> (opening a new,
      stored or reopened session, the prompt, history, reconciliation, compaction, the durable append of a
      completion, dispose, over a log of the effects), \<open>Host_Spec\<close> and \<open>Host_Files\<close> (each effect directly follows an
      ownership check, one prompt per session, an append is synced and read back, a disposal is final), \<open>Policy\<close>
      (the prompt template), \<open>Loader\<close> and \<open>Loader_Spec\<close> (settings without a second adapter, the exact tool
      surface, the ownership of a connection), \<open>Lazy\<close> (the host that \<open>main.ts\<close> builds at the first turn, with calls and
      closes interleaved in any order).

  \<^bold>\<open>How effects are modelled.\<close> A Lua run is a state transformer, atomic as Redis runs it, with one value
  of the clock. Code that awaits is an execution of theory \<open>Exec\<close>: it takes a state and returns the
  thrown class or a value, with the state after it. The answers of ports (Redis, the session, the file
  system, clocks, identifiers) are functions of the step at which they are asked, collected in one
  environment record per component (\<open>world\<close>, \<open>index_env\<close>, \<open>worker_env\<close>, \<open>journal_env\<close>,
  \<open>compact_env\<close>, \<open>ext_env\<close>, \<open>manifest_env\<close>, \<open>recovery_env\<close>, \<open>host_env\<close>, \<open>load_env\<close>, \<open>intent_env\<close>, \<open>client_env\<close>); so every theorem is about all answers at all times. What other processes do to Redis
  between two scripts (\<open>w_others\<close>), and what the renewal loop does to a worker's variables while a call
  is awaited (\<open>we_others\<close>), are functions as well, as are the hooks that the session calls meanwhile
  (\<open>xe_hooks\<close>) and the steps of a heartbeat (\<open>xe_beats\<close>, \<open>ne_beats\<close>); what the session and the worker
  do to a host meanwhile is \<open>he_others\<close>. \<open>quiet\<close>, \<open>orderly\<close>, \<open>tame\<close>, \<open>steady\<close>, \<open>steady_work\<close>, \<open>logs_kept\<close>, \<open>prompts_kept\<close>,
  \<open>file_tame\<close> and \<open>disposal_kept\<close> state what they respect, and each has a witness. Theory \<open>Trace\<close> holds the rules for code
  that only calls its ports.

  \<^bold>\<open>Data.\<close> Strings are lists of UTF-8 bytes, so a length that JavaScript counts in UTF-16 units counts
  bytes here (the same for the ASCII identifiers the code compares). JSON text kept in Redis is kept as
  the value it encodes. A Redis hash is an association list with distinct keys, behind the locale
  \<open>hash_store\<close>; a stream is behind \<open>redis_streams\<close>. SHA-256, HMAC, \<open>JSON.parse\<close> of
  session lines and the detector of sensitive text are parameters. \<open>Internal_failed\<close> also stands for an exception that is
  no \<open>ControllerError\<close>. \<open>Date.parse\<close> is finite iff the text has the ISO form with fields in range. The \<open>URL\<close>
  constructor is a parameter of \<open>Config\<close>; \<open>dirname\<close> and \<open>isAbsolute\<close> are functions of the text.

  \<^bold>\<open>Bounds.\<close> The admission loop of the repository makes at most eight attempts, the reader of evidence
  at most eight snapshots, the scan for sensitive text at most 4096 steps: these are the bounds of the
  code, and the functions recurse on them.

  \<^bold>\<open>Not modelled.\<close> The set-up of the production objects and the inventory check in \<open>main.ts\<close>; the
  in-memory settings storage that \<open>mcp-loader.ts\<close> hands to the SDK; freezing and sealing of objects; the regular
  expressions that classify prompt failures for the log; hooks that the session runs after a run has settled; the
  wake hint \<open>waitForWork\<close>.
\<close>

end
